(* ===== verification/Prelude.thy ===== *)
theory Prelude
  imports Complex_Main "HOL-Library.Product_Lexorder" "HOL-Library.List_Lexorder"
    "HOL-Library.Char_ord" "HOL-Library.AList"
begin

text \<open>
  Shared vocabulary of the development: the pieces of Python and of its standard library the
  modelled sources use, and the generic lemmas about them.

  \<^item> Errors are values: a computation that may raise has type \<open>py_error + 'a\<close>.
  \<^item> Floats are real numbers: rounding of IEEE doubles is not modelled. \<open>float("inf")\<close>,
    where a source uses it, is the constructor \<open>Never\<close> of \<open>instant\<close>.
  \<^item> \<open>str\<close> is \<open>string\<close>; case mapping and whitespace are those of ASCII text.
  \<^item> \<open>min\<close>, \<open>max\<close> and \<open>sorted\<close> with a key are \<open>py_min_by\<close>, \<open>py_max_by\<close> and the
    library's stable \<open>sort_key\<close>; they return the first extremal element, as Python does,
    and raise \<open>ValueError\<close> on an empty sequence.
  \<^item> \<open>random.choices(xs, weights=ws, k=1)\<close> is \<open>py_choices xs ws u\<close>, where \<open>u\<close> is the
    value of \<open>random.random()\<close>.
\<close>

named_theorems py_defs "definitions of the Python vocabulary"

section \<open>Errors, truth values, numbers\<close>

datatype py_error =
    ValueError | KeyError | IndexError | ZeroDivisionError | TypeError | RuntimeError | IntegrityError

text \<open>\<open>x\<close> in a boolean position, for an optional number: \<open>None\<close> and zero are false.\<close>

definition truthy :: "'a::zero option \<Rightarrow> bool" where
  "truthy x \<longleftrightarrow> x \<noteq> None \<and> x \<noteq> Some 0"

lemma truthy_simps [simp]: "\<not> truthy None" "truthy (Some v) \<longleftrightarrow> v \<noteq> 0"
  by (auto simp: truthy_def)

lemma truthyE: "truthy x \<Longrightarrow> (\<And>v. x = Some v \<Longrightarrow> v \<noteq> 0 \<Longrightarrow> P) \<Longrightarrow> P"
  by (cases x) auto

text \<open>\<open>x or d\<close> for an optional number.\<close>

definition or_else :: "'a::zero option \<Rightarrow> 'a \<Rightarrow> 'a" where
  "or_else x d = (if truthy x then the x else d)"

lemma or_else_simps [simp]: "or_else None d = d" "or_else (Some v) d = (if v = 0 then d else v)"
  by (auto simp: or_else_def)

text \<open>\<open>x if x is not None else d\<close>, and \<open>x if x is not None else y\<close> for two optionals.\<close>

definition default :: "'a option \<Rightarrow> 'a \<Rightarrow> 'a" where
  "default x d = (case x of None \<Rightarrow> d | Some v \<Rightarrow> v)"

definition first_some :: "'a option \<Rightarrow> 'a option \<Rightarrow> 'a option" where
  "first_some x y = (case x of None \<Rightarrow> y | Some v \<Rightarrow> Some v)"

lemma default_simps [simp]: "default None d = d" "default (Some v) d = v"
  by (simp_all add: default_def)

lemma first_some_simps [simp]: "first_some None y = y" "first_some (Some v) y = Some v"
  by (simp_all add: first_some_def)

lemma first_some_eq_None [simp]: "first_some x y = None \<longleftrightarrow> x = None \<and> y = None"
  by (cases x) auto

text \<open>\<open>int(x)\<close> truncates towards zero.\<close>

definition py_int :: "real \<Rightarrow> int" where
  "py_int x = (if x < 0 then \<lceil>x\<rceil> else \<lfloor>x\<rfloor>)"

lemma py_int_of_int [simp]: "py_int (of_int n) = n"
  by (simp add: py_int_def)

lemma py_int_numeral [simp]:
  "py_int (numeral k) = numeral k" "py_int 0 = 0" "py_int 1 = 1" "py_int (- numeral k) = - numeral k"
  by (simp_all add: py_int_def)

lemma py_int_nonneg: "0 \<le> x \<Longrightarrow> 0 \<le> py_int x"
  by (simp add: py_int_def)

lemma py_int_le: "0 \<le> x \<Longrightarrow> of_int (py_int x) \<le> x"
  by (simp add: py_int_def)

lemma py_int_mono: "x \<le> y \<Longrightarrow> py_int x \<le> py_int y"
  by (cases "x < 0"; cases "y < 0") (auto simp: py_int_def ceiling_mono floor_mono intro: order_trans [of _ 0])

text \<open>\<open>x // y\<close> on floats.\<close>

definition py_floordiv :: "real \<Rightarrow> real \<Rightarrow> int" where
  "py_floordiv x y = \<lfloor>x / y\<rfloor>"

text \<open>Rounding to the nearest integer, ties to even, as the format \<open>.0f\<close> does.\<close>

definition round_half_even :: "real \<Rightarrow> int" where
  "round_half_even x =
     (let n = \<lfloor>x\<rfloor>; d = x - of_int n
      in if d < 1/2 then n else if 1/2 < d then n + 1 else if even n then n else n + 1)"

lemma round_half_even_of_int [simp]: "round_half_even (of_int n) = n"
  by (simp add: round_half_even_def)

lemma round_half_even_bounds:
  assumes "of_int lo \<le> x" and "x \<le> of_int hi"
  shows "lo \<le> round_half_even x \<and> round_half_even x \<le> hi"
proof -
  have lo: "lo \<le> \<lfloor>x\<rfloor>" using assms(1) by (simp add: le_floor_iff)
  have hi: "\<lfloor>x\<rfloor> \<le> hi" using assms(2) by linarith
  have "\<lfloor>x\<rfloor> + 1 \<le> hi" if "x - of_int \<lfloor>x\<rfloor> \<ge> 1/2"
    using that assms(2) by linarith
  with lo hi show ?thesis by (auto simp: round_half_even_def Let_def)
qed

section \<open>Points in time with infinity\<close>

text \<open>A timestamp or \<open>float("inf")\<close>; the latter is above every timestamp.\<close>

datatype instant = At real | Never

instantiation instant :: linorder
begin

fun less_eq_instant :: "instant \<Rightarrow> instant \<Rightarrow> bool" where
  "less_eq_instant (At x) (At y) \<longleftrightarrow> x \<le> y"
| "less_eq_instant _ Never \<longleftrightarrow> True"
| "less_eq_instant Never (At y) \<longleftrightarrow> False"

definition less_instant :: "instant \<Rightarrow> instant \<Rightarrow> bool" where
  "less_instant x y \<longleftrightarrow> x \<le> y \<and> \<not> y \<le> x"

instance
proof
  fix x y z :: instant
  show "x < y \<longleftrightarrow> x \<le> y \<and> \<not> y \<le> x" by (rule less_instant_def)
  show "x \<le> x" by (cases x) auto
  show "x \<le> y \<Longrightarrow> y \<le> z \<Longrightarrow> x \<le> z" by (cases x; cases y; cases z) auto
  show "x \<le> y \<Longrightarrow> y \<le> x \<Longrightarrow> x = y" by (cases x; cases y) auto
  show "x \<le> y \<or> y \<le> x" by (cases x; cases y) auto
qed

end

lemma less_instant_simps [simp]:
  "At x < At y \<longleftrightarrow> x < y" "At x < Never" "\<not> Never < t"
  by (auto simp: less_instant_def)

section \<open>Minimum, maximum with a key\<close>

fun min_by :: "('a \<Rightarrow> 'k::linorder) \<Rightarrow> 'a \<Rightarrow> 'a list \<Rightarrow> 'a" where
  "min_by key best [] = best"
| "min_by key best (x # xs) = min_by key (if key x < key best then x else best) xs"

fun py_min_by :: "('a \<Rightarrow> 'k::linorder) \<Rightarrow> 'a list \<Rightarrow> py_error + 'a" where
  "py_min_by key [] = Inl ValueError"
| "py_min_by key (x # xs) = Inr (min_by key x xs)"

fun max_by :: "('a \<Rightarrow> 'k::linorder) \<Rightarrow> 'a \<Rightarrow> 'a list \<Rightarrow> 'a" where
  "max_by key best [] = best"
| "max_by key best (x # xs) = max_by key (if key best < key x then x else best) xs"

fun py_max_by :: "('a \<Rightarrow> 'k::linorder) \<Rightarrow> 'a list \<Rightarrow> py_error + 'a" where
  "py_max_by key [] = Inl ValueError"
| "py_max_by key (x # xs) = Inr (max_by key x xs)"

lemma min_by_mem: "min_by key b xs \<in> insert b (set xs)"
proof (induction xs arbitrary: b)
  case (Cons x xs)
  show ?case using Cons.IH [of "if key x < key b then x else b"] by (auto split: if_splits)
qed simp

lemma min_by_le: "y \<in> insert b (set xs) \<Longrightarrow> key (min_by key b xs) \<le> key y"
proof (induction xs arbitrary: b y)
  case Nil
  then show ?case by simp
next
  case (Cons x xs)
  let ?b = "if key x < key b then x else b"
  have *: "key (min_by key ?b xs) \<le> key z" if "z \<in> insert ?b (set xs)" for z
    using Cons.IH [OF that] .
  from Cons.prems consider "y = b" | "y = x" | "y \<in> set xs" by auto
  then show ?case
  proof cases
    case 3
    then show ?thesis using * by simp
  qed (use * [of ?b] in \<open>auto split: if_splits\<close>)
qed

lemma max_by_mem: "max_by key b xs \<in> insert b (set xs)"
proof (induction xs arbitrary: b)
  case (Cons x xs)
  show ?case using Cons.IH [of "if key b < key x then x else b"] by (auto split: if_splits)
qed simp

lemma max_by_ge: "y \<in> insert b (set xs) \<Longrightarrow> key y \<le> key (max_by key b xs)"
proof (induction xs arbitrary: b y)
  case Nil
  then show ?case by simp
next
  case (Cons x xs)
  let ?b = "if key b < key x then x else b"
  have *: "key z \<le> key (max_by key ?b xs)" if "z \<in> insert ?b (set xs)" for z
    using Cons.IH [OF that] .
  from Cons.prems consider "y = b" | "y = x" | "y \<in> set xs" by auto
  then show ?case
  proof cases
    case 3
    then show ?thesis using * by simp
  qed (use * [of ?b] in \<open>auto split: if_splits\<close>)
qed

lemma py_min_by_total: "xs \<noteq> [] \<Longrightarrow> \<exists>x. py_min_by key xs = Inr x"
  by (cases xs) auto

lemma py_min_by_mem: "py_min_by key xs = Inr x \<Longrightarrow> x \<in> set xs"
  using min_by_mem [of key] by (cases xs) fastforce+

lemma py_min_by_le: "py_min_by key xs = Inr x \<Longrightarrow> y \<in> set xs \<Longrightarrow> key x \<le> key y"
  using min_by_le [of y _ _ key] by (cases xs) auto

lemma py_max_by_total: "xs \<noteq> [] \<Longrightarrow> \<exists>x. py_max_by key xs = Inr x"
  by (cases xs) auto

lemma py_max_by_mem: "py_max_by key xs = Inr x \<Longrightarrow> x \<in> set xs"
  using max_by_mem [of key] by (cases xs) fastforce+

lemma py_max_by_ge: "py_max_by key xs = Inr x \<Longrightarrow> y \<in> set xs \<Longrightarrow> key y \<le> key x"
  using max_by_ge [of y _ _ key] by (cases xs) auto

text \<open>With an injective key the minimum does not depend on the order of the sequence.\<close>

lemma py_min_by_unique:
  assumes "inj_on key (set xs)" and "x \<in> set xs" and "\<And>y. y \<in> set xs \<Longrightarrow> key x \<le> key y"
  shows "py_min_by key xs = Inr x"
proof -
  from assms(2) obtain m where m: "py_min_by key xs = Inr m"
    using py_min_by_total [of xs key] by (cases xs) auto
  then have "m \<in> set xs" and "key m \<le> key x"
    using py_min_by_mem [OF m] py_min_by_le [OF m assms(2)] by simp_all
  moreover have "key x \<le> key m" using assms(3) \<open>m \<in> set xs\<close> .
  ultimately have "m = x" using inj_onD [OF assms(1), of m x] assms(2) by simp
  with m show ?thesis by simp
qed

section \<open>Weighted random choice\<close>

text \<open>\<open>bisect.bisect_right(a, x, lo, hi)\<close>, the binary search of the standard library.\<close>

function bisect_right :: "real list \<Rightarrow> real \<Rightarrow> nat \<Rightarrow> nat \<Rightarrow> nat" where
  "bisect_right a x lo hi =
     (if lo < hi
      then let mid = (lo + hi) div 2
           in if x < a ! mid then bisect_right a x lo mid else bisect_right a x (mid + 1) hi
      else lo)"
  by pat_completeness auto
termination
  by (relation "measure (\<lambda>(a, x, lo, hi). hi - lo)") auto

declare bisect_right.simps [simp del]

lemma bisect_right_spec:
  "lo \<le> hi \<Longrightarrow>
    (let r = bisect_right a x lo hi
     in lo \<le> r \<and> r \<le> hi \<and> (r < hi \<longrightarrow> x < a ! r) \<and> (lo < r \<longrightarrow> a ! (r - 1) \<le> x))"
proof (induction a x lo hi rule: bisect_right.induct)
  case (1 a x lo hi)
  let ?mid = "(lo + hi) div 2"
  show ?case
  proof (cases "lo < hi")
    case True
    then have mid: "lo \<le> ?mid" "?mid < hi" by auto
    show ?thesis
    proof (cases "x < a ! ?mid")
      case True
      then have "bisect_right a x lo hi = bisect_right a x lo ?mid"
        using \<open>lo < hi\<close> by (simp add: bisect_right.simps [of a x lo hi])
      then show ?thesis using "1.IH"(1) [OF \<open>lo < hi\<close> refl True mid(1)] mid True
        by (fastforce simp: Let_def le_less)
    next
      case False
      then have "bisect_right a x lo hi = bisect_right a x (?mid + 1) hi"
        using \<open>lo < hi\<close> by (simp add: bisect_right.simps [of a x lo hi])
      moreover have "?mid + 1 \<le> hi" using mid by simp
      note IH = "1.IH"(2) [OF \<open>lo < hi\<close> refl False this]
      ultimately show ?thesis using mid False
        by (cases "bisect_right a x (?mid + 1) hi = ?mid + 1") (use IH in \<open>auto simp: Let_def\<close>)
    qed
  next
    case False
    then have "bisect_right a x lo hi = lo" by (subst bisect_right.simps) simp
    then show ?thesis using False "1.prems" by simp
  qed
qed

fun accumulate :: "real \<Rightarrow> real list \<Rightarrow> real list" where
  "accumulate acc [] = []"
| "accumulate acc (w # ws) = (acc + w) # accumulate (acc + w) ws"

lemma length_accumulate [simp]: "length (accumulate acc ws) = length ws"
  by (induction ws arbitrary: acc) auto

lemma nth_accumulate: "i < length ws \<Longrightarrow> accumulate acc ws ! i = acc + sum_list (take (Suc i) ws)"
  by (induction ws arbitrary: acc i) (auto simp: nth_Cons split: nat.splits)

lemma last_accumulate: "ws \<noteq> [] \<Longrightarrow> last (accumulate acc ws) = acc + sum_list ws"
  by (simp add: last_conv_nth nth_accumulate flip: length_greater_0_conv)

text \<open>\<open>random.choices(xs, weights=ws, k=1)[0]\<close>, with \<open>u\<close> the value of \<open>random()\<close>.\<close>

definition py_choices :: "'a list \<Rightarrow> real list \<Rightarrow> real \<Rightarrow> py_error + 'a" where
  "py_choices xs ws u =
     (let cum = accumulate 0 ws
      in if length cum \<noteq> length xs then Inl ValueError
         else if cum = [] then Inl IndexError
         else let total = last cum
              in if total \<le> 0 then Inl ValueError
                 else Inr (xs ! bisect_right cum (u * total) 0 (length xs - 1)))"

text \<open>A choice exists when the total is positive, and it has a positive weight.\<close>

lemma py_choices_index:
  assumes "length xs = length ws" and "0 < sum_list ws" and "0 \<le> u" and "u < 1"
  shows "\<exists>i < length xs. py_choices xs ws u = Inr (xs ! i) \<and> 0 < ws ! i"
proof -
  have ne: "ws \<noteq> []" using assms(2) by auto
  let ?cum = "accumulate 0 ws" and ?hi = "length xs - 1" and ?t = "sum_list ws"
  define r where "r = bisect_right ?cum (u * ?t) 0 ?hi"
  have spec: "r \<le> ?hi" "r < ?hi \<longrightarrow> u * ?t < ?cum ! r" "0 < r \<longrightarrow> ?cum ! (r - 1) \<le> u * ?t"
    using bisect_right_spec [of 0 ?hi ?cum "u * ?t"] by (simp_all add: r_def Let_def)
  have r: "r < length ws" using spec(1) assms(1) ne by (cases ws) auto
  have ut: "u * ?t < ?t" using assms by simp
  have upper: "u * ?t < sum_list (take (Suc r) ws)"
  proof (cases "r < ?hi")
    case True
    then show ?thesis using spec(2) nth_accumulate [OF r, of 0] by simp
  next
    case False
    then have "Suc r \<ge> length ws" using assms(1) by simp
    then show ?thesis using ut by simp
  qed
  have lower: "sum_list (take r ws) \<le> u * ?t"
  proof (cases r)
    case 0
    then show ?thesis using assms by simp
  next
    case (Suc k)
    then show ?thesis using spec(3) nth_accumulate [of k ws 0] r by simp
  qed
  have "sum_list (take (Suc r) ws) = sum_list (take r ws) + ws ! r"
    using r by (simp add: take_Suc_conv_app_nth)
  then have "0 < ws ! r" using upper lower by simp
  moreover have "?cum \<noteq> []" using ne by (metis length_0_conv length_accumulate)
  then have "py_choices xs ws u = Inr (xs ! r)"
    using assms(1,2) last_accumulate [OF ne, of 0] by (simp add: py_choices_def Let_def r_def)
  ultimately show ?thesis using r assms(1) by auto
qed

section \<open>Text\<close>

definition py_isspace :: "char \<Rightarrow> bool" where
  "py_isspace c = (let n = of_char c :: nat in (9 \<le> n \<and> n \<le> 13) \<or> (28 \<le> n \<and> n \<le> 32))"

definition py_lower_char :: "char \<Rightarrow> char" where
  "py_lower_char c = (let n = of_char c :: nat in if 65 \<le> n \<and> n \<le> 90 then char_of (n + 32) else c)"

definition py_lower :: "string \<Rightarrow> string" where
  "py_lower s = map py_lower_char s"

definition py_upper :: "string \<Rightarrow> string" where
  "py_upper s = map (\<lambda>c. let n = of_char c :: nat in if 97 \<le> n \<and> n \<le> 122 then char_of (n - 32) else c) s"

definition py_strip :: "string \<Rightarrow> string" where
  "py_strip s = rev (dropWhile py_isspace (rev (dropWhile py_isspace s)))"

lemma of_char_lower:
  "(of_char (py_lower_char c) :: nat) =
     (if 65 \<le> (of_char c :: nat) \<and> (of_char c :: nat) \<le> 90 then of_char c + 32 else of_char c)"
  by (simp add: py_lower_char_def Let_def)

lemma py_lower_char_idem [simp]: "py_lower_char (py_lower_char c) = py_lower_char c"
proof -
  have "\<not> (65 \<le> (of_char (py_lower_char c) :: nat) \<and> (of_char (py_lower_char c) :: nat) \<le> 90)"
    using of_char_lower [of c] by auto
  then show ?thesis by (auto simp: py_lower_char_def [of "py_lower_char c"] Let_def)
qed

lemma py_lower_idem [simp]: "py_lower (py_lower s) = py_lower s"
  by (simp add: py_lower_def)

lemma py_lower_eq_Nil [simp]: "py_lower s = [] \<longleftrightarrow> s = []"
  by (simp add: py_lower_def)

lemma py_isspace_lower [simp]: "py_isspace (py_lower_char c) = py_isspace c"
  by (auto simp: py_isspace_def of_char_lower Let_def)

lemma dropWhile_map_lower: "dropWhile py_isspace (map py_lower_char s) = map py_lower_char (dropWhile py_isspace s)"
  by (induction s) auto

lemma py_strip_lower: "py_strip (py_lower s) = py_lower (py_strip s)"
  by (simp add: py_strip_def py_lower_def dropWhile_map_lower rev_map)

lemma dropWhile_idem [simp]: "dropWhile P (dropWhile P xs) = dropWhile P xs"
  by (induction xs) auto

lemma dropWhile_rev_dropWhile:
  assumes "ys = dropWhile P ys"
  shows "dropWhile P (rev (dropWhile P (rev ys))) = rev (dropWhile P (rev ys))"
proof (cases "dropWhile P (rev ys)")
  case Nil
  then show ?thesis by (simp only: rev.simps dropWhile.simps)
next
  case (Cons z zs)
  then have ne: "\<exists>x\<in>set ys. \<not> P x" by (metis dropWhile_eq_Nil_conv list.distinct(1) set_rev)
  then obtain y ys' where y: "ys = y # ys'" by (cases ys) auto
  have "\<not> P y" using assms y by (metis dropWhile.simps(2) dropWhile_eq_Cons_conv list.inject)
  have "rev ys = rev ys' @ [y]" using y by simp
  then have "\<exists>ws. dropWhile P (rev ys) = ws @ [y]"
    using \<open>\<not> P y\<close> by (cases "\<exists>x\<in>set ys'. \<not> P x") (auto simp: dropWhile_append)
  then show ?thesis using \<open>\<not> P y\<close> by auto
qed

lemma py_strip_idem [simp]: "py_strip (py_strip s) = py_strip s"
  using dropWhile_rev_dropWhile [of "dropWhile py_isspace s" py_isspace]
  by (simp add: py_strip_def)

text \<open>Decimal digits of a natural number, as \<open>str(n)\<close> prints them.\<close>

fun show_nat :: "nat \<Rightarrow> string" where
  "show_nat n = (if n < 10 then [char_of (48 + n)] else show_nat (n div 10) @ [char_of (48 + n mod 10)])"

declare show_nat.simps [simp del]

lemma show_nat_nonempty: "show_nat n \<noteq> []"
  by (subst show_nat.simps) simp

definition show_int :: "int \<Rightarrow> string" where
  "show_int i = (if i < 0 then ''-'' @ show_nat (nat (- i)) else show_nat (nat i))"

definition starts_with :: "string \<Rightarrow> string \<Rightarrow> bool" where
  "starts_with p s \<longleftrightarrow> take (length p) s = p"

definition ends_with :: "string \<Rightarrow> string \<Rightarrow> bool" where
  "ends_with p s \<longleftrightarrow> length p \<le> length s \<and> drop (length s - length p) s = p"

text \<open>\<open>s.split(c)\<close> for a one-character separator.\<close>

fun split_on :: "char \<Rightarrow> string \<Rightarrow> string list" where
  "split_on c [] = [[]]"
| "split_on c (x # xs) =
     (if x = c then [] # split_on c xs
      else case split_on c xs of [] \<Rightarrow> [[x]] | p # ps \<Rightarrow> (x # p) # ps)"

lemma split_on_nonempty [simp]: "split_on c s \<noteq> []"
  by (induction s) (auto split: list.split)

lemma split_on_append: "split_on c (a @ c # b) = split_on c a @ split_on c b"
proof (induction a)
  case Nil
  then show ?case by simp
next
  case (Cons x a)
  then show ?case by (cases "split_on c a") auto
qed

text \<open>\<open>sep.join(parts)\<close> for a one-character separator.\<close>

fun join_char :: "char \<Rightarrow> string list \<Rightarrow> string" where
  "join_char c [] = []"
| "join_char c [p] = p"
| "join_char c (p # q # ps) = p @ c # join_char c (q # ps)"

lemma split_on_clean: "c \<notin> set p \<Longrightarrow> split_on c p = [p]"
  by (induction p) auto

lemma split_join: "ps \<noteq> [] \<Longrightarrow> \<forall>p\<in>set ps. c \<notin> set p \<Longrightarrow> split_on c (join_char c ps) = ps"
  by (induction c ps rule: join_char.induct) (auto simp: split_on_append split_on_clean)

section \<open>Dictionaries\<close>

text \<open>
  A dictionary whose order matters is an association list: \<open>AList.update\<close> replaces the value of
  a key in place and appends a new key, \<open>AList.delete\<close> removes it.
\<close>

lemma set_update_cases: "kv \<in> set (AList.update k v al) \<Longrightarrow> kv = (k, v) \<or> kv \<in> set al"
  by (induction al) (auto split: if_splits)

section \<open>Interfaces\<close>

text \<open>
  A picker takes one element of a candidate list: the contract every routing strategy meets.
  On a non-empty list it returns (no \<open>ValueError\<close>) and returns a member.
\<close>

locale picker =
  fixes pick :: "'a list \<Rightarrow> py_error + 'a"
  assumes pick_total: "xs \<noteq> [] \<Longrightarrow> \<exists>x. pick xs = Inr x"
    and pick_mem: "pick xs = Inr x \<Longrightarrow> x \<in> set xs"
begin

lemma pick_satisfies: "(\<And>x. x \<in> set xs \<Longrightarrow> P x) \<Longrightarrow> pick xs = Inr x \<Longrightarrow> P x"
  using pick_mem by blast

lemma pick_from_filter:
  assumes "x0 \<in> set xs" and "P x0"
  obtains x where "pick (filter P xs) = Inr x" and "x \<in> set xs" and "P x"
proof -
  have "filter P xs \<noteq> []" using assms by (auto simp: filter_empty_conv)
  then obtain x where x: "pick (filter P xs) = Inr x" using pick_total by blast
  then have "x \<in> set (filter P xs)" by (rule pick_mem)
  with x that show ?thesis by simp
qed

end

text \<open>
  A machine executes operations one after another; an invariant that every operation keeps
  holds after every sequence of operations.
\<close>

locale machine =
  fixes exec :: "'op \<Rightarrow> 's \<Rightarrow> 's" and invar :: "'s \<Rightarrow> bool"
  assumes invar_exec: "invar s \<Longrightarrow> invar (exec op s)"
begin

lemma invar_run: "invar s \<Longrightarrow> invar (fold exec ops s)"
  by (induction ops arbitrary: s) (auto intro: invar_exec)

end

interpretation min_picker: picker "py_min_by key" for key
  by unfold_locales (auto intro: py_min_by_total py_min_by_mem)

section \<open>Tables\<close>

text \<open>
  A table is the list of its rows: \<open>UPDATE ... WHERE\<close> is \<open>update_rows\<close>, and the question whether it
  returned a row is \<open>any_row\<close>.
\<close>

definition update_rows :: "('r \<Rightarrow> bool) \<Rightarrow> ('r \<Rightarrow> 'r) \<Rightarrow> 'r list \<Rightarrow> 'r list" where
  "update_rows P f rows = map (\<lambda>r. if P r then f r else r) rows"

definition any_row :: "('r \<Rightarrow> bool) \<Rightarrow> 'r list \<Rightarrow> bool" where
  "any_row P rows = list_ex P rows"

lemma update_rows_simps [simp]:
  "update_rows P f [] = []"
  "update_rows P f (r # rows) = (if P r then f r else r) # update_rows P f rows"
  "length (update_rows P f rows) = length rows"
  by (simp_all add: update_rows_def)

lemma length_filter_update:
  assumes "\<forall>r. Q r \<longrightarrow> \<not> P (f r)"
  shows "length (filter P (update_rows Q f rows)) \<le> length (filter P rows)"
    and "\<exists>r \<in> set rows. P r \<and> Q r \<Longrightarrow> length (filter P (update_rows Q f rows)) < length (filter P rows)"
proof -
  show le: "length (filter P (update_rows Q f rows)) \<le> length (filter P rows)" for rows
    using assms by (induction rows) (auto intro: le_SucI)
  show "length (filter P (update_rows Q f rows)) < length (filter P rows)" if "\<exists>r \<in> set rows. P r \<and> Q r"
    using that
  proof (induction rows)
    case (Cons r rows)
    then show ?case using assms le[of rows] by (cases "P r \<and> Q r") (auto simp: less_Suc_eq_le)
  qed simp
qed

lemma update_rows_twice:
  assumes "\<And>r. P (f r) = P r"
  shows "update_rows P g (update_rows P f rows) = update_rows P (\<lambda>r. g (f r)) rows"
  using assms by (induction rows) auto

lemma any_row_iff: "any_row P rows \<longleftrightarrow> (\<exists>r \<in> set rows. P r)"
  by (auto simp: any_row_def list_ex_iff)

lemma update_rows_cong: "(\<And>r. r \<in> set rows \<Longrightarrow> P r = Q r) \<Longrightarrow> update_rows P f rows = update_rows Q f rows"
  by (simp add: update_rows_def)

lemma update_rows_ident [simp]: "update_rows P (\<lambda>r. r) rows = rows"
  by (simp add: update_rows_def)

end
