(* ===== verification/Models.thy ===== *)
theory Models
  imports Prelude
begin

text \<open>
  The persisted data model (\<open>app/db/models.py\<close>) as far as the modelled components read or
  write it: the account status enumeration, the account row, the usage rows, and the usage
  window values of \<open>app/core/usage/types.py\<close> and \<open>app/core/usage/models.py\<close>.

  A \<open>datetime\<close> is its wall clock in seconds since the epoch, with the UTC offset of its
  time zone when it has one.
\<close>

datatype AccountStatus =
  ACTIVE | RATE_LIMITED | QUOTA_EXCEEDED | PAUSED | REAUTH_REQUIRED | DEACTIVATED

datatype StickySessionKind = CODEX_SESSION | STICKY_THREAD | PROMPT_CACHE

text \<open>Statuses only an operator or a re-login changes.\<close>

abbreviation terminal_status :: "AccountStatus \<Rightarrow> bool" where
  "terminal_status s \<equiv> s \<in> {REAUTH_REQUIRED, DEACTIVATED, PAUSED}"

datatype datetime = Naive real | Aware real real

text \<open>\<open>d.replace(tzinfo=timezone.utc).timestamp()\<close>: the wall clock read as UTC.\<close>

fun wall_as_utc :: "datetime \<Rightarrow> real" where
  "wall_as_utc (Naive w) = w"
| "wall_as_utc (Aware w off) = w"

text \<open>The instant a datetime denotes when a naive value means UTC.\<close>

fun utc_seconds :: "datetime \<Rightarrow> real" where
  "utc_seconds (Naive w) = w"
| "utc_seconds (Aware w off) = w - off"

record account =
  acct_id :: string
  acct_plan_type :: string
  acct_routing_policy :: string
  acct_status :: AccountStatus
  acct_deactivation_reason :: "string option"
  acct_reset_at :: "int option"
  acct_blocked_at :: "int option"
  acct_security_work_authorized :: bool

datatype usage_table = StandardUsage | AdditionalUsage

record usage_entry =
  ue_table :: usage_table
  ue_account_id :: string
  ue_recorded_at :: "datetime option"
  ue_window :: "string option"
  ue_used_percent :: "real option"
  ue_reset_at :: "int option"
  ue_window_minutes :: "int option"
  ue_credits_has :: "bool option"
  ue_credits_unlimited :: "bool option"
  ue_credits_balance :: "real option"

record usage_window_row =
  row_account_id :: string
  row_used_percent :: "real option"
  row_reset_at :: "int option"
  row_window_minutes :: "int option"
  row_recorded_at :: "datetime option"

definition usage_history_to_window_row :: "usage_entry \<Rightarrow> usage_window_row" where
  "usage_history_to_window_row entry =
     \<lparr>row_account_id = ue_account_id entry,
      row_used_percent = ue_used_percent entry,
      row_reset_at = ue_reset_at entry,
      row_window_minutes = ue_window_minutes entry,
      row_recorded_at = ue_recorded_at entry\<rparr>"

record usage_window_summary =
  sum_used_percent :: "real option"
  sum_capacity_credits :: real
  sum_used_credits :: real
  sum_reset_at :: "int option"
  sum_window_minutes :: "int option"

record usage_window_snapshot =
  snap_used_percent :: real
  snap_capacity_credits :: real
  snap_used_credits :: real
  snap_reset_at :: "int option"
  snap_window_minutes :: "int option"

record usage_window =
  uw_used_percent :: "real option"
  uw_reset_at :: "int option"
  uw_limit_window_seconds :: "int option"
  uw_reset_after_seconds :: "int option"

end
