(* ===== verification/Usage.thy ===== *)
theory Usage
  imports Models
begin

text \<open>
  Plan names, usage windows and the quota rule: \<open>app/core/plan_types.py\<close>,
  \<open>app/core/usage/__init__.py\<close>, \<open>app/core/usage/quota.py\<close> and
  \<open>app/core/usage/depletion.py\<close>. Python dictionaries whose iteration order is used are
  association lists with \<open>AList.update\<close>, which replaces in place and appends a new key.
  A function that reads the clock takes one argument per reading, in the order of the reads.
\<close>

section \<open>Plan types\<close>

definition ACCOUNT_PLAN_TYPES :: "string list" where
  "ACCOUNT_PLAN_TYPES =
     [''free'', ''plus'', ''pro'', ''prolite'', ''team'', ''business'', ''enterprise'', ''edu'']"

definition RATE_LIMIT_PLAN_TYPES :: "string list" where
  "RATE_LIMIT_PLAN_TYPES =
     ACCOUNT_PLAN_TYPES @ [''guest'', ''go'', ''free_workspace'', ''education'', ''quorum'', ''k12'']"

definition ACCOUNT_PLAN_EQUIVALENTS :: "(string \<times> string list) list" where
  "ACCOUNT_PLAN_EQUIVALENTS = [(''prolite'', [''pro''])]"

definition clean_plan_type :: "string option \<Rightarrow> string option" where
  "clean_plan_type value =
     (case value of None \<Rightarrow> None
      | Some v \<Rightarrow> (let cleaned = py_strip v in if cleaned = [] then None else Some cleaned))"

definition normalize_account_plan_type :: "string option \<Rightarrow> string option" where
  "normalize_account_plan_type value =
     (case clean_plan_type value of None \<Rightarrow> None
      | Some cleaned \<Rightarrow> (let normalized = py_lower cleaned
          in if normalized \<in> set ACCOUNT_PLAN_TYPES then Some normalized else None))"

definition canonicalize_account_plan_type :: "string option \<Rightarrow> string option" where
  "canonicalize_account_plan_type value =
     (case clean_plan_type value of None \<Rightarrow> None
      | Some cleaned \<Rightarrow> (let normalized = py_lower cleaned
          in if normalized \<in> set ACCOUNT_PLAN_TYPES then Some normalized else Some cleaned))"

definition coerce_account_plan_type :: "string option \<Rightarrow> string \<Rightarrow> string" where
  "coerce_account_plan_type value dflt =
     (case clean_plan_type value of None \<Rightarrow> dflt
      | Some cleaned \<Rightarrow>
          (case canonicalize_account_plan_type (Some cleaned) of
             Some canonical \<Rightarrow> canonical | None \<Rightarrow> dflt))"

definition normalize_rate_limit_plan_type :: "string option \<Rightarrow> string option" where
  "normalize_rate_limit_plan_type value =
     (case clean_plan_type value of None \<Rightarrow> None
      | Some cleaned \<Rightarrow> (let normalized = py_lower cleaned
          in if normalized \<in> set RATE_LIMIT_PLAN_TYPES then Some normalized else None))"

definition account_plan_matches_allowed :: "string option \<Rightarrow> string set \<Rightarrow> bool" where
  "account_plan_matches_allowed value allowed_plans =
     (case clean_plan_type value of None \<Rightarrow> False
      | Some cleaned \<Rightarrow>
         (let normalized_allowed = py_lower ` allowed_plans;
              normalized = normalize_account_plan_type (Some cleaned);
              candidate = default normalized (py_lower cleaned)
          in if candidate \<in> normalized_allowed then True
             else case normalized of None \<Rightarrow> False
               | Some n \<Rightarrow> set (default (map_of ACCOUNT_PLAN_EQUIVALENTS n) []) \<inter> normalized_allowed \<noteq> {}))"

section \<open>Capacities and windows\<close>

definition PLAN_CAPACITY_CREDITS_PRIMARY :: "(string \<times> real) list" where
  "PLAN_CAPACITY_CREDITS_PRIMARY =
     [(''free'', 0), (''plus'', 225), (''business'', 225), (''team'', 225), (''edu'', 225),
      (''pro'', 1500), (''prolite'', 1125), (''enterprise'', 1500)]"

definition PLAN_CAPACITY_CREDITS_SECONDARY :: "(string \<times> real) list" where
  "PLAN_CAPACITY_CREDITS_SECONDARY =
     [(''free'', 1134), (''plus'', 7560), (''business'', 7560), (''team'', 7560), (''edu'', 7560),
      (''pro'', 50400), (''prolite'', 37800), (''enterprise'', 50400)]"

definition PLAN_CAPACITY_CREDITS_MONTHLY :: "(string \<times> real) list" where
  "PLAN_CAPACITY_CREDITS_MONTHLY = [(''free'', 1134)]"

definition DEFAULT_WINDOW_MINUTES_PRIMARY :: int where "DEFAULT_WINDOW_MINUTES_PRIMARY = 300"

definition DEFAULT_WINDOW_MINUTES_SECONDARY :: int where "DEFAULT_WINDOW_MINUTES_SECONDARY = 10080"

definition DEFAULT_WINDOW_MINUTES_MONTHLY :: int where "DEFAULT_WINDOW_MINUTES_MONTHLY = 43200"

definition normalize_window_key :: "string option \<Rightarrow> string" where
  "normalize_window_key window =
     (let normalized = py_lower (default window [])
      in if normalized \<in> {''primary'', ''5h''} then ''primary''
         else if normalized \<in> {''secondary'', ''7d''} then ''secondary''
         else if normalized \<in> {''monthly'', ''30d''} then ''monthly''
         else normalized)"

record normalized_rate_limit_windows =
  nw_primary :: "usage_window option"
  nw_secondary :: "usage_window option"
  nw_monthly :: "usage_window option"

definition normalize_rate_limit_windows ::
  "usage_window option \<Rightarrow> usage_window option \<Rightarrow> normalized_rate_limit_windows" where
  "normalize_rate_limit_windows primary_window secondary_window =
     (if (case primary_window of None \<Rightarrow> False
          | Some w \<Rightarrow> uw_limit_window_seconds w = Some (DEFAULT_WINDOW_MINUTES_MONTHLY * 60))
         \<and> secondary_window = None
      then \<lparr>nw_primary = None, nw_secondary = None, nw_monthly = primary_window\<rparr>
      else \<lparr>nw_primary = primary_window, nw_secondary = secondary_window, nw_monthly = None\<rparr>)"

definition used_credits_from_percent :: "real option \<Rightarrow> real option \<Rightarrow> real option" where
  "used_credits_from_percent used_percent capacity_credits =
     (case (used_percent, capacity_credits) of
        (Some u, Some c) \<Rightarrow> Some (c * u / 100) | _ \<Rightarrow> None)"

definition remaining_percent_from_used :: "real option \<Rightarrow> real option" where
  "remaining_percent_from_used used_percent = map_option (\<lambda>u. max 0 (100 - u)) used_percent"

definition remaining_credits_from_used :: "real option \<Rightarrow> real option \<Rightarrow> real option" where
  "remaining_credits_from_used used_credits capacity_credits =
     (case (used_credits, capacity_credits) of
        (Some u, Some c) \<Rightarrow> Some (max 0 (c - u)) | _ \<Rightarrow> None)"

definition remaining_credits_from_percent :: "real option \<Rightarrow> real option \<Rightarrow> real option" where
  "remaining_credits_from_percent used_percent capacity_credits =
     remaining_credits_from_used (used_credits_from_percent used_percent capacity_credits)
       capacity_credits"

definition normalize_usage_window :: "usage_window_summary \<Rightarrow> usage_window_snapshot" where
  "normalize_usage_window s =
     \<lparr>snap_used_percent = or_else (sum_used_percent s) 0,
      snap_capacity_credits = sum_capacity_credits s,
      snap_used_credits = sum_used_credits s,
      snap_reset_at = sum_reset_at s,
      snap_window_minutes = sum_window_minutes s\<rparr>"

definition capacity_for_plan :: "string option \<Rightarrow> string \<Rightarrow> real option" where
  "capacity_for_plan plan_type window =
     (case normalize_account_plan_type plan_type of None \<Rightarrow> None
      | Some normalized \<Rightarrow>
         (let window_key = normalize_window_key (Some window)
          in if window_key = ''primary'' then map_of PLAN_CAPACITY_CREDITS_PRIMARY normalized
             else if window_key = ''secondary'' then map_of PLAN_CAPACITY_CREDITS_SECONDARY normalized
             else if window_key = ''monthly'' then map_of PLAN_CAPACITY_CREDITS_MONTHLY normalized
             else None))"

definition default_window_minutes :: "string \<Rightarrow> int option" where
  "default_window_minutes window =
     (let window_key = normalize_window_key (Some window)
      in if window_key = ''primary'' then Some DEFAULT_WINDOW_MINUTES_PRIMARY
         else if window_key = ''secondary'' then Some DEFAULT_WINDOW_MINUTES_SECONDARY
         else if window_key = ''monthly'' then Some DEFAULT_WINDOW_MINUTES_MONTHLY
         else None)"

text \<open>The set of window lengths is a list without repetitions, in any order.\<close>

definition resolve_window_minutes_of :: "string \<Rightarrow> int list \<Rightarrow> int option" where
  "resolve_window_minutes_of window values =
     (case values of [] \<Rightarrow> default_window_minutes window
      | v # vs \<Rightarrow>
          if vs = [] then Some v
          else (case default_window_minutes window of Some d \<Rightarrow> Some d
                | None \<Rightarrow> Some (fold min vs v)))"

definition positive_window_minutes :: "usage_window_row list \<Rightarrow> int list" where
  "positive_window_minutes rows =
     remdups (List.map_filter
       (\<lambda>row. case row_window_minutes row of
                Some m \<Rightarrow> if m > 0 then Some m else None | None \<Rightarrow> None) rows)"

definition resolve_window_minutes :: "string \<Rightarrow> usage_window_row list \<Rightarrow> int option" where
  "resolve_window_minutes window rows =
     resolve_window_minutes_of window (positive_window_minutes rows)"

definition is_window_minutes :: "string \<Rightarrow> int option \<Rightarrow> bool" where
  "is_window_minutes window window_minutes =
     (case window_minutes of None \<Rightarrow> False
      | Some m \<Rightarrow> (case default_window_minutes window of None \<Rightarrow> False | Some d \<Rightarrow> m = d))"

definition is_weekly_window_minutes :: "int option \<Rightarrow> bool" where
  "is_weekly_window_minutes window_minutes = is_window_minutes ''secondary'' window_minutes"

definition is_monthly_window_minutes :: "int option \<Rightarrow> bool" where
  "is_monthly_window_minutes window_minutes = is_window_minutes ''monthly'' window_minutes"

definition is_primary_window_minutes :: "int option \<Rightarrow> bool" where
  "is_primary_window_minutes window_minutes = is_window_minutes ''primary'' window_minutes"

section \<open>Usage rows\<close>

record usage_totals =
  tot_capacity :: real
  tot_used :: real
  tot_resets :: "int list"

definition summarize_row ::
  "(string \<rightharpoonup> account) \<Rightarrow> string \<Rightarrow> usage_window_row \<Rightarrow> usage_totals \<Rightarrow> usage_totals" where
  "summarize_row account_map window row acc =
     (let acc = (case row_reset_at row of None \<Rightarrow> acc
                 | Some r \<Rightarrow> acc\<lparr>tot_resets := tot_resets acc @ [r]\<rparr>);
          capacity = capacity_for_plan
            (map_option acct_plan_type (account_map (row_account_id row))) window
      in case (row_used_percent row, capacity) of
           (Some u, Some c) \<Rightarrow>
             acc\<lparr>tot_capacity := tot_capacity acc + c, tot_used := tot_used acc + c * u / 100\<rparr>
         | _ \<Rightarrow> acc)"

definition summarize_usage_window ::
  "usage_window_row list \<Rightarrow> (string \<rightharpoonup> account) \<Rightarrow> string \<Rightarrow> usage_window_summary" where
  "summarize_usage_window usage_rows account_map window =
     (let tot = fold (summarize_row account_map window) usage_rows
                  \<lparr>tot_capacity = 0, tot_used = 0, tot_resets = []\<rparr>
      in \<lparr>sum_used_percent =
            (if tot_capacity tot > 0 then Some (tot_used tot / tot_capacity tot * 100) else None),
          sum_capacity_credits = tot_capacity tot,
          sum_used_credits = tot_used tot,
          sum_reset_at = (case tot_resets tot of [] \<Rightarrow> None | r # rs \<Rightarrow> Some (fold min rs r)),
          sum_window_minutes =
            resolve_window_minutes_of window (positive_window_minutes usage_rows)\<rparr>)"

text \<open>\<open>_normalize_recorded_at\<close>: a zone-aware value becomes the naive UTC value.\<close>

definition normalize_recorded_at :: "datetime option \<Rightarrow> real option" where
  "normalize_recorded_at value = map_option utc_seconds value"

text \<open>
  One timestamp comparison of \<open>_should_prefer_primary_row\<close>: decided when the values differ or
  only one is there, undecided (\<open>None\<close>) otherwise.
\<close>

definition prefer_newer :: "'a::linorder option \<Rightarrow> 'a option \<Rightarrow> bool option" where
  "prefer_newer primary secondary =
     (case (primary, secondary) of
        (Some p, Some s) \<Rightarrow> if p \<noteq> s then Some (p > s) else None
      | (Some p, None) \<Rightarrow> Some True
      | (None, Some s) \<Rightarrow> Some False
      | (None, None) \<Rightarrow> None)"

definition should_prefer_primary_row :: "usage_window_row \<Rightarrow> usage_window_row \<Rightarrow> bool" where
  "should_prefer_primary_row primary_row secondary_row =
     (case prefer_newer (normalize_recorded_at (row_recorded_at primary_row))
                        (normalize_recorded_at (row_recorded_at secondary_row)) of
        Some b \<Rightarrow> b
      | None \<Rightarrow>
          (case prefer_newer (row_reset_at primary_row) (row_reset_at secondary_row) of
             Some b \<Rightarrow> b | None \<Rightarrow> True))"

definition should_use_weekly_primary :: "usage_window_row \<Rightarrow> usage_window_row option \<Rightarrow> bool" where
  "should_use_weekly_primary primary_row secondary_row =
     (if \<not> is_weekly_window_minutes (row_window_minutes primary_row) then False
      else case secondary_row of None \<Rightarrow> True
        | Some sec \<Rightarrow> should_prefer_primary_row primary_row sec)"

definition rows_by_account :: "usage_window_row list \<Rightarrow> (string \<times> usage_window_row) list" where
  "rows_by_account rows = fold (\<lambda>row. AList.update (row_account_id row) row) rows []"

fun normalize_weekly_loop ::
  "(string \<times> usage_window_row) list \<Rightarrow> usage_window_row list \<Rightarrow> (string \<times> usage_window_row) list \<Rightarrow>
   usage_window_row list \<times> (string \<times> usage_window_row) list" where
  "normalize_weekly_loop [] prim sec = (prim, sec)"
| "normalize_weekly_loop ((account_id, primary_row) # items) prim sec =
     (if is_weekly_window_minutes (row_window_minutes primary_row)
      then normalize_weekly_loop items prim
             (if should_use_weekly_primary primary_row (map_of sec account_id)
              then AList.update account_id primary_row sec else sec)
      else normalize_weekly_loop items (prim @ [primary_row]) sec)"

definition normalize_weekly_only_rows ::
  "usage_window_row list \<Rightarrow> usage_window_row list \<Rightarrow> usage_window_row list \<times> usage_window_row list" where
  "normalize_weekly_only_rows primary_rows secondary_rows =
     (let (prim, sec) = normalize_weekly_loop (rows_by_account primary_rows) []
                          (rows_by_account secondary_rows)
      in (prim, map snd sec))"

section \<open>The quota rule\<close>

definition has_usable_credits :: "bool option \<Rightarrow> bool option \<Rightarrow> real option \<Rightarrow> bool" where
  "has_usable_credits credits_has credits_unlimited credits_balance =
     (if credits_unlimited = Some True then True
      else if credits_has = Some True then True
      else case credits_balance of None \<Rightarrow> False | Some b \<Rightarrow> b > 0)"

definition has_credit_override :: "bool option \<Rightarrow> bool option \<Rightarrow> real option \<Rightarrow> bool" where
  "has_credit_override credits_has credits_unlimited credits_balance =
     has_usable_credits credits_has credits_unlimited credits_balance"

definition fallback_primary_reset :: "real \<Rightarrow> int option \<Rightarrow> real option" where
  "fallback_primary_reset now primary_window_minutes =
     (let window_minutes = (if truthy primary_window_minutes then primary_window_minutes
                            else default_window_minutes ''primary'')
      in if \<not> truthy window_minutes then None
         else Some (now + of_int (the window_minutes) * 60))"

text \<open>The mutable variables of \<open>apply_usage_quota\<close>: status, used percent, reset time.\<close>

type_synonym quota_vars = "AccountStatus \<times> real option \<times> real option"

text \<open>The block on the long window; \<open>Inl\<close> is the early return.\<close>

definition quota_secondary ::
  "real \<Rightarrow> bool \<Rightarrow> bool \<Rightarrow> real option \<Rightarrow> real option \<Rightarrow> int option \<Rightarrow> quota_vars \<Rightarrow>
   quota_vars + quota_vars" where
  "quota_secondary now credit infer runtime_reset secondary_used secondary_reset vars =
     (let (status, used_percent, reset_at) = vars
      in case secondary_used of
           Some su \<Rightarrow>
             if su \<ge> 100 \<and> \<not> credit \<and> infer
             then Inl (QUOTA_EXCEEDED, Some 100,
                       (case secondary_reset of Some r \<Rightarrow> Some (of_int r) | None \<Rightarrow> reset_at))
             else
               (let (status, used_percent, reset_at) =
                  (if su \<ge> 100
                   then (if credit
                         then (if status = QUOTA_EXCEEDED then (ACTIVE, used_percent, None)
                               else (status, used_percent, reset_at))
                         else (status, Some 100, reset_at))
                   else (status, used_percent, reset_at))
                in Inr (if status = QUOTA_EXCEEDED
                        then (if truthy runtime_reset \<and> the runtime_reset > now
                              then (status, used_percent, runtime_reset)
                              else (ACTIVE, used_percent, None))
                        else (status, used_percent, reset_at)))
         | None \<Rightarrow>
             Inr (if status = QUOTA_EXCEEDED \<and> secondary_reset \<noteq> None \<and> infer
                  then (status, used_percent, map_option of_int secondary_reset)
                  else (status, used_percent, reset_at)))"

definition quota_credit :: "bool \<Rightarrow> real option \<Rightarrow> quota_vars \<Rightarrow> quota_vars" where
  "quota_credit credit primary_used vars =
     (let (status, used_percent, reset_at) = vars
      in if credit \<and> status = QUOTA_EXCEEDED
         then (let primary_exhausted = (case primary_used of None \<Rightarrow> False | Some p \<Rightarrow> p \<ge> 100)
               in if \<not> primary_exhausted then (ACTIVE, used_percent, None) else vars)
         else vars)"

definition quota_primary ::
  "real \<Rightarrow> real \<Rightarrow> bool \<Rightarrow> real option \<Rightarrow> real option \<Rightarrow> int option \<Rightarrow> int option \<Rightarrow> quota_vars \<Rightarrow>
   quota_vars" where
  "quota_primary now_fallback now infer runtime_reset primary_used primary_reset
     primary_window_minutes vars =
     (let (status, used_percent, reset_at) = vars
      in case primary_used of None \<Rightarrow> vars
         | Some pu \<Rightarrow>
             if pu \<ge> 100 \<and> infer
             then (RATE_LIMITED, Some 100,
                   (case primary_reset of Some r \<Rightarrow> Some (of_int r)
                    | None \<Rightarrow>
                        (let fb = fallback_primary_reset now_fallback primary_window_minutes
                         in if truthy fb then fb else reset_at)))
             else
               (let used_percent = (if pu \<ge> 100 then Some 100 else used_percent)
                in if status = RATE_LIMITED
                   then (if truthy runtime_reset \<and> the runtime_reset > now
                         then (status, used_percent, runtime_reset)
                         else (ACTIVE, used_percent, None))
                   else (status, used_percent, reset_at)))"

text \<open>The clock readings: on the long window, for the fallback reset, on the short window.\<close>

definition apply_usage_quota ::
  "real \<times> real \<times> real \<Rightarrow> AccountStatus \<Rightarrow> real option \<Rightarrow> int option \<Rightarrow> int option \<Rightarrow> real option \<Rightarrow>
   real option \<Rightarrow> int option \<Rightarrow> bool option \<Rightarrow> bool option \<Rightarrow> real option \<Rightarrow> bool \<Rightarrow> quota_vars" where
  "apply_usage_quota clock status primary_used primary_reset primary_window_minutes runtime_reset
     secondary_used secondary_reset credits_has credits_unlimited credits_balance infer =
     (let (t_long, t_fallback, t_short) = clock
      in if terminal_status status then (status, primary_used, runtime_reset)
         else
           (let credit = has_credit_override credits_has credits_unlimited credits_balance
            in case quota_secondary t_long credit infer runtime_reset secondary_used secondary_reset
                      (status, primary_used, runtime_reset) of
                 Inl returned \<Rightarrow> returned
               | Inr vars \<Rightarrow>
                   quota_primary t_fallback t_short infer runtime_reset primary_used primary_reset
                     primary_window_minutes (quota_credit credit primary_used vars)))"

section \<open>Depletion forecasting\<close>

record ewma_state =
  ew_rate :: "real option"
  ew_last_used_percent :: real
  ew_last_timestamp :: real
  ew_last_reset_at :: "int option"

definition ewma_update ::
  "ewma_state option \<Rightarrow> real \<Rightarrow> real \<Rightarrow> real \<Rightarrow> int option \<Rightarrow> ewma_state" where
  "ewma_update state used_percent timestamp alpha reset_at =
     (let restarted = \<lparr>ew_rate = None, ew_last_used_percent = used_percent,
                       ew_last_timestamp = timestamp, ew_last_reset_at = reset_at\<rparr>
      in case state of None \<Rightarrow> restarted
         | Some st \<Rightarrow>
            (let dt = timestamp - ew_last_timestamp st
             in if dt = 0 then st
                else
                  (let window_changed = (reset_at \<noteq> None \<and> ew_last_reset_at st \<noteq> None
                                         \<and> reset_at \<noteq> ew_last_reset_at st);
                       drop = ew_last_used_percent st - used_percent
                   in if drop > 0 \<or> window_changed then restarted
                      else
                        (let delta_percent = used_percent - ew_last_used_percent st;
                             raw_rate = max (delta_percent / dt) 0;
                             rate = (case ew_rate st of None \<Rightarrow> raw_rate
                                     | Some r \<Rightarrow> alpha * raw_rate + (1 - alpha) * r)
                         in restarted\<lparr>ew_rate := Some rate\<rparr>))))"

definition compute_burn_rate :: "real \<Rightarrow> real \<Rightarrow> real \<Rightarrow> real" where
  "compute_burn_rate current_rate remaining_percent seconds_until_reset =
     (if current_rate = 0 \<or> seconds_until_reset = 0 then 0
      else let sustainable_rate = remaining_percent / seconds_until_reset
           in if sustainable_rate = 0 then 0 else current_rate / sustainable_rate)"

definition compute_depletion_risk :: "real \<Rightarrow> real \<Rightarrow> real \<Rightarrow> real" where
  "compute_depletion_risk used_percent rate_per_second seconds_until_reset =
     (let effective_rate = max 0 rate_per_second;
          projected = used_percent + effective_rate * seconds_until_reset
      in min (projected / 100) 1)"

definition compute_safe_usage_percent :: "real \<Rightarrow> real \<Rightarrow> real" where
  "compute_safe_usage_percent seconds_elapsed total_window_seconds =
     (if total_window_seconds = 0 then 0
      else let progress = seconds_elapsed / total_window_seconds
           in min (max progress 0) 1 * 100)"

datatype risk_level = Safe | Warning | Danger | Critical

definition classify_risk :: "real \<Rightarrow> risk_level" where
  "classify_risk risk =
     (if risk \<ge> 0.95 then Critical else if risk \<ge> 0.80 then Danger
      else if risk \<ge> 0.60 then Warning else Safe)"

fun aggregate_risks :: "real list \<Rightarrow> real" where
  "aggregate_risks [] = 0"
| "aggregate_risks (r # rs) = fold max rs r"

section \<open>Properties of plans and windows\<close>

lemma capacity_nonneg: "capacity_for_plan p w = Some c \<Longrightarrow> 0 \<le> c"
  by (auto simp: capacity_for_plan_def Let_def PLAN_CAPACITY_CREDITS_PRIMARY_def
      PLAN_CAPACITY_CREDITS_SECONDARY_def PLAN_CAPACITY_CREDITS_MONTHLY_def
      split: option.splits if_splits)

text \<open>
  Plan names are normalised once and for all: normalising or canonicalising a plan name a
  second time changes nothing, and a normalised plan is one of the known plans.
\<close>

lemma plan_normalisation_idempotent:
  "normalize_account_plan_type (normalize_account_plan_type v) = normalize_account_plan_type v \<and>
   canonicalize_account_plan_type (canonicalize_account_plan_type v) = canonicalize_account_plan_type v \<and>
   (normalize_account_plan_type v = None \<or>
      (canonicalize_account_plan_type v = normalize_account_plan_type v \<and>
       the (normalize_account_plan_type v) \<in> set ACCOUNT_PLAN_TYPES))"
proof (cases "clean_plan_type v")
  case None
  then show ?thesis by (simp add: normalize_account_plan_type_def canonicalize_account_plan_type_def
        clean_plan_type_def [of None])
next
  case (Some c)
  then have c: "py_strip c = c" "c \<noteq> []"
    by (auto simp: clean_plan_type_def Let_def split: option.splits if_splits)
  have norm: "normalize_account_plan_type v =
      (if py_lower c \<in> set ACCOUNT_PLAN_TYPES then Some (py_lower c) else None)"
    and canon: "canonicalize_account_plan_type v =
      (if py_lower c \<in> set ACCOUNT_PLAN_TYPES then Some (py_lower c) else Some c)"
    by (simp_all add: normalize_account_plan_type_def canonicalize_account_plan_type_def Some Let_def)
  have "clean_plan_type (Some c) = Some c" and "clean_plan_type (Some (py_lower c)) = Some (py_lower c)"
    using c by (simp_all add: clean_plan_type_def py_strip_lower Let_def)
  then show ?thesis unfolding norm canon
    by (simp add: normalize_account_plan_type_def canonicalize_account_plan_type_def
        clean_plan_type_def [of None] Let_def)
qed

lemma summarize_row_bounds:
  assumes "case row_used_percent row of None \<Rightarrow> True | Some u \<Rightarrow> 0 \<le> u \<and> u \<le> 100"
    and "0 \<le> tot_used acc \<and> tot_used acc \<le> tot_capacity acc"
  shows "0 \<le> tot_used (summarize_row am w row acc) \<and>
    tot_used (summarize_row am w row acc) \<le> tot_capacity (summarize_row am w row acc)"
proof -
  let ?c = "capacity_for_plan (map_option acct_plan_type (am (row_account_id row))) w"
  have "0 \<le> c * u / 100 \<and> c * u / 100 \<le> c" if "?c = Some c" "0 \<le> u" "u \<le> 100" for c u :: real
    using capacity_nonneg [OF that(1)] that(2,3) mult_left_mono [of u 100 c] by simp
  then show ?thesis using assms
    by (cases "row_used_percent row"; cases ?c; cases "row_reset_at row")
      (auto simp: summarize_row_def Let_def intro: add_mono)
qed

lemma summarize_fold_bounds:
  "(\<And>row. row \<in> set rows \<Longrightarrow> case row_used_percent row of None \<Rightarrow> True | Some u \<Rightarrow> 0 \<le> u \<and> u \<le> 100) \<Longrightarrow>
   0 \<le> tot_used acc \<and> tot_used acc \<le> tot_capacity acc \<Longrightarrow>
   0 \<le> tot_used (fold (summarize_row am w) rows acc) \<and>
   tot_used (fold (summarize_row am w) rows acc) \<le> tot_capacity (fold (summarize_row am w) rows acc)"
  by (induction rows arbitrary: acc) (simp_all add: summarize_row_bounds)

text \<open>
  The pooled usage of a window is consistent: when every row reports a percentage between 0
  and 100, the used credits lie between 0 and the pooled capacity and the overall percentage,
  reported exactly when there is capacity, lies between 0 and 100.
\<close>

theorem summarize_usage_window_bounds:
  assumes "\<And>row. row \<in> set rows \<Longrightarrow>
      case row_used_percent row of None \<Rightarrow> True | Some u \<Rightarrow> 0 \<le> u \<and> u \<le> 100"
  shows "let s = summarize_usage_window rows am w
    in 0 \<le> sum_used_credits s \<and> sum_used_credits s \<le> sum_capacity_credits s \<and>
       (sum_used_percent s = None \<longleftrightarrow> sum_capacity_credits s = 0) \<and>
       0 \<le> snap_used_percent (normalize_usage_window s) \<and>
       snap_used_percent (normalize_usage_window s) \<le> 100"
proof -
  define t where "t = fold (summarize_row am w) rows \<lparr>tot_capacity = 0, tot_used = 0, tot_resets = []\<rparr>"
  have b: "0 \<le> tot_used t" "tot_used t \<le> tot_capacity t"
    using summarize_fold_bounds [OF assms, where acc = "\<lparr>tot_capacity = 0, tot_used = 0, tot_resets = []\<rparr>"]
    by (simp_all add: t_def)
  have "tot_capacity t > 0 \<Longrightarrow> tot_used t / tot_capacity t * 100 \<le> 100"
    using b by (simp add: pos_divide_le_eq)
  with b show ?thesis
    by (auto simp: summarize_usage_window_def normalize_usage_window_def t_def [symmetric] Let_def)
qed

theorem summarize_usage_window_bounds_witness:
  "(let s = summarize_usage_window
        [\<lparr>row_account_id = ''a'', row_used_percent = Some 40, row_reset_at = Some 7,
          row_window_minutes = Some 300, row_recorded_at = None\<rparr>] Map.empty ''5h''
    in 0 \<le> sum_used_credits s \<and> sum_used_credits s \<le> sum_capacity_credits s \<and>
       (sum_used_percent s = None \<longleftrightarrow> sum_capacity_credits s = 0) \<and>
       0 \<le> snap_used_percent (normalize_usage_window s) \<and>
       snap_used_percent (normalize_usage_window s) \<le> 100)"
  by (rule summarize_usage_window_bounds) simp

subsection \<open>Weekly-only accounts\<close>

lemma rows_by_account_snoc:
  "rows_by_account (rows @ [row]) = AList.update (row_account_id row) row (rows_by_account rows)"
  by (simp add: rows_by_account_def)

lemma rows_by_account_keys: "fst ` set (rows_by_account rows) = row_account_id ` set rows"
  by (induction rows rule: rev_induct) (auto simp: rows_by_account_snoc dom_update rows_by_account_def)

lemma rows_by_account_distinct: "distinct (map fst (rows_by_account rows))"
  by (induction rows rule: rev_induct) (auto simp: rows_by_account_snoc distinct_update rows_by_account_def)

lemma rows_by_account_mem: "(k, r) \<in> set (rows_by_account rows) \<Longrightarrow> r \<in> set rows \<and> row_account_id r = k"
proof (induction rows arbitrary: k r rule: rev_induct)
  case (snoc row rows)
  then have "map_of (AList.update (row_account_id row) row (rows_by_account rows)) k = Some r"
    by (simp add: rows_by_account_snoc distinct_update rows_by_account_distinct)
  then have "(k = row_account_id row \<and> r = row) \<or> map_of (rows_by_account rows) k = Some r"
    by (auto simp: update_conv split: if_splits)
  then show ?case using snoc.IH map_of_SomeD by fastforce
qed (simp add: rows_by_account_def)

lemma normalize_weekly_loop_primary:
  "fst (normalize_weekly_loop items prim sec) =
     prim @ filter (\<lambda>r. \<not> is_weekly_window_minutes (row_window_minutes r)) (map snd items)"
  by (induction items prim sec rule: normalize_weekly_loop.induct) auto

lemma normalize_weekly_loop_rows:
  "kr \<in> set (snd (normalize_weekly_loop items prim sec)) \<Longrightarrow> kr \<in> set items \<union> set sec"
proof (induction items prim sec rule: normalize_weekly_loop.induct)
  case (2 k r items prim sec)
  then show ?case using set_update_cases [of kr k r sec] by (auto split: if_splits)
qed simp

lemma normalize_weekly_loop_keys:
  "fst ` set (snd (normalize_weekly_loop items prim sec)) =
     fst ` set sec \<union> fst ` {kr \<in> set items. is_weekly_window_minutes (row_window_minutes (snd kr))}"
proof (induction items prim sec rule: normalize_weekly_loop.induct)
  case (2 k r items prim sec)
  have "k \<in> fst ` set sec"
    if "is_weekly_window_minutes (row_window_minutes r)" and "\<not> should_use_weekly_primary r (map_of sec k)"
  proof -
    have "map_of sec k \<noteq> None"
      using that by (simp add: should_use_weekly_primary_def split: option.splits)
    then show ?thesis by (simp add: map_of_eq_None_iff)
  qed
  moreover have "{kr \<in> set ((k, r) # items). is_weekly_window_minutes (row_window_minutes (snd kr))} =
    (if is_weekly_window_minutes (row_window_minutes r) then {(k, r)} else {}) \<union>
    {kr \<in> set items. is_weekly_window_minutes (row_window_minutes (snd kr))}"
    by auto
  ultimately show ?case using "2.IH" by (auto simp: dom_update image_Un)
qed simp

lemma normalize_weekly_loop_distinct:
  "distinct (map fst sec) \<Longrightarrow> distinct (map fst (snd (normalize_weekly_loop items prim sec)))"
  by (induction items prim sec rule: normalize_weekly_loop.induct) (auto simp: distinct_update)

text \<open>
  Weekly-only accounts are re-filed without losing or duplicating anyone: the rows left in
  the primary list are input rows and none is weekly, every account has at most one row in each
  list, every row comes from the input, and the accounts of the two lists together are the
  accounts of the input.
\<close>

theorem normalize_weekly_only_rows_spec:
  assumes "normalize_weekly_only_rows primary_rows secondary_rows = (prim, sec)"
  shows "(\<forall>r \<in> set prim. \<not> is_weekly_window_minutes (row_window_minutes r)) \<and>
    set prim \<subseteq> set primary_rows \<and> set sec \<subseteq> set primary_rows \<union> set secondary_rows \<and>
    distinct (map row_account_id prim) \<and> distinct (map row_account_id sec) \<and>
    row_account_id ` (set prim \<union> set sec) = row_account_id ` (set primary_rows \<union> set secondary_rows)"
proof -
  let ?P = "rows_by_account primary_rows" and ?S = "rows_by_account secondary_rows"
  let ?L = "snd (normalize_weekly_loop ?P [] ?S)"
  let ?wk = "\<lambda>r. is_weekly_window_minutes (row_window_minutes r)"
  have prim: "prim = filter (\<lambda>r. \<not> ?wk r) (map snd ?P)" and sec: "sec = map snd ?L"
    using assms normalize_weekly_loop_primary [of ?P "[]" ?S]
    by (auto simp: normalize_weekly_only_rows_def split: prod.splits)
  have id: "row_account_id r = k" if "(k, r) \<in> set ?P \<union> set ?S" for k r
    using that rows_by_account_mem by blast
  have idL: "row_account_id r = k" if "(k, r) \<in> set ?L" for k r
    using normalize_weekly_loop_rows [OF that] id by blast
  have mapP: "map row_account_id (map snd ?P) = map fst ?P"
    using id by (auto intro!: map_cong simp: comp_def)
  have mapL: "map row_account_id (map snd ?L) = map fst ?L"
    using idL by (auto intro!: map_cong simp: comp_def)
  have rowsP: "snd ` set ?P \<subseteq> set primary_rows" and rowsS: "snd ` set ?S \<subseteq> set secondary_rows"
    using rows_by_account_mem by fastforce+
  have "distinct (map row_account_id (map snd ?P))"
    unfolding mapP by (rule rows_by_account_distinct)
  then have d: "distinct (map row_account_id prim)" unfolding prim by (rule distinct_map_filter)
  have d': "distinct (map row_account_id sec)"
    unfolding sec mapL by (rule normalize_weekly_loop_distinct) (rule rows_by_account_distinct)
  have ids_sec: "row_account_id ` set sec = fst ` set ?L"
    using mapL unfolding sec by (metis list.set_map)
  have ids_prim: "row_account_id ` set prim = fst ` {kr \<in> set ?P. \<not> ?wk (snd kr)}"
    unfolding prim using id by (force simp: image_iff)
  have "fst ` {kr \<in> set ?P. \<not> ?wk (snd kr)} \<union> fst ` set ?L = fst ` set ?P \<union> fst ` set ?S"
    unfolding normalize_weekly_loop_keys by auto
  then have ids: "row_account_id ` (set prim \<union> set sec) =
      row_account_id ` (set primary_rows \<union> set secondary_rows)"
    by (simp add: image_Un ids_sec ids_prim rows_by_account_keys)
  have "set sec \<subseteq> set primary_rows \<union> set secondary_rows"
    using normalize_weekly_loop_rows [of _ ?P "[]" ?S] rowsP rowsS unfolding sec by fastforce
  with d d' ids show ?thesis using rowsP by (auto simp: prim)
qed

definition weekly_row_example :: usage_window_row where
  "weekly_row_example = \<lparr>row_account_id = ''a'', row_used_percent = Some 40, row_reset_at = Some 7,
     row_window_minutes = Some 10080, row_recorded_at = None\<rparr>"

theorem normalize_weekly_only_rows_spec_witness:
  "row_account_id ` (set [] \<union> set [weekly_row_example]) =
     row_account_id ` (set [weekly_row_example] \<union> set [])"
proof -
  have "normalize_weekly_only_rows [weekly_row_example] [] = ([], [weekly_row_example])"
    by code_simp
  from normalize_weekly_only_rows_spec [OF this] show ?thesis by blast
qed

section \<open>Properties of the quota rule\<close>

lemma quota_secondary_recovers:
  "\<exists>s u r. quota_secondary t c False rr su sr (st, pu, rr) = Inr (s, u, r) \<and>
     s \<in> {st, ACTIVE} \<and> u \<in> {pu, Some 100}"
proof (cases su)
  case (Some x)
  then show ?thesis
    by (cases "100 \<le> x"; cases c; cases "st = QUOTA_EXCEEDED"; cases "truthy rr \<and> the rr > t")
      (auto simp: quota_secondary_def)
qed (simp add: quota_secondary_def)

lemma apply_usage_quota_range:
  "fst (apply_usage_quota clock st pu pr pw rr su sr ch cu cb False) \<in> {st, ACTIVE} \<and>
   fst (snd (apply_usage_quota clock st pu pr pw rr su sr ch cu cb False)) \<in> {pu, Some 100}"
proof -
  obtain t1 t2 t3 where clock: "clock = (t1, t2, t3)" by (cases clock)
  let ?c = "has_credit_override ch cu cb"
  obtain s u r where v: "quota_secondary t1 ?c False rr su sr (st, pu, rr) = Inr (s, u, r)"
    and s: "s \<in> {st, ACTIVE}" "u \<in> {pu, Some 100}"
    using quota_secondary_recovers by blast
  obtain s' u' r' where v': "quota_credit ?c pu (s, u, r) = (s', u', r')" by (metis prod_cases3)
  have s': "s' \<in> {st, ACTIVE}" "u' \<in> {pu, Some 100}"
    using s v' by (auto simp: quota_credit_def Let_def split: if_splits)
  have "fst (quota_primary t2 t3 False rr pu pr pw (s', u', r')) \<in> {st, ACTIVE} \<and>
      fst (snd (quota_primary t2 t3 False rr pu pr pw (s', u', r'))) \<in> {pu, Some 100}"
    using s' by (auto simp: quota_primary_def Let_def split: option.splits)
  then show ?thesis by (simp add: apply_usage_quota_def clock v v')
qed

text \<open>
  Without inference from usage numbers the quota rule only recovers accounts: the resulting
  status is the given one or ACTIVE, and the usage percentage is the given one or 100.
\<close>

theorem apply_usage_quota_only_recovers:
  "fst (apply_usage_quota clock st pu pr pw rr su sr ch cu cb False) \<in> {st, ACTIVE} \<and>
   fst (snd (apply_usage_quota clock st pu pr pw rr su sr ch cu cb False)) \<in> {pu, Some 100}"
  by (rule apply_usage_quota_range)

text \<open>
  With inference, an exhausted window blocks the account: an exhausted long window without
  usable credits yields QUOTA_EXCEEDED, and otherwise an exhausted short window yields
  RATE_LIMITED with a known reset time; in both cases the account shows 100 percent. Operator
  statuses are never overwritten.
\<close>

theorem apply_usage_quota_infers_block:
  assumes "case su of None \<Rightarrow> False | Some x \<Rightarrow> x \<ge> 100" and "\<not> has_credit_override ch cu cb"
    and "\<not> terminal_status st"
  shows "apply_usage_quota clock st pu pr pw rr su sr ch cu cb True =
      (QUOTA_EXCEEDED, Some 100, (case sr of Some r \<Rightarrow> Some (of_int r) | None \<Rightarrow> rr))"
  using assms by (auto simp: apply_usage_quota_def quota_secondary_def Let_def split: prod.splits option.splits)

theorem apply_usage_quota_infers_block_witness:
  "apply_usage_quota (0, 0, 0) ACTIVE None None None None (Some 100) (Some 9) None None None True =
     (QUOTA_EXCEEDED, Some 100, Some 9)"
  using apply_usage_quota_infers_block
    [of "Some 100" None None None ACTIVE "(0, 0, 0)" None None None None "Some 9"]
  by (simp add: has_credit_override_def has_usable_credits_def)

lemma quota_rule_on_exceeded:
  assumes "\<not> has_credit_override ch cu cb"
  shows "let (status, used, reset) =
           apply_usage_quota (t1, t2, t3) QUOTA_EXCEEDED pu pr pw rr (Some su) sr ch cu cb False
         in (status = QUOTA_EXCEEDED \<longleftrightarrow> truthy rr \<and> the rr > t1) \<and>
            reset = (if status = QUOTA_EXCEEDED then rr else None)"
  using assms
  by (auto simp: apply_usage_quota_def quota_secondary_def quota_credit_def quota_primary_def Let_def
      split: option.splits)

text \<open>
  A quota block is released only by the clock: with the long window reported, no usable
  credits and no inference, a QUOTA_EXCEEDED account stays blocked exactly while its runtime
  reset lies in the future, and then keeps that reset time.
\<close>

theorem apply_usage_quota_block_until_reset:
  assumes "\<not> has_credit_override ch cu cb"
  shows "let (status, used, reset) =
           apply_usage_quota (t1, t2, t3) QUOTA_EXCEEDED pu pr pw rr (Some su) sr ch cu cb False
         in (status = QUOTA_EXCEEDED \<longleftrightarrow> truthy rr \<and> the rr > t1) \<and>
            reset = (if status = QUOTA_EXCEEDED then rr else None)"
  using assms by (rule quota_rule_on_exceeded)

theorem apply_usage_quota_block_until_reset_witness:
  "(let (status, used, reset) =
       apply_usage_quota (5, 5, 5) QUOTA_EXCEEDED None None None (Some 9) (Some 20) None None None None False
    in (status = QUOTA_EXCEEDED \<longleftrightarrow> truthy (Some (9::real)) \<and> the (Some 9) > (5::real)) \<and>
       reset = (if status = QUOTA_EXCEEDED then Some 9 else None))"
  by (rule apply_usage_quota_block_until_reset) (simp add: has_credit_override_def has_usable_credits_def)

section \<open>Properties of the depletion forecast\<close>

definition ewma_ok :: "ewma_state option \<Rightarrow> bool" where
  "ewma_ok st \<longleftrightarrow> (case st of None \<Rightarrow> True
     | Some e \<Rightarrow> (case ew_rate e of None \<Rightarrow> True | Some r \<Rightarrow> 0 \<le> r))"

lemma ewma_update_ok:
  assumes "0 \<le> alpha" and "alpha \<le> 1" and "ewma_ok st"
  shows "ewma_ok (Some (ewma_update st u t alpha r))"
proof (cases st)
  case (Some e)
  then show ?thesis using assms
    by (cases "ew_rate e") (auto simp: ewma_update_def ewma_ok_def Let_def)
qed (simp add: ewma_update_def ewma_ok_def)

text \<open>The samples of a run: used percent, timestamp, reset time; with the default smoothing.\<close>

definition ewma_sample :: "real \<times> real \<times> int option \<Rightarrow> ewma_state option \<Rightarrow> ewma_state option" where
  "ewma_sample = (\<lambda>(u, t, r) st. Some (ewma_update st u t 0.4 r))"

interpretation ewma: machine ewma_sample ewma_ok
  by unfold_locales (auto simp: ewma_sample_def intro: ewma_update_ok)

text \<open>
  Over any sequence of usage samples, whatever their order, resets and drops, the smoothed
  burn rate is never negative, so the depletion risk derived from it is at least the share
  already used (capped at 1) and never exceeds 1.
\<close>

theorem depletion_risk_bounds:
  assumes "fold ewma_sample samples None = Some e" and "ew_rate e = Some rate"
    and "0 \<le> seconds_until_reset"
  shows "0 \<le> rate \<and>
    min (used / 100) 1 \<le> compute_depletion_risk used rate seconds_until_reset \<and>
    compute_depletion_risk used rate seconds_until_reset \<le> 1"
proof -
  have "ewma_ok (fold ewma_sample samples None)" by (rule ewma.invar_run) (simp add: ewma_ok_def)
  then have "0 \<le> rate" using assms by (simp add: ewma_ok_def)
  with assms(3) have "used / 100 \<le> (used + max 0 rate * seconds_until_reset) / 100"
    by (simp add: divide_right_mono)
  with \<open>0 \<le> rate\<close> show ?thesis by (auto simp: compute_depletion_risk_def Let_def)
qed

theorem depletion_risk_bounds_witness:
  "0 \<le> (1::real) \<and> min (11 / 100) 1 \<le> compute_depletion_risk 11 1 60 \<and>
   compute_depletion_risk 11 1 60 \<le> 1"
  by (rule depletion_risk_bounds [where samples = "[(10, 0, None), (11, 1, None)]" and
        e = "\<lparr>ew_rate = Some 1, ew_last_used_percent = 11, ew_last_timestamp = 1, ew_last_reset_at = None\<rparr>"])
    (simp_all add: ewma_sample_def ewma_update_def)

end
