(* ===== verification/Retry.thy ===== *)
theory Retry
  imports Prelude
begin

text \<open>
  Retry delays (\<open>app/core/utils/retry.py\<close>): the parser of the upstream hint
  \<open>try again in <number> s|ms|seconds\<close> and the exponential backoff with jitter.

  The regular expression is matched by hand. No backtracking is needed: \<open>\s*\<close>, \<open>\d+\<close> and the
  optional fraction are greedy and what follows each of them starts with a character it cannot
  match, and the alternative \<open>seconds?\<close> is shadowed by \<open>s\<close>.
\<close>

section \<open>Parsing the hint\<close>

definition is_digit :: "char \<Rightarrow> bool" where
  "is_digit c = (let n = of_char c :: nat in 48 \<le> n \<and> n \<le> 57)"

definition digit_value :: "char \<Rightarrow> nat" where
  "digit_value c = of_char c - 48"

text \<open>The value of a run of digits, most significant first.\<close>

definition digits_value :: "string \<Rightarrow> nat" where
  "digits_value ds = foldl (\<lambda>n c. 10 * n + digit_value c) 0 ds"

text \<open>\<open>float\<close> of the text \<open>digits\<close> or \<open>digits.fraction\<close>.\<close>

definition decimal_value :: "string \<Rightarrow> string \<Rightarrow> real" where
  "decimal_value whole fraction = real (digits_value whole) + real (digits_value fraction) / 10 ^ length fraction"

text \<open>\<open>\d+(?:\.\d+)?\<close> at the start of the text: the number and the rest.\<close>

definition match_number :: "string \<Rightarrow> (real \<times> string) option" where
  "match_number s =
     (let whole = takeWhile is_digit s; rest = dropWhile is_digit s
      in if whole = [] then None
         else case rest of
             c # cs \<Rightarrow>
               if c = CHR ''.'' \<and> takeWhile is_digit cs \<noteq> []
               then Some (decimal_value whole (takeWhile is_digit cs), dropWhile is_digit cs)
               else Some (decimal_value whole [], rest)
           | [] \<Rightarrow> Some (decimal_value whole [], rest))"

datatype retry_unit = Seconds | Milliseconds

text \<open>\<open>(s|ms|seconds?)\<close>, case-insensitively, at the start of the text.\<close>

fun match_unit :: "string \<Rightarrow> retry_unit option" where
  "match_unit (c # cs) =
     (if py_lower_char c = CHR ''s'' then Some Seconds
      else if py_lower_char c = CHR ''m'' \<and> (case cs of d # _ \<Rightarrow> py_lower_char d = CHR ''s'' | [] \<Rightarrow> False)
      then Some Milliseconds else None)"
| "match_unit [] = None"

definition RETRY_PREFIX :: string where "RETRY_PREFIX = ''try again in''"

text \<open>The whole pattern at the start of the text.\<close>

definition match_retry_at :: "string \<Rightarrow> (real \<times> retry_unit) option" where
  "match_retry_at s =
     (if starts_with RETRY_PREFIX (py_lower (take (length RETRY_PREFIX) s))
      then case match_number (dropWhile py_isspace (drop (length RETRY_PREFIX) s)) of
             None \<Rightarrow> None
           | Some (value, rest) \<Rightarrow>
               map_option (Pair value) (match_unit (dropWhile py_isspace rest))
      else None)"

text \<open>\<open>re.search\<close>: the leftmost match.\<close>

fun search_retry :: "string \<Rightarrow> (real \<times> retry_unit) option" where
  "search_retry [] = match_retry_at []"
| "search_retry (c # cs) =
     (case match_retry_at (c # cs) of Some m \<Rightarrow> Some m | None \<Rightarrow> search_retry cs)"

definition parse_retry_after :: "string \<Rightarrow> real option" where
  "parse_retry_after message =
     (case search_retry message of None \<Rightarrow> None
      | Some (value, Milliseconds) \<Rightarrow> Some (value / 1000)
      | Some (value, Seconds) \<Rightarrow> Some value)"

section \<open>Backoff\<close>

text \<open>\<open>jitter\<close> is the value of \<open>random.uniform(0.9, 1.1)\<close>.\<close>

definition backoff_seconds :: "real \<Rightarrow> int \<Rightarrow> real" where
  "backoff_seconds jitter attempt =
     (let attempt = (if attempt < 1 then 1 else attempt);
          exponent = 2 ^ nat (attempt - 1);
          base_ms = 200 * exponent
      in base_ms * jitter / 1000)"

section \<open>Properties\<close>

lemma digits_value_snoc [simp]: "digits_value (ds @ [c]) = 10 * digits_value ds + digit_value c"
  by (simp add: digits_value_def)

lemma digit_char [simp]:
  assumes "n < 10"
  shows "is_digit (char_of (48 + n))" "digit_value (char_of (48 + n)) = n"
proof -
  have "(of_char (char_of (48 + n)) :: nat) = 48 + n" using assms by simp
  then show "is_digit (char_of (48 + n))" "digit_value (char_of (48 + n)) = n"
    using assms by (simp_all add: is_digit_def digit_value_def Let_def)
qed

lemma show_nat_digits: "list_all is_digit (show_nat n)"
proof (induction n rule: show_nat.induct)
  case (1 n)
  then show ?case by (subst show_nat.simps) simp
qed

lemma digits_value_show_nat: "digits_value (show_nat n) = n"
proof (induction n rule: show_nat.induct)
  case (1 n)
  show ?case
  proof (cases "n < 10")
    case True
    then have "show_nat n = [] @ [char_of (48 + n)]" by (subst show_nat.simps) simp
    then show ?thesis using True digits_value_snoc [of "[]"] by (simp add: digits_value_def)
  next
    case False
    then have "show_nat n = show_nat (n div 10) @ [char_of (48 + n mod 10)]"
      by (subst show_nat.simps) simp
    then show ?thesis using 1 False by simp
  qed
qed

lemma takeWhile_show_nat:
  assumes "case rest of [] \<Rightarrow> True | c # _ \<Rightarrow> \<not> is_digit c"
  shows "takeWhile is_digit (show_nat n @ rest) = show_nat n"
    "dropWhile is_digit (show_nat n @ rest) = rest"
  using show_nat_digits [of n] assms
  by (auto simp: list_all_iff takeWhile_append dropWhile_append split: list.splits)

lemma match_number_show_nat: "match_number (show_nat n @ ''s'') = Some (real n, ''s'')"
proof -
  have "takeWhile is_digit (show_nat n @ ''s'') = show_nat n"
    "dropWhile is_digit (show_nat n @ ''s'') = ''s''"
    by (rule takeWhile_show_nat; simp add: is_digit_def)+
  then show ?thesis
    by (simp add: match_number_def show_nat_nonempty decimal_value_def digits_value_show_nat
        digits_value_def [of "[]"])
qed

lemma hd_show_nat_not_space: "dropWhile py_isspace (show_nat n @ rest) = show_nat n @ rest"
proof (cases "show_nat n")
  case (Cons c cs)
  then have "is_digit c" using show_nat_digits [of n] by simp
  then have "\<not> py_isspace c" by (auto simp: is_digit_def py_isspace_def Let_def)
  then show ?thesis using Cons by simp
qed (simp add: show_nat_nonempty)

lemma match_retry_at_hint:
  "match_retry_at (''Try again in '' @ show_nat n @ ''s'') = Some (real n, Seconds)"
proof -
  have "starts_with RETRY_PREFIX (py_lower (take (length RETRY_PREFIX) (''Try again in '' @ show_nat n @ ''s'')))"
    by (simp add: RETRY_PREFIX_def) code_simp
  moreover have "dropWhile py_isspace (drop (length RETRY_PREFIX) (''Try again in '' @ show_nat n @ ''s''))
      = show_nat n @ ''s''"
    by (simp add: RETRY_PREFIX_def py_isspace_def hd_show_nat_not_space)
  moreover have "dropWhile py_isspace ''s'' = ''s''" "match_unit ''s'' = Some Seconds" by code_simp+
  ultimately show ?thesis by (simp add: match_retry_at_def match_number_show_nat)
qed

lemma search_retry_skip:
  "(\<forall>i < length pre. match_retry_at (drop i pre @ s) = None) \<Longrightarrow> match_retry_at s = Some m \<Longrightarrow>
   search_retry (pre @ s) = Some m"
proof (induction pre)
  case Nil
  then show ?case by (cases s) auto
next
  case (Cons c cs)
  have "match_retry_at (c # cs @ s) = None" using Cons.prems(1) by auto
  moreover have "\<forall>i < length cs. match_retry_at (drop i cs @ s) = None"
    using Cons.prems(1) by (metis Suc_mono drop_Suc_Cons length_Cons)
  ultimately show ?case using Cons by simp
qed

text \<open>
  The backoff delay for attempt n is the doubling sequence 200 ms, 400 ms, 800 ms, ... within
  ten percent: with the jitter drawn between 0.9 and 1.1 it lies in that band, is positive, and
  attempts below one count as the first.
\<close>

theorem backoff_seconds_bounds:
  assumes "0.9 \<le> jitter" and "jitter \<le> 1.1"
  shows "let base = 0.2 * 2 ^ nat (max 1 attempt - 1)
    in 0 < backoff_seconds jitter attempt \<and>
       0.9 * base \<le> backoff_seconds jitter attempt \<and> backoff_seconds jitter attempt \<le> 1.1 * base"
proof -
  let ?e = "2 ^ nat (max 1 attempt - 1) :: real"
  have eq: "backoff_seconds jitter attempt = 0.2 * ?e * jitter"
    by (simp add: backoff_seconds_def Let_def max_def)
  have "0 < ?e" by simp
  then have "0.2 * ?e * 0.9 \<le> 0.2 * ?e * jitter" "0.2 * ?e * jitter \<le> 0.2 * ?e * 1.1" "0 < 0.2 * ?e * jitter"
    using assms by (simp_all add: mult_left_mono)
  then show ?thesis unfolding eq Let_def by (simp add: mult.commute mult.left_commute)
qed

theorem backoff_seconds_bounds_witness:
  "0 < backoff_seconds 1 3 \<and> 0.9 * 0.8 \<le> backoff_seconds 1 3 \<and> backoff_seconds 1 3 \<le> 1.1 * 0.8"
  using backoff_seconds_bounds [of 1 3] by simp

end
