(* ===== verification/Balancer.thy ===== *)
theory Balancer
  imports Usage Retry
begin

text \<open>
  Account selection (\<open>app/core/balancer/logic.py\<close>, \<open>app/core/balancer/types.py\<close>): the account
  state the balancer works on, the sort keys and pools, the eight routing strategies, the
  selection itself, the reaction to upstream errors and the health tiers.

  \<^item> \<open>select_account\<close> mutates the states it is given (expired blocks, cooldowns and error
    counts are cleared in place). The model returns the updated states beside the result.
  \<^item> \<open>random.choices\<close> takes the random number as an argument; \<open>hashlib.sha256\<close> of the
    account id is the argument \<open>digest\<close>; clock readings are arguments.
  \<^item> Sort keys are tuples, compared lexicographically; account ids by their characters.
\<close>

section \<open>Constants and data\<close>

definition PERMANENT_FAILURE_CODES :: "(string \<times> string) list" where
  "PERMANENT_FAILURE_CODES =
     [(''refresh_token_expired'', ''Refresh token expired - re-login required''),
      (''refresh_token_reused'', ''Refresh token was reused - re-login required''),
      (''refresh_token_invalidated'', ''Refresh token was revoked - re-login required''),
      (''invalid_grant'', ''Refresh token grant invalid - re-login required''),
      (''token_invalidated'', ''Authentication token invalidated - re-login required''),
      (''token_expired'', ''Authentication token expired - re-login required''),
      (''account_session_expired'', ''ChatGPT session ended - re-login required''),
      (''account_auth_invalidated'', ''Authentication failed after token refresh - re-login required''),
      (''account_deactivated'', ''Account has been deactivated''),
      (''account_suspended'', ''Account has been suspended''),
      (''account_deleted'', ''Account has been deleted'')]"

definition REAUTH_REQUIRED_FAILURE_CODES :: "string list" where
  "REAUTH_REQUIRED_FAILURE_CODES =
     [''refresh_token_expired'', ''refresh_token_reused'', ''refresh_token_invalidated'',
      ''invalid_grant'', ''token_invalidated'', ''token_expired'', ''account_session_expired'',
      ''account_auth_invalidated'']"

abbreviation (input) SECONDS_PER_DAY :: int where "SECONDS_PER_DAY \<equiv> 86400"

abbreviation (input) SECONDS_PER_HOUR :: int where "SECONDS_PER_HOUR \<equiv> 3600"

abbreviation (input) SECONDS_PER_WEEK :: int where "SECONDS_PER_WEEK \<equiv> 604800"

abbreviation (input) UNKNOWN_RESET_BUCKET_DAYS :: int where "UNKNOWN_RESET_BUCKET_DAYS \<equiv> 10000"

definition CAPACITY_PLAN_ALIASES :: "(string \<times> string) list" where
  "CAPACITY_PLAN_ALIASES =
     [(''education'', ''edu''), (''k12'', ''edu''), (''guest'', ''free''), (''go'', ''free''),
      (''free_workspace'', ''free''), (''quorum'', ''free''), (''unknown'', ''free'')]"

datatype RoutingStrategy =
    Usage_weighted | Round_robin | Capacity_weighted | Relative_availability
  | Fill_first | Sequential_drain | Reset_drain | Single_account

datatype TrafficClass = Foreground | Opportunistic

datatype UsageWeightedOrder = Secondary_first | Primary_first

datatype ResetPreferenceWindow = PrimaryWindow | SecondaryWindow

abbreviation (input) HEALTH_TIER_HEALTHY :: int where "HEALTH_TIER_HEALTHY \<equiv> 0"

abbreviation (input) HEALTH_TIER_DRAINING :: int where "HEALTH_TIER_DRAINING \<equiv> 1"

abbreviation (input) HEALTH_TIER_PROBING :: int where "HEALTH_TIER_PROBING \<equiv> 2"

definition ROUTING_POLICY_NORMAL :: string where "ROUTING_POLICY_NORMAL = ''normal''"

definition ROUTING_POLICY_BURN_FIRST :: string where "ROUTING_POLICY_BURN_FIRST = ''burn_first''"

definition ROUTING_POLICY_PRESERVE :: string where "ROUTING_POLICY_PRESERVE = ''preserve''"

lemmas policy_defs = ROUTING_POLICY_NORMAL_def ROUTING_POLICY_BURN_FIRST_def ROUTING_POLICY_PRESERVE_def

record account_state =
  st_account_id :: string
  st_status :: AccountStatus
  st_used_percent :: "real option"
  st_reset_at :: "real option"
  st_primary_reset_at :: "int option"
  st_blocked_at :: "real option"
  st_cooldown_until :: "real option"
  st_secondary_used_percent :: "real option"
  st_secondary_reset_at :: "int option"
  st_last_error_at :: "real option"
  st_last_selected_at :: "real option"
  st_error_count :: int
  st_deactivation_reason :: "string option"
  st_plan_type :: "string option"
  st_capacity_credits :: "real option"
  st_health_tier :: int
  st_priority_used_percent :: "real option"
  st_priority_secondary_used_percent :: "real option"
  st_priority_reset_at :: "int option"
  st_priority_capacity_credits :: "real option"
  st_limit_scoped_usage :: bool
  st_inflight_response_creates :: int
  st_inflight_streams :: int
  st_leased_tokens :: real
  st_routing_policy :: string
  st_ignore_standard_quota :: bool

text \<open>\<open>AccountState(account_id=..., status=...)\<close> with the defaults of the dataclass.\<close>

definition AccountState :: "string \<Rightarrow> AccountStatus \<Rightarrow> account_state" where
  "AccountState i s =
     \<lparr>st_account_id = i, st_status = s, st_used_percent = None, st_reset_at = None,
      st_primary_reset_at = None, st_blocked_at = None, st_cooldown_until = None,
      st_secondary_used_percent = None, st_secondary_reset_at = None, st_last_error_at = None,
      st_last_selected_at = None, st_error_count = 0, st_deactivation_reason = None,
      st_plan_type = None, st_capacity_credits = None, st_health_tier = 0,
      st_priority_used_percent = None, st_priority_secondary_used_percent = None,
      st_priority_reset_at = None, st_priority_capacity_credits = None,
      st_limit_scoped_usage = False, st_inflight_response_creates = 0, st_inflight_streams = 0,
      st_leased_tokens = 0, st_routing_policy = ROUTING_POLICY_NORMAL,
      st_ignore_standard_quota = False\<rparr>"

record selection_result =
  sel_account :: "account_state option"
  sel_error_message :: "string option"

definition selected_account :: "account_state \<Rightarrow> selection_result" where
  "selected_account s = \<lparr>sel_account = Some s, sel_error_message = None\<rparr>"

definition selection_error :: "string \<Rightarrow> selection_result" where
  "selection_error m = \<lparr>sel_account = None, sel_error_message = Some m\<rparr>"

record routing_cost =
  rc_total :: real
  rc_reason :: "string option"

type_synonym routing_costs = "(string \<times> routing_cost) list option"

section \<open>Keys and percentages\<close>

definition planner_cost :: "account_state \<Rightarrow> routing_costs \<Rightarrow> real" where
  "planner_cost state routing_costs =
     (case routing_costs of None \<Rightarrow> 0 | Some [] \<Rightarrow> 0
      | Some costs \<Rightarrow> (case map_of costs (st_account_id state) of None \<Rightarrow> 0 | Some c \<Rightarrow> rc_total c))"

definition priority_primary_used :: "account_state \<Rightarrow> real" where
  "priority_primary_used state =
     default (first_some (st_priority_used_percent state) (st_used_percent state)) 0"

definition priority_secondary_used :: "account_state \<Rightarrow> real option \<Rightarrow> real" where
  "priority_secondary_used state primary_used =
     (if st_limit_scoped_usage state \<and> st_priority_secondary_used_percent state = None
      then default primary_used (priority_primary_used state)
      else case first_some (st_priority_secondary_used_percent state) (st_secondary_used_percent state) of
             Some value \<Rightarrow> value
           | None \<Rightarrow> default primary_used (priority_primary_used state))"

definition usage_sort_key :: "account_state \<Rightarrow> real \<times> real \<times> real \<times> string" where
  "usage_sort_key state =
     (let primary_used = priority_primary_used state;
          secondary_used = priority_secondary_used state (Some primary_used);
          last_selected = or_else (st_last_selected_at state) 0
      in (secondary_used, primary_used, last_selected, st_account_id state))"

definition primary_usage_sort_key :: "account_state \<Rightarrow> real \<times> real \<times> real \<times> string" where
  "primary_usage_sort_key state =
     (let primary_used = priority_primary_used state;
          secondary_used = priority_secondary_used state (Some primary_used);
          last_selected = or_else (st_last_selected_at state) 0
      in (primary_used, secondary_used, last_selected, st_account_id state))"

definition routing_policy :: "account_state \<Rightarrow> string" where
  "routing_policy state =
     (if st_routing_policy state
           \<in> {ROUTING_POLICY_BURN_FIRST, ROUTING_POLICY_NORMAL, ROUTING_POLICY_PRESERVE}
      then st_routing_policy state else ROUTING_POLICY_NORMAL)"

definition used_pct :: "bool \<Rightarrow> account_state \<Rightarrow> real option" where
  "used_pct secondary state =
     (if secondary then first_some (st_secondary_used_percent state) (st_used_percent state)
      else st_used_percent state)"

definition remaining_pct :: "bool \<Rightarrow> account_state \<Rightarrow> real option" where
  "remaining_pct secondary state =
     map_option (\<lambda>used. max 0 (100 - min 100 used)) (used_pct secondary state)"

definition seconds_until :: "real option \<Rightarrow> real \<Rightarrow> real option" where
  "seconds_until reset_at current = map_option (\<lambda>r. max 0 (r - current)) reset_at"

definition recent_foreground_activity :: "account_state \<Rightarrow> real \<Rightarrow> bool" where
  "recent_foreground_activity state current =
     (case st_last_selected_at state of None \<Rightarrow> False | Some t \<Rightarrow> current - t \<le> 30 * 60)"

section \<open>Opportunistic traffic\<close>

definition weekly_pace_floor_pct :: "account_state \<Rightarrow> real \<Rightarrow> real" where
  "weekly_pace_floor_pct state current =
     (case (seconds_until (map_option of_int (st_secondary_reset_at state)) current, used_pct True state) of
        (Some remaining_seconds, Some used) \<Rightarrow>
          (let elapsed_seconds = max 0 (of_int SECONDS_PER_WEEK - remaining_seconds);
               expected_used_pct = min 100 (elapsed_seconds / of_int SECONDS_PER_WEEK * 100);
               behind_pace = used + 5 < expected_used_pct;
               pace_floor = (if remaining_seconds \<le> of_int (6 * SECONDS_PER_HOUR) \<and> behind_pace then 0
                             else if remaining_seconds \<le> of_int SECONDS_PER_DAY \<and> behind_pace then 2
                             else if behind_pace then 5
                             else 15);
               pace_floor = (if recent_foreground_activity state current then max pace_floor 25
                             else pace_floor)
           in max 5 pace_floor)
      | _ \<Rightarrow> 100)"

definition short_window_floor_pct :: "account_state \<Rightarrow> real \<Rightarrow> int \<Rightarrow> real" where
  "short_window_floor_pct state current preserve_count =
     (case seconds_until (st_reset_at state) current of None \<Rightarrow> 100
      | Some remaining_seconds \<Rightarrow>
          (let f = 10;
               f = (if remaining_seconds > of_int SECONDS_PER_HOUR then max f 20 else f);
               f = (if recent_foreground_activity state current then max f 30 else f);
               f = (if preserve_count \<le> 1 then max f 25 else f)
           in f))"

definition preserve_allows_opportunistic_burn :: "account_state \<Rightarrow> real \<Rightarrow> int \<Rightarrow> bool" where
  "preserve_allows_opportunistic_burn state current preserve_count =
     (if remaining_pct True state = None \<or> remaining_pct False state = None then False
      else if st_secondary_reset_at state = None \<or> st_reset_at state = None then False
      else or_else (remaining_pct True state) 0 > weekly_pace_floor_pct state current \<and>
           or_else (remaining_pct False state) 0 > short_window_floor_pct state current preserve_count)"

definition preserve_count :: "account_state list \<Rightarrow> int" where
  "preserve_count available =
     int (length (filter (\<lambda>s. routing_policy s = ROUTING_POLICY_PRESERVE) available))"

definition has_other_usable_foreground_capacity ::
  "account_state \<Rightarrow> account_state list \<Rightarrow> real \<Rightarrow> bool" where
  "has_other_usable_foreground_capacity candidate available current =
     list_ex (\<lambda>other.
        st_account_id other \<noteq> st_account_id candidate \<and> st_status other = ACTIVE \<and>
        (if routing_policy other = ROUTING_POLICY_PRESERVE
         then preserve_allows_opportunistic_burn other current (preserve_count available)
         else True)) available"

definition above_emergency_floor :: "account_state \<Rightarrow> bool" where
  "above_emergency_floor state =
     (case (remaining_pct False state, remaining_pct True state) of
        (Some primary_remaining, Some secondary_remaining) \<Rightarrow>
          primary_remaining > 5 \<and> secondary_remaining > 5
      | _ \<Rightarrow> False)"

definition opportunistic_ok :: "account_state list \<Rightarrow> real \<Rightarrow> account_state \<Rightarrow> bool" where
  "opportunistic_ok available current state =
     (if routing_policy state = ROUTING_POLICY_PRESERVE
      then preserve_allows_opportunistic_burn state current (preserve_count available)
      else has_other_usable_foreground_capacity state available current \<or> above_emergency_floor state)"

definition filter_opportunistic_candidates ::
  "account_state list \<Rightarrow> real \<Rightarrow> account_state list \<times> string option" where
  "filter_opportunistic_candidates available current =
     (let ok = filter (opportunistic_ok available current) available;
          burn_first = filter (\<lambda>s. routing_policy s = ROUTING_POLICY_BURN_FIRST) ok;
          preserve = filter (\<lambda>s. routing_policy s = ROUTING_POLICY_PRESERVE) ok;
          normal = filter (\<lambda>s. routing_policy s \<noteq> ROUTING_POLICY_BURN_FIRST \<and>
                               routing_policy s \<noteq> ROUTING_POLICY_PRESERVE) ok
      in if burn_first \<noteq> [] \<or> normal \<noteq> [] \<or> preserve \<noteq> []
         then (burn_first @ normal @ preserve, None)
         else if list_ex (\<lambda>s. routing_policy s = ROUTING_POLICY_PRESERVE) available
         then ([], Some ''preserve floor or stale usage data blocks opportunistic burn'')
         else ([], Some ''no expendable account has emergency foreground reserve''))"

section \<open>Reset preference and capacity\<close>

definition reset_preference_bucket ::
  "account_state \<Rightarrow> real \<Rightarrow> ResetPreferenceWindow \<Rightarrow> int" where
  "reset_preference_bucket state current window =
     (let weekly = first_some (st_priority_reset_at state) (st_secondary_reset_at state);
          reset_at = (case window of
              PrimaryWindow \<Rightarrow> first_some (st_primary_reset_at state) weekly
            | SecondaryWindow \<Rightarrow> first_some weekly (st_primary_reset_at state))
      in case reset_at of None \<Rightarrow> UNKNOWN_RESET_BUCKET_DAYS * SECONDS_PER_DAY
         | Some r \<Rightarrow>
             (let remaining_seconds = max 0 (py_int (of_int r - current))
              in if window = SecondaryWindow then remaining_seconds div SECONDS_PER_DAY
                 else remaining_seconds))"

definition prefer_earlier_reset_candidates ::
  "account_state list \<Rightarrow> real \<Rightarrow> ResetPreferenceWindow \<Rightarrow> py_error + account_state list" where
  "prefer_earlier_reset_candidates available current window =
     (case py_min_by id (map (\<lambda>s. reset_preference_bucket s current window) available) of
        Inl e \<Rightarrow> Inl e
      | Inr earliest_bucket \<Rightarrow>
          Inr (filter (\<lambda>s. reset_preference_bucket s current window = earliest_bucket) available))"

definition fallback_secondary_capacity_credits :: "string option \<Rightarrow> real" where
  "fallback_secondary_capacity_credits plan_type =
     (let normalized = py_lower (py_strip (default plan_type []));
          resolved_plan = default (map_of CAPACITY_PLAN_ALIASES normalized)
                            (if normalized = [] then ''free'' else normalized)
      in default (map_of PLAN_CAPACITY_CREDITS_SECONDARY resolved_plan)
           (the (map_of PLAN_CAPACITY_CREDITS_SECONDARY ''free'')))"

definition remaining_secondary_credits :: "account_state \<Rightarrow> real" where
  "remaining_secondary_credits state =
     (let capacity = first_some (st_priority_capacity_credits state) (st_capacity_credits state);
          remaining = (\<lambda>c. let primary_used = priority_primary_used state;
                               used = priority_secondary_used state (Some primary_used)
                           in max 0 (c * (1 - min used 100 / 100)))
      in case capacity of
           None \<Rightarrow> remaining (fallback_secondary_capacity_credits (st_plan_type state))
         | Some c \<Rightarrow> if c \<le> 0 then 0 else remaining c)"

definition capacity_probe_sort_key ::
  "account_state \<Rightarrow> real \<times> real \<times> real \<times> real \<times> string" where
  "capacity_probe_sort_key state = (- remaining_secondary_credits state, usage_sort_key state)"

section \<open>Strategies\<close>

subsection \<open>Relative availability\<close>

definition relative_availability_remaining_seconds :: "account_state \<Rightarrow> real \<Rightarrow> real" where
  "relative_availability_remaining_seconds state current =
     (case first_some (st_priority_reset_at state) (st_secondary_reset_at state) of
        None \<Rightarrow> of_int (7 * SECONDS_PER_DAY)
      | Some reset_at \<Rightarrow> max 0 (of_int reset_at - current))"

definition relative_availability_divisor_seconds :: "account_state \<Rightarrow> real \<Rightarrow> real" where
  "relative_availability_divisor_seconds state current =
     (let remaining_seconds =
        (case first_some (st_priority_reset_at state) (st_secondary_reset_at state) of
           None \<Rightarrow> of_int (7 * SECONDS_PER_DAY)
         | Some reset_at \<Rightarrow> max 0 (of_int reset_at - current))
      in max remaining_seconds (5 * 60))"

definition relative_availability_raw_score :: "account_state \<Rightarrow> real \<Rightarrow> real" where
  "relative_availability_raw_score state current =
     (let remaining_credits = remaining_secondary_credits state
      in if remaining_credits \<le> 0 then 0
         else remaining_credits / relative_availability_divisor_seconds state current)"

definition relative_availability_weighted_candidates ::
  "account_state list \<Rightarrow> real \<Rightarrow> real \<Rightarrow> int \<Rightarrow> (account_state \<times> real \<times> real) list" where
  "relative_availability_weighted_candidates available current exponent top_k =
     (let raw_scores = map (\<lambda>s. (s, relative_availability_raw_score s current)) available;
          best_raw_score = (case map snd raw_scores of [] \<Rightarrow> 0 | x # xs \<Rightarrow> fold max xs x)
      in if best_raw_score \<le> 0 then []
         else
           (let safe_power = (if exponent > 0 then exponent else 2);
                weighted = filter (\<lambda>(s, weight, raw_score). \<not> weight < 0.1)
                  (map (\<lambda>(s, raw_score). (s, (raw_score / best_raw_score) powr safe_power, raw_score))
                    raw_scores);
                ordered = sort_key (\<lambda>(s, weight, raw_score). (- weight, - raw_score, usage_sort_key s))
                  weighted
            in take (nat (max 1 top_k)) ordered))"

definition select_relative_availability ::
  "real \<Rightarrow> real \<Rightarrow> real \<Rightarrow> int \<Rightarrow> bool \<Rightarrow> account_state list \<Rightarrow> py_error + account_state" where
  "select_relative_availability u current exponent top_k deterministic_probe available =
     (let weighted_candidates =
        relative_availability_weighted_candidates available current exponent top_k
      in case weighted_candidates of
           [] \<Rightarrow> py_min_by usage_sort_key available
         | (winner, _) # _ \<Rightarrow>
             if deterministic_probe then Inr winner
             else
               (let states = map fst weighted_candidates;
                    weights = map (fst \<circ> snd) weighted_candidates
                in if sum_list weights \<le> 0 then py_min_by usage_sort_key available
                   else py_choices states weights u))"

subsection \<open>The deterministic orders\<close>

definition configured_capacity_credits :: "account_state \<Rightarrow> real" where
  "configured_capacity_credits state =
     (case st_capacity_credits state of
        Some c \<Rightarrow> if c > 0 then c else fallback_secondary_capacity_credits (st_plan_type state)
      | None \<Rightarrow> fallback_secondary_capacity_credits (st_plan_type state))"

definition sequential_drain_sort_key ::
  "(string \<Rightarrow> string) \<Rightarrow> account_state \<Rightarrow> real \<times> string \<times> string" where
  "sequential_drain_sort_key digest state =
     (configured_capacity_credits state, digest (st_account_id state), st_account_id state)"

definition weekly_reset_timestamp :: "account_state \<Rightarrow> real \<Rightarrow> instant" where
  "weekly_reset_timestamp state current =
     (case st_secondary_reset_at state of
        Some r \<Rightarrow> if of_int r > current then At (of_int r)
                  else (case st_reset_at state of
                          Some q \<Rightarrow> if q > current then At q else Never | None \<Rightarrow> Never)
      | None \<Rightarrow> (case st_reset_at state of
                    Some q \<Rightarrow> if q > current then At q else Never | None \<Rightarrow> Never))"

definition reset_drain_sort_key ::
  "(string \<Rightarrow> string) \<Rightarrow> real \<Rightarrow> account_state \<Rightarrow> int \<times> real \<times> real \<times> instant \<times> string \<times> string" where
  "reset_drain_sort_key digest current state =
     (let primary_remaining = 100 - default (st_used_percent state) 0;
          secondary_remaining =
            100 - default (first_some (st_secondary_used_percent state) (st_used_percent state)) 0;
          reset_at = weekly_reset_timestamp state current;
          reset_bucket_days = (case reset_at of Never \<Rightarrow> UNKNOWN_RESET_BUCKET_DAYS
              | At t \<Rightarrow> max 0 (py_floordiv (t - current) (of_int SECONDS_PER_DAY)))
      in (reset_bucket_days, - max 0 primary_remaining, - max 0 secondary_remaining, reset_at,
          digest (st_account_id state), st_account_id state))"

definition capacity_probe_sort_key_with_cost ::
  "routing_costs \<Rightarrow> account_state \<Rightarrow> real \<times> real \<times> real \<times> real \<times> real \<times> string" where
  "capacity_probe_sort_key_with_cost routing_costs state =
     (planner_cost state routing_costs, - remaining_secondary_credits state, usage_sort_key state)"

definition lowest_planner_cost_candidates ::
  "account_state list \<Rightarrow> routing_costs \<Rightarrow> py_error + account_state list" where
  "lowest_planner_cost_candidates available routing_costs =
     (case routing_costs of None \<Rightarrow> Inr available | Some [] \<Rightarrow> Inr available
      | Some costs \<Rightarrow>
         (case py_min_by id (map (\<lambda>s. planner_cost s routing_costs) available) of
            Inl e \<Rightarrow> Inl e
          | Inr lowest_cost \<Rightarrow>
              Inr (filter (\<lambda>s. planner_cost s routing_costs = lowest_cost) available)))"

definition select_capacity_weighted :: "real \<Rightarrow> account_state list \<Rightarrow> py_error + account_state" where
  "select_capacity_weighted u available =
     (let weights = map remaining_secondary_credits available
      in if sum_list weights \<le> 0 then py_min_by usage_sort_key available
         else py_choices available weights u)"

definition fill_first_sort_key :: "account_state \<Rightarrow> real \<times> real \<times> string" where
  "fill_first_sort_key state =
     (- default (st_used_percent state) 0, - default (st_secondary_used_percent state) 0,
      st_account_id state)"

definition select_fill_first :: "account_state list \<Rightarrow> py_error + account_state" where
  "select_fill_first available = py_min_by fill_first_sort_key available"

section \<open>Selection\<close>

record select_opts =
  so_prefer_earlier_reset :: bool
  so_prefer_earlier_reset_window :: ResetPreferenceWindow
  so_routing_strategy :: RoutingStrategy
  so_allow_backoff_fallback :: bool
  so_deterministic_probe :: bool
  so_relative_availability_power :: real
  so_relative_availability_top_k :: int
  so_usage_weighted_order :: UsageWeightedOrder
  so_traffic_class :: TrafficClass
  so_ignore_standard_quota :: bool
  so_bypass_quota_exceeded :: bool
  so_bypass_quota_exceeded_account_ids :: "string list option"
  so_primary_first_usage_weighted :: bool
  so_routing_costs :: routing_costs

text \<open>The keyword defaults of \<open>select_account\<close>.\<close>

definition default_opts :: select_opts where
  "default_opts =
     \<lparr>so_prefer_earlier_reset = False, so_prefer_earlier_reset_window = SecondaryWindow,
      so_routing_strategy = Capacity_weighted, so_allow_backoff_fallback = True,
      so_deterministic_probe = False, so_relative_availability_power = 2,
      so_relative_availability_top_k = 5, so_usage_weighted_order = Secondary_first,
      so_traffic_class = Foreground, so_ignore_standard_quota = False,
      so_bypass_quota_exceeded = False, so_bypass_quota_exceeded_account_ids = None,
      so_primary_first_usage_weighted = False, so_routing_costs = None\<rparr>"

text \<open>The values outside the arguments: the clock, the random number, the id digest.\<close>

record selection_env =
  env_time :: real
  env_random :: real
  env_digest :: "string \<Rightarrow> string"

definition error_backoff :: "int \<Rightarrow> int" where
  "error_backoff error_count = min 300 (30 * 2 ^ nat (error_count - 3))"

datatype verdict = Skip | InBackoff | Available

definition bypass_standard_quota :: "select_opts \<Rightarrow> account_state \<Rightarrow> bool" where
  "bypass_standard_quota opts state =
     (so_ignore_standard_quota opts \<or> st_ignore_standard_quota state \<or> so_bypass_quota_exceeded opts \<or>
      (case so_bypass_quota_exceeded_account_ids opts of None \<Rightarrow> False
       | Some ids \<Rightarrow> st_account_id state \<in> set ids))"

text \<open>The two status blocks: an expired block is lifted; \<open>True\<close> says \<open>continue\<close>.\<close>

definition recover_rate_limited :: "real \<Rightarrow> bool \<Rightarrow> account_state \<Rightarrow> account_state \<times> bool" where
  "recover_rate_limited current bypass state =
     (if st_status state = RATE_LIMITED
      then (if truthy (st_reset_at state) \<and> current \<ge> the (st_reset_at state)
            then (state\<lparr>st_status := ACTIVE, st_used_percent := Some 0, st_error_count := 0,
                        st_reset_at := None\<rparr>, False)
            else (state, \<not> bypass))
      else (state, False))"

definition recover_quota_exceeded :: "real \<Rightarrow> bool \<Rightarrow> account_state \<Rightarrow> account_state \<times> bool" where
  "recover_quota_exceeded current bypass state =
     (if st_status state = QUOTA_EXCEEDED
      then (if truthy (st_reset_at state) \<and> current \<ge> the (st_reset_at state)
            then (state\<lparr>st_status := ACTIVE, st_used_percent := Some 0,
                        st_secondary_used_percent := Some 0, st_reset_at := None\<rparr>, False)
            else (state, \<not> bypass))
      else (state, False))"

definition clear_cooldown :: "real \<Rightarrow> account_state \<Rightarrow> account_state" where
  "clear_cooldown current state =
     (if truthy (st_cooldown_until state) \<and> current \<ge> the (st_cooldown_until state)
      then state\<lparr>st_cooldown_until := None, st_last_error_at := None, st_error_count := 0\<rparr>
      else state)"

definition check_error_backoff :: "real \<Rightarrow> account_state \<Rightarrow> account_state \<times> verdict" where
  "check_error_backoff current state =
     (if st_error_count state \<ge> 3
      then (if truthy (st_last_error_at state) \<and>
               current - the (st_last_error_at state) < of_int (error_backoff (st_error_count state))
            then (state, InBackoff)
            else (state\<lparr>st_error_count := 0, st_last_error_at := None\<rparr>, Available))
      else (state, Available))"

text \<open>One turn of the eligibility loop.\<close>

definition refresh_state :: "real \<Rightarrow> bool \<Rightarrow> account_state \<Rightarrow> account_state \<times> verdict" where
  "refresh_state current bypass state =
     (if st_status state \<in> {REAUTH_REQUIRED, DEACTIVATED} then (state, Skip)
      else if st_status state = PAUSED then (state, Skip)
      else
        (let (state, skip) = recover_rate_limited current bypass state
         in if skip then (state, Skip)
            else
              (let (state, skip) = recover_quota_exceeded current bypass state
               in if skip then (state, Skip)
                  else
                    (let state = clear_cooldown current state
                     in if truthy (st_cooldown_until state) \<and> current < the (st_cooldown_until state)
                        then (state, Skip)
                        else check_error_backoff current state))))"

definition format_retry_hint :: "real \<Rightarrow> string" where
  "format_retry_hint wait_seconds =
     (let capped = min (max 0 wait_seconds) 300
      in ''Rate limit exceeded. Try again in '' @ show_int (round_half_even capped) @ ''s'')"

definition truthy_values :: "real option list \<Rightarrow> real list" where
  "truthy_values xs = map the (filter truthy xs)"

text \<open>The error message when no account can be selected.\<close>

definition unavailable_message :: "real \<Rightarrow> account_state list \<Rightarrow> string" where
  "unavailable_message current all_states =
     (let has = (\<lambda>st. list_ex (\<lambda>s. st_status s = st) all_states);
          blocked_message =
            (if \<not> has RATE_LIMITED \<and> \<not> has QUOTA_EXCEEDED
             then (if has PAUSED \<and> has REAUTH_REQUIRED \<and> has DEACTIVATED
                   then Some ''All accounts are paused, deactivated, or require re-authentication''
                   else if has PAUSED \<and> has REAUTH_REQUIRED
                   then Some ''All accounts are paused or require re-authentication''
                   else if has PAUSED \<and> has DEACTIVATED
                   then Some ''All accounts are paused or deactivated''
                   else if has REAUTH_REQUIRED \<and> has DEACTIVATED
                   then Some ''All accounts are deactivated or require re-authentication''
                   else if has PAUSED then Some ''All accounts are paused''
                   else if has REAUTH_REQUIRED then Some ''All accounts require re-authentication''
                   else if has DEACTIVATED then Some ''All accounts are deactivated''
                   else None)
             else None);
          quota_exceeded = filter (\<lambda>s. st_status s = QUOTA_EXCEEDED) all_states;
          reset_candidates = truthy_values (map st_reset_at quota_exceeded);
          cooldowns = filter (\<lambda>c. c > current) (truthy_values (map st_cooldown_until all_states))
      in case blocked_message of Some m \<Rightarrow> m
         | None \<Rightarrow>
             (case reset_candidates of
                r # rs \<Rightarrow> format_retry_hint (max 0 (fold min rs r - of_int (py_int current)))
              | [] \<Rightarrow>
                  (case cooldowns of
                     c # cs \<Rightarrow> format_retry_hint (max 0 (fold min cs c - current))
                   | [] \<Rightarrow> ''No available accounts'')))"

definition hard_blocked_exists :: "account_state list \<Rightarrow> account_state list \<Rightarrow> bool" where
  "hard_blocked_exists all_states in_error_backoff =
     list_ex (\<lambda>s. st_status s \<in> {PAUSED, REAUTH_REQUIRED, DEACTIVATED, RATE_LIMITED, QUOTA_EXCEEDED} \<and>
                  st_account_id s \<notin> st_account_id ` set in_error_backoff) all_states"

definition backoff_expires_at :: "account_state \<Rightarrow> real" where
  "backoff_expires_at s =
     or_else (st_last_error_at s) 0 + of_int (error_backoff (st_error_count s))"

definition opportunistic_gate ::
  "select_opts \<Rightarrow> real \<Rightarrow> account_state list \<Rightarrow> selection_result + account_state list" where
  "opportunistic_gate opts current available =
     (if so_traffic_class opts = Opportunistic
      then (case filter_opportunistic_candidates available current of
              ([], reason) \<Rightarrow>
                Inl (selection_error (''opportunistic burn window closed: '' @ default reason ''None''))
            | (candidates, _) \<Rightarrow> Inr candidates)
      else Inr available)"

text \<open>The candidates the strategy chooses from, or the early return.\<close>

definition selection_candidates ::
  "select_opts \<Rightarrow> real \<Rightarrow> account_state list \<Rightarrow> account_state list \<Rightarrow> account_state list \<Rightarrow>
   selection_result + account_state list" where
  "selection_candidates opts current all_states available in_error_backoff =
     (if available \<noteq> [] then opportunistic_gate opts current available
      else if so_allow_backoff_fallback opts \<and>
              (length in_error_backoff > 1 \<or>
               (in_error_backoff \<noteq> [] \<and> hard_blocked_exists all_states in_error_backoff))
      then (case py_min_by backoff_expires_at in_error_backoff of
              Inl e \<Rightarrow> Inr []
            | Inr s \<Rightarrow> opportunistic_gate opts current [s])
      else Inl (selection_error (unavailable_message current all_states)))"

definition or_list :: "'a list \<Rightarrow> 'a list \<Rightarrow> 'a list" where
  "or_list xs ys = (if xs = [] then ys else xs)"

definition health_pool :: "account_state list \<Rightarrow> account_state list" where
  "health_pool available =
     (let tier = (\<lambda>t. filter (\<lambda>s. st_health_tier s = t) available)
      in or_list (tier HEALTH_TIER_HEALTHY)
           (or_list (tier HEALTH_TIER_PROBING) (or_list (tier HEALTH_TIER_DRAINING) available)))"

definition effective_pool :: "account_state list \<Rightarrow> account_state list" where
  "effective_pool available =
     (let pool = health_pool available;
          policy = (\<lambda>p. filter (\<lambda>s. routing_policy s = p) pool)
      in or_list (policy ROUTING_POLICY_BURN_FIRST)
           (or_list (policy ROUTING_POLICY_NORMAL) (or_list (policy ROUTING_POLICY_PRESERVE) pool)))"

definition reset_first_sort_key ::
  "select_opts \<Rightarrow> real \<Rightarrow> account_state \<Rightarrow> int \<times> real \<times> real \<times> real \<times> real \<times> string" where
  "reset_first_sort_key opts current state =
     (reset_preference_bucket state current (so_prefer_earlier_reset_window opts),
      planner_cost state (so_routing_costs opts), usage_sort_key state)"

definition primary_reset_first_sort_key ::
  "select_opts \<Rightarrow> real \<Rightarrow> account_state \<Rightarrow> int \<times> real \<times> real \<times> real \<times> real \<times> string" where
  "primary_reset_first_sort_key opts current state =
     (reset_preference_bucket state current (so_prefer_earlier_reset_window opts),
      planner_cost state (so_routing_costs opts), primary_usage_sort_key state)"

definition primary_usage_sort_key_with_cost ::
  "routing_costs \<Rightarrow> account_state \<Rightarrow> real \<times> real \<times> real \<times> real \<times> string" where
  "primary_usage_sort_key_with_cost routing_costs state =
     (planner_cost state routing_costs, primary_usage_sort_key state)"

definition usage_sort_key_with_cost ::
  "routing_costs \<Rightarrow> account_state \<Rightarrow> real \<times> real \<times> real \<times> real \<times> string" where
  "usage_sort_key_with_cost routing_costs state =
     (planner_cost state routing_costs, usage_sort_key state)"

definition select_usage_weighted ::
  "select_opts \<Rightarrow> real \<Rightarrow> account_state list \<Rightarrow> py_error + account_state" where
  "select_usage_weighted opts current pool =
     (let order = (if so_primary_first_usage_weighted opts then Primary_first
                   else so_usage_weighted_order opts)
      in if order = Primary_first
         then (if so_prefer_earlier_reset opts
               then py_min_by (primary_reset_first_sort_key opts current) pool
               else py_min_by (primary_usage_sort_key_with_cost (so_routing_costs opts)) pool)
         else (if so_prefer_earlier_reset opts
               then py_min_by (reset_first_sort_key opts current) pool
               else py_min_by (usage_sort_key_with_cost (so_routing_costs opts)) pool))"

definition round_robin_sort_key :: "routing_costs \<Rightarrow> account_state \<Rightarrow> real \<times> real \<times> string" where
  "round_robin_sort_key routing_costs state =
     (planner_cost state routing_costs, or_else (st_last_selected_at state) 0, st_account_id state)"

text \<open>The reset preference, where the strategy and the options ask for it.\<close>

definition reset_pool ::
  "select_opts \<Rightarrow> real \<Rightarrow> account_state list \<Rightarrow> py_error + account_state list" where
  "reset_pool opts current pool =
     (if so_prefer_earlier_reset opts
      then prefer_earlier_reset_candidates pool current (so_prefer_earlier_reset_window opts)
      else Inr pool)"

definition pick_by_strategy ::
  "selection_env \<Rightarrow> select_opts \<Rightarrow> real \<Rightarrow> account_state list \<Rightarrow> py_error + account_state" where
  "pick_by_strategy env opts current available =
     (case so_routing_strategy opts of
        Single_account \<Rightarrow> py_min_by st_account_id available
      | Sequential_drain \<Rightarrow> py_min_by (sequential_drain_sort_key (env_digest env)) available
      | Reset_drain \<Rightarrow> py_min_by (reset_drain_sort_key (env_digest env) current) available
      | Round_robin \<Rightarrow>
          py_min_by (round_robin_sort_key (so_routing_costs opts)) (effective_pool available)
      | Capacity_weighted \<Rightarrow>
          (case reset_pool opts current (effective_pool available) of
             Inl e \<Rightarrow> Inl e
           | Inr pool \<Rightarrow>
               if so_deterministic_probe opts
               then py_min_by (capacity_probe_sort_key_with_cost (so_routing_costs opts)) pool
               else (case lowest_planner_cost_candidates pool (so_routing_costs opts) of
                       Inl e \<Rightarrow> Inl e
                     | Inr pool \<Rightarrow> select_capacity_weighted (env_random env) pool))
      | Relative_availability \<Rightarrow>
          (case lowest_planner_cost_candidates (effective_pool available) (so_routing_costs opts) of
             Inl e \<Rightarrow> Inl e
           | Inr pool \<Rightarrow>
               select_relative_availability (env_random env) current
                 (so_relative_availability_power opts) (so_relative_availability_top_k opts)
                 (so_deterministic_probe opts) pool)
      | Fill_first \<Rightarrow>
          (case reset_pool opts current (effective_pool available) of
             Inl e \<Rightarrow> Inl e | Inr pool \<Rightarrow> select_fill_first pool)
      | Usage_weighted \<Rightarrow> select_usage_weighted opts current (effective_pool available))"

definition current_time :: "selection_env \<Rightarrow> real option \<Rightarrow> real" where
  "current_time env now = or_else now (env_time env)"

text \<open>The updated states, and the result or the exception.\<close>

definition select_account ::
  "selection_env \<Rightarrow> select_opts \<Rightarrow> real option \<Rightarrow> account_state list \<Rightarrow>
   account_state list \<times> (py_error + selection_result)" where
  "select_account env opts now states =
     (let current = current_time env now;
          refreshed = map (\<lambda>s. refresh_state current (bypass_standard_quota opts s) s) states;
          all_states = map fst refreshed;
          available = map fst (filter (\<lambda>r. snd r = Available) refreshed);
          in_error_backoff = map fst (filter (\<lambda>r. snd r = InBackoff) refreshed)
      in (all_states,
          case selection_candidates opts current all_states available in_error_backoff of
            Inl returned \<Rightarrow> Inr returned
          | Inr candidates \<Rightarrow>
              (case pick_by_strategy env opts current candidates of
                 Inl e \<Rightarrow> Inl e | Inr s \<Rightarrow> Inr (selected_account s))))"

section \<open>Reacting to upstream failures\<close>

record upstream_error =
  err_message :: "string option"
  err_resets_at :: "real option"
  err_resets_in_seconds :: "real option"

definition extract_reset_at :: "real \<Rightarrow> upstream_error \<Rightarrow> int option" where
  "extract_reset_at now error =
     (case err_resets_at error of Some r \<Rightarrow> Some (py_int r)
      | None \<Rightarrow>
          (case err_resets_in_seconds error of Some s \<Rightarrow> Some (py_int (now + s)) | None \<Rightarrow> None))"

text \<open>Clock readings: for the error time, the block time, a relative reset, the cooldown.\<close>

definition handle_rate_limit ::
  "real \<times> real \<times> real \<times> real \<Rightarrow> real \<Rightarrow> upstream_error \<Rightarrow> account_state \<Rightarrow> account_state" where
  "handle_rate_limit clock jitter error state =
     (let (t_error, t_blocked, t_reset, t_cooldown) = clock;
          state = state\<lparr>st_status := RATE_LIMITED, st_error_count := st_error_count state + 1,
                        st_last_error_at := Some t_error, st_blocked_at := Some t_blocked\<rparr>;
          state = (case extract_reset_at t_reset error of
                     Some r \<Rightarrow> state\<lparr>st_reset_at := Some (of_int r)\<rparr> | None \<Rightarrow> state);
          hint = (case err_message error of
                    Some m \<Rightarrow> if m = [] then None else parse_retry_after m | None \<Rightarrow> None);
          delay = default hint (backoff_seconds jitter (st_error_count state))
      in state\<lparr>st_cooldown_until := Some (t_cooldown + delay)\<rparr>)"

definition QUOTA_EXCEEDED_COOLDOWN_SECONDS :: real where "QUOTA_EXCEEDED_COOLDOWN_SECONDS = 120"

text \<open>Clock readings: for the block time, the cooldown, a relative reset, the default reset.\<close>

definition handle_quota_exceeded ::
  "real \<times> real \<times> real \<times> real \<Rightarrow> upstream_error \<Rightarrow> account_state \<Rightarrow> account_state" where
  "handle_quota_exceeded clock error state =
     (let (t_blocked, t_cooldown, t_reset, t_default) = clock;
          state = state\<lparr>st_status := QUOTA_EXCEEDED, st_used_percent := Some 100,
                        st_blocked_at := Some t_blocked,
                        st_cooldown_until := Some (t_cooldown + QUOTA_EXCEEDED_COOLDOWN_SECONDS)\<rparr>
      in case extract_reset_at t_reset error of
           Some r \<Rightarrow> state\<lparr>st_reset_at := Some (of_int r)\<rparr>
         | None \<Rightarrow> state\<lparr>st_reset_at := Some (of_int (py_int (t_default + 3600)))\<rparr>)"

definition account_status_for_permanent_failure :: "string \<Rightarrow> AccountStatus" where
  "account_status_for_permanent_failure error_code =
     (if error_code \<in> set REAUTH_REQUIRED_FAILURE_CODES then REAUTH_REQUIRED else DEACTIVATED)"

definition handle_permanent_failure :: "string \<Rightarrow> account_state \<Rightarrow> account_state" where
  "handle_permanent_failure error_code state =
     state\<lparr>st_status := account_status_for_permanent_failure error_code,
           st_deactivation_reason :=
             Some (default (map_of PERMANENT_FAILURE_CODES error_code)
                     (''Authentication failed: '' @ error_code)),
           st_blocked_at := None\<rparr>"

datatype FailureClass = Rate_limit | Quota | Retryable_transient | Non_retryable

datatype FailoverAction = Failover_next | Surface

definition failover_decision :: "FailureClass \<Rightarrow> bool \<Rightarrow> int \<Rightarrow> FailoverAction" where
  "failover_decision failure_class downstream_visible candidates_remaining =
     (if downstream_visible then Surface
      else if candidates_remaining \<le> 0 then Surface
      else if failure_class \<in> {Rate_limit, Quota, Retryable_transient} then Failover_next
      else Surface)"

section \<open>Health tiers\<close>

record drain_settings =
  ds_primary_threshold_pct :: real
  ds_secondary_threshold_pct :: real
  ds_error_window_seconds :: real
  ds_error_count_threshold :: int
  ds_probe_quiet_seconds :: real
  ds_probe_success_streak_required :: int

definition default_drain_settings :: drain_settings where
  "default_drain_settings =
     \<lparr>ds_primary_threshold_pct = 85, ds_secondary_threshold_pct = 90, ds_error_window_seconds = 60,
      ds_error_count_threshold = 2, ds_probe_quiet_seconds = 60, ds_probe_success_streak_required = 3\<rparr>"

definition should_drain :: "drain_settings \<Rightarrow> real \<Rightarrow> account_state \<Rightarrow> bool" where
  "should_drain cfg current state =
     ((case st_used_percent state of None \<Rightarrow> False | Some u \<Rightarrow> u \<ge> ds_primary_threshold_pct cfg) \<or>
      (case st_secondary_used_percent state of None \<Rightarrow> False
       | Some u \<Rightarrow> u \<ge> ds_secondary_threshold_pct cfg) \<or>
      (st_error_count state \<ge> ds_error_count_threshold cfg \<and>
       (case st_last_error_at state of None \<Rightarrow> False
        | Some t \<Rightarrow> current - t < ds_error_window_seconds cfg)))"

definition evaluate_health_tier ::
  "drain_settings \<Rightarrow> real \<Rightarrow> real option \<Rightarrow> real option \<Rightarrow> int \<Rightarrow> account_state \<Rightarrow> int" where
  "evaluate_health_tier cfg clock now drain_entered_at probe_success_streak state =
     (let current = or_else now clock
      in if st_status state \<in> {RATE_LIMITED, QUOTA_EXCEEDED, PAUSED, REAUTH_REQUIRED, DEACTIVATED}
         then st_health_tier state
         else
           (let drain = should_drain cfg current state; current_tier = st_health_tier state
            in if current_tier = HEALTH_TIER_HEALTHY
               then (if drain then HEALTH_TIER_DRAINING else HEALTH_TIER_HEALTHY)
               else if current_tier = HEALTH_TIER_DRAINING
               then (if drain then HEALTH_TIER_DRAINING
                     else if (case drain_entered_at of None \<Rightarrow> False
                              | Some t \<Rightarrow> current - t \<ge> ds_probe_quiet_seconds cfg)
                     then HEALTH_TIER_PROBING else HEALTH_TIER_DRAINING)
               else if current_tier = HEALTH_TIER_PROBING
               then (if drain then HEALTH_TIER_DRAINING
                     else if probe_success_streak \<ge> ds_probe_success_streak_required cfg
                     then HEALTH_TIER_HEALTHY else HEALTH_TIER_PROBING)
               else HEALTH_TIER_HEALTHY))"

end
