(* ===== verification/Json.thy ===== *)
theory Json
  imports Prelude
begin

text \<open>
  JSON values and the accesses the program makes to them: \<open>d.get(key)\<close>, the \<open>isinstance\<close> tests for strings and
  objects, the truth value of a value, and the substring test \<open>needle in text\<close>. An object is an association list
  without duplicate keys, in the order of its keys.
\<close>

section \<open>Values\<close>

datatype json = JNull | JBool bool | JInt int | JFloat real | JStr string | JArr "json list" | JObj "(string \<times> json) list"

text \<open>\<open>obj.get(key)\<close>, \<open>None\<close> when the value is no object or has no such key.\<close>

fun json_get :: "json \<Rightarrow> string \<Rightarrow> json option" where
  "json_get (JObj kvs) key = map_of kvs key"
| "json_get _ key = None"

fun json_str :: "json option \<Rightarrow> string option" where
  "json_str (Some (JStr s)) = Some s"
| "json_str _ = None"

definition nonempty_str :: "string option \<Rightarrow> string option" where
  "nonempty_str s = (case s of Some (c # cs) \<Rightarrow> Some (c # cs) | _ \<Rightarrow> None)"

fun contains :: "string \<Rightarrow> string \<Rightarrow> bool" where
  "contains needle [] = (needle = [])"
| "contains needle (c # cs) = (starts_with needle (c # cs) \<or> contains needle cs)"

lemma nonempty_str_Some [simp]: "s \<noteq> [] \<Longrightarrow> nonempty_str (Some s) = Some s"
  by (cases s) (auto simp: nonempty_str_def)

lemma nonempty_str_None [simp]: "nonempty_str None = None" "nonempty_str (Some []) = None"
  by (simp_all add: nonempty_str_def)

lemma nonempty_strD: "nonempty_str s = Some t \<Longrightarrow> s = Some t \<and> t \<noteq> []"
  by (cases s; cases "the s") (auto simp: nonempty_str_def)

text \<open>The truth value of a JSON value.\<close>

fun json_truthy :: "json \<Rightarrow> bool" where
  "json_truthy JNull = False"
| "json_truthy (JBool b) = b"
| "json_truthy (JInt n) = (n \<noteq> 0)"
| "json_truthy (JFloat r) = (r \<noteq> 0)"
| "json_truthy (JStr s) = (s \<noteq> [])"
| "json_truthy (JArr xs) = (xs \<noteq> [])"
| "json_truthy (JObj kvs) = (kvs \<noteq> [])"

definition json_obj :: "json option \<Rightarrow> (string \<times> json) list option" where
  "json_obj v = (case v of Some (JObj kvs) \<Rightarrow> Some kvs | _ \<Rightarrow> None)"

definition json_arr :: "json option \<Rightarrow> json list option" where
  "json_arr v = (case v of Some (JArr xs) \<Rightarrow> Some xs | _ \<Rightarrow> None)"

definition has_key :: "(string \<times> json) list \<Rightarrow> string \<Rightarrow> bool" where
  "has_key kvs key = (map_of kvs key \<noteq> None)"

lemma json_obj_arr_simps [simp]:
  "json_obj None = None" "json_obj (Some (JObj kvs)) = Some kvs" "json_arr None = None" "json_arr (Some (JArr xs)) = Some xs"
  by (simp_all add: json_obj_def json_arr_def)

lemma json_obj_Some [simp]: "json_obj v = Some kvs \<longleftrightarrow> v = Some (JObj kvs)"
  by (auto simp: json_obj_def split: option.splits json.splits)

lemma json_arr_Some [simp]: "json_arr v = Some xs \<longleftrightarrow> v = Some (JArr xs)"
  by (auto simp: json_arr_def split: option.splits json.splits)

text \<open>A value inside another is smaller, which is what recursion over JSON rests on.\<close>

lemma size_map_of: "map_of kvs k = Some v \<Longrightarrow> size v < size (JObj kvs)"
proof (induction kvs)
  case (Cons kv kvs)
  then show ?case by (cases kv) (auto split: if_splits)
qed simp

lemma size_member: "x \<in> set xs \<Longrightarrow> size x < size (JArr xs)"
  by (induction xs) auto

lemma size_pair: "(k, v) \<in> set kvs \<Longrightarrow> size v < size (JObj kvs)"
  by (induction kvs) auto

end
