(* ===== verification/Proxy_Helpers.thy ===== *)
theory Proxy_Helpers
  imports Balancer Json "HOL-Library.Multiset"
begin

text \<open>
  Helpers of the proxy (\<open>app/modules/proxy/helpers.py\<close>): the classification of upstream failures, the rate limit status
  that is computed over the accounts of the pool (windows, credits, plan), and the normalisation of error objects. The
  pydantic validation of an error object and the printing of floats are arguments.
\<close>

section \<open>Failures\<close>

definition rate_limit_codes :: "string list" where
  "rate_limit_codes = [''rate_limit_exceeded'', ''usage_limit_reached'']"

definition quota_codes :: "string list" where
  "quota_codes = [''insufficient_quota'', ''usage_not_included'', ''quota_exceeded'']"

definition transient_codes :: "string list" where
  "transient_codes = [''server_error'', ''upstream_error'', ''stream_incomplete'', ''overloaded_error'']"

definition classify_upstream_failure :: "string \<Rightarrow> int option \<Rightarrow> FailureClass" where
  "classify_upstream_failure error_code http_status =
     (if error_code \<in> set rate_limit_codes then Rate_limit
      else if error_code \<in> set quota_codes then Quota
      else if error_code \<in> set transient_codes \<or> (case http_status of Some s \<Rightarrow> 500 \<le> s | None \<Rightarrow> False) then Retryable_transient
      else Non_retryable)"

definition normalize_error_code :: "string option \<Rightarrow> string option \<Rightarrow> string" where
  "normalize_error_code code error_type =
     (case first_some (nonempty_str code) (nonempty_str error_type) of None \<Rightarrow> ''upstream_error'' | Some v \<Rightarrow> py_lower v)"

definition header_account_id :: "string option \<Rightarrow> string option" where
  "header_account_id account_id =
     (case nonempty_str account_id of
        None \<Rightarrow> None | Some a \<Rightarrow> if starts_with ''email_'' a \<or> starts_with ''local_'' a then None else Some a)"

section \<open>Rate limit status\<close>

definition select_accounts_for_limits :: "account list \<Rightarrow> account list" where
  "select_accounts_for_limits accounts = filter (\<lambda>a. \<not> terminal_status (acct_status a)) accounts"

definition summarize_window ::
  "usage_window_row list \<Rightarrow> (string \<rightharpoonup> account) \<Rightarrow> string \<Rightarrow> usage_window_summary option" where
  "summarize_window rows account_map window =
     (if rows = [] then None else Some (summarize_usage_window rows account_map window))"

definition normalize_used_percent :: "real option \<Rightarrow> usage_window_row list \<Rightarrow> real option" where
  "normalize_used_percent v rows =
     (case v of
        Some p \<Rightarrow> Some p
      | None \<Rightarrow> (let values = List.map_filter row_used_percent rows in
                 if values = [] then None else Some (sum_list values / real (length values))))"

definition percent_to_int :: "real \<Rightarrow> int" where
  "percent_to_int v = py_int (max 0 (min 100 v))"

record window_snapshot =
  ws_used_percent :: int
  ws_limit_window_seconds :: int
  ws_reset_after_seconds :: int
  ws_reset_at :: int

definition build_window_snapshot ::
  "usage_window_summary option \<Rightarrow> usage_window_row list \<Rightarrow> string \<Rightarrow> int \<Rightarrow> window_snapshot option" where
  "build_window_snapshot summary rows window now_epoch =
     (case summary of
        None \<Rightarrow> None
      | Some s \<Rightarrow>
          (case normalize_used_percent (sum_used_percent s) rows of
             None \<Rightarrow> None
           | Some used \<Rightarrow>
               (case sum_reset_at s of
                  None \<Rightarrow> None
                | Some reset_at \<Rightarrow>
                    (case (case sum_window_minutes s of Some m \<Rightarrow> if m \<noteq> 0 then Some m else default_window_minutes window
                                                     | None \<Rightarrow> default_window_minutes window) of
                       None \<Rightarrow> None
                     | Some minutes \<Rightarrow>
                         if minutes = 0 then None
                         else Some \<lparr>ws_used_percent = percent_to_int used, ws_limit_window_seconds = minutes * 60,
                                    ws_reset_after_seconds = max 0 (reset_at - now_epoch), ws_reset_at = reset_at\<rparr>))))"

record rate_limit_details =
  rd_allowed :: bool
  rd_limit_reached :: bool
  rd_primary :: "window_snapshot option"
  rd_secondary :: "window_snapshot option"
  rd_monthly :: "window_snapshot option"

definition build_rate_limit_details ::
  "window_snapshot option \<Rightarrow> window_snapshot option \<Rightarrow> window_snapshot option \<Rightarrow> bool option \<Rightarrow> rate_limit_details option" where
  "build_rate_limit_details primary secondary monthly limit_reached =
     (if primary = None \<and> secondary = None \<and> monthly = None then None
      else let reached = (case limit_reached of
                 Some b \<Rightarrow> b
               | None \<Rightarrow> list_ex (\<lambda>w. 100 \<le> ws_used_percent w) (List.map_filter (\<lambda>w. w) [primary, secondary, monthly]))
           in Some \<lparr>rd_allowed = \<not> reached, rd_limit_reached = reached, rd_primary = primary, rd_secondary = secondary,
                    rd_monthly = monthly\<rparr>)"

record credits_total =
  ct_has_data :: bool
  ct_has_credits :: bool
  ct_unlimited :: bool
  ct_balance :: real

definition add_credits :: "usage_entry \<Rightarrow> credits_total \<Rightarrow> credits_total" where
  "add_credits entry t =
     (if ue_credits_has entry = None \<and> ue_credits_unlimited entry = None \<and> ue_credits_balance entry = None then t
      else \<lparr>ct_has_data = True,
            ct_has_credits = (ct_has_credits t \<or> ue_credits_has entry = Some True),
            ct_unlimited = (ct_unlimited t \<or> ue_credits_unlimited entry = Some True),
            ct_balance = (case ue_credits_balance entry of
               Some b \<Rightarrow> if ue_credits_unlimited entry = Some True then ct_balance t else ct_balance t + b
             | None \<Rightarrow> ct_balance t)\<rparr>)"

definition aggregate_credits :: "usage_entry list \<Rightarrow> (bool \<times> bool \<times> real) option" where
  "aggregate_credits entries =
     (let t = fold add_credits entries \<lparr>ct_has_data = False, ct_has_credits = False, ct_unlimited = False, ct_balance = 0\<rparr> in
      if \<not> ct_has_data t then None else Some (ct_has_credits t \<or> ct_unlimited t, ct_unlimited t, ct_balance t))"

definition credits_headers :: "(real \<Rightarrow> string) \<Rightarrow> usage_entry list \<Rightarrow> (string \<times> string) list" where
  "credits_headers fmt entries =
     (case aggregate_credits entries of
        None \<Rightarrow> []
      | Some (has, unlimited, balance) \<Rightarrow>
          [(''x-codex-credits-has-credits'', if has then ''true'' else ''false''),
           (''x-codex-credits-unlimited'', if unlimited then ''true'' else ''false''),
           (''x-codex-credits-balance'', fmt balance)])"

definition rate_limit_headers :: "(real \<Rightarrow> string) \<Rightarrow> string \<Rightarrow> usage_window_summary \<Rightarrow> (string \<times> string) list" where
  "rate_limit_headers fmt label s =
     (case (sum_used_percent s, sum_window_minutes s) of
        (Some used, Some minutes) \<Rightarrow>
          [(''x-codex-'' @ label @ ''-used-percent'', fmt used), (''x-codex-'' @ label @ ''-window-minutes'', show_int minutes)] @
          (case sum_reset_at s of Some r \<Rightarrow> [(''x-codex-'' @ label @ ''-reset-at'', show_int r)] | None \<Rightarrow> [])
      | _ \<Rightarrow> [])"

section \<open>The plan of a pool\<close>

definition PLAN_TYPE_PRIORITY :: "string list" where
  "PLAN_TYPE_PRIORITY =
     [''enterprise'', ''business'', ''team'', ''pro'', ''plus'', ''education'', ''edu'', ''free_workspace'', ''free'', ''go'',
      ''guest'', ''quorum'', ''k12'']"

definition plan_type_for_accounts :: "account list \<Rightarrow> string" where
  "plan_type_for_accounts accounts =
     (let filtered = List.map_filter (\<lambda>a. normalize_rate_limit_plan_type (Some (acct_plan_type a))) accounts in
      case filtered of
        [] \<Rightarrow> ''guest''
      | plan # rest \<Rightarrow>
          if list_all (\<lambda>p. p = plan) rest then plan
          else (case find (\<lambda>p. p \<in> set filtered) PLAN_TYPE_PRIORITY of Some p \<Rightarrow> p | None \<Rightarrow> ''guest''))"

section \<open>Error objects\<close>

record openai_error_info =
  oe_message :: "string option"
  oe_type :: "string option"
  oe_code :: "string option"
  oe_param :: "string option"
  oe_plan_type :: "string option"
  oe_resets_at :: "real option"
  oe_resets_in_seconds :: "real option"

definition coerce_error_number :: "(string \<Rightarrow> real option) \<Rightarrow> json option \<Rightarrow> real option" where
  "coerce_error_number fl v =
     (case v of
        Some (JInt n) \<Rightarrow> Some (of_int n)
      | Some (JBool b) \<Rightarrow> Some (if b then 1 else 0)
      | Some (JFloat r) \<Rightarrow> Some r
      | Some (JStr s) \<Rightarrow> fl (py_strip s)
      | _ \<Rightarrow> None)"

definition parse_openai_error ::
  "((string \<times> json) list \<Rightarrow> openai_error_info option) \<Rightarrow> (string \<Rightarrow> real option) \<Rightarrow> (string \<times> json) list \<Rightarrow> openai_error_info option" where
  "parse_openai_error validate fl payload =
     (case map_of payload ''error'' of
        None \<Rightarrow> None
      | Some v \<Rightarrow>
          if \<not> json_truthy v then None
          else case json_obj (Some v) of
            None \<Rightarrow> None
          | Some e \<Rightarrow>
              (case validate e of
                 Some err \<Rightarrow> Some err
               | None \<Rightarrow>
                   Some \<lparr>oe_message = json_str (map_of e ''message''), oe_type = json_str (map_of e ''type''),
                         oe_code = json_str (map_of e ''code''), oe_param = json_str (map_of e ''param''),
                         oe_plan_type = json_str (map_of e ''plan_type''),
                         oe_resets_at = coerce_error_number fl (map_of e ''resets_at''),
                         oe_resets_in_seconds = coerce_error_number fl (map_of e ''resets_in_seconds'')\<rparr>))"

definition upstream_error_from_openai :: "openai_error_info option \<Rightarrow> upstream_error" where
  "upstream_error_from_openai error =
     (case error of
        None \<Rightarrow> \<lparr>err_message = None, err_resets_at = None, err_resets_in_seconds = None\<rparr>
      | Some e \<Rightarrow> \<lparr>err_message = oe_message e, err_resets_at = oe_resets_at e, err_resets_in_seconds = oe_resets_in_seconds e\<rparr>)"

section \<open>Properties\<close>

lemma py_int_le_of_le: "x \<le> of_int n \<Longrightarrow> py_int x \<le> n"
  using py_int_mono [of x "of_int n"] by simp

lemma percent_to_int_bounds: "0 \<le> percent_to_int v" "percent_to_int v \<le> 100"
proof -
  show "0 \<le> percent_to_int v" unfolding percent_to_int_def by (rule py_int_nonneg) simp
  have "max 0 (min 100 v) \<le> of_int (100 :: int)" by simp
  then show "percent_to_int v \<le> 100" unfolding percent_to_int_def by (rule py_int_le_of_le)
qed

lemma percent_to_int_full: "100 \<le> percent_to_int v \<longleftrightarrow> 100 \<le> v"
proof
  assume "100 \<le> percent_to_int v"
  moreover have "of_int (percent_to_int v) \<le> max 0 (min 100 v)" unfolding percent_to_int_def by (rule py_int_le) simp
  ultimately show "100 \<le> v" by linarith
next
  assume "100 \<le> v"
  then have "max 0 (min 100 v) = of_int (100 :: int)" by simp
  then show "100 \<le> percent_to_int v" unfolding percent_to_int_def by (simp only: py_int_of_int)
qed

text \<open>
  The rate limit status of the pool is well formed and says what the usage says. A window that is reported has a
  percentage between 0 and 100, a non-negative time to its reset, and the reset of the summary; and unless the caller
  decides it, the limit is reported as reached exactly when some reported window is used up to 100 percent, with
  rounding never in the client's disfavour.
\<close>

theorem rate_limit_status_sound:
  "case build_window_snapshot summary rows window now of
     None \<Rightarrow> True
   | Some w \<Rightarrow>
       (\<exists>s used. summary = Some s \<and> normalize_used_percent (sum_used_percent s) rows = Some used \<and> sum_reset_at s = Some (ws_reset_at w) \<and>
          0 \<le> ws_used_percent w \<and> ws_used_percent w \<le> 100 \<and> (100 \<le> ws_used_percent w) = (100 \<le> used) \<and>
          0 \<le> ws_reset_after_seconds w \<and> ws_limit_window_seconds w \<noteq> 0 \<and>
          (case build_rate_limit_details (Some w) secondary monthly None of
             None \<Rightarrow> False
           | Some d \<Rightarrow> rd_allowed d = (\<not> rd_limit_reached d) \<and>
               rd_limit_reached d =
                 (100 \<le> used \<or> (case secondary of Some x \<Rightarrow> 100 \<le> ws_used_percent x | None \<Rightarrow> False) \<or>
                  (case monthly of Some x \<Rightarrow> 100 \<le> ws_used_percent x | None \<Rightarrow> False))))"
proof (cases "build_window_snapshot summary rows window now")
  case (Some w)
  then obtain s used reset_at minutes where parts: "summary = Some s" "normalize_used_percent (sum_used_percent s) rows = Some used"
    "sum_reset_at s = Some reset_at" "minutes \<noteq> 0"
    "w = \<lparr>ws_used_percent = percent_to_int used, ws_limit_window_seconds = minutes * 60,
          ws_reset_after_seconds = max 0 (reset_at - now), ws_reset_at = reset_at\<rparr>"
    unfolding build_window_snapshot_def by (auto split: option.splits if_splits)
  moreover have "list_ex (\<lambda>w. 100 \<le> ws_used_percent w) (List.map_filter (\<lambda>w. w) [Some w, secondary, monthly]) \<longleftrightarrow>
      100 \<le> ws_used_percent w \<or> (case secondary of Some x \<Rightarrow> 100 \<le> ws_used_percent x | None \<Rightarrow> False) \<or>
      (case monthly of Some x \<Rightarrow> 100 \<le> ws_used_percent x | None \<Rightarrow> False)"
    by (cases secondary; cases monthly) (simp_all add: List.map_filter_simps)
  ultimately show ?thesis
    using Some percent_to_int_bounds [of used] percent_to_int_full [of used] by (simp add: build_rate_limit_details_def)
qed simp

text \<open>The credits of a pool do not depend on the order of its accounts, and neither does its plan.\<close>

lemma add_credits_commute: "add_credits a (add_credits b t) = add_credits b (add_credits a t)"
  by (auto simp: add_credits_def split: option.splits)

lemma aggregate_credits_permuted: "mset entries = mset entries' \<Longrightarrow> aggregate_credits entries = aggregate_credits entries'"
proof -
  assume "mset entries = mset entries'"
  then have "fold add_credits entries = fold add_credits entries'"
    by (intro fold_multiset_equiv) (simp_all add: fun_eq_iff add_credits_commute)
  then show ?thesis by (simp add: aggregate_credits_def)
qed

text \<open>\<open>prolite\<close> is a known plan that has no place in the order of plans: beside another plan it is not reported.\<close>

lemma prolite_has_no_priority: "''prolite'' \<in> set RATE_LIMIT_PLAN_TYPES" "''prolite'' \<notin> set PLAN_TYPE_PRIORITY"
  by code_simp+

lemma prolite_pool_reported_as_free:
  "plan_type_for_accounts (map (\<lambda>plan. \<lparr>acct_id = plan, acct_plan_type = plan, acct_routing_policy = ''normal'', acct_status = ACTIVE,
      acct_deactivation_reason = None, acct_reset_at = None, acct_blocked_at = None, acct_security_work_authorized = False\<rparr>)
      [''prolite'', ''free'']) = ''free''"
  by code_simp

end
