(* ===== verification/Resilience.thy ===== *)
theory Resilience
  imports Prelude
begin

text \<open>
  The guards around upstream calls (\<open>app/core/resilience/\<close>): the degradation flag, the circuit
  breaker, the retry budget, the bulkhead lanes with the overload codes, and the memory thresholds.

  A circuit breaker is shared by concurrent calls. \<open>CircuitBreaker.call\<close> and the other callers of
  \<open>app/core/clients/proxy.py\<close> await the upstream between their check and their bookkeeping, so their
  parts are separate steps of a step relation, and a system is a breaker with the calls in flight. The lock makes each part atomic; the monotonic clock is an argument
  of every step.
\<close>

section \<open>Degradation\<close>

datatype DegradationLevel = NORMAL | DEGRADED | CRITICAL

record degradation_manager =
  dm_level :: DegradationLevel
  dm_reason :: "string option"

definition DegradationManager :: degradation_manager where
  "DegradationManager = \<lparr>dm_level = NORMAL, dm_reason = None\<rparr>"

definition set_degraded :: "string option \<Rightarrow> degradation_manager \<Rightarrow> degradation_manager" where
  "set_degraded reason m = m\<lparr>dm_level := DEGRADED, dm_reason := reason\<rparr>"

definition set_normal :: "degradation_manager \<Rightarrow> degradation_manager" where
  "set_normal m = m\<lparr>dm_level := NORMAL, dm_reason := None\<rparr>"

definition is_degraded :: "degradation_manager \<Rightarrow> bool" where
  "is_degraded m = (dm_level m \<noteq> NORMAL)"

section \<open>Circuit breaker\<close>

datatype CircuitState = CLOSED | OPEN | HALF_OPEN

record circuit_breaker =
  cb_state :: CircuitState
  cb_failure_count :: int
  cb_success_count :: int
  cb_last_failure_time :: "real option"
  cb_half_open_probe_in_flight :: bool
  cb_failure_threshold :: int
  cb_recovery_timeout_seconds :: int
  cb_success_threshold :: int

definition CircuitBreaker :: "int \<Rightarrow> int \<Rightarrow> int \<Rightarrow> circuit_breaker" where
  "CircuitBreaker failure_threshold recovery_timeout_seconds success_threshold =
     \<lparr>cb_state = CLOSED, cb_failure_count = 0, cb_success_count = 0, cb_last_failure_time = None,
      cb_half_open_probe_in_flight = False, cb_failure_threshold = failure_threshold,
      cb_recovery_timeout_seconds = recovery_timeout_seconds, cb_success_threshold = success_threshold\<rparr>"

text \<open>The property \<open>state\<close>: an open breaker reads half-open once the recovery time has passed.\<close>

definition breaker_state :: "real \<Rightarrow> circuit_breaker \<Rightarrow> CircuitState" where
  "breaker_state now cb =
     (case cb_last_failure_time cb of
        None \<Rightarrow> cb_state cb
      | Some t \<Rightarrow>
          if cb_state cb = OPEN \<and> now - t \<ge> of_int (cb_recovery_timeout_seconds cb) then HALF_OPEN
          else cb_state cb)"

text \<open>\<open>Inl RuntimeError\<close> stands for \<open>CircuitBreakerOpenError\<close>; the result says whether the call is a probe.\<close>

definition pre_call_check :: "real \<Rightarrow> circuit_breaker \<Rightarrow> circuit_breaker \<times> (py_error + bool)" where
  "pre_call_check now cb =
     (case breaker_state now cb of
        OPEN \<Rightarrow> (cb, Inl RuntimeError)
      | HALF_OPEN \<Rightarrow>
          if cb_half_open_probe_in_flight cb then (cb, Inl RuntimeError)
          else (cb\<lparr>cb_half_open_probe_in_flight := True\<rparr>, Inr True)
      | CLOSED \<Rightarrow> (cb, Inr False))"

definition release_half_open_probe :: "circuit_breaker \<Rightarrow> circuit_breaker" where
  "release_half_open_probe cb = cb\<lparr>cb_half_open_probe_in_flight := False\<rparr>"

definition breaker_record_success :: "real \<Rightarrow> circuit_breaker \<Rightarrow> circuit_breaker" where
  "breaker_record_success now cb =
     (case breaker_state now cb of
        HALF_OPEN \<Rightarrow>
          let cb = cb\<lparr>cb_success_count := cb_success_count cb + 1\<rparr>
          in if cb_success_count cb \<ge> cb_success_threshold cb
             then cb\<lparr>cb_state := CLOSED, cb_failure_count := 0, cb_success_count := 0\<rparr> else cb
      | CLOSED \<Rightarrow> if cb_failure_count cb > 0 then cb\<lparr>cb_failure_count := 0\<rparr> else cb
      | OPEN \<Rightarrow> cb)"

text \<open>
  The exceptions \<open>_is_server_error\<close> tells apart: a client response error with its status, a timeout,
  any other exception with its optional \<open>status_code\<close>.
\<close>

datatype call_error = ClientResponseError int | TimeoutError | OtherError "int option"

fun is_server_error :: "call_error \<Rightarrow> bool" where
  "is_server_error (ClientResponseError status) = (status \<ge> 500)"
| "is_server_error TimeoutError = True"
| "is_server_error (OtherError None) = True"
| "is_server_error (OtherError (Some status_code)) = (status_code \<ge> 500)"

definition breaker_record_failure :: "real \<Rightarrow> call_error \<Rightarrow> circuit_breaker \<Rightarrow> circuit_breaker" where
  "breaker_record_failure now exc cb =
     (if \<not> is_server_error exc then cb
      else
        let cb = cb\<lparr>cb_failure_count := cb_failure_count cb + 1, cb_last_failure_time := Some now,
                    cb_success_count := 0\<rparr>
        in if cb_failure_count cb \<ge> cb_failure_threshold cb then cb\<lparr>cb_state := OPEN\<rparr> else cb)"

text \<open>
  How a call ends: with a result, with an exception, or cancelled (\<open>CancelledError\<close> is no \<open>Exception\<close>,
  so neither bookkeeping runs); the probe is given back in every case.
\<close>

datatype call_end = Returned | Raised call_error | Cancelled

definition finish_call :: "real \<Rightarrow> call_end \<Rightarrow> bool \<Rightarrow> circuit_breaker \<Rightarrow> circuit_breaker" where
  "finish_call now how is_probe cb =
     (let cb = (case how of
                  Returned \<Rightarrow> breaker_record_success now cb
                | Raised exc \<Rightarrow> breaker_record_failure now exc cb
                | Cancelled \<Rightarrow> cb)
      in if is_probe then release_half_open_probe cb else cb)"

text \<open>\<open>call\<close> when nothing else uses the breaker between its parts: \<open>t0\<close> and \<open>t1\<close> are start and end.\<close>

definition breaker_call :: "real \<Rightarrow> real \<Rightarrow> call_end \<Rightarrow> circuit_breaker \<Rightarrow> circuit_breaker \<times> bool" where
  "breaker_call t0 t1 how cb =
     (case pre_call_check t0 cb of
        (cb, Inl e) \<Rightarrow> (cb, False)
      | (cb, Inr is_probe) \<Rightarrow> (finish_call t1 how is_probe cb, True))"

text \<open>
  The other callers of a breaker (\<open>app/core/clients/proxy.py\<close>). A response that is streamed inside
  \<open>_service_circuit_breaker_context\<close> is recorded when its context is left: by its status, or by the exception that left it
  and the status of the response, if there was one by then.
\<close>

datatype context_end = Completed "int option" | Left "int option" call_error | ContextCancelled

definition record_context :: "real \<Rightarrow> context_end \<Rightarrow> circuit_breaker \<Rightarrow> circuit_breaker" where
  "record_context now how cb =
     (case how of
        Completed (Some status) \<Rightarrow>
          if status \<ge> 500 then breaker_record_failure now (OtherError None) cb else breaker_record_success now cb
      | Completed None \<Rightarrow> breaker_record_success now cb
      | Left (Some status) e \<Rightarrow>
          if status < 500 \<and> \<not> is_server_error e then breaker_record_success now cb else breaker_record_failure now e cb
      | Left None e \<Rightarrow> breaker_record_failure now e cb
      | ContextCancelled \<Rightarrow> cb)"

text \<open>
  The handshake of a websocket (\<open>_open_upstream_websocket\<close>): the request raises, the answer has a status other than 101, the
  upgrade is not accepted, or the websocket is open. A caller that holds the probe gets it bound to the websocket; only
  the others give it back here.
\<close>

datatype handshake = RequestRaised call_error | AnsweredWith int | UpgradeFailed call_error | HandshakeCancelled | Opened

definition record_handshake :: "real \<Rightarrow> handshake \<Rightarrow> circuit_breaker \<Rightarrow> circuit_breaker" where
  "record_handshake now h cb =
     (case h of
        RequestRaised e \<Rightarrow> breaker_record_failure now e cb
      | AnsweredWith status \<Rightarrow>
          if status \<ge> 500 then breaker_record_failure now (OtherError None) cb else breaker_record_success now cb
      | UpgradeFailed e \<Rightarrow> breaker_record_failure now e cb
      | HandshakeCancelled \<Rightarrow> cb
      | Opened \<Rightarrow> cb)"

definition finish_handshake :: "real \<Rightarrow> bool \<Rightarrow> handshake \<Rightarrow> bool \<Rightarrow> circuit_breaker \<Rightarrow> circuit_breaker \<times> bool" where
  "finish_handshake now hold_half_open_probe h is_probe cb =
     (let cb = record_handshake now h cb
      in (if is_probe \<and> \<not> hold_half_open_probe then release_half_open_probe cb else cb,
          h = Opened \<and> hold_half_open_probe \<and> is_probe))"

text \<open>
  The end of a websocket stream: the lifecycle is recorded once, the bound probe is given back. A stream over a proxy route
  records its lifecycle as well, but was never checked.
\<close>

definition finish_websocket_stream :: "real \<Rightarrow> call_end \<Rightarrow> bool \<Rightarrow> circuit_breaker \<Rightarrow> circuit_breaker" where
  "finish_websocket_stream now lifecycle probe_bound cb =
     (let cb = (case lifecycle of
                  Returned \<Rightarrow> breaker_record_success now cb
                | Raised exc \<Rightarrow> breaker_record_failure now exc cb
                | Cancelled \<Rightarrow> cb)
      in if probe_bound then release_half_open_probe cb else cb)"

text \<open>The breakers of the accounts, created on first use.\<close>

record breaker_settings =
  bs_enabled :: bool
  bs_failure_threshold :: int
  bs_recovery_timeout_seconds :: int

definition get_circuit_breaker ::
  "breaker_settings option \<Rightarrow> circuit_breaker option \<Rightarrow> circuit_breaker option \<times> circuit_breaker option" where
  "get_circuit_breaker settings current =
     (case settings of
        None \<Rightarrow> (current, current)
      | Some cfg \<Rightarrow>
          let current = (if bs_enabled cfg \<and> current = None
                         then Some (CircuitBreaker (bs_failure_threshold cfg) (bs_recovery_timeout_seconds cfg) 2)
                         else current)
          in (current, if bs_enabled cfg then current else None))"

definition get_circuit_breaker_for_account ::
  "breaker_settings \<Rightarrow> string \<Rightarrow> (string \<times> circuit_breaker) list
   \<Rightarrow> (string \<times> circuit_breaker) list \<times> circuit_breaker option" where
  "get_circuit_breaker_for_account cfg account_id breakers =
     (if \<not> bs_enabled cfg then (breakers, None)
      else case map_of breakers account_id of
             Some b \<Rightarrow> (breakers, Some b)
           | None \<Rightarrow>
               let b = CircuitBreaker (bs_failure_threshold cfg) (bs_recovery_timeout_seconds cfg) 2
               in (breakers @ [(account_id, b)], Some b))"

definition are_all_account_circuit_breakers_open :: "real \<Rightarrow> (string \<times> circuit_breaker) list \<Rightarrow> bool" where
  "are_all_account_circuit_breakers_open now breakers =
     (breakers \<noteq> [] \<and> (\<forall>(i, cb) \<in> set breakers. breaker_state now cb = OPEN))"

section \<open>Retry budget\<close>

record retry_budget =
  rb_max_retries :: int
  rb_window_seconds :: int
  rb_retry_timestamps :: "real list"

definition RetryBudget :: "int \<Rightarrow> int \<Rightarrow> retry_budget" where
  "RetryBudget max_retries_per_window window_seconds =
     \<lparr>rb_max_retries = max_retries_per_window, rb_window_seconds = window_seconds, rb_retry_timestamps = []\<rparr>"

definition try_acquire :: "real \<Rightarrow> retry_budget \<Rightarrow> retry_budget \<times> bool" where
  "try_acquire now b =
     (let cutoff = now - of_int (rb_window_seconds b);
          kept = dropWhile (\<lambda>t. t < cutoff) (rb_retry_timestamps b)
      in if int (length kept) \<ge> rb_max_retries b then (b\<lparr>rb_retry_timestamps := kept\<rparr>, False)
         else (b\<lparr>rb_retry_timestamps := kept @ [now]\<rparr>, True))"

definition remaining :: "real \<Rightarrow> retry_budget \<Rightarrow> int" where
  "remaining now b =
     (let cutoff = now - of_int (rb_window_seconds b)
      in max 0 (rb_max_retries b - int (length (filter (\<lambda>t. t \<ge> cutoff) (rb_retry_timestamps b)))))"

section \<open>Bulkhead and overload\<close>

definition LOCAL_OVERLOAD_CODE :: string where "LOCAL_OVERLOAD_CODE = ''proxy_overloaded''"

definition LOCAL_OVERLOAD_CODES :: "string list" where
  "LOCAL_OVERLOAD_CODES =
     [LOCAL_OVERLOAD_CODE, ''account_response_create_cap'', ''account_stream_cap'', ''bridge_queue_full'',
      ''response_create_gate_timeout'', ''global_admission_timeout'', ''capacity_exhausted_active_sessions'']"

definition is_local_overload_error_code :: "string option \<Rightarrow> bool" where
  "is_local_overload_error_code code = (case code of None \<Rightarrow> False | Some c \<Rightarrow> c \<in> set LOCAL_OVERLOAD_CODES)"

definition merge_retry_after_headers :: "(string \<times> string) list option \<Rightarrow> string \<Rightarrow> (string \<times> string) list" where
  "merge_retry_after_headers headers retry_after =
     (let merged = default headers []
      in case map_of merged ''Retry-After'' of
           None \<Rightarrow> merged @ [(''Retry-After'', retry_after)] | Some _ \<Rightarrow> merged)"

definition is_proxy_path :: "string \<Rightarrow> bool" where
  "is_proxy_path path = (starts_with ''/v1/'' path \<or> starts_with ''/backend-api/'' path)"

definition is_compact_path :: "string \<Rightarrow> bool" where
  "is_compact_path path = ends_with ''/responses/compact'' path"

datatype lane = Proxy_websocket | Proxy_compact | Proxy_http | Dashboard

text \<open>A lane without a semaphore is unlimited; a semaphore is its limit and the permits in use.\<close>

record semaphore =
  sem_limit :: int
  sem_in_use :: int

type_synonym bulkhead = "lane \<Rightarrow> semaphore option"

definition new_semaphore :: "int \<Rightarrow> semaphore option" where
  "new_semaphore limit = (if limit > 0 then Some \<lparr>sem_limit = limit, sem_in_use = 0\<rparr> else None)"

definition BulkheadSemaphore :: "int option \<Rightarrow> int \<Rightarrow> int option \<Rightarrow> int option \<Rightarrow> int option \<Rightarrow> bulkhead" where
  "BulkheadSemaphore proxy_limit dashboard_limit proxy_http_limit proxy_websocket_limit proxy_compact_limit =
     (let resolved_proxy_limit = default proxy_limit 200;
          http = default proxy_http_limit resolved_proxy_limit;
          ws = default proxy_websocket_limit resolved_proxy_limit;
          compact = (case proxy_compact_limit of
                       None \<Rightarrow> if http \<le> 0 then 0 else min http 16 | Some c \<Rightarrow> c)
      in (\<lambda>l. case l of
                Proxy_http \<Rightarrow> new_semaphore http
              | Proxy_websocket \<Rightarrow> new_semaphore ws
              | Proxy_compact \<Rightarrow> new_semaphore compact
              | Dashboard \<Rightarrow> new_semaphore dashboard_limit))"

datatype scope_type = Http | Websocket | Lifespan

definition get_semaphore_lane :: "scope_type \<Rightarrow> string \<Rightarrow> lane" where
  "get_semaphore_lane scope_type path =
     (if scope_type = Websocket \<and> is_proxy_path path then Proxy_websocket
      else if scope_type = Http \<and> is_compact_path path then Proxy_compact
      else if scope_type = Http \<and> is_proxy_path path then Proxy_http
      else Dashboard)"

text \<open>
  What the middleware does with a request: pass it on unguarded, reject it with a status, or pass it
  on holding a permit of a lane. \<open>memory_pressure\<close> is the answer of the memory monitor.
\<close>

datatype admission = PassUnguarded | Reject int | Admit lane

definition bulkhead_admit :: "bool \<Rightarrow> scope_type \<Rightarrow> string \<Rightarrow> bulkhead \<Rightarrow> bulkhead \<times> admission" where
  "bulkhead_admit memory_pressure scope_type path b =
     (if scope_type = Lifespan then (b, PassUnguarded)
      else if starts_with ''/health'' path then (b, PassUnguarded)
      else if memory_pressure then (b, Reject 503)
      else
        let lane = get_semaphore_lane scope_type path
        in case b lane of
             None \<Rightarrow> (b, PassUnguarded)
           | Some sem \<Rightarrow>
               if sem_in_use sem \<ge> sem_limit sem then (b, Reject 429)
               else (b(lane := Some (sem\<lparr>sem_in_use := sem_in_use sem + 1\<rparr>)), Admit lane))"

definition bulkhead_release :: "lane \<Rightarrow> bulkhead \<Rightarrow> bulkhead" where
  "bulkhead_release lane b = b(lane := map_option (\<lambda>sem. sem\<lparr>sem_in_use := sem_in_use sem - 1\<rparr>) (b lane))"

section \<open>Memory thresholds\<close>

record memory_thresholds =
  mt_warning_bytes :: int
  mt_reject_bytes :: int

definition configure_memory :: "int \<Rightarrow> int \<Rightarrow> memory_thresholds" where
  "configure_memory warning_threshold_mb reject_threshold_mb =
     \<lparr>mt_warning_bytes = warning_threshold_mb * 1024 * 1024, mt_reject_bytes = reject_threshold_mb * 1024 * 1024\<rparr>"

definition is_memory_pressure :: "memory_thresholds \<Rightarrow> int \<Rightarrow> bool" where
  "is_memory_pressure m rss_bytes = (mt_reject_bytes m > 0 \<and> rss_bytes \<ge> mt_reject_bytes m)"

definition is_memory_warning :: "memory_thresholds \<Rightarrow> int \<Rightarrow> bool" where
  "is_memory_warning m rss_bytes = (mt_warning_bytes m > 0 \<and> rss_bytes \<ge> mt_warning_bytes m)"

section \<open>The circuit breaker under concurrent calls\<close>

text \<open>
  A breaker with the calls in flight (for each, whether it is a probe), and the steps of the system at a given time: a call
  is turned away or starts; a result is recorded, by a call in flight or by a stream that was never checked; a call ends and
  gives its probe back, or ends without giving it back (a websocket that was to hold the probe and failed to open).
\<close>

type_synonym breaker_system = "circuit_breaker \<times> bool list"

inductive breaker_step :: "real \<Rightarrow> breaker_system \<Rightarrow> breaker_system \<Rightarrow> bool" where
  rejected: "pre_call_check now cb = (cb', Inl e) \<Longrightarrow> breaker_step now (cb, calls) (cb', calls)"
| started: "pre_call_check now cb = (cb', Inr is_probe) \<Longrightarrow>
    breaker_step now (cb, calls) (cb', calls @ [is_probe])"
| succeeded: "breaker_step now (cb, calls) (breaker_record_success now cb, calls)"
| failed: "breaker_step now (cb, calls) (breaker_record_failure now exc cb, calls)"
| given_back: "i < length calls \<Longrightarrow>
    breaker_step now (cb, calls) (if calls ! i then release_half_open_probe cb else cb, take i calls @ drop (Suc i) calls)"
| abandoned: "i < length calls \<Longrightarrow> breaker_step now (cb, calls) (cb, take i calls @ drop (Suc i) calls)"

inductive_cases breaker_stepE: "breaker_step now (cb, calls) \<sigma>"

inductive breaker_reach :: "circuit_breaker \<Rightarrow> real \<Rightarrow> breaker_system \<Rightarrow> bool" for cb0 where
  start: "breaker_reach cb0 t (cb0, [])"
| step: "breaker_reach cb0 t \<sigma> \<Longrightarrow> t \<le> t' \<Longrightarrow> breaker_step t' \<sigma> \<sigma>' \<Longrightarrow> breaker_reach cb0 t' \<sigma>'"

text \<open>The tails of all callers are runs of these steps.\<close>

lemma record_or_skip:
  assumes "cb' = cb \<or> cb' = breaker_record_success now cb \<or> (\<exists>e. cb' = breaker_record_failure now e cb)"
  shows "(breaker_step now)\<^sup>*\<^sup>* (cb, calls) (cb', calls)"
  using assms by (auto intro: r_into_rtranclp breaker_step.intros)

lemma callers_are_steps:
  assumes "i < length calls"
  shows "(breaker_step now)\<^sup>*\<^sup>* (cb, calls) (finish_call now how (calls ! i) cb, take i calls @ drop (Suc i) calls)"
    and "(breaker_step now)\<^sup>*\<^sup>* (cb, calls)
      (if calls ! i then release_half_open_probe (record_context now ctx cb) else record_context now ctx cb, take i calls @ drop (Suc i) calls)"
    and "(breaker_step now)\<^sup>*\<^sup>* (cb, calls) (finish_websocket_stream now how (calls ! i) cb, take i calls @ drop (Suc i) calls)"
    and "(breaker_step now)\<^sup>*\<^sup>* (cb, calls)
      (fst (finish_handshake now hold h (calls ! i) cb), if hold \<and> h = Opened then calls else take i calls @ drop (Suc i) calls)"
proof -
  have returned: "(breaker_step now)\<^sup>*\<^sup>* (cb, calls) (if calls ! i then release_half_open_probe cb' else cb', take i calls @ drop (Suc i) calls)"
    and kept: "(breaker_step now)\<^sup>*\<^sup>* (cb, calls) (cb', take i calls @ drop (Suc i) calls)"
    if "cb' = cb \<or> cb' = breaker_record_success now cb \<or> (\<exists>e. cb' = breaker_record_failure now e cb)" for cb'
    using record_or_skip [OF that, of calls] given_back [OF assms, of now cb'] abandoned [OF assms, of now cb']
    by (auto intro: rtranclp.rtrancl_into_rtrancl)
  have "(case how of Returned \<Rightarrow> breaker_record_success now cb | Raised exc \<Rightarrow> breaker_record_failure now exc cb | Cancelled \<Rightarrow> cb) = cb' \<Longrightarrow>
      cb' = cb \<or> cb' = breaker_record_success now cb \<or> (\<exists>e. cb' = breaker_record_failure now e cb)" for cb'
    by (auto split: call_end.splits)
  from returned [OF this [OF refl]]
  show "(breaker_step now)\<^sup>*\<^sup>* (cb, calls) (finish_call now how (calls ! i) cb, take i calls @ drop (Suc i) calls)"
    "(breaker_step now)\<^sup>*\<^sup>* (cb, calls) (finish_websocket_stream now how (calls ! i) cb, take i calls @ drop (Suc i) calls)"
    by (simp_all add: finish_call_def finish_websocket_stream_def Let_def)
  have "record_context now ctx cb = cb \<or> record_context now ctx cb = breaker_record_success now cb \<or>
      (\<exists>e. record_context now ctx cb = breaker_record_failure now e cb)"
    by (auto simp: record_context_def split: context_end.splits option.splits)
  from returned [OF this]
  show "(breaker_step now)\<^sup>*\<^sup>* (cb, calls)
      (if calls ! i then release_half_open_probe (record_context now ctx cb) else record_context now ctx cb, take i calls @ drop (Suc i) calls)" .
  have opened: "record_handshake now Opened cb = cb" by (simp add: record_handshake_def)
  have recorded: "record_handshake now h cb = cb \<or> record_handshake now h cb = breaker_record_success now cb \<or>
      (\<exists>e. record_handshake now h cb = breaker_record_failure now e cb)"
    by (auto simp: record_handshake_def split: handshake.splits)
  show "(breaker_step now)\<^sup>*\<^sup>* (cb, calls)
      (fst (finish_handshake now hold h (calls ! i) cb), if hold \<and> h = Opened then calls else take i calls @ drop (Suc i) calls)"
    using opened returned [OF recorded] kept [OF recorded]
    by (cases hold; cases "h = Opened") (auto simp: finish_handshake_def Let_def opened)
qed

definition probes :: "bool list \<Rightarrow> nat" where
  "probes calls = count_list calls True"

definition breaker_inv :: "breaker_system \<Rightarrow> bool" where
  "breaker_inv \<sigma> \<longleftrightarrow>
     (case \<sigma> of (cb, calls) \<Rightarrow>
        probes calls \<le> (if cb_half_open_probe_in_flight cb then 1 else 0) \<and>
        cb_state cb \<noteq> HALF_OPEN \<and> 0 \<le> cb_failure_count cb \<and> 0 \<le> cb_success_count cb \<and>
        (cb_state cb = OPEN \<longleftrightarrow> cb_failure_threshold cb \<le> cb_failure_count cb) \<and>
        (cb_state cb = OPEN \<longrightarrow> cb_last_failure_time cb \<noteq> None) \<and>
        0 < cb_failure_threshold cb)"

lemmas breaker_ops =
  pre_call_check_def finish_call_def breaker_record_success_def breaker_record_failure_def
  release_half_open_probe_def breaker_state_def

lemma probes_remove:
  assumes "i < length calls"
  shows "probes calls = probes (take i calls @ drop (Suc i) calls) + (if calls ! i then 1 else 0)"
proof -
  have "probes calls = probes (take i calls @ calls ! i # drop (Suc i) calls)" by (simp only: id_take_nth_drop[OF assms, symmetric])
  then show ?thesis by (simp add: probes_def)
qed

lemma breaker_state_CLOSED [simp]: "breaker_state now cb = CLOSED \<longleftrightarrow> cb_state cb = CLOSED"
  by (auto simp: breaker_state_def split: option.split)

lemma breaker_closed_state: "cb_state cb = CLOSED \<Longrightarrow> breaker_state now cb = CLOSED"
  by simp

lemma rejected_unchanged: "pre_call_check now cb = (cb', Inl e) \<Longrightarrow> cb' = cb"
  by (auto simp: pre_call_check_def split: CircuitState.splits if_splits)

lemma pre_call_check_inv:
  assumes "breaker_inv (cb, calls)" and "pre_call_check now cb = (cb', Inr is_probe)"
  shows "breaker_inv (cb', calls @ [is_probe])"
  using assms by (auto simp: breaker_inv_def breaker_ops probes_def split: option.splits CircuitState.splits if_splits)

lemma record_inv:
  assumes "breaker_inv (cb, calls)"
  shows "breaker_inv (breaker_record_success now cb, calls)" and "breaker_inv (breaker_record_failure now exc cb, calls)"
  using assms by (auto simp: breaker_inv_def breaker_record_success_def breaker_record_failure_def Let_def split: CircuitState.split)

lemma end_inv:
  assumes "breaker_inv (cb, calls)" and i: "i < length calls"
  shows "breaker_inv (if calls ! i then release_half_open_probe cb else cb, take i calls @ drop (Suc i) calls)"
    and "breaker_inv (cb, take i calls @ drop (Suc i) calls)"
  using assms(1) probes_remove [OF i] by (auto simp: breaker_inv_def release_half_open_probe_def split: if_splits)

lemma breaker_reach_inv:
  assumes "breaker_reach cb0 t \<sigma>" and "breaker_inv (cb0, [])"
  shows "breaker_inv \<sigma>"
  using assms
proof (induction rule: breaker_reach.induct)
  case (step t \<sigma> t' \<sigma>')
  obtain cb calls where s: "\<sigma> = (cb, calls)" by fastforce
  then have inv: "breaker_inv (cb, calls)" using step by simp
  from step.hyps(3)[unfolded s] inv show ?case
    by (auto elim!: breaker_stepE intro: pre_call_check_inv record_inv end_inv dest: rejected_unchanged)
qed

lemma CircuitBreaker_inv: "0 < f \<Longrightarrow> breaker_inv (CircuitBreaker f r s, [])"
  by (simp add: breaker_inv_def CircuitBreaker_def probes_def)

text \<open>
  C24: The recovering upstream sees one probe at a time. In every state the concurrent system of a breaker and its callers
  can reach (calls are turned away, start, record results, end with or without giving their probe back, in any order and
  with the clock moving forward, and streams over a proxy route record results without ever having been checked), at most
  one call in flight is a probe, the breaker knows when there is one, and while there is one a breaker that is not closed
  turns every call away that asks. The breaker is open exactly while the recorded failures have reached the threshold.
\<close>

theorem breaker_single_probe:
  assumes "breaker_reach (CircuitBreaker f r s) t (cb, calls)" and "0 < f"
  shows "count_list calls True \<le> 1 \<and> (True \<in> set calls \<longrightarrow> cb_half_open_probe_in_flight cb) \<and>
     (cb_state cb = OPEN \<longleftrightarrow> cb_failure_threshold cb \<le> cb_failure_count cb) \<and>
     (True \<in> set calls \<and> breaker_state now cb \<noteq> CLOSED \<longrightarrow>
       pre_call_check now cb = (cb, Inl RuntimeError))"
proof -
  have inv: "breaker_inv (cb, calls)" using breaker_reach_inv[OF assms(1) CircuitBreaker_inv[OF assms(2)]] .
  then have a: "count_list calls True \<le> 1 \<and> (True \<in> set calls \<longrightarrow> cb_half_open_probe_in_flight cb)"
    using count_list_0_iff[of calls True] by (auto simp: breaker_inv_def probes_def split: if_splits)
  have c2: "cb_state cb = OPEN \<longleftrightarrow> cb_failure_threshold cb \<le> cb_failure_count cb"
    using inv by (simp add: breaker_inv_def)
  have c3: "True \<in> set calls \<Longrightarrow> breaker_state now cb \<noteq> CLOSED \<Longrightarrow> pre_call_check now cb = (cb, Inl RuntimeError)"
    using a by (cases "breaker_state now cb") (auto simp: pre_call_check_def)
  show ?thesis using a c2 c3 by blast
qed

text \<open>
  A websocket that was to hold its probe and failed to open leaves the flag set: from then on the half-open breaker of the
  account turns every call away, although no probe is in flight.
\<close>

lemma failed_handshake_loses_probe:
  assumes "breaker_state now cb = HALF_OPEN" and "\<not> cb_half_open_probe_in_flight cb"
    and "pre_call_check now cb = (cb1, Inr is_probe)" and "cb_failure_threshold cb \<le> cb_failure_count cb"
    and "finish_handshake now' True (RequestRaised TimeoutError) is_probe cb1 = (cb2, bound)"
  shows "is_probe \<and> \<not> bound \<and> fst (pre_call_check later cb2) = cb2 \<and> snd (pre_call_check later cb2) = Inl RuntimeError"
proof -
  have "cb1 = cb\<lparr>cb_half_open_probe_in_flight := True\<rparr>" "is_probe" using assms(1-3) by (simp_all add: pre_call_check_def)
  then have "cb_half_open_probe_in_flight cb2" "cb_state cb2 = OPEN" "is_probe" "\<not> bound"
    using assms(4,5) by (auto simp: finish_handshake_def record_handshake_def breaker_record_failure_def Let_def)
  then show ?thesis by (cases "breaker_state later cb2") (auto simp: pre_call_check_def)
qed

lemma example_probe_reach:
  "breaker_reach (CircuitBreaker 1 60 2) 100
     (\<lparr>cb_state = OPEN, cb_failure_count = 1, cb_success_count = 0, cb_last_failure_time = Some 10,
       cb_half_open_probe_in_flight = True, cb_failure_threshold = 1, cb_recovery_timeout_seconds = 60,
       cb_success_threshold = 2\<rparr>, [True])"
proof -
  let ?open = "\<lparr>cb_state = OPEN, cb_failure_count = 1, cb_success_count = 0, cb_last_failure_time = Some 10,
       cb_half_open_probe_in_flight = False, cb_failure_threshold = 1, cb_recovery_timeout_seconds = 60,
       cb_success_threshold = 2\<rparr>"
  have "breaker_step 10 (CircuitBreaker 1 60 2, []) (CircuitBreaker 1 60 2, [] @ [False])"
    by (rule started) (simp add: breaker_ops CircuitBreaker_def)
  then have "breaker_reach (CircuitBreaker 1 60 2) 10 (CircuitBreaker 1 60 2, [False])"
    using breaker_reach.step[OF breaker_reach.start, of 10 10] by simp
  moreover have "breaker_step 10 (CircuitBreaker 1 60 2, [False]) (?open, [False])"
    using failed[of 10 "CircuitBreaker 1 60 2" "[False]" TimeoutError] by (simp add: breaker_ops CircuitBreaker_def)
  ultimately have "breaker_reach (CircuitBreaker 1 60 2) 10 (?open, [False])"
    by (rule breaker_reach.step[OF _ order_refl])
  moreover have "breaker_step 10 (?open, [False]) (?open, [])" using given_back[of 0 "[False]" 10 ?open] by simp
  ultimately have "breaker_reach (CircuitBreaker 1 60 2) 10 (?open, [])"
    by (rule breaker_reach.step[OF _ order_refl])
  moreover have "breaker_step 100 (?open, []) (?open\<lparr>cb_half_open_probe_in_flight := True\<rparr>, [] @ [True])"
    by (rule started) (simp add: breaker_ops)
  ultimately show ?thesis using breaker_reach.step[of _ 10 _ 100] by simp
qed

theorem breaker_single_probe_witness:
  "let cb = \<lparr>cb_state = OPEN, cb_failure_count = 1, cb_success_count = 0, cb_last_failure_time = Some 10,
        cb_half_open_probe_in_flight = True, cb_failure_threshold = 1, cb_recovery_timeout_seconds = 60,
        cb_success_threshold = 2\<rparr>
   in count_list [True] True \<le> 1 \<and> breaker_state 100 cb = HALF_OPEN \<and> pre_call_check 100 cb = (cb, Inl RuntimeError)"
  using breaker_single_probe[OF example_probe_reach, of 100] by (simp add: breaker_state_def)

text \<open>Successive calls that all end the same way, at the given times.\<close>

definition calls_at :: "call_end \<Rightarrow> real list \<Rightarrow> circuit_breaker \<Rightarrow> circuit_breaker" where
  "calls_at how ts cb = fold (\<lambda>t cb. fst (breaker_call t t how cb)) ts cb"

lemma failing_calls:
  assumes "cb_state cb = CLOSED" and "\<not> cb_half_open_probe_in_flight cb" and "is_server_error e"
    and "int (length ts) \<le> cb_failure_threshold cb - cb_failure_count cb"
  shows "cb_failure_count (calls_at (Raised e) ts cb) = cb_failure_count cb + int (length ts) \<and>
         cb_state (calls_at (Raised e) ts cb) =
           (if ts \<noteq> [] \<and> cb_failure_threshold cb \<le> cb_failure_count cb + int (length ts) then OPEN else CLOSED)"
  using assms
proof (induction ts arbitrary: cb)
  case (Cons t ts)
  let ?cb = "fst (breaker_call t t (Raised e) cb)"
  have cb: "?cb = breaker_record_failure t e cb"
    using Cons.prems(1) by (simp add: breaker_call_def pre_call_check_def finish_call_def breaker_closed_state)
  have f: "cb_failure_count ?cb = cb_failure_count cb + 1" "cb_failure_threshold ?cb = cb_failure_threshold cb"
      "\<not> cb_half_open_probe_in_flight ?cb"
      "cb_state ?cb = (if cb_failure_threshold cb \<le> cb_failure_count cb + 1 then OPEN else CLOSED)"
    using Cons.prems unfolding cb by (simp_all add: breaker_record_failure_def Let_def)
  show ?case
  proof (cases "ts = []")
    case True
    with f show ?thesis by (simp add: calls_at_def)
  next
    case False
    then have "0 < int (length ts)" by simp
    with Cons.prems(4) f have "cb_state ?cb = CLOSED" by simp
    then show ?thesis
      using Cons.IH[of ?cb] Cons.prems(3,4) f False by (simp add: calls_at_def)
  qed
qed (simp add: calls_at_def)

lemma recovering_calls:
  assumes "cb_state cb = OPEN" and "\<not> cb_half_open_probe_in_flight cb"
    and "cb_last_failure_time cb = Some tf" and "\<forall>t \<in> set ts. of_int (cb_recovery_timeout_seconds cb) \<le> t - tf"
    and "int (length ts) \<le> cb_success_threshold cb - cb_success_count cb"
  shows "cb_state (calls_at Returned ts cb) =
           (if ts \<noteq> [] \<and> cb_success_threshold cb \<le> cb_success_count cb + int (length ts) then CLOSED else OPEN)"
  using assms
proof (induction ts arbitrary: cb)
  case (Cons t ts)
  let ?cb = "fst (breaker_call t t Returned cb)"
  have half: "breaker_state t x = HALF_OPEN"
    if "cb_state x = OPEN" "cb_last_failure_time x = Some tf"
      "cb_recovery_timeout_seconds x = cb_recovery_timeout_seconds cb" for x
    using that Cons.prems(4) by (simp add: breaker_state_def)
  have cb: "?cb = release_half_open_probe (breaker_record_success t (cb\<lparr>cb_half_open_probe_in_flight := True\<rparr>))"
    using Cons.prems half[of cb] by (simp add: breaker_call_def pre_call_check_def finish_call_def)
  have f: "?cb = (if cb_success_threshold cb \<le> cb_success_count cb + 1
      then cb\<lparr>cb_state := CLOSED, cb_failure_count := 0, cb_success_count := 0, cb_half_open_probe_in_flight := False\<rparr>
      else cb\<lparr>cb_success_count := cb_success_count cb + 1, cb_half_open_probe_in_flight := False\<rparr>)"
    unfolding cb using Cons.prems half[of "cb\<lparr>cb_half_open_probe_in_flight := True\<rparr>"]
    by (simp add: breaker_record_success_def release_half_open_probe_def Let_def)
  show ?case
  proof (cases "ts = []")
    case True
    with f Cons.prems show ?thesis by (simp add: calls_at_def)
  next
    case False
    then have "0 < int (length ts)" by simp
    with Cons.prems(5) f have cb': "?cb = cb\<lparr>cb_success_count := cb_success_count cb + 1, cb_half_open_probe_in_flight := False\<rparr>"
      by simp
    have "calls_at Returned (t # ts) cb = calls_at Returned ts ?cb" by (simp add: calls_at_def)
    then show ?thesis
      using Cons.IH[of ?cb] Cons.prems False unfolding cb' by simp
  qed
qed (simp add: calls_at_def)

text \<open>
  The breaker trips on the threshold and heals on its own. A fresh breaker is still closed after
  fewer than \<open>failure_threshold\<close> failing calls in a row and open after that many; and once the
  recovery time has passed since the last failure, an open breaker admits probes, stays open while
  fewer than \<open>success_threshold\<close> of them have succeeded, and is closed after that many.
\<close>

theorem breaker_trips_and_recovers:
  "(is_server_error e \<and> 0 < f \<and> int (length ts) \<le> f \<longrightarrow>
       cb_state (calls_at (Raised e) ts (CircuitBreaker f r s)) =
       (if int (length ts) < f then CLOSED else OPEN)) \<and>
     (cb_state cb = OPEN \<and> \<not> cb_half_open_probe_in_flight cb \<and> cb_success_count cb = 0 \<and>
      cb_last_failure_time cb = Some tf \<and> 0 < cb_success_threshold cb \<and>
      (\<forall>t \<in> set ts. of_int (cb_recovery_timeout_seconds cb) \<le> t - tf) \<and>
      int (length ts) \<le> cb_success_threshold cb \<longrightarrow>
       cb_state (calls_at Returned ts cb) = (if int (length ts) < cb_success_threshold cb then OPEN else CLOSED))"
proof -
  have c1: "cb_state (calls_at (Raised e) ts (CircuitBreaker f r s)) = (if int (length ts) < f then CLOSED else OPEN)"
    if "is_server_error e" "0 < f" "int (length ts) \<le> f"
    using failing_calls[of "CircuitBreaker f r s" e ts] that by (cases "ts = []") (auto simp: CircuitBreaker_def)
  have c2: "cb_state (calls_at Returned ts cb) = (if int (length ts) < cb_success_threshold cb then OPEN else CLOSED)"
    if "cb_state cb = OPEN" "\<not> cb_half_open_probe_in_flight cb" "cb_success_count cb = 0"
       "cb_last_failure_time cb = Some tf" "0 < cb_success_threshold cb"
       "\<forall>t \<in> set ts. of_int (cb_recovery_timeout_seconds cb) \<le> t - tf"
       "int (length ts) \<le> cb_success_threshold cb"
    using recovering_calls[of cb tf ts] that by (cases "ts = []") auto
  show ?thesis using c1 c2 by blast
qed

theorem breaker_trips_and_recovers_witness:
  "cb_state (calls_at (Raised TimeoutError) [1, 2, 3, 4, 5] (CircuitBreaker 5 60 2)) = OPEN \<and>
   cb_state (calls_at (Raised TimeoutError) [1, 2, 3, 4] (CircuitBreaker 5 60 2)) = CLOSED"
  using breaker_trips_and_recovers(1)[of TimeoutError 5 "[1, 2, 3, 4, 5]" 60 2]
    breaker_trips_and_recovers(1)[of TimeoutError 5 "[1, 2, 3, 4]" 60 2]
  by simp

section \<open>The retry budget is a sliding window\<close>

text \<open>Attempts at the given times; the times at which a retry was granted, in order.\<close>

fun budget_run :: "real list \<Rightarrow> retry_budget \<Rightarrow> retry_budget \<times> real list" where
  "budget_run [] b = (b, [])"
| "budget_run (t # ts) b =
     (let (b, granted) = try_acquire t b; (b, rest) = budget_run ts b
      in (b, if granted then t # rest else rest))"

definition in_window :: "real \<Rightarrow> real \<Rightarrow> real list \<Rightarrow> nat" where
  "in_window lo hi ts = length (filter (\<lambda>x. lo \<le> x \<and> x \<le> hi) ts)"

text \<open>Every retry granted so far found less than the budget in the window that ends with it.\<close>

definition windows_ok :: "real \<Rightarrow> int \<Rightarrow> real list \<Rightarrow> bool" where
  "windows_ok w m granted \<longleftrightarrow>
     (\<forall>i < length granted. int (length (filter (\<lambda>x. granted ! i - w \<le> x) (take (Suc i) granted))) \<le> m)"

lemma windows_ok_snoc:
  "windows_ok w m (gs @ [g]) \<longleftrightarrow> windows_ok w m gs \<and> int (length (filter (\<lambda>x. g - w \<le> x) (gs @ [g]))) \<le> m"
  by (auto simp: windows_ok_def less_Suc_eq nth_append)

lemma length_filter_le_filter:
  "(\<And>x. P x \<Longrightarrow> Q x) \<Longrightarrow> length (filter P xs) \<le> length (filter Q xs)"
  by (induction xs) (auto intro: le_SucI)

lemma windows_ok_bound:
  assumes "windows_ok w m gs" and "sorted gs" and "0 \<le> m"
  shows "int (in_window (t - w) t gs) \<le> m"
  using assms
proof (induction gs rule: rev_induct)
  case (snoc g gs)
  have ok: "windows_ok w m gs" "int (length (filter (\<lambda>x. g - w \<le> x) (gs @ [g]))) \<le> m"
    using snoc.prems(1) by (simp_all add: windows_ok_snoc)
  show ?case
  proof (cases "g \<le> t")
    case True
    have "in_window (t - w) t (gs @ [g]) \<le> length (filter (\<lambda>x. g - w \<le> x) (gs @ [g]))"
      unfolding in_window_def using True by (intro length_filter_le_filter) simp
    with ok(2) show ?thesis by linarith
  next
    case False
    with snoc ok(1) show ?thesis by (simp add: in_window_def sorted_append)
  qed
qed (simp add: in_window_def)

definition budget_inv :: "real \<Rightarrow> real list \<Rightarrow> retry_budget \<Rightarrow> bool" where
  "budget_inv now granted b \<longleftrightarrow>
     sorted granted \<and> (\<forall>g \<in> set granted. g \<le> now) \<and>
     windows_ok (of_int (rb_window_seconds b)) (rb_max_retries b) granted \<and>
     (\<exists>old. granted = old @ rb_retry_timestamps b \<and> (\<forall>x \<in> set old. x < now - of_int (rb_window_seconds b)))"

lemma dropWhile_sorted_filter: "sorted xs \<Longrightarrow> dropWhile (\<lambda>t. t < c) xs = filter (\<lambda>t. c \<le> t) xs" for c :: real
  by (induction xs) (auto simp: not_less intro!: filter_True[symmetric])

lemma takeWhile_dropWhile_old:
  "\<exists>old. xs = old @ dropWhile (\<lambda>t. t < c) xs \<and> (\<forall>x \<in> set old. x < c)" for c :: real
  by (metis takeWhile_dropWhile_id set_takeWhileD)

lemma try_acquire_inv:
  assumes inv: "budget_inv now granted b" and t: "now \<le> t" and run: "try_acquire t b = (b', ok)"
  shows "budget_inv t (if ok then granted @ [t] else granted) b' \<and>
         rb_window_seconds b' = rb_window_seconds b \<and> rb_max_retries b' = rb_max_retries b"
proof -
  let ?w = "of_int (rb_window_seconds b) :: real"
  let ?ts = "rb_retry_timestamps b"
  let ?kept = "dropWhile (\<lambda>x. x < t - ?w) ?ts"
  obtain old where old: "granted = old @ ?ts" "\<forall>x \<in> set old. x < now - ?w"
    using inv by (auto simp: budget_inv_def)
  have srt: "sorted granted" "sorted ?ts" using inv old by (auto simp: budget_inv_def sorted_append)
  obtain old2 where old2: "?ts = old2 @ ?kept" "\<forall>x \<in> set old2. x < t - ?w"
    using takeWhile_dropWhile_old by blast
  have older: "\<forall>x \<in> set (old @ old2). x < t - ?w" using old(2) old2(2) t by force
  have split: "granted = (old @ old2) @ ?kept" using old(1) old2(1) by simp
  have "filter (\<lambda>x. t - ?w \<le> x) old = []" using old(2) t by (force simp: filter_empty_conv)
  then have cnt: "filter (\<lambda>x. t - ?w \<le> x) granted = ?kept"
    using dropWhile_sorted_filter[OF srt(2)] by (simp add: old(1))
  have le: "\<forall>g \<in> set granted. g \<le> t" using inv t by (auto simp: budget_inv_def)
  show ?thesis
  proof (cases "int (length ?kept) \<ge> rb_max_retries b")
    case True
    with run have "ok = False" "b' = b\<lparr>rb_retry_timestamps := ?kept\<rparr>" by (auto simp: try_acquire_def Let_def)
    then show ?thesis using inv le older split by (auto simp: budget_inv_def)
  next
    case False
    with run have eq: "ok = True" "b' = b\<lparr>rb_retry_timestamps := ?kept @ [t]\<rparr>" by (auto simp: try_acquire_def Let_def)
    have "windows_ok ?w (rb_max_retries b) (granted @ [t])"
      using inv False cnt by (auto simp: windows_ok_snoc budget_inv_def)
    moreover have "granted @ [t] = (old @ old2) @ (?kept @ [t])" using split by simp
    ultimately show ?thesis using eq le older srt(1) by (auto simp: budget_inv_def sorted_append)
  qed
qed

lemma budget_run_inv:
  assumes "budget_inv now granted b" and "sorted (now # ts)" and "budget_run ts b = (b', new)"
  shows "\<exists>now'. budget_inv now' (granted @ new) b' \<and>
           rb_window_seconds b' = rb_window_seconds b \<and> rb_max_retries b' = rb_max_retries b"
  using assms
proof (induction ts arbitrary: now granted b b' new)
  case (Cons t ts)
  obtain b1 ok where a: "try_acquire t b = (b1, ok)" by fastforce
  obtain b2 rest where r: "budget_run ts b1 = (b2, rest)" by fastforce
  have new: "b' = b2" "new = (if ok then t # rest else rest)" using Cons.prems(3) by (auto simp: a r)
  have inv: "budget_inv t (if ok then granted @ [t] else granted) b1"
      "rb_window_seconds b1 = rb_window_seconds b" "rb_max_retries b1 = rb_max_retries b"
    using try_acquire_inv[OF Cons.prems(1) _ a] Cons.prems(2) by auto
  from Cons.IH[OF inv(1) _ r] Cons.prems(2) inv(2,3) show ?case by (cases ok) (auto simp: new)
qed auto

text \<open>
  C40: The retry budget holds over every window, not only over the ones it counts in. Whatever the times at which retries are
  asked for, on a clock that does not run backwards and with a budget that is not negative, no closed interval as long as the
  window holds more granted retries than the budget, wherever the interval begins.
\<close>

theorem retry_budget_bounds_every_window:
  assumes "sorted ts" and "budget_run ts (RetryBudget m w) = (b, granted)" and "0 \<le> m"
  shows "int (in_window (t - of_int w) t granted) \<le> m"
proof (cases ts)
  case Nil
  with assms show ?thesis by (simp add: in_window_def)
next
  case (Cons t0 ts')
  have "budget_inv t0 [] (RetryBudget m w)" by (simp add: budget_inv_def RetryBudget_def windows_ok_def)
  moreover have "sorted (t0 # ts)" using assms(1) Cons by simp
  ultimately obtain now' where "budget_inv now' granted b" "rb_window_seconds b = w" "rb_max_retries b = m"
    using budget_run_inv[of t0 "[]" "RetryBudget m w" ts b granted] assms(2) by (auto simp: RetryBudget_def)
  then show ?thesis using windows_ok_bound[of "of_int w" m granted t] assms(3) by (auto simp: budget_inv_def)
qed

theorem retry_budget_bounds_every_window_witness:
  "snd (budget_run [0, 1, 2, 61, 62] (RetryBudget 2 60)) = [0, 1, 61, 62] \<and>
   int (in_window (62 - of_int 60) 62 [0, 1, 61, 62]) \<le> 2"
proof -
  have run: "budget_run [0, 1, 2, 61, 62] (RetryBudget 2 60) =
      (\<lparr>rb_max_retries = 2, rb_window_seconds = 60, rb_retry_timestamps = [61, 62]\<rparr>, [0, 1, 61, 62])"
    by (simp add: try_acquire_def RetryBudget_def Let_def)
  from retry_budget_bounds_every_window[OF _ run, of 62] show ?thesis unfolding run snd_conv by simp
qed

section \<open>The bulkhead\<close>

text \<open>Requests arrive and leave; \<open>fst\<close> the lanes, \<open>snd\<close> the lanes of the requests holding a permit.\<close>

datatype bulkhead_op = Arrive bool scope_type string | Leave nat

fun bulkhead_exec :: "bulkhead_op \<Rightarrow> bulkhead \<times> lane list \<Rightarrow> bulkhead \<times> lane list" where
  "bulkhead_exec (Arrive memory_pressure scope_type path) (b, held) =
     (case bulkhead_admit memory_pressure scope_type path b of
        (b, Admit lane) \<Rightarrow> (b, held @ [lane])
      | (b, _) \<Rightarrow> (b, held))"
| "bulkhead_exec (Leave i) (b, held) =
     (if i < length held then (bulkhead_release (held ! i) b, take i held @ drop (Suc i) held) else (b, held))"

definition bulkhead_inv :: "bulkhead \<times> lane list \<Rightarrow> bool" where
  "bulkhead_inv \<sigma> \<longleftrightarrow>
     (case \<sigma> of (b, held) \<Rightarrow>
        (\<forall>lane sem. b lane = Some sem \<longrightarrow>
           sem_in_use sem = int (count_list held lane) \<and> int (count_list held lane) \<le> sem_limit sem) \<and>
        (\<forall>lane \<in> set held. b lane \<noteq> None))"

lemma count_list_remove:
  assumes "i < length xs"
  shows "count_list xs x = count_list (take i xs @ drop (Suc i) xs) x + (if xs ! i = x then 1 else 0)"
proof -
  have "count_list xs x = count_list (take i xs @ xs ! i # drop (Suc i) xs) x"
    by (simp only: id_take_nth_drop[OF assms, symmetric])
  then show ?thesis by simp
qed

lemma bulkhead_release_inv:
  assumes inv: "bulkhead_inv (b, held)" and i: "i < length held"
  shows "bulkhead_inv (bulkhead_release (held ! i) b, take i held @ drop (Suc i) held)"
proof -
  let ?held = "take i held @ drop (Suc i) held"
  have uses: "sem_in_use x = int (count_list held l) \<and> int (count_list held l) \<le> sem_limit x"
    if "b l = Some x" for l x
    using inv that by (simp add: bulkhead_inv_def)
  have "sem_in_use x = int (count_list ?held l) \<and> int (count_list ?held l) \<le> sem_limit x"
    if rel: "bulkhead_release (held ! i) b l = Some x" for l x
  proof (cases "l = held ! i")
    case True
    then obtain y where "b l = Some y" "x = y\<lparr>sem_in_use := sem_in_use y - 1\<rparr>"
      using rel by (auto simp: bulkhead_release_def)
    then show ?thesis using uses[of l y] count_list_remove[OF i, of l] True by simp
  next
    case False
    then have "b l = Some x" using rel by (simp add: bulkhead_release_def)
    then show ?thesis using uses[of l x] count_list_remove[OF i, of l] False by simp
  qed
  moreover have "bulkhead_release (held ! i) b l \<noteq> None" if "l \<in> set ?held" for l
  proof -
    have "l \<in> set held" using that by (auto dest: in_set_takeD in_set_dropD)
    then show ?thesis using inv by (auto simp: bulkhead_inv_def bulkhead_release_def)
  qed
  ultimately show ?thesis by (simp add: bulkhead_inv_def)
qed

interpretation bulkhead_machine: machine bulkhead_exec bulkhead_inv
proof
  fix \<sigma> op
  assume inv: "bulkhead_inv \<sigma>"
  obtain b held where s: "\<sigma> = (b, held)" by fastforce
  show "bulkhead_inv (bulkhead_exec op \<sigma>)"
  proof (cases op)
    case (Arrive m sc p)
    then show ?thesis
      using inv by (auto simp: s bulkhead_inv_def bulkhead_admit_def Let_def split: option.splits if_splits)
  next
    case (Leave i)
    show ?thesis
    proof (cases "i < length held")
      case True
      have ex: "bulkhead_exec op \<sigma> = (bulkhead_release (held ! i) b, take i held @ drop (Suc i) held)"
        by (simp add: s Leave True)
      show ?thesis
        unfolding ex by (rule bulkhead_release_inv[OF inv[unfolded s] True])
    next
      case False
      then show ?thesis using inv by (simp add: s Leave)
    qed
  qed
qed

text \<open>
  A lane never holds more requests than its limit, and every request gives its permit back.
  After any sequence of arrivals and departures the permits in use of a lane are the requests being
  served in it, at most its limit; so once nobody is served, every limited lane is empty, and an
  arriving proxy request is turned away only when its own lane is full or memory is short.
\<close>

theorem bulkhead_limits_hold:
  assumes "fold bulkhead_exec ops (BulkheadSemaphore p d h w c, []) = (b, held)" and "b lane = Some sem"
  shows "sem_in_use sem = int (count_list held lane) \<and> int (count_list held lane) \<le> sem_limit sem \<and>
     (snd (bulkhead_admit False Http path b) = Reject code \<and> get_semaphore_lane Http path = lane \<longrightarrow>
       code = 429 \<and> int (count_list held lane) = sem_limit sem)"
proof -
  have "bulkhead_inv (BulkheadSemaphore p d h w c, [])"
    by (auto simp: bulkhead_inv_def BulkheadSemaphore_def new_semaphore_def Let_def split: lane.splits if_splits)
  then have inv: "bulkhead_inv (b, held)" using bulkhead_machine.invar_run assms(1) by metis
  then have u: "sem_in_use sem = int (count_list held lane) \<and> int (count_list held lane) \<le> sem_limit sem"
    using assms(2) by (auto simp: bulkhead_inv_def)
  have c2: "code = 429 \<and> int (count_list held lane) = sem_limit sem"
    if "snd (bulkhead_admit False Http path b) = Reject code" "get_semaphore_lane Http path = lane"
    using that u assms(2) by (auto simp: bulkhead_admit_def Let_def split: if_splits)
  show ?thesis using u c2 by blast
qed

theorem bulkhead_limits_hold_witness:
  "\<exists>b held sem. fold bulkhead_exec [Arrive False Http ''/v1/responses'', Arrive False Http ''/v1/responses'']
       (BulkheadSemaphore (Some 1) 50 None None None, []) = (b, held) \<and>
     b Proxy_http = Some sem \<and> int (count_list held Proxy_http) \<le> sem_limit sem"
proof -
  let ?b0 = "BulkheadSemaphore (Some 1) 50 None None None"
  obtain b held where run: "fold bulkhead_exec [Arrive False Http ''/v1/responses'', Arrive False Http ''/v1/responses'']
      (?b0, []) = (b, held)" by (metis surj_pair)
  have "get_semaphore_lane Http ''/v1/responses'' = Proxy_http" by code_simp
  moreover have "?b0 Proxy_http = Some \<lparr>sem_limit = 1, sem_in_use = 0\<rparr>"
    by (simp add: BulkheadSemaphore_def new_semaphore_def)
  moreover have "\<not> starts_with ''/health'' ''/v1/responses''" by code_simp
  ultimately obtain sem where "b Proxy_http = Some sem"
    using run by (auto simp: bulkhead_admit_def)
  with run bulkhead_limits_hold[OF run] show ?thesis by blast
qed

end
