(* ===== verification/Singleflight.thy ===== *)
theory Singleflight
  imports Prelude
begin

text \<open>
  The single flight of token refreshes (\<open>_RefreshSingleflight\<close> of \<open>app/modules/accounts/auth_manager.py\<close>). A task is
  known by its number; the state keeps all tasks that were ever created with the key they refresh. The lock makes the body
  of \<open>run\<close> up to the await, and \<open>_complete\<close>, atomic; in between, tasks finish on their own and their completions are run
  at some later moment. The value a task returns is a parameter of the types.
\<close>

section \<open>State\<close>

record refresh_error =
  re_code :: string
  re_message :: string
  re_is_permanent :: bool
  re_transport_error :: bool

datatype 'a refresh_task = Running | Returned 'a | Raised refresh_error | Crashed | Cancelled

type_synonym refresh_key = "string \<times> string"

record 'a singleflight =
  sf_inflight :: "refresh_key \<rightharpoonup> nat"
  sf_recent_failures :: "refresh_key \<rightharpoonup> real \<times> refresh_error"
  sf_tasks :: "(refresh_key \<times> 'a refresh_task) list"

definition new_singleflight :: "'a singleflight" where
  "new_singleflight = \<lparr>sf_inflight = Map.empty, sf_recent_failures = Map.empty, sf_tasks = []\<rparr>"

definition task_state :: "'a singleflight \<Rightarrow> nat \<Rightarrow> 'a refresh_task" where
  "task_state sf i = snd (sf_tasks sf ! i)"

definition task_done :: "'a singleflight \<Rightarrow> nat \<Rightarrow> bool" where
  "task_done sf i = (case task_state sf i of Running \<Rightarrow> False | _ \<Rightarrow> True)"

definition task_returned :: "'a singleflight \<Rightarrow> nat \<Rightarrow> bool" where
  "task_returned sf i = (case task_state sf i of Returned _ \<Rightarrow> True | _ \<Rightarrow> False)"

section \<open>Operations\<close>

definition purge_stale_versions :: "string \<Rightarrow> refresh_key \<Rightarrow> 'a singleflight \<Rightarrow> 'a singleflight" where
  "purge_stale_versions account_id keep_key sf =
     sf\<lparr>sf_recent_failures := (\<lambda>k. if fst k = account_id \<and> k \<noteq> keep_key then None else sf_recent_failures sf k),
        sf_inflight := (\<lambda>k. case sf_inflight sf k of
           None \<Rightarrow> None
         | Some i \<Rightarrow> if fst k = account_id \<and> k \<noteq> keep_key \<and> task_done sf i then None else Some i)\<rparr>"

text \<open>The outcome of \<open>run\<close>: the failure that is raised, or the task whose result is awaited.\<close>

datatype run_outcome = RaiseCached refresh_error | Await nat

definition join_or_start :: "refresh_key \<Rightarrow> 'a singleflight \<Rightarrow> run_outcome \<times> 'a singleflight" where
  "join_or_start key sf =
     (case sf_inflight sf key of
        Some i \<Rightarrow>
          if task_returned sf i \<or> \<not> task_done sf i then (Await i, sf)
          else (Await (length (sf_tasks sf)),
                sf\<lparr>sf_tasks := sf_tasks sf @ [(key, Running)], sf_inflight := (sf_inflight sf)(key \<mapsto> length (sf_tasks sf))\<rparr>)
      | None \<Rightarrow>
          (Await (length (sf_tasks sf)),
           sf\<lparr>sf_tasks := sf_tasks sf @ [(key, Running)], sf_inflight := (sf_inflight sf)(key \<mapsto> length (sf_tasks sf))\<rparr>))"

definition run_purged :: "real \<Rightarrow> refresh_key \<Rightarrow> 'a singleflight \<Rightarrow> run_outcome \<times> 'a singleflight" where
  "run_purged now key sf =
     (case sf_recent_failures sf key of
        Some (expires_at, failure) \<Rightarrow>
          if now < expires_at
          then (RaiseCached (failure\<lparr>re_transport_error := False\<rparr>), sf)
          else join_or_start key (sf\<lparr>sf_recent_failures := (sf_recent_failures sf)(key := None)\<rparr>)
      | None \<Rightarrow> join_or_start key sf)"

definition sf_run :: "real \<Rightarrow> refresh_key \<Rightarrow> 'a singleflight \<Rightarrow> run_outcome \<times> 'a singleflight" where
  "sf_run now key sf = run_purged now key (purge_stale_versions (fst key) key sf)"

definition sf_complete :: "real \<Rightarrow> real \<Rightarrow> refresh_key \<Rightarrow> nat \<Rightarrow> 'a singleflight \<Rightarrow> 'a singleflight" where
  "sf_complete cooldown now key i sf =
     (let sf = (if sf_inflight sf key = Some i then sf\<lparr>sf_inflight := (sf_inflight sf)(key := None)\<rparr> else sf) in
      case task_state sf i of
        Raised e \<Rightarrow>
          (if 0 < max 0 cooldown \<and> \<not> re_transport_error e
           then sf\<lparr>sf_recent_failures := (sf_recent_failures sf)(key \<mapsto> (now + max 0 cooldown, e))\<rparr>
           else sf\<lparr>sf_recent_failures := (sf_recent_failures sf)(key := None)\<rparr>)
      | _ \<Rightarrow> sf\<lparr>sf_recent_failures := (sf_recent_failures sf)(key := None)\<rparr>)"

text \<open>The event loop finishes a running task.\<close>

definition finish_task :: "nat \<Rightarrow> 'a refresh_task \<Rightarrow> 'a singleflight \<Rightarrow> 'a singleflight" where
  "finish_task i result sf = sf\<lparr>sf_tasks := (sf_tasks sf)[i := (fst (sf_tasks sf ! i), result)]\<rparr>"

inductive sf_step :: "'a singleflight \<Rightarrow> 'a singleflight \<Rightarrow> bool" where
  run: "sf_run now key sf = (outcome, sf') \<Longrightarrow> sf_step sf sf'"
| finish: "i < length (sf_tasks sf) \<Longrightarrow> task_state sf i = Running \<Longrightarrow> result \<noteq> Running \<Longrightarrow> sf_step sf (finish_task i result sf)"
| complete: "i < length (sf_tasks sf) \<Longrightarrow> task_done sf i \<Longrightarrow> sf_step sf (sf_complete cooldown now (fst (sf_tasks sf ! i)) i sf)"

inductive sf_reachable :: "'a singleflight \<Rightarrow> bool" where
  initial: "sf_reachable new_singleflight"
| step: "sf_reachable sf \<Longrightarrow> sf_step sf sf' \<Longrightarrow> sf_reachable sf'"

inductive_cases sf_stepE: "sf_step sf sf'"

section \<open>One refresh at a time\<close>

definition sf_invar :: "'a singleflight \<Rightarrow> bool" where
  "sf_invar sf \<longleftrightarrow>
     (\<forall>i < length (sf_tasks sf). task_state sf i = Running \<longrightarrow> sf_inflight sf (fst (sf_tasks sf ! i)) = Some i) \<and>
     (\<forall>k i. sf_inflight sf k = Some i \<longrightarrow> i < length (sf_tasks sf) \<and> fst (sf_tasks sf ! i) = k)"

lemma running_iff: "task_state sf i = Running \<longleftrightarrow> \<not> task_done sf i"
  by (simp add: task_done_def split: refresh_task.split)

lemma purge_fields [simp]:
  "sf_tasks (purge_stale_versions a k sf) = sf_tasks sf" "task_state (purge_stale_versions a k sf) = task_state sf"
  "task_done (purge_stale_versions a k sf) = task_done sf" "task_returned (purge_stale_versions a k sf) = task_returned sf"
  by (simp_all add: purge_stale_versions_def task_state_def task_done_def task_returned_def fun_eq_iff)

lemma failures_fields [simp]:
  "task_state (sf\<lparr>sf_recent_failures := f\<rparr>) = task_state sf" "task_done (sf\<lparr>sf_recent_failures := f\<rparr>) = task_done sf"
  "task_returned (sf\<lparr>sf_recent_failures := f\<rparr>) = task_returned sf"
  "sf_invar (sf\<lparr>sf_recent_failures := f\<rparr>) = sf_invar sf"
  by (simp_all add: task_state_def task_done_def task_returned_def sf_invar_def fun_eq_iff)

lemma purge_invar: "sf_invar sf \<Longrightarrow> sf_invar (purge_stale_versions a k sf)"
  unfolding sf_invar_def by (auto simp: running_iff) (auto simp: purge_stale_versions_def split: option.splits if_splits)

lemma start_invar:
  assumes "sf_invar sf" and "\<And>i. sf_inflight sf key = Some i \<Longrightarrow> task_done sf i"
  shows "sf_invar (sf\<lparr>sf_tasks := sf_tasks sf @ [(key, Running)], sf_inflight := (sf_inflight sf)(key \<mapsto> length (sf_tasks sf))\<rparr>)"
proof -
  have "fst (sf_tasks sf ! i) \<noteq> key" if "i < length (sf_tasks sf)" "snd (sf_tasks sf ! i) = Running" for i
    using assms that unfolding sf_invar_def by (auto simp: task_state_def task_done_def)
  then show ?thesis using assms(1) unfolding sf_invar_def by (auto simp: task_state_def nth_append less_Suc_eq)
qed

lemma join_or_start_invar: "sf_invar sf \<Longrightarrow> join_or_start key sf = (outcome, sf') \<Longrightarrow> sf_invar sf'"
  using start_invar [of sf key] by (auto simp: join_or_start_def split: option.splits if_splits)

lemma run_invar: "sf_invar sf \<Longrightarrow> sf_run now key sf = (outcome, sf') \<Longrightarrow> sf_invar sf'"
proof -
  define sf1 where "sf1 = purge_stale_versions (fst key) key sf"
  assume "sf_invar sf" "sf_run now key sf = (outcome, sf')"
  then have "sf_invar sf1" "sf' = sf1 \<or> (\<exists>f. join_or_start key (sf1\<lparr>sf_recent_failures := f\<rparr>) = (outcome, sf')) \<or>
      join_or_start key sf1 = (outcome, sf')"
    using purge_invar [of sf "fst key" key] by (auto simp: sf_run_def run_purged_def sf1_def [symmetric] split: option.splits if_splits)
  then show ?thesis using join_or_start_invar [of sf1 key outcome sf'] join_or_start_invar [of _ key outcome sf'] failures_fields(4) by metis
qed

lemma finish_invar:
  assumes "sf_invar sf" and "result \<noteq> Running"
  shows "sf_invar (finish_task i result sf)"
proof -
  have same: "fst (sf_tasks (finish_task i result sf) ! j) = fst (sf_tasks sf ! j)" for j
    by (cases "i < length (sf_tasks sf)") (auto simp: finish_task_def nth_list_update list_update_beyond)
  have running: "task_state (finish_task i result sf) j = Running \<Longrightarrow> j < length (sf_tasks sf) \<Longrightarrow> task_state sf j = Running" for j
    using assms(2) by (cases "j = i") (auto simp: finish_task_def task_state_def)
  show ?thesis using assms(1) running same unfolding sf_invar_def by (auto simp: finish_task_def)
qed

lemma complete_invar:
  assumes "sf_invar sf" and "task_done sf i" and "fst (sf_tasks sf ! i) = key"
  shows "sf_invar (sf_complete cooldown now key i sf)"
proof -
  define sf1 where "sf1 = (if sf_inflight sf key = Some i then sf\<lparr>sf_inflight := (sf_inflight sf)(key := None)\<rparr> else sf)"
  have "snd (sf_tasks sf ! i) \<noteq> Running" using assms(2) running_iff [of sf i] by (simp add: task_state_def)
  then have other: "fst (sf_tasks sf ! j) \<noteq> key" if "sf_inflight sf key = Some i" "j < length (sf_tasks sf)" "snd (sf_tasks sf ! j) = Running" for j
    using assms(1) that unfolding sf_invar_def task_state_def by (metis option.inject)
  have "sf_invar (sf\<lparr>sf_inflight := (sf_inflight sf)(key := None)\<rparr>)" if "sf_inflight sf key = Some i"
    using assms(1) other [OF that] by (simp add: sf_invar_def task_state_def)
  then have "sf_invar sf1" using assms(1) by (simp add: sf1_def)
  moreover have "\<exists>f. sf_complete cooldown now key i sf = sf1\<lparr>sf_recent_failures := f\<rparr>"
    unfolding sf_complete_def sf1_def [symmetric] Let_def by (cases "task_state sf1 i") auto
  ultimately show ?thesis by auto
qed

lemma step_invar: "sf_step sf sf' \<Longrightarrow> sf_invar sf \<Longrightarrow> sf_invar sf'"
  by (induction rule: sf_step.induct) (auto intro: run_invar finish_invar complete_invar)

lemma reachable_invar: "sf_reachable sf \<Longrightarrow> sf_invar sf"
proof (induction rule: sf_reachable.induct)
  case initial
  then show ?case by (simp add: sf_invar_def new_singleflight_def)
qed (rule step_invar)

lemma running_joined:
  assumes "sf_invar sf" and "i < length (sf_tasks sf)" and "task_state sf i = Running"
  shows "fst (sf_run now (fst (sf_tasks sf ! i)) sf) =
      (case sf_recent_failures sf (fst (sf_tasks sf ! i)) of
         Some (expires_at, e) \<Rightarrow> if now < expires_at then RaiseCached (e\<lparr>re_transport_error := False\<rparr>) else Await i
       | None \<Rightarrow> Await i) \<and>
    sf_tasks (snd (sf_run now (fst (sf_tasks sf ! i)) sf)) = sf_tasks sf"
proof -
  define key where "key = fst (sf_tasks sf ! i)"
  define sf1 where "sf1 = purge_stale_versions (fst key) key sf"
  have "sf_inflight sf1 key = Some i" using assms by (simp add: sf_invar_def purge_stale_versions_def sf1_def key_def)
  moreover have "\<not> task_done sf1 i" using assms(3) by (simp add: running_iff sf1_def)
  ultimately have join: "join_or_start key sf1 = (Await i, sf1)"
    "join_or_start key (sf1\<lparr>sf_recent_failures := f\<rparr>) = (Await i, sf1\<lparr>sf_recent_failures := f\<rparr>)" for f
    by (simp_all add: join_or_start_def)
  have "sf_tasks sf1 = sf_tasks sf" "sf_recent_failures sf1 key = sf_recent_failures sf key"
    by (simp_all add: sf1_def purge_stale_versions_def)
  moreover have "sf_run now key sf = run_purged now key sf1" by (simp add: sf_run_def sf1_def)
  ultimately show ?thesis
    unfolding key_def [symmetric] by (auto simp: run_purged_def join split: option.split)
qed

text \<open>
  C15: However requests, completions and finishing tasks interleave, at most one refresh of a token version is running at
  any time, and a request that arrives meanwhile never starts another: it joins the running one, unless a failure of the
  same version is recorded whose cooldown has not passed (that of an earlier task, completed after the running one was
  started), in which case it is answered with that failure.
\<close>

theorem one_refresh_in_flight:
  assumes "sf_reachable sf"
  shows "(\<forall>i j. i < length (sf_tasks sf) \<and> j < length (sf_tasks sf) \<and> task_state sf i = Running \<and> task_state sf j = Running \<and>
       fst (sf_tasks sf ! i) = fst (sf_tasks sf ! j) \<longrightarrow> i = j) \<and>
    (\<forall>i. i < length (sf_tasks sf) \<and> task_state sf i = Running \<longrightarrow>
       fst (sf_run now (fst (sf_tasks sf ! i)) sf) =
         (case sf_recent_failures sf (fst (sf_tasks sf ! i)) of
            Some (expires_at, e) \<Rightarrow> if now < expires_at then RaiseCached (e\<lparr>re_transport_error := False\<rparr>) else Await i
          | None \<Rightarrow> Await i) \<and>
       sf_tasks (snd (sf_run now (fst (sf_tasks sf ! i)) sf)) = sf_tasks sf)"
proof -
  have inv: "sf_invar sf" using assms by (rule reachable_invar)
  have unique: "i = j" if "i < length (sf_tasks sf)" "j < length (sf_tasks sf)" "task_state sf i = Running" "task_state sf j = Running"
    "fst (sf_tasks sf ! i) = fst (sf_tasks sf ! j)" for i j
    using inv that unfolding sf_invar_def by (metis option.inject)
  show ?thesis
  proof (intro conjI allI impI; elim conjE)
    show "i = j" if "i < length (sf_tasks sf)" "j < length (sf_tasks sf)" "task_state sf i = Running" "task_state sf j = Running"
      "fst (sf_tasks sf ! i) = fst (sf_tasks sf ! j)" for i j
      using that by (rule unique)
  qed (use running_joined [OF inv] in blast)+
qed

definition two_runs :: "bool singleflight" where
  "two_runs = snd (sf_run 1 (''a'', ''v1'') (snd (sf_run 0 (''a'', ''v1'') new_singleflight)))"

theorem one_refresh_in_flight_witness:
  "length (sf_tasks two_runs) = 1 \<and> fst (sf_run 2 (''a'', ''v1'') two_runs) = Await 0 \<and>
   sf_tasks (snd (sf_run 2 (''a'', ''v1'') two_runs)) = sf_tasks two_runs"
proof -
  have "sf_reachable (snd (sf_run 0 (''a'', ''v1'') (new_singleflight :: bool singleflight)))"
    using step [OF initial] run [OF surjective_pairing] by blast
  then have reach: "sf_reachable two_runs" unfolding two_runs_def using step run [OF surjective_pairing] by blast
  have one: "length (sf_tasks two_runs) = 1" "task_state two_runs 0 = Running" "fst (sf_tasks two_runs ! 0) = (''a'', ''v1'')"
    "sf_recent_failures two_runs (''a'', ''v1'') = None" by code_simp+
  then show ?thesis using one_refresh_in_flight [OF reach, of 2] by simp
qed

text \<open>The recorded failure of an earlier task answers a request although a later task of the same version is running.\<close>

lemma late_completion_answers_with_failure:
  "let key = (''a'', ''v1'');
       e = \<lparr>re_code = ''invalid_grant'', re_message = [], re_is_permanent = True, re_transport_error = False\<rparr>;
       failed = finish_task 0 (Raised e) (snd (sf_run 0 key (new_singleflight :: bool singleflight)));
       late = sf_complete 30 1 key 0 (snd (sf_run 1 key failed))
   in task_state late 1 = Running \<and> fst (sf_run 2 key late) = RaiseCached e"
  by code_simp

section \<open>The cooldown\<close>

fun run_all :: "(real \<times> refresh_key) list \<Rightarrow> 'a singleflight \<Rightarrow> run_outcome list \<times> 'a singleflight" where
  "run_all [] sf = ([], sf)"
| "run_all ((now, key) # calls) sf =
     (let (out, sf1) = sf_run now key sf; (outs, sf2) = run_all calls sf1 in (out # outs, sf2))"

lemma purge_keeps_failure:
  "fst k = fst key \<longrightarrow> k = key \<Longrightarrow> sf_recent_failures (purge_stale_versions (fst k) k sf) key = sf_recent_failures sf key"
  by (auto simp: purge_stale_versions_def)

lemma join_or_start_failures: "join_or_start k sf = (out, sf') \<Longrightarrow> sf_recent_failures sf' = sf_recent_failures sf"
  by (auto simp: join_or_start_def split: option.splits if_splits)

lemma join_or_start_tasks:
  "join_or_start k sf = (out, sf') \<Longrightarrow> k \<noteq> key \<Longrightarrow> filter (\<lambda>t. fst t = key) (sf_tasks sf') = filter (\<lambda>t. fst t = key) (sf_tasks sf)"
  by (auto simp: join_or_start_def split: option.splits if_splits)

lemma run_during_cooldown:
  assumes "sf_recent_failures sf key = Some (expires_at, e)" and "now < expires_at" and "fst k = fst key \<longrightarrow> k = key"
    and "sf_run now k sf = (out, sf')"
  shows "sf_recent_failures sf' key = Some (expires_at, e) \<and>
    filter (\<lambda>t. fst t = key) (sf_tasks sf') = filter (\<lambda>t. fst t = key) (sf_tasks sf) \<and>
    (k = key \<longrightarrow> out = RaiseCached (e\<lparr>re_transport_error := False\<rparr>))"
proof -
  define sf1 where "sf1 = purge_stale_versions (fst k) k sf"
  have sf1: "sf_recent_failures sf1 key = Some (expires_at, e)" "sf_tasks sf1 = sf_tasks sf"
    using purge_keeps_failure [OF assms(3), of sf] assms(1) by (simp_all add: sf1_def)
  have run: "run_purged now k sf1 = (out, sf')" using assms(4) by (simp add: sf_run_def sf1_def)
  show ?thesis
  proof (cases "k = key")
    case True
    then show ?thesis using assms(2) sf1 run by (auto simp: run_purged_def)
  next
    case False
    then have "sf' = sf1 \<or> join_or_start k sf1 = (out, sf') \<or>
        join_or_start k (sf1\<lparr>sf_recent_failures := (sf_recent_failures sf1)(k := None)\<rparr>) = (out, sf')"
      using run by (auto simp: run_purged_def split: option.splits if_splits)
    then show ?thesis
      using False sf1 join_or_start_failures [of k _ out sf'] join_or_start_tasks [of k _ out sf' key] by fastforce
  qed
qed

lemma runs_during_cooldown:
  assumes "sf_recent_failures sf key = Some (expires_at, e)"
    and "list_all (\<lambda>(t, k). t < expires_at \<and> (fst k = fst key \<longrightarrow> k = key)) calls" and "run_all calls sf = (outs, sf')"
  shows "filter (\<lambda>t. fst t = key) (sf_tasks sf') = filter (\<lambda>t. fst t = key) (sf_tasks sf) \<and>
    list_all2 (\<lambda>(t, k) out. k = key \<longrightarrow> out = RaiseCached (e\<lparr>re_transport_error := False\<rparr>)) calls outs"
  using assms
proof (induction calls arbitrary: sf outs)
  case (Cons call calls)
  obtain now k where call: "call = (now, k)" by (cases call)
  obtain out sf1 where run: "sf_run now k sf = (out, sf1)" by (cases "sf_run now k sf")
  obtain outs' where rest: "run_all calls sf1 = (outs', sf')" "outs = out # outs'"
    using Cons.prems(3) call run by (auto split: prod.splits)
  have first: "sf_recent_failures sf1 key = Some (expires_at, e)"
    "filter (\<lambda>t. fst t = key) (sf_tasks sf1) = filter (\<lambda>t. fst t = key) (sf_tasks sf)"
    "k = key \<longrightarrow> out = RaiseCached (e\<lparr>re_transport_error := False\<rparr>)"
    using run_during_cooldown [OF Cons.prems(1) _ _ run] Cons.prems(2) call by simp_all
  have "list_all (\<lambda>(t, k). t < expires_at \<and> (fst k = fst key \<longrightarrow> k = key)) calls" using Cons.prems(2) by simp
  from Cons.IH [OF first(1) this rest(1)] show ?case using first(2,3) rest(2) call by simp
qed simp

text \<open>
  A refresh that the authorization server has refused is not repeated during the cooldown. From the completion of the
  failed task until the cooldown has passed, every request for the same token version is answered with the recorded
  failure and no refresh of that version is started, whatever other accounts do. A failure of the transport is not
  recorded.
\<close>

theorem refused_refresh_cools_down:
  assumes "i < length (sf_tasks sf)" and "task_state sf i = Raised e" and "\<not> re_transport_error e" and "0 < cooldown"
    and "fst (sf_tasks sf ! i) = key"
    and "list_all (\<lambda>(t, k). t < now + cooldown \<and> (fst k = fst key \<longrightarrow> k = key)) calls"
    and "run_all calls (sf_complete cooldown now key i sf) = (outs, sf')"
  shows "filter (\<lambda>t. fst t = key) (sf_tasks sf') = filter (\<lambda>t. fst t = key) (sf_tasks sf) \<and>
    list_all2 (\<lambda>(t, k) out. k = key \<longrightarrow> out = RaiseCached e) calls outs"
proof -
  have "sf_recent_failures (sf_complete cooldown now key i sf) key = Some (now + cooldown, e)"
    "sf_tasks (sf_complete cooldown now key i sf) = sf_tasks sf"
    using assms(2,3,4) by (auto simp: sf_complete_def task_state_def Let_def max_def)
  moreover have "e\<lparr>re_transport_error := False\<rparr> = e" using assms(3) by (cases e) simp
  ultimately show ?thesis using runs_during_cooldown [of "sf_complete cooldown now key i sf" key "now + cooldown" e calls outs sf'] assms(6,7) by simp
qed

definition refused :: refresh_error where
  "refused = \<lparr>re_code = ''invalid_grant'', re_message = ''refused'', re_is_permanent = True, re_transport_error = False\<rparr>"

definition one_refused :: "bool singleflight" where
  "one_refused = \<lparr>sf_inflight = Map.empty, sf_recent_failures = Map.empty, sf_tasks = [((''a'', ''v1''), Raised refused)]\<rparr>"

theorem refused_refresh_cools_down_witness:
  "filter (\<lambda>t. fst t = (''a'', ''v1''))
     (sf_tasks (snd (run_all [(3, (''a'', ''v1'')), (4, (''b'', ''v1''))] (sf_complete 30 0 (''a'', ''v1'') 0 one_refused)))) =
   [((''a'', ''v1''), Raised refused)]"
  using refused_refresh_cools_down [of 0 one_refused refused 30 "(''a'', ''v1'')" 0 "[(3, (''a'', ''v1'')), (4, (''b'', ''v1''))]",
      OF _ _ _ _ _ _ surjective_pairing]
  by (simp add: one_refused_def refused_def task_state_def)

end
