(* ===== verification/Unary_Failover.thy ===== *)
theory Unary_Failover
  imports Proxy_Helpers Resilience Singleflight
begin

text \<open>
  Requests that are answered in one piece (\<open>app/modules/proxy/service.py\<close>, \<open>app/modules/proxy/_service/file_ops.py\<close>,
  \<open>app/modules/proxy/_service/transcribe.py\<close>): an account is selected, its token refreshed, the upstream called; connection
  failures move the request to another account, a refused token is refreshed once by force, and failures and successes are
  reported to the balancer.

  \<^item> What the code awaits is an argument: the clock, the load balancer, the refresh, the route and the upstream call, each on a
    world \<open>'w\<close> that it may change as it likes.
  \<^item> What the code does to the outside is a log of events.
  \<^item> An exception is the left summand of the result. The account that a refresh returns is the row it was given, with new tokens:
    accounts are their identifiers.
\<close>

section \<open>Failures\<close>

record proxy_error =
  pe_status :: int
  pe_error :: "openai_error_info option"
  pe_phase :: "string option"
  pe_failed_account :: "string option"

datatype unary_failure =
    ProxyResponse proxy_error
  | RefreshFailed refresh_error "string option" \<comment> \<open>with the account it is attributed to\<close>
  | ConnectFailed string \<comment> \<open>\<open>aiohttp.ClientError\<close>, \<open>TimeoutError\<close>\<close>
  | RouteFailed string
  | RaisedError py_error \<comment> \<open>any other exception\<close>

datatype fresh_failure = FRefresh refresh_error "string option" | FConnect string

definition unary_openai_error :: "string \<Rightarrow> string \<Rightarrow> string \<Rightarrow> openai_error_info" where
  "unary_openai_error code message error_type =
     \<lparr>oe_message = Some message, oe_type = Some error_type, oe_code = Some code, oe_param = None, oe_plan_type = None,
      oe_resets_at = None, oe_resets_in_seconds = None\<rparr>"

definition proxy_response :: "int \<Rightarrow> openai_error_info \<Rightarrow> proxy_error" where
  "proxy_response status e = \<lparr>pe_status = status, pe_error = Some e, pe_phase = None, pe_failed_account = None\<rparr>"

definition budget_exhausted :: proxy_error where
  "budget_exhausted = proxy_response 502 (unary_openai_error ''upstream_request_timeout'' ''Proxy request budget exhausted'' ''server_error'')"

definition proxy_unavailable :: "string \<Rightarrow> proxy_error" where
  "proxy_unavailable message = proxy_response 502 (unary_openai_error ''upstream_unavailable'' message ''server_error'')"

definition proxy_unavailable_for_account :: "string \<Rightarrow> string \<Rightarrow> proxy_error" where
  "proxy_unavailable_for_account message account = (proxy_unavailable message)\<lparr>pe_failed_account := Some account\<rparr>"

definition error_code_of :: "openai_error_info option \<Rightarrow> string" where
  "error_code_of e = normalize_error_code (case e of Some x \<Rightarrow> oe_code x | None \<Rightarrow> None) (case e of Some x \<Rightarrow> oe_type x | None \<Rightarrow> None)"

definition error_message_of :: "openai_error_info option \<Rightarrow> string option" where
  "error_message_of e = (case e of Some x \<Rightarrow> oe_message x | None \<Rightarrow> None)"

definition TRANSIENT_RETRY_CODES :: "string list" where
  "TRANSIENT_RETRY_CODES = [''server_error'', ''stream_incomplete'', ''stream_idle_timeout'', ''upstream_request_timeout'']"

definition UPSTREAM_UNAVAILABLE_TRANSIENT_MESSAGE_MARKERS :: "string list" where
  "UPSTREAM_UNAVAILABLE_TRANSIENT_MESSAGE_MARKERS =
     [''broken pipe'', ''cannot connect'', ''connection aborted'', ''connection closed'', ''connection reset'', ''keepalive ping timeout'',
      ''no close frame'', ''server disconnected'', ''timed out'', ''timeout'', ''upstream closed'']"

definition UPSTREAM_UNAVAILABLE_NON_TRANSIENT_MESSAGE_MARKERS :: "string list" where
  "UPSTREAM_UNAVAILABLE_NON_TRANSIENT_MESSAGE_MARKERS =
     [''certificate verify failed'', ''clientconnectorcertificateerror'', ''sslcertverificationerror'']"

definition should_retry_transient_stream_error :: "string option \<Rightarrow> string option \<Rightarrow> bool" where
  "should_retry_transient_stream_error code message =
     (case code of
        None \<Rightarrow> False
      | Some c \<Rightarrow>
          if c = ''stream_idle_timeout'' then False
          else if c \<in> set TRANSIENT_RETRY_CODES then True
          else if c \<noteq> ''upstream_unavailable'' then False
          else case nonempty_str message of
            None \<Rightarrow> False
          | Some m \<Rightarrow>
              if list_ex (\<lambda>k. contains k (py_lower m)) UPSTREAM_UNAVAILABLE_NON_TRANSIENT_MESSAGE_MARKERS then False
              else list_ex (\<lambda>k. contains k (py_lower m)) UPSTREAM_UNAVAILABLE_TRANSIENT_MESSAGE_MARKERS)"

definition refresh_upstream_proxy_fail_closed_reason :: "refresh_error \<Rightarrow> string option \<Rightarrow> string option" where
  "refresh_upstream_proxy_fail_closed_reason e reason =
     (if re_code e \<noteq> ''upstream_proxy_unavailable'' then None
      else case nonempty_str reason of
        Some r \<Rightarrow> Some r
      | None \<Rightarrow>
          if starts_with ''Upstream proxy route unavailable:'' (re_message e)
          then (let parsed = py_strip (drop (length ''Upstream proxy route unavailable:'') (re_message e))
                in Some (if parsed = [] then ''unavailable'' else parsed))
          else Some ''unavailable'')"

definition is_account_neutral_error_code :: "string \<Rightarrow> bool" where
  "is_account_neutral_error_code code = (is_local_overload_error_code (Some code) \<or> code = ''proxy_unavailable'')"

definition should_failover_previsible_unary_proxy_error :: "proxy_error \<Rightarrow> bool" where
  "should_failover_previsible_unary_proxy_error e =
     (pe_phase e = Some ''connect'' \<and> error_code_of (pe_error e) = ''upstream_unavailable'' \<and>
      should_retry_transient_stream_error (Some ''upstream_unavailable'') (error_message_of (pe_error e)))"

definition failed_account_of :: "proxy_error \<Rightarrow> string \<Rightarrow> string" where
  "failed_account_of e fallback = default (pe_failed_account e) fallback"

section \<open>Actions\<close>

datatype unary_event =
    Upstream string
  | RecordSuccess string
  | RecordError string
  | MarkRateLimit string
  | MarkQuotaExceeded string
  | MarkPermanentFailure string string

record 'w unary_state =
  us_world :: 'w
  us_log :: "unary_event list"

type_synonym ('w, 'a) action = "'w unary_state \<Rightarrow> (unary_failure + 'a) \<times> 'w unary_state"

definition ret :: "'a \<Rightarrow> ('w, 'a) action" where
  "ret x s = (Inr x, s)"

definition fail_with :: "unary_failure \<Rightarrow> ('w, 'a) action" where
  "fail_with e s = (Inl e, s)"

definition chain :: "('w, 'a) action \<Rightarrow> ('a \<Rightarrow> ('w, 'b) action) \<Rightarrow> ('w, 'b) action" where
  "chain m f s = (case m s of (Inl e, s') \<Rightarrow> (Inl e, s') | (Inr x, s') \<Rightarrow> f x s')"

definition rescue :: "('w, 'a) action \<Rightarrow> (unary_failure \<Rightarrow> ('w, 'a) action) \<Rightarrow> ('w, 'a) action" where
  "rescue m h s = (case m s of (Inl e, s') \<Rightarrow> h e s' | (Inr x, s') \<Rightarrow> (Inr x, s'))"

definition emit :: "unary_event \<Rightarrow> ('w, unit) action" where
  "emit ev s = (Inr (), s\<lparr>us_log := us_log s @ [ev]\<rparr>)"

definition observe :: "('w \<Rightarrow> 'a \<times> 'w) \<Rightarrow> ('w, 'a) action" where
  "observe f s = (case f (us_world s) of (x, w) \<Rightarrow> (Inr x, s\<lparr>us_world := w\<rparr>))"

text \<open>A call of the load balancer, as far as the accounts it may choose are concerned.\<close>

record select_request =
  sr_account_ids :: "string list option"
  sr_exclude :: "string list"

record account_pick =
  pick_account :: "string option"
  pick_error_code :: "string option"
  pick_error_message :: "string option"

record ('w, 'r) unary_env =
  ue_clock :: "'w \<Rightarrow> real \<times> 'w"
  ue_select :: "select_request \<Rightarrow> 'w \<Rightarrow> (py_error option + account_pick) \<times> 'w" \<comment> \<open>\<open>Inl None\<close> when the budget ran out\<close>
  ue_fresh :: "string \<Rightarrow> bool \<Rightarrow> real \<Rightarrow> 'w \<Rightarrow> (fresh_failure + unit) \<times> 'w"
  ue_route :: "string \<Rightarrow> 'w \<Rightarrow> (string + unit) \<times> 'w"
  ue_invoke :: "string \<Rightarrow> real \<Rightarrow> 'w \<Rightarrow> (proxy_error + 'r) \<times> 'w"

section \<open>Operations\<close>

definition remaining_budget :: "('w, 'r) unary_env \<Rightarrow> real \<Rightarrow> ('w, real) action" where
  "remaining_budget env deadline = chain (observe (ue_clock env)) (\<lambda>now. ret (max 0 (deadline - now)))"

text \<open>Reports to the balancer.\<close>

definition handle_stream_error :: "string \<Rightarrow> string \<Rightarrow> int option \<Rightarrow> ('w, unit) action" where
  "handle_stream_error account code http_status =
     (if is_account_neutral_error_code code then ret ()
      else case classify_upstream_failure code http_status of
        Rate_limit \<Rightarrow> emit (MarkRateLimit account)
      | Quota \<Rightarrow> emit (MarkQuotaExceeded account)
      | _ \<Rightarrow>
          if map_of PERMANENT_FAILURE_CODES code \<noteq> None then emit (MarkPermanentFailure account code) else emit (RecordError account))"

definition handle_proxy_error :: "string \<Rightarrow> proxy_error \<Rightarrow> ('w, unit) action" where
  "handle_proxy_error account e =
     (let code = error_code_of (pe_error e)
      in if is_account_neutral_error_code code then ret () else handle_stream_error account code (Some (pe_status e)))"

text \<open>The selection of an account within the budget: a preferred account first, the pool when it may be left.\<close>

record routing_settings =
  rs_single_account :: bool
  rs_single_account_id :: string

record select_options =
  so_scope :: "string list option" \<comment> \<open>the accounts assigned to the API key\<close>
  so_exclude :: "string list"
  so_preferred :: "string option"
  so_fallback :: bool

definition no_selection :: "string \<Rightarrow> string \<Rightarrow> account_pick" where
  "no_selection code message = \<lparr>pick_account = None, pick_error_code = Some code, pick_error_message = Some message\<rparr>"

definition lb_select :: "('w, 'r) unary_env \<Rightarrow> select_request \<Rightarrow> ('w, account_pick) action" where
  "lb_select env req = chain (observe (ue_select env req)) (\<lambda>sel.
       case sel of
         Inl None \<Rightarrow> fail_with (ProxyResponse budget_exhausted)
       | Inl (Some e) \<Rightarrow> fail_with (RaisedError e)
       | Inr x \<Rightarrow> ret x)"

definition single_account_scope :: "routing_settings \<Rightarrow> select_options \<Rightarrow> account_pick + string list option" where
  "single_account_scope st opts =
     (if rs_single_account st \<and> \<not> (so_preferred opts \<noteq> None \<and> \<not> so_fallback opts)
      then (let selected = py_strip (rs_single_account_id st)
        in if selected = [] then Inl (no_selection ''single_account_not_configured'' ''Single account routing is enabled but no account is selected'')
           else if selected \<in> set (so_exclude opts) then Inl (no_selection ''single_account_unavailable'' ''Selected single account is unavailable'')
           else if (case so_scope opts of Some ids \<Rightarrow> selected \<notin> set ids | None \<Rightarrow> False)
             then Inl (no_selection ''single_account_scope_mismatch'' ''Selected single account is outside the API key account scope'')
           else Inr (Some [selected]))
      else Inr (so_scope opts))"

definition preferred_eligible :: "select_options \<Rightarrow> string list option \<Rightarrow> bool" where
  "preferred_eligible opts scope =
     (case so_preferred opts of
        None \<Rightarrow> False
      | Some p \<Rightarrow> p \<notin> set (so_exclude opts) \<and> (case scope of None \<Rightarrow> True | Some ids \<Rightarrow> p \<in> set ids))"

definition select_from_pool :: "('w, 'r) unary_env \<Rightarrow> select_options \<Rightarrow> string list option \<Rightarrow> ('w, account_pick) action" where
  "select_from_pool env opts scope =
     chain (lb_select env \<lparr>sr_account_ids = scope, sr_exclude = so_exclude opts\<rparr>) (\<lambda>sel.
       case pick_account sel of
         Some a \<Rightarrow> if a \<in> set (so_exclude opts) then ret (no_selection ''no_accounts'' ''No active accounts available'') else ret sel
       | None \<Rightarrow> ret sel)"

definition select_account_with_budget ::
  "('w, 'r) unary_env \<Rightarrow> routing_settings \<Rightarrow> real \<Rightarrow> select_options \<Rightarrow> ('w, account_pick) action" where
  "select_account_with_budget env st deadline opts =
     chain (remaining_budget env deadline) (\<lambda>remaining.
       if remaining \<le> 0 then fail_with (ProxyResponse budget_exhausted)
       else case single_account_scope st opts of
         Inl denied \<Rightarrow> ret denied
       | Inr scope \<Rightarrow>
           if so_preferred opts \<noteq> None \<and> \<not> preferred_eligible opts scope \<and> \<not> so_fallback opts
           then ret (no_selection ''preferred_account_unavailable'' ''Preferred account is not available'')
           else case (if preferred_eligible opts scope then so_preferred opts else None) of
             Some p \<Rightarrow>
               chain (lb_select env \<lparr>sr_account_ids = Some [p], sr_exclude = []\<rparr>) (\<lambda>sel.
                 if pick_account sel \<noteq> None \<or> \<not> so_fallback opts then ret sel else select_from_pool env opts scope)
           | None \<Rightarrow> select_from_pool env opts scope)"

definition ensure_fresh_with_budget :: "('w, 'r) unary_env \<Rightarrow> string \<Rightarrow> bool \<Rightarrow> real \<Rightarrow> ('w, unit) action" where
  "ensure_fresh_with_budget env account force timeout =
     chain (observe (ue_fresh env account force timeout)) (\<lambda>r.
       case r of
         Inr u \<Rightarrow> ret u
       | Inl (FConnect message) \<Rightarrow> fail_with (ConnectFailed message)
       | Inl (FRefresh e reason) \<Rightarrow>
           (case refresh_upstream_proxy_fail_closed_reason e reason of
              Some why \<Rightarrow> fail_with (RouteFailed why)
            | None \<Rightarrow> fail_with (RefreshFailed e None)))"

definition timed_out_message :: "string \<Rightarrow> string" where
  "timed_out_message m = (if m = [] then ''Request to upstream timed out'' else m)"

text \<open>
  The refresh before anything is visible to the client: a connection failure moves to another account while attempts are left
  (\<open>again\<close> is the next round of the loop), a strict account is never left.
\<close>

definition fresh_failover ::
  "(string list \<Rightarrow> ('w, account_pick) action) \<Rightarrow> string option \<Rightarrow> string list \<Rightarrow> string \<Rightarrow> (string \<Rightarrow> ('w, string) action) option \<Rightarrow> string \<Rightarrow>
   ('w, string) action" where
  "fresh_failover select_next strict excluded current again message =
     (case (if should_retry_transient_stream_error (Some ''upstream_unavailable'') (Some message) \<and> strict \<noteq> Some current then again else None) of
        None \<Rightarrow> fail_with (ProxyResponse (proxy_unavailable_for_account message current))
      | Some go \<Rightarrow>
          chain (select_next (List.insert current excluded)) (\<lambda>sel.
            case pick_account sel of
              None \<Rightarrow> fail_with (ProxyResponse (proxy_unavailable_for_account message current))
            | Some next \<Rightarrow> chain (handle_stream_error current ''upstream_unavailable'' None) (\<lambda>_. go next)))"

definition fresh_attempt ::
  "('w, 'r) unary_env \<Rightarrow> real \<Rightarrow> (string list \<Rightarrow> ('w, account_pick) action) \<Rightarrow> string option \<Rightarrow> string list \<Rightarrow> string \<Rightarrow> bool \<Rightarrow>
   (string \<Rightarrow> ('w, string) action) option \<Rightarrow> ('w, string) action" where
  "fresh_attempt env deadline select_next strict excluded current force again =
     chain (remaining_budget env deadline) (\<lambda>remaining.
       if remaining \<le> 0 then fail_with (ProxyResponse budget_exhausted)
       else rescue (chain (ensure_fresh_with_budget env current force remaining) (\<lambda>_. ret current)) (\<lambda>e.
         case e of
           RefreshFailed r _ \<Rightarrow>
             if re_transport_error r then fresh_failover select_next strict excluded current again (timed_out_message (re_message r))
             else fail_with (RefreshFailed r (Some current))
         | ConnectFailed m \<Rightarrow> fresh_failover select_next strict excluded current again (timed_out_message m)
         | _ \<Rightarrow> fail_with e))"

text \<open>The loop; the first argument is the number of attempts that remain after this one.\<close>

fun ensure_fresh_loop ::
  "nat \<Rightarrow> ('w, 'r) unary_env \<Rightarrow> real \<Rightarrow> (string list \<Rightarrow> ('w, account_pick) action) \<Rightarrow> string option \<Rightarrow> string list \<Rightarrow> string \<Rightarrow> bool \<Rightarrow>
   ('w, string) action" where
  "ensure_fresh_loop 0 env deadline select_next strict excluded current force =
     fresh_attempt env deadline select_next strict excluded current force None"
| "ensure_fresh_loop (Suc left) env deadline select_next strict excluded current force =
     fresh_attempt env deadline select_next strict excluded current force
       (Some (\<lambda>next. ensure_fresh_loop left env deadline select_next strict (List.insert current excluded) next False))"

definition ensure_previsible_unary_fresh_with_failover ::
  "('w, 'r) unary_env \<Rightarrow> real \<Rightarrow> (string list \<Rightarrow> ('w, account_pick) action) \<Rightarrow> string option \<Rightarrow> bool \<Rightarrow> string \<Rightarrow> ('w, string) action" where
  "ensure_previsible_unary_fresh_with_failover env deadline select_next strict force account =
     ensure_fresh_loop 1 env deadline select_next strict [] account force"

definition invalid_api_key :: "string \<Rightarrow> proxy_error" where
  "invalid_api_key message = proxy_response 401 (unary_openai_error ''invalid_api_key'' message ''invalid_request_error'')"

definition ensure_fresh_with_budget_or_auth_error :: "('w, 'r) unary_env \<Rightarrow> string \<Rightarrow> bool \<Rightarrow> real \<Rightarrow> ('w, unit) action" where
  "ensure_fresh_with_budget_or_auth_error env account force timeout =
     rescue (ensure_fresh_with_budget env account force timeout) (\<lambda>e.
       case e of
         RefreshFailed r failed \<Rightarrow>
           if re_transport_error r
           then fail_with (ProxyResponse (proxy_unavailable_for_account (timed_out_message (re_message r)) (default failed account)))
           else chain (if re_is_permanent r then emit (MarkPermanentFailure (default failed account) (re_code r)) else ret ()) (\<lambda>_.
             fail_with (ProxyResponse (invalid_api_key (re_message r))))
       | ConnectFailed m \<Rightarrow> fail_with (ProxyResponse (proxy_unavailable (timed_out_message m)))
       | _ \<Rightarrow> fail_with e)"

text \<open>An exception of the response kind is attributed to an account, reported when the flag says so, and raised again.\<close>

definition attribute_and_raise :: "(proxy_error \<Rightarrow> bool) \<Rightarrow> string \<Rightarrow> unary_failure \<Rightarrow> ('w, 'a) action" where
  "attribute_and_raise report account e =
     (case e of
        ProxyResponse p \<Rightarrow>
          (let failed = failed_account_of p account; p' = p\<lparr>pe_failed_account := Some failed\<rparr>
           in chain (if report p then handle_proxy_error failed p' else ret ()) (\<lambda>_. fail_with (ProxyResponse p')))
      | _ \<Rightarrow> fail_with e)"

definition not_unauthorized :: "proxy_error \<Rightarrow> bool" where
  "not_unauthorized p = (pe_status p \<noteq> 401)"

text \<open>The call on another account after a refusal of its token: refresh by force, then call once more.\<close>

definition retry_after_refresh ::
  "('w, 'r) unary_env \<Rightarrow> real \<Rightarrow> (string \<Rightarrow> ('w, 'r) action) \<Rightarrow> string \<Rightarrow> ('w, string \<times> 'r) action" where
  "retry_after_refresh env deadline call_next account =
     chain (remaining_budget env deadline) (\<lambda>remaining.
       if remaining \<le> 0 then fail_with (ProxyResponse budget_exhausted)
       else chain (rescue (ensure_fresh_with_budget_or_auth_error env account True remaining) (attribute_and_raise not_unauthorized account)) (\<lambda>_.
         chain (rescue (call_next account) (attribute_and_raise (\<lambda>_. True) account)) (\<lambda>result.
           chain (emit (RecordSuccess account)) (\<lambda>_. ret (account, result)))))"

definition call_failover_account ::
  "('w, 'r) unary_env \<Rightarrow> real \<Rightarrow> (string \<Rightarrow> ('w, 'r) action) \<Rightarrow> string \<Rightarrow> ('w, string \<times> 'r) action" where
  "call_failover_account env deadline call_next account =
     chain (remaining_budget env deadline) (\<lambda>remaining.
     chain (rescue (ensure_fresh_with_budget_or_auth_error env account False remaining) (attribute_and_raise not_unauthorized account)) (\<lambda>_.
     rescue (chain (call_next account) (\<lambda>result. chain (emit (RecordSuccess account)) (\<lambda>_. ret (account, result)))) (\<lambda>f.
       case f of
         ProxyResponse p \<Rightarrow>
           if pe_status p = 401 then retry_after_refresh env deadline call_next account else attribute_and_raise (\<lambda>_. True) account f
       | _ \<Rightarrow> fail_with f)))"

definition retry_previsible_unary_call_failover ::
  "('w, 'r) unary_env \<Rightarrow> real \<Rightarrow> (string list \<Rightarrow> ('w, account_pick) action) \<Rightarrow> (string \<Rightarrow> ('w, 'r) action) \<Rightarrow> string option \<Rightarrow> proxy_error \<Rightarrow>
   string \<Rightarrow> ('w, (string \<times> 'r) option) action" where
  "retry_previsible_unary_call_failover env deadline select_next call_next strict e account =
     (if pe_failed_account e \<noteq> None \<or> \<not> should_failover_previsible_unary_proxy_error e \<or> strict = Some (failed_account_of e account) then ret None
      else chain (select_next [failed_account_of e account]) (\<lambda>sel.
        case pick_account sel of
          None \<Rightarrow> ret None
        | Some next \<Rightarrow>
            chain (handle_proxy_error (failed_account_of e account) e) (\<lambda>_.
            chain (call_failover_account env deadline call_next next) (\<lambda>r. ret (Some r)))))"

section \<open>The files endpoints\<close>

text \<open>
  One upstream call: the route, what is left of the budget, then the request. The exception is made afresh from that of the
  client, so it is not attributed to an account yet.
\<close>

definition files_call :: "('w, 'r) unary_env \<Rightarrow> real \<Rightarrow> string \<Rightarrow> ('w, 'r) action" where
  "files_call env deadline account =
     chain (observe (ue_route env account)) (\<lambda>route.
       case route of
         Inl reason \<Rightarrow> fail_with (RouteFailed reason)
       | Inr _ \<Rightarrow>
           chain (remaining_budget env deadline) (\<lambda>remaining.
             if remaining \<le> 0 then fail_with (ProxyResponse budget_exhausted)
             else chain (emit (Upstream account)) (\<lambda>_.
               chain (observe (ue_invoke env account remaining)) (\<lambda>r.
                 case r of Inl p \<Rightarrow> fail_with (ProxyResponse (p\<lparr>pe_failed_account := None\<rparr>)) | Inr x \<Rightarrow> ret x))))"

definition files_options :: "string list option \<Rightarrow> string list \<Rightarrow> string option \<Rightarrow> bool \<Rightarrow> select_options" where
  "files_options scope exclude preferred fallback =
     \<lparr>so_scope = scope, so_exclude = exclude, so_preferred = preferred, so_fallback = fallback\<rparr>"

definition select_files_failover ::
  "('w, 'r) unary_env \<Rightarrow> routing_settings \<Rightarrow> real \<Rightarrow> string list option \<Rightarrow> string option \<Rightarrow> string list \<Rightarrow> ('w, account_pick) action" where
  "select_files_failover env st deadline scope preferred excluded =
     select_account_with_budget env st deadline (files_options scope excluded preferred True)"

definition mark_if_permanent :: "refresh_error \<Rightarrow> string \<Rightarrow> ('w, unit) action" where
  "mark_if_permanent r account = (if re_is_permanent r then emit (MarkPermanentFailure account (re_code r)) else ret ())"

definition succeed :: "string \<Rightarrow> 'r \<Rightarrow> ('w, 'r \<times> string) action" where
  "succeed account result = chain (emit (RecordSuccess account)) (\<lambda>_. ret (result, account))"

text \<open>The last account, after the token was refused twice.\<close>

definition files_last_account ::
  "('w, 'r) unary_env \<Rightarrow> routing_settings \<Rightarrow> real \<Rightarrow> string list option \<Rightarrow> string option \<Rightarrow> string \<Rightarrow> proxy_error \<Rightarrow> ('w, 'r \<times> string) action" where
  "files_last_account env st deadline scope preferred account e =
     chain (select_account_with_budget env st deadline (files_options scope [account] preferred (preferred = None))) (\<lambda>sel.
       case pick_account sel of
         None \<Rightarrow> fail_with (ProxyResponse e)
       | Some next \<Rightarrow>
           chain (remaining_budget env deadline) (\<lambda>remaining.
           chain (ensure_fresh_with_budget_or_auth_error env next False remaining) (\<lambda>_.
           rescue (chain (files_call env deadline next) (succeed next)) (\<lambda>f.
             case f of
               ProxyResponse p \<Rightarrow> chain (handle_proxy_error next p) (\<lambda>_. fail_with f)
             | _ \<Rightarrow> fail_with f))))"

text \<open>After a refused token: refresh by force, call again, report, and try one more account when the token is refused again.\<close>

definition files_after_unauthorized ::
  "('w, 'r) unary_env \<Rightarrow> routing_settings \<Rightarrow> real \<Rightarrow> string list option \<Rightarrow> string option \<Rightarrow> string \<Rightarrow> proxy_error \<Rightarrow> ('w, 'r \<times> string) action" where
  "files_after_unauthorized env st deadline scope preferred account e =
     chain
       (rescue
         (chain (remaining_budget env deadline) (\<lambda>remaining.
           if remaining \<le> 0 then fail_with (ProxyResponse budget_exhausted)
           else rescue
             (ensure_previsible_unary_fresh_with_failover env deadline (select_files_failover env st deadline scope preferred) preferred True account)
             (\<lambda>f. case f of
                ProxyResponse p \<Rightarrow> chain (handle_proxy_error (failed_account_of p account) p) (\<lambda>_. fail_with f)
              | _ \<Rightarrow> fail_with f)))
         (\<lambda>f. case f of
            RefreshFailed r failed \<Rightarrow> chain (mark_if_permanent r (default failed account)) (\<lambda>_. fail_with (ProxyResponse e))
          | ConnectFailed m \<Rightarrow> fail_with (ProxyResponse (proxy_unavailable (timed_out_message m)))
          | _ \<Rightarrow> fail_with f))
       (\<lambda>account'.
         rescue (chain (files_call env deadline account') (succeed account')) (\<lambda>f.
           case f of
             ProxyResponse p \<Rightarrow>
               chain (handle_proxy_error account' p) (\<lambda>_.
                 if pe_status p = 401 then files_last_account env st deadline scope preferred account' p else fail_with f)
           | _ \<Rightarrow> fail_with f))"

text \<open>
  What is done with an exception of the first attempt. \<open>account\<close> is the one the attempt had reached: the selected account while it
  is being refreshed, the refreshed one during the call.
\<close>

definition files_recover ::
  "('w, 'r) unary_env \<Rightarrow> routing_settings \<Rightarrow> real \<Rightarrow> string list option \<Rightarrow> string option \<Rightarrow> string \<Rightarrow> unary_failure \<Rightarrow> ('w, 'r \<times> string) action" where
  "files_recover env st deadline scope preferred account f =
     (case f of
        RefreshFailed r failed \<Rightarrow>
          chain (mark_if_permanent r (default failed account)) (\<lambda>_. fail_with (ProxyResponse (invalid_api_key (re_message r))))
      | ProxyResponse e \<Rightarrow>
          if pe_status e = 401 then files_after_unauthorized env st deadline scope preferred account e
          else chain
            (retry_previsible_unary_call_failover env deadline (select_files_failover env st deadline scope preferred) (files_call env deadline)
              preferred e account) (\<lambda>r.
              case r of
                Some (next, result) \<Rightarrow> ret (result, next)
              | None \<Rightarrow> chain (handle_proxy_error (failed_account_of e account) e) (\<lambda>_. fail_with f))
      | _ \<Rightarrow> fail_with f)"

definition files_attempt ::
  "('w, 'r) unary_env \<Rightarrow> routing_settings \<Rightarrow> real \<Rightarrow> string list option \<Rightarrow> string option \<Rightarrow> string \<Rightarrow> ('w, 'r \<times> string) action" where
  "files_attempt env st deadline scope preferred account s =
     (case ensure_previsible_unary_fresh_with_failover env deadline (select_files_failover env st deadline scope preferred) preferred False account s of
        (Inl f, s') \<Rightarrow> files_recover env st deadline scope preferred account f s'
      | (Inr fresh, s') \<Rightarrow> rescue (chain (files_call env deadline fresh) (succeed fresh)) (files_recover env st deadline scope preferred fresh) s')"

definition route_unavailable :: "string \<Rightarrow> proxy_error" where
  "route_unavailable reason =
     proxy_response 502 (unary_openai_error ''upstream_proxy_unavailable'' (''Upstream proxy route unavailable: '' @ reason) ''server_error'')"

definition proxy_files_call ::
  "('w, 'r) unary_env \<Rightarrow> routing_settings \<Rightarrow> real \<Rightarrow> string list option \<Rightarrow> string option \<Rightarrow> ('w, 'r \<times> string) action" where
  "proxy_files_call env st deadline scope preferred =
     rescue
       (chain (select_account_with_budget env st deadline (files_options scope [] preferred (preferred = None))) (\<lambda>sel.
         case pick_account sel of
           None \<Rightarrow>
             fail_with (ProxyResponse (proxy_response 503 (unary_openai_error (default (nonempty_str (pick_error_code sel)) ''no_accounts'')
               (default (nonempty_str (pick_error_message sel)) ''No active accounts available'') ''server_error'')))
         | Some account \<Rightarrow> files_attempt env st deadline scope preferred account))
       (\<lambda>f. case f of RouteFailed reason \<Rightarrow> fail_with (ProxyResponse (route_unavailable reason)) | _ \<Rightarrow> fail_with f)"

section \<open>What an action may do\<close>

fun event_account :: "unary_event \<Rightarrow> string" where
  "event_account (Upstream a) = a"
| "event_account (RecordSuccess a) = a"
| "event_account (RecordError a) = a"
| "event_account (MarkRateLimit a) = a"
| "event_account (MarkQuotaExceeded a) = a"
| "event_account (MarkPermanentFailure a _) = a"

fun attributed :: "(string \<Rightarrow> bool) \<Rightarrow> unary_failure \<Rightarrow> bool" where
  "attributed A (ProxyResponse p) = (case pe_failed_account p of Some a \<Rightarrow> A a | None \<Rightarrow> True)"
| "attributed A (RefreshFailed r failed) = (case failed of Some a \<Rightarrow> A a | None \<Rightarrow> True)"
| "attributed A _ = True"

fun is_upstream :: "unary_event \<Rightarrow> bool" where
  "is_upstream (Upstream _) = True"
| "is_upstream _ = False"

text \<open>
  An action touches only accounts that satisfy \<open>A\<close>, attributes its failures to such accounts, makes at most \<open>n\<close> upstream calls, and
  its result satisfies \<open>Q\<close>.
\<close>

definition touches :: "('w \<Rightarrow> bool) \<Rightarrow> (string \<Rightarrow> bool) \<Rightarrow> nat \<Rightarrow> ('w, 'a) action \<Rightarrow> ('a \<Rightarrow> bool) \<Rightarrow> bool" where
  "touches W A n m Q \<longleftrightarrow>
     (\<forall>s. W (us_world s) \<longrightarrow> W (us_world (snd (m s))) \<and> (\<exists>evs. us_log (snd (m s)) = us_log s @ evs \<and> list_all (\<lambda>ev. A (event_account ev)) evs \<and> length (filter is_upstream evs) \<le> n \<and>
       (case fst (m s) of Inl e \<Rightarrow> attributed A e | Inr x \<Rightarrow> Q x)))"

lemma touches_ret: "Q x \<Longrightarrow> touches W A n (ret x) Q"
  by (simp add: touches_def ret_def)

lemma touches_fail: "attributed A e \<Longrightarrow> touches W A n (fail_with e) Q"
  by (simp add: touches_def fail_with_def)

lemma touches_observe: "(\<And>w. W w \<Longrightarrow> W (snd (f w))) \<Longrightarrow> (\<And>w. W w \<Longrightarrow> Q (fst (f w))) \<Longrightarrow> touches W A n (observe f) Q"
  by (simp add: touches_def observe_def split: prod.split) (metis fst_conv snd_conv)

lemma touches_emit: "A (event_account ev) \<Longrightarrow> (is_upstream ev \<Longrightarrow> 0 < n) \<Longrightarrow> touches W A n (emit ev) (\<lambda>_. True)"
  by (auto simp: touches_def emit_def)

text \<open>Both ways to go on, after a result and after a failure, are one.\<close>

definition branch :: "('w, 'a) action \<Rightarrow> (unary_failure \<Rightarrow> ('w, 'b) action) \<Rightarrow> ('a \<Rightarrow> ('w, 'b) action) \<Rightarrow> ('w, 'b) action" where
  "branch m h f s = (case m s of (Inl e, s') \<Rightarrow> h e s' | (Inr x, s') \<Rightarrow> f x s')"

lemma chain_branch: "chain m f = branch m fail_with f"
  by (rule ext) (simp add: chain_def branch_def fail_with_def split: prod.split sum.split)

lemma rescue_branch: "rescue m h = branch m h ret"
  by (rule ext) (simp add: rescue_def branch_def ret_def split: prod.split sum.split)

lemma touches_branch:
  assumes "touches W A a m R" and "\<And>e. attributed A e \<Longrightarrow> touches W A b (h e) Q" and "\<And>x. R x \<Longrightarrow> touches W A b (f x) Q" and "a + b \<le> n"
  shows "touches W A n (branch m h f) Q"
  unfolding touches_def
proof (intro allI impI)
  fix s :: "'a unary_state" assume "W (us_world s)"
  obtain r s1 where m: "m s = (r, s1)" by fastforce
  obtain e1 where e1: "us_log s1 = us_log s @ e1" "list_all (\<lambda>ev. A (event_account ev)) e1" "length (filter is_upstream e1) \<le> a"
    "case r of Inl e \<Rightarrow> attributed A e | Inr x \<Rightarrow> R x" and w1: "W (us_world s1)"
    using assms(1) m \<open>W (us_world s)\<close> unfolding touches_def by (metis fst_conv snd_conv)
  obtain g where g: "branch m h f s = g s1" "touches W A b g Q"
    using assms(2,3) e1(4) m by (cases r) (auto simp: branch_def)
  then obtain e2 where "us_log (snd (g s1)) = us_log s1 @ e2" "list_all (\<lambda>ev. A (event_account ev)) e2"
    "length (filter is_upstream e2) \<le> b" "case fst (g s1) of Inl e \<Rightarrow> attributed A e | Inr x \<Rightarrow> Q x" and "W (us_world (snd (g s1)))"
    using w1 unfolding touches_def by blast
  then show "W (us_world (snd (branch m h f s))) \<and>
    (\<exists>evs. us_log (snd (branch m h f s)) = us_log s @ evs \<and> list_all (\<lambda>ev. A (event_account ev)) evs \<and>
    length (filter is_upstream evs) \<le> n \<and> (case fst (branch m h f s) of Inl e \<Rightarrow> attributed A e | Inr x \<Rightarrow> Q x))"
    using e1 g(1) assms(4) by (intro conjI exI [of _ "e1 @ e2"]) simp_all
qed

lemma touches_chain:
  "touches W A a m R \<Longrightarrow> (\<And>x. R x \<Longrightarrow> touches W A b (f x) Q) \<Longrightarrow> a + b \<le> n \<Longrightarrow> touches W A n (chain m f) Q"
  unfolding chain_branch by (rule touches_branch [where R = R and a = a and b = b]) (auto intro: touches_fail)

lemma touches_rescue:
  "touches W A a m Q \<Longrightarrow> (\<And>e. attributed A e \<Longrightarrow> touches W A b (h e) Q) \<Longrightarrow> a + b \<le> n \<Longrightarrow> touches W A n (rescue m h) Q"
  unfolding rescue_branch by (rule touches_branch [where R = Q and a = a and b = b]) (auto intro: touches_ret)

lemma touches_then: "touches W A 0 m (\<lambda>_. True) \<Longrightarrow> (\<And>x. touches W A n (f x) Q) \<Longrightarrow> touches W A n (chain m f) Q"
  by (rule touches_chain [where R = "\<lambda>_. True" and a = 0 and b = n]) simp_all

lemma touches_weaken: "touches W A n m R \<Longrightarrow> (\<And>x. R x \<Longrightarrow> Q x) \<Longrightarrow> n \<le> n' \<Longrightarrow> touches W A n' m Q"
  unfolding touches_def by (fastforce split: sum.splits)

definition in_scope :: "string list option \<Rightarrow> string \<Rightarrow> bool" where
  "in_scope scope a = (case scope of Some ids \<Rightarrow> a \<in> set ids | None \<Rightarrow> True)"

text \<open>
  What a request relies on: the balancer keeps to the accounts it is asked to choose from, and whatever is awaited keeps the property \<open>W\<close>
  of the world on which that rests.
\<close>

locale unary_accounts =
  fixes env :: "('w, 'r) unary_env" and W :: "'w \<Rightarrow> bool"
  assumes keep_clock: "W w \<Longrightarrow> W (snd (ue_clock env w))"
    and keep_select: "W w \<Longrightarrow> W (snd (ue_select env req w))"
    and keep_fresh: "W w \<Longrightarrow> W (snd (ue_fresh env account force timeout w))"
    and keep_route: "W w \<Longrightarrow> W (snd (ue_route env account w))"
    and keep_invoke: "W w \<Longrightarrow> W (snd (ue_invoke env account timeout w))"
    and select_in_scope: "W w \<Longrightarrow> fst (ue_select env req w) = Inr sel \<Longrightarrow> pick_account sel = Some a \<Longrightarrow> in_scope (sr_account_ids req) a"

section \<open>Reports and failures\<close>

lemma touches_stream_error: "A account \<Longrightarrow> touches W A 0 (handle_stream_error account code status) (\<lambda>_. True)"
  by (auto simp: handle_stream_error_def intro!: touches_ret touches_emit split: FailureClass.split)

lemma touches_proxy_error: "A account \<Longrightarrow> touches W A 0 (handle_proxy_error account e) (\<lambda>_. True)"
  by (simp add: handle_proxy_error_def Let_def touches_ret touches_stream_error)

lemma unattributed [simp]:
  "pe_failed_account budget_exhausted = None" "pe_failed_account (proxy_unavailable m) = None"
  "pe_failed_account (invalid_api_key m) = None" "pe_failed_account (route_unavailable m) = None"
  "pe_failed_account (proxy_response st e) = None" "pe_failed_account (proxy_unavailable_for_account m a) = Some a"
  by (simp_all add: budget_exhausted_def proxy_unavailable_def invalid_api_key_def route_unavailable_def proxy_response_def
      proxy_unavailable_for_account_def)

lemma single_scope: "single_account_scope st opts = Inr scope \<Longrightarrow> in_scope scope a \<Longrightarrow> in_scope (so_scope opts) a"
  by (auto simp: single_account_scope_def in_scope_def Let_def split: if_splits option.splits)

text \<open>A selection keeps to the scope, avoids what is excluded, and does not leave a preferred account it must not leave.\<close>

definition selects_well :: "select_options \<Rightarrow> account_pick \<Rightarrow> bool" where
  "selects_well opts sel \<longleftrightarrow>
     (\<forall>a. pick_account sel = Some a \<longrightarrow> in_scope (so_scope opts) a \<and> a \<notin> set (so_exclude opts) \<and>
        (so_preferred opts \<noteq> None \<longrightarrow> \<not> so_fallback opts \<longrightarrow> so_preferred opts = Some a))"

lemma selects_well_none [simp]: "selects_well opts (no_selection c m)"
  by (simp add: selects_well_def no_selection_def)

lemma touches_mark: "A account \<Longrightarrow> touches W A 0 (mark_if_permanent r account) (\<lambda>_. True)"
  by (auto simp: mark_if_permanent_def intro!: touches_emit touches_ret)

lemma failed_account_of_attributed: "attributed A (ProxyResponse p) \<Longrightarrow> A account \<Longrightarrow> A (failed_account_of p account)"
  by (simp add: failed_account_of_def default_def split: option.splits)

lemma touches_attribute:
  assumes "A account" and "attributed A e"
  shows "touches W A 0 (attribute_and_raise report account e) Q"
proof (cases e)
  case (ProxyResponse p)
  then have "A (failed_account_of p account)" using assms failed_account_of_attributed by blast
  then show ?thesis
    using ProxyResponse by (auto simp: attribute_and_raise_def Let_def intro!: touches_then touches_proxy_error touches_ret touches_fail)
qed (use assms in \<open>simp_all add: attribute_and_raise_def touches_fail\<close>)

lemma touches_succeed: "A account \<Longrightarrow> touches W A 0 (succeed account result) (\<lambda>r. A (snd r))"
  unfolding succeed_def by (intro touches_then touches_emit touches_ret) simp_all

text \<open>A reported and raised failure of the response kind.\<close>

lemma touches_report:
  "A account \<Longrightarrow> attributed A f \<Longrightarrow>
   touches W A 0 (case f of ProxyResponse p \<Rightarrow> chain (handle_proxy_error account p) (\<lambda>_. fail_with f) | _ \<Rightarrow> fail_with f) Q"
  by (cases f) (auto intro!: touches_then [OF touches_proxy_error] touches_fail)

lemma touches_report_failed:
  "A account \<Longrightarrow> attributed A f \<Longrightarrow>
   touches W A 0 (case f of ProxyResponse p \<Rightarrow> chain (handle_proxy_error (failed_account_of p account) p) (\<lambda>_. fail_with f) | _ \<Rightarrow> fail_with f) Q"
  using failed_account_of_attributed [of A _ account] by (cases f) (auto intro!: touches_then [OF touches_proxy_error] touches_fail)

text \<open>The accounts of the API key, and the account of the file alone when it has one.\<close>

definition files_allowed :: "string list option \<Rightarrow> string option \<Rightarrow> string \<Rightarrow> bool" where
  "files_allowed scope preferred a \<longleftrightarrow> in_scope scope a \<and> (preferred = None \<or> preferred = Some a)"

lemma files_attempt_branch:
  "files_attempt env st deadline scope preferred account =
     branch (ensure_previsible_unary_fresh_with_failover env deadline (select_files_failover env st deadline scope preferred) preferred False account)
       (files_recover env st deadline scope preferred account)
       (\<lambda>fresh. rescue (chain (files_call env deadline fresh) (succeed fresh)) (files_recover env st deadline scope preferred fresh))"
  by (rule ext) (simp add: files_attempt_def branch_def split: prod.split sum.split)

section \<open>Selection and failover keep to the accounts they may use\<close>

context unary_accounts begin

lemma touches_budget: "touches W A 0 (remaining_budget env deadline) (\<lambda>_. True)"
  unfolding remaining_budget_def
  by (rule touches_chain [where a = 0 and b = 0 and R = "\<lambda>_. True"]) (simp_all add: touches_observe touches_ret keep_clock)

lemma touches_lb_select:
  "touches W A 0 (lb_select env req) (\<lambda>sel. \<forall>a. pick_account sel = Some a \<longrightarrow> in_scope (sr_account_ids req) a)"
  unfolding lb_select_def
  by (rule touches_chain [where a = 0 and b = 0 and
      R = "\<lambda>r. \<forall>sel a. r = Inr sel \<longrightarrow> pick_account sel = Some a \<longrightarrow> in_scope (sr_account_ids req) a"])
    (auto intro!: touches_observe touches_fail touches_ret keep_select dest: select_in_scope split: option.split sum.split)

lemma touches_pool:
  assumes "single_account_scope st opts = Inr scope" and "so_preferred opts = None \<or> so_fallback opts"
  shows "touches W A 0 (select_from_pool env opts scope) (selects_well opts)"
  unfolding select_from_pool_def
  by (rule touches_chain [where a = 0 and b = 0, OF touches_lb_select])
    (use assms single_scope [OF assms(1)] in \<open>auto simp: selects_well_def no_selection_def intro!: touches_ret split: option.split\<close>)

lemma touches_select: "touches W A 0 (select_account_with_budget env st deadline opts) (selects_well opts)"
proof -
  have pref: "touches W A 0
      (chain (lb_select env \<lparr>sr_account_ids = Some [p], sr_exclude = []\<rparr>) (\<lambda>sel.
        if pick_account sel \<noteq> None \<or> \<not> so_fallback opts then ret sel else select_from_pool env opts scope)) (selects_well opts)"
    if scope: "single_account_scope st opts = Inr scope" and p: "so_preferred opts = Some p" "preferred_eligible opts scope" for p scope
  proof (rule touches_chain [where a = 0 and b = 0, OF touches_lb_select])
    fix sel :: account_pick assume "\<forall>a. pick_account sel = Some a \<longrightarrow> in_scope (sr_account_ids \<lparr>sr_account_ids = Some [p], sr_exclude = []\<rparr>) a"
    then have "selects_well opts sel"
      using p single_scope [OF scope, of p] by (auto simp: selects_well_def in_scope_def preferred_eligible_def split: option.splits)
    then show "touches W A 0 (if pick_account sel \<noteq> None \<or> \<not> so_fallback opts then ret sel else select_from_pool env opts scope) (selects_well opts)"
      using touches_pool [OF scope] by (auto intro!: touches_ret)
  qed simp
  show ?thesis
    unfolding select_account_with_budget_def
  proof (rule touches_chain [where a = 0 and b = 0, OF touches_budget])
    fix remaining :: real
    show "touches W A 0 (if remaining \<le> 0 then fail_with (ProxyResponse budget_exhausted)
       else case single_account_scope st opts of
         Inl denied \<Rightarrow> ret denied
       | Inr scope \<Rightarrow>
           if so_preferred opts \<noteq> None \<and> \<not> preferred_eligible opts scope \<and> \<not> so_fallback opts
           then ret (no_selection ''preferred_account_unavailable'' ''Preferred account is not available'')
           else case (if preferred_eligible opts scope then so_preferred opts else None) of
             Some p \<Rightarrow>
               chain (lb_select env \<lparr>sr_account_ids = Some [p], sr_exclude = []\<rparr>) (\<lambda>sel.
                 if pick_account sel \<noteq> None \<or> \<not> so_fallback opts then ret sel else select_from_pool env opts scope)
           | None \<Rightarrow> select_from_pool env opts scope) (selects_well opts)"
    proof (cases "single_account_scope st opts")
      case (Inl denied)
      then have "selects_well opts denied"
        by (auto simp: single_account_scope_def Let_def selects_well_def no_selection_def split: if_splits)
      then show ?thesis using Inl by (auto intro!: touches_fail touches_ret)
    next
      case (Inr scope)
      then show ?thesis
        using pref [OF Inr] touches_pool [OF Inr]
        by (auto intro!: touches_fail touches_ret split: option.split simp: preferred_eligible_def)
    qed
  qed simp
qed

lemma touches_fresh: "touches W A 0 (ensure_fresh_with_budget env account force timeout) (\<lambda>_. True)"
  unfolding ensure_fresh_with_budget_def
  by (rule touches_chain [where a = 0 and b = 0 and R = "\<lambda>_. True"])
    (auto intro!: touches_observe keep_fresh touches_fail touches_ret split: sum.split fresh_failure.split option.split)

lemma touches_failover:
  assumes "A current" and "strict \<noteq> Some current \<Longrightarrow> (\<And>ex. touches W A 0 (select_next ex) (\<lambda>sel. \<forall>a. pick_account sel = Some a \<longrightarrow> A a))"
    and "\<And>go next. again = Some go \<Longrightarrow> strict \<noteq> Some current \<Longrightarrow> A next \<Longrightarrow> touches W A 0 (go next) A"
  shows "touches W A 0 (fresh_failover select_next strict excluded current again message) A"
proof (cases "again = None \<or> strict = Some current")
  case True
  then show ?thesis using assms(1) by (auto simp: fresh_failover_def intro!: touches_fail)
next
  case False
  then obtain go where go: "again = Some go" "strict \<noteq> Some current" by (cases again) auto
  have "touches W A 0 (chain (select_next (List.insert current excluded)) (\<lambda>sel.
      case pick_account sel of
        None \<Rightarrow> fail_with (ProxyResponse (proxy_unavailable_for_account message current))
      | Some next \<Rightarrow> chain (handle_stream_error current ''upstream_unavailable'' None) (\<lambda>_. go next))) A"
    by (rule touches_chain [where a = 0 and b = 0, OF assms(2) [OF go(2)]])
      (use assms(1) assms(3) [OF go] in \<open>auto intro!: touches_fail touches_then touches_stream_error split: option.split\<close>)
  then show ?thesis using go assms(1) by (auto simp: fresh_failover_def intro!: touches_fail)
qed

lemma touches_attempt:
  assumes "A current" and "strict \<noteq> Some current \<Longrightarrow> (\<And>ex. touches W A 0 (select_next ex) (\<lambda>sel. \<forall>a. pick_account sel = Some a \<longrightarrow> A a))"
    and "\<And>go next. again = Some go \<Longrightarrow> strict \<noteq> Some current \<Longrightarrow> A next \<Longrightarrow> touches W A 0 (go next) A"
  shows "touches W A 0 (fresh_attempt env deadline select_next strict excluded current force again) A"
proof -
  have fresh: "touches W A 0 (chain (ensure_fresh_with_budget env current force remaining) (\<lambda>_. ret current)) A" for remaining
    by (rule touches_then [OF touches_fresh]) (rule touches_ret [where Q = A, OF assms(1)])
  have other: "touches W A 0 (fresh_failover select_next strict excluded current again message) A" for message
    using assms by (rule touches_failover)
  show ?thesis
    unfolding fresh_attempt_def using assms(1)
    by (auto intro!: touches_then [OF touches_budget] touches_rescue [where a = 0 and b = 0, OF fresh] touches_fail other
        split: unary_failure.split)
qed

lemma touches_loop:
  assumes "A current" and "\<And>p. strict = Some p \<Longrightarrow> current = p"
    and "strict = None \<Longrightarrow> (\<And>ex. touches W A 0 (select_next ex) (\<lambda>sel. \<forall>a. pick_account sel = Some a \<longrightarrow> A a))"
  shows "touches W A 0 (ensure_fresh_loop left env deadline select_next strict excluded current force) A"
  using assms(1,2)
proof (induction left arbitrary: excluded current force)
  case 0
  then show ?case using assms(3) by (cases strict) (auto intro!: touches_attempt)
next
  case (Suc left)
  then show ?case using assms(3) by (cases strict) (auto intro!: touches_attempt)
qed

lemma touches_auth:
  assumes "A account"
  shows "touches W A 0 (ensure_fresh_with_budget_or_auth_error env account force timeout) (\<lambda>_. True)"
  unfolding ensure_fresh_with_budget_or_auth_error_def mark_if_permanent_def [symmetric] using assms
  by (intro touches_rescue [where a = 0 and b = 0, OF touches_fresh])
    (auto simp: default_def intro!: touches_fail touches_then [OF touches_mark] split: unary_failure.split option.split)

lemma touches_files_call:
  assumes "A account"
  shows "touches W A 1 (files_call env deadline account) (\<lambda>_. True)"
proof -
  have invoke: "touches W A 1 (chain (emit (Upstream account)) (\<lambda>_. chain (observe (ue_invoke env account remaining)) f)) Q"
    if "\<And>r. touches W A 0 (f r) Q" for remaining f and Q :: "'b \<Rightarrow> bool"
    by (rule touches_chain [where a = 1 and b = 0 and R = "\<lambda>_. True"])
      (use assms that in \<open>auto intro!: touches_emit touches_then touches_observe keep_invoke\<close>)
  show ?thesis
    unfolding files_call_def
    by (auto simp del: One_nat_def intro!: invoke touches_then [OF touches_observe] keep_route touches_then [OF touches_budget] touches_fail touches_ret
        split: sum.split)
qed

lemma touches_call_succeed: "A account \<Longrightarrow> touches W A 1 (chain (files_call env deadline account) (succeed account)) (\<lambda>r. A (snd r))"
  by (rule touches_chain [where a = 1 and b = 0, OF touches_files_call]) (simp_all add: touches_succeed)

lemma touches_retry_refresh:
  assumes "A account" and "\<And>a. A a \<Longrightarrow> touches W A 1 (call_next a) (\<lambda>_. True)"
  shows "touches W A 1 (retry_after_refresh env deadline call_next account) (\<lambda>r. A (fst r))"
proof -
  have "touches W A 0 (rescue (ensure_fresh_with_budget_or_auth_error env account True remaining) (attribute_and_raise not_unauthorized account)) (\<lambda>_. True)"
    for remaining
    by (rule touches_rescue [where a = 0 and b = 0, OF touches_auth]) (simp_all add: assms(1) touches_attribute)
  moreover have "touches W A 1 (rescue (call_next account) (attribute_and_raise (\<lambda>_. True) account)) (\<lambda>_. True)"
    by (rule touches_rescue [where a = 1 and b = 0, OF assms(2)]) (simp_all add: assms(1) touches_attribute)
  then have "touches W A 1 (chain (rescue (call_next account) (attribute_and_raise (\<lambda>_. True) account)) (\<lambda>result.
      chain (emit (RecordSuccess account)) (\<lambda>_. ret (account, result)))) (\<lambda>r. A (fst r))"
    by (rule touches_chain [where a = 1 and b = 0]) (use assms(1) in \<open>auto intro!: touches_then touches_emit touches_ret\<close>)
  ultimately show ?thesis
    unfolding retry_after_refresh_def by (auto intro!: touches_then [OF touches_budget] touches_fail touches_then)
qed

lemma touches_failover_account:
  assumes "A account" and call: "\<And>a. A a \<Longrightarrow> touches W A 1 (call_next a) (\<lambda>_. True)"
  shows "touches W A 2 (call_failover_account env deadline call_next account) (\<lambda>r. A (fst r))"
proof -
  have fresh: "touches W A 0
      (rescue (ensure_fresh_with_budget_or_auth_error env account False remaining) (attribute_and_raise not_unauthorized account)) (\<lambda>_. True)"
    for remaining
    by (rule touches_rescue [where a = 0 and b = 0, OF touches_auth]) (simp_all add: assms(1) touches_attribute)
  have first: "touches W A 1 (chain (call_next account) (\<lambda>result. chain (emit (RecordSuccess account)) (\<lambda>_. ret (account, result)))) (\<lambda>r. A (fst r))"
    by (rule touches_chain [where a = 1 and b = 0, OF call]) (use assms(1) in \<open>auto intro!: touches_then touches_emit touches_ret\<close>)
  have again: "touches W A 1 (retry_after_refresh env deadline call_next account) (\<lambda>r. A (fst r))"
    using assms by (rule touches_retry_refresh)
  have report: "touches W A 1 (attribute_and_raise (\<lambda>_. True) account f) (\<lambda>r. A (fst r))" if "attributed A f" for f
    using touches_attribute [where Q = "\<lambda>_. False", OF assms(1) that] by (rule touches_weaken) simp_all
  show ?thesis
    unfolding call_failover_account_def
  proof (intro touches_then [OF touches_budget] touches_then [OF fresh] touches_rescue [where a = 1 and b = 1, OF first])
    fix e assume "attributed A e"
    then show "touches W A 1 (case e of
         ProxyResponse p \<Rightarrow>
           if pe_status p = 401 then retry_after_refresh env deadline call_next account else attribute_and_raise (\<lambda>_. True) account e
       | _ \<Rightarrow> fail_with e) (\<lambda>r. A (fst r))"
      using again report [of e] by (cases e) (auto intro: touches_fail)
  qed simp
qed

lemma touches_retry_previsible:
  assumes "A account" and call: "\<And>a. A a \<Longrightarrow> touches W A 1 (call_next a) (\<lambda>_. True)"
    and select: "strict \<noteq> Some account \<Longrightarrow> (\<And>ex. touches W A 0 (select_next ex) (\<lambda>sel. \<forall>a. pick_account sel = Some a \<longrightarrow> A a))"
  shows "touches W A 2 (retry_previsible_unary_call_failover env deadline select_next call_next strict e account)
    (\<lambda>r. \<forall>x. r = Some x \<longrightarrow> A (fst x))"
proof (cases "pe_failed_account e \<noteq> None \<or> \<not> should_failover_previsible_unary_proxy_error e \<or> strict = Some (failed_account_of e account)")
  case True
  then show ?thesis by (auto simp: retry_previsible_unary_call_failover_def intro!: touches_ret)
next
  case False
  then have own: "failed_account_of e account = account" "strict \<noteq> Some account" by (auto simp: failed_account_of_def default_def)
  have "touches W A 2 (chain (call_failover_account env deadline call_next a) (\<lambda>r. ret (Some r))) (\<lambda>r. \<forall>x. r = Some x \<longrightarrow> A (fst x))"
    if "A a" for a
    by (rule touches_chain [where a = 2 and b = 0, OF touches_failover_account [OF that call]]) (auto intro: touches_ret)
  then show ?thesis
    unfolding retry_previsible_unary_call_failover_def own if_not_P [OF False [unfolded own]]
    by (intro touches_chain [where a = 0 and b = 2, OF select [OF own(2)]])
      (auto intro!: assms(1) touches_then [OF touches_proxy_error] touches_ret split: option.split)
qed

lemma touches_files_select:
  "touches W A 0 (select_account_with_budget env st deadline (files_options scope exclude preferred (preferred = None)))
     (\<lambda>sel. \<forall>a. pick_account sel = Some a \<longrightarrow> files_allowed scope preferred a)"
  by (rule touches_weaken [OF touches_select]) (auto simp: selects_well_def files_options_def files_allowed_def)

lemma touches_files_failover:
  assumes "files_allowed scope preferred account" and "preferred \<noteq> Some account"
  shows "touches W A 0 (select_files_failover env st deadline scope preferred ex) (\<lambda>sel. \<forall>a. pick_account sel = Some a \<longrightarrow> files_allowed scope preferred a)"
proof -
  have "preferred = None" using assms by (simp add: files_allowed_def)
  then show ?thesis using touches_files_select [of A st deadline scope ex None] by (simp add: select_files_failover_def)
qed

lemma touches_files_fresh:
  assumes "files_allowed scope preferred account"
  shows "touches W (files_allowed scope preferred) 0
    (ensure_previsible_unary_fresh_with_failover env deadline (select_files_failover env st deadline scope preferred) preferred force account)
    (files_allowed scope preferred)"
  unfolding ensure_previsible_unary_fresh_with_failover_def
  by (rule touches_loop) (use assms touches_files_failover [OF assms] in \<open>auto simp: files_allowed_def\<close>)

lemma touches_last_account:
  assumes "attributed (files_allowed scope preferred) (ProxyResponse e)"
  shows "touches W (files_allowed scope preferred) 1 (files_last_account env st deadline scope preferred account e)
    (\<lambda>r. files_allowed scope preferred (snd r))"
proof -
  let ?A = "files_allowed scope preferred"
  have call: "touches W ?A 1 (rescue (chain (files_call env deadline a) (succeed a)) (\<lambda>f.
      case f of ProxyResponse p \<Rightarrow> chain (handle_proxy_error a p) (\<lambda>_. fail_with f) | _ \<Rightarrow> fail_with f)) (\<lambda>r. ?A (snd r))"
    if "?A a" for a
    by (rule touches_rescue [where a = 1 and b = 0, OF touches_call_succeed]) (simp_all add: that touches_report)
  show ?thesis
    unfolding files_last_account_def
    by (rule touches_chain [where a = 0 and b = 1, OF touches_files_select])
      (use assms in \<open>auto simp del: One_nat_def split: option.split
        intro!: touches_fail touches_then [OF touches_budget] touches_then [OF touches_auth] call\<close>)
qed

lemma touches_after_unauthorized:
  assumes "files_allowed scope preferred account" and "attributed (files_allowed scope preferred) (ProxyResponse e)"
  shows "touches W (files_allowed scope preferred) 2 (files_after_unauthorized env st deadline scope preferred account e)
    (\<lambda>r. files_allowed scope preferred (snd r))"
proof -
  let ?A = "files_allowed scope preferred"
  have forced: "touches W ?A 0 (rescue
      (ensure_previsible_unary_fresh_with_failover env deadline (select_files_failover env st deadline scope preferred) preferred True account)
      (\<lambda>f. case f of
         ProxyResponse p \<Rightarrow> chain (handle_proxy_error (failed_account_of p account) p) (\<lambda>_. fail_with f)
       | _ \<Rightarrow> fail_with f)) ?A"
    by (rule touches_rescue [where a = 0 and b = 0, OF touches_files_fresh [OF assms(1)]]) (simp_all add: assms(1) touches_report_failed)
  have last_try: "touches W ?A 1 (case f of
        ProxyResponse p \<Rightarrow>
          chain (handle_proxy_error a p) (\<lambda>_. if pe_status p = 401 then files_last_account env st deadline scope preferred a p else fail_with f)
      | _ \<Rightarrow> fail_with f) (\<lambda>r. ?A (snd r))" if "?A a" "attributed ?A f" for a f
    using that touches_last_account by (cases f) (auto intro!: touches_then [OF touches_proxy_error] touches_fail)
  have call: "touches W ?A 2 (rescue (chain (files_call env deadline a) (succeed a)) (\<lambda>f. case f of
        ProxyResponse p \<Rightarrow>
          chain (handle_proxy_error a p) (\<lambda>_. if pe_status p = 401 then files_last_account env st deadline scope preferred a p else fail_with f)
      | _ \<Rightarrow> fail_with f)) (\<lambda>r. ?A (snd r))" if "?A a" for a
    by (rule touches_rescue [where a = 1 and b = 1, OF touches_call_succeed [where A = ?A, OF that] last_try [OF that]]) simp_all
  have budgeted: "touches W ?A 0 (chain (remaining_budget env deadline) (\<lambda>remaining.
      if remaining \<le> 0 then fail_with (ProxyResponse budget_exhausted) else m)) ?A" if "touches W ?A 0 m ?A" for m
    using that by (auto intro!: touches_then [OF touches_budget] touches_fail)
  have give_up: "touches W ?A 0 (case f of
        RefreshFailed r failed \<Rightarrow> chain (mark_if_permanent r (default failed account)) (\<lambda>_. fail_with (ProxyResponse e))
      | ConnectFailed m \<Rightarrow> fail_with (ProxyResponse (proxy_unavailable (timed_out_message m)))
      | _ \<Rightarrow> fail_with f) ?A" if "attributed ?A f" for f
    using that assms(1) touches_fail [OF assms(2)]
    by (cases f) (auto intro!: touches_then [OF touches_mark] intro: touches_fail simp: default_def split: option.splits)
  show ?thesis
    unfolding files_after_unauthorized_def
    by (rule touches_chain [where a = 0 and b = 2, OF touches_rescue [where a = 0 and b = 0, OF budgeted [OF forced] give_up] call]) simp_all
qed

lemma touches_recover:
  assumes "files_allowed scope preferred account" and "attributed (files_allowed scope preferred) f"
  shows "touches W (files_allowed scope preferred) 2 (files_recover env st deadline scope preferred account f)
    (\<lambda>r. files_allowed scope preferred (snd r))"
proof (cases f)
  case (ProxyResponse e)
  let ?A = "files_allowed scope preferred"
  have e: "attributed ?A (ProxyResponse e)" using assms(2) ProxyResponse by simp
  have "touches W ?A 2 (chain
        (retry_previsible_unary_call_failover env deadline (select_files_failover env st deadline scope preferred) (files_call env deadline)
          preferred e account) (\<lambda>r.
          case r of
            Some (a, result) \<Rightarrow> ret (result, a)
          | None \<Rightarrow> chain (handle_proxy_error (failed_account_of e account) e) (\<lambda>_. fail_with f))) (\<lambda>r. ?A (snd r))"
    by (rule touches_chain [where a = 2 and b = 0, OF touches_retry_previsible [OF assms(1) touches_files_call touches_files_failover [OF assms(1)]]])
      (use failed_account_of_attributed [OF e assms(1)] assms(2) in
        \<open>auto split: option.split intro!: touches_ret touches_then [OF touches_proxy_error] touches_fail\<close>)
  then show ?thesis
    using touches_after_unauthorized [OF assms(1) e] unfolding files_recover_def ProxyResponse by simp
next
  case (RefreshFailed r failed)
  then show ?thesis
    using assms by (auto simp: files_recover_def default_def intro!: touches_then [OF touches_mark] touches_fail split: option.splits)
qed (simp_all add: files_recover_def touches_fail)

lemma touches_files_attempt:
  assumes "files_allowed scope preferred account"
  shows "touches W (files_allowed scope preferred) 3 (files_attempt env st deadline scope preferred account)
    (\<lambda>r. files_allowed scope preferred (snd r))"
proof -
  have call: "touches W (files_allowed scope preferred) 3
      (rescue (chain (files_call env deadline a) (succeed a)) (files_recover env st deadline scope preferred a))
      (\<lambda>r. files_allowed scope preferred (snd r))" if "files_allowed scope preferred a" for a
    by (rule touches_rescue [where a = 1 and b = 2, OF touches_call_succeed [where A = "files_allowed scope preferred", OF that] touches_recover [OF that]]) simp_all
  have "touches W (files_allowed scope preferred) 3 (files_recover env st deadline scope preferred account f) (\<lambda>r. files_allowed scope preferred (snd r))"
    if "attributed (files_allowed scope preferred) f" for f
    using touches_recover [OF assms that] by (rule touches_weaken) simp_all
  then show ?thesis
    unfolding files_attempt_branch
    by (intro touches_branch [where a = 0 and b = 3, OF touches_files_fresh [OF assms]]) (simp_all add: call)
qed

lemma touches_proxy_files_call: "touches W (files_allowed scope preferred) 3 (proxy_files_call env st deadline scope preferred) (\<lambda>r. files_allowed scope preferred (snd r))"
proof -
  let ?A = "files_allowed scope preferred"
  have "touches W ?A 3 (chain (select_account_with_budget env st deadline (files_options scope [] preferred (preferred = None))) (\<lambda>sel.
         case pick_account sel of
           None \<Rightarrow>
             fail_with (ProxyResponse (proxy_response 503 (unary_openai_error (default (nonempty_str (pick_error_code sel)) ''no_accounts'')
               (default (nonempty_str (pick_error_message sel)) ''No active accounts available'') ''server_error'')))
         | Some account \<Rightarrow> files_attempt env st deadline scope preferred account)) (\<lambda>r. ?A (snd r))"
    by (rule touches_chain [where a = 0 and b = 3, OF touches_files_select])
      (auto split: option.split intro!: touches_fail touches_files_attempt)
  then show ?thesis
    unfolding proxy_files_call_def
    by (rule touches_rescue [where a = 3 and b = 0]) (auto split: unary_failure.split intro!: touches_fail)
qed

end

section \<open>A success is credited\<close>

text \<open>When the action returns \<open>x\<close> for an account \<open>who x\<close>, the success of that account is the last thing recorded.\<close>

definition credited :: "('a \<Rightarrow> string option) \<Rightarrow> ('w, 'a) action \<Rightarrow> bool" where
  "credited who m \<longleftrightarrow>
     (\<forall>s x s' a. m s = (Inr x, s') \<longrightarrow> who x = Some a \<longrightarrow> us_log s' \<noteq> [] \<and> last (us_log s') = RecordSuccess a)"

lemma credited_fail [simp]: "credited who (fail_with e)"
  by (simp add: credited_def fail_with_def)

lemma credited_none: "who x = None \<Longrightarrow> credited who (ret x)"
  by (simp add: credited_def ret_def)

lemma credited_record [simp]:
  "credited (\<lambda>r. Some (snd r)) (succeed account result)" "credited (\<lambda>r. Some (fst r)) (chain (emit (RecordSuccess account)) (\<lambda>_. ret (account, result)))"
  by (simp_all add: credited_def succeed_def chain_def emit_def ret_def)

lemma credited_chain: "(\<And>x. credited who (f x)) \<Longrightarrow> credited who (chain m f)"
  unfolding credited_def by (auto simp: chain_def split: prod.splits sum.splits)

lemma credited_rescue: "credited who m \<Longrightarrow> (\<And>e. credited who (h e)) \<Longrightarrow> credited who (rescue m h)"
  unfolding credited_def by (auto simp: rescue_def split: prod.splits sum.splits)

lemma credited_branch: "(\<And>x. credited who (f x)) \<Longrightarrow> (\<And>e. credited who (h e)) \<Longrightarrow> credited who (branch m h f)"
  unfolding credited_def by (auto simp: branch_def split: prod.splits sum.splits)

text \<open>The credit passes through when the result is only repackaged.\<close>

lemma credited_pass:
  assumes "credited who m" and "\<And>x. (\<exists>y. f x = ret y \<and> who' y = who x) \<or> credited who' (f x)"
  shows "credited who' (chain m f)"
  unfolding credited_def
proof (intro allI impI)
  fix s y s' a assume run: "chain m f s = (Inr y, s')" and a: "who' y = Some a"
  then obtain x s1 where m: "m s = (Inr x, s1)" and f: "f x s1 = (Inr y, s')"
    by (auto simp: chain_def split: prod.splits sum.splits)
  show "us_log s' \<noteq> [] \<and> last (us_log s') = RecordSuccess a"
  proof (cases "credited who' (f x)")
    case True
    then show ?thesis using f a unfolding credited_def by blast
  next
    case False
    then obtain z where "f x = ret z" "who' z = who x" using assms(2) by blast
    then have "who x = Some a" "s1 = s'" using f a by (auto simp: ret_def)
    then show ?thesis using assms(1) m unfolding credited_def by blast
  qed
qed

lemma credited_failover_account: "credited (\<lambda>r. Some (fst r)) (call_failover_account env deadline call_next account)"
proof -
  have "credited (\<lambda>r. Some (fst r)) (attribute_and_raise report a e)" for report a e
    by (auto simp: attribute_and_raise_def Let_def intro!: credited_chain split: unary_failure.split)
  moreover have call: "credited (\<lambda>r. Some (fst r)) (chain m (\<lambda>result. chain (emit (RecordSuccess account)) (\<lambda>_. ret (account, result))))" for m
    by (rule credited_chain) simp
  moreover from this have "credited (\<lambda>r. Some (fst r)) (retry_after_refresh env deadline call_next account)"
    unfolding retry_after_refresh_def by (intro credited_chain) (auto intro: credited_chain)
  ultimately show ?thesis
    unfolding call_failover_account_def
    by - (rule credited_chain, rule credited_chain, rule credited_rescue [OF call], auto split: unary_failure.split)
qed

lemma credited_retry:
  "credited (map_option fst) (retry_previsible_unary_call_failover env deadline select_next call_next strict e account)"
proof -
  have "credited (map_option fst) (chain (call_failover_account env deadline call_next a) (\<lambda>r. ret (Some r)))" for a
    by (rule credited_pass [OF credited_failover_account]) auto
  then have "credited (map_option fst) (case pick_account sel of
      None \<Rightarrow> ret None
    | Some a \<Rightarrow> chain (handle_proxy_error failed e) (\<lambda>_. chain (call_failover_account env deadline call_next a) (\<lambda>r. ret (Some r))))" for sel failed
    by (cases "pick_account sel") (simp_all add: credited_none credited_chain)
  then show ?thesis
    unfolding retry_previsible_unary_call_failover_def by (auto intro!: credited_none credited_chain [of _ "\<lambda>sel. _ (pick_account sel)"])
qed

lemma credited_recover: "credited (\<lambda>r. Some (snd r)) (files_recover env st deadline scope preferred account f)"
proof -
  have last_account: "credited (\<lambda>r. Some (snd r)) (files_last_account env st deadline scope preferred a e)" for a e
    unfolding files_last_account_def by (auto intro!: credited_chain credited_rescue split: option.split unary_failure.split)
  have retried: "credited (\<lambda>r. Some (snd r)) (chain
      (retry_previsible_unary_call_failover env deadline (select_files_failover env st deadline scope preferred) (files_call env deadline)
        preferred e account) (\<lambda>r. case r of Some (a, result) \<Rightarrow> ret (result, a)
      | None \<Rightarrow> chain (handle_proxy_error (failed_account_of e account) e) (\<lambda>_. fail_with f)))" for e
    by (rule credited_pass [OF credited_retry]) (auto intro!: credited_chain split: option.split)
  have "credited (\<lambda>r. Some (snd r)) (files_after_unauthorized env st deadline scope preferred account e)" for e
    unfolding files_after_unauthorized_def by (auto intro!: credited_chain credited_rescue last_account split: unary_failure.split)
  then show ?thesis unfolding files_recover_def using retried by (auto intro: credited_chain split: unary_failure.split)
qed

lemma credited_proxy_files_call: "credited (\<lambda>r. Some (snd r)) (proxy_files_call env st deadline scope preferred)"
proof -
  have "credited (\<lambda>r. Some (snd r)) (files_attempt env st deadline scope preferred account)" for account
    unfolding files_attempt_branch by (auto intro!: credited_branch credited_rescue credited_chain credited_recover)
  then show ?thesis
    unfolding proxy_files_call_def by (auto intro!: credited_rescue credited_chain split: option.split unary_failure.split)
qed

end
