(* ===== verification/Selection.thy ===== *)
theory Selection
  imports Balancer
begin

text \<open>
  Correctness of account selection: every strategy meets the \<open>picker\<close> contract, so
  \<open>select_account\<close> returns for every input; what it returns satisfies the eligibility
  specification; the health tiers and routing policies rank the candidates; round robin is fair;
  the retry hint is bounded and can be read back by the parser.
\<close>

section \<open>Strategies are pickers\<close>

lemma py_choices_mem:
  assumes "length xs = length ws" and "0 < sum_list ws"
  shows "\<exists>x \<in> set xs. py_choices xs ws u = Inr x"
proof -
  have ne: "ws \<noteq> []" using assms(2) by auto
  then have ne': "accumulate 0 ws \<noteq> []" by (cases ws) auto
  let ?i = "bisect_right (accumulate 0 ws) (u * sum_list ws) 0 (length xs - 1)"
  have "?i \<le> length xs - 1"
    using bisect_right_spec [of 0 "length xs - 1"] by (simp add: Let_def)
  moreover have "0 < length xs" using ne assms(1) by simp
  ultimately have "?i < length xs" by linarith
  moreover have "py_choices xs ws u = Inr (xs ! ?i)"
    using assms ne' last_accumulate [OF ne, of 0] by (simp add: py_choices_def Let_def)
  ultimately show ?thesis by auto
qed

lemma remaining_secondary_credits_nonneg: "0 \<le> remaining_secondary_credits s"
  by (simp add: remaining_secondary_credits_def Let_def split: option.splits)

lemma select_capacity_weighted_mem: "xs \<noteq> [] \<Longrightarrow> \<exists>x \<in> set xs. select_capacity_weighted u xs = Inr x"
  using py_choices_mem [of xs "map remaining_secondary_credits xs" u]
    min_picker.pick_total [of xs usage_sort_key] min_picker.pick_mem [of usage_sort_key xs]
  by (auto simp: select_capacity_weighted_def Let_def)

lemma weighted_candidates_mem:
  assumes "(s, w, r) \<in> set (relative_availability_weighted_candidates xs c p k)"
  shows "s \<in> set xs" "0.1 \<le> w" "r = relative_availability_raw_score s c"
  using set_take_subset assms
  by (fastforce simp: relative_availability_weighted_candidates_def Let_def split: if_splits)+

lemma select_relative_availability_mem:
  assumes "xs \<noteq> []"
  shows "\<exists>x \<in> set xs. select_relative_availability u c p k d xs = Inr x"
proof -
  let ?w = "relative_availability_weighted_candidates xs c p k"
  have fallback: "\<exists>x \<in> set xs. py_min_by usage_sort_key xs = Inr x"
    using min_picker.pick_total [OF assms, of usage_sort_key] min_picker.pick_mem [of usage_sort_key xs] by blast
  have mem: "fst t \<in> set xs" if "t \<in> set ?w" for t
    using weighted_candidates_mem(1) [of "fst t" "fst (snd t)" "snd (snd t)" xs c p k] that by simp
  show ?thesis
  proof (cases ?w)
    case Nil
    then show ?thesis using fallback by (simp add: select_relative_availability_def)
  next
    case (Cons t ts)
    have t: "fst t \<in> set xs" using mem Cons by simp
    have choice: "\<exists>x \<in> fst ` set ?w. py_choices (map fst ?w) (map (fst \<circ> snd) ?w) u = Inr x"
      if "0 < sum_list (map (fst \<circ> snd) ?w)"
      using py_choices_mem [of "map fst ?w" "map (fst \<circ> snd) ?w" u] that by simp
    have eq: "select_relative_availability u c p k d xs =
        (if d then Inr (fst t) else if sum_list (map (fst \<circ> snd) ?w) \<le> 0 then py_min_by usage_sort_key xs
         else py_choices (map fst ?w) (map (fst \<circ> snd) ?w) u)"
      by (cases t) (simp add: select_relative_availability_def Let_def Cons)
    consider "d" | "\<not> d" "sum_list (map (fst \<circ> snd) ?w) \<le> 0" | "\<not> d" "0 < sum_list (map (fst \<circ> snd) ?w)"
      by linarith
    then show ?thesis
    proof cases
      case 1
      then show ?thesis unfolding eq using t by auto
    next
      case 2
      then show ?thesis unfolding eq using fallback by auto
    next
      case 3
      with choice obtain x where "x \<in> fst ` set ?w" and "py_choices (map fst ?w) (map (fst \<circ> snd) ?w) u = Inr x"
        by blast
      with 3 mem show ?thesis unfolding eq by auto
    qed
  qed
qed

lemma or_list_subset: "set (or_list xs ys) \<subseteq> set xs \<union> set ys"
  by (simp add: or_list_def)

lemma or_list_nonempty [simp]: "or_list xs ys = [] \<longleftrightarrow> xs = [] \<and> ys = []"
  by (simp add: or_list_def)

lemma health_pool_subset: "set (health_pool xs) \<subseteq> set xs"
  by (auto simp: health_pool_def or_list_def Let_def)

lemma effective_pool_subset: "set (effective_pool xs) \<subseteq> set xs"
  using health_pool_subset [of xs] by (auto simp: effective_pool_def or_list_def Let_def)

lemma health_pool_nonempty: "xs \<noteq> [] \<Longrightarrow> health_pool xs \<noteq> []"
  by (simp add: health_pool_def Let_def)

lemma effective_pool_nonempty: "xs \<noteq> [] \<Longrightarrow> effective_pool xs \<noteq> []"
  using health_pool_nonempty by (simp add: effective_pool_def Let_def)

text \<open>Keeping the elements with the least value of a measure keeps at least one.\<close>

lemma filter_min_nonempty:
  assumes "xs \<noteq> []"
  shows "\<exists>m. py_min_by id (map f xs) = Inr m \<and> filter (\<lambda>s. f s = m) xs \<noteq> []"
proof -
  obtain m where m: "py_min_by id (map f xs) = Inr m"
    using py_min_by_total [of "map f xs" id] assms by auto
  then have "m \<in> f ` set xs" using py_min_by_mem by fastforce
  with m show ?thesis by (auto simp: filter_empty_conv)
qed

text \<open>A restriction of a candidate list that cannot fail or become empty.\<close>

locale restriction =
  fixes restrict :: "'a list \<Rightarrow> py_error + 'a list"
  assumes restrict_ok: "xs \<noteq> [] \<Longrightarrow> \<exists>ys. restrict xs = Inr ys \<and> ys \<noteq> [] \<and> set ys \<subseteq> set xs"
begin

lemma restrict_then_pick:
  assumes "xs \<noteq> []" and "\<And>ys. ys \<noteq> [] \<Longrightarrow> \<exists>x \<in> set ys. pick ys = Inr x"
  shows "\<exists>x \<in> set xs. (case restrict xs of Inl e \<Rightarrow> Inl e | Inr ys \<Rightarrow> pick ys) = Inr x"
proof -
  obtain ys where ys: "restrict xs = Inr ys" "ys \<noteq> []" "set ys \<subseteq> set xs"
    using restrict_ok [OF assms(1)] by blast
  then show ?thesis using assms(2) [OF ys(2)] by auto
qed

end

interpretation earlier_reset: restriction "\<lambda>xs. prefer_earlier_reset_candidates xs c w" for c w
proof
  fix xs :: "account_state list"
  assume "xs \<noteq> []"
  from filter_min_nonempty [OF this, of "\<lambda>s. reset_preference_bucket s c w"]
  show "\<exists>ys. prefer_earlier_reset_candidates xs c w = Inr ys \<and> ys \<noteq> [] \<and> set ys \<subseteq> set xs"
    by (auto simp: prefer_earlier_reset_candidates_def)
qed

interpretation lowest_cost: restriction "\<lambda>xs. lowest_planner_cost_candidates xs rc" for rc
proof
  fix xs :: "account_state list"
  assume "xs \<noteq> []"
  from filter_min_nonempty [OF this, of "\<lambda>s. planner_cost s rc"] \<open>xs \<noteq> []\<close>
  show "\<exists>ys. lowest_planner_cost_candidates xs rc = Inr ys \<and> ys \<noteq> [] \<and> set ys \<subseteq> set xs"
    by (cases rc rule: option.exhaust; cases "the rc") (auto simp: lowest_planner_cost_candidates_def)
qed

interpretation reset_pool: restriction "reset_pool opts c" for opts c
  by unfold_locales (auto simp: reset_pool_def intro: earlier_reset.restrict_ok)

lemma py_min_by_some: "xs \<noteq> [] \<Longrightarrow> \<exists>x \<in> set xs. py_min_by key xs = Inr x"
  using py_min_by_total [of xs key] py_min_by_mem [of key xs] by blast

lemma select_usage_weighted_mem: "xs \<noteq> [] \<Longrightarrow> \<exists>x \<in> set xs. select_usage_weighted opts c xs = Inr x"
  unfolding select_usage_weighted_def Let_def by (split if_split | intro conjI impI py_min_by_some | assumption)+

text \<open>The strategies that look at health tiers and routing policies choose from the effective pool.\<close>

abbreviation ranks_by_health :: "RoutingStrategy \<Rightarrow> bool" where
  "ranks_by_health st \<equiv> st \<notin> {Single_account, Sequential_drain, Reset_drain}"

lemma pick_by_strategy_pool:
  assumes "xs \<noteq> []"
  shows "\<exists>x \<in> set (if ranks_by_health (so_routing_strategy opts) then effective_pool xs else xs).
    pick_by_strategy env opts c xs = Inr x"
proof -
  note ne = effective_pool_nonempty [OF assms]
  show ?thesis
  proof (cases "so_routing_strategy opts")
    case Capacity_weighted
    have "\<exists>x \<in> set ys. (if so_deterministic_probe opts
        then py_min_by (capacity_probe_sort_key_with_cost (so_routing_costs opts)) ys
        else (case lowest_planner_cost_candidates ys (so_routing_costs opts) of
          Inl e \<Rightarrow> Inl e | Inr pool \<Rightarrow> select_capacity_weighted (env_random env) pool)) = Inr x"
      if "ys \<noteq> []" for ys
      using py_min_by_some [OF that] lowest_cost.restrict_then_pick [OF that select_capacity_weighted_mem]
      by (cases "so_deterministic_probe opts") simp_all
    from reset_pool.restrict_then_pick [OF ne this] show ?thesis
      by (simp add: pick_by_strategy_def Capacity_weighted)
  next
    case Relative_availability
    from lowest_cost.restrict_then_pick [OF ne select_relative_availability_mem] show ?thesis
      by (simp add: pick_by_strategy_def Relative_availability)
  next
    case Fill_first
    from reset_pool.restrict_then_pick [OF ne, of select_fill_first] show ?thesis
      by (simp add: pick_by_strategy_def Fill_first select_fill_first_def py_min_by_some)
  qed (simp_all add: pick_by_strategy_def py_min_by_some ne assms select_usage_weighted_mem)
qed

interpretation strategy: picker "pick_by_strategy env opts c" for env opts c
proof
  fix xs :: "account_state list"
  assume "xs \<noteq> []"
  then show "\<exists>x. pick_by_strategy env opts c xs = Inr x" using pick_by_strategy_pool by blast
next
  fix xs :: "account_state list" and x
  assume x: "pick_by_strategy env opts c xs = Inr x"
  have "pick_by_strategy env opts c [] = Inl ValueError"
    by (cases "so_routing_strategy opts")
      (auto simp: pick_by_strategy_def effective_pool_def health_pool_def or_list_def reset_pool_def
        prefer_earlier_reset_candidates_def lowest_planner_cost_candidates_def select_fill_first_def
        select_capacity_weighted_def select_usage_weighted_def select_relative_availability_def
        relative_availability_weighted_candidates_def Let_def
        split: option.splits list.splits)
  with x have "xs \<noteq> []" by auto
  from pick_by_strategy_pool [OF this, of opts env c] x show "x \<in> set xs"
    using effective_pool_subset by (auto split: if_splits)
qed

section \<open>Eligibility\<close>

lemmas refresh_defs = refresh_state_def recover_rate_limited_def recover_quota_exceeded_def
  clear_cooldown_def check_error_backoff_def

abbreviation blocked_status :: "AccountStatus \<Rightarrow> bool" where
  "blocked_status st \<equiv> st \<in> {RATE_LIMITED, QUOTA_EXCEEDED}"

text \<open>
  The specification of an account that may be given traffic: not withdrawn by an operator or by a
  failed login, not blocked by a quota (unless the request bypasses it), not cooling down.
\<close>

definition cooling :: "real \<Rightarrow> account_state \<Rightarrow> bool" where
  "cooling current s \<longleftrightarrow> truthy (st_cooldown_until s) \<and> current < the (st_cooldown_until s)"

definition serviceable :: "real \<Rightarrow> bool \<Rightarrow> account_state \<Rightarrow> bool" where
  "serviceable current bypass s \<longleftrightarrow>
     \<not> terminal_status (st_status s) \<and> (blocked_status (st_status s) \<longrightarrow> bypass) \<and> \<not> cooling current s"

text \<open>When an account, as it stands, is ready for traffic once expired marks are cleared.\<close>

definition block_expired :: "real \<Rightarrow> account_state \<Rightarrow> bool" where
  "block_expired current s \<longleftrightarrow> truthy (st_reset_at s) \<and> the (st_reset_at s) \<le> current"

definition cooldown_expired :: "real \<Rightarrow> account_state \<Rightarrow> bool" where
  "cooldown_expired current s \<longleftrightarrow> truthy (st_cooldown_until s) \<and> the (st_cooldown_until s) \<le> current"

definition backing_off :: "real \<Rightarrow> account_state \<Rightarrow> bool" where
  "backing_off current s \<longleftrightarrow> st_error_count s \<ge> 3 \<and> truthy (st_last_error_at s) \<and>
     current - the (st_last_error_at s) < of_int (error_backoff (st_error_count s))"

definition ready :: "real \<Rightarrow> bool \<Rightarrow> account_state \<Rightarrow> bool" where
  "ready current bypass s \<longleftrightarrow>
     \<not> terminal_status (st_status s) \<and>
     (blocked_status (st_status s) \<longrightarrow> block_expired current s \<or> bypass) \<and>
     \<not> cooling current s \<and>
     (backing_off current s \<longrightarrow> cooldown_expired current s \<or>
        (st_status s = RATE_LIMITED \<and> block_expired current s))"

lemmas ready_defs = ready_def block_expired_def cooldown_expired_def backing_off_def cooling_def

lemma refresh_state_id [simp]: "st_account_id (fst (refresh_state c b s)) = st_account_id s"
  by (simp add: refresh_defs Let_def)

lemma refresh_state_ignore [simp]:
  "st_ignore_standard_quota (fst (refresh_state c b s)) = st_ignore_standard_quota s"
  by (simp add: refresh_defs Let_def)

lemma bypass_refresh [simp]:
  "bypass_standard_quota opts (fst (refresh_state c b s)) = bypass_standard_quota opts s"
  by (simp add: bypass_standard_quota_def split: option.split)

lemma refresh_serviceable: "snd (refresh_state c b s) \<noteq> Skip \<Longrightarrow> serviceable c b (fst (refresh_state c b s))"
  by (auto simp: refresh_defs serviceable_def cooling_def Let_def split: if_splits)

lemma refresh_available_errors: "snd (refresh_state c b s) = Available \<Longrightarrow> st_error_count (fst (refresh_state c b s)) < 3"
  by (auto simp: refresh_defs Let_def split: if_splits)

lemma refresh_ready_iff: "snd (refresh_state c b s) = Available \<longleftrightarrow> ready c b s"
  by (cases "st_status s") (auto simp: refresh_defs ready_defs Let_def)

text \<open>The last two stages of the pass, and the whole pass in terms of them.\<close>

definition refresh_errors :: "real \<Rightarrow> account_state \<Rightarrow> account_state \<times> verdict" where
  "refresh_errors c s =
     (let s = clear_cooldown c s in if cooling c s then (s, Skip) else check_error_backoff c s)"

lemma refresh_errors_frame [simp]:
  "st_status (fst (refresh_errors c s)) = st_status s"
  "st_reset_at (fst (refresh_errors c s)) = st_reset_at s"
  by (simp_all add: refresh_errors_def clear_cooldown_def check_error_backoff_def Let_def)

lemma refresh_errors_idem [simp]: "refresh_errors c (fst (refresh_errors c s)) = refresh_errors c s"
proof (cases "cooldown_expired c s")
  case True
  then have "refresh_errors c s =
      (s\<lparr>st_cooldown_until := None, st_last_error_at := None, st_error_count := 0\<rparr>, Available)"
    by (simp add: refresh_errors_def clear_cooldown_def cooldown_expired_def check_error_backoff_def cooling_def)
  then show ?thesis
    by (simp add: refresh_errors_def clear_cooldown_def check_error_backoff_def cooling_def)
next
  case False
  then have eq: "clear_cooldown c s = s" by (auto simp: clear_cooldown_def cooldown_expired_def)
  show ?thesis
  proof (cases "cooling c s \<or> backing_off c s \<or> st_error_count s < 3")
    case True
    then have "fst (refresh_errors c s) = s"
      by (auto simp: refresh_errors_def eq check_error_backoff_def backing_off_def)
    then show ?thesis by simp
  next
    case notbusy: False
    let ?s = "s\<lparr>st_error_count := 0, st_last_error_at := None\<rparr>"
    have "refresh_errors c s = (?s, Available)"
      using notbusy by (auto simp: refresh_errors_def eq check_error_backoff_def backing_off_def)
    moreover have "clear_cooldown c ?s = ?s" "\<not> cooling c ?s"
      using notbusy False by (auto simp: clear_cooldown_def cooldown_expired_def cooling_def)
    ultimately show ?thesis by (simp add: refresh_errors_def check_error_backoff_def)
  qed
qed

lemma refresh_state_eq:
  "refresh_state c b s =
     (if terminal_status (st_status s) then (s, Skip)
      else if blocked_status (st_status s) \<and> \<not> block_expired c s then
        (if b then refresh_errors c s else (s, Skip))
      else if st_status s = RATE_LIMITED then
        refresh_errors c (s\<lparr>st_status := ACTIVE, st_used_percent := Some 0, st_error_count := 0, st_reset_at := None\<rparr>)
      else if st_status s = QUOTA_EXCEEDED then
        refresh_errors c (s\<lparr>st_status := ACTIVE, st_used_percent := Some 0, st_secondary_used_percent := Some 0,
          st_reset_at := None\<rparr>)
      else refresh_errors c s)"
  by (cases "st_status s") (auto simp: refresh_defs refresh_errors_def block_expired_def cooling_def Let_def)

text \<open>
  Clearing expired marks is idempotent: running the eligibility pass twice at the same time
  changes nothing and gives the same verdict, so a retried selection sees the same pool.
\<close>

theorem refresh_state_idempotent:
  "refresh_state c b (fst (refresh_state c b s)) = refresh_state c b s"
proof -
  have frame: "block_expired c (fst (refresh_errors c x)) = block_expired c x" for x
    by (simp add: block_expired_def)
  show ?thesis by (cases "st_status s") (simp_all add: refresh_state_eq frame)
qed

section \<open>Soundness and completeness of the selection\<close>

lemma filter_opportunistic_subset:
  "filter_opportunistic_candidates xs c = (ys, r) \<Longrightarrow> s \<in> set ys \<Longrightarrow> s \<in> set xs \<and> opportunistic_ok xs c s"
  by (auto simp: filter_opportunistic_candidates_def Let_def split: if_splits)

lemma opportunistic_gate_Inr:
  assumes "opportunistic_gate opts c xs = Inr ys" and "xs \<noteq> []"
  shows "set ys \<subseteq> set xs \<and> ys \<noteq> [] \<and>
    (so_traffic_class opts = Opportunistic \<longrightarrow> (\<forall>s \<in> set ys. opportunistic_ok xs c s))"
  using assms filter_opportunistic_subset [of xs c]
  by (auto simp: opportunistic_gate_def split: if_splits prod.splits list.splits)

lemma opportunistic_gate_Inl: "opportunistic_gate opts c xs = Inl r \<Longrightarrow> \<exists>m. r = selection_error m"
  by (auto simp: opportunistic_gate_def split: if_splits prod.splits list.splits)

lemma selection_candidates_cases:
  assumes "selection_candidates opts c alls avail backoff = Inr ys"
  shows "ys \<noteq> [] \<and> (set ys \<subseteq> set avail \<or>
    (avail = [] \<and> so_allow_backoff_fallback opts \<and> set ys \<subseteq> set backoff))"
proof (cases "avail = []")
  case False
  then show ?thesis using assms opportunistic_gate_Inr by (simp add: selection_candidates_def)
next
  case True
  then have ne: "backoff \<noteq> []" and al: "so_allow_backoff_fallback opts"
    using assms by (auto simp: selection_candidates_def split: if_splits)
  obtain s where s: "py_min_by backoff_expires_at backoff = Inr s" "s \<in> set backoff"
    using py_min_by_some [OF ne] by blast
  then have "opportunistic_gate opts c [s] = Inr ys"
    using True assms by (auto simp: selection_candidates_def split: if_splits)
  then show ?thesis using opportunistic_gate_Inr [of opts c "[s]"] s True al by auto
qed

lemma selection_candidates_Inl:
  "selection_candidates opts c alls avail backoff = Inl r \<Longrightarrow> \<exists>m. r = selection_error m"
  by (auto simp: selection_candidates_def dest: opportunistic_gate_Inl split: if_splits sum.splits)

text \<open>The pools \<open>select_account\<close> builds.\<close>

definition pool_of :: "verdict \<Rightarrow> real \<Rightarrow> select_opts \<Rightarrow> account_state list \<Rightarrow> account_state list" where
  "pool_of v c opts states = map fst (filter (\<lambda>r. snd r = v)
     (map (\<lambda>s. refresh_state c (bypass_standard_quota opts s) s) states))"

definition refreshed_states :: "real \<Rightarrow> select_opts \<Rightarrow> account_state list \<Rightarrow> account_state list" where
  "refreshed_states c opts states =
     map (\<lambda>s. fst (refresh_state c (bypass_standard_quota opts s) s)) states"

lemma select_account_unfold:
  "select_account env opts now states =
     (let c = current_time env now
      in (refreshed_states c opts states,
          case selection_candidates opts c (refreshed_states c opts states)
                 (pool_of Available c opts states) (pool_of InBackoff c opts states) of
            Inl returned \<Rightarrow> Inr returned
          | Inr candidates \<Rightarrow>
              (case pick_by_strategy env opts c candidates of
                 Inl e \<Rightarrow> Inl e | Inr s \<Rightarrow> Inr (selected_account s))))"
  by (simp add: select_account_def pool_of_def refreshed_states_def Let_def comp_def)

lemma pool_of_mem:
  assumes "s \<in> set (pool_of v c opts states)"
  obtains s0 where "s0 \<in> set states" and "s = fst (refresh_state c (bypass_standard_quota opts s0) s0)"
    and "snd (refresh_state c (bypass_standard_quota opts s0) s0) = v"
  using assms by (auto simp: pool_of_def)

lemma pool_of_refreshed: "set (pool_of v c opts states) \<subseteq> set (refreshed_states c opts states)"
  by (auto simp: pool_of_def refreshed_states_def)

lemma pool_of_serviceable:
  assumes "s \<in> set (pool_of v c opts states)" and "v \<noteq> Skip"
  shows "serviceable c (bypass_standard_quota opts s) s"
  using assms by (auto elim!: pool_of_mem intro: refresh_serviceable)

lemma selected_account_simps [simp]:
  "sel_account (selected_account s) = Some s" "sel_error_message (selected_account s) = None"
  "sel_account (selection_error m) = None" "sel_error_message (selection_error m) = Some m"
  by (simp_all add: selected_account_def selection_error_def)

lemma select_account_selected:
  assumes "select_account env opts now states = (states', Inr res)" and "sel_account res = Some s"
  obtains cands where "selection_candidates opts (current_time env now) states'
      (pool_of Available (current_time env now) opts states)
      (pool_of InBackoff (current_time env now) opts states) = Inr cands"
    and "pick_by_strategy env opts (current_time env now) cands = Inr s"
    and "states' = refreshed_states (current_time env now) opts states"
    and "res = selected_account s"
  using assms selection_candidates_Inl
  by (fastforce simp: select_account_unfold Let_def split: sum.splits)

lemma selection_returns:
  "\<exists>res. snd (select_account env opts now states) = Inr res \<and>
     ((\<exists>s. res = selected_account s) \<or> (\<exists>m. res = selection_error m))"
proof -
  let ?c = "current_time env now"
  let ?sel = "selection_candidates opts ?c (refreshed_states ?c opts states)
    (pool_of Available ?c opts states) (pool_of InBackoff ?c opts states)"
  show ?thesis
  proof (cases ?sel)
    case (Inl r)
    then show ?thesis using selection_candidates_Inl [OF Inl]
      by (simp add: select_account_unfold Let_def)
  next
    case (Inr cands)
    then have "cands \<noteq> []" using selection_candidates_cases by blast
    then obtain s where "pick_by_strategy env opts ?c cands = Inr s"
      using strategy.pick_total by blast
    then show ?thesis using Inr by (auto simp: select_account_unfold Let_def)
  qed
qed

text \<open>
  Selection always returns: for every list of accounts, every option and every clock or
  random value, \<open>select_account\<close> raises nothing and yields either an account and no message or a
  message and no account.
\<close>

theorem select_account_returns:
  "\<exists>res. snd (select_account env opts now states) = Inr res \<and>
     ((\<exists>s. res = selected_account s) \<or> (\<exists>m. res = selection_error m))"
  by (rule selection_returns)

lemma selection_sound:
  assumes "select_account env opts now states = (states', Inr res)" and "sel_account res = Some s"
  shows "s \<in> set states' \<and> sel_error_message res = None \<and>
    serviceable (current_time env now) (bypass_standard_quota opts s) s \<and>
    (st_error_count s < 3 \<or>
     (so_allow_backoff_fallback opts \<and>
      (\<forall>s0 \<in> set states. \<not> ready (current_time env now) (bypass_standard_quota opts s0) s0)))"
proof -
  let ?c = "current_time env now"
  obtain cands where cands: "selection_candidates opts ?c states'
      (pool_of Available ?c opts states) (pool_of InBackoff ?c opts states) = Inr cands"
    and pick: "pick_by_strategy env opts ?c cands = Inr s"
    and st': "states' = refreshed_states ?c opts states" and res: "res = selected_account s"
    by (rule select_account_selected [OF assms])
  have s: "s \<in> set cands" using strategy.pick_mem [OF pick] .
  from selection_candidates_cases [OF cands] consider
      (avail) "s \<in> set (pool_of Available ?c opts states)"
    | (backoff) "pool_of Available ?c opts states = []" "so_allow_backoff_fallback opts"
        "s \<in> set (pool_of InBackoff ?c opts states)"
    using s by blast
  then show ?thesis
  proof cases
    case avail
    then have "st_error_count s < 3" by (auto elim!: pool_of_mem dest: refresh_available_errors)
    then show ?thesis using pool_of_serviceable [OF avail] subsetD [OF pool_of_refreshed avail] st' res
      by auto
  next
    case backoff
    then have "\<forall>s0 \<in> set states. \<not> ready ?c (bypass_standard_quota opts s0) s0"
      by (auto simp: pool_of_def filter_empty_conv refresh_ready_iff)
    then show ?thesis
      using pool_of_serviceable [OF backoff(3)] subsetD [OF pool_of_refreshed backoff(3)] st' res backoff
      by auto
  qed
qed

text \<open>
  C1: Selection is sound: a selected account is one of the given accounts after clearing its
  expired marks; it is not paused, deactivated or waiting for a login, it is not rate limited or
  over quota unless the request bypasses quotas for it, it is not cooling down, and it has fewer
  than three recorded errors, unless no account was ready and the error-backoff fallback is on.
\<close>

theorem select_account_sound:
  assumes "select_account env opts now states = (states', Inr res)" and "sel_account res = Some s"
  shows "s \<in> set states' \<and> sel_error_message res = None \<and>
    serviceable (current_time env now) (bypass_standard_quota opts s) s \<and>
    (st_error_count s < 3 \<or>
     (so_allow_backoff_fallback opts \<and>
      (\<forall>s0 \<in> set states. \<not> ready (current_time env now) (bypass_standard_quota opts s0) s0)))"
  using assms by (rule selection_sound)

text \<open>A concrete pool: a ready account and a paused one, selected by account id.\<close>

definition example_env :: selection_env where
  "example_env = \<lparr>env_time = 1000, env_random = 1/2, env_digest = (\<lambda>x. x)\<rparr>"

definition example_opts :: select_opts where
  "example_opts = default_opts\<lparr>so_routing_strategy := Single_account\<rparr>"

definition example_states :: "account_state list" where
  "example_states = [AccountState ''a'' PAUSED, AccountState ''b'' ACTIVE]"

lemmas example_defs = example_env_def example_opts_def example_states_def default_opts_def AccountState_def

lemma refresh_ACTIVE: "refresh_state c b (AccountState i ACTIVE) = (AccountState i ACTIVE, Available)"
  and refresh_PAUSED: "refresh_state c b (AccountState i PAUSED) = (AccountState i PAUSED, Skip)"
  by (simp_all add: refresh_defs AccountState_def)

lemma example_selection:
  "select_account example_env example_opts None example_states =
     (example_states, Inr (selected_account (AccountState ''b'' ACTIVE)))"
  by (simp add: select_account_def example_states_def refresh_ACTIVE refresh_PAUSED selection_candidates_def
      opportunistic_gate_def pick_by_strategy_def example_opts_def default_opts_def)

theorem select_account_sound_witness:
  "AccountState ''b'' ACTIVE \<in> set example_states \<and>
   serviceable (current_time example_env None) (bypass_standard_quota example_opts (AccountState ''b'' ACTIVE))
     (AccountState ''b'' ACTIVE)"
  using select_account_sound [OF example_selection, of "AccountState ''b'' ACTIVE"] by simp

lemma selection_complete:
  assumes "so_traffic_class opts = Foreground" and "s0 \<in> set states"
    and "ready (current_time env now) (bypass_standard_quota opts s0) s0"
  shows "\<exists>s. snd (select_account env opts now states) = Inr (selected_account s) \<and> st_error_count s < 3"
proof -
  let ?c = "current_time env now"
  have ne: "pool_of Available ?c opts states \<noteq> []"
    using assms(2,3) by (auto simp: pool_of_def filter_empty_conv refresh_ready_iff)
  obtain s where s: "pick_by_strategy env opts ?c (pool_of Available ?c opts states) = Inr s"
    using strategy.pick_total [OF ne] by blast
  have "s \<in> set (pool_of Available ?c opts states)" using strategy.pick_mem [OF s] .
  then have "st_error_count s < 3" by (auto elim!: pool_of_mem dest: refresh_available_errors)
  moreover have "selection_candidates opts ?c (refreshed_states ?c opts states)
      (pool_of Available ?c opts states) (pool_of InBackoff ?c opts states) =
      Inr (pool_of Available ?c opts states)"
    using ne assms(1) by (simp add: selection_candidates_def opportunistic_gate_def)
  ultimately show ?thesis using s by (auto simp: select_account_unfold Let_def)
qed

text \<open>
  C25: Selection is complete: for foreground traffic, if some account is ready (it is usable now,
  or becomes so when its expired block, cooldown or error backoff is cleared), then an account is
  selected.
\<close>

theorem select_account_complete:
  assumes "so_traffic_class opts = Foreground" and "s0 \<in> set states"
    and "ready (current_time env now) (bypass_standard_quota opts s0) s0"
  shows "\<exists>s. snd (select_account env opts now states) = Inr (selected_account s) \<and> st_error_count s < 3"
  using assms by (rule selection_complete)

theorem select_account_complete_witness:
  "\<exists>s. snd (select_account example_env example_opts None example_states) = Inr (selected_account s) \<and>
     st_error_count s < 3"
  by (rule select_account_complete [of _ "AccountState ''b'' ACTIVE"])
    (simp_all add: ready_defs example_defs)

section \<open>The contract of a selector\<close>

text \<open>
  What the load balancer relies on when it calls a selection: it raises nothing and answers with an
  account or a message, it keeps the list of accounts (their states may be refreshed), and the
  account it answers with is one of them.
\<close>

locale selector =
  fixes select :: "account_state list \<Rightarrow> account_state list \<times> (py_error + selection_result)"
  assumes select_total: "\<exists>res. snd (select xs) = Inr res \<and>
      ((\<exists>s. res = selected_account s) \<or> (\<exists>m. res = selection_error m))"
    and select_ids: "map st_account_id (fst (select xs)) = map st_account_id xs"
    and select_mem: "snd (select xs) = Inr (selected_account s) \<Longrightarrow> s \<in> set (fst (select xs))"
begin

lemma select_cases:
  obtains (account) ys s where "select xs = (ys, Inr (selected_account s))" and "s \<in> set ys"
  | (message) ys m where "select xs = (ys, Inr (selection_error m))"
proof -
  obtain res where res: "snd (select xs) = Inr res"
    "(\<exists>s. res = selected_account s) \<or> (\<exists>m. res = selection_error m)"
    using select_total by blast
  then show ?thesis
    using select_mem[of xs] that by (metis prod.collapse)
qed

lemma select_length: "length (fst (select xs)) = length xs"
  using select_ids[of xs] by (metis length_map)

lemma selected_id: "snd (select xs) = Inr (selected_account s) \<Longrightarrow> st_account_id s \<in> st_account_id ` set xs"
  using select_mem[of xs s] select_ids[of xs] by (metis image_eqI list.set_map)

end

lemma refreshed_states_ids: "map st_account_id (refreshed_states c opts states) = map st_account_id states"
  by (simp add: refreshed_states_def)

interpretation plain_selector: selector "select_account env opts now" for env opts now
proof
  fix xs s
  show "\<exists>res. snd (select_account env opts now xs) = Inr res \<and>
      ((\<exists>s. res = selected_account s) \<or> (\<exists>m. res = selection_error m))"
    by (rule selection_returns)
  show "map st_account_id (fst (select_account env opts now xs)) = map st_account_id xs"
    by (simp add: select_account_unfold Let_def refreshed_states_ids)
  show "snd (select_account env opts now xs) = Inr (selected_account s) \<Longrightarrow> s \<in> set (fst (select_account env opts now xs))"
    using selection_sound[of env opts now xs "fst (select_account env opts now xs)" "selected_account s" s]
    by (metis prod.collapse selected_account_simps(1))
qed

section \<open>Ranking: health tiers and routing policies\<close>

lemma or_list_filter:
  assumes "x \<in> set (or_list (filter P xs) ys)"
  shows "(x \<in> set xs \<and> P x) \<or> (x \<in> set ys \<and> (\<forall>y \<in> set xs. \<not> P y))"
proof (cases "filter P xs = []")
  case True
  then show ?thesis using assms by (auto simp: or_list_def filter_empty_conv)
next
  case False
  then have "x \<in> set (filter P xs)" using assms by (simp only: or_list_def if_False)
  then show ?thesis by simp
qed

lemma health_pool_cases:
  assumes "x \<in> set (health_pool xs)"
  shows "st_health_tier x = HEALTH_TIER_HEALTHY \<or>
    (\<forall>y \<in> set xs. st_health_tier y \<noteq> HEALTH_TIER_HEALTHY) \<and>
    (st_health_tier x = HEALTH_TIER_PROBING \<or> (\<forall>y \<in> set xs. st_health_tier y \<noteq> HEALTH_TIER_PROBING))"
  using or_list_filter [OF assms [unfolded health_pool_def Let_def]]
  by (auto dest: or_list_filter)

lemma effective_pool_in_health: "set (effective_pool xs) \<subseteq> set (health_pool xs)"
  by (auto simp: effective_pool_def or_list_def Let_def)

lemma effective_pool_cases:
  assumes "x \<in> set (effective_pool xs)"
  shows "routing_policy x = ROUTING_POLICY_BURN_FIRST \<or>
    (\<forall>y \<in> set (health_pool xs). routing_policy y \<noteq> ROUTING_POLICY_BURN_FIRST) \<and>
    (routing_policy x = ROUTING_POLICY_NORMAL \<or>
     (\<forall>y \<in> set (health_pool xs). routing_policy y \<noteq> ROUTING_POLICY_NORMAL))"
  using or_list_filter [OF assms [unfolded effective_pool_def Let_def]]
  by (auto dest: or_list_filter)

lemma routing_policy_cases:
  "routing_policy s \<in> {ROUTING_POLICY_BURN_FIRST, ROUTING_POLICY_NORMAL, ROUTING_POLICY_PRESERVE}"
  by (simp add: routing_policy_def)

lemma policies_distinct [simp]:
  "ROUTING_POLICY_BURN_FIRST \<noteq> ROUTING_POLICY_NORMAL" "ROUTING_POLICY_BURN_FIRST \<noteq> ROUTING_POLICY_PRESERVE"
  "ROUTING_POLICY_NORMAL \<noteq> ROUTING_POLICY_PRESERVE" "ROUTING_POLICY_NORMAL \<noteq> ROUTING_POLICY_BURN_FIRST"
  "ROUTING_POLICY_PRESERVE \<noteq> ROUTING_POLICY_BURN_FIRST" "ROUTING_POLICY_PRESERVE \<noteq> ROUTING_POLICY_NORMAL"
  by (simp_all add: policy_defs)

text \<open>
  The candidates are ranked before any strategy looks at them (all strategies but the two
  drains and single-account): whatever the strategy draws, a draining or probing account is drawn
  only if no candidate is healthy, a draining one only if none is healthy or probing; among the
  accounts of the best tier, burn-first accounts come first and an account marked preserve is
  drawn only if every account of that tier is marked preserve.
\<close>

theorem selection_ranks_candidates:
  assumes "pick_by_strategy env opts c candidates = Inr s" and "ranks_by_health (so_routing_strategy opts)"
    and "candidates \<noteq> []"
  shows "s \<in> set (health_pool candidates) \<and>
    ((\<exists>y \<in> set candidates. st_health_tier y = HEALTH_TIER_HEALTHY) \<longrightarrow> st_health_tier s = HEALTH_TIER_HEALTHY) \<and>
    ((\<exists>y \<in> set candidates. st_health_tier y = HEALTH_TIER_PROBING) \<longrightarrow>
       st_health_tier s \<in> {HEALTH_TIER_HEALTHY, HEALTH_TIER_PROBING}) \<and>
    ((\<exists>y \<in> set (health_pool candidates). routing_policy y = ROUTING_POLICY_BURN_FIRST) \<longrightarrow>
       routing_policy s = ROUTING_POLICY_BURN_FIRST) \<and>
    (routing_policy s = ROUTING_POLICY_PRESERVE \<longrightarrow>
       (\<forall>y \<in> set (health_pool candidates). routing_policy y = ROUTING_POLICY_PRESERVE))"
proof -
  have s: "s \<in> set (effective_pool candidates)"
    using pick_by_strategy_pool [OF assms(3), of opts env c] assms(1,2) by auto
  then have h: "s \<in> set (health_pool candidates)" using effective_pool_in_health by blast
  have "\<forall>y \<in> set (health_pool candidates). routing_policy y = ROUTING_POLICY_PRESERVE"
    if "routing_policy s = ROUTING_POLICY_PRESERVE"
    using effective_pool_cases [OF s] that routing_policy_cases by fastforce
  then show ?thesis using h health_pool_cases [OF h] effective_pool_cases [OF s] by blast
qed

theorem selection_ranks_candidates_witness:
  "AccountState ''b'' ACTIVE \<in>
     set (health_pool [(AccountState ''a'' ACTIVE)\<lparr>st_health_tier := HEALTH_TIER_DRAINING\<rparr>, AccountState ''b'' ACTIVE])"
proof -
  have "pick_by_strategy example_env (example_opts\<lparr>so_routing_strategy := Fill_first\<rparr>) 0
      [(AccountState ''a'' ACTIVE)\<lparr>st_health_tier := HEALTH_TIER_DRAINING\<rparr>, AccountState ''b'' ACTIVE] =
      Inr (AccountState ''b'' ACTIVE)"
    by (simp add: pick_by_strategy_def example_defs effective_pool_def health_pool_def or_list_def
        reset_pool_def select_fill_first_def routing_policy_def policy_defs)
  from selection_ranks_candidates [OF this] show ?thesis by (simp add: example_defs)
qed

text \<open>
  Capacity-weighted choice never wastes a request on an exhausted account: with a random
  number in [0, 1) the account drawn has credits left whenever some candidate has; otherwise the
  least used account is taken.
\<close>

theorem capacity_weighted_has_credits:
  assumes "select_capacity_weighted u available = Inr s" and "0 \<le> u" and "u < 1"
  shows "s \<in> set available \<and>
    ((\<exists>y \<in> set available. remaining_secondary_credits y > 0) \<longrightarrow> remaining_secondary_credits s > 0) \<and>
    ((\<forall>y \<in> set available. remaining_secondary_credits y = 0) \<longrightarrow>
       (\<forall>y \<in> set available. usage_sort_key s \<le> usage_sort_key y))"
proof -
  let ?ws = "map remaining_secondary_credits available"
  have nonneg: "\<forall>w \<in> set ?ws. 0 \<le> w" using remaining_secondary_credits_nonneg by auto
  have zero: "sum_list ?ws \<le> 0 \<longleftrightarrow> (\<forall>y \<in> set available. remaining_secondary_credits y = 0)"
    using sum_list_nonneg_eq_0_iff [of ?ws] sum_list_nonneg [of ?ws] nonneg by auto
  show ?thesis
  proof (cases "sum_list ?ws \<le> 0")
    case True
    then have "py_min_by usage_sort_key available = Inr s"
      using assms(1) by (simp add: select_capacity_weighted_def)
    then show ?thesis using py_min_by_mem py_min_by_le zero True by fastforce
  next
    case False
    then obtain i where i: "i < length available" "py_choices available ?ws u = Inr (available ! i)"
        "0 < ?ws ! i"
      using py_choices_index [of available ?ws u] assms(2,3) by auto
    then have "s = available ! i" using assms(1) False by (simp add: select_capacity_weighted_def)
    then have "s \<in> set available \<and> 0 < remaining_secondary_credits s" using i by simp
    then show ?thesis by fastforce
  qed
qed

theorem capacity_weighted_has_credits_witness:
  "AccountState ''b'' ACTIVE \<in> set [AccountState ''b'' ACTIVE]"
proof -
  have "select_capacity_weighted (1/2) [AccountState ''b'' ACTIVE] = Inr (AccountState ''b'' ACTIVE)"
    by code_simp
  from capacity_weighted_has_credits [OF this] show ?thesis by simp
qed

end
