(* ===== verification/Leases.thy ===== *)
theory Leases
  imports Balancer
begin

text \<open>
  The in-memory half of \<open>LoadBalancer\<close> (\<open>app/modules/proxy/load_balancer.py\<close>): the runtime
  state it keeps per account, the leases that count requests in flight, and the caps on them.

  \<^item> \<open>self._runtime\<close> is a dictionary from account id to a mutable \<open>RuntimeState\<close>: here an
    association list, \<open>AList.map_entry\<close> being the mutation of the object stored under a key.
  \<^item> \<open>uuid4().hex\<close>, \<open>time.monotonic()\<close> and \<open>time.time()\<close> are arguments; the properties that need
    it assume that a new lease id is not the id of a live lease of the account.
  \<^item> The methods run under \<open>self._runtime_lock\<close> and do not await inside it, so each is one
    atomic step; interleavings are sequences of these steps.
\<close>

section \<open>Data\<close>

datatype AccountLeaseKind = Response_create | Stream

record account_lease =
  al_lease_id :: string
  al_account_id :: string
  al_kind :: AccountLeaseKind
  al_acquired_at :: real
  al_estimated_tokens :: real

record runtime_state =
  rt_reset_at :: "real option"
  rt_cooldown_until :: "real option"
  rt_last_error_at :: "real option"
  rt_last_selected_at :: "real option"
  rt_error_count :: int
  rt_version :: int
  rt_blocked_at :: "real option"
  rt_health_tier :: int
  rt_drain_entered_at :: "real option"
  rt_probe_success_streak :: int
  rt_inflight_response_creates :: int
  rt_inflight_streams :: int
  rt_leased_tokens :: real
  rt_leases :: "(string \<times> account_lease) list option"

definition RuntimeState :: runtime_state where
  "RuntimeState =
     \<lparr>rt_reset_at = None, rt_cooldown_until = None, rt_last_error_at = None,
      rt_last_selected_at = None, rt_error_count = 0, rt_version = 0, rt_blocked_at = None,
      rt_health_tier = 0, rt_drain_entered_at = None, rt_probe_success_streak = 0,
      rt_inflight_response_creates = 0, rt_inflight_streams = 0, rt_leased_tokens = 0,
      rt_leases = None\<rparr>"

type_synonym runtime_map = "(string \<times> runtime_state) list"

text \<open>The settings the leases read; a cap of zero or less means no cap.\<close>

record lease_settings =
  ls_response_create_limit :: int
  ls_stream_limit :: int
  ls_lease_ttl_seconds :: real
  ls_request_budget_seconds :: real
  ls_stream_request_budget_seconds :: real
  ls_bridge_request_budget_seconds :: real

definition cap_for :: "lease_settings \<Rightarrow> AccountLeaseKind \<Rightarrow> int" where
  "cap_for cfg kind =
     (case kind of Response_create \<Rightarrow> ls_response_create_limit cfg | Stream \<Rightarrow> ls_stream_limit cfg)"

definition inflight :: "AccountLeaseKind \<Rightarrow> runtime_state \<Rightarrow> int" where
  "inflight kind rt =
     (case kind of Response_create \<Rightarrow> rt_inflight_response_creates rt | Stream \<Rightarrow> rt_inflight_streams rt)"

text \<open>The live leases of an account; \<open>None\<close> is the dictionary not created yet.\<close>

definition live_leases :: "runtime_state \<Rightarrow> (string \<times> account_lease) list" where
  "live_leases rt = default (rt_leases rt) []"

section \<open>Operations\<close>

definition setdefault :: "string \<Rightarrow> runtime_map \<Rightarrow> runtime_map" where
  "setdefault i rts = (case map_of rts i of None \<Rightarrow> rts @ [(i, RuntimeState)] | Some rt \<Rightarrow> rts)"

definition add_lease :: "account_lease \<Rightarrow> real \<Rightarrow> runtime_state \<Rightarrow> runtime_state" where
  "add_lease lease t_wall rt =
     rt\<lparr>rt_leases := Some (AList.update (al_lease_id lease) lease (live_leases rt)),
        rt_inflight_response_creates := rt_inflight_response_creates rt +
          (if al_kind lease = Response_create then 1 else 0),
        rt_inflight_streams := rt_inflight_streams rt + (if al_kind lease = Response_create then 0 else 1),
        rt_leased_tokens := rt_leased_tokens rt + al_estimated_tokens lease,
        rt_last_selected_at := Some t_wall,
        rt_version := rt_version rt + 1\<rparr>"

text \<open>\<open>t_mono\<close> and \<open>t_wall\<close> are the readings of the monotonic and of the wall clock.\<close>

definition acquire_account_lease_locked ::
  "string \<Rightarrow> real \<Rightarrow> real \<Rightarrow> string \<Rightarrow> AccountLeaseKind \<Rightarrow> real \<Rightarrow> runtime_map \<Rightarrow> runtime_map \<times> account_lease" where
  "acquire_account_lease_locked uuid t_mono t_wall account_id kind estimated_tokens rts =
     (let rts = setdefault account_id rts;
          lease = \<lparr>al_lease_id = uuid, al_account_id = account_id, al_kind = kind,
                   al_acquired_at = t_mono, al_estimated_tokens = max 0 estimated_tokens\<rparr>
      in (AList.map_entry account_id (add_lease lease t_wall) rts, lease))"

definition account_lease_allowed_locked ::
  "lease_settings \<Rightarrow> string \<Rightarrow> AccountLeaseKind \<Rightarrow> runtime_map \<Rightarrow> runtime_map \<times> bool" where
  "account_lease_allowed_locked cfg account_id kind rts =
     (let rts = setdefault account_id rts;
          rt = the (map_of rts account_id);
          cap = cap_for cfg kind
      in (rts, cap \<le> 0 \<or> inflight kind rt < cap))"

definition drop_lease :: "string \<Rightarrow> account_lease \<Rightarrow> runtime_state \<Rightarrow> runtime_state" where
  "drop_lease lease_id current rt =
     rt\<lparr>rt_leases := map_option (AList.delete lease_id) (rt_leases rt),
        rt_inflight_response_creates :=
          (if al_kind current = Response_create then max 0 (rt_inflight_response_creates rt - 1)
           else rt_inflight_response_creates rt),
        rt_inflight_streams :=
          (if al_kind current = Response_create then rt_inflight_streams rt
           else max 0 (rt_inflight_streams rt - 1)),
        rt_leased_tokens := max 0 (rt_leased_tokens rt - al_estimated_tokens current),
        rt_version := rt_version rt + 1\<rparr>"

text \<open>The pop is by the id of the lease handed in; the counters follow the lease that was stored.\<close>

definition release_account_lease_locked :: "account_lease \<Rightarrow> runtime_map \<Rightarrow> runtime_map \<times> bool" where
  "release_account_lease_locked lease rts =
     (case map_of rts (al_account_id lease) of
        None \<Rightarrow> (rts, False)
      | Some rt \<Rightarrow>
          (case rt_leases rt of
             None \<Rightarrow> (rts, False)
           | Some leases \<Rightarrow>
               (case map_of leases (al_lease_id lease) of
                  None \<Rightarrow> (rts, False)
                | Some current \<Rightarrow>
                    (AList.map_entry (al_account_id lease)
                       (drop_lease (al_lease_id lease) current) rts, True))))"

definition release_account_lease :: "account_lease option \<Rightarrow> runtime_map \<Rightarrow> runtime_map" where
  "release_account_lease lease rts =
     (case lease of None \<Rightarrow> rts | Some l \<Rightarrow> fst (release_account_lease_locked l rts))"

abbreviation (input) ACCOUNT_STREAM_LEASE_STALE_GRACE_SECONDS :: real where
  "ACCOUNT_STREAM_LEASE_STALE_GRACE_SECONDS \<equiv> 60"

definition account_lease_stale_ttl_seconds :: "AccountLeaseKind \<Rightarrow> lease_settings \<Rightarrow> real" where
  "account_lease_stale_ttl_seconds kind cfg =
     (let ttl_seconds = ls_lease_ttl_seconds cfg
      in if kind \<noteq> Stream then ttl_seconds
         else
           let valid_stream_budget_seconds =
                 max (max (max ttl_seconds (ls_request_budget_seconds cfg))
                        (ls_stream_request_budget_seconds cfg))
                   (ls_bridge_request_budget_seconds cfg)
           in max ttl_seconds (valid_stream_budget_seconds + ACCOUNT_STREAM_LEASE_STALE_GRACE_SECONDS))"

definition lease_stale :: "lease_settings \<Rightarrow> real \<Rightarrow> account_lease \<Rightarrow> bool" where
  "lease_stale cfg now lease =
     (now - al_acquired_at lease \<ge> account_lease_stale_ttl_seconds (al_kind lease) cfg)"

definition release_each :: "account_lease list \<Rightarrow> runtime_map \<Rightarrow> runtime_map" where
  "release_each ls rts = fold (\<lambda>l rts. fst (release_account_lease_locked l rts)) ls rts"

text \<open>The body of the loop over \<open>self._runtime.values()\<close>, for the runtime stored under \<open>i\<close>.\<close>

definition reclaim_runtime :: "lease_settings \<Rightarrow> real \<Rightarrow> string \<Rightarrow> runtime_map \<Rightarrow> runtime_map" where
  "reclaim_runtime cfg now i rts =
     (case map_of rts i of
        None \<Rightarrow> rts
      | Some rt \<Rightarrow> release_each (filter (lease_stale cfg now) (map snd (live_leases rt))) rts)"

definition reclaim_stale_account_leases_locked :: "lease_settings \<Rightarrow> real \<Rightarrow> runtime_map \<Rightarrow> runtime_map" where
  "reclaim_stale_account_leases_locked cfg now rts = fold (reclaim_runtime cfg now) (map fst rts) rts"

definition acquire_account_lease ::
  "lease_settings \<Rightarrow> string \<Rightarrow> real \<times> real \<times> real \<Rightarrow> string \<Rightarrow> AccountLeaseKind \<Rightarrow> real \<Rightarrow> runtime_map
   \<Rightarrow> runtime_map \<times> account_lease option" where
  "acquire_account_lease cfg uuid clock account_id kind estimated_tokens rts =
     (let (t_reclaim, t_mono, t_wall) = clock;
          rts = reclaim_stale_account_leases_locked cfg t_reclaim rts;
          rts = setdefault account_id rts;
          rt = the (map_of rts account_id);
          cap = cap_for cfg kind
      in if cap > 0 \<and> inflight kind rt \<ge> cap then (rts, None)
         else
           let (rts, lease) = acquire_account_lease_locked uuid t_mono t_wall account_id kind estimated_tokens rts
           in (rts, Some lease))"

definition account_pressure_snapshot :: "string \<Rightarrow> runtime_map \<Rightarrow> int \<times> int \<times> real" where
  "account_pressure_snapshot account_id rts =
     (case map_of rts account_id of
        None \<Rightarrow> (0, 0, 0)
      | Some rt \<Rightarrow> (rt_inflight_response_creates rt, rt_inflight_streams rt, rt_leased_tokens rt))"

text \<open>\<open>not runtime.leases\<close>: no dictionary, or an empty one.\<close>

definition prune_runtime :: "string list \<Rightarrow> runtime_map \<Rightarrow> runtime_map" where
  "prune_runtime account_ids rts =
     (let stale_ids = map fst (filter (\<lambda>(i, rt). i \<notin> set account_ids \<and> live_leases rt = []) rts)
      in fold AList.delete stale_ids rts)"

definition filter_states_for_account_caps ::
  "lease_settings \<Rightarrow> AccountLeaseKind option \<Rightarrow> account_state list \<Rightarrow> account_state list" where
  "filter_states_for_account_caps cfg lease_kind states =
     (case lease_kind of
        None \<Rightarrow> states
      | Some Response_create \<Rightarrow>
          filter (\<lambda>s. \<not> (ls_response_create_limit cfg > 0 \<and>
                         st_inflight_response_creates s \<ge> ls_response_create_limit cfg)) states
      | Some Stream \<Rightarrow>
          filter (\<lambda>s. \<not> (ls_stream_limit cfg > 0 \<and> st_inflight_streams s \<ge> ls_stream_limit cfg)) states)"

definition account_cap_error_code :: "AccountLeaseKind option \<Rightarrow> string option" where
  "account_cap_error_code lease_kind =
     (case lease_kind of
        Some Response_create \<Rightarrow> Some ''account_response_create_cap''
      | Some Stream \<Rightarrow> Some ''account_stream_cap''
      | None \<Rightarrow> None)"

section \<open>The accounting invariant\<close>

definition kind_count :: "AccountLeaseKind \<Rightarrow> (string \<times> account_lease) list \<Rightarrow> int" where
  "kind_count kind ls = int (length (filter (\<lambda>(k, l). al_kind l = kind) ls))"

definition token_sum :: "(string \<times> account_lease) list \<Rightarrow> real" where
  "token_sum ls = sum_list (map (\<lambda>(k, l). al_estimated_tokens l) ls)"

text \<open>
  The counters of an account are the number of its live leases of each kind, its leased tokens
  their sum; each lease is stored under its own id, belongs to the account and has no negative
  estimate.
\<close>

definition runtime_ok :: "string \<Rightarrow> runtime_state \<Rightarrow> bool" where
  "runtime_ok i rt \<longleftrightarrow>
     distinct (map fst (live_leases rt)) \<and>
     (\<forall>(k, l) \<in> set (live_leases rt). al_lease_id l = k \<and> al_account_id l = i \<and> 0 \<le> al_estimated_tokens l) \<and>
     (\<forall>kind \<in> {Response_create, Stream}. inflight kind rt = kind_count kind (live_leases rt)) \<and>
     rt_leased_tokens rt = token_sum (live_leases rt)"

definition capped :: "lease_settings \<Rightarrow> runtime_state \<Rightarrow> bool" where
  "capped cfg rt \<longleftrightarrow>
     (\<forall>kind \<in> {Response_create, Stream}. cap_for cfg kind > 0 \<longrightarrow> inflight kind rt \<le> cap_for cfg kind)"

definition lease_inv :: "lease_settings \<Rightarrow> runtime_map \<Rightarrow> bool" where
  "lease_inv cfg rts \<longleftrightarrow>
     distinct (map fst rts) \<and> (\<forall>(i, rt) \<in> set rts. runtime_ok i rt \<and> capped cfg rt)"

lemma kind_cases [simp]: "kind \<noteq> Response_create \<longleftrightarrow> kind = Stream" "kind \<noteq> Stream \<longleftrightarrow> kind = Response_create"
  by (cases kind; simp)+

lemma all_kinds: "kind \<in> {Response_create, Stream}"
  by (cases kind) simp_all

lemma kind_count_nonneg [simp]: "0 \<le> kind_count kind ls"
  by (simp add: kind_count_def)

lemma runtime_okD:
  assumes "runtime_ok i rt"
  shows "distinct (map fst (live_leases rt))"
    and "(k, l) \<in> set (live_leases rt) \<Longrightarrow> al_lease_id l = k \<and> al_account_id l = i \<and> 0 \<le> al_estimated_tokens l"
    and "inflight kind rt = kind_count kind (live_leases rt)"
    and "rt_leased_tokens rt = token_sum (live_leases rt)"
  using assms all_kinds[of kind] by (auto simp: runtime_ok_def)

lemma runtime_okI:
  assumes "distinct (map fst (live_leases rt))"
    and "\<And>k l. (k, l) \<in> set (live_leases rt) \<Longrightarrow>
           al_lease_id l = k \<and> al_account_id l = i \<and> 0 \<le> al_estimated_tokens l"
    and "\<And>kind. inflight kind rt = kind_count kind (live_leases rt)"
    and "rt_leased_tokens rt = token_sum (live_leases rt)"
  shows "runtime_ok i rt"
  using assms by (auto simp: runtime_ok_def)

lemma cappedI: "(\<And>kind. cap_for cfg kind > 0 \<Longrightarrow> inflight kind rt \<le> cap_for cfg kind) \<Longrightarrow> capped cfg rt"
  by (simp add: capped_def)

lemma cappedD: "capped cfg rt \<Longrightarrow> cap_for cfg kind > 0 \<Longrightarrow> inflight kind rt \<le> cap_for cfg kind"
  using all_kinds[of kind] by (auto simp: capped_def)

lemma lease_inv_lookup: "lease_inv cfg rts \<Longrightarrow> map_of rts i = Some rt \<Longrightarrow> runtime_ok i rt \<and> capped cfg rt"
  by (drule map_of_SomeD) (auto simp: lease_inv_def)

lemma lease_invI:
  assumes "distinct (map fst rts)"
    and "\<And>i rt. map_of rts i = Some rt \<Longrightarrow> runtime_ok i rt \<and> capped cfg rt"
  shows "lease_inv cfg rts"
  using assms by (auto simp: lease_inv_def)

lemma lease_inv_distinct: "lease_inv cfg rts \<Longrightarrow> distinct (map fst rts)"
  by (simp add: lease_inv_def)

lemma lease_inv_Nil [simp]: "lease_inv cfg []"
  by (simp add: lease_inv_def)

lemma lease_inv_map_entry:
  assumes inv: "lease_inv cfg rts"
    and f: "\<And>rt. map_of rts i = Some rt \<Longrightarrow> runtime_ok i rt \<Longrightarrow> capped cfg rt \<Longrightarrow>
              runtime_ok i (f rt) \<and> capped cfg (f rt)"
  shows "lease_inv cfg (AList.map_entry i f rts)"
proof (rule lease_invI)
  show "distinct (map fst (AList.map_entry i f rts))"
    using lease_inv_distinct[OF inv] by (rule distinct_map_entry)
  fix j rt assume "map_of (AList.map_entry i f rts) j = Some rt"
  then show "runtime_ok j rt \<and> capped cfg rt"
    using lease_inv_lookup[OF inv, of j] lease_inv_lookup[OF inv, of i] f
    by (auto simp: map_of_map_entry split: if_splits option.splits)
qed

subsection \<open>Operations that leave the leases alone\<close>

text \<open>
  What the rest of the load balancer does to a runtime state (errors, cooldowns, health tiers,
  selection marks) touches none of the lease fields. The contract is a locale; every such update
  of the code is an instance, and the invariant follows once.
\<close>

locale runtime_update =
  fixes f :: "runtime_state \<Rightarrow> runtime_state"
  assumes keeps_leases: "rt_leases (f rt) = rt_leases rt"
    and keeps_creates: "rt_inflight_response_creates (f rt) = rt_inflight_response_creates rt"
    and keeps_streams: "rt_inflight_streams (f rt) = rt_inflight_streams rt"
    and keeps_tokens: "rt_leased_tokens (f rt) = rt_leased_tokens rt"
begin

lemma keeps_live: "live_leases (f rt) = live_leases rt"
  by (simp add: live_leases_def keeps_leases)

lemma keeps_inflight: "inflight kind (f rt) = inflight kind rt"
  by (cases kind) (simp_all add: inflight_def keeps_creates keeps_streams)

lemma keeps_ok: "runtime_ok i (f rt) \<longleftrightarrow> runtime_ok i rt"
  by (simp add: runtime_ok_def keeps_live keeps_inflight keeps_tokens)

lemma keeps_capped: "capped cfg (f rt) \<longleftrightarrow> capped cfg rt"
  by (simp add: capped_def keeps_inflight)

lemma keeps_inv: "lease_inv cfg rts \<Longrightarrow> lease_inv cfg (AList.map_entry i f rts)"
  by (rule lease_inv_map_entry) (simp_all add: keeps_ok keeps_capped)

end

lemma live_leases_RuntimeState [simp]: "live_leases RuntimeState = []"
  by (simp add: live_leases_def RuntimeState_def)

lemma inflight_RuntimeState [simp]: "inflight kind RuntimeState = 0"
  by (cases kind) (simp_all add: inflight_def RuntimeState_def)

lemma RuntimeState_ok [simp]: "runtime_ok i RuntimeState" "capped cfg RuntimeState"
  by (auto intro!: runtime_okI cappedI simp: kind_count_def token_sum_def)
     (simp add: RuntimeState_def)

lemma map_of_setdefault:
  "map_of (setdefault i rts) j =
     (if j = i then Some (default (map_of rts i) RuntimeState) else map_of rts j)"
  by (auto simp: setdefault_def map_add_def split: option.splits)

lemma distinct_setdefault: "distinct (map fst rts) \<Longrightarrow> distinct (map fst (setdefault i rts))"
  by (auto simp: setdefault_def map_of_eq_None_iff split: option.split)

lemma lease_inv_setdefault: "lease_inv cfg rts \<Longrightarrow> lease_inv cfg (setdefault i rts)"
  by (rule lease_invI)
     (auto simp: lease_inv_distinct distinct_setdefault map_of_setdefault default_def
           dest: lease_inv_lookup simp del: map_of_eq_Some_iff split: if_splits option.splits)

subsection \<open>Acquiring and releasing\<close>

lemma AList_update_fresh: "k \<notin> fst ` set al \<Longrightarrow> AList.update k v al = al @ [(k, v)]"
  by (induction al) auto

lemma live_add_lease:
  "al_lease_id lease \<notin> fst ` set (live_leases rt) \<Longrightarrow>
   live_leases (add_lease lease t_wall rt) = live_leases rt @ [(al_lease_id lease, lease)]"
  by (simp add: add_lease_def live_leases_def AList_update_fresh)

lemma inflight_add_lease:
  "inflight kind (add_lease lease t_wall rt) = inflight kind rt + (if al_kind lease = kind then 1 else 0)"
  by (cases kind; cases "al_kind lease") (simp_all add: inflight_def add_lease_def)

lemma leased_tokens_add_lease:
  "rt_leased_tokens (add_lease lease t_wall rt) = rt_leased_tokens rt + al_estimated_tokens lease"
  by (simp add: add_lease_def)

lemma add_lease_ok:
  assumes "runtime_ok i rt" and "al_lease_id lease \<notin> fst ` set (live_leases rt)"
    and "al_account_id lease = i" and "0 \<le> al_estimated_tokens lease"
  shows "runtime_ok i (add_lease lease t_wall rt)"
  using assms runtime_okD[OF assms(1)]
  by (intro runtime_okI)
     (auto simp: live_add_lease inflight_add_lease kind_count_def token_sum_def leased_tokens_add_lease)

lemma delete_append: "AList.delete k (xs @ ys) = AList.delete k xs @ AList.delete k ys"
  by (simp add: AList.delete_eq)

lemma map_of_split:
  assumes "map_of ls k = Some l" and "distinct (map fst ls)"
  obtains xs ys where "ls = xs @ (k, l) # ys" and "AList.delete k ls = xs @ ys"
proof -
  from map_of_SomeD[OF assms(1)] obtain xs ys where ls: "ls = xs @ (k, l) # ys"
    by (meson split_list)
  then have "k \<notin> fst ` set xs" "k \<notin> fst ` set ys" using assms(2) by auto
  then have "AList.delete k ls = xs @ ys"
    by (simp add: ls delete_append)
  with ls that show thesis by blast
qed

lemma live_drop_lease: "live_leases (drop_lease k l rt) = AList.delete k (live_leases rt)"
  by (cases "rt_leases rt") (simp_all add: live_leases_def drop_lease_def)

lemma drop_lease_fields:
  assumes ok: "runtime_ok i rt" and l: "map_of (live_leases rt) k = Some l"
  shows "runtime_ok i (drop_lease k l rt)"
    and "inflight kind (drop_lease k l rt) = inflight kind rt - (if al_kind l = kind then 1 else 0)"
    and "rt_leased_tokens (drop_lease k l rt) = rt_leased_tokens rt - al_estimated_tokens l"
proof -
  note okD = runtime_okD[OF ok]
  obtain xs ys where split: "live_leases rt = xs @ (k, l) # ys" "AList.delete k (live_leases rt) = xs @ ys"
    using map_of_split[OF l okD(1)] .
  have cnt: "kind_count kind (live_leases rt) = kind_count kind (xs @ ys) + (if al_kind l = kind then 1 else 0)" for kind
    by (simp add: kind_count_def split(1))
  have toks: "token_sum (live_leases rt) = token_sum (xs @ ys) + al_estimated_tokens l"
    by (simp add: token_sum_def split(1))
  have "0 \<le> token_sum (xs @ ys)"
    unfolding token_sum_def using okD(2) by (intro sum_list_nonneg) (auto simp: split(1))
  with okD(4) toks show t: "rt_leased_tokens (drop_lease k l rt) = rt_leased_tokens rt - al_estimated_tokens l"
    by (simp add: drop_lease_def)
  have i: "inflight kind (drop_lease k l rt) = inflight kind rt - (if al_kind l = kind then 1 else 0)" for kind
    using okD(3)[of kind] cnt[of kind] kind_count_nonneg[of kind "xs @ ys"]
    by (cases kind; cases "al_kind l") (simp_all add: inflight_def drop_lease_def)
  show "inflight kind (drop_lease k l rt) = inflight kind rt - (if al_kind l = kind then 1 else 0)"
    by (rule i)
  show "runtime_ok i (drop_lease k l rt)"
  proof (rule runtime_okI)
    show "distinct (map fst (live_leases (drop_lease k l rt)))"
      using okD(1) by (simp add: live_drop_lease distinct_delete)
    show "al_lease_id l' = k' \<and> al_account_id l' = i \<and> 0 \<le> al_estimated_tokens l'"
      if "(k', l') \<in> set (live_leases (drop_lease k l rt))" for k' l'
      using that okD(2)[of k' l'] by (auto simp: live_drop_lease AList.delete_eq)
    show "inflight kind (drop_lease k l rt) = kind_count kind (live_leases (drop_lease k l rt))" for kind
      using i[of kind] okD(3)[of kind] cnt[of kind] by (simp add: live_drop_lease split(2))
    show "rt_leased_tokens (drop_lease k l rt) = token_sum (live_leases (drop_lease k l rt))"
      using t okD(4) toks by (simp add: live_drop_lease split(2))
  qed
qed

lemma drop_lease_capped:
  assumes "runtime_ok i rt" "map_of (live_leases rt) k = Some l" "capped cfg rt"
  shows "capped cfg (drop_lease k l rt)"
  using drop_lease_fields(2)[OF assms(1,2)] cappedD[OF assms(3)] by (intro cappedI) (fastforce split: if_splits)

lemma release_eq:
  "release_account_lease_locked lease rts =
     (case map_of rts (al_account_id lease) of
        None \<Rightarrow> (rts, False)
      | Some rt \<Rightarrow>
          (case map_of (live_leases rt) (al_lease_id lease) of
             None \<Rightarrow> (rts, False)
           | Some l \<Rightarrow>
               (AList.map_entry (al_account_id lease) (drop_lease (al_lease_id lease) l) rts, True)))"
  by (auto simp: release_account_lease_locked_def live_leases_def split: option.split)

lemma lease_inv_release:
  "lease_inv cfg rts \<Longrightarrow> lease_inv cfg (fst (release_account_lease_locked lease rts))"
  by (auto simp: release_eq split: option.split
           intro!: lease_inv_map_entry drop_lease_fields(1) drop_lease_capped)

lemma lease_inv_release_option: "lease_inv cfg rts \<Longrightarrow> lease_inv cfg (release_account_lease lease rts)"
  by (simp add: release_account_lease_def lease_inv_release split: option.split)

lemma lease_inv_release_each: "lease_inv cfg rts \<Longrightarrow> lease_inv cfg (release_each ls rts)"
  unfolding release_each_def by (induction ls arbitrary: rts) (simp_all add: lease_inv_release)

lemma lease_inv_reclaim_runtime: "lease_inv cfg rts \<Longrightarrow> lease_inv cfg (reclaim_runtime c now i rts)"
  by (simp add: reclaim_runtime_def lease_inv_release_each split: option.split)

lemma lease_inv_reclaim:
  "lease_inv cfg rts \<Longrightarrow> lease_inv cfg (reclaim_stale_account_leases_locked c now rts)"
proof -
  have "lease_inv cfg s \<Longrightarrow> lease_inv cfg (fold (reclaim_runtime c now) ks s)" for ks s
    by (induction ks arbitrary: s) (simp_all add: lease_inv_reclaim_runtime)
  then show "lease_inv cfg rts \<Longrightarrow> ?thesis"
    by (simp add: reclaim_stale_account_leases_locked_def)
qed

text \<open>A cap is kept by an acquisition when it was checked in the same critical section.\<close>

definition lease_fresh :: "string \<Rightarrow> string \<Rightarrow> runtime_map \<Rightarrow> bool" where
  "lease_fresh uuid i rts =
     (case map_of rts i of None \<Rightarrow> True | Some rt \<Rightarrow> uuid \<notin> fst ` set (live_leases rt))"

definition cap_room :: "lease_settings \<Rightarrow> AccountLeaseKind \<Rightarrow> string \<Rightarrow> runtime_map \<Rightarrow> bool" where
  "cap_room cfg kind i rts =
     (cap_for cfg kind \<le> 0 \<or> inflight kind (default (map_of rts i) RuntimeState) < cap_for cfg kind)"

lemma lease_inv_acquire:
  assumes inv: "lease_inv cfg rts" and fresh: "lease_fresh uuid i rts" and room: "cap_room cfg kind i rts"
  shows "lease_inv cfg (fst (acquire_account_lease_locked uuid t_mono t_wall i kind tokens rts))"
  unfolding acquire_account_lease_locked_def Let_def fst_conv
proof (rule lease_inv_map_entry[OF lease_inv_setdefault[OF inv]])
  fix rt
  assume rt: "map_of (setdefault i rts) i = Some rt" and ok: "runtime_ok i rt" "capped cfg rt"
  let ?l = "\<lparr>al_lease_id = uuid, al_account_id = i, al_kind = kind, al_acquired_at = t_mono,
             al_estimated_tokens = max 0 tokens\<rparr>"
  have "uuid \<notin> fst ` set (live_leases rt)"
    using rt fresh by (auto simp: map_of_setdefault lease_fresh_def default_def split: option.splits)
  then have "runtime_ok i (add_lease ?l t_wall rt)" by (intro add_lease_ok ok(1)) simp_all
  moreover have "capped cfg (add_lease ?l t_wall rt)"
    using room rt cappedD[OF ok(2)]
    by (intro cappedI) (auto simp: inflight_add_lease cap_room_def map_of_setdefault)
  ultimately show "runtime_ok i (add_lease ?l t_wall rt) \<and> capped cfg (add_lease ?l t_wall rt)" by simp
qed

lemma room_after_check:
  assumes "\<not> (cap_for cfg kind > 0 \<and> inflight kind (the (map_of (setdefault i rts) i)) \<ge> cap_for cfg kind)"
  shows "cap_room cfg kind i (setdefault i rts)"
  using assms by (auto simp: cap_room_def map_of_setdefault)

lemma map_of_delete_set: "map_of (fold AList.delete ks al) k = (if k \<in> set ks then None else map_of al k)"
  by (induction ks arbitrary: al) (auto simp: delete_conv')

lemma distinct_fold_delete: "distinct (map fst al) \<Longrightarrow> distinct (map fst (fold AList.delete ks al))"
  by (induction ks arbitrary: al) (simp_all add: distinct_delete)

lemma map_of_prune:
  assumes "distinct (map fst rts)"
  shows "map_of (prune_runtime ids rts) i =
           (case map_of rts i of
              None \<Rightarrow> None
            | Some rt \<Rightarrow> if i \<notin> set ids \<and> live_leases rt = [] then None else Some rt)"
proof -
  have "i \<in> set (map fst (filter (\<lambda>(i, rt). i \<notin> set ids \<and> live_leases rt = []) rts)) \<longleftrightarrow>
        (\<exists>rt. map_of rts i = Some rt \<and> i \<notin> set ids \<and> live_leases rt = [])"
    using assms by force
  then show ?thesis
    unfolding prune_runtime_def Let_def map_of_delete_set by (auto split: option.split)
qed

lemma lease_inv_prune: "lease_inv cfg rts \<Longrightarrow> lease_inv cfg (prune_runtime ids rts)"
proof (rule lease_invI)
  assume inv: "lease_inv cfg rts"
  note d = lease_inv_distinct[OF inv]
  then show "distinct (map fst (prune_runtime ids rts))"
    by (simp add: prune_runtime_def distinct_fold_delete)
  show "runtime_ok i rt \<and> capped cfg rt" if "map_of (prune_runtime ids rts) i = Some rt" for i rt
    using that lease_inv_lookup[OF inv, of i] by (auto simp: map_of_prune[OF d] split: option.splits if_splits)
qed

subsection \<open>What a sweep reclaims\<close>

definition leases_of :: "runtime_map \<Rightarrow> string \<Rightarrow> (string \<times> account_lease) list" where
  "leases_of rts i = (case map_of rts i of None \<Rightarrow> [] | Some rt \<Rightarrow> live_leases rt)"

text \<open>Releasing a lease removes that lease and leaves every other live lease in place.\<close>

lemma leases_of_release:
  "leases_of (fst (release_account_lease_locked l rts)) i =
     (if i = al_account_id l then AList.delete (al_lease_id l) (leases_of rts i) else leases_of rts i)"
proof (cases "map_of rts (al_account_id l)")
  case None
  then show ?thesis by (simp add: release_eq leases_of_def)
next
  case (Some rt)
  show ?thesis
  proof (cases "map_of (live_leases rt) (al_lease_id l)")
    case None
    then have "al_lease_id l \<notin> fst ` set (live_leases rt)" by (simp add: map_of_eq_None_iff)
    with Some None show ?thesis by (simp add: release_eq leases_of_def)
  next
    case l: (Some cur)
    with Some show ?thesis by (simp add: release_eq leases_of_def map_of_map_entry live_drop_lease)
  qed
qed

lemma leases_of_release_each:
  assumes "\<And>l. l \<in> set ls \<Longrightarrow> al_account_id l = i"
  shows "leases_of (release_each ls rts) j =
           (if j = i then filter (\<lambda>(k, l). k \<notin> al_lease_id ` set ls) (leases_of rts j) else leases_of rts j)"
  using assms
proof (induction ls arbitrary: rts)
  case Nil
  then show ?case by (simp add: release_each_def)
next
  case (Cons l ls)
  have "release_each (l # ls) rts = release_each ls (fst (release_account_lease_locked l rts))"
    by (simp add: release_each_def)
  with Cons show ?case
    by (auto simp: leases_of_release AList.delete_eq split_def intro!: filter_cong)
qed

lemma lease_inv_leases_of:
  assumes "lease_inv cfg rts" and "(k, l) \<in> set (leases_of rts i)"
  shows "al_lease_id l = k" and "al_account_id l = i"
  using assms(2) lease_inv_lookup[OF assms(1), of i]
  by (cases "map_of rts i"; force simp: leases_of_def dest: runtime_okD(2))+

lemma lease_inv_distinct_leases: "lease_inv cfg rts \<Longrightarrow> distinct (map fst (leases_of rts i))"
  using lease_inv_lookup[of cfg rts i]
  by (auto simp: leases_of_def simp del: map_of_eq_Some_iff split: option.splits dest: runtime_okD(1))

lemma leases_of_reclaim_runtime:
  assumes inv: "lease_inv cfg rts"
  shows "leases_of (reclaim_runtime c now i rts) j =
           (if j = i then filter (\<lambda>(k, l). \<not> lease_stale c now l) (leases_of rts j) else leases_of rts j)"
proof (cases "map_of rts i")
  case None
  then show ?thesis by (simp add: reclaim_runtime_def leases_of_def)
next
  case (Some rt)
  let ?stale = "filter (lease_stale c now) (map snd (live_leases rt))"
  have live: "live_leases rt = leases_of rts i" using Some by (simp add: leases_of_def)
  have acct: "\<And>l. l \<in> set ?stale \<Longrightarrow> al_account_id l = i"
    using lease_inv_leases_of[OF inv] by (force simp: live)
  have iff: "k \<in> al_lease_id ` set ?stale \<longleftrightarrow> lease_stale c now l" if kl: "(k, l) \<in> set (leases_of rts i)" for k l
  proof
    assume "k \<in> al_lease_id ` set ?stale"
    then obtain k' l' where l': "(k', l') \<in> set (leases_of rts i)" "lease_stale c now l'" "k = al_lease_id l'"
      by (auto simp: live)
    then have "k' = k" using lease_inv_leases_of(1)[OF inv] by blast
    with l' kl have "l' = l" using lease_inv_distinct_leases[OF inv, of i] by (metis eq_key_imp_eq_value)
    with l' show "lease_stale c now l" by simp
  next
    assume "lease_stale c now l"
    with kl show "k \<in> al_lease_id ` set ?stale"
      using lease_inv_leases_of(1)[OF inv kl] by (force simp: live)
  qed
  have "leases_of (reclaim_runtime c now i rts) j = leases_of (release_each ?stale rts) j"
    by (simp add: reclaim_runtime_def Some)
  also have "\<dots> = (if j = i then filter (\<lambda>(k, l). k \<notin> al_lease_id ` set ?stale) (leases_of rts j)
                    else leases_of rts j)"
    by (rule leases_of_release_each[OF acct])
  finally show ?thesis using iff by (auto intro!: filter_cong)
qed

lemma leases_of_reclaim:
  assumes inv: "lease_inv cfg rts"
  shows "leases_of (reclaim_stale_account_leases_locked c now rts) i =
           filter (\<lambda>(k, l). \<not> lease_stale c now l) (leases_of rts i)"
proof -
  have "leases_of (fold (reclaim_runtime c now) ks s) i =
          (if i \<in> set ks then filter (\<lambda>(k, l). \<not> lease_stale c now l) (leases_of s i) else leases_of s i)"
    if "lease_inv cfg s" for ks s
    using that
    by (induction ks arbitrary: s)
       (auto simp: leases_of_reclaim_runtime lease_inv_reclaim_runtime split_def intro!: filter_cong)
  moreover have "leases_of rts i = []" if "i \<notin> set (map fst rts)"
    using that by (simp add: leases_of_def map_of_eq_None_iff[THEN iffD2])
  ultimately show ?thesis
    using inv by (auto simp: reclaim_stale_account_leases_locked_def)
qed

lemma fresh_after_reclaim:
  assumes "lease_inv cfg rts" and "lease_fresh uuid i rts"
  shows "lease_fresh uuid i (setdefault i (reclaim_stale_account_leases_locked c now rts))"
proof -
  have "uuid \<notin> fst ` set (leases_of (reclaim_stale_account_leases_locked c now rts) i)"
    using assms(2) unfolding leases_of_reclaim[OF assms(1)]
    by (auto simp: lease_fresh_def leases_of_def split: option.splits)
  then show ?thesis
    by (auto simp: lease_fresh_def leases_of_def map_of_setdefault default_def split: option.splits)
qed

lemma lease_inv_acquire_account_lease:
  assumes inv: "lease_inv cfg rts" and fresh: "lease_fresh uuid i rts"
  shows "lease_inv cfg (fst (acquire_account_lease cfg uuid clock i kind tokens rts))"
proof -
  obtain t_reclaim t_mono t_wall where clock: "clock = (t_reclaim, t_mono, t_wall)" by (cases clock) auto
  let ?rts = "setdefault i (reclaim_stale_account_leases_locked cfg t_reclaim rts)"
  have "lease_inv cfg ?rts" by (intro lease_inv_setdefault lease_inv_reclaim inv)
  then show ?thesis
    using lease_inv_acquire[of cfg ?rts uuid i kind t_mono t_wall tokens] fresh_after_reclaim[OF inv fresh]
      room_after_check[of cfg kind i "reclaim_stale_account_leases_locked cfg t_reclaim rts"]
    by (auto simp: acquire_account_lease_def clock Let_def split_def)
qed

lemma snapshot_counts:
  assumes "lease_inv cfg rts"
  shows "account_pressure_snapshot i rts =
           (kind_count Response_create (leases_of rts i), kind_count Stream (leases_of rts i),
            token_sum (leases_of rts i))"
proof (cases "map_of rts i")
  case None
  then show ?thesis by (simp add: account_pressure_snapshot_def leases_of_def kind_count_def token_sum_def)
next
  case (Some rt)
  then have ok: "runtime_ok i rt" using lease_inv_lookup[OF assms] by blast
  show ?thesis
    using runtime_okD(3)[OF ok, of Response_create] runtime_okD(3)[OF ok, of Stream] runtime_okD(4)[OF ok]
    by (simp add: Some account_pressure_snapshot_def leases_of_def inflight_def)
qed

lemma key_in_alist: "k \<in> fst ` set al \<longleftrightarrow> (\<exists>v. map_of al k = Some v)"
  using map_of_eq_None_iff[of al k] by (cases "map_of al k") auto

lemma release_result: "snd (release_account_lease_locked l rts) \<longleftrightarrow> al_lease_id l \<in> fst ` set (leases_of rts (al_account_id l))"
  by (auto simp: release_eq leases_of_def key_in_alist split: option.split)

lemma release_miss: "\<not> snd (release_account_lease_locked l rts) \<Longrightarrow> fst (release_account_lease_locked l rts) = rts"
  by (auto simp: release_eq split: option.splits)

lemma leases_of_setdefault [simp]: "leases_of (setdefault i rts) j = leases_of rts j"
  by (auto simp: leases_of_def map_of_setdefault default_def split: option.split)

lemma leases_of_acquire:
  assumes "lease_fresh uuid i rts"
    and "acquire_account_lease_locked uuid t_mono t_wall i kind tokens rts = (rts', lease)"
  shows "leases_of rts' j = (if j = i then leases_of rts i @ [(uuid, lease)] else leases_of rts j)"
    and "al_lease_id lease = uuid" and "al_account_id lease = i" and "al_kind lease = kind"
    and "al_acquired_at lease = t_mono"
proof -
  from assms(2) show l: "al_lease_id lease = uuid" "al_account_id lease = i" "al_kind lease = kind"
      "al_acquired_at lease = t_mono"
    by (auto simp: acquire_account_lease_locked_def Let_def)
  let ?rt = "default (map_of rts i) RuntimeState"
  have fresh: "al_lease_id lease \<notin> fst ` set (live_leases ?rt)" and live: "live_leases ?rt = leases_of rts i"
    using assms(1) l(1) by (auto simp: lease_fresh_def leases_of_def default_def split: option.splits)
  have "rts' = AList.map_entry i (add_lease lease t_wall) (setdefault i rts)"
    using assms(2) by (auto simp: acquire_account_lease_locked_def Let_def)
  then show "leases_of rts' j = (if j = i then leases_of rts i @ [(uuid, lease)] else leases_of rts j)"
    using live_add_lease[OF fresh] l(1) live
    by (auto simp: leases_of_def map_of_map_entry map_of_setdefault)
qed

section \<open>Properties\<close>

text \<open>
  The sweep of stale leases is exact. After it an account holds precisely the leases it held
  before whose age is below the time to live of their kind, in the same order; none is lost and no
  stale one survives, and the counters the balancer reads are those of the surviving leases.
\<close>

theorem stale_sweep_is_exact:
  assumes "lease_inv cfg rts"
  shows "leases_of (reclaim_stale_account_leases_locked cfg now rts) i =
       filter (\<lambda>(k, l). now - al_acquired_at l < account_lease_stale_ttl_seconds (al_kind l) cfg)
         (leases_of rts i) \<and>
     account_pressure_snapshot i (reclaim_stale_account_leases_locked cfg now rts) =
       (let kept = filter (\<lambda>(k, l). now - al_acquired_at l < account_lease_stale_ttl_seconds (al_kind l) cfg)
                     (leases_of rts i)
        in (kind_count Response_create kept, kind_count Stream kept, token_sum kept))"
proof -
  have "(\<lambda>(k::string, l). \<not> lease_stale cfg now l) =
        (\<lambda>(k, l). now - al_acquired_at l < account_lease_stale_ttl_seconds (al_kind l) cfg)"
    by (auto simp: lease_stale_def fun_eq_iff)
  then have c1: "leases_of (reclaim_stale_account_leases_locked cfg now rts) i =
      filter (\<lambda>(k, l). now - al_acquired_at l < account_lease_stale_ttl_seconds (al_kind l) cfg)
        (leases_of rts i)"
    using leases_of_reclaim[OF assms, of cfg now i] by simp
  then have c2: "account_pressure_snapshot i (reclaim_stale_account_leases_locked cfg now rts) =
           (let kept = filter (\<lambda>(k, l). now - al_acquired_at l < account_lease_stale_ttl_seconds (al_kind l) cfg)
                         (leases_of rts i)
            in (kind_count Response_create kept, kind_count Stream kept, token_sum kept))"
    unfolding snapshot_counts[OF lease_inv_reclaim[OF assms, of cfg now]] by (simp add: Let_def)
  show ?thesis using c1 c2 by blast
qed

definition example_lease_settings :: lease_settings where
  "example_lease_settings =
     \<lparr>ls_response_create_limit = 2, ls_stream_limit = 1, ls_lease_ttl_seconds = 900,
      ls_request_budget_seconds = 600, ls_stream_request_budget_seconds = 7200,
      ls_bridge_request_budget_seconds = 300\<rparr>"

definition example_stream :: account_lease where
  "example_stream = \<lparr>al_lease_id = ''l1'', al_account_id = ''a'', al_kind = Stream, al_acquired_at = 100,
                     al_estimated_tokens = 50\<rparr>"

definition example_create :: account_lease where
  "example_create = \<lparr>al_lease_id = ''l2'', al_account_id = ''a'', al_kind = Response_create,
                     al_acquired_at = 100, al_estimated_tokens = 20\<rparr>"

definition example_runtime :: runtime_map where
  "example_runtime =
     [(''a'', RuntimeState\<lparr>rt_leases := Some [(''l1'', example_stream), (''l2'', example_create)],
        rt_inflight_response_creates := 1, rt_inflight_streams := 1, rt_leased_tokens := 70\<rparr>)]"

lemmas example_lease_defs =
  example_lease_settings_def example_stream_def example_create_def example_runtime_def RuntimeState_def

lemma example_runtime_inv: "lease_inv example_lease_settings example_runtime"
  by (simp add: lease_inv_def runtime_ok_def capped_def live_leases_def inflight_def cap_for_def
      kind_count_def token_sum_def example_lease_defs)

theorem stale_sweep_is_exact_witness:
  "leases_of (reclaim_stale_account_leases_locked example_lease_settings 1100 example_runtime) ''a'' =
     [(''l1'', example_stream)]"
  using stale_sweep_is_exact[OF example_runtime_inv, of 1100 "''a''"]
  by (simp add: leases_of_def live_leases_def account_lease_stale_ttl_seconds_def example_lease_defs)

text \<open>
  C38: Acquiring a lease and releasing it is a round trip. In a runtime whose counters and limits are in order, and with a lease id
  that the account does not use, when an acquisition succeeds, the release of the lease it returned succeeds and brings the
  leases and the three counters of every account back to what they were after the sweep of stale leases that opened the
  acquisition; releasing the same lease once more does nothing.
\<close>

theorem acquire_release_roundtrip:
  assumes "lease_inv cfg rts" and "lease_fresh uuid i rts"
    and "acquire_account_lease cfg uuid (t_reclaim, t_mono, t_wall) i kind tokens rts = (rts1, Some lease)"
    and "release_account_lease_locked lease rts1 = (rts2, released)"
  shows "released \<and>
     leases_of rts2 j = leases_of (reclaim_stale_account_leases_locked cfg t_reclaim rts) j \<and>
     (account_pressure_snapshot j rts2 =
       account_pressure_snapshot j (reclaim_stale_account_leases_locked cfg t_reclaim rts)) \<and>
     release_account_lease_locked lease rts2 = (rts2, False)"
proof -
  let ?swept = "reclaim_stale_account_leases_locked cfg t_reclaim rts"
  let ?rts = "setdefault i ?swept"
  have acq: "acquire_account_lease_locked uuid t_mono t_wall i kind tokens ?rts = (rts1, lease)"
    using assms(3) by (auto simp: acquire_account_lease_def Let_def split_def split: if_splits prod.splits)
  note fresh = fresh_after_reclaim[OF assms(1,2), of cfg t_reclaim]
  note L = leases_of_acquire[OF fresh acq]
  have nin: "uuid \<notin> fst ` set (leases_of ?swept i)"
    using fresh by (auto simp: lease_fresh_def leases_of_def map_of_setdefault default_def split: option.splits)
  have inv1: "lease_inv cfg rts1"
    using lease_inv_acquire_account_lease[OF assms(1,2), of "(t_reclaim, t_mono, t_wall)" kind tokens] assms(3) by simp
  have rts2: "rts2 = fst (release_account_lease_locked lease rts1)" and rel: "released = snd (release_account_lease_locked lease rts1)"
    using assms(4) by auto
  have c1: "released" by (simp add: rel release_result L)
  have same: "leases_of rts2 j = leases_of ?swept j" for j
    using nin by (simp add: rts2 leases_of_release L delete_append)
  have "lease_inv cfg rts2" by (simp add: rts2 lease_inv_release inv1)
  then have c3: "account_pressure_snapshot j rts2 = account_pressure_snapshot j ?swept"
    using snapshot_counts[OF lease_inv_reclaim[OF assms(1)]] by (simp add: snapshot_counts same)
  have "\<not> snd (release_account_lease_locked lease rts2)" using nin by (simp add: release_result same L)
  then have c4: "release_account_lease_locked lease rts2 = (rts2, False)"
    using release_miss[of lease rts2] by (simp add: prod_eq_iff)
  show ?thesis using c1 same c3 c4 by blast
qed

theorem acquire_release_roundtrip_witness:
  "\<exists>rts1 lease rts2. acquire_account_lease example_lease_settings ''l3'' (500, 500, 9000) ''a'' Response_create 10
       example_runtime = (rts1, Some lease) \<and>
     release_account_lease_locked lease rts1 = (rts2, True) \<and>
     leases_of rts2 ''a'' = [(''l1'', example_stream), (''l2'', example_create)] \<and>
     release_account_lease_locked lease rts2 = (rts2, False)"
proof -
  obtain rts1 lease where acq: "acquire_account_lease example_lease_settings ''l3'' (500, 500, 9000) ''a''
      Response_create 10 example_runtime = (rts1, Some lease)"
    by (simp add: acquire_account_lease_def reclaim_stale_account_leases_locked_def reclaim_runtime_def
        live_leases_def lease_stale_def account_lease_stale_ttl_seconds_def release_each_def
        acquire_account_lease_locked_def setdefault_def inflight_def cap_for_def Let_def example_lease_defs)
  have fresh: "lease_fresh ''l3'' ''a'' example_runtime"
    by (simp add: lease_fresh_def live_leases_def example_lease_defs)
  obtain rts2 released where rel: "release_account_lease_locked lease rts1 = (rts2, released)"
    by (cases "release_account_lease_locked lease rts1")
  note R = acquire_release_roundtrip[OF example_runtime_inv fresh acq rel]
  have "leases_of (reclaim_stale_account_leases_locked example_lease_settings 500 example_runtime) ''a'' =
      [(''l1'', example_stream), (''l2'', example_create)]"
    unfolding leases_of_reclaim[OF example_runtime_inv]
    by (simp add: leases_of_def live_leases_def lease_stale_def account_lease_stale_ttl_seconds_def example_lease_defs)
  with R[of "''a''"] acq rel show ?thesis by auto
qed

end
