(* ===== verification/Persistence.thy ===== *)
theory Persistence
  imports Leases
begin

text \<open>
  How the load balancer records what it learns about an account: the runtime state
  (\<open>_sync_runtime_state\<close>), the account row (\<open>_persist_state\<close>, \<open>_persist_state_if_current\<close> over
  \<open>AccountsRepository.update_status\<close> and \<open>update_status_if_current\<close>) and the cache of selection
  inputs (\<open>app/modules/proxy/account_cache.py\<close>), with the operations the proxy calls after an
  upstream response: \<open>mark_rate_limit\<close>, \<open>mark_quota_exceeded\<close>, \<open>mark_permanent_failure\<close>,
  \<open>record_errors\<close> and \<open>record_success\<close>.

  \<^item> The accounts table is an association list from id to row; a statement with a \<open>WHERE\<close> on the
    primary key and \<open>RETURNING id\<close> answers whether a row was hit.
  \<^item> The caller's \<open>account\<close> object is mutated by the code; the operations return it updated.
\<close>

section \<open>The cache of selection inputs\<close>

record ('k, 'd) selection_cache =
  sc_ttl_seconds :: int
  sc_entries :: "('k \<times> 'd \<times> real) list"
  sc_generation :: int

definition AccountSelectionCache :: "int \<Rightarrow> py_error + ('k, 'd) selection_cache" where
  "AccountSelectionCache ttl_seconds =
     (if ttl_seconds < 0 then Inl ValueError
      else Inr \<lparr>sc_ttl_seconds = ttl_seconds, sc_entries = [], sc_generation = 0\<rparr>)"

definition cache_get :: "real \<Rightarrow> 'k \<Rightarrow> ('k, 'd) selection_cache \<Rightarrow> 'd option" where
  "cache_get t_mono key c =
     (if sc_ttl_seconds c = 0 then None
      else case map_of (sc_entries c) key of
             None \<Rightarrow> None
           | Some (data, expires_at) \<Rightarrow> if t_mono \<ge> expires_at then None else Some data)"

definition cache_set ::
  "real \<Rightarrow> 'd \<Rightarrow> 'k \<Rightarrow> int option \<Rightarrow> ('k, 'd) selection_cache \<Rightarrow> ('k, 'd) selection_cache" where
  "cache_set t_mono data key generation c =
     (if generation \<noteq> None \<and> generation \<noteq> Some (sc_generation c) then c
      else c\<lparr>sc_entries := AList.update key (data, t_mono + of_int (sc_ttl_seconds c)) (sc_entries c)\<rparr>)"

definition cache_invalidate :: "('k, 'd) selection_cache \<Rightarrow> ('k, 'd) selection_cache" where
  "cache_invalidate c = c\<lparr>sc_generation := sc_generation c + 1, sc_entries := []\<rparr>"

section \<open>The accounts table\<close>

type_synonym accounts_table = "(string \<times> account) list"

text \<open>\<open>blocked_at = None\<close> is the sentinel \<open>_UNSET\<close>: the column is left alone.\<close>

definition write_status ::
  "AccountStatus \<Rightarrow> string option \<Rightarrow> int option \<Rightarrow> int option option \<Rightarrow> account \<Rightarrow> account" where
  "write_status status reason reset_at blocked_at row =
     row\<lparr>acct_status := status, acct_deactivation_reason := reason, acct_reset_at := reset_at,
         acct_blocked_at := default blocked_at (acct_blocked_at row)\<rparr>"

definition update_status ::
  "string \<Rightarrow> AccountStatus \<Rightarrow> string option \<Rightarrow> int option \<Rightarrow> int option option \<Rightarrow> accounts_table
   \<Rightarrow> accounts_table \<times> bool" where
  "update_status account_id status reason reset_at blocked_at tbl =
     (AList.map_entry account_id (write_status status reason reset_at blocked_at) tbl,
      map_of tbl account_id \<noteq> None)"

definition row_matches ::
  "AccountStatus \<Rightarrow> string option \<Rightarrow> int option \<Rightarrow> int option option \<Rightarrow> account \<Rightarrow> bool" where
  "row_matches status reason reset_at blocked_at row =
     (acct_status row = status \<and> acct_deactivation_reason row = reason \<and> acct_reset_at row = reset_at \<and>
      (case blocked_at of None \<Rightarrow> True | Some b \<Rightarrow> acct_blocked_at row = b))"

definition update_status_if_current ::
  "string \<Rightarrow> AccountStatus \<Rightarrow> string option \<Rightarrow> int option \<Rightarrow> int option option
   \<Rightarrow> AccountStatus \<Rightarrow> string option \<Rightarrow> int option \<Rightarrow> int option option \<Rightarrow> accounts_table
   \<Rightarrow> accounts_table \<times> bool" where
  "update_status_if_current account_id status reason reset_at blocked_at
       expected_status expected_reason expected_reset_at expected_blocked_at tbl =
     (case map_of tbl account_id of
        None \<Rightarrow> (tbl, False)
      | Some row \<Rightarrow>
          if row_matches expected_status expected_reason expected_reset_at expected_blocked_at row
          then (AList.map_entry account_id (write_status status reason reset_at blocked_at) tbl, True)
          else (tbl, False))"

section \<open>Recording what was learned\<close>

definition normalize_account_routing_policy :: "string option \<Rightarrow> string" where
  "normalize_account_routing_policy value =
     (case value of
        None \<Rightarrow> ROUTING_POLICY_NORMAL
      | Some v \<Rightarrow>
          if v \<in> {ROUTING_POLICY_NORMAL, ROUTING_POLICY_BURN_FIRST, ROUTING_POLICY_PRESERVE} then v
          else ROUTING_POLICY_NORMAL)"

definition state_of_runtime :: "account \<Rightarrow> runtime_state \<Rightarrow> account_state" where
  "state_of_runtime account rt =
     (AccountState (acct_id account) (acct_status account))
       \<lparr>st_reset_at := rt_reset_at rt,
        st_blocked_at := (case acct_blocked_at account of Some b \<Rightarrow> Some (of_int b) | None \<Rightarrow> rt_blocked_at rt),
        st_cooldown_until := rt_cooldown_until rt,
        st_last_error_at := rt_last_error_at rt,
        st_last_selected_at := rt_last_selected_at rt,
        st_error_count := rt_error_count rt,
        st_deactivation_reason := acct_deactivation_reason account,
        st_plan_type := Some (acct_plan_type account),
        st_capacity_credits := capacity_for_plan (Some (acct_plan_type account)) ''secondary'',
        st_routing_policy := normalize_account_routing_policy (Some (acct_routing_policy account))\<rparr>"

definition state_for :: "account \<Rightarrow> runtime_map \<Rightarrow> runtime_map \<times> account_state" where
  "state_for account rts =
     (let rts = setdefault (acct_id account) rts
      in (rts, state_of_runtime account (the (map_of rts (acct_id account)))))"

definition sync_dirty :: "account \<Rightarrow> account_state \<Rightarrow> bool \<Rightarrow> runtime_state \<Rightarrow> bool" where
  "sync_dirty account state selected rt =
     (rt_reset_at rt \<noteq> st_reset_at state \<or> rt_cooldown_until rt \<noteq> st_cooldown_until state \<or>
      rt_blocked_at rt \<noteq> st_blocked_at state \<or> rt_last_error_at rt \<noteq> st_last_error_at state \<or>
      rt_error_count rt \<noteq> st_error_count state \<or> acct_status account \<noteq> st_status state \<or>
      acct_deactivation_reason account \<noteq> st_deactivation_reason state \<or> selected)"

definition sync_fields :: "account \<Rightarrow> account_state \<Rightarrow> bool \<Rightarrow> real \<Rightarrow> runtime_state \<Rightarrow> runtime_state" where
  "sync_fields account state selected t_wall rt =
     rt\<lparr>rt_reset_at := st_reset_at state, rt_cooldown_until := st_cooldown_until state,
        rt_blocked_at := st_blocked_at state, rt_last_error_at := st_last_error_at state,
        rt_error_count := st_error_count state,
        rt_last_selected_at := (if selected then Some t_wall else rt_last_selected_at rt),
        rt_version := (if sync_dirty account state selected rt then rt_version rt + 1 else rt_version rt)\<rparr>"

definition touch_selected :: "real \<Rightarrow> runtime_state \<Rightarrow> runtime_state" where
  "touch_selected t_wall rt = rt\<lparr>rt_last_selected_at := Some t_wall, rt_version := rt_version rt + 1\<rparr>"

definition sync_runtime_state ::
  "real \<Rightarrow> account \<Rightarrow> account_state \<Rightarrow> bool \<Rightarrow> int option \<Rightarrow> runtime_map \<Rightarrow> runtime_map \<times> bool" where
  "sync_runtime_state t_wall account state selected expected_version rts =
     (let i = acct_id account; rts = setdefault i rts; rt = the (map_of rts i)
      in if expected_version \<noteq> None \<and> expected_version \<noteq> Some (rt_version rt)
         then (if selected then AList.map_entry i (touch_selected t_wall) rts else rts, False)
         else (AList.map_entry i (sync_fields account state selected t_wall) rts, True))"

text \<open>\<open>int(x) if x else None\<close>\<close>

definition int_or_none :: "real option \<Rightarrow> int option" where
  "int_or_none x = (case x of None \<Rightarrow> None | Some v \<Rightarrow> if v = 0 then None else Some (py_int v))"

definition persist_needed :: "account \<Rightarrow> account_state \<Rightarrow> bool" where
  "persist_needed account state =
     (acct_status account \<noteq> st_status state \<or>
      acct_deactivation_reason account \<noteq> st_deactivation_reason state \<or>
      acct_reset_at account \<noteq> int_or_none (st_reset_at state) \<or>
      acct_blocked_at account \<noteq> int_or_none (st_blocked_at state))"

definition account_with_state :: "account_state \<Rightarrow> account \<Rightarrow> account" where
  "account_with_state state account =
     write_status (st_status state) (st_deactivation_reason state) (int_or_none (st_reset_at state))
       (Some (int_or_none (st_blocked_at state))) account"

definition persist_state :: "account \<Rightarrow> account_state \<Rightarrow> accounts_table \<Rightarrow> accounts_table \<times> account" where
  "persist_state account state tbl =
     (if persist_needed account state
      then (fst (update_status (acct_id account) (st_status state) (st_deactivation_reason state)
                   (int_or_none (st_reset_at state)) (Some (int_or_none (st_blocked_at state))) tbl),
            account_with_state state account)
      else (tbl, account))"

definition persist_state_if_current ::
  "account \<Rightarrow> account_state \<Rightarrow> accounts_table \<Rightarrow> accounts_table \<times> account \<times> bool" where
  "persist_state_if_current account state tbl =
     (if persist_needed account state
      then let (tbl, updated) =
                 update_status_if_current (acct_id account) (st_status state)
                   (st_deactivation_reason state) (int_or_none (st_reset_at state))
                   (Some (int_or_none (st_blocked_at state))) (acct_status account)
                   (acct_deactivation_reason account) (acct_reset_at account)
                   (Some (acct_blocked_at account)) tbl
           in (tbl, if updated then account_with_state state account else account, updated)
      else (tbl, account, True))"

text \<open>
  The accounts of the selection are looked up by id in \<open>account_map\<close>, and the row objects in it are
  mutated when their row was written.
\<close>

fun persist_selection_state ::
  "account_state list \<Rightarrow> accounts_table \<Rightarrow> accounts_table \<Rightarrow> accounts_table \<times> accounts_table \<times> string list" where
  "persist_selection_state [] account_map tbl = (tbl, account_map, [])"
| "persist_selection_state (state # states) account_map tbl =
     (if st_ignore_standard_quota state then persist_selection_state states account_map tbl
      else case map_of account_map (st_account_id state) of
             None \<Rightarrow> persist_selection_state states account_map tbl
           | Some account \<Rightarrow>
               let (tbl, account', persisted) = persist_state_if_current account state tbl;
                   account_map = AList.map_entry (st_account_id state) (\<lambda>_. account') account_map;
                   (tbl, account_map, stale) = persist_selection_state states account_map tbl
               in (tbl, account_map, if persisted then stale else acct_id account # stale))"

section \<open>Operations called after an upstream response\<close>

record ('k, 'd) load_balancer =
  lb_runtime :: runtime_map
  lb_accounts :: accounts_table
  lb_cache :: "('k, 'd) selection_cache"

definition record_failure ::
  "real \<Rightarrow> (account_state \<Rightarrow> account_state) \<Rightarrow> account \<Rightarrow> ('k, 'd) load_balancer
   \<Rightarrow> ('k, 'd) load_balancer \<times> account" where
  "record_failure t_wall handler account lb =
     (let (rts, state) = state_for account (lb_runtime lb);
          state = handler state;
          (rts, _) = sync_runtime_state t_wall account state False None rts;
          (tbl, account) = persist_state account state (lb_accounts lb)
      in (lb\<lparr>lb_runtime := rts, lb_accounts := tbl, lb_cache := cache_invalidate (lb_cache lb)\<rparr>, account))"

definition mark_rate_limit ::
  "real \<Rightarrow> real \<times> real \<times> real \<times> real \<Rightarrow> real \<Rightarrow> account \<Rightarrow> upstream_error \<Rightarrow> ('k, 'd) load_balancer
   \<Rightarrow> ('k, 'd) load_balancer \<times> account" where
  "mark_rate_limit t_wall clock jitter account error =
     record_failure t_wall (handle_rate_limit clock jitter error) account"

definition mark_quota_exceeded ::
  "real \<Rightarrow> real \<times> real \<times> real \<times> real \<Rightarrow> account \<Rightarrow> upstream_error \<Rightarrow> ('k, 'd) load_balancer
   \<Rightarrow> ('k, 'd) load_balancer \<times> account" where
  "mark_quota_exceeded t_wall clock account error =
     record_failure t_wall (handle_quota_exceeded clock error) account"

definition mark_permanent_failure ::
  "real \<Rightarrow> account \<Rightarrow> string \<Rightarrow> ('k, 'd) load_balancer \<Rightarrow> ('k, 'd) load_balancer \<times> account" where
  "mark_permanent_failure t_wall account error_code =
     record_failure t_wall (handle_permanent_failure error_code) account"

definition reset_probe_streak :: "runtime_state \<Rightarrow> runtime_state" where
  "reset_probe_streak rt =
     (if rt_health_tier rt = HEALTH_TIER_PROBING then rt\<lparr>rt_probe_success_streak := 0\<rparr> else rt)"

definition record_errors :: "real \<Rightarrow> account \<Rightarrow> int \<Rightarrow> ('k, 'd) load_balancer \<Rightarrow> ('k, 'd) load_balancer" where
  "record_errors t_wall account count lb =
     (if count < 1 then lb
      else
        let (rts, state) = state_for account (lb_runtime lb);
            state = state\<lparr>st_error_count := st_error_count state + count, st_last_error_at := Some t_wall\<rparr>;
            (rts, _) = sync_runtime_state t_wall account state False None rts;
            rts = AList.map_entry (acct_id account) reset_probe_streak rts;
            (tbl, _, _) = persist_state_if_current account state (lb_accounts lb)
        in lb\<lparr>lb_runtime := rts, lb_accounts := tbl\<rparr>)"

definition record_error :: "real \<Rightarrow> account \<Rightarrow> ('k, 'd) load_balancer \<Rightarrow> ('k, 'd) load_balancer" where
  "record_error t_wall account = record_errors t_wall account 1"

definition success_fields :: "runtime_state \<Rightarrow> runtime_state" where
  "success_fields rt =
     (let rt = (if rt_error_count rt > 0
                then rt\<lparr>rt_error_count := 0, rt_last_error_at := None, rt_version := rt_version rt + 1\<rparr> else rt)
      in if rt_health_tier rt = HEALTH_TIER_PROBING
         then rt\<lparr>rt_probe_success_streak := rt_probe_success_streak rt + 1, rt_version := rt_version rt + 1\<rparr>
         else rt)"

definition record_success :: "account \<Rightarrow> ('k, 'd) load_balancer \<Rightarrow> ('k, 'd) load_balancer" where
  "record_success account lb = lb\<lparr>lb_runtime := AList.map_entry (acct_id account) success_fields (lb_runtime lb)\<rparr>"

section \<open>The leases are not touched\<close>

interpretation sync_update: runtime_update "sync_fields account state selected t_wall"
  for account state selected t_wall
  by unfold_locales (simp_all add: sync_fields_def)

interpretation touch_update: runtime_update "touch_selected t_wall" for t_wall
  by unfold_locales (simp_all add: touch_selected_def)

interpretation probe_update: runtime_update reset_probe_streak
  by unfold_locales (simp_all add: reset_probe_streak_def)

interpretation success_update: runtime_update success_fields
  by unfold_locales (simp_all add: success_fields_def Let_def)

lemma lease_inv_sync:
  "lease_inv cfg rts \<Longrightarrow>
   lease_inv cfg (fst (sync_runtime_state t_wall account state selected expected_version rts))"
  by (simp add: sync_runtime_state_def Let_def lease_inv_setdefault sync_update.keeps_inv touch_update.keeps_inv)

lemma lease_inv_state_for: "lease_inv cfg rts \<Longrightarrow> lease_inv cfg (fst (state_for account rts))"
  by (simp add: state_for_def Let_def lease_inv_setdefault)

lemma lease_inv_record_failure:
  "lease_inv cfg (lb_runtime lb) \<Longrightarrow> lease_inv cfg (lb_runtime (fst (record_failure t_wall handler account lb)))"
  by (simp add: record_failure_def Let_def split_def lease_inv_sync lease_inv_state_for)

lemma lease_inv_record_errors:
  "lease_inv cfg (lb_runtime lb) \<Longrightarrow> lease_inv cfg (lb_runtime (record_errors t_wall account count lb))"
  by (simp add: record_errors_def Let_def split_def lease_inv_sync lease_inv_state_for probe_update.keeps_inv)

lemma lease_inv_record_success:
  "lease_inv cfg (lb_runtime lb) \<Longrightarrow> lease_inv cfg (lb_runtime (record_success account lb))"
  by (simp add: record_success_def success_update.keeps_inv)

section \<open>Persisting\<close>

lemma map_of_map_entry_other [simp]: "j \<noteq> i \<Longrightarrow> map_of (AList.map_entry i f al) j = map_of al j"
  by (simp add: map_of_map_entry)

lemma map_of_map_entry_same [simp]: "map_of (AList.map_entry i f al) i = map_option f (map_of al i)"
  by (simp add: map_of_map_entry split: option.split)

lemma row_matches_self:
  "row_matches (acct_status row) (acct_deactivation_reason row) (acct_reset_at row) (Some (acct_blocked_at row)) row"
  by (simp add: row_matches_def)

text \<open>The four columns a status write compares and sets.\<close>

definition status_columns :: "account \<Rightarrow> AccountStatus \<times> string option \<times> int option \<times> int option" where
  "status_columns a = (acct_status a, acct_deactivation_reason a, acct_reset_at a, acct_blocked_at a)"

definition state_columns :: "account_state \<Rightarrow> AccountStatus \<times> string option \<times> int option \<times> int option" where
  "state_columns s =
     (st_status s, st_deactivation_reason s, int_or_none (st_reset_at s), int_or_none (st_blocked_at s))"

lemma persist_needed_iff: "persist_needed a s \<longleftrightarrow> status_columns a \<noteq> state_columns s"
  by (auto simp: persist_needed_def status_columns_def state_columns_def)

lemma status_columns_with_state [simp]: "status_columns (account_with_state s a) = state_columns s"
  by (simp add: status_columns_def state_columns_def account_with_state_def write_status_def)

lemma row_matches_iff:
  "row_matches (acct_status a) (acct_deactivation_reason a) (acct_reset_at a) (Some (acct_blocked_at a)) row \<longleftrightarrow>
   status_columns row = status_columns a"
  by (auto simp: row_matches_def status_columns_def)

text \<open>The compare-and-set in terms of the columns.\<close>

lemma persist_state_if_current_eq:
  "persist_state_if_current a s tbl =
     (if status_columns a = state_columns s then (tbl, a, True)
      else case map_of tbl (acct_id a) of
             None \<Rightarrow> (tbl, a, False)
           | Some row \<Rightarrow>
               if status_columns row = status_columns a
               then (AList.map_entry (acct_id a) (account_with_state s) tbl, account_with_state s a, True)
               else (tbl, a, False))"
proof -
  have "account_with_state s =
      write_status (st_status s) (st_deactivation_reason s) (int_or_none (st_reset_at s))
        (Some (int_or_none (st_blocked_at s)))"
    by (rule ext) (simp add: account_with_state_def)
  then show ?thesis
    unfolding persist_state_if_current_def persist_needed_iff update_status_if_current_def row_matches_iff
    by (simp split: option.split)
qed

text \<open>
  C14: A status derived from a stale snapshot never overwrites a newer row. Two selections that read
  the same snapshot of an account and derive different changes from it cannot both write: if the
  first write succeeded, the second one is refused, leaves the table exactly as the first left it,
  and the row keeps the status, reason, reset and block time of the first.
\<close>

theorem stale_snapshot_cannot_overwrite:
  assumes "status_columns account \<noteq> state_columns first"
    and "status_columns account \<noteq> state_columns second"
    and "persist_state_if_current account first tbl = (tbl1, account1, True)"
  shows "persist_state_if_current account second tbl1 = (tbl1, account, False) \<and>
     (\<exists>row. map_of tbl1 (acct_id account) = Some row \<and> status_columns row = state_columns first) \<and>
     (j \<noteq> acct_id account \<longrightarrow> map_of tbl1 j = map_of tbl j)"
proof -
  obtain row where row: "map_of tbl (acct_id account) = Some row"
    and tbl1: "tbl1 = AList.map_entry (acct_id account) (account_with_state first) tbl"
    using assms(1,3) by (auto simp: persist_state_if_current_eq split: option.splits if_splits)
  then have new: "map_of tbl1 (acct_id account) = Some (account_with_state first row)" by simp
  then have c1: "\<exists>row. map_of tbl1 (acct_id account) = Some row \<and> status_columns row = state_columns first"
    by simp
  have c2: "persist_state_if_current account second tbl1 = (tbl1, account, False)"
    using assms(1,2) new by (auto simp: persist_state_if_current_eq)
  have c3: "map_of tbl1 j = map_of tbl j" if "j \<noteq> acct_id account" using that by (simp add: tbl1)
  show ?thesis using c1 c2 c3 by blast
qed

definition example_account :: account where
  "example_account =
     \<lparr>acct_id = ''a'', acct_plan_type = ''plus'', acct_routing_policy = ''normal'', acct_status = ACTIVE,
      acct_deactivation_reason = None, acct_reset_at = None, acct_blocked_at = None,
      acct_security_work_authorized = False\<rparr>"

theorem stale_snapshot_cannot_overwrite_witness:
  "let first = (AccountState ''a'' RATE_LIMITED)\<lparr>st_reset_at := Some 700\<rparr>;
       second = AccountState ''a'' QUOTA_EXCEEDED;
       tbl = [(''a'', example_account)];
       tbl1 = fst (persist_state_if_current example_account first tbl)
   in status_columns (the (map_of tbl1 ''a'')) = (RATE_LIMITED, None, Some 700, None) \<and>
      persist_state_if_current example_account second tbl1 = (tbl1, example_account, False)"
proof -
  let ?first = "(AccountState ''a'' RATE_LIMITED)\<lparr>st_reset_at := Some 700\<rparr>"
  let ?second = "AccountState ''a'' QUOTA_EXCEEDED"
  have cols: "status_columns example_account \<noteq> state_columns ?first" "status_columns example_account \<noteq> state_columns ?second"
    by (simp_all add: status_columns_def state_columns_def example_account_def AccountState_def int_or_none_def)
  obtain tbl1 a1 where p: "persist_state_if_current example_account ?first [(''a'', example_account)] = (tbl1, a1, True)"
    using cols(1) by (simp add: persist_state_if_current_eq) (simp add: example_account_def)
  have id: "acct_id example_account = ''a''" by (simp add: example_account_def)
  show ?thesis
    unfolding Let_def p fst_conv using stale_snapshot_cannot_overwrite[OF cols p, of "''b''"] id
    by (auto simp: state_columns_def AccountState_def int_or_none_def)
qed

section \<open>Failures reach the row, the runtime and the cache\<close>

lemma record_failure_effect:
  assumes row: "map_of (lb_accounts lb) (acct_id account) = Some row" "status_columns row = status_columns account"
    and run: "record_failure t_wall handler account lb = (lb', account')"
  defines "state \<equiv> handler (state_of_runtime account (default (map_of (lb_runtime lb) (acct_id account)) RuntimeState))"
  shows "\<exists>row'. map_of (lb_accounts lb') (acct_id account) = Some row' \<and> status_columns row' = state_columns state"
    and "status_columns account' = state_columns state"
    and "\<exists>rt'. map_of (lb_runtime lb') (acct_id account) = Some rt' \<and> rt_reset_at rt' = st_reset_at state \<and>
           rt_cooldown_until rt' = st_cooldown_until state \<and> rt_blocked_at rt' = st_blocked_at state \<and>
           rt_error_count rt' = st_error_count state"
    and "lb_cache lb' = cache_invalidate (lb_cache lb)"
proof -
  let ?i = "acct_id account"
  have st: "snd (state_for account (lb_runtime lb)) = state_of_runtime account (default (map_of (lb_runtime lb) ?i) RuntimeState)"
    by (simp add: state_for_def Let_def map_of_setdefault)
  have eqs: "lb_accounts lb' = fst (persist_state account state (lb_accounts lb))"
      "account' = snd (persist_state account state (lb_accounts lb))"
      "lb_runtime lb' = fst (sync_runtime_state t_wall account state False None (fst (state_for account (lb_runtime lb))))"
      "lb_cache lb' = cache_invalidate (lb_cache lb)"
    using run by (auto simp: record_failure_def Let_def split_def state_def st)
  then show "lb_cache lb' = cache_invalidate (lb_cache lb)" by simp
  have w: "account_with_state state =
      write_status (st_status state) (st_deactivation_reason state) (int_or_none (st_reset_at state))
        (Some (int_or_none (st_blocked_at state)))"
    by (rule ext) (simp add: account_with_state_def)
  show "\<exists>row'. map_of (lb_accounts lb') ?i = Some row' \<and> status_columns row' = state_columns state"
    using row by (cases "persist_needed account state")
      (simp_all add: eqs persist_state_def update_status_def w[symmetric] persist_needed_iff)
  show "status_columns account' = state_columns state"
    by (cases "persist_needed account state") (simp_all add: eqs persist_state_def persist_needed_iff)
  show "\<exists>rt'. map_of (lb_runtime lb') ?i = Some rt' \<and> rt_reset_at rt' = st_reset_at state \<and>
      rt_cooldown_until rt' = st_cooldown_until state \<and> rt_blocked_at rt' = st_blocked_at state \<and>
      rt_error_count rt' = st_error_count state"
    by (simp add: eqs sync_runtime_state_def state_for_def Let_def map_of_setdefault sync_fields_def)
qed

lemma cache_get_invalidated [simp]: "cache_get t key (cache_invalidate c) = None"
  by (simp add: cache_get_def cache_invalidate_def)

lemma rate_limit_columns:
  "\<exists>r. state_columns (handle_rate_limit (t_error, t_blocked, t_reset, t_cooldown) jitter error s) =
       (RATE_LIMITED, st_deactivation_reason s, r, int_or_none (Some t_blocked))"
  by (simp add: handle_rate_limit_def state_columns_def Let_def split: option.split)

lemma quota_exceeded_columns:
  "\<exists>r. state_columns (handle_quota_exceeded (t_blocked, t_cooldown, t_reset, t_default) error s) =
       (QUOTA_EXCEEDED, st_deactivation_reason s, r, int_or_none (Some t_blocked))"
  by (simp add: handle_quota_exceeded_def state_columns_def Let_def split: option.split)

text \<open>
  A failure the upstream reports is recorded everywhere at once. When the caller's account object
  is current, marking a permanent failure leaves the row, and the object, in the terminal status of
  the error code with its reason and no block time; marking a rate limit or an exhausted quota
  leaves them in that status with the time of the block; and no selection input cached before is
  served afterwards.
\<close>

theorem failures_are_recorded:
  assumes row: "map_of (lb_accounts lb) (acct_id account) = Some row" "status_columns row = status_columns account"
  shows "(mark_permanent_failure t_wall account code lb = (lb1, account1) \<longrightarrow>
       (\<exists>row'. map_of (lb_accounts lb1) (acct_id account) = Some row' \<and> status_columns row' = status_columns account1) \<and>
       acct_status account1 = account_status_for_permanent_failure code \<and>
       acct_deactivation_reason account1 \<noteq> None \<and> acct_blocked_at account1 = None \<and>
       cache_get t key (lb_cache lb1) = None) \<and>
     (mark_rate_limit t_wall (t_error, t_blocked, t_reset, t_cooldown) jitter account error lb = (lb2, account2) \<longrightarrow>
       (\<exists>row'. map_of (lb_accounts lb2) (acct_id account) = Some row' \<and> status_columns row' = status_columns account2) \<and>
       acct_status account2 = RATE_LIMITED \<and> acct_blocked_at account2 = int_or_none (Some t_blocked) \<and>
       cache_get t key (lb_cache lb2) = None) \<and>
     (mark_quota_exceeded t_wall (t_blocked, t_cooldown, t_reset, t_default) account error lb = (lb3, account3) \<longrightarrow>
       (\<exists>row'. map_of (lb_accounts lb3) (acct_id account) = Some row' \<and> status_columns row' = status_columns account3) \<and>
       acct_status account3 = QUOTA_EXCEEDED \<and> acct_blocked_at account3 = int_or_none (Some t_blocked) \<and>
       cache_get t key (lb_cache lb3) = None)"
proof -
  have c1: "(\<exists>row'. map_of (lb_accounts lb1) (acct_id account) = Some row' \<and> status_columns row' = status_columns account1) \<and>
           acct_status account1 = account_status_for_permanent_failure code \<and>
           acct_deactivation_reason account1 \<noteq> None \<and> acct_blocked_at account1 = None \<and>
           cache_get t key (lb_cache lb1) = None"
    if "mark_permanent_failure t_wall account code lb = (lb1, account1)"
    using record_failure_effect[OF row that[unfolded mark_permanent_failure_def]]
    by (auto simp: handle_permanent_failure_def state_columns_def status_columns_def int_or_none_def)
  have c2: "(\<exists>row'. map_of (lb_accounts lb2) (acct_id account) = Some row' \<and> status_columns row' = status_columns account2) \<and>
           acct_status account2 = RATE_LIMITED \<and> acct_blocked_at account2 = int_or_none (Some t_blocked) \<and>
           cache_get t key (lb_cache lb2) = None"
    if "mark_rate_limit t_wall (t_error, t_blocked, t_reset, t_cooldown) jitter account error lb = (lb2, account2)"
  proof -
    note effect = record_failure_effect[OF row that[unfolded mark_rate_limit_def]]
    obtain r where "status_columns account2 =
        (RATE_LIMITED, acct_deactivation_reason account, r, int_or_none (Some t_blocked))"
      using effect(2) rate_limit_columns[of t_error t_blocked t_reset t_cooldown jitter error
          "state_of_runtime account (default (map_of (lb_runtime lb) (acct_id account)) RuntimeState)"]
      by (auto simp: state_of_runtime_def)
    with effect(1,2,4) show ?thesis by (simp add: status_columns_def)
  qed
  have c3: "(\<exists>row'. map_of (lb_accounts lb3) (acct_id account) = Some row' \<and> status_columns row' = status_columns account3) \<and>
           acct_status account3 = QUOTA_EXCEEDED \<and> acct_blocked_at account3 = int_or_none (Some t_blocked) \<and>
           cache_get t key (lb_cache lb3) = None"
    if "mark_quota_exceeded t_wall (t_blocked, t_cooldown, t_reset, t_default) account error lb = (lb3, account3)"
  proof -
    note effect = record_failure_effect[OF row that[unfolded mark_quota_exceeded_def]]
    obtain r where "status_columns account3 =
        (QUOTA_EXCEEDED, acct_deactivation_reason account, r, int_or_none (Some t_blocked))"
      using effect(2) quota_exceeded_columns[of t_blocked t_cooldown t_reset t_default error
          "state_of_runtime account (default (map_of (lb_runtime lb) (acct_id account)) RuntimeState)"]
      by (auto simp: state_of_runtime_def)
    with effect(1,2,4) show ?thesis by (simp add: status_columns_def)
  qed
  show ?thesis using c1 c2 c3 by blast
qed

definition example_lb :: "(string, nat) load_balancer" where
  "example_lb =
     \<lparr>lb_runtime = [], lb_accounts = [(''a'', example_account)],
      lb_cache = \<lparr>sc_ttl_seconds = 5, sc_entries = [(''k'', 7, 105)], sc_generation = 3\<rparr>\<rparr>"

theorem failures_are_recorded_witness:
  "cache_get 101 ''k'' (lb_cache example_lb) = Some 7 \<and>
   (let (lb1, account1) = mark_permanent_failure 100 example_account ''token_expired'' example_lb
    in acct_status account1 = REAUTH_REQUIRED \<and> cache_get 101 ''k'' (lb_cache lb1) = None)"
proof -
  obtain lb1 account1 where m: "mark_permanent_failure 100 example_account ''token_expired'' example_lb = (lb1, account1)"
    by (cases "mark_permanent_failure 100 example_account ''token_expired'' example_lb")
  have row: "map_of (lb_accounts example_lb) (acct_id example_account) = Some example_account"
    by (simp add: example_lb_def) (simp add: example_account_def)
  have "account_status_for_permanent_failure ''token_expired'' = REAUTH_REQUIRED"
    by (simp add: account_status_for_permanent_failure_def REAUTH_REQUIRED_FAILURE_CODES_def)
  with failures_are_recorded[OF row refl, of 100 "''token_expired''" lb1 account1 101 "''k''", THEN conjunct1] m show ?thesis
    by (simp add: cache_get_def) (simp add: example_lb_def)
qed

section \<open>The cache never serves what was invalidated\<close>

datatype ('k, 'd) cache_op = CacheSet real 'd 'k "int option" | CacheInvalidate

fun cache_exec :: "('k, 'd) cache_op \<Rightarrow> ('k, 'd) selection_cache \<Rightarrow> ('k, 'd) selection_cache" where
  "cache_exec (CacheSet t data key generation) c = cache_set t data key generation c"
| "cache_exec CacheInvalidate c = cache_invalidate c"

interpretation cache_machine: machine cache_exec "\<lambda>c. g \<le> sc_generation c" for g
proof
  fix s :: "('k, 'd) selection_cache" and op :: "('k, 'd) cache_op"
  assume "g \<le> sc_generation s"
  then show "g \<le> sc_generation (cache_exec op s)"
    by (cases op) (simp_all add: cache_set_def cache_invalidate_def)
qed

lemma ttl_fold [simp]: "sc_ttl_seconds (fold cache_exec ops c) = sc_ttl_seconds c"
proof (induction ops arbitrary: c)
  case (Cons op ops)
  have "sc_ttl_seconds (cache_exec op c) = sc_ttl_seconds c"
    by (cases op) (simp_all add: cache_set_def cache_invalidate_def)
  with Cons show ?case by simp
qed simp

text \<open>Every entry was put there by one of the operations.\<close>

lemma cache_entries_from_sets:
  assumes "(key, data, e) \<in> set (sc_entries (fold cache_exec ops c))"
  shows "(key, data, e) \<in> set (sc_entries c) \<or>
         (\<exists>t g. CacheSet t data key g \<in> set ops \<and> e = t + of_int (sc_ttl_seconds c))"
  using assms
proof (induction ops arbitrary: c)
  case (Cons op ops)
  have ttl: "sc_ttl_seconds (cache_exec op c) = sc_ttl_seconds c"
    by (cases op) (simp_all add: cache_set_def cache_invalidate_def)
  from Cons have "(key, data, e) \<in> set (sc_entries (cache_exec op c)) \<or>
      (\<exists>t g. CacheSet t data key g \<in> set ops \<and> e = t + of_int (sc_ttl_seconds c))"
    unfolding ttl[symmetric] by simp
  then show ?case
    by (cases op) (auto simp: cache_set_def cache_invalidate_def dest: set_update_cases split: if_splits)
qed simp

lemma generation_moves_on:
  "CacheInvalidate \<in> set ops \<Longrightarrow> sc_generation c < sc_generation (fold cache_exec ops c)"
proof (induction ops arbitrary: c)
  case (Cons op ops)
  show ?case
  proof (cases "op = CacheInvalidate")
    case True
    then have "sc_generation c + 1 \<le> sc_generation (cache_exec op c)" by (simp add: cache_invalidate_def)
    then have "sc_generation c + 1 \<le> sc_generation (fold cache_exec ops (cache_exec op c))"
      by (rule cache_machine.invar_run)
    then show ?thesis by simp
  next
    case False
    then have "sc_generation c \<le> sc_generation (cache_exec op c)" by (cases op) (simp_all add: cache_set_def)
    with Cons False show ?thesis by (force intro: le_less_trans)
  qed
qed simp

text \<open>
  After an invalidation the selection cache is fresh. Whatever reads, writes and further
  invalidations follow, a hit returns data that was stored after the invalidation and is younger
  than the time to live; and inputs whose loading began before an invalidation (their generation was
  read before it) are dropped instead of stored.
\<close>

theorem selection_cache_is_fresh:
  "(cache_get now key (fold cache_exec ops (cache_invalidate c)) = Some data \<longrightarrow>
       (\<exists>t g. CacheSet t data key g \<in> set ops \<and> now < t + of_int (sc_ttl_seconds c))) \<and>
     (CacheInvalidate \<in> set ops \<longrightarrow>
       cache_set t data key (Some (sc_generation c)) (fold cache_exec ops c) = fold cache_exec ops c)"
proof -
  have c1: "\<exists>t g. CacheSet t data key g \<in> set ops \<and> now < t + of_int (sc_ttl_seconds c)"
    if hit: "cache_get now key (fold cache_exec ops (cache_invalidate c)) = Some data"
  proof -
    obtain e where e: "map_of (sc_entries (fold cache_exec ops (cache_invalidate c))) key = Some (data, e)" "now < e"
      using hit by (auto simp: cache_get_def split: if_splits option.splits)
    from cache_entries_from_sets[OF map_of_SomeD[OF e(1)]] e(2) show ?thesis
      by (auto simp: cache_invalidate_def)
  qed
  have c2: "cache_set t data key (Some (sc_generation c)) (fold cache_exec ops c) = fold cache_exec ops c"
    if "CacheInvalidate \<in> set ops"
    using generation_moves_on[OF that, of c] by (simp add: cache_set_def)
  show ?thesis using c1 c2 by blast
qed

theorem selection_cache_is_fresh_witness:
  "let c = \<lparr>sc_ttl_seconds = 5, sc_entries = [(''k'', 7 :: nat, 105)], sc_generation = 3\<rparr>
   in cache_get 111 ''k'' (fold cache_exec [CacheSet 110 8 ''k'' (Some 4)] (cache_invalidate c)) = Some 8 \<and>
      cache_set 112 9 ''k'' (Some 3) (fold cache_exec [CacheInvalidate] c) = fold cache_exec [CacheInvalidate] c \<and>
      (\<exists>t g. CacheSet t 8 ''k'' g \<in> set [CacheSet 110 8 ''k'' (Some 4)] \<and> 111 < t + 5)"
proof -
  let ?c = "\<lparr>sc_ttl_seconds = 5, sc_entries = [(''k'', 7 :: nat, 105)], sc_generation = 3\<rparr>"
  have hit: "cache_get 111 ''k'' (fold cache_exec [CacheSet 110 8 ''k'' (Some 4)] (cache_invalidate ?c)) = Some 8"
    by (simp add: cache_get_def cache_set_def cache_invalidate_def)
  show ?thesis
    using hit selection_cache_is_fresh[of 111 "''k''" "[CacheSet 110 8 ''k'' (Some 4)]" ?c 8]
      selection_cache_is_fresh[of 111 "''k''" "[CacheInvalidate]" ?c 9 112]
    by (simp add: Let_def)
qed

end
