(* ===== verification/Account_State.thy ===== *)
theory Account_State
  imports Persistence
begin

text \<open>
  How the load balancer turns an account row, its latest usage samples and its runtime state into
  the \<open>AccountState\<close> the selection works on (\<open>_state_from_account\<close>, \<open>_build_states\<close> and the
  background recovery of \<open>app/modules/proxy/load_balancer.py\<close>).

  \<open>_state_from_account\<close> is one long function; the model splits it into the stages its comments name
  and composes them in its order. It reads the clock several times: the readings are the fields of
  \<open>state_clock\<close>. Comparing a naive with an aware datetime raises \<open>TypeError\<close>.
\<close>

section \<open>Settings and clock readings\<close>

record state_settings =
  ss_usage_refresh_interval_seconds :: int
  ss_soft_drain_enabled :: bool
  ss_drain :: drain_settings
  ss_inflight_penalty_pct :: real
  ss_lease_token_weight :: real

record state_clock =
  clk_now :: real
  clk_utc_window :: real
  clk_guard :: real
  clk_utc_guard :: real
  clk_cooldown :: real
  clk_quota :: "real \<times> real \<times> real"
  clk_health :: real
  clk_drain :: real

section \<open>Usage samples\<close>

definition usage_entry_is_recent_enough :: "state_settings \<Rightarrow> real \<Rightarrow> datetime option \<Rightarrow> bool" where
  "usage_entry_is_recent_enough cfg utc recorded_at =
     (case recorded_at of
        None \<Rightarrow> False
      | Some d \<Rightarrow> utc_seconds d \<ge> utc - of_int (max (ss_usage_refresh_interval_seconds cfg * 2) 180))"

definition usage_entry_is_recent_available :: "state_settings \<Rightarrow> real \<Rightarrow> usage_entry option \<Rightarrow> bool" where
  "usage_entry_is_recent_available cfg utc entry =
     (case entry of
        None \<Rightarrow> False
      | Some e \<Rightarrow> usage_entry_is_recent_enough cfg utc (ue_recorded_at e) \<and>
                  (case ue_used_percent e of None \<Rightarrow> False | Some u \<Rightarrow> u < 100))"

definition usage_entry_recorded_after_block :: "usage_entry option \<Rightarrow> real \<Rightarrow> bool" where
  "usage_entry_recorded_after_block entry blocked_at =
     (case entry of
        None \<Rightarrow> False
      | Some e \<Rightarrow> (case ue_recorded_at e of None \<Rightarrow> False | Some d \<Rightarrow> utc_seconds d > blocked_at))"

definition select_long_window_entry :: "account \<Rightarrow> usage_entry option \<Rightarrow> usage_entry option \<Rightarrow> usage_entry option" where
  "select_long_window_entry account monthly_entry secondary_entry =
     (if monthly_entry \<noteq> None \<and> capacity_for_plan (Some (acct_plan_type account)) ''monthly'' \<noteq> None
      then monthly_entry else secondary_entry)"

definition entry_is_monthly :: "usage_entry option \<Rightarrow> bool" where
  "entry_is_monthly entry = (case entry of None \<Rightarrow> False | Some e \<Rightarrow> ue_window e = Some ''monthly'')"

definition rate_limited_freshness_entry ::
  "account \<Rightarrow> usage_entry option \<Rightarrow> usage_entry option \<Rightarrow> usage_entry option" where
  "rate_limited_freshness_entry account primary_entry long_window_entry =
     (if entry_is_monthly long_window_entry \<and>
         capacity_for_plan (Some (acct_plan_type account)) ''monthly'' \<noteq> None
      then long_window_entry else primary_entry)"

text \<open>\<open>datetime.min\<close>, and \<open>>\<close> on datetimes.\<close>

definition datetime_min :: datetime where "datetime_min = Naive (- 62135596800)"

fun datetime_gt :: "datetime \<Rightarrow> datetime \<Rightarrow> py_error + bool" where
  "datetime_gt (Naive a) (Naive b) = Inr (a > b)"
| "datetime_gt (Aware a x) (Aware b y) = Inr (a - x > b - y)"
| "datetime_gt _ _ = Inl TypeError"

definition credit_key :: "usage_entry \<Rightarrow> datetime" where
  "credit_key e = default (ue_recorded_at e) datetime_min"

fun latest_credit_entry :: "usage_entry \<Rightarrow> usage_entry list \<Rightarrow> py_error + usage_entry" where
  "latest_credit_entry best [] = Inr best"
| "latest_credit_entry best (e # es) =
     (case datetime_gt (credit_key e) (credit_key best) of
        Inl err \<Rightarrow> Inl err
      | Inr gt \<Rightarrow> latest_credit_entry (if gt then e else best) es)"

type_synonym credit_status = "bool option \<times> bool option \<times> real option"

definition has_credit_data :: "usage_entry \<Rightarrow> bool" where
  "has_credit_data e =
     (ue_table e = StandardUsage \<and>
      \<not> (ue_credits_has e = None \<and> ue_credits_unlimited e = None \<and> ue_credits_balance e = None))"

definition extract_credit_status :: "usage_entry option list \<Rightarrow> py_error + credit_status" where
  "extract_credit_status entries =
     (case filter has_credit_data (map the (filter (\<lambda>e. e \<noteq> None) entries)) of
        [] \<Rightarrow> Inr (None, None, None)
      | e # es \<Rightarrow>
          (case latest_credit_entry e es of
             Inl err \<Rightarrow> Inl err
           | Inr best \<Rightarrow> Inr (ue_credits_has best, ue_credits_unlimited best, ue_credits_balance best)))"

section \<open>The stages of the state\<close>

record window_inputs =
  wi_primary_used :: "real option"
  wi_primary_reset :: "int option"
  wi_primary_window_minutes :: "int option"
  wi_long_entry :: "usage_entry option"
  wi_secondary_used :: "real option"
  wi_secondary_reset :: "int option"

definition entry_field :: "(usage_entry \<Rightarrow> 'a option) \<Rightarrow> usage_entry option \<Rightarrow> 'a option" where
  "entry_field f entry = (case entry of None \<Rightarrow> None | Some e \<Rightarrow> f e)"

text \<open>Which sample speaks for which window; a weekly sample in the short slot is moved.\<close>

definition resolve_windows :: "account \<Rightarrow> usage_entry option \<Rightarrow> usage_entry option \<Rightarrow> window_inputs" where
  "resolve_windows account primary_entry secondary_entry =
     (let long = (if entry_is_monthly secondary_entry \<and>
                     capacity_for_plan (Some (acct_plan_type account)) ''monthly'' = None
                  then None else secondary_entry);
          moved = (case primary_entry of
                     None \<Rightarrow> False
                   | Some e \<Rightarrow> should_use_weekly_primary (usage_history_to_window_row e)
                                 (map_option usage_history_to_window_row secondary_entry));
          long = (if moved then primary_entry else long);
          short = (if moved then None else primary_entry)
      in \<lparr>wi_primary_used = entry_field ue_used_percent short,
          wi_primary_reset = entry_field ue_reset_at short,
          wi_primary_window_minutes = entry_field ue_window_minutes short,
          wi_long_entry = long,
          wi_secondary_used = entry_field ue_used_percent long,
          wi_secondary_reset = entry_field ue_reset_at long\<rparr>)"

text \<open>A full window whose reset has passed is stale data: it counts as empty.\<close>

definition expire_sample :: "int \<Rightarrow> real option \<times> int option \<Rightarrow> real option \<times> int option" where
  "expire_sample now_epoch sample =
     (case sample of
        (Some used, Some reset) \<Rightarrow> if used \<ge> 100 \<and> reset \<le> now_epoch then (Some 0, None) else sample
      | _ \<Rightarrow> sample)"

definition expire_windows :: "int \<Rightarrow> window_inputs \<Rightarrow> window_inputs" where
  "expire_windows now_epoch w =
     (let (pu, pr) = expire_sample now_epoch (wi_primary_used w, wi_primary_reset w);
          (su, sr) = expire_sample now_epoch (wi_secondary_used w, wi_secondary_reset w)
      in w\<lparr>wi_primary_used := pu, wi_primary_reset := pr, wi_secondary_used := su, wi_secondary_reset := sr\<rparr>)"

text \<open>
  Plans without a short-window quota: the short window is dropped, and a rate limit that rests on it
  is lifted. The result says whether the persisted reset is to be ignored.
\<close>

definition ignores_short_window :: "account \<Rightarrow> usage_entry option \<Rightarrow> bool \<Rightarrow> window_inputs \<Rightarrow> bool" where
  "ignores_short_window account primary_entry long_available w =
     (capacity_for_plan (Some (acct_plan_type account)) ''primary'' = Some 0 \<and>
      (acct_status account \<noteq> RATE_LIMITED \<or>
       (wi_primary_window_minutes w \<noteq> None \<and> \<not> is_primary_window_minutes (wi_primary_window_minutes w) \<and>
        long_available) \<or>
       (primary_entry = None \<and> long_available)))"

definition drop_short_window :: "window_inputs \<Rightarrow> window_inputs" where
  "drop_short_window w =
     w\<lparr>wi_primary_used := None, wi_primary_reset := None, wi_primary_window_minutes := None\<rparr>"

definition seed_status :: "account \<Rightarrow> bool \<Rightarrow> AccountStatus" where
  "seed_status account ignore_short =
     (if ignore_short \<and> acct_status account = RATE_LIMITED then ACTIVE else acct_status account)"

definition initial_runtime_reset :: "account \<Rightarrow> runtime_state \<Rightarrow> bool \<Rightarrow> real option" where
  "initial_runtime_reset account rt ignore_short =
     (let db_reset_at =
            (if ignore_short \<and> acct_status account = RATE_LIMITED then None
             else if truthy (acct_reset_at account) then map_option of_int (acct_reset_at account) else None)
      in if seed_status account ignore_short \<in> {RATE_LIMITED, QUOTA_EXCEEDED} \<or> rt_blocked_at rt \<noteq> None
         then (if truthy db_reset_at then db_reset_at else rt_reset_at rt)
         else None)"

definition effective_blocked_at :: "account \<Rightarrow> runtime_state \<Rightarrow> real option" where
  "effective_blocked_at account rt =
     (case acct_blocked_at account of Some b \<Rightarrow> Some (of_int b) | None \<Rightarrow> rt_blocked_at rt)"

text \<open>A pending quota reset that a recent sample with a later reset contradicts is dropped.\<close>

definition drop_contradicted_reset ::
  "state_settings \<Rightarrow> state_clock \<Rightarrow> account \<Rightarrow> runtime_state \<Rightarrow> usage_entry option \<Rightarrow> real option \<Rightarrow> real option" where
  "drop_contradicted_reset cfg clk account rt long reset =
     (case reset of
        None \<Rightarrow> None
      | Some r \<Rightarrow>
          if acct_status account = QUOTA_EXCEEDED \<and> r > clk_guard clk \<and>
             effective_blocked_at account rt = None \<and>
             usage_entry_is_recent_available cfg (clk_utc_guard clk) long \<and>
             (case entry_field ue_reset_at long of None \<Rightarrow> False | Some lr \<Rightarrow> of_int lr > r)
          then None else reset)"

definition cooldown_ready :: "state_clock \<Rightarrow> account \<Rightarrow> runtime_state \<Rightarrow> bool" where
  "cooldown_ready clk account rt =
     (if acct_status account = QUOTA_EXCEEDED
      then (case effective_blocked_at account rt of
              None \<Rightarrow> False | Some b \<Rightarrow> clk_cooldown clk \<ge> b + QUOTA_EXCEEDED_COOLDOWN_SECONDS)
      else (case rt_cooldown_until rt of None \<Rightarrow> False | Some c \<Rightarrow> c \<le> clk_cooldown clk) \<and>
           rt_blocked_at rt \<noteq> None)"

definition freshness_entry ::
  "account \<Rightarrow> usage_entry option \<Rightarrow> usage_entry option \<Rightarrow> usage_entry option" where
  "freshness_entry account primary_entry long =
     (if acct_status account = QUOTA_EXCEEDED then long
      else if acct_status account = RATE_LIMITED
      then rate_limited_freshness_entry account primary_entry long
      else None)"

text \<open>
  Here the code reads the wall clock of the sample as UTC, whatever its time zone
  (\<open>replace(tzinfo=timezone.utc)\<close>).
\<close>

definition recorded_since :: "usage_entry option \<Rightarrow> real \<Rightarrow> bool" where
  "recorded_since entry blocked_at =
     (case entry_field ue_recorded_at entry of None \<Rightarrow> False | Some d \<Rightarrow> wall_as_utc d > blocked_at)"

definition clear_after_refresh ::
  "state_clock \<Rightarrow> account \<Rightarrow> runtime_state \<Rightarrow> usage_entry option \<Rightarrow> usage_entry option \<Rightarrow> real option \<Rightarrow> real option" where
  "clear_after_refresh clk account rt primary_entry long reset =
     (if cooldown_ready clk account rt
      then (case effective_blocked_at account rt of
              None \<Rightarrow> reset
            | Some b \<Rightarrow> if recorded_since (freshness_entry account primary_entry long) b then None else reset)
      else reset)"

definition next_blocked_at :: "account \<Rightarrow> runtime_state \<Rightarrow> AccountStatus \<Rightarrow> real option" where
  "next_blocked_at account rt status =
     (if status = QUOTA_EXCEEDED then effective_blocked_at account rt
      else if status = RATE_LIMITED \<and> acct_status account \<noteq> QUOTA_EXCEEDED then effective_blocked_at account rt
      else None)"

text \<open>The health tier of the account, and the runtime state it leaves behind.\<close>

definition health_update ::
  "state_settings \<Rightarrow> state_clock \<Rightarrow> account \<Rightarrow> AccountStatus \<Rightarrow> real option \<Rightarrow> real option \<Rightarrow> runtime_state
   \<Rightarrow> runtime_state \<times> int" where
  "health_update cfg clk account status used_percent secondary_used rt =
     (if ss_soft_drain_enabled cfg
      then let new_tier =
                 evaluate_health_tier (ss_drain cfg) (clk_health clk) (Some (clk_health clk))
                   (rt_drain_entered_at rt) (rt_probe_success_streak rt)
                   ((AccountState (acct_id account) status)
                      \<lparr>st_used_percent := used_percent, st_secondary_used_percent := secondary_used,
                       st_last_error_at := rt_last_error_at rt, st_error_count := rt_error_count rt,
                       st_health_tier := rt_health_tier rt,
                       st_routing_policy := normalize_account_routing_policy (Some (acct_routing_policy account))\<rparr>);
               rt1 = (if new_tier = HEALTH_TIER_DRAINING \<and> rt_health_tier rt \<noteq> HEALTH_TIER_DRAINING
                      then rt\<lparr>rt_drain_entered_at := Some (clk_drain clk), rt_probe_success_streak := 0\<rparr> else rt);
               rt2 = (if new_tier = HEALTH_TIER_HEALTHY
                      then rt1\<lparr>rt_drain_entered_at := None, rt_probe_success_streak := 0\<rparr> else rt1)
           in (rt2\<lparr>rt_health_tier := new_tier\<rparr>, new_tier)
      else (rt\<lparr>rt_drain_entered_at := None, rt_probe_success_streak := 0, rt_health_tier := HEALTH_TIER_HEALTHY\<rparr>,
            HEALTH_TIER_HEALTHY))"

definition long_window_capacity :: "account \<Rightarrow> usage_entry option \<Rightarrow> real" where
  "long_window_capacity account long =
     or_else (capacity_for_plan (Some (acct_plan_type account))
                (if entry_is_monthly long then ''monthly'' else ''secondary'')) 0"

text \<open>Requests in flight count as usage, so that concurrent requests spread out.\<close>

definition pressure_pct :: "state_settings \<Rightarrow> runtime_state \<Rightarrow> real \<Rightarrow> real" where
  "pressure_pct cfg rt capacity =
     of_int (rt_inflight_response_creates rt + rt_inflight_streams rt) * ss_inflight_penalty_pct cfg +
     (if capacity > 0 \<and> rt_leased_tokens rt > 0
      then rt_leased_tokens rt * ss_lease_token_weight cfg / capacity * 100 else 0)"

definition pressured :: "real \<Rightarrow> real option \<Rightarrow> real option" where
  "pressured pressure used = map_option (\<lambda>u. min 100 (u + pressure)) used"

definition state_windows ::
  "state_settings \<Rightarrow> state_clock \<Rightarrow> account \<Rightarrow> usage_entry option \<Rightarrow> usage_entry option \<Rightarrow> window_inputs \<times> bool" where
  "state_windows cfg clk account primary_entry secondary_entry =
     (let w = expire_windows (py_int (clk_now clk)) (resolve_windows account primary_entry secondary_entry);
          long_available = usage_entry_is_recent_available cfg (clk_utc_window clk) (wi_long_entry w);
          ignore_short = ignores_short_window account primary_entry long_available w
      in (if ignore_short then drop_short_window w else w, ignore_short))"

definition state_runtime_reset ::
  "state_settings \<Rightarrow> state_clock \<Rightarrow> account \<Rightarrow> runtime_state \<Rightarrow> usage_entry option \<Rightarrow> usage_entry option \<Rightarrow> bool
   \<Rightarrow> real option" where
  "state_runtime_reset cfg clk account rt primary_entry long ignore_short =
     clear_after_refresh clk account rt primary_entry long
       (drop_contradicted_reset cfg clk account rt long (initial_runtime_reset account rt ignore_short))"

definition state_from_account ::
  "state_settings \<Rightarrow> state_clock \<Rightarrow> account \<Rightarrow> usage_entry option \<Rightarrow> usage_entry option \<Rightarrow> runtime_state
   \<Rightarrow> py_error + (runtime_state \<times> account_state)" where
  "state_from_account cfg clk account primary_entry secondary_entry rt =
     (let (w, ignore_short) = state_windows cfg clk account primary_entry secondary_entry;
          long = wi_long_entry w
      in case extract_credit_status [primary_entry, long, secondary_entry] of
           Inl err \<Rightarrow> Inl err
         | Inr (credits_has, credits_unlimited, credits_balance) \<Rightarrow>
             let reset = state_runtime_reset cfg clk account rt primary_entry long ignore_short;
                 (status, used_percent, reset_at) =
                   apply_usage_quota (clk_quota clk) (seed_status account ignore_short)
                     (wi_primary_used w) (wi_primary_reset w) (wi_primary_window_minutes w) reset
                     (wi_secondary_used w) (wi_secondary_reset w)
                     credits_has credits_unlimited credits_balance False;
                 (rt, new_tier) = health_update cfg clk account status used_percent (wi_secondary_used w) rt;
                 capacity = long_window_capacity account long;
                 pressure = pressure_pct cfg rt capacity
             in Inr (rt,
                  (AccountState (acct_id account) status)
                    \<lparr>st_used_percent := pressured pressure used_percent,
                     st_reset_at := reset_at,
                     st_primary_reset_at := wi_primary_reset w,
                     st_blocked_at := next_blocked_at account rt status,
                     st_cooldown_until := rt_cooldown_until rt,
                     st_secondary_used_percent := pressured pressure (wi_secondary_used w),
                     st_secondary_reset_at := wi_secondary_reset w,
                     st_last_error_at := rt_last_error_at rt,
                     st_last_selected_at := rt_last_selected_at rt,
                     st_error_count := rt_error_count rt,
                     st_deactivation_reason := acct_deactivation_reason account,
                     st_plan_type := Some (acct_plan_type account),
                     st_capacity_credits := Some capacity,
                     st_health_tier := new_tier,
                     st_inflight_response_creates := rt_inflight_response_creates rt,
                     st_inflight_streams := rt_inflight_streams rt,
                     st_leased_tokens := rt_leased_tokens rt,
                     st_routing_policy := normalize_account_routing_policy (Some (acct_routing_policy account))\<rparr>))"

section \<open>All accounts, recovery in the background, fallback to the platform\<close>

text \<open>
  The samples are dictionaries by account id. The runtime of an account is created on first use and
  updated even when a later account raises.
\<close>

record usage_inputs =
  ui_latest_primary :: "string \<rightharpoonup> usage_entry"
  ui_latest_secondary :: "string \<rightharpoonup> usage_entry"
  ui_latest_monthly :: "string \<rightharpoonup> usage_entry"
  ui_routing_policy_override :: "string option"
  ui_ignore_standard_quota_account_ids :: "string list"

definition long_entry_for :: "usage_inputs \<Rightarrow> account \<Rightarrow> usage_entry option" where
  "long_entry_for ui account =
     (let secondary_entry = ui_latest_secondary ui (acct_id account)
      in if acct_id account \<notin> set (ui_ignore_standard_quota_account_ids ui)
         then select_long_window_entry account (ui_latest_monthly ui (acct_id account)) secondary_entry
         else secondary_entry)"

definition finish_state :: "usage_inputs \<Rightarrow> account \<Rightarrow> account_state \<Rightarrow> account_state" where
  "finish_state ui account state =
     (let ignored = acct_id account \<in> set (ui_ignore_standard_quota_account_ids ui);
          state = (case ui_routing_policy_override ui of
                     Some policy \<Rightarrow> if ignored then state\<lparr>st_routing_policy := policy\<rparr> else state
                   | None \<Rightarrow> state)
      in state\<lparr>st_ignore_standard_quota := ignored\<rparr>)"

fun build_states ::
  "state_settings \<Rightarrow> (account \<Rightarrow> state_clock) \<Rightarrow> usage_inputs \<Rightarrow> account list \<Rightarrow> runtime_map
   \<Rightarrow> runtime_map \<times> (py_error + (account_state list \<times> accounts_table))" where
  "build_states cfg clk ui [] rts = (rts, Inr ([], []))"
| "build_states cfg clk ui (account # accounts) rts =
     (let i = acct_id account; rts = setdefault i rts
      in case state_from_account cfg (clk account) account (ui_latest_primary ui i) (long_entry_for ui account)
                (the (map_of rts i)) of
           Inl err \<Rightarrow> (rts, Inl err)
         | Inr (rt, state) \<Rightarrow>
             let rts = AList.map_entry i (\<lambda>_. rt) rts;
                 (rts, rest) = build_states cfg clk ui accounts rts
             in (rts, case rest of
                        Inl err \<Rightarrow> Inl err
                      | Inr (states, account_map) \<Rightarrow>
                          Inr (finish_state ui account state # states,
                               case map_of account_map i of
                                 None \<Rightarrow> (i, account) # account_map | Some _ \<Rightarrow> account_map)))"

definition background_runtime :: "account \<Rightarrow> runtime_state" where
  "background_runtime account =
     (let blocked_at = map_option of_int (acct_blocked_at account);
          reset_at = map_option of_int (acct_reset_at account)
      in RuntimeState
           \<lparr>rt_blocked_at := blocked_at,
            rt_cooldown_until :=
              (if acct_status account = RATE_LIMITED \<and> blocked_at \<noteq> None then reset_at else None)\<rparr>)"

definition keep_rate_limited :: "account_state \<Rightarrow> real option \<Rightarrow> real option \<Rightarrow> real option \<Rightarrow> account_state" where
  "keep_rate_limited state reset_at blocked_at cooldown_until =
     state\<lparr>st_status := RATE_LIMITED, st_reset_at := reset_at, st_blocked_at := blocked_at,
           st_cooldown_until := cooldown_until\<rparr>"

text \<open>\<open>t_now\<close> and \<open>utc\<close> are the readings after the state was evaluated.\<close>

definition background_recovery_state_from_account ::
  "state_settings \<Rightarrow> state_clock \<Rightarrow> real \<Rightarrow> real \<Rightarrow> account \<Rightarrow> usage_entry option \<Rightarrow> usage_entry option
   \<Rightarrow> py_error + account_state" where
  "background_recovery_state_from_account cfg clk t_now utc account primary_entry secondary_entry =
     (let blocked_at = map_option of_int (acct_blocked_at account);
          reset_at = map_option of_int (acct_reset_at account)
      in case state_from_account cfg clk account primary_entry secondary_entry (background_runtime account) of
           Inl err \<Rightarrow> Inl err
         | Inr (rt, state) \<Rightarrow>
             if acct_status account \<noteq> RATE_LIMITED then Inr state
             else
               let fresh = rate_limited_freshness_entry account primary_entry secondary_entry
               in case reset_at of
                    None \<Rightarrow> Inr (keep_rate_limited state None blocked_at None)
                  | Some r \<Rightarrow>
                      (case blocked_at of
                         Some b \<Rightarrow>
                           if r \<le> t_now \<and> \<not> usage_entry_recorded_after_block fresh b
                           then Inr (keep_rate_limited state (Some r) (Some b) (Some r)) else Inr state
                       | None \<Rightarrow>
                           if r \<le> t_now \<and> \<not> usage_entry_is_recent_available cfg utc fresh
                           then Inr (keep_rate_limited state (Some r) None None) else Inr state))"

definition is_chatgpt_state_healthy_for_platform_fallback :: "real \<Rightarrow> real \<Rightarrow> account_state \<Rightarrow> bool" where
  "is_chatgpt_state_healthy_for_platform_fallback primary_threshold secondary_threshold state =
     (case remaining_percent_from_used (st_secondary_used_percent state) of
        None \<Rightarrow> False
      | Some secondary_remaining \<Rightarrow>
          (case remaining_percent_from_used (st_used_percent state) of
             None \<Rightarrow> True | Some primary_remaining \<Rightarrow> primary_remaining > primary_threshold) \<and>
          secondary_remaining > secondary_threshold)"

abbreviation (input) STICKY_GRACE_PERIOD_SECONDS :: real where "STICKY_GRACE_PERIOD_SECONDS \<equiv> 10"

definition select_state_for_platform_fallback ::
  "selection_env \<Rightarrow> selection_env \<Rightarrow> bool \<Rightarrow> bool \<Rightarrow> RoutingStrategy \<Rightarrow> account_state
   \<Rightarrow> py_error + account_state option" where
  "select_state_for_platform_fallback env grace_env allow_rate_limit_grace prefer_earlier_reset strategy state =
     (let opts = default_opts\<lparr>so_prefer_earlier_reset := prefer_earlier_reset,
                              so_routing_strategy := strategy, so_allow_backoff_fallback := False\<rparr>
      in case snd (select_account env opts None [state]) of
           Inl err \<Rightarrow> Inl err
         | Inr selected \<Rightarrow>
             (case sel_account selected of
                Some s \<Rightarrow> Inr (Some s)
              | None \<Rightarrow>
                  if allow_rate_limit_grace \<and> st_status state = RATE_LIMITED
                  then (case snd (select_account grace_env opts
                                    (Some (env_time grace_env + STICKY_GRACE_PERIOD_SECONDS)) [state]) of
                          Inl err \<Rightarrow> Inl err
                        | Inr grace_result \<Rightarrow> Inr (sel_account grace_result))
                  else Inr None))"

section \<open>Basic facts\<close>

interpretation health_runtime: runtime_update
  "\<lambda>rt. fst (health_update cfg clk account status used secondary rt)"
  for cfg clk account status used secondary
  by unfold_locales (simp_all add: health_update_def Let_def)

lemma health_update_keeps [simp]:
  "rt_blocked_at (fst (health_update cfg clk account status used secondary rt)) = rt_blocked_at rt"
  "rt_cooldown_until (fst (health_update cfg clk account status used secondary rt)) = rt_cooldown_until rt"
  "rt_error_count (fst (health_update cfg clk account status used secondary rt)) = rt_error_count rt"
  "rt_last_error_at (fst (health_update cfg clk account status used secondary rt)) = rt_last_error_at rt"
  by (simp_all add: health_update_def Let_def)

text \<open>What the state shows of its inputs, in one place.\<close>

lemma state_from_account_cases:
  assumes "state_from_account cfg clk account primary_entry secondary_entry rt = Inr (rt', state)"
  obtains w ignore_short long ch cu cb used
  where "state_windows cfg clk account primary_entry secondary_entry = (w, ignore_short)"
    and "long = wi_long_entry w"
    and "extract_credit_status [primary_entry, long, secondary_entry] = Inr (ch, cu, cb)"
    and "apply_usage_quota (clk_quota clk) (seed_status account ignore_short)
           (wi_primary_used w) (wi_primary_reset w) (wi_primary_window_minutes w)
           (state_runtime_reset cfg clk account rt primary_entry long ignore_short)
           (wi_secondary_used w) (wi_secondary_reset w) ch cu cb False =
         (st_status state, used, st_reset_at state)"
    and "rt' = fst (health_update cfg clk account (st_status state) used (wi_secondary_used w) rt)"
    and "st_account_id state = acct_id account"
    and "st_blocked_at state = next_blocked_at account rt (st_status state)"
    and "st_cooldown_until state = rt_cooldown_until rt"
    and "st_error_count state = rt_error_count rt"
    and "st_used_percent state =
           pressured (pressure_pct cfg rt (long_window_capacity account long)) used"
    and "st_secondary_used_percent state =
           pressured (pressure_pct cfg rt (long_window_capacity account long)) (wi_secondary_used w)"
    and "st_inflight_response_creates state = rt_inflight_response_creates rt"
    and "st_inflight_streams state = rt_inflight_streams rt"
proof -
  obtain w ignore_short where w: "state_windows cfg clk account primary_entry secondary_entry = (w, ignore_short)"
    by fastforce
  let ?long = "wi_long_entry w"
  obtain ch cu cb where c: "extract_credit_status [primary_entry, ?long, secondary_entry] = Inr (ch, cu, cb)"
    using assms by (cases "extract_credit_status [primary_entry, ?long, secondary_entry]")
      (auto simp: state_from_account_def w)
  obtain status used reset where q: "apply_usage_quota (clk_quota clk) (seed_status account ignore_short)
           (wi_primary_used w) (wi_primary_reset w) (wi_primary_window_minutes w)
           (state_runtime_reset cfg clk account rt primary_entry ?long ignore_short)
           (wi_secondary_used w) (wi_secondary_reset w) ch cu cb False = (status, used, reset)"
    by (metis prod_cases3)
  have p: "pressure_pct cfg (fst (health_update cfg clk account st u v rt)) x = pressure_pct cfg rt x" for st u v x
    by (simp add: pressure_pct_def health_runtime.keeps_creates health_runtime.keeps_streams health_runtime.keeps_tokens)
  have b: "next_blocked_at account (fst (health_update cfg clk account st u v rt)) st' = next_blocked_at account rt st'"
    for st u v st'
    by (simp add: next_blocked_at_def effective_blocked_at_def split: option.split)
  show ?thesis
    using assms
    by (intro that[OF w refl c])
      (auto simp: state_from_account_def w c q Let_def split_def p b
        health_runtime.keeps_creates health_runtime.keeps_streams AccountState_def)
qed

lemma long_entry_of_windows:
  "state_windows cfg clk account primary_entry secondary_entry = (w, ig) \<Longrightarrow>
   wi_long_entry w = wi_long_entry (resolve_windows account primary_entry secondary_entry)"
  by (auto simp: state_windows_def expire_windows_def drop_short_window_def Let_def split_def)

lemma seed_status_unblocked: "seed_status account ig \<noteq> acct_status account \<Longrightarrow> seed_status account ig = ACTIVE"
  by (simp add: seed_status_def split: if_splits)

lemma state_status_range:
  assumes "state_from_account cfg clk account primary_entry secondary_entry rt = Inr (rt', state)"
  shows "st_status state \<in> {acct_status account, ACTIVE}"
proof (rule state_from_account_cases[OF assms])
  fix w ig long ch cu cb used
  assume q: "apply_usage_quota (clk_quota clk) (seed_status account ig)
           (wi_primary_used w) (wi_primary_reset w) (wi_primary_window_minutes w)
           (state_runtime_reset cfg clk account rt primary_entry long ig)
           (wi_secondary_used w) (wi_secondary_reset w) ch cu cb False =
         (st_status state, used, st_reset_at state)"
  from apply_usage_quota_range[of "clk_quota clk" "seed_status account ig" "wi_primary_used w"
      "wi_primary_reset w" "wi_primary_window_minutes w"
      "state_runtime_reset cfg clk account rt primary_entry long ig"
      "wi_secondary_used w" "wi_secondary_reset w" ch cu cb]
  have "st_status state \<in> {seed_status account ig, ACTIVE}" unfolding q by simp
  then show ?thesis
    using seed_status_unblocked[of account ig] by (cases "seed_status account ig = acct_status account") auto
qed

section \<open>Properties\<close>

lemma secondary_used_of_windows:
  assumes "state_windows cfg clk account primary_entry secondary_entry = (w, ig)"
    and "wi_long_entry (resolve_windows account primary_entry secondary_entry) = Some long"
  shows "wi_secondary_used w =
           fst (expire_sample (py_int (clk_now clk)) (ue_used_percent long, ue_reset_at long))"
proof -
  let ?r = "resolve_windows account primary_entry secondary_entry"
  have "wi_secondary_used ?r = entry_field ue_used_percent (wi_long_entry ?r)"
       "wi_secondary_reset ?r = entry_field ue_reset_at (wi_long_entry ?r)"
    by (simp_all add: resolve_windows_def Let_def)
  then have "wi_secondary_used (expire_windows (py_int (clk_now clk)) ?r) =
      fst (expire_sample (py_int (clk_now clk)) (ue_used_percent long, ue_reset_at long))"
    using assms(2) by (simp add: expire_windows_def Let_def split_def entry_field_def)
  then show ?thesis using assms(1) by (auto simp: state_windows_def drop_short_window_def Let_def)
qed

lemma expire_sample_known: "u \<noteq> None \<Longrightarrow> fst (expire_sample n (u, r)) \<noteq> None"
  by (auto simp: expire_sample_def split: option.split)

text \<open>
  A persisted quota block is lifted by evidence, not by hope. Take an account whose row says
  QUOTA_EXCEEDED with a block time and a reset in the future, with the long window reported and no
  usable credits. The balancer sees it ACTIVE exactly when two minutes have passed since the block
  and the long-window sample was recorded after the block; otherwise it is still QUOTA_EXCEEDED, with
  the same reset and block time. No runtime state (so no restart of the process) changes this.
\<close>

theorem quota_block_lifted_iff_fresh_sample:
  assumes run: "state_from_account cfg clk account primary_entry secondary_entry rt = Inr (rt', state)"
    and status: "acct_status account = QUOTA_EXCEEDED"
    and block: "acct_blocked_at account = Some b" and reset: "acct_reset_at account = Some r" "r \<noteq> 0"
    and future: "of_int r > fst (clk_quota clk)"
    and long: "wi_long_entry (resolve_windows account primary_entry secondary_entry) = Some long"
      "ue_used_percent long \<noteq> None"
    and credits: "\<And>ch cu cb. extract_credit_status [primary_entry, Some long, secondary_entry] = Inr (ch, cu, cb) \<Longrightarrow>
        \<not> has_credit_override ch cu cb"
  defines "lifted \<equiv> clk_cooldown clk \<ge> of_int b + QUOTA_EXCEEDED_COOLDOWN_SECONDS \<and> recorded_since (Some long) (of_int b)"
  shows "(st_status state, st_reset_at state, st_blocked_at state) =
           (if lifted then (ACTIVE, None, None) else (QUOTA_EXCEEDED, Some (of_int r), Some (of_int b)))"
proof (rule state_from_account_cases[OF run])
  fix w ig lng ch cu cb used
  assume w: "state_windows cfg clk account primary_entry secondary_entry = (w, ig)"
    and lng: "lng = wi_long_entry w"
    and cr: "extract_credit_status [primary_entry, lng, secondary_entry] = Inr (ch, cu, cb)"
    and q: "apply_usage_quota (clk_quota clk) (seed_status account ig)
           (wi_primary_used w) (wi_primary_reset w) (wi_primary_window_minutes w)
           (state_runtime_reset cfg clk account rt primary_entry lng ig)
           (wi_secondary_used w) (wi_secondary_reset w) ch cu cb False =
         (st_status state, used, st_reset_at state)"
    and bl: "st_blocked_at state = next_blocked_at account rt (st_status state)"
  have lng': "lng = Some long" using lng long(1) long_entry_of_windows[OF w] by simp
  have seed: "seed_status account ig = QUOTA_EXCEEDED" by (simp add: seed_status_def status)
  have eb: "effective_blocked_at account rt = Some (of_int b)" by (simp add: effective_blocked_at_def block)
  have rr: "state_runtime_reset cfg clk account rt primary_entry lng ig = (if lifted then None else Some (of_int r))"
    by (simp add: state_runtime_reset_def clear_after_refresh_def cooldown_ready_def status eb lng'
        freshness_entry_def drop_contradicted_reset_def initial_runtime_reset_def seed reset lifted_def)
  obtain su where su: "wi_secondary_used w = Some su"
    using secondary_used_of_windows[OF w long(1)] expire_sample_known[OF long(2)] by (metis not_None_eq)
  obtain t1 t2 t3 where t: "clk_quota clk = (t1, t2, t3)" by (metis prod_cases3)
  have st: "st_status state \<in> {QUOTA_EXCEEDED, ACTIVE}" using state_status_range[OF run] status by simp
  have "(st_status state = QUOTA_EXCEEDED \<longleftrightarrow> \<not> lifted) \<and>
      st_reset_at state = (if st_status state = QUOTA_EXCEEDED then Some (of_int r) else None)"
    using quota_rule_on_exceeded[OF credits[OF cr[unfolded lng']], of t1 t2 t3 "wi_primary_used w"
        "wi_primary_reset w" "wi_primary_window_minutes w" "if lifted then None else Some (of_int r)" su
        "wi_secondary_reset w"] q future reset(2)
    unfolding t seed su rr by (cases lifted) simp_all
  then show ?thesis using st by (auto simp: bl next_blocked_at_def eb status)
qed

definition example_usage :: "string \<Rightarrow> real \<Rightarrow> real \<Rightarrow> usage_entry" where
  "example_usage window recorded used =
     \<lparr>ue_table = StandardUsage, ue_account_id = ''a'', ue_recorded_at = Some (Naive recorded),
      ue_window = Some window, ue_used_percent = Some used, ue_reset_at = Some 90000,
      ue_window_minutes = Some 10080, ue_credits_has = None, ue_credits_unlimited = None,
      ue_credits_balance = None\<rparr>"

definition example_state_settings :: state_settings where
  "example_state_settings =
     \<lparr>ss_usage_refresh_interval_seconds = 60, ss_soft_drain_enabled = True, ss_drain = default_drain_settings,
      ss_inflight_penalty_pct = 5 / 2, ss_lease_token_weight = 1\<rparr>"

definition example_clock :: "real \<Rightarrow> state_clock" where
  "example_clock t =
     \<lparr>clk_now = t, clk_utc_window = t, clk_guard = t, clk_utc_guard = t, clk_cooldown = t,
      clk_quota = (t, t, t), clk_health = t, clk_drain = t\<rparr>"

definition example_blocked_account :: account where
  "example_blocked_account =
     example_account\<lparr>acct_status := QUOTA_EXCEEDED, acct_reset_at := Some 80000, acct_blocked_at := Some 1000\<rparr>"

lemmas example_state_defs =
  example_usage_def example_state_settings_def example_clock_def example_blocked_account_def example_account_def

lemma extract_credit_status_none:
  "(\<And>e. Some e \<in> set entries \<Longrightarrow> \<not> has_credit_data e) \<Longrightarrow> extract_credit_status entries = Inr (None, None, None)"
  by (force simp: extract_credit_status_def filter_empty_conv split: list.split)

lemma state_from_account_no_credits:
  assumes "\<And>e. Some e \<in> {primary_entry, secondary_entry} \<Longrightarrow> \<not> has_credit_data e"
  shows "\<exists>rt' state. state_from_account cfg clk account primary_entry secondary_entry rt = Inr (rt', state)"
    and "extract_credit_status
           [primary_entry, wi_long_entry (resolve_windows account primary_entry secondary_entry), secondary_entry] =
         Inr (None, None, None)"
proof -
  have sub: "wi_long_entry (resolve_windows account primary_entry secondary_entry) \<in> {None, primary_entry, secondary_entry}"
    by (simp add: resolve_windows_def Let_def)
  show c: "extract_credit_status
      [primary_entry, wi_long_entry (resolve_windows account primary_entry secondary_entry), secondary_entry] =
      Inr (None, None, None)"
    by (rule extract_credit_status_none) (use assms sub in auto)
  obtain w ig where w: "state_windows cfg clk account primary_entry secondary_entry = (w, ig)" by fastforce
  show "\<exists>rt' state. state_from_account cfg clk account primary_entry secondary_entry rt = Inr (rt', state)"
    using c unfolding long_entry_of_windows[OF w, symmetric] by (simp add: state_from_account_def w Let_def split_def)
qed

theorem quota_block_lifted_iff_fresh_sample_witness:
  "\<exists>rt' state. state_from_account example_state_settings (example_clock 5000) example_blocked_account None
       (Some (example_usage ''secondary'' 4000 40)) RuntimeState = Inr (rt', state) \<and>
     (st_status state, st_reset_at state, st_blocked_at state) = (ACTIVE, None, None)"
proof -
  let ?long = "example_usage ''secondary'' 4000 40"
  have nc: "\<And>e. Some e \<in> {None, Some ?long} \<Longrightarrow> \<not> has_credit_data e"
    by (auto simp: has_credit_data_def example_usage_def)
  have long: "wi_long_entry (resolve_windows example_blocked_account None (Some ?long)) = Some ?long"
    by (simp add: resolve_windows_def entry_is_monthly_def example_usage_def Let_def)
  obtain rt' state where run: "state_from_account example_state_settings (example_clock 5000)
      example_blocked_account None (Some ?long) RuntimeState = Inr (rt', state)"
    using state_from_account_no_credits(1)[OF nc] by blast
  have "extract_credit_status [None, Some ?long, Some ?long] = Inr (None, None, None)"
    by (rule extract_credit_status_none) (use nc in auto)
  then have cr: "\<And>ch cu cb. extract_credit_status [None, Some ?long, Some ?long] = Inr (ch, cu, cb) \<Longrightarrow>
      \<not> has_credit_override ch cu cb"
    by (auto simp: has_credit_override_def has_usable_credits_def)
  have "(st_status state, st_reset_at state, st_blocked_at state) = (ACTIVE, None, None)"
    using quota_block_lifted_iff_fresh_sample[OF run _ _ _ _ _ long _ cr, of 1000 80000]
    by (simp add: example_state_defs recorded_since_def entry_field_def QUOTA_EXCEEDED_COOLDOWN_SECONDS_def)
  with run show ?thesis by blast
qed

lemma terminal_quota: "terminal_status st \<Longrightarrow> apply_usage_quota clock st pu pr pw rr su sr ch cu cb infer = (st, pu, rr)"
  by (cases clock) (simp add: apply_usage_quota_def)

text \<open>
  Reading an account never blocks it and never revives a withdrawn one: the state shows the row's
  status or ACTIVE; a paused, deactivated or logged-out account keeps its status and its reason; and
  the percentages the strategies compare never exceed 100, whatever the requests in flight add.
\<close>

theorem account_state_respects_row:
  assumes "state_from_account cfg clk account primary_entry secondary_entry rt = Inr (rt', state)"
  shows "st_account_id state = acct_id account \<and> st_status state \<in> {acct_status account, ACTIVE} \<and>
     (terminal_status (acct_status account) \<longrightarrow> st_status state = acct_status account) \<and>
     (st_used_percent state = Some u \<longrightarrow> u \<le> 100) \<and>
     (st_secondary_used_percent state = Some v \<longrightarrow> v \<le> 100)"
proof -
  have c1: "st_account_id state = acct_id account \<and> st_status state \<in> {acct_status account, ACTIVE}"
    by (rule state_from_account_cases[OF assms]) (use state_status_range[OF assms] in simp)
  have c2: "st_used_percent state = Some u \<Longrightarrow> u \<le> 100"
    by (rule state_from_account_cases[OF assms]) (auto simp: pressured_def)
  have c3: "st_secondary_used_percent state = Some v \<Longrightarrow> v \<le> 100"
    by (rule state_from_account_cases[OF assms]) (auto simp: pressured_def)
  have c4: "st_status state = acct_status account" if t: "terminal_status (acct_status account)"
  proof -
    have "seed_status account ig = acct_status account" for ig using t by (auto simp: seed_status_def)
    with t show ?thesis
      using state_from_account_cases[OF assms, of "st_status state = acct_status account"]
      by (simp add: terminal_quota)
  qed
  show ?thesis using c1 c2 c3 c4 by blast
qed

theorem account_state_respects_row_witness:
  "\<exists>rt' state. state_from_account example_state_settings (example_clock 5000)
       (example_account\<lparr>acct_status := PAUSED\<rparr>) None None RuntimeState = Inr (rt', state) \<and>
     st_status state = PAUSED"
proof -
  let ?a = "example_account\<lparr>acct_status := PAUSED\<rparr>"
  obtain rt' state where run: "state_from_account example_state_settings (example_clock 5000) ?a None None
      RuntimeState = Inr (rt', state)"
    using state_from_account_no_credits(1)[of None None] by blast
  with account_state_respects_row[OF run] show ?thesis by simp
qed

lemma rate_limit_rule:
  assumes "r \<noteq> 0" and "r > snd (snd clock)"
  shows "fst (apply_usage_quota clock RATE_LIMITED pu pr pw (Some r) su sr ch cu cb False) = RATE_LIMITED"
proof -
  obtain t1 t2 t3 where clock: "clock = (t1, t2, t3)" by (cases clock)
  have "\<exists>u. quota_secondary t1 c False (Some r) su sr (RATE_LIMITED, pu, Some r) = Inr (RATE_LIMITED, u, Some r)" for c
    by (cases su) (auto simp: quota_secondary_def)
  then obtain u where "quota_secondary t1 (has_credit_override ch cu cb) False (Some r) su sr (RATE_LIMITED, pu, Some r) =
      Inr (RATE_LIMITED, u, Some r)" by blast
  with assms show ?thesis
    by (cases pu) (simp_all add: apply_usage_quota_def clock quota_credit_def quota_primary_def)
qed

text \<open>
  The background job needs evidence to lift a rate limit. For a plan with a short-window quota it
  reports a rate-limited account as anything else only if the row has a reset time, that time has
  passed, and a usage sample confirms the recovery: one recorded after the block, or, when no block
  time is known, a recent one below 100 percent.
\<close>

theorem background_recovery_needs_evidence:
  assumes run: "background_recovery_state_from_account cfg clk t_now utc account primary_entry secondary_entry = Inr state"
    and limited: "acct_status account = RATE_LIMITED" and recovered: "st_status state \<noteq> RATE_LIMITED"
    and plan: "capacity_for_plan (Some (acct_plan_type account)) ''primary'' \<noteq> Some 0"
    and clock: "0 \<le> t_now" "clk_cooldown clk \<le> t_now" "snd (snd (clk_quota clk)) \<le> t_now"
  shows "\<exists>r. acct_reset_at account = Some r \<and> of_int r \<le> t_now \<and>
           (let fresh = rate_limited_freshness_entry account primary_entry secondary_entry
            in case acct_blocked_at account of
                 Some b \<Rightarrow> usage_entry_recorded_after_block fresh (of_int b)
               | None \<Rightarrow> usage_entry_is_recent_available cfg utc fresh)"
proof -
  let ?rt = "background_runtime account"
  obtain rt' st where st: "state_from_account cfg clk account primary_entry secondary_entry ?rt = Inr (rt', st)"
    using run by (auto simp: background_recovery_state_from_account_def Let_def split: sum.splits)
  obtain r where r: "acct_reset_at account = Some r"
    using run st limited recovered
    by (cases "acct_reset_at account")
      (auto simp: background_recovery_state_from_account_def keep_rate_limited_def Let_def)
  have same: "state = st" and
    ev: "of_int r \<le> t_now \<Longrightarrow>
           (case acct_blocked_at account of
              Some b \<Rightarrow> usage_entry_recorded_after_block (rate_limited_freshness_entry account primary_entry secondary_entry) (of_int b)
            | None \<Rightarrow> usage_entry_is_recent_available cfg utc (rate_limited_freshness_entry account primary_entry secondary_entry))"
    using run st limited recovered r
    by (auto simp: background_recovery_state_from_account_def keep_rate_limited_def Let_def
        split: option.splits if_splits)
  have "of_int r \<le> t_now"
  proof (rule ccontr)
    assume late: "\<not> of_int r \<le> t_now"
    show False
    proof (rule state_from_account_cases[OF st])
      fix w ig lng ch cu cb used
      assume w: "state_windows cfg clk account primary_entry secondary_entry = (w, ig)"
        and q: "apply_usage_quota (clk_quota clk) (seed_status account ig)
           (wi_primary_used w) (wi_primary_reset w) (wi_primary_window_minutes w)
           (state_runtime_reset cfg clk account ?rt primary_entry lng ig)
           (wi_secondary_used w) (wi_secondary_reset w) ch cu cb False = (st_status st, used, st_reset_at st)"
      have ig: "\<not> ig" using w plan by (auto simp: state_windows_def ignores_short_window_def Let_def)
      then have seed: "seed_status account ig = RATE_LIMITED" by (simp add: seed_status_def limited)
      have "\<not> cooldown_ready clk account ?rt"
        using late clock(2) by (auto simp: cooldown_ready_def limited background_runtime_def RuntimeState_def r)
      then have rr: "state_runtime_reset cfg clk account ?rt primary_entry lng ig = Some (of_int r)"
        using ig late clock(1) by (auto simp: state_runtime_reset_def clear_after_refresh_def drop_contradicted_reset_def
            initial_runtime_reset_def seed_status_def limited r background_runtime_def RuntimeState_def)
      show False
        using q recovered same late clock(1,3) rate_limit_rule[of "of_int r" "clk_quota clk" "wi_primary_used w"
            "wi_primary_reset w" "wi_primary_window_minutes w" "wi_secondary_used w" "wi_secondary_reset w" ch cu cb]
        unfolding seed rr by simp
    qed
  qed
  with ev r show ?thesis by (simp add: Let_def)
qed

definition example_limited_account :: account where
  "example_limited_account =
     example_account\<lparr>acct_status := RATE_LIMITED, acct_reset_at := Some 4500, acct_blocked_at := Some 1000\<rparr>"

definition example_short_usage :: usage_entry where
  "example_short_usage = (example_usage ''primary'' 4600 10)\<lparr>ue_window_minutes := Some 300\<rparr>"

lemma example_background_recovers:
  "\<exists>state. background_recovery_state_from_account example_state_settings (example_clock 5000) 5000 5000
       example_limited_account (Some example_short_usage) None = Inr state \<and> st_status state = ACTIVE"
proof -
  have cap: "capacity_for_plan (Some ''plus'') ''primary'' = Some 225"
    by code_simp
  have weekly: "\<not> is_weekly_window_minutes (Some 300)" by code_simp
  have w: "state_windows example_state_settings (example_clock 5000) example_limited_account (Some example_short_usage) None =
      (\<lparr>wi_primary_used = Some 10, wi_primary_reset = Some 90000, wi_primary_window_minutes = Some 300,
        wi_long_entry = None, wi_secondary_used = None, wi_secondary_reset = None\<rparr>, False)"
    by (simp add: state_windows_def resolve_windows_def entry_is_monthly_def should_use_weekly_primary_def weekly
        usage_history_to_window_row_def expire_windows_def expire_sample_def entry_field_def ignores_short_window_def
        example_limited_account_def example_short_usage_def example_state_defs cap)
  have c: "extract_credit_status [Some example_short_usage, None, None] = Inr (None, None, None)"
    by (rule extract_credit_status_none) (auto simp: has_credit_data_def example_short_usage_def example_usage_def)
  have rr: "state_runtime_reset example_state_settings (example_clock 5000) example_limited_account
      (background_runtime example_limited_account) (Some example_short_usage) None False = None"
    by (simp add: state_runtime_reset_def clear_after_refresh_def cooldown_ready_def effective_blocked_at_def
        background_runtime_def freshness_entry_def rate_limited_freshness_entry_def entry_is_monthly_def
        recorded_since_def entry_field_def example_limited_account_def example_short_usage_def example_state_defs)
  have q: "apply_usage_quota (5000, 5000, 5000) RATE_LIMITED (Some 10) (Some 90000) (Some 300) None None None
      None None None False = (ACTIVE, Some 10, None)"
    by (simp add: apply_usage_quota_def quota_secondary_def quota_credit_def quota_primary_def
        has_credit_override_def has_usable_credits_def)
  have seed: "seed_status example_limited_account False = RATE_LIMITED"
    by (simp add: seed_status_def example_limited_account_def)
  obtain rt' state where st: "state_from_account example_state_settings (example_clock 5000) example_limited_account
      (Some example_short_usage) None (background_runtime example_limited_account) = Inr (rt', state)"
    and active: "st_status state = ACTIVE"
    using q by (simp add: state_from_account_def w c rr seed Let_def split_def) (simp add: example_clock_def AccountState_def)
  have "usage_entry_recorded_after_block (rate_limited_freshness_entry example_limited_account
      (Some example_short_usage) None) 1000"
    by (simp add: usage_entry_recorded_after_block_def rate_limited_freshness_entry_def entry_is_monthly_def
        example_short_usage_def example_usage_def)
  then show ?thesis
    using st active unfolding background_recovery_state_from_account_def Let_def
    by (simp add: example_limited_account_def)
qed

theorem background_recovery_needs_evidence_witness:
  "usage_entry_recorded_after_block
     (rate_limited_freshness_entry example_limited_account (Some example_short_usage) None) 1000"
proof -
  obtain state where st: "background_recovery_state_from_account example_state_settings (example_clock 5000) 5000 5000
       example_limited_account (Some example_short_usage) None = Inr state" "st_status state = ACTIVE"
    using example_background_recovers by blast
  have "capacity_for_plan (Some ''plus'') ''primary'' = Some 225" by code_simp
  with background_recovery_needs_evidence[OF st(1)] st(2) show ?thesis
    by (simp add: example_limited_account_def example_account_def example_clock_def)
qed

section \<open>Building all states\<close>

text \<open>The requests in flight that the selection sees are those of the runtime.\<close>

definition inflight_of :: "AccountLeaseKind \<Rightarrow> runtime_map \<Rightarrow> string \<Rightarrow> int" where
  "inflight_of kind rts i = inflight kind (default (map_of rts i) RuntimeState)"

definition st_inflight :: "AccountLeaseKind \<Rightarrow> account_state \<Rightarrow> int" where
  "st_inflight kind s =
     (case kind of Response_create \<Rightarrow> st_inflight_response_creates s | Stream \<Rightarrow> st_inflight_streams s)"

lemma state_inflight:
  "state_from_account cfg clk account primary_entry secondary_entry rt = Inr (rt', state) \<Longrightarrow>
   st_inflight kind state = inflight kind rt \<and> st_account_id state = acct_id account"
  by (erule state_from_account_cases) (cases kind; simp add: st_inflight_def inflight_def)

lemma state_runtime_keeps:
  assumes "state_from_account cfg clk account primary_entry secondary_entry rt = Inr (rt', state)"
  shows "runtime_ok i rt' \<longleftrightarrow> runtime_ok i rt" and "capped c rt' \<longleftrightarrow> capped c rt"
    and "live_leases rt' = live_leases rt" and "inflight kind rt' = inflight kind rt"
  using assms
  by (auto elim!: state_from_account_cases
      simp: health_runtime.keeps_ok health_runtime.keeps_capped health_runtime.keeps_live health_runtime.keeps_inflight)

lemma inflight_of_setdefault [simp]: "inflight_of kind (setdefault i rts) j = inflight_of kind rts j"
  by (simp add: inflight_of_def map_of_setdefault)

lemma build_step:
  assumes run: "state_from_account cfg clk account primary_entry secondary_entry (the (map_of (setdefault i rts) i)) =
      Inr (rt, state)"
    and inv: "lease_inv c rts"
  defines "rts1 \<equiv> AList.map_entry i (\<lambda>_. rt) (setdefault i rts)"
  shows "lease_inv c rts1" and "leases_of rts1 j = leases_of rts j" and "inflight_of kind rts1 j = inflight_of kind rts j"
    and "st_inflight kind state = inflight_of kind rts i"
proof -
  let ?rt = "default (map_of rts i) RuntimeState"
  have run': "state_from_account cfg clk account primary_entry secondary_entry ?rt = Inr (rt, state)"
    using run by (simp add: map_of_setdefault)
  note keeps = state_runtime_keeps[OF run']
  show "lease_inv c rts1"
    unfolding rts1_def
    by (rule lease_inv_map_entry[OF lease_inv_setdefault[OF inv]]) (simp add: map_of_setdefault keeps)
  have "leases_of rts1 i = live_leases ?rt" by (simp add: rts1_def leases_of_def map_of_setdefault keeps(3))
  then show "leases_of rts1 j = leases_of rts j"
    by (cases "j = i") (simp_all add: rts1_def leases_of_def map_of_setdefault default_def split: option.split)
  show "inflight_of kind rts1 j = inflight_of kind rts j"
    by (cases "j = i") (simp_all add: rts1_def inflight_of_def map_of_setdefault keeps(4))
  show "st_inflight kind state = inflight_of kind rts i"
    using state_inflight[OF run'] by (simp add: inflight_of_def)
qed

lemma finish_state_keeps [simp]:
  "st_account_id (finish_state ui account s) = st_account_id s"
  "st_inflight kind (finish_state ui account s) = st_inflight kind s"
  by (simp_all add: finish_state_def st_inflight_def Let_def split: option.split AccountLeaseKind.split)

definition built_ok ::
  "account list \<Rightarrow> runtime_map \<Rightarrow> (py_error + (account_state list \<times> accounts_table)) \<Rightarrow> bool" where
  "built_ok accounts rts res \<longleftrightarrow>
     (case res of
        Inl err \<Rightarrow> True
      | Inr (states, account_map) \<Rightarrow>
          map st_account_id states = map acct_id accounts \<and>
          (\<forall>s \<in> set states. \<forall>kind. st_inflight kind s = inflight_of kind rts (st_account_id s)) \<and>
          (\<forall>j a. map_of account_map j = Some a \<longrightarrow> a \<in> set accounts \<and> acct_id a = j) \<and>
          dom (map_of account_map) = acct_id ` set accounts)"

lemma built_ok_Cons:
  assumes "built_ok accounts rts (Inr (states, account_map))"
    and "st_account_id s = acct_id account" and "\<And>kind. st_inflight kind s = inflight_of kind rts (acct_id account)"
  shows "built_ok (account # accounts) rts
           (Inr (s # states, case map_of account_map (acct_id account) of
                               None \<Rightarrow> (acct_id account, account) # account_map | Some _ \<Rightarrow> account_map))"
  using assms unfolding built_ok_def by (auto split: option.splits if_splits)

lemma build_states_spec:
  assumes "build_states cfg clk ui accounts rts = (rts', res)" and "lease_inv c rts"
  shows "lease_inv c rts' \<and> (\<forall>j. leases_of rts' j = leases_of rts j) \<and>
         (\<forall>kind j. inflight_of kind rts' j = inflight_of kind rts j) \<and> built_ok accounts rts res"
  using assms
proof (induction accounts arbitrary: rts rts' res)
  case Nil
  then show ?case by (auto simp: built_ok_def)
next
  case (Cons account accounts)
  let ?i = "acct_id account"
  let ?rts = "setdefault ?i rts"
  show ?case
  proof (cases "state_from_account cfg (clk account) account (ui_latest_primary ui ?i) (long_entry_for ui account)
      (the (map_of ?rts ?i))")
    case (Inl err)
    with Cons.prems show ?thesis by (auto simp: Let_def built_ok_def lease_inv_setdefault)
  next
    case (Inr p)
    obtain rt state where p: "p = (rt, state)" by fastforce
    let ?rts1 = "AList.map_entry ?i (\<lambda>_. rt) ?rts"
    note step = build_step[OF Inr[unfolded p] Cons.prems(2)]
    obtain rts2 rest where rec: "build_states cfg clk ui accounts ?rts1 = (rts2, rest)" by fastforce
    have eq: "rts' = rts2" "res = (case rest of Inl err \<Rightarrow> Inl err
        | Inr (states, account_map) \<Rightarrow> Inr (finish_state ui account state # states,
             case map_of account_map ?i of None \<Rightarrow> (?i, account) # account_map | Some _ \<Rightarrow> account_map))"
      using Cons.prems(1) by (auto simp: Let_def Inr p rec)
    note IH = Cons.IH[OF rec step(1)]
    have same: "inflight_of kind ?rts1 j = inflight_of kind rts j" for kind j by (rule step(3))
    have "built_ok (account # accounts) rts res"
    proof (cases rest)
      case (Inr q)
      obtain states account_map where q: "q = (states, account_map)" by fastforce
      have "built_ok accounts rts (Inr (states, account_map))"
        using IH by (simp add: Inr q built_ok_def same)
      moreover have "st_account_id state = ?i"
        using state_inflight[OF \<open>state_from_account _ _ _ _ _ _ = Inr p\<close>[unfolded p]] by simp
      ultimately have "built_ok (account # accounts) rts
          (Inr (finish_state ui account state # states,
             case map_of account_map ?i of None \<Rightarrow> (?i, account) # account_map | Some _ \<Rightarrow> account_map))"
        by (intro built_ok_Cons) (simp_all add: step(4))
      then show ?thesis by (simp add: eq Inr q)
    qed (simp add: eq built_ok_def)
    with IH show ?thesis by (simp add: eq(1) step(2) same)
  qed
qed

end
