(* ===== verification/Stickiness.thy ===== *)
theory Stickiness
  imports Selection Account_State
begin

text \<open>
  Session affinity: the table that remembers which account serves a session
  (\<open>app/modules/proxy/sticky_repository.py\<close>), the selection that prefers accounts below their budget
  (\<open>_select_account_preferring_budget_safe\<close>) and the selection that keeps a session on its account
  (\<open>LoadBalancer._select_with_stickiness\<close>).

  \<^item> The code selects from sublists of one list of mutable states, so a selection changes the states
    the later ones see: \<open>select_within\<close> selects from the states that satisfy a predicate and puts the
    refreshed states back in their places.
  \<^item> The sticky table is an association list on its primary key (provider, kind, key), its times are
    UTC seconds; the check constraints of the table are those of \<open>app/db/models.py\<close>.
  \<^item> Every call reads the clock and the random generator again: the readings of the calls are given
    by a function from the number of the call.
\<close>

section \<open>The sticky sessions table\<close>

definition CHATGPT_WEB_PROVIDER_KIND :: string where "CHATGPT_WEB_PROVIDER_KIND = ''chatgpt_web''"

definition OPENAI_PLATFORM_PROVIDER_KIND :: string where "OPENAI_PLATFORM_PROVIDER_KIND = ''openai_platform''"

record sticky_session =
  ss_account_id :: "string option"
  ss_routing_subject_id :: string
  ss_created_at :: real
  ss_updated_at :: real

type_synonym sticky_key = "string \<times> StickySessionKind \<times> string"

type_synonym sticky_table = "(sticky_key \<times> sticky_session) list"

record sticky_routing_target =
  srt_provider_kind :: string
  srt_routing_subject_id :: string
  srt_account_id :: "string option"

definition get_scoped_entry ::
  "string \<Rightarrow> StickySessionKind \<Rightarrow> string \<Rightarrow> sticky_table \<Rightarrow> sticky_session option" where
  "get_scoped_entry key kind provider_kind tbl =
     (if key = [] then None else map_of tbl (provider_kind, kind, key))"

definition delete_scoped ::
  "string \<Rightarrow> StickySessionKind \<Rightarrow> string \<Rightarrow> sticky_table \<Rightarrow> sticky_table \<times> bool" where
  "delete_scoped key kind provider_kind tbl =
     (if key = [] then (tbl, False)
      else (AList.delete (provider_kind, kind, key) tbl, map_of tbl (provider_kind, kind, key) \<noteq> None))"

definition target_from_row :: "string \<Rightarrow> sticky_session \<Rightarrow> sticky_routing_target option" where
  "target_from_row provider_kind row =
     (let routing_subject_id = py_strip (ss_routing_subject_id row)
      in if routing_subject_id = [] then None
         else Some \<lparr>srt_provider_kind = provider_kind, srt_routing_subject_id = routing_subject_id,
                    srt_account_id = ss_account_id row\<rparr>)"

text \<open>An entry past its age, or without a subject, is deleted by the read that finds it.\<close>

definition get_target ::
  "real \<Rightarrow> string \<Rightarrow> StickySessionKind \<Rightarrow> string \<Rightarrow> int option \<Rightarrow> sticky_table
   \<Rightarrow> sticky_table \<times> sticky_routing_target option" where
  "get_target utc key kind provider_kind max_age_seconds tbl =
     (if key = [] then (tbl, None)
      else case get_scoped_entry key kind provider_kind tbl of
             None \<Rightarrow> (tbl, None)
           | Some row \<Rightarrow>
               if (case max_age_seconds of None \<Rightarrow> False | Some age \<Rightarrow> ss_updated_at row < utc - of_int age)
               then (fst (delete_scoped key kind provider_kind tbl), None)
               else case target_from_row provider_kind row of
                      None \<Rightarrow> (fst (delete_scoped key kind provider_kind tbl), None)
                    | Some target \<Rightarrow> (tbl, Some target))"

definition get_account_id ::
  "real \<Rightarrow> string \<Rightarrow> StickySessionKind \<Rightarrow> int option \<Rightarrow> sticky_table \<Rightarrow> sticky_table \<times> string option" where
  "get_account_id utc key kind max_age_seconds tbl =
     (let (tbl, target) = get_target utc key kind CHATGPT_WEB_PROVIDER_KIND max_age_seconds tbl
      in (tbl, case target of None \<Rightarrow> None | Some t \<Rightarrow> srt_account_id t))"

text \<open>\<open>INSERT ... ON CONFLICT DO UPDATE\<close>, refused when a check constraint of the table fails.\<close>

definition sticky_row_allowed :: "StickySessionKind \<Rightarrow> string \<Rightarrow> string \<Rightarrow> string option \<Rightarrow> bool" where
  "sticky_row_allowed kind provider_kind routing_subject_id account_id =
     (routing_subject_id \<noteq> [] \<and> (account_id = None \<or> provider_kind = CHATGPT_WEB_PROVIDER_KIND) \<and>
      \<not> (provider_kind = OPENAI_PLATFORM_PROVIDER_KIND \<and> kind = CODEX_SESSION))"

definition upsert_target ::
  "real \<Rightarrow> string \<Rightarrow> StickySessionKind \<Rightarrow> string \<Rightarrow> string \<Rightarrow> string option \<Rightarrow> sticky_table
   \<Rightarrow> py_error + sticky_table" where
  "upsert_target db_now key kind provider_kind routing_subject_id account_id tbl =
     (let account_id = (if provider_kind = CHATGPT_WEB_PROVIDER_KIND then account_id else None);
          k = (provider_kind, kind, key);
          created_at = (case map_of tbl k of None \<Rightarrow> db_now | Some row \<Rightarrow> ss_created_at row);
          row = \<lparr>ss_account_id = account_id, ss_routing_subject_id = routing_subject_id,
                 ss_created_at = created_at, ss_updated_at = db_now\<rparr>
      in if \<not> sticky_row_allowed kind provider_kind routing_subject_id account_id then Inl IntegrityError
         else let tbl = AList.update k row tbl
              in case get_scoped_entry key kind provider_kind tbl of
                   None \<Rightarrow> Inl RuntimeError | Some _ \<Rightarrow> Inr tbl)"

definition sticky_upsert ::
  "real \<Rightarrow> string \<Rightarrow> string \<Rightarrow> StickySessionKind \<Rightarrow> sticky_table \<Rightarrow> py_error + sticky_table" where
  "sticky_upsert db_now key account_id kind =
     upsert_target db_now key kind CHATGPT_WEB_PROVIDER_KIND account_id (Some account_id)"

definition sticky_delete :: "string \<Rightarrow> StickySessionKind \<Rightarrow> sticky_table \<Rightarrow> sticky_table" where
  "sticky_delete key kind tbl = fst (delete_scoped key kind CHATGPT_WEB_PROVIDER_KIND tbl)"

definition delete_by_routing_subject :: "string \<Rightarrow> string \<Rightarrow> sticky_table \<Rightarrow> sticky_table \<times> nat" where
  "delete_by_routing_subject provider_kind routing_subject_id tbl =
     (if routing_subject_id = [] then (tbl, 0)
      else let hit = (\<lambda>((p, k, key), row). p = provider_kind \<and> ss_routing_subject_id row = routing_subject_id)
           in (filter (\<lambda>e. \<not> hit e) tbl, length (filter hit tbl)))"

definition purge_before :: "real \<Rightarrow> StickySessionKind option \<Rightarrow> sticky_table \<Rightarrow> sticky_table \<times> nat" where
  "purge_before cutoff kind tbl =
     (let hit = (\<lambda>((p, k, key), row). ss_updated_at row < cutoff \<and> (kind = None \<or> kind = Some k))
      in (filter (\<lambda>e. \<not> hit e) tbl, length (filter hit tbl)))"

section \<open>Selecting from part of the states\<close>

fun write_back :: "('a \<Rightarrow> bool) \<Rightarrow> 'a list \<Rightarrow> 'a list \<Rightarrow> 'a list" where
  "write_back P [] ys = []"
| "write_back P (x # xs) [] = x # xs"
| "write_back P (x # xs) (y # ys) = (if P x then y # write_back P xs ys else x # write_back P xs (y # ys))"

type_synonym selection_run = "account_state list \<times> (py_error + selection_result)"

definition select_within ::
  "selection_env \<Rightarrow> select_opts \<Rightarrow> real option \<Rightarrow> (account_state \<Rightarrow> bool) \<Rightarrow> account_state list \<Rightarrow> selection_run" where
  "select_within env opts now P states =
     (let (chosen, res) = select_account env opts now (filter P states)
      in (write_back P states chosen, res))"

section \<open>Preferring accounts below their budget\<close>

definition effective_used :: "account_state \<Rightarrow> real option" where
  "effective_used state = first_some (st_priority_used_percent state) (st_used_percent state)"

definition above :: "real option \<Rightarrow> real \<Rightarrow> bool" where
  "above used threshold = (case used of None \<Rightarrow> False | Some u \<Rightarrow> u > threshold)"

definition state_above_budget_threshold :: "account_state \<Rightarrow> real \<Rightarrow> bool" where
  "state_above_budget_threshold state budget_threshold_pct = above (effective_used state) budget_threshold_pct"

definition state_above_sticky_budget_threshold :: "account_state \<Rightarrow> real \<Rightarrow> real option \<Rightarrow> bool" where
  "state_above_sticky_budget_threshold state budget_threshold_pct secondary_budget_threshold_pct =
     (let secondary_threshold = default secondary_budget_threshold_pct budget_threshold_pct;
          secondary_used =
            (if st_limit_scoped_usage state \<and> st_priority_secondary_used_percent state = None
             then effective_used state
             else first_some (st_priority_secondary_used_percent state) (st_secondary_used_percent state))
      in above (effective_used state) budget_threshold_pct \<or> above secondary_used secondary_threshold)"

record budget_opts =
  bo_budget_threshold_pct :: real
  bo_secondary_budget_threshold_pct :: real
  bo_apply_secondary_budget_threshold :: bool

definition over_budget :: "budget_opts \<Rightarrow> account_state \<Rightarrow> bool" where
  "over_budget b state =
     (if bo_apply_secondary_budget_threshold b
      then state_above_sticky_budget_threshold state (bo_budget_threshold_pct b)
             (Some (bo_secondary_budget_threshold_pct b))
      else state_above_budget_threshold state (bo_budget_threshold_pct b))"

definition budget_safe :: "budget_opts \<Rightarrow> account_state \<Rightarrow> bool" where
  "budget_safe b state = (st_routing_policy state \<noteq> ROUTING_POLICY_PRESERVE \<and> \<not> over_budget b state)"

definition best_health_tier_states :: "account_state list \<Rightarrow> account_state list" where
  "best_health_tier_states states =
     (let tier = (\<lambda>t. filter (\<lambda>s. st_health_tier s = t) states)
      in or_list (tier HEALTH_TIER_HEALTHY)
           (or_list (tier HEALTH_TIER_PROBING) (or_list (tier HEALTH_TIER_DRAINING) states)))"

text \<open>Membership in the best tier, as a predicate on the states of the list.\<close>

definition in_best_tier :: "account_state list \<Rightarrow> account_state \<Rightarrow> bool" where
  "in_best_tier states s =
     (if \<exists>x \<in> set states. st_health_tier x = HEALTH_TIER_HEALTHY then st_health_tier s = HEALTH_TIER_HEALTHY
      else if \<exists>x \<in> set states. st_health_tier x = HEALTH_TIER_PROBING then st_health_tier s = HEALTH_TIER_PROBING
      else if \<exists>x \<in> set states. st_health_tier x = HEALTH_TIER_DRAINING then st_health_tier s = HEALTH_TIER_DRAINING
      else True)"

definition drain_strategy :: "RoutingStrategy \<Rightarrow> bool" where
  "drain_strategy r = (r \<in> {Sequential_drain, Reset_drain, Single_account})"

definition last_resort_opts :: "select_opts \<Rightarrow> select_opts" where
  "last_resort_opts opts =
     (if so_routing_strategy opts = Usage_weighted
      then opts\<lparr>so_usage_weighted_order := Primary_first, so_relative_availability_power := 2,
                so_relative_availability_top_k := 5\<rparr>
      else opts)"

definition select_preferred ::
  "(nat \<Rightarrow> selection_env) \<Rightarrow> select_opts \<Rightarrow> budget_opts \<Rightarrow> account_state list \<Rightarrow> selection_run" where
  "select_preferred envs opts b states =
     (if \<exists>s \<in> set states. budget_safe b s
      then case select_within (envs 1) opts None (budget_safe b) states of
             (states1, Inl err) \<Rightarrow> (states1, Inl err)
           | (states1, Inr preferred) \<Rightarrow>
               if sel_account preferred \<noteq> None \<or> (\<forall>s \<in> set states. budget_safe b s)
               then (states1, Inr preferred)
               else select_account (envs 2) (last_resort_opts opts) None states1
      else select_account (envs 2) (if states = [] then opts else last_resort_opts opts) None states)"

definition burn_first_in_best_tier :: "account_state list \<Rightarrow> account_state \<Rightarrow> bool" where
  "burn_first_in_best_tier states s = (in_best_tier states s \<and> st_routing_policy s = ROUTING_POLICY_BURN_FIRST)"

definition select_account_preferring_budget_safe ::
  "(nat \<Rightarrow> selection_env) \<Rightarrow> select_opts \<Rightarrow> budget_opts \<Rightarrow> account_state list \<Rightarrow> selection_run" where
  "select_account_preferring_budget_safe envs opts b states =
     (if drain_strategy (so_routing_strategy opts)
      then (if \<exists>s \<in> set states. budget_safe b s then select_within (envs 0) opts None (budget_safe b) states
            else select_account (envs 0) opts None states)
      else if \<exists>s \<in> set states. burn_first_in_best_tier states s
      then case select_within (envs 0) (opts\<lparr>so_allow_backoff_fallback := False\<rparr>) None
                  (burn_first_in_best_tier states) states of
             (states1, Inl err) \<Rightarrow> (states1, Inl err)
           | (states1, Inr burn_first) \<Rightarrow>
               if sel_account burn_first \<noteq> None then (states1, Inr burn_first)
               else select_preferred envs opts b states1
      else select_preferred envs opts b states)"

section \<open>Keeping a session on its account\<close>

text \<open>
  The request; \<open>sr_existing = None\<close> is \<open>_STICKY_EXISTING_UNSET\<close> (the binding is still to be read),
  and \<open>sr_repo\<close> says whether a repository was handed in.
\<close>

record sticky_request =
  sr_key :: "string option"
  sr_kind :: "StickySessionKind option"
  sr_repo :: bool
  sr_reallocate :: bool
  sr_max_age_seconds :: "int option"
  sr_budget_reallocation_enabled :: bool
  sr_budget_threshold_pct :: real
  sr_secondary_budget_threshold_pct :: real
  sr_existing :: "string option option"

record sticky_clock =
  stc_utc :: real
  stc_now :: real
  stc_db_now :: real
  stc_envs :: "nat \<Rightarrow> selection_env"

fun index_of_account :: "string \<Rightarrow> account_state list \<Rightarrow> nat option" where
  "index_of_account i [] = None"
| "index_of_account i (s # states) =
     (if st_account_id s = i then Some 0 else map_option Suc (index_of_account i states))"

definition select_at ::
  "selection_env \<Rightarrow> select_opts \<Rightarrow> real option \<Rightarrow> nat \<Rightarrow> account_state list \<Rightarrow> selection_run" where
  "select_at env opts now n states =
     (let (chosen, res) = select_account env opts now [states ! n]
      in (states[n := hd chosen], res))"

definition plain_budget :: "sticky_request \<Rightarrow> bool \<Rightarrow> budget_opts" where
  "plain_budget req apply_secondary =
     \<lparr>bo_budget_threshold_pct = sr_budget_threshold_pct req,
      bo_secondary_budget_threshold_pct = sr_secondary_budget_threshold_pct req,
      bo_apply_secondary_budget_threshold = apply_secondary\<rparr>"

definition budget_pressured :: "sticky_request \<Rightarrow> select_opts \<Rightarrow> account_state \<Rightarrow> bool" where
  "budget_pressured req opts pinned =
     (sr_budget_reallocation_enabled req \<and> sr_kind req \<in> Some ` {PROMPT_CACHE, STICKY_THREAD, CODEX_SESSION} \<and>
      \<not> drain_strategy (so_routing_strategy opts) \<and> st_status pinned \<noteq> RATE_LIMITED \<and>
      state_above_sticky_budget_threshold pinned (sr_budget_threshold_pct req)
        (Some (sr_secondary_budget_threshold_pct req)))"

definition rate_limit_far_away :: "sticky_request \<Rightarrow> real \<Rightarrow> account_state \<Rightarrow> bool" where
  "rate_limit_far_away req now pinned =
     (sr_kind req = Some PROMPT_CACHE \<and> st_status pinned = RATE_LIMITED \<and>
      (case st_reset_at pinned of None \<Rightarrow> False | Some r \<Rightarrow> r - now \<ge> 600))"

text \<open>The options of the pinned and of the burn-first probe; the latter drops window and costs.\<close>

definition pinned_opts :: "select_opts \<Rightarrow> select_opts" where
  "pinned_opts opts = opts\<lparr>so_allow_backoff_fallback := False\<rparr>"

definition burn_probe_opts :: "select_opts \<Rightarrow> select_opts" where
  "burn_probe_opts opts =
     opts\<lparr>so_allow_backoff_fallback := False, so_deterministic_probe := True,
          so_prefer_earlier_reset_window := SecondaryWindow, so_routing_costs := None\<rparr>"

definition is_burn_first :: "account_state \<Rightarrow> bool" where
  "is_burn_first s = (st_routing_policy s = ROUTING_POLICY_BURN_FIRST)"

text \<open>May the session leave: the account is not a burn-first one, and a burn-first one, if any, can serve.\<close>

definition burn_first_reallocate ::
  "sticky_clock \<Rightarrow> select_opts \<Rightarrow> account_state \<Rightarrow> account_state list \<Rightarrow> account_state list \<times> (py_error + bool)" where
  "burn_first_reallocate clk opts pinned states =
     (if is_burn_first pinned then (states, Inr False)
      else if \<exists>s \<in> set states. is_burn_first s
      then case select_within (stc_envs clk 0) (burn_probe_opts opts) None is_burn_first states of
             (states, Inl err) \<Rightarrow> (states, Inl err)
           | (states, Inr burn_first) \<Rightarrow> (states, Inr (sel_account burn_first \<noteq> None))
      else (states, Inr True))"

text \<open>
  The outcome of looking at the pinned account: the request is answered, or the search goes on with
  the flags \<open>persist_fallback\<close> and \<open>apply_sticky_secondary_budget_threshold\<close>.
\<close>

datatype pinned_outcome = Answered selection_result | GoOn bool bool

type_synonym sticky_run = "sticky_table \<times> account_state list \<times> (py_error + selection_result)"

type_synonym pinned_run = "sticky_table \<times> account_state list \<times> (py_error + pinned_outcome)"

definition touch_pinned ::
  "sticky_clock \<Rightarrow> sticky_request \<Rightarrow> string \<Rightarrow> StickySessionKind \<Rightarrow> string \<Rightarrow> sticky_table \<Rightarrow> py_error + sticky_table" where
  "touch_pinned clk req key kind account_id tbl =
     (if sr_max_age_seconds req \<noteq> None then sticky_upsert (stc_db_now clk) key account_id kind tbl else Inr tbl)"

definition answer_pinned ::
  "sticky_clock \<Rightarrow> sticky_request \<Rightarrow> string \<Rightarrow> StickySessionKind \<Rightarrow> string \<Rightarrow> selection_result
   \<Rightarrow> sticky_table \<Rightarrow> account_state list \<Rightarrow> pinned_run" where
  "answer_pinned clk req key kind account_id result tbl states =
     (case touch_pinned clk req key kind account_id tbl of
        Inl err \<Rightarrow> (tbl, states, Inl err) | Inr tbl \<Rightarrow> (tbl, states, Inr (Answered result)))"

text \<open>After the pinned account could not answer: the grace period, then what becomes of the binding.\<close>

definition after_pinned ::
  "sticky_clock \<Rightarrow> sticky_request \<Rightarrow> select_opts \<Rightarrow> string \<Rightarrow> StickySessionKind \<Rightarrow> nat \<Rightarrow> bool \<Rightarrow> bool
   \<Rightarrow> sticky_table \<Rightarrow> account_state list \<Rightarrow> pinned_run" where
  "after_pinned clk req opts key kind n reallocate apply_secondary tbl states =
     (let pinned = states ! n;
          leave = (if reallocate then (sticky_delete key kind tbl, states, Inr (GoOn True apply_secondary))
                   else if st_status pinned \<notin> {ACTIVE, RATE_LIMITED, QUOTA_EXCEEDED}
                   then (tbl, states, Inr (GoOn True apply_secondary))
                   else (tbl, states, Inr (GoOn (sr_max_age_seconds req = None) apply_secondary)))
      in if \<not> reallocate \<and> st_status pinned = RATE_LIMITED
         then case snd (select_account (stc_envs clk 4) (pinned_opts opts)
                          (Some (env_time (stc_envs clk 4) + STICKY_GRACE_PERIOD_SECONDS)) [pinned]) of
                Inl err \<Rightarrow> (tbl, states, Inl err)
              | Inr grace_result \<Rightarrow>
                  if sel_account grace_result \<noteq> None
                  then answer_pinned clk req key kind (st_account_id pinned) grace_result tbl states
                  else leave
         else leave)"

definition try_pinned ::
  "sticky_clock \<Rightarrow> sticky_request \<Rightarrow> select_opts \<Rightarrow> string \<Rightarrow> StickySessionKind \<Rightarrow> nat \<Rightarrow> nat \<Rightarrow> bool \<Rightarrow> bool
   \<Rightarrow> sticky_table \<Rightarrow> account_state list \<Rightarrow> pinned_run" where
  "try_pinned clk req opts key kind call n reallocate apply_secondary tbl states =
     (case select_at (stc_envs clk call) (pinned_opts opts) None n states of
        (states1, Inl err) \<Rightarrow> (tbl, states1, Inl err)
      | (states1, Inr pinned_result) \<Rightarrow>
          if sel_account pinned_result \<noteq> None
          then answer_pinned clk req key kind (st_account_id (states ! n)) pinned_result tbl states1
          else after_pinned clk req opts key kind n reallocate apply_secondary tbl states1)"

text \<open>Is every account of the pool as exhausted as the pinned one?\<close>

definition pool_also_exhausted :: "sticky_request \<Rightarrow> account_state \<Rightarrow> selection_result \<Rightarrow> bool" where
  "pool_also_exhausted req pinned pool_best =
     (case sel_account pool_best of
        None \<Rightarrow> False
      | Some best \<Rightarrow> st_account_id best = st_account_id pinned \<or>
                     state_above_sticky_budget_threshold best (sr_budget_threshold_pct req)
                       (Some (sr_secondary_budget_threshold_pct req)))"

definition leave_pinned ::
  "sticky_clock \<Rightarrow> sticky_request \<Rightarrow> select_opts \<Rightarrow> string \<Rightarrow> StickySessionKind \<Rightarrow> nat \<Rightarrow> bool
   \<Rightarrow> sticky_table \<Rightarrow> account_state list \<Rightarrow> pinned_run" where
  "leave_pinned clk req opts key kind n pressed tbl states =
     (if pressed
      then case select_account_preferring_budget_safe (\<lambda>k. stc_envs clk (10 + k))
                  (opts\<lparr>so_deterministic_probe := True\<rparr>) (plain_budget req True) states of
             (states1, Inl err) \<Rightarrow> (tbl, states1, Inl err)
           | (states1, Inr pool_best) \<Rightarrow>
               if pool_also_exhausted req (states1 ! n) pool_best
               then try_pinned clk req opts key kind 3 n True True tbl states1
               else after_pinned clk req opts key kind n True True tbl states1
      else after_pinned clk req opts key kind n True False tbl states)"

definition consider_pinned ::
  "sticky_clock \<Rightarrow> sticky_request \<Rightarrow> select_opts \<Rightarrow> string \<Rightarrow> StickySessionKind \<Rightarrow> nat
   \<Rightarrow> sticky_table \<Rightarrow> account_state list \<Rightarrow> pinned_run" where
  "consider_pinned clk req opts key kind n tbl states =
     (let pinned = states ! n;
          pressed = budget_pressured req opts pinned;
          far = rate_limit_far_away req (stc_now clk) pinned
      in case burn_first_reallocate clk opts pinned states of
           (states1, Inl err) \<Rightarrow> (tbl, states1, Inl err)
         | (states1, Inr may_leave) \<Rightarrow>
             if \<not> ((pressed \<or> far) \<and> may_leave)
             then try_pinned clk req opts key kind 1 n (sr_reallocate req) False tbl states1
             else leave_pinned clk req opts key kind n pressed tbl states1)"

definition choose_and_bind ::
  "sticky_clock \<Rightarrow> sticky_request \<Rightarrow> select_opts \<Rightarrow> string \<Rightarrow> StickySessionKind \<Rightarrow> accounts_table \<Rightarrow> bool \<Rightarrow> bool
   \<Rightarrow> sticky_table \<Rightarrow> account_state list \<Rightarrow> sticky_run" where
  "choose_and_bind clk req opts key kind account_map persist_fallback apply_secondary tbl states =
     (case select_account_preferring_budget_safe (\<lambda>k. stc_envs clk (20 + k)) opts
             (plain_budget req apply_secondary) states of
        (states, Inl err) \<Rightarrow> (tbl, states, Inl err)
      | (states, Inr chosen) \<Rightarrow>
          (case sel_account chosen of
             None \<Rightarrow> (tbl, states, Inr chosen)
           | Some s \<Rightarrow>
               if persist_fallback \<and> map_of account_map (st_account_id s) \<noteq> None
               then case sticky_upsert (stc_db_now clk) key (st_account_id s) kind tbl of
                      Inl err \<Rightarrow> (tbl, states, Inl err) | Inr tbl \<Rightarrow> (tbl, states, Inr chosen)
               else (tbl, states, Inr chosen)))"

definition existing_binding ::
  "sticky_clock \<Rightarrow> sticky_request \<Rightarrow> string \<Rightarrow> StickySessionKind \<Rightarrow> sticky_table \<Rightarrow> sticky_table \<times> string option" where
  "existing_binding clk req key kind tbl =
     (case sr_existing req of
        None \<Rightarrow> get_account_id (stc_utc clk) key kind (sr_max_age_seconds req) tbl
      | Some existing \<Rightarrow> (tbl, existing))"

definition select_with_stickiness ::
  "sticky_clock \<Rightarrow> sticky_request \<Rightarrow> select_opts \<Rightarrow> accounts_table \<Rightarrow> sticky_table \<Rightarrow> account_state list \<Rightarrow> sticky_run" where
  "select_with_stickiness clk req opts account_map tbl states =
     (case sr_key req of
        None \<Rightarrow>
          (tbl, select_account_preferring_budget_safe (\<lambda>k. stc_envs clk (20 + k)) opts
                  \<lparr>bo_budget_threshold_pct = sr_budget_threshold_pct req,
                   bo_secondary_budget_threshold_pct = 100, bo_apply_secondary_budget_threshold = False\<rparr> states)
      | Some key \<Rightarrow>
          if key = [] \<or> \<not> sr_repo req
          then (tbl, select_account_preferring_budget_safe (\<lambda>k. stc_envs clk (20 + k)) opts
                       \<lparr>bo_budget_threshold_pct = sr_budget_threshold_pct req,
                        bo_secondary_budget_threshold_pct = 100, bo_apply_secondary_budget_threshold = False\<rparr> states)
          else
            (case sr_kind req of
               None \<Rightarrow> (tbl, states, Inl ValueError)
             | Some kind \<Rightarrow>
                 let (tbl, existing) = existing_binding clk req key kind tbl
                 in if existing = None \<or> existing = Some []
                    then choose_and_bind clk req opts key kind account_map True False tbl states
                    else
                      (case index_of_account (the existing) states of
                         None \<Rightarrow> choose_and_bind clk req opts key kind account_map True False
                                   (sticky_delete key kind tbl) states
                       | Some n \<Rightarrow>
                           (case consider_pinned clk req opts key kind n tbl states of
                              (tbl, states, Inl err) \<Rightarrow> (tbl, states, Inl err)
                            | (tbl, states, Inr (Answered result)) \<Rightarrow> (tbl, states, Inr result)
                            | (tbl, states, Inr (GoOn persist_fallback apply_secondary)) \<Rightarrow>
                                choose_and_bind clk req opts key kind account_map persist_fallback
                                  apply_secondary tbl states))))"

section \<open>Selectors\<close>

lemma write_back_ids:
  "map f ys = map f (filter P xs) \<Longrightarrow> map f (write_back P xs ys) = map f xs"
proof (induction P xs ys rule: write_back.induct)
  case (2 P x xs)
  then show ?case by (simp split: if_splits)
qed (auto split: if_splits)

lemma write_back_mem: "length ys = length (filter P xs) \<Longrightarrow> y \<in> set ys \<Longrightarrow> y \<in> set (write_back P xs ys)"
  by (induction P xs ys rule: write_back.induct) (auto split: if_splits)

lemma write_back_other: "\<not> P (xs ! n) \<Longrightarrow> n < length xs \<Longrightarrow> write_back P xs ys ! n = xs ! n"
proof (induction P xs ys arbitrary: n rule: write_back.induct)
  case (3 P x xs y ys)
  then show ?case by (cases n) auto
qed auto

text \<open>The contract of one run of a selector; it depends on the list only through the ids.\<close>

definition run_ok :: "account_state list \<Rightarrow> selection_run \<Rightarrow> bool" where
  "run_ok xs run \<longleftrightarrow>
     map st_account_id (fst run) = map st_account_id xs \<and>
     (\<exists>res. snd run = Inr res \<and>
        ((\<exists>s. res = selected_account s \<and> s \<in> set (fst run)) \<or> (\<exists>m. res = selection_error m)))"

lemma result_eqs [simp]:
  "selected_account s = selected_account t \<longleftrightarrow> s = t"
  "selected_account s \<noteq> selection_error m" "selection_error m \<noteq> selected_account s"
  "selection_error m = selection_error m' \<longleftrightarrow> m = m'"
  by (auto simp: selected_account_def selection_error_def)

lemma run_ok_simps [simp]:
  "run_ok xs (ys, Inr (selected_account s)) \<longleftrightarrow> map st_account_id ys = map st_account_id xs \<and> s \<in> set ys"
  "run_ok xs (ys, Inr (selection_error m)) \<longleftrightarrow> map st_account_id ys = map st_account_id xs"
  by (auto simp: run_ok_def)

context selector
begin

lemma select_run_ok: "run_ok xs (select xs)"
  using select_total[of xs] select_ids[of xs] select_mem[of xs] by (auto simp: run_ok_def)

end

lemma selectorI:
  assumes "\<And>xs. run_ok xs (sel xs)"
  shows "selector sel"
proof
  fix xs s
  obtain res where r: "map st_account_id (fst (sel xs)) = map st_account_id xs" "snd (sel xs) = Inr res"
    "(\<exists>s. res = selected_account s \<and> s \<in> set (fst (sel xs))) \<or> (\<exists>m. res = selection_error m)"
    using assms[of xs] by (auto simp: run_ok_def)
  then show "\<exists>res. snd (sel xs) = Inr res \<and> ((\<exists>s. res = selected_account s) \<or> (\<exists>m. res = selection_error m))"
    by blast
  show "map st_account_id (fst (sel xs)) = map st_account_id xs" by (rule r(1))
  show "snd (sel xs) = Inr (selected_account s) \<Longrightarrow> s \<in> set (fst (sel xs))"
    using r(2,3) by (auto simp: selected_account_def selection_error_def)
qed

lemma run_ok_ids: "run_ok ys run \<Longrightarrow> map st_account_id ys = map st_account_id xs \<Longrightarrow> run_ok xs run"
  by (simp add: run_ok_def)

lemma run_okE:
  assumes "run_ok xs run"
  obtains (account) ys s where "run = (ys, Inr (selected_account s))" "s \<in> set ys" "map st_account_id ys = map st_account_id xs"
  | (message) ys m where "run = (ys, Inr (selection_error m))" "map st_account_id ys = map st_account_id xs"
  using assms by (cases run) (auto simp: run_ok_def)

lemma select_within_eq:
  "select_within env opts now P xs =
     (write_back P xs (fst (select_account env opts now (filter P xs))),
      snd (select_account env opts now (filter P xs)))"
  by (simp add: select_within_def split_def Let_def)

interpretation within_selector: selector "select_within env opts now P" for env opts now P
proof (rule selectorI)
  fix xs
  have "run_ok (filter P xs) (select_account env opts now (filter P xs))" by (rule plain_selector.select_run_ok)
  then show "run_ok xs (select_within env opts now P xs)"
  proof (cases rule: run_okE)
    case (account ys s)
    then show ?thesis
      using write_back_ids[OF account(3)] write_back_mem[OF map_eq_imp_length_eq[OF account(3)] account(2)]
      by (simp add: select_within_eq)
  next
    case (message ys m)
    then show ?thesis using write_back_ids[OF message(2)] by (simp add: select_within_eq)
  qed
qed

text \<open>Selecting from part of the states yields one of that part.\<close>

lemma within_selected:
  assumes "snd (select_within env opts now P xs) = Inr (selected_account s)"
  shows "\<exists>x \<in> set xs. P x \<and> st_account_id x = st_account_id s"
  using plain_selector.selected_id[of env opts now "filter P xs" s] assms
  by (auto simp: select_within_eq)

interpretation preferred_selector: selector "select_preferred envs opts b" for envs opts b
proof (rule selectorI)
  fix xs
  have "run_ok xs (select_within (envs 1) opts None (budget_safe b) xs)" by (rule within_selector.select_run_ok)
  then show "run_ok xs (select_preferred envs opts b xs)"
  proof (cases rule: run_okE)
    case (account ys s)
    then show ?thesis
      by (simp add: select_preferred_def plain_selector.select_run_ok)
  next
    case (message ys m)
    then show ?thesis
      using run_ok_ids[OF plain_selector.select_run_ok message(2)]
      by (simp add: select_preferred_def plain_selector.select_run_ok)
  qed
qed

interpretation budget_selector: selector "select_account_preferring_budget_safe envs opts b" for envs opts b
proof (rule selectorI)
  fix xs
  have "run_ok xs (select_within (envs 0) (opts\<lparr>so_allow_backoff_fallback := False\<rparr>) None
      (burn_first_in_best_tier xs) xs)"
    by (rule within_selector.select_run_ok)
  then show "run_ok xs (select_account_preferring_budget_safe envs opts b xs)"
  proof (cases rule: run_okE)
    case (account ys s)
    then show ?thesis
      by (simp add: select_account_preferring_budget_safe_def plain_selector.select_run_ok
          within_selector.select_run_ok preferred_selector.select_run_ok)
  next
    case (message ys m)
    then show ?thesis
      using run_ok_ids[OF preferred_selector.select_run_ok message(2)]
      by (simp add: select_account_preferring_budget_safe_def plain_selector.select_run_ok
          within_selector.select_run_ok preferred_selector.select_run_ok)
  qed
qed

lemma best_tier_filter: "best_health_tier_states states = filter (in_best_tier states) states"
proof -
  have "in_best_tier states =
      (if filter (\<lambda>s. st_health_tier s = HEALTH_TIER_HEALTHY) states \<noteq> [] then (\<lambda>s. st_health_tier s = HEALTH_TIER_HEALTHY)
       else if filter (\<lambda>s. st_health_tier s = HEALTH_TIER_PROBING) states \<noteq> [] then (\<lambda>s. st_health_tier s = HEALTH_TIER_PROBING)
       else if filter (\<lambda>s. st_health_tier s = HEALTH_TIER_DRAINING) states \<noteq> [] then (\<lambda>s. st_health_tier s = HEALTH_TIER_DRAINING)
       else (\<lambda>s. True))"
    by (rule ext) (simp add: in_best_tier_def filter_empty_conv)
  then show ?thesis by (simp add: best_health_tier_states_def or_list_def Let_def)
qed

section \<open>The binding of a session\<close>

definition bound :: "string \<Rightarrow> StickySessionKind \<Rightarrow> sticky_table \<Rightarrow> string option" where
  "bound key kind tbl =
     (case map_of tbl (CHATGPT_WEB_PROVIDER_KIND, kind, key) of None \<Rightarrow> None | Some row \<Rightarrow> ss_account_id row)"

lemma providers_distinct [simp]: "CHATGPT_WEB_PROVIDER_KIND \<noteq> OPENAI_PLATFORM_PROVIDER_KIND"
  by (simp add: CHATGPT_WEB_PROVIDER_KIND_def OPENAI_PLATFORM_PROVIDER_KIND_def)

lemma sticky_upsert_ok:
  assumes "key \<noteq> []" and "a \<noteq> []"
  shows "\<exists>row. sticky_upsert db_now key a kind tbl = Inr (AList.update (CHATGPT_WEB_PROVIDER_KIND, kind, key) row tbl) \<and>
           ss_account_id row = Some a \<and> ss_routing_subject_id row = a \<and> ss_updated_at row = db_now"
  using assms
  by (simp add: sticky_upsert_def upsert_target_def sticky_row_allowed_def get_scoped_entry_def Let_def update_conv')
     (intro exI conjI; (rule refl)?; simp)

lemma sticky_upsert_bound:
  assumes "key \<noteq> []" and "a \<noteq> []"
  obtains tbl' where "sticky_upsert db_now key a kind tbl = Inr tbl'" and "bound key kind tbl' = Some a"
  using sticky_upsert_ok[OF assms, of db_now kind tbl] by (auto simp: bound_def update_conv')

text \<open>
  A session's binding is remembered and forgotten as promised. After a session was bound to an
  account, a lookup within the maximum age (or without one) returns that account and changes
  nothing; a lookup past the maximum age returns nothing and removes the binding; and no other
  session's binding is affected by the write.
\<close>

theorem sticky_binding_roundtrip:
  assumes "key \<noteq> []" and "py_strip a \<noteq> []"
    and "sticky_upsert db_now key a kind tbl = Inr tbl'"
  shows "((max_age = None \<or> (\<exists>age. max_age = Some age \<and> utc - of_int age \<le> db_now)) \<longrightarrow>
       get_account_id utc key kind max_age tbl' = (tbl', Some a)) \<and>
     (db_now < utc - of_int age \<longrightarrow>
       snd (get_account_id utc key kind (Some age) tbl') = None \<and>
       bound key kind (fst (get_account_id utc key kind (Some age) tbl')) = None) \<and>
     (((provider, kind', key') \<noteq> (CHATGPT_WEB_PROVIDER_KIND, kind, key)) \<longrightarrow>
       map_of tbl' (provider, kind', key') = map_of tbl (provider, kind', key'))"
proof -
  let ?k = "(CHATGPT_WEB_PROVIDER_KIND, kind, key)"
  have a: "a \<noteq> []" using assms(2) by (auto simp: py_strip_def)
  obtain row where tbl': "tbl' = AList.update ?k row tbl"
    and row: "ss_account_id row = Some a" "ss_routing_subject_id row = a" "ss_updated_at row = db_now"
    using sticky_upsert_ok[OF assms(1) a, of db_now kind tbl] assms(3) by auto
  have look: "map_of tbl' ?k = Some row" by (simp add: tbl' update_conv')
  note defs = get_account_id_def get_target_def get_scoped_entry_def target_from_row_def
  have c1: "get_account_id utc key kind max_age tbl' = (tbl', Some a)"
    if "max_age = None \<or> (\<exists>age. max_age = Some age \<and> utc - of_int age \<le> db_now)"
    using that assms(1,2) look row by (auto simp: defs Let_def)
  have c2: "snd (get_account_id utc key kind (Some age) tbl') = None \<and>
      bound key kind (fst (get_account_id utc key kind (Some age) tbl')) = None" if "db_now < utc - of_int age"
    using that assms(1) look row by (simp add: defs delete_scoped_def bound_def delete_conv')
  have c3: "map_of tbl' (provider, kind', key') = map_of tbl (provider, kind', key')"
    if "(provider, kind', key') \<noteq> ?k"
    using that by (auto simp: tbl' update_conv')
  show ?thesis using c1 c2 c3 by blast
qed

theorem sticky_binding_roundtrip_witness:
  "\<exists>tbl'. sticky_upsert 100 ''session'' ''a'' CODEX_SESSION [] = Inr tbl' \<and>
     get_account_id 5000 ''session'' CODEX_SESSION None tbl' = (tbl', Some ''a'') \<and>
     snd (get_account_id 5000 ''session'' CODEX_SESSION (Some 600) tbl') = None"
proof -
  have strip: "py_strip ''a'' \<noteq> []" by code_simp
  obtain tbl' where u: "sticky_upsert 100 ''session'' ''a'' CODEX_SESSION [] = Inr tbl'"
    using sticky_upsert_ok[of "''session''" "''a''" 100 CODEX_SESSION "[]"] by auto
  with sticky_binding_roundtrip[OF _ strip u, of None 5000 600]
  show ?thesis by simp
qed

section \<open>What happens to the pinned account\<close>

lemma single_selection:
  obtains (account) p' where "select_account env opts now [p] = ([p'], Inr (selected_account p'))"
      "st_account_id p' = st_account_id p"
  | (message) p' m where "select_account env opts now [p] = ([p'], Inr (selection_error m))"
      "st_account_id p' = st_account_id p"
proof -
  have "run_ok [p] (select_account env opts now [p])" by (rule plain_selector.select_run_ok)
  then show ?thesis
  proof (cases rule: run_okE)
    case (account ys s)
    then obtain y where "ys = [y]" by (metis length_map length_0_conv length_Suc_conv)
    with account that(1) show ?thesis by auto
  next
    case (message ys m)
    then obtain y where "ys = [y]" by (metis length_map length_0_conv length_Suc_conv)
    with message that(2) show ?thesis by auto
  qed
qed

lemma index_of_account_Some: "index_of_account i xs = Some n \<Longrightarrow> n < length xs \<and> st_account_id (xs ! n) = i"
  by (induction xs arbitrary: n) (auto split: if_splits)

lemma ids_update: "n < length xs \<Longrightarrow> st_account_id p = st_account_id (xs ! n) \<Longrightarrow>
    map st_account_id (xs[n := p]) = map st_account_id xs"
  by (simp add: map_update) (metis list_update_id length_map nth_map)

definition pinned_ok ::
  "sticky_request \<Rightarrow> string \<Rightarrow> StickySessionKind \<Rightarrow> string \<Rightarrow> sticky_table \<Rightarrow> account_state list \<Rightarrow> pinned_run \<Rightarrow> bool" where
  "pinned_ok req key kind a tbl states run \<longleftrightarrow>
     (case run of (tbl', states', out) \<Rightarrow>
        map st_account_id states' = map st_account_id states \<and>
        (case out of
           Inl err \<Rightarrow> False
         | Inr (Answered r) \<Rightarrow>
             (\<exists>s. r = selected_account s \<and> st_account_id s = a) \<and>
             (if sr_max_age_seconds req = None then tbl' = tbl else bound key kind tbl' = Some a)
         | Inr (GoOn persist ap) \<Rightarrow>
             (tbl' = tbl \<or> tbl' = sticky_delete key kind tbl \<and> persist) \<and>
             (sr_max_age_seconds req = None \<longrightarrow> persist)))"

lemma pinned_ok_ids:
  "pinned_ok req key kind a tbl ys run \<Longrightarrow> map st_account_id ys = map st_account_id xs \<Longrightarrow>
   pinned_ok req key kind a tbl xs run"
  by (simp add: pinned_ok_def)

lemma answer_pinned_ok:
  assumes "key \<noteq> []" and "a \<noteq> []" and "st_account_id s = a"
  shows "pinned_ok req key kind a tbl states (answer_pinned clk req key kind a (selected_account s) tbl states)"
proof (cases "sr_max_age_seconds req = None")
  case False
  obtain tbl' where "sticky_upsert (stc_db_now clk) key a kind tbl = Inr tbl'" "bound key kind tbl' = Some a"
    using sticky_upsert_bound[OF assms(1,2)] by blast
  with False assms(3) show ?thesis by (auto simp: answer_pinned_def touch_pinned_def pinned_ok_def)
qed (use assms(3) in \<open>simp add: answer_pinned_def touch_pinned_def pinned_ok_def\<close>)

lemma after_pinned_ok:
  assumes "key \<noteq> []" and "a \<noteq> []" and "n < length states" and "st_account_id (states ! n) = a"
  shows "pinned_ok req key kind a tbl states (after_pinned clk req opts key kind n reallocate ap tbl states)"
  using answer_pinned_ok[OF assms(1,2), of _ req kind tbl states clk] assms(4)
  by (cases rule: single_selection[of "stc_envs clk 4" "pinned_opts opts"
        "Some (env_time (stc_envs clk 4) + STICKY_GRACE_PERIOD_SECONDS)" "states ! n"])
     (auto simp: after_pinned_def pinned_ok_def[of _ _ _ _ _ _ "(_, _, Inr (GoOn _ _))"] Let_def)

lemma try_pinned_ok:
  assumes "key \<noteq> []" and "a \<noteq> []" and "n < length states" and "st_account_id (states ! n) = a"
  shows "pinned_ok req key kind a tbl states (try_pinned clk req opts key kind call n reallocate ap tbl states)"
proof (cases rule: single_selection[of "stc_envs clk call" "pinned_opts opts" None "states ! n"])
  case (account p)
  let ?states = "states[n := p]"
  have ids: "map st_account_id ?states = map st_account_id states" using account(2) assms(3) by (intro ids_update)
  have "pinned_ok req key kind a tbl ?states (answer_pinned clk req key kind a (selected_account p) tbl ?states)"
    using assms account(2) by (intro answer_pinned_ok) simp_all
  with account ids assms(4) show ?thesis by (simp add: try_pinned_def select_at_def pinned_ok_ids)
next
  case (message p m)
  let ?states = "states[n := p]"
  have ids: "map st_account_id ?states = map st_account_id states" using message(2) assms(3) by (intro ids_update)
  have "pinned_ok req key kind a tbl ?states (after_pinned clk req opts key kind n reallocate ap tbl ?states)"
    using assms message(2) by (intro after_pinned_ok) simp_all
  with message ids show ?thesis by (simp add: try_pinned_def select_at_def pinned_ok_ids)
qed

lemma leave_pinned_ok:
  assumes "key \<noteq> []" and "a \<noteq> []" and "n < length states" and "st_account_id (states ! n) = a"
  shows "pinned_ok req key kind a tbl states (leave_pinned clk req opts key kind n pressed tbl states)"
proof (cases pressed)
  case True
  have "run_ok states (select_account_preferring_budget_safe (\<lambda>k. stc_envs clk (10 + k))
      (opts\<lparr>so_deterministic_probe := True\<rparr>) (plain_budget req True) states)"
    by (rule budget_selector.select_run_ok)
  moreover have "pinned_ok req key kind a tbl states (try_pinned clk req opts key kind 3 n True True tbl ys) \<and>
      pinned_ok req key kind a tbl states (after_pinned clk req opts key kind n True True tbl ys)"
    if "map st_account_id ys = map st_account_id states" for ys
  proof -
    have "n < length ys" "st_account_id (ys ! n) = a"
      using that assms(3,4) by (metis length_map, metis length_map nth_map)
    then show ?thesis
      by (intro conjI pinned_ok_ids[OF try_pinned_ok[OF assms(1,2)] that]
          pinned_ok_ids[OF after_pinned_ok[OF assms(1,2)] that])
  qed
  ultimately show ?thesis
    using True by (cases rule: run_okE) (simp_all add: leave_pinned_def)
qed (use after_pinned_ok[OF assms] in \<open>simp add: leave_pinned_def\<close>)

lemma burn_first_reallocate_ok:
  assumes "n < length states"
  obtains states1 may_leave where "burn_first_reallocate clk opts (states ! n) states = (states1, Inr may_leave)"
    and "map st_account_id states1 = map st_account_id states" and "states1 ! n = states ! n"
proof (cases "\<not> is_burn_first (states ! n) \<and> (\<exists>s \<in> set states. is_burn_first s)")
  case True
  let ?W = "select_within (stc_envs clk 0) (burn_probe_opts opts) None is_burn_first states"
  have "run_ok states ?W" by (rule within_selector.select_run_ok)
  moreover have "fst ?W ! n = states ! n"
    using True assms by (simp add: select_within_eq write_back_other)
  ultimately show thesis
    using True that by (cases rule: run_okE) (auto simp: burn_first_reallocate_def)
next
  case False
  show thesis
  proof (cases "is_burn_first (states ! n)")
    case True
    then show ?thesis using that[of states False] by (simp add: burn_first_reallocate_def)
  next
    case False
    then have "\<not> Bex (set states) is_burn_first" using \<open>\<not> (\<not> is_burn_first (states ! n) \<and> _)\<close> by simp
    then show ?thesis using that[of states True] assms by (auto simp: burn_first_reallocate_def)
  qed
qed

lemma consider_pinned_cases:
  assumes "n < length states"
  obtains states1 where "map st_account_id states1 = map st_account_id states" and "states1 ! n = states ! n"
    and "consider_pinned clk req opts key kind n tbl states =
           try_pinned clk req opts key kind 1 n (sr_reallocate req) False tbl states1"
  | states1 where "map st_account_id states1 = map st_account_id states" and "states1 ! n = states ! n"
    and "budget_pressured req opts (states ! n) \<or> rate_limit_far_away req (stc_now clk) (states ! n)"
    and "consider_pinned clk req opts key kind n tbl states =
           leave_pinned clk req opts key kind n (budget_pressured req opts (states ! n)) tbl states1"
proof -
  obtain states1 may_leave where b: "burn_first_reallocate clk opts (states ! n) states = (states1, Inr may_leave)"
    "map st_account_id states1 = map st_account_id states" "states1 ! n = states ! n"
    by (rule burn_first_reallocate_ok[OF assms])
  let ?p = "budget_pressured req opts (states ! n)" and ?f = "rate_limit_far_away req (stc_now clk) (states ! n)"
  show thesis
  proof (cases "(?p \<or> ?f) \<and> may_leave")
    case True
    with b show ?thesis by (intro that(2)[of states1]) (auto simp: consider_pinned_def Let_def)
  next
    case False
    with b show ?thesis by (intro that(1)[of states1]) (auto simp: consider_pinned_def Let_def)
  qed
qed

lemma consider_pinned_ok:
  assumes "key \<noteq> []" and "a \<noteq> []" and "n < length states" and "st_account_id (states ! n) = a"
  shows "pinned_ok req key kind a tbl states (consider_pinned clk req opts key kind n tbl states)"
proof (cases rule: consider_pinned_cases[OF assms(3), of clk req opts key kind tbl])
  case (1 states1)
  then have "n < length states1" "st_account_id (states1 ! n) = a" using assms(3,4) by (metis length_map, simp)
  then show ?thesis
    unfolding 1(3) by (intro pinned_ok_ids[OF try_pinned_ok[OF assms(1,2)] 1(1)])
next
  case (2 states1)
  then have "n < length states1" "st_account_id (states1 ! n) = a" using assms(3,4) by (metis length_map, simp)
  then show ?thesis
    unfolding 2(4) by (intro pinned_ok_ids[OF leave_pinned_ok[OF assms(1,2)] 2(1)])
qed

lemma choose_and_bind_ok:
  assumes "key \<noteq> []" and "\<And>s. s \<in> set states \<Longrightarrow> st_account_id s \<noteq> [] \<and> map_of account_map (st_account_id s) \<noteq> None"
    and "choose_and_bind clk req opts key kind account_map persist ap tbl states = (tbl', states', res)"
  shows "\<exists>r. res = Inr r \<and>
           (\<forall>s. r = selected_account s \<and> persist \<longrightarrow> bound key kind tbl' = Some (st_account_id s)) \<and>
           (sel_account r = None \<or> \<not> persist \<longrightarrow> tbl' = tbl)"
proof -
  have "run_ok states (select_account_preferring_budget_safe (\<lambda>k. stc_envs clk (20 + k)) opts (plain_budget req ap) states)"
    by (rule budget_selector.select_run_ok)
  then show ?thesis
  proof (cases rule: run_okE)
    case (account ys s)
    then have "st_account_id s \<in> st_account_id ` set states" by (metis image_eqI list.set_map)
    then obtain x where "x \<in> set states" "st_account_id x = st_account_id s" by auto
    then have s: "st_account_id s \<noteq> []" "map_of account_map (st_account_id s) \<noteq> None"
      using assms(2)[of x] by simp_all
    obtain t where "sticky_upsert (stc_db_now clk) key (st_account_id s) kind tbl = Inr t"
      "bound key kind t = Some (st_account_id s)"
      using sticky_upsert_bound[OF assms(1) s(1)] by blast
    with account s assms(3) show ?thesis by (auto simp: choose_and_bind_def split: if_splits)
  next
    case (message ys m)
    with assms(3) show ?thesis by (auto simp: choose_and_bind_def)
  qed
qed

section \<open>Properties of session affinity\<close>

text \<open>The accounts of the selection are those of the table, their ids are not empty.\<close>

definition selectable_states :: "accounts_table \<Rightarrow> account_state list \<Rightarrow> bool" where
  "selectable_states account_map states \<longleftrightarrow>
     (\<forall>s \<in> set states. st_account_id s \<noteq> [] \<and> map_of account_map (st_account_id s) \<noteq> None)"

lemma selectable_ids:
  assumes "map st_account_id xs = map st_account_id ys"
  shows "selectable_states account_map xs = selectable_states account_map ys"
proof -
  have "selectable_states account_map zs \<longleftrightarrow>
      (\<forall>i \<in> set (map st_account_id zs). i \<noteq> [] \<and> map_of account_map i \<noteq> None)" for zs
    by (simp add: selectable_states_def)
  from this[of xs] this[of ys] show ?thesis by (simp only: assms)
qed

lemma stickiness_unfold:
  assumes "sr_key req = Some key" "key \<noteq> []" "sr_repo req" "sr_kind req = Some kind"
    and "existing_binding clk req key kind tbl = (tbl1, existing)"
  shows "select_with_stickiness clk req opts account_map tbl states =
    (if existing = None \<or> existing = Some []
     then choose_and_bind clk req opts key kind account_map True False tbl1 states
     else
       (case index_of_account (the existing) states of
          None \<Rightarrow> choose_and_bind clk req opts key kind account_map True False (sticky_delete key kind tbl1) states
        | Some n \<Rightarrow>
            (case consider_pinned clk req opts key kind n tbl1 states of
               (tbl, states, Inl err) \<Rightarrow> (tbl, states, Inl err)
             | (tbl, states, Inr (Answered result)) \<Rightarrow> (tbl, states, Inr result)
             | (tbl, states, Inr (GoOn persist ap)) \<Rightarrow>
                 choose_and_bind clk req opts key kind account_map persist ap tbl states)))"
  using assms by (simp add: select_with_stickiness_def)

text \<open>
  C26: A durable session is bound to the account that answered it. For a session without a maximum
  age, whatever happens to its account (available, exhausted, rate limited, withdrawn, gone from
  the pool), the request is answered without an exception, and when an account is selected, the
  table binds the session to that account, so the next request finds it there.
\<close>

theorem durable_session_follows_answer:
  assumes req: "sr_key req = Some key" "key \<noteq> []" "sr_repo req" "sr_kind req = Some kind"
    and durable: "sr_max_age_seconds req = None"
    and read: "existing_binding clk req key kind tbl = (tbl1, existing)" "existing = bound key kind tbl1"
    and states: "selectable_states account_map states"
    and run: "select_with_stickiness clk req opts account_map tbl states = (tbl', states', res)"
  shows "\<exists>r. res = Inr r \<and> (\<forall>s. r = selected_account s \<longrightarrow> bound key kind tbl' = Some (st_account_id s))"
proof -
  have ok: "\<And>s. s \<in> set xs \<Longrightarrow> st_account_id s \<noteq> [] \<and> map_of account_map (st_account_id s) \<noteq> None"
    if "map st_account_id xs = map st_account_id states" for xs :: "account_state list"
    using states selectable_ids[OF that, of account_map] unfolding selectable_states_def by blast
  note unf = stickiness_unfold[OF req read(1), of opts account_map states]
  have bind: "\<exists>r. res = Inr r \<and> (\<forall>s. r = selected_account s \<longrightarrow> bound key kind tbl' = Some (st_account_id s))"
    if "choose_and_bind clk req opts key kind account_map True ap t xs = (tbl', states', res)"
      "map st_account_id xs = map st_account_id states" for ap t xs
    using choose_and_bind_ok[OF req(2) ok[OF that(2)] that(1)] by auto
  show ?thesis
  proof (cases "existing = None \<or> existing = Some []")
    case True
    with run unf show ?thesis by (intro bind[of False tbl1 states]) simp_all
  next
    case False
    then obtain a where a: "existing = Some a" "a \<noteq> []" by auto
    show ?thesis
    proof (cases "index_of_account a states")
      case None
      with run unf a show ?thesis by (intro bind[of False "sticky_delete key kind tbl1" states]) simp_all
    next
      case (Some n)
      note n = index_of_account_Some[OF Some]
      obtain t xs out where c: "consider_pinned clk req opts key kind n tbl1 states = (t, xs, out)" by (metis prod_cases3)
      have p: "pinned_ok req key kind a tbl1 states (t, xs, out)"
        unfolding c[symmetric] by (rule consider_pinned_ok) (use n req a in auto)
      show ?thesis
      proof (cases out)
        case (Inl err)
        with p show ?thesis by (simp add: pinned_ok_def)
      next
        case (Inr o')
        show ?thesis
        proof (cases o')
          case (Answered r)
          with Inr p run unf a Some c durable read(2) show ?thesis by (auto simp: pinned_ok_def)
        next
          case (GoOn persist ap)
          with Inr p durable have "persist" "map st_account_id xs = map st_account_id states"
            by (auto simp: pinned_ok_def)
          with run unf a Some c Inr GoOn show ?thesis by (intro bind[of ap t xs]) simp_all
        qed
      qed
    qed
  qed
qed

definition example_sticky_req :: sticky_request where
  "example_sticky_req =
     \<lparr>sr_key = Some ''session'', sr_kind = Some CODEX_SESSION, sr_repo = True, sr_reallocate = False,
      sr_max_age_seconds = None, sr_budget_reallocation_enabled = True, sr_budget_threshold_pct = 95,
      sr_secondary_budget_threshold_pct = 100, sr_existing = None\<rparr>"

definition example_sticky_clock :: sticky_clock where
  "example_sticky_clock = \<lparr>stc_utc = 1000, stc_now = 1000, stc_db_now = 1000, stc_envs = (\<lambda>_. example_env)\<rparr>"

definition example_sticky_table :: sticky_table where
  "example_sticky_table =
     [((CHATGPT_WEB_PROVIDER_KIND, CODEX_SESSION, ''session''),
       \<lparr>ss_account_id = Some ''b'', ss_routing_subject_id = ''b'', ss_created_at = 900, ss_updated_at = 900\<rparr>)]"

definition example_account_map :: accounts_table where
  "example_account_map = [(''a'', example_account), (''b'', example_account\<lparr>acct_id := ''b''\<rparr>)]"

lemma example_binding:
  "bound ''session'' CODEX_SESSION example_sticky_table = Some ''b''"
  "existing_binding example_sticky_clock example_sticky_req ''session'' CODEX_SESSION example_sticky_table =
     (example_sticky_table, Some ''b'')"
proof -
  have strip: "py_strip ''b'' = ''b''" by code_simp
  show "bound ''session'' CODEX_SESSION example_sticky_table = Some ''b''"
    by (simp add: bound_def example_sticky_table_def)
  show "existing_binding example_sticky_clock example_sticky_req ''session'' CODEX_SESSION example_sticky_table =
     (example_sticky_table, Some ''b'')"
    by (simp add: existing_binding_def get_account_id_def get_target_def get_scoped_entry_def target_from_row_def
        example_sticky_req_def example_sticky_table_def strip Let_def)
qed

lemma example_selectable: "selectable_states example_account_map example_states"
  by (simp add: selectable_states_def example_account_map_def example_states_def AccountState_def)

lemma example_sticky_answer:
  "snd (snd (select_with_stickiness example_sticky_clock example_sticky_req example_opts
     example_account_map example_sticky_table example_states)) = Inr (selected_account (AccountState ''b'' ACTIVE))"
  by code_simp

theorem durable_session_follows_answer_witness:
  "let (tbl', states', res) = select_with_stickiness example_sticky_clock example_sticky_req example_opts
       example_account_map example_sticky_table example_states
   in res = Inr (selected_account (AccountState ''b'' ACTIVE)) \<and> bound ''session'' CODEX_SESSION tbl' = Some ''b''"
proof -
  obtain tbl' states' res where run: "select_with_stickiness example_sticky_clock example_sticky_req example_opts
      example_account_map example_sticky_table example_states = (tbl', states', res)" by (metis prod_cases3)
  have "\<exists>r. res = Inr r \<and>
      (\<forall>s. r = selected_account s \<longrightarrow> bound ''session'' CODEX_SESSION tbl' = Some (st_account_id s))"
    using durable_session_follows_answer[OF _ _ _ _ _ example_binding(2) example_binding(1)[symmetric]
        example_selectable run]
    by (simp add: example_sticky_req_def)
  moreover have "res = Inr (selected_account (AccountState ''b'' ACTIVE))" using example_sticky_answer by (simp add: run)
  ultimately have "bound ''session'' CODEX_SESSION tbl' = Some (st_account_id (AccountState ''b'' ACTIVE))" by blast
  with \<open>res = _\<close> show ?thesis by (simp add: run AccountState_def)
qed

lemma stays_on_ready_account:
  assumes req: "sr_key req = Some key" "key \<noteq> []" "sr_repo req" "sr_kind req = Some kind"
    and read: "existing_binding clk req key kind tbl = (tbl1, Some a)" "a \<noteq> []"
    and pinned: "index_of_account a states = Some n" "so_traffic_class opts = Foreground"
      "ready (current_time (stc_envs clk 1) None) (bypass_standard_quota (pinned_opts opts) (states ! n)) (states ! n)"
    and calm: "\<not> budget_pressured req opts (states ! n)" "\<not> rate_limit_far_away req (stc_now clk) (states ! n)"
  shows "\<exists>tbl' states' s. select_with_stickiness clk req opts account_map tbl states =
             (tbl', states', Inr (selected_account s)) \<and> st_account_id s = a \<and>
             (if sr_max_age_seconds req = None then tbl' = tbl1 else bound key kind tbl' = Some a)"
proof -
  note n = index_of_account_Some[OF pinned(1)]
  obtain states1 where s1: "map st_account_id states1 = map st_account_id states" "states1 ! n = states ! n"
    and c: "consider_pinned clk req opts key kind n tbl1 states =
        try_pinned clk req opts key kind 1 n (sr_reallocate req) False tbl1 states1"
    using calm consider_pinned_cases[of n states clk req opts key kind tbl1] n by metis
  have "so_traffic_class (pinned_opts opts) = Foreground" using pinned(2) by (simp add: pinned_opts_def)
  then obtain s where s: "snd (select_account (stc_envs clk 1) (pinned_opts opts) None [states ! n]) =
      Inr (selected_account s)"
    using selection_complete[of "pinned_opts opts" "states ! n" "[states ! n]"] pinned(3) by auto
  then have single: "select_account (stc_envs clk 1) (pinned_opts opts) None [states ! n] =
      ([s], Inr (selected_account s)) \<and> st_account_id s = a"
    using n by (cases rule: single_selection[of "stc_envs clk 1" "pinned_opts opts" None "states ! n"]) auto
  then have tr: "try_pinned clk req opts key kind 1 n (sr_reallocate req) False tbl1 states1 =
      answer_pinned clk req key kind a (selected_account s) tbl1 (states1[n := s])"
    using n s1 by (simp add: try_pinned_def select_at_def)
  obtain t xs out where run: "answer_pinned clk req key kind a (selected_account s) tbl1 (states1[n := s]) = (t, xs, out)"
    by (metis prod_cases3)
  have cp: "consider_pinned clk req opts key kind n tbl1 states = (t, xs, out)" unfolding c tr run ..
  have "pinned_ok req key kind a tbl1 (states1[n := s]) (t, xs, out)"
    unfolding run[symmetric] using req(2) read(2) single by (intro answer_pinned_ok) auto
  moreover have "out = Inr (Answered (selected_account s)) \<or> (\<exists>err. out = Inl err)"
    using run by (auto simp: answer_pinned_def split: sum.splits)
  ultimately show ?thesis
    using single read(2) stickiness_unfold[OF req read(1), of opts account_map states]
    by (auto simp: pinned_ok_def pinned(1) cp split: if_splits)
qed

text \<open>
  A session stays where its cache is warm. If the account a session is bound to is in the pool and
  ready, is not under budget pressure and not rate limited for long, then foreground traffic of that
  session is answered by exactly that account, whatever the strategy and the other accounts (burn-first
  ones included), and a durable binding is not touched.
\<close>

theorem session_stays_on_ready_account:
  assumes req: "sr_key req = Some key" "key \<noteq> []" "sr_repo req" "sr_kind req = Some kind"
    and read: "existing_binding clk req key kind tbl = (tbl1, Some a)" "a \<noteq> []"
    and pinned: "index_of_account a states = Some n" "so_traffic_class opts = Foreground"
      "ready (current_time (stc_envs clk 1) None) (bypass_standard_quota (pinned_opts opts) (states ! n)) (states ! n)"
    and calm: "\<not> budget_pressured req opts (states ! n)" "\<not> rate_limit_far_away req (stc_now clk) (states ! n)"
  shows "\<exists>tbl' states' s. select_with_stickiness clk req opts account_map tbl states =
             (tbl', states', Inr (selected_account s)) \<and> st_account_id s = a \<and>
             (if sr_max_age_seconds req = None then tbl' = tbl1 else bound key kind tbl' = Some a)"
  by (rule stays_on_ready_account[OF req read pinned calm])

theorem session_stays_on_ready_account_witness:
  "\<exists>states' s. select_with_stickiness example_sticky_clock example_sticky_req example_opts example_account_map
       example_sticky_table example_states = (example_sticky_table, states', Inr (selected_account s)) \<and>
     st_account_id s = ''b''"
proof -
  have n: "index_of_account ''b'' example_states = Some 1" by (simp add: example_states_def AccountState_def)
  have nth: "example_states ! 1 = AccountState ''b'' ACTIVE" by (simp add: example_states_def)
  have ready: "ready c b (AccountState ''b'' ACTIVE)" for c b by (simp add: ready_defs AccountState_def)
  have calm: "\<not> budget_pressured example_sticky_req example_opts (AccountState ''b'' ACTIVE)"
      "\<not> rate_limit_far_away example_sticky_req t (AccountState ''b'' ACTIVE)" for t
    by (simp_all add: budget_pressured_def rate_limit_far_away_def drain_strategy_def example_opts_def
        example_sticky_req_def)
  have "so_traffic_class example_opts = Foreground" by (simp add: example_opts_def default_opts_def)
  from session_stays_on_ready_account[OF _ _ _ _ example_binding(2) _ n this, of example_account_map] ready calm nth
  show ?thesis by (auto simp: example_sticky_req_def)
qed

lemma refresh_status: "st_status (fst (refresh_state c b s)) \<in> {st_status s, ACTIVE}"
  by (simp add: refresh_defs Let_def)

lemma single_selection_status:
  "st_status (hd (fst (select_account env opts now [p]))) \<in> {st_status p, ACTIVE}"
  using refresh_status by (simp add: select_account_unfold refreshed_states_def Let_def)

text \<open>A binding with a maximum age whose account is only temporarily down is kept.\<close>

lemma after_pinned_keeps:
  assumes "after_pinned clk req opts key kind n False ap tbl states = (t, xs, Inr (GoOn persist ap'))"
    and "st_status (states ! n) \<in> {ACTIVE, RATE_LIMITED, QUOTA_EXCEEDED}" and "sr_max_age_seconds req \<noteq> None"
  shows "t = tbl \<and> \<not> persist"
  using assms
  by (auto simp: after_pinned_def answer_pinned_def Let_def split: if_splits sum.splits)

lemma try_pinned_keeps:
  assumes run: "try_pinned clk req opts key kind call n False ap tbl states = (t, xs, Inr (GoOn persist ap'))"
    and n: "n < length states"
    and st: "st_status (states ! n) \<in> {ACTIVE, RATE_LIMITED, QUOTA_EXCEEDED}" and ttl: "sr_max_age_seconds req \<noteq> None"
  shows "t = tbl \<and> \<not> persist"
proof -
  let ?sel = "select_account (stc_envs clk call) (pinned_opts opts) None [states ! n]"
  let ?p = "hd (fst ?sel)"
  have "st_status ?p \<in> {ACTIVE, RATE_LIMITED, QUOTA_EXCEEDED}"
    using single_selection_status[of "stc_envs clk call" "pinned_opts opts" None "states ! n"] st by auto
  then have st': "st_status (states[n := ?p] ! n) \<in> {ACTIVE, RATE_LIMITED, QUOTA_EXCEEDED}" using n by simp
  have "after_pinned clk req opts key kind n False ap tbl (states[n := ?p]) = (t, xs, Inr (GoOn persist ap'))"
    using run
    by (auto simp: try_pinned_def select_at_def split_def answer_pinned_def Let_def split: sum.splits if_splits)
  then show ?thesis using after_pinned_keeps st' ttl by blast
qed

text \<open>
  An outage does not cost a session its warm cache. Take a session whose binding has a maximum age
  and whose account is in the pool, active or temporarily blocked, not under budget pressure and not
  rate limited for long, and a request that does not ask for reallocation. Whichever account answers,
  the session is still bound to its own account afterwards.
\<close>

theorem outage_keeps_binding:
  assumes req: "sr_key req = Some key" "key \<noteq> []" "sr_repo req" "sr_kind req = Some kind"
      "sr_max_age_seconds req \<noteq> None" "\<not> sr_reallocate req"
    and read: "existing_binding clk req key kind tbl = (tbl1, Some a)" "a \<noteq> []" "bound key kind tbl1 = Some a"
    and pinned: "index_of_account a states = Some n"
      "st_status (states ! n) \<in> {ACTIVE, RATE_LIMITED, QUOTA_EXCEEDED}"
    and calm: "\<not> budget_pressured req opts (states ! n)" "\<not> rate_limit_far_away req (stc_now clk) (states ! n)"
    and states: "selectable_states account_map states"
    and run: "select_with_stickiness clk req opts account_map tbl states = (tbl', states', res)"
  shows "bound key kind tbl' = Some a"
proof -
  note n = index_of_account_Some[OF pinned(1)]
  obtain states1 where s1: "map st_account_id states1 = map st_account_id states" "states1 ! n = states ! n"
    and c: "consider_pinned clk req opts key kind n tbl1 states =
        try_pinned clk req opts key kind 1 n (sr_reallocate req) False tbl1 states1"
    using calm consider_pinned_cases[of n states clk req opts key kind tbl1] n by metis
  have n1: "n < length states1" using n s1(1) by (metis length_map)
  obtain t xs out where cp: "consider_pinned clk req opts key kind n tbl1 states = (t, xs, out)" by (metis prod_cases3)
  have p: "pinned_ok req key kind a tbl1 states (t, xs, out)"
    unfolding cp[symmetric] by (rule consider_pinned_ok) (use n req read in auto)
  note unf = stickiness_unfold[OF req(1-4) read(1), of opts account_map states]
  show ?thesis
  proof (cases out)
    case (Inl err)
    with p show ?thesis by (simp add: pinned_ok_def)
  next
    case (Inr o')
    show ?thesis
    proof (cases o')
      case (Answered r)
      have "bound key kind t = Some a" using p req(5) by (auto simp: pinned_ok_def Inr Answered)
      moreover have "tbl' = t" using run[unfolded unf] read(2) by (simp add: pinned(1) cp Inr Answered)
      ultimately show ?thesis by simp
    next
      case (GoOn persist ap)
      have tr: "try_pinned clk req opts key kind 1 n False False tbl1 states1 = (t, xs, Inr (GoOn persist ap))"
        using c cp Inr GoOn req(6) by simp
      have "t = tbl1" "\<not> persist"
        using try_pinned_keeps[OF tr n1 _ req(5)] pinned(2) s1(2) by auto
      moreover have "choose_and_bind clk req opts key kind account_map persist ap t xs = (tbl', states', res)"
        using run[unfolded unf] read(2) by (simp add: pinned(1) cp Inr GoOn)
      moreover have "selectable_states account_map xs"
        using states p selectable_ids[of xs states account_map] by (simp add: pinned_ok_def)
      ultimately show ?thesis
        using choose_and_bind_ok[OF req(2), of xs account_map clk req opts kind persist ap t tbl' states' res] read(3)
        unfolding selectable_states_def by blast
    qed
  qed
qed

theorem outage_keeps_binding_witness:
  "let req = example_sticky_req\<lparr>sr_kind := Some PROMPT_CACHE, sr_max_age_seconds := Some 3600, sr_existing := Some (Some ''b'')\<rparr>;
       tbl = [((CHATGPT_WEB_PROVIDER_KIND, PROMPT_CACHE, ''session''),
              \<lparr>ss_account_id = Some ''b'', ss_routing_subject_id = ''b'', ss_created_at = 900, ss_updated_at = 900\<rparr>)];
       down = (AccountState ''b'' RATE_LIMITED)\<lparr>st_reset_at := Some 1300\<rparr>;
       (tbl', states', res) = select_with_stickiness example_sticky_clock req example_opts
         example_account_map tbl [AccountState ''a'' ACTIVE, down]
   in bound ''session'' PROMPT_CACHE tbl' = Some ''b''"
proof -
  let ?req = "example_sticky_req\<lparr>sr_kind := Some PROMPT_CACHE, sr_max_age_seconds := Some 3600, sr_existing := Some (Some ''b'')\<rparr>"
  let ?tbl = "[((CHATGPT_WEB_PROVIDER_KIND, PROMPT_CACHE, ''session''),
              \<lparr>ss_account_id = Some ''b'', ss_routing_subject_id = ''b'', ss_created_at = 900, ss_updated_at = 900\<rparr>)]"
  let ?down = "(AccountState ''b'' RATE_LIMITED)\<lparr>st_reset_at := Some 1300\<rparr>"
  let ?states = "[AccountState ''a'' ACTIVE, ?down]"
  obtain tbl' states' res where run: "select_with_stickiness example_sticky_clock ?req example_opts
      example_account_map ?tbl ?states = (tbl', states', res)" by (metis prod_cases3)
  have r: "sr_key ?req = Some ''session''" "''session'' \<noteq> []" "sr_repo ?req" "sr_kind ?req = Some PROMPT_CACHE"
      "sr_max_age_seconds ?req \<noteq> None" "\<not> sr_reallocate ?req"
    by (simp_all add: example_sticky_req_def)
  have e: "existing_binding example_sticky_clock ?req ''session'' PROMPT_CACHE ?tbl = (?tbl, Some ''b'')"
    by (simp add: existing_binding_def)
  have i: "index_of_account ''b'' ?states = Some 1" by (simp add: AccountState_def)
  have st: "st_status (?states ! 1) \<in> {ACTIVE, RATE_LIMITED, QUOTA_EXCEEDED}" by (simp add: AccountState_def)
  have calm: "\<not> budget_pressured ?req example_opts (?states ! 1)"
      "\<not> rate_limit_far_away ?req (stc_now example_sticky_clock) (?states ! 1)"
    by (simp_all add: budget_pressured_def rate_limit_far_away_def AccountState_def example_sticky_clock_def)
  have sel: "selectable_states example_account_map ?states"
    by (simp add: selectable_states_def example_account_map_def AccountState_def)
  have "bound ''session'' PROMPT_CACHE tbl' = Some ''b''"
    by (rule outage_keeps_binding[OF r e _ _ i st calm sel run]) (simp_all add: bound_def)
  then show ?thesis by (simp add: run Let_def)
qed

section \<open>Budgets\<close>

lemma within_complete:
  assumes "so_traffic_class opts = Foreground" and "s0 \<in> set states" and "P s0"
    and "ready (current_time env now) (bypass_standard_quota opts s0) s0"
  obtains s where "snd (select_within env opts now P states) = Inr (selected_account s)"
  using selection_complete[of opts s0 "filter P states" env now] assms by (auto simp: select_within_eq)

text \<open>
  Requests go to accounts that are still within budget. If the pool holds no burn-first account
  and some account is ready, not marked preserve and within its budget, then the account selected for
  foreground traffic is one that is not marked preserve and within its budget, under every strategy.
\<close>

theorem selection_prefers_budget_safe:
  assumes "so_traffic_class opts = Foreground"
    and "\<And>s. s \<in> set states \<Longrightarrow> st_routing_policy s \<noteq> ROUTING_POLICY_BURN_FIRST"
    and "s0 \<in> set states" and "budget_safe b s0"
    and "\<And>k. ready (current_time (envs k) None) (bypass_standard_quota opts s0) s0"
  shows "\<exists>s x. snd (select_account_preferring_budget_safe envs opts b states) = Inr (selected_account s) \<and>
           x \<in> set states \<and> st_account_id x = st_account_id s \<and>
           st_routing_policy x \<noteq> ROUTING_POLICY_PRESERVE \<and> \<not> over_budget b x"
proof -
  have "\<exists>s. snd (select_within (envs k) opts None (budget_safe b) states) = Inr (selected_account s)" for k
    using within_complete[of opts s0 states "budget_safe b" "envs k" None] assms(1,3,4,5) by blast
  then have W: "\<exists>s x. snd (select_within (envs k) opts None (budget_safe b) states) = Inr (selected_account s) \<and>
      x \<in> set states \<and> st_account_id x = st_account_id s \<and> budget_safe b x" for k
    using within_selected[of "envs k" opts None "budget_safe b" states] by blast
  have nb: "\<not> (\<exists>s \<in> set states. burn_first_in_best_tier states s)"
    using assms(2) by (auto simp: burn_first_in_best_tier_def)
  have "\<exists>k. snd (select_account_preferring_budget_safe envs opts b states) =
      snd (select_within (envs k) opts None (budget_safe b) states)"
  proof (cases "drain_strategy (so_routing_strategy opts)")
    case True
    then show ?thesis using assms(3,4) by (auto simp: select_account_preferring_budget_safe_def)
  next
    case False
    obtain ys s where w: "select_within (envs 1) opts None (budget_safe b) states = (ys, Inr (selected_account s))"
      using W[of 1] by (metis prod.collapse)
    have "select_preferred envs opts b states = (ys, Inr (selected_account s))"
      using assms(3,4) unfolding select_preferred_def w by auto
    with False nb have "snd (select_account_preferring_budget_safe envs opts b states) =
        snd (select_within (envs 1) opts None (budget_safe b) states)"
      unfolding select_account_preferring_budget_safe_def w by simp
    then show ?thesis ..
  qed
  then show ?thesis using W by (fastforce simp: budget_safe_def)
qed

theorem selection_prefers_budget_safe_witness:
  "\<exists>s x. snd (select_account_preferring_budget_safe (\<lambda>_. example_env) example_opts
        \<lparr>bo_budget_threshold_pct = 95, bo_secondary_budget_threshold_pct = 100, bo_apply_secondary_budget_threshold = False\<rparr>
        [(AccountState ''a'' ACTIVE)\<lparr>st_used_percent := Some 99\<rparr>, AccountState ''b'' ACTIVE]) = Inr (selected_account s) \<and>
     x \<in> set [(AccountState ''a'' ACTIVE)\<lparr>st_used_percent := Some 99\<rparr>, AccountState ''b'' ACTIVE] \<and>
     st_account_id x = st_account_id s \<and> st_routing_policy x \<noteq> ROUTING_POLICY_PRESERVE \<and>
     \<not> over_budget \<lparr>bo_budget_threshold_pct = 95, bo_secondary_budget_threshold_pct = 100,
         bo_apply_secondary_budget_threshold = False\<rparr> x"
  by (rule selection_prefers_budget_safe[of _ _ "AccountState ''b'' ACTIVE"])
    (auto simp: ready_defs example_opts_def default_opts_def AccountState_def policy_defs budget_safe_def
      over_budget_def state_above_budget_threshold_def above_def effective_used_def)

end
