(* ===== verification/Routing.thy ===== *)
theory Routing
  imports Stickiness Resilience
begin

text \<open>
  \<open>LoadBalancer.select_account\<close> (\<open>app/modules/proxy/load_balancer.py\<close>): load the inputs, then up to
  four attempts, each of which picks an account and takes a lease, followed by persisting what was
  learned; a selection that turns out stale is undone and tried again. A request without a session
  does the whole attempt in one critical section; a request with a session leaves the lock to consult
  the sticky table and takes it again to claim the lease.

  \<^item> Loading the inputs reads several repositories and caches: it is an argument, like the routing
    costs of the quota planner (\<open>build_routing_costs\<close>) and the answer of the circuit breakers.
  \<^item> At its awaits other requests run. The environment has a transition for each await of the loop;
    a critical section has none. Writing the rows may raise after any number of rows.
\<close>

section \<open>Inputs\<close>

record selection_inputs =
  si_accounts :: "account list"
  si_usage :: usage_inputs
  si_runtime_accounts :: "account list option"
  si_error_message :: "string option"
  si_error_code :: "string option"

definition no_usage :: "usage_inputs \<Rightarrow> usage_inputs" where
  "no_usage ui =
     \<lparr>ui_latest_primary = Map.empty, ui_latest_secondary = Map.empty, ui_latest_monthly = ui_latest_monthly ui,
      ui_routing_policy_override = None, ui_ignore_standard_quota_account_ids = []\<rparr>"

definition no_security_work_accounts :: "selection_inputs \<Rightarrow> selection_inputs" where
  "no_security_work_accounts si =
     \<lparr>si_accounts = [], si_usage = no_usage (si_usage si), si_runtime_accounts = si_runtime_accounts si,
      si_error_message = Some ''No accounts marked as authorized for security work'',
      si_error_code = Some ''no_security_work_authorized_accounts''\<rparr>"

text \<open>The local function \<open>load_selection_inputs\<close>, after the inputs were read.\<close>

definition restrict_inputs :: "bool \<Rightarrow> string list \<Rightarrow> selection_inputs \<Rightarrow> selection_inputs" where
  "restrict_inputs require_security_work_authorized excluded_ids si =
     (let authorized = filter acct_security_work_authorized (si_accounts si)
      in if require_security_work_authorized \<and> si_accounts si \<noteq> [] \<and> authorized = []
         then no_security_work_accounts si
         else
           let si = (if require_security_work_authorized \<and> si_accounts si \<noteq> []
                     then si\<lparr>si_accounts := authorized\<rparr> else si);
               filtered = filter (\<lambda>a. acct_id a \<notin> set excluded_ids) (si_accounts si)
           in if excluded_ids \<noteq> [] \<and> si_accounts si \<noteq> []
              then (if require_security_work_authorized \<and> filtered = [] then no_security_work_accounts si
                    else si\<lparr>si_accounts := filtered\<rparr>)
              else si)"

section \<open>An attempt\<close>

record routing_request =
  rq_opts :: select_opts
  rq_sticky :: sticky_request
  rq_lease_kind :: "AccountLeaseKind option"
  rq_estimated_lease_tokens :: real
  rq_routing_costs :: "account_state list \<Rightarrow> routing_costs"
  rq_require_security_work_authorized :: bool
  rq_excluded_ids :: "string list"

record attempt_clock =
  ac_reclaim :: real
  ac_state :: "account \<Rightarrow> state_clock"
  ac_envs :: "nat \<Rightarrow> selection_env"
  ac_sync :: real
  ac_uuid :: string
  ac_monotonic :: real
  ac_wall :: real

record attempt_outcome =
  ao_snapshot :: "account option"
  ao_error_message :: "string option"
  ao_error_code :: "string option"
  ao_lease :: "account_lease option"
  ao_states :: "account_state list"
  ao_account_map :: accounts_table
  ao_hard_sticky :: bool

definition within_cap :: "lease_settings \<Rightarrow> AccountLeaseKind option \<Rightarrow> account_state \<Rightarrow> bool" where
  "within_cap cfg lease_kind s = (filter_states_for_account_caps cfg lease_kind [s] \<noteq> [])"

text \<open>The states the caps admit are selected from; refreshed states go back into the full list.\<close>

definition select_under_caps ::
  "lease_settings \<Rightarrow> routing_request \<Rightarrow> attempt_clock \<Rightarrow> account_state list
   \<Rightarrow> account_state list \<times> (py_error + selection_result) \<times> string option" where
  "select_under_caps cfg rq clk states =
     (let costs = rq_routing_costs rq states;
          selection_states = filter_states_for_account_caps cfg (rq_lease_kind rq) states
      in if selection_states = [] \<and> states \<noteq> []
         then (states, Inr (selection_error ''No available accounts''), account_cap_error_code (rq_lease_kind rq))
         else
           let (chosen, res) = select_account_preferring_budget_safe (ac_envs clk)
                 ((rq_opts rq)\<lparr>so_routing_costs := costs\<rparr>) (plain_budget (rq_sticky rq) False) selection_states
           in (write_back (within_cap cfg (rq_lease_kind rq)) states chosen, res, None))"

fun sync_all ::
  "real \<Rightarrow> accounts_table \<Rightarrow> string option \<Rightarrow> account_state list \<Rightarrow> runtime_map \<Rightarrow> runtime_map" where
  "sync_all t_wall account_map selected_id [] rts = rts"
| "sync_all t_wall account_map selected_id (state # states) rts =
     (case map_of account_map (st_account_id state) of
        None \<Rightarrow> sync_all t_wall account_map selected_id states rts
      | Some account \<Rightarrow>
          sync_all t_wall account_map selected_id states
            (fst (sync_runtime_state t_wall account state (selected_id = Some (st_account_id state)) None rts)))"

text \<open>The status of the selected state is copied onto the first state of that account.\<close>

fun adopt_result :: "account_state \<Rightarrow> account_state list \<Rightarrow> account_state list" where
  "adopt_result chosen [] = []"
| "adopt_result chosen (state # states) =
     (if st_account_id state = st_account_id chosen
      then state\<lparr>st_status := st_status chosen, st_deactivation_reason := st_deactivation_reason chosen\<rparr> # states
      else state # adopt_result chosen states)"

definition snapshot_reset_at :: "account \<Rightarrow> string \<Rightarrow> account_state list \<Rightarrow> int option" where
  "snapshot_reset_at selected i states =
     (case find (\<lambda>s. st_account_id s = i) states of
        None \<Rightarrow> acct_reset_at selected | Some s \<Rightarrow> int_or_none (st_reset_at s))"

definition take_lease ::
  "routing_request \<Rightarrow> attempt_clock \<Rightarrow> string \<Rightarrow> runtime_map \<Rightarrow> runtime_map \<times> account_lease option" where
  "take_lease rq clk account_id rts =
     (case rq_lease_kind rq of
        None \<Rightarrow> (rts, None)
      | Some kind \<Rightarrow>
          let (rts, lease) = acquire_account_lease_locked (ac_uuid clk) (ac_monotonic clk) (ac_wall clk)
                account_id kind (rq_estimated_lease_tokens rq) rts
          in (rts, Some lease))"

text \<open>The sticky path asks again whether the account has room; \<open>None\<close> says it has not.\<close>

definition take_lease_if_allowed ::
  "lease_settings \<Rightarrow> routing_request \<Rightarrow> attempt_clock \<Rightarrow> string \<Rightarrow> runtime_map
   \<Rightarrow> runtime_map \<times> account_lease option option" where
  "take_lease_if_allowed cfg rq clk account_id rts =
     (case rq_lease_kind rq of
        None \<Rightarrow> (rts, Some None)
      | Some kind \<Rightarrow>
          let (rts, allowed) = account_lease_allowed_locked cfg account_id kind rts
          in if allowed then map_prod id Some (take_lease rq clk account_id rts) else (rts, None))"

definition tidied :: "lease_settings \<Rightarrow> attempt_clock \<Rightarrow> selection_inputs \<Rightarrow> runtime_map \<Rightarrow> runtime_map" where
  "tidied cfg clk si rts =
     (let rts = reclaim_stale_account_leases_locked cfg (ac_reclaim clk) rts;
          known = (case si_runtime_accounts si of Some (a # as) \<Rightarrow> a # as | _ \<Rightarrow> si_accounts si)
      in prune_runtime (map acct_id known) rts)"

definition prepare_states ::
  "lease_settings \<Rightarrow> state_settings \<Rightarrow> attempt_clock \<Rightarrow> selection_inputs \<Rightarrow> runtime_map
   \<Rightarrow> runtime_map \<times> (py_error + (account_state list \<times> accounts_table))" where
  "prepare_states cfg scfg clk si rts =
     build_states scfg (ac_state clk) (si_usage si) (si_accounts si) (tidied cfg clk si rts)"

text \<open>What both paths do with the result: sync every state, take the lease, make the snapshot.\<close>

definition failed_attempt ::
  "account_state list \<Rightarrow> accounts_table \<Rightarrow> bool \<Rightarrow> string option \<Rightarrow> string option \<Rightarrow> attempt_outcome" where
  "failed_attempt states account_map hard message code =
     \<lparr>ao_snapshot = None, ao_error_message = message, ao_error_code = code, ao_lease = None,
      ao_states = states, ao_account_map = account_map, ao_hard_sticky = hard\<rparr>"

definition settle_selection ::
  "(string \<Rightarrow> runtime_map \<Rightarrow> runtime_map \<times> account_lease option option) \<Rightarrow> routing_request \<Rightarrow> attempt_clock
   \<Rightarrow> accounts_table \<Rightarrow> account_state list \<Rightarrow> selection_result \<Rightarrow> string option \<Rightarrow> bool \<Rightarrow> runtime_map
   \<Rightarrow> runtime_map \<times> attempt_outcome" where
  "settle_selection claim rq clk account_map states result code hard rts =
     (let rts = sync_all (ac_sync clk) account_map (map_option st_account_id (sel_account result)) states rts;
          selected_states = filter (\<lambda>s. map_of account_map (st_account_id s) \<noteq> None) states
      in case sel_account result of
           None \<Rightarrow> (rts, failed_attempt selected_states account_map hard (sel_error_message result) code)
         | Some chosen \<Rightarrow>
             (case map_of account_map (st_account_id chosen) of
                None \<Rightarrow> (rts, failed_attempt selected_states account_map hard (sel_error_message result) code)
              | Some selected \<Rightarrow>
                  let states = adopt_result chosen selected_states;
                      reset_at = snapshot_reset_at selected (st_account_id chosen) selected_states
                  in (case claim (acct_id selected) rts of
                        (rts, None) \<Rightarrow>
                          (rts, failed_attempt states account_map hard (Some ''No available accounts'')
                                  (account_cap_error_code (rq_lease_kind rq)))
                      | (rts, Some lease) \<Rightarrow>
                          (rts, \<lparr>ao_snapshot = Some (selected\<lparr>acct_status := st_status chosen,
                                    acct_deactivation_reason := st_deactivation_reason chosen,
                                    acct_reset_at := reset_at\<rparr>),
                                 ao_error_message = None, ao_error_code = code, ao_lease = lease,
                                 ao_states = states, ao_account_map = account_map, ao_hard_sticky = hard\<rparr>))))"

text \<open>The critical section of a request without a session.\<close>

definition locked_selection ::
  "lease_settings \<Rightarrow> state_settings \<Rightarrow> routing_request \<Rightarrow> attempt_clock \<Rightarrow> selection_inputs \<Rightarrow> runtime_map
   \<Rightarrow> runtime_map \<times> (py_error + attempt_outcome)" where
  "locked_selection cfg scfg rq clk si rts =
     (case prepare_states cfg scfg clk si rts of
        (rts, Inl err) \<Rightarrow> (rts, Inl err)
      | (rts, Inr (states, account_map)) \<Rightarrow>
          (case select_under_caps cfg rq clk states of
             (states, Inl err, code) \<Rightarrow> (rts, Inl err)
           | (states, Inr result, code) \<Rightarrow>
               map_prod id Inr
                 (settle_selection (\<lambda>i rts. map_prod id Some (take_lease rq clk i rts)) rq clk account_map states
                    result code False rts)))"

text \<open>The lookup of a durable session, and the choice; an established durable session ignores the caps here.\<close>

definition sticky_lookup ::
  "sticky_clock \<Rightarrow> sticky_request \<Rightarrow> sticky_table \<Rightarrow> sticky_table \<times> string option option" where
  "sticky_lookup sclk req tbl =
     (case sr_key req of
        None \<Rightarrow> (tbl, None)
      | Some key \<Rightarrow>
          if key \<noteq> [] \<and> sr_kind req = Some CODEX_SESSION
          then map_prod id Some (get_account_id (stc_utc sclk) key CODEX_SESSION (sr_max_age_seconds req) tbl)
          else (tbl, None))"

definition choose_sticky ::
  "lease_settings \<Rightarrow> routing_request \<Rightarrow> sticky_clock \<Rightarrow> string option option \<Rightarrow> accounts_table \<Rightarrow> account_state list
   \<Rightarrow> sticky_table \<Rightarrow> sticky_table \<times> account_state list \<times> (py_error + selection_result) \<times> string option \<times> bool" where
  "choose_sticky cfg rq sclk existing account_map states tbl =
     (let hard = (sr_kind (rq_sticky rq) = Some CODEX_SESSION \<and> existing \<noteq> None \<and> existing \<noteq> Some None);
          selection_states = (if hard then states else filter_states_for_account_caps cfg (rq_lease_kind rq) states)
      in if selection_states = [] \<and> states \<noteq> []
         then (tbl, states, Inr (selection_error ''No available accounts''),
               account_cap_error_code (rq_lease_kind rq), hard)
         else
           let (tbl, chosen, res) = select_with_stickiness sclk ((rq_sticky rq)\<lparr>sr_existing := existing\<rparr>)
                 ((rq_opts rq)\<lparr>so_routing_costs := rq_routing_costs rq states\<rparr>) account_map tbl selection_states
           in (tbl, write_back (\<lambda>s. hard \<or> within_cap cfg (rq_lease_kind rq) s) states chosen, res, None, hard))"

section \<open>The loop\<close>

abbreviation (input) MAX_SELECTION_ATTEMPTS :: nat where "MAX_SELECTION_ATTEMPTS \<equiv> 4"

type_synonym ('k, 'd) shared = "('k, 'd) load_balancer \<times> sticky_table"

abbreviation (input) runtime_of :: "('k, 'd) shared \<Rightarrow> runtime_map" where
  "runtime_of sh \<equiv> lb_runtime (fst sh)"

abbreviation with_runtime :: "runtime_map \<Rightarrow> ('k, 'd) shared \<Rightarrow> ('k, 'd) shared" where
  "with_runtime rts sh \<equiv> ((fst sh)\<lparr>lb_runtime := rts\<rparr>, snd sh)"

record account_selection =
  as_account :: "account option"
  as_error_message :: "string option"
  as_error_code :: "string option"
  as_lease :: "account_lease option"

datatype await_point = BeforeLookup | BeforeChoice | AfterChoice | BeforePersist | AfterPersist

text \<open>\<open>ev_persist_fails\<close>: how many states were written before the write raised, and what.\<close>

record ('k, 'd) routing_env =
  ev_clock :: "nat \<Rightarrow> attempt_clock"
  ev_sticky_clock :: "nat \<Rightarrow> sticky_clock"
  ev_await :: "nat \<Rightarrow> await_point \<Rightarrow> ('k, 'd) shared \<Rightarrow> ('k, 'd) shared"
  ev_load :: "nat \<Rightarrow> ('k, 'd) shared \<Rightarrow> ('k, 'd) shared \<times> selection_inputs"
  ev_persist_fails :: "nat \<Rightarrow> (nat \<times> py_error) option"

definition load_selection_inputs ::
  "routing_request \<Rightarrow> ('k, 'd) routing_env \<Rightarrow> nat \<Rightarrow> ('k, 'd) shared \<Rightarrow> ('k, 'd) shared \<times> selection_inputs" where
  "load_selection_inputs rq ev attempt sh =
     map_prod id (restrict_inputs (rq_require_security_work_authorized rq) (rq_excluded_ids rq)) (ev_load ev attempt sh)"

definition plain_attempt ::
  "lease_settings \<Rightarrow> state_settings \<Rightarrow> routing_request \<Rightarrow> ('k, 'd) routing_env \<Rightarrow> nat \<Rightarrow> selection_inputs
   \<Rightarrow> ('k, 'd) shared \<Rightarrow> ('k, 'd) shared \<times> (py_error + attempt_outcome)" where
  "plain_attempt cfg scfg rq ev attempt si sh =
     (let (rts, res) = locked_selection cfg scfg rq (ev_clock ev attempt) si (runtime_of sh)
      in (with_runtime rts sh, res))"

definition sticky_attempt ::
  "lease_settings \<Rightarrow> state_settings \<Rightarrow> routing_request \<Rightarrow> ('k, 'd) routing_env \<Rightarrow> nat \<Rightarrow> selection_inputs
   \<Rightarrow> ('k, 'd) shared \<Rightarrow> ('k, 'd) shared \<times> (py_error + attempt_outcome)" where
  "sticky_attempt cfg scfg rq ev attempt si sh =
     (let clk = ev_clock ev attempt; sclk = ev_sticky_clock ev attempt
      in case prepare_states cfg scfg clk si (runtime_of sh) of
           (rts, Inl err) \<Rightarrow> (with_runtime rts sh, Inl err)
         | (rts, Inr (states, account_map)) \<Rightarrow>
             let sh = ev_await ev attempt BeforeLookup (with_runtime rts sh);
                 (tbl, existing) = sticky_lookup sclk (rq_sticky rq) (snd sh);
                 sh = ev_await ev attempt BeforeChoice (fst sh, tbl)
             in (case choose_sticky cfg rq sclk existing account_map states (snd sh) of
                   (tbl, states, Inl err, code, hard) \<Rightarrow> ((fst sh, tbl), Inl err)
                 | (tbl, states, Inr result, code, hard) \<Rightarrow>
                     let sh = ev_await ev attempt AfterChoice (fst sh, tbl);
                         (rts, out) = settle_selection (take_lease_if_allowed cfg rq clk) rq clk account_map states
                                        result code hard (runtime_of sh)
                     in (with_runtime rts sh, Inr out)))"

definition runtime_marks :: "runtime_state \<Rightarrow> real option \<times> real option \<times> int \<times> real option" where
  "runtime_marks rt = (rt_reset_at rt, rt_cooldown_until rt, rt_error_count rt, rt_last_error_at rt)"

definition runtime_recovered :: "runtime_map \<Rightarrow> runtime_map \<Rightarrow> bool" where
  "runtime_recovered before now =
     (\<exists>(i, rt) \<in> set before. runtime_marks (default (map_of now i) RuntimeState) \<noteq> runtime_marks rt)"

text \<open>What the loop does after an attempt; for \<open>GiveUp\<close> and \<open>Again\<close> the lease is given back first.\<close>

datatype verdict_after = Stop | GiveUp | Again

definition plain_verdict ::
  "nat \<Rightarrow> attempt_outcome \<Rightarrow> string list \<Rightarrow> ('k, 'd) shared \<Rightarrow> ('k, 'd) shared \<Rightarrow> verdict_after" where
  "plain_verdict attempt out stale before now =
     (case ao_snapshot out of
        Some a \<Rightarrow>
          if acct_id a \<in> set stale then (if attempt \<ge> MAX_SELECTION_ATTEMPTS then GiveUp else Again)
          else if sc_generation (lb_cache (fst now)) \<noteq> sc_generation (lb_cache (fst before)) \<and>
                  attempt < MAX_SELECTION_ATTEMPTS
          then Again else Stop
      | None \<Rightarrow>
          if ao_error_message out = Some ''No available accounts'' \<and>
             runtime_recovered (runtime_of before) (runtime_of now) \<and> attempt < MAX_SELECTION_ATTEMPTS
          then Again else Stop)"

definition sticky_verdict ::
  "nat \<Rightarrow> attempt_outcome \<Rightarrow> string list \<Rightarrow> ('k, 'd) shared \<Rightarrow> ('k, 'd) shared \<Rightarrow> verdict_after" where
  "sticky_verdict attempt out stale before now =
     (case ao_snapshot out of
        Some a \<Rightarrow>
          if acct_id a \<in> set stale then (if attempt \<ge> MAX_SELECTION_ATTEMPTS then GiveUp else Again) else Stop
      | None \<Rightarrow>
          if ao_error_code out \<noteq> None \<and> \<not> ao_hard_sticky out \<and> attempt < MAX_SELECTION_ATTEMPTS
          then Again else Stop)"

definition persist_attempt ::
  "('k, 'd) routing_env \<Rightarrow> nat \<Rightarrow> attempt_outcome \<Rightarrow> ('k, 'd) shared \<Rightarrow> ('k, 'd) shared \<times> (py_error + string list)" where
  "persist_attempt ev attempt out sh =
     (let (lb, sticky) = ev_await ev attempt BeforePersist sh;
          written = (case ev_persist_fails ev attempt of
                       None \<Rightarrow> ao_states out | Some (n, err) \<Rightarrow> take n (ao_states out));
          (tbl, _, stale) = persist_selection_state written (ao_account_map out) (lb_accounts lb)
      in (ev_await ev attempt AfterPersist (lb\<lparr>lb_accounts := tbl\<rparr>, sticky),
          case ev_persist_fails ev attempt of None \<Rightarrow> Inr stale | Some (n, err) \<Rightarrow> Inl err))"

definition inputs_error :: "selection_inputs \<Rightarrow> account_selection option" where
  "inputs_error si =
     (if si_error_code si \<noteq> None \<and> si_accounts si = []
      then Some \<lparr>as_account = None, as_error_message = si_error_message si, as_error_code = si_error_code si,
                 as_lease = None\<rparr>
      else None)"

definition give_back :: "attempt_outcome \<Rightarrow> ('k, 'd) shared \<Rightarrow> ('k, 'd) shared" where
  "give_back out sh = with_runtime (release_account_lease (ao_lease out) (runtime_of sh)) sh"

text \<open>
  The two loops differ in the attempt and in the verdict. Their result: an answer to return at once, or
  the last outcome of an attempt. A verdict says \<open>Again\<close> only before the last attempt; the guard of
  the recursive call repeats it.
\<close>

function selection_loop ::
  "(nat \<Rightarrow> selection_inputs \<Rightarrow> ('k, 'd) shared \<Rightarrow> ('k, 'd) shared \<times> (py_error + attempt_outcome))
   \<Rightarrow> (nat \<Rightarrow> attempt_outcome \<Rightarrow> string list \<Rightarrow> ('k, 'd) shared \<Rightarrow> ('k, 'd) shared \<Rightarrow> verdict_after)
   \<Rightarrow> routing_request \<Rightarrow> ('k, 'd) routing_env \<Rightarrow> nat \<Rightarrow> selection_inputs \<Rightarrow> ('k, 'd) shared
   \<Rightarrow> ('k, 'd) shared \<times> (py_error + account_selection + attempt_outcome)" where
  "selection_loop run verdict rq ev attempt si sh =
     (case run attempt si sh of
        (sh1, Inl err) \<Rightarrow> (sh1, Inl err)
      | (sh1, Inr out) \<Rightarrow>
          (case persist_attempt ev attempt out sh1 of
             (sh2, Inl err) \<Rightarrow> (give_back out sh2, Inl err)
           | (sh2, Inr stale) \<Rightarrow>
               (case verdict attempt out stale sh1 sh2 of
                  Stop \<Rightarrow> (sh2, Inr (Inr out))
                | GiveUp \<Rightarrow>
                    (give_back out sh2, Inr (Inr (out\<lparr>ao_snapshot := None, ao_error_message := None, ao_lease := None\<rparr>)))
                | Again \<Rightarrow>
                    let (sh3, si') = load_selection_inputs rq ev attempt (give_back out sh2)
                    in (case inputs_error si' of
                          Some answer \<Rightarrow> (sh3, Inr (Inl answer))
                        | None \<Rightarrow>
                            if attempt < MAX_SELECTION_ATTEMPTS
                            then selection_loop run verdict rq ev (Suc attempt) si' sh3
                            else (sh3, Inr (Inr out))))))"
  by pat_completeness auto

termination
  by (relation "measure (\<lambda>(run, verdict, rq, ev, attempt, si, sh). 4 - attempt)") auto

declare selection_loop.simps [simp del]

definition OPPORTUNISTIC_BURN_WINDOW_CLOSED :: string where
  "OPPORTUNISTIC_BURN_WINDOW_CLOSED = ''opportunistic_burn_window_closed''"

definition format_degraded_error_message :: "degradation_manager \<Rightarrow> string option \<Rightarrow> string" where
  "format_degraded_error_message dm message =
     (let reason = (case dm_reason dm of
                      Some (c # cs) \<Rightarrow> c # cs | _ \<Rightarrow> ''upstream capacity is currently unavailable'');
          base_message = (case message of Some (c # cs) \<Rightarrow> c # cs | _ \<Rightarrow> ''Upstream unavailable'')
      in base_message @ ''. Service is operating in degraded mode: '' @ reason)"

definition final_answer ::
  "TrafficClass \<Rightarrow> attempt_outcome \<Rightarrow> degradation_manager \<Rightarrow> degradation_manager \<times> account_selection" where
  "final_answer traffic_class out dm =
     (case ao_snapshot out of
        Some a \<Rightarrow> (dm, \<lparr>as_account = Some a, as_error_message = None, as_error_code = None, as_lease = ao_lease out\<rparr>)
      | None \<Rightarrow>
          if traffic_class = Opportunistic \<and> ao_error_message out \<noteq> None \<and> ao_error_message out \<noteq> Some []
          then (dm, \<lparr>as_account = None, as_error_message = ao_error_message out,
                     as_error_code = Some OPPORTUNISTIC_BURN_WINDOW_CLOSED, as_lease = None\<rparr>)
          else if ao_error_message out = Some ''No available accounts''
          then let dm = set_degraded (Some ''all upstream accounts are unavailable'') dm
               in (dm, \<lparr>as_account = None,
                        as_error_message = Some (format_degraded_error_message dm (ao_error_message out)),
                        as_error_code = ao_error_code out, as_lease = None\<rparr>)
          else (dm, \<lparr>as_account = None, as_error_message = ao_error_message out, as_error_code = ao_error_code out,
                     as_lease = None\<rparr>))"

definition note_breaker :: "bool \<Rightarrow> selection_inputs \<Rightarrow> degradation_manager \<Rightarrow> degradation_manager" where
  "note_breaker circuit_breaker_open si dm =
     (if circuit_breaker_open then set_degraded (Some ''upstream circuit breaker is open'') dm
      else if si_accounts si \<noteq> [] then set_normal dm
      else if si_error_code si \<noteq> None then set_normal dm
      else dm)"

definition select_by_session ::
  "lease_settings \<Rightarrow> state_settings \<Rightarrow> routing_request \<Rightarrow> ('k, 'd) routing_env \<Rightarrow> selection_inputs \<Rightarrow> ('k, 'd) shared
   \<Rightarrow> ('k, 'd) shared \<times> (py_error + account_selection + attempt_outcome)" where
  "select_by_session cfg scfg rq ev =
     (if sr_key (rq_sticky rq) = None
      then selection_loop (plain_attempt cfg scfg rq ev) plain_verdict rq ev 1
      else selection_loop (sticky_attempt cfg scfg rq ev) sticky_verdict rq ev 1)"

definition lb_select_account ::
  "lease_settings \<Rightarrow> state_settings \<Rightarrow> routing_request \<Rightarrow> ('k, 'd) routing_env \<Rightarrow> bool
   \<Rightarrow> ('k, 'd) shared \<Rightarrow> degradation_manager
   \<Rightarrow> ('k, 'd) shared \<times> degradation_manager \<times> (py_error + account_selection)" where
  "lb_select_account cfg scfg rq ev circuit_breaker_open sh dm =
     (let (sh, si) = load_selection_inputs rq ev 0 sh;
          dm = note_breaker circuit_breaker_open si dm
      in case inputs_error si of
           Some answer \<Rightarrow> (sh, dm, Inr answer)
         | None \<Rightarrow>
             (case select_by_session cfg scfg rq ev si sh of
                (sh, Inl err) \<Rightarrow> (sh, dm, Inl err)
              | (sh, Inr (Inl answer)) \<Rightarrow> (sh, dm, Inr answer)
              | (sh, Inr (Inr out)) \<Rightarrow>
                  let (dm, answer) = final_answer (so_traffic_class (rq_opts rq)) out dm
                  in (sh, dm, Inr answer)))"

section \<open>Facts about an attempt\<close>

lemma filter_caps_eq: "filter_states_for_account_caps cfg kind states = filter (within_cap cfg kind) states"
  by (auto simp: filter_states_for_account_caps_def within_cap_def
      split: option.split AccountLeaseKind.split intro!: filter_cong)

lemma within_cap_iff: "within_cap cfg (Some kind) s \<longleftrightarrow> cap_for cfg kind \<le> 0 \<or> st_inflight kind s < cap_for cfg kind"
  by (cases kind) (auto simp: within_cap_def filter_states_for_account_caps_def cap_for_def st_inflight_def)

lemma select_under_caps_spec:
  assumes "select_under_caps cfg rq clk states = (states', res, code)"
  shows "map st_account_id states' = map st_account_id states"
    and "\<exists>r. res = Inr r \<and>
           ((\<exists>s. r = selected_account s \<and>
               (\<exists>x \<in> set states. within_cap cfg (rq_lease_kind rq) x \<and> st_account_id x = st_account_id s)) \<or>
            (\<exists>m. r = selection_error m))"
proof -
  let ?P = "within_cap cfg (rq_lease_kind rq)"
  let ?opts = "(rq_opts rq)\<lparr>so_routing_costs := rq_routing_costs rq states\<rparr>"
  let ?run = "select_account_preferring_budget_safe (ac_envs clk) ?opts (plain_budget (rq_sticky rq) False) (filter ?P states)"
  have ok: "run_ok (filter ?P states) ?run" by (rule budget_selector.select_run_ok)
  have eq: "select_under_caps cfg rq clk states =
      (if filter ?P states = [] \<and> states \<noteq> []
       then (states, Inr (selection_error ''No available accounts''), account_cap_error_code (rq_lease_kind rq))
       else (write_back ?P states (fst ?run), snd ?run, None))"
    by (simp add: select_under_caps_def filter_caps_eq Let_def split_def)
  show "map st_account_id states' = map st_account_id states"
    using assms ok write_back_ids[of st_account_id "fst ?run" ?P states]
    by (auto simp: eq run_ok_def split: if_splits)
  from ok show "\<exists>r. res = Inr r \<and>
           ((\<exists>s. r = selected_account s \<and> (\<exists>x \<in> set states. ?P x \<and> st_account_id x = st_account_id s)) \<or>
            (\<exists>m. r = selection_error m))"
  proof (cases rule: run_okE)
    case (account ys s)
    have "st_account_id s \<in> st_account_id ` set (filter ?P states)"
      using account(2,3) by (metis image_eqI list.set_map)
    with assms account show ?thesis by (auto simp: eq split: if_splits)
  next
    case (message ys m)
    with assms show ?thesis by (auto simp: eq split: if_splits)
  qed
qed

lemma sync_keeps:
  "leases_of (fst (sync_runtime_state t account state selected v rts)) i = leases_of rts i"
  "inflight_of kind (fst (sync_runtime_state t account state selected v rts)) i = inflight_of kind rts i"
  by (cases "i = acct_id account";
      simp add: sync_runtime_state_def leases_of_def inflight_of_def map_of_setdefault Let_def
        sync_update.keeps_live touch_update.keeps_live sync_update.keeps_inflight touch_update.keeps_inflight
        default_def split: option.split)+

lemma sync_all_keeps:
  "(lease_inv cfg rts \<longrightarrow> lease_inv cfg (sync_all t account_map sel states rts)) \<and>
   leases_of (sync_all t account_map sel states rts) i = leases_of rts i \<and>
   inflight_of kind (sync_all t account_map sel states rts) i = inflight_of kind rts i"
  by (induction states arbitrary: rts) (simp_all add: lease_inv_sync sync_keeps split: option.split)

lemma leases_of_prune:
  assumes "lease_inv cfg rts"
  shows "leases_of (prune_runtime ids rts) i = leases_of rts i"
  using map_of_prune[OF lease_inv_distinct[OF assms], of ids i]
  by (auto simp: leases_of_def split: option.split)

text \<open>The leases an attempt leaves: those the sweep kept, and the one it took.\<close>

definition kept_leases :: "lease_settings \<Rightarrow> real \<Rightarrow> runtime_map \<Rightarrow> string \<Rightarrow> (string \<times> account_lease) list" where
  "kept_leases cfg now rts i = filter (\<lambda>(k, l). \<not> lease_stale cfg now l) (leases_of rts i)"

definition taken :: "account_lease option \<Rightarrow> string \<Rightarrow> (string \<times> account_lease) list" where
  "taken lease i =
     (case lease of None \<Rightarrow> [] | Some l \<Rightarrow> if al_account_id l = i then [(al_lease_id l, l)] else [])"

definition lease_matches :: "routing_request \<Rightarrow> string \<Rightarrow> account_lease option \<Rightarrow> bool" where
  "lease_matches rq i lease \<longleftrightarrow>
     (case rq_lease_kind rq of
        None \<Rightarrow> lease = None
      | Some kind \<Rightarrow> \<exists>l. lease = Some l \<and> al_account_id l = i \<and> al_kind l = kind)"

text \<open>What claiming a lease must do: keep the invariant, add what it claims, claim what was asked for.\<close>

definition claim_ok ::
  "lease_settings \<Rightarrow> routing_request \<Rightarrow> string \<Rightarrow> runtime_map \<Rightarrow> runtime_map \<times> account_lease option option \<Rightarrow> bool" where
  "claim_ok cfg rq i rts run \<longleftrightarrow>
     (case run of (rts', r) \<Rightarrow>
        lease_inv cfg rts' \<and>
        (case r of
           None \<Rightarrow> \<forall>j. leases_of rts' j = leases_of rts j
         | Some lease \<Rightarrow> lease_matches rq i lease \<and> (\<forall>j. leases_of rts' j = leases_of rts j @ taken lease j)))"

lemma lease_fresh_iff: "lease_fresh uuid i rts \<longleftrightarrow> uuid \<notin> fst ` set (leases_of rts i)"
  by (auto simp: lease_fresh_def leases_of_def split: option.split)

lemma take_lease_ok:
  assumes inv: "lease_inv cfg rts" and fresh: "ac_uuid clk \<notin> fst ` set (leases_of rts i)"
    and room: "\<And>kind. rq_lease_kind rq = Some kind \<Longrightarrow> cap_room cfg kind i rts"
  shows "claim_ok cfg rq i rts (map_prod id Some (take_lease rq clk i rts))"
proof (cases "rq_lease_kind rq")
  case None
  with inv show ?thesis by (simp add: take_lease_def claim_ok_def taken_def lease_matches_def)
next
  case (Some kind)
  have fr: "lease_fresh (ac_uuid clk) i rts" using fresh by (simp add: lease_fresh_iff)
  obtain rts' l where acq: "acquire_account_lease_locked (ac_uuid clk) (ac_monotonic clk) (ac_wall clk) i kind
      (rq_estimated_lease_tokens rq) rts = (rts', l)" by fastforce
  have "lease_inv cfg rts'" using lease_inv_acquire[OF inv fr room[OF Some]] acq by (metis fst_conv)
  with leases_of_acquire[OF fr acq] acq Some show ?thesis
    by (simp add: take_lease_def claim_ok_def taken_def lease_matches_def)
qed

lemma take_lease_if_allowed_ok:
  assumes inv: "lease_inv cfg rts" and fresh: "ac_uuid clk \<notin> fst ` set (leases_of rts i)"
  shows "claim_ok cfg rq i rts (take_lease_if_allowed cfg rq clk i rts)"
proof (cases "rq_lease_kind rq")
  case None
  with inv show ?thesis by (simp add: take_lease_if_allowed_def claim_ok_def taken_def lease_matches_def)
next
  case (Some kind)
  let ?rts = "setdefault i rts"
  let ?rt = "the (map_of ?rts i)"
  have inv': "lease_inv cfg ?rts" by (rule lease_inv_setdefault[OF inv])
  have eq: "take_lease_if_allowed cfg rq clk i rts =
      (if cap_for cfg kind \<le> 0 \<or> inflight kind ?rt < cap_for cfg kind
       then map_prod id Some (take_lease rq clk i ?rts) else (?rts, None))"
    by (simp add: take_lease_if_allowed_def Some account_lease_allowed_locked_def Let_def)
  show ?thesis
  proof (cases "cap_for cfg kind \<le> 0 \<or> inflight kind ?rt < cap_for cfg kind")
    case True
    then have "cap_room cfg kind i ?rts" by (auto simp: cap_room_def map_of_setdefault split: option.splits)
    then have "claim_ok cfg rq i ?rts (map_prod id Some (take_lease rq clk i ?rts))"
      using inv' fresh Some by (intro take_lease_ok) (auto simp: leases_of_setdefault)
    with True show ?thesis unfolding eq claim_ok_def leases_of_setdefault by simp
  next
    case False
    with inv' show ?thesis unfolding eq claim_ok_def by (simp add: leases_of_setdefault)
  qed
qed

definition outcome_ok :: "routing_request \<Rightarrow> selection_inputs \<Rightarrow> attempt_outcome \<Rightarrow> bool" where
  "outcome_ok rq si out \<longleftrightarrow>
     (case ao_snapshot out of
        None \<Rightarrow> ao_lease out = None
      | Some a \<Rightarrow> lease_matches rq (acct_id a) (ao_lease out) \<and>
          (\<exists>a0 \<in> set (si_accounts si). acct_id a = acct_id a0 \<and>
             acct_security_work_authorized a = acct_security_work_authorized a0))"

lemma settle_selection_spec:
  assumes inv: "lease_inv cfg rts"
    and known: "\<And>j a. map_of account_map j = Some a \<Longrightarrow> a \<in> set (si_accounts si) \<and> acct_id a = j"
    and claim: "\<And>chosen a rts1. sel_account result = Some chosen \<Longrightarrow> map_of account_map (st_account_id chosen) = Some a \<Longrightarrow>
        rts1 = sync_all (ac_sync clk) account_map (Some (st_account_id chosen)) states rts \<Longrightarrow> lease_inv cfg rts1 \<Longrightarrow>
        claim_ok cfg rq (acct_id a) rts1 (claim (acct_id a) rts1)"
    and run: "settle_selection claim rq clk account_map states result code hard rts = (rts', out)"
  shows "lease_inv cfg rts' \<and> outcome_ok rq si out \<and> (\<forall>i. leases_of rts' i = leases_of rts i @ taken (ao_lease out) i)"
proof -
  let ?synced = "\<lambda>sel. sync_all (ac_sync clk) account_map sel states rts"
  have S: "lease_inv cfg (?synced sel)" "leases_of (?synced sel) i = leases_of rts i" for i sel
    using sync_all_keeps[of cfg rts "ac_sync clk" account_map sel states] inv by simp_all
  show ?thesis
  proof (cases "\<exists>chosen a. sel_account result = Some chosen \<and> map_of account_map (st_account_id chosen) = Some a")
    case False
    with run have "rts' = ?synced (map_option st_account_id (sel_account result))" "ao_snapshot out = None" "ao_lease out = None"
      by (auto simp: settle_selection_def failed_attempt_def Let_def split: option.splits)
    with S show ?thesis by (simp add: outcome_ok_def taken_def)
  next
    case True
    then obtain chosen a where a: "sel_account result = Some chosen" "map_of account_map (st_account_id chosen) = Some a" by blast
    obtain rts2 r where c: "claim (acct_id a) (?synced (Some (st_account_id chosen))) = (rts2, r)" by fastforce
    have C: "claim_ok cfg rq (acct_id a) (?synced (Some (st_account_id chosen))) (rts2, r)"
      using claim[OF a refl S(1)] c by simp
    show ?thesis
    proof (cases r)
      case None
      with run a c have "rts' = rts2" "ao_snapshot out = None" "ao_lease out = None"
        by (auto simp: settle_selection_def failed_attempt_def Let_def)
      with C None S(2) show ?thesis by (simp add: claim_ok_def outcome_ok_def taken_def)
    next
      case (Some lease)
      with run a c have "rts' = rts2" "ao_lease out = lease" "\<exists>snap. ao_snapshot out = Some snap \<and> acct_id snap = acct_id a \<and>
          acct_security_work_authorized snap = acct_security_work_authorized a"
        by (auto simp: settle_selection_def Let_def)
      with C Some S(2) known[OF a(2)] show ?thesis by (auto simp: claim_ok_def outcome_ok_def intro!: bexI[of _ a])
    qed
  qed
qed

lemma prepare_states_spec:
  assumes inv: "lease_inv cfg rts" and run: "prepare_states cfg scfg clk si rts = (rts', res)"
  shows "lease_inv cfg rts'" and "leases_of rts' i = kept_leases cfg (ac_reclaim clk) rts i"
    and "inflight_of kind rts' i = inflight_of kind (tidied cfg clk si rts) i"
    and "built_ok (si_accounts si) (tidied cfg clk si rts) res"
proof -
  let ?pruned = "tidied cfg clk si rts"
  have inv1: "lease_inv cfg ?pruned" unfolding tidied_def Let_def by (intro lease_inv_prune lease_inv_reclaim inv)
  have kept: "leases_of ?pruned i = kept_leases cfg (ac_reclaim clk) rts i"
    unfolding tidied_def Let_def leases_of_prune[OF lease_inv_reclaim[OF inv]] leases_of_reclaim[OF inv] kept_leases_def ..
  note B = build_states_spec[OF run[unfolded prepare_states_def] inv1]
  from B kept show "lease_inv cfg rts'" "leases_of rts' i = kept_leases cfg (ac_reclaim clk) rts i"
    "inflight_of kind rts' i = inflight_of kind ?pruned i" "built_ok (si_accounts si) ?pruned res"
    by simp_all
qed

lemma kept_leases_keys: "k \<notin> fst ` set (leases_of rts i) \<Longrightarrow> k \<notin> fst ` set (kept_leases cfg now rts i)"
  by (auto simp: kept_leases_def)

section \<open>No attempt leaks a lease\<close>

text \<open>The leases with an id of \<open>U\<close>: those of the call under consideration.\<close>

definition held :: "string set \<Rightarrow> runtime_map \<Rightarrow> (string \<times> string) set" where
  "held U rts = {(i, k). k \<in> U \<and> k \<in> fst ` set (leases_of rts i)}"

definition lease_keys :: "account_lease option \<Rightarrow> (string \<times> string) set" where
  "lease_keys lease = (case lease of None \<Rightarrow> {} | Some l \<Rightarrow> {(al_account_id l, al_lease_id l)})"

text \<open>
  What the call relies on while other requests run: they keep the accounting invariant and create no
  lease under an id of this call. They may take, return and reclaim leases as they like.
\<close>

definition harmless :: "lease_settings \<Rightarrow> string set \<Rightarrow> (('k, 'd) shared \<Rightarrow> ('k, 'd) shared) \<Rightarrow> bool" where
  "harmless cfg U f \<longleftrightarrow>
     (\<forall>sh. lease_inv cfg (runtime_of sh) \<longrightarrow>
        lease_inv cfg (runtime_of (f sh)) \<and> held U (runtime_of (f sh)) \<subseteq> held U (runtime_of sh))"

definition respectful :: "lease_settings \<Rightarrow> string set \<Rightarrow> ('k, 'd) routing_env \<Rightarrow> bool" where
  "respectful cfg U ev \<longleftrightarrow>
     (\<forall>k. (\<forall>p. harmless cfg U (ev_await ev k p)) \<and> harmless cfg U (\<lambda>sh. fst (ev_load ev k sh)) \<and>
          ac_uuid (ev_clock ev k) \<in> U)"

lemma harmlessD:
  "harmless cfg U f \<Longrightarrow> lease_inv cfg (runtime_of sh) \<Longrightarrow>
   lease_inv cfg (runtime_of (f sh)) \<and> held U (runtime_of (f sh)) \<subseteq> held U (runtime_of sh)"
  unfolding harmless_def by blast

text \<open>A state between two attempts: exact accounting, and no lease of this call.\<close>

definition quiet :: "lease_settings \<Rightarrow> string set \<Rightarrow> ('k, 'd) shared \<Rightarrow> bool" where
  "quiet cfg U sh \<longleftrightarrow> lease_inv cfg (runtime_of sh) \<and> held U (runtime_of sh) = {}"

lemma quiet_harmless: "harmless cfg U f \<Longrightarrow> quiet cfg U sh \<Longrightarrow> quiet cfg U (f sh)"
  using harmlessD[of cfg U f sh] by (auto simp: quiet_def)

lemma quiet_table: "quiet cfg U (lb, tbl) \<longleftrightarrow> quiet cfg U (lb, tbl')"
  by (simp add: quiet_def)

lemma respectful_await: "respectful cfg U ev \<Longrightarrow> harmless cfg U (ev_await ev k p)"
  by (simp add: respectful_def)

lemma quiet_fresh:
  assumes "quiet cfg U sh" and "respectful cfg U ev"
  shows "ac_uuid (ev_clock ev k) \<notin> fst ` set (leases_of (runtime_of sh) i)"
  using assms by (auto simp: quiet_def held_def respectful_def)

definition settled ::
  "lease_settings \<Rightarrow> string set \<Rightarrow> routing_request \<Rightarrow> selection_inputs
   \<Rightarrow> ('k, 'd) shared \<times> (py_error + attempt_outcome) \<Rightarrow> bool" where
  "settled cfg U rq si run \<longleftrightarrow>
     (case run of
        (sh, Inl err) \<Rightarrow> quiet cfg U sh
      | (sh, Inr out) \<Rightarrow>
          lease_inv cfg (runtime_of sh) \<and> held U (runtime_of sh) \<subseteq> lease_keys (ao_lease out) \<and> outcome_ok rq si out)"

lemma held_taken:
  assumes "\<And>i. leases_of rts' i = leases_of rts i @ taken lease i" and "held U rts = {}"
  shows "held U rts' \<subseteq> lease_keys lease"
  using assms(2) unfolding held_def assms(1)
  by (force simp: taken_def lease_keys_def split: option.splits if_splits)

lemma quiet_prepared:
  assumes "quiet cfg U sh" and "prepare_states cfg scfg clk si (runtime_of sh) = (rts, res)"
  shows "quiet cfg U (with_runtime rts sh)"
  using assms prepare_states_spec(1,2)[of cfg "runtime_of sh" scfg clk si rts res]
  by (auto simp: quiet_def held_def kept_leases_def)

lemma settled_settle:
  assumes "quiet cfg U sh" and "\<And>i. leases_of rts' i = leases_of (runtime_of sh) i @ taken (ao_lease out) i"
    and "lease_inv cfg rts'" and "outcome_ok rq si out"
  shows "settled cfg U rq si (with_runtime rts' sh, Inr out)"
  using assms held_taken[of rts' "runtime_of sh" "ao_lease out" U] by (simp add: settled_def quiet_def)

lemma locked_selection_settled:
  assumes resp: "respectful cfg U ev" and q: "quiet cfg U sh"
    and run: "locked_selection cfg scfg rq (ev_clock ev k) si (runtime_of sh) = (rts', res)"
  shows "settled cfg U rq si (with_runtime rts' sh, res)"
proof -
  let ?clk = "ev_clock ev k"
  obtain rts built where p: "prepare_states cfg scfg ?clk si (runtime_of sh) = (rts, built)" by fastforce
  have inv: "lease_inv cfg (runtime_of sh)" using q by (simp add: quiet_def)
  note P = prepare_states_spec[OF inv p]
  have q1: "quiet cfg U (with_runtime rts sh)" by (rule quiet_prepared[OF q p])
  show ?thesis
  proof (cases built)
    case (Inl err)
    with run p q1 show ?thesis by (auto simp: locked_selection_def settled_def)
  next
    case (Inr b)
    obtain states account_map where b: "b = (states, account_map)" by fastforce
    have ok: "built_ok (si_accounts si) (tidied cfg ?clk si (runtime_of sh)) (Inr (states, account_map))"
      using P(4) Inr b by simp
    obtain states' sres code where u: "select_under_caps cfg rq ?clk states = (states', sres, code)" by (metis prod_cases3)
    from select_under_caps_spec(2)[OF u] obtain r where r: "sres = Inr r"
        "(\<exists>s. r = selected_account s \<and> (\<exists>x \<in> set states. within_cap cfg (rq_lease_kind rq) x \<and> st_account_id x = st_account_id s))
         \<or> (\<exists>m. r = selection_error m)" by blast
    let ?claim = "\<lambda>i rts. map_prod id Some (take_lease rq ?clk i rts)"
    obtain rts2 out where s: "settle_selection ?claim rq ?clk account_map states' r code False rts = (rts2, out)" by fastforce
    have res: "rts' = rts2" "res = Inr out" using run p Inr b u r(1) s by (auto simp: locked_selection_def)
    have "lease_inv cfg rts2 \<and> outcome_ok rq si out \<and> (\<forall>i. leases_of rts2 i = leases_of rts i @ taken (ao_lease out) i)"
    proof (rule settle_selection_spec[OF P(1) _ _ s])
      show "a \<in> set (si_accounts si) \<and> acct_id a = j" if "map_of account_map j = Some a" for j a
        using ok that by (simp add: built_ok_def)
    next
      fix chosen a rts1
      assume a: "sel_account r = Some chosen" "map_of account_map (st_account_id chosen) = Some a"
        and rts1: "rts1 = sync_all (ac_sync ?clk) account_map (Some (st_account_id chosen)) states' rts"
        and inv1: "lease_inv cfg rts1"
      have id: "acct_id a = st_account_id chosen" using ok a(2) by (simp add: built_ok_def)
      have same: "leases_of rts1 i = leases_of rts i" "inflight_of kind rts1 i = inflight_of kind rts i" for kind i
        using sync_all_keeps[of cfg rts] unfolding rts1 by auto
      obtain x where x: "x \<in> set states" "within_cap cfg (rq_lease_kind rq) x" "st_account_id x = st_account_id chosen"
        using r(2) a(1) by auto
      have "cap_room cfg kind (acct_id a) rts1" if "rq_lease_kind rq = Some kind" for kind
        using ok x P(3) same(2) unfolding that within_cap_iff id
        by (simp add: built_ok_def cap_room_def inflight_of_def)
      moreover have "ac_uuid ?clk \<notin> fst ` set (leases_of rts1 (acct_id a))"
        using quiet_fresh[OF q resp] unfolding same(1) P(2) by (rule kept_leases_keys)
      ultimately show "claim_ok cfg rq (acct_id a) rts1 (?claim (acct_id a) rts1)"
        by (intro take_lease_ok inv1)
    qed
    then show ?thesis using settled_settle[OF q1, of rts2 out rq si] by (simp add: res)
  qed
qed

lemma sticky_attempt_settled:
  assumes resp: "respectful cfg U ev" and q: "quiet cfg U sh"
  shows "settled cfg U rq si (sticky_attempt cfg scfg rq ev k si sh)"
proof -
  let ?clk = "ev_clock ev k" and ?sclk = "ev_sticky_clock ev k"
  obtain rts built where p: "prepare_states cfg scfg ?clk si (runtime_of sh) = (rts, built)" by fastforce
  have q1: "quiet cfg U (with_runtime rts sh)" by (rule quiet_prepared[OF q p])
  have inv: "lease_inv cfg (runtime_of sh)" using q by (simp add: quiet_def)
  note P = prepare_states_spec[OF inv p]
  show ?thesis
  proof (cases built)
    case (Inl err)
    with p q1 show ?thesis by (simp add: sticky_attempt_def settled_def Let_def)
  next
    case (Inr b)
    obtain states account_map where b: "b = (states, account_map)" by fastforce
    have ok: "built_ok (si_accounts si) (tidied cfg ?clk si (runtime_of sh)) (Inr (states, account_map))"
      using P(4) Inr b by simp
    define sh1 where "sh1 = ev_await ev k BeforeLookup (with_runtime rts sh)"
    obtain tbl existing where l: "sticky_lookup ?sclk (rq_sticky rq) (snd sh1) = (tbl, existing)" by fastforce
    define sh2 where "sh2 = ev_await ev k BeforeChoice (fst sh1, tbl)"
    have "quiet cfg U sh1" unfolding sh1_def by (rule quiet_harmless[OF respectful_await[OF resp] q1])
    then have q2: "quiet cfg U sh2" unfolding sh2_def
      by (intro quiet_harmless[OF respectful_await[OF resp]]) (simp add: quiet_def)
    obtain tbl3 states3 sres code hard where
      c: "choose_sticky cfg rq ?sclk existing account_map states (snd sh2) = (tbl3, states3, sres, code, hard)"
      by (metis prod_cases5)
    define sh3 where "sh3 = ev_await ev k AfterChoice (fst sh2, tbl3)"
    have q3: "quiet cfg U sh3" unfolding sh3_def
      using q2 by (intro quiet_harmless[OF respectful_await[OF resp]]) (simp add: quiet_def)
    show ?thesis
    proof (cases sres)
      case (Inl err)
      then have "sticky_attempt cfg scfg rq ev k si sh = ((fst sh2, tbl3), Inl err)"
        using p Inr b l c by (simp add: sticky_attempt_def Let_def sh1_def sh2_def)
      with q2 show ?thesis by (simp add: settled_def quiet_def)
    next
      case r: (Inr r)
      let ?claim = "take_lease_if_allowed cfg rq ?clk"
      obtain rts2 out where s: "settle_selection ?claim rq ?clk account_map states3 r code hard (runtime_of sh3) = (rts2, out)"
        by fastforce
      have eq: "sticky_attempt cfg scfg rq ev k si sh = (with_runtime rts2 sh3, Inr out)"
        using p Inr b l c r s by (simp add: sticky_attempt_def Let_def sh1_def sh2_def sh3_def)
      have inv3: "lease_inv cfg (runtime_of sh3)" using q3 by (simp add: quiet_def)
      have "lease_inv cfg rts2 \<and> outcome_ok rq si out \<and>
          (\<forall>i. leases_of rts2 i = leases_of (runtime_of sh3) i @ taken (ao_lease out) i)"
      proof (rule settle_selection_spec[OF inv3 _ _ s])
        show "a \<in> set (si_accounts si) \<and> acct_id a = j" if "map_of account_map j = Some a" for j a
          using ok that by (simp add: built_ok_def)
      next
        fix chosen a rts1
        assume rts1: "rts1 = sync_all (ac_sync ?clk) account_map (Some (st_account_id chosen)) states3 (runtime_of sh3)"
          and inv1: "lease_inv cfg rts1"
        have "leases_of rts1 i = leases_of (runtime_of sh3) i" for i
          using sync_all_keeps[of cfg "runtime_of sh3"] unfolding rts1 by auto
        then show "claim_ok cfg rq (acct_id a) rts1 (?claim (acct_id a) rts1)"
          using quiet_fresh[OF q3 resp, of k] by (intro take_lease_if_allowed_ok inv1) simp
      qed
      then show ?thesis using settled_settle[OF q3, of rts2 out rq si] by (simp add: eq)
    qed
  qed
qed

lemma plain_attempt_settled:
  assumes "respectful cfg U ev" and "quiet cfg U sh"
  shows "settled cfg U rq si (plain_attempt cfg scfg rq ev k si sh)"
  using locked_selection_settled[OF assms] by (simp add: plain_attempt_def split: prod.split)

section \<open>The loop leaks no lease\<close>

lemma held_release:
  assumes "held U rts \<subseteq> lease_keys lease"
  shows "held U (release_account_lease lease rts) = {}"
proof (cases lease)
  case None
  with assms show ?thesis by (simp add: release_account_lease_def lease_keys_def)
next
  case (Some l)
  have "k \<notin> fst ` set (leases_of (release_account_lease lease rts) i)" if "k \<in> U" for i k
  proof
    assume k: "k \<in> fst ` set (leases_of (release_account_lease lease rts) i)"
    then have "k \<in> fst ` set (leases_of rts i)"
      using dom_delete_subset[of "al_lease_id l" "leases_of rts i"]
      by (auto simp: Some release_account_lease_def leases_of_release split: if_splits)
    with that assms Some have "i = al_account_id l" "k = al_lease_id l" by (auto simp: held_def lease_keys_def)
    with k show False
      using delete_notin_dom[of "al_lease_id l" "leases_of rts i"]
      by (simp add: Some release_account_lease_def leases_of_release)
  qed
  then show ?thesis by (auto simp: held_def)
qed

lemma quiet_give_back:
  assumes "lease_inv cfg (runtime_of sh)" and "held U (runtime_of sh) \<subseteq> lease_keys (ao_lease out)"
  shows "quiet cfg U (give_back out sh)"
  using lease_inv_release_option[OF assms(1)] held_release[OF assms(2)] by (simp add: quiet_def give_back_def)

lemma persist_attempt_harmless:
  assumes "respectful cfg U ev" and "lease_inv cfg (runtime_of sh)" and "persist_attempt ev k out sh = (sh', res)"
  shows "lease_inv cfg (runtime_of sh') \<and> held U (runtime_of sh') \<subseteq> held U (runtime_of sh)"
proof -
  let ?sh1 = "ev_await ev k BeforePersist sh"
  have 1: "lease_inv cfg (runtime_of ?sh1) \<and> held U (runtime_of ?sh1) \<subseteq> held U (runtime_of sh)"
    by (rule harmlessD[OF respectful_await[OF assms(1)] assms(2)])
  obtain tbl where sh': "sh' = ev_await ev k AfterPersist ((fst ?sh1)\<lparr>lb_accounts := tbl\<rparr>, snd ?sh1)"
    using assms(3) by (auto simp: persist_attempt_def Let_def split: prod.splits)
  show ?thesis
    using 1 harmlessD[OF respectful_await[OF assms(1)], of "((fst ?sh1)\<lparr>lb_accounts := tbl\<rparr>, snd ?sh1)" k AfterPersist]
    unfolding sh' by auto
qed

text \<open>The account of a snapshot passes the filters of the request.\<close>

definition permitted :: "routing_request \<Rightarrow> account \<Rightarrow> bool" where
  "permitted rq a \<longleftrightarrow> acct_id a \<notin> set (rq_excluded_ids rq) \<and>
     (rq_require_security_work_authorized rq \<longrightarrow> acct_security_work_authorized a)"

definition screened :: "routing_request \<Rightarrow> selection_inputs \<Rightarrow> bool" where
  "screened rq si \<longleftrightarrow> (\<forall>a \<in> set (si_accounts si). permitted rq a)"

lemma restrict_inputs_screened:
  "screened rq (restrict_inputs (rq_require_security_work_authorized rq) (rq_excluded_ids rq) raw)"
  by (auto simp: screened_def permitted_def restrict_inputs_def no_security_work_accounts_def Let_def)

lemma outcome_permitted:
  "outcome_ok rq si out \<Longrightarrow> screened rq si \<Longrightarrow> ao_snapshot out = Some a \<Longrightarrow>
   permitted rq a \<and> lease_matches rq (acct_id a) (ao_lease out)"
  by (auto simp: outcome_ok_def screened_def permitted_def)

lemma load_selection_inputs_quiet:
  assumes "respectful cfg U ev" and "quiet cfg U sh" and "load_selection_inputs rq ev k sh = (sh', si)"
  shows "quiet cfg U sh'" and "screened rq si"
proof -
  have "harmless cfg U (\<lambda>sh. fst (ev_load ev k sh))" using assms(1) by (simp add: respectful_def)
  from quiet_harmless[OF this assms(2)] assms(3) show "quiet cfg U sh'"
    by (cases "ev_load ev k sh") (simp add: load_selection_inputs_def)
  from assms(3) show "screened rq si"
    by (cases "ev_load ev k sh") (auto simp: load_selection_inputs_def restrict_inputs_screened)
qed

text \<open>
  The interface between an attempt and the loop: whatever the attempt does, it settles, and the verdict
  asks for another attempt only before the last.
\<close>

locale attempts =
  fixes run :: "lease_settings \<Rightarrow> state_settings \<Rightarrow> routing_request \<Rightarrow> ('k, 'd) routing_env \<Rightarrow> nat \<Rightarrow> selection_inputs
      \<Rightarrow> ('k, 'd) shared \<Rightarrow> ('k, 'd) shared \<times> (py_error + attempt_outcome)"
    and verdict :: "nat \<Rightarrow> attempt_outcome \<Rightarrow> string list \<Rightarrow> ('k, 'd) shared \<Rightarrow> ('k, 'd) shared \<Rightarrow> verdict_after"
  assumes run_settles: "respectful cfg U ev \<Longrightarrow> quiet cfg U sh \<Longrightarrow> settled cfg U rq si (run cfg scfg rq ev k si sh)"
    and again_early: "verdict k out stale sh sh' = Again \<Longrightarrow> k < MAX_SELECTION_ATTEMPTS"

definition loop_ok ::
  "lease_settings \<Rightarrow> string set \<Rightarrow> routing_request
   \<Rightarrow> ('k, 'd) shared \<times> (py_error + account_selection + attempt_outcome) \<Rightarrow> bool" where
  "loop_ok cfg U rq result \<longleftrightarrow>
     (case result of
        (sh, Inl err) \<Rightarrow> quiet cfg U sh
      | (sh, Inr (Inl answer)) \<Rightarrow> quiet cfg U sh \<and> as_account answer = None \<and> as_lease answer = None
      | (sh, Inr (Inr out)) \<Rightarrow>
          lease_inv cfg (runtime_of sh) \<and> held U (runtime_of sh) \<subseteq> lease_keys (ao_lease out) \<and>
          (case ao_snapshot out of
             None \<Rightarrow> ao_lease out = None
           | Some a \<Rightarrow> permitted rq a \<and> lease_matches rq (acct_id a) (ao_lease out)))"

context attempts begin

lemma loop_settles:
  assumes resp: "respectful cfg U ev" and "quiet cfg U sh" and "screened rq si"
  shows "loop_ok cfg U rq (selection_loop (run cfg scfg rq ev) verdict rq ev k si sh)"
  using assms(2,3)
proof (induction "4 - k" arbitrary: k si sh rule: less_induct)
  case (less k si sh)
  obtain sh1 res where r: "run cfg scfg rq ev k si sh = (sh1, res)" by fastforce
  have S: "settled cfg U rq si (sh1, res)" using run_settles[OF resp less.prems(1)] r by metis
  show ?case
  proof (cases res)
    case (Inl err)
    with r S show ?thesis by (subst selection_loop.simps) (simp add: loop_ok_def settled_def)
  next
    case (Inr out)
    obtain sh2 pres where p: "persist_attempt ev k out sh1 = (sh2, pres)" by fastforce
    have S': "lease_inv cfg (runtime_of sh1)" "held U (runtime_of sh1) \<subseteq> lease_keys (ao_lease out)" "outcome_ok rq si out"
      using S Inr by (simp_all add: settled_def)
    have P: "lease_inv cfg (runtime_of sh2)" "held U (runtime_of sh2) \<subseteq> lease_keys (ao_lease out)"
      using persist_attempt_harmless[OF resp S'(1) p] S'(2) by auto
    have given: "quiet cfg U (give_back out sh2)" by (rule quiet_give_back[OF P])
    show ?thesis
    proof (cases pres)
      case e: (Inl err)
      from given show ?thesis by (subst selection_loop.simps) (simp add: r Inr p e loop_ok_def)
    next
      case st: (Inr stale)
      obtain sh3 si' where ld: "load_selection_inputs rq ev k (give_back out sh2) = (sh3, si')" by fastforce
      note L = load_selection_inputs_quiet[OF resp given ld]
      show ?thesis
      proof (cases "verdict k out stale sh1 sh2")
        case Stop
        have "loop_ok cfg U rq (sh2, Inr (Inr out))"
          using P S'(3) outcome_permitted[OF S'(3) less.prems(2)]
          by (cases "ao_snapshot out") (simp_all add: loop_ok_def outcome_ok_def)
        then show ?thesis by (subst selection_loop.simps) (simp add: r Inr p st Stop)
      next
        case GiveUp
        from given show ?thesis
          by (subst selection_loop.simps) (simp add: r Inr p st GiveUp loop_ok_def quiet_def)
      next
        case Again
        then have lt: "k < 4" by (rule again_early)
        show ?thesis
        proof (cases "inputs_error si'")
          case None
          have "loop_ok cfg U rq (selection_loop (run cfg scfg rq ev) verdict rq ev (Suc k) si' sh3)"
            by (rule less.hyps) (use lt L in auto)
          then show ?thesis by (subst selection_loop.simps) (simp add: r Inr p st Again ld None lt)
        next
          case (Some answer)
          then have "as_account answer = None \<and> as_lease answer = None"
            by (auto simp: inputs_error_def split: if_splits)
          with L(1) show ?thesis
            by (subst selection_loop.simps) (simp add: r Inr p st Again ld Some loop_ok_def)
        qed
      qed
    qed
  qed
qed

end

interpretation plain_attempts: attempts plain_attempt plain_verdict
proof
  show "settled cfg U rq si (plain_attempt cfg scfg rq ev k si sh)"
    if "respectful cfg U ev" "quiet cfg U sh"
    for cfg U and ev :: "('a, 'b) routing_env" and sh rq si scfg k
    using that by (rule plain_attempt_settled)
  show "k < MAX_SELECTION_ATTEMPTS" if "plain_verdict k out stale sh sh' = Again"
    for k out stale and sh sh' :: "('a, 'b) shared"
    using that by (auto simp: plain_verdict_def split: option.splits if_splits)
qed

interpretation sticky_attempts: attempts sticky_attempt sticky_verdict
proof
  show "settled cfg U rq si (sticky_attempt cfg scfg rq ev k si sh)"
    if "respectful cfg U ev" "quiet cfg U sh"
    for cfg U and ev :: "('a, 'b) routing_env" and sh rq si scfg k
    using that by (rule sticky_attempt_settled)
  show "k < MAX_SELECTION_ATTEMPTS" if "sticky_verdict k out stale sh sh' = Again"
    for k out stale and sh sh' :: "('a, 'b) shared"
    using that by (auto simp: sticky_verdict_def split: option.splits if_splits)
qed

lemma lb_select_account_spec:
  assumes resp: "respectful cfg U ev" and q: "quiet cfg U sh"
    and run: "lb_select_account cfg scfg rq ev breaker_open sh dm = (sh', dm', res)"
  shows "case res of
           Inl err \<Rightarrow> quiet cfg U sh'
         | Inr answer \<Rightarrow>
             (case as_account answer of
                None \<Rightarrow> as_lease answer = None \<and> quiet cfg U sh'
              | Some a \<Rightarrow> permitted rq a \<and> lease_matches rq (acct_id a) (as_lease answer) \<and>
                  lease_inv cfg (runtime_of sh') \<and> held U (runtime_of sh') \<subseteq> lease_keys (as_lease answer))"
proof -
  obtain sh1 si where ld: "load_selection_inputs rq ev 0 sh = (sh1, si)" by fastforce
  note L = load_selection_inputs_quiet[OF resp q ld]
  obtain sh2 r where loop: "select_by_session cfg scfg rq ev si sh1 = (sh2, r)" by fastforce
  have ok: "loop_ok cfg U rq (sh2, r)"
    using plain_attempts.loop_settles[OF resp L, of scfg 1] sticky_attempts.loop_settles[OF resp L, of scfg 1] loop
    by (simp add: select_by_session_def split: if_splits)
  show ?thesis
  proof (cases "inputs_error si")
    case (Some answer)
    with run ld L show ?thesis
      by (auto simp: lb_select_account_def Let_def inputs_error_def split: if_splits)
  next
    case None
    have unf: "(case (sh2, r) of
          (sh, Inl err) \<Rightarrow> (sh, note_breaker breaker_open si dm, Inl err)
        | (sh, Inr (Inl answer)) \<Rightarrow> (sh, note_breaker breaker_open si dm, Inr answer)
        | (sh, Inr (Inr out)) \<Rightarrow>
            let (dm, answer) = final_answer (so_traffic_class (rq_opts rq)) out (note_breaker breaker_open si dm)
            in (sh, dm, Inr answer)) = (sh', dm', res)"
      using run by (simp add: lb_select_account_def ld None loop Let_def)
    show ?thesis
    proof (cases r)
      case (Inl err)
      with unf ok show ?thesis by (auto simp: loop_ok_def Let_def)
    next
      case (Inr q)
      show ?thesis
      proof (cases q)
        case a: (Inl answer)
        with Inr unf ok show ?thesis by (auto simp: loop_ok_def Let_def)
      next
        case o: (Inr out)
        have res: "sh' = sh2" "res = Inr (snd (final_answer (so_traffic_class (rq_opts rq)) out (note_breaker breaker_open si dm)))"
          using unf Inr o by (auto simp: Let_def split: prod.splits)
        show ?thesis
          using ok unfolding res Inr o
          by (cases "ao_snapshot out") (auto simp: loop_ok_def final_answer_def Let_def quiet_def lease_keys_def)
      qed
    qed
  qed
qed

text \<open>
  C4: Selecting an account leaks no lease, whatever other requests do meanwhile, with or without a
  session, and even if writing the rows raises midway. Take any state of the balancer with exact
  accounting, an environment that keeps it exact and does not forge this call's lease ids, and none of
  these ids in use. When the call returns or raises, the accounting is exact again; if it raises or
  answers without an account, it holds no lease; if it answers with an account, it hands out one lease
  of the requested kind on that very account, of all the leases of its attempts only that one can
  still be live, and the account is none the request excluded (and one marked for security work, if the
  request requires it).
\<close>

theorem selection_leaks_no_lease:
  assumes "respectful cfg U ev" and "lease_inv cfg (lb_runtime (fst sh))" and "held U (lb_runtime (fst sh)) = {}"
    and "lb_select_account cfg scfg rq ev breaker_open sh dm = (sh', dm', res)"
  shows "lease_inv cfg (lb_runtime (fst sh')) \<and>
    (case res of
       Inl err \<Rightarrow> held U (lb_runtime (fst sh')) = {}
     | Inr answer \<Rightarrow>
         (case as_account answer of
            None \<Rightarrow> as_lease answer = None \<and> held U (lb_runtime (fst sh')) = {}
          | Some a \<Rightarrow>
              acct_id a \<notin> set (rq_excluded_ids rq) \<and>
              (rq_require_security_work_authorized rq \<longrightarrow> acct_security_work_authorized a) \<and>
              (case rq_lease_kind rq of
                 None \<Rightarrow> as_lease answer = None \<and> held U (lb_runtime (fst sh')) = {}
               | Some kind \<Rightarrow>
                   \<exists>l. as_lease answer = Some l \<and> al_account_id l = acct_id a \<and> al_kind l = kind \<and>
                       held U (lb_runtime (fst sh')) \<subseteq> {(acct_id a, al_lease_id l)})))"
  using lb_select_account_spec[OF assms(1) _ assms(4)] assms(2,3)
  by (auto simp: quiet_def lease_matches_def lease_keys_def permitted_def split: sum.splits option.splits)

definition example_env_of_routing :: "(string, nat) routing_env" where
  "example_env_of_routing =
     \<lparr>ev_clock = (\<lambda>k. \<lparr>ac_reclaim = 100, ac_state = (\<lambda>a. example_clock 100), ac_envs = (\<lambda>n. example_env),
                      ac_sync = 100, ac_uuid = ''u'', ac_monotonic = 100, ac_wall = 100\<rparr>),
      ev_sticky_clock = (\<lambda>k. example_sticky_clock),
      ev_await = (\<lambda>k p sh. sh),
      ev_load = (\<lambda>k sh. (sh, \<lparr>si_accounts = map snd (lb_accounts (fst sh)),
                    si_usage = \<lparr>ui_latest_primary = Map.empty, ui_latest_secondary = Map.empty,
                      ui_latest_monthly = Map.empty, ui_routing_policy_override = None,
                      ui_ignore_standard_quota_account_ids = []\<rparr>,
                    si_runtime_accounts = None, si_error_message = None, si_error_code = None\<rparr>)),
      ev_persist_fails = (\<lambda>k. None)\<rparr>"

definition example_routing_request :: routing_request where
  "example_routing_request =
     \<lparr>rq_opts = example_opts, rq_sticky = example_sticky_req, rq_lease_kind = Some Stream,
      rq_estimated_lease_tokens = 10, rq_routing_costs = (\<lambda>_. None), rq_require_security_work_authorized = False,
      rq_excluded_ids = [''b'']\<rparr>"

lemma example_env_respectful: "respectful cfg {''u''} example_env_of_routing"
  by (simp add: respectful_def harmless_def example_env_of_routing_def)

theorem selection_leaks_no_lease_witness:
  "let (sh', dm', res) = lb_select_account example_lease_settings example_state_settings example_routing_request
         example_env_of_routing False (example_lb, example_sticky_table) DegradationManager
   in lease_inv example_lease_settings (lb_runtime (fst sh')) \<and>
      (case res of
         Inl err \<Rightarrow> held {''u''} (lb_runtime (fst sh')) = {}
       | Inr answer \<Rightarrow>
           (case as_account answer of
              None \<Rightarrow> as_lease answer = None \<and> held {''u''} (lb_runtime (fst sh')) = {}
            | Some a \<Rightarrow> acct_id a \<noteq> ''b'' \<and>
                (\<exists>l. as_lease answer = Some l \<and> al_account_id l = acct_id a \<and> al_kind l = Stream \<and>
                   held {''u''} (lb_runtime (fst sh')) \<subseteq> {(acct_id a, al_lease_id l)})))"
proof -
  obtain sh' dm' res where run: "lb_select_account example_lease_settings example_state_settings example_routing_request
      example_env_of_routing False (example_lb, example_sticky_table) DegradationManager = (sh', dm', res)"
    by (metis prod_cases3)
  have inv: "lease_inv example_lease_settings (lb_runtime (fst (example_lb, example_sticky_table)))"
    and held: "held {''u''} (lb_runtime (fst (example_lb, example_sticky_table))) = {}"
    by (simp_all add: example_lb_def lease_inv_def held_def leases_of_def)
  have rq: "rq_lease_kind example_routing_request = Some Stream" "rq_excluded_ids example_routing_request = [''b'']"
    by (simp_all add: example_routing_request_def)
  show ?thesis
    using selection_leaks_no_lease[OF example_env_respectful inv held run] rq run
    by (simp split: sum.splits option.splits)
qed

end
