(* ===== verification/Quota_Keys.thy ===== *)
theory Quota_Keys
  imports Json
begin

text \<open>
  The registry of additional quotas (\<open>app/modules/usage/additional_quota_keys.py\<close>,
  \<open>app/modules/proxy/additional_model_limits.py\<close>): each definition names a quota by its key, by aliases of the key, of the
  upstream limit and of the metered feature, and by the models it meters.

  The entries are those of the JSON file, with the fields and types that the code declares for them. A \<open>frozenset\<close> is a list
  without duplicates.
\<close>

section \<open>Identifiers\<close>

definition ident_char :: "char \<Rightarrow> bool" where
  "ident_char c = (let n = of_char c :: nat in (97 \<le> n \<and> n \<le> 122) \<or> (48 \<le> n \<and> n \<le> 57))"

text \<open>\<open>re.sub(r"[^a-z0-9]+", "_", s)\<close>\<close>

function join_runs :: "string \<Rightarrow> string" where
  "join_runs [] = []"
| "join_runs (c # cs) =
     (if ident_char c then c # join_runs cs else CHR ''_'' # join_runs (dropWhile (\<lambda>d. \<not> ident_char d) cs))"
  by pat_completeness auto

termination
  by (relation "measure length") (auto simp: less_Suc_eq_le length_dropWhile_le)

definition strip_underscores :: "string \<Rightarrow> string" where
  "strip_underscores s = rev (dropWhile (\<lambda>c. c = CHR ''_'') (rev (dropWhile (\<lambda>c. c = CHR ''_'') s)))"

definition normalize_identifier :: "string option \<Rightarrow> string option" where
  "normalize_identifier value =
     (case value of
        None \<Rightarrow> None
      | Some v \<Rightarrow> nonempty_str (Some (strip_underscores (join_runs (py_lower (py_strip v))))))"

section \<open>Definitions\<close>

record AdditionalQuotaDefinition =
  qd_quota_key :: string
  qd_display_label :: string
  qd_routing_policy :: string
  qd_model_ids :: "string list"
  qd_applies_to_plans :: "string list option"
  qd_quota_key_aliases :: "string list"
  qd_limit_name_aliases :: "string list"
  qd_metered_feature_aliases :: "string list"
  qd_raw_limit_name_aliases :: "string list"
  qd_raw_metered_feature_aliases :: "string list"

record AdditionalQuotaRegistryEntry =
  qe_quota_key :: "string option"
  qe_display_label :: "string option"
  qe_routing_policy :: "string option"
  qe_model_ids :: "string list option"
  qe_applies_to_plans :: "string list option"
  qe_quota_key_aliases :: "string list option"
  qe_limit_name_aliases :: "string list option"
  qe_metered_feature_aliases :: "string list option"

definition ADDITIONAL_QUOTA_ROUTING_POLICIES :: "string list" where
  "ADDITIONAL_QUOTA_ROUTING_POLICIES = [''inherit'', ''burn_first'', ''normal'', ''preserve'']"

definition canonicalize_additional_quota_routing_policy :: "string option \<Rightarrow> string option" where
  "canonicalize_additional_quota_routing_policy value =
     (case normalize_identifier value of
        None \<Rightarrow> None
      | Some n \<Rightarrow> if n \<in> set ADDITIONAL_QUOTA_ROUTING_POLICIES then Some n else None)"

definition normalize_additional_quota_routing_policy :: "string option \<Rightarrow> string" where
  "normalize_additional_quota_routing_policy value = default (canonicalize_additional_quota_routing_policy value) ''inherit''"

definition normalized_set :: "string list option \<Rightarrow> string list" where
  "normalized_set values = remdups (List.map_filter (\<lambda>v. normalize_identifier (Some v)) (default values []))"

definition stripped_set :: "string list option \<Rightarrow> string list" where
  "stripped_set values = remdups (filter (\<lambda>a. a \<noteq> []) (map py_strip (default values [])))"

definition definition_from_json :: "AdditionalQuotaRegistryEntry \<Rightarrow> py_error + AdditionalQuotaDefinition" where
  "definition_from_json item =
     (case qe_quota_key item of
        None \<Rightarrow> Inl KeyError
      | Some raw \<Rightarrow>
          (case normalize_identifier (Some (py_strip raw)) of
             None \<Rightarrow> Inl ValueError
           | Some quota_key \<Rightarrow>
               (case qe_display_label item of
                  None \<Rightarrow> Inl KeyError
                | Some label \<Rightarrow>
                    Inr \<lparr>qd_quota_key = quota_key, qd_display_label = py_strip label,
                      qd_routing_policy = normalize_additional_quota_routing_policy (qe_routing_policy item),
                      qd_model_ids = normalized_set (qe_model_ids item),
                      qd_applies_to_plans = map_option (\<lambda>ps. normalized_set (Some ps)) (qe_applies_to_plans item),
                      qd_quota_key_aliases = filter (\<lambda>a. a \<noteq> quota_key) (normalized_set (qe_quota_key_aliases item)),
                      qd_limit_name_aliases = normalized_set (qe_limit_name_aliases item),
                      qd_metered_feature_aliases = normalized_set (qe_metered_feature_aliases item),
                      qd_raw_limit_name_aliases = stripped_set (qe_limit_name_aliases item),
                      qd_raw_metered_feature_aliases = stripped_set (qe_metered_feature_aliases item)\<rparr>)))"

fun definitions_for_path :: "AdditionalQuotaRegistryEntry list \<Rightarrow> py_error + AdditionalQuotaDefinition list" where
  "definitions_for_path [] = Inr []"
| "definitions_for_path (item # items) =
     (case definition_from_json item of
        Inl e \<Rightarrow> Inl e
      | Inr d \<Rightarrow> (case definitions_for_path items of Inl e \<Rightarrow> Inl e | Inr ds \<Rightarrow> Inr (d # ds)))"

section \<open>Indexes\<close>

record quota_maps =
  qm_by_quota_key :: "string \<rightharpoonup> AdditionalQuotaDefinition"
  qm_model_to_quota_key :: "string \<rightharpoonup> string"
  qm_model_to_definition :: "string \<rightharpoonup> AdditionalQuotaDefinition"
  qm_alias_to_quota_key :: "string \<rightharpoonup> string"
  qm_quota_key_alias_to_quota_key :: "string \<rightharpoonup> string"

definition no_quota_maps :: quota_maps where
  "no_quota_maps =
     \<lparr>qm_by_quota_key = Map.empty, qm_model_to_quota_key = Map.empty, qm_model_to_definition = Map.empty,
      qm_alias_to_quota_key = Map.empty, qm_quota_key_alias_to_quota_key = Map.empty\<rparr>"

text \<open>The names of a definition are entered one by one; a name that another definition has is an error.\<close>

fun claim_names :: "string \<Rightarrow> string list \<Rightarrow> (string \<rightharpoonup> string) \<Rightarrow> py_error + (string \<rightharpoonup> string)" where
  "claim_names key [] m = Inr m"
| "claim_names key (x # xs) m =
     (if m x \<noteq> None \<and> m x \<noteq> Some key then Inl ValueError else claim_names key xs (m(x \<mapsto> key)))"

definition add_definition :: "AdditionalQuotaDefinition \<Rightarrow> quota_maps \<Rightarrow> py_error + quota_maps" where
  "add_definition d m =
     (let key = qd_quota_key d
      in if qm_by_quota_key m key \<noteq> None then Inl ValueError
         else case claim_names key [key] (qm_quota_key_alias_to_quota_key m) of
           Inl e \<Rightarrow> Inl e
         | Inr keys \<Rightarrow>
             (case claim_names key (qd_model_ids d) (qm_model_to_quota_key m) of
                Inl e \<Rightarrow> Inl e
              | Inr models \<Rightarrow>
                  (case claim_names key (qd_limit_name_aliases d @ qd_metered_feature_aliases d) (qm_alias_to_quota_key m) of
                     Inl e \<Rightarrow> Inl e
                   | Inr aliases \<Rightarrow>
                       (case claim_names key (qd_quota_key_aliases d) keys of
                          Inl e \<Rightarrow> Inl e
                        | Inr keys' \<Rightarrow>
                            Inr \<lparr>qm_by_quota_key = (qm_by_quota_key m)(key \<mapsto> d), qm_model_to_quota_key = models,
                              qm_model_to_definition = foldl (\<lambda>f x. f(x \<mapsto> d)) (qm_model_to_definition m) (qd_model_ids d),
                              qm_alias_to_quota_key = aliases, qm_quota_key_alias_to_quota_key = keys'\<rparr>))))"

fun definition_maps :: "AdditionalQuotaDefinition list \<Rightarrow> quota_maps \<Rightarrow> py_error + quota_maps" where
  "definition_maps [] m = Inr m"
| "definition_maps (d # ds) m = (case add_definition d m of Inl e \<Rightarrow> Inl e | Inr m' \<Rightarrow> definition_maps ds m')"

definition load_registry :: "AdditionalQuotaRegistryEntry list \<Rightarrow> py_error + AdditionalQuotaDefinition list \<times> quota_maps" where
  "load_registry items =
     (case definitions_for_path items of
        Inl e \<Rightarrow> Inl e
      | Inr ds \<Rightarrow> (case definition_maps ds no_quota_maps of Inl e \<Rightarrow> Inl e | Inr m \<Rightarrow> Inr (ds, m)))"

section \<open>Lookups\<close>

definition lookup_name :: "(string \<rightharpoonup> 'a) \<Rightarrow> string option \<Rightarrow> 'a option" where
  "lookup_name m name = (case normalize_identifier name of None \<Rightarrow> None | Some n \<Rightarrow> m n)"

definition canonicalize_additional_quota_key ::
  "quota_maps \<Rightarrow> string option \<Rightarrow> string option \<Rightarrow> string option \<Rightarrow> string option \<Rightarrow> string option" where
  "canonicalize_additional_quota_key m model quota_key limit_name metered_feature =
     first_some (lookup_name (qm_model_to_quota_key m) model)
     (first_some (lookup_name (qm_quota_key_alias_to_quota_key m) quota_key)
     (first_some (lookup_name (qm_alias_to_quota_key m) limit_name)
     (first_some (lookup_name (qm_alias_to_quota_key m) metered_feature)
     (first_some (normalize_identifier limit_name)
     (first_some (normalize_identifier metered_feature) (normalize_identifier quota_key))))))"

definition get_additional_quota_definition :: "quota_maps \<Rightarrow> string option \<Rightarrow> AdditionalQuotaDefinition option" where
  "get_additional_quota_definition m quota_key =
     (case canonicalize_additional_quota_key m None quota_key None None of None \<Rightarrow> None | Some k \<Rightarrow> qm_by_quota_key m k)"

definition get_additional_quota_definition_for_key :: "quota_maps \<Rightarrow> string option \<Rightarrow> AdditionalQuotaDefinition option" where
  "get_additional_quota_definition_for_key m quota_key =
     (let resolved = canonicalize_additional_quota_key m None quota_key None None;
          known = (case resolved of None \<Rightarrow> False | Some k \<Rightarrow> qm_by_quota_key m k \<noteq> None);
          resolved = (if known then resolved
            else case normalize_identifier quota_key of
              Some n \<Rightarrow> first_some (qm_alias_to_quota_key m n) resolved
            | None \<Rightarrow> resolved)
      in case resolved of None \<Rightarrow> None | Some k \<Rightarrow> qm_by_quota_key m k)"

text \<open>The overrides of the dashboard settings, in the order of the dictionary.\<close>

fun normalize_additional_quota_routing_policy_overrides :: "quota_maps \<Rightarrow> (string \<times> string) list \<Rightarrow> string \<rightharpoonup> string" where
  "normalize_additional_quota_routing_policy_overrides m [] = Map.empty"
| "normalize_additional_quota_routing_policy_overrides m ((key, value) # rest) =
     (case get_additional_quota_definition_for_key m (Some key) of
        None \<Rightarrow> normalize_additional_quota_routing_policy_overrides m rest
      | Some d \<Rightarrow>
          [qd_quota_key d \<mapsto> normalize_additional_quota_routing_policy (Some value)] ++
          normalize_additional_quota_routing_policy_overrides m rest)"

definition get_additional_quota_routing_policy :: "quota_maps \<Rightarrow> (string \<times> string) list \<Rightarrow> string option \<Rightarrow> string" where
  "get_additional_quota_routing_policy m overrides quota_key =
     (case get_additional_quota_definition_for_key m quota_key of
        None \<Rightarrow> ''inherit''
      | Some d \<Rightarrow> default (normalize_additional_quota_routing_policy_overrides m overrides (qd_quota_key d)) (qd_routing_policy d))"

definition get_additional_quota_lookup_keys :: "quota_maps \<Rightarrow> string option \<Rightarrow> string option \<Rightarrow> string option \<Rightarrow> string list option" where
  "get_additional_quota_lookup_keys m quota_key limit_name metered_feature =
     (case canonicalize_additional_quota_key m None quota_key limit_name metered_feature of
        None \<Rightarrow> None
      | Some k \<Rightarrow> (case qm_by_quota_key m k of None \<Rightarrow> Some [k] | Some d \<Rightarrow> Some (remdups (k # qd_quota_key_aliases d))))"

definition get_additional_quota_key_for_model :: "quota_maps \<Rightarrow> string option \<Rightarrow> string option" where
  "get_additional_quota_key_for_model m model = canonicalize_additional_quota_key m model None None None"

definition get_additional_quota_definition_for_model :: "quota_maps \<Rightarrow> string option \<Rightarrow> AdditionalQuotaDefinition option" where
  "get_additional_quota_definition_for_model m model = lookup_name (qm_model_to_definition m) model"

record AdditionalQuotaQueryScope =
  qs_quota_key :: string
  qs_quota_key_match_values :: "string list"
  qs_limit_name_match_values :: "string list"
  qs_metered_feature_match_values :: "string list"

definition get_additional_quota_query_scope ::
  "quota_maps \<Rightarrow> string option \<Rightarrow> string option \<Rightarrow> string option \<Rightarrow> AdditionalQuotaQueryScope option" where
  "get_additional_quota_query_scope m quota_key limit_name metered_feature =
     (case canonicalize_additional_quota_key m None quota_key (first_some quota_key limit_name) metered_feature of
        None \<Rightarrow> None
      | Some k \<Rightarrow>
          (case get_additional_quota_definition m (Some k) of
             None \<Rightarrow> Some \<lparr>qs_quota_key = k, qs_quota_key_match_values = [k], qs_limit_name_match_values = [], qs_metered_feature_match_values = []\<rparr>
           | Some d \<Rightarrow>
               Some \<lparr>qs_quota_key = k, qs_quota_key_match_values = remdups (k # qd_quota_key_aliases d),
                 qs_limit_name_match_values = remdups (map py_lower (qd_raw_limit_name_aliases d) @ qd_limit_name_aliases d),
                 qs_metered_feature_match_values = remdups (map py_lower (qd_raw_metered_feature_aliases d) @ qd_metered_feature_aliases d)\<rparr>))"

definition get_additional_display_label_for_quota_key :: "quota_maps \<Rightarrow> string option \<Rightarrow> string option" where
  "get_additional_display_label_for_quota_key m quota_key = map_option qd_display_label (get_additional_quota_definition m quota_key)"

definition get_additional_display_label :: "quota_maps \<Rightarrow> string option \<Rightarrow> string option \<Rightarrow> string option \<Rightarrow> string option" where
  "get_additional_display_label m quota_key limit_name metered_feature =
     get_additional_display_label_for_quota_key m
       (first_some (nonempty_str quota_key) (canonicalize_additional_quota_key m None None limit_name metered_feature))"

text \<open>\<open>additional_model_limits.py\<close>\<close>

record AdditionalModelLimit =
  ml_model :: string
  ml_quota_key :: string
  ml_display_label :: string

definition get_additional_model_limit :: "quota_maps \<Rightarrow> string option \<Rightarrow> AdditionalModelLimit option" where
  "get_additional_model_limit m model =
     (case get_additional_quota_definition_for_model m model of
        None \<Rightarrow> None
      | Some d \<Rightarrow>
          map_option (\<lambda>v. \<lparr>ml_model = py_lower (py_strip v), ml_quota_key = qd_quota_key d, ml_display_label = qd_display_label d\<rparr>) model)"

definition get_additional_quota_key_for_model_id :: "quota_maps \<Rightarrow> string option \<Rightarrow> string option" where
  "get_additional_quota_key_for_model_id m model = map_option ml_quota_key (get_additional_model_limit m model)"

definition get_additional_display_label_for_model :: "quota_maps \<Rightarrow> string option \<Rightarrow> string option" where
  "get_additional_display_label_for_model m model =
     get_additional_display_label_for_quota_key m (get_additional_quota_key_for_model m model)"

section \<open>Identifiers are in normal form\<close>

fun tidy :: "string \<Rightarrow> bool" where
  "tidy [] = True"
| "tidy (c # cs) = ((ident_char c \<or> c = CHR ''_'' \<and> (case cs of [] \<Rightarrow> True | d # _ \<Rightarrow> ident_char d)) \<and> tidy cs)"

lemma not_ident_underscore [simp]: "\<not> ident_char (CHR ''_'')"
  by (simp add: ident_char_def)

lemma tidy_join_runs: "tidy (join_runs s)"
proof (induction s rule: join_runs.induct)
  case (2 c cs)
  have "case join_runs (dropWhile (\<lambda>d. \<not> ident_char d) cs) of [] \<Rightarrow> True | d # _ \<Rightarrow> ident_char d"
    by (induction cs) auto
  then show ?case using 2 by auto
qed simp

lemma join_runs_tidy: "tidy s \<Longrightarrow> join_runs s = s"
proof (induction s)
  case (Cons c cs)
  then have "dropWhile (\<lambda>d. \<not> ident_char d) cs = cs" if "\<not> ident_char c" using that by (cases cs) auto
  with Cons show ?case by auto
qed simp

lemma tidy_prefix: "tidy (xs @ ys) \<Longrightarrow> tidy xs"
proof (induction xs)
  case (Cons x xs)
  then show ?case by (cases xs) auto
qed simp

lemma tidy_dropWhile: "tidy s \<Longrightarrow> tidy (dropWhile P s)"
  by (induction s) auto

lemma prefix_dropWhile: "\<exists>ys. s = rev (dropWhile P (rev s)) @ ys"
  by (metis rev_append rev_rev_ident takeWhile_dropWhile_id)

lemma tidy_strip: "tidy s \<Longrightarrow> tidy (strip_underscores s)"
  unfolding strip_underscores_def using prefix_dropWhile tidy_dropWhile tidy_prefix by metis

lemma strip_underscores_idem: "strip_underscores (strip_underscores s) = strip_underscores s"
  using dropWhile_rev_dropWhile [of "dropWhile (\<lambda>c. c = CHR ''_'') s" "\<lambda>c. c = CHR ''_''"] by (simp add: strip_underscores_def)

lemma ident_char_plain: "ident_char c \<or> c = CHR ''_'' \<Longrightarrow> \<not> py_isspace c \<and> py_lower_char c = c"
  by (auto simp: ident_char_def py_isspace_def py_lower_char_def Let_def)

lemma tidy_chars: "tidy s \<Longrightarrow> c \<in> set s \<Longrightarrow> \<not> py_isspace c \<and> py_lower_char c = c"
proof (induction s)
  case (Cons x xs)
  then show ?case using ident_char_plain [of x] by auto
qed simp

lemma tidy_lower_strip:
  assumes "tidy s"
  shows "py_lower (py_strip s) = s"
proof -
  have "dropWhile py_isspace t = t" if "set t = set s" for t
    using tidy_chars [OF assms] that by (cases t) auto
  then have "py_strip s = s" by (simp add: py_strip_def)
  moreover have "py_lower s = s" using tidy_chars [OF assms] by (simp add: py_lower_def map_idI)
  ultimately show ?thesis by simp
qed

lemma normalize_identifier_idem:
  assumes "normalize_identifier v = Some n"
  shows "normalize_identifier (Some n) = Some n"
proof -
  obtain s where n: "n = strip_underscores (join_runs s)" "n \<noteq> []"
    using assms by (auto simp: normalize_identifier_def split: option.splits dest!: nonempty_strD)
  then have "tidy n" by (simp add: tidy_strip tidy_join_runs)
  then show ?thesis using n strip_underscores_idem by (simp add: normalize_identifier_def tidy_lower_strip join_runs_tidy)
qed

section \<open>The indexes are those of the definitions\<close>

text \<open>Every name of a definition.\<close>

definition key_names :: "AdditionalQuotaDefinition \<Rightarrow> string set" where
  "key_names d = insert (qd_quota_key d) (set (qd_quota_key_aliases d))"

definition alias_names :: "AdditionalQuotaDefinition \<Rightarrow> string set" where
  "alias_names d = set (qd_limit_name_aliases d) \<union> set (qd_metered_feature_aliases d)"

lemma claim_names_iff:
  "claim_names key xs m = Inr m' \<longleftrightarrow>
     (\<forall>x \<in> set xs. m x = None \<or> m x = Some key) \<and> m' = (\<lambda>x. if x \<in> set xs then Some key else m x)"
  by (induction xs arbitrary: m) (auto simp: fun_eq_iff)

lemma claim_names_error: "claim_names key xs m = Inl e \<Longrightarrow> e = ValueError"
  by (induction xs arbitrary: m) (auto split: if_splits)

lemma foldl_update: "foldl (\<lambda>f x. f(x \<mapsto> d)) m xs = (\<lambda>x. if x \<in> set xs then Some d else m x)"
  by (induction xs arbitrary: m) (auto simp: fun_eq_iff)

text \<open>The indexes a registry must have: a name is found exactly when a definition has it.\<close>

definition indexes :: "AdditionalQuotaDefinition set \<Rightarrow> quota_maps \<Rightarrow> bool" where
  "indexes D m \<longleftrightarrow>
     (\<forall>k d. qm_by_quota_key m k = Some d \<longleftrightarrow> d \<in> D \<and> qd_quota_key d = k) \<and>
     (\<forall>x k. qm_model_to_quota_key m x = Some k \<longleftrightarrow> (\<exists>d \<in> D. qd_quota_key d = k \<and> x \<in> set (qd_model_ids d))) \<and>
     (\<forall>x d. qm_model_to_definition m x = Some d \<longleftrightarrow> d \<in> D \<and> x \<in> set (qd_model_ids d)) \<and>
     (\<forall>x k. qm_alias_to_quota_key m x = Some k \<longleftrightarrow> (\<exists>d \<in> D. qd_quota_key d = k \<and> x \<in> alias_names d)) \<and>
     (\<forall>x k. qm_quota_key_alias_to_quota_key m x = Some k \<longleftrightarrow> (\<exists>d \<in> D. qd_quota_key d = k \<and> x \<in> key_names d))"

definition apart :: "AdditionalQuotaDefinition \<Rightarrow> AdditionalQuotaDefinition \<Rightarrow> bool" where
  "apart d d' \<longleftrightarrow> key_names d \<inter> key_names d' = {} \<and> alias_names d \<inter> alias_names d' = {} \<and> set (qd_model_ids d) \<inter> set (qd_model_ids d') = {}"

text \<open>An index is extended by the names \<open>X\<close> of a new definition.\<close>

lemma claim_index:
  assumes old: "\<forall>x k. m x = Some k \<longleftrightarrow> (\<exists>d' \<in> D. qd_quota_key d' = k \<and> x \<in> N d')"
    and new: "\<forall>d' \<in> D. qd_quota_key d' \<noteq> qd_quota_key d" and names: "set xs = N d"
  shows "(\<exists>m'. claim_names (qd_quota_key d) xs m = Inr m') \<longleftrightarrow> (\<forall>d' \<in> D. N d \<inter> N d' = {})"
    and "claim_names (qd_quota_key d) xs m = Inr m' \<Longrightarrow> \<forall>x k. m' x = Some k \<longleftrightarrow> (\<exists>d' \<in> insert d D. qd_quota_key d' = k \<and> x \<in> N d')"
proof -
  have free: "m x = None \<or> m x = Some (qd_quota_key d) \<longleftrightarrow> (\<forall>d' \<in> D. x \<notin> N d')" for x
    using old new by (cases "m x") (metis option.distinct(1), metis option.inject option.distinct(1))
  show *: "(\<exists>m'. claim_names (qd_quota_key d) xs m = Inr m') \<longleftrightarrow> (\<forall>d' \<in> D. N d \<inter> N d' = {})"
    unfolding claim_names_iff names free by blast
  assume c: "claim_names (qd_quota_key d) xs m = Inr m'"
  then have "\<forall>d' \<in> D. N d \<inter> N d' = {}" using * by blast
  moreover have "m' = (\<lambda>x. if x \<in> N d then Some (qd_quota_key d) else m x)" using c names by (simp add: claim_names_iff)
  ultimately show "\<forall>x k. m' x = Some k \<longleftrightarrow> (\<exists>d' \<in> insert d D. qd_quota_key d' = k \<and> x \<in> N d')"
    using old by auto
qed

text \<open>Claiming the key first and its aliases later is claiming them all.\<close>

lemma add_definition_iff:
  "add_definition d m = Inr m' \<longleftrightarrow>
     qm_by_quota_key m (qd_quota_key d) = None \<and>
     claim_names (qd_quota_key d) (qd_quota_key d # qd_quota_key_aliases d) (qm_quota_key_alias_to_quota_key m) =
       Inr (qm_quota_key_alias_to_quota_key m') \<and>
     claim_names (qd_quota_key d) (qd_model_ids d) (qm_model_to_quota_key m) = Inr (qm_model_to_quota_key m') \<and>
     claim_names (qd_quota_key d) (qd_limit_name_aliases d @ qd_metered_feature_aliases d) (qm_alias_to_quota_key m) =
       Inr (qm_alias_to_quota_key m') \<and>
     qm_by_quota_key m' = (qm_by_quota_key m)(qd_quota_key d \<mapsto> d) \<and>
     qm_model_to_definition m' = (\<lambda>x. if x \<in> set (qd_model_ids d) then Some d else qm_model_to_definition m x)"
  by (cases m') (auto simp: add_definition_def Let_def foldl_update split: sum.splits if_splits)

lemma add_definition_succeeds:
  "(\<exists>m'. add_definition d m = Inr m') \<longleftrightarrow>
     qm_by_quota_key m (qd_quota_key d) = None \<and>
     (\<exists>a. claim_names (qd_quota_key d) (qd_quota_key d # qd_quota_key_aliases d) (qm_quota_key_alias_to_quota_key m) = Inr a) \<and>
     (\<exists>a. claim_names (qd_quota_key d) (qd_model_ids d) (qm_model_to_quota_key m) = Inr a) \<and>
     (\<exists>a. claim_names (qd_quota_key d) (qd_limit_name_aliases d @ qd_metered_feature_aliases d) (qm_alias_to_quota_key m) = Inr a)"
  (is "?L \<longleftrightarrow> ?R")
proof
  let ?k = "qd_quota_key d"
  assume ?R
  then obtain a b c where "qm_by_quota_key m ?k = None"
    "claim_names ?k (?k # qd_quota_key_aliases d) (qm_quota_key_alias_to_quota_key m) = Inr a"
    "claim_names ?k (qd_model_ids d) (qm_model_to_quota_key m) = Inr b"
    "claim_names ?k (qd_limit_name_aliases d @ qd_metered_feature_aliases d) (qm_alias_to_quota_key m) = Inr c" by blast
  then have "add_definition d m = Inr \<lparr>qm_by_quota_key = (qm_by_quota_key m)(?k \<mapsto> d), qm_model_to_quota_key = b,
      qm_model_to_definition = (\<lambda>x. if x \<in> set (qd_model_ids d) then Some d else qm_model_to_definition m x),
      qm_alias_to_quota_key = c, qm_quota_key_alias_to_quota_key = a\<rparr>"
    unfolding add_definition_iff by simp
  then show ?L by blast
qed (auto simp only: add_definition_iff)

lemma index_names:
  "set (qd_quota_key d # qd_quota_key_aliases d) = key_names d" "set (qd_limit_name_aliases d @ qd_metered_feature_aliases d) = alias_names d"
  by (simp_all add: key_names_def alias_names_def)

lemma add_definition_indexes:
  assumes "indexes D m"
  shows "(\<exists>m'. add_definition d m = Inr m') \<longleftrightarrow> (\<forall>d' \<in> D. apart d d')"
    and "add_definition d m = Inr m' \<Longrightarrow> indexes (insert d D) m'"
proof -
  have byk: "\<forall>k d. qm_by_quota_key m k = Some d \<longleftrightarrow> d \<in> D \<and> qd_quota_key d = k"
    and mdef: "\<forall>x d. qm_model_to_definition m x = Some d \<longleftrightarrow> d \<in> D \<and> x \<in> set (qd_model_ids d)"
    and keyed: "\<forall>x k. qm_quota_key_alias_to_quota_key m x = Some k \<longleftrightarrow> (\<exists>d' \<in> D. qd_quota_key d' = k \<and> x \<in> key_names d')"
    and aliased: "\<forall>x k. qm_alias_to_quota_key m x = Some k \<longleftrightarrow> (\<exists>d' \<in> D. qd_quota_key d' = k \<and> x \<in> alias_names d')"
    and modelled: "\<forall>x k. qm_model_to_quota_key m x = Some k \<longleftrightarrow> (\<exists>d' \<in> D. qd_quota_key d' = k \<and> x \<in> set (qd_model_ids d'))"
    using assms by (simp_all add: indexes_def)
  have fresh: "qm_by_quota_key m (qd_quota_key d) = None \<longleftrightarrow> (\<forall>d' \<in> D. qd_quota_key d' \<noteq> qd_quota_key d)"
    using byk by (metis not_None_eq)
  show "(\<exists>m'. add_definition d m = Inr m') \<longleftrightarrow> (\<forall>d' \<in> D. apart d d')"
  proof (cases "\<forall>d' \<in> D. qd_quota_key d' \<noteq> qd_quota_key d")
    case True
    then show ?thesis
      unfolding add_definition_succeeds claim_index(1) [OF keyed True index_names(1)] claim_index(1) [OF aliased True index_names(2)]
        claim_index(1) [where N = "\<lambda>d. set (qd_model_ids d)", OF modelled True refl] apart_def using fresh by blast
  next
    case False
    then show ?thesis unfolding add_definition_succeeds using fresh by (auto simp: apart_def key_names_def)
  qed
  assume "add_definition d m = Inr m'"
  note add = this [unfolded add_definition_iff]
  have new: "\<forall>d' \<in> D. qd_quota_key d' \<noteq> qd_quota_key d" using add fresh by blast
  have sep: "\<forall>d' \<in> D. set (qd_model_ids d) \<inter> set (qd_model_ids d') = {}"
    using add claim_index(1) [where N = "\<lambda>d. set (qd_model_ids d)", OF modelled new refl] by blast
  have "\<forall>k e. qm_by_quota_key m' k = Some e \<longleftrightarrow> e \<in> insert d D \<and> qd_quota_key e = k" using add byk new by auto
  moreover have "\<forall>x e. qm_model_to_definition m' x = Some e \<longleftrightarrow> e \<in> insert d D \<and> x \<in> set (qd_model_ids e)"
    using add mdef sep by auto
  moreover from add have "\<forall>x k. qm_quota_key_alias_to_quota_key m' x = Some k \<longleftrightarrow> (\<exists>e \<in> insert d D. qd_quota_key e = k \<and> x \<in> key_names e)"
    by (intro claim_index(2) [OF keyed new index_names(1)]) blast
  moreover from add have "\<forall>x k. qm_alias_to_quota_key m' x = Some k \<longleftrightarrow> (\<exists>e \<in> insert d D. qd_quota_key e = k \<and> x \<in> alias_names e)"
    by (intro claim_index(2) [OF aliased new index_names(2)]) blast
  moreover from add have "\<forall>x k. qm_model_to_quota_key m' x = Some k \<longleftrightarrow> (\<exists>e \<in> insert d D. qd_quota_key e = k \<and> x \<in> set (qd_model_ids e))"
    by (intro claim_index(2) [where N = "\<lambda>d. set (qd_model_ids d)", OF modelled new refl]) blast
  ultimately show "indexes (insert d D) m'" unfolding indexes_def by (intro conjI)
qed

lemma definition_maps_indexes:
  assumes "indexes D m"
  shows "(\<exists>m'. definition_maps ds m = Inr m') \<longleftrightarrow> (\<forall>d \<in> set ds. \<forall>d' \<in> D. apart d d') \<and> sorted_wrt apart ds"
    and "definition_maps ds m = Inr m' \<Longrightarrow> indexes (D \<union> set ds) m'"
proof -
  have "((\<exists>m'. definition_maps ds m = Inr m') \<longleftrightarrow> (\<forall>d \<in> set ds. \<forall>d' \<in> D. apart d d') \<and> sorted_wrt apart ds) \<and>
    (\<forall>m'. definition_maps ds m = Inr m' \<longrightarrow> indexes (D \<union> set ds) m')"
    using assms
  proof (induction ds arbitrary: D m)
    case (Cons d ds)
    have sym: "apart x y \<longleftrightarrow> apart y x" for x y by (auto simp: apart_def)
    show ?case
    proof (cases "add_definition d m")
      case (Inl e)
      then show ?thesis using add_definition_indexes(1) [OF Cons.prems, of d] by auto
    next
      case (Inr m1)
      then have "\<forall>d' \<in> D. apart d d'" "indexes (insert d D) m1" using add_definition_indexes [OF Cons.prems, of d] by blast+
      then show ?thesis using Cons.IH [of "insert d D" m1] Inr sym by auto
    qed
  qed simp
  then show "(\<exists>m'. definition_maps ds m = Inr m') \<longleftrightarrow> (\<forall>d \<in> set ds. \<forall>d' \<in> D. apart d d') \<and> sorted_wrt apart ds"
    and "definition_maps ds m = Inr m' \<Longrightarrow> indexes (D \<union> set ds) m'" by blast+
qed

section \<open>Names are resolved to the definition that has them\<close>

lemma definition_names_normal:
  assumes "definition_from_json item = Inr d"
  shows "normalize_identifier (Some (qd_quota_key d)) = Some (qd_quota_key d)"
  using assms normalize_identifier_idem by (auto simp: definition_from_json_def split: option.splits)

lemma definitions_for_path_normal:
  "definitions_for_path items = Inr ds \<Longrightarrow> d \<in> set ds \<Longrightarrow> normalize_identifier (Some (qd_quota_key d)) = Some (qd_quota_key d)"
  by (induction items arbitrary: ds) (auto split: sum.splits dest: definition_names_normal)

lemma definition_maps_error: "definition_maps ds m = Inl e \<Longrightarrow> e = ValueError"
  by (induction ds arbitrary: m)
    (auto simp: add_definition_def Let_def dest: claim_names_error split: sum.splits if_splits)

lemma indexes_none: "indexes {} no_quota_maps"
  by (simp add: indexes_def no_quota_maps_def)

lemma lookup_name_Some: "normalize_identifier name = Some x \<Longrightarrow> lookup_name f name = f x"
  by (simp add: lookup_name_def)

lemma normalize_None [simp]: "normalize_identifier None = None" "lookup_name f None = None"
  by (simp_all add: normalize_identifier_def lookup_name_def)

lemma index_lookups:
  assumes "indexes D m" and "d \<in> D"
  shows "qm_by_quota_key m (qd_quota_key d) = Some d"
    and "x \<in> set (qd_model_ids d) \<Longrightarrow> qm_model_to_quota_key m x = Some (qd_quota_key d)"
    and "x \<in> set (qd_model_ids d) \<Longrightarrow> qm_model_to_definition m x = Some d"
    and "x \<in> alias_names d \<Longrightarrow> qm_alias_to_quota_key m x = Some (qd_quota_key d)"
    and "x \<in> key_names d \<Longrightarrow> qm_quota_key_alias_to_quota_key m x = Some (qd_quota_key d)"
  using assms unfolding indexes_def by auto

lemma canonical_quota_key:
  "indexes D m \<Longrightarrow> d \<in> D \<Longrightarrow> normalize_identifier name = Some x \<Longrightarrow> x \<in> key_names d \<Longrightarrow>
   canonicalize_additional_quota_key m None name None None = Some (qd_quota_key d)"
proof -
  assume "indexes D m" "d \<in> D" "normalize_identifier name = Some x" "x \<in> key_names d"
  moreover from this have "qm_quota_key_alias_to_quota_key m x = Some (qd_quota_key d)" by (simp add: index_lookups)
  ultimately show ?thesis by (simp add: canonicalize_additional_quota_key_def lookup_name_Some)
qed

lemma canonical_alias:
  assumes "indexes D m" and "d \<in> D" and "normalize_identifier name = Some x" and "x \<in> alias_names d"
  shows "canonicalize_additional_quota_key m None None name None = Some (qd_quota_key d)"
    and "canonicalize_additional_quota_key m None None None name = Some (qd_quota_key d)"
proof -
  have "qm_alias_to_quota_key m x = Some (qd_quota_key d)" using assms by (simp add: index_lookups)
  then show "canonicalize_additional_quota_key m None None name None = Some (qd_quota_key d)"
    and "canonicalize_additional_quota_key m None None None name = Some (qd_quota_key d)"
    using assms(3) by (simp_all add: canonicalize_additional_quota_key_def lookup_name_Some)
qed

lemma model_quota_key:
  assumes "indexes D m" and "d \<in> D" and "normalize_identifier (Some name) = Some x" and "x \<in> set (qd_model_ids d)"
  shows "get_additional_quota_key_for_model_id m (Some name) = Some (qd_quota_key d)"
    and "get_additional_quota_key_for_model m (Some name) = Some (qd_quota_key d)"
proof -
  have "qm_model_to_definition m x = Some d" using assms by (simp add: index_lookups)
  then show "get_additional_quota_key_for_model_id m (Some name) = Some (qd_quota_key d)"
    using assms(3) by (simp add: get_additional_quota_key_for_model_id_def get_additional_model_limit_def
        get_additional_quota_definition_for_model_def lookup_name_Some)
  have "qm_model_to_quota_key m x = Some (qd_quota_key d)" using assms by (simp add: index_lookups)
  then show "get_additional_quota_key_for_model m (Some name) = Some (qd_quota_key d)"
    using assms(3) by (simp add: get_additional_quota_key_for_model_def canonicalize_additional_quota_key_def lookup_name_Some)
qed

lemma definition_of_key:
  assumes "indexes D m" and "d \<in> D" and "normalize_identifier name = Some x" and "x \<in> key_names d"
  shows "get_additional_quota_definition m name = Some d" and "get_additional_quota_definition_for_key m name = Some d"
proof -
  show "get_additional_quota_definition m name = Some d" "get_additional_quota_definition_for_key m name = Some d"
    using canonical_quota_key [OF assms] index_lookups(1) [OF assms(1,2)]
    by (simp_all add: get_additional_quota_definition_def get_additional_quota_definition_for_key_def Let_def)
qed

text \<open>
  C30: When its entries parse, the registry of additional quotas loads exactly when no two definitions share a key or alias of a key, an alias of a
  limit or feature, or a model, and then every name leads back to its definition: any spelling of a key or of an alias
  of the key finds the definition, any spelling of a limit or feature alias and of a metered model yields the definition's key, and the key
  itself finds the definition again. Otherwise loading raises \<open>ValueError\<close>.
\<close>

theorem quota_registry_resolves_names:
  assumes "definitions_for_path items = Inr ds"
  shows "case load_registry items of
      Inl e \<Rightarrow> e = ValueError \<and> \<not> sorted_wrt apart ds
    | Inr (ds', m) \<Rightarrow>
        ds' = ds \<and> sorted_wrt apart ds \<and>
        (\<forall>d \<in> set ds.
           get_additional_quota_definition m (Some (qd_quota_key d)) = Some d \<and>
           (\<forall>name x. normalize_identifier (Some name) = Some x \<longrightarrow>
              (x \<in> key_names d \<longrightarrow> get_additional_quota_definition m (Some name) = Some d) \<and>
              (x \<in> alias_names d \<longrightarrow>
                 canonicalize_additional_quota_key m None None (Some name) None = Some (qd_quota_key d) \<and>
                 canonicalize_additional_quota_key m None None None (Some name) = Some (qd_quota_key d)) \<and>
              (x \<in> set (qd_model_ids d) \<longrightarrow> get_additional_quota_key_for_model_id m (Some name) = Some (qd_quota_key d))))"
proof (cases "definition_maps ds no_quota_maps")
  case (Inl e)
  then show ?thesis
    using assms definition_maps_error [OF Inl] definition_maps_indexes(1) [OF indexes_none, of ds] by (auto simp: load_registry_def)
next
  case (Inr m)
  then have ix: "indexes (set ds) m" and "sorted_wrt apart ds"
    using definition_maps_indexes [OF indexes_none, of ds] by (auto simp: Inr)
  moreover have "get_additional_quota_definition m (Some (qd_quota_key d)) = Some d" if "d \<in> set ds" for d
    using definition_of_key(1) [OF ix that definitions_for_path_normal [OF assms that]] by (simp add: key_names_def)
  ultimately show ?thesis
    using canonical_alias [OF ix] model_quota_key(1) [OF ix] definition_of_key(1) [OF ix]
    by (simp add: load_registry_def assms Inr)
qed

text \<open>The entry of the registry that the repository ships, \<open>config/additional_quota_registry.json\<close>.\<close>

definition shipped_entry :: AdditionalQuotaRegistryEntry where
  "shipped_entry =
     \<lparr>qe_quota_key = Some ''codex_spark'', qe_display_label = Some ''GPT-5.3-Codex-Spark'', qe_routing_policy = Some ''burn_first'',
      qe_model_ids = Some [''gpt-5.3-codex-spark''], qe_applies_to_plans = Some [''pro'', ''prolite'', ''team'', ''business'', ''enterprise''],
      qe_quota_key_aliases = None, qe_limit_name_aliases = Some [''codex_other'', ''GPT-5.3-Codex-Spark'', ''gpt-5.3-codex-spark''],
      qe_metered_feature_aliases = Some [''codex_bengalfox'']\<rparr>"

definition shipped_definition :: AdditionalQuotaDefinition where
  "shipped_definition =
     \<lparr>qd_quota_key = ''codex_spark'', qd_display_label = ''GPT-5.3-Codex-Spark'', qd_routing_policy = ''burn_first'',
      qd_model_ids = [''gpt_5_3_codex_spark''], qd_applies_to_plans = Some [''pro'', ''prolite'', ''team'', ''business'', ''enterprise''],
      qd_quota_key_aliases = [], qd_limit_name_aliases = [''codex_other'', ''gpt_5_3_codex_spark''],
      qd_metered_feature_aliases = [''codex_bengalfox''],
      qd_raw_limit_name_aliases = [''codex_other'', ''GPT-5.3-Codex-Spark'', ''gpt-5.3-codex-spark''],
      qd_raw_metered_feature_aliases = [''codex_bengalfox'']\<rparr>"

lemma shipped_definitions: "definitions_for_path [shipped_entry] = Inr [shipped_definition]"
  by code_simp

theorem quota_registry_resolves_names_witness:
  "case load_registry [shipped_entry] of
     Inl e \<Rightarrow> False
   | Inr (ds, m) \<Rightarrow>
       get_additional_quota_key_for_model_id m (Some '' GPT-5.3_codex.SPARK '') = Some ''codex_spark'' \<and>
       canonicalize_additional_quota_key m None None (Some ''Codex Other'') None = Some ''codex_spark'' \<and>
       get_additional_quota_definition m (Some ''codex-spark'') = Some shipped_definition"
proof -
  have "normalize_identifier (Some '' GPT-5.3_codex.SPARK '') = Some ''gpt_5_3_codex_spark''"
    "normalize_identifier (Some ''Codex Other'') = Some ''codex_other''" "normalize_identifier (Some ''codex-spark'') = Some ''codex_spark''"
    by code_simp+
  moreover have "''gpt_5_3_codex_spark'' \<in> set (qd_model_ids shipped_definition)" "''codex_other'' \<in> alias_names shipped_definition"
    "''codex_spark'' \<in> key_names shipped_definition" "qd_quota_key shipped_definition = ''codex_spark''"
    by (simp_all add: shipped_definition_def alias_names_def key_names_def)
  ultimately show ?thesis
    using quota_registry_resolves_names [OF shipped_definitions] by (cases "load_registry [shipped_entry]") (auto simp: case_prod_beta)
qed

end
