(* ===== verification/Model_Registry.thy ===== *)
theory Model_Registry
  imports Json
begin

text \<open>
  The registry of upstream models (\<open>app/core/openai/model_registry.py\<close>): which models there are and which plans may use them. Until
  the first refresh it answers from the models shipped with the program; a refresh replaces what the refreshed plans
  list and keeps what it knows of the other plans.

  A dictionary is an association list. The code iterates over sets of plans and of slugs when it carries over what it knows; the
  order does not matter to any lookup, and here it is that of the lists.
\<close>

section \<open>Models\<close>

record ReasoningLevel =
  rl_effort :: string
  rl_description :: string

record UpstreamModel =
  um_slug :: string
  um_display_name :: string
  um_description :: string
  um_context_window :: int
  um_input_modalities :: "string list"
  um_supported_reasoning_levels :: "ReasoningLevel list"
  um_default_reasoning_level :: "string option"
  um_supports_reasoning_summaries :: bool
  um_support_verbosity :: bool
  um_default_verbosity :: "string option"
  um_prefer_websockets :: bool
  um_supports_parallel_tool_calls :: bool
  um_supported_in_api :: bool
  um_minimal_client_version :: "string option"
  um_priority :: int
  um_available_in_plans :: "string list"
  um_base_instructions :: string
  um_raw :: "(string \<times> json) list"

record ModelRegistrySnapshot =
  ms_models :: "(string \<times> UpstreamModel) list"
  ms_model_plans :: "(string \<times> string list) list"
  ms_plan_models :: "(string \<times> string list) list"
  ms_fetched_at :: real

definition BOOTSTRAP_WEBSOCKET_PREFERRED_MODEL_PATTERNS :: "string list" where
  "BOOTSTRAP_WEBSOCKET_PREFERRED_MODEL_PATTERNS = [''gpt-5.5'', ''gpt-5.5-*'', ''gpt-5.4'', ''gpt-5.4-*'']"

definition REASONING_LEVELS_EXTENDED :: "ReasoningLevel list" where
  "REASONING_LEVELS_EXTENDED =
     [\<lparr>rl_effort = ''low'', rl_description = ''Low reasoning effort''\<rparr>, \<lparr>rl_effort = ''medium'', rl_description = ''Medium reasoning effort''\<rparr>,
      \<lparr>rl_effort = ''high'', rl_description = ''High reasoning effort''\<rparr>,
      \<lparr>rl_effort = ''xhigh'', rl_description = ''Extra high reasoning effort''\<rparr>]"

definition BOOTSTRAP_AVAILABLE_IN_PLANS :: "string list" where
  "BOOTSTRAP_AVAILABLE_IN_PLANS =
     [''plus'', ''pro'', ''prolite'', ''team'', ''business'', ''enterprise'', ''edu'', ''education'', ''k12'', ''go'', ''hc'', ''finserv'', ''free'',
      ''free_workspace'', ''quorum'', ''self_serve_business_usage_based'', ''enterprise_cbp_usage_based'']"

definition BOOTSTRAP_CORE_AVAILABLE_IN_PLANS :: "string list" where
  "BOOTSTRAP_CORE_AVAILABLE_IN_PLANS = filter (\<lambda>p. p \<notin> set [''free'', ''free_workspace'', ''k12'']) BOOTSTRAP_AVAILABLE_IN_PLANS"

text \<open>A bootstrap model with every keyword argument at its default.\<close>

definition bootstrap_model :: "string \<Rightarrow> string \<Rightarrow> bool \<Rightarrow> string option \<Rightarrow> UpstreamModel" where
  "bootstrap_model slug display_name prefer_websockets minimal_client_version =
     \<lparr>um_slug = slug, um_display_name = display_name, um_description = display_name, um_context_window = 272000,
      um_input_modalities = [''text'', ''image''], um_supported_reasoning_levels = REASONING_LEVELS_EXTENDED,
      um_default_reasoning_level = Some ''medium'', um_supports_reasoning_summaries = True, um_support_verbosity = True,
      um_default_verbosity = Some ''low'', um_prefer_websockets = prefer_websockets, um_supports_parallel_tool_calls = True,
      um_supported_in_api = True, um_minimal_client_version = minimal_client_version, um_priority = 0,
      um_available_in_plans = BOOTSTRAP_AVAILABLE_IN_PLANS, um_base_instructions = [],
      um_raw = [(''shell_type'', JStr ''shell_command''), (''visibility'', JStr ''list''), (''availability_nux'', JNull),
        (''max_context_window'', JInt 272000)]\<rparr>"

definition with_raw :: "string \<Rightarrow> json \<Rightarrow> UpstreamModel \<Rightarrow> UpstreamModel" where
  "with_raw key value m = m\<lparr>um_raw := AList.update key value (um_raw m)\<rparr>"

definition BOOTSTRAP_STATIC_MODELS :: "UpstreamModel list" where
  "BOOTSTRAP_STATIC_MODELS =
     [bootstrap_model ''gpt-5.5'' ''GPT-5.5'' True (Some ''0.124.0''),
      with_raw ''max_context_window'' (JInt 1000000)
        ((bootstrap_model ''gpt-5.4'' ''GPT-5.4'' True (Some ''0.98.0''))\<lparr>um_available_in_plans := BOOTSTRAP_CORE_AVAILABLE_IN_PLANS\<rparr>),
      (bootstrap_model ''gpt-5.4-mini'' ''GPT-5.4 Mini'' True (Some ''0.98.0''))\<lparr>um_default_verbosity := Some ''medium''\<rparr>,
      (bootstrap_model ''gpt-5.3-codex'' ''GPT-5.3 Codex'' True (Some ''0.98.0''))\<lparr>um_available_in_plans := BOOTSTRAP_CORE_AVAILABLE_IN_PLANS\<rparr>,
      with_raw ''max_context_window'' (JInt 128000)
        ((bootstrap_model ''gpt-5.3-codex-spark'' ''GPT-5.3 Codex Spark'' True (Some ''0.100.0''))
          \<lparr>um_context_window := 128000, um_input_modalities := [''text''], um_default_reasoning_level := Some ''high'', um_supported_in_api := False\<rparr>),
      bootstrap_model ''gpt-5.2'' ''GPT-5.2'' True (Some ''0.0.1''),
      with_raw ''max_context_window'' (JInt 1000000) (with_raw ''visibility'' (JStr ''hide'')
        ((bootstrap_model ''codex-auto-review'' ''Codex Auto Review'' True (Some ''0.98.0''))\<lparr>um_available_in_plans := BOOTSTRAP_CORE_AVAILABLE_IN_PLANS\<rparr>))]"

section \<open>The registry\<close>

record model_registry =
  mr_ttl_seconds :: real
  mr_snapshot :: "ModelRegistrySnapshot option"
  mr_bootstrap_models :: "(string \<times> UpstreamModel) list"

definition ModelRegistry :: "real \<Rightarrow> py_error + model_registry" where
  "ModelRegistry ttl_seconds =
     (if ttl_seconds \<le> 0 then Inl ValueError
      else Inr \<lparr>mr_ttl_seconds = ttl_seconds, mr_snapshot = None, mr_bootstrap_models = map (\<lambda>m. (um_slug m, m)) BOOTSTRAP_STATIC_MODELS\<rparr>)"

definition get_models_with_fallback :: "model_registry \<Rightarrow> (string \<times> UpstreamModel) list" where
  "get_models_with_fallback r = (case mr_snapshot r of Some s \<Rightarrow> ms_models s | None \<Rightarrow> mr_bootstrap_models r)"

text \<open>\<open>m.get(slug) or m.get(slug.strip().lower())\<close>\<close>

definition find_model :: "(string \<times> 'a) list \<Rightarrow> string \<Rightarrow> 'a option" where
  "find_model ms slug = (case map_of ms slug of Some m \<Rightarrow> Some m | None \<Rightarrow> map_of ms (py_lower (py_strip slug)))"

definition plan_types_for_model :: "model_registry \<Rightarrow> string \<Rightarrow> string list option" where
  "plan_types_for_model r slug =
     (case mr_snapshot r of
        None \<Rightarrow> map_option um_available_in_plans (find_model (mr_bootstrap_models r) slug)
      | Some s \<Rightarrow>
          (case map_of (ms_model_plans s) slug of
             Some (p # ps) \<Rightarrow> Some (p # ps)
           | _ \<Rightarrow> Some (default (map_of (ms_model_plans s) (py_lower (py_strip slug))) [])))"

text \<open>\<open>fnmatchcase\<close>, for patterns whose only special character is a star at the end.\<close>

definition matches_pattern :: "string \<Rightarrow> string \<Rightarrow> bool" where
  "matches_pattern name pattern =
     (if pattern \<noteq> [] \<and> last pattern = CHR ''*'' then starts_with (butlast pattern) name else name = pattern)"

definition prefers_websockets :: "model_registry \<Rightarrow> string option \<Rightarrow> bool" where
  "prefers_websockets r slug =
     (case slug of
        None \<Rightarrow> False
      | Some v \<Rightarrow>
          (let normalized = py_lower (py_strip v)
           in if normalized = [] then False
              else case mr_snapshot r of
                Some s \<Rightarrow> (case find_model (ms_models s) v of Some m \<Rightarrow> um_prefer_websockets m | None \<Rightarrow> False)
              | None \<Rightarrow>
                  (case find_model (mr_bootstrap_models r) v of
                     Some m \<Rightarrow> um_prefer_websockets m
                   | None \<Rightarrow> list_ex (matches_pattern normalized) BOOTSTRAP_WEBSOCKET_PREFERRED_MODEL_PATTERNS)))"

definition needs_refresh :: "real \<Rightarrow> model_registry \<Rightarrow> bool" where
  "needs_refresh now r = (case mr_snapshot r of None \<Rightarrow> True | Some s \<Rightarrow> now - ms_fetched_at s \<ge> mr_ttl_seconds r)"

definition is_public_model :: "UpstreamModel \<Rightarrow> string list option \<Rightarrow> bool" where
  "is_public_model m allowed_models = (case allowed_models of None \<Rightarrow> True | Some ms \<Rightarrow> um_slug m \<in> set ms)"

section \<open>A refresh\<close>

text \<open>\<open>index.setdefault(key, set()).add(value)\<close>\<close>

definition index_add :: "'k \<Rightarrow> 'v \<Rightarrow> ('k \<times> 'v list) list \<Rightarrow> ('k \<times> 'v list) list" where
  "index_add key value ix = AList.update key (List.insert value (default (map_of ix key) [])) ix"

type_synonym refresh_tables = "(string \<times> UpstreamModel) list \<times> (string \<times> string list) list"

definition carry_slug :: "ModelRegistrySnapshot \<Rightarrow> string \<Rightarrow> string \<Rightarrow> refresh_tables \<Rightarrow> refresh_tables" where
  "carry_slug previous plan slug t =
     (case t of (models, plans) \<Rightarrow>
       ((case (map_of models slug, map_of (ms_models previous) slug) of (None, Some m) \<Rightarrow> AList.update slug m models | _ \<Rightarrow> models),
        index_add slug plan plans))"

definition carry_plan :: "ModelRegistrySnapshot \<Rightarrow> string \<Rightarrow> refresh_tables \<Rightarrow> refresh_tables" where
  "carry_plan previous plan t = fold (carry_slug previous plan) (default (map_of (ms_plan_models previous) plan) []) t"

definition carry_over :: "ModelRegistrySnapshot option \<Rightarrow> string list \<Rightarrow> refresh_tables" where
  "carry_over previous refreshed =
     (case previous of
        None \<Rightarrow> ([], [])
      | Some s \<Rightarrow> fold (carry_plan s) (filter (\<lambda>p. p \<notin> set refreshed) (map fst (ms_plan_models s))) ([], []))"

definition merge_model :: "string \<Rightarrow> UpstreamModel \<Rightarrow> refresh_tables \<Rightarrow> refresh_tables" where
  "merge_model plan m t = (case t of (models, plans) \<Rightarrow> (AList.update (um_slug m) m models, index_add (um_slug m) plan plans))"

definition merge_plan :: "string \<times> UpstreamModel list \<Rightarrow> refresh_tables \<Rightarrow> refresh_tables" where
  "merge_plan result t = fold (merge_model (fst result)) (snd result) t"

definition reverse_index :: "(string \<times> string list) list \<Rightarrow> (string \<times> string list) list" where
  "reverse_index plans = fold (\<lambda>(slug, ps). fold (\<lambda>p. index_add p slug) ps) plans []"

definition update_registry :: "real \<Rightarrow> (string \<times> UpstreamModel list) list \<Rightarrow> model_registry \<Rightarrow> model_registry" where
  "update_registry now per_plan_results r =
     (if per_plan_results = [] then r
      else
        let (models, plans) = fold merge_plan per_plan_results (carry_over (mr_snapshot r) (map fst per_plan_results))
        in r\<lparr>mr_snapshot := Some \<lparr>ms_models = models, ms_model_plans = plans, ms_plan_models = reverse_index plans, ms_fetched_at = now\<rparr>\<rparr>)"

section \<open>The indexes\<close>

definition listed :: "('k \<times> 'v list) list \<Rightarrow> 'k \<Rightarrow> 'v \<Rightarrow> bool" where
  "listed ix key value \<longleftrightarrow> value \<in> set (default (map_of ix key) [])"

lemma listed_Nil [simp]: "\<not> listed [] k v"
  by (simp add: listed_def default_def)

lemma listed_add [simp]: "listed (index_add k v ix) k' v' \<longleftrightarrow> (k' = k \<and> v' = v) \<or> listed ix k' v'"
  by (auto simp: listed_def index_add_def update_conv' default_def)

lemma distinct_index_add: "distinct (map fst ix) \<Longrightarrow> distinct (map fst (index_add k v ix))"
  by (simp add: index_add_def update_keys)

lemma listed_iff_row: "distinct (map fst ix) \<Longrightarrow> listed ix k v \<longleftrightarrow> (\<exists>vs. (k, vs) \<in> set ix \<and> v \<in> set vs)"
  by (cases "map_of ix k") (auto simp: listed_def default_def map_of_eq_None_iff image_iff dest: map_of_SomeD eq_key_imp_eq_value)

lemma listed_reverse_row:
  "listed (fold (\<lambda>p. index_add p slug) ps ix) k v \<longleftrightarrow> listed ix k v \<or> (v = slug \<and> k \<in> set ps)"
  by (induction ps arbitrary: ix) auto

lemma listed_reverse_rows:
  "listed (fold (\<lambda>(slug, ps). fold (\<lambda>p. index_add p slug) ps) rows ix) k v \<longleftrightarrow> listed ix k v \<or> (\<exists>ps. (v, ps) \<in> set rows \<and> k \<in> set ps)"
  by (induction rows arbitrary: ix) (auto simp: listed_reverse_row)

lemma listed_reverse_index: "distinct (map fst ix) \<Longrightarrow> listed (reverse_index ix) k v \<longleftrightarrow> listed ix v k"
  unfolding reverse_index_def listed_reverse_rows by (simp add: listed_iff_row)

section \<open>What a refresh changes\<close>

lemma carry_slugs_listed:
  "listed (snd (fold (carry_slug s plan) slugs t)) slug p \<longleftrightarrow> listed (snd t) slug p \<or> (p = plan \<and> slug \<in> set slugs)"
  by (induction slugs arbitrary: t) (auto simp: carry_slug_def split: prod.split)

lemma carry_plan_listed:
  "listed (snd (carry_plan s plan t)) slug p \<longleftrightarrow> listed (snd t) slug p \<or> (p = plan \<and> listed (ms_plan_models s) plan slug)"
  unfolding carry_plan_def carry_slugs_listed by (simp add: listed_def)

lemma carry_plans_listed:
  "listed (snd (fold (carry_plan s) plans t)) slug p \<longleftrightarrow> listed (snd t) slug p \<or> (p \<in> set plans \<and> listed (ms_plan_models s) p slug)"
  by (induction plans arbitrary: t) (auto simp: carry_plan_listed)

lemma merge_models_listed:
  "listed (snd (fold (merge_model plan) ms t)) slug p \<longleftrightarrow> listed (snd t) slug p \<or> (p = plan \<and> slug \<in> um_slug ` set ms)"
  by (induction ms arbitrary: t) (auto simp: merge_model_def split: prod.split)

lemma merge_plans_listed:
  "listed (snd (fold merge_plan results t)) slug p \<longleftrightarrow> listed (snd t) slug p \<or> (\<exists>ms. (p, ms) \<in> set results \<and> slug \<in> um_slug ` set ms)"
  by (induction results arbitrary: t) (auto simp: merge_plan_def merge_models_listed)

text \<open>Every listed model is described, under its own slug.\<close>

definition tables_ok :: "refresh_tables \<Rightarrow> bool" where
  "tables_ok t \<longleftrightarrow>
     distinct (map fst (snd t)) \<and> (\<forall>slug m. map_of (fst t) slug = Some m \<longrightarrow> um_slug m = slug) \<and>
     (\<forall>slug plan. listed (snd t) slug plan \<longrightarrow> map_of (fst t) slug \<noteq> None)"

definition registry_snapshot_ok :: "ModelRegistrySnapshot \<Rightarrow> bool" where
  "registry_snapshot_ok s \<longleftrightarrow>
     tables_ok (ms_models s, ms_model_plans s) \<and> (\<forall>slug plan. listed (ms_plan_models s) plan slug \<longleftrightarrow> listed (ms_model_plans s) slug plan)"

definition registry_ok :: "model_registry \<Rightarrow> bool" where
  "registry_ok r \<longleftrightarrow> (case mr_snapshot r of None \<Rightarrow> True | Some s \<Rightarrow> registry_snapshot_ok s)"

lemma tables_ok_merge: "tables_ok t \<Longrightarrow> tables_ok (merge_model plan m t)"
  by (cases t) (auto simp: tables_ok_def merge_model_def update_conv' distinct_index_add)

lemma tables_ok_merge_plan: "tables_ok t \<Longrightarrow> tables_ok (merge_plan result t)"
proof -
  have "tables_ok t \<Longrightarrow> tables_ok (fold (merge_model plan) ms t)" for plan ms t
    by (induction ms arbitrary: t) (auto simp: tables_ok_merge)
  then show "tables_ok t \<Longrightarrow> tables_ok (merge_plan result t)" by (simp add: merge_plan_def)
qed

lemma tables_ok_carry:
  assumes "registry_snapshot_ok s" and "listed (ms_plan_models s) plan slug" and "tables_ok t"
  shows "tables_ok (carry_slug s plan slug t)"
proof -
  obtain m where "map_of (ms_models s) slug = Some m" "um_slug m = slug"
    using assms(1,2) by (auto simp: registry_snapshot_ok_def tables_ok_def)
  then show ?thesis
    using assms(3) by (cases t) (auto simp: tables_ok_def carry_slug_def update_conv' distinct_index_add split: option.split)
qed

lemma tables_ok_carry_plan:
  assumes "registry_snapshot_ok s" and "tables_ok t"
  shows "tables_ok (carry_plan s plan t)"
proof -
  have "tables_ok (fold (carry_slug s plan) slugs t)" if "\<And>x. x \<in> set slugs \<Longrightarrow> listed (ms_plan_models s) plan x" for slugs
    by (rule fold_invariant [where Q = "listed (ms_plan_models s) plan"]) (use that assms in \<open>auto intro: tables_ok_carry\<close>)
  then show ?thesis by (simp add: carry_plan_def listed_def)
qed

lemma tables_ok_carry_over:
  assumes "registry_ok r"
  shows "tables_ok (carry_over (mr_snapshot r) refreshed)"
proof -
  have none: "tables_ok ([], [])" by (simp add: tables_ok_def)
  moreover have "tables_ok (fold (carry_plan s) plans t)" if "registry_snapshot_ok s" "tables_ok t" for s plans t
    by (rule fold_invariant [where Q = "\<lambda>_. True"]) (use that in \<open>auto intro: tables_ok_carry_plan\<close>)
  ultimately show ?thesis using assms by (auto simp: carry_over_def registry_ok_def split: option.splits)
qed

definition refreshed_tables :: "(string \<times> UpstreamModel list) list \<Rightarrow> model_registry \<Rightarrow> refresh_tables" where
  "refreshed_tables results r = fold merge_plan results (carry_over (mr_snapshot r) (map fst results))"

lemma refreshed_tables_ok: "registry_ok r \<Longrightarrow> tables_ok (refreshed_tables results r)"
proof -
  have "tables_ok t \<Longrightarrow> tables_ok (fold merge_plan results t)" for t
    by (induction results arbitrary: t) (auto simp: tables_ok_merge_plan)
  then show "registry_ok r \<Longrightarrow> tables_ok (refreshed_tables results r)" by (simp add: refreshed_tables_def tables_ok_carry_over)
qed

lemma update_registry_snapshot:
  "results \<noteq> [] \<Longrightarrow> mr_snapshot (update_registry now results r) =
     Some \<lparr>ms_models = fst (refreshed_tables results r), ms_model_plans = snd (refreshed_tables results r),
       ms_plan_models = reverse_index (snd (refreshed_tables results r)), ms_fetched_at = now\<rparr>"
  by (simp add: update_registry_def refreshed_tables_def case_prod_beta Let_def)

text \<open>The registry stays consistent through every sequence of refreshes.\<close>

fun refresh_exec :: "real \<times> (string \<times> UpstreamModel list) list \<Rightarrow> model_registry \<Rightarrow> model_registry" where
  "refresh_exec (now, results) r = update_registry now results r"

interpretation registry_machine: machine refresh_exec registry_ok
proof
  fix r and op :: "real \<times> (string \<times> UpstreamModel list) list"
  assume "registry_ok r"
  obtain now results where op: "op = (now, results)" by fastforce
  show "registry_ok (refresh_exec op r)"
  proof (cases "results = []")
    case True
    then show ?thesis using \<open>registry_ok r\<close> op by (simp add: update_registry_def)
  next
    case False
    then show ?thesis
      using refreshed_tables_ok [OF \<open>registry_ok r\<close>, of results]
      by (simp add: op registry_ok_def update_registry_snapshot registry_snapshot_ok_def listed_reverse_index tables_ok_def)
  qed
qed

text \<open>What the registry says a plan lists.\<close>

definition plan_lists :: "model_registry \<Rightarrow> string \<Rightarrow> string \<Rightarrow> bool" where
  "plan_lists r plan slug \<longleftrightarrow> (case mr_snapshot r of None \<Rightarrow> False | Some s \<Rightarrow> listed (ms_plan_models s) plan slug)"

lemma carry_over_lists:
  "listed (snd (carry_over (mr_snapshot r) refreshed)) slug plan \<longleftrightarrow> plan \<notin> set refreshed \<and> plan_lists r plan slug"
proof -
  have "plan \<in> fst ` set ix" if "listed ix plan slug" for ix :: "(string \<times> string list) list"
    using that map_of_eq_None_iff [of ix plan] by (cases "map_of ix plan") (simp_all add: listed_def default_def)
  then show ?thesis by (cases "mr_snapshot r") (auto simp: carry_over_def plan_lists_def carry_plans_listed)
qed

lemma refreshed_lists:
  assumes "distinct (map fst results)"
  shows "listed (snd (refreshed_tables results r)) slug plan \<longleftrightarrow>
    (case map_of results plan of Some ms \<Rightarrow> slug \<in> um_slug ` set ms | None \<Rightarrow> plan_lists r plan slug)"
proof (cases "map_of results plan")
  case None
  then have "plan \<notin> set (map fst results)" by (simp add: map_of_eq_None_iff)
  moreover from this have "(plan, ms) \<notin> set results" for ms by force
  ultimately show ?thesis using None by (simp add: refreshed_tables_def merge_plans_listed carry_over_lists)
next
  case (Some ms)
  then have "(plan, ms') \<in> set results \<longleftrightarrow> ms' = ms" for ms' using assms by (auto dest: map_of_SomeD eq_key_imp_eq_value)
  moreover have "plan \<in> set (map fst results)" using Some map_of_eq_None_iff [of results plan] by simp
  ultimately show ?thesis using Some by (simp add: refreshed_tables_def merge_plans_listed carry_over_lists)
qed

text \<open>
  C29: A refresh of the model registry replaces exactly what the refreshed plans list. Afterwards a plan that was refreshed lists the
  models of its result and no other, every other plan lists what it listed before, and the plans the registry allows for a model (for a
  slug as the registry normalises it) are exactly those that list it. Every listed model is described, under its own slug, whatever refreshes came before.
\<close>

theorem registry_refresh_is_exact:
  assumes "results \<noteq> []" and "distinct (map fst results)" and "ModelRegistry ttl = Inr r0" and "r = fold refresh_exec history r0"
  shows "let r' = update_registry now results r
    in (\<forall>plan slug. plan_lists r' plan slug \<longleftrightarrow>
          (case map_of results plan of Some ms \<Rightarrow> slug \<in> um_slug ` set ms | None \<Rightarrow> plan_lists r plan slug)) \<and>
       (\<forall>slug. py_lower (py_strip slug) = slug \<longrightarrow>
          map_option set (plan_types_for_model r' slug) = Some {plan. plan_lists r' plan slug}) \<and>
       (\<forall>plan slug. plan_lists r' plan slug \<longrightarrow> (\<exists>m. map_of (get_models_with_fallback r') slug = Some m \<and> um_slug m = slug))"
proof -
  have "registry_ok r0" using assms(3) by (auto simp: ModelRegistry_def registry_ok_def split: if_splits)
  then have "registry_ok r" using registry_machine.invar_run assms(4) by simp
  then have ok: "tables_ok (refreshed_tables results r)" by (rule refreshed_tables_ok)
  let ?r = "update_registry now results r"
  let ?t = "refreshed_tables results r"
  have lists: "plan_lists ?r plan slug \<longleftrightarrow> listed (snd ?t) slug plan" for plan slug
    using ok by (simp add: plan_lists_def update_registry_snapshot assms(1) listed_reverse_index tables_ok_def)
  have "\<forall>slug. py_lower (py_strip slug) = slug \<longrightarrow> map_option set (plan_types_for_model ?r slug) = Some {plan. plan_lists ?r plan slug}"
    unfolding lists by (auto simp: plan_types_for_model_def update_registry_snapshot assms(1) listed_def default_def split: option.split list.split)
  moreover have "\<forall>plan slug. plan_lists ?r plan slug \<longrightarrow> (\<exists>m. map_of (get_models_with_fallback ?r) slug = Some m \<and> um_slug m = slug)"
    unfolding lists using ok by (auto simp: get_models_with_fallback_def update_registry_snapshot assms(1) tables_ok_def)
  ultimately show ?thesis using refreshed_lists [OF assms(2), of r] by (simp add: lists Let_def)
qed

definition example_model :: "string \<Rightarrow> UpstreamModel" where
  "example_model slug = bootstrap_model slug slug False None"

theorem registry_refresh_is_exact_witness:
  "\<exists>r0. ModelRegistry 300 = Inr r0 \<and>
     (let r = fold refresh_exec [(1, [(''plus'', [example_model ''a'', example_model ''b'']), (''pro'', [example_model ''a''])])] r0;
          r' = update_registry 2 [(''plus'', [example_model ''c''])] r
      in map_option set (plan_types_for_model r' ''a'') = Some {''pro''} \<and>
         map_option set (plan_types_for_model r' ''b'') = Some {} \<and> map_option set (plan_types_for_model r' ''c'') = Some {''plus''})"
proof -
  obtain r0 where r0: "ModelRegistry 300 = Inr r0" "mr_snapshot r0 = None" by (simp add: ModelRegistry_def)
  define batch where "batch = [(''plus'', [example_model ''a'', example_model ''b'']), (''pro'', [example_model ''a''])]"
  define r where "r = fold refresh_exec [(1, batch)] r0"
  define r' where "r' = update_registry 2 [(''plus'', [example_model ''c''])] r"
  have slugs: "um_slug (example_model s) = s" for s by (simp add: example_model_def bootstrap_model_def)
  have "plan_lists r plan slug \<longleftrightarrow> (plan = ''plus'' \<and> slug \<in> {''a'', ''b''}) \<or> (plan = ''pro'' \<and> slug = ''a'')" for plan slug
    using registry_refresh_is_exact [of batch 300 r0 r0 "[]" 1] r0
    by (auto simp: slugs plan_lists_def [of r0] batch_def r_def Let_def)
  moreover have step: "(\<forall>plan slug. plan_lists r' plan slug \<longleftrightarrow> (case map_of [(''plus'', [example_model ''c''])] plan of
        Some ms \<Rightarrow> slug \<in> um_slug ` set ms | None \<Rightarrow> plan_lists r plan slug)) \<and>
      (\<forall>slug. py_lower (py_strip slug) = slug \<longrightarrow> map_option set (plan_types_for_model r' slug) = Some {plan. plan_lists r' plan slug})"
    using registry_refresh_is_exact [of "[(''plus'', [example_model ''c''])]", OF _ _ r0(1) r_def, of 2]
    unfolding Let_def r'_def [symmetric] by (simp del: map_option_eq_Some)
  ultimately have lists: "plan_lists r' plan slug \<longleftrightarrow> (if plan = ''plus'' then slug = ''c'' else plan = ''pro'' \<and> slug = ''a'')" for plan slug
    by (simp add: slugs)
  have normal: "py_lower (py_strip ''a'') = ''a''" "py_lower (py_strip ''b'') = ''b''" "py_lower (py_strip ''c'') = ''c''" by code_simp+
  have "{plan. plan_lists r' plan ''a''} = {''pro''}" "{plan. plan_lists r' plan ''b''} = {}" "{plan. plan_lists r' plan ''c''} = {''plus''}"
    by (auto simp: lists)
  then show ?thesis
    using step [THEN conjunct2, rule_format, OF normal(1)] step [THEN conjunct2, rule_format, OF normal(2)]
      step [THEN conjunct2, rule_format, OF normal(3)] r0(1) unfolding Let_def r'_def r_def batch_def by (intro exI [of _ r0]) simp
qed

end
