(* ===== verification/Selection_Inputs.thy ===== *)
theory Selection_Inputs
  imports Routing Quota_Keys Model_Registry
begin

text \<open>
  What the balancer chooses from (\<open>app/modules/proxy/load_balancer.py\<close>, \<open>LoadBalancer._load_selection_inputs\<close>): the accounts that can
  serve at all, that the API key may use, whose plan supports the model and whose additional quota, when the model or the
  request has one, is known and not exhausted. The inputs are cached per model, limit, policies and accounts.

  What is read from the database, from the registries and from the settings is a record of the values read. The readings of
  the clock while the entries are compared are a function of the entry.
\<close>

section \<open>Policies of additional quotas\<close>

definition normalize_additional_quota_key :: "quota_maps \<Rightarrow> string \<Rightarrow> string option" where
  "normalize_additional_quota_key m raw =
     (case canonicalize_additional_quota_key m None (Some raw) (Some raw) None of
        None \<Rightarrow> None
      | Some k \<Rightarrow> if get_additional_quota_definition m (Some k) = None then None else Some k)"

text \<open>The setting, parsed as JSON: \<open>None\<close> when it is empty or no JSON.\<close>

definition parse_additional_quota_routing_policies :: "quota_maps \<Rightarrow> json option \<Rightarrow> (string \<times> string) list" where
  "parse_additional_quota_routing_policies m parsed =
     (case parsed of
        Some (JObj kvs) \<Rightarrow>
          fold (\<lambda>(key, value) policies.
            case value of
              JStr p \<Rightarrow>
                (case normalize_additional_quota_key m key of
                   None \<Rightarrow> policies
                 | Some k \<Rightarrow>
                     if k \<noteq> [] \<and> py_lower (py_strip p) \<in> set ADDITIONAL_QUOTA_ROUTING_POLICIES
                     then AList.update k (py_lower (py_strip p)) policies else policies)
            | _ \<Rightarrow> policies) kvs []
      | _ \<Rightarrow> [])"

definition additional_quota_routing_policy_override :: "quota_maps \<Rightarrow> (string \<times> string) list \<Rightarrow> string option \<Rightarrow> string option" where
  "additional_quota_routing_policy_override m policies limit_name =
     (case limit_name of
        None \<Rightarrow> None
      | Some l \<Rightarrow>
          (case canonicalize_additional_quota_key m None None (Some l) None of
             None \<Rightarrow> None
           | Some k \<Rightarrow>
               (let policy = get_additional_quota_routing_policy m policies (Some k)
                in if policy = ''inherit'' then None else Some policy)))"

section \<open>What is read\<close>

record selection_readings =
  sr_all_accounts :: "account list"
  sr_primary :: "string \<rightharpoonup> usage_entry"
  sr_secondary :: "string \<rightharpoonup> usage_entry"
  sr_monthly :: "string \<rightharpoonup> usage_entry"
  sr_additional :: "string \<Rightarrow> string \<Rightarrow> string list \<Rightarrow> real option \<Rightarrow> string \<rightharpoonup> usage_entry" \<comment> \<open>key, window, accounts, since\<close>
  sr_quota_maps :: quota_maps
  sr_registry :: model_registry
  sr_policies_setting :: "json option"
  sr_utcnow :: real
  sr_time :: "usage_entry \<Rightarrow> real"
  sr_refresh_interval :: int

definition selectable_accounts :: "account list \<Rightarrow> account list" where
  "selectable_accounts accounts = filter (\<lambda>a. acct_status a \<notin> {REAUTH_REQUIRED, DEACTIVATED, PAUSED}) accounts"

definition filter_accounts_for_model :: "model_registry \<Rightarrow> account list \<Rightarrow> string \<Rightarrow> account list" where
  "filter_accounts_for_model r accounts model =
     (case plan_types_for_model r model of
        None \<Rightarrow> accounts
      | Some plans \<Rightarrow> filter (\<lambda>a. account_plan_matches_allowed (Some (acct_plan_type a)) (set plans)) accounts)"

definition mapped_model_has_registry_entry :: "model_registry \<Rightarrow> string option \<Rightarrow> bool" where
  "mapped_model_has_registry_entry r model =
     (case model of None \<Rightarrow> False | Some m \<Rightarrow> (case plan_types_for_model r m of Some (p # ps) \<Rightarrow> True | _ \<Rightarrow> False))"

section \<open>Additional quotas\<close>

definition ADDITIONAL_QUOTA_EXEMPT_PLAN_TYPES :: "string list" where
  "ADDITIONAL_QUOTA_EXEMPT_PLAN_TYPES = [''free'', ''plus'', ''edu'']"

definition latest_additional_by_key :: "selection_readings \<Rightarrow> string \<Rightarrow> string \<Rightarrow> string list \<Rightarrow> real option \<Rightarrow> string \<rightharpoonup> usage_entry" where
  "latest_additional_by_key w quota_key window account_ids since =
     (case canonicalize_additional_quota_key (sr_quota_maps w) None (Some quota_key) (Some quota_key) None of
        None \<Rightarrow> Map.empty
      | Some k \<Rightarrow> sr_additional w k window account_ids since)"

definition additional_usage_fresh_since :: "selection_readings \<Rightarrow> real" where
  "additional_usage_fresh_since w = sr_utcnow w - of_int (max (sr_refresh_interval w * 2) 180)"

definition additional_quota_applies_to_plan :: "quota_maps \<Rightarrow> string option \<Rightarrow> string option \<Rightarrow> bool" where
  "additional_quota_applies_to_plan m quota_key plan_type =
     (case get_additional_quota_definition m quota_key of
        None \<Rightarrow> True
      | Some d \<Rightarrow>
          (case qd_applies_to_plans d of
             None \<Rightarrow> True
           | Some plans \<Rightarrow>
               (case normalize_account_plan_type plan_type of
                  None \<Rightarrow> True
                | Some p \<Rightarrow> if p \<in> set plans then True else p \<notin> set ADDITIONAL_QUOTA_EXEMPT_PLAN_TYPES)))"

definition additional_usage_is_exhausted :: "selection_readings \<Rightarrow> usage_entry \<Rightarrow> bool" where
  "additional_usage_is_exhausted w entry =
     (case ue_used_percent entry of
        None \<Rightarrow> False
      | Some used \<Rightarrow>
          if (case ue_reset_at entry of Some t \<Rightarrow> t \<le> \<lfloor>sr_time w entry\<rfloor> | None \<Rightarrow> False) then False else used \<ge> 100)"

datatype quota_eligibility = Eligible | Data_unavailable | Quota_exhausted

record additional_rows =
  ar_latest_primary :: "string \<rightharpoonup> usage_entry"
  ar_latest_secondary :: "string \<rightharpoonup> usage_entry"
  ar_fresh_primary :: "string \<rightharpoonup> usage_entry"
  ar_fresh_secondary :: "string \<rightharpoonup> usage_entry"

definition additional_quota_eligibility :: "selection_readings \<Rightarrow> account \<Rightarrow> string \<Rightarrow> bool \<Rightarrow> additional_rows \<Rightarrow> quota_eligibility" where
  "additional_quota_eligibility w a quota_key explicit_limit rows =
     (let latest_primary = ar_latest_primary rows (acct_id a); latest_secondary = ar_latest_secondary rows (acct_id a);
          primary = ar_fresh_primary rows (acct_id a); secondary = ar_fresh_secondary rows (acct_id a)
      in if \<not> explicit_limit \<and> \<not> additional_quota_applies_to_plan (sr_quota_maps w) (Some quota_key) (Some (acct_plan_type a)) then Eligible
         else if latest_primary = None \<and> latest_secondary = None then Data_unavailable
         else if latest_primary \<noteq> None \<and> primary = None then Data_unavailable
         else if latest_secondary \<noteq> None \<and> secondary = None then Data_unavailable
         else if (case primary of Some e \<Rightarrow> additional_usage_is_exhausted w e | None \<Rightarrow> False) then Quota_exhausted
         else if (case secondary of Some e \<Rightarrow> additional_usage_is_exhausted w e | None \<Rightarrow> False) then Quota_exhausted
         else Eligible)"

definition read_additional_rows :: "selection_readings \<Rightarrow> string \<Rightarrow> account list \<Rightarrow> additional_rows" where
  "read_additional_rows w limit_name accounts =
     (let ids = map acct_id accounts; since = Some (additional_usage_fresh_since w)
      in \<lparr>ar_latest_primary = latest_additional_by_key w limit_name ''primary'' ids None,
          ar_latest_secondary = latest_additional_by_key w limit_name ''secondary'' ids None,
          ar_fresh_primary = latest_additional_by_key w limit_name ''primary'' ids since,
          ar_fresh_secondary = latest_additional_by_key w limit_name ''secondary'' ids since\<rparr>)"

record limit_filter =
  lf_accounts :: "account list"
  lf_latest_primary :: "string \<rightharpoonup> usage_entry"
  lf_latest_secondary :: "string \<rightharpoonup> usage_entry"
  lf_error_code :: "string option"
  lf_error_message :: "string option"

definition py_format_model :: "string option \<Rightarrow> string" where
  "py_format_model model = (case model of None \<Rightarrow> ''None'' | Some m \<Rightarrow> m)"

definition quoted :: "string \<Rightarrow> string" where
  "quoted s = CHR 0x27 # s @ [CHR 0x27]"

definition filter_accounts_for_additional_limit ::
  "selection_readings \<Rightarrow> account list \<Rightarrow> string option \<Rightarrow> string \<Rightarrow> bool \<Rightarrow> limit_filter" where
  "filter_accounts_for_additional_limit w accounts model limit_name explicit_limit =
     (if accounts = []
      then \<lparr>lf_accounts = [], lf_latest_primary = Map.empty, lf_latest_secondary = Map.empty, lf_error_code = None, lf_error_message = None\<rparr>
      else
        let rows = read_additional_rows w limit_name accounts;
            verdict = (\<lambda>a. additional_quota_eligibility w a limit_name explicit_limit rows);
            eligible = filter (\<lambda>a. verdict a = Eligible) accounts;
            ids = map acct_id eligible;
            shown = quoted (py_format_model model)
        in if eligible = []
           then (let (code, message) =
                   (if list_ex (\<lambda>a. verdict a = Data_unavailable) accounts
                    then (''additional_quota_data_unavailable'', ''No fresh additional quota data available for model '' @ shown)
                    else if list_ex (\<lambda>a. verdict a = Quota_exhausted) accounts
                    then (''quota_exhausted'', ''Additional quota exhausted for model '' @ shown)
                    else (''no_additional_quota_eligible_accounts'', ''No accounts with available additional quota for model '' @ shown))
                 in \<lparr>lf_accounts = [], lf_latest_primary = ar_latest_primary rows, lf_latest_secondary = ar_latest_secondary rows,
                      lf_error_code = Some code, lf_error_message = Some message\<rparr>)
           else \<lparr>lf_accounts = eligible, lf_latest_primary = ar_latest_primary rows |` set ids,
                  lf_latest_secondary = ar_latest_secondary rows |` set ids, lf_error_code = None, lf_error_message = None\<rparr>)"

section \<open>The inputs\<close>

definition empty_inputs :: "selection_readings \<Rightarrow> string option \<Rightarrow> string option \<Rightarrow> selection_inputs" where
  "empty_inputs w code message =
     \<lparr>si_accounts = [],
      si_usage = \<lparr>ui_latest_primary = Map.empty, ui_latest_secondary = Map.empty, ui_latest_monthly = Map.empty,
        ui_routing_policy_override = None, ui_ignore_standard_quota_account_ids = []\<rparr>,
      si_runtime_accounts = Some (sr_all_accounts w), si_error_message = message, si_error_code = code\<rparr>"

definition effective_limit_name :: "selection_readings \<Rightarrow> string option \<Rightarrow> string option \<Rightarrow> string option" where
  "effective_limit_name w model additional_limit_name =
     (case nonempty_str additional_limit_name of
        Some l \<Rightarrow> Some l
      | None \<Rightarrow> get_additional_quota_key_for_model_id (sr_quota_maps w) model)"

definition quota_scoped :: "selection_readings \<Rightarrow> string option \<Rightarrow> string option \<Rightarrow> account \<Rightarrow> bool" where
  "quota_scoped w model additional_limit_name a =
     (additional_limit_name \<noteq> None \<or>
      (case (case nonempty_str model of None \<Rightarrow> None | Some m \<Rightarrow> plan_types_for_model (sr_registry w) m) of
         None \<Rightarrow> False
       | Some plans \<Rightarrow>
           (case normalize_account_plan_type (Some (acct_plan_type a)) of
              None \<Rightarrow> True | Some p \<Rightarrow> p \<notin> set ADDITIONAL_QUOTA_EXEMPT_PLAN_TYPES) \<and>
           account_plan_matches_allowed (Some (acct_plan_type a)) (set plans)))"

text \<open>The entries of the additional quota take the place of the standard ones, for the accounts they meter.\<close>

definition overlay :: "string list \<Rightarrow> (string \<rightharpoonup> usage_entry) \<Rightarrow> (string \<rightharpoonup> usage_entry) \<Rightarrow> string \<rightharpoonup> usage_entry" where
  "overlay ids special standard i = (if i \<in> set ids then special i else standard i)"

text \<open>The inputs when accounts are left; \<open>f\<close> is the result of the filter for an additional limit.\<close>

definition full_inputs ::
  "selection_readings \<Rightarrow> string option \<Rightarrow> string option \<Rightarrow> (string \<times> string) list \<Rightarrow> limit_filter option \<Rightarrow> account list \<Rightarrow> selection_inputs" where
  "full_inputs w model additional_limit_name policies f accounts =
     (let scoped = (case f of None \<Rightarrow> [] | Some _ \<Rightarrow> map acct_id (filter (quota_scoped w model additional_limit_name) accounts))
      in \<lparr>si_accounts = accounts,
          si_usage = \<lparr>
            ui_latest_primary = (case f of None \<Rightarrow> sr_primary w | Some r \<Rightarrow> overlay scoped (lf_latest_primary r) (sr_primary w)),
            ui_latest_secondary = (case f of None \<Rightarrow> sr_secondary w | Some r \<Rightarrow> overlay scoped (lf_latest_secondary r) (sr_secondary w)),
            ui_latest_monthly = sr_monthly w,
            ui_routing_policy_override = additional_quota_routing_policy_override (sr_quota_maps w) policies (effective_limit_name w model additional_limit_name),
            ui_ignore_standard_quota_account_ids = scoped\<rparr>,
          si_runtime_accounts = Some (sr_all_accounts w), si_error_message = None, si_error_code = None\<rparr>)"

definition effective_policies :: "selection_readings \<Rightarrow> string option \<Rightarrow> string option \<Rightarrow> (string \<times> string) list" where
  "effective_policies w model additional_limit_name =
     (if effective_limit_name w model additional_limit_name \<noteq> None
      then parse_additional_quota_routing_policies (sr_quota_maps w) (sr_policies_setting w) else [])"

definition read_selection_inputs :: "selection_readings \<Rightarrow> string option \<Rightarrow> string option \<Rightarrow> string list option \<Rightarrow> selection_inputs" where
  "read_selection_inputs w model additional_limit_name account_ids =
     (let limit = effective_limit_name w model additional_limit_name;
          policies = effective_policies w model additional_limit_name;
          selectable = selectable_accounts (sr_all_accounts w);
          scoped = (case account_ids of None \<Rightarrow> selectable | Some ids \<Rightarrow> filter (\<lambda>a. acct_id a \<in> set ids) selectable);
          accounts = (case nonempty_str model of
            Some m \<Rightarrow> if mapped_model_has_registry_entry (sr_registry w) (Some m) then filter_accounts_for_model (sr_registry w) scoped m else scoped
          | None \<Rightarrow> scoped)
      in if nonempty_str model \<noteq> None \<and> accounts = []
         then (if sr_all_accounts w = [] then empty_inputs w None None
               else if scoped = [] then empty_inputs w None None
               else empty_inputs w (Some ''no_plan_support_for_model'')
                 (Some (''No accounts with a plan supporting model '' @ quoted (py_format_model model))))
         else case nonempty_str limit of
           Some l \<Rightarrow>
             (let f = filter_accounts_for_additional_limit w accounts model l (additional_limit_name \<noteq> None)
              in if lf_accounts f = [] then empty_inputs w (lf_error_code f) (lf_error_message f)
                 else full_inputs w model additional_limit_name policies (Some f) (lf_accounts f))
         | None \<Rightarrow>
             if accounts = [] then empty_inputs w None None
             else full_inputs w model additional_limit_name policies None accounts)"

section \<open>The cache\<close>

type_synonym inputs_key = "string option \<times> string option \<times> string \<times> string list option"

definition inputs_key_of ::
  "((string \<times> string) list \<Rightarrow> string) \<Rightarrow> selection_readings \<Rightarrow> string option \<Rightarrow> string option \<Rightarrow> string list option \<Rightarrow> inputs_key" where
  "inputs_key_of dumps w model additional_limit_name account_ids =
     (model, additional_limit_name, dumps (effective_policies w model additional_limit_name), map_option (\<lambda>ids. sort (remdups ids)) account_ids)"

text \<open>What other requests do to the cache between the lookup and the entry of the result is a function.\<close>

definition cached_selection_inputs ::
  "((string \<times> string) list \<Rightarrow> string) \<Rightarrow> selection_readings \<Rightarrow> string option \<Rightarrow> string option \<Rightarrow> string list option \<Rightarrow> real \<Rightarrow> real
   \<Rightarrow> ((inputs_key, selection_inputs) selection_cache \<Rightarrow> (inputs_key, selection_inputs) selection_cache)
   \<Rightarrow> (inputs_key, selection_inputs) selection_cache \<Rightarrow> (inputs_key, selection_inputs) selection_cache \<times> selection_inputs" where
  "cached_selection_inputs dumps w model additional_limit_name account_ids t_get t_set meanwhile cache =
     (let key = inputs_key_of dumps w model additional_limit_name account_ids
      in case cache_get t_get key cache of
           Some si \<Rightarrow> (cache, si)
         | None \<Rightarrow>
             (let si = read_selection_inputs w model additional_limit_name account_ids
              in (cache_set t_set si key (Some (sc_generation cache)) (meanwhile cache), si)))"

section \<open>The inputs are the eligible accounts\<close>

definition supports_model :: "selection_readings \<Rightarrow> string option \<Rightarrow> account \<Rightarrow> bool" where
  "supports_model w model a =
     (case nonempty_str model of
        None \<Rightarrow> True
      | Some m \<Rightarrow>
          (case plan_types_for_model (sr_registry w) m of
             Some (p # ps) \<Rightarrow> account_plan_matches_allowed (Some (acct_plan_type a)) (set (p # ps))
           | _ \<Rightarrow> True))"

definition reachable_account :: "string list option \<Rightarrow> account \<Rightarrow> bool" where
  "reachable_account account_ids a \<longleftrightarrow>
     acct_status a \<notin> {REAUTH_REQUIRED, DEACTIVATED, PAUSED} \<and> (case account_ids of None \<Rightarrow> True | Some ids \<Rightarrow> acct_id a \<in> set ids)"

definition candidates :: "selection_readings \<Rightarrow> string option \<Rightarrow> string list option \<Rightarrow> account list" where
  "candidates w model account_ids = filter (\<lambda>a. reachable_account account_ids a \<and> supports_model w model a) (sr_all_accounts w)"

definition quota_verdict :: "selection_readings \<Rightarrow> string option \<Rightarrow> string option \<Rightarrow> string list option \<Rightarrow> account \<Rightarrow> quota_eligibility" where
  "quota_verdict w model additional_limit_name account_ids a =
     (case nonempty_str (effective_limit_name w model additional_limit_name) of
        None \<Rightarrow> Eligible
      | Some l \<Rightarrow>
          additional_quota_eligibility w a l (additional_limit_name \<noteq> None) (read_additional_rows w l (candidates w model account_ids)))"

lemma scoped_accounts:
  "(case account_ids of None \<Rightarrow> selectable_accounts xs | Some ids \<Rightarrow> filter (\<lambda>a. acct_id a \<in> set ids) (selectable_accounts xs)) =
   filter (reachable_account account_ids) xs"
  by (cases account_ids) (auto simp: selectable_accounts_def reachable_account_def intro!: filter_cong)

lemma model_accounts:
  "(case nonempty_str model of
      Some m \<Rightarrow> if mapped_model_has_registry_entry (sr_registry w) (Some m) then filter_accounts_for_model (sr_registry w) xs m else xs
    | None \<Rightarrow> xs) = filter (supports_model w model) xs"
proof (cases "nonempty_str model")
  case (Some m)
  show ?thesis
  proof (cases "plan_types_for_model (sr_registry w) m")
    case (Some plans)
    then show ?thesis
      using \<open>nonempty_str model = Some m\<close>
      by (cases plans) (simp_all add: supports_model_def [abs_def] mapped_model_has_registry_entry_def filter_accounts_for_model_def)
  qed (simp_all add: supports_model_def [abs_def] mapped_model_has_registry_entry_def Some)
qed (simp add: supports_model_def [abs_def])

text \<open>The inputs, said with the candidates.\<close>

lemma read_selection_inputs_candidates:
  "read_selection_inputs w model additional_limit_name account_ids =
     (let accounts = candidates w model account_ids
      in if nonempty_str model \<noteq> None \<and> accounts = []
         then (if filter (reachable_account account_ids) (sr_all_accounts w) = [] then empty_inputs w None None
               else empty_inputs w (Some ''no_plan_support_for_model'')
                 (Some (''No accounts with a plan supporting model '' @ quoted (py_format_model model))))
         else case nonempty_str (effective_limit_name w model additional_limit_name) of
           Some l \<Rightarrow>
             (let f = filter_accounts_for_additional_limit w accounts model l (additional_limit_name \<noteq> None)
              in if lf_accounts f = [] then empty_inputs w (lf_error_code f) (lf_error_message f)
                 else full_inputs w model additional_limit_name (effective_policies w model additional_limit_name) (Some f) (lf_accounts f))
         | None \<Rightarrow>
             if accounts = [] then empty_inputs w None None
             else full_inputs w model additional_limit_name (effective_policies w model additional_limit_name) None accounts)"
  unfolding read_selection_inputs_def Let_def scoped_accounts model_accounts filter_filter candidates_def by auto

lemma limit_filter_accounts:
  "lf_accounts (filter_accounts_for_additional_limit w xs model l explicit) =
     filter (\<lambda>a. additional_quota_eligibility w a l explicit (read_additional_rows w l xs) = Eligible) xs"
  by (simp add: filter_accounts_for_additional_limit_def Let_def split: prod.split)

lemma limit_filter_error:
  assumes "lf_accounts (filter_accounts_for_additional_limit w xs model l explicit) = []" and "xs \<noteq> []"
  shows "lf_error_code (filter_accounts_for_additional_limit w xs model l explicit) =
    Some (if \<exists>a \<in> set xs. additional_quota_eligibility w a l explicit (read_additional_rows w l xs) = Data_unavailable
      then ''additional_quota_data_unavailable'' else ''quota_exhausted'')"
proof -
  let ?v = "\<lambda>a. additional_quota_eligibility w a l explicit (read_additional_rows w l xs)"
  have none: "\<forall>a \<in> set xs. ?v a \<noteq> Eligible" using assms(1) by (auto simp: limit_filter_accounts filter_empty_conv)
  have "list_ex (\<lambda>a. ?v a = Quota_exhausted) xs" if "\<not> list_ex (\<lambda>a. ?v a = Data_unavailable) xs"
  proof -
    obtain a where a: "a \<in> set xs" using assms(2) by (cases xs) auto
    then have "?v a = Quota_exhausted" using none that by (cases "?v a") (auto simp: list_ex_iff)
    then show ?thesis using a by (auto simp: list_ex_iff)
  qed
  moreover have "filter (\<lambda>a. ?v a = Eligible) xs = []" using none by (simp add: filter_empty_conv)
  ultimately show ?thesis
    using assms(2) by (auto simp: filter_accounts_for_additional_limit_def Let_def list_ex_iff)
qed

lemma inputs_simps [simp]:
  "si_accounts (empty_inputs w c m) = []" "si_error_code (empty_inputs w c m) = c"
  "si_accounts (full_inputs w model l p f xs) = xs" "si_error_code (full_inputs w model l p f xs) = None"
  by (simp_all add: empty_inputs_def full_inputs_def Let_def)

lemma read_accounts:
  "si_accounts (read_selection_inputs w model additional_limit_name account_ids) =
     filter (\<lambda>a. quota_verdict w model additional_limit_name account_ids a = Eligible) (candidates w model account_ids)"
proof (cases "nonempty_str (effective_limit_name w model additional_limit_name)")
  case None
  then show ?thesis by (simp add: read_selection_inputs_candidates Let_def quota_verdict_def)
next
  case (Some l)
  then show ?thesis by (auto simp: read_selection_inputs_candidates Let_def quota_verdict_def limit_filter_accounts)
qed

lemma read_error:
  assumes "si_accounts (read_selection_inputs w model additional_limit_name account_ids) = []"
  shows "si_error_code (read_selection_inputs w model additional_limit_name account_ids) =
    (if candidates w model account_ids = []
     then (if nonempty_str model \<noteq> None \<and> filter (reachable_account account_ids) (sr_all_accounts w) \<noteq> []
           then Some ''no_plan_support_for_model'' else None)
     else Some (if \<exists>a \<in> set (candidates w model account_ids). quota_verdict w model additional_limit_name account_ids a = Data_unavailable
           then ''additional_quota_data_unavailable'' else ''quota_exhausted''))"
proof (cases "nonempty_str (effective_limit_name w model additional_limit_name)")
  case None
  then show ?thesis using assms unfolding read_accounts by (auto simp: read_selection_inputs_candidates Let_def quota_verdict_def)
next
  case (Some l)
  let ?xs = "candidates w model account_ids"
  let ?f = "filter_accounts_for_additional_limit w ?xs model l (additional_limit_name \<noteq> None)"
  have none: "lf_accounts ?f = []"
    using assms unfolding read_accounts by (simp add: quota_verdict_def Some limit_filter_accounts)
  show ?thesis
  proof (cases "?xs = []")
    case True
    then show ?thesis by (auto simp: read_selection_inputs_candidates Let_def Some filter_accounts_for_additional_limit_def)
  next
    case False
    then show ?thesis
      using none limit_filter_error [OF none False] by (simp add: read_selection_inputs_candidates Let_def Some quota_verdict_def)
  qed
qed

text \<open>
  What the two verdicts mean. The quota of an account is unknown when no window has a row, or a window has rows but none is fresh; it is
  open when it is known and no fresh row is exhausted. A quota that the account's plan is exempt from does not matter, unless the request names it.
\<close>

definition limit_rows :: "selection_readings \<Rightarrow> string option \<Rightarrow> string list option \<Rightarrow> string \<Rightarrow> string \<Rightarrow> real option \<Rightarrow> account \<Rightarrow> usage_entry option" where
  "limit_rows w model account_ids l window since a =
     latest_additional_by_key w l window (map acct_id (candidates w model account_ids)) since (acct_id a)"

definition quota_unknown :: "selection_readings \<Rightarrow> string option \<Rightarrow> string list option \<Rightarrow> string \<Rightarrow> account \<Rightarrow> bool" where
  "quota_unknown w model account_ids l a \<longleftrightarrow>
     (\<forall>window \<in> {''primary'', ''secondary''}. limit_rows w model account_ids l window None a = None) \<or>
     (\<exists>window \<in> {''primary'', ''secondary''}. limit_rows w model account_ids l window None a \<noteq> None \<and>
        limit_rows w model account_ids l window (Some (additional_usage_fresh_since w)) a = None)"

definition quota_spent :: "selection_readings \<Rightarrow> string option \<Rightarrow> string list option \<Rightarrow> string \<Rightarrow> account \<Rightarrow> bool" where
  "quota_spent w model account_ids l a \<longleftrightarrow>
     (\<exists>window \<in> {''primary'', ''secondary''}. \<exists>e. limit_rows w model account_ids l window (Some (additional_usage_fresh_since w)) a = Some e \<and>
        additional_usage_is_exhausted w e)"

definition quota_matters :: "selection_readings \<Rightarrow> string option \<Rightarrow> string \<Rightarrow> account \<Rightarrow> bool" where
  "quota_matters w additional_limit_name l a \<longleftrightarrow>
     additional_limit_name \<noteq> None \<or> additional_quota_applies_to_plan (sr_quota_maps w) (Some l) (Some (acct_plan_type a))"

lemma verdict_unknown:
  "quota_verdict w model additional_limit_name account_ids a = Data_unavailable \<longleftrightarrow>
     (\<exists>l. nonempty_str (effective_limit_name w model additional_limit_name) = Some l \<and> quota_matters w additional_limit_name l a \<and>
        quota_unknown w model account_ids l a)"
  by (cases "nonempty_str (effective_limit_name w model additional_limit_name)")
    (auto simp: quota_verdict_def additional_quota_eligibility_def read_additional_rows_def Let_def quota_matters_def quota_unknown_def limit_rows_def
      split: option.splits)

lemma verdict_eligible:
  "quota_verdict w model additional_limit_name account_ids a = Eligible \<longleftrightarrow>
     (\<nexists>l. (nonempty_str (effective_limit_name w model additional_limit_name) = Some l \<and> quota_matters w additional_limit_name l a) \<and>
        (quota_unknown w model account_ids l a \<or> quota_spent w model account_ids l a))"
  by (cases "nonempty_str (effective_limit_name w model additional_limit_name)")
    (auto simp: quota_verdict_def additional_quota_eligibility_def read_additional_rows_def Let_def quota_matters_def quota_unknown_def quota_spent_def
      limit_rows_def split: option.splits)

text \<open>
  C10: The balancer chooses from exactly the accounts that may serve the request: those that are neither paused, deactivated nor
  waiting for a new login and that the API key may use (reachable), whose plan is one the registry allows for the model
  (candidates), and that pass the additional quota of the request or of the model, if there is one. A candidate whose plan is
  exempt from the quota of a model passes without quota data; every other one, and every one when the request names the quota
  itself, passes when its quota data is there, is fresh and shows no exhausted window. When none is left the error code
  says why: with candidates, and with or without a model, that the data of a metered one is missing or stale, or else
  that the quota is exhausted; without candidates, that no plan supports the model, if there is a model and a reachable account.
  In all other cases there is no error code.
\<close>

theorem selection_inputs_are_the_eligible_accounts:
  "let si = read_selection_inputs w model additional_limit_name account_ids;
       reach = filter (reachable_account account_ids) (sr_all_accounts w);
       cands = filter (supports_model w model) reach;
       limit = nonempty_str (effective_limit_name w model additional_limit_name);
       metered = (\<lambda>a l. limit = Some l \<and> quota_matters w additional_limit_name l a)
   in si_accounts si =
        filter (\<lambda>a. \<nexists>l. metered a l \<and> (quota_unknown w model account_ids l a \<or> quota_spent w model account_ids l a)) cands \<and>
      si_error_code si =
        (if si_accounts si \<noteq> [] then None
         else if cands \<noteq> []
         then Some (if \<exists>a \<in> set cands. \<exists>l. metered a l \<and> quota_unknown w model account_ids l a
           then ''additional_quota_data_unavailable'' else ''quota_exhausted'')
         else if nonempty_str model \<noteq> None \<and> reach \<noteq> [] then Some ''no_plan_support_for_model'' else None)"
proof -
  let ?si = "read_selection_inputs w model additional_limit_name account_ids"
  have cands: "filter (supports_model w model) (filter (reachable_account account_ids) (sr_all_accounts w)) = candidates w model account_ids"
    by (simp add: candidates_def conj_commute)
  have "si_error_code ?si = None" if "si_accounts ?si \<noteq> []"
    using that by (auto simp: read_selection_inputs_candidates Let_def split: option.splits if_splits)
  then show ?thesis
    unfolding Let_def cands using read_accounts [of w model additional_limit_name account_ids] read_error [of w model additional_limit_name account_ids]
    by (cases "si_accounts ?si = []") (simp_all add: verdict_eligible verdict_unknown imp_conjL conj_assoc)
qed

section \<open>Cached inputs keep to the accounts they were asked for\<close>

definition inputs_within :: "string list option \<Rightarrow> selection_inputs \<Rightarrow> bool" where
  "inputs_within account_ids si \<longleftrightarrow> (\<forall>a \<in> set (si_accounts si). reachable_account account_ids a)"

definition cache_scoped :: "(inputs_key, selection_inputs) selection_cache \<Rightarrow> bool" where
  "cache_scoped c \<longleftrightarrow> (\<forall>(key, si, e) \<in> set (sc_entries c). inputs_within (snd (snd (snd key))) si)"

lemma read_within: "inputs_within account_ids (read_selection_inputs w model additional_limit_name account_ids)"
  by (simp add: inputs_within_def read_accounts candidates_def)

lemma within_sorted: "inputs_within (map_option (\<lambda>ids. sort (remdups ids)) account_ids) si \<longleftrightarrow> inputs_within account_ids si"
  by (cases account_ids) (simp_all add: inputs_within_def reachable_account_def)

lemma cache_scoped_get: "cache_scoped c \<Longrightarrow> cache_get t key c = Some si \<Longrightarrow> inputs_within (snd (snd (snd key))) si"
  by (auto simp: cache_scoped_def cache_get_def split: if_splits option.splits dest!: map_of_SomeD)

lemma cache_scoped_set: "cache_scoped c \<Longrightarrow> inputs_within (snd (snd (snd key))) si \<Longrightarrow> cache_scoped (cache_set t si key g c)"
  by (auto simp: cache_scoped_def cache_set_def dest!: set_update_cases)

lemma cached_within:
  assumes "cache_scoped c" and "\<And>c. cache_scoped c \<Longrightarrow> cache_scoped (meanwhile c)"
    and "cached_selection_inputs dumps w model additional_limit_name account_ids t_get t_set meanwhile c = (c', si)"
  shows "cache_scoped c' \<and> inputs_within account_ids si"
proof -
  let ?key = "inputs_key_of dumps w model additional_limit_name account_ids"
  have key: "snd (snd (snd ?key)) = map_option (\<lambda>ids. sort (remdups ids)) account_ids" by (simp add: inputs_key_of_def)
  show ?thesis
    using assms cache_scoped_get [OF assms(1), of t_get ?key] cache_scoped_set [OF assms(2) [OF assms(1)], of ?key]
    by (auto simp: cached_selection_inputs_def Let_def key within_sorted read_within split: option.splits)
qed

end
