(* ===== verification/Scoped_Selection.thy ===== *)
theory Scoped_Selection
  imports Selection_Inputs
begin

text \<open>
  The balancer answers with an account of the inputs it loaded (\<open>LoadBalancer.select_account\<close> with \<open>_load_selection_inputs\<close>), whatever
  other requests do to the shared state while it waits, as long as they keep the cached inputs within the accounts they are cached for.
\<close>

section \<open>An attempt answers from its inputs\<close>

abbreviation input_ids :: "selection_inputs \<Rightarrow> string set" where
  "input_ids si \<equiv> acct_id ` set (si_accounts si)"

abbreviation cache_of :: "('k, 'd) shared \<Rightarrow> ('k, 'd) selection_cache" where
  "cache_of sh \<equiv> lb_cache (fst sh)"

lemma build_states_accounts:
  "build_states cfg clk ui accounts rts = (rts', Inr (states, account_map)) \<Longrightarrow> map_of account_map j = Some a \<Longrightarrow>
   a \<in> set accounts \<and> acct_id a = j"
proof (induction accounts arbitrary: rts rts' states account_map)
  case (Cons account accounts)
  then show ?case
    by (auto simp: Let_def split: sum.splits prod.splits option.splits if_splits) blast+
qed auto

lemma settle_from_accounts:
  assumes "settle_selection claim rq clk account_map states result code hard rts = (rts', out)" and "ao_snapshot out = Some snap"
    and "\<And>j a. map_of account_map j = Some a \<Longrightarrow> acct_id a \<in> I"
  shows "acct_id snap \<in> I"
  using assms by (auto simp: settle_selection_def failed_attempt_def Let_def split: option.splits prod.splits)

definition outcome_within :: "string set \<Rightarrow> py_error + attempt_outcome \<Rightarrow> bool" where
  "outcome_within I res \<longleftrightarrow> (\<forall>out snap. res = Inr out \<longrightarrow> ao_snapshot out = Some snap \<longrightarrow> acct_id snap \<in> I)"

lemma plain_attempt_within: "outcome_within (input_ids si) (snd (plain_attempt cfg scfg rq ev k si sh))"
proof -
  obtain rts built where p: "prepare_states cfg scfg (ev_clock ev k) si (runtime_of sh) = (rts, built)" by fastforce
  show ?thesis
  proof (cases built)
    case (Inr b)
    obtain states account_map where b: "b = (states, account_map)" by fastforce
    have "acct_id a \<in> input_ids si" if "map_of account_map j = Some a" for j a
      using build_states_accounts p Inr b that unfolding prepare_states_def by blast
    then have settle: "acct_id snap \<in> input_ids si"
      if "settle_selection claim rq clk account_map states' result code hard rts' = (rts'', out)" "ao_snapshot out = Some snap"
      for claim clk states' result code hard rts' rts'' out snap
      using settle_from_accounts [OF that] by blast
    obtain states' sres code where u: "select_under_caps cfg rq (ev_clock ev k) states = (states', sres, code)" by (metis prod_cases3)
    show ?thesis
      using settle by (cases sres) (auto simp: outcome_within_def plain_attempt_def locked_selection_def p Inr b u map_prod_def split: prod.splits)
  qed (simp add: outcome_within_def plain_attempt_def locked_selection_def p)
qed

lemma sticky_attempt_within: "outcome_within (input_ids si) (snd (sticky_attempt cfg scfg rq ev k si sh))"
proof -
  obtain rts built where p: "prepare_states cfg scfg (ev_clock ev k) si (runtime_of sh) = (rts, built)" by fastforce
  show ?thesis
  proof (cases built)
    case (Inr b)
    obtain states account_map where b: "b = (states, account_map)" by fastforce
    have "acct_id a \<in> input_ids si" if "map_of account_map j = Some a" for j a
      using build_states_accounts p Inr b that unfolding prepare_states_def by blast
    then have settle: "acct_id snap \<in> input_ids si"
      if "settle_selection claim rq clk account_map states' result code hard rts' = (rts'', out)" "ao_snapshot out = Some snap"
      for claim clk states' result code hard rts' rts'' out snap
      using settle_from_accounts [OF that] by blast
    show ?thesis
      using settle by (auto simp: outcome_within_def sticky_attempt_def Let_def p Inr b split: prod.splits sum.splits)
  qed (simp add: outcome_within_def sticky_attempt_def Let_def p)
qed

section \<open>The loop answers from what it loads\<close>

text \<open>Other requests keep a property of the cache; a load keeps it too and yields accounts of \<open>I\<close>.\<close>

definition keeps_scope :: "(('k, 'd) selection_cache \<Rightarrow> bool) \<Rightarrow> string set \<Rightarrow> ('k, 'd) routing_env \<Rightarrow> bool" where
  "keeps_scope J I ev \<longleftrightarrow>
     (\<forall>k p sh. J (cache_of sh) \<longrightarrow> J (cache_of (ev_await ev k p sh))) \<and>
     (\<forall>k sh. J (cache_of sh) \<longrightarrow> J (cache_of (fst (ev_load ev k sh))) \<and> input_ids (snd (ev_load ev k sh)) \<subseteq> I)"

lemma keeps_await: "keeps_scope J I ev \<Longrightarrow> J (cache_of sh) \<Longrightarrow> J (cache_of (ev_await ev k p sh))"
  and keeps_load: "keeps_scope J I ev \<Longrightarrow> J (cache_of sh) \<Longrightarrow> J (cache_of (fst (ev_load ev k sh))) \<and> input_ids (snd (ev_load ev k sh)) \<subseteq> I"
  unfolding keeps_scope_def by blast+

lemma plain_attempt_cache: "cache_of (fst (plain_attempt cfg scfg rq ev k si sh)) = cache_of sh"
  by (simp add: plain_attempt_def split: prod.split)

lemma sticky_attempt_cache:
  assumes "keeps_scope J I ev" and "J (cache_of sh)"
  shows "J (cache_of (fst (sticky_attempt cfg scfg rq ev k si sh)))"
  using assms(2) keeps_await [OF assms(1)]
  by (auto simp: sticky_attempt_def Let_def split: prod.split sum.split)

locale scoped_attempts =
  fixes run :: "lease_settings \<Rightarrow> state_settings \<Rightarrow> routing_request \<Rightarrow> ('k, 'd) routing_env \<Rightarrow> nat \<Rightarrow> selection_inputs
      \<Rightarrow> ('k, 'd) shared \<Rightarrow> ('k, 'd) shared \<times> (py_error + attempt_outcome)"
  assumes run_within: "outcome_within (input_ids si) (snd (run cfg scfg rq ev k si sh))"
    and run_keeps: "keeps_scope J I ev \<Longrightarrow> J (cache_of sh) \<Longrightarrow> J (cache_of (fst (run cfg scfg rq ev k si sh)))"

interpretation plain_scoped: scoped_attempts plain_attempt
  by unfold_locales (simp_all add: plain_attempt_within plain_attempt_cache)

interpretation sticky_scoped: scoped_attempts sticky_attempt
  by unfold_locales (simp_all add: sticky_attempt_within sticky_attempt_cache)

lemma persist_keeps:
  assumes "keeps_scope J I ev" and "J (cache_of sh)"
  shows "J (cache_of (fst (persist_attempt ev k out sh)))"
proof -
  obtain lb sticky where b: "ev_await ev k BeforePersist sh = (lb, sticky)" by fastforce
  have "J (lb_cache lb)" using keeps_await [OF assms, of k BeforePersist] b by simp
  then have "J (cache_of (ev_await ev k AfterPersist (lb\<lparr>lb_accounts := tbl\<rparr>, sticky)))" for tbl
    by (intro keeps_await [OF assms(1)]) simp
  then show ?thesis by (simp add: persist_attempt_def Let_def b split: prod.split)
qed

lemma give_back_cache [simp]: "cache_of (give_back out sh) = cache_of sh"
  by (simp add: give_back_def)

lemma restrict_ids: "input_ids (restrict_inputs s x si) \<subseteq> input_ids si"
  by (auto simp: restrict_inputs_def no_security_work_accounts_def Let_def)

lemma load_scoped:
  "keeps_scope J I ev \<Longrightarrow> J (cache_of sh) \<Longrightarrow> J (cache_of (fst (load_selection_inputs rq ev k sh))) \<and> input_ids (snd (load_selection_inputs rq ev k sh)) \<subseteq> I"
  using restrict_ids [of "rq_require_security_work_authorized rq" "rq_excluded_ids rq" "snd (ev_load ev k sh)"] keeps_load [of J I ev sh k]
  unfolding load_selection_inputs_def by (cases "ev_load ev k sh") force

definition answer_within :: "string set \<Rightarrow> py_error + account_selection + attempt_outcome \<Rightarrow> bool" where
  "answer_within I res \<longleftrightarrow>
     (case res of
        Inl err \<Rightarrow> True
      | Inr (Inl answer) \<Rightarrow> as_account answer = None
      | Inr (Inr out) \<Rightarrow> (\<forall>snap. ao_snapshot out = Some snap \<longrightarrow> acct_id snap \<in> I))"

context scoped_attempts begin

lemma loop_within:
  assumes scope: "keeps_scope J I ev" and "J (cache_of sh)" and "input_ids si \<subseteq> I"
  shows "J (cache_of (fst (selection_loop (run cfg scfg rq ev) verdict rq ev k si sh))) \<and>
    answer_within I (snd (selection_loop (run cfg scfg rq ev) verdict rq ev k si sh))"
  using assms(2,3)
proof (induction "4 - k" arbitrary: k si sh rule: less_induct)
  case (less k si sh)
  obtain sh1 res where r: "run cfg scfg rq ev k si sh = (sh1, res)" by fastforce
  have J1: "J (cache_of sh1)" using run_keeps [OF scope less.prems(1), of cfg scfg rq k si] r by simp
  show ?case
  proof (cases res)
    case (Inl err)
    with r J1 show ?thesis by (subst (1 2) selection_loop.simps) (simp add: answer_within_def)
  next
    case (Inr out)
    have out: "\<forall>snap. ao_snapshot out = Some snap \<longrightarrow> acct_id snap \<in> I"
      using run_within [of si cfg scfg rq ev k sh] less.prems(2) by (auto simp: r Inr outcome_within_def)
    obtain sh2 pres where p: "persist_attempt ev k out sh1 = (sh2, pres)" by fastforce
    have J2: "J (cache_of sh2)" using persist_keeps [OF scope J1, of k out] p by simp
    obtain sh3 si' where ld: "load_selection_inputs rq ev k (give_back out sh2) = (sh3, si')" by fastforce
    have J3: "J (cache_of sh3)" "input_ids si' \<subseteq> I"
      using load_scoped [OF scope, of "give_back out sh2" rq k] J2 ld by simp_all
    have again: "J (cache_of (fst (selection_loop (run cfg scfg rq ev) verdict rq ev (Suc k) si' sh3))) \<and>
        answer_within I (snd (selection_loop (run cfg scfg rq ev) verdict rq ev (Suc k) si' sh3))" if "k < 4"
      by (rule less.hyps) (use that J3 in auto)
    have none: "inputs_error si' = Some answer \<Longrightarrow> as_account answer = None" for answer
      by (auto simp: inputs_error_def split: if_splits)
    show ?thesis
      using J2 J3(1) out again none
      by (subst (1 2) selection_loop.simps)
        (auto simp: r Inr p ld answer_within_def split: sum.split verdict_after.split option.split)
  qed
qed

end

text \<open>What the balancer answers is an account of \<open>I\<close>, and the property of the cache holds again.\<close>

lemma lb_select_within:
  assumes scope: "keeps_scope J I ev" and "J (cache_of sh)"
    and run: "lb_select_account cfg scfg rq ev breaker sh dm = (sh', dm', res)"
  shows "J (cache_of sh') \<and> (\<forall>answer a. res = Inr answer \<longrightarrow> as_account answer = Some a \<longrightarrow> acct_id a \<in> I)"
proof -
  obtain sh1 si where ld: "load_selection_inputs rq ev 0 sh = (sh1, si)" by fastforce
  have L: "J (cache_of sh1)" "input_ids si \<subseteq> I" using load_scoped [OF scope assms(2), of rq 0] ld by simp_all
  obtain sh2 r where loop: "select_by_session cfg scfg rq ev si sh1 = (sh2, r)" by fastforce
  have W: "J (cache_of sh2) \<and> answer_within I r"
    using plain_scoped.loop_within [OF scope L, of cfg scfg rq plain_verdict 1] sticky_scoped.loop_within [OF scope L, of cfg scfg rq sticky_verdict 1] loop
    by (auto simp: select_by_session_def split: if_splits)
  show ?thesis
  proof (cases "inputs_error si")
    case (Some answer)
    with run ld L show ?thesis by (auto simp: lb_select_account_def Let_def inputs_error_def split: if_splits)
  next
    case None
    show ?thesis
      using run W
      by (auto simp: lb_select_account_def ld None loop Let_def answer_within_def final_answer_def split: sum.splits prod.splits option.splits if_splits)
  qed
qed

end
