(* ===== verification/Files_Routing.thy ===== *)
theory Files_Routing
  imports Unary_Failover Scoped_Selection
begin

text \<open>
  The files endpoints on the balancer: \<open>_proxy_files_call\<close> with \<open>LoadBalancer.select_account\<close> behind the selection of accounts, so that a
  request is followed from the API key's accounts through the cached inputs, the choice, the failover and the reports.

  While a request waits, other requests may change the balancer, the rows, the sessions and the rest of the world as they like; what they
  do to the cache of inputs is what the program does to it: invalidate it, or enter inputs they have read.
\<close>

section \<open>What other requests do to the cache\<close>

datatype cache_visit =
    InvalidateInputs
  | StoreInputs selection_readings "string option" "string option" "string list option" real int

fun visit :: "((string \<times> string) list \<Rightarrow> string) \<Rightarrow> cache_visit \<Rightarrow> (inputs_key, selection_inputs) selection_cache \<Rightarrow> (inputs_key, selection_inputs) selection_cache" where
  "visit dumps InvalidateInputs c = cache_invalidate c"
| "visit dumps (StoreInputs w model additional_limit_name account_ids t g) c =
     cache_set t (read_selection_inputs w model additional_limit_name account_ids) (inputs_key_of dumps w model additional_limit_name account_ids) (Some g) c"

interpretation inputs_cache: machine "visit dumps" cache_scoped for dumps
proof
  fix c and op :: cache_visit
  assume "cache_scoped c"
  then show "cache_scoped (visit dumps op c)"
    by (cases op) (auto simp: inputs_key_of_def within_sorted read_within intro!: cache_scoped_set, simp add: cache_scoped_def cache_invalidate_def)
qed

definition with_cache :: "('k, 'd) selection_cache \<Rightarrow> ('k, 'd) shared \<Rightarrow> ('k, 'd) shared" where
  "with_cache c sh = ((fst sh)\<lparr>lb_cache := c\<rparr>, snd sh)"

lemma cache_with_cache [simp]: "cache_of (with_cache c sh) = c"
  by (simp add: with_cache_def)

section \<open>The balancer behind a request\<close>

type_synonym 'x routed_world = "(inputs_key, selection_inputs) shared \<times> degradation_manager \<times> 'x"

record 'x balancer_setup =
  bl_lease :: lease_settings
  bl_state :: state_settings
  bl_dumps :: "(string \<times> string) list \<Rightarrow> string"
  bl_request :: "'x \<Rightarrow> routing_request"
  bl_env :: "'x \<Rightarrow> (inputs_key, selection_inputs) routing_env"
  bl_readings :: "'x \<Rightarrow> nat \<Rightarrow> selection_readings"
  bl_cache_times :: "'x \<Rightarrow> nat \<Rightarrow> real \<times> real"
  bl_visits :: "'x \<Rightarrow> nat \<Rightarrow> await_point option \<Rightarrow> cache_visit list" \<comment> \<open>\<open>None\<close>: while the inputs are read\<close>
  bl_breaker :: "'x \<Rightarrow> bool"
  bl_cancelled :: "select_request \<Rightarrow> 'x routed_world \<Rightarrow> ('x routed_world \<times> cache_visit list) option"
  bl_after :: "'x \<Rightarrow> 'x"

text \<open>The environment of one selection: the inputs are those of \<open>_load_selection_inputs\<close>, without a model, for the given accounts.\<close>

definition files_env :: "'x balancer_setup \<Rightarrow> 'x \<Rightarrow> string list option \<Rightarrow> (inputs_key, selection_inputs) routing_env" where
  "files_env st x account_ids =
     (bl_env st x)\<lparr>
       ev_await := (\<lambda>k p sh. with_cache (fold (visit (bl_dumps st)) (bl_visits st x k (Some p)) (cache_of sh)) (ev_await (bl_env st x) k p sh)),
       ev_load := (\<lambda>k sh.
         let (t_get, t_set) = bl_cache_times st x k;
             (c, si) = cached_selection_inputs (bl_dumps st) (bl_readings st x k) None None account_ids t_get t_set
               (fold (visit (bl_dumps st)) (bl_visits st x k None)) (cache_of sh)
         in (with_cache c (fst (ev_load (bl_env st x) k sh)), si))\<rparr>"

definition pick_of :: "account_selection \<Rightarrow> account_pick" where
  "pick_of answer = \<lparr>pick_account = map_option acct_id (as_account answer), pick_error_code = as_error_code answer, pick_error_message = as_error_message answer\<rparr>"

text \<open>A selection that is cancelled when the budget runs out leaves what it has changed by then.\<close>

definition balancer_select :: "'x balancer_setup \<Rightarrow> select_request \<Rightarrow> 'x routed_world \<Rightarrow> (py_error option + account_pick) \<times> 'x routed_world" where
  "balancer_select st req w =
     (case bl_cancelled st req w of
        Some ((sh, dm, x), visits) \<Rightarrow> (Inl None, with_cache (fold (visit (bl_dumps st)) visits (cache_of (fst w))) sh, dm, x)
      | None \<Rightarrow>
          (case w of (sh, dm, x) \<Rightarrow>
            (case lb_select_account (bl_lease st) (bl_state st) ((bl_request st x)\<lparr>rq_excluded_ids := sr_exclude req, rq_lease_kind := None\<rparr>)
                    (files_env st x (sr_account_ids req)) (bl_breaker st x) sh dm of
               (sh', dm', res) \<Rightarrow> (map_sum Some pick_of res, sh', dm', bl_after st x))))"

text \<open>Any other awaited operation, with what other requests do to the cache meanwhile.\<close>

definition amid :: "((string \<times> string) list \<Rightarrow> string) \<Rightarrow> ('x routed_world \<Rightarrow> cache_visit list) \<Rightarrow> ('x routed_world \<Rightarrow> 'a \<times> 'x routed_world)
    \<Rightarrow> 'x routed_world \<Rightarrow> 'a \<times> 'x routed_world" where
  "amid dumps visits f w =
     (case f w of (r, sh, dm, x) \<Rightarrow> (r, with_cache (fold (visit dumps) (visits w) (cache_of (fst w))) sh, dm, x))"

definition routed_env :: "'x balancer_setup \<Rightarrow> ('x routed_world \<Rightarrow> cache_visit list) \<Rightarrow> ('x routed_world, 'r) unary_env \<Rightarrow> ('x routed_world, 'r) unary_env" where
  "routed_env st visits e =
     \<lparr>ue_clock = amid (bl_dumps st) visits (ue_clock e),
      ue_select = balancer_select st,
      ue_fresh = (\<lambda>account force timeout. amid (bl_dumps st) visits (ue_fresh e account force timeout)),
      ue_route = (\<lambda>account. amid (bl_dumps st) visits (ue_route e account)),
      ue_invoke = (\<lambda>account timeout. amid (bl_dumps st) visits (ue_invoke e account timeout))\<rparr>"

section \<open>The balancer keeps to the accounts it is asked for\<close>

abbreviation world_scoped :: "'x routed_world \<Rightarrow> bool" where
  "world_scoped w \<equiv> cache_scoped (cache_of (fst w))"

lemma in_scope_reachable: "inputs_within account_ids si \<Longrightarrow> input_ids si \<subseteq> {i. in_scope account_ids i}"
  by (cases account_ids) (auto simp: inputs_within_def reachable_account_def in_scope_def)

lemma files_env_keeps: "keeps_scope cache_scoped {i. in_scope account_ids i} (files_env st x account_ids)"
proof -
  have "cache_scoped (cache_of (fst (ev_load (files_env st x account_ids) k sh))) \<and>
      input_ids (snd (ev_load (files_env st x account_ids) k sh)) \<subseteq> {i. in_scope account_ids i}" if "cache_scoped (cache_of sh)" for k sh
  proof -
    obtain t_get t_set where t: "bl_cache_times st x k = (t_get, t_set)" by fastforce
    obtain c si where c: "cached_selection_inputs (bl_dumps st) (bl_readings st x k) None None account_ids t_get t_set
        (fold (visit (bl_dumps st)) (bl_visits st x k None)) (cache_of sh) = (c, si)" by fastforce
    have "cache_scoped c \<and> inputs_within account_ids si"
      using inputs_cache.invar_run by (intro cached_within [OF that _ c]) blast
    then show ?thesis using in_scope_reachable by (simp add: files_env_def t c)
  qed
  moreover have "cache_scoped (cache_of (ev_await (files_env st x account_ids) k p sh))" if "cache_scoped (cache_of sh)" for k p sh
    using inputs_cache.invar_run [OF that] by (simp add: files_env_def)
  ultimately show ?thesis unfolding keeps_scope_def by blast
qed

lemma amid_scoped: "world_scoped w \<Longrightarrow> world_scoped (snd (amid dumps visits f w))"
  by (auto simp: amid_def inputs_cache.invar_run split: prod.split)

lemma balancer_select_scoped:
  assumes "world_scoped w"
  shows "world_scoped (snd (balancer_select st req w))"
    and "fst (balancer_select st req w) = Inr sel \<Longrightarrow> pick_account sel = Some a \<Longrightarrow> in_scope (sr_account_ids req) a"
proof -
  obtain sh dm x where w: "w = (sh, dm, x)" by (metis prod_cases3)
  obtain sh' dm' res where run: "lb_select_account (bl_lease st) (bl_state st) ((bl_request st x)\<lparr>rq_excluded_ids := sr_exclude req, rq_lease_kind := None\<rparr>)
      (files_env st x (sr_account_ids req)) (bl_breaker st x) sh dm = (sh', dm', res)" by (metis prod_cases3)
  have L: "cache_scoped (cache_of sh') \<and> (\<forall>answer a. res = Inr answer \<longrightarrow> as_account answer = Some a \<longrightarrow> acct_id a \<in> {i. in_scope (sr_account_ids req) i})"
    using lb_select_within [OF files_env_keeps _ run] assms w by simp
  show "world_scoped (snd (balancer_select st req w))"
    using L assms by (auto simp: balancer_select_def w run inputs_cache.invar_run split: option.split prod.split)
  show "in_scope (sr_account_ids req) a" if "fst (balancer_select st req w) = Inr sel" "pick_account sel = Some a"
    using that L by (cases res) (auto simp: balancer_select_def w run pick_of_def split: option.splits prod.splits)
qed

interpretation routed: unary_accounts "routed_env st visits e" world_scoped for st visits e
  by unfold_locales (simp_all add: routed_env_def amid_scoped balancer_select_scoped)

text \<open>
  C5: A request to the files endpoints keeps to its accounts, from the selection through failover and reports. Every upstream call, every success
  and every failure reported to the balancer concerns an account assigned to the API key (when its scope is enabled) and, when the file is pinned,
  no account but the owner's. There are at most three upstream calls, and a request that succeeds ends with the success of the very
  account it names to the caller. This holds through cached inputs and whatever other requests do meanwhile, from any state in which the cached inputs
  are within the accounts they are cached for, and such a state is left behind.
\<close>

theorem files_call_keeps_to_its_accounts:
  assumes "cache_scoped (lb_cache (fst (fst w)))"
    and "proxy_files_call (routed_env st visits e) rs deadline scope preferred \<lparr>us_world = w, us_log = []\<rparr> = (r, s)"
  shows "(\<forall>ev \<in> set (us_log s).
        (case scope of None \<Rightarrow> True | Some ids \<Rightarrow> event_account ev \<in> set ids) \<and> (preferred = None \<or> preferred = Some (event_account ev))) \<and>
    length (filter is_upstream (us_log s)) \<le> 3 \<and>
    (\<forall>result a. r = Inr (result, a) \<longrightarrow> us_log s \<noteq> [] \<and> last (us_log s) = RecordSuccess a) \<and>
    cache_scoped (lb_cache (fst (fst (us_world s))))"
proof -
  have t: "touches world_scoped (files_allowed scope preferred) 3 (proxy_files_call (routed_env st visits e) rs deadline scope preferred)
      (\<lambda>x. files_allowed scope preferred (snd x))"
    by (rule routed.touches_proxy_files_call)
  have "cache_scoped (lb_cache (fst (fst (us_world s)))) \<and> list_all (\<lambda>ev. files_allowed scope preferred (event_account ev)) (us_log s) \<and>
      length (filter is_upstream (us_log s)) \<le> 3"
    using t [unfolded touches_def, rule_format, of "\<lparr>us_world = w, us_log = []\<rparr>"] assms by simp
  moreover have "us_log s \<noteq> [] \<and> last (us_log s) = RecordSuccess a" if "r = Inr (result, a)" for result a
    using credited_proxy_files_call [of "routed_env st visits e" rs deadline scope preferred] assms(2) that unfolding credited_def by fastforce
  ultimately show ?thesis by (auto simp: list_all_iff files_allowed_def in_scope_def)
qed

section \<open>An example\<close>

definition files_row :: "string \<Rightarrow> account" where
  "files_row i = \<lparr>acct_id = i, acct_plan_type = ''plus'', acct_routing_policy = ''normal'', acct_status = ACTIVE, acct_deactivation_reason = None,
     acct_reset_at = None, acct_blocked_at = None, acct_security_work_authorized = False\<rparr>"

definition files_readings :: selection_readings where
  "files_readings =
     \<lparr>sr_all_accounts = [files_row ''a'', files_row ''b''], sr_primary = Map.empty, sr_secondary = Map.empty, sr_monthly = Map.empty,
      sr_additional = (\<lambda>_ _ _ _. Map.empty), sr_quota_maps = no_quota_maps,
      sr_registry = \<lparr>mr_ttl_seconds = 300, mr_snapshot = None, mr_bootstrap_models = []\<rparr>,
      sr_policies_setting = None, sr_utcnow = 100, sr_time = (\<lambda>_. 100), sr_refresh_interval = 60\<rparr>"

definition files_setup :: "nat balancer_setup" where
  "files_setup =
     \<lparr>bl_lease = example_lease_settings, bl_state = example_state_settings, bl_dumps = (\<lambda>_. ''{}''),
      bl_request = (\<lambda>_. example_routing_request\<lparr>rq_sticky := example_sticky_req\<lparr>sr_key := None\<rparr>\<rparr>),
      bl_env = (\<lambda>_. \<lparr>ev_clock = ev_clock example_env_of_routing, ev_sticky_clock = ev_sticky_clock example_env_of_routing,
        ev_await = (\<lambda>_ _ sh. sh), ev_load = (\<lambda>_ sh. (sh, read_selection_inputs files_readings None None None)), ev_persist_fails = (\<lambda>_. None)\<rparr>),
      bl_readings = (\<lambda>_ _. files_readings), bl_cache_times = (\<lambda>_ _. (100, 100)), bl_visits = (\<lambda>_ _ _. []), bl_breaker = (\<lambda>_. False),
      bl_cancelled = (\<lambda>_ _. None), bl_after = Suc\<rparr>"

text \<open>The upstream refuses the token of the first call.\<close>

definition files_upstream :: "(nat routed_world, nat) unary_env" where
  "files_upstream =
     \<lparr>ue_clock = (\<lambda>w. (0, w)), ue_select = (\<lambda>_ w. (Inl None, w)), ue_fresh = (\<lambda>_ _ _ w. (Inr (), w)), ue_route = (\<lambda>_ w. (Inr (), w)),
      ue_invoke = (\<lambda>_ _ (sh, dm, n). (if n = 1 then Inl (invalid_api_key ''expired'') else Inr n, sh, dm, Suc n))\<rparr>"

definition files_start :: "nat routed_world" where
  "files_start =
     ((\<lparr>lb_runtime = [], lb_accounts = [(''a'', files_row ''a''), (''b'', files_row ''b'')],
        lb_cache = \<lparr>sc_ttl_seconds = 5, sc_entries = [], sc_generation = 0\<rparr>\<rparr>, []), DegradationManager, 0)"

text \<open>The token of the first call is refused, refreshed by force, and the second call succeeds on the same account.\<close>

definition files_run :: "(unary_failure + nat \<times> string) \<times> nat routed_world unary_state" where
  "files_run = proxy_files_call (routed_env files_setup (\<lambda>_. []) files_upstream) \<lparr>rs_single_account = False, rs_single_account_id = []\<rparr> 100
     (Some [''b'', ''c'']) None \<lparr>us_world = files_start, us_log = []\<rparr>"

lemma files_run_outcome: "map_prod id us_log files_run = (Inr (2, ''b''), [Upstream ''b'', Upstream ''b'', RecordSuccess ''b''])"
  by code_simp

lemma files_run_result: "fst files_run = Inr (2, ''b'')" "us_log (snd files_run) = [Upstream ''b'', Upstream ''b'', RecordSuccess ''b'']"
  using arg_cong [OF files_run_outcome, of fst] arg_cong [OF files_run_outcome, of snd] by (simp_all only: fst_map_prod snd_map_prod fst_conv snd_conv id_apply)

theorem files_call_keeps_to_its_accounts_witness:
  "event_account ` set (us_log (snd files_run)) \<subseteq> {''b'', ''c''} \<and> length (filter is_upstream (us_log (snd files_run))) = 2 \<and>
   last (us_log (snd files_run)) = RecordSuccess ''b''"
proof -
  have "cache_scoped (lb_cache (fst (fst files_start)))" by (simp add: files_start_def cache_scoped_def)
  from files_call_keeps_to_its_accounts [OF this, of files_setup "\<lambda>_. []" files_upstream
      "\<lparr>rs_single_account = False, rs_single_account_id = []\<rparr>" 100 "Some [''b'', ''c'']" None "fst files_run" "snd files_run"]
  show ?thesis by (simp add: files_run_def [symmetric] files_run_result)
qed

end
