(* ===== verification/Request_Input.thy ===== *)
theory Request_Input
  imports Json "HOL-Library.Multiset" "HOL-Library.Sublist"
begin

text \<open>
  The payload of a responses request (\<open>app/core/openai/requests.py\<close>): system and developer messages become instructions,
  interleaved reasoning is taken out of the input, messages of other dialects are rewritten, and the outgoing payload is
  stripped of what the upstream refuses and brought into a canonical order.

  \<^item> A dictionary is an association list: an assignment is \<open>AList.update\<close>, \<open>pop\<close> is \<open>AList.delete\<close>.
  \<^item> A Python \<open>None\<close> and JSON's \<open>null\<close> are the same value, so a \<open>null\<close> part is dropped like one that was refused.
  \<^item> \<open>json.dumps\<close> and \<open>str\<close> on a tool output that has no text are arguments.
\<close>

type_synonym fields = "(string \<times> json) list"

section \<open>Instructions\<close>

text \<open>\<open>d.get(key)\<close> where \<open>null\<close> counts as absent.\<close>

definition field :: "fields \<Rightarrow> string \<Rightarrow> json option" where
  "field kvs key = (case map_of kvs key of Some JNull \<Rightarrow> None | v \<Rightarrow> v)"

definition privileged_role :: "json \<Rightarrow> bool" where
  "privileged_role item = (json_get item ''role'' \<in> {Some (JStr ''system''), Some (JStr ''developer'')})"

fun responses_instruction_content_text :: "json \<Rightarrow> string option" where
  "responses_instruction_content_text (JStr s) = Some s"
| "responses_instruction_content_text (JObj kvs) = json_str (map_of kvs ''text'')"
| "responses_instruction_content_text _ = None"

definition line_feed :: char where
  "line_feed = CHR 0x0A"

definition nonempty_texts :: "string list \<Rightarrow> string list" where
  "nonempty_texts ts = filter (\<lambda>t. t \<noteq> []) ts"

definition split_responses_instruction_item_content :: "fields \<Rightarrow> string \<times> json option" where
  "split_responses_instruction_item_content item =
     (case field item ''content'' of
        None \<Rightarrow> ([], None)
      | Some (JStr s) \<Rightarrow> (s, None)
      | Some (JArr parts) \<Rightarrow>
          (let texts = nonempty_texts (List.map_filter responses_instruction_content_text parts);
               preserved = filter (\<lambda>p. responses_instruction_content_text p = None) parts
           in (join_char line_feed texts, if preserved = [] then None else Some (JArr preserved)))
      | Some content \<Rightarrow>
          (case responses_instruction_content_text content of
             Some t \<Rightarrow> (t, None)
           | None \<Rightarrow> ([], Some content)))"

definition merge_responses_instructions :: "string \<Rightarrow> string list \<Rightarrow> string" where
  "merge_responses_instructions existing extra_parts =
     (let extra = join_char line_feed (nonempty_texts extra_parts)
      in if extra = [] then existing else if existing \<noteq> [] then existing @ line_feed # extra else extra)"

text \<open>What becomes of one item: the items that stay and the text that moves.\<close>

definition move_item :: "json \<Rightarrow> json list \<times> string list" where
  "move_item item =
     (case item of
        JObj kvs \<Rightarrow>
          if privileged_role item
          then (case split_responses_instruction_item_content kvs of (t, preserved) \<Rightarrow>
             (case preserved of
                None \<Rightarrow> []
              | Some content \<Rightarrow> [JObj (AList.update ''content'' content (AList.update ''role'' (JStr ''user'') kvs))],
              if t = [] then [] else [t]))
          else ([item], [])
      | _ \<Rightarrow> ([item], []))"

definition move_items :: "json list \<Rightarrow> json list \<times> string list" where
  "move_items items = (concat (map (fst \<circ> move_item) items), concat (map (snd \<circ> move_item) items))"

fun normalize_responses_input_instructions :: "json \<Rightarrow> json" where
  "normalize_responses_input_instructions (JObj data) =
     (case map_of data ''input'' of
        Some (JArr items) \<Rightarrow>
          if list_ex privileged_role items
          then (case move_items items of (input_items, parts) \<Rightarrow>
             JObj (AList.update ''input'' (JArr input_items)
                (AList.update ''instructions''
                   (JStr (merge_responses_instructions (default (json_str (map_of data ''instructions'')) []) parts)) data)))
          else JObj data
      | _ \<Rightarrow> JObj data)"
| "normalize_responses_input_instructions data = data"

section \<open>Sanitizing the input\<close>

definition INTERLEAVED_REASONING_KEYS :: "string list" where
  "INTERLEAVED_REASONING_KEYS = [''reasoning_content'', ''reasoning_details'', ''tool_calls'', ''function_call'']"

definition INTERLEAVED_REASONING_PART_TYPES :: "string list" where
  "INTERLEAVED_REASONING_PART_TYPES = [''reasoning'', ''reasoning_content'', ''reasoning_details'']"

definition ASSISTANT_TEXT_PART_TYPES :: "string list" where
  "ASSISTANT_TEXT_PART_TYPES = [''text'', ''input_text'', ''output_text'']"

definition TOOL_TEXT_PART_TYPES :: "string list" where
  "TOOL_TEXT_PART_TYPES = [''text'', ''input_text'', ''output_text'', ''refusal'']"

definition reasoning_part :: "fields \<Rightarrow> bool" where
  "reasoning_part kvs = (case json_str (map_of kvs ''type'') of Some t \<Rightarrow> t \<in> set INTERLEAVED_REASONING_PART_TYPES | None \<Rightarrow> False)"

definition without_reasoning_keys :: "fields \<Rightarrow> fields" where
  "without_reasoning_keys kvs = filter (\<lambda>(k, _). k \<notin> set INTERLEAVED_REASONING_KEYS) kvs"

fun sanitize_part :: "json \<Rightarrow> json option" where
  "sanitize_part (JObj kvs) = (if reasoning_part kvs then None else Some (JObj (without_reasoning_keys kvs)))"
| "sanitize_part JNull = None"
| "sanitize_part v = Some v"

fun sanitize_content :: "json \<Rightarrow> json option" where
  "sanitize_content (JArr parts) = Some (JArr (List.map_filter sanitize_part parts))"
| "sanitize_content v = sanitize_part v"

definition sanitize_field :: "string \<times> json \<Rightarrow> (string \<times> json) option" where
  "sanitize_field kv =
     (case kv of (k, v) \<Rightarrow>
        if k \<in> set INTERLEAVED_REASONING_KEYS then None
        else if k = ''content'' then map_option (Pair k) (sanitize_content v) else Some (k, v))"

fun sanitize_interleaved_reasoning_input_item :: "json \<Rightarrow> json option" where
  "sanitize_interleaved_reasoning_input_item (JObj kvs) = Some (JObj (List.map_filter sanitize_field kvs))"
| "sanitize_interleaved_reasoning_input_item JNull = None"
| "sanitize_interleaved_reasoning_input_item v = Some v"

fun extract_text_content_part :: "string list \<Rightarrow> json \<Rightarrow> string option" where
  "extract_text_content_part allowed (JObj kvs) =
     (let part_type = field kvs ''type'';
          text_allowed = (case part_type of None \<Rightarrow> True | Some (JStr t) \<Rightarrow> t \<in> set allowed | Some _ \<Rightarrow> False)
      in case (if text_allowed then json_str (map_of kvs ''text'') else None) of
           Some t \<Rightarrow> Some t
         | None \<Rightarrow> if part_type = Some (JStr ''refusal'') then json_str (map_of kvs ''refusal'') else None)"
| "extract_text_content_part allowed v = None"

definition output_text :: "string \<Rightarrow> json" where
  "output_text s = JObj [(''type'', JStr ''output_text''), (''text'', JStr s)]"

fun normalize_assistant_content_part :: "json \<Rightarrow> json" where
  "normalize_assistant_content_part (JStr s) = output_text s"
| "normalize_assistant_content_part (JObj kvs) =
     (case extract_text_content_part ASSISTANT_TEXT_PART_TYPES (JObj kvs) of Some t \<Rightarrow> output_text t | None \<Rightarrow> JObj kvs)"
| "normalize_assistant_content_part v = v"

fun normalize_assistant_content :: "json \<Rightarrow> json" where
  "normalize_assistant_content (JStr s) = JArr [output_text s]"
| "normalize_assistant_content (JArr parts) = JArr (map normalize_assistant_content_part parts)"
| "normalize_assistant_content (JObj kvs) = JArr [normalize_assistant_content_part (JObj kvs)]"
| "normalize_assistant_content v = v"

text \<open>Dictionaries are compared without regard to the order of their keys.\<close>

fun sort_keys_recursive :: "json \<Rightarrow> json" where
  "sort_keys_recursive (JObj kvs) = JObj (sort_key fst (map (\<lambda>(k, v). (k, sort_keys_recursive v)) kvs))"
| "sort_keys_recursive (JArr xs) = JArr (map sort_keys_recursive xs)"
| "sort_keys_recursive v = v"

definition same_value :: "json \<Rightarrow> json \<Rightarrow> bool" where
  "same_value v w = (sort_keys_recursive v = sort_keys_recursive w)"

definition normalize_assistant_input_item :: "fields \<Rightarrow> json" where
  "normalize_assistant_input_item kvs =
     (case field kvs ''content'' of
        None \<Rightarrow> JObj kvs
      | Some c \<Rightarrow>
          (let n = normalize_assistant_content c in if same_value n c then JObj kvs else JObj (AList.update ''content'' n kvs)))"

definition normalize_tool_output_value :: "(json \<Rightarrow> string) \<Rightarrow> (json \<Rightarrow> string) \<Rightarrow> json option \<Rightarrow> string" where
  "normalize_tool_output_value dumps py_str content =
     (case content of
        None \<Rightarrow> []
      | Some (JStr s) \<Rightarrow> s
      | Some (JArr parts) \<Rightarrow>
          (let texts = List.map_filter (\<lambda>p. case p of JStr s \<Rightarrow> Some s | _ \<Rightarrow> extract_text_content_part TOOL_TEXT_PART_TYPES p) parts
           in if texts \<noteq> [] then concat texts else dumps (JArr parts))
      | Some (JObj kvs) \<Rightarrow>
          (case extract_text_content_part TOOL_TEXT_PART_TYPES (JObj kvs) of Some t \<Rightarrow> t | None \<Rightarrow> dumps (JObj kvs))
      | Some v \<Rightarrow> py_str v)"

definition tool_call_id_of :: "fields \<Rightarrow> string option" where
  "tool_call_id_of kvs =
     (case nonempty_str (json_str (map_of kvs ''tool_call_id'')) of
        Some i \<Rightarrow> Some i
      | None \<Rightarrow>
          (case nonempty_str (json_str (map_of kvs ''toolCallId'')) of
             Some i \<Rightarrow> Some i
           | None \<Rightarrow> nonempty_str (json_str (map_of kvs ''call_id''))))"

definition normalize_tool_input_item :: "(json \<Rightarrow> string) \<Rightarrow> (json \<Rightarrow> string) \<Rightarrow> fields \<Rightarrow> py_error + json" where
  "normalize_tool_input_item dumps py_str kvs =
     (case tool_call_id_of kvs of
        None \<Rightarrow> Inl ValueError
      | Some i \<Rightarrow>
          (let output = (case field kvs ''output'' of None \<Rightarrow> field kvs ''content'' | v \<Rightarrow> v)
           in Inr (JObj [(''type'', JStr ''function_call_output''), (''call_id'', JStr i),
                         (''output'', JStr (normalize_tool_output_value dumps py_str output))])))"

fun normalize_role_input_item :: "(json \<Rightarrow> string) \<Rightarrow> (json \<Rightarrow> string) \<Rightarrow> json \<Rightarrow> py_error + json" where
  "normalize_role_input_item dumps py_str (JObj kvs) =
     (if map_of kvs ''role'' = Some (JStr ''assistant'') then Inr (normalize_assistant_input_item kvs)
      else if map_of kvs ''role'' = Some (JStr ''tool'') then normalize_tool_input_item dumps py_str kvs
      else Inr (JObj kvs))"
| "normalize_role_input_item dumps py_str v = Inr v"

fun sanitize_input_items :: "(json \<Rightarrow> string) \<Rightarrow> (json \<Rightarrow> string) \<Rightarrow> json list \<Rightarrow> py_error + json list" where
  "sanitize_input_items dumps py_str [] = Inr []"
| "sanitize_input_items dumps py_str (item # items) =
     (case sanitize_interleaved_reasoning_input_item item of
        None \<Rightarrow> sanitize_input_items dumps py_str items
      | Some sanitized \<Rightarrow>
          (case normalize_role_input_item dumps py_str sanitized of
             Inl e \<Rightarrow> Inl e
           | Inr v \<Rightarrow> map_sum id ((#) v) (sanitize_input_items dumps py_str items)))"

definition normalize_input_text :: "string \<Rightarrow> json list" where
  "normalize_input_text s =
     [JObj [(''role'', JStr ''user''), (''content'', JArr [JObj [(''type'', JStr ''input_text''), (''text'', JStr s)]])]]"

text \<open>The validator of the \<open>input\<close> field.\<close>

fun validate_input_type :: "(json \<Rightarrow> string) \<Rightarrow> (json \<Rightarrow> string) \<Rightarrow> json \<Rightarrow> py_error + json list" where
  "validate_input_type dumps py_str (JStr s) = sanitize_input_items dumps py_str (normalize_input_text s)"
| "validate_input_type dumps py_str (JArr items) = sanitize_input_items dumps py_str items"
| "validate_input_type dumps py_str _ = Inl ValueError"

section \<open>The outgoing payload\<close>

definition UNSUPPORTED_UPSTREAM_FIELDS :: "string list" where
  "UNSUPPORTED_UPSTREAM_FIELDS =
     [''max_output_tokens'', ''metadata'', ''prompt_cache_retention'', ''safety_identifier'', ''temperature'', ''top_p'',
      ''truncation'', ''user'']"

definition thinking_effort :: "string \<Rightarrow> fields" where
  "thinking_effort effort = [(''effort'', JStr effort)]"

definition switched :: "bool \<Rightarrow> fields option" where
  "switched b = (if b then Some (thinking_effort ''medium'') else None)"

definition enable_thinking_alias :: "json option \<Rightarrow> fields option" where
  "enable_thinking_alias enable = (case enable of Some (JBool b) \<Rightarrow> switched b | _ \<Rightarrow> None)"

definition thinking_fields :: "fields \<Rightarrow> fields" where
  "thinking_fields kvs =
     (case json_str (map_of kvs ''effort'') of
        Some e \<Rightarrow> if py_strip e \<noteq> [] then thinking_effort (py_lower (py_strip e)) else [] | None \<Rightarrow> []) @
     (case json_str (map_of kvs ''summary'') of
        Some s \<Rightarrow> if py_strip s \<noteq> [] then [(''summary'', JStr (py_strip s))] else [] | None \<Rightarrow> [])"

definition thinking_mapping :: "fields \<Rightarrow> json option \<Rightarrow> fields option" where
  "thinking_mapping kvs enable =
     (let by_flag = (case map_of kvs ''enabled'' of Some (JBool b) \<Rightarrow> switched b | _ \<Rightarrow> enable_thinking_alias enable)
      in if thinking_fields kvs \<noteq> [] then Some (thinking_fields kvs)
         else case json_str (map_of kvs ''type'') of
           Some t \<Rightarrow>
             if py_lower (py_strip t) = ''enabled'' then Some (thinking_effort ''medium'')
             else if py_lower (py_strip t) = ''disabled'' then None else by_flag
         | None \<Rightarrow> by_flag)"

definition normalize_thinking_alias :: "json option \<Rightarrow> json option \<Rightarrow> fields option" where
  "normalize_thinking_alias thinking enable =
     (case thinking of
        Some (JBool b) \<Rightarrow> switched b
      | Some (JStr s) \<Rightarrow>
          (let n = py_lower (py_strip s)
           in if n \<in> set [''low'', ''medium'', ''high'', ''xhigh''] then Some (thinking_effort n)
              else if n \<in> set [''enabled'', ''true'', ''on''] then Some (thinking_effort ''medium'')
              else if n \<in> set [''disabled'', ''false'', ''off''] then None
              else enable_thinking_alias enable)
      | Some (JObj kvs) \<Rightarrow> thinking_mapping kvs enable
      | _ \<Rightarrow> enable_thinking_alias enable)"

text \<open>A key that is set unless it is there, from a value that has to be a string.\<close>

definition set_default :: "string \<Rightarrow> json option \<Rightarrow> fields \<Rightarrow> fields" where
  "set_default k v kvs = (case (map_of kvs k, v) of (None, Some w) \<Rightarrow> AList.update k w kvs | _ \<Rightarrow> kvs)"

definition string_value :: "json option \<Rightarrow> json option" where
  "string_value v = (case v of Some (JStr s) \<Rightarrow> Some (JStr s) | _ \<Rightarrow> None)"

definition pop_all :: "string list \<Rightarrow> fields \<Rightarrow> fields" where
  "pop_all ks payload = fold AList.delete ks payload"

definition set_mapping :: "string \<Rightarrow> fields \<Rightarrow> fields \<Rightarrow> fields" where
  "set_mapping k m payload = (if m = [] then payload else AList.update k (JObj m) payload)"

definition mapping_or_empty :: "json option \<Rightarrow> fields" where
  "mapping_or_empty v = (case v of Some (JObj kvs) \<Rightarrow> kvs | _ \<Rightarrow> [])"

definition REASONING_ALIASES :: "string list" where
  "REASONING_ALIASES = [''reasoningEffort'', ''reasoningSummary'', ''thinking'', ''enable_thinking'']"

definition normalize_reasoning_aliases :: "fields \<Rightarrow> fields" where
  "normalize_reasoning_aliases payload =
     (let rest = pop_all REASONING_ALIASES payload;
          reasoning = set_default ''summary'' (string_value (map_of payload ''reasoningSummary''))
             (set_default ''effort'' (string_value (map_of payload ''reasoningEffort'')) (mapping_or_empty (map_of rest ''reasoning'')));
          reasoning = (case normalize_thinking_alias (map_of payload ''thinking'') (map_of payload ''enable_thinking'') of
             None \<Rightarrow> reasoning
           | Some provider \<Rightarrow> set_default ''summary'' (map_of provider ''summary'') (set_default ''effort'' (map_of provider ''effort'') reasoning))
      in set_mapping ''reasoning'' reasoning rest)"

definition TEXT_ALIASES :: "string list" where
  "TEXT_ALIASES = [''textVerbosity'', ''verbosity'', ''promptCacheKey'', ''promptCacheRetention'']"

definition normalize_openai_compatible_aliases :: "fields \<Rightarrow> fields" where
  "normalize_openai_compatible_aliases payload =
     (let rest = pop_all TEXT_ALIASES payload;
          rest = set_default ''prompt_cache_key'' (string_value (map_of payload ''promptCacheKey'')) rest;
          rest = set_default ''prompt_cache_retention'' (string_value (map_of payload ''promptCacheRetention'')) rest;
          rest = normalize_reasoning_aliases rest;
          text_map = set_default ''verbosity'' (string_value (map_of payload ''verbosity''))
             (set_default ''verbosity'' (string_value (map_of payload ''textVerbosity'')) (mapping_or_empty (map_of rest ''text'')))
      in set_mapping ''text'' text_map rest)"

definition service_tier_alias :: "string \<Rightarrow> string" where
  "service_tier_alias s = (if py_lower (py_strip s) = ''fast'' then ''priority'' else s)"

definition normalize_service_tier_aliases :: "fields \<Rightarrow> fields" where
  "normalize_service_tier_aliases payload =
     (case map_of payload ''service_tier'' of
        Some (JStr s) \<Rightarrow> AList.update ''service_tier'' (JStr (service_tier_alias s)) payload
      | _ \<Rightarrow> payload)"

definition sanitize_interleaved_reasoning_input :: "(json \<Rightarrow> string) \<Rightarrow> (json \<Rightarrow> string) \<Rightarrow> fields \<Rightarrow> py_error + fields" where
  "sanitize_interleaved_reasoning_input dumps py_str payload =
     (case map_of payload ''input'' of
        Some (JArr items) \<Rightarrow>
          map_sum id (\<lambda>xs. AList.update ''input'' (JArr xs) payload) (sanitize_input_items dumps py_str items)
      | _ \<Rightarrow> Inr payload)"

fun tool_sort_key :: "json \<Rightarrow> string" where
  "tool_sort_key (JObj kvs) =
     (case json_str (map_of kvs ''name'') of
        Some n \<Rightarrow> n
      | None \<Rightarrow> (case map_of kvs ''function'' of Some f \<Rightarrow> default (json_str (json_get f ''name'')) [] | None \<Rightarrow> []))"
| "tool_sort_key _ = []"

definition canonical_tools :: "json list \<Rightarrow> json list" where
  "canonical_tools tools = map sort_keys_recursive (sort_key tool_sort_key tools)"

definition canonicalize_tools :: "fields \<Rightarrow> fields" where
  "canonicalize_tools payload =
     (case map_of payload ''tools'' of
        Some (JArr tools) \<Rightarrow> if tools = [] then payload else AList.update ''tools'' (JArr (canonical_tools tools)) payload
      | _ \<Rightarrow> payload)"

definition strip_unsupported_fields :: "(json \<Rightarrow> string) \<Rightarrow> (json \<Rightarrow> string) \<Rightarrow> fields \<Rightarrow> py_error + fields" where
  "strip_unsupported_fields dumps py_str payload =
     map_sum id (\<lambda>p. pop_all UNSUPPORTED_UPSTREAM_FIELDS (canonicalize_tools p))
       (sanitize_interleaved_reasoning_input dumps py_str (normalize_service_tier_aliases (normalize_openai_compatible_aliases payload)))"

definition strip_compact_unsupported_fields :: "(json \<Rightarrow> string) \<Rightarrow> (json \<Rightarrow> string) \<Rightarrow> fields \<Rightarrow> py_error + fields" where
  "strip_compact_unsupported_fields dumps py_str payload =
     map_sum id (pop_all [''store'', ''tools'', ''tool_choice'', ''parallel_tool_calls'']) (strip_unsupported_fields dumps py_str payload)"

section \<open>Sanitized input\<close>

text \<open>What is free of interleaved reasoning: no such key, and no such part in the content.\<close>

definition clean_keys :: "fields \<Rightarrow> bool" where
  "clean_keys kvs = list_all (\<lambda>(k, _). k \<notin> set INTERLEAVED_REASONING_KEYS) kvs"

fun clean_part :: "json \<Rightarrow> bool" where
  "clean_part (JObj kvs) = (\<not> reasoning_part kvs \<and> clean_keys kvs)"
| "clean_part v = (v \<noteq> JNull)"

fun clean_content :: "json \<Rightarrow> bool" where
  "clean_content (JArr parts) = list_all clean_part parts"
| "clean_content v = clean_part v"

fun clean_item :: "json \<Rightarrow> bool" where
  "clean_item (JObj kvs) = (clean_keys kvs \<and> list_all (\<lambda>(k, v). k = ''content'' \<longrightarrow> clean_content v) kvs)"
| "clean_item v = (v \<noteq> JNull)"

lemma map_filter_Some_id: "(\<And>x. x \<in> set xs \<Longrightarrow> f x = Some x) \<Longrightarrow> List.map_filter f xs = xs"
  by (induction xs) (simp_all add: List.map_filter_simps)

lemma set_map_filter: "set (List.map_filter f xs) = {y. \<exists>x\<in>set xs. f x = Some y}"
  by (induction xs) (auto simp: List.map_filter_simps split: option.splits)

lemma clean_keys_filter [simp]: "clean_keys (without_reasoning_keys kvs)" "clean_keys kvs \<Longrightarrow> without_reasoning_keys kvs = kvs"
  by (auto simp: clean_keys_def without_reasoning_keys_def list_all_iff)

lemma type_not_reasoning_key [simp]: "''type'' \<notin> set INTERLEAVED_REASONING_KEYS" "''content'' \<notin> set INTERLEAVED_REASONING_KEYS"
  by (simp_all add: INTERLEAVED_REASONING_KEYS_def)

lemma map_of_without [simp]: "k \<notin> set INTERLEAVED_REASONING_KEYS \<Longrightarrow> map_of (without_reasoning_keys kvs) k = map_of kvs k"
  by (induction kvs) (auto simp: without_reasoning_keys_def)

lemma reasoning_part_without [simp]: "reasoning_part (without_reasoning_keys kvs) = reasoning_part kvs"
  by (simp add: reasoning_part_def)

lemma sanitize_part_clean: "sanitize_part v = Some w \<Longrightarrow> clean_part w"
  by (cases v) (auto split: if_splits)

lemma clean_part_sanitized: "clean_part v \<Longrightarrow> sanitize_part v = Some v"
  by (cases v) auto

lemma sanitize_content_clean: "sanitize_content v = Some w \<Longrightarrow> clean_content w"
  by (cases v) (auto simp: list_all_iff set_map_filter dest: sanitize_part_clean split: if_splits)

lemma clean_content_sanitized: "clean_content v \<Longrightarrow> sanitize_content v = Some v"
  by (cases v) (auto simp: list_all_iff clean_part_sanitized intro!: map_filter_Some_id)

lemma sanitize_item_clean: "sanitize_interleaved_reasoning_input_item v = Some w \<Longrightarrow> clean_item w"
  by (cases v)
    (auto simp: clean_keys_def list_all_iff set_map_filter sanitize_field_def dest!: sanitize_content_clean split: if_splits)

lemma clean_item_sanitized: "clean_item v \<Longrightarrow> sanitize_interleaved_reasoning_input_item v = Some v"
proof (cases v)
  case (JObj kvs)
  assume "clean_item v"
  then have "sanitize_field kv = Some kv" if "kv \<in> set kvs" for kv
    using that JObj by (cases kv) (auto simp: clean_keys_def list_all_iff sanitize_field_def clean_content_sanitized)
  then show ?thesis using JObj by (simp add: map_filter_Some_id)
qed simp_all

text \<open>Rewriting the content of an assistant's message.\<close>

lemma output_text_clean [simp]: "clean_part (output_text s)"
  by (simp add: output_text_def reasoning_part_def clean_keys_def INTERLEAVED_REASONING_KEYS_def INTERLEAVED_REASONING_PART_TYPES_def)

lemma output_text_extract [simp]: "extract_text_content_part ASSISTANT_TEXT_PART_TYPES (output_text s) = Some s"
  by (simp add: output_text_def field_def ASSISTANT_TEXT_PART_TYPES_def)

lemma output_text_normal [simp]: "normalize_assistant_content_part (output_text s) = output_text s"
  using output_text_extract [of s] by (simp add: output_text_def)

lemma assistant_part_idem [simp]:
  "normalize_assistant_content_part (normalize_assistant_content_part v) = normalize_assistant_content_part v"
  by (cases v) (auto split: option.split)

lemma assistant_part_clean: "clean_part v \<Longrightarrow> clean_part (normalize_assistant_content_part v)"
  by (cases v) (auto split: option.split)

lemma assistant_content_idem [simp]:
  "normalize_assistant_content (normalize_assistant_content v) = normalize_assistant_content v"
  by (cases v) (simp_all del: normalize_assistant_content_part.simps)

lemma assistant_content_clean: "clean_content v \<Longrightarrow> clean_content (normalize_assistant_content v)"
  using assistant_part_clean [of v]
  by (cases v) (auto simp: list_all_iff assistant_part_clean simp del: normalize_assistant_content_part.simps)

lemma assistant_content_not_null: "v \<noteq> JNull \<Longrightarrow> normalize_assistant_content v \<noteq> JNull"
  by (cases v) auto

lemma map_of_update: "map_of (AList.update k v kvs) = (map_of kvs)(k \<mapsto> v)"
  by (simp add: update_conv')

lemma update_keys_clean: "clean_keys kvs \<Longrightarrow> k \<notin> set INTERLEAVED_REASONING_KEYS \<Longrightarrow> clean_keys (AList.update k v kvs)"
  by (induction kvs) (auto simp: clean_keys_def)

lemma update_content_clean:
  "list_all (\<lambda>(k, v). k = ''content'' \<longrightarrow> clean_content v) kvs \<Longrightarrow> clean_content c \<Longrightarrow>
     list_all (\<lambda>(k, v). k = ''content'' \<longrightarrow> clean_content v) (AList.update ''content'' c kvs)"
  by (induction kvs) auto

lemma same_value_refl [simp]: "same_value v v"
  by (simp add: same_value_def)

lemma assistant_item_stable:
  assumes "clean_item (JObj kvs)" and "map_of kvs ''role'' = Some (JStr ''assistant'')"
  shows "clean_item (normalize_assistant_input_item kvs)"
    and "normalize_role_input_item dumps py_str (normalize_assistant_input_item kvs) = Inr (normalize_assistant_input_item kvs)"
proof -
  consider "normalize_assistant_input_item kvs = JObj kvs"
    | c where "field kvs ''content'' = Some c" "normalize_assistant_input_item kvs = JObj (AList.update ''content'' (normalize_assistant_content c) kvs)"
    by (cases "field kvs ''content''"; cases "same_value (normalize_assistant_content (the (field kvs ''content''))) (the (field kvs ''content''))")
      (auto simp: normalize_assistant_input_item_def Let_def)
  then have "clean_item (normalize_assistant_input_item kvs) \<and>
    normalize_role_input_item dumps py_str (normalize_assistant_input_item kvs) = Inr (normalize_assistant_input_item kvs)"
  proof cases
    case 1
    then show ?thesis using assms by simp
  next
    case (2 c)
    let ?n = "normalize_assistant_content c"
    have c: "map_of kvs ''content'' = Some c" "c \<noteq> JNull" using 2(1) by (auto simp: field_def split: option.splits json.splits)
    then have "clean_content c" using assms(1) map_of_SomeD [OF c(1)] by (auto simp: list_all_iff)
    then have clean: "clean_item (JObj (AList.update ''content'' ?n kvs))"
      using assms(1) by (simp add: update_keys_clean update_content_clean assistant_content_clean)
    have "field (AList.update ''content'' ?n kvs) ''content'' = Some ?n"
      using assistant_content_not_null [OF c(2)] by (simp add: field_def map_of_update split: json.split)
    then have "normalize_assistant_input_item (AList.update ''content'' ?n kvs) = JObj (AList.update ''content'' ?n kvs)"
      by (simp add: normalize_assistant_input_item_def)
    then show ?thesis using clean assms(2) by (simp add: 2(2) map_of_update)
  qed
  then show "clean_item (normalize_assistant_input_item kvs)"
    "normalize_role_input_item dumps py_str (normalize_assistant_input_item kvs) = Inr (normalize_assistant_input_item kvs)" by simp_all
qed

lemma tool_item_stable:
  assumes "normalize_tool_input_item dumps py_str kvs = Inr v"
  shows "clean_item v" and "normalize_role_input_item d p v = Inr v"
  using assms by (auto simp: normalize_tool_input_item_def Let_def clean_keys_def INTERLEAVED_REASONING_KEYS_def split: option.splits)

lemma role_item_stable:
  assumes "clean_item v" and "normalize_role_input_item dumps py_str v = Inr w"
  shows "clean_item w \<and> normalize_role_input_item dumps py_str w = Inr w"
  using assms assistant_item_stable tool_item_stable
  by (cases v) (auto split: if_splits)

lemma sanitized_items:
  "sanitize_input_items dumps py_str items = Inr out \<Longrightarrow>
     list_all (\<lambda>v. clean_item v \<and> normalize_role_input_item dumps py_str v = Inr v) out"
proof (induction items arbitrary: out)
  case (Cons item items)
  show ?case
  proof (cases "sanitize_interleaved_reasoning_input_item item")
    case None
    then show ?thesis using Cons by simp
  next
    case (Some s)
    then obtain v out' where v: "normalize_role_input_item dumps py_str s = Inr v"
      "sanitize_input_items dumps py_str items = Inr out'" "out = v # out'"
      using Cons.prems by (cases "sanitize_input_items dumps py_str items") (auto split: sum.splits)
    then show ?thesis using role_item_stable [OF sanitize_item_clean [OF Some] v(1)] Cons.IH [OF v(2)] by simp
  qed
qed simp

lemma stable_items:
  "list_all (\<lambda>v. clean_item v \<and> normalize_role_input_item dumps py_str v = Inr v) items \<Longrightarrow>
     sanitize_input_items dumps py_str items = Inr items"
  by (induction items) (auto simp: clean_item_sanitized)

section \<open>Canonical values\<close>

lemma map_of_filter_key: "map_of kvs k = map_of (filter (\<lambda>kv. fst kv = k) kvs) k"
  by (induction kvs) auto

lemma map_of_sort_key [simp]: "map_of (sort_key fst kvs) k = map_of (kvs :: (string \<times> 'a) list) k"
  by (subst (1 2) map_of_filter_key) (simp add: sort_key_stable)

lemma sort_keys_fields: "map_of (map (\<lambda>(k, v). (k, sort_keys_recursive v)) kvs) k = map_option sort_keys_recursive (map_of kvs k)"
  by (induction kvs) auto

lemma json_str_sort_keys [simp]: "json_str (map_option sort_keys_recursive v) = json_str v"
proof (cases v)
  case (Some w)
  then show ?thesis by (cases w) simp_all
qed simp

lemma json_get_sort_keys [simp]: "json_get (sort_keys_recursive v) k = map_option sort_keys_recursive (json_get v k)"
  by (cases v) (simp_all add: sort_keys_fields)

lemma tool_sort_key_sort_keys [simp]: "tool_sort_key (sort_keys_recursive v) = tool_sort_key v"
  by (cases v) (simp_all add: sort_keys_fields split: option.split)

lemma sort_keys_idem [simp]: "sort_keys_recursive (sort_keys_recursive v) = sort_keys_recursive v"
proof (induction v rule: sort_keys_recursive.induct)
  case (1 kvs)
  let ?g = "\<lambda>(k :: string, v). (k, sort_keys_recursive v)"
  have "map ?g (sort_key fst (map ?g kvs)) = sort_key fst (map ?g kvs)"
    by (rule map_idI) (use 1 in auto)
  then show ?case by (simp add: sort_key_id_if_sorted)
qed simp_all

lemma canonical_tools_idem: "canonical_tools (canonical_tools tools) = canonical_tools tools"
proof -
  have "sorted (map tool_sort_key (canonical_tools tools))" by (simp add: canonical_tools_def comp_def)
  then show ?thesis by (simp add: canonical_tools_def sort_key_id_if_sorted)
qed

text \<open>JSON objects are unordered: two values are the same when they differ in the order of keys only.\<close>

inductive same_json :: "json \<Rightarrow> json \<Rightarrow> bool" where
  atom: "same_json v v"
| arr: "list_all2 same_json xs ys \<Longrightarrow> same_json (JArr xs) (JArr ys)"
| obj: "distinct (map fst kvs) \<Longrightarrow> distinct (map fst kvs') \<Longrightarrow> fst ` set kvs = fst ` set kvs' \<Longrightarrow>
     (\<And>k v w. (k, v) \<in> set kvs \<Longrightarrow> (k, w) \<in> set kvs' \<Longrightarrow> same_json v w) \<Longrightarrow> same_json (JObj kvs) (JObj kvs')"

lemma sort_by_distinct_keys:
  fixes xs ys :: "(string \<times> 'a) list"
  assumes "distinct (map fst xs)" and "distinct (map fst ys)" and "set xs = set ys"
  shows "sort_key fst xs = sort_key fst ys"
proof (rule sort_key_inj_key_eq)
  show "mset xs = mset (sort_key fst ys)"
    using set_eq_iff_mset_eq_distinct [of xs ys] assms by (simp add: distinct_map)
qed (use assms(1) in \<open>simp_all add: distinct_map\<close>)

lemma same_keys_sub:
  assumes "fst ` set as \<subseteq> fst ` set bs"
    and "\<And>k v w. (k, v) \<in> set as \<Longrightarrow> (k, w) \<in> set bs \<Longrightarrow> sort_keys_recursive v = sort_keys_recursive w"
  shows "set (map (\<lambda>(k, v). (k, sort_keys_recursive v)) as) \<subseteq> set (map (\<lambda>(k, v). (k, sort_keys_recursive v)) bs)"
proof
  fix kv assume "kv \<in> set (map (\<lambda>(k, v). (k, sort_keys_recursive v)) as)"
  then obtain k v where v: "(k, v) \<in> set as" "kv = (k, sort_keys_recursive v)" by auto
  moreover obtain w where w: "(k, w) \<in> set bs" using v(1) assms(1) by force
  ultimately show "kv \<in> set (map (\<lambda>(k, v). (k, sort_keys_recursive v)) bs)" using assms(2) [OF v(1) w] by force
qed

lemma same_json_sort_keys: "same_json v w \<Longrightarrow> sort_keys_recursive v = sort_keys_recursive w"
proof (induction rule: same_json.induct)
  case (arr xs ys)
  then show ?case by (simp add: list_all2_conv_all_nth list_eq_iff_nth_eq)
next
  case (obj kvs kvs')
  let ?g = "\<lambda>(k :: string, v). (k, sort_keys_recursive v)"
  have g: "map fst (map ?g as) = map fst as" for as by (simp add: case_prod_beta)
  have eq: "sort_keys_recursive v = sort_keys_recursive w" if "(k, v) \<in> set kvs" "(k, w) \<in> set kvs'" for k v w
    using obj that by blast
  have "set (map ?g kvs) = set (map ?g kvs')"
  proof (rule equalityI)
    show "set (map ?g kvs) \<subseteq> set (map ?g kvs')" using same_keys_sub [OF eq_refl [OF obj(3)]] eq by blast
    show "set (map ?g kvs') \<subseteq> set (map ?g kvs)" using same_keys_sub [OF eq_refl [OF obj(3) [symmetric]]] eq [symmetric] by blast
  qed
  then have "sort_key fst (map ?g kvs) = sort_key fst (map ?g kvs')"
    by (intro sort_by_distinct_keys) (use obj(1,2) in \<open>simp_all only: g\<close>)
  then show ?case by simp
qed simp

lemma canonical_tools_by_name:
  assumes "distinct (map tool_sort_key tools)"
  shows "canonical_tools tools = sort_key tool_sort_key (map sort_keys_recursive tools)"
proof (rule sym, rule sort_key_inj_key_eq)
  show "mset (map sort_keys_recursive tools) = mset (canonical_tools tools)" by (simp add: canonical_tools_def)
  show "inj_on tool_sort_key (set (map sort_keys_recursive tools))" using assms by (auto simp: distinct_map inj_on_def)
  show "sorted (map tool_sort_key (canonical_tools tools))" by (simp add: canonical_tools_def comp_def)
qed

text \<open>
  The tools of a request are sent in a canonical form, on which the prompt cache of the upstream depends: a client
  that lists the same tools in another order, with the keys of their schemas in another order, sends the same text.
\<close>

theorem tools_sent_in_canonical_form:
  assumes "mset tools = mset reordered" and "list_all2 same_json reordered tools'" and "distinct (map tool_sort_key tools)"
  shows "canonical_tools tools = canonical_tools tools' \<and> mset (canonical_tools tools) = mset (map sort_keys_recursive tools) \<and>
    canonical_tools (canonical_tools tools) = canonical_tools tools"
proof -
  have same: "map sort_keys_recursive reordered = map sort_keys_recursive tools'"
    using assms(2) by (auto simp: list_all2_conv_all_nth list_eq_iff_nth_eq same_json_sort_keys)
  have dist: "distinct (map tool_sort_key reordered)"
    using assms(1,3) mset_eq_imp_distinct_iff [of "map tool_sort_key tools" "map tool_sort_key reordered"] by simp
  have "map tool_sort_key tools' = map tool_sort_key reordered"
    using arg_cong [OF same, of "map tool_sort_key"] by (simp add: comp_def)
  then have dist': "distinct (map tool_sort_key tools')" using dist by simp
  have "sort_key tool_sort_key (map sort_keys_recursive tools) = sort_key tool_sort_key (map sort_keys_recursive reordered)"
    using assms(1,3) by (intro sort_key_inj_key_eq) (auto simp: distinct_map inj_on_def)
  then have "canonical_tools tools = canonical_tools tools'"
    by (simp add: canonical_tools_by_name [OF assms(3)] canonical_tools_by_name [OF dist'] same)
  moreover have "mset (canonical_tools tools) = mset (map sort_keys_recursive tools)" by (simp add: canonical_tools_def)
  ultimately show ?thesis using canonical_tools_idem by blast
qed

definition example_tool :: "string \<Rightarrow> json" where
  "example_tool n = JObj [(''type'', JStr ''function''), (''name'', JStr n)]"

definition example_tool_reordered :: "string \<Rightarrow> json" where
  "example_tool_reordered n = JObj [(''name'', JStr n), (''type'', JStr ''function'')]"

lemma example_same_json: "same_json (example_tool n) (example_tool_reordered n)"
  unfolding example_tool_def example_tool_reordered_def by (rule same_json.obj) (auto intro: same_json.atom)

theorem tools_sent_in_canonical_form_witness:
  "canonical_tools [example_tool ''b'', example_tool ''a''] = canonical_tools [example_tool_reordered ''a'', example_tool_reordered ''b'']"
  by (rule conjunct1 [OF tools_sent_in_canonical_form [where reordered = "[example_tool ''a'', example_tool ''b'']"]])
    (simp_all add: example_same_json, simp_all add: example_tool_def)

section \<open>The payload after stripping\<close>

lemma update_same: "map_of kvs k = Some v \<Longrightarrow> AList.update k v kvs = kvs"
  by (induction kvs) (auto split: if_splits)

lemma delete_absent: "map_of kvs k = None \<Longrightarrow> AList.delete k kvs = kvs"
  by (simp add: AList.delete_id map_of_eq_None_iff)

lemma map_of_pop_all: "map_of (pop_all ks kvs) k = (if k \<in> set ks then None else map_of kvs k)"
  unfolding pop_all_def by (induction ks arbitrary: kvs) (simp_all add: delete_conv')

lemma pop_all_absent: "(\<And>k. k \<in> set ks \<Longrightarrow> map_of kvs k = None) \<Longrightarrow> pop_all ks kvs = kvs"
  unfolding pop_all_def by (induction ks) (simp_all add: delete_absent)

lemma map_of_set_default: "map_of (set_default k v kvs) k' = (if k' = k \<and> map_of kvs k = None then v else map_of kvs k')"
  by (auto simp: set_default_def map_of_update split: option.split)

lemma set_default_None [simp]: "set_default k None kvs = kvs"
  by (simp add: set_default_def split: option.split)

lemma map_of_set_mapping: "k' \<noteq> k \<Longrightarrow> map_of (set_mapping k m kvs) k' = map_of kvs k'"
  by (simp add: set_mapping_def map_of_update)

lemma set_mapping_same: "set_mapping k (mapping_or_empty (map_of kvs k)) kvs = kvs"
proof (cases "map_of kvs k")
  case (Some v)
  then show ?thesis by (cases v) (simp_all add: set_mapping_def mapping_or_empty_def update_same)
qed (simp add: set_mapping_def mapping_or_empty_def)

text \<open>The keys that never reach the upstream.\<close>

definition removed_keys :: "string list" where
  "removed_keys = REASONING_ALIASES @ TEXT_ALIASES @ UNSUPPORTED_UPSTREAM_FIELDS"

text \<open>A payload that is left as it is: nothing to remove, to rename, to sanitize or to sort.\<close>

definition payload_settled :: "(json \<Rightarrow> string) \<Rightarrow> (json \<Rightarrow> string) \<Rightarrow> fields \<Rightarrow> bool" where
  "payload_settled dumps py_str q \<longleftrightarrow>
     list_all (\<lambda>k. map_of q k = None) removed_keys \<and>
     (case map_of q ''service_tier'' of Some (JStr s) \<Rightarrow> service_tier_alias s = s | _ \<Rightarrow> True) \<and>
     (case map_of q ''input'' of Some (JArr items) \<Rightarrow> sanitize_input_items dumps py_str items = Inr items | _ \<Rightarrow> True) \<and>
     (case map_of q ''tools'' of Some (JArr ts) \<Rightarrow> canonical_tools ts = ts | _ \<Rightarrow> True)"

lemma settled_reasoning: "list_all (\<lambda>k. map_of q k = None) removed_keys \<Longrightarrow> normalize_reasoning_aliases q = q"
  by (simp add: normalize_reasoning_aliases_def Let_def pop_all_absent removed_keys_def list_all_iff)
    (simp add: REASONING_ALIASES_def string_value_def normalize_thinking_alias_def enable_thinking_alias_def set_mapping_same)

lemma settled_aliases: "list_all (\<lambda>k. map_of q k = None) removed_keys \<Longrightarrow> normalize_openai_compatible_aliases q = q"
proof -
  assume gone: "list_all (\<lambda>k. map_of q k = None) removed_keys"
  then have "pop_all TEXT_ALIASES q = q" by (intro pop_all_absent) (simp add: removed_keys_def list_all_iff)
  then show ?thesis
    using gone
    by (simp add: normalize_openai_compatible_aliases_def Let_def)
      (simp add: TEXT_ALIASES_def string_value_def removed_keys_def settled_reasoning [OF gone] set_mapping_same)
qed

lemma settled_fixed: "payload_settled dumps py_str q \<Longrightarrow> strip_unsupported_fields dumps py_str q = Inr q"
proof -
  assume s: "payload_settled dumps py_str q"
  have a: "normalize_openai_compatible_aliases q = q" using s by (intro settled_aliases) (simp add: payload_settled_def)
  have b: "normalize_service_tier_aliases q = q"
  proof (cases "map_of q ''service_tier''")
    case (Some v)
    then show ?thesis using s by (cases v) (simp_all add: payload_settled_def normalize_service_tier_aliases_def update_same)
  qed (simp add: normalize_service_tier_aliases_def)
  have c: "sanitize_interleaved_reasoning_input dumps py_str q = Inr q"
  proof (cases "map_of q ''input''")
    case (Some v)
    then show ?thesis using s by (cases v) (simp_all add: payload_settled_def sanitize_interleaved_reasoning_input_def update_same)
  qed (simp add: sanitize_interleaved_reasoning_input_def)
  have d: "canonicalize_tools q = q"
  proof (cases "map_of q ''tools''")
    case (Some v)
    then show ?thesis using s by (cases v) (simp_all add: payload_settled_def canonicalize_tools_def update_same)
  qed (simp add: canonicalize_tools_def)
  have e: "pop_all UNSUPPORTED_UPSTREAM_FIELDS q = q"
    using s by (intro pop_all_absent) (simp add: payload_settled_def removed_keys_def list_all_iff)
  show ?thesis by (simp add: strip_unsupported_fields_def a b c d e)
qed

lemma service_tier_alias_idem [simp]: "service_tier_alias (service_tier_alias s) = service_tier_alias s"
proof (cases "py_lower (py_strip s) = ''fast''")
  case True
  have "py_lower (py_strip ''priority'') \<noteq> ''fast''" by code_simp
  then show ?thesis using True by (simp add: service_tier_alias_def)
qed (simp add: service_tier_alias_def)

lemma reasoning_aliases_gone:
  "k \<in> set REASONING_ALIASES \<Longrightarrow> map_of (normalize_reasoning_aliases p) k = None"
proof -
  assume k: "k \<in> set REASONING_ALIASES"
  then have "k \<noteq> ''reasoning''" by (auto simp: REASONING_ALIASES_def)
  then show ?thesis using k by (simp add: normalize_reasoning_aliases_def Let_def map_of_set_mapping map_of_pop_all)
qed

lemma reasoning_aliases_others:
  "k \<notin> set (''reasoning'' # REASONING_ALIASES) \<Longrightarrow> map_of (normalize_reasoning_aliases p) k = map_of p k"
  by (simp add: normalize_reasoning_aliases_def Let_def map_of_set_mapping map_of_pop_all)

lemma aliases_gone:
  assumes "k \<in> set (REASONING_ALIASES @ TEXT_ALIASES)"
  shows "map_of (normalize_openai_compatible_aliases p) k = None"
proof -
  have k: "k \<noteq> ''text''" "k \<noteq> ''reasoning''" "k \<noteq> ''prompt_cache_key''" "k \<noteq> ''prompt_cache_retention''"
    using assms by (auto simp: REASONING_ALIASES_def TEXT_ALIASES_def)
  show ?thesis
  proof (cases "k \<in> set REASONING_ALIASES")
    case True
    then show ?thesis using k by (simp add: normalize_openai_compatible_aliases_def Let_def map_of_set_mapping reasoning_aliases_gone)
  next
    case False
    then show ?thesis
      using k assms
      by (simp add: normalize_openai_compatible_aliases_def Let_def map_of_set_mapping reasoning_aliases_others map_of_set_default map_of_pop_all)
  qed
qed

lemma service_tier_step:
  "map_of (normalize_service_tier_aliases p) k =
     (if k = ''service_tier'' then map_option (\<lambda>v. case v of JStr s \<Rightarrow> JStr (service_tier_alias s) | _ \<Rightarrow> v) (map_of p k) else map_of p k)"
  by (auto simp: normalize_service_tier_aliases_def map_of_update split: option.split json.split)

lemma sanitize_step:
  "sanitize_interleaved_reasoning_input dumps py_str p = Inr q \<Longrightarrow>
     (k \<noteq> ''input'' \<longrightarrow> map_of q k = map_of p k) \<and>
     (case map_of q ''input'' of Some (JArr items) \<Rightarrow> sanitize_input_items dumps py_str items = Inr items | _ \<Rightarrow> True)"
proof (cases "map_of p ''input''")
  case (Some v)
  assume s: "sanitize_interleaved_reasoning_input dumps py_str p = Inr q"
  show ?thesis
  proof (cases v)
    case (JArr items)
    then obtain out where out: "sanitize_input_items dumps py_str items = Inr out" "q = AList.update ''input'' (JArr out) p"
      using s Some by (cases "sanitize_input_items dumps py_str items") (auto simp: sanitize_interleaved_reasoning_input_def)
    then show ?thesis using stable_items [OF sanitized_items [OF out(1)]] by (simp add: map_of_update)
  qed (use s Some in \<open>simp_all add: sanitize_interleaved_reasoning_input_def\<close>)
qed (simp add: sanitize_interleaved_reasoning_input_def)

lemma tools_step:
  "(k \<noteq> ''tools'' \<longrightarrow> map_of (canonicalize_tools p) k = map_of p k) \<and>
   (case map_of (canonicalize_tools p) ''tools'' of Some (JArr ts) \<Rightarrow> canonical_tools ts = ts | _ \<Rightarrow> True)"
  by (auto simp: canonicalize_tools_def map_of_update canonical_tools_idem split: option.split json.split)
    (simp_all add: canonical_tools_def)

lemma stripped_settled:
  assumes "strip_unsupported_fields dumps py_str p = Inr q"
  shows "payload_settled dumps py_str q"
proof -
  let ?a = "normalize_service_tier_aliases (normalize_openai_compatible_aliases p)"
  obtain b where b: "sanitize_interleaved_reasoning_input dumps py_str ?a = Inr b"
    and q: "q = pop_all UNSUPPORTED_UPSTREAM_FIELDS (canonicalize_tools b)"
    using assms by (cases "sanitize_interleaved_reasoning_input dumps py_str ?a") (auto simp: strip_unsupported_fields_def)
  have kept: "map_of q k = map_of (canonicalize_tools b) k" if "k \<notin> set UNSUPPORTED_UPSTREAM_FIELDS" for k
    using that by (simp add: q map_of_pop_all)
  have up: "map_of q k = map_of ?a k" if "k \<notin> set (''input'' # ''tools'' # UNSUPPORTED_UPSTREAM_FIELDS)" for k
    using that kept [of k] tools_step [of k b] sanitize_step [OF b, of k] by simp
  have gone: "map_of q k = None" if "k \<in> set removed_keys" for k
  proof (cases "k \<in> set UNSUPPORTED_UPSTREAM_FIELDS")
    case False
    then have k: "k \<in> set (REASONING_ALIASES @ TEXT_ALIASES)" using that by (simp add: removed_keys_def)
    then have "k \<noteq> ''input''" "k \<noteq> ''tools''" "k \<noteq> ''service_tier''" by (auto simp: REASONING_ALIASES_def TEXT_ALIASES_def)
    then show ?thesis using False up [of k] aliases_gone [OF k] by (simp add: service_tier_step)
  qed (simp add: q map_of_pop_all)
  have tier: "case map_of q ''service_tier'' of Some (JStr s) \<Rightarrow> service_tier_alias s = s | _ \<Rightarrow> True"
    using up [of "''service_tier''"] by (simp add: UNSUPPORTED_UPSTREAM_FIELDS_def service_tier_step split: option.split json.split)
  have "map_of q ''input'' = map_of b ''input''"
    using kept [of "''input''"] tools_step [of "''input''" b] by (simp add: UNSUPPORTED_UPSTREAM_FIELDS_def)
  then have inp: "case map_of q ''input'' of Some (JArr items) \<Rightarrow> sanitize_input_items dumps py_str items = Inr items | _ \<Rightarrow> True"
    using sanitize_step [OF b] by simp
  have tools: "case map_of q ''tools'' of Some (JArr ts) \<Rightarrow> canonical_tools ts = ts | _ \<Rightarrow> True"
    using kept [of "''tools''"] tools_step [of "''tools''" b] by (simp add: UNSUPPORTED_UPSTREAM_FIELDS_def)
  show ?thesis using gone tier inp tools by (simp add: payload_settled_def list_all_iff)
qed

lemma settled_input_clean:
  assumes "strip_unsupported_fields dumps py_str p = Inr q" and "map_of q ''input'' = Some (JArr items)"
  shows "list_all clean_item items"
proof -
  have "sanitize_input_items dumps py_str items = Inr items"
    using stripped_settled [OF assms(1)] assms(2) by (simp add: payload_settled_def)
  then show ?thesis using sanitized_items [of dumps py_str items items] by (simp add: list_all_iff)
qed

text \<open>
  C31: The payload that goes to the upstream has none of the parameters the upstream refuses and none of the spellings of other
  dialects, whatever the client has sent; the items of its input are free of interleaved reasoning; and it is settled:
  stripping and normalising what is sent once more changes nothing.
\<close>

theorem outgoing_payload_is_settled:
  assumes "strip_unsupported_fields dumps py_str payload = Inr sent"
  shows "list_all (\<lambda>k. map_of sent k = None)
       [''max_output_tokens'', ''metadata'', ''prompt_cache_retention'', ''safety_identifier'', ''temperature'', ''top_p'',
        ''truncation'', ''user'', ''reasoningEffort'', ''reasoningSummary'', ''thinking'', ''enable_thinking'', ''textVerbosity'',
        ''verbosity'', ''promptCacheKey'', ''promptCacheRetention''] \<and>
    (case map_of sent ''input'' of Some (JArr items) \<Rightarrow> list_all clean_item items | _ \<Rightarrow> True) \<and>
    strip_unsupported_fields dumps py_str sent = Inr sent"
proof (intro conjI)
  show "case map_of sent ''input'' of Some (JArr items) \<Rightarrow> list_all clean_item items | _ \<Rightarrow> True"
    using settled_input_clean [OF assms] by (simp split: option.split json.split)
qed (use stripped_settled [OF assms] settled_fixed [of dumps py_str sent] in
    \<open>simp_all add: payload_settled_def removed_keys_def REASONING_ALIASES_def TEXT_ALIASES_def UNSUPPORTED_UPSTREAM_FIELDS_def\<close>)

definition example_outgoing :: fields where
  "example_outgoing =
     [(''model'', JStr ''gpt-5''), (''temperature'', JInt 1), (''reasoningEffort'', JStr ''high''), (''service_tier'', JStr '' Fast ''),
      (''input'', JArr [JObj [(''role'', JStr ''assistant''), (''content'', JStr ''hi''), (''reasoning_content'', JStr ''hm'')]]),
      (''tools'', JArr [example_tool ''b'', example_tool ''a''])]"

definition example_sent :: fields where
  "example_sent =
     [(''model'', JStr ''gpt-5''), (''service_tier'', JStr ''priority''),
      (''input'', JArr [JObj [(''role'', JStr ''assistant''), (''content'', JArr [output_text ''hi''])]]),
      (''tools'', JArr [example_tool_reordered ''a'', example_tool_reordered ''b'']), (''reasoning'', JObj [(''effort'', JStr ''high'')])]"

lemma example_stripped: "strip_unsupported_fields (\<lambda>_. []) (\<lambda>_. []) example_outgoing = Inr example_sent"
  by code_simp

theorem outgoing_payload_is_settled_witness:
  "strip_unsupported_fields (\<lambda>_. []) (\<lambda>_. []) example_sent = Inr example_sent"
  using outgoing_payload_is_settled [OF example_stripped] by blast

section \<open>Instructions are moved, not lost\<close>

lemma moved_unprivileged: "list_all (\<lambda>v. \<not> privileged_role v) (fst (move_item item))"
  by (cases item)
    (auto simp: move_item_def map_of_update privileged_role_def split: option.split prod.split)

lemma kept_unprivileged: "\<not> privileged_role item \<Longrightarrow> move_item item = ([item], [])"
  by (cases item) (simp_all add: move_item_def)

lemma unprivileged_subseq: "subseq (filter (\<lambda>v. \<not> privileged_role v) items) (concat (map (fst \<circ> move_item) items))"
proof (induction items)
  case (Cons item items)
  then show ?case
    by (cases "privileged_role item") (simp_all add: kept_unprivileged subseq_drop_many)
qed simp

text \<open>The text an item contributes to the instructions.\<close>

fun privileged_text :: "json \<Rightarrow> string" where
  "privileged_text (JObj kvs) =
     (if privileged_role (JObj kvs) then fst (split_responses_instruction_item_content kvs) else [])"
| "privileged_text _ = []"

lemma moved_texts: "nonempty_texts (concat (map (snd \<circ> move_item) items)) = nonempty_texts (map privileged_text items)"
proof (induction items)
  case (Cons item items)
  then show ?case by (cases item) (auto simp: nonempty_texts_def move_item_def split: prod.split)
qed (simp add: nonempty_texts_def)

lemma join_nonempty: "join_char c (nonempty_texts ts) = [] \<longleftrightarrow> nonempty_texts ts = []"
proof (cases "nonempty_texts ts")
  case (Cons t us)
  then have "t \<in> set (nonempty_texts ts)" by simp
  then have "t \<noteq> []" by (simp add: nonempty_texts_def)
  then show ?thesis using Cons by (cases us) simp_all
qed simp

lemma merge_is_join: "merge_responses_instructions existing parts = join_char line_feed (nonempty_texts (existing # parts))"
proof (cases "nonempty_texts parts")
  case Nil
  then show ?thesis by (cases existing) (simp_all add: merge_responses_instructions_def, simp_all add: nonempty_texts_def)
next
  case (Cons t us)
  then have "join_char line_feed (nonempty_texts parts) \<noteq> []" using join_nonempty [of line_feed parts] by simp
  moreover have "nonempty_texts (existing # parts) = (if existing = [] then nonempty_texts parts else existing # nonempty_texts parts)"
    by (simp add: nonempty_texts_def)
  ultimately show ?thesis using Cons by (simp add: merge_responses_instructions_def)
qed

lemma no_privileged_left: "list_all (\<lambda>v. \<not> privileged_role v) items \<Longrightarrow> map_of data ''input'' = Some (JArr items) \<Longrightarrow>
    normalize_responses_input_instructions (JObj data) = JObj data"
  by (auto simp: list_all_iff list_ex_iff)

text \<open>
  The validation leaves no system or developer message in the input: the text of each of them goes to the instructions, in the
  order of the input and after the instructions the request already has, and content other than text stays where it was, in a
  message of the role user; messages of other roles stay as they are and in their order, no other field of the request
  changes, and a request without such messages is returned as it is.
\<close>

theorem privileged_messages_become_instructions:
  assumes "map_of data ''input'' = Some (JArr items)"
    and "normalize_responses_input_instructions (JObj data) = JObj data'"
    and "map_of data' ''input'' = Some (JArr items')"
  shows "items' = fst (move_items items) \<and> list_all (\<lambda>v. \<not> privileged_role v) items' \<and> subseq (filter (\<lambda>v. \<not> privileged_role v) items) items' \<and>
    (if list_ex privileged_role items
     then map_of data' ''instructions'' = Some (JStr (join_char line_feed
       (nonempty_texts (default (json_str (map_of data ''instructions'')) [] # map privileged_text items))))
     else data' = data) \<and>
    map_of data' |` (- {''input'', ''instructions''}) = map_of data |` (- {''input'', ''instructions''}) \<and>
    normalize_responses_input_instructions (JObj data') = JObj data'"
proof (cases "list_ex privileged_role items")
  case True
  let ?ins = "default (json_str (map_of data ''instructions'')) []"
  have data': "data' = AList.update ''input'' (JArr (fst (move_items items)))
      (AList.update ''instructions'' (JStr (merge_responses_instructions ?ins (snd (move_items items)))) data)"
    using assms(1,2) True by (simp add: case_prod_beta)
  then have items': "items' = concat (map (fst \<circ> move_item) items)" using assms(3) by (simp add: map_of_update move_items_def)
  have clean: "list_all (\<lambda>v. \<not> privileged_role v) items'"
    using moved_unprivileged by (auto simp: items' list_all_iff)
  have "merge_responses_instructions ?ins (snd (move_items items)) = join_char line_feed (nonempty_texts (?ins # map privileged_text items))"
    using moved_texts [of items] by (simp add: merge_is_join move_items_def) (simp add: nonempty_texts_def)
  then have "map_of data' ''instructions'' = Some (JStr (join_char line_feed (nonempty_texts (?ins # map privileged_text items))))"
    by (simp add: data' map_of_update)
  moreover have "map_of data' |` (- {''input'', ''instructions''}) = map_of data |` (- {''input'', ''instructions''})"
    by (rule ext) (simp add: data' map_of_update restrict_map_def)
  ultimately show ?thesis using True clean unprivileged_subseq no_privileged_left [OF clean assms(3)] by (simp add: items' move_items_def)
next
  case False
  then have "data' = data" "items' = items" using assms by simp_all
  moreover have "list_all (\<lambda>v. \<not> privileged_role v) items" using False by (auto simp: list_all_iff list_ex_iff)
  moreover from this have "filter (\<lambda>v. \<not> privileged_role v) items = items" by (simp add: list_all_iff)
  moreover have "fst (move_items items) = items"
    using False by (induction items) (simp_all add: move_items_def kept_unprivileged)
  ultimately show ?thesis using False assms(2) by simp
qed

end
