(* ===== verification/Message_Coercion.thy ===== *)
theory Message_Coercion
  imports Request_Input
begin

text \<open>
  Chat messages as the input of a responses request (\<open>app/core/openai/message_coercion.py\<close>): instruction messages are merged into
  the instructions, an assistant's tool calls become function call items, tool messages their outputs, and content
  parts are rewritten for the responses dialect. A payload the client is told about is \<open>ClientPayload\<close>; an exception that no
  handler expects is \<open>Raised\<close>.
\<close>

section \<open>Results\<close>

datatype request_error =
    ClientPayload string \<comment> \<open>\<open>ClientPayloadError(message, param="messages")\<close>\<close>
  | ValidationFailed string \<comment> \<open>a \<open>ValueError\<close> inside a pydantic validator\<close>
  | Raised py_error string \<comment> \<open>any other exception\<close>

type_synonym 'a checked = "request_error + 'a"

text \<open>A loop over a list that stops at the first exception.\<close>

fun traverse :: "('a \<Rightarrow> 'e + 'b) \<Rightarrow> 'a list \<Rightarrow> 'e + 'b list" where
  "traverse f [] = Inr []"
| "traverse f (x # xs) =
     (case f x of Inl e \<Rightarrow> Inl e | Inr y \<Rightarrow> (case traverse f xs of Inl e \<Rightarrow> Inl e | Inr ys \<Rightarrow> Inr (y # ys)))"

definition and_then :: "'e + 'a \<Rightarrow> ('a \<Rightarrow> 'e + 'b) \<Rightarrow> 'e + 'b" where
  "and_then r f = (case r of Inl e \<Rightarrow> Inl e | Inr x \<Rightarrow> f x)"

section \<open>Content\<close>

definition TEXT_CONTENT_PART_TYPES :: "string list" where
  "TEXT_CONTENT_PART_TYPES = [''text'', ''input_text'', ''output_text'']"

definition SUPPORTED_MESSAGE_ROLES :: "string list" where
  "SUPPORTED_MESSAGE_ROLES = [''system'', ''developer'', ''user'', ''assistant'', ''tool'']"

fun content_parts :: "json \<Rightarrow> json list" where
  "content_parts (JArr xs) = xs"
| "content_parts v = [v]"

text \<open>\<open>part_type not in (None, *types)\<close>: a tuple is searched with \<open>==\<close>, so any value can be asked for.\<close>

definition text_only_part :: "json \<Rightarrow> bool" where
  "text_only_part part =
     (case part of
        JObj kvs \<Rightarrow>
          (case field kvs ''type'' of None \<Rightarrow> True | Some (JStr t) \<Rightarrow> t \<in> set TEXT_CONTENT_PART_TYPES | Some _ \<Rightarrow> False) \<and>
          json_str (map_of kvs ''text'') \<noteq> None
      | _ \<Rightarrow> False)"

definition text_only :: "json option \<Rightarrow> bool" where
  "text_only content =
     (case content of
        None \<Rightarrow> True
      | Some (JStr s) \<Rightarrow> True
      | Some (JArr parts) \<Rightarrow> list_all (\<lambda>p. (case p of JStr s \<Rightarrow> True | _ \<Rightarrow> False) \<or> text_only_part p) parts
      | Some v \<Rightarrow> text_only_part v)"

definition ensure_text_only_content :: "json option \<Rightarrow> string \<Rightarrow> unit checked" where
  "ensure_text_only_content content role =
     (if text_only content then Inr () else Inl (ClientPayload (role @ '' messages must be text-only.'')))"

fun part_text :: "json \<Rightarrow> string option" where
  "part_text (JStr s) = Some s"
| "part_text (JObj kvs) = json_str (map_of kvs ''text'')"
| "part_text _ = None"

definition content_to_text :: "json option \<Rightarrow> string option" where
  "content_to_text content =
     (case content of
        None \<Rightarrow> None
      | Some (JStr s) \<Rightarrow> Some s
      | Some (JArr parts) \<Rightarrow> Some (join_char line_feed (nonempty_texts (List.map_filter part_text parts)))
      | Some (JObj kvs) \<Rightarrow> json_str (map_of kvs ''text'')
      | Some _ \<Rightarrow> None)"

definition merge_instructions :: "string \<Rightarrow> string list \<Rightarrow> string" where
  "merge_instructions existing extra_parts =
     (if extra_parts = [] then existing
      else let extra = join_char line_feed (nonempty_texts extra_parts)
        in if extra = [] then existing else if existing \<noteq> [] then existing @ line_feed # extra else extra)"

definition text_type_for_role :: "string \<Rightarrow> string" where
  "text_type_for_role role = (if role = ''assistant'' then ''output_text'' else ''input_text'')"

definition text_part :: "string \<Rightarrow> string \<Rightarrow> json" where
  "text_part role s = JObj [(''type'', JStr (text_type_for_role role)), (''text'', JStr s)]"

definition audio_mime_type :: "string \<Rightarrow> string" where
  "audio_mime_type fmt = (if fmt = ''wav'' then ''audio/wav'' else if fmt = ''mp3'' then ''audio/mpeg'' else ''audio/'' @ fmt)"

definition data_url :: "string \<Rightarrow> string \<Rightarrow> string" where
  "data_url mime body = ''data:'' @ mime @ '';base64,'' @ body"

definition audio_input_to_data_url :: "json option \<Rightarrow> string option" where
  "audio_input_to_data_url input_audio =
     (case input_audio of
        Some (JObj kvs) \<Rightarrow>
          (case (json_str (map_of kvs ''data''), json_str (map_of kvs ''format'')) of
             (Some body, Some fmt) \<Rightarrow> Some (data_url (audio_mime_type fmt) body)
           | _ \<Rightarrow> None)
      | _ \<Rightarrow> None)"

definition input_file :: "fields \<Rightarrow> json" where
  "input_file extra = JObj ((''type'', JStr ''input_file'') # extra)"

definition file_part_to_input_file :: "json option \<Rightarrow> json" where
  "file_part_to_input_file file_info =
     (case file_info of
        Some (JObj kvs) \<Rightarrow>
          (case nonempty_str (json_str (map_of kvs ''file_id'')) of
             Some i \<Rightarrow> input_file [(''file_id'', JStr i)]
           | None \<Rightarrow>
             (case nonempty_str (json_str (map_of kvs ''file_url'')) of
                Some u \<Rightarrow> input_file [(''file_url'', JStr u)]
              | None \<Rightarrow>
                (case first_some (json_str (map_of kvs ''file_data'')) (json_str (map_of kvs ''data'')) of
                   Some body \<Rightarrow>
                     (let mime = default (first_some (nonempty_str (json_str (map_of kvs ''mime_type'')))
                        (nonempty_str (json_str (map_of kvs ''content_type'')))) ''application/octet-stream''
                      in input_file [(''file_url'', JStr (data_url mime body))])
                 | None \<Rightarrow> input_file [])))
      | _ \<Rightarrow> input_file [])"

text \<open>
  The type of a part: \<open>part.get("type") or ("text" if "text" in part else None)\<close>. Looking up a list or an object in a frozen set
  raises, because it cannot be hashed.
\<close>

definition part_type_of :: "fields \<Rightarrow> json option" where
  "part_type_of kvs =
     (case map_of kvs ''type'' of
        Some v \<Rightarrow> if json_truthy v then Some v else if has_key kvs ''text'' then Some (JStr ''text'') else None
      | None \<Rightarrow> if has_key kvs ''text'' then Some (JStr ''text'') else None)"

fun unhashable :: "json \<Rightarrow> bool" where
  "unhashable (JArr _) = True"
| "unhashable (JObj _) = True"
| "unhashable _ = False"

definition image_part :: "fields \<Rightarrow> json" where
  "image_part kvs =
     (case map_of kvs ''image_url'' of
        Some (JObj img) \<Rightarrow>
          (case json_str (map_of img ''url'') of
             Some url \<Rightarrow> JObj ([(''type'', JStr ''input_image''), (''image_url'', JStr url)] @
               (case json_str (map_of img ''detail'') of Some d \<Rightarrow> [(''detail'', JStr d)] | None \<Rightarrow> []))
           | None \<Rightarrow> JObj kvs)
      | Some (JStr url) \<Rightarrow> JObj [(''type'', JStr ''input_image''), (''image_url'', JStr url)]
      | _ \<Rightarrow> JObj kvs)"

definition normalize_content_part :: "fields \<Rightarrow> string \<Rightarrow> json checked" where
  "normalize_content_part kvs role =
     (let part_type = part_type_of kvs
      in if (case part_type of Some t \<Rightarrow> unhashable t | None \<Rightarrow> False) then Inl (Raised TypeError ''unhashable type'')
         else if part_type \<in> (Some \<circ> JStr) ` set TEXT_CONTENT_PART_TYPES
           then Inr (case json_str (map_of kvs ''text'') of Some s \<Rightarrow> text_part role s | None \<Rightarrow> JObj kvs)
         else if role = ''assistant'' then Inr (JObj kvs)
         else if part_type = Some (JStr ''image_url'') then Inr (image_part kvs)
         else if part_type = Some (JStr ''input_image'') then Inr (JObj kvs)
         else if part_type = Some (JStr ''input_audio'')
           then Inr (case audio_input_to_data_url (map_of kvs ''input_audio'') of
             Some u \<Rightarrow> input_file [(''file_url'', JStr u)] | None \<Rightarrow> JObj kvs)
         else if part_type = Some (JStr ''file'') then Inr (file_part_to_input_file (map_of kvs ''file''))
         else Inr (JObj kvs))"

definition normalize_part :: "string \<Rightarrow> json \<Rightarrow> json checked" where
  "normalize_part role part =
     (case part of
        JStr s \<Rightarrow> Inr (text_part role s)
      | JObj kvs \<Rightarrow> normalize_content_part kvs role
      | _ \<Rightarrow> Inr part)"

fun normalize_content_parts :: "json \<Rightarrow> string \<Rightarrow> json checked" where
  "normalize_content_parts JNull role = Inr JNull"
| "normalize_content_parts (JStr s) role = Inr (JArr [text_part role s])"
| "normalize_content_parts (JArr parts) role = map_sum id JArr (traverse (normalize_part role) parts)"
| "normalize_content_parts v role = normalize_part role v"

section \<open>Messages\<close>

definition get_assistant_refusal :: "fields \<Rightarrow> string option" where
  "get_assistant_refusal message = nonempty_str (json_str (map_of message ''refusal''))"

fun to_content_list :: "json \<Rightarrow> json list" where
  "to_content_list (JArr xs) = xs"
| "to_content_list JNull = []"
| "to_content_list (JStr []) = []"
| "to_content_list v = [v]"

definition refusal_part :: "string \<Rightarrow> json" where
  "refusal_part s = JObj [(''type'', JStr ''refusal''), (''refusal'', JStr s)]"

definition add_refusal :: "string option \<Rightarrow> json list \<Rightarrow> json list" where
  "add_refusal refusal parts = parts @ (case refusal of Some r \<Rightarrow> [refusal_part r] | None \<Rightarrow> [])"

text \<open>A message carries its role and its content, nothing else.\<close>

definition role_item :: "json \<Rightarrow> json option \<Rightarrow> json" where
  "role_item role content = JObj ((''role'', role) # (case content of Some c \<Rightarrow> [(''content'', c)] | None \<Rightarrow> []))"

definition normalize_message_content :: "fields \<Rightarrow> json checked" where
  "normalize_message_content message =
     (let role = (case map_of message ''role'' of Some r \<Rightarrow> r | None \<Rightarrow> JNull);
          role_str = default (json_str (Some role)) ''user'';
          refusal = (if role_str = ''assistant'' then get_assistant_refusal message else None)
      in case field message ''content'' of
           None \<Rightarrow>
             (case refusal of
                None \<Rightarrow> Inr (role_item role (map_of message ''content''))
              | Some r \<Rightarrow> Inr (role_item role (Some (JArr [refusal_part r]))))
         | Some content \<Rightarrow>
             map_sum id (\<lambda>n. role_item role (Some (if refusal = None then n else JArr (add_refusal refusal (to_content_list n)))))
               (normalize_content_parts content role_str))"

definition function_call_item :: "string \<Rightarrow> string \<Rightarrow> string \<Rightarrow> json" where
  "function_call_item call_id name arguments =
     JObj [(''type'', JStr ''function_call''), (''call_id'', JStr call_id), (''name'', JStr name), (''arguments'', JStr arguments)]"

definition function_call_output_item :: "string \<Rightarrow> string \<Rightarrow> json" where
  "function_call_output_item call_id out =
     JObj [(''type'', JStr ''function_call_output''), (''call_id'', JStr call_id), (''output'', JStr out)]"

definition decompose_tool_call :: "json \<Rightarrow> json checked" where
  "decompose_tool_call tc =
     (case tc of
        JObj kvs \<Rightarrow>
          (case nonempty_str (json_str (map_of kvs ''id'')) of
             None \<Rightarrow> Inl (ClientPayload ''tool_calls[].id is required.'')
           | Some call_id \<Rightarrow>
             (case map_of kvs ''function'' of
                Some (JObj fn) \<Rightarrow>
                  (case nonempty_str (json_str (map_of fn ''name'')) of
                     None \<Rightarrow> Inl (ClientPayload ''tool_calls[].function.name is required.'')
                   | Some name \<Rightarrow>
                     (case json_str (map_of fn ''arguments'') of
                        None \<Rightarrow> Inl (ClientPayload ''tool_calls[].function.arguments must be a string.'')
                      | Some arguments \<Rightarrow> Inr (function_call_item call_id name arguments)))
              | _ \<Rightarrow> Inl (ClientPayload ''tool_calls[].function is required.'')))
      | _ \<Rightarrow> Inl (ClientPayload ''tool_calls entries must be objects.''))"

text \<open>The visible part of an assistant's message, when it has content or a refusal.\<close>

definition assistant_message_items :: "fields \<Rightarrow> json list checked" where
  "assistant_message_items message =
     (let refusal = get_assistant_refusal message;
          item = (\<lambda>parts. [role_item (JStr ''assistant'') (Some (JArr (add_refusal refusal parts)))])
      in case field message ''content'' of
           None \<Rightarrow> Inr (if refusal = None then [] else item [])
         | Some content \<Rightarrow> map_sum id (\<lambda>n. item (to_content_list n)) (normalize_content_parts content ''assistant''))"

definition decompose_assistant_tool_calls :: "fields \<Rightarrow> json list checked" where
  "decompose_assistant_tool_calls message =
     and_then (assistant_message_items message) (\<lambda>items.
       case map_of message ''tool_calls'' of
         Some (JArr tcs) \<Rightarrow> map_sum id (\<lambda>calls. items @ calls) (traverse decompose_tool_call tcs)
       | _ \<Rightarrow> Inr items)"

definition concat_text_parts :: "json list \<Rightarrow> string" where
  "concat_text_parts parts = concat (List.map_filter part_text parts)"

definition convert_tool_message :: "fields \<Rightarrow> json checked" where
  "convert_tool_message message =
     (case tool_call_id_of message of
        None \<Rightarrow> Inl (ClientPayload ''tool messages must include 'tool_call_id'.'')
      | Some call_id \<Rightarrow>
          (case field message ''content'' of
             Some (JStr s) \<Rightarrow> Inr (function_call_output_item call_id s)
           | Some (JArr parts) \<Rightarrow>
               if concat_text_parts parts = [] \<and> parts \<noteq> []
               then Inl (ClientPayload ''tool message content array contains no valid text parts.'')
               else Inr (function_call_output_item call_id (concat_text_parts parts))
           | None \<Rightarrow> Inl (ClientPayload ''tool message content is required.'')
           | Some _ \<Rightarrow> Inl (ClientPayload ''tool message content must be a string or array.'')))"

text \<open>One message: the input items and the instruction text it contributes.\<close>

definition coerce_message :: "bool \<Rightarrow> json \<Rightarrow> (json list \<times> string list) checked" where
  "coerce_message preserve message =
     (case message of
        JObj kvs \<Rightarrow>
          (case json_str (map_of kvs ''role'') of
             None \<Rightarrow> Inl (ClientPayload ''Each message must include a string 'role'.'')
           | Some role \<Rightarrow>
             if role \<notin> set SUPPORTED_MESSAGE_ROLES then Inl (ClientPayload (''Unsupported message role: '' @ role))
             else if role \<in> {''system'', ''developer''}
               then and_then (ensure_text_only_content (field kvs ''content'') role) (\<lambda>_.
                 if preserve then map_sum id (\<lambda>item. ([item], [])) (normalize_message_content kvs)
                 else Inr ([], nonempty_texts (case content_to_text (field kvs ''content'') of Some t \<Rightarrow> [t] | None \<Rightarrow> [])))
             else if role = ''tool'' then map_sum id (\<lambda>item. ([item], [])) (convert_tool_message kvs)
             else if role = ''assistant''
               then (case map_of kvs ''tool_calls'' of
                 Some (JArr (tc # tcs)) \<Rightarrow> map_sum id (\<lambda>items. (items, [])) (decompose_assistant_tool_calls kvs)
               | _ \<Rightarrow> map_sum id (\<lambda>item. ([item], [])) (normalize_message_content kvs))
             else map_sum id (\<lambda>item. ([item], [])) (normalize_message_content kvs))
      | _ \<Rightarrow> Inl (ClientPayload ''Each message must be an object.''))"

definition coerce_messages :: "string \<Rightarrow> json list \<Rightarrow> bool \<Rightarrow> (string \<times> json list) checked" where
  "coerce_messages existing_instructions messages preserve =
     map_sum id (\<lambda>rs. (merge_instructions existing_instructions (concat (map snd rs)), concat (map fst rs)))
       (traverse (coerce_message preserve) messages)"

text \<open>
  The request that is built from the messages: \<open>to_responses_request\<close> stores instructions and input, and the validation of
  \<open>ResponsesRequest\<close> moves what is left of instruction messages.
\<close>

definition with_messages :: "fields \<Rightarrow> string \<Rightarrow> json list \<Rightarrow> bool \<Rightarrow> json checked" where
  "with_messages data existing_instructions messages preserve =
     map_sum id (\<lambda>(instructions, input_items). normalize_responses_input_instructions
         (JObj (AList.update ''input'' (JArr input_items) (AList.update ''instructions'' (JStr instructions) data))))
       (coerce_messages existing_instructions messages preserve)"

section \<open>Loops\<close>

lemma traverse_map_sum:
  "(\<And>x. x \<in> set xs \<Longrightarrow> f x = map_sum id h (g x)) \<Longrightarrow> traverse f xs = map_sum id (map h) (traverse g xs)"
  by (induction xs) (auto split: sum.split)

lemma traverse_Inr: "(\<And>x. x \<in> set xs \<Longrightarrow> f x = Inr (g x)) \<Longrightarrow> traverse f xs = Inr (map g xs)"
  by (induction xs) simp_all

lemma traverse_all2: "traverse f xs = Inr ys \<longleftrightarrow> list_all2 (\<lambda>x y. f x = Inr y) xs ys"
proof (induction xs arbitrary: ys)
  case (Cons x xs)
  have "traverse f (x # xs) = Inr ys \<longleftrightarrow> (\<exists>y ys'. f x = Inr y \<and> traverse f xs = Inr ys' \<and> ys = y # ys')"
    by (auto split: sum.splits)
  then show ?case by (auto simp: Cons.IH list_all2_Cons1)
qed auto

lemma traverse_source: "traverse f xs = Inr ys \<Longrightarrow> y \<in> set ys \<Longrightarrow> \<exists>x \<in> set xs. f x = Inr y"
  by (induction xs arbitrary: ys) (fastforce split: sum.splits)+

section \<open>Instruction messages in JSON mode\<close>

lemma text_only_part_normalized:
  assumes "text_only_part p"
  shows "\<exists>s. normalize_part role p = Inr (text_part role s) \<and> part_text p = Some s"
proof (cases p)
  case (JObj kvs)
  then obtain s where s: "map_of kvs ''text'' = Some (JStr s)"
    using assms by (cases "map_of kvs ''text''"; cases "the (map_of kvs ''text'')") (auto simp: text_only_part_def)
  have "part_type_of kvs \<in> (Some \<circ> JStr) ` set TEXT_CONTENT_PART_TYPES"
    using assms s JObj
    by (cases "map_of kvs ''type''"; cases "the (map_of kvs ''type'')")
      (auto simp: text_only_part_def part_type_of_def field_def has_key_def TEXT_CONTENT_PART_TYPES_def)
  then show ?thesis using s JObj by (auto simp: normalize_part_def normalize_content_part_def)
qed (use assms in \<open>simp_all add: text_only_part_def\<close>)

lemma text_of_text_part [simp]: "responses_instruction_content_text (text_part role s) = Some s"
  by (simp add: text_part_def)

lemma text_parts_normalized:
  assumes "list_all (\<lambda>p. (case p of JStr s \<Rightarrow> True | _ \<Rightarrow> False) \<or> text_only_part p) parts"
  shows "traverse (normalize_part role) parts = Inr (map (text_part role) (List.map_filter part_text parts))"
  using assms
proof (induction parts)
  case (Cons p parts)
  then consider s where "p = JStr s" | "text_only_part p" by (cases p) auto
  then show ?case
  proof cases
    case 1
    then show ?thesis using Cons by (simp add: normalize_part_def List.map_filter_simps)
  next
    case 2
    then show ?thesis using Cons text_only_part_normalized [OF 2, of role] by (auto simp: List.map_filter_simps)
  qed
qed (simp add: List.map_filter_simps)

lemma split_text_parts:
  "split_responses_instruction_item_content [(''role'', r), (''content'', JArr (map (text_part role) ts))] = (join_char line_feed (nonempty_texts ts), None)"
proof -
  have "List.map_filter responses_instruction_content_text (map (text_part role) ts) = ts"
    by (induction ts) (simp_all add: List.map_filter_simps)
  then show ?thesis by (simp add: split_responses_instruction_item_content_def field_def)
qed

lemma instruction_message_moved:
  assumes "text_only (field kvs ''content'')" and "map_of kvs ''role'' = Some (JStr role)" and "role \<in> {''system'', ''developer''}"
  shows "\<exists>item. normalize_message_content kvs = Inr item \<and>
    move_item item = ([], nonempty_texts (case content_to_text (field kvs ''content'') of Some t \<Rightarrow> [t] | None \<Rightarrow> []))"
proof -
  have move: "move_item (role_item (JStr role) c) = ([], nonempty_texts [t])"
    if "split_responses_instruction_item_content ((''role'', JStr role) # (case c of Some c \<Rightarrow> [(''content'', c)] | None \<Rightarrow> [])) = (t, None)"
    for c t
    using that assms(3) by (auto simp: move_item_def role_item_def privileged_role_def nonempty_texts_def)
  have move_parts: "move_item (role_item (JStr role) (Some (JArr (map (text_part role) ts)))) =
      ([], nonempty_texts [join_char line_feed (nonempty_texts ts)])" for ts
    by (rule move) (simp add: split_text_parts)
  have r: "role \<noteq> ''assistant''" using assms(3) by auto
  show ?thesis
  proof (cases "field kvs ''content''")
    case None
    then have "split_responses_instruction_item_content
        ((''role'', JStr role) # (case map_of kvs ''content'' of Some c \<Rightarrow> [(''content'', c)] | None \<Rightarrow> [])) = ([], None)"
      by (auto simp: split_responses_instruction_item_content_def field_def split: option.splits json.splits)
    from move [OF this] None r show ?thesis
      by (simp add: normalize_message_content_def assms(2) Let_def content_to_text_def nonempty_texts_def)
  next
    case (Some c)
    have norm: "normalize_message_content kvs = map_sum id (\<lambda>n. role_item (JStr role) (Some n)) (normalize_content_parts c role)"
      using Some r by (simp add: normalize_message_content_def assms(2) Let_def)
    show ?thesis
    proof (cases c)
      case (JStr s)
      then show ?thesis
        using norm Some move_parts [of "[s]"] by (simp add: content_to_text_def) (simp add: nonempty_texts_def)
    next
      case (JArr parts)
      then have "normalize_content_parts c role = Inr (JArr (map (text_part role) (List.map_filter part_text parts)))"
        using assms(1) Some by (simp add: text_only_def text_parts_normalized)
      then show ?thesis
        using norm Some JArr move_parts by (simp add: content_to_text_def)
    next
      case (JObj part)
      then have "text_only_part c" using assms(1) Some by (simp add: text_only_def)
      from text_only_part_normalized [OF this, of role] obtain s
        where s: "normalize_part role c = Inr (text_part role s)" "part_text c = Some s" by blast
      have "split_responses_instruction_item_content [(''role'', JStr role), (''content'', text_part role s)] = (s, None)"
        by (simp add: split_responses_instruction_item_content_def field_def text_part_def)
      from move [of "Some (text_part role s)" s] this show ?thesis
        using norm Some JObj s by (simp add: content_to_text_def)
    qed (use assms(1) Some in \<open>simp_all add: text_only_def text_only_part_def\<close>)
  qed
qed

lemma normalized_role_item:
  assumes "normalize_message_content kvs = Inr item" and "map_of kvs ''role'' = Some (JStr role)"
  shows "\<exists>c. item = role_item (JStr role) c"
  using assms by (auto simp: normalize_message_content_def Let_def map_sum_def split: option.splits sum.splits)

lemma privileged_role_item [simp]: "privileged_role (role_item (JStr role) c) \<longleftrightarrow> role \<in> {''system'', ''developer''}"
  by (auto simp: privileged_role_def role_item_def)

lemma unprivileged_calls [simp]:
  "\<not> privileged_role (function_call_item i n a)" "\<not> privileged_role (function_call_output_item i out)"
  by (simp_all add: privileged_role_def function_call_item_def function_call_output_item_def)

lemma move_items_unprivileged: "list_all (\<lambda>v. \<not> privileged_role v) items \<Longrightarrow> move_items items = (items, [])"
  by (induction items) (simp_all add: move_items_def kept_unprivileged)

lemma decomposed_tool_call: "decompose_tool_call tc = Inr item \<Longrightarrow> \<exists>i n a. item = function_call_item i n a"
  by (auto simp: decompose_tool_call_def split: json.splits option.splits)

lemma decomposed_items:
  assumes "decompose_assistant_tool_calls kvs = Inr items"
  shows "\<forall>item \<in> set items. (\<exists>c. item = role_item (JStr ''assistant'') c) \<or> (\<exists>i n a. item = function_call_item i n a)"
proof -
  obtain head where head: "assistant_message_items kvs = Inr head"
    using assms by (cases "assistant_message_items kvs") (auto simp: decompose_assistant_tool_calls_def and_then_def)
  then have h: "\<forall>item \<in> set head. \<exists>c. item = role_item (JStr ''assistant'') c"
    by (auto simp: assistant_message_items_def Let_def map_sum_def split: option.splits sum.splits if_splits)
  consider "items = head" | tcs calls where "traverse decompose_tool_call tcs = Inr calls" "items = head @ calls"
    using assms head
    by (auto simp: decompose_assistant_tool_calls_def and_then_def map_sum_def split: option.splits json.splits sum.splits)
  then show ?thesis
  proof cases
    case 2
    have "\<forall>item \<in> set calls. \<exists>i n a. item = function_call_item i n a"
      using traverse_source [OF 2(1)] decomposed_tool_call by blast
    then show ?thesis using h 2(2) by auto
  qed (use h in auto)
qed

lemma converted_tool_message: "convert_tool_message kvs = Inr item \<Longrightarrow> \<exists>i out. item = function_call_output_item i out"
  by (auto simp: convert_tool_message_def split: option.splits json.splits if_splits)

text \<open>The items of a message that is no instruction message.\<close>

definition plain_role :: "fields \<Rightarrow> bool" where
  "plain_role kvs = (json_str (map_of kvs ''role'') \<notin> {Some ''system'', Some ''developer''})"

lemma plain_message:
  assumes "plain_role kvs"
  shows "coerce_message preserve (JObj kvs) = coerce_message False (JObj kvs)"
    and "coerce_message False (JObj kvs) = Inr (items, texts) \<Longrightarrow> texts = [] \<and> list_all (\<lambda>v. \<not> privileged_role v) items"
proof -
  show "coerce_message preserve (JObj kvs) = coerce_message False (JObj kvs)"
    using assms by (simp add: coerce_message_def plain_role_def split: option.split)
  assume c: "coerce_message False (JObj kvs) = Inr (items, texts)"
  then obtain role where role: "map_of kvs ''role'' = Some (JStr role)" "role \<noteq> ''system''" "role \<noteq> ''developer''"
    using assms
    by (cases "map_of kvs ''role''"; cases "the (map_of kvs ''role'')") (auto simp: coerce_message_def plain_role_def)
  have item: "\<not> privileged_role item" if "normalize_message_content kvs = Inr item" for item
    using normalized_role_item [OF that role(1)] role by auto
  have single: "texts = [] \<and> list_all (\<lambda>v. \<not> privileged_role v) items"
    if "map_sum id (\<lambda>item. ([item], [])) r = Inr (items, texts)" "\<And>item. r = Inr item \<Longrightarrow> \<not> privileged_role item" for r :: "json checked"
    using that by (cases r) auto
  consider "role = ''tool''" | tc tcs where "role = ''assistant''" "map_of kvs ''tool_calls'' = Some (JArr (tc # tcs))"
    | "map_sum id (\<lambda>item. ([item], [])) (normalize_message_content kvs) = Inr (items, texts)"
    using c role by (auto simp: coerce_message_def split: if_splits option.splits json.splits list.splits)
  then show "texts = [] \<and> list_all (\<lambda>v. \<not> privileged_role v) items"
  proof cases
    case 1
    then have "map_sum id (\<lambda>item. ([item], [])) (convert_tool_message kvs) = Inr (items, texts)"
      using c role by (simp add: coerce_message_def split: if_splits)
    then show ?thesis by (rule single) (use converted_tool_message [of kvs] in fastforce)
  next
    case 2
    then obtain "decompose_assistant_tool_calls kvs = Inr items" "texts = []"
      using c role by (cases "decompose_assistant_tool_calls kvs") (auto simp: coerce_message_def split: if_splits)
    then show ?thesis using decomposed_items [of kvs items] by (fastforce simp: list_all_iff)
  next
    case 3
    then show ?thesis by (rule single) (rule item)
  qed
qed

lemma preserved_message:
  "coerce_message False m = map_sum id (\<lambda>(items, _). move_items items) (coerce_message True m)"
  "coerce_message True m = Inr (items, texts) \<Longrightarrow> texts = []"
proof -
  have "coerce_message False m = map_sum id (\<lambda>(items, _). move_items items) (coerce_message True m) \<and>
    (\<forall>items texts. coerce_message True m = Inr (items, texts) \<longrightarrow> texts = [])"
  proof (cases m)
    case (JObj kvs)
    show ?thesis
    proof (cases "plain_role kvs")
      case True
      then show ?thesis
        using plain_message [OF True] move_items_unprivileged JObj
        by (cases "coerce_message False (JObj kvs)") (auto simp: plain_message(1) [OF True, of True])
    next
      case False
      then obtain role where role: "map_of kvs ''role'' = Some (JStr role)" "role \<in> {''system'', ''developer''}"
        by (cases "map_of kvs ''role''"; cases "the (map_of kvs ''role'')") (auto simp: plain_role_def)
      then have sup: "role \<in> set SUPPORTED_MESSAGE_ROLES" by (auto simp: SUPPORTED_MESSAGE_ROLES_def)
      show ?thesis
      proof (cases "text_only (field kvs ''content'')")
        case True
        from instruction_message_moved [OF True role] obtain item where item: "normalize_message_content kvs = Inr item"
          "move_item item = ([], nonempty_texts (case content_to_text (field kvs ''content'') of Some t \<Rightarrow> [t] | None \<Rightarrow> []))" by blast
        then show ?thesis
          using True role sup JObj by (simp add: coerce_message_def ensure_text_only_content_def and_then_def move_items_def)
      next
        case False
        then show ?thesis using role sup JObj by (simp add: coerce_message_def ensure_text_only_content_def and_then_def)
      qed
    qed
  qed (simp_all add: coerce_message_def)
  then show "coerce_message False m = map_sum id (\<lambda>(items, _). move_items items) (coerce_message True m)"
    "coerce_message True m = Inr (items, texts) \<Longrightarrow> texts = []" by blast+
qed

lemma update_update_same: "AList.update k v (AList.update k w kvs) = AList.update k v kvs"
  by (induction kvs) auto

lemma update_commute: "k \<noteq> l \<Longrightarrow> map_of kvs k \<noteq> None \<Longrightarrow> AList.update k v (AList.update l w kvs) = AList.update l w (AList.update k v kvs)"
  by (induction kvs) auto

lemma update_pair:
  "AList.update ''input'' x (AList.update ''instructions'' y (AList.update ''input'' x' (AList.update ''instructions'' y' data))) =
     AList.update ''input'' x (AList.update ''instructions'' y data)"
proof -
  have "AList.update ''instructions'' y (AList.update ''input'' x' (AList.update ''instructions'' y' data)) =
    AList.update ''input'' x' (AList.update ''instructions'' y (AList.update ''instructions'' y' data))"
    by (rule update_commute) (simp_all add: map_of_update)
  then show ?thesis by (simp add: update_update_same)
qed

lemma move_items_concat:
  "move_items (concat (map f xs)) = (concat (map (fst \<circ> move_items \<circ> f) xs), concat (map (snd \<circ> move_items \<circ> f) xs))"
  by (induction xs) (simp_all add: move_items_def)

lemma merge_instructions_eq: "merge_instructions existing parts = merge_responses_instructions existing parts"
  by (simp add: merge_instructions_def merge_responses_instructions_def nonempty_texts_def)

lemma normalized_with_items:
  "normalize_responses_input_instructions (JObj (AList.update ''input'' (JArr items) (AList.update ''instructions'' (JStr ins) data))) =
     JObj (AList.update ''input'' (JArr (fst (move_items items)))
       (AList.update ''instructions'' (JStr (merge_responses_instructions ins (snd (move_items items)))) data))"
proof (cases "list_ex privileged_role items")
  case True
  then show ?thesis by (simp add: map_of_update case_prod_beta update_pair)
next
  case False
  then have "list_all (\<lambda>v. \<not> privileged_role v) items" by (auto simp: list_all_iff list_ex_iff)
  then show ?thesis
    using False by (simp add: map_of_update move_items_unprivileged merge_responses_instructions_def nonempty_texts_def)
qed

lemma moved_items_fixed: "move_items (fst (move_items items)) = (fst (move_items items), [])"
  using moved_unprivileged by (intro move_items_unprivileged) (auto simp: move_items_def list_all_iff)

text \<open>
  Whether the instruction roles of chat messages are preserved, which the adapter asks for when the client wants a JSON
  object, makes no difference to the request that is built: what the coercion leaves in the input, the validation of the
  request moves into the instructions, the same text in the same place, and both modes refuse the same messages with the
  same error.
\<close>

theorem preserving_roles_has_no_effect:
  "with_messages data existing messages True = with_messages data existing messages False"
proof -
  have all: "traverse (coerce_message False) messages =
      map_sum id (map (\<lambda>(items, _). move_items items)) (traverse (coerce_message True) messages)"
    by (rule traverse_map_sum) (rule preserved_message(1))
  show ?thesis
  proof (cases "traverse (coerce_message True) messages")
    case (Inl e)
    then show ?thesis using all by (simp add: with_messages_def coerce_messages_def)
  next
    case (Inr rs)
    have none: "concat (map snd rs) = []"
    proof -
      have "snd r = []" if "r \<in> set rs" for r
        using traverse_source [OF Inr that] preserved_message(2) by (cases r) fastforce
      then show ?thesis by simp
    qed
    have items: "move_items (concat (map fst rs)) =
      (concat (map (fst \<circ> (\<lambda>(items, _). move_items items)) rs), concat (map (snd \<circ> (\<lambda>(items, _). move_items items)) rs))"
      by (simp add: move_items_concat comp_def case_prod_beta)
    then have fixed: "move_items (concat (map (fst \<circ> (\<lambda>(items, _). move_items items)) rs)) =
      (concat (map (fst \<circ> (\<lambda>(items, _). move_items items)) rs), [])"
      using moved_items_fixed [of "concat (map fst rs)"] by simp
    have idle: "merge_responses_instructions i [] = i" for i
      by (simp add: merge_responses_instructions_def nonempty_texts_def)
    show ?thesis
      by (simp add: with_messages_def coerce_messages_def all Inr none merge_instructions_eq idle normalized_with_items items fixed [unfolded comp_def] comp_def
          del: normalize_responses_input_instructions.simps)
  qed
qed

section \<open>Tool calls survive the coercion\<close>

text \<open>The keys an input item is forwarded with; an output is no longer a message with the role of a tool.\<close>

definition forwarded_shape :: "json \<Rightarrow> bool" where
  "forwarded_shape item =
     (case item of
        JObj kvs \<Rightarrow> map fst kvs \<in> {[''role''], [''role'', ''content''], [''type'', ''call_id'', ''name'', ''arguments''],
          [''type'', ''call_id'', ''output'']} \<and> map_of kvs ''role'' \<noteq> Some (JStr ''tool'')
      | _ \<Rightarrow> False)"

type_synonym tool_call = "string option \<times> string option \<times> string option"

definition call_of :: "json \<Rightarrow> tool_call option" where
  "call_of item =
     (if json_get item ''type'' = Some (JStr ''function_call'')
      then Some (json_str (json_get item ''call_id''), json_str (json_get item ''name''), json_str (json_get item ''arguments''))
      else None)"

definition output_of :: "json \<Rightarrow> string option" where
  "output_of item =
     (if json_get item ''type'' = Some (JStr ''function_call_output'') then json_str (json_get item ''call_id'') else None)"

text \<open>What a chat message declares.\<close>

definition declared_call :: "json \<Rightarrow> tool_call" where
  "declared_call tc =
     (let fn = (case json_get tc ''function'' of Some v \<Rightarrow> v | None \<Rightarrow> JNull)
      in (json_str (json_get tc ''id''), json_str (json_get fn ''name''), json_str (json_get fn ''arguments'')))"

definition declared_calls :: "json \<Rightarrow> tool_call list" where
  "declared_calls m =
     (case (json_get m ''role'', json_get m ''tool_calls'') of
        (Some (JStr role), Some (JArr tcs)) \<Rightarrow> if role = ''assistant'' then map declared_call tcs else []
      | _ \<Rightarrow> [])"

definition declared_outputs :: "json \<Rightarrow> string list" where
  "declared_outputs m =
     (case m of
        JObj kvs \<Rightarrow> if map_of kvs ''role'' = Some (JStr ''tool'') then (case tool_call_id_of kvs of Some i \<Rightarrow> [i] | None \<Rightarrow> []) else []
      | _ \<Rightarrow> [])"

definition faithful_items :: "tool_call list \<Rightarrow> string list \<Rightarrow> json list \<Rightarrow> bool" where
  "faithful_items calls outputs items \<longleftrightarrow>
     list_all forwarded_shape items \<and> List.map_filter call_of items = calls \<and> List.map_filter output_of items = outputs"

lemma map_filter_append: "List.map_filter f (xs @ ys) = List.map_filter f xs @ List.map_filter f ys"
  by (simp add: List.map_filter_def)

lemma faithful_append:
  "faithful_items cs os xs \<Longrightarrow> faithful_items cs' os' ys \<Longrightarrow> faithful_items (cs @ cs') (os @ os') (xs @ ys)"
  by (simp add: faithful_items_def map_filter_append)

lemma faithful_role_item: "role \<noteq> ''tool'' \<Longrightarrow> faithful_items [] [] [role_item (JStr role) c]"
  by (auto simp: faithful_items_def forwarded_shape_def role_item_def call_of_def output_of_def List.map_filter_simps split: option.split)

lemma faithful_calls: "traverse decompose_tool_call tcs = Inr items \<Longrightarrow> faithful_items (map declared_call tcs) [] items"
proof (induction tcs arbitrary: items)
  case (Cons tc tcs)
  then obtain item rest where r: "decompose_tool_call tc = Inr item" "traverse decompose_tool_call tcs = Inr rest" "items = item # rest"
    by (auto split: sum.splits)
  then have "faithful_items [declared_call tc] [] [item]"
    by (auto simp: decompose_tool_call_def faithful_items_def forwarded_shape_def function_call_item_def call_of_def output_of_def
        declared_call_def List.map_filter_simps split: json.splits option.splits dest!: nonempty_strD)
  then show ?case using faithful_append [OF _ Cons.IH [OF r(2)]] r(3) by fastforce
qed (simp add: faithful_items_def List.map_filter_simps)

lemma coerced_message_role:
  assumes "coerce_message preserve m = Inr r"
  shows "\<exists>kvs role. m = JObj kvs \<and> map_of kvs ''role'' = Some (JStr role) \<and> role \<in> set SUPPORTED_MESSAGE_ROLES"
proof -
  obtain kvs where m: "m = JObj kvs" using assms by (cases m) (auto simp: coerce_message_def)
  then obtain v where "map_of kvs ''role'' = Some v" using assms by (cases "map_of kvs ''role''") (auto simp: coerce_message_def)
  then show ?thesis using assms m by (cases v) (auto simp: coerce_message_def split: if_splits)
qed

lemma faithful_message:
  assumes "coerce_message preserve m = Inr (items, texts)"
  shows "faithful_items (declared_calls m) (declared_outputs m) items"
proof -
  obtain kvs role where m: "m = JObj kvs" and role: "map_of kvs ''role'' = Some (JStr role)" "role \<in> set SUPPORTED_MESSAGE_ROLES"
    using coerced_message_role [OF assms] by blast
  have single: "faithful_items [] [] items"
    if "map_sum id (\<lambda>item. ([item], [])) (normalize_message_content kvs) = Inr (items, texts)" "role \<noteq> ''tool''"
    using that normalized_role_item [OF _ role(1)] faithful_role_item by (cases "normalize_message_content kvs") auto
  consider (ins) "role \<in> {''system'', ''developer''}" | (tool) "role = ''tool''"
    | (calls) tc tcs where "role = ''assistant''" "map_of kvs ''tool_calls'' = Some (JArr (tc # tcs))"
    | (plain) "role \<noteq> ''tool''" "declared_calls m = []" "map_sum id (\<lambda>item. ([item], [])) (normalize_message_content kvs) = Inr (items, texts)"
    using assms role by (auto simp: m coerce_message_def declared_calls_def split: if_splits option.splits json.splits list.splits)
  then show ?thesis
  proof cases
    case ins
    then have "declared_calls m = []" "declared_outputs m = []"
      using role by (auto simp: m declared_calls_def declared_outputs_def split: option.split json.split)
    moreover have "faithful_items [] [] items"
      using ins assms role single
      by (cases preserve) (auto simp: m coerce_message_def ensure_text_only_content_def and_then_def faithful_items_def List.map_filter_simps split: if_splits)
    ultimately show ?thesis by simp
  next
    case tool
    then obtain i item where "tool_call_id_of kvs = Some i" "convert_tool_message kvs = Inr item" "items = [item]"
      using assms role
      by (cases "convert_tool_message kvs"; cases "tool_call_id_of kvs") (auto simp: m coerce_message_def convert_tool_message_def)
    moreover from this have "\<exists>out. item = function_call_output_item i out"
      by (auto simp: convert_tool_message_def split: option.splits json.splits if_splits)
    ultimately show ?thesis using tool role
      by (auto simp: m faithful_items_def forwarded_shape_def function_call_output_item_def call_of_def output_of_def declared_calls_def
          declared_outputs_def List.map_filter_simps split: option.split json.split)
  next
    case calls
    then obtain head cs where head: "assistant_message_items kvs = Inr head" "traverse decompose_tool_call (tc # tcs) = Inr cs" "items = head @ cs"
      using assms role
      by (cases "assistant_message_items kvs"; cases "traverse decompose_tool_call (tc # tcs)")
        (auto simp: m coerce_message_def decompose_assistant_tool_calls_def and_then_def SUPPORTED_MESSAGE_ROLES_def simp del: traverse.simps)
    have "faithful_items [] [] head"
      using head(1) faithful_role_item
      by (auto simp: assistant_message_items_def Let_def map_sum_def faithful_items_def List.map_filter_simps split: option.splits sum.splits if_splits)
    from faithful_append [OF this faithful_calls [OF head(2)]] show ?thesis
      using calls role head(3) by (simp add: m declared_calls_def declared_outputs_def)
  next
    case plain
    then show ?thesis using single role by (simp add: m declared_outputs_def)
  qed
qed

lemma faithful_coercion:
  "traverse (coerce_message preserve) messages = Inr rs \<Longrightarrow>
     faithful_items (concat (map declared_calls messages)) (concat (map declared_outputs messages)) (concat (map fst rs))"
proof (induction messages arbitrary: rs)
  case (Cons m ms)
  then obtain r rest where r: "coerce_message preserve m = Inr r" "traverse (coerce_message preserve) ms = Inr rest" "rs = r # rest"
    by (auto split: sum.splits)
  then show ?case
    using faithful_append [OF faithful_message [of preserve m "fst r" "snd r"] Cons.IH [OF r(2)]] by simp
qed (simp add: faithful_items_def List.map_filter_simps)

text \<open>What the coercion leaves in the input, after the instruction messages have been moved.\<close>

lemma faithful_moved:
  assumes "coerce_messages existing messages preserve = Inr (instructions, items)"
  shows "faithful_items (concat (map declared_calls messages)) (concat (map declared_outputs messages)) (fst (move_items items))"
proof -
  obtain rs where rs: "traverse (coerce_message preserve) messages = Inr rs" "items = concat (map fst rs)"
    using assms by (cases "traverse (coerce_message preserve) messages") (auto simp: coerce_messages_def)
  show ?thesis
  proof (cases preserve)
    case True
    then have "traverse (coerce_message False) messages = Inr (map (\<lambda>(items, _). move_items items) rs)"
      using rs(1) traverse_map_sum [of messages "coerce_message False" "\<lambda>(items, _). move_items items" "coerce_message True"] preserved_message(1)
      by simp
    from faithful_coercion [OF this] show ?thesis by (simp add: rs(2) move_items_concat comp_def case_prod_beta)
  next
    case False
    have "list_all (\<lambda>v. \<not> privileged_role v) (fst r)" if r: "r \<in> set rs" for r
    proof -
      obtain m where "coerce_message False m = Inr r" using traverse_source [OF rs(1) r] False by auto
      then obtain q where "fst r = fst (move_items q)" using preserved_message(1) [of m] by (cases "coerce_message True m") auto
      then show ?thesis using moved_unprivileged by (auto simp: move_items_def list_all_iff)
    qed
    then have "list_all (\<lambda>v. \<not> privileged_role v) items" using rs(2) by (auto simp: list_all_iff)
    then show ?thesis using faithful_coercion [OF rs(1)] rs(2) by (simp add: move_items_unprivileged)
  qed
qed

definition example_call :: json where
  "example_call = JObj [(''id'', JStr ''c1''), (''function'', JObj [(''name'', JStr ''f''), (''arguments'', JStr ''1'')])]"

definition example_messages :: "json list" where
  "example_messages =
     [JObj [(''role'', JStr ''system''), (''content'', JStr ''be brief'')], JObj [(''role'', JStr ''user''), (''name'', JStr ''x''), (''content'', JStr ''hi'')],
      JObj [(''role'', JStr ''assistant''), (''tool_calls'', JArr [example_call])],
      JObj [(''role'', JStr ''tool''), (''tool_call_id'', JStr ''c1''), (''content'', JStr ''2'')]]"

text \<open>
  A content part whose type is an object makes the coercion raise an exception that is not a client error, so the endpoints,
  which expect client errors only, answer with an internal error.
\<close>

lemma unhashable_type_raises:
  "coerce_messages [] [JObj [(''role'', JStr ''user''), (''content'', JArr [JObj [(''type'', JObj [(''a'', JNull)]), (''text'', JStr ''hi'')]])]] False =
     Inl (Raised TypeError ''unhashable type'')"
  by code_simp

end
