(* ===== verification/Chat_Request.thy ===== *)
theory Chat_Request
  imports Message_Coercion
begin

text \<open>
  Requests as they are validated (\<open>ResponsesRequest\<close> in \<open>app/core/openai/requests.py\<close>) and chat requests as they become
  responses requests (\<open>app/core/openai/chat_requests.py\<close>, \<open>app/core/openai/v1_requests.py\<close>).

  \<^item> A request is the dictionary that \<open>model_dump(mode="json", exclude_none=True)\<close> returns. What pydantic itself does, the types
    of the fields, is not modelled; the validators of the classes are.
  \<^item> The two payload classes that are parsed on the way, \<open>ResponsesTextControls\<close> and \<open>ChatResponseFormat\<close>, are functions in
    \<open>parsers\<close>; the validator of the second is a definition.
\<close>

section \<open>Tools\<close>

definition CHAT_UNSUPPORTED_TOOL_TYPES :: "string list" where
  "CHAT_UNSUPPORTED_TOOL_TYPES = [''file_search'', ''code_interpreter'', ''computer_use'', ''computer_use_preview'', ''image_generation'']"

definition normalize_tool_type :: "string \<Rightarrow> string" where
  "normalize_tool_type t = (if t = ''web_search_preview'' then ''web_search'' else t)"

text \<open>An object whose type is an alias gets the name the alias stands for.\<close>

definition rename_type :: "fields \<Rightarrow> fields" where
  "rename_type kvs =
     (case json_str (map_of kvs ''type'') of
        Some t \<Rightarrow> if normalize_tool_type t \<noteq> t then AList.update ''type'' (JStr (normalize_tool_type t)) kvs else kvs
      | None \<Rightarrow> kvs)"

fun normalize_tool_choice :: "json \<Rightarrow> json" where
  "normalize_tool_choice (JObj kvs) = JObj (rename_type kvs)"
| "normalize_tool_choice v = v"

definition validate_tool :: "string list \<Rightarrow> bool \<Rightarrow> json \<Rightarrow> json checked" where
  "validate_tool unsupported allow_builtin tool =
     (case tool of
        JObj kvs \<Rightarrow>
          (case json_str (map_of (rename_type kvs) ''type'') of
             Some t \<Rightarrow> if \<not> allow_builtin \<and> t \<in> set unsupported then Inl (ValidationFailed (''Unsupported tool type: '' @ t))
               else Inr (JObj (rename_type kvs))
           | None \<Rightarrow> Inr (JObj kvs))
      | _ \<Rightarrow> Inr tool)"

definition validate_tool_types :: "string list \<Rightarrow> bool \<Rightarrow> json list \<Rightarrow> json list checked" where
  "validate_tool_types unsupported allow_builtin tools = traverse (validate_tool unsupported allow_builtin) tools"

section \<open>The responses request\<close>

definition RESPONSES_INCLUDE_ALLOWLIST :: "string list" where
  "RESPONSES_INCLUDE_ALLOWLIST =
     [''code_interpreter_call.outputs'', ''computer_call_output.output.image_url'', ''file_search_call.results'',
      ''message.input_image.image_url'', ''message.output_text.logprobs'', ''reasoning.encrypted_content'',
      ''web_search_call.action.sources'']"

text \<open>
  A field that is validated when the request has it; \<open>None\<close> takes the field out, as the dump leaves it out. Pydantic collects
  the errors of all fields, here the first one is kept; the order of the keys in the dump is not tracked.
\<close>

definition at_field :: "string \<Rightarrow> (json \<Rightarrow> json option checked) \<Rightarrow> fields \<Rightarrow> fields checked" where
  "at_field k f data =
     (case field data k of
        None \<Rightarrow> Inr (AList.delete k data)
      | Some v \<Rightarrow> map_sum id (\<lambda>w. case w of Some w' \<Rightarrow> AList.update k w' data | None \<Rightarrow> AList.delete k data) (f v))"

fun validate_include :: "json \<Rightarrow> json option checked" where
  "validate_include (JArr entries) =
     (case List.find (\<lambda>e. e \<notin> JStr ` set RESPONSES_INCLUDE_ALLOWLIST) entries of
        Some e \<Rightarrow> Inl (ValidationFailed (''Unsupported include value: '' @ default (json_str (Some e)) []))
      | None \<Rightarrow> Inr (Some (JArr entries)))"
| "validate_include v = Inr (Some v)"

definition validate_truncation :: "json \<Rightarrow> json option checked" where
  "validate_truncation v =
     (if v \<in> {JStr ''auto'', JStr ''disabled''} then Inr (Some v) else Inl (ValidationFailed (''truncation must be 'auto' or 'disabled'' @ [CHR 0x27])))"

fun normalize_previous_response_id :: "json \<Rightarrow> json option checked" where
  "normalize_previous_response_id (JStr s) = Inr (if py_strip s = [] then None else Some (JStr (py_strip s)))"
| "normalize_previous_response_id v = Inr (Some v)"

fun validate_tools_field :: "json \<Rightarrow> json option checked" where
  "validate_tools_field (JArr tools) = map_sum id (Some \<circ> JArr) (validate_tool_types [] False tools)"
| "validate_tools_field v = Inr (Some v)"

fun normalize_service_tier_field :: "json \<Rightarrow> json option checked" where
  "normalize_service_tier_field (JStr s) = Inr (Some (JStr (service_tier_alias s)))"
| "normalize_service_tier_field v = Inr (Some v)"

text \<open>\<open>input\<close> has to be there.\<close>

definition input_field :: "(json \<Rightarrow> string) \<Rightarrow> (json \<Rightarrow> string) \<Rightarrow> fields \<Rightarrow> fields checked" where
  "input_field dumps py_str data =
     (case map_of data ''input'' of
        None \<Rightarrow> Inl (ValidationFailed ''Field required'')
      | Some v \<Rightarrow>
          (case validate_input_type dumps py_str v of
             Inl e \<Rightarrow> Inl (ValidationFailed ''input'')
           | Inr items \<Rightarrow> Inr (AList.update ''input'' (JArr items) data)))"

definition validate_conversation :: "fields \<Rightarrow> fields checked" where
  "validate_conversation data =
     (if nonempty_str (json_str (map_of data ''conversation'')) \<noteq> None \<and> nonempty_str (json_str (map_of data ''previous_response_id'')) \<noteq> None
      then Inl (ValidationFailed ''Provide either 'conversation' or 'previous_response_id', not both.'') else Inr data)"

text \<open>The fields with a default that is dumped; \<open>store\<close> is false whatever the client says.\<close>

definition with_defaults :: "fields \<Rightarrow> fields" where
  "with_defaults data =
     AList.update ''store'' (JBool False) (set_default ''include'' (Some (JArr [])) (set_default ''tools'' (Some (JArr [])) data))"

text \<open>
  \<open>ResponsesRequest.model_validate\<close>: the instruction messages first, then the fields in the order of the class, the request as a
  whole last.
\<close>

definition validate_fields :: "fields \<Rightarrow> fields checked" where
  "validate_fields data =
     and_then (at_field ''tools'' validate_tools_field data) (\<lambda>d.
     and_then (at_field ''tool_choice'' (Inr \<circ> Some \<circ> normalize_tool_choice) d) (\<lambda>d.
     and_then (at_field ''include'' validate_include d) (\<lambda>d.
     and_then (at_field ''service_tier'' normalize_service_tier_field d) (\<lambda>d.
     and_then (at_field ''previous_response_id'' normalize_previous_response_id d) (\<lambda>d.
     at_field ''truncation'' validate_truncation d)))))"

definition validate_responses_request :: "(json \<Rightarrow> string) \<Rightarrow> (json \<Rightarrow> string) \<Rightarrow> fields \<Rightarrow> fields checked" where
  "validate_responses_request dumps py_str data =
     (case normalize_responses_input_instructions (JObj data) of
        JObj moved \<Rightarrow>
          and_then (input_field dumps py_str moved) (\<lambda>d. and_then (validate_fields (with_defaults d)) validate_conversation)
      | _ \<Rightarrow> Inl (ValidationFailed ''object''))"

definition to_payload :: "(json \<Rightarrow> string) \<Rightarrow> (json \<Rightarrow> string) \<Rightarrow> fields \<Rightarrow> fields checked" where
  "to_payload dumps py_str request =
     (case strip_unsupported_fields dumps py_str request of Inl e \<Rightarrow> Inl (Raised e ''to_payload'') | Inr p \<Rightarrow> Inr p)"

section \<open>Chat messages\<close>

definition part_type :: "fields \<Rightarrow> string option" where
  "part_type part =
     (case nonempty_str (json_str (map_of part ''type'')) of
        Some t \<Rightarrow> Some t
      | None \<Rightarrow> if json_str (map_of part ''text'') \<noteq> None then Some ''text'' else None)"

definition refused_file :: "json \<Rightarrow> bool" where
  "refused_file part =
     (case part of
        JObj kvs \<Rightarrow> (case map_of kvs ''file'' of Some (JObj info) \<Rightarrow> nonempty_str (json_str (map_of info ''file_id'')) \<noteq> None | _ \<Rightarrow> False)
      | _ \<Rightarrow> False)"

definition reject_file_id :: "json list \<Rightarrow> unit checked" where
  "reject_file_id messages =
     (if list_ex (\<lambda>m. case json_get m ''content'' of Some c \<Rightarrow> list_ex refused_file (content_parts c) | None \<Rightarrow> False) messages
      then Inl (ValidationFailed ''file_id is not supported'') else Inr ())"

definition validate_user_part :: "json \<Rightarrow> unit checked" where
  "validate_user_part part =
     (case part of
        JStr s \<Rightarrow> Inr ()
      | JObj kvs \<Rightarrow>
          (let t = part_type kvs
           in if t \<in> Some ` set TEXT_CONTENT_PART_TYPES
                then if json_str (map_of kvs ''text'') = None then Inl (ValidationFailed ''Text content parts must include a string 'text'.'')
                  else Inr ()
              else if t = Some ''image_url''
                then if (case map_of kvs ''image_url'' of Some v \<Rightarrow> json_str (json_get v ''url'') = None | None \<Rightarrow> True)
                  then Inl (ValidationFailed ''Image content parts must include image_url.url.'') else Inr ()
              else if t = Some ''input_audio'' then Inl (ValidationFailed ''Audio input is not supported.'')
              else if t = Some ''file''
                then if json_obj (map_of kvs ''file'') = None then Inl (ValidationFailed ''File content parts must include file metadata.'') else Inr ()
              else Inl (ValidationFailed (''Unsupported user content part type: '' @ default t ''None'')))
      | _ \<Rightarrow> Inl (ValidationFailed ''User message content parts must be objects.''))"

definition validate_user_content :: "json option \<Rightarrow> unit checked" where
  "validate_user_content content =
     (case content of
        None \<Rightarrow> Inr ()
      | Some (JStr s) \<Rightarrow> Inr ()
      | Some c \<Rightarrow> map_sum id (\<lambda>_. ()) (traverse validate_user_part (content_parts c)))"

definition validate_tool_message :: "fields \<Rightarrow> unit checked" where
  "validate_tool_message message =
     (if tool_call_id_of message = None then Inl (ValidationFailed ''tool messages must include 'tool_call_id'.'') else Inr ())"

definition validate_tool_call :: "nat \<times> json \<Rightarrow> unit checked" where
  "validate_tool_call indexed =
     (case indexed of (i, tc) \<Rightarrow>
        let place = ''assistant tool_calls['' @ show_nat i @ '']''
        in case tc of
             JObj kvs \<Rightarrow>
               if nonempty_str (json_str (map_of kvs ''id'')) = None then Inl (ValidationFailed (place @ '' must include a non-empty 'id'.''))
               else (case map_of kvs ''function'' of
                  Some (JObj fn) \<Rightarrow>
                    if nonempty_str (json_str (map_of fn ''name'')) = None
                    then Inl (ValidationFailed (place @ ''.function must include a non-empty 'name'.'')) else Inr ()
                | _ \<Rightarrow> Inl (ValidationFailed (place @ '' must include a 'function' object.'')))
           | _ \<Rightarrow> Inl (ValidationFailed (place @ '' must be an object.'')))"

definition validate_assistant_tool_calls :: "fields \<Rightarrow> unit checked" where
  "validate_assistant_tool_calls message =
     (case field message ''tool_calls'' of
        None \<Rightarrow> Inr ()
      | Some (JArr tcs) \<Rightarrow> map_sum id (\<lambda>_. ()) (traverse validate_tool_call (List.enumerate 0 tcs))
      | Some _ \<Rightarrow> Inl (ValidationFailed ''assistant message 'tool_calls' must be an array.''))"

definition validate_message :: "json \<Rightarrow> unit checked" where
  "validate_message message =
     (case message of
        JObj kvs \<Rightarrow>
          (case json_str (map_of kvs ''role'') of
             None \<Rightarrow> Inl (ValidationFailed ''Each message must include a string 'role'.'')
           | Some role \<Rightarrow>
             if role \<notin> set SUPPORTED_MESSAGE_ROLES then Inl (ValidationFailed (''Unsupported message role: '' @ role))
             else if role \<in> {''system'', ''developer''}
               then if text_only (field kvs ''content'') then Inr () else Inl (ValidationFailed (role @ '' messages must be text-only.''))
             else if role = ''user'' then validate_user_content (field kvs ''content'')
             else if role = ''assistant'' then validate_assistant_tool_calls kvs
             else validate_tool_message kvs)
      | _ \<Rightarrow> Inl (ValidationFailed (CHR 0x27 # ''messages' must contain objects.'')))"

text \<open>The validators of a chat request: its messages, then its tools.\<close>

definition validate_messages :: "json list \<Rightarrow> bool \<Rightarrow> unit checked" where
  "validate_messages messages has_input =
     (if messages = [] then if has_input then Inr () else Inl (ValidationFailed ''Provide either 'messages' or 'input'.'')
      else map_sum id (\<lambda>_. ()) (traverse validate_message messages))"

definition message_list :: "fields \<Rightarrow> json list" where
  "message_list data = (case map_of data ''messages'' of Some (JArr ms) \<Rightarrow> ms | _ \<Rightarrow> [])"

definition tool_list :: "fields \<Rightarrow> json list" where
  "tool_list data = (case map_of data ''tools'' of Some (JArr ts) \<Rightarrow> ts | _ \<Rightarrow> [])"

definition validate_chat_request :: "fields \<Rightarrow> fields checked" where
  "validate_chat_request data =
     and_then (reject_file_id (message_list data)) (\<lambda>_.
     and_then (validate_messages (message_list data) (field data ''input'' \<noteq> None)) (\<lambda>_.
     map_sum id (\<lambda>ts. AList.update ''tools'' (JArr ts) data)
       (validate_tool_types CHAT_UNSUPPORTED_TOOL_TYPES (message_list data = [] \<and> field data ''input'' \<noteq> None) (tool_list data))))"

section \<open>From chat to responses\<close>

fun or_function :: "json option \<Rightarrow> json" where
  "or_function (Some v) = (if json_truthy v then v else JStr ''function'')"
| "or_function None = JStr ''function''"

definition or_null :: "json option \<Rightarrow> json" where
  "or_null v = (case v of Some w \<Rightarrow> w | None \<Rightarrow> JNull)"

definition normalize_chat_tool :: "json \<Rightarrow> json option" where
  "normalize_chat_tool tool =
     (case tool of
        JObj kvs \<Rightarrow>
          (case map_of kvs ''function'' of
             Some (JObj fn) \<Rightarrow>
               (case nonempty_str (json_str (map_of fn ''name'')) of
                  None \<Rightarrow> None
                | Some name \<Rightarrow>
                    Some (JObj ([(''type'', or_function (map_of kvs ''type'')), (''name'', JStr name),
                      (''description'', or_null (map_of fn ''description'')), (''parameters'', or_null (map_of fn ''parameters''))] @
                      (case map_of fn ''strict'' of Some (JBool b) \<Rightarrow> [(''strict'', JBool b)] | _ \<Rightarrow> []))))
           | _ \<Rightarrow>
               if json_str (map_of (rename_type kvs) ''type'') = Some ''web_search'' then Some (JObj (rename_type kvs))
               else if nonempty_str (json_str (map_of kvs ''name'')) \<noteq> None then Some (JObj kvs) else None)
      | _ \<Rightarrow> None)"

definition normalize_chat_tools :: "json list \<Rightarrow> json list" where
  "normalize_chat_tools tools = List.map_filter normalize_chat_tool tools"

definition normalize_chat_tool_choice :: "json \<Rightarrow> json" where
  "normalize_chat_tool_choice choice =
     (case choice of
        JObj kvs \<Rightarrow>
          (case map_of (rename_type kvs) ''function'' of
             Some (JObj fn) \<Rightarrow>
               (case nonempty_str (json_str (map_of fn ''name'')) of
                  Some name \<Rightarrow> JObj [(''type'', or_function (map_of (rename_type kvs) ''type'')), (''name'', JStr name)]
                | None \<Rightarrow> JObj (rename_type kvs))
           | _ \<Rightarrow> JObj (rename_type kvs))
      | _ \<Rightarrow> choice)"

definition is_json_object_response_format :: "json option \<Rightarrow> bool" where
  "is_json_object_response_format fmt =
     (case fmt of
        Some (JStr s) \<Rightarrow> s = ''json_object''
      | Some (JObj kvs) \<Rightarrow> map_of kvs ''type'' = Some (JStr ''json_object'')
      | _ \<Rightarrow> False)"

record chat_json_schema =
  js_name :: "string option"
  js_schema :: "json option"
  js_strict :: "bool option"

record chat_response_format =
  rf_type :: string
  rf_json_schema :: "chat_json_schema option"

record text_controls =
  tc_verbosity :: "string option"
  tc_format :: "fields option"
  tc_extra :: fields

record parsers =
  parse_text :: "fields \<Rightarrow> text_controls checked" \<comment> \<open>\<open>ResponsesTextControls.model_validate\<close>\<close>
  parse_format :: "fields \<Rightarrow> chat_response_format checked" \<comment> \<open>the fields of \<open>ChatResponseFormat\<close>\<close>

definition text_format :: "string \<Rightarrow> chat_json_schema \<Rightarrow> fields" where
  "text_format t js =
     (''type'', JStr t) # (case js_strict js of Some b \<Rightarrow> [(''strict'', JBool b)] | None \<Rightarrow> []) @
     (case js_schema js of Some v \<Rightarrow> [(''schema'', v)] | None \<Rightarrow> []) @
     (case js_name js of Some n \<Rightarrow> [(''name'', JStr n)] | None \<Rightarrow> [])"

definition no_schema :: chat_json_schema where
  "no_schema = \<lparr>js_name = None, js_schema = None, js_strict = None\<rparr>"

definition text_format_from_type :: "string \<Rightarrow> fields checked" where
  "text_format_from_type t =
     (if t \<in> {''json_object'', ''text''} then Inr (text_format t no_schema)
      else if t = ''json_schema''
        then Inl (Raised ValueError (CHR 0x27 # ''response_format' must include 'json_schema' when type is 'json_schema'.''))
      else Inl (Raised ValueError (''Unsupported response_format.type: '' @ t)))"

definition text_format_from_parsed :: "chat_response_format \<Rightarrow> fields checked" where
  "text_format_from_parsed parsed =
     (if rf_type parsed = ''json_schema''
      then (case rf_json_schema parsed of
          None \<Rightarrow> Inl (Raised ValueError (CHR 0x27 # ''response_format.json_schema' is required when type is 'json_schema'.''))
        | Some js \<Rightarrow> Inr (text_format (rf_type parsed) js))
      else if rf_type parsed \<in> {''json_object'', ''text''} then Inr (text_format (rf_type parsed) no_schema)
      else Inl (Raised ValueError (''Unsupported response_format.type: '' @ rf_type parsed)))"

definition validate_schema :: "chat_response_format \<Rightarrow> chat_response_format checked" where
  "validate_schema parsed =
     (if rf_type parsed = ''json_schema'' \<and> rf_json_schema parsed = None
      then Inl (ValidationFailed (CHR 0x27 # ''response_format.json_schema' is required when type is 'json_schema'.'')) else Inr parsed)"

definition response_format_to_text_format :: "parsers \<Rightarrow> json \<Rightarrow> fields checked" where
  "response_format_to_text_format ps fmt =
     (case fmt of
        JStr t \<Rightarrow> text_format_from_type t
      | JObj kvs \<Rightarrow> and_then (and_then (parse_format ps kvs) validate_schema) text_format_from_parsed
      | _ \<Rightarrow> Inl (Raised ValueError (CHR 0x27 # ''response_format' must be a string or object.'')))"

definition parse_text_controls :: "parsers \<Rightarrow> json option \<Rightarrow> text_controls checked" where
  "parse_text_controls ps txt =
     (case txt of
        None \<Rightarrow> Inr \<lparr>tc_verbosity = None, tc_format = None, tc_extra = []\<rparr>
      | Some (JObj kvs) \<Rightarrow> parse_text ps kvs
      | Some _ \<Rightarrow> Inl (Raised ValueError (CHR 0x27 # ''text' must be an object when using 'response_format'.'')))"

definition dump_text_controls :: "text_controls \<Rightarrow> json" where
  "dump_text_controls tc =
     JObj ((case tc_verbosity tc of Some v \<Rightarrow> [(''verbosity'', JStr v)] | None \<Rightarrow> []) @
       (case tc_format tc of Some f \<Rightarrow> [(''format'', JObj f)] | None \<Rightarrow> []) @ tc_extra tc)"

definition apply_response_format :: "parsers \<Rightarrow> json \<Rightarrow> fields \<Rightarrow> fields checked" where
  "apply_response_format ps fmt data =
     and_then (parse_text_controls ps (field data ''text'')) (\<lambda>tc.
       if tc_format tc \<noteq> None then Inl (Raised ValueError ''Provide either 'response_format' or 'text.format', not both.'')
       else map_sum id (\<lambda>f. AList.update ''text'' (dump_text_controls (tc\<lparr>tc_format := Some f\<rparr>)) data) (response_format_to_text_format ps fmt))"

definition has_base64_marker :: "string \<Rightarrow> bool" where
  "has_base64_marker header = contains '';base64'' header"

text \<open>\<open>url.split(",", 1)\<close> gives two parts only when there is a comma.\<close>

definition is_oversized_data_url :: "string \<Rightarrow> bool" where
  "is_oversized_data_url url =
     (starts_with ''data:'' url \<and> CHR '','' \<in> set url \<and>
      (let header = takeWhile (\<lambda>c. c \<noteq> CHR '','') url;
           body = tl (dropWhile (\<lambda>c. c \<noteq> CHR '','') url);
           padding = length (filter (\<lambda>c. c = CHR ''='') body);
           size = int (length body * 3 div 4) - int padding
       in has_base64_marker header \<and> size > 8 * 1024 * 1024))"

definition oversized_image :: "json \<Rightarrow> bool" where
  "oversized_image part =
     (case part of
        JObj kvs \<Rightarrow>
          part_type kvs = Some ''image_url'' \<and>
          (case map_of kvs ''image_url'' of
             Some v \<Rightarrow> (case json_str (json_get v ''url'') of Some url \<Rightarrow> is_oversized_data_url url | None \<Rightarrow> False)
           | None \<Rightarrow> False)
      | _ \<Rightarrow> False)"

fun drop_oversized_images :: "json \<Rightarrow> json" where
  "drop_oversized_images JNull = JNull"
| "drop_oversized_images (JStr s) = JStr s"
| "drop_oversized_images (JArr parts) = JArr (filter (\<lambda>p. \<not> oversized_image p) parts)"
| "drop_oversized_images v = (if oversized_image v then JStr [] else v)"

definition sanitize_user_message :: "json \<Rightarrow> json" where
  "sanitize_user_message m =
     (case m of
        JObj kvs \<Rightarrow>
          if map_of kvs ''role'' = Some (JStr ''user'')
          then (case field kvs ''content'' of Some c \<Rightarrow> JObj (AList.update ''content'' (drop_oversized_images c) kvs) | None \<Rightarrow> m)
          else m
      | _ \<Rightarrow> m)"

definition chat_reasoning :: "json option \<Rightarrow> fields \<Rightarrow> fields" where
  "chat_reasoning effort data =
     normalize_reasoning_aliases
       (case effort of Some e \<Rightarrow> if has_key data ''reasoning'' then data else AList.update ''reasoning'' (JObj [(''effort'', e)]) data
        | None \<Rightarrow> data)"

definition chat_stream_options :: "json option \<Rightarrow> fields \<Rightarrow> fields" where
  "chat_stream_options opts data =
     (case opts of
        Some (JObj kvs) \<Rightarrow>
          (case field kvs ''include_obfuscation'' of
             Some v \<Rightarrow> AList.update ''stream_options'' (JObj [(''include_obfuscation'', v)]) data
           | None \<Rightarrow> data)
      | _ \<Rightarrow> data)"

definition set_option :: "string \<Rightarrow> json option \<Rightarrow> fields \<Rightarrow> fields" where
  "set_option k v data = (case v of Some w \<Rightarrow> AList.update k w data | None \<Rightarrow> data)"

definition CHAT_ONLY_FIELDS :: "string list" where
  "CHAT_ONLY_FIELDS =
     [''messages'', ''store'', ''n'', ''max_tokens'', ''max_completion_tokens'', ''response_format'', ''stream_options'', ''tools'',
      ''tool_choice'', ''reasoning_effort'']"

text \<open>What both shapes of a chat request share: the fields of the chat dialect are taken out, reasoning, format and stream options mapped.\<close>

definition chat_base :: "parsers \<Rightarrow> fields \<Rightarrow> fields checked" where
  "chat_base ps data =
     map_sum id (chat_stream_options (map_of data ''stream_options''))
       ((case map_of data ''response_format'' of Some f \<Rightarrow> apply_response_format ps f | None \<Rightarrow> Inr)
         (chat_reasoning (map_of data ''reasoning_effort'') (pop_all CHAT_ONLY_FIELDS data)))"

definition from_responses_shape :: "fields \<Rightarrow> fields \<Rightarrow> fields" where
  "from_responses_shape data base =
     set_option ''tool_choice'' (map_of data ''tool_choice'')
       (AList.update ''tools'' (JArr (tool_list data))
         (if json_str (map_of base ''instructions'') = None then AList.update ''instructions'' (JStr []) base else base))"

definition from_messages :: "fields \<Rightarrow> json list \<Rightarrow> fields \<Rightarrow> fields checked" where
  "from_messages data messages base =
     map_sum id (\<lambda>(instructions, input_items).
         set_option ''tool_choice'' (map_option normalize_chat_tool_choice (map_of data ''tool_choice''))
           (AList.update ''tools'' (JArr (normalize_chat_tools (tool_list data)))
             (AList.update ''input'' (JArr input_items)
               (AList.update ''instructions'' (JStr instructions) (pop_all [''instructions'', ''input''] base)))))
       (coerce_messages (default (json_str (map_of base ''instructions'')) []) (map sanitize_user_message messages)
         (is_json_object_response_format (map_of data ''response_format'')))"

definition to_responses_request :: "parsers \<Rightarrow> (json \<Rightarrow> string) \<Rightarrow> (json \<Rightarrow> string) \<Rightarrow> fields \<Rightarrow> fields checked" where
  "to_responses_request ps dumps py_str data =
     and_then (chat_base ps data) (\<lambda>base.
       and_then
         (case map_of data ''messages'' of
            Some (JArr messages) \<Rightarrow>
              if messages = [] \<and> has_key base ''input'' then Inr (from_responses_shape data base) else from_messages data messages base
          | _ \<Rightarrow> Inr (from_responses_shape data base))
         (validate_responses_request dumps py_str))"

text \<open>
  The chat endpoint: the body is validated as it is parsed, then turned into a responses request; client and validation errors are
  answered with 400, any other exception reaches the handler for unexpected errors.
\<close>

definition chat_request :: "parsers \<Rightarrow> (json \<Rightarrow> string) \<Rightarrow> (json \<Rightarrow> string) \<Rightarrow> fields \<Rightarrow> fields checked" where
  "chat_request ps dumps py_str data = and_then (validate_chat_request data) (to_responses_request ps dumps py_str)"

fun error_status :: "request_error \<Rightarrow> nat" where
  "error_status (ClientPayload _) = 400"
| "error_status (ValidationFailed _) = 400"
| "error_status (Raised _ _) = 500"

section \<open>Requests of the responses dialect with messages\<close>

definition validate_v1_input :: "fields \<Rightarrow> unit checked" where
  "validate_v1_input data =
     (let messages = field data ''messages''; inp = field data ''input''
      in if messages = None \<and> inp = None then Inl (ValidationFailed ''Provide either 'input' or 'messages'.'')
         else if messages \<noteq> None \<and> inp \<notin> {None, Some (JArr [])} then Inl (ValidationFailed ''Provide either 'input' or 'messages', not both.'')
         else if nonempty_str (json_str (map_of data ''conversation'')) \<noteq> None \<and> nonempty_str (json_str (map_of data ''previous_response_id'')) \<noteq> None
         then Inl (ValidationFailed ''Provide either 'conversation' or 'previous_response_id', not both.'') else Inr ())"

definition v1_to_responses_request :: "(json \<Rightarrow> string) \<Rightarrow> (json \<Rightarrow> string) \<Rightarrow> fields \<Rightarrow> fields checked" where
  "v1_to_responses_request dumps py_str data =
     (let base = AList.delete ''messages'' data;
          instructions = default (json_str (map_of data ''instructions'')) [];
          store = (\<lambda>(ins, inp). AList.update ''input'' inp (AList.update ''instructions'' (JStr ins) base))
      in and_then
           (case map_of data ''messages'' of
              Some (JArr messages) \<Rightarrow> map_sum id (\<lambda>(ins, items). store (ins, JArr items)) (coerce_messages instructions messages False)
            | _ \<Rightarrow>
                Inr (store (instructions,
                  case map_of data ''input'' of Some (JStr s) \<Rightarrow> JStr s | Some (JArr items) \<Rightarrow> JArr items | _ \<Rightarrow> JArr [])))
           (validate_responses_request dumps py_str))"

section \<open>Validated requests\<close>

text \<open>What every request that passes the validation is.\<close>

fun current_tool :: "json \<Rightarrow> bool" where
  "current_tool (JObj kvs) = (map_of kvs ''type'' \<noteq> Some (JStr ''web_search_preview''))"
| "current_tool _ = True"

definition valid_item :: "(json \<Rightarrow> string) \<Rightarrow> (json \<Rightarrow> string) \<Rightarrow> json \<Rightarrow> bool" where
  "valid_item dumps py_str v \<longleftrightarrow> clean_item v \<and> \<not> privileged_role v \<and> json_get v ''role'' \<noteq> Some (JStr ''tool'') \<and>
     normalize_role_input_item dumps py_str v = Inr v"

definition valid_field :: "(json \<Rightarrow> string) \<Rightarrow> (json \<Rightarrow> string) \<Rightarrow> string \<Rightarrow> json option \<Rightarrow> bool" where
  "valid_field dumps py_str k v =
     (if k = ''input'' then (case v of Some (JArr items) \<Rightarrow> list_all (valid_item dumps py_str) items | _ \<Rightarrow> False)
      else if k = ''store'' then v = Some (JBool False)
      else if k = ''tools'' then (case v of Some (JArr tools) \<Rightarrow> list_all current_tool tools | _ \<Rightarrow> True)
      else if k = ''tool_choice'' then (case v of Some c \<Rightarrow> current_tool c | None \<Rightarrow> True)
      else if k = ''include'' then (case v of Some (JArr es) \<Rightarrow> list_all (\<lambda>e. e \<in> JStr ` set RESPONSES_INCLUDE_ALLOWLIST) es | _ \<Rightarrow> True)
      else if k = ''service_tier'' then (case v of Some (JStr s) \<Rightarrow> py_lower (py_strip s) \<noteq> ''fast'' | _ \<Rightarrow> True)
      else if k = ''previous_response_id'' then (case v of Some (JStr s) \<Rightarrow> s \<noteq> [] | _ \<Rightarrow> True)
      else if k = ''truncation'' then v \<in> {None, Some (JStr ''auto''), Some (JStr ''disabled'')}
      else True)"

lemma and_then_Inr: "and_then r f = Inr y \<longleftrightarrow> (\<exists>x. r = Inr x \<and> f x = Inr y)"
  by (simp add: and_then_def split: sum.split)

lemma and_then_Inl: "and_then r f = Inl e \<longleftrightarrow> r = Inl e \<or> (\<exists>x. r = Inr x \<and> f x = Inl e)"
  by (auto simp add: and_then_def split: sum.split)

lemma at_field_Inr:
  assumes "at_field k f data = Inr data'"
  shows "k' \<noteq> k \<Longrightarrow> map_of data' k' = map_of data k'"
    and "map_of data' k = None \<or> (\<exists>v w. map_of data k = Some v \<and> v \<noteq> JNull \<and> f v = Inr (Some w) \<and> map_of data' k = Some w)"
proof -
  show "k' \<noteq> k \<Longrightarrow> map_of data' k' = map_of data k'"
    using assms by (auto simp: at_field_def map_of_update delete_conv' map_sum_def split: option.splits sum.splits)
  show "map_of data' k = None \<or> (\<exists>v w. map_of data k = Some v \<and> v \<noteq> JNull \<and> f v = Inr (Some w) \<and> map_of data' k = Some w)"
  proof (cases "field data k")
    case None
    then show ?thesis using assms by (auto simp: at_field_def delete_conv')
  next
    case (Some v)
    then have v: "map_of data k = Some v" "v \<noteq> JNull" by (auto simp: field_def split: option.splits json.splits)
    then show ?thesis
      using assms Some by (auto simp: at_field_def map_of_update delete_conv' map_sum_def split: option.splits sum.splits)
  qed
qed

abbreviation fields_valid :: "(json \<Rightarrow> string) \<Rightarrow> (json \<Rightarrow> string) \<Rightarrow> string list \<Rightarrow> fields \<Rightarrow> bool" where
  "fields_valid dumps py_str ks data \<equiv> list_all (\<lambda>k. valid_field dumps py_str k (map_of data k)) ks"

lemma at_field_valid:
  assumes "at_field k f data = Inr data'" and "\<And>v w. f v = Inr (Some w) \<Longrightarrow> valid_field dumps py_str k (Some w)"
    and "valid_field dumps py_str k None" and "fields_valid dumps py_str js data"
  shows "fields_valid dumps py_str (k # js) data'"
proof -
  have "valid_field dumps py_str k (map_of data' k)" using at_field_Inr(2) [OF assms(1)] assms(2,3) by fastforce
  moreover have "valid_field dumps py_str j (map_of data' j)" if "j \<in> set js" for j
    using that assms(4) at_field_Inr(1) [OF assms(1), of j] calculation by (cases "j = k") (auto simp: list_all_iff)
  ultimately show ?thesis by (simp add: list_all_iff)
qed

lemma renamed_current: "current_tool (JObj (rename_type kvs))"
proof (cases "map_of kvs ''type''")
  case (Some v)
  then show ?thesis by (cases v) (auto simp: rename_type_def normalize_tool_type_def map_of_update)
qed (simp add: rename_type_def)

lemma validated_tool_current: "validate_tool u b tool = Inr tool' \<Longrightarrow> current_tool tool'"
proof (cases tool)
  case (JObj kvs)
  assume v: "validate_tool u b tool = Inr tool'"
  show ?thesis
  proof (cases "json_str (map_of (rename_type kvs) ''type'')")
    case None
    then have "rename_type kvs = kvs" by (auto simp: rename_type_def map_of_update split: option.splits if_splits)
    then show ?thesis using v JObj None renamed_current [of kvs] by (auto simp: validate_tool_def)
  next
    case (Some t)
    then show ?thesis using v JObj renamed_current [of kvs] by (auto simp: validate_tool_def split: if_splits)
  qed
qed (auto simp: validate_tool_def)

lemma validated_tools_current: "validate_tool_types u b tools = Inr tools' \<Longrightarrow> list_all current_tool tools'"
  using traverse_source validated_tool_current unfolding validate_tool_types_def list_all_iff by fast

lemma field_validators:
  "validate_tools_field v = Inr (Some w) \<Longrightarrow> valid_field d p ''tools'' (Some w)"
  "valid_field d p ''tool_choice'' (Some (normalize_tool_choice v))"
  "validate_include v = Inr (Some w) \<Longrightarrow> valid_field d p ''include'' (Some w)"
  "normalize_service_tier_field v = Inr (Some w) \<Longrightarrow> valid_field d p ''service_tier'' (Some w)"
  "normalize_previous_response_id v = Inr (Some w) \<Longrightarrow> valid_field d p ''previous_response_id'' (Some w)"
  "validate_truncation v = Inr (Some w) \<Longrightarrow> valid_field d p ''truncation'' (Some w)"
proof -
  show "validate_tools_field v = Inr (Some w) \<Longrightarrow> valid_field d p ''tools'' (Some w)"
  proof (cases v)
    case (JArr ts)
    moreover assume "validate_tools_field v = Inr (Some w)"
    ultimately obtain ts' where "validate_tool_types [] False ts = Inr ts'" "w = JArr ts'"
      by (cases "validate_tool_types [] False ts") auto
    then show ?thesis by (simp add: valid_field_def validated_tools_current)
  qed (auto simp: valid_field_def)
  show "valid_field d p ''tool_choice'' (Some (normalize_tool_choice v))"
    using renamed_current by (cases v) (simp_all add: valid_field_def del: current_tool.simps(1))
  show "validate_include v = Inr (Some w) \<Longrightarrow> valid_field d p ''include'' (Some w)"
    by (cases v) (auto simp: valid_field_def find_None_iff list_all_iff split: option.splits)
  show "normalize_previous_response_id v = Inr (Some w) \<Longrightarrow> valid_field d p ''previous_response_id'' (Some w)"
    by (cases v) (auto simp: valid_field_def split: if_splits)
  show "validate_truncation v = Inr (Some w) \<Longrightarrow> valid_field d p ''truncation'' (Some w)"
    by (auto simp: valid_field_def validate_truncation_def split: if_splits)
  have "py_lower (py_strip ''priority'') \<noteq> ''fast''" by code_simp
  then show "normalize_service_tier_field v = Inr (Some w) \<Longrightarrow> valid_field d p ''service_tier'' (Some w)"
    by (cases v) (auto simp: valid_field_def service_tier_alias_def)
qed

lemma valid_absent [simp]:
  "valid_field d p ''tools'' None" "valid_field d p ''tool_choice'' None" "valid_field d p ''include'' None"
  "valid_field d p ''service_tier'' None" "valid_field d p ''previous_response_id'' None" "valid_field d p ''truncation'' None"
  by (simp_all add: valid_field_def)

definition VALIDATED_FIELDS :: "string list" where
  "VALIDATED_FIELDS = [''truncation'', ''previous_response_id'', ''service_tier'', ''include'', ''tool_choice'', ''tools'', ''store'', ''input'']"

lemma validate_fields_steps:
  assumes "validate_fields data = Inr data'"
  shows "\<exists>d1 d2 d3 d4 d5. at_field ''tools'' validate_tools_field data = Inr d1 \<and>
    at_field ''tool_choice'' (Inr \<circ> Some \<circ> normalize_tool_choice) d1 = Inr d2 \<and> at_field ''include'' validate_include d2 = Inr d3 \<and>
    at_field ''service_tier'' normalize_service_tier_field d3 = Inr d4 \<and>
    at_field ''previous_response_id'' normalize_previous_response_id d4 = Inr d5 \<and> at_field ''truncation'' validate_truncation d5 = Inr data'"
  using assms by (auto simp: validate_fields_def and_then_Inr)

lemma validated_fields:
  assumes "validate_fields data = Inr data'" and "fields_valid d p [''store'', ''input''] data"
  shows "fields_valid d p VALIDATED_FIELDS data'"
proof -
  obtain d1 d2 d3 d4 d5 where steps: "at_field ''tools'' validate_tools_field data = Inr d1"
    "at_field ''tool_choice'' (Inr \<circ> Some \<circ> normalize_tool_choice) d1 = Inr d2" "at_field ''include'' validate_include d2 = Inr d3"
    "at_field ''service_tier'' normalize_service_tier_field d3 = Inr d4"
    "at_field ''previous_response_id'' normalize_previous_response_id d4 = Inr d5" "at_field ''truncation'' validate_truncation d5 = Inr data'"
    using validate_fields_steps [OF assms(1)] by blast
  note 1 = at_field_valid [OF steps(1) field_validators(1) valid_absent(1) assms(2)]
  have 2: "fields_valid d p (''tool_choice'' # [''tools'', ''store'', ''input'']) d2"
    by (rule at_field_valid [OF steps(2) _ valid_absent(2) 1]) (use field_validators(2) in auto)
  note 3 = at_field_valid [OF steps(3) field_validators(3) valid_absent(3) 2]
  note 4 = at_field_valid [OF steps(4) field_validators(4) valid_absent(4) 3]
  note 5 = at_field_valid [OF steps(5) field_validators(5) valid_absent(5) 4]
  note 6 = at_field_valid [OF steps(6) field_validators(6) valid_absent(6) 5]
  then show ?thesis unfolding VALIDATED_FIELDS_def .
qed

lemma sanitized_role_key: "map_of (List.map_filter sanitize_field kvs) ''role'' = map_of kvs ''role''"
proof (induction kvs)
  case (Cons kv kvs)
  then show ?case
    by (cases kv) (auto simp: List.map_filter_simps sanitize_field_def INTERLEAVED_REASONING_KEYS_def split: option.split)
qed (simp add: List.map_filter_simps)

lemma moved_is_object: "\<exists>moved. normalize_responses_input_instructions (JObj data) = JObj moved"
proof (cases "map_of data ''input''")
  case (Some v)
  then show ?thesis by (cases v) (auto split: prod.split)
qed simp

lemma sanitized_role:
  assumes "sanitize_interleaved_reasoning_input_item item = Some s" and "normalize_role_input_item dumps py_str s = Inr v"
    and "\<not> privileged_role item"
  shows "\<not> privileged_role v \<and> json_get v ''role'' \<noteq> Some (JStr ''tool'')"
proof (cases item)
  case (JObj kvs)
  then have s: "s = JObj (List.map_filter sanitize_field kvs)" using assms(1) by simp
  have role: "json_get s ''role'' = json_get item ''role''" using JObj s by (simp add: sanitized_role_key)
  show ?thesis
    using assms(2,3) s role
    by (auto simp: privileged_role_def normalize_assistant_input_item_def Let_def map_of_update normalize_tool_input_item_def
        split: if_splits option.splits)
qed (use assms in \<open>auto simp: privileged_role_def\<close>)

lemma sanitized_roles:
  "sanitize_input_items dumps py_str items = Inr out \<Longrightarrow> list_all (\<lambda>v. \<not> privileged_role v) items \<Longrightarrow>
     list_all (\<lambda>v. \<not> privileged_role v \<and> json_get v ''role'' \<noteq> Some (JStr ''tool'')) out"
proof (induction items arbitrary: out)
  case (Cons item items)
  show ?case
  proof (cases "sanitize_interleaved_reasoning_input_item item")
    case None
    then show ?thesis using Cons by simp
  next
    case (Some s)
    then obtain v out' where v: "normalize_role_input_item dumps py_str s = Inr v"
      "sanitize_input_items dumps py_str items = Inr out'" "out = v # out'"
      using Cons.prems by (cases "sanitize_input_items dumps py_str items") (auto split: sum.splits)
    then show ?thesis using sanitized_role [OF Some v(1)] Cons.IH [OF v(2)] Cons.prems by simp
  qed
qed simp

lemma sanitized_valid_items:
  assumes "sanitize_input_items dumps py_str items = Inr out" and "list_all (\<lambda>v. \<not> privileged_role v) items"
  shows "list_all (valid_item dumps py_str) out"
  using sanitized_items [OF assms(1)] sanitized_roles [OF assms] by (auto simp: list_all_iff valid_item_def)

lemma validated_input:
  assumes "normalize_responses_input_instructions (JObj data) = JObj moved" and "input_field dumps py_str moved = Inr d"
  shows "valid_field dumps py_str ''input'' (map_of d ''input'')"
proof -
  obtain v items where v: "map_of moved ''input'' = Some v" "validate_input_type dumps py_str v = Inr items"
    "d = AList.update ''input'' (JArr items) moved"
    using assms(2) by (auto simp: input_field_def split: option.splits sum.splits)
  have "list_all (valid_item dumps py_str) items"
  proof (cases v)
    case (JStr s)
    have "list_all (\<lambda>v. \<not> privileged_role v) (normalize_input_text s)" by (simp add: normalize_input_text_def privileged_role_def)
    then show ?thesis using v(2) JStr sanitized_valid_items by simp
  next
    case (JArr xs)
    have "list_all (\<lambda>v. \<not> privileged_role v) xs"
    proof (cases "map_of data ''input''")
      case None
      then show ?thesis using assms(1) v(1) by auto
    next
      case (Some w)
      then show ?thesis
        using assms(1) v(1) JArr moved_unprivileged
        by (cases w) (auto simp: map_of_update move_items_def list_all_iff list_ex_iff split: if_splits)
    qed
    then show ?thesis using v(2) JArr sanitized_valid_items by simp
  qed (use v(2) in simp_all)
  then show ?thesis by (simp add: v(3) map_of_update valid_field_def)
qed

text \<open>
  A request that passes the validation is well formed, whatever dialect it came in: it is never stored, its input is an array
  without instruction messages, tool messages or interleaved reasoning, no tool and no tool choice uses a retired name, its
  includes are on the list, its tier is no alias, and it does not name a conversation and a previous response at once.
\<close>

theorem validated_request_is_well_formed:
  assumes "validate_responses_request dumps py_str data = Inr request"
  shows "list_all (\<lambda>k. valid_field dumps py_str k (map_of request k))
      [''truncation'', ''previous_response_id'', ''service_tier'', ''include'', ''tool_choice'', ''tools'', ''store'', ''input''] \<and>
    (nonempty_str (json_str (map_of request ''conversation'')) = None \<or> nonempty_str (json_str (map_of request ''previous_response_id'')) = None)"
proof -
  obtain moved where moved: "normalize_responses_input_instructions (JObj data) = JObj moved" using moved_is_object by blast
  obtain d r where d: "input_field dumps py_str moved = Inr d" "validate_fields (with_defaults d) = Inr r" "validate_conversation r = Inr request"
    using assms by (auto simp: validate_responses_request_def moved and_then_Inr simp del: normalize_responses_input_instructions.simps)
  have "map_of (with_defaults d) ''input'' = map_of d ''input''" "map_of (with_defaults d) ''store'' = Some (JBool False)"
    by (simp_all add: with_defaults_def map_of_update map_of_set_default)
  then have "fields_valid dumps py_str [''store'', ''input''] (with_defaults d)"
    using validated_input [OF moved d(1)] by (simp add: valid_field_def)
  from validated_fields [OF d(2) this] show ?thesis
    using d(3) by (auto simp: VALIDATED_FIELDS_def validate_conversation_def split: if_splits)
qed

section \<open>Tool calls from the chat message to the request\<close>

lemma sanitized_call:
  assumes "forwarded_shape item" and "sanitize_interleaved_reasoning_input_item item = Some s"
    and "normalize_role_input_item dumps py_str s = Inr v"
  shows "call_of v = call_of item \<and> output_of v = output_of item"
proof -
  obtain kvs where kvs: "item = JObj kvs" and keys: "map fst kvs \<in> {[''role''], [''role'', ''content''],
      [''type'', ''call_id'', ''name'', ''arguments''], [''type'', ''call_id'', ''output'']}"
    and tool: "map_of kvs ''role'' \<noteq> Some (JStr ''tool'')"
    using assms(1) by (auto simp: forwarded_shape_def split: json.splits)
  consider (role) "map fst kvs \<in> {[''role''], [''role'', ''content'']}"
    | (call) "map fst kvs \<in> {[''type'', ''call_id'', ''name'', ''arguments''], [''type'', ''call_id'', ''output'']}"
    using keys by blast
  then show ?thesis
  proof cases
    case call
    then have "List.map_filter sanitize_field kvs = kvs"
      by (intro map_filter_Some_id) (auto simp: map_eq_Cons_conv sanitize_field_def INTERLEAVED_REASONING_KEYS_def)
    moreover have "map_of kvs ''role'' = None" using call by (auto simp: map_eq_Cons_conv)
    ultimately show ?thesis using assms(2,3) kvs by auto
  next
    case role
    then have t: "map_of kvs ''type'' = None" by (auto simp: map_eq_Cons_conv)
    let ?s = "List.map_filter sanitize_field kvs"
    have s: "s = JObj ?s" using assms(2) kvs by simp
    have st: "map_of ?s ''type'' = None" using role by (auto simp: map_eq_Cons_conv List.map_filter_simps sanitize_field_def split: option.split)
    have "map_of ?s ''role'' \<noteq> Some (JStr ''tool'')" using tool by (simp add: sanitized_role_key)
    then have "v = JObj ?s \<or> (\<exists>c. v = JObj (AList.update ''content'' c ?s))"
      using assms(3) s by (auto simp: normalize_assistant_input_item_def Let_def split: if_splits option.splits)
    then show ?thesis using t st kvs by (auto simp: call_of_def output_of_def map_of_update)
  qed
qed

lemma sanitized_calls:
  "sanitize_input_items dumps py_str items = Inr out \<Longrightarrow> list_all forwarded_shape items \<Longrightarrow>
     List.map_filter call_of out = List.map_filter call_of items \<and> List.map_filter output_of out = List.map_filter output_of items"
proof (induction items arbitrary: out)
  case (Cons item items)
  obtain kvs where "item = JObj kvs" using Cons.prems by (cases item) (auto simp: forwarded_shape_def)
  then obtain s where s: "sanitize_interleaved_reasoning_input_item item = Some s" by simp
  then obtain v out' where v: "normalize_role_input_item dumps py_str s = Inr v"
    "sanitize_input_items dumps py_str items = Inr out'" "out = v # out'"
    using Cons.prems by (cases "sanitize_input_items dumps py_str items") (auto split: sum.splits)
  then show ?case
    using sanitized_call [OF _ s v(1)] Cons.IH [OF v(2)] Cons.prems(2) by (auto simp: List.map_filter_simps split: option.split)
qed simp

lemma moved_input:
  assumes "map_of data ''input'' = Some (JArr items)" and "normalize_responses_input_instructions (JObj data) = JObj moved"
  shows "map_of moved ''input'' = Some (JArr (fst (move_items items)))"
proof (cases "list_ex privileged_role items")
  case True
  then show ?thesis using assms by (auto simp: case_prod_beta map_of_update)
next
  case False
  then have "move_items items = (items, [])" by (intro move_items_unprivileged) (auto simp: list_all_iff list_ex_iff)
  then show ?thesis using assms False by simp
qed

lemma validate_keeps:
  assumes "validate_fields data = Inr data'" and "k \<notin> set VALIDATED_FIELDS \<or> k \<in> {''store'', ''input''}"
  shows "map_of data' k = map_of data k"
  using assms by (auto simp: validate_fields_def and_then_Inr VALIDATED_FIELDS_def dest!: at_field_Inr(1) [where k' = k])

lemma validated_request_input:
  assumes "validate_responses_request dumps py_str data = Inr request" and "map_of data ''input'' = Some (JArr items)"
  shows "\<exists>out. map_of request ''input'' = Some (JArr out) \<and> sanitize_input_items dumps py_str (fst (move_items items)) = Inr out"
proof -
  obtain moved where moved: "normalize_responses_input_instructions (JObj data) = JObj moved" using moved_is_object by blast
  obtain d r where d: "input_field dumps py_str moved = Inr d" "validate_fields (with_defaults d) = Inr r" "validate_conversation r = Inr request"
    using assms(1) by (auto simp: validate_responses_request_def moved and_then_Inr simp del: normalize_responses_input_instructions.simps)
  obtain out where out: "sanitize_input_items dumps py_str (fst (move_items items)) = Inr out" "d = AList.update ''input'' (JArr out) moved"
    using d(1) moved_input [OF assms(2) moved] by (auto simp: input_field_def split: sum.splits)
  have "map_of request ''input'' = map_of (with_defaults d) ''input''"
    using validate_keeps [OF d(2), of "''input''"] d(3) by (auto simp: validate_conversation_def split: if_splits)
  then show ?thesis using out by (simp add: with_defaults_def map_of_update map_of_set_default)
qed

lemma declared_sanitized [simp]:
  "declared_calls (sanitize_user_message m) = declared_calls m" "declared_outputs (sanitize_user_message m) = declared_outputs m"
  by (auto simp: sanitize_user_message_def declared_calls_def declared_outputs_def map_of_update split: json.split option.split)

text \<open>Tools of a type that chat requests may not offer.\<close>

definition supported_tool :: "json \<Rightarrow> bool" where
  "supported_tool t \<longleftrightarrow> json_str (json_get t ''type'') \<notin> Some ` set CHAT_UNSUPPORTED_TOOL_TYPES"

lemma renamed_supported: "supported_tool (JObj kvs) \<Longrightarrow> supported_tool (JObj (rename_type kvs))"
  by (auto simp: supported_tool_def rename_type_def map_of_update normalize_tool_type_def CHAT_UNSUPPORTED_TOOL_TYPES_def split: option.split)

lemma rename_type_untyped: "json_str (map_of (rename_type kvs) ''type'') = None \<Longrightarrow> rename_type kvs = kvs"
  by (auto simp: rename_type_def map_of_update split: option.splits if_splits)

lemma validated_supported: "validate_tool CHAT_UNSUPPORTED_TOOL_TYPES False t = Inr t' \<Longrightarrow> supported_tool t'"
proof (cases t)
  case (JObj kvs)
  assume "validate_tool CHAT_UNSUPPORTED_TOOL_TYPES False t = Inr t'"
  then show ?thesis
    using JObj rename_type_untyped [of kvs]
    by (cases "json_str (map_of (rename_type kvs) ''type'')") (auto simp: validate_tool_def supported_tool_def split: if_splits)
qed (auto simp: validate_tool_def supported_tool_def)

lemma revalidated_supported: "validate_tool [] False t = Inr t' \<Longrightarrow> supported_tool t \<Longrightarrow> supported_tool t'"
  using renamed_supported by (cases t) (auto simp: validate_tool_def split: option.splits)

lemma chat_tool_supported: "normalize_chat_tool t = Some t' \<Longrightarrow> supported_tool t \<Longrightarrow> supported_tool t'"
proof (cases t)
  case (JObj kvs)
  assume n: "normalize_chat_tool t = Some t'" and s: "supported_tool t"
  have "json_str (Some (or_function (map_of kvs ''type''))) \<notin> Some ` set CHAT_UNSUPPORTED_TOOL_TYPES"
    using s JObj by (cases "map_of kvs ''type''") (auto simp: supported_tool_def CHAT_UNSUPPORTED_TOOL_TYPES_def)
  then show ?thesis
    using n s JObj renamed_supported [of kvs]
    by (auto simp: normalize_chat_tool_def split: option.splits json.splits if_splits) (auto simp: supported_tool_def)
qed (simp_all add: normalize_chat_tool_def)

lemma chat_tools_supported:
  assumes "validate_tool_types CHAT_UNSUPPORTED_TOOL_TYPES False tools = Inr tools'"
  shows "list_all supported_tool (normalize_chat_tools tools')"
proof -
  have "supported_tool t" if "t \<in> set tools'" for t
    using traverse_source [OF assms [unfolded validate_tool_types_def] that] validated_supported by blast
  then show ?thesis using chat_tool_supported by (auto simp: normalize_chat_tools_def list_all_iff set_map_filter)
qed

lemma validated_request_tools:
  assumes "validate_responses_request dumps py_str data = Inr request" and "map_of data ''tools'' = Some (JArr tools)"
    and "list_all supported_tool tools"
  shows "\<exists>tools'. map_of request ''tools'' = Some (JArr tools') \<and> list_all supported_tool tools'"
proof -
  obtain moved where moved: "normalize_responses_input_instructions (JObj data) = JObj moved" using moved_is_object by blast
  obtain d r where d: "input_field dumps py_str moved = Inr d" "validate_fields (with_defaults d) = Inr r" "validate_conversation r = Inr request"
    using assms(1) by (auto simp: validate_responses_request_def moved and_then_Inr simp del: normalize_responses_input_instructions.simps)
  have "map_of moved ''tools'' = map_of data ''tools''"
    using moved by (auto simp: map_of_update split: option.splits json.splits if_splits prod.splits)
  then have t: "map_of (with_defaults d) ''tools'' = Some (JArr tools)"
    using d(1) assms(2) by (auto simp: input_field_def with_defaults_def map_of_update map_of_set_default split: option.splits sum.splits)
  from validate_fields_steps [OF d(2)] obtain d1 d2 d3 d4 d5 where d1: "at_field ''tools'' validate_tools_field (with_defaults d) = Inr d1"
    and rest: "at_field ''tool_choice'' (Inr \<circ> Some \<circ> normalize_tool_choice) d1 = Inr d2" "at_field ''include'' validate_include d2 = Inr d3"
      "at_field ''service_tier'' normalize_service_tier_field d3 = Inr d4"
      "at_field ''previous_response_id'' normalize_previous_response_id d4 = Inr d5" "at_field ''truncation'' validate_truncation d5 = Inr r"
    by blast
  have later: "map_of r ''tools'' = map_of d1 ''tools''" using rest [THEN at_field_Inr(1), of "''tools''"] by simp
  obtain tools' where v: "validate_tool_types [] False tools = Inr tools'" "map_of r ''tools'' = Some (JArr tools')"
    using d1 t later by (cases "validate_tool_types [] False tools") (auto simp: at_field_def field_def map_of_update)
  have "list_all supported_tool tools'"
    using v(1) assms(3) traverse_source revalidated_supported unfolding validate_tool_types_def list_all_iff by fast
  then show ?thesis using v(2) d(3) by (auto simp: validate_conversation_def split: if_splits)
qed

text \<open>
  C32: A chat request with messages that is accepted loses no tool call and gains none on its way to the upstream: the function call items of the
  responses request are the calls its assistant messages declare, with their identifiers, names and arguments, and the
  outputs answer the calls its tool messages name, all in their order; and the tools it offers are of supported types.
\<close>

theorem chat_request_keeps_tool_calls:
  assumes "chat_request ps dumps py_str data = Inr request"
    and "map_of data ''messages'' = Some (JArr messages)" and "messages \<noteq> []"
  shows "\<exists>items. map_of request ''input'' = Some (JArr items) \<and>
    List.map_filter call_of items = concat (map declared_calls messages) \<and>
    List.map_filter output_of items = concat (map declared_outputs messages) \<and>
    (\<exists>tools. map_of request ''tools'' = Some (JArr tools) \<and> list_all supported_tool tools)"
proof -
  obtain valid base where valid: "validate_chat_request data = Inr valid" and base: "chat_base ps valid = Inr base"
    and to: "to_responses_request ps dumps py_str valid = Inr request"
    using assms(1) by (auto simp: chat_request_def and_then_Inr to_responses_request_def)
  obtain tools where valid_tools: "valid = AList.update ''tools'' (JArr tools) data"
    and tools: "validate_tool_types CHAT_UNSUPPORTED_TOOL_TYPES False (tool_list data) = Inr tools"
    using valid assms(2,3) by (auto simp: validate_chat_request_def and_then_Inr map_sum_def message_list_def split: sum.splits)
  then have "map_of valid ''messages'' = Some (JArr messages)" using assms(2) by (simp add: map_of_update)
  then obtain built where built: "from_messages valid messages base = Inr built" "validate_responses_request dumps py_str built = Inr request"
    using to base assms(3) by (auto simp: to_responses_request_def and_then_Inr)
  obtain ins items where c: "coerce_messages (default (json_str (map_of base ''instructions'')) []) (map sanitize_user_message messages)
      (is_json_object_response_format (map_of valid ''response_format'')) = Inr (ins, items)"
    and "map_of built ''input'' = Some (JArr items)"
    using built(1) by (auto simp: from_messages_def set_option_def map_of_update map_sum_def split: sum.splits option.splits)
  note input = this(2)
  from validated_request_input [OF built(2) input] obtain out where out: "map_of request ''input'' = Some (JArr out)"
    "sanitize_input_items dumps py_str (fst (move_items items)) = Inr out" by blast
  have "faithful_items (concat (map declared_calls messages)) (concat (map declared_outputs messages)) (fst (move_items items))"
    using faithful_moved [OF c] by (simp add: comp_def)
  then have calls: "\<exists>items. map_of request ''input'' = Some (JArr items) \<and> List.map_filter call_of items = concat (map declared_calls messages) \<and>
      List.map_filter output_of items = concat (map declared_outputs messages)"
    using sanitized_calls [OF out(2)] out(1) by (auto simp: faithful_items_def)
  have "map_of built ''tools'' = Some (JArr (normalize_chat_tools tools))"
    using built(1) valid_tools by (auto simp: from_messages_def set_option_def map_of_update map_sum_def tool_list_def split: sum.splits option.splits)
  from validated_request_tools [OF built(2) this chat_tools_supported [OF tools]] calls show ?thesis by blast
qed

definition example_parsers :: parsers where
  "example_parsers = \<lparr>parse_text = (\<lambda>kvs. Inr \<lparr>tc_verbosity = None, tc_format = None, tc_extra = kvs\<rparr>),
     parse_format = (\<lambda>kvs. Inr \<lparr>rf_type = default (json_str (map_of kvs ''type'')) [], rf_json_schema = None\<rparr>)\<rparr>"

definition example_chat :: fields where
  "example_chat = [(''model'', JStr ''m''), (''messages'', JArr example_messages), (''store'', JBool True),
     (''tools'', JArr [JObj [(''type'', JStr ''function''), (''function'', JObj [(''name'', JStr ''f'')])]])]"

definition example_built :: fields where
  "example_built = [(''model'', JStr ''m''), (''instructions'', JStr ''be brief''),
     (''input'', JArr [role_item (JStr ''user'') (Some (JArr [text_part ''user'' ''hi''])), function_call_item ''c1'' ''f'' ''1'',
       function_call_output_item ''c1'' ''2'']),
     (''tools'', JArr [JObj [(''type'', JStr ''function''), (''name'', JStr ''f''), (''description'', JNull), (''parameters'', JNull)]]),
     (''include'', JArr []), (''store'', JBool False)]"

lemma example_chat_request: "chat_request example_parsers (\<lambda>_. []) (\<lambda>_. []) example_chat = Inr example_built"
  by code_simp

theorem chat_request_keeps_tool_calls_witness:
  "\<exists>items. map_of example_built ''input'' = Some (JArr items) \<and>
    List.map_filter call_of items = concat (map declared_calls example_messages) \<and>
    List.map_filter output_of items = concat (map declared_outputs example_messages) \<and>
    (\<exists>tools. map_of example_built ''tools'' = Some (JArr tools) \<and> list_all supported_tool tools)"
  by (rule chat_request_keeps_tool_calls [OF example_chat_request]) (simp_all add: example_chat_def example_messages_def)

lemma example_validated:
  "validate_responses_request (\<lambda>_. []) (\<lambda>_. [])
     [(''input'', JArr [JObj [(''role'', JStr ''developer''), (''content'', JStr ''be brief'')]]), (''store'', JBool True),
      (''service_tier'', JStr ''fast'')] =
   Inr [(''input'', JArr []), (''store'', JBool False), (''service_tier'', JStr ''priority''), (''instructions'', JStr ''be brief''),
     (''tools'', JArr []), (''include'', JArr [])]"
  by code_simp

theorem validated_request_is_well_formed_witness:
  "valid_field (\<lambda>_. []) (\<lambda>_. []) ''store'' (map_of [(''input'', JArr []), (''store'', JBool False), (''service_tier'', JStr ''priority''),
     (''instructions'', JStr ''be brief''), (''tools'', JArr []), (''include'', JArr [])] ''store'')"
  using validated_request_is_well_formed [OF example_validated] by simp

text \<open>
  A response format the adapter does not know raises a plain \<open>ValueError\<close> outside any validator, which the chat endpoint does not
  expect: the client gets an internal error where its request is at fault.
\<close>

lemma unsupported_format_is_internal_error:
  "chat_request ps dumps py_str [(''messages'', JArr [JObj [(''role'', JStr ''user''), (''content'', JStr ''hi'')]]), (''response_format'', JStr ''xml'')] =
     Inl (Raised ValueError ''Unsupported response_format.type: xml'')"
  and "error_status (Raised ValueError ''Unsupported response_format.type: xml'') = 500"
  by code_simp simp

end
