(* ===== verification/Affinity.thy ===== *)
theory Affinity
  imports Models Json
begin

text \<open>
  Affinity keys (\<open>app/modules/proxy/affinity.py\<close>): which sticky family a request belongs to, from its
  headers and its prompt cache key, and the derivation of a prompt cache key for clients that send none.

  \<^item> A request body is the part the module reads; JSON values are the datatype \<open>json\<close> of theory \<open>Json\<close>.
  \<^item> \<open>sha256(...).hexdigest()\<close> is the argument \<open>digest\<close>, \<open>json.dumps\<close> the argument \<open>dumps\<close>, a generated
    \<open>uuid4().hex\<close> an argument; the one setting that is read is an argument too.
\<close>

section \<open>Requests\<close>

record responses_payload =
  rp_model :: "string option"
  rp_instructions :: "string option"
  rp_input :: json
  rp_prompt_cache_key :: "string option"
  rp_model_extra :: "(string \<times> json) list"

section \<open>Prompt cache keys\<close>

definition prompt_cache_key_from_request_model :: "responses_payload \<Rightarrow> string option" where
  "prompt_cache_key_from_request_model payload =
     (case nonempty_str (rp_prompt_cache_key payload) of
        Some key \<Rightarrow> Some key
      | None \<Rightarrow>
          if rp_model_extra payload = [] then None
          else case nonempty_str (json_str (map_of (rp_model_extra payload) ''prompt_cache_key'')) of
                 Some key \<Rightarrow> Some key
               | None \<Rightarrow> nonempty_str (json_str (map_of (rp_model_extra payload) ''promptCacheKey'')))"

definition extract_model_class :: "string \<Rightarrow> string" where
  "extract_model_class model =
     (if contains ''codex'' model then ''codex'' else if contains ''mini'' model then ''mini'' else ''std'')"

fun text_parts :: "json list \<Rightarrow> string list" where
  "text_parts [] = []"
| "text_parts (JStr s # rest) = s # text_parts rest"
| "text_parts (part # rest) =
     (case json_str (json_get part ''text'') of Some s \<Rightarrow> s # text_parts rest | None \<Rightarrow> text_parts rest)"

definition extract_message_content_text :: "json option \<Rightarrow> string option" where
  "extract_message_content_text content =
     (case content of
        Some (JStr s) \<Rightarrow> Some s
      | Some (JObj kvs) \<Rightarrow> json_str (map_of kvs ''text'')
      | Some (JArr parts) \<Rightarrow> (let ps = text_parts parts in if ps = [] then None else Some (concat ps))
      | _ \<Rightarrow> None)"

definition item_text :: "(json \<Rightarrow> string) \<Rightarrow> json \<Rightarrow> string" where
  "item_text dumps item =
     (case nonempty_str (extract_message_content_text (json_get item ''content'')) of Some s \<Rightarrow> s | None \<Rightarrow> dumps item)"

definition item_role :: "json \<Rightarrow> string option" where
  "item_role item = json_str (json_get item ''role'')"

definition is_instruction_item :: "json \<Rightarrow> bool" where
  "is_instruction_item item = (item_role item \<in> {Some ''system'', Some ''developer''})"

text \<open>The loop that collects instruction texts until 512 characters are reached.\<close>

fun instruction_parts :: "(json \<Rightarrow> string) \<Rightarrow> nat \<Rightarrow> json list \<Rightarrow> string list" where
  "instruction_parts dumps n [] = []"
| "instruction_parts dumps n (item # items) =
     (if \<not> is_instruction_item item then instruction_parts dumps n items
      else let text = item_text dumps item; total_chars = n + length text
           in text # (if total_chars \<ge> 512 then [] else instruction_parts dumps total_chars items))"

fun join_lines :: "string list \<Rightarrow> string" where
  "join_lines [] = []"
| "join_lines [x] = x"
| "join_lines (x # y # ys) = x @ [CHR 0x0A] @ join_lines (y # ys)"

definition extract_instruction_input :: "(json \<Rightarrow> string) \<Rightarrow> responses_payload \<Rightarrow> string option" where
  "extract_instruction_input dumps payload =
     (case rp_input payload of
        JArr items \<Rightarrow>
          (let parts = instruction_parts dumps 0 items in if parts = [] then None else Some (take 512 (join_lines parts)))
      | _ \<Rightarrow> None)"

definition extract_first_user_input :: "(json \<Rightarrow> string) \<Rightarrow> responses_payload \<Rightarrow> string option" where
  "extract_first_user_input dumps payload =
     (case rp_input payload of
        JStr s \<Rightarrow> Some (take 512 s)
      | JArr items \<Rightarrow> map_option (\<lambda>item. take 512 (item_text dumps item)) (find (\<lambda>item. item_role item = Some ''user'') items)
      | _ \<Rightarrow> None)"

fun join_dash :: "string list \<Rightarrow> string" where
  "join_dash [] = []"
| "join_dash [x] = x"
| "join_dash (x # y # ys) = x @ ''-'' @ join_dash (y # ys)"

definition key_part :: "(string \<Rightarrow> string) \<Rightarrow> string option \<Rightarrow> string list" where
  "key_part digest text = (case nonempty_str text of Some s \<Rightarrow> [take 12 (digest (take 512 s))] | None \<Rightarrow> [])"

definition derive_prompt_cache_key ::
  "(string \<Rightarrow> string) \<Rightarrow> (json \<Rightarrow> string) \<Rightarrow> string \<Rightarrow> responses_payload \<Rightarrow> string option \<Rightarrow> string" where
  "derive_prompt_cache_key digest dumps uuid payload api_key_id =
     (let parts = (case api_key_id of None \<Rightarrow> [] | Some k \<Rightarrow> [take 12 k]) @
                  key_part digest (rp_instructions payload) @
                  key_part digest (extract_instruction_input dumps payload) @
                  key_part digest (extract_first_user_input dumps payload)
      in case map_option extract_model_class (nonempty_str (rp_model payload)) of
           None \<Rightarrow> if parts = [] then take 24 uuid else join_dash parts
         | Some model_class \<Rightarrow> if parts = [] then model_class @ ''-'' @ take 24 uuid else join_dash (model_class # parts))"

definition stripped_nonempty :: "string option \<Rightarrow> string option" where
  "stripped_nonempty s = (case s of None \<Rightarrow> None | Some v \<Rightarrow> nonempty_str (Some (py_strip v)))"

definition sticky_key_from_payload :: "responses_payload \<Rightarrow> string option" where
  "sticky_key_from_payload payload = stripped_nonempty (prompt_cache_key_from_request_model payload)"

text \<open>The key, where it came from, and the payload, which the resolution may update.\<close>

definition resolve_prompt_cache_key ::
  "(string \<Rightarrow> string) \<Rightarrow> (json \<Rightarrow> string) \<Rightarrow> string \<Rightarrow> bool \<Rightarrow> responses_payload \<Rightarrow> bool \<Rightarrow> string option
   \<Rightarrow> (string option \<times> string) \<times> responses_payload" where
  "resolve_prompt_cache_key digest dumps uuid derivation_enabled payload openai_cache_affinity api_key_id =
     (case stripped_nonempty (prompt_cache_key_from_request_model payload) of
        Some stripped \<Rightarrow>
          ((Some stripped, ''payload''),
           if prompt_cache_key_from_request_model payload \<noteq> Some stripped
           then payload\<lparr>rp_prompt_cache_key := Some stripped\<rparr> else payload)
      | None \<Rightarrow>
          if \<not> openai_cache_affinity then ((None, ''none''), payload)
          else if \<not> derivation_enabled then ((None, ''none''), payload)
          else let key = derive_prompt_cache_key digest dumps uuid payload api_key_id
               in ((Some key, ''derived''), payload\<lparr>rp_prompt_cache_key := Some key\<rparr>))"

section \<open>Headers\<close>

type_synonym headers = "(string \<times> string) list"

definition header_get :: "headers \<Rightarrow> string \<Rightarrow> string option" where
  "header_get hs key = map_of (rev (map (\<lambda>(k, v). (py_lower k, v)) hs)) key"

definition sticky_key_from_session_header :: "headers \<Rightarrow> string option" where
  "sticky_key_from_session_header hs =
     (case stripped_nonempty (header_get hs ''session_id'') of
        Some k \<Rightarrow> Some k
      | None \<Rightarrow> (case stripped_nonempty (header_get hs ''x-codex-session-id'') of
                   Some k \<Rightarrow> Some k
                 | None \<Rightarrow> stripped_nonempty (header_get hs ''x-codex-conversation-id'')))"

definition sticky_key_from_turn_state_header :: "headers \<Rightarrow> string option" where
  "sticky_key_from_turn_state_header hs = stripped_nonempty (header_get hs ''x-codex-turn-state'')"

definition owner_lookup_session_id_from_headers :: "headers \<Rightarrow> string option" where
  "owner_lookup_session_id_from_headers hs =
     (case sticky_key_from_turn_state_header hs of Some t \<Rightarrow> Some t | None \<Rightarrow> sticky_key_from_session_header hs)"

definition lower_hex :: "char \<Rightarrow> bool" where
  "lower_hex c = (c \<in> set ''0123456789abcdef'')"

text \<open>The pattern ends in \<open>$\<close>, which also matches before a final newline.\<close>

definition turn_suffix_matches :: "string \<Rightarrow> bool" where
  "turn_suffix_matches s =
     (starts_with ''turn_'' s \<and>
      (let rest = drop 5 s; body = (if length rest = 33 \<and> last rest = CHR 0x0A then butlast rest else rest)
       in length body = 32 \<and> list_all lower_hex body))"

definition is_synthesized_turn_state :: "string \<Rightarrow> bool" where
  "is_synthesized_turn_state value =
     (turn_suffix_matches value \<or> (starts_with ''http_'' value \<and> turn_suffix_matches (drop 5 value)))"

definition ensure_downstream_turn_state :: "string \<Rightarrow> headers \<Rightarrow> string" where
  "ensure_downstream_turn_state uuid hs =
     (case sticky_key_from_turn_state_header hs of Some t \<Rightarrow> t | None \<Rightarrow> ''turn_'' @ uuid)"

definition ensure_http_downstream_turn_state :: "string \<Rightarrow> headers \<Rightarrow> string" where
  "ensure_http_downstream_turn_state uuid hs =
     (case sticky_key_from_turn_state_header hs of Some t \<Rightarrow> t | None \<Rightarrow> ''http_turn_'' @ uuid)"

definition build_downstream_turn_state_response_headers :: "string \<Rightarrow> headers" where
  "build_downstream_turn_state_response_headers turn_state = [(''x-codex-turn-state'', turn_state)]"

section \<open>Affinity policies\<close>

record affinity_policy =
  ap_key :: "string option"
  ap_kind :: "StickySessionKind option"
  ap_reallocate_sticky :: bool
  ap_max_age_seconds :: "int option"
  ap_budget_reallocation_enabled :: bool
  ap_platform_key :: "string option"
  ap_platform_kind :: "StickySessionKind option"
  ap_platform_max_age_seconds :: "int option"

definition AffinityPolicy :: affinity_policy where
  "AffinityPolicy =
     \<lparr>ap_key = None, ap_kind = None, ap_reallocate_sticky = False, ap_max_age_seconds = None,
      ap_budget_reallocation_enabled = True, ap_platform_key = None, ap_platform_kind = None,
      ap_platform_max_age_seconds = None\<rparr>"

definition sticky_key_for_codex_control_request :: "headers \<Rightarrow> bool \<Rightarrow> affinity_policy" where
  "sticky_key_for_codex_control_request hs codex_session_affinity =
     (case sticky_key_from_turn_state_header hs of
        Some t \<Rightarrow> AffinityPolicy\<lparr>ap_key := Some t, ap_kind := Some CODEX_SESSION\<rparr>
      | None \<Rightarrow>
          if codex_session_affinity
          then case sticky_key_from_session_header hs of
                 Some k \<Rightarrow> AffinityPolicy\<lparr>ap_key := Some k, ap_kind := Some CODEX_SESSION\<rparr>
               | None \<Rightarrow> AffinityPolicy
          else AffinityPolicy)"

record affinity_options =
  ao_codex_session_affinity :: bool
  ao_openai_cache_affinity :: bool
  ao_openai_cache_affinity_max_age_seconds :: int
  ao_sticky_threads_enabled :: bool
  ao_codex_session_budget_reallocation_enabled :: bool

definition with_platform :: "affinity_options \<Rightarrow> string option \<Rightarrow> affinity_policy \<Rightarrow> affinity_policy" where
  "with_platform opts cache_key policy =
     (let platform_key = (if ao_openai_cache_affinity opts then nonempty_str cache_key else None)
      in policy\<lparr>ap_platform_key := platform_key,
                ap_platform_kind := (if platform_key \<noteq> None then Some PROMPT_CACHE else None),
                ap_platform_max_age_seconds :=
                  (if platform_key \<noteq> None then Some (ao_openai_cache_affinity_max_age_seconds opts) else None)\<rparr>)"

definition sticky_key_for_responses_request ::
  "(string \<Rightarrow> string) \<Rightarrow> (json \<Rightarrow> string) \<Rightarrow> string \<Rightarrow> bool \<Rightarrow> responses_payload \<Rightarrow> headers \<Rightarrow> affinity_options \<Rightarrow> string option
   \<Rightarrow> affinity_policy \<times> responses_payload" where
  "sticky_key_for_responses_request digest dumps uuid derivation_enabled payload hs opts api_key_id =
     (let ((cache_key, _), payload) =
            resolve_prompt_cache_key digest dumps uuid derivation_enabled payload (ao_openai_cache_affinity opts) api_key_id;
          session_policy = (\<lambda>key. with_platform opts cache_key
            (AffinityPolicy\<lparr>ap_key := Some key, ap_kind := Some CODEX_SESSION,
               ap_budget_reallocation_enabled := ao_codex_session_budget_reallocation_enabled opts\<rparr>))
      in (case sticky_key_from_turn_state_header hs of
            Some t \<Rightarrow> session_policy t
          | None \<Rightarrow>
              (case (if ao_codex_session_affinity opts then sticky_key_from_session_header hs else None) of
                 Some k \<Rightarrow> session_policy k
               | None \<Rightarrow>
                   if ao_openai_cache_affinity opts
                   then with_platform opts cache_key
                          (AffinityPolicy\<lparr>ap_key := cache_key, ap_kind := Some PROMPT_CACHE,
                             ap_max_age_seconds := Some (ao_openai_cache_affinity_max_age_seconds opts)\<rparr>)
                   else if ao_sticky_threads_enabled opts
                   then with_platform opts cache_key
                          (AffinityPolicy\<lparr>ap_key := cache_key, ap_kind := Some STICKY_THREAD, ap_reallocate_sticky := True\<rparr>)
                   else AffinityPolicy),
          payload))"

section \<open>Derived keys across the turns of a conversation\<close>

lemma instruction_parts_append:
  "list_all (\<lambda>i. \<not> is_instruction_item i) later
   \<Longrightarrow> instruction_parts dumps n (items @ later) = instruction_parts dumps n items"
proof (induction items arbitrary: n)
  case Nil
  then show ?case by (induction later) auto
next
  case (Cons item items)
  then show ?case by (simp add: Let_def)
qed

lemma find_append_hit: "list_ex P xs \<Longrightarrow> find P (xs @ ys) = find P xs"
  by (induction xs) auto

lemma find_hit: "list_ex P xs \<Longrightarrow> \<exists>x. find P xs = Some x"
  by (induction xs) auto

lemma item_text_nonempty: "(\<And>j. dumps j \<noteq> []) \<Longrightarrow> item_text dumps item \<noteq> []"
  by (auto simp: item_text_def dest: nonempty_strD split: option.splits)

text \<open>
  A client that sends no prompt cache key gets the same derived key on every later turn of a conversation, whatever
  random identifier the call draws: once the input holds a user message, appending further input items keeps
  \<open>_derive_prompt_cache_key\<close> unchanged, provided none of the appended items is a system or developer message. Such an
  item would enter the key, since instruction items are collected from the whole input.
\<close>

theorem derived_key_stable_across_turns:
  fixes payload :: responses_payload
  assumes input: "rp_input payload = JArr items"
      and user: "list_ex (\<lambda>i. item_role i = Some ''user'') items"
      and later: "list_all (\<lambda>i. \<not> is_instruction_item i) later"
      and dumps: "\<And>j. dumps j \<noteq> []"
  shows "derive_prompt_cache_key digest dumps uuid (payload\<lparr>rp_input := JArr (items @ later)\<rparr>) api_key_id =
         derive_prompt_cache_key digest dumps uuid' payload api_key_id"
proof -
  define payload' where "payload' = payload\<lparr>rp_input := JArr (items @ later)\<rparr>"
  have same: "rp_instructions payload' = rp_instructions payload" "rp_model payload' = rp_model payload"
    by (simp_all add: payload'_def)
  have instr: "extract_instruction_input dumps payload' = extract_instruction_input dumps payload"
    using later by (simp add: payload'_def extract_instruction_input_def input instruction_parts_append)
  have first: "extract_first_user_input dumps payload' = extract_first_user_input dumps payload"
    using user by (simp add: payload'_def extract_first_user_input_def input find_append_hit)
  obtain u where "find (\<lambda>i. item_role i = Some ''user'') items = Some u" using find_hit [OF user] by blast
  then have "key_part digest (extract_first_user_input dumps payload) \<noteq> []"
    using item_text_nonempty [of dumps u] dumps by (simp add: key_part_def extract_first_user_input_def input)
  then show ?thesis unfolding payload'_def [symmetric] derive_prompt_cache_key_def
    by (simp add: same instr first Let_def split: option.split)
qed

theorem derived_key_stable_across_turns_witness:
  "derive_prompt_cache_key rev (\<lambda>_. ''{}'') ''aa''
     \<lparr>rp_model = Some ''gpt-5.3-codex'', rp_instructions = None,
      rp_input = JArr ([JObj [(''role'', JStr ''user''), (''content'', JStr ''hi'')]] @
                       [JObj [(''role'', JStr ''assistant''), (''content'', JStr ''yes'')]]),
      rp_prompt_cache_key = None, rp_model_extra = []\<rparr> (Some ''key'') =
   derive_prompt_cache_key rev (\<lambda>_. ''{}'') ''bb''
     \<lparr>rp_model = Some ''gpt-5.3-codex'', rp_instructions = None,
      rp_input = JArr [JObj [(''role'', JStr ''user''), (''content'', JStr ''hi'')]],
      rp_prompt_cache_key = None, rp_model_extra = []\<rparr> (Some ''key'')"
  using derived_key_stable_across_turns
    [of "\<lparr>rp_model = Some ''gpt-5.3-codex'', rp_instructions = None,
          rp_input = JArr [JObj [(''role'', JStr ''user''), (''content'', JStr ''hi'')]],
          rp_prompt_cache_key = None, rp_model_extra = []\<rparr>"
        "[JObj [(''role'', JStr ''user''), (''content'', JStr ''hi'')]]"
        "[JObj [(''role'', JStr ''assistant''), (''content'', JStr ''yes'')]]"
        "\<lambda>_. ''{}''" rev "''aa''" "Some ''key''" "''bb''"]
  by (simp add: item_role_def is_instruction_item_def)

text \<open>
  A developer message that arrives after the first turn does change the key: the instruction texts are taken from the
  whole input, not from its beginning.
\<close>

lemma later_instruction_changes_key:
  defines "turn_one \<equiv> [JObj [(''role'', JStr ''user''), (''content'', JStr ''hi'')]]"
      and "later \<equiv> [JObj [(''role'', JStr ''developer''), (''content'', JStr ''be brief'')]]"
      and "payload \<equiv> \<lambda>items. \<lparr>rp_model = None, rp_instructions = None, rp_input = JArr items,
                        rp_prompt_cache_key = None, rp_model_extra = []\<rparr>"
  shows "derive_prompt_cache_key digest dumps uuid (payload (turn_one @ later)) None \<noteq>
         derive_prompt_cache_key digest dumps uuid (payload turn_one) None"
  by (simp add: turn_one_def later_def payload_def derive_prompt_cache_key_def key_part_def nonempty_str_def
      extract_instruction_input_def extract_first_user_input_def item_role_def is_instruction_item_def item_text_def
      extract_message_content_text_def Let_def)

text \<open>Two API keys whose identifiers share their first twelve characters derive the same prompt cache key.\<close>

lemma derived_key_ignores_id_tail:
  "take 12 a = take 12 b \<Longrightarrow>
   derive_prompt_cache_key digest dumps uuid payload (Some a) = derive_prompt_cache_key digest dumps uuid payload (Some b)"
  by (simp add: derive_prompt_cache_key_def)

section \<open>Turn states\<close>

lemma stripped_nonemptyD: "stripped_nonempty s = Some t \<Longrightarrow> py_strip t = t \<and> t \<noteq> []"
  by (cases s) (auto simp: stripped_nonempty_def dest: nonempty_strD)

lemma stripped_nonempty_fixed: "py_strip t = t \<Longrightarrow> t \<noteq> [] \<Longrightarrow> stripped_nonempty (Some t) = Some t"
  by (simp add: stripped_nonempty_def)

lemma py_strip_no_space: "list_all (\<lambda>c. \<not> py_isspace c) s \<Longrightarrow> py_strip s = s"
proof -
  have keep: "list_all (\<lambda>c. \<not> py_isspace c) t \<Longrightarrow> dropWhile py_isspace t = t" for t by (cases t) auto
  assume "list_all (\<lambda>c. \<not> py_isspace c) s"
  then show ?thesis by (simp add: py_strip_def keep list_all_iff)
qed

lemma hex_not_space: "list_all lower_hex s \<Longrightarrow> list_all (\<lambda>c. \<not> py_isspace c) s"
  by (induction s) (auto simp: lower_hex_def py_isspace_def)

lemma header_of_response [simp]:
  "sticky_key_from_turn_state_header (build_downstream_turn_state_response_headers t) = stripped_nonempty (Some t)"
  by (simp add: sticky_key_from_turn_state_header_def build_downstream_turn_state_response_headers_def header_get_def
      py_lower_def py_lower_char_def)

lemma turn_state_stripped:
  assumes "length uuid = 32" "list_all lower_hex uuid"
  shows "py_strip (ensure_http_downstream_turn_state uuid hs) = ensure_http_downstream_turn_state uuid hs \<and>
         ensure_http_downstream_turn_state uuid hs \<noteq> []"
proof -
  have "py_strip (''http_turn_'' @ uuid) = ''http_turn_'' @ uuid"
    using hex_not_space [OF assms(2)] by (intro py_strip_no_space) (simp add: py_isspace_def)
  then show ?thesis
    by (auto simp: ensure_http_downstream_turn_state_def sticky_key_from_turn_state_header_def
        dest: stripped_nonemptyD split: option.split)
qed

text \<open>
  A turn state survives the round trip through the client. The state that a request is given, whether the client sent
  one or the proxy synthesized it, is the state the next request resolves to when the client echoes the response header,
  and a synthesized one is recognised as such.
\<close>

theorem turn_state_echo_roundtrip:
  assumes "length uuid = 32" "list_all lower_hex uuid"
  shows "let t = ensure_http_downstream_turn_state uuid hs
         in ensure_http_downstream_turn_state uuid' (build_downstream_turn_state_response_headers t) = t \<and>
            (if sticky_key_from_turn_state_header hs = None then is_synthesized_turn_state t else True)"
proof -
  define t where "t = ensure_http_downstream_turn_state uuid hs"
  have "py_strip t = t \<and> t \<noteq> []" using assms by (simp add: t_def turn_state_stripped)
  then have echo: "ensure_http_downstream_turn_state uuid' (build_downstream_turn_state_response_headers t) = t"
    by (simp add: ensure_http_downstream_turn_state_def stripped_nonempty_fixed)
  have "is_synthesized_turn_state t" if "sticky_key_from_turn_state_header hs = None"
    using that assms
    by (simp add: t_def ensure_http_downstream_turn_state_def is_synthesized_turn_state_def turn_suffix_matches_def
        starts_with_def Let_def)
  with echo show ?thesis by (simp add: t_def)
qed

theorem turn_state_echo_roundtrip_witness:
  "let t = ensure_http_downstream_turn_state (replicate 32 (CHR ''a'')) []
   in ensure_http_downstream_turn_state ''x'' (build_downstream_turn_state_response_headers t) = t \<and>
      is_synthesized_turn_state t"
  using turn_state_echo_roundtrip [of "replicate 32 (CHR ''a'')" "[]" "''x''"]
  by (simp add: lower_hex_def list_all_iff sticky_key_from_turn_state_header_def header_get_def stripped_nonempty_def Let_def)

section \<open>Precedence\<close>

text \<open>
  A turn state header decides the family of a request whatever the settings and the payload are; without one, and
  without a session header, the prompt cache decides.
\<close>

lemma turn_state_policy:
  assumes "sticky_key_from_turn_state_header hs = Some t"
  shows "ap_key (fst (sticky_key_for_responses_request digest dumps uuid d payload hs opts k)) = Some t"
        "ap_kind (fst (sticky_key_for_responses_request digest dumps uuid d payload hs opts k)) = Some CODEX_SESSION"
        "ap_max_age_seconds (fst (sticky_key_for_responses_request digest dumps uuid d payload hs opts k)) = None"
        "\<not> ap_reallocate_sticky (fst (sticky_key_for_responses_request digest dumps uuid d payload hs opts k))"
  using assms
  by (simp_all add: sticky_key_for_responses_request_def with_platform_def AffinityPolicy_def Let_def split: prod.split)

end
