(* ===== verification/File_Pins.thy ===== *)
theory File_Pins
  imports Affinity Request_Input
begin

text \<open>
  Files that belong to an account (\<open>app/modules/proxy/_service/file_ops.py\<close>, the file references of
  \<open>app/core/openai/requests.py\<close>). The account an upload was registered through is remembered for half an hour, so that the
  finalization of the upload and a request that mentions the file go to the same account.

  A dictionary is an association list; every reading of the clock is an argument. The file ids of a request are a Python set,
  iterated in an order the program does not choose: the definitions take a list, and what is shown does not depend on its order.
\<close>

section \<open>File references of a request\<close>

definition is_input_file_with_id :: "fields \<Rightarrow> bool" where
  "is_input_file_with_id item =
     (map_of item ''type'' = Some (JStr ''input_file'') \<and> nonempty_str (json_str (map_of item ''file_id'')) \<noteq> None)"

definition remove_prefix :: "string \<Rightarrow> string \<Rightarrow> string" where
  "remove_prefix p s = (if starts_with p s then drop (length p) s else s)"

definition input_image_file_reference :: "fields \<Rightarrow> string option" where
  "input_image_file_reference item =
     (if map_of item ''type'' \<noteq> Some (JStr ''input_image'') then None
      else case nonempty_str (json_str (map_of item ''file_id'')) of
        Some i \<Rightarrow> Some i
      | None \<Rightarrow>
          (case json_str (map_of item ''image_url'') of
             Some url \<Rightarrow> if starts_with ''sediment://'' url then nonempty_str (Some (py_strip (remove_prefix ''sediment://'' url))) else None
           | None \<Rightarrow> None))"

fun nested_parts :: "json option \<Rightarrow> json list" where
  "nested_parts (Some (JArr parts)) = parts"
| "nested_parts (Some (JObj kvs)) = [JObj kvs]"
| "nested_parts _ = []"

fun own_file_ids :: "json \<Rightarrow> string list" where
  "own_file_ids (JObj kvs) =
     (if is_input_file_with_id kvs then (case json_str (map_of kvs ''file_id'') of Some i \<Rightarrow> [i] | None \<Rightarrow> []) else []) @
     (case input_image_file_reference kvs of Some i \<Rightarrow> [i] | None \<Rightarrow> [])"
| "own_file_ids _ = []"

fun item_file_ids :: "json \<Rightarrow> string list" where
  "item_file_ids (JObj kvs) = own_file_ids (JObj kvs) @ concat (map own_file_ids (nested_parts (map_of kvs ''content'')))"
| "item_file_ids _ = []"

fun extract_input_file_ids :: "json \<Rightarrow> string list" where
  "extract_input_file_ids (JArr items) = remdups (concat (map item_file_ids items))"
| "extract_input_file_ids _ = []"

record image_reference =
  ir_item_index :: nat
  ir_content_index :: "nat option"
  ir_file_id :: string

text \<open>The references in a value at any depth, outer ones first.\<close>

function nested_references :: "json \<Rightarrow> string list" where
  "nested_references (JObj kvs) =
     (case input_image_file_reference kvs of Some i \<Rightarrow> [i] | None \<Rightarrow> []) @ concat (map (\<lambda>kv. nested_references (snd kv)) kvs)"
| "nested_references (JArr xs) = concat (map nested_references xs)"
| "nested_references JNull = []"
| "nested_references (JBool b) = []"
| "nested_references (JInt n) = []"
| "nested_references (JFloat r) = []"
| "nested_references (JStr s) = []"
  by pat_completeness auto
termination
  by (relation "measure size") (auto dest: size_member size_pair)

definition append_input_image_file_references :: "nat \<Rightarrow> nat option \<Rightarrow> json option \<Rightarrow> image_reference list" where
  "append_input_image_file_references i c v =
     (case v of
        Some w \<Rightarrow> map (\<lambda>f. \<lparr>ir_item_index = i, ir_content_index = c, ir_file_id = f\<rparr>) (nested_references w)
      | None \<Rightarrow> [])"

definition item_image_references :: "nat \<times> json \<Rightarrow> image_reference list" where
  "item_image_references indexed =
     (case indexed of (i, item) \<Rightarrow>
        (case item of
           JObj kvs \<Rightarrow>
             (case input_image_file_reference kvs of
                Some f \<Rightarrow> [\<lparr>ir_item_index = i, ir_content_index = None, ir_file_id = f\<rparr>] | None \<Rightarrow> []) @
             concat (map (\<lambda>(c, part). append_input_image_file_references i (Some c) (Some part))
               (List.enumerate 0 (nested_parts (map_of kvs ''content'')))) @
             append_input_image_file_references i None (map_of kvs ''output'')
         | _ \<Rightarrow> []))"

fun extract_input_image_file_references :: "json \<Rightarrow> image_reference list" where
  "extract_input_image_file_references (JArr items) = concat (map item_image_references (List.enumerate 0 items))"
| "extract_input_image_file_references _ = []"

definition raise_for_unsupported_input_image_references :: "json \<Rightarrow> string + unit" where
  "raise_for_unsupported_input_image_references inp =
     (if extract_input_image_file_references inp = [] then Inr () else Inl ''unsupported_input_image_format'')"

section \<open>Pins\<close>

record file_pin =
  fp_account_id :: string
  fp_expires_at :: real

type_synonym pins = "(string \<times> file_pin) list"

definition FILE_ACCOUNT_PIN_TTL_SECONDS :: real where
  "FILE_ACCOUNT_PIN_TTL_SECONDS = 1800"

definition evict_expired_file_pins :: "real \<Rightarrow> pins \<Rightarrow> pins" where
  "evict_expired_file_pins now pins = filter (\<lambda>(_, e). \<not> fp_expires_at e \<le> now) pins"

definition pin_file_account :: "real \<Rightarrow> real \<Rightarrow> string \<Rightarrow> string \<Rightarrow> pins \<Rightarrow> pins" where
  "pin_file_account now now' file_id account_id pins =
     (if file_id = [] \<or> account_id = [] then pins
      else evict_expired_file_pins now'
        (AList.update file_id \<lparr>fp_account_id = account_id, fp_expires_at = now + FILE_ACCOUNT_PIN_TTL_SECONDS\<rparr> pins))"

definition lookup_file_pin :: "real \<Rightarrow> real \<Rightarrow> string \<Rightarrow> pins \<Rightarrow> file_pin option \<times> pins" where
  "lookup_file_pin now now' file_id pins =
     (if file_id = [] then (None, pins)
      else let pins = evict_expired_file_pins now pins
        in case map_of pins file_id of
             None \<Rightarrow> (None, pins)
           | Some e \<Rightarrow> if fp_expires_at e \<le> now' then (None, AList.delete file_id pins) else (Some e, pins))"

definition resolve_file_account :: "real \<Rightarrow> real \<Rightarrow> string \<Rightarrow> pins \<Rightarrow> string option \<times> pins" where
  "resolve_file_account now now' file_id pins =
     (case lookup_file_pin now now' file_id pins of (e, pins') \<Rightarrow> (map_option fp_account_id e, pins'))"

text \<open>The best pin so far: its account, its expiry and its file.\<close>

type_synonym best_pin = "string option \<times> real \<times> string option"

definition better_pin :: "file_pin \<Rightarrow> string \<Rightarrow> best_pin \<Rightarrow> bool" where
  "better_pin e file_id best =
     (case best of (_, best_expires_at, best_file_id) \<Rightarrow>
        fp_expires_at e > best_expires_at \<or>
        fp_expires_at e = best_expires_at \<and> (case best_file_id of None \<Rightarrow> True | Some b \<Rightarrow> file_id < b))"

definition consider_pin :: "pins \<Rightarrow> string \<Rightarrow> best_pin \<Rightarrow> best_pin" where
  "consider_pin pins file_id best =
     (case map_of pins file_id of
        None \<Rightarrow> best
      | Some e \<Rightarrow> if better_pin e file_id best then (Some (fp_account_id e), fp_expires_at e, Some file_id) else best)"

definition best_account :: "pins \<Rightarrow> string list \<Rightarrow> string option" where
  "best_account pins file_ids = fst (fold (consider_pin pins) file_ids (None, - 1, None))"

text \<open>Whether the client itself has said which conversation the request belongs to.\<close>

record pin_request =
  pq_explicit_fields :: "string list"
  pq_payload :: responses_payload
  pq_previous_response_id :: "string option"
  pq_headers :: headers

definition stronger_affinity :: "pin_request \<Rightarrow> bool" where
  "stronger_affinity r =
     ((''prompt_cache_key'' \<in> set (pq_explicit_fields r) \<or> ''promptCacheKey'' \<in> set (pq_explicit_fields r)) \<and>
        prompt_cache_key_from_request_model (pq_payload r) \<noteq> None \<or>
      (case sticky_key_from_turn_state_header (pq_headers r) of Some t \<Rightarrow> \<not> is_synthesized_turn_state t | None \<Rightarrow> False) \<or>
      sticky_key_from_session_header (pq_headers r) \<noteq> None \<or>
      nonempty_str (pq_previous_response_id r) \<noteq> None)"

definition resolve_file_account_for_responses :: "real \<Rightarrow> pin_request \<Rightarrow> pins \<Rightarrow> string option \<times> pins" where
  "resolve_file_account_for_responses now r pins =
     (if stronger_affinity r \<or> extract_input_file_ids (rp_input (pq_payload r)) = [] then (None, pins)
      else let pins = evict_expired_file_pins now pins in (best_account pins (extract_input_file_ids (rp_input (pq_payload r))), pins))"

text \<open>The registration of an upload pins its file, the finalization pins it again when it has succeeded.\<close>

definition pin_created_file :: "real \<Rightarrow> real \<Rightarrow> json \<Rightarrow> string option \<Rightarrow> pins \<Rightarrow> pins" where
  "pin_created_file now now' result account_id pins =
     (case (result, nonempty_str account_id) of
        (JObj kvs, Some a) \<Rightarrow>
          (case nonempty_str (json_str (map_of kvs ''file_id'')) of Some f \<Rightarrow> pin_file_account now now' f a pins | None \<Rightarrow> pins)
      | _ \<Rightarrow> pins)"

definition pin_finalized_file :: "real \<Rightarrow> real \<Rightarrow> string \<Rightarrow> json \<Rightarrow> string option \<Rightarrow> pins \<Rightarrow> pins" where
  "pin_finalized_file now now' file_id result account_id pins =
     (case (result, nonempty_str account_id) of
        (JObj kvs, Some a) \<Rightarrow>
          if map_of kvs ''status'' = Some (JStr ''success'') then pin_file_account now now' file_id a pins else pins
      | _ \<Rightarrow> pins)"

section \<open>The pin that wins\<close>

text \<open>The pin of a file wins over those of other files when it was made last, and among equals when its file comes first.\<close>

definition wins :: "(string \<rightharpoonup> file_pin) \<Rightarrow> string set \<Rightarrow> string \<Rightarrow> bool" where
  "wins m ids f \<longleftrightarrow>
     f \<in> ids \<and> (\<exists>e. m f = Some e \<and>
       (\<forall>g e'. g \<in> ids \<longrightarrow> m g = Some e' \<longrightarrow>
          fp_expires_at e' < fp_expires_at e \<or> fp_expires_at e' = fp_expires_at e \<and> f \<le> g))"

lemma wins_unique: "wins m ids f \<Longrightarrow> wins m ids g \<Longrightarrow> f = g"
  by (fastforce simp: wins_def)

lemma fold_consider:
  assumes "\<And>f e. map_of pins f = Some e \<Longrightarrow> - 1 < fp_expires_at e"
  shows "(case fold (consider_pin pins) ids (None, - 1, None) of
      (a, ex, None) \<Rightarrow> a = None \<and> ex = - 1 \<and> (\<forall>f \<in> set ids. map_of pins f = None)
    | (a, ex, Some f) \<Rightarrow> wins (map_of pins) (set ids) f \<and> (\<exists>e. map_of pins f = Some e \<and> a = Some (fp_account_id e) \<and> ex = fp_expires_at e))"
proof (induction ids rule: rev_induct)
  case (snoc g ids)
  obtain a ex b where best: "fold (consider_pin pins) ids (None, - 1, None) = (a, ex, b)" using prod_cases3 by blast
  have step: "fold (consider_pin pins) (ids @ [g]) (None, - 1, None) = consider_pin pins g (a, ex, b)" by (simp add: best)
  have IH: "case b of None \<Rightarrow> a = None \<and> ex = - 1 \<and> (\<forall>f \<in> set ids. map_of pins f = None)
    | Some f \<Rightarrow> wins (map_of pins) (set ids) f \<and> (\<exists>e. map_of pins f = Some e \<and> a = Some (fp_account_id e) \<and> ex = fp_expires_at e)"
    using snoc best by (simp split: option.splits)
  show ?case
  proof (cases "map_of pins g")
    case None
    then show ?thesis unfolding step using IH by (auto simp: consider_pin_def wins_def split: option.splits)
  next
    case (Some e)
    show ?thesis
    proof (cases b)
      case None
      then show ?thesis
        unfolding step using IH Some assms [OF Some] by (auto simp: consider_pin_def better_pin_def wins_def)
    next
      case (Some f)
      then obtain e' where f: "wins (map_of pins) (set ids) f" "map_of pins f = Some e'" "a = Some (fp_account_id e')" "ex = fp_expires_at e'"
        using IH by auto
      have "wins (map_of pins) (insert g (set ids)) (if better_pin e g (a, ex, b) then g else f)"
        using f \<open>map_of pins g = Some e\<close> Some by (auto simp: wins_def better_pin_def)
      then show ?thesis unfolding step using Some f \<open>map_of pins g = Some e\<close> by (auto simp: consider_pin_def split: if_splits)
    qed
  qed
qed simp

lemma best_account_wins:
  assumes "\<And>f e. map_of pins f = Some e \<Longrightarrow> - 1 < fp_expires_at e"
  shows "best_account pins ids = None \<longleftrightarrow> (\<forall>f \<in> set ids. map_of pins f = None)"
    and "best_account pins ids = Some a \<longleftrightarrow> (\<exists>f e. wins (map_of pins) (set ids) f \<and> map_of pins f = Some e \<and> a = fp_account_id e)"
proof -
  obtain a' ex b where best: "fold (consider_pin pins) ids (None, - 1, None) = (a', ex, b)" using prod_cases3 by blast
  have fold: "case b of None \<Rightarrow> a' = None \<and> (\<forall>f \<in> set ids. map_of pins f = None)
    | Some f \<Rightarrow> wins (map_of pins) (set ids) f \<and> (\<exists>e. map_of pins f = Some e \<and> a' = Some (fp_account_id e))"
    using fold_consider [of pins ids] assms best by (auto split: option.splits)
  show "best_account pins ids = None \<longleftrightarrow> (\<forall>f \<in> set ids. map_of pins f = None)"
    using fold best by (auto simp: best_account_def wins_def split: option.splits)
  show "best_account pins ids = Some a \<longleftrightarrow> (\<exists>f e. wins (map_of pins) (set ids) f \<and> map_of pins f = Some e \<and> a = fp_account_id e)"
  proof (cases b)
    case None
    then show ?thesis using fold best by (auto simp: best_account_def wins_def)
  next
    case (Some f)
    then obtain e where f: "wins (map_of pins) (set ids) f" "map_of pins f = Some e" "best_account pins ids = Some (fp_account_id e)"
      using fold best by (auto simp: best_account_def)
    have "g = f" if "wins (map_of pins) (set ids) g" for g using wins_unique [OF that f(1)] .
    then show ?thesis using f by (metis option.inject)
  qed
qed

section \<open>Pins and their history\<close>

text \<open>What happens to the table, with the readings of the clock, and what is remembered when nothing is ever evicted.\<close>

datatype pin_op = PinOp real real string string | LookupOp real real string | ResponsesOp real pin_request

fun run_pin_op :: "pin_op \<Rightarrow> pins \<Rightarrow> pins" where
  "run_pin_op (PinOp now now' f a) pins = pin_file_account now now' f a pins"
| "run_pin_op (LookupOp now now' f) pins = snd (resolve_file_account now now' f pins)"
| "run_pin_op (ResponsesOp now r) pins = snd (resolve_file_account_for_responses now r pins)"

fun readings :: "pin_op \<Rightarrow> real \<times> real" where
  "readings (PinOp now now' f a) = (now, now')"
| "readings (LookupOp now now' f) = (now, now')"
| "readings (ResponsesOp now r) = (now, now)"

text \<open>The monotonic clock: readings do not go back.\<close>

fun timed :: "real \<Rightarrow> pin_op list \<Rightarrow> real \<Rightarrow> bool" where
  "timed t [] t' = (t \<le> t')"
| "timed t (op # ops) t' = (t \<le> fst (readings op) \<and> fst (readings op) \<le> snd (readings op) \<and> timed (snd (readings op)) ops t')"

fun record_op :: "pin_op \<Rightarrow> (string \<rightharpoonup> file_pin) \<Rightarrow> (string \<rightharpoonup> file_pin)" where
  "record_op (PinOp now now' f a) h =
     (if f = [] \<or> a = [] then h else h(f \<mapsto> \<lparr>fp_account_id = a, fp_expires_at = now + FILE_ACCOUNT_PIN_TTL_SECONDS\<rparr>))"
| "record_op _ h = h"

definition live_entry :: "real \<Rightarrow> file_pin option \<Rightarrow> file_pin option" where
  "live_entry now v = (case v of Some e \<Rightarrow> if now < fp_expires_at e then Some e else None | None \<Rightarrow> None)"

abbreviation live :: "real \<Rightarrow> (string \<rightharpoonup> file_pin) \<Rightarrow> (string \<rightharpoonup> file_pin)" where
  "live now h \<equiv> (\<lambda>f. live_entry now (h f))"

text \<open>The table holds only what was pinned, and everything of it that is still live.\<close>

definition entry_ok :: "real \<Rightarrow> file_pin option \<Rightarrow> file_pin option \<Rightarrow> bool" where
  "entry_ok t remembered held \<longleftrightarrow> held = remembered \<or> held = None \<and> live_entry t remembered = None"

definition pins_ok :: "(string \<rightharpoonup> file_pin) \<Rightarrow> real \<Rightarrow> pins \<Rightarrow> bool" where
  "pins_ok h t pins \<longleftrightarrow> distinct (map fst pins) \<and> (\<forall>f. entry_ok t (h f) (map_of pins f))"

lemma entry_evict: "entry_ok t r v \<Longrightarrow> t \<le> now \<Longrightarrow> entry_ok now r (live_entry now v)"
  by (cases r) (auto simp: entry_ok_def live_entry_def split: if_splits)

lemma entry_live: "entry_ok t r v \<Longrightarrow> t \<le> now \<Longrightarrow> live_entry now v = live_entry now r"
  by (cases r) (auto simp: entry_ok_def live_entry_def split: if_splits)

lemma entry_later: "entry_ok t r v \<Longrightarrow> t \<le> now \<Longrightarrow> entry_ok now r v"
  by (cases r) (auto simp: entry_ok_def live_entry_def split: if_splits)

lemma map_of_filter_value:
  "distinct (map fst kvs) \<Longrightarrow> map_of (filter (\<lambda>(_, v). P v) kvs) k = (case map_of kvs k of Some v \<Rightarrow> if P v then Some v else None | None \<Rightarrow> None)"
  by (induction kvs) (auto simp: map_of_eq_None_iff split: option.split)

lemma map_of_evict:
  "distinct (map fst pins) \<Longrightarrow> map_of (evict_expired_file_pins now pins) f = live_entry now (map_of pins f)"
  by (auto simp: evict_expired_file_pins_def live_entry_def map_of_filter_value split: option.split)

lemma distinct_evict: "distinct (map fst pins) \<Longrightarrow> distinct (map fst (evict_expired_file_pins now pins))"
  unfolding evict_expired_file_pins_def by (rule distinct_map_filter)

lemma evict_ok: "pins_ok h t pins \<Longrightarrow> t \<le> now \<Longrightarrow> pins_ok h now (evict_expired_file_pins now pins)"
  by (auto simp: pins_ok_def map_of_evict distinct_evict intro: entry_evict)

lemma evicted_live: "pins_ok h t pins \<Longrightarrow> t \<le> now \<Longrightarrow> map_of (evict_expired_file_pins now pins) = live now h"
  by (rule ext) (simp add: pins_ok_def map_of_evict entry_live [of t])

lemma later_ok: "pins_ok h t pins \<Longrightarrow> t \<le> t' \<Longrightarrow> pins_ok h t' pins"
  by (auto simp: pins_ok_def intro: entry_later)

lemma pin_ok:
  assumes "pins_ok h t pins" and "t \<le> now" and "now \<le> now'"
  shows "pins_ok (record_op (PinOp now now' f a) h) now' (pin_file_account now now' f a pins)"
proof (cases "f = [] \<or> a = []")
  case True
  then show ?thesis using assms later_ok by (auto simp: pin_file_account_def)
next
  case False
  have "pins_ok (record_op (PinOp now now' f a) h) t
      (AList.update f \<lparr>fp_account_id = a, fp_expires_at = now + FILE_ACCOUNT_PIN_TTL_SECONDS\<rparr> pins)"
    using assms(1) False by (simp add: pins_ok_def map_of_update distinct_update) (simp add: entry_ok_def)
  then show ?thesis using evict_ok [of _ t _ now'] assms False by (simp add: pin_file_account_def)
qed

lemma lookup_ok:
  assumes "pins_ok h t pins" and "t \<le> now" and "now \<le> now'"
  shows "pins_ok h now' (snd (lookup_file_pin now now' f pins))"
    and "fst (lookup_file_pin now now' f pins) = (if f = [] then None else live now' h f)"
proof -
  let ?p = "evict_expired_file_pins now pins"
  note ok = evict_ok [OF assms(1,2)]
  have m: "map_of ?p f = live_entry now (h f)" using evicted_live [OF assms(1,2)] by simp
  show "fst (lookup_file_pin now now' f pins) = (if f = [] then None else live now' h f)"
    using assms(3) by (auto simp: lookup_file_pin_def Let_def m live_entry_def split: option.splits)
  have "pins_ok h now' (AList.delete f ?p)" if e: "map_of ?p f = Some e" "fp_expires_at e \<le> now'" for e
  proof -
    have "h f = Some e" using m e(1) by (auto simp: live_entry_def split: option.splits if_splits)
    then show ?thesis
      using later_ok [OF ok assms(3)] e(2) by (auto simp: pins_ok_def delete_conv' distinct_delete entry_ok_def live_entry_def)
  qed
  then show "pins_ok h now' (snd (lookup_file_pin now now' f pins))"
    using later_ok [OF ok assms(3)] later_ok [OF assms(1)] assms(2,3) by (auto simp: lookup_file_pin_def Let_def split: option.split)
qed

lemma run_op_ok:
  assumes "pins_ok h t pins" and "t \<le> fst (readings op)" and "fst (readings op) \<le> snd (readings op)"
  shows "pins_ok (record_op op h) (snd (readings op)) (run_pin_op op pins)"
proof (cases op)
  case (PinOp now now' f a)
  then show ?thesis using assms pin_ok by simp
next
  case (LookupOp now now' f)
  then show ?thesis using assms lookup_ok(1) by (simp add: resolve_file_account_def case_prod_beta)
next
  case (ResponsesOp now r)
  then show ?thesis using assms evict_ok later_ok by (simp add: resolve_file_account_for_responses_def Let_def)
qed

lemma pins_run_ok: "pins_ok h t pins \<Longrightarrow> timed t ops t' \<Longrightarrow> pins_ok (fold record_op ops h) t' (fold run_pin_op ops pins)"
proof (induction ops arbitrary: h t pins)
  case (Cons op ops)
  then show ?case using Cons.IH [OF run_op_ok] by simp
qed (simp add: later_ok)



lemma live_expires: "live_entry now v = Some e \<Longrightarrow> now < fp_expires_at e"
  by (auto simp: live_entry_def split: option.splits if_splits)

lemma timed_le: "timed t ops t' \<Longrightarrow> t \<le> t'"
  by (induction ops arbitrary: t) fastforce+

lemma best_account_live:
  assumes "pins_ok h t pins" and "t \<le> now" and "0 \<le> now"
  shows "best_account (evict_expired_file_pins now pins) ids = Some a \<longleftrightarrow>
    (\<exists>g e. wins (live now h) (set ids) g \<and> live now h g = Some e \<and> a = fp_account_id e)"
proof -
  have m: "map_of (evict_expired_file_pins now pins) = live now h" by (rule evicted_live [OF assms(1,2)])
  have "- 1 < fp_expires_at e" if "map_of (evict_expired_file_pins now pins) f = Some e" for f e
    using that live_expires [of now "h f" e] assms(3) by (simp add: m)
  then show ?thesis using best_account_wins(2) [of "evict_expired_file_pins now pins" ids a] by (simp add: m)
qed

text \<open>
  C33: A file follows the account it was uploaded through. Whatever uploads, finalizations and requests the process has served, the
  lookup of a file gives the account it was last pinned to for half an hour after that, and nothing later; and a request
  without a conversation of its own goes to the account of the file that was pinned last among the live ones it mentions, ties
  broken by the file id, in whatever order its files are visited.
\<close>

theorem file_pins_follow_history:
  assumes "timed 0 ops now" and "now \<le> now'" and "set ids = set (extract_input_file_ids (rp_input (pq_payload r)))"
  shows "fst (resolve_file_account now now' f (fold run_pin_op ops [])) =
      (if f = [] then None else map_option fp_account_id (live now' (fold record_op ops Map.empty) f)) \<and>
    (fst (resolve_file_account_for_responses now r (fold run_pin_op ops [])) = Some a \<longleftrightarrow>
      \<not> stronger_affinity r \<and> (\<exists>g e. wins (live now (fold record_op ops Map.empty)) (set ids) g \<and>
        live now (fold record_op ops Map.empty) g = Some e \<and> a = fp_account_id e)) \<and>
    (best_account (evict_expired_file_pins now (fold run_pin_op ops [])) ids = Some a \<longleftrightarrow>
      best_account (evict_expired_file_pins now (fold run_pin_op ops [])) (extract_input_file_ids (rp_input (pq_payload r))) = Some a)"
proof -
  let ?pins = "fold run_pin_op ops []" and ?h = "fold record_op ops Map.empty" and ?fs = "extract_input_file_ids (rp_input (pq_payload r))"
  have now: "0 \<le> now" using timed_le [OF assms(1)] .
  have ok: "pins_ok ?h now ?pins" by (rule pins_run_ok [OF _ assms(1)]) (simp add: pins_ok_def entry_ok_def)
  have "fst (resolve_file_account now now' f ?pins) = (if f = [] then None else map_option fp_account_id (live now' ?h f))"
    using lookup_ok(2) [OF ok order_refl assms(2), of f] by (simp add: resolve_file_account_def case_prod_beta)
  moreover note best_account_live [OF ok order_refl now, of ids a] best_account_live [OF ok order_refl now, of ?fs a]
  moreover have "\<not> wins (live now ?h) (set ids) g" if "?fs = []" for g using that assms(3) by (simp add: wins_def)
  ultimately show ?thesis
    using assms(3) by (cases "stronger_affinity r \<or> ?fs = []") (auto simp: resolve_file_account_for_responses_def Let_def)
qed

definition example_pin_request :: pin_request where
  "example_pin_request =
     \<lparr>pq_explicit_fields = [],
      pq_payload = \<lparr>rp_model = None, rp_instructions = None,
        rp_input = JArr [JObj [(''type'', JStr ''input_file''), (''file_id'', JStr ''f1'')], JObj [(''type'', JStr ''input_file''), (''file_id'', JStr ''f2'')]],
        rp_prompt_cache_key = None, rp_model_extra = []\<rparr>,
      pq_previous_response_id = None, pq_headers = []\<rparr>"

theorem file_pins_follow_history_witness:
  "best_account (evict_expired_file_pins 10 (fold run_pin_op [PinOp 1 1 ''f1'' ''a'', PinOp 2 2 ''f2'' ''b''] [])) [''f2'', ''f1''] = Some ''b'' \<longleftrightarrow>
   best_account (evict_expired_file_pins 10 (fold run_pin_op [PinOp 1 1 ''f1'' ''a'', PinOp 2 2 ''f2'' ''b''] []))
     (extract_input_file_ids (rp_input (pq_payload example_pin_request))) = Some ''b''"
proof -
  have "set [''f2'', ''f1''] = set (extract_input_file_ids (rp_input (pq_payload example_pin_request)))" by code_simp
  from file_pins_follow_history [of "[PinOp 1 1 ''f1'' ''a'', PinOp 2 2 ''f2'' ''b'']" 10 10, OF _ _ this, of "''f1''" "''b''"]
  show ?thesis by simp
qed

section \<open>Image references\<close>

text \<open>A value that is another one or lies inside it.\<close>

inductive inside :: "json \<Rightarrow> json \<Rightarrow> bool" where
  here: "inside v v"
| in_obj: "(k, w) \<in> set kvs \<Longrightarrow> inside v w \<Longrightarrow> inside v (JObj kvs)"
| in_arr: "w \<in> set xs \<Longrightarrow> inside v w \<Longrightarrow> inside v (JArr xs)"

lemma nested_references_complete:
  "inside v w \<Longrightarrow> v = JObj kvs \<Longrightarrow> input_image_file_reference kvs = Some f \<Longrightarrow> f \<in> set (nested_references w)"
  by (induction rule: inside.induct) (auto, force)

lemma enumerated_member: "x \<in> set xs \<Longrightarrow> \<exists>i. (i, x) \<in> set (List.enumerate n xs)"
  by (induction xs arbitrary: n) auto

lemma accepted_item_no_reference:
  assumes "item_image_references (i, JObj kvs) = []"
  shows "input_image_file_reference kvs = None"
    and "\<And>w. w \<in> set (nested_parts (map_of kvs ''content'')) \<Longrightarrow> nested_references w = []"
    and "\<And>w. map_of kvs ''output'' = Some w \<Longrightarrow> nested_references w = []"
proof -
  show "input_image_file_reference kvs = None" using assms by (auto simp: item_image_references_def split: option.splits)
  show "nested_references w = []" if "map_of kvs ''output'' = Some w" for w
    using assms that by (simp add: item_image_references_def append_input_image_file_references_def)
  show "nested_references w = []" if w: "w \<in> set (nested_parts (map_of kvs ''content''))" for w
  proof -
    obtain c where "(c, w) \<in> set (List.enumerate 0 (nested_parts (map_of kvs ''content'')))"
      using enumerated_member [OF w] by blast
    then show ?thesis using assms by (auto simp: item_image_references_def append_input_image_file_references_def)
  qed
qed

lemma accepted_items:
  assumes "raise_for_unsupported_input_image_references (JArr items) = Inr ()" and "JObj kvs \<in> set items"
  shows "\<exists>i. item_image_references (i, JObj kvs) = []"
proof -
  obtain i where "(i, JObj kvs) \<in> set (List.enumerate 0 items)" using enumerated_member [OF assms(2)] by blast
  then show ?thesis using assms(1) by (auto simp: raise_for_unsupported_input_image_references_def split: if_splits)
qed

text \<open>
  A request whose images the proxy accepts refers to no uploaded image: neither an item, nor anything at any depth of its content
  parts or of its output.
\<close>

theorem accepted_request_has_no_image_reference:
  assumes "raise_for_unsupported_input_image_references (JArr items) = Inr ()" and "JObj item \<in> set items"
    and "JObj kvs = JObj item \<or> w \<in> set (nested_parts (map_of item ''content'')) \<and> inside (JObj kvs) w \<or>
      map_of item ''output'' = Some w \<and> inside (JObj kvs) w"
  shows "input_image_file_reference kvs = None"
proof -
  obtain i where i: "item_image_references (i, JObj item) = []" using accepted_items [OF assms(1,2)] by blast
  show ?thesis
  proof (cases "input_image_file_reference kvs")
    case (Some f)
    then show ?thesis
      using assms(3) accepted_item_no_reference [OF i] nested_references_complete [of "JObj kvs" w kvs f] by fastforce
  qed
qed

end
