(* ===== verification/Strict_Schema.thy ===== *)
theory Strict_Schema
  imports Json
begin

text \<open>
  Validation of JSON schemas in strict mode (\<open>app/core/openai/strict_schema.py\<close>). The walker \<open>find_violation\<close> checks a
  node and then the schemas below it; the declarative counterpart \<open>strict_ok\<close> says which schemas are well formed.
\<close>

section \<open>The walker\<close>

definition has_combinator :: "(string \<times> json) list \<Rightarrow> bool" where
  "has_combinator node = list_ex (\<lambda>name. json_arr (map_of node name) \<noteq> None) [''anyOf'', ''oneOf'', ''allOf'']"

definition is_ref :: "(string \<times> json) list \<Rightarrow> bool" where
  "is_ref node = (json_str (map_of node ''$ref'') \<noteq> None)"

definition object_like :: "(string \<times> json) list \<Rightarrow> bool" where
  "object_like node = (map_of node ''type'' = Some (JStr ''object'') \<or> has_key node ''properties'')"

fun quoted_list :: "string list \<Rightarrow> string" where
  "quoted_list [] = []"
| "quoted_list [name] = [CHR 0x27] @ name @ [CHR 0x27]"
| "quoted_list (name # names) = [CHR 0x27] @ name @ [CHR 0x27] @ '', '' @ quoted_list names"

definition required_names :: "(string \<times> json) list \<Rightarrow> string list" where
  "required_names node =
     (case json_arr (map_of node ''required'') of None \<Rightarrow> [] | Some xs \<Rightarrow> List.map_filter (\<lambda>x. json_str (Some x)) xs)"

definition missing_required :: "(string \<times> json) list \<Rightarrow> string list" where
  "missing_required node =
     (case json_obj (map_of node ''properties'') of
        None \<Rightarrow> [] | Some props \<Rightarrow> filter (\<lambda>p. p \<notin> set (required_names node)) (map fst props))"

text \<open>The checks of a node itself, in the order of the code; they all come before the schemas below the node.\<close>

definition local_violation :: "(string \<times> json) list \<Rightarrow> string option" where
  "local_violation node =
     (if \<not> has_key node ''type'' \<and> \<not> has_combinator node \<and> \<not> is_ref node
      then Some (''schema must have a '' @ [CHR 0x27] @ ''type'' @ [CHR 0x27] @ '' key'')
      else if object_like node
      then (if map_of node ''additionalProperties'' \<noteq> Some (JBool False)
            then Some ([CHR 0x27] @ ''additionalProperties'' @ [CHR 0x27] @ '' is required to be supplied and to be false'')
            else if missing_required node \<noteq> []
            then Some ([CHR 0x27] @ ''required'' @ [CHR 0x27] @
                   '' is required to be supplied and to be an array including every key in properties. Missing '' @
                   quoted_list (missing_required node))
            else None)
      else None)"

definition indexed :: "'a list \<Rightarrow> (nat \<times> 'a) list" where
  "indexed xs = zip [0..<length xs] xs"

definition combinator_schemas :: "(string \<times> json) list \<Rightarrow> string \<Rightarrow> (string list \<times> json) list" where
  "combinator_schemas node name =
     (case json_arr (map_of node name) of
        None \<Rightarrow> [] | Some xs \<Rightarrow> map (\<lambda>(i, x). ([name, show_nat i], x)) (indexed xs))"

definition definition_schemas :: "(string \<times> json) list \<Rightarrow> (string \<times> json) list option" where
  "definition_schemas node =
     (case map_of node ''$defs'' of
        Some v \<Rightarrow> if json_truthy v then json_obj (Some v) else json_obj (map_of node ''definitions'')
      | None \<Rightarrow> json_obj (map_of node ''definitions''))"

definition property_schemas :: "(string \<times> json) list \<Rightarrow> (string list \<times> json) list" where
  "property_schemas node =
     (case json_obj (map_of node ''properties'') of
        None \<Rightarrow> []
      | Some props \<Rightarrow> if object_like node then map (\<lambda>(name, s). ([''properties'', name], s)) props else [])"

definition item_schemas :: "(string \<times> json) list \<Rightarrow> (string list \<times> json) list" where
  "item_schemas node =
     (case map_of node ''items'' of
        None \<Rightarrow> []
      | Some items \<Rightarrow>
          if map_of node ''type'' = Some (JStr ''array'') \<or> has_key node ''items'' then [([''items''], items)] else [])"

text \<open>The schemas below a node with the path to each, in the order in which the code visits them.\<close>

definition sub_schemas :: "(string \<times> json) list \<Rightarrow> (string list \<times> json) list" where
  "sub_schemas node =
     property_schemas node @ item_schemas node @
     concat (map (combinator_schemas node) [''anyOf'', ''oneOf'', ''allOf'']) @
     (case definition_schemas node of
        None \<Rightarrow> [] | Some defs \<Rightarrow> map (\<lambda>(name, s). ([''$defs'', name], s)) defs)"

fun find_first :: "('a \<Rightarrow> 'b option) \<Rightarrow> 'a list \<Rightarrow> 'b option" where
  "find_first f [] = None"
| "find_first f (x # xs) = (case f x of Some y \<Rightarrow> Some y | None \<Rightarrow> find_first f xs)"

lemma find_first_cong [fundef_cong]:
  "xs = ys \<Longrightarrow> (\<And>x. x \<in> set ys \<Longrightarrow> f x = g x) \<Longrightarrow> find_first f xs = find_first g ys"
  by (induction xs arbitrary: ys) (auto split: option.split)

lemma size_inner_obj: "map_of node k = Some (JObj kvs) \<Longrightarrow> (name, s) \<in> set kvs \<Longrightarrow> size s < size (JObj node)"
  using size_map_of [of node k "JObj kvs"] size_pair [of name s kvs] by simp

lemma size_inner_arr: "map_of node k = Some (JArr xs) \<Longrightarrow> s \<in> set xs \<Longrightarrow> size s < size (JObj node)"
  using size_map_of [of node k "JArr xs"] size_member [of s xs] by simp

lemma definition_schemas_Some: "definition_schemas node = Some defs \<Longrightarrow> \<exists>k. map_of node k = Some (JObj defs)"
  by (auto simp: definition_schemas_def split: option.splits if_splits)

lemma combinator_member:
  assumes "(p, s) \<in> set (combinator_schemas node name)"
  obtains xs where "map_of node name = Some (JArr xs)" "s \<in> set xs"
proof (cases "json_arr (map_of node name)")
  case (Some xs)
  then have "s \<in> set xs" using assms by (auto simp: combinator_schemas_def indexed_def dest: set_zip_rightD)
  with Some that show ?thesis by simp
qed (use assms in \<open>simp add: combinator_schemas_def\<close>)

lemma sub_schema_smaller:
  assumes "(p, s) \<in> set (sub_schemas node)"
  shows "size s < size (JObj node)"
proof -
  consider "(p, s) \<in> set (property_schemas node)" | "(p, s) \<in> set (item_schemas node)"
    | name where "(p, s) \<in> set (combinator_schemas node name)"
    | defs name where "definition_schemas node = Some defs" "(name, s) \<in> set defs"
    using assms by (cases "definition_schemas node") (auto simp: sub_schemas_def)
  then show ?thesis
  proof cases
    case 1
    then show ?thesis
      by (cases "json_obj (map_of node ''properties'')")
         (auto simp: property_schemas_def simp del: json.size intro: size_inner_obj split: if_splits)
  next
    case 2
    then show ?thesis
      by (cases "map_of node ''items''") (auto simp: item_schemas_def simp del: json.size intro: size_map_of split: if_splits)
  next
    case 3
    then show ?thesis using combinator_member size_inner_arr by metis
  next
    case 4
    then show ?thesis using definition_schemas_Some size_inner_obj by blast
  qed
qed

function find_violation :: "json \<Rightarrow> string list \<Rightarrow> (string list \<times> string) option" where
  "find_violation (JObj node) path =
     (case local_violation node of
        Some reason \<Rightarrow> Some (path, reason)
      | None \<Rightarrow> find_first (\<lambda>(p, s). find_violation s (path @ p)) (sub_schemas node))"
| "find_violation JNull path = None"
| "find_violation (JBool b) path = None"
| "find_violation (JInt n) path = None"
| "find_violation (JFloat r) path = None"
| "find_violation (JStr t) path = None"
| "find_violation (JArr xs) path = None"
  by pat_completeness auto

termination
  by (relation "measure (\<lambda>(j, path). size j)") (auto simp del: json.size intro: sub_schema_smaller)

text \<open>The error that is reported: its code depends on what the schema belongs to.\<close>

record strict_schema_error =
  sse_code :: string
  sse_message :: string
  sse_param :: string

definition render_context :: "string list \<Rightarrow> string" where
  "render_context path = (if path = [] then ''()'' else ''('' @ quoted_list path @ '')'')"

definition schema_error :: "string \<Rightarrow> string \<Rightarrow> string \<Rightarrow> string \<Rightarrow> string list \<times> string \<Rightarrow> strict_schema_error" where
  "schema_error code what label param violation =
     \<lparr>sse_code = code,
      sse_message = ''Invalid schema for '' @ what @ '' '' @ [CHR 0x27] @ label @ [CHR 0x27] @ '': In context='' @
        render_context (fst violation) @ '', '' @ snd violation @ ''.'',
      sse_param = param\<rparr>"

definition validate_strict_json_schema :: "json \<Rightarrow> string option \<Rightarrow> string \<Rightarrow> strict_schema_error option" where
  "validate_strict_json_schema schema name param =
     map_option (schema_error ''invalid_json_schema'' ''response_format''
        (case nonempty_str name of Some n \<Rightarrow> n | None \<Rightarrow> ''response_format'') param) (find_violation schema [])"

definition validate_strict_function_tool_schema :: "json \<Rightarrow> string option \<Rightarrow> string \<Rightarrow> strict_schema_error option" where
  "validate_strict_function_tool_schema schema name param =
     map_option (schema_error ''invalid_function_parameters'' ''function''
        (case nonempty_str name of Some n \<Rightarrow> n | None \<Rightarrow> ''function'') param) (find_violation schema [])"

section \<open>Well-formed schemas\<close>

text \<open>A node is well formed by itself, and the schemas directly below it.\<close>

definition node_ok :: "(string \<times> json) list \<Rightarrow> bool" where
  "node_ok node \<longleftrightarrow>
     (has_key node ''type'' \<or> has_combinator node \<or> is_ref node) \<and>
     (object_like node \<longrightarrow>
        map_of node ''additionalProperties'' = Some (JBool False) \<and>
        (\<forall>props name s. map_of node ''properties'' = Some (JObj props) \<and> (name, s) \<in> set props \<longrightarrow>
           name \<in> set (required_names node)))"

inductive below :: "(string \<times> json) list \<Rightarrow> json \<Rightarrow> bool" where
  below_property: "map_of node ''properties'' = Some (JObj props) \<Longrightarrow> (name, s) \<in> set props \<Longrightarrow> below node s"
| below_items: "map_of node ''items'' = Some s \<Longrightarrow> below node s"
| below_combinator:
    "name \<in> {''anyOf'', ''oneOf'', ''allOf''} \<Longrightarrow> map_of node name = Some (JArr xs) \<Longrightarrow> s \<in> set xs \<Longrightarrow> below node s"
| below_definition: "definition_schemas node = Some defs \<Longrightarrow> (name, s) \<in> set defs \<Longrightarrow> below node s"

inductive strict_ok :: "json \<Rightarrow> bool" where
  strict_scalar: "(\<And>node. j \<noteq> JObj node) \<Longrightarrow> strict_ok j"
| strict_node: "node_ok node \<Longrightarrow> (\<And>s. below node s \<Longrightarrow> strict_ok s) \<Longrightarrow> strict_ok (JObj node)"

inductive_cases strict_nodeE: "strict_ok (JObj node)"

text \<open>The path of a violation leads to a node.\<close>

inductive locates :: "json \<Rightarrow> string list \<Rightarrow> (string \<times> json) list \<Rightarrow> bool" where
  here: "locates (JObj node) [] node"
| there: "(p, s) \<in> set (sub_schemas node) \<Longrightarrow> locates s q found \<Longrightarrow> locates (JObj node) (p @ q) found"

lemma set_indexed: "snd ` set (indexed xs) = set xs"
  by (metis indexed_def length_upt map_snd_zip set_map diff_zero)

lemma below_iff: "below node s \<longleftrightarrow> (\<exists>p. (p, s) \<in> set (sub_schemas node))"
proof
  assume "below node s"
  then show "\<exists>p. (p, s) \<in> set (sub_schemas node)"
  proof cases
    case (below_property props name)
    then have "([''properties'', name], s) \<in> set (property_schemas node)"
      by (force simp: property_schemas_def json_obj_def object_like_def has_key_def)
    then show ?thesis by (auto simp: sub_schemas_def)
  next
    case below_items
    then have "([''items''], s) \<in> set (item_schemas node)" by (simp add: item_schemas_def has_key_def)
    then show ?thesis by (auto simp: sub_schemas_def)
  next
    case (below_combinator name xs)
    then obtain i where "(i, s) \<in> set (indexed xs)" using set_indexed [of xs] by force
    then have "([name, show_nat i], s) \<in> set (combinator_schemas node name)"
      using below_combinator by (force simp: combinator_schemas_def json_arr_def)
    then show ?thesis using below_combinator by (auto simp: sub_schemas_def)
  next
    case (below_definition defs name)
    then show ?thesis by (force simp: sub_schemas_def)
  qed
next
  assume "\<exists>p. (p, s) \<in> set (sub_schemas node)"
  then obtain p where p: "(p, s) \<in> set (sub_schemas node)" by blast
  consider "(p, s) \<in> set (property_schemas node)" | "(p, s) \<in> set (item_schemas node)"
    | name where "name \<in> {''anyOf'', ''oneOf'', ''allOf''}" "(p, s) \<in> set (combinator_schemas node name)"
    | defs name where "definition_schemas node = Some defs" "(name, s) \<in> set defs"
    using p by (cases "definition_schemas node") (auto simp: sub_schemas_def)
  then show "below node s"
  proof cases
    case 1
    then show ?thesis
      by (cases "json_obj (map_of node ''properties'')")
         (auto simp: property_schemas_def intro: below_property split: if_splits)
  next
    case 2
    then show ?thesis
      by (cases "map_of node ''items''") (auto simp: item_schemas_def intro: below_items split: if_splits)
  next
    case 3
    obtain xs where "map_of node name = Some (JArr xs)" "s \<in> set xs" using 3(2) by (rule combinator_member)
    then show ?thesis using 3(1) by (intro below_combinator)
  next
    case 4
    then show ?thesis by (rule below_definition)
  qed
qed

lemma missing_required_Nil:
  "missing_required node = [] \<longleftrightarrow>
     (\<forall>props name s. map_of node ''properties'' = Some (JObj props) \<and> (name, s) \<in> set props \<longrightarrow> name \<in> set (required_names node))"
  by (cases "json_obj (map_of node ''properties'')")
     (force simp: missing_required_def filter_empty_conv json_obj_def split: option.splits json.splits)+

lemma local_violation_None: "local_violation node = None \<longleftrightarrow> node_ok node"
  by (auto simp: local_violation_def node_ok_def missing_required_Nil)

lemma find_first_None: "find_first f xs = None \<longleftrightarrow> (\<forall>x\<in>set xs. f x = None)"
  by (induction xs) (auto split: option.split)

lemma find_first_Some: "find_first f xs = Some y \<Longrightarrow> \<exists>x\<in>set xs. f x = Some y"
  by (induction xs) (auto split: option.splits)

lemma find_violation_None: "find_violation j path = None \<longleftrightarrow> strict_ok j"
proof (induction j path rule: find_violation.induct)
  case (1 node path)
  show ?case
  proof (cases "node_ok node")
    case True
    then have "local_violation node = None" by (simp add: local_violation_None)
    then have "find_violation (JObj node) path = None \<longleftrightarrow> (\<forall>s. below node s \<longrightarrow> strict_ok s)"
      using 1 by (auto simp: find_first_None below_iff)
    then show ?thesis using True by (auto intro: strict_node elim: strict_nodeE)
  next
    case False
    then have "local_violation node \<noteq> None" by (simp add: local_violation_None)
    then show ?thesis using False by (auto elim: strict_nodeE)
  qed
qed (auto intro: strict_scalar)

lemma find_violation_located:
  "find_violation j path = Some (q, reason) \<Longrightarrow> \<exists>p node. q = path @ p \<and> locates j p node \<and> local_violation node = Some reason"
proof (induction j path arbitrary: q reason rule: find_violation.induct)
  case (1 node path)
  show ?case
  proof (cases "local_violation node")
    case None
    then obtain p s where s: "(p, s) \<in> set (sub_schemas node)" "find_violation s (path @ p) = Some (q, reason)"
      using 1(2) by (auto dest: find_first_Some)
    then obtain p' found where "q = (path @ p) @ p'" "locates s p' found" "local_violation found = Some reason"
      using 1(1) [OF None s(1) refl s(2)] by blast
    then show ?thesis using there [OF s(1)] by (metis append.assoc)
  next
    case (Some r)
    then show ?thesis using 1(2) here by force
  qed
qed simp_all

text \<open>
  C11: Strict validation decides the well-formedness of schemas. It accepts exactly the schemas in which every node that is
  reached through properties, items, combinators and definitions has a type, a combinator or a reference, and every
  object node forbids additional properties and requires all its properties; a rejection names a path that leads to a
  node which breaks the stated rule. The walk over a schema of any depth ends.
\<close>

theorem strict_validation_decides:
  "case find_violation schema [] of
     None \<Rightarrow> strict_ok schema
   | Some (path, reason) \<Rightarrow> (\<exists>node. locates schema path node \<and> local_violation node = Some reason) \<and> \<not> strict_ok schema"
proof (cases "find_violation schema []")
  case None
  then show ?thesis using find_violation_None [of schema "[]"] by simp
next
  case (Some v)
  then show ?thesis
    using find_violation_None [of schema "[]"] find_violation_located [of schema "[]" "fst v" "snd v"] by (cases v) auto
qed

end
