(* ===== verification/Request_Policy.thy ===== *)
theory Request_Policy
  imports Strict_Schema
begin

text \<open>
  The policy an API key imposes on a request (\<open>app/modules/proxy/request_policy.py\<close>) and the normalisation of the policy
  when the key is written (\<open>app/modules/api_keys/service.py\<close>): resolution of model aliases, enforcement of model,
  reasoning effort and service tier, the access check, the terminal compaction trigger, and the rejection of strict
  schemas. The order of enforcement and access check is the one of the request handlers in \<open>app/modules/proxy/api.py\<close>.
\<close>

section \<open>Requests and key policies\<close>

text \<open>
  A request with the fields the policy reads or writes; \<open>rq_tools\<close> and \<open>rq_input\<close> are JSON. Attributes are assigned
  without validation, as the pydantic models do not validate assignments.
\<close>

record responses_reasoning =
  rr_effort :: "string option"
  rr_summary :: "string option"

record responses_text_format =
  tf_type :: "string option"
  tf_strict :: "bool option"
  tf_schema :: "json option"
  tf_name :: "string option"

record responses_text_controls =
  tc_verbosity :: "string option"
  tc_format :: "responses_text_format option"

record responses_request =
  rq_model :: string
  rq_input :: json
  rq_tools :: "json list"
  rq_text :: "responses_text_controls option"
  rq_reasoning :: "responses_reasoning option"
  rq_service_tier :: "string option"

record key_policy =
  kp_allowed_models :: "string list option"
  kp_enforced_model :: "string option"
  kp_enforced_reasoning_effort :: "string option"
  kp_enforced_service_tier :: "string option"

record client_payload_error =
  cpe_message :: string
  cpe_param :: "string option"
  cpe_code :: "string option"
  cpe_error_type :: "string option"

datatype policy_error = ProxyModelNotAllowed string | ClientPayloadError client_payload_error

section \<open>Model aliases\<close>

definition gpt5_alias_base_models :: "string list" where
  "gpt5_alias_base_models =
     [''gpt-5.4-mini'', ''gpt-5.3-codex'', ''gpt-5.2-codex'', ''gpt-5.1-codex-max'', ''gpt-5.1-codex-mini'', ''gpt-5.1-codex'',
      ''gpt-5-codex'', ''gpt-5.5'', ''gpt-5.4'', ''gpt-5.3'', ''gpt-5.2'', ''gpt-5.1'', ''gpt-5'']"

definition model_alias_reasoning_tokens :: "(string \<times> string) list" where
  "model_alias_reasoning_tokens =
     [(''minimal'', ''minimal''), (''low'', ''low''), (''medium'', ''medium''), (''high'', ''high''), (''xhigh'', ''high''),
      (''extra'', ''high'')]"

definition model_alias_reasoning_rank :: "(string \<times> int) list" where
  "model_alias_reasoning_rank = [(''minimal'', 0), (''low'', 1), (''medium'', 2), (''high'', 3)]"

definition model_alias_service_tier_tokens :: "(string \<times> string) list" where
  "model_alias_service_tier_tokens = [(''fast'', ''priority''), (''priority'', ''priority'')]"

definition model_alias_tokens :: "string list" where
  "model_alias_tokens =
     map fst model_alias_reasoning_tokens @ map fst model_alias_service_tier_tokens @ [''reasoning'', ''thinking'']"

text \<open>The loop keeps the best effort so far; every effort of the first table has a rank in the second.\<close>

fun alias_effort_loop :: "string list \<Rightarrow> string option \<Rightarrow> int \<Rightarrow> string option" where
  "alias_effort_loop [] selected selected_rank = selected"
| "alias_effort_loop (token # tokens) selected selected_rank =
     (case map_of model_alias_reasoning_tokens token of
        None \<Rightarrow> alias_effort_loop tokens selected selected_rank
      | Some effort \<Rightarrow>
          (let rank = the (map_of model_alias_reasoning_rank effort) in
           if selected_rank < rank then alias_effort_loop tokens (Some effort) rank
           else alias_effort_loop tokens selected selected_rank))"

definition resolve_alias_reasoning_effort :: "string list \<Rightarrow> string option" where
  "resolve_alias_reasoning_effort tokens = alias_effort_loop tokens None (- 1)"

fun resolve_alias_service_tier :: "string list \<Rightarrow> string option" where
  "resolve_alias_service_tier [] = None"
| "resolve_alias_service_tier (token # tokens) =
     (case map_of model_alias_service_tier_tokens token of
        Some tier \<Rightarrow> Some tier | None \<Rightarrow> resolve_alias_service_tier tokens)"

text \<open>The first base model whose name and a dash begin the model decides, also when the rest is no list of tokens.\<close>

fun alias_loop :: "string list \<Rightarrow> string \<Rightarrow> (string \<times> string option \<times> string option) option" where
  "alias_loop [] normalized = None"
| "alias_loop (base # bases) normalized =
     (let prefix = base @ ''-'' in
      if \<not> starts_with prefix normalized then alias_loop bases normalized
      else let tokens = filter (\<lambda>t. t \<noteq> []) (split_on (CHR ''-'') (drop (length prefix) normalized)) in
           if tokens = [] \<or> list_ex (\<lambda>t. t \<notin> set model_alias_tokens) tokens then None
           else Some (base, resolve_alias_reasoning_effort tokens, resolve_alias_service_tier tokens))"

definition resolve_model_alias_parts :: "string option \<Rightarrow> (string \<times> string option \<times> string option) option" where
  "resolve_model_alias_parts model =
     (case model of
        None \<Rightarrow> None
      | Some m \<Rightarrow>
          (let normalized = py_lower (py_strip m) in
           if normalized = [] then None else alias_loop gpt5_alias_base_models normalized))"

definition resolve_request_model_alias :: "string option \<Rightarrow> string option" where
  "resolve_request_model_alias model = (case resolve_model_alias_parts model of None \<Rightarrow> model | Some (base, _) \<Rightarrow> Some base)"

definition set_effort :: "string \<Rightarrow> responses_request \<Rightarrow> responses_request" where
  "set_effort effort p =
     p\<lparr>rq_reasoning := Some (case rq_reasoning p of
         None \<Rightarrow> \<lparr>rr_effort = Some effort, rr_summary = None\<rparr> | Some r \<Rightarrow> r\<lparr>rr_effort := Some effort\<rparr>)\<rparr>"

definition normalize_upstream_model_alias :: "responses_request \<Rightarrow> responses_request" where
  "normalize_upstream_model_alias p =
     (case resolve_model_alias_parts (Some (rq_model p)) of
        None \<Rightarrow> p
      | Some (canonical, effort, tier) \<Rightarrow>
          (let p1 = p\<lparr>rq_model := canonical\<rparr>;
               p2 = (case effort of None \<Rightarrow> p1 | Some e \<Rightarrow> set_effort e p1)
           in if tier \<noteq> None \<and> rq_service_tier p2 = None then p2\<lparr>rq_service_tier := tier\<rparr> else p2))"

section \<open>Efforts the upstream drops\<close>

text \<open>
  The snapshot of the model registry maps a model to the efforts it advertises; \<open>None\<close> is a registry without a snapshot.
\<close>

definition unsupported_effort :: "string \<Rightarrow> bool" where
  "unsupported_effort e = (py_lower (py_strip e) = ''minimal'')"

definition resolve_reasoning_effort_fallback :: "string \<Rightarrow> (string \<Rightarrow> string list option) option \<Rightarrow> string" where
  "resolve_reasoning_effort_fallback model snapshot =
     (if model = [] then ''low''
      else case snapshot of
        None \<Rightarrow> ''low''
      | Some models \<Rightarrow>
          (case first_some (models model) (models (py_lower (py_strip model))) of
             None \<Rightarrow> ''low''
           | Some levels \<Rightarrow>
               (case find (\<lambda>e. \<not> unsupported_effort e) (filter (\<lambda>e. e \<noteq> []) levels) of Some e \<Rightarrow> e | None \<Rightarrow> ''low'')))"

definition normalize_unsupported_reasoning_effort ::
  "(string \<Rightarrow> string list option) option \<Rightarrow> responses_request \<Rightarrow> responses_request" where
  "normalize_unsupported_reasoning_effort snapshot p =
     (case rq_reasoning p of
        None \<Rightarrow> p
      | Some r \<Rightarrow>
          (case rr_effort r of
             None \<Rightarrow> p
           | Some e \<Rightarrow>
               if unsupported_effort e
               then p\<lparr>rq_reasoning := Some (r\<lparr>rr_effort := Some (resolve_reasoning_effort_fallback (rq_model p) snapshot)\<rparr>)\<rparr>
               else p))"

section \<open>Enforcement and access\<close>

definition enforce_model :: "key_policy \<Rightarrow> responses_request \<Rightarrow> responses_request" where
  "enforce_model key p =
     (case nonempty_str (kp_enforced_model key) of
        Some m \<Rightarrow> if rq_model p \<noteq> m then normalize_upstream_model_alias (p\<lparr>rq_model := m\<rparr>) else p
      | None \<Rightarrow> p)"

definition enforce_effort :: "key_policy \<Rightarrow> responses_request \<Rightarrow> responses_request" where
  "enforce_effort key p = (case kp_enforced_reasoning_effort key of None \<Rightarrow> p | Some e \<Rightarrow> set_effort e p)"

definition enforce_service_tier :: "key_policy \<Rightarrow> responses_request \<Rightarrow> responses_request" where
  "enforce_service_tier key p =
     (case kp_enforced_service_tier key of
        None \<Rightarrow> p
      | Some t \<Rightarrow> p\<lparr>rq_service_tier := (if t \<in> set [''auto'', ''default''] then None else Some t)\<rparr>)"

definition apply_api_key_enforcement ::
  "(string \<Rightarrow> string list option) option \<Rightarrow> key_policy option \<Rightarrow> responses_request \<Rightarrow> responses_request" where
  "apply_api_key_enforcement snapshot api_key p =
     (let p = normalize_upstream_model_alias p in
      case api_key of
        None \<Rightarrow> normalize_unsupported_reasoning_effort snapshot p
      | Some key \<Rightarrow>
          enforce_service_tier key
            (normalize_unsupported_reasoning_effort snapshot (enforce_effort key (enforce_model key p))))"

definition validate_model_access :: "key_policy option \<Rightarrow> string option \<Rightarrow> policy_error + unit" where
  "validate_model_access api_key model =
     (case api_key of
        None \<Rightarrow> Inr ()
      | Some key \<Rightarrow>
          (case kp_allowed_models key of
             None \<Rightarrow> Inr ()
           | Some [] \<Rightarrow> Inr ()
           | Some allowed \<Rightarrow>
               (case model of
                  None \<Rightarrow> Inr ()
                | Some m \<Rightarrow>
                    if resolve_request_model_alias model \<in> set (map (\<lambda>a. resolve_request_model_alias (Some a)) allowed) then Inr ()
                    else Inl (ProxyModelNotAllowed
                          (''This API key does not have access to model '' @ [CHR 0x27] @ m @ [CHR 0x27])))))"

text \<open>The two steps at the start of every handler that forwards a request.\<close>

definition authorize_request ::
  "(string \<Rightarrow> string list option) option \<Rightarrow> key_policy option \<Rightarrow> responses_request \<Rightarrow> policy_error + responses_request" where
  "authorize_request snapshot api_key p =
     (let p = apply_api_key_enforcement snapshot api_key p in
      case validate_model_access api_key (Some (rq_model p)) of Inl e \<Rightarrow> Inl e | Inr _ \<Rightarrow> Inr p)"

section \<open>The terminal compaction trigger\<close>

definition is_compaction_trigger :: "json \<Rightarrow> bool" where
  "is_compaction_trigger item = (json_get item ''type'' = Some (JStr ''compaction_trigger''))"

definition trigger_error :: policy_error where
  "trigger_error =
     ClientPayloadError \<lparr>cpe_message = ''compaction_trigger must appear exactly once as the final top-level input item'',
        cpe_param = Some ''input'', cpe_code = Some ''invalid_request_error'', cpe_error_type = Some ''invalid_request_error''\<rparr>"

fun strip_trigger_loop :: "json list \<Rightarrow> nat \<Rightarrow> nat \<Rightarrow> json list \<Rightarrow> bool \<Rightarrow> policy_error + json list option" where
  "strip_trigger_loop [] index len stripped seen = Inr (if seen then Some stripped else None)"
| "strip_trigger_loop (item # items) index len stripped seen =
     (if \<not> is_compaction_trigger item then strip_trigger_loop items (index + 1) len (stripped @ [item]) seen
      else if seen \<or> index + 1 \<noteq> len then Inl trigger_error
      else strip_trigger_loop items (index + 1) len stripped True)"

definition strip_terminal_compaction_trigger_input :: "responses_request \<Rightarrow> policy_error + json list option" where
  "strip_terminal_compaction_trigger_input p =
     (case json_arr (Some (rq_input p)) of
        None \<Rightarrow> Inr None | Some items \<Rightarrow> strip_trigger_loop items 0 (length items) [] False)"

section \<open>Strict schemas\<close>

definition strict_rejection :: "strict_schema_error \<Rightarrow> policy_error" where
  "strict_rejection v =
     ClientPayloadError \<lparr>cpe_message = sse_message v, cpe_param = Some (sse_param v), cpe_code = Some (sse_code v),
        cpe_error_type = Some ''invalid_request_error''\<rparr>"

definition enforce_strict_text_format :: "responses_request \<Rightarrow> policy_error + unit" where
  "enforce_strict_text_format p =
     (case Option.bind (rq_text p) tc_format of
        None \<Rightarrow> Inr ()
      | Some f \<Rightarrow>
          if tf_type f \<noteq> Some ''json_schema'' \<or> tf_strict f \<noteq> Some True then Inr ()
          else case tf_schema f of
            None \<Rightarrow> Inr ()
          | Some schema \<Rightarrow>
              (case validate_strict_json_schema schema (tf_name f) ''text.format.schema'' of
                 None \<Rightarrow> Inr () | Some v \<Rightarrow> Inl (strict_rejection v)))"

text \<open>
  The descriptor of a function tool: the tool itself in the flat shape of \<open>/v1/responses\<close>, the object under
  \<open>function\<close> in the nested shape of chat completions. A JSON \<open>null\<close> is Python's \<open>None\<close>.
\<close>

definition tool_descriptor :: "bool \<Rightarrow> json \<Rightarrow> (string \<times> json) list option" where
  "tool_descriptor nested tool =
     (if nested then json_obj (json_get tool ''function'')
      else if json_get tool ''type'' = Some (JStr ''function'') then json_obj (Some tool) else None)"

definition strict_parameters :: "bool \<Rightarrow> json \<Rightarrow> (json \<times> string option) option" where
  "strict_parameters nested tool =
     (case tool_descriptor nested tool of
        None \<Rightarrow> None
      | Some d \<Rightarrow>
          if map_of d ''strict'' \<noteq> Some (JBool True) then None
          else case map_of d ''parameters'' of
            None \<Rightarrow> None
          | Some JNull \<Rightarrow> None
          | Some parameters \<Rightarrow> Some (parameters, json_str (map_of d ''name'')))"

fun enforce_tools_loop :: "(nat \<Rightarrow> string) \<Rightarrow> bool \<Rightarrow> nat \<Rightarrow> json list \<Rightarrow> policy_error + unit" where
  "enforce_tools_loop param_of nested index [] = Inr ()"
| "enforce_tools_loop param_of nested index (tool # tools) =
     (case strict_parameters nested tool of
        None \<Rightarrow> enforce_tools_loop param_of nested (index + 1) tools
      | Some (parameters, name) \<Rightarrow>
          (case validate_strict_function_tool_schema parameters name (param_of index) of
             None \<Rightarrow> enforce_tools_loop param_of nested (index + 1) tools
           | Some v \<Rightarrow> Inl (strict_rejection v)))"

definition enforce_strict_function_tools_format :: "(nat \<Rightarrow> string) \<Rightarrow> bool \<Rightarrow> json list \<Rightarrow> policy_error + unit" where
  "enforce_strict_function_tools_format param_of nested tools = enforce_tools_loop param_of nested 0 tools"

definition responses_tool_param :: "nat \<Rightarrow> string" where
  "responses_tool_param i = ''tools['' @ show_nat i @ ''].parameters''"

definition enforce_strict_schemas :: "responses_request \<Rightarrow> policy_error + unit" where
  "enforce_strict_schemas p =
     (case enforce_strict_text_format p of
        Inl e \<Rightarrow> Inl e | Inr _ \<Rightarrow> enforce_strict_function_tools_format responses_tool_param False (rq_tools p))"

section \<open>Rendering of errors\<close>

record error_detail =
  ed_message :: string
  ed_type :: string
  ed_code :: string
  ed_param :: "string option"

definition openai_error :: "string \<Rightarrow> string \<Rightarrow> string \<Rightarrow> error_detail" where
  "openai_error code message error_type = \<lparr>ed_message = message, ed_type = error_type, ed_code = code, ed_param = None\<rparr>"

definition openai_invalid_payload_error :: "string option \<Rightarrow> error_detail" where
  "openai_invalid_payload_error param =
     (openai_error ''invalid_request_error'' ''Invalid request payload'' ''invalid_request_error'')
       \<lparr>ed_param := nonempty_str param\<rparr>"

definition or_text :: "string option \<Rightarrow> string \<Rightarrow> string" where
  "or_text s d = (case nonempty_str s of Some t \<Rightarrow> t | None \<Rightarrow> d)"

definition openai_client_payload_error :: "client_payload_error \<Rightarrow> error_detail" where
  "openai_client_payload_error e =
     (if cpe_code e = None \<and> cpe_error_type e = None then openai_invalid_payload_error (cpe_param e)
      else (openai_error (or_text (cpe_code e) ''invalid_request_error'') (cpe_message e)
              (or_text (cpe_error_type e) ''invalid_request_error''))\<lparr>ed_param := nonempty_str (cpe_param e)\<rparr>)"

section \<open>Aliases are resolved once\<close>

lemma alias_loop_base: "alias_loop bases normalized = Some (base, effort, tier) \<Longrightarrow> base \<in> set bases"
  by (induction bases normalized rule: alias_loop.induct) (auto simp: Let_def split: if_splits)

lemma resolved_base: "resolve_model_alias_parts model = Some (base, effort, tier) \<Longrightarrow> base \<in> set gpt5_alias_base_models"
  by (auto simp: resolve_model_alias_parts_def Let_def split: option.splits if_splits dest: alias_loop_base)

lemma base_is_no_alias: "base \<in> set gpt5_alias_base_models \<Longrightarrow> resolve_model_alias_parts (Some base) = None"
proof -
  have "list_all (\<lambda>base. resolve_model_alias_parts (Some base) = None) gpt5_alias_base_models" by code_simp
  then show "base \<in> set gpt5_alias_base_models \<Longrightarrow> ?thesis" by (simp add: list_all_iff)
qed

lemma resolve_model_alias_Some: "resolve_request_model_alias (Some m) = Some (case resolve_model_alias_parts (Some m) of None \<Rightarrow> m | Some (b, _) \<Rightarrow> b)"
  by (simp add: resolve_request_model_alias_def split: option.split)

lemma resolve_model_alias_idem [simp]: "resolve_request_model_alias (resolve_request_model_alias model) = resolve_request_model_alias model"
proof (cases "resolve_model_alias_parts model")
  case None
  then show ?thesis by (simp add: resolve_request_model_alias_def)
next
  case (Some parts)
  obtain base effort tier where parts: "parts = (base, effort, tier)" by (cases parts)
  then have "resolve_model_alias_parts (Some base) = None" using resolved_base [of model base effort tier] base_is_no_alias Some by simp
  then show ?thesis using Some parts by (simp add: resolve_request_model_alias_def)
qed

lemma effort_fields [simp]:
  "rq_model (set_effort e p) = rq_model p" "rq_service_tier (set_effort e p) = rq_service_tier p"
  "rq_input (set_effort e p) = rq_input p" "rq_tools (set_effort e p) = rq_tools p" "rq_text (set_effort e p) = rq_text p"
  by (simp_all add: set_effort_def)

definition effort_of :: "responses_request \<Rightarrow> string option" where
  "effort_of p = Option.bind (rq_reasoning p) rr_effort"

lemma effort_of_set_effort [simp]: "effort_of (set_effort e p) = Some e"
  by (simp add: effort_of_def set_effort_def split: option.split)

lemma normalize_alias_model [simp]: "Some (rq_model (normalize_upstream_model_alias p)) = resolve_request_model_alias (Some (rq_model p))"
  by (auto simp: normalize_upstream_model_alias_def resolve_request_model_alias_def Let_def split: option.split)

lemma normalize_alias_content [simp]:
  "rq_input (normalize_upstream_model_alias p) = rq_input p" "rq_tools (normalize_upstream_model_alias p) = rq_tools p"
  "rq_text (normalize_upstream_model_alias p) = rq_text p"
  by (auto simp: normalize_upstream_model_alias_def Let_def split: option.split)

lemma normalize_alias_tier: "rq_service_tier p = Some t \<Longrightarrow> rq_service_tier (normalize_upstream_model_alias p) = Some t"
  by (auto simp: normalize_upstream_model_alias_def Let_def split: option.split)

lemma unsupported_fields [simp]:
  "rq_model (normalize_unsupported_reasoning_effort s p) = rq_model p"
  "rq_service_tier (normalize_unsupported_reasoning_effort s p) = rq_service_tier p"
  "rq_input (normalize_unsupported_reasoning_effort s p) = rq_input p" "rq_tools (normalize_unsupported_reasoning_effort s p) = rq_tools p"
  "rq_text (normalize_unsupported_reasoning_effort s p) = rq_text p"
  by (simp_all add: normalize_unsupported_reasoning_effort_def split: option.split)

lemma fallback_supported: "\<not> unsupported_effort (resolve_reasoning_effort_fallback model s)"
proof -
  have low: "\<not> unsupported_effort ''low''" by code_simp
  have "find (\<lambda>e. \<not> unsupported_effort e) xs = Some e \<Longrightarrow> \<not> unsupported_effort e" for xs e
    by (induction xs) (auto split: if_splits)
  then show ?thesis using low by (auto simp: resolve_reasoning_effort_fallback_def split: option.split)
qed

lemma effort_of_unsupported:
  "effort_of (normalize_unsupported_reasoning_effort s p) =
     (case effort_of p of
        Some e \<Rightarrow> Some (if unsupported_effort e then resolve_reasoning_effort_fallback (rq_model p) s else e) | None \<Rightarrow> None)"
  by (auto simp: normalize_unsupported_reasoning_effort_def effort_of_def split: option.split)

section \<open>What enforcement guarantees\<close>

text \<open>The model a request is forwarded with: the one the key enforces or else the requested one, with its alias resolved.\<close>

definition outbound_model :: "key_policy \<Rightarrow> responses_request \<Rightarrow> string option" where
  "outbound_model key p =
     resolve_request_model_alias (Some (case nonempty_str (kp_enforced_model key) of Some m \<Rightarrow> m | None \<Rightarrow> rq_model p))"

definition model_allowed :: "key_policy \<Rightarrow> string option \<Rightarrow> bool" where
  "model_allowed key model \<longleftrightarrow>
     (case kp_allowed_models key of
        None \<Rightarrow> True
      | Some allowed \<Rightarrow> allowed = [] \<or> list_ex (\<lambda>a. resolve_request_model_alias (Some a) = resolve_request_model_alias model) allowed)"

lemma validate_model_access_iff:
  "validate_model_access (Some key) (Some m) =
     (if model_allowed key (Some m) then Inr ()
      else Inl (ProxyModelNotAllowed (''This API key does not have access to model '' @ [CHR 0x27] @ m @ [CHR 0x27])))"
proof (cases "kp_allowed_models key")
  case None
  then show ?thesis by (simp add: validate_model_access_def model_allowed_def)
next
  case (Some allowed)
  have "resolve_request_model_alias (Some m) \<in> set (map (\<lambda>a. resolve_request_model_alias (Some a)) allowed) \<longleftrightarrow>
    list_ex (\<lambda>a. resolve_request_model_alias (Some a) = resolve_request_model_alias (Some m)) allowed"
    by (auto simp: list_ex_iff intro: sym image_eqI)
  then show ?thesis using Some by (cases allowed) (simp_all add: validate_model_access_def model_allowed_def)
qed

lemma enforce_service_tier_fields [simp]:
  "rq_model (enforce_service_tier key p) = rq_model p" "rq_reasoning (enforce_service_tier key p) = rq_reasoning p"
  "rq_input (enforce_service_tier key p) = rq_input p" "rq_tools (enforce_service_tier key p) = rq_tools p"
  "rq_text (enforce_service_tier key p) = rq_text p"
  by (simp_all add: enforce_service_tier_def split: option.split)

lemma enforce_effort_fields [simp]:
  "rq_model (enforce_effort key p) = rq_model p" "rq_service_tier (enforce_effort key p) = rq_service_tier p"
  "rq_input (enforce_effort key p) = rq_input p" "rq_tools (enforce_effort key p) = rq_tools p"
  "rq_text (enforce_effort key p) = rq_text p"
  by (simp_all add: enforce_effort_def split: option.split)

lemma enforce_model_content [simp]:
  "rq_input (enforce_model key p) = rq_input p" "rq_tools (enforce_model key p) = rq_tools p"
  "rq_text (enforce_model key p) = rq_text p"
  by (simp_all add: enforce_model_def split: option.split)

lemma enforce_model_tier: "rq_service_tier p = Some t \<Longrightarrow> rq_service_tier (enforce_model key p) = Some t"
  by (simp add: enforce_model_def normalize_alias_tier split: option.split)

lemma enforced_outbound_model:
  "Some (rq_model (enforce_model key (normalize_upstream_model_alias p))) = outbound_model key p"
proof (cases "nonempty_str (kp_enforced_model key)")
  case None
  then show ?thesis by (simp add: enforce_model_def outbound_model_def)
next
  case (Some m)
  show ?thesis
  proof (cases "rq_model (normalize_upstream_model_alias p) = m")
    case True
    then have "Some m = resolve_request_model_alias (Some (rq_model p))" using normalize_alias_model [of p] by simp
    then have "resolve_request_model_alias (Some m) = Some m" by simp
    then show ?thesis using Some True by (simp add: enforce_model_def outbound_model_def)
  next
    case False
    then show ?thesis using Some by (simp add: enforce_model_def outbound_model_def)
  qed
qed

lemma enforcement_model: "Some (rq_model (apply_api_key_enforcement s (Some key) p)) = outbound_model key p"
  by (simp add: apply_api_key_enforcement_def enforced_outbound_model)

lemma enforcement_effort:
  "effort_of (apply_api_key_enforcement s api_key p) = Some e \<Longrightarrow> \<not> unsupported_effort e"
proof -
  have "effort_of (normalize_unsupported_reasoning_effort s q) = Some e \<Longrightarrow> \<not> unsupported_effort e" for q
    by (auto simp: effort_of_unsupported fallback_supported split: option.splits if_splits)
  moreover have "effort_of (enforce_service_tier key q) = effort_of q" for key q by (simp add: effort_of_def)
  moreover assume "effort_of (apply_api_key_enforcement s api_key p) = Some e"
  ultimately show ?thesis by (cases api_key) (simp_all add: apply_api_key_enforcement_def Let_def)
qed

lemma enforcement_effort_is:
  assumes "kp_enforced_reasoning_effort key = Some e" and "\<not> unsupported_effort e"
  shows "effort_of (apply_api_key_enforcement s (Some key) p) = Some e"
proof -
  have "effort_of (enforce_service_tier key q) = effort_of q" for q by (simp add: effort_of_def)
  then show ?thesis using assms by (simp add: apply_api_key_enforcement_def Let_def effort_of_unsupported enforce_effort_def)
qed

text \<open>The reference: what a key demands of the request that is forwarded.\<close>

definition respects_policy :: "key_policy \<Rightarrow> responses_request \<Rightarrow> responses_request \<Rightarrow> bool" where
  "respects_policy key p q \<longleftrightarrow>
     Some (rq_model q) = outbound_model key p \<and> model_allowed key (Some (rq_model q)) \<and>
     (case kp_enforced_service_tier key of
        Some t \<Rightarrow> rq_service_tier q = (if t \<in> {''auto'', ''default''} then None else Some t)
      | None \<Rightarrow> (case rq_service_tier p of Some t \<Rightarrow> rq_service_tier q = Some t | None \<Rightarrow> True)) \<and>
     (case kp_enforced_reasoning_effort key of
        Some e \<Rightarrow> if unsupported_effort e then True else effort_of q = Some e
      | None \<Rightarrow> True) \<and>
     (case effort_of q of None \<Rightarrow> True | Some e \<Rightarrow> \<not> unsupported_effort e) \<and>
     rq_input q = rq_input p \<and> rq_tools q = rq_tools p \<and> rq_text q = rq_text p"

lemma enforcement_respects:
  assumes "model_allowed key (Some (rq_model (apply_api_key_enforcement s (Some key) p)))"
  shows "respects_policy key p (apply_api_key_enforcement s (Some key) p)"
proof -
  define q where "q = apply_api_key_enforcement s (Some key) p"
  have content: "rq_input q = rq_input p" "rq_tools q = rq_tools p" "rq_text q = rq_text p"
    by (simp_all add: q_def apply_api_key_enforcement_def Let_def)
  have "case kp_enforced_service_tier key of
      Some t \<Rightarrow> rq_service_tier q = (if t \<in> {''auto'', ''default''} then None else Some t)
    | None \<Rightarrow> (case rq_service_tier p of Some t \<Rightarrow> rq_service_tier q = Some t | None \<Rightarrow> True)"
    by (auto simp: q_def apply_api_key_enforcement_def Let_def enforce_service_tier_def enforce_model_tier normalize_alias_tier
        split: option.split)
  moreover have "case kp_enforced_reasoning_effort key of Some e \<Rightarrow> if unsupported_effort e then True else effort_of q = Some e | None \<Rightarrow> True"
    by (cases "kp_enforced_reasoning_effort key") (simp_all add: q_def enforcement_effort_is)
  moreover have "case effort_of q of None \<Rightarrow> True | Some e \<Rightarrow> \<not> unsupported_effort e"
    by (cases "effort_of q") (simp_all add: q_def enforcement_effort)
  moreover have "Some (rq_model q) = outbound_model key p" "model_allowed key (Some (rq_model q))"
    using assms enforcement_model [of s key p] by (simp_all add: q_def)
  ultimately show ?thesis unfolding respects_policy_def q_def [symmetric] using content by blast
qed

text \<open>
  C6: A request of an API key is forwarded only in the form the key's policy demands, or refused. When the handler goes
  on, the outbound model is the enforced model (the requested one when the key enforces none) with its alias resolved,
  and it is one of the allowed models; an enforced service tier replaces the requested one and \<open>auto\<close> and \<open>default\<close> become the
  absence of a tier, while a tier the client asked for survives when none is enforced; an enforced reasoning effort is the
  one that is sent, and no effort the upstream drops is ever sent; input, tools and text are not touched. When it is
  refused, the outbound model is not allowed.
\<close>

theorem policy_is_enforced:
  "case authorize_request snapshot (Some key) p of
     Inr q \<Rightarrow> respects_policy key p q
   | Inl e \<Rightarrow> \<not> model_allowed key (outbound_model key p) \<and>
       e = ProxyModelNotAllowed (''This API key does not have access to model '' @ [CHR 0x27] @
             the (outbound_model key p) @ [CHR 0x27])"
proof (cases "model_allowed key (outbound_model key p)")
  case True
  then show ?thesis
    using enforcement_respects [of key snapshot p] enforcement_model [of snapshot key p]
    by (simp add: authorize_request_def Let_def validate_model_access_iff)
next
  case False
  then show ?thesis
    using enforcement_model [of snapshot key p] by (auto simp: authorize_request_def Let_def validate_model_access_iff dest: sym)
qed

section \<open>The trigger and the schemas\<close>

lemma strip_trigger_loop_clean:
  "list_all (\<lambda>x. \<not> is_compaction_trigger x) items \<Longrightarrow>
     strip_trigger_loop items index len stripped seen = Inr (if seen then Some (stripped @ items) else None)"
  by (induction items arbitrary: index stripped) auto

lemma strip_trigger_loop_append:
  "list_all (\<lambda>x. \<not> is_compaction_trigger x) xs \<Longrightarrow>
     strip_trigger_loop (xs @ ys) index len stripped seen = strip_trigger_loop ys (index + length xs) len (stripped @ xs) seen"
  by (induction xs arbitrary: index stripped) auto

lemma first_trigger:
  assumes "list_ex is_compaction_trigger items"
  obtains xs t ys where "items = xs @ t # ys" "is_compaction_trigger t" "list_all (\<lambda>x. \<not> is_compaction_trigger x) xs"
  using assms split_list_first_prop [of items is_compaction_trigger] by (auto simp: list_ex_iff list_all_iff)

text \<open>
  A compaction trigger is honoured exactly when it is the last item of the input and there is no other: then the
  items before it are returned. Without a trigger nothing is returned, and every other input that has a trigger is
  rejected with the error on the parameter \<open>input\<close>.
\<close>

theorem compaction_trigger_spec:
  "strip_terminal_compaction_trigger_input p =
     (case rq_input p of
        JArr items \<Rightarrow>
          if \<not> list_ex is_compaction_trigger items then Inr None
          else if is_compaction_trigger (last items) \<and> \<not> list_ex is_compaction_trigger (butlast items) then Inr (Some (butlast items))
          else Inl trigger_error
      | _ \<Rightarrow> Inr None)"
proof (cases "\<exists>items. rq_input p = JArr items \<and> list_ex is_compaction_trigger items")
  case False
  then show ?thesis
    by (auto simp: strip_terminal_compaction_trigger_input_def json_arr_def list_ex_iff list_all_iff strip_trigger_loop_clean
        split: json.split)
next
  case True
  then obtain items where items: "rq_input p = JArr items" "list_ex is_compaction_trigger items" by blast
  from items(2) obtain xs t ys
    where split: "items = xs @ t # ys" "is_compaction_trigger t" "list_all (\<lambda>x. \<not> is_compaction_trigger x) xs"
    by (rule first_trigger)
  then have loop: "strip_terminal_compaction_trigger_input p = (if ys = [] then Inr (Some xs) else Inl trigger_error)"
    using items(1) by (simp add: strip_terminal_compaction_trigger_input_def strip_trigger_loop_append)
  show ?thesis
  proof (cases "ys = []")
    case True
    then show ?thesis using loop items split by (simp add: list_ex_iff list_all_iff)
  next
    case False
    then have "list_ex is_compaction_trigger (butlast items)" using split by (simp add: butlast_append)
    then show ?thesis using loop items False by simp
  qed
qed

text \<open>Which schemas a request subjects to strict validation.\<close>

definition strict_schemas :: "responses_request \<Rightarrow> json list" where
  "strict_schemas p =
     (case Option.bind (rq_text p) tc_format of
        Some f \<Rightarrow> if tf_type f = Some ''json_schema'' \<and> tf_strict f = Some True then
                  (case tf_schema f of Some s \<Rightarrow> [s] | None \<Rightarrow> []) else []
      | None \<Rightarrow> []) @ map fst (List.map_filter (strict_parameters False) (rq_tools p))"

lemma violation_not_ok: "find_violation j path = Some v \<Longrightarrow> \<not> strict_ok j"
  using find_violation_None [of j path] by simp

lemma enforce_tools_ok:
  "enforce_tools_loop param_of nested index tools = Inr () \<longleftrightarrow>
     list_all (\<lambda>(s, _). strict_ok s) (List.map_filter (strict_parameters nested) tools)"
proof (induction tools arbitrary: index)
  case (Cons tool tools)
  then show ?case
    by (auto simp: List.map_filter_simps validate_strict_function_tool_schema_def find_violation_None dest: violation_not_ok split: option.split)
qed (simp add: List.map_filter_simps)

lemma enforce_text_ok:
  "enforce_strict_text_format p = Inr () \<longleftrightarrow>
     (case Option.bind (rq_text p) tc_format of
        Some f \<Rightarrow> if tf_type f = Some ''json_schema'' \<and> tf_strict f = Some True then
                  (case tf_schema f of Some s \<Rightarrow> strict_ok s | None \<Rightarrow> True) else True
      | None \<Rightarrow> True)"
  by (auto simp: enforce_strict_text_format_def validate_strict_json_schema_def find_violation_None dest: violation_not_ok split: option.split)

text \<open>
  The pre-check of a request passes exactly when every schema that is declared strict, in the text format and in the
  function tools, is well formed; a missing or null schema and a tool without \<open>strict: true\<close> are not checked.
\<close>

theorem strict_schemas_enforced:
  "enforce_strict_schemas p = Inr () \<longleftrightarrow> list_all strict_ok (strict_schemas p)"
proof -
  define text_ok where "text_ok = (case Option.bind (rq_text p) tc_format of
        Some f \<Rightarrow> if tf_type f = Some ''json_schema'' \<and> tf_strict f = Some True then
                  (case tf_schema f of Some s \<Rightarrow> strict_ok s | None \<Rightarrow> True) else True
      | None \<Rightarrow> True)"
  define tools_ok where "tools_ok = list_all (\<lambda>(s, _). strict_ok s) (List.map_filter (strict_parameters False) (rq_tools p))"
  have "enforce_strict_text_format p = Inr () \<longleftrightarrow> text_ok" by (simp only: enforce_text_ok text_ok_def)
  moreover have "enforce_strict_function_tools_format responses_tool_param False (rq_tools p) = Inr () \<longleftrightarrow> tools_ok"
    by (simp only: enforce_strict_function_tools_format_def enforce_tools_ok tools_ok_def)
  ultimately have "enforce_strict_schemas p = Inr () \<longleftrightarrow> text_ok \<and> tools_ok"
    by (cases "enforce_strict_text_format p") (auto simp: enforce_strict_schemas_def)
  moreover have "list_all strict_ok (strict_schemas p) \<longleftrightarrow> text_ok \<and> tools_ok"
  proof -
    define format where "format = Option.bind (rq_text p) tc_format"
    have tools: "tools_ok \<longleftrightarrow> list_all strict_ok (map fst (List.map_filter (strict_parameters False) (rq_tools p)))"
      by (simp add: tools_ok_def list_all_iff case_prod_beta)
    show ?thesis
      unfolding strict_schemas_def text_ok_def tools list_all_append format_def [symmetric]
      by (cases format; cases "tf_schema (the format)") simp_all
  qed
  ultimately show ?thesis by simp
qed

end
