(* ===== verification/Key_Policy.thy ===== *)
theory Key_Policy
  imports Request_Policy
begin

text \<open>
  How the policy of an API key is written and read (\<open>create_key\<close>, \<open>update_key\<close> and \<open>_to_api_key_data\<close> of
  \<open>app/modules/api_keys/service.py\<close>, the part about allowed and enforced values), and that no key that was written this
  way locks out its own traffic.
\<close>

section \<open>Normalisation\<close>

definition normalize_allowed_models :: "string list option \<Rightarrow> string list option" where
  "normalize_allowed_models allowed = map_option (\<lambda>ms. map py_strip (filter (\<lambda>m. m \<noteq> [] \<and> py_strip m \<noteq> []) ms)) allowed"

definition normalize_model_slug :: "string option \<Rightarrow> string option" where
  "normalize_model_slug v = (case v of None \<Rightarrow> None | Some s \<Rightarrow> if py_strip s = [] then None else Some (py_strip s))"

definition supported_reasoning_efforts :: "string list" where
  "supported_reasoning_efforts = [''none'', ''minimal'', ''low'', ''medium'', ''high'', ''xhigh'']"

definition supported_service_tiers :: "string list" where
  "supported_service_tiers = [''auto'', ''default'', ''priority'', ''flex'']"

datatype key_policy_error = UnsupportedEffort string | UnsupportedServiceTier string | EnforcedModelNotAllowed

definition normalize_reasoning_effort :: "string option \<Rightarrow> key_policy_error + string option" where
  "normalize_reasoning_effort v =
     (case v of
        None \<Rightarrow> Inr None
      | Some s \<Rightarrow>
          (let n = py_lower (py_strip s) in
           if n = [] then Inr None
           else if n \<notin> set supported_reasoning_efforts then Inl (UnsupportedEffort n) else Inr (Some n)))"

definition normalize_reasoning_effort_lenient :: "string option \<Rightarrow> string option" where
  "normalize_reasoning_effort_lenient v =
     (case v of
        None \<Rightarrow> None
      | Some s \<Rightarrow>
          (let n = py_lower (py_strip s) in
           if n = [] then None else if n \<in> set supported_reasoning_efforts then Some n else None))"

definition normalize_key_service_tier :: "string option \<Rightarrow> key_policy_error + string option" where
  "normalize_key_service_tier v =
     (case v of
        None \<Rightarrow> Inr None
      | Some s \<Rightarrow>
          (let n = py_lower (py_strip s) in
           if n = [] then Inr None
           else let n = (if n = ''fast'' then ''priority'' else n) in
                if n \<notin> set supported_service_tiers then Inl (UnsupportedServiceTier n) else Inr (Some n)))"

definition normalize_service_tier_lenient :: "string option \<Rightarrow> string option" where
  "normalize_service_tier_lenient v =
     (case v of
        None \<Rightarrow> None
      | Some s \<Rightarrow>
          (let n = py_lower (py_strip s) in
           if n = [] then None
           else if n = ''fast'' then Some ''priority''
           else if n \<in> set supported_service_tiers then Some n else None))"

definition validate_model_enforcement :: "string option \<Rightarrow> string list option \<Rightarrow> key_policy_error + unit" where
  "validate_model_enforcement enforced allowed =
     (case (enforced, allowed) of
        (Some m, Some (a # as)) \<Rightarrow> if m \<notin> set (a # as) then Inl EnforcedModelNotAllowed else Inr ()
      | _ \<Rightarrow> Inr ())"

section \<open>Rows\<close>

text \<open>The column \<open>allowed_models\<close> holds JSON text; the row has the value the text encodes.\<close>

record policy_row =
  pr_allowed_models :: "json option"
  pr_enforced_model :: "string option"
  pr_enforced_reasoning_effort :: "string option"
  pr_enforced_service_tier :: "string option"

definition serialize_allowed_models :: "string list option \<Rightarrow> json option" where
  "serialize_allowed_models allowed = map_option (\<lambda>ms. JArr (map JStr ms)) allowed"

definition deserialize_allowed_models :: "json option \<Rightarrow> string list option" where
  "deserialize_allowed_models v =
     map_option (\<lambda>xs. map py_strip (filter (\<lambda>s. py_strip s \<noteq> []) (List.map_filter (\<lambda>x. json_str (Some x)) xs))) (json_arr v)"

definition create_key_policy :: "key_policy \<Rightarrow> key_policy_error + policy_row" where
  "create_key_policy payload =
     (let allowed = normalize_allowed_models (kp_allowed_models payload);
          enforced = normalize_model_slug (kp_enforced_model payload)
      in case normalize_reasoning_effort (kp_enforced_reasoning_effort payload) of
           Inl e \<Rightarrow> Inl e
         | Inr effort \<Rightarrow>
       (case normalize_key_service_tier (kp_enforced_service_tier payload) of
           Inl e \<Rightarrow> Inl e
         | Inr tier \<Rightarrow>
       (case validate_model_enforcement enforced allowed of
           Inl e \<Rightarrow> Inl e
         | Inr _ \<Rightarrow>
             Inr \<lparr>pr_allowed_models = serialize_allowed_models allowed, pr_enforced_model = enforced,
                  pr_enforced_reasoning_effort = effort, pr_enforced_service_tier = tier\<rparr>)))"

definition read_key_policy :: "policy_row \<Rightarrow> key_policy" where
  "read_key_policy row =
     \<lparr>kp_allowed_models = deserialize_allowed_models (pr_allowed_models row),
      kp_enforced_model = normalize_model_slug (pr_enforced_model row),
      kp_enforced_reasoning_effort = normalize_reasoning_effort_lenient (pr_enforced_reasoning_effort row),
      kp_enforced_service_tier = normalize_service_tier_lenient (pr_enforced_service_tier row)\<rparr>"

text \<open>An update names the fields it sets: \<open>None\<close> is a field whose \<open>_set\<close> flag is false.\<close>

record policy_update =
  pu_allowed_models :: "string list option option"
  pu_enforced_model :: "string option option"
  pu_enforced_reasoning_effort :: "string option option"
  pu_enforced_service_tier :: "string option option"

definition set_if :: "'a option \<Rightarrow> 'a \<Rightarrow> 'a" where
  "set_if new old = (case new of None \<Rightarrow> old | Some v \<Rightarrow> v)"

definition normalize_if :: "('a option \<Rightarrow> key_policy_error + 'b option) \<Rightarrow> 'a option option \<Rightarrow> key_policy_error + 'b option option" where
  "normalize_if nrm v =
     (case v of None \<Rightarrow> Inr None | Some x \<Rightarrow> (case nrm x of Inl e \<Rightarrow> Inl e | Inr y \<Rightarrow> Inr (Some y)))"

definition update_key_policy :: "policy_update \<Rightarrow> policy_row \<Rightarrow> key_policy_error + policy_row" where
  "update_key_policy payload row =
     (let allowed = map_option normalize_allowed_models (pu_allowed_models payload);
          enforced = map_option normalize_model_slug (pu_enforced_model payload)
      in case normalize_if normalize_reasoning_effort (pu_enforced_reasoning_effort payload) of
           Inl e \<Rightarrow> Inl e
         | Inr effort \<Rightarrow>
       (case normalize_if normalize_key_service_tier (pu_enforced_service_tier payload) of
           Inl e \<Rightarrow> Inl e
         | Inr tier \<Rightarrow>
       (case (if allowed \<noteq> None \<or> enforced \<noteq> None
              then validate_model_enforcement (set_if enforced (normalize_model_slug (pr_enforced_model row)))
                     (set_if allowed (deserialize_allowed_models (pr_allowed_models row)))
              else Inr ()) of
           Inl e \<Rightarrow> Inl e
         | Inr _ \<Rightarrow>
             Inr \<lparr>pr_allowed_models = set_if (map_option serialize_allowed_models allowed) (pr_allowed_models row),
                  pr_enforced_model = set_if enforced (pr_enforced_model row),
                  pr_enforced_reasoning_effort = set_if effort (pr_enforced_reasoning_effort row),
                  pr_enforced_service_tier = set_if tier (pr_enforced_service_tier row)\<rparr>)))"

section \<open>Written policies\<close>

inductive written_policy :: "policy_row \<Rightarrow> bool" where
  created: "create_key_policy payload = Inr row \<Longrightarrow> written_policy row"
| updated: "written_policy row \<Longrightarrow> update_key_policy payload row = Inr row' \<Longrightarrow> written_policy row'"

lemma py_strip_Nil [simp]: "py_strip [] = []"
  by (simp add: py_strip_def)

lemma normalize_model_slug_idem [simp]: "normalize_model_slug (normalize_model_slug v) = normalize_model_slug v"
  by (auto simp: normalize_model_slug_def split: option.splits)

lemma map_filter_JStr [simp]: "List.map_filter (\<lambda>x. json_str (Some x)) (map JStr ms) = ms"
  by (induction ms) (simp_all add: List.map_filter_simps)

lemma allowed_roundtrip [simp]:
  "deserialize_allowed_models (serialize_allowed_models (normalize_allowed_models allowed)) = normalize_allowed_models allowed"
proof -
  have "map py_strip (filter (\<lambda>s. py_strip s \<noteq> []) (map py_strip (filter (\<lambda>m. m \<noteq> [] \<and> py_strip m \<noteq> []) ms))) =
    map py_strip (filter (\<lambda>m. m \<noteq> [] \<and> py_strip m \<noteq> []) ms)" for ms
    by (induction ms) auto
  then show ?thesis
    by (cases allowed) (simp_all add: deserialize_allowed_models_def serialize_allowed_models_def normalize_allowed_models_def
        del: map_map)
qed

definition consistent_policy :: "key_policy \<Rightarrow> bool" where
  "consistent_policy key \<longleftrightarrow> validate_model_enforcement (kp_enforced_model key) (kp_allowed_models key) = Inr ()"

lemma created_consistent: "create_key_policy payload = Inr row \<Longrightarrow> consistent_policy (read_key_policy row)"
  by (auto simp: create_key_policy_def consistent_policy_def read_key_policy_def Let_def split: sum.splits)

lemma updated_consistent:
  assumes "update_key_policy payload row = Inr row'" and "consistent_policy (read_key_policy row)"
  shows "consistent_policy (read_key_policy row')"
proof -
  define allowed where "allowed = map_option normalize_allowed_models (pu_allowed_models payload)"
  define enforced where "enforced = map_option normalize_model_slug (pu_enforced_model payload)"
  have row': "pr_allowed_models row' = set_if (map_option serialize_allowed_models allowed) (pr_allowed_models row)"
    "pr_enforced_model row' = set_if enforced (pr_enforced_model row)"
    "(if allowed \<noteq> None \<or> enforced \<noteq> None
      then validate_model_enforcement (set_if enforced (normalize_model_slug (pr_enforced_model row)))
             (set_if allowed (deserialize_allowed_models (pr_allowed_models row)))
      else Inr ()) = Inr ()"
    using assms(1) by (auto simp: update_key_policy_def Let_def allowed_def enforced_def split: sum.splits)
  have "kp_allowed_models (read_key_policy row') = set_if allowed (deserialize_allowed_models (pr_allowed_models row))"
    by (cases "pu_allowed_models payload") (simp_all add: read_key_policy_def row'(1) allowed_def set_if_def)
  moreover have "kp_enforced_model (read_key_policy row') = set_if enforced (normalize_model_slug (pr_enforced_model row))"
    by (cases "pu_enforced_model payload") (simp_all add: read_key_policy_def row'(2) enforced_def set_if_def)
  ultimately show ?thesis
    using row'(3) assms(2)
    by (cases "allowed = None \<and> enforced = None") (auto simp: consistent_policy_def read_key_policy_def set_if_def)
qed

lemma written_consistent: "written_policy row \<Longrightarrow> consistent_policy (read_key_policy row)"
  by (induction rule: written_policy.induct) (auto intro: created_consistent updated_consistent)

lemma consistent_allows_enforced:
  assumes "consistent_policy key" and "kp_enforced_model key = Some m" and "m \<noteq> []"
  shows "model_allowed key (outbound_model key p)"
proof -
  have "outbound_model key p = resolve_request_model_alias (Some m)" using assms by (simp add: outbound_model_def)
  moreover have "model_allowed key (Some m)"
    using assms by (auto simp: consistent_policy_def validate_model_enforcement_def model_allowed_def list_ex_iff
        split: option.splits list.splits if_splits)
  ultimately show ?thesis by (simp add: model_allowed_def cong: option.case_cong)
qed

text \<open>
  A key that enforces a model is never locked out by its own list of allowed models. Whatever sequence of creation
  and updates has written the key, when the policy that is read back enforces a model, every request of the key is
  authorized, and it is forwarded with the enforced model.
\<close>

theorem enforced_key_never_locked_out:
  assumes "written_policy row" and "kp_enforced_model (read_key_policy row) = Some m"
  shows "\<exists>q. authorize_request snapshot (Some (read_key_policy row)) p = Inr q \<and> Some (rq_model q) = resolve_request_model_alias (Some m)"
proof -
  let ?key = "read_key_policy row"
  have "m \<noteq> []" using assms(2) by (auto simp: read_key_policy_def normalize_model_slug_def split: option.splits if_splits)
  then have allowed: "model_allowed ?key (outbound_model ?key p)"
    using written_consistent [OF assms(1)] assms(2) by (rule consistent_allows_enforced [rotated 2])
  have "outbound_model ?key p = resolve_request_model_alias (Some m)" using assms(2) \<open>m \<noteq> []\<close> by (simp add: outbound_model_def)
  then show ?thesis
    using allowed enforcement_model [of snapshot ?key p] by (simp add: authorize_request_def Let_def validate_model_access_iff)
qed

definition example_policy :: key_policy where
  "example_policy =
     \<lparr>kp_allowed_models = Some ['' gpt-5 '', ''gpt-5.1-high''], kp_enforced_model = Some ''gpt-5.1-high'',
      kp_enforced_reasoning_effort = Some ''Minimal'', kp_enforced_service_tier = Some ''fast''\<rparr>"

definition policy_example_row :: policy_row where
  "policy_example_row =
     \<lparr>pr_allowed_models = Some (JArr [JStr ''gpt-5'', JStr ''gpt-5.1-high'']), pr_enforced_model = Some ''gpt-5.1-high'',
      pr_enforced_reasoning_effort = Some ''minimal'', pr_enforced_service_tier = Some ''priority''\<rparr>"

theorem enforced_key_never_locked_out_witness:
  "written_policy policy_example_row \<and>
   (\<exists>q. authorize_request None (Some (read_key_policy policy_example_row))
      \<lparr>rq_model = ''o3'', rq_input = JNull, rq_tools = [], rq_text = None, rq_reasoning = None, rq_service_tier = None\<rparr> = Inr q \<and>
      Some (rq_model q) = resolve_request_model_alias (Some ''gpt-5.1-high''))"
proof -
  have "create_key_policy example_policy = Inr policy_example_row" by code_simp
  then have "written_policy policy_example_row" by (rule created)
  moreover have "kp_enforced_model (read_key_policy policy_example_row) = Some ''gpt-5.1-high''" by code_simp
  ultimately show ?thesis using enforced_key_never_locked_out by blast
qed

lemma lower_strip_idem [simp]: "py_lower (py_strip (py_lower (py_strip s))) = py_lower (py_strip s)"
  by (simp add: py_strip_lower)

lemma effort_roundtrip:
  "normalize_reasoning_effort v = Inr e \<Longrightarrow> normalize_reasoning_effort_lenient e = e \<and> normalize_reasoning_effort e = Inr e"
  by (auto simp: normalize_reasoning_effort_def normalize_reasoning_effort_lenient_def Let_def py_strip_lower
      split: option.splits if_splits)

lemma tier_fixed: "t \<in> set supported_service_tiers \<Longrightarrow> py_lower (py_strip t) = t \<and> t \<noteq> [] \<and> t \<noteq> ''fast''"
proof -
  have "list_all (\<lambda>t. py_lower (py_strip t) = t \<and> t \<noteq> [] \<and> t \<noteq> ''fast'') supported_service_tiers" by code_simp
  then show "t \<in> set supported_service_tiers \<Longrightarrow> ?thesis" by (simp add: list_all_iff)
qed

lemma tier_roundtrip:
  assumes "normalize_key_service_tier v = Inr t"
  shows "normalize_service_tier_lenient t = t \<and> normalize_key_service_tier t = Inr t"
proof (cases t)
  case (Some n)
  then have "n \<in> set supported_service_tiers"
    using assms by (auto simp: normalize_key_service_tier_def Let_def split: option.splits if_splits)
  then show ?thesis using Some tier_fixed [of n] by (simp add: normalize_key_service_tier_def normalize_service_tier_lenient_def)
qed (simp add: normalize_key_service_tier_def normalize_service_tier_lenient_def)

lemma normalize_allowed_models_idem [simp]: "normalize_allowed_models (normalize_allowed_models a) = normalize_allowed_models a"
proof -
  have "map py_strip (filter (\<lambda>m. m \<noteq> [] \<and> py_strip m \<noteq> []) (map py_strip (filter (\<lambda>m. m \<noteq> [] \<and> py_strip m \<noteq> []) ms))) =
    map py_strip (filter (\<lambda>m. m \<noteq> [] \<and> py_strip m \<noteq> []) ms)" for ms
    by (induction ms) auto
  then show ?thesis by (cases a) (simp_all add: normalize_allowed_models_def)
qed

lemma created_row:
  assumes "create_key_policy payload = Inr row"
  obtains effort tier where
    "normalize_reasoning_effort (kp_enforced_reasoning_effort payload) = Inr effort"
    "normalize_key_service_tier (kp_enforced_service_tier payload) = Inr tier"
    "validate_model_enforcement (normalize_model_slug (kp_enforced_model payload))
       (normalize_allowed_models (kp_allowed_models payload)) = Inr ()"
    "row = \<lparr>pr_allowed_models = serialize_allowed_models (normalize_allowed_models (kp_allowed_models payload)),
            pr_enforced_model = normalize_model_slug (kp_enforced_model payload),
            pr_enforced_reasoning_effort = effort, pr_enforced_service_tier = tier\<rparr>"
  using assms by (auto simp: create_key_policy_def Let_def split: sum.splits)

text \<open>
  Reading a policy back yields what was written, and the written form is a fixed point: the policy that is read from
  a created row is accepted again unchanged, with the same row as the result.
\<close>

theorem key_policy_roundtrip:
  assumes "create_key_policy payload = Inr row"
  shows "create_key_policy (read_key_policy row) = Inr row \<and>
     kp_allowed_models (read_key_policy row) = normalize_allowed_models (kp_allowed_models payload) \<and>
     kp_enforced_model (read_key_policy row) = normalize_model_slug (kp_enforced_model payload) \<and>
     Inr (kp_enforced_reasoning_effort (read_key_policy row)) = normalize_reasoning_effort (kp_enforced_reasoning_effort payload) \<and>
     Inr (kp_enforced_service_tier (read_key_policy row)) = normalize_key_service_tier (kp_enforced_service_tier payload)"
proof -
  obtain effort tier where row:
    "normalize_reasoning_effort (kp_enforced_reasoning_effort payload) = Inr effort"
    "normalize_key_service_tier (kp_enforced_service_tier payload) = Inr tier"
    "validate_model_enforcement (normalize_model_slug (kp_enforced_model payload))
       (normalize_allowed_models (kp_allowed_models payload)) = Inr ()"
    "row = \<lparr>pr_allowed_models = serialize_allowed_models (normalize_allowed_models (kp_allowed_models payload)),
            pr_enforced_model = normalize_model_slug (kp_enforced_model payload),
            pr_enforced_reasoning_effort = effort, pr_enforced_service_tier = tier\<rparr>"
    using assms by (rule created_row) (rule that)
  have read: "read_key_policy row =
    \<lparr>kp_allowed_models = normalize_allowed_models (kp_allowed_models payload),
     kp_enforced_model = normalize_model_slug (kp_enforced_model payload),
     kp_enforced_reasoning_effort = effort, kp_enforced_service_tier = tier\<rparr>"
    using effort_roundtrip [OF row(1)] tier_roundtrip [OF row(2)] by (simp add: read_key_policy_def row(4))
  then have "create_key_policy (read_key_policy row) = Inr row"
    using effort_roundtrip [OF row(1)] tier_roundtrip [OF row(2)] row(3) by (simp add: create_key_policy_def row(4))
  then show ?thesis using read row(1,2) by simp
qed

theorem key_policy_roundtrip_witness:
  "create_key_policy example_policy = Inr policy_example_row \<and> create_key_policy (read_key_policy policy_example_row) = Inr policy_example_row"
proof -
  have created: "create_key_policy example_policy = Inr policy_example_row" by code_simp
  then show ?thesis using key_policy_roundtrip [OF created] by simp
qed

end
