(* ===== verification/Sse.thy ===== *)
theory Sse
  imports Json
begin

text \<open>
  Server-sent events (\<open>app/core/utils/sse.py\<close>): \<open>json.dumps\<close> with ASCII output, the two framings, the parser of a
  frame, and the keepalive frames that are put into a stream. The text of a float is an argument of the printer.
\<close>

section \<open>Printing JSON\<close>

text \<open>\<open>json.dumps(payload, ensure_ascii=True, separators=(",", ":"))\<close>.\<close>

definition hex_digit :: "nat \<Rightarrow> char" where
  "hex_digit n = (if n < 10 then char_of (48 + n) else char_of (87 + n))"

definition escape_char :: "char \<Rightarrow> string" where
  "escape_char c =
     (let n = of_char c :: nat in
      if n = 34 then [CHR 0x5C, CHR 0x22] else if n = 92 then [CHR 0x5C, CHR 0x5C]
      else if n = 10 then [CHR 0x5C, CHR ''n''] else if n = 13 then [CHR 0x5C, CHR ''r'']
      else if n = 9 then [CHR 0x5C, CHR ''t''] else if n = 8 then [CHR 0x5C, CHR ''b'']
      else if n = 12 then [CHR 0x5C, CHR ''f'']
      else if 32 \<le> n \<and> n \<le> 126 then [c]
      else [CHR 0x5C, CHR ''u'', CHR ''0'', CHR ''0'', hex_digit (n div 16), hex_digit (n mod 16)])"

definition dump_str :: "string \<Rightarrow> string" where
  "dump_str s = [CHR 0x22] @ concat (map escape_char s) @ [CHR 0x22]"

fun json_dumps :: "(real \<Rightarrow> string) \<Rightarrow> json \<Rightarrow> string" where
  "json_dumps fl JNull = ''null''"
| "json_dumps fl (JBool b) = (if b then ''true'' else ''false'')"
| "json_dumps fl (JInt n) = show_int n"
| "json_dumps fl (JFloat r) = fl r"
| "json_dumps fl (JStr s) = dump_str s"
| "json_dumps fl (JArr xs) = ''['' @ join_char (CHR '','') (map (json_dumps fl) xs) @ '']''"
| "json_dumps fl (JObj kvs) =
     ''{'' @ join_char (CHR '','') (map (\<lambda>(k, v). dump_str k @ '':'' @ json_dumps fl v) kvs) @ ''}''"

section \<open>Frames\<close>

definition newline :: string where
  "newline = [CHR 0x0A]"

definition sse_keepalive_frame :: string where
  "sse_keepalive_frame = '': keepalive'' @ newline @ newline"

definition format_sse_data :: "(real \<Rightarrow> string) \<Rightarrow> (string \<times> json) list \<Rightarrow> string" where
  "format_sse_data fl payload = ''data: '' @ json_dumps fl (JObj payload) @ newline @ newline"

definition format_sse_event :: "(real \<Rightarrow> string) \<Rightarrow> (string \<times> json) list \<Rightarrow> string" where
  "format_sse_event fl payload =
     (case nonempty_str (json_str (map_of payload ''type'')) of
        Some t \<Rightarrow> ''event: '' @ t @ newline @ ''data: '' @ json_dumps fl (JObj payload) @ newline @ newline
      | None \<Rightarrow> ''data: '' @ json_dumps fl (JObj payload) @ newline @ newline)"

text \<open>\<open>str.splitlines()\<close>: the line boundaries among the one-byte characters; a carriage return takes a following line feed along.\<close>

definition line_break :: "char \<Rightarrow> bool" where
  "line_break c = ((of_char c :: nat) \<in> {10, 11, 12, 13, 28, 29, 30, 133})"

fun splitlines_from :: "string \<Rightarrow> string \<Rightarrow> string list" where
  "splitlines_from cur [] = (if cur = [] then [] else [cur])"
| "splitlines_from cur (c # cs) =
     (if line_break c
      then cur # splitlines_from [] (if c = CHR 0x0D \<and> take 1 cs = [CHR 0x0A] then drop 1 cs else cs)
      else splitlines_from (cur @ [c]) cs)"

definition splitlines :: "string \<Rightarrow> string list" where
  "splitlines s = splitlines_from [] s"

text \<open>\<open>line.split(":", 1)\<close>.\<close>

definition parse_sse_field :: "string \<Rightarrow> string \<times> string" where
  "parse_sse_field line =
     (if CHR '':'' \<notin> set line then (line, [])
      else let value = drop 1 (dropWhile (\<lambda>c. c \<noteq> CHR '':'') line)
           in (takeWhile (\<lambda>c. c \<noteq> CHR '':'') line, if starts_with '' '' value then drop 1 value else value))"

fun sse_data_lines :: "string list \<Rightarrow> string list" where
  "sse_data_lines [] = []"
| "sse_data_lines (line # lines) =
     (if line = [] \<or> starts_with '':'' line then sse_data_lines lines
      else if fst (parse_sse_field line) = ''data'' then snd (parse_sse_field line) # sse_data_lines lines
      else sse_data_lines lines)"

definition extract_sse_data_lines :: "string \<Rightarrow> string list option" where
  "extract_sse_data_lines block =
     (let data_lines = sse_data_lines (splitlines block) in if data_lines = [] then None else Some data_lines)"

definition extract_sse_data :: "string \<Rightarrow> string option" where
  "extract_sse_data block =
     (case extract_sse_data_lines block of
        None \<Rightarrow> None
      | Some data_lines \<Rightarrow>
          (let data = join_char (CHR 0x0A) data_lines in
           if py_strip data = [] then None else if py_strip data = ''[DONE]'' then None else Some data))"

text \<open>\<open>loads\<close> is \<open>json.loads\<close>, with \<open>None\<close> for a text that is no JSON.\<close>

definition parse_sse_data_json :: "(string \<Rightarrow> json option) \<Rightarrow> string \<Rightarrow> (string \<times> json) list option" where
  "parse_sse_data_json loads block =
     (case extract_sse_data block of None \<Rightarrow> None | Some data \<Rightarrow> json_obj (loads data))"

section \<open>Keepalives\<close>

text \<open>
  What the wrapper waits for: the next chunk, or the interval. The source ends the stream; a chunk that arrives after a
  timeout is the same pending one, since the task is shielded. A non-positive interval disables the timeouts.
\<close>

datatype sse_tick = Arrived string | Timeout

fun inject_sse_keepalives :: "real \<Rightarrow> string \<Rightarrow> sse_tick list \<Rightarrow> string list" where
  "inject_sse_keepalives interval frame [] = []"
| "inject_sse_keepalives interval frame (Arrived chunk # ticks) = chunk # inject_sse_keepalives interval frame ticks"
| "inject_sse_keepalives interval frame (Timeout # ticks) =
     (if interval \<le> 0 then inject_sse_keepalives interval frame ticks
      else frame # inject_sse_keepalives interval frame ticks)"

fun arrived :: "sse_tick list \<Rightarrow> string list" where
  "arrived [] = []"
| "arrived (Arrived chunk # ticks) = chunk # arrived ticks"
| "arrived (Timeout # ticks) = arrived ticks"

section \<open>Printed JSON is one line of printable characters\<close>

definition printable :: "char \<Rightarrow> bool" where
  "printable c \<longleftrightarrow> 32 \<le> (of_char c :: nat) \<and> (of_char c :: nat) \<le> 126"

lemma printable_no_break: "printable c \<Longrightarrow> \<not> line_break c"
  by (auto simp: printable_def line_break_def)

lemma printable_hex: "n < 16 \<Longrightarrow> printable (hex_digit n)"
  by (simp add: printable_def hex_digit_def)

lemma printable_escape: "list_all printable (escape_char c)"
proof -
  have "(of_char c :: nat) < 256" by simp
  then have "(of_char c :: nat) div 16 < 16" by linarith
  then have "printable (hex_digit (of_char c div 16))" "printable (hex_digit (of_char c mod 16))"
    by (auto intro!: printable_hex)
  then show ?thesis by (auto simp: escape_char_def Let_def printable_def)
qed

lemma printable_dump_str: "list_all printable (dump_str s)"
  using printable_escape by (auto simp: dump_str_def list_all_iff printable_def)

lemma printable_show_nat: "list_all printable (show_nat n)"
proof (induction n rule: show_nat.induct)
  case (1 n)
  moreover have "printable (char_of (48 + k))" if "k < 10" for k :: nat using that by (simp add: printable_def)
  ultimately show ?case by (subst show_nat.simps) auto
qed

lemma printable_join: "printable c \<Longrightarrow> list_all (list_all printable) ss \<Longrightarrow> list_all printable (join_char c ss)"
  by (induction c ss rule: join_char.induct) auto

lemma printable_punctuation [simp]:
  "printable (CHR ''-'')" "printable (CHR '','')" "printable (CHR '':'')" "printable (CHR ''['')" "printable (CHR '']'')"
  "printable (CHR ''{'')" "printable (CHR ''}'')"
  by (simp_all add: printable_def)

lemma printable_dumps: "(\<And>r. list_all printable (fl r)) \<Longrightarrow> list_all printable (json_dumps fl j)"
proof (induction fl j rule: json_dumps.induct)
  case (3 fl n)
  then show ?case using printable_show_nat by (simp add: show_int_def)
next
  case (6 fl xs)
  then have "list_all (list_all printable) (map (json_dumps fl) xs)" by (simp add: list_all_iff)
  then show ?case by (simp add: printable_join)
next
  case (7 fl kvs)
  then have "list_all (list_all printable) (map (\<lambda>(k, v). dump_str k @ '':'' @ json_dumps fl v) kvs)"
    using printable_dump_str by (fastforce simp: list_all_iff)
  then show ?case by (simp add: printable_join)
qed (use printable_dump_str in \<open>auto simp: printable_def\<close>)

section \<open>Frames are read back\<close>

lemma splitlines_from_line:
  assumes "list_all (\<lambda>c. \<not> line_break c) line"
  shows "splitlines_from cur (line @ CHR 0x0A # rest) = (cur @ line) # splitlines_from [] rest"
  using assms
proof (induction line arbitrary: cur)
  case Nil
  then show ?case by (simp add: line_break_def)
qed simp

lemma splitlines_lines:
  "list_all (\<lambda>line. list_all (\<lambda>c. \<not> line_break c) line) lines \<Longrightarrow>
     splitlines (concat (map (\<lambda>line. line @ newline) lines)) = lines"
proof -
  assume "list_all (\<lambda>line. list_all (\<lambda>c. \<not> line_break c) line) lines"
  then have "splitlines_from [] (concat (map (\<lambda>line. line @ newline) lines)) = lines"
    by (induction lines) (simp_all add: newline_def splitlines_from_line)
  then show ?thesis by (simp add: splitlines_def)
qed

lemma parse_field_data [simp]: "parse_sse_field (''data: '' @ data) = (''data'', data)"
  by (simp add: parse_sse_field_def starts_with_def)

lemma parse_field_event [simp]: "fst (parse_sse_field (''event: '' @ t)) = ''event''"
  by (simp add: parse_sse_field_def Let_def)

lemma data_line: "sse_data_lines ((''data: '' @ data) # lines) = data # sse_data_lines lines"
  using parse_field_data [of data] by (simp add: starts_with_def del: parse_field_data)

lemma blank_line: "sse_data_lines [[]] = []"
  by simp

lemma event_line: "sse_data_lines ((''event: '' @ t) # lines) = sse_data_lines lines"
  using parse_field_event [of t] by (simp add: starts_with_def del: parse_field_event)

lemma strip_object: "s = CHR ''{'' # t \<Longrightarrow> py_strip s \<noteq> [] \<and> py_strip s \<noteq> ''[DONE]''"
proof -
  assume s: "s = CHR ''{'' # t"
  have brace: "\<not> py_isspace (CHR ''{'')" by (simp add: py_isspace_def)
  then have "py_strip s = rev (dropWhile py_isspace (rev t @ [CHR ''{'']))" using s by (simp add: py_strip_def)
  moreover obtain u where "dropWhile py_isspace (rev t @ [CHR ''{'']) = u @ [CHR ''{'']"
    using brace by (cases "\<forall>x\<in>set t. py_isspace x") (auto simp: dropWhile_append)
  ultimately have "py_strip s = CHR ''{'' # rev u" by (simp only: rev_append rev.simps append.simps)
  then show ?thesis by simp
qed

lemma extract_frame:
  assumes "sse_data_lines (splitlines block) = [json_dumps fl (JObj payload)]"
  shows "extract_sse_data block = Some (json_dumps fl (JObj payload))"
  using assms strip_object [of "json_dumps fl (JObj payload)"]
  by (simp add: extract_sse_data_def extract_sse_data_lines_def Let_def)

lemma splitlines_data:
  assumes "\<And>r. list_all printable (fl r)"
  shows "splitlines (''data: '' @ json_dumps fl j @ newline @ newline) = [''data: '' @ json_dumps fl j, []]"
    and "list_all (\<lambda>c. \<not> line_break c) t \<Longrightarrow>
      splitlines (''event: '' @ t @ newline @ ''data: '' @ json_dumps fl j @ newline @ newline) =
        [''event: '' @ t, ''data: '' @ json_dumps fl j, []]"
proof -
  have clean: "list_all (\<lambda>c. \<not> line_break c) (json_dumps fl j)"
    using printable_dumps [OF assms] printable_no_break by (simp add: list_all_iff)
  have "list_all (\<lambda>c. \<not> line_break c) ''data: ''" "list_all (\<lambda>c. \<not> line_break c) ''event: ''"
    by (simp_all add: line_break_def)
  then have data: "list_all (\<lambda>c. \<not> line_break c) (''data: '' @ json_dumps fl j)"
    and event: "list_all (\<lambda>c. \<not> line_break c) t \<Longrightarrow> list_all (\<lambda>c. \<not> line_break c) (''event: '' @ t)"
    using clean by (simp_all only: list_all_append)
  show "splitlines (''data: '' @ json_dumps fl j @ newline @ newline) = [''data: '' @ json_dumps fl j, []]"
    using splitlines_lines [of "[''data: '' @ json_dumps fl j, []]"] data by simp
  show "splitlines (''event: '' @ t @ newline @ ''data: '' @ json_dumps fl j @ newline @ newline) =
        [''event: '' @ t, ''data: '' @ json_dumps fl j, []]" if "list_all (\<lambda>c. \<not> line_break c) t"
    using splitlines_lines [of "[''event: '' @ t, ''data: '' @ json_dumps fl j, []]"] data event [OF that] by simp
qed


lemma format_sse_data_read:
  assumes "\<And>r. list_all printable (fl r)"
  shows "extract_sse_data (format_sse_data fl payload) = Some (json_dumps fl (JObj payload))"
proof (rule extract_frame)
  have "splitlines (format_sse_data fl payload) = [''data: '' @ json_dumps fl (JObj payload), []]"
    using splitlines_data(1) [where fl = fl and j = "JObj payload"] assms by (simp only: format_sse_data_def)
  then show "sse_data_lines (splitlines (format_sse_data fl payload)) = [json_dumps fl (JObj payload)]"
    by (simp only: data_line blank_line)
qed

definition clean_type :: "(string \<times> json) list \<Rightarrow> bool" where
  "clean_type payload =
     (case json_str (map_of payload ''type'') of None \<Rightarrow> True | Some t \<Rightarrow> list_all (\<lambda>c. \<not> line_break c) t)"

lemma format_sse_event_read:
  assumes "\<And>r. list_all printable (fl r)" and "clean_type payload"
  shows "extract_sse_data (format_sse_event fl payload) = Some (json_dumps fl (JObj payload))"
proof (cases "nonempty_str (json_str (map_of payload ''type''))")
  case None
  then have "format_sse_event fl payload = format_sse_data fl payload" by (simp add: format_sse_event_def format_sse_data_def)
  then show ?thesis using format_sse_data_read [OF assms(1)] by simp
next
  case (Some t)
  then have "list_all (\<lambda>c. \<not> line_break c) t" using assms(2) nonempty_strD [OF Some] by (simp add: clean_type_def)
  then have "splitlines (format_sse_event fl payload) = [''event: '' @ t, ''data: '' @ json_dumps fl (JObj payload), []]"
    using Some splitlines_data(2) [where fl = fl and t = t and j = "JObj payload"] assms(1) by (simp only: format_sse_event_def option.case)
  then have "sse_data_lines (splitlines (format_sse_event fl payload)) = [json_dumps fl (JObj payload)]"
    by (simp only: event_line data_line blank_line)
  then show ?thesis by (rule extract_frame)
qed

lemma keepalive_ignored: "extract_sse_data sse_keepalive_frame = None"
  by code_simp

text \<open>
  C34: A stream of events survives the wire. Each payload that is framed with \<open>format_sse_event\<close> is read back as the one
  line of JSON it was printed to, in order, and the comment frames that the keepalive wrapper puts between the events,
  at whatever moments it times out, are invisible to the reader. The hypotheses: the text of a float is printable and
  the event types, which the frame repeats unescaped, hold no line break.
\<close>

theorem sse_stream_roundtrip:
  assumes "\<And>r. list_all printable (fl r)" and "list_all clean_type payloads"
    and "arrived ticks = map (format_sse_event fl) payloads"
  shows "List.map_filter extract_sse_data (inject_sse_keepalives interval sse_keepalive_frame ticks) =
    map (\<lambda>p. json_dumps fl (JObj p)) payloads"
proof -
  have "List.map_filter extract_sse_data (inject_sse_keepalives interval sse_keepalive_frame ticks) =
    List.map_filter extract_sse_data (arrived ticks)"
    by (induction ticks rule: arrived.induct) (simp_all add: List.map_filter_simps keepalive_ignored split: option.split)
  also have "\<dots> = map (\<lambda>p. json_dumps fl (JObj p)) payloads"
    using assms(2) unfolding assms(3)
    by (induction payloads) (simp_all add: List.map_filter_simps format_sse_event_read [OF assms(1)])
  finally show ?thesis .
qed

theorem sse_stream_roundtrip_witness:
  "List.map_filter extract_sse_data
     (inject_sse_keepalives 10 sse_keepalive_frame
       [Timeout, Arrived (format_sse_event (\<lambda>r. ''0.5'') [(''type'', JStr ''response.created''), (''n'', JInt 3)]), Timeout]) =
   [json_dumps (\<lambda>r. ''0.5'') (JObj [(''type'', JStr ''response.created''), (''n'', JInt 3)])]"
proof -
  have "list_all printable ''0.5''" by (simp add: printable_def)
  moreover have "list_all clean_type [[(''type'', JStr ''response.created''), (''n'', JInt 3)]]"
    by (simp add: clean_type_def line_break_def)
  ultimately show ?thesis
    using sse_stream_roundtrip [of "\<lambda>r. ''0.5''" "[[(''type'', JStr ''response.created''), (''n'', JInt 3)]]"
      "[Timeout, Arrived (format_sse_event (\<lambda>r. ''0.5'') [(''type'', JStr ''response.created''), (''n'', JInt 3)]), Timeout]" 10]
    by simp
qed

end
