(* ===== verification/Tool_Calls.thy ===== *)
theory Tool_Calls
  imports Sse
begin

text \<open>
  Tool calls in the chat adapter (\<open>app/core/openai/chat_responses.py\<close>): how an upstream event is recognised as part of a
  tool call, which slot of \<open>tool_calls[]\<close> it belongs to (\<open>ToolCallIndex\<close>), how the slot accumulates it
  (\<open>ToolCallState\<close>), and which part of it is still to be streamed (\<open>build_stream_delta\<close>).
\<close>

section \<open>Recognising tool call events\<close>

type_synonym payload = "(string \<times> json) list"

definition first_str :: "json option list \<Rightarrow> string option" where
  "first_str values = (case List.map_filter (\<lambda>v. nonempty_str (json_str v)) values of [] \<Rightarrow> None | s # _ \<Rightarrow> Some s)"

definition item_keys :: "string list" where
  "item_keys = [''call_id'', ''tool_call_id'', ''arguments'', ''function'', ''name'']"

definition tool_item :: "payload \<Rightarrow> bool" where
  "tool_item item \<longleftrightarrow>
     (case json_str (map_of item ''type'') of None \<Rightarrow> False | Some t \<Rightarrow> contains ''tool'' t \<or> contains ''function'' t) \<or>
     list_ex (has_key item) item_keys"

definition is_tool_call_event :: "payload \<Rightarrow> bool" where
  "is_tool_call_event p \<longleftrightarrow>
     (case json_str (map_of p ''type'') of None \<Rightarrow> False | Some t \<Rightarrow> contains ''tool_call'' t \<or> contains ''function_call'' t) \<or>
     (case json_obj (map_of p ''item'') of None \<Rightarrow> False | Some item \<Rightarrow> tool_item item) \<or>
     has_key p ''call_id'' \<or> has_key p ''tool_call_id'' \<or>
     (has_key p ''arguments'' \<and> (has_key p ''name'' \<or> has_key p ''function''))"

definition select_tool_call_candidate :: "payload \<Rightarrow> payload" where
  "select_tool_call_candidate p =
     (case json_obj (map_of p ''item'') of None \<Rightarrow> p | Some item \<Rightarrow> if tool_item item then item else p)"

definition obj_get :: "payload option \<Rightarrow> string \<Rightarrow> json option" where
  "obj_get d key = Option.bind d (\<lambda>kvs. map_of kvs key)"

record tool_call_fields =
  tcf_call_id :: "string option"
  tcf_name :: "string option"
  tcf_arguments :: "string option"
  tcf_tool_type :: "string option"

definition candidate_call_id :: "payload \<Rightarrow> payload option \<Rightarrow> string option" where
  "candidate_call_id c delta =
     first_some (first_str [map_of c ''call_id'', map_of c ''tool_call_id'', map_of c ''id''])
                (first_str [obj_get delta ''id'', obj_get delta ''call_id'', obj_get delta ''tool_call_id''])"

definition candidate_name :: "payload \<Rightarrow> payload option \<Rightarrow> string option" where
  "candidate_name c delta =
     first_some (first_str [map_of c ''name'', map_of c ''tool_name''])
    (first_some (first_str [obj_get delta ''name''])
    (first_some (first_str [obj_get (json_obj (map_of c ''function'')) ''name''])
                (first_str [obj_get (json_obj (obj_get delta ''function'')) ''name''])))"

definition candidate_arguments :: "payload \<Rightarrow> payload option \<Rightarrow> string option" where
  "candidate_arguments c delta =
     first_some (json_str (map_of c ''arguments''))
    (first_some (json_str (map_of c ''delta''))
    (first_some (json_str (obj_get delta ''arguments''))
                (json_str (obj_get (json_obj (obj_get delta ''function'')) ''arguments''))))"

definition candidate_tool_type :: "payload \<Rightarrow> string option" where
  "candidate_tool_type c =
     (case first_str [map_of c ''tool_type'', map_of c ''type''] of
        None \<Rightarrow> None
      | Some t \<Rightarrow> if starts_with ''response.'' t then None
                  else if t \<in> set [''tool_call'', ''function_call''] then Some ''function'' else Some t)"

definition extract_tool_call_fields :: "payload \<Rightarrow> tool_call_fields option" where
  "extract_tool_call_fields p =
     (let c = select_tool_call_candidate p;
          delta = json_obj (map_of c ''delta'');
          call_id = candidate_call_id c delta;
          name = candidate_name c delta;
          arguments = candidate_arguments c delta
      in if call_id = None \<and> name = None \<and> arguments = None then None
         else Some \<lparr>tcf_call_id = call_id, tcf_name = name, tcf_arguments = arguments, tcf_tool_type = candidate_tool_type c\<rparr>)"

section \<open>Slots\<close>

record tool_call_index =
  ti_indexes :: "string \<rightharpoonup> nat"
  ti_next_index :: nat
  ti_output_index_map :: "int \<rightharpoonup> nat"

definition new_tool_call_index :: tool_call_index where
  "new_tool_call_index = \<lparr>ti_indexes = Map.empty, ti_next_index = 0, ti_output_index_map = Map.empty\<rparr>"

definition tool_call_key :: "string option \<Rightarrow> string option \<Rightarrow> string option" where
  "tool_call_key call_id name =
     (case nonempty_str call_id of
        Some i \<Rightarrow> Some (''id:'' @ i)
      | None \<Rightarrow> (case nonempty_str name of Some n \<Rightarrow> Some (''name:'' @ n) | None \<Rightarrow> None))"

definition index_for :: "string option \<Rightarrow> string option \<Rightarrow> tool_call_index \<Rightarrow> nat \<times> tool_call_index" where
  "index_for call_id name t =
     (case tool_call_key call_id name of
        None \<Rightarrow> (0, t)
      | Some key \<Rightarrow>
          (case ti_indexes t key of
             Some i \<Rightarrow> (i, t)
           | None \<Rightarrow> (ti_next_index t,
                      t\<lparr>ti_indexes := (ti_indexes t)(key \<mapsto> ti_next_index t), ti_next_index := ti_next_index t + 1\<rparr>)))"

definition register_key :: "string option \<Rightarrow> nat \<Rightarrow> tool_call_index \<Rightarrow> tool_call_index" where
  "register_key key index t =
     (case key of
        None \<Rightarrow> t
      | Some k \<Rightarrow> if ti_indexes t k = None then t\<lparr>ti_indexes := (ti_indexes t)(k \<mapsto> index)\<rparr> else t)"

definition register_output_index :: "int option \<Rightarrow> nat \<Rightarrow> tool_call_index \<Rightarrow> tool_call_index" where
  "register_output_index output_index index t =
     (case output_index of
        None \<Rightarrow> t
      | Some out \<Rightarrow>
          if ti_output_index_map t out = None
          then t\<lparr>ti_output_index_map := (ti_output_index_map t)(out \<mapsto> index)\<rparr> else t)"

definition register_call_alias :: "string \<Rightarrow> nat \<Rightarrow> tool_call_index \<Rightarrow> tool_call_index" where
  "register_call_alias alias_id index t = register_key (Some (''id:'' @ alias_id)) index t"

definition index_for_output_index ::
  "int option \<Rightarrow> string option \<Rightarrow> string option \<Rightarrow> tool_call_index \<Rightarrow> nat \<times> tool_call_index" where
  "index_for_output_index output_index call_id name t =
     (let key = tool_call_key call_id name in
      case Option.bind output_index (ti_output_index_map t) of
        Some idx \<Rightarrow> (idx, register_key key idx t)
      | None \<Rightarrow>
          (case key of
             None \<Rightarrow>
               (case output_index of
                  Some out \<Rightarrow>
                    (let idx = ti_next_index t in
                     (idx, t\<lparr>ti_output_index_map := (ti_output_index_map t)(out \<mapsto> idx),
                             ti_next_index := max (ti_next_index t) (idx + 1)\<rparr>))
                | None \<Rightarrow> (0, t))
           | Some k \<Rightarrow>
               (let (idx, t) = index_for call_id name t in (idx, register_output_index output_index idx t))))"

text \<open>A JSON boolean is an \<open>int\<close> for \<open>isinstance\<close>.\<close>

definition resolve_output_index :: "payload \<Rightarrow> int option" where
  "resolve_output_index p =
     (case map_of p ''output_index'' of
        Some (JInt n) \<Rightarrow> Some n | Some (JBool b) \<Rightarrow> Some (if b then 1 else 0) | _ \<Rightarrow> None)"

definition register_item_id_alias :: "payload \<Rightarrow> nat \<Rightarrow> tool_call_index \<Rightarrow> tool_call_index" where
  "register_item_id_alias p index t =
     (case json_obj (map_of p ''item'') of
        None \<Rightarrow> t
      | Some item \<Rightarrow>
          (let t = (case nonempty_str (json_str (map_of item ''id'')) of
                      Some item_id \<Rightarrow> if map_of item ''call_id'' \<noteq> Some (JStr item_id) then register_call_alias item_id index t else t
                    | None \<Rightarrow> t)
           in register_output_index (resolve_output_index p) index t))"

section \<open>Deltas and states\<close>

record tool_call_delta =
  td_index :: nat
  td_call_id :: "string option"
  td_name :: "string option"
  td_arguments :: "string option"
  td_tool_type :: "string option"
  td_replace :: bool

text \<open>\<open>arguments_mode\<close>: only a \<open>.delta\<close> event appends.\<close>

definition arguments_replaced :: "payload \<Rightarrow> bool" where
  "arguments_replaced p =
     (case json_str (map_of p ''type'') of Some t \<Rightarrow> \<not> ends_with ''.delta'' t | None \<Rightarrow> True)"

definition routing_id :: "payload \<Rightarrow> tool_call_fields \<Rightarrow> string option" where
  "routing_id p f =
     (case tcf_call_id f of
        Some i \<Rightarrow> Some i | None \<Rightarrow> first_str [map_of p ''item_id'', obj_get (json_obj (map_of p ''item'')) ''id''])"

definition tool_call_delta_from_payload :: "payload \<Rightarrow> tool_call_index \<Rightarrow> tool_call_delta option \<times> tool_call_index" where
  "tool_call_delta_from_payload p t =
     (if \<not> is_tool_call_event p then (None, t)
      else case extract_tool_call_fields p of
        None \<Rightarrow> (None, t)
      | Some f \<Rightarrow>
          (let (index, t) = index_for_output_index (resolve_output_index p) (routing_id p f) (tcf_name f) t;
               t = register_item_id_alias p index t
           in (Some \<lparr>td_index = index, td_call_id = tcf_call_id f, td_name = tcf_name f, td_arguments = tcf_arguments f,
                     td_tool_type = tcf_tool_type f, td_replace = arguments_replaced p\<rparr>, t)))"

record tool_call_state =
  ts_index :: nat
  ts_call_id :: "string option"
  ts_name :: "string option"
  ts_arguments :: string
  ts_tool_type :: string
  ts_emitted_call_id :: "string option"
  ts_emitted_name :: "string option"
  ts_emitted_arguments :: string
  ts_emitted_tool_type :: "string option"

definition new_tool_call_state :: "nat \<Rightarrow> tool_call_state" where
  "new_tool_call_state index =
     \<lparr>ts_index = index, ts_call_id = None, ts_name = None, ts_arguments = [], ts_tool_type = ''function'',
      ts_emitted_call_id = None, ts_emitted_name = None, ts_emitted_arguments = [], ts_emitted_tool_type = None\<rparr>"

definition override :: "string option \<Rightarrow> string option \<Rightarrow> string option" where
  "override new old = (case nonempty_str new of Some v \<Rightarrow> Some v | None \<Rightarrow> old)"

definition apply_delta :: "tool_call_delta \<Rightarrow> tool_call_state \<Rightarrow> tool_call_state" where
  "apply_delta d s =
     s\<lparr>ts_call_id := override (td_call_id d) (ts_call_id s),
       ts_name := override (td_name d) (ts_name s),
       ts_arguments := (case td_arguments d of
          None \<Rightarrow> ts_arguments s | Some a \<Rightarrow> if td_replace d then a else ts_arguments s @ a),
       ts_tool_type := (case nonempty_str (td_tool_type d) of Some t \<Rightarrow> t | None \<Rightarrow> ts_tool_type s)\<rparr>"

definition pending_stream_value :: "string option \<Rightarrow> string option \<Rightarrow> string option" where
  "pending_stream_value emitted current =
     (case current of None \<Rightarrow> None | Some c \<Rightarrow> if emitted = None \<or> emitted \<noteq> Some c then Some c else None)"

definition pending_stream_arguments :: "string \<Rightarrow> string \<Rightarrow> string option" where
  "pending_stream_arguments emitted current =
     (if current = [] \<or> current = emitted then None
      else if emitted = [] then Some current
      else if starts_with emitted current then nonempty_str (Some (drop (length emitted) current))
      else None)"

definition build_stream_delta :: "tool_call_state \<Rightarrow> tool_call_delta option \<times> tool_call_state" where
  "build_stream_delta s =
     (let call_id = pending_stream_value (ts_emitted_call_id s) (ts_call_id s);
          name = pending_stream_value (ts_emitted_name s) (ts_name s);
          arguments = pending_stream_arguments (ts_emitted_arguments s) (ts_arguments s);
          tool_type = (if ts_tool_type s = [] then ''function'' else ts_tool_type s)
      in if call_id = None \<and> name = None \<and> arguments = None \<and> ts_emitted_tool_type s = Some tool_type then (None, s)
         else (Some \<lparr>td_index = ts_index s, td_call_id = call_id, td_name = name, td_arguments = arguments,
                     td_tool_type = Some tool_type, td_replace = False\<rparr>,
               s\<lparr>ts_emitted_call_id := (if call_id \<noteq> None then ts_call_id s else ts_emitted_call_id s),
                 ts_emitted_name := (if name \<noteq> None then ts_name s else ts_emitted_name s),
                 ts_emitted_arguments := (if arguments \<noteq> None then ts_arguments s else ts_emitted_arguments s),
                 ts_emitted_tool_type := Some tool_type\<rparr>))"

record tool_call_function =
  fn_name :: "string option"
  fn_arguments :: "string option"

definition build_tool_call_function :: "string option \<Rightarrow> string option \<Rightarrow> tool_call_function option" where
  "build_tool_call_function name arguments =
     (if name = None \<and> arguments = None then None else Some \<lparr>fn_name = name, fn_arguments = arguments\<rparr>)"

record chat_tool_call =
  ctc_index :: nat
  ctc_id :: "string option"
  ctc_type :: string
  ctc_function :: "tool_call_function option"

definition to_chunk_call :: "tool_call_delta \<Rightarrow> chat_tool_call" where
  "to_chunk_call d =
     \<lparr>ctc_index = td_index d, ctc_id = td_call_id d,
      ctc_type = (case nonempty_str (td_tool_type d) of Some t \<Rightarrow> t | None \<Rightarrow> ''function''),
      ctc_function = build_tool_call_function (td_name d) (td_arguments d)\<rparr>"

record message_tool_call =
  mt_id :: "string option"
  mt_type :: string
  mt_function :: "tool_call_function option"

definition to_message_tool_call :: "tool_call_state \<Rightarrow> message_tool_call option" where
  "to_message_tool_call s =
     (let function = build_tool_call_function (ts_name s) (nonempty_str (Some (ts_arguments s))) in
      if ts_call_id s = None \<and> function = None then None
      else Some \<lparr>mt_id = ts_call_id s, mt_type = (if ts_tool_type s = [] then ''function'' else ts_tool_type s),
                 mt_function = function\<rparr>)"

definition pad_tool_calls :: "nat \<Rightarrow> tool_call_state list \<Rightarrow> tool_call_state list" where
  "pad_tool_calls index calls = calls @ map new_tool_call_state [length calls..<Suc index]"

definition merge_tool_call_delta :: "tool_call_delta \<Rightarrow> tool_call_state list \<Rightarrow> tool_call_state list" where
  "merge_tool_call_delta d calls = (pad_tool_calls (td_index d) calls)[td_index d := apply_delta d (pad_tool_calls (td_index d) calls ! td_index d)]"

definition compact_tool_calls :: "tool_call_state list \<Rightarrow> message_tool_call list" where
  "compact_tool_calls calls = List.map_filter to_message_tool_call calls"

section \<open>Streamed fragments\<close>

text \<open>The text of the arguments a streamed delta carries.\<close>

definition fragment :: "tool_call_delta option \<Rightarrow> string" where
  "fragment d = (case d of Some d \<Rightarrow> default (td_arguments d) [] | None \<Rightarrow> [])"

definition same_call :: "tool_call_state \<Rightarrow> tool_call_state \<Rightarrow> bool" where
  "same_call s s' \<longleftrightarrow>
     ts_index s' = ts_index s \<and> ts_call_id s' = ts_call_id s \<and> ts_name s' = ts_name s \<and>
     ts_arguments s' = ts_arguments s \<and> ts_tool_type s' = ts_tool_type s"

lemma same_call_refl [simp]: "same_call s s"
  by (simp add: same_call_def)

lemma same_call_trans: "same_call s s' \<Longrightarrow> same_call s' s'' \<Longrightarrow> same_call s s''"
  by (simp add: same_call_def)

lemma same_call_message: "same_call s s' \<Longrightarrow> to_message_tool_call s' = to_message_tool_call s"
  by (auto simp: same_call_def to_message_tool_call_def Let_def)

lemma apply_delta_same: "same_call s s' \<Longrightarrow> same_call (apply_delta d s) (apply_delta d s')"
  by (auto simp: same_call_def apply_delta_def split: option.split)

lemma build_keeps_call: "build_stream_delta s = (d, s') \<Longrightarrow> same_call s s'"
  by (auto simp: build_stream_delta_def same_call_def Let_def split: if_splits)

lemma pending_appends:
  "pending_stream_arguments emitted current = Some frag \<Longrightarrow> current = emitted @ frag \<and> frag \<noteq> []"
  by (auto simp: pending_stream_arguments_def starts_with_def split: if_splits dest!: nonempty_strD)
     (metis append_take_drop_id)

lemma pending_None:
  "pending_stream_arguments emitted current = None \<longleftrightarrow> current = [] \<or> current = emitted \<or> take (length emitted) current \<noteq> emitted"
proof -
  have "drop (length emitted) current = [] \<Longrightarrow> take (length emitted) current = emitted \<Longrightarrow> current = emitted"
    by (metis append_take_drop_id append_Nil2)
  then show ?thesis by (auto simp: pending_stream_arguments_def starts_with_def nonempty_str_def split: list.splits)
qed

text \<open>What has been streamed grows by exactly the fragment that is sent.\<close>

lemma build_appends: "build_stream_delta s = (d, s') \<Longrightarrow> ts_emitted_arguments s' = ts_emitted_arguments s @ fragment d"
  by (cases "pending_stream_arguments (ts_emitted_arguments s) (ts_arguments s)")
     (auto simp: build_stream_delta_def fragment_def Let_def split: if_splits dest: pending_appends)

text \<open>Afterwards nothing is pending, unless the arguments were rewritten where they had been streamed already.\<close>

definition caught_up :: "tool_call_state \<Rightarrow> bool" where
  "caught_up s \<longleftrightarrow> pending_stream_arguments (ts_emitted_arguments s) (ts_arguments s) = None"

lemma pending_self [simp]: "pending_stream_arguments s s = None"
  by (simp add: pending_stream_arguments_def)

lemma pending_value_self [simp]: "pending_stream_value v v = None"
  by (simp add: pending_stream_value_def split: option.split)

lemma build_catches_up: "build_stream_delta s = (d, s') \<Longrightarrow> caught_up s'"
  by (auto simp: build_stream_delta_def caught_up_def Let_def split: if_splits)

lemma build_index: "build_stream_delta s = (Some d, s') \<Longrightarrow> td_index d = ts_index s"
  by (auto simp: build_stream_delta_def Let_def split: if_splits)

lemma build_idem: "build_stream_delta s = (d, s') \<Longrightarrow> build_stream_delta s' = (None, s')"
proof -
  have keep: "pending_stream_value (if pending_stream_value e v \<noteq> None then v else e) v = None" for e v by simp
  have keep_args: "pending_stream_arguments (if pending_stream_arguments e v \<noteq> None then v else e) v = None" for e v by simp
  assume "build_stream_delta s = (d, s')"
  then show ?thesis
    by (auto simp: build_stream_delta_def Let_def keep keep_args split: if_splits)
qed

section \<open>The slots of a stream\<close>

definition slots_numbered :: "tool_call_state list \<Rightarrow> bool" where
  "slots_numbered calls \<longleftrightarrow> map ts_index calls = [0..<length calls]"

lemma slots_numbered_iff: "slots_numbered calls \<longleftrightarrow> (\<forall>i<length calls. ts_index (calls ! i) = i)"
proof -
  have "map ts_index calls = [0..<length calls] \<longleftrightarrow> (\<forall>i<length calls. map ts_index calls ! i = [0..<length calls] ! i)"
    by (subst list_eq_iff_nth_eq) simp
  then show ?thesis by (simp add: slots_numbered_def)
qed

lemma slots_numbered_nth: "slots_numbered calls \<Longrightarrow> i < length calls \<Longrightarrow> ts_index (calls ! i) = i"
  by (simp add: slots_numbered_iff)

lemma length_pad [simp]: "length (pad_tool_calls i calls) = max (length calls) (Suc i)"
  by (simp add: pad_tool_calls_def)

lemma nth_pad: "j < length (pad_tool_calls i calls) \<Longrightarrow>
    pad_tool_calls i calls ! j = (if j < length calls then calls ! j else new_tool_call_state j)"
  by (auto simp: pad_tool_calls_def nth_append simp del: upt_Suc)

lemma apply_delta_index [simp]: "ts_index (apply_delta d s) = ts_index s"
  by (simp add: apply_delta_def)

lemma new_state_index [simp]: "ts_index (new_tool_call_state i) = i"
  by (simp add: new_tool_call_state_def)

lemma slots_numbered_pad: "slots_numbered calls \<Longrightarrow> slots_numbered (pad_tool_calls i calls)"
  unfolding slots_numbered_iff by (auto simp: nth_pad)

lemma slots_numbered_merge: "slots_numbered calls \<Longrightarrow> slots_numbered (merge_tool_call_delta d calls)"
  using slots_numbered_pad [of calls "td_index d"] unfolding slots_numbered_iff
  by (auto simp: merge_tool_call_delta_def nth_list_update)

lemma length_merge: "length (merge_tool_call_delta d calls) = max (length calls) (Suc (td_index d))"
  by (simp add: merge_tool_call_delta_def)

text \<open>The routing tables only grow, and every slot they name has been handed out.\<close>

definition index_ok :: "tool_call_index \<Rightarrow> bool" where
  "index_ok t \<longleftrightarrow> (\<forall>k i. ti_indexes t k = Some i \<longrightarrow> i < ti_next_index t) \<and> (\<forall>out i. ti_output_index_map t out = Some i \<longrightarrow> i < ti_next_index t)"

definition index_grows :: "tool_call_index \<Rightarrow> tool_call_index \<Rightarrow> bool" where
  "index_grows t t' \<longleftrightarrow>
     ti_indexes t \<subseteq>\<^sub>m ti_indexes t' \<and> ti_output_index_map t \<subseteq>\<^sub>m ti_output_index_map t' \<and> ti_next_index t \<le> ti_next_index t'"

lemma index_grows_refl [simp]: "index_grows t t"
  by (simp add: index_grows_def)

lemma index_grows_trans: "index_grows t t' \<Longrightarrow> index_grows t' t'' \<Longrightarrow> index_grows t t''"
  unfolding index_grows_def by (meson map_le_trans le_trans)

lemma map_le_fresh: "m k = None \<Longrightarrow> m \<subseteq>\<^sub>m m(k \<mapsto> v)"
  by (auto simp: map_le_def)

lemma register_key_grows: "index_grows t (register_key key i t)"
  by (auto simp: register_key_def index_grows_def map_le_fresh split: option.split)

lemma register_output_grows: "index_grows t (register_output_index out i t)"
  by (auto simp: register_output_index_def index_grows_def map_le_fresh split: option.split)

lemma register_alias_grows: "index_grows t (register_call_alias a i t)"
  by (simp add: register_call_alias_def register_key_grows)

lemma index_for_grows: "index_for c n t = (i, t') \<Longrightarrow> index_grows t t'"
  by (auto simp: index_for_def index_grows_def map_le_fresh split: option.splits)

lemma index_for_output_grows: "index_for_output_index out c n t = (i, t') \<Longrightarrow> index_grows t t'"
proof -
  assume eq: "index_for_output_index out c n t = (i, t')"
  show ?thesis
  proof (cases "Option.bind out (ti_output_index_map t)")
    case (Some idx)
    then show ?thesis using eq by (auto simp: index_for_output_index_def Let_def register_key_grows)
  next
    case None
    show ?thesis
    proof (cases "tool_call_key c n")
      case None': None
      show ?thesis
      proof (cases out)
        case (Some o')
        then have "ti_output_index_map t o' = None" using None by simp
        then show ?thesis
          using eq None None' Some by (auto simp: index_for_output_index_def Let_def index_grows_def map_le_fresh)
      qed (use eq None None' in \<open>auto simp: index_for_output_index_def\<close>)
    next
      case (Some k)
      obtain j u where "index_for c n t = (j, u)" by (cases "index_for c n t")
      then show ?thesis
        using eq None Some index_for_grows [of c n t j u] register_output_grows [of u out j] index_grows_trans
        unfolding index_for_output_index_def Let_def by (simp del: bind_eq_None_conv) blast
    qed
  qed
qed

lemma register_item_grows: "index_grows t (register_item_id_alias p i t)"
  unfolding register_item_id_alias_def Let_def
  by (auto split: option.split intro: index_grows_trans [OF _ register_output_grows] register_alias_grows)

lemma delta_from_payload_grows: "tool_call_delta_from_payload p t = (d, t') \<Longrightarrow> index_grows t t'"
  unfolding tool_call_delta_from_payload_def Let_def
  by (auto split: if_splits option.splits prod.splits intro: index_grows_trans [OF index_for_output_grows register_item_grows])

section \<open>Routing to slots\<close>

definition event_key :: "payload \<Rightarrow> string option" where
  "event_key p = Option.bind (extract_tool_call_fields p) (\<lambda>f. tool_call_key (routing_id p f) (tcf_name f))"

definition index_after :: "payload list \<Rightarrow> tool_call_index \<Rightarrow> tool_call_index" where
  "index_after ps t = fold (\<lambda>p t. snd (tool_call_delta_from_payload p t)) ps t"

lemma delta_from_payload_cases:
  assumes "tool_call_delta_from_payload p t = (d, t')"
  obtains "d = None" "t' = t"
  | f index u d' where "extract_tool_call_fields p = Some f" "d = Some d'" "td_index d' = index"
      "index_for_output_index (resolve_output_index p) (routing_id p f) (tcf_name f) t = (index, u)"
      "t' = register_item_id_alias p index u"
proof (cases "is_tool_call_event p \<and> extract_tool_call_fields p \<noteq> None")
  case False
  then have "tool_call_delta_from_payload p t = (None, t)" by (auto simp: tool_call_delta_from_payload_def)
  then show thesis using assms that(1) by simp
next
  case True
  then obtain f where f: "is_tool_call_event p" "extract_tool_call_fields p = Some f" by blast
  obtain index u where "index_for_output_index (resolve_output_index p) (routing_id p f) (tcf_name f) t = (index, u)"
    by (cases "index_for_output_index (resolve_output_index p) (routing_id p f) (tcf_name f) t")
  then show thesis using assms f that(2) by (auto simp: tool_call_delta_from_payload_def Let_def)
qed

lemma index_after_grows: "index_grows t (index_after ps t)"
proof (induction ps arbitrary: t)
  case (Cons p ps)
  have "index_grows t (snd (tool_call_delta_from_payload p t))" by (rule delta_from_payload_grows) (rule surjective_pairing)
  then show ?case using Cons index_grows_trans by (fastforce simp: index_after_def)
qed (simp add: index_after_def)

lemma index_for_spec:
  "tool_call_key c n = Some k \<Longrightarrow> index_for c n t = (i, t') \<Longrightarrow>
     i = (case ti_indexes t k of Some j \<Rightarrow> j | None \<Rightarrow> ti_next_index t) \<and> ti_indexes t' k = Some i \<and> ti_output_index_map t' = ti_output_index_map t"
  by (cases "ti_indexes t k") (auto simp: index_for_def)

text \<open>The slot of an event, and the entries it leaves behind.\<close>

lemma index_for_output_spec:
  assumes "index_for_output_index out c n t = (i, t')"
  shows "i = (case Option.bind out (ti_output_index_map t) of
        Some j \<Rightarrow> j
      | None \<Rightarrow> (case tool_call_key c n of
           Some k \<Rightarrow> (case ti_indexes t k of Some j \<Rightarrow> j | None \<Rightarrow> ti_next_index t)
         | None \<Rightarrow> if out = None then 0 else ti_next_index t))"
    and "out = Some z \<Longrightarrow> ti_output_index_map t' z = Some i"
    and "out = None \<Longrightarrow> tool_call_key c n = Some k \<Longrightarrow> ti_indexes t' k = Some i"
proof -
  have "(i = (case Option.bind out (ti_output_index_map t) of
        Some j \<Rightarrow> j
      | None \<Rightarrow> (case tool_call_key c n of
           Some k \<Rightarrow> (case ti_indexes t k of Some j \<Rightarrow> j | None \<Rightarrow> ti_next_index t)
         | None \<Rightarrow> if out = None then 0 else ti_next_index t))) \<and>
    (\<forall>z. out = Some z \<longrightarrow> ti_output_index_map t' z = Some i) \<and>
    (\<forall>k. out = None \<longrightarrow> tool_call_key c n = Some k \<longrightarrow> ti_indexes t' k = Some i)"
  proof (cases "Option.bind out (ti_output_index_map t)")
    case (Some j)
    then obtain z where "out = Some z" "ti_output_index_map t z = Some j" by (cases out) auto
    then show ?thesis using assms by (auto simp: index_for_output_index_def register_key_def Let_def split: option.split)
  next
    case None
    show ?thesis
    proof (cases "tool_call_key c n")
      case None': None
      then show ?thesis using assms None by (cases out) (auto simp: index_for_output_index_def Let_def)
    next
      case (Some k)
      obtain j u where index: "index_for c n t = (j, u)" by (cases "index_for c n t")
      then have eq: "i = j" "t' = register_output_index out j u"
        using assms None Some by (cases out; simp add: index_for_output_index_def Let_def)+
      have "ti_output_index_map u = ti_output_index_map t" "ti_indexes u k = Some j"
        "j = (case ti_indexes t k of Some j \<Rightarrow> j | None \<Rightarrow> ti_next_index t)"
        using index_for_spec [OF Some index] by simp_all
      then show ?thesis using None Some eq by (cases out) (auto simp: register_output_index_def)
    qed
  qed
  then show "i = (case Option.bind out (ti_output_index_map t) of
        Some j \<Rightarrow> j
      | None \<Rightarrow> (case tool_call_key c n of
           Some k \<Rightarrow> (case ti_indexes t k of Some j \<Rightarrow> j | None \<Rightarrow> ti_next_index t)
         | None \<Rightarrow> if out = None then 0 else ti_next_index t))"
    and "out = Some z \<Longrightarrow> ti_output_index_map t' z = Some i"
    and "out = None \<Longrightarrow> tool_call_key c n = Some k \<Longrightarrow> ti_indexes t' k = Some i"
    by blast+
qed

lemma grows_lookup:
  "index_grows t t' \<Longrightarrow> ti_indexes t k = Some i \<Longrightarrow> ti_indexes t' k = Some i"
  "index_grows t t' \<Longrightarrow> ti_output_index_map t z = Some i \<Longrightarrow> ti_output_index_map t' z = Some i"
  unfolding index_grows_def map_le_def by (metis domI)+

lemma index_for_output_ok:
  assumes "index_ok t" and "index_for_output_index out c n t = (i, t')"
  shows "index_ok t'" "out \<noteq> None \<or> tool_call_key c n \<noteq> None \<Longrightarrow> i < ti_next_index t'"
proof -
  have "index_ok t' \<and> (out \<noteq> None \<or> tool_call_key c n \<noteq> None \<longrightarrow> i < ti_next_index t')"
  proof (cases "Option.bind out (ti_output_index_map t)")
    case (Some j)
    then have "j < ti_next_index t" using assms(1) by (cases out) (auto simp: index_ok_def)
    then show ?thesis using assms Some
      by (auto simp: index_for_output_index_def register_key_def index_ok_def Let_def split: option.split if_splits)
  next
    case None
    then show ?thesis
      using assms
      by (cases out; cases "tool_call_key c n")
         (auto simp: index_for_output_index_def index_for_def register_output_index_def index_ok_def Let_def less_Suc_eq split: option.splits if_splits)
  qed
  then show "index_ok t'" "out \<noteq> None \<or> tool_call_key c n \<noteq> None \<Longrightarrow> i < ti_next_index t'" by blast+
qed

lemma register_item_ok:
  assumes "index_ok t" and "i < ti_next_index t \<or> (resolve_output_index p = None \<and>
    (case json_obj (map_of p ''item'') of None \<Rightarrow> True | Some item \<Rightarrow> nonempty_str (json_str (map_of item ''id'')) = None))"
  shows "index_ok (register_item_id_alias p i t)" "ti_next_index (register_item_id_alias p i t) = ti_next_index t"
  using assms
  by (auto simp: register_item_id_alias_def register_call_alias_def register_key_def register_output_index_def index_ok_def Let_def
      split: option.splits if_splits)

lemma first_str_None: "first_str vs = None \<longleftrightarrow> (\<forall>v\<in>set vs. nonempty_str (json_str v) = None)"
  by (induction vs) (auto simp: first_str_def List.map_filter_simps split: option.splits)

lemma no_key_no_item_id:
  assumes "tool_call_key (routing_id p f) n = None" and "extract_tool_call_fields p = Some f"
  shows "case json_obj (map_of p ''item'') of None \<Rightarrow> True | Some item \<Rightarrow> nonempty_str (json_str (map_of item ''id'')) = None"
proof -
  have some: "first_str vs \<noteq> Some []" for vs
    by (induction vs) (auto simp: first_str_def List.map_filter_simps split: option.splits list.splits dest: nonempty_strD)
  have "nonempty_str (routing_id p f) = None" using assms(1) by (auto simp: tool_call_key_def split: option.splits)
  moreover have "routing_id p f = Some s \<Longrightarrow> s \<noteq> []" for s
    using assms(2) some
    by (auto simp: routing_id_def extract_tool_call_fields_def candidate_call_id_def first_some_def Let_def
        split: option.splits if_splits)
  ultimately have "routing_id p f = None" by (cases "routing_id p f") auto
  then have "first_str [map_of p ''item_id'', obj_get (json_obj (map_of p ''item'')) ''id''] = None"
    by (simp add: routing_id_def split: option.splits)
  then show ?thesis by (cases "json_obj (map_of p ''item'')") (simp_all add: first_str_None obj_get_def)
qed

lemma delta_from_payload_ok:
  assumes "index_ok t" and "tool_call_delta_from_payload p t = (d, t')"
  shows "index_ok t'" "d = Some d' \<Longrightarrow> resolve_output_index p \<noteq> None \<or> event_key p \<noteq> None \<Longrightarrow> td_index d' < ti_next_index t'"
proof -
  have "index_ok t' \<and> (\<forall>d'. d = Some d' \<longrightarrow> resolve_output_index p \<noteq> None \<or> event_key p \<noteq> None \<longrightarrow> td_index d' < ti_next_index t')"
    using assms(2)
  proof (cases rule: delta_from_payload_cases)
    case 1
    then show ?thesis using assms(1) by simp
  next
    case (2 f index u d')
    have key: "event_key p = tool_call_key (routing_id p f) (tcf_name f)" using 2(1) by (simp add: event_key_def)
    have ok: "index_ok u" "resolve_output_index p \<noteq> None \<or> event_key p \<noteq> None \<Longrightarrow> index < ti_next_index u"
      using index_for_output_ok [OF assms(1) 2(4)] key by simp_all
    then have "index < ti_next_index u \<or> (resolve_output_index p = None \<and>
      (case json_obj (map_of p ''item'') of None \<Rightarrow> True | Some item \<Rightarrow> nonempty_str (json_str (map_of item ''id'')) = None))"
      using no_key_no_item_id [OF _ 2(1)] key by metis
    then show ?thesis using register_item_ok [OF ok(1)] ok(2) 2 by auto
  qed
  then show "index_ok t'" "d = Some d' \<Longrightarrow> resolve_output_index p \<noteq> None \<or> event_key p \<noteq> None \<Longrightarrow> td_index d' < ti_next_index t'"
    by blast+
qed

lemma index_after_ok: "index_ok t \<Longrightarrow> index_ok (index_after ps t)"
proof (induction ps arbitrary: t)
  case (Cons p ps)
  then show ?case
    using delta_from_payload_ok(1) [OF Cons.prems, of p] by (cases "tool_call_delta_from_payload p t") (auto simp: index_after_def)
qed (simp add: index_after_def)

lemma new_index_ok: "index_ok new_tool_call_index"
  by (simp add: index_ok_def new_tool_call_index_def)

text \<open>Two events name the same call, and an event names a call that has not been seen.\<close>

definition same_route :: "payload \<Rightarrow> payload \<Rightarrow> bool" where
  "same_route p q \<longleftrightarrow>
     (case (resolve_output_index p, resolve_output_index q) of
        (Some z, Some z') \<Rightarrow> z = z'
      | (None, None) \<Rightarrow> event_key p \<noteq> None \<and> event_key p = event_key q
      | _ \<Rightarrow> False)"

definition unseen :: "payload \<Rightarrow> tool_call_index \<Rightarrow> bool" where
  "unseen q t \<longleftrightarrow>
     (resolve_output_index q \<noteq> None \<or> event_key q \<noteq> None) \<and> Option.bind (resolve_output_index q) (ti_output_index_map t) = None \<and>
     Option.bind (event_key q) (ti_indexes t) = None"

lemma unseen_fresh:
  assumes "unseen q t" and "tool_call_delta_from_payload q t = (Some e, t')"
  shows "td_index e = ti_next_index t"
  using assms(2)
proof (cases rule: delta_from_payload_cases)
  case (2 f index u d')
  have key: "event_key q = tool_call_key (routing_id q f) (tcf_name f)" using 2(1) by (simp add: event_key_def)
  show ?thesis
    using index_for_output_spec(1) [OF 2(4)] assms(1) 2(2,3) unfolding unseen_def key
    by (cases "tool_call_key (routing_id q f) (tcf_name f)"; cases "resolve_output_index q") auto
qed simp

lemma same_route_slot:
  assumes "same_route p q" and "tool_call_delta_from_payload p t = (Some d, t1)" and "index_grows t1 t2"
    and "tool_call_delta_from_payload q t2 = (Some e, t3)"
  shows "td_index e = td_index d"
  using assms(2)
proof (cases rule: delta_from_payload_cases)
  case p: (2 f index u d')
  show ?thesis
    using assms(4)
  proof (cases rule: delta_from_payload_cases)
    case q: (2 g index' u' e')
    have grow: "index_grows u t2" using p(5) register_item_grows assms(3) index_grows_trans by blast
    note slot = index_for_output_spec(1) [OF q(4)]
    show ?thesis
    proof (cases "resolve_output_index p")
      case None
      then have none: "resolve_output_index q = None" and keys: "event_key p \<noteq> None" "event_key p = event_key q"
        using assms(1) by (cases "resolve_output_index q"; simp add: same_route_def)+
      then obtain k where k: "tool_call_key (routing_id p f) (tcf_name f) = Some k" "tool_call_key (routing_id q g) (tcf_name g) = Some k"
        using p(1) q(1) by (auto simp: event_key_def)
      have "ti_indexes t2 k = Some index"
        using grows_lookup(1) [OF grow] index_for_output_spec(3) [OF p(4) None k(1)] by blast
      then show ?thesis using slot none k(2) p(2,3) q(2,3) by simp
    next
      case (Some z)
      then have z: "resolve_output_index q = Some z" using assms(1) by (auto simp: same_route_def split: option.splits)
      have "ti_output_index_map t2 z = Some index"
        using grows_lookup(2) [OF grow] index_for_output_spec(2) [OF p(4) Some] by blast
      then show ?thesis using slot z p(2,3) q(2,3) by simp
    qed
  qed simp
qed simp

text \<open>
  C39: The events of a tool call meet in one slot and two calls do not share one. Let an event that names an output index or an
  identifier be routed after any events of the stream, and another after any further ones. When both carry the same output
  index, or both carry none and the same identifier, they have the same slot; when the later event names an output index or
  an identifier and none that has been seen before, it gets a slot that differs from the earlier event's.
\<close>

theorem tool_call_slots:
  assumes "tool_call_delta_from_payload p (index_after ps new_tool_call_index) = (Some d, t1)"
    and "tool_call_delta_from_payload q (index_after qs t1) = (Some e, t2)"
    and "resolve_output_index p \<noteq> None \<or> event_key p \<noteq> None"
  shows "(same_route p q \<longrightarrow> td_index e = td_index d) \<and> (unseen q (index_after qs t1) \<longrightarrow> td_index e \<noteq> td_index d)"
proof -
  have grow: "index_grows t1 (index_after qs t1)" by (rule index_after_grows)
  have "index_ok (index_after ps new_tool_call_index)" using new_index_ok by (rule index_after_ok)
  then have "td_index d < ti_next_index t1" using delta_from_payload_ok(2) [OF _ assms(1)] assms(3) by blast
  then have "td_index d < ti_next_index (index_after qs t1)" using grow by (simp add: index_grows_def)
  then show ?thesis using same_route_slot [OF _ assms(1) grow assms(2)] unseen_fresh [OF _ assms(2)] by auto
qed

definition call_event :: "string \<Rightarrow> int \<Rightarrow> payload" where
  "call_event call_id out =
     [(''type'', JStr ''response.output_item.added''), (''output_index'', JInt out),
      (''item'', JObj [(''type'', JStr ''function_call''), (''id'', JStr (''fc_'' @ call_id)), (''call_id'', JStr call_id),
                       (''name'', JStr ''f''), (''arguments'', JStr [])])]"

theorem tool_call_slots_witness:
  "\<exists>d t1 e t2. tool_call_delta_from_payload (call_event ''a'' 1) (index_after [] new_tool_call_index) = (Some d, t1) \<and>
     tool_call_delta_from_payload (call_event ''b'' 2) (index_after [] t1) = (Some e, t2) \<and> td_index e \<noteq> td_index d"
proof -
  have some: "fst (tool_call_delta_from_payload (call_event ''a'' 1) (index_after [] new_tool_call_index)) \<noteq> None"
    "fst (tool_call_delta_from_payload (call_event ''b'' 2)
       (index_after [] (snd (tool_call_delta_from_payload (call_event ''a'' 1) (index_after [] new_tool_call_index))))) \<noteq> None"
    by code_simp+
  have seen: "unseen (call_event ''b'' 2)
      (index_after [] (snd (tool_call_delta_from_payload (call_event ''a'' 1) (index_after [] new_tool_call_index))))"
    "resolve_output_index (call_event ''a'' 1) \<noteq> None \<or> event_key (call_event ''a'' 1) \<noteq> None"
    by code_simp+
  obtain d t1 where d: "tool_call_delta_from_payload (call_event ''a'' 1) (index_after [] new_tool_call_index) = (Some d, t1)"
    using some(1) by (metis not_Some_eq prod.collapse)
  obtain e t2 where e: "tool_call_delta_from_payload (call_event ''b'' 2) (index_after [] t1) = (Some e, t2)"
    using some(2) d by (metis not_Some_eq prod.collapse snd_conv)
  show ?thesis using tool_call_slots [OF d e seen(2)] seen(1) d e by auto
qed

end
