(* ===== verification/Chat_Stream.thy ===== *)
theory Chat_Stream
  imports Tool_Calls
begin

text \<open>
  The chat completions adapter (\<open>app/core/openai/chat_responses.py\<close>): the translation of upstream response events into
  chat chunks (\<open>iter_chat_chunks\<close>, \<open>stream_chat_chunks\<close>) and into one completion (\<open>collect_chat_completion\<close>).
  Chunks are values; \<open>dump_chat_event\<close> is their text on the wire. The pydantic validations of usage and error objects
  and the parser of floats are arguments.
\<close>

section \<open>Chunks\<close>

record chat_usage =
  cu_prompt_tokens :: "int option"
  cu_completion_tokens :: "int option"
  cu_total_tokens :: "int option"
  cu_cached_tokens :: "int option"
  cu_reasoning_tokens :: "int option"

record response_usage =
  ru_input_tokens :: "int option"
  ru_output_tokens :: "int option"
  ru_total_tokens :: "int option"
  ru_input_details :: "int option option"
  ru_output_details :: "int option option"

text \<open>\<open>ru_input_details\<close> is the \<open>cached_tokens\<close> of the details when there are any, \<open>ru_output_details\<close> the \<open>reasoning_tokens\<close>.\<close>

definition map_usage :: "response_usage option \<Rightarrow> chat_usage option" where
  "map_usage usage =
     (case usage of
        None \<Rightarrow> None
      | Some u \<Rightarrow>
          if ru_input_tokens u = None \<and> ru_output_tokens u = None \<and> ru_total_tokens u = None then None
          else Some \<lparr>cu_prompt_tokens = ru_input_tokens u, cu_completion_tokens = ru_output_tokens u,
                     cu_total_tokens = ru_total_tokens u, cu_cached_tokens = Option.bind (ru_input_details u) (\<lambda>x. x),
                     cu_reasoning_tokens = Option.bind (ru_output_details u) (\<lambda>x. x)\<rparr>)"

record chat_chunk_delta =
  cd_role :: "string option"
  cd_content :: "string option"
  cd_refusal :: "string option"
  cd_tool_calls :: "chat_tool_call list option"

definition empty_delta :: chat_chunk_delta where
  "empty_delta = \<lparr>cd_role = None, cd_content = None, cd_refusal = None, cd_tool_calls = None\<rparr>"

record chat_chunk_choice =
  ch_delta :: chat_chunk_delta
  ch_finish_reason :: "string option"

record chat_chunk =
  ck_created :: int
  ck_model :: string
  ck_choices :: "chat_chunk_choice list"
  ck_usage :: "chat_usage option"

datatype chat_event = ChunkEvent chat_chunk | ErrorEvent payload | DoneEvent

record chat_config =
  cc_model :: string
  cc_created :: int
  cc_include_usage :: bool
  cc_validate_usage :: "payload \<Rightarrow> response_usage option"
  cc_validate_error :: "payload \<Rightarrow> payload option"
  cc_float :: "string \<Rightarrow> real option"

definition delta_event :: "chat_config \<Rightarrow> chat_chunk_delta \<Rightarrow> string option \<Rightarrow> chat_event" where
  "delta_event cfg delta finish =
     ChunkEvent \<lparr>ck_created = cc_created cfg, ck_model = cc_model cfg,
        ck_choices = [\<lparr>ch_delta = delta, ch_finish_reason = finish\<rparr>], ck_usage = None\<rparr>"

section \<open>Helpers of the events\<close>

definition event_is :: "payload \<Rightarrow> string \<Rightarrow> bool" where
  "event_is p t \<longleftrightarrow> map_of p ''type'' = Some (JStr t)"

definition finish_reason_from_incomplete :: "json option \<Rightarrow> string" where
  "finish_reason_from_incomplete response =
     (case obj_get (json_obj (obj_get (json_obj response) ''incomplete_details'')) ''reason'' of
        Some (JStr reason) \<Rightarrow>
          if reason \<in> set [''max_output_tokens'', ''max_tokens''] then ''length''
          else if reason = ''content_filter'' then ''content_filter'' else ''stop''
      | _ \<Rightarrow> ''stop'')"

definition parse_usage :: "chat_config \<Rightarrow> json option \<Rightarrow> response_usage option" where
  "parse_usage cfg v = Option.bind (json_obj v) (cc_validate_usage cfg)"

text \<open>The error object of a failure event, when it is an object.\<close>

definition event_error :: "payload \<Rightarrow> payload option" where
  "event_error p =
     (if event_is p ''response.failed'' then json_obj (obj_get (json_obj (map_of p ''response'')) ''error'')
      else json_obj (map_of p ''error''))"

definition coerce_number :: "chat_config \<Rightarrow> json option \<Rightarrow> json option" where
  "coerce_number cfg v =
     (case v of
        Some (JInt n) \<Rightarrow> Some (JInt n)
      | Some (JBool b) \<Rightarrow> Some (JBool b)
      | Some (JFloat r) \<Rightarrow> Some (JFloat r)
      | Some (JStr s) \<Rightarrow> map_option JFloat (cc_float cfg (py_strip s))
      | _ \<Rightarrow> None)"

definition normalize_error_payload :: "chat_config \<Rightarrow> payload \<Rightarrow> payload" where
  "normalize_error_payload cfg p =
     List.map_filter (\<lambda>k. map_option (\<lambda>s. (k, JStr s)) (json_str (map_of p k)))
       [''message'', ''type'', ''code'', ''param'', ''plan_type''] @
     List.map_filter (\<lambda>k. map_option (\<lambda>n. (k, n)) (coerce_number cfg (map_of p k))) [''resets_at'', ''resets_in_seconds'']"

definition default_error_envelope :: payload where
  "default_error_envelope =
     [(''message'', JStr ''Upstream error''), (''type'', JStr ''server_error''), (''code'', JStr ''upstream_error'')]"

definition error_envelope_from_payload :: "chat_config \<Rightarrow> payload \<Rightarrow> payload" where
  "error_envelope_from_payload cfg p =
     (let normalized = normalize_error_payload cfg p in
      if normalized = [] then default_error_envelope
      else case cc_validate_error cfg normalized of None \<Rightarrow> default_error_envelope | Some e \<Rightarrow> e)"

section \<open>Streaming\<close>

record chat_chunk_state =
  st_tool_index :: tool_call_index
  st_tool_calls :: "tool_call_state list"
  st_saw_tool_call :: bool
  st_sent_role :: bool

definition new_chat_state :: chat_chunk_state where
  "new_chat_state =
     \<lparr>st_tool_index = new_tool_call_index, st_tool_calls = [], st_saw_tool_call = False, st_sent_role = False\<rparr>"

definition next_role :: "chat_chunk_state \<Rightarrow> string option" where
  "next_role st = (if st_sent_role st then None else Some ''assistant'')"

definition text_step :: "chat_config \<Rightarrow> payload \<Rightarrow> chat_chunk_state \<Rightarrow> chat_event list \<times> chat_chunk_state" where
  "text_step cfg p st =
     (let text = json_str (map_of p ''delta'') in
      if event_is p ''response.refusal.delta''
      then ([delta_event cfg (empty_delta\<lparr>cd_role := next_role st, cd_refusal := text\<rparr>) None], st\<lparr>st_sent_role := True\<rparr>)
      else if event_is p ''response.output_text.delta''
      then ([delta_event cfg (empty_delta\<lparr>cd_role := next_role st, cd_content := text\<rparr>) None], st\<lparr>st_sent_role := True\<rparr>)
      else ([], st))"

text \<open>What is pending in a slot is sent, if anything is; both the tool events and the completion do this.\<close>

definition flush_slot :: "chat_config \<Rightarrow> nat \<Rightarrow> chat_chunk_state \<Rightarrow> chat_event list \<times> chat_chunk_state" where
  "flush_slot cfg i st =
     (case build_stream_delta (st_tool_calls st ! i) of
        (None, s) \<Rightarrow> ([], st\<lparr>st_tool_calls := (st_tool_calls st)[i := s]\<rparr>)
      | (Some d, s) \<Rightarrow>
          ([delta_event cfg (empty_delta\<lparr>cd_role := next_role st, cd_tool_calls := Some [to_chunk_call d]\<rparr>) None],
           st\<lparr>st_tool_calls := (st_tool_calls st)[i := s], st_saw_tool_call := True, st_sent_role := True\<rparr>))"

definition tool_step :: "chat_config \<Rightarrow> payload \<Rightarrow> chat_chunk_state \<Rightarrow> chat_event list \<times> chat_chunk_state" where
  "tool_step cfg p st =
     (case tool_call_delta_from_payload p (st_tool_index st) of
        (None, t) \<Rightarrow> ([], st\<lparr>st_tool_index := t\<rparr>)
      | (Some d, t) \<Rightarrow>
          flush_slot cfg (td_index d)
            (st\<lparr>st_tool_index := t, st_tool_calls := merge_tool_call_delta d (st_tool_calls st)\<rparr>))"

fun flush_slots :: "chat_config \<Rightarrow> nat list \<Rightarrow> chat_chunk_state \<Rightarrow> chat_event list \<times> chat_chunk_state" where
  "flush_slots cfg [] st = ([], st)"
| "flush_slots cfg (i # is) st =
     (let (es, st) = flush_slot cfg i st; (es', st) = flush_slots cfg is st in (es @ es', st))"

definition is_failure :: "payload \<Rightarrow> bool" where
  "is_failure p \<longleftrightarrow> event_is p ''response.failed'' \<or> event_is p ''error''"

definition is_completion :: "payload \<Rightarrow> bool" where
  "is_completion p \<longleftrightarrow> event_is p ''response.completed'' \<or> event_is p ''response.incomplete''"

definition stream_finish_reason :: "payload \<Rightarrow> chat_chunk_state \<Rightarrow> string" where
  "stream_finish_reason p st =
     (if st_saw_tool_call st then ''tool_calls''
      else if event_is p ''response.incomplete'' then finish_reason_from_incomplete (map_of p ''response'') else ''stop'')"

definition completion_step :: "chat_config \<Rightarrow> payload \<Rightarrow> chat_chunk_state \<Rightarrow> chat_event list \<times> chat_chunk_state" where
  "completion_step cfg p st =
     (let (es, st) = flush_slots cfg [0..<length (st_tool_calls st)] st;
          usage = (if cc_include_usage cfg
                   then map_usage (parse_usage cfg (obj_get (json_obj (map_of p ''response'')) ''usage'')) else None)
      in (es @ [delta_event cfg empty_delta (Some (stream_finish_reason p st))] @
          (if cc_include_usage cfg
           then [ChunkEvent \<lparr>ck_created = cc_created cfg, ck_model = cc_model cfg, ck_choices = [], ck_usage = usage\<rparr>] else []) @
          [DoneEvent], st))"

text \<open>The generator for one line; a line without a payload is skipped.\<close>

definition chat_step :: "chat_config \<Rightarrow> payload option \<Rightarrow> chat_chunk_state \<Rightarrow> chat_event list \<times> chat_chunk_state" where
  "chat_step cfg line st =
     (case line of
        None \<Rightarrow> ([], st)
      | Some p \<Rightarrow>
          if p = [] then ([], st)
          else let (text_events, st) = text_step cfg p st;
                   (tool_events, st) = tool_step cfg p st
               in if is_failure p
                  then (case event_error p of
                          Some e \<Rightarrow> (text_events @ tool_events @ [ErrorEvent e, DoneEvent], st)
                        | None \<Rightarrow> (text_events @ tool_events, st))
                  else if is_completion p
                  then let (es, st) = completion_step cfg p st in (text_events @ tool_events @ es, st)
                  else (text_events @ tool_events, st))"

text \<open>\<open>iter_chat_chunks\<close> returns after the terminal event; \<open>stream_chat_chunks\<close> calls it line by line and stops likewise.\<close>

fun stream_chat_chunks :: "chat_config \<Rightarrow> payload option list \<Rightarrow> chat_chunk_state \<Rightarrow> chat_event list \<times> chat_chunk_state" where
  "stream_chat_chunks cfg [] st = ([], st)"
| "stream_chat_chunks cfg (line # lines) st =
     (let (es, st) = chat_step cfg line st in
      if DoneEvent \<in> set es then (es, st)
      else let (es', st) = stream_chat_chunks cfg lines st in (es @ es', st))"

section \<open>Collecting\<close>

record chat_message =
  cm_content :: "string option"
  cm_refusal :: "string option"
  cm_tool_calls :: "message_tool_call list option"

record chat_completion =
  co_id :: string
  co_created :: int
  co_model :: string
  co_message :: chat_message
  co_finish_reason :: string
  co_usage :: "chat_usage option"

datatype chat_result = Completion chat_completion | ErrorEnvelope payload

record collect_state =
  cs_content :: string
  cs_refusal :: string
  cs_response_id :: "string option"
  cs_usage :: "response_usage option"
  cs_incomplete_reason :: "string option"
  cs_tool_index :: tool_call_index
  cs_tool_calls :: "tool_call_state list"

definition new_collect_state :: collect_state where
  "new_collect_state =
     \<lparr>cs_content = [], cs_refusal = [], cs_response_id = None, cs_usage = None, cs_incomplete_reason = None,
      cs_tool_index = new_tool_call_index, cs_tool_calls = []\<rparr>"

definition collect_text :: "payload \<Rightarrow> collect_state \<Rightarrow> collect_state" where
  "collect_text p c =
     (let text = (case json_str (map_of p ''delta'') of Some s \<Rightarrow> s | None \<Rightarrow> []) in
      if event_is p ''response.output_text.delta'' then c\<lparr>cs_content := cs_content c @ text\<rparr>
      else if event_is p ''response.refusal.delta'' then c\<lparr>cs_refusal := cs_refusal c @ text\<rparr>
      else c)"

definition collect_tool :: "payload \<Rightarrow> collect_state \<Rightarrow> collect_state" where
  "collect_tool p c =
     (case tool_call_delta_from_payload p (cs_tool_index c) of
        (None, t) \<Rightarrow> c\<lparr>cs_tool_index := t\<rparr>
      | (Some d, t) \<Rightarrow> c\<lparr>cs_tool_index := t, cs_tool_calls := merge_tool_call_delta d (cs_tool_calls c)\<rparr>)"

definition collect_terminal :: "chat_config \<Rightarrow> payload \<Rightarrow> collect_state \<Rightarrow> collect_state" where
  "collect_terminal cfg p c =
     (case json_obj (map_of p ''response'') of
        None \<Rightarrow> c
      | Some r \<Rightarrow>
          c\<lparr>cs_response_id := (case json_str (map_of r ''id'') of Some i \<Rightarrow> Some i | None \<Rightarrow> cs_response_id c),
            cs_usage := parse_usage cfg (map_of r ''usage''),
            cs_incomplete_reason :=
              (if event_is p ''response.incomplete'' then Some (finish_reason_from_incomplete (Some (JObj r)))
               else cs_incomplete_reason c)\<rparr>)"

definition collect_result :: "chat_config \<Rightarrow> collect_state \<Rightarrow> chat_result" where
  "collect_result cfg c =
     (let refusal = nonempty_str (Some (cs_refusal c));
          calls = compact_tool_calls (cs_tool_calls c);
          finish = (if calls \<noteq> [] then ''tool_calls''
                    else case nonempty_str (cs_incomplete_reason c) of Some r \<Rightarrow> r | None \<Rightarrow> ''stop'');
          content = (if (calls \<noteq> [] \<or> refusal \<noteq> None) \<and> cs_content c = [] then None else Some (cs_content c))
      in Completion
           \<lparr>co_id = (case nonempty_str (cs_response_id c) of Some i \<Rightarrow> i | None \<Rightarrow> ''chatcmpl_temp''),
            co_created = cc_created cfg, co_model = cc_model cfg,
            co_message = \<lparr>cm_content = content, cm_refusal = refusal, cm_tool_calls = (if calls = [] then None else Some calls)\<rparr>,
            co_finish_reason = finish, co_usage = map_usage (cs_usage c)\<rparr>)"

fun collect_chat_completion :: "chat_config \<Rightarrow> payload option list \<Rightarrow> collect_state \<Rightarrow> chat_result" where
  "collect_chat_completion cfg [] c = collect_result cfg c"
| "collect_chat_completion cfg (None # lines) c = collect_chat_completion cfg lines c"
| "collect_chat_completion cfg (Some p # lines) c =
     (if p = [] then collect_chat_completion cfg lines c
      else let c = collect_tool p (collect_text p c) in
           if is_failure p
           then ErrorEnvelope (case event_error p of Some e \<Rightarrow> error_envelope_from_payload cfg e | None \<Rightarrow> default_error_envelope)
           else if is_completion p then collect_chat_completion cfg lines (collect_terminal cfg p c)
           else collect_chat_completion cfg lines c)"

section \<open>The wire\<close>

text \<open>\<open>model_dump(mode="json", exclude_none=True)\<close> of a chunk, and its frame.\<close>

definition opt_field :: "string \<Rightarrow> json option \<Rightarrow> payload" where
  "opt_field key v = (case v of None \<Rightarrow> [] | Some j \<Rightarrow> [(key, j)])"

definition dump_function :: "tool_call_function \<Rightarrow> json" where
  "dump_function f = JObj (opt_field ''name'' (map_option JStr (fn_name f)) @ opt_field ''arguments'' (map_option JStr (fn_arguments f)))"

definition dump_tool_call :: "chat_tool_call \<Rightarrow> json" where
  "dump_tool_call c =
     JObj ([(''index'', JInt (int (ctc_index c)))] @ opt_field ''id'' (map_option JStr (ctc_id c)) @
       [(''type'', JStr (ctc_type c))] @ opt_field ''function'' (map_option dump_function (ctc_function c)))"

definition dump_delta :: "chat_chunk_delta \<Rightarrow> json" where
  "dump_delta d =
     JObj (opt_field ''role'' (map_option JStr (cd_role d)) @ opt_field ''content'' (map_option JStr (cd_content d)) @
       opt_field ''refusal'' (map_option JStr (cd_refusal d)) @
       opt_field ''tool_calls'' (map_option (\<lambda>cs. JArr (map dump_tool_call cs)) (cd_tool_calls d)))"

definition dump_choice :: "chat_chunk_choice \<Rightarrow> json" where
  "dump_choice c =
     JObj ([(''index'', JInt 0), (''delta'', dump_delta (ch_delta c))] @
       opt_field ''finish_reason'' (map_option JStr (ch_finish_reason c)))"

definition dump_usage :: "chat_usage \<Rightarrow> json" where
  "dump_usage u =
     JObj (opt_field ''prompt_tokens'' (map_option JInt (cu_prompt_tokens u)) @
       opt_field ''completion_tokens'' (map_option JInt (cu_completion_tokens u)) @
       opt_field ''total_tokens'' (map_option JInt (cu_total_tokens u)) @
       opt_field ''prompt_tokens_details'' (map_option (\<lambda>n. JObj [(''cached_tokens'', JInt n)]) (cu_cached_tokens u)) @
       opt_field ''completion_tokens_details'' (map_option (\<lambda>n. JObj [(''reasoning_tokens'', JInt n)]) (cu_reasoning_tokens u)))"

definition dump_chunk :: "chat_config \<Rightarrow> chat_chunk \<Rightarrow> payload" where
  "dump_chunk cfg c =
     [(''id'', JStr ''chatcmpl_temp''), (''object'', JStr ''chat.completion.chunk''), (''created'', JInt (ck_created c)),
      (''model'', JStr (ck_model c)), (''choices'', JArr (map dump_choice (ck_choices c)))] @
     (case ck_usage c of
        Some u \<Rightarrow> [(''usage'', dump_usage u)] | None \<Rightarrow> if cc_include_usage cfg then [(''usage'', JNull)] else [])"

definition done_frame :: string where
  "done_frame = ''data: [DONE]'' @ newline @ newline"

definition dump_chat_event :: "(real \<Rightarrow> string) \<Rightarrow> chat_config \<Rightarrow> chat_event \<Rightarrow> string" where
  "dump_chat_event fl cfg ev =
     (case ev of
        ChunkEvent c \<Rightarrow> format_sse_data fl (dump_chunk cfg c)
      | ErrorEvent e \<Rightarrow> format_sse_data fl [(''error'', JObj e)]
      | DoneEvent \<Rightarrow> done_frame)"

text \<open>The consumer of the generator recognises the terminal frame by its text.\<close>

lemma strip_prefix: "\<not> py_isspace c \<Longrightarrow> \<exists>rest. c # cs = py_strip (c # cs) @ rest"
proof -
  assume "\<not> py_isspace c"
  then have "py_strip (c # cs) = rev (dropWhile py_isspace (rev (c # cs)))" by (simp add: py_strip_def)
  moreover have "c # cs = rev (dropWhile py_isspace (rev (c # cs))) @ rev (takeWhile py_isspace (rev (c # cs)))"
    by (metis rev_append rev_rev_ident takeWhile_dropWhile_id)
  ultimately show ?thesis by metis
qed

lemma data_frame_not_done: "py_strip (format_sse_data fl p) \<noteq> ''data: [DONE]''"
proof
  assume strip: "py_strip (format_sse_data fl p) = ''data: [DONE]''"
  obtain cs where frame: "format_sse_data fl p = CHR ''d'' # cs" "cs ! 5 = CHR ''{''" by (simp add: format_sse_data_def)
  have "\<not> py_isspace (CHR ''d'')" by (simp add: py_isspace_def)
  then obtain rest where "CHR ''d'' # cs = ''data: [DONE]'' @ rest" using strip_prefix [of "CHR ''d''" cs] strip frame by auto
  then show False using frame(2) by simp
qed

lemma done_frame_recognised: "py_strip (dump_chat_event fl cfg ev) = ''data: [DONE]'' \<longleftrightarrow> ev = DoneEvent"
proof (cases ev)
  case DoneEvent
  have "py_strip done_frame = ''data: [DONE]''" by code_simp
  then show ?thesis using DoneEvent by (simp add: dump_chat_event_def)
qed (simp_all add: dump_chat_event_def data_frame_not_done)

section \<open>What a client sees\<close>

definition event_deltas :: "chat_event list \<Rightarrow> chat_chunk_delta list" where
  "event_deltas es = concat (map (\<lambda>e. case e of ChunkEvent c \<Rightarrow> map ch_delta (ck_choices c) | _ \<Rightarrow> []) es)"

definition streamed_content :: "chat_event list \<Rightarrow> string" where
  "streamed_content es = concat (map (\<lambda>d. default (cd_content d) []) (event_deltas es))"

definition streamed_refusal :: "chat_event list \<Rightarrow> string" where
  "streamed_refusal es = concat (map (\<lambda>d. default (cd_refusal d) []) (event_deltas es))"

definition call_arguments :: "chat_tool_call \<Rightarrow> string" where
  "call_arguments c = (case ctc_function c of Some f \<Rightarrow> default (fn_arguments f) [] | None \<Rightarrow> [])"

definition streamed_arguments :: "nat \<Rightarrow> chat_event list \<Rightarrow> string" where
  "streamed_arguments i es =
     concat (map (\<lambda>d. concat (map call_arguments (filter (\<lambda>c. ctc_index c = i) (default (cd_tool_calls d) [])))) (event_deltas es))"

definition streamed_roles :: "chat_event list \<Rightarrow> string option list" where
  "streamed_roles es = map cd_role (filter (\<lambda>d. d \<noteq> empty_delta) (event_deltas es))"

lemma event_deltas_simps [simp]:
  "event_deltas [] = []" "event_deltas (es @ es') = event_deltas es @ event_deltas es'"
  "event_deltas (DoneEvent # es) = event_deltas es" "event_deltas (ErrorEvent e # es) = event_deltas es"
  "event_deltas (delta_event cfg d f # es) = d # event_deltas es"
  "ck_choices c = [] \<Longrightarrow> event_deltas (ChunkEvent c # es) = event_deltas es"
  by (simp_all add: event_deltas_def delta_event_def)

lemma streamed_append [simp]:
  "streamed_content (es @ es') = streamed_content es @ streamed_content es'"
  "streamed_refusal (es @ es') = streamed_refusal es @ streamed_refusal es'"
  "streamed_arguments i (es @ es') = streamed_arguments i es @ streamed_arguments i es'"
  "streamed_roles (es @ es') = streamed_roles es @ streamed_roles es'"
  by (simp_all add: streamed_content_def streamed_refusal_def streamed_arguments_def streamed_roles_def)

lemma streamed_Nil [simp]:
  "streamed_content [] = []" "streamed_refusal [] = []" "streamed_arguments i [] = []" "streamed_roles [] = []"
  by (simp_all add: streamed_content_def streamed_refusal_def streamed_arguments_def streamed_roles_def)

lemma empty_delta_simps [simp]:
  "cd_role empty_delta = None" "cd_content empty_delta = None" "cd_refusal empty_delta = None" "cd_tool_calls empty_delta = None"
  by (simp_all add: empty_delta_def)

lemma delta_not_done [simp]: "delta_event cfg d f \<noteq> DoneEvent" "DoneEvent \<noteq> delta_event cfg d f"
  by (simp_all add: delta_event_def)

lemma call_arguments_chunk: "call_arguments (to_chunk_call d) = fragment (Some d)"
  by (simp add: call_arguments_def to_chunk_call_def build_tool_call_function_def fragment_def)

lemma ctc_index_chunk [simp]: "ctc_index (to_chunk_call d) = td_index d"
  by (simp add: to_chunk_call_def)

section \<open>The effect of the steps\<close>

text \<open>The role is announced with the first delta and never again; the fragments of a slot extend what it has emitted.\<close>

definition roles_ok :: "bool \<Rightarrow> string option list \<Rightarrow> bool" where
  "roles_ok sent roles =
     (case roles of [] \<Rightarrow> True | r # rs \<Rightarrow> r = (if sent then None else Some ''assistant'') \<and> list_all (\<lambda>r. r = None) rs)"

definition emitted :: "nat \<Rightarrow> chat_chunk_state \<Rightarrow> string" where
  "emitted i st = (if i < length (st_tool_calls st) then ts_emitted_arguments (st_tool_calls st ! i) else [])"

definition chat_effect :: "chat_chunk_state \<Rightarrow> chat_event list \<Rightarrow> chat_chunk_state \<Rightarrow> bool" where
  "chat_effect st es st' \<longleftrightarrow>
     slots_numbered (st_tool_calls st') \<and> roles_ok (st_sent_role st) (streamed_roles es) \<and>
     (st_sent_role st' \<longleftrightarrow> st_sent_role st \<or> streamed_roles es \<noteq> []) \<and>
     (\<forall>i. emitted i st' = emitted i st @ streamed_arguments i es)"

lemma roles_ok_append:
  "roles_ok sent rs \<Longrightarrow> roles_ok (sent \<or> rs \<noteq> []) rs' \<Longrightarrow> roles_ok sent (rs @ rs')"
  by (auto simp: roles_ok_def split: list.splits if_splits)

lemma chat_effect_trans: "chat_effect st es st' \<Longrightarrow> chat_effect st' es' st'' \<Longrightarrow> chat_effect st (es @ es') st''"
  by (auto simp: chat_effect_def intro: roles_ok_append)

lemma chat_effect_refl: "slots_numbered (st_tool_calls st) \<Longrightarrow> chat_effect st [] st"
  by (simp add: chat_effect_def roles_ok_def)

lemma chat_effect_numbered: "chat_effect st es st' \<Longrightarrow> slots_numbered (st_tool_calls st')"
  by (simp add: chat_effect_def)

lemma text_step_effect:
  "slots_numbered (st_tool_calls st) \<Longrightarrow> text_step cfg p st = (es, st') \<Longrightarrow> chat_effect st es st'"
  by (auto simp: text_step_def chat_effect_def roles_ok_def emitted_def next_role_def streamed_roles_def streamed_arguments_def
      Let_def empty_delta_def split: if_splits)

lemma slots_numbered_update:
  "slots_numbered calls \<Longrightarrow> ts_index s = ts_index (calls ! i) \<Longrightarrow> slots_numbered (calls[i := s])"
  by (cases "i < length calls") (auto simp: slots_numbered_iff nth_list_update)

lemma tool_delta_nonempty: "empty_delta\<lparr>cd_role := r, cd_tool_calls := Some cs\<rparr> \<noteq> empty_delta"
  by (simp add: empty_delta_def)

lemma flush_slot_effect:
  assumes "slots_numbered (st_tool_calls st)" and "i < length (st_tool_calls st)" and "flush_slot cfg i st = (es, st')"
  shows "chat_effect st es st'"
proof -
  obtain d s where build: "build_stream_delta (st_tool_calls st ! i) = (d, s)" by (cases "build_stream_delta (st_tool_calls st ! i)")
  have index: "ts_index (st_tool_calls st ! i) = i" using assms(1,2) by (rule slots_numbered_nth)
  have s: "ts_index s = i" "ts_emitted_arguments s = ts_emitted_arguments (st_tool_calls st ! i) @ fragment d"
    using build_keeps_call [OF build] build_appends [OF build] index by (simp_all add: same_call_def)
  have numbered: "slots_numbered ((st_tool_calls st)[i := s])" using assms(1) s(1) index by (intro slots_numbered_update) simp_all
  show ?thesis
  proof (cases d)
    case None
    then show ?thesis
      using assms build s numbered
      by (auto simp: flush_slot_def chat_effect_def roles_ok_def emitted_def nth_list_update fragment_def)
  next
    case (Some d')
    then have "td_index d' = i" using build build_index index by metis
    then show ?thesis
      using assms build s numbered Some
      by (auto simp: flush_slot_def chat_effect_def roles_ok_def emitted_def nth_list_update streamed_roles_def streamed_arguments_def
          tool_delta_nonempty next_role_def call_arguments_chunk)
  qed
qed

lemma flush_slot_length: "flush_slot cfg i st = (es, st') \<Longrightarrow> length (st_tool_calls st') = length (st_tool_calls st)"
  by (auto simp: flush_slot_def split: prod.splits option.splits)

lemma flush_slots_effect:
  assumes "slots_numbered (st_tool_calls st)" and "\<forall>i\<in>set is. i < length (st_tool_calls st)" and "flush_slots cfg is st = (es, st')"
  shows "chat_effect st es st'"
  using assms
proof (induction "is" arbitrary: st es)
  case Nil
  then show ?case by (simp add: chat_effect_refl)
next
  case (Cons i "is")
  obtain es1 st1 where first: "flush_slot cfg i st = (es1, st1)" by (cases "flush_slot cfg i st")
  obtain es2 where rest: "flush_slots cfg is st1 = (es2, st')" "es = es1 @ es2"
    using Cons.prems(3) first by (auto simp: Let_def split: prod.splits)
  have effect: "chat_effect st es1 st1" using Cons.prems first by (intro flush_slot_effect) auto
  then have "chat_effect st1 es2 st'"
    using Cons.IH [OF chat_effect_numbered [OF effect] _ rest(1)] Cons.prems(2) flush_slot_length [OF first] by simp
  with effect show ?case using rest(2) by (simp add: chat_effect_trans)
qed

lemma merge_effect:
  assumes "slots_numbered (st_tool_calls st)"
  shows "chat_effect st [] (st\<lparr>st_tool_index := t, st_tool_calls := merge_tool_call_delta d (st_tool_calls st)\<rparr>)"
proof -
  have keeps: "ts_emitted_arguments (apply_delta d s) = ts_emitted_arguments s" for s by (simp add: apply_delta_def)
  have fresh: "ts_emitted_arguments (new_tool_call_state i) = []" for i by (simp add: new_tool_call_state_def)
  have "emitted i (st\<lparr>st_tool_index := t, st_tool_calls := merge_tool_call_delta d (st_tool_calls st)\<rparr>) = emitted i st" for i
    by (auto simp: emitted_def merge_tool_call_delta_def nth_list_update nth_pad keeps fresh)
  then show ?thesis using slots_numbered_merge [OF assms] by (simp add: chat_effect_def roles_ok_def)
qed

lemma tool_step_effect:
  assumes "slots_numbered (st_tool_calls st)" and "tool_step cfg p st = (es, st')"
  shows "chat_effect st es st'"
proof -
  obtain d t where from_payload: "tool_call_delta_from_payload p (st_tool_index st) = (d, t)"
    by (cases "tool_call_delta_from_payload p (st_tool_index st)")
  show ?thesis
  proof (cases d)
    case None
    then show ?thesis using assms from_payload by (auto simp: tool_step_def chat_effect_def roles_ok_def emitted_def)
  next
    case (Some d')
    let ?st = "st\<lparr>st_tool_index := t, st_tool_calls := merge_tool_call_delta d' (st_tool_calls st)\<rparr>"
    have "flush_slot cfg (td_index d') ?st = (es, st')" using assms(2) from_payload Some by (simp add: tool_step_def)
    then have "chat_effect ?st es st'"
      using slots_numbered_merge [OF assms(1)] by (intro flush_slot_effect) (simp_all add: length_merge)
    then show ?thesis using chat_effect_trans [OF merge_effect [OF assms(1)]] by fastforce
  qed
qed

lemma completion_step_effect:
  assumes "slots_numbered (st_tool_calls st)" and "completion_step cfg p st = (es, st')"
  shows "chat_effect st es st'"
proof -
  obtain es1 where flush: "flush_slots cfg [0..<length (st_tool_calls st)] st = (es1, st')"
    and es: "\<exists>tail. es = es1 @ tail \<and> event_deltas tail = [empty_delta]"
    using assms(2) by (auto simp: completion_step_def Let_def split: prod.splits if_splits)
  then obtain tail where tail: "es = es1 @ tail" "event_deltas tail = [empty_delta]" by blast
  have effect: "chat_effect st es1 st'" using assms(1) flush by (intro flush_slots_effect) auto
  moreover have "chat_effect st' tail st'"
    using chat_effect_numbered [OF effect] tail(2) by (simp add: chat_effect_def roles_ok_def streamed_roles_def streamed_arguments_def)
  ultimately show ?thesis using tail(1) by (simp add: chat_effect_trans)
qed

lemma terminal_effect: "slots_numbered (st_tool_calls st) \<Longrightarrow> chat_effect st [ErrorEvent e, DoneEvent] st"
  by (simp add: chat_effect_def roles_ok_def streamed_roles_def streamed_arguments_def)

text \<open>The stages of the translation of one payload.\<close>

lemma chat_step_stages:
  assumes "chat_step cfg (Some p) st = (es, st')" and "p \<noteq> []"
  obtains es1 st1 es2 st2 es3 where
    "text_step cfg p st = (es1, st1)" "tool_step cfg p st1 = (es2, st2)" "es = es1 @ es2 @ es3"
    "(\<exists>e. is_failure p \<and> event_error p = Some e \<and> es3 = [ErrorEvent e, DoneEvent] \<and> st' = st2) \<or>
     (\<not> is_failure p \<and> is_completion p \<and> completion_step cfg p st2 = (es3, st')) \<or>
     ((if is_failure p then event_error p = None else \<not> is_completion p) \<and> es3 = [] \<and> st' = st2)"
proof -
  obtain es1 st1 where tx: "text_step cfg p st = (es1, st1)" by (cases "text_step cfg p st")
  obtain es2 st2 where tool: "tool_step cfg p st1 = (es2, st2)" by (cases "tool_step cfg p st1")
  obtain es3 st3 where fin: "completion_step cfg p st2 = (es3, st3)" by (cases "completion_step cfg p st2")
  show thesis
  proof (cases "is_failure p")
    case True
    then show thesis
      using assms tx tool that [OF tx tool, of "[ErrorEvent (the (event_error p)), DoneEvent]"] that [OF tx tool, of "[]"]
      by (cases "event_error p") (auto simp: chat_step_def)
  next
    case False
    then show thesis
      using assms tx tool fin that [OF tx tool, of es3] that [OF tx tool, of "[]"]
      by (cases "is_completion p") (auto simp: chat_step_def)
  qed
qed

lemma chat_step_effect:
  assumes "slots_numbered (st_tool_calls st)" and "chat_step cfg line st = (es, st')"
  shows "chat_effect st es st'"
proof (cases "\<exists>p. line = Some p \<and> p \<noteq> []")
  case False
  then have "chat_step cfg line st = ([], st)" by (auto simp: chat_step_def split: option.split)
  then show ?thesis using assms by (simp add: chat_effect_refl)
next
  case True
  then obtain p where p: "line = Some p" "p \<noteq> []" by blast
  obtain es1 st1 es2 st2 es3 where stages:
    "text_step cfg p st = (es1, st1)" "tool_step cfg p st1 = (es2, st2)" "es = es1 @ es2 @ es3"
    "(\<exists>e. is_failure p \<and> event_error p = Some e \<and> es3 = [ErrorEvent e, DoneEvent] \<and> st' = st2) \<or>
     (\<not> is_failure p \<and> is_completion p \<and> completion_step cfg p st2 = (es3, st')) \<or>
     ((if is_failure p then event_error p = None else \<not> is_completion p) \<and> es3 = [] \<and> st' = st2)"
    using assms(2) [unfolded p(1)] p(2) by (rule chat_step_stages) (rule that)
  have tx: "chat_effect st es1 st1" using assms(1) stages(1) by (rule text_step_effect)
  have tool: "chat_effect st1 es2 st2" using chat_effect_numbered [OF tx] stages(2) by (rule tool_step_effect)
  have "chat_effect st2 es3 st'"
    using stages(4) chat_effect_numbered [OF tool] completion_step_effect terminal_effect chat_effect_refl by blast
  then show ?thesis unfolding stages(3) by (intro chat_effect_trans [OF tx] chat_effect_trans [OF tool])
qed

lemma stream_effect:
  "slots_numbered (st_tool_calls st) \<Longrightarrow> stream_chat_chunks cfg lines st = (es, st') \<Longrightarrow> chat_effect st es st'"
proof (induction lines arbitrary: st es)
  case Nil
  then show ?case by (simp add: chat_effect_refl)
next
  case (Cons line lines)
  obtain es1 st1 where first: "chat_step cfg line st = (es1, st1)" by (cases "chat_step cfg line st")
  have effect: "chat_effect st es1 st1" using Cons.prems(1) first by (rule chat_step_effect)
  show ?case
  proof (cases "DoneEvent \<in> set es1")
    case True
    then show ?thesis using Cons.prems(2) first effect by simp
  next
    case False
    then obtain es2 where rest: "stream_chat_chunks cfg lines st1 = (es2, st')" "es = es1 @ es2"
      using Cons.prems(2) first by (auto simp: Let_def split: prod.splits)
    then show ?thesis using Cons.IH [OF chat_effect_numbered [OF effect] rest(1)] effect by (simp add: chat_effect_trans)
  qed
qed

section \<open>Streaming and collecting agree\<close>

text \<open>The simulation: the same slots, up to what has been emitted.\<close>

definition in_step :: "collect_state \<Rightarrow> chat_chunk_state \<Rightarrow> bool" where
  "in_step c st \<longleftrightarrow> cs_tool_index c = st_tool_index st \<and> list_all2 same_call (cs_tool_calls c) (st_tool_calls st)"

lemma in_step_new: "in_step new_collect_state new_chat_state"
  by (simp add: in_step_def new_collect_state_def new_chat_state_def)

lemma list_all2_merge:
  assumes "list_all2 same_call cs ss"
  shows "list_all2 same_call (merge_tool_call_delta d cs) (merge_tool_call_delta d ss)"
proof -
  have len: "length cs = length ss" using assms by (rule list_all2_lengthD)
  have nth: "j < length ss \<Longrightarrow> same_call (cs ! j) (ss ! j)" for j using assms len by (simp add: list_all2_conv_all_nth)
  have pad: "j < length (pad_tool_calls (td_index d) ss) \<Longrightarrow>
      same_call (pad_tool_calls (td_index d) cs ! j) (pad_tool_calls (td_index d) ss ! j)" for j
    using len nth by (simp add: nth_pad)
  show ?thesis
    unfolding list_all2_conv_all_nth
    using len pad apply_delta_same by (auto simp: merge_tool_call_delta_def nth_list_update)
qed

lemma flush_slot_calls:
  assumes "flush_slot cfg i st = (es, st')"
  shows "list_all2 same_call (st_tool_calls st) (st_tool_calls st')" "st_tool_index st' = st_tool_index st"
    "streamed_content es = []" "streamed_refusal es = []"
proof -
  obtain d s where build: "build_stream_delta (st_tool_calls st ! i) = (d, s)" by (cases "build_stream_delta (st_tool_calls st ! i)")
  have calls: "st_tool_calls st' = (st_tool_calls st)[i := s]" using assms build by (cases d) (auto simp: flush_slot_def)
  show "list_all2 same_call (st_tool_calls st) (st_tool_calls st')"
    unfolding calls list_all2_conv_all_nth using build_keeps_call [OF build]
    by (cases "i < length (st_tool_calls st)") (auto simp: nth_list_update)
  show "st_tool_index st' = st_tool_index st" "streamed_content es = []" "streamed_refusal es = []"
    using assms build by (cases d; auto simp: flush_slot_def streamed_content_def streamed_refusal_def)+
qed

lemma list_all2_same_trans: "list_all2 same_call xs ys \<Longrightarrow> list_all2 same_call ys zs \<Longrightarrow> list_all2 same_call xs zs"
  by (rule list_all2_trans [OF same_call_trans])

lemma flush_slots_calls:
  assumes "flush_slots cfg is st = (es, st')"
  shows "list_all2 same_call (st_tool_calls st) (st_tool_calls st') \<and> st_tool_index st' = st_tool_index st \<and>
    streamed_content es = [] \<and> streamed_refusal es = []"
  using assms
proof (induction "is" arbitrary: st es)
  case Nil
  then show ?case by (simp add: list_all2_refl)
next
  case (Cons i "is")
  obtain es1 st1 where first: "flush_slot cfg i st = (es1, st1)" by (cases "flush_slot cfg i st")
  obtain es2 where rest: "flush_slots cfg is st1 = (es2, st')" "es = es1 @ es2"
    using Cons.prems first by (auto simp: Let_def split: prod.splits)
  show ?case using Cons.IH [OF rest(1)] flush_slot_calls [OF first] rest(2) list_all2_same_trans by auto
qed

lemma flush_slot_caught_up:
  assumes "flush_slot cfg i st = (es, st')" and "i < length (st_tool_calls st)"
  shows "caught_up (st_tool_calls st' ! i)" "j \<noteq> i \<Longrightarrow> st_tool_calls st' ! j = st_tool_calls st ! j"
proof -
  obtain d s where build: "build_stream_delta (st_tool_calls st ! i) = (d, s)" by (cases "build_stream_delta (st_tool_calls st ! i)")
  have "st_tool_calls st' = (st_tool_calls st)[i := s]" using assms build by (cases d) (auto simp: flush_slot_def)
  then show "caught_up (st_tool_calls st' ! i)" "j \<noteq> i \<Longrightarrow> st_tool_calls st' ! j = st_tool_calls st ! j"
    using build_catches_up [OF build] assms(2) by simp_all
qed

lemma flush_slots_caught_up:
  assumes "flush_slots cfg is st = (es, st')" and "\<forall>i\<in>set is. i < length (st_tool_calls st)"
    and "j \<in> set is \<or> caught_up (st_tool_calls st ! j)"
  shows "caught_up (st_tool_calls st' ! j)"
  using assms
proof (induction "is" arbitrary: st es)
  case (Cons i "is")
  obtain es1 st1 where first: "flush_slot cfg i st = (es1, st1)" by (cases "flush_slot cfg i st")
  obtain es2 where rest: "flush_slots cfg is st1 = (es2, st')"
    using Cons.prems(1) first by (auto simp: Let_def split: prod.splits)
  have "j \<in> set is \<or> caught_up (st_tool_calls st1 ! j)"
    using Cons.prems(2,3) flush_slot_caught_up [OF first] by (cases "j = i") auto
  then show ?case using Cons.IH [OF rest] Cons.prems(2) flush_slot_length [OF first] by auto
qed simp

lemma text_step_in_step:
  assumes "in_step c st" and "text_step cfg p st = (es, st')"
  shows "in_step (collect_text p c) st' \<and> cs_content (collect_text p c) = cs_content c @ streamed_content es \<and>
    cs_refusal (collect_text p c) = cs_refusal c @ streamed_refusal es"
proof -
  have "\<not> (event_is p ''response.refusal.delta'' \<and> event_is p ''response.output_text.delta'')" by (simp add: event_is_def)
  then show ?thesis
    using assms
    by (cases "json_str (map_of p ''delta'')")
       (auto simp: text_step_def collect_text_def in_step_def streamed_content_def streamed_refusal_def Let_def split: if_splits)
qed

lemma tool_step_in_step:
  assumes "in_step c st" and "tool_step cfg p st = (es, st')"
  shows "in_step (collect_tool p c) st' \<and> streamed_content es = [] \<and> streamed_refusal es = [] \<and>
    cs_content (collect_tool p c) = cs_content c \<and> cs_refusal (collect_tool p c) = cs_refusal c"
proof -
  obtain d t where from_payload: "tool_call_delta_from_payload p (st_tool_index st) = (d, t)"
    by (cases "tool_call_delta_from_payload p (st_tool_index st)")
  then have from_payload': "tool_call_delta_from_payload p (cs_tool_index c) = (d, t)" using assms(1) by (simp add: in_step_def)
  show ?thesis
  proof (cases d)
    case None
    then show ?thesis using assms from_payload from_payload' by (auto simp: tool_step_def collect_tool_def in_step_def)
  next
    case (Some d')
    let ?st = "st\<lparr>st_tool_index := t, st_tool_calls := merge_tool_call_delta d' (st_tool_calls st)\<rparr>"
    have flush: "flush_slot cfg (td_index d') ?st = (es, st')" using assms(2) from_payload Some by (simp add: tool_step_def)
    have "list_all2 same_call (merge_tool_call_delta d' (cs_tool_calls c)) (st_tool_calls ?st)"
      using assms(1) by (simp add: in_step_def list_all2_merge)
    then have "list_all2 same_call (merge_tool_call_delta d' (cs_tool_calls c)) (st_tool_calls st')"
      using flush_slot_calls(1) [OF flush] by (rule list_all2_same_trans)
    then show ?thesis
      using flush_slot_calls [OF flush] from_payload' Some by (simp add: collect_tool_def in_step_def)
  qed
qed

text \<open>A line that is neither a failure nor a completion.\<close>

definition chat_quiet :: "payload option \<Rightarrow> bool" where
  "chat_quiet line = (case line of None \<Rightarrow> True | Some p \<Rightarrow> p = [] \<or> \<not> (is_failure p \<or> is_completion p))"

lemma text_tool_no_done:
  "text_step cfg p st = (es, st') \<Longrightarrow> DoneEvent \<notin> set es" "tool_step cfg p st = (es, st') \<Longrightarrow> DoneEvent \<notin> set es"
  by (auto simp: text_step_def tool_step_def flush_slot_def Let_def split: if_splits prod.splits option.splits)

lemma flush_slots_no_done: "flush_slots cfg is st = (es, st') \<Longrightarrow> DoneEvent \<notin> set es"
proof (induction "is" arbitrary: st es)
  case (Cons i "is")
  obtain es1 st1 where first: "flush_slot cfg i st = (es1, st1)" by (cases "flush_slot cfg i st")
  then have "DoneEvent \<notin> set es1" by (auto simp: flush_slot_def split: prod.splits option.splits)
  then show ?case using Cons first by (auto simp: Let_def split: prod.splits)
qed simp

lemma completion_not_failure: "is_completion p \<Longrightarrow> \<not> is_failure p"
  by (auto simp: is_completion_def is_failure_def event_is_def)

lemma completion_step_cases:
  assumes "completion_step cfg p st = (es, st')"
  obtains es1 tail where "flush_slots cfg [0..<length (st_tool_calls st)] st = (es1, st')" "es = es1 @ tail @ [DoneEvent]"
    "DoneEvent \<notin> set tail" "event_deltas tail = [empty_delta]" "hd tail = delta_event cfg empty_delta (Some (stream_finish_reason p st'))"
  using assms by (auto simp: completion_step_def Let_def split: prod.splits if_splits)

lemma quiet_step:
  assumes "chat_quiet line" and "in_step c st" and "chat_step cfg line st = (es, st')"
  obtains c' where "in_step c' st'" "DoneEvent \<notin> set es" "cs_content c' = cs_content c @ streamed_content es"
    "cs_refusal c' = cs_refusal c @ streamed_refusal es"
    "\<And>lines. collect_chat_completion cfg (line # lines) c = collect_chat_completion cfg lines c'"
proof (cases "\<exists>p. line = Some p \<and> p \<noteq> []")
  case False
  then have "es = []" "st' = st" using assms(3) by (auto simp: chat_step_def split: option.splits)
  moreover have "collect_chat_completion cfg (line # lines) c = collect_chat_completion cfg lines c" for lines
    using False by (cases line) auto
  ultimately show thesis using assms(2) by (intro that [of c]) simp_all
next
  case True
  then obtain p where p: "line = Some p" "p \<noteq> []" by blast
  then have plain: "\<not> is_failure p" "\<not> is_completion p" using assms(1) by (auto simp: chat_quiet_def)
  obtain es1 st1 where tx: "text_step cfg p st = (es1, st1)" by (cases "text_step cfg p st")
  obtain es2 st2 where tool: "tool_step cfg p st1 = (es2, st2)" by (cases "tool_step cfg p st1")
  have es: "es = es1 @ es2" "st' = st2" using assms(3) p plain tx tool by (auto simp: chat_step_def)
  have sim1: "in_step (collect_text p c) st1" using text_step_in_step [OF assms(2) tx] by blast
  show thesis
  proof (rule that [of "collect_tool p (collect_text p c)"])
    show "collect_chat_completion cfg (line # lines) c = collect_chat_completion cfg lines (collect_tool p (collect_text p c))" for lines
      using p plain by simp
  qed (use text_step_in_step [OF assms(2) tx] tool_step_in_step [OF sim1 tool] text_tool_no_done(1) [OF tx]
      text_tool_no_done(2) [OF tool] es in simp_all)
qed

lemma collect_terminal_keeps [simp]:
  "cs_content (collect_terminal cfg p c) = cs_content c" "cs_refusal (collect_terminal cfg p c) = cs_refusal c"
  "cs_tool_calls (collect_terminal cfg p c) = cs_tool_calls c" "cs_tool_index (collect_terminal cfg p c) = cs_tool_index c"
  by (simp_all add: collect_terminal_def split: option.split)

lemma completion_agrees:
  assumes "is_completion p" and "in_step c st" and "chat_step cfg (Some p) st = (es, st')"
  obtains c' where "list_all2 same_call (cs_tool_calls c') (st_tool_calls st')" "DoneEvent \<in> set es"
    "cs_content c' = cs_content c @ streamed_content es" "cs_refusal c' = cs_refusal c @ streamed_refusal es"
    "list_all caught_up (st_tool_calls st')" "collect_chat_completion cfg [Some p] c = collect_result cfg c'"
proof -
  have ne: "p \<noteq> []" using assms(1) by (auto simp: is_completion_def event_is_def)
  obtain es1 st1 where tx: "text_step cfg p st = (es1, st1)" by (cases "text_step cfg p st")
  obtain es2 st2 where tool: "tool_step cfg p st1 = (es2, st2)" by (cases "tool_step cfg p st1")
  obtain es3 where fin: "completion_step cfg p st2 = (es3, st')" and es: "es = es1 @ es2 @ es3"
    using assms(3) ne completion_not_failure [OF assms(1)] assms(1) tx tool by (auto simp: chat_step_def split: prod.splits)
  obtain es4 tail where flush: "flush_slots cfg [0..<length (st_tool_calls st2)] st2 = (es4, st')" "es3 = es4 @ tail @ [DoneEvent]"
    "DoneEvent \<notin> set tail" "event_deltas tail = [empty_delta]" "hd tail = delta_event cfg empty_delta (Some (stream_finish_reason p st'))"
    using fin by (rule completion_step_cases) (rule that)
  have sim1: "in_step (collect_text p c) st1" using text_step_in_step [OF assms(2) tx] by blast
  have tail: "streamed_content tail = []" "streamed_refusal tail = []" "streamed_content [DoneEvent] = []" "streamed_refusal [DoneEvent] = []"
    using flush(4) by (simp_all add: streamed_content_def streamed_refusal_def)
  have calls: "list_all2 same_call (cs_tool_calls (collect_tool p (collect_text p c))) (st_tool_calls st')"
    using tool_step_in_step [OF sim1 tool] flush_slots_calls [OF flush(1)] list_all2_same_trans by (auto simp: in_step_def)
  have "length (st_tool_calls st') = length (st_tool_calls st2)"
    using flush_slots_calls [OF flush(1)] by (auto dest: list_all2_lengthD)
  then have "caught_up (st_tool_calls st' ! j)" if "j < length (st_tool_calls st')" for j
    using that by (intro flush_slots_caught_up [OF flush(1)]) auto
  then have caught: "list_all caught_up (st_tool_calls st')" by (simp add: list_all_length)
  show thesis
  proof (rule that [of "collect_terminal cfg p (collect_tool p (collect_text p c))"])
    show "collect_chat_completion cfg [Some p] c = collect_result cfg (collect_terminal cfg p (collect_tool p (collect_text p c)))"
      using ne completion_not_failure [OF assms(1)] assms(1) by simp
  qed (use calls caught es flush(2) tail text_step_in_step [OF assms(2) tx] tool_step_in_step [OF sim1 tool]
      flush_slots_calls [OF flush(1)] in simp_all)
qed

lemma stream_agrees:
  assumes "list_all chat_quiet pre" and "is_completion p" and "in_step c st"
    and "stream_chat_chunks cfg (pre @ [Some p]) st = (es, st')"
  shows "\<exists>c'. list_all2 same_call (cs_tool_calls c') (st_tool_calls st') \<and> list_all caught_up (st_tool_calls st') \<and>
    cs_content c' = cs_content c @ streamed_content es \<and> cs_refusal c' = cs_refusal c @ streamed_refusal es \<and>
    collect_chat_completion cfg (pre @ [Some p]) c = collect_result cfg c'"
  using assms
proof (induction pre arbitrary: c st es)
  case Nil
  obtain es1 st1 where step: "chat_step cfg (Some p) st = (es1, st1)" by (cases "chat_step cfg (Some p) st")
  obtain c' where c': "list_all2 same_call (cs_tool_calls c') (st_tool_calls st1)" "DoneEvent \<in> set es1"
    "cs_content c' = cs_content c @ streamed_content es1" "cs_refusal c' = cs_refusal c @ streamed_refusal es1"
    "list_all caught_up (st_tool_calls st1)" "collect_chat_completion cfg [Some p] c = collect_result cfg c'"
    using Nil.prems(2,3) step by (rule completion_agrees) (rule that)
  then have "es = es1" "st' = st1" using Nil.prems(4) step by auto
  then show ?case using c' by auto
next
  case (Cons line pre)
  obtain es1 st1 where step: "chat_step cfg line st = (es1, st1)" by (cases "chat_step cfg line st")
  have "chat_quiet line" using Cons.prems(1) by simp
  then obtain c1 where c1: "in_step c1 st1" "DoneEvent \<notin> set es1" "cs_content c1 = cs_content c @ streamed_content es1"
    "cs_refusal c1 = cs_refusal c @ streamed_refusal es1"
    "\<And>lines. collect_chat_completion cfg (line # lines) c = collect_chat_completion cfg lines c1"
    using Cons.prems(3) step by (rule quiet_step) (rule that)
  obtain es2 where rest: "stream_chat_chunks cfg (pre @ [Some p]) st1 = (es2, st')" "es = es1 @ es2"
    using Cons.prems(4) step c1(2) by (auto simp: Let_def split: prod.splits)
  have "list_all chat_quiet pre" using Cons.prems(1) by simp
  from Cons.IH [OF this Cons.prems(2) c1(1) rest(1)] show ?case using c1 rest(2) by auto
qed

lemma compact_same: "list_all2 same_call cs ss \<Longrightarrow> compact_tool_calls ss = compact_tool_calls cs"
  by (induction rule: list_all2_induct) (simp_all add: compact_tool_calls_def List.map_filter_simps same_call_message split: option.split)

lemma emitted_new [simp]: "emitted i new_chat_state = []"
  by (simp add: emitted_def new_chat_state_def)

lemma new_numbered [simp]: "slots_numbered (st_tool_calls new_chat_state)"
  by (simp add: slots_numbered_def new_chat_state_def)

text \<open>
  C7: Streaming and collecting translate an upstream response alike. For a response that ends with its completion event,
  a client that concatenates the streamed chunks holds the content and the refusal of the collected message; the collected
  tool calls are those of the slots of the stream; and the argument fragments that were sent for a slot add up to text
  after which nothing is pending: it is the complete argument string of the slot, unless the upstream emptied or rewrote
  what had been sent before.
\<close>

theorem stream_agrees_with_collect:
  assumes "list_all chat_quiet pre" and "is_completion p"
    and "stream_chat_chunks cfg (pre @ [Some p]) new_chat_state = (es, st)"
  shows "\<exists>co. collect_chat_completion cfg (pre @ [Some p]) new_collect_state = Completion co \<and>
    default (cm_content (co_message co)) [] = streamed_content es \<and>
    default (cm_refusal (co_message co)) [] = streamed_refusal es \<and>
    default (cm_tool_calls (co_message co)) [] = compact_tool_calls (st_tool_calls st) \<and>
    (\<forall>i < length (st_tool_calls st).
       pending_stream_arguments (streamed_arguments i es) (ts_arguments (st_tool_calls st ! i)) = None)"
proof -
  obtain c' where c': "list_all2 same_call (cs_tool_calls c') (st_tool_calls st)" "list_all caught_up (st_tool_calls st)"
    "cs_content c' = cs_content new_collect_state @ streamed_content es"
    "cs_refusal c' = cs_refusal new_collect_state @ streamed_refusal es"
    "collect_chat_completion cfg (pre @ [Some p]) new_collect_state = collect_result cfg c'"
    using stream_agrees [OF assms(1,2) in_step_new assms(3)] by blast
  have "chat_effect new_chat_state es st" using stream_effect [OF new_numbered assms(3)] .
  then have "emitted i st = streamed_arguments i es" for i unfolding chat_effect_def by simp
  then have sent: "streamed_arguments i es = ts_emitted_arguments (st_tool_calls st ! i)" if "i < length (st_tool_calls st)" for i
    using that by (metis emitted_def)
  have pending: "pending_stream_arguments (streamed_arguments i es) (ts_arguments (st_tool_calls st ! i)) = None"
    if "i < length (st_tool_calls st)" for i
    using c'(2) sent [OF that] that by (simp add: list_all_length caught_up_def)
  have content: "cs_content c' = streamed_content es" "cs_refusal c' = streamed_refusal es"
    using c'(3,4) by (simp_all add: new_collect_state_def)
  have "\<exists>co. collect_result cfg c' = Completion co \<and>
    default (cm_content (co_message co)) [] = cs_content c' \<and> default (cm_refusal (co_message co)) [] = cs_refusal c' \<and>
    default (cm_tool_calls (co_message co)) [] = compact_tool_calls (cs_tool_calls c')"
    by (cases "cs_refusal c'") (auto simp: collect_result_def Let_def nonempty_str_def)
  then show ?thesis using c'(5) content pending compact_same [OF c'(1)] by auto
qed

definition chat_example_config :: chat_config where
  "chat_example_config =
     \<lparr>cc_model = ''gpt-5'', cc_created = 1, cc_include_usage = False, cc_validate_usage = (\<lambda>_. None),
      cc_validate_error = (\<lambda>_. None), cc_float = (\<lambda>_. None)\<rparr>"

definition example_pre :: "payload option list" where
  "example_pre =
     [None, Some [(''type'', JStr ''response.output_text.delta''), (''delta'', JStr ''Hi'')],
      Some [(''type'', JStr ''response.output_item.added''), (''output_index'', JInt 1),
            (''item'', JObj [(''type'', JStr ''function_call''), (''id'', JStr ''fc_1''), (''call_id'', JStr ''call_1''),
                             (''name'', JStr ''f''), (''arguments'', JStr [])])],
      Some [(''type'', JStr ''response.function_call_arguments.delta''), (''item_id'', JStr ''fc_1''), (''delta'', JStr ''{'')],
      Some [(''type'', JStr ''response.function_call_arguments.done''), (''item_id'', JStr ''fc_1''), (''arguments'', JStr ''{}'')]]"

definition example_end :: payload where
  "example_end = [(''type'', JStr ''response.completed''), (''response'', JObj [(''id'', JStr ''resp_1'')])]"

theorem stream_agrees_with_collect_witness:
  "list_all chat_quiet example_pre \<and> is_completion example_end \<and>
   (\<exists>es st co. stream_chat_chunks chat_example_config (example_pre @ [Some example_end]) new_chat_state = (es, st) \<and>
      streamed_arguments 0 es = ''{}'' \<and>
      collect_chat_completion chat_example_config (example_pre @ [Some example_end]) new_collect_state = Completion co \<and>
      default (cm_content (co_message co)) [] = streamed_content es \<and>
      default (cm_tool_calls (co_message co)) [] = compact_tool_calls (st_tool_calls st))"
proof -
  have pre: "list_all chat_quiet example_pre" and fin: "is_completion example_end" by code_simp+
  obtain es st where stream: "stream_chat_chunks chat_example_config (example_pre @ [Some example_end]) new_chat_state = (es, st)"
    by (cases "stream_chat_chunks chat_example_config (example_pre @ [Some example_end]) new_chat_state")
  have "streamed_arguments 0 (fst (stream_chat_chunks chat_example_config (example_pre @ [Some example_end]) new_chat_state)) = ''{}''"
    by code_simp
  then have "streamed_arguments 0 es = ''{}''" using stream by simp
  then show ?thesis using stream_agrees_with_collect [OF pre fin stream] pre fin stream by blast
qed

section \<open>The protocol of the stream\<close>

definition ends_stream :: "payload option \<Rightarrow> bool" where
  "ends_stream line =
     (case line of
        None \<Rightarrow> False
      | Some p \<Rightarrow> p \<noteq> [] \<and> (if is_failure p then event_error p \<noteq> None else is_completion p))"

text \<open>What is sent before the end: deltas without a finish reason, of which the first of the stream has the role.\<close>

definition sends_deltas :: "chat_config \<Rightarrow> chat_chunk_state \<Rightarrow> chat_event list \<Rightarrow> chat_chunk_state \<Rightarrow> bool" where
  "sends_deltas cfg st es st' \<longleftrightarrow>
     (\<exists>ds. es = map (\<lambda>d. delta_event cfg d None) ds \<and> roles_ok (st_sent_role st) (map cd_role ds) \<and>
        (st_sent_role st' \<longleftrightarrow> st_sent_role st \<or> ds \<noteq> []))"

lemma sends_nothing: "st_sent_role st' = st_sent_role st \<Longrightarrow> sends_deltas cfg st [] st'"
  by (simp add: sends_deltas_def roles_ok_def)

lemma sends_one:
  "cd_role d = next_role st \<Longrightarrow> st_sent_role st' \<Longrightarrow> sends_deltas cfg st [delta_event cfg d None] st'"
  unfolding sends_deltas_def by (rule exI [of _ "[d]"]) (simp add: roles_ok_def next_role_def)

lemma sends_deltas_trans:
  assumes "sends_deltas cfg st es st'" and "sends_deltas cfg st' es' st''"
  shows "sends_deltas cfg st (es @ es') st''"
proof -
  obtain ds ds' where "es = map (\<lambda>d. delta_event cfg d None) ds" "roles_ok (st_sent_role st) (map cd_role ds)"
    "st_sent_role st' \<longleftrightarrow> st_sent_role st \<or> ds \<noteq> []" "es' = map (\<lambda>d. delta_event cfg d None) ds'"
    "roles_ok (st_sent_role st') (map cd_role ds')" "st_sent_role st'' \<longleftrightarrow> st_sent_role st' \<or> ds' \<noteq> []"
    using assms unfolding sends_deltas_def by blast
  then show ?thesis unfolding sends_deltas_def by (intro exI [of _ "ds @ ds'"]) (simp add: roles_ok_append)
qed

lemma text_step_sends: "text_step cfg p st = (es, st') \<Longrightarrow> sends_deltas cfg st es st'"
  by (auto simp: text_step_def Let_def split: if_splits intro!: sends_one sends_nothing)

lemma flush_slot_sends: "flush_slot cfg i st = (es, st') \<Longrightarrow> sends_deltas cfg st es st'"
  by (auto simp: flush_slot_def split: prod.splits option.splits intro!: sends_one sends_nothing)

lemma flush_slots_sends: "flush_slots cfg is st = (es, st') \<Longrightarrow> sends_deltas cfg st es st'"
proof (induction "is" arbitrary: st es)
  case (Cons i "is")
  obtain es1 st1 es2 where "flush_slot cfg i st = (es1, st1)" "flush_slots cfg is st1 = (es2, st')" "es = es1 @ es2"
    using Cons.prems by (auto simp: Let_def split: prod.splits)
  then show ?case using Cons.IH flush_slot_sends sends_deltas_trans by blast
qed (simp add: sends_nothing)

lemma tool_step_sends:
  assumes "tool_step cfg p st = (es, st')"
  shows "sends_deltas cfg st es st'"
proof (cases "tool_call_delta_from_payload p (st_tool_index st)")
  case (Pair d t)
  show ?thesis
  proof (cases d)
    case None
    then show ?thesis using assms Pair by (auto simp: tool_step_def intro!: sends_nothing)
  next
    case (Some d')
    let ?st = "st\<lparr>st_tool_index := t, st_tool_calls := merge_tool_call_delta d' (st_tool_calls st)\<rparr>"
    have "sends_deltas cfg ?st es st'" using assms Pair Some by (intro flush_slot_sends) (simp add: tool_step_def)
    then show ?thesis by (simp add: sends_deltas_def)
  qed
qed

lemma quiet_step_sends:
  assumes "chat_quiet line" and "chat_step cfg line st = (es, st')"
  shows "sends_deltas cfg st es st'"
proof (cases "\<exists>p. line = Some p \<and> p \<noteq> []")
  case False
  then have "es = []" "st' = st" using assms(2) by (auto simp: chat_step_def split: option.splits)
  then show ?thesis by (simp add: sends_nothing)
next
  case True
  then obtain p where p: "line = Some p" "p \<noteq> []" by blast
  then have "\<not> is_failure p" "\<not> is_completion p" using assms(1) by (auto simp: chat_quiet_def)
  then obtain es1 st1 es2 where "text_step cfg p st = (es1, st1)" "tool_step cfg p st1 = (es2, st')" "es = es1 @ es2"
    using assms(2) p by (auto simp: chat_step_def split: prod.splits)
  then show ?thesis using text_step_sends tool_step_sends sends_deltas_trans by blast
qed

lemma sends_no_done: "sends_deltas cfg st es st' \<Longrightarrow> DoneEvent \<notin> set es"
  by (auto simp: sends_deltas_def)

lemma stream_before_end:
  assumes "list_all chat_quiet pre" and "stream_chat_chunks cfg pre st = (es, st')"
  shows "sends_deltas cfg st es st' \<and>
    stream_chat_chunks cfg (pre @ lines) st = (es @ fst (stream_chat_chunks cfg lines st'), snd (stream_chat_chunks cfg lines st'))"
  using assms
proof (induction pre arbitrary: st es)
  case (Cons line pre)
  obtain es1 st1 where step: "chat_step cfg line st = (es1, st1)" by (cases "chat_step cfg line st")
  have sent: "sends_deltas cfg st es1 st1" using Cons.prems(1) step by (intro quiet_step_sends) auto
  then obtain es2 where rest: "stream_chat_chunks cfg pre st1 = (es2, st')" "es = es1 @ es2"
    using Cons.prems(2) step sends_no_done by (auto simp: Let_def split: prod.splits)
  have "list_all chat_quiet pre" using Cons.prems(1) by simp
  from Cons.IH [OF this rest(1)] show ?case
    using sent sends_no_done [OF sent] step rest(2) by (auto intro: sends_deltas_trans)
qed (simp add: sends_nothing)

text \<open>The end of a stream: the error the upstream reports, or the finish reason and the usage the client asked for.\<close>

definition stream_end :: "chat_config \<Rightarrow> payload \<Rightarrow> chat_chunk_state \<Rightarrow> chat_event list" where
  "stream_end cfg p st =
     (if is_failure p then [ErrorEvent (the (event_error p)), DoneEvent]
      else delta_event cfg empty_delta (Some (stream_finish_reason p st)) #
        (if cc_include_usage cfg
         then [ChunkEvent \<lparr>ck_created = cc_created cfg, ck_model = cc_model cfg, ck_choices = [],
                 ck_usage = map_usage (parse_usage cfg (obj_get (json_obj (map_of p ''response'')) ''usage''))\<rparr>] else []) @
        [DoneEvent])"

lemma end_step:
  assumes "ends_stream (Some p)"
  obtains es st' where "chat_step cfg (Some p) st = (es @ stream_end cfg p st', st')" "sends_deltas cfg st es st'"
proof -
  obtain es' st' where step: "chat_step cfg (Some p) st = (es', st')" by (cases "chat_step cfg (Some p) st")
  have p: "p \<noteq> []" "is_failure p \<Longrightarrow> event_error p \<noteq> None" "\<not> is_failure p \<Longrightarrow> is_completion p"
    using assms by (auto simp: ends_stream_def split: if_splits)
  obtain es1 st1 es2 st2 es3 where stages:
    "text_step cfg p st = (es1, st1)" "tool_step cfg p st1 = (es2, st2)" "es' = es1 @ es2 @ es3"
    "(\<exists>e. is_failure p \<and> event_error p = Some e \<and> es3 = [ErrorEvent e, DoneEvent] \<and> st' = st2) \<or>
     (\<not> is_failure p \<and> is_completion p \<and> completion_step cfg p st2 = (es3, st')) \<or>
     ((if is_failure p then event_error p = None else \<not> is_completion p) \<and> es3 = [] \<and> st' = st2)"
    using step p(1) by (rule chat_step_stages) (rule that)
  have sent: "sends_deltas cfg st (es1 @ es2) st2"
    using stages(1,2) text_step_sends tool_step_sends sends_deltas_trans by blast
  show thesis
  proof (cases "is_failure p")
    case True
    then show thesis using stages p(2) step sent that [of "es1 @ es2" st'] by (auto simp: stream_end_def)
  next
    case False
    then have "completion_step cfg p st2 = (es3, st')" using stages(4) p(3) by auto
    then obtain es4 where "flush_slots cfg [0..<length (st_tool_calls st2)] st2 = (es4, st')" "es3 = es4 @ stream_end cfg p st'"
      using False by (auto simp: completion_step_def stream_end_def Let_def split: prod.splits)
    then show thesis using stages(3) step that [of "es1 @ es2 @ es4" st'] sends_deltas_trans [OF sent flush_slots_sends] by auto
  qed
qed

lemma stream_end_done: "DoneEvent \<in> set (stream_end cfg p st)"
  by (simp add: stream_end_def)

lemma stream_end_single_done: "filter (\<lambda>ev. ev = DoneEvent) (stream_end cfg p st) = [DoneEvent]"
  by (simp add: stream_end_def)

text \<open>
  C23: The chat stream follows the protocol of chat completions. When the upstream ends the response, by completing it or with a failure that carries
  an error object, and something has been sent before (a delta of text, of a refusal or of a tool call), then the stream is:
  a first chunk with the role of the assistant, further chunks without a role, and the end. The end of a failure is the
  error followed by the terminal marker; the end of a completion is the chunk with the finish reason, the usage when the
  client asked for it, and the terminal marker. Nothing the upstream sends afterwards reaches the client, and in the text
  on the wire the consumer recognises the terminal marker exactly once.
\<close>

theorem chat_stream_protocol:
  assumes "list_all chat_quiet pre" and "fst (stream_chat_chunks cfg pre new_chat_state) \<noteq> []" and "ends_stream (Some p)"
    and "stream_chat_chunks cfg (pre @ Some p # lines) new_chat_state = (es, st)"
  shows "(\<exists>d ds. es = map (\<lambda>d. delta_event cfg d None) (d # ds) @ stream_end cfg p st \<and>
       cd_role d = Some ''assistant'' \<and> list_all (\<lambda>d. cd_role d = None) ds) \<and>
     filter (\<lambda>frame. py_strip frame = ''data: [DONE]'') (map (dump_chat_event fl cfg) es) = [dump_chat_event fl cfg DoneEvent]"
proof -
  obtain es1 st1 where pre: "stream_chat_chunks cfg pre new_chat_state = (es1, st1)"
    by (cases "stream_chat_chunks cfg pre new_chat_state")
  obtain es2 st2 where fin: "chat_step cfg (Some p) st1 = (es2 @ stream_end cfg p st2, st2)" "sends_deltas cfg st1 es2 st2"
    using assms(3) by (rule end_step) (rule that)
  note split = stream_before_end [OF assms(1) pre]
  have es: "es = (es1 @ es2) @ stream_end cfg p st" and st: "st2 = st"
    using split [of "Some p # lines"] fin(1) stream_end_done [of cfg p st2] assms(4) by auto
  have "sends_deltas cfg new_chat_state (es1 @ es2) st2" using split fin(2) sends_deltas_trans by blast
  then obtain ds where ds: "es1 @ es2 = map (\<lambda>d. delta_event cfg d None) ds" "roles_ok False (map cd_role ds)"
    by (auto simp: sends_deltas_def new_chat_state_def)
  moreover have "ds \<noteq> []" using assms(2) pre ds(1) by auto
  ultimately obtain d ds' where d: "ds = d # ds'" "cd_role d = Some ''assistant''" "list_all (\<lambda>d. cd_role d = None) ds'"
    by (cases ds) (auto simp: roles_ok_def list.pred_map comp_def)
  have "filter (\<lambda>ev. ev = DoneEvent) es = [DoneEvent]"
    using es ds(1) by (auto simp: stream_end_single_done filter_empty_conv)
  then show ?thesis using es ds(1) d by (auto simp: filter_map comp_def done_frame_recognised)
qed

theorem chat_stream_protocol_witness:
  "\<exists>es st d ds. stream_chat_chunks chat_example_config (example_pre @ [Some example_end, None]) new_chat_state = (es, st) \<and>
     es = map (\<lambda>d. delta_event chat_example_config d None) (d # ds) @ stream_end chat_example_config example_end st \<and>
     cd_role d = Some ''assistant'' \<and> list_all (\<lambda>d. cd_role d = None) ds"
proof -
  have pre: "list_all chat_quiet example_pre" and fin: "ends_stream (Some example_end)" by code_simp+
  have sent: "fst (stream_chat_chunks chat_example_config example_pre new_chat_state) \<noteq> []" by code_simp
  obtain es st where stream: "stream_chat_chunks chat_example_config (example_pre @ [Some example_end, None]) new_chat_state = (es, st)"
    by (cases "stream_chat_chunks chat_example_config (example_pre @ [Some example_end, None]) new_chat_state")
  then show ?thesis using chat_stream_protocol [OF pre sent fin stream] by blast
qed

text \<open>A response that completes without any delta is streamed without the role of the assistant.\<close>

lemma silent_completion_has_no_role:
  "fst (stream_chat_chunks chat_example_config [Some example_end] new_chat_state) =
     [delta_event chat_example_config empty_delta (Some ''stop''), DoneEvent]"
  by code_simp

text \<open>
  Where the two translations differ: a tool event that carries an empty argument string and nothing else makes the stream
  finish with \<open>tool_calls\<close> and the collected completion with \<open>stop\<close>; and a failure without an error object ends the
  collected completion with an error and leaves the stream without a terminal marker.
\<close>

definition blank_tool_lines :: "payload option list" where
  "blank_tool_lines =
     [Some [(''type'', JStr ''response.function_call_arguments.done''), (''arguments'', JStr [])],
      Some [(''type'', JStr ''response.completed'')]]"

lemma blank_tool_call_diverges:
  "map (\<lambda>c. map ch_finish_reason (ck_choices c))
     (List.map_filter (\<lambda>ev. case ev of ChunkEvent c \<Rightarrow> Some c | _ \<Rightarrow> None)
        (fst (stream_chat_chunks chat_example_config blank_tool_lines new_chat_state))) = [[None], [Some ''tool_calls'']]"
  "case collect_chat_completion chat_example_config blank_tool_lines new_collect_state of
     Completion co \<Rightarrow> co_finish_reason co = ''stop'' | ErrorEnvelope e \<Rightarrow> False"
  by code_simp+

lemma bare_failure_diverges:
  "fst (stream_chat_chunks chat_example_config [Some [(''type'', JStr ''response.failed'')]] new_chat_state) = []"
  "collect_chat_completion chat_example_config [Some [(''type'', JStr ''response.failed'')]] new_collect_state =
     ErrorEnvelope default_error_envelope"
  by code_simp+

end
