(* ===== verification/Token_Refresh.thy ===== *)
theory Token_Refresh
  imports Balancer Json Singleflight
begin

text \<open>
  The refresh of account tokens: the reading of the authorization server's answer (\<open>app/core/auth/refresh.py\<close>), the
  identity of accounts (\<open>app/core/auth/__init__.py\<close>), and \<open>refresh_account\<close> with its writes
  (\<open>app/modules/accounts/auth_manager.py\<close>, \<open>auth_update_status\<close>, \<open>update_tokens\<close> and \<open>workspace_slot_taken\<close> of
  \<open>app/modules/accounts/repository.py\<close>). Encryption, SHA-256 and the decoding of identity tokens are arguments.
\<close>

section \<open>Accounts and tokens\<close>

record auth_account = account +
  aa_chatgpt_account_id :: "string option"
  aa_email :: string
  aa_workspace_id :: "string option"
  aa_workspace_label :: "string option"
  aa_seat_type :: "string option"
  aa_access_token :: string
  aa_refresh_token :: string
  aa_id_token :: string
  aa_last_refresh :: datetime

text \<open>\<open>decrypt\<close> fails on a value that was not encrypted with the key.\<close>

record token_crypto =
  cr_encrypt :: "string \<Rightarrow> string"
  cr_decrypt :: "string \<Rightarrow> string option"
  cr_sha256 :: "string \<Rightarrow> string"

record token_refresh_result =
  tr_access_token :: string
  tr_refresh_token :: string
  tr_id_token :: string
  tr_account_id :: "string option"
  tr_plan_type :: "string option"
  tr_email :: "string option"
  tr_workspace_id :: "string option"
  tr_workspace_label :: "string option"
  tr_seat_type :: "string option"

record auth_claims =
  cl_account_id :: "string option"
  cl_plan_type :: "string option"
  cl_workspace_id :: "string option"
  cl_workspace_label :: "string option"
  cl_seat_type :: "string option"

text \<open>The claims of an identity token: its own and those of the nested object, all absent when there is none.\<close>

record id_token_claims =
  it_email :: "string option"
  it_claims :: auth_claims
  it_auth :: auth_claims

definition truthy_or :: "string option \<Rightarrow> string option \<Rightarrow> string option" where
  "truthy_or a b = (case nonempty_str a of Some s \<Rightarrow> Some s | None \<Rightarrow> b)"

section \<open>Identity\<close>

definition clean_account_identity_part :: "string option \<Rightarrow> string option" where
  "clean_account_identity_part v = (case v of None \<Rightarrow> None | Some s \<Rightarrow> nonempty_str (Some (py_strip s)))"

definition replace_char :: "char \<Rightarrow> char \<Rightarrow> string \<Rightarrow> string" where
  "replace_char a b s = map (\<lambda>c. if c = a then b else c) s"

definition normalize_seat_type :: "string option \<Rightarrow> string option" where
  "normalize_seat_type v =
     map_option (\<lambda>s. replace_char (CHR ''-'') (CHR ''_'') (py_lower s)) (clean_account_identity_part v)"

definition default_email :: string where
  "default_email = ''unknown@example.com''"

definition fallback_account_id :: "(string \<Rightarrow> string) \<Rightarrow> string \<Rightarrow> string option \<Rightarrow> string" where
  "fallback_account_id sha256 uuid_hex email =
     (case nonempty_str email of
        Some e \<Rightarrow> if e \<noteq> default_email then ''email_'' @ take 12 (sha256 e) else ''local_'' @ take 12 uuid_hex
      | None \<Rightarrow> ''local_'' @ take 12 uuid_hex)"

definition generate_unique_account_id ::
  "(string \<Rightarrow> string) \<Rightarrow> string \<Rightarrow> string option \<Rightarrow> string option \<Rightarrow> string option \<Rightarrow> string option \<Rightarrow> string" where
  "generate_unique_account_id sha256 uuid_hex account_id email workspace_id workspace_label =
     (let workspace_key = first_some (clean_account_identity_part workspace_id) (clean_account_identity_part workspace_label) in
      case nonempty_str account_id of
        None \<Rightarrow> fallback_account_id sha256 uuid_hex email
      | Some aid \<Rightarrow>
          (case workspace_key of
             Some key \<Rightarrow> aid @ ''_'' @ take 8 (sha256 key)
           | None \<Rightarrow>
               (case nonempty_str email of
                  Some e \<Rightarrow> if e \<noteq> default_email then aid @ ''_'' @ take 8 (sha256 e) else aid
                | None \<Rightarrow> aid)))"

section \<open>The answer of the authorization server\<close>

record oauth_token_payload =
  op_access_token :: "string option"
  op_refresh_token :: "string option"
  op_id_token :: "string option"
  op_error :: "json option"
  op_error_description :: "string option"
  op_message :: "string option"
  op_error_code :: "string option"
  op_code :: "string option"

definition json_or :: "json option \<Rightarrow> json option \<Rightarrow> json option" where
  "json_or a b = (case a of Some v \<Rightarrow> if json_truthy v then Some v else b | None \<Rightarrow> b)"

definition extract_error_code :: "oauth_token_payload \<Rightarrow> string option" where
  "extract_error_code p =
     (case op_error p of
        Some (JObj e) \<Rightarrow> json_str (json_or (map_of e ''code'') (map_of e ''error''))
      | Some (JStr s) \<Rightarrow> Some s
      | _ \<Rightarrow> truthy_or (op_error_code p) (op_code p))"

definition extract_error_message :: "oauth_token_payload \<Rightarrow> string option" where
  "extract_error_message p =
     (case op_error p of
        Some (JObj e) \<Rightarrow> json_str (json_or (map_of e ''message'') (map_of e ''error_description''))
      | Some (JStr s) \<Rightarrow> truthy_or (op_error_description p) (Some s)
      | _ \<Rightarrow> op_message p)"

definition classify_refresh_error :: "string option \<Rightarrow> bool" where
  "classify_refresh_error code =
     (case nonempty_str code of None \<Rightarrow> False | Some c \<Rightarrow> map_of PERMANENT_FAILURE_CODES c \<noteq> None)"

definition refresh_error_from_payload :: "oauth_token_payload \<Rightarrow> nat \<Rightarrow> refresh_error" where
  "refresh_error_from_payload p status =
     (let code = (case nonempty_str (extract_error_code p) of Some c \<Rightarrow> c | None \<Rightarrow> ''http_'' @ show_nat status);
          message = (case nonempty_str (extract_error_message p) of
             Some m \<Rightarrow> m | None \<Rightarrow> ''Token refresh failed ('' @ show_nat status @ '')'')
      in \<lparr>re_code = code, re_message = message, re_is_permanent = classify_refresh_error (Some code), re_transport_error = False\<rparr>)"

text \<open>What the request ended with: no answer, an answer that is no token payload, or a status with a payload.\<close>

datatype http_outcome = TransportFailure string | InvalidPayload | Answered nat oauth_token_payload

definition refresh_access_token ::
  "(string \<Rightarrow> id_token_claims) \<Rightarrow> http_outcome \<Rightarrow> refresh_error + token_refresh_result" where
  "refresh_access_token claims_of outcome =
     (case outcome of
        TransportFailure message \<Rightarrow>
          Inl \<lparr>re_code = ''transport_error'', re_message = ''Transport error during token refresh: '' @ message,
               re_is_permanent = False, re_transport_error = True\<rparr>
      | InvalidPayload \<Rightarrow>
          Inl \<lparr>re_code = ''invalid_response'', re_message = ''Refresh response invalid'',
               re_is_permanent = False, re_transport_error = False\<rparr>
      | Answered status p \<Rightarrow>
          if 400 \<le> status then Inl (refresh_error_from_payload p status)
          else
            (case (nonempty_str (op_access_token p), nonempty_str (op_refresh_token p), nonempty_str (op_id_token p)) of
               (Some access, Some refresh, Some idt) \<Rightarrow>
                 (let c = claims_of idt; a = it_auth c; top = it_claims c in
                  Inr \<lparr>tr_access_token = access, tr_refresh_token = refresh, tr_id_token = idt,
                       tr_account_id = truthy_or (cl_account_id a) (cl_account_id top),
                       tr_plan_type = truthy_or (cl_plan_type a) (cl_plan_type top),
                       tr_email = it_email c,
                       tr_workspace_id = clean_account_identity_part (truthy_or (cl_workspace_id a) (cl_workspace_id top)),
                       tr_workspace_label = clean_account_identity_part (truthy_or (cl_workspace_label a) (cl_workspace_label top)),
                       tr_seat_type = normalize_seat_type (truthy_or (cl_seat_type a) (cl_seat_type top))\<rparr>)
             | _ \<Rightarrow> Inl \<lparr>re_code = ''invalid_response'', re_message = ''Refresh response missing tokens'',
                         re_is_permanent = False, re_transport_error = False\<rparr>))"

section \<open>The account table\<close>

definition auth_update_status :: "string \<Rightarrow> AccountStatus \<Rightarrow> string option \<Rightarrow> auth_account list \<Rightarrow> auth_account list" where
  "auth_update_status account_id status reason rows =
     update_rows (\<lambda>r. acct_id r = account_id)
       (\<lambda>r. r\<lparr>acct_status := status, acct_deactivation_reason := reason, acct_reset_at := None\<rparr>) rows"

definition keep_none :: "'a option \<Rightarrow> 'a option \<Rightarrow> 'a option" where
  "keep_none new old = (case new of Some v \<Rightarrow> Some v | None \<Rightarrow> old)"

text \<open>The columns an update carries are those of an account value; an absent one leaves the column as it is.\<close>

definition update_tokens :: "auth_account \<Rightarrow> string option \<Rightarrow> auth_account list \<Rightarrow> auth_account list" where
  "update_tokens a workspace_id rows =
     update_rows (\<lambda>r. acct_id r = acct_id a)
       (\<lambda>r. r\<lparr>aa_access_token := aa_access_token a, aa_refresh_token := aa_refresh_token a, aa_id_token := aa_id_token a,
             aa_last_refresh := aa_last_refresh a, acct_plan_type := acct_plan_type a, aa_email := aa_email a,
             aa_chatgpt_account_id := keep_none (aa_chatgpt_account_id a) (aa_chatgpt_account_id r),
             aa_workspace_id := keep_none workspace_id (aa_workspace_id r),
             aa_workspace_label := keep_none (aa_workspace_label a) (aa_workspace_label r),
             aa_seat_type := keep_none (aa_seat_type a) (aa_seat_type r)\<rparr>) rows"

definition slot_owner :: "string \<Rightarrow> string option \<Rightarrow> string \<Rightarrow> auth_account \<Rightarrow> bool" where
  "slot_owner email chatgpt_account_id workspace_id r \<longleftrightarrow>
     (case nonempty_str chatgpt_account_id of
        Some cid \<Rightarrow>
          (aa_chatgpt_account_id r = Some cid \<and> aa_workspace_id r = Some workspace_id) \<or>
          (aa_email r = email \<and> aa_workspace_id r = Some workspace_id \<and> aa_chatgpt_account_id r = None)
      | None \<Rightarrow> aa_email r = email \<and> aa_workspace_id r = Some workspace_id)"

definition workspace_slot_taken :: "string \<Rightarrow> string \<Rightarrow> string option \<Rightarrow> string \<Rightarrow> auth_account list \<Rightarrow> bool" where
  "workspace_slot_taken account_id email chatgpt_account_id workspace_id rows =
     any_row (\<lambda>r. acct_id r \<noteq> account_id \<and> slot_owner email chatgpt_account_id workspace_id r) rows"

section \<open>Refreshing\<close>

definition should_refresh :: "int option \<Rightarrow> datetime \<Rightarrow> real \<Rightarrow> bool" where
  "should_refresh interval_days last_refresh now = (now - utc_seconds last_refresh > of_int (or_else interval_days 8) * 86400)"

definition token_fingerprint :: "token_crypto \<Rightarrow> string \<Rightarrow> string" where
  "token_fingerprint cr token_encrypted =
     cr_sha256 cr (case cr_decrypt cr token_encrypted of Some material \<Rightarrow> material | None \<Rightarrow> token_encrypted)"

definition refresh_key_of :: "token_crypto \<Rightarrow> auth_account \<Rightarrow> refresh_key" where
  "refresh_key_of cr a = (acct_id a, token_fingerprint cr (aa_refresh_token a))"

text \<open>The workspace the account has after the refresh, and the account itself.\<close>

definition next_workspace :: "token_refresh_result \<Rightarrow> auth_account \<Rightarrow> auth_account list \<Rightarrow> string option" where
  "next_workspace result a rows =
     (case (clean_account_identity_part (aa_workspace_id a), clean_account_identity_part (tr_workspace_id result)) of
        (None, Some incoming) \<Rightarrow>
          if workspace_slot_taken (acct_id a) (aa_email a) (aa_chatgpt_account_id a) incoming rows then None else Some incoming
      | (current, _) \<Rightarrow> current)"

definition with_result :: "token_crypto \<Rightarrow> real \<Rightarrow> token_refresh_result \<Rightarrow> auth_account \<Rightarrow> auth_account" where
  "with_result cr now result a =
     a\<lparr>aa_access_token := cr_encrypt cr (tr_access_token result),
       aa_refresh_token := cr_encrypt cr (tr_refresh_token result),
       aa_id_token := cr_encrypt cr (tr_id_token result),
       aa_last_refresh := Naive now,
       aa_chatgpt_account_id := truthy_or (tr_account_id result) (aa_chatgpt_account_id a),
       acct_plan_type := (case tr_plan_type result of
          Some p \<Rightarrow> coerce_account_plan_type (Some p) (if acct_plan_type a = [] then ''unknown'' else acct_plan_type a)
        | None \<Rightarrow> if acct_plan_type a = [] then ''unknown'' else acct_plan_type a),
       aa_email := (case nonempty_str (tr_email result) of Some e \<Rightarrow> e | None \<Rightarrow> aa_email a)\<rparr>"

definition with_workspace :: "token_refresh_result \<Rightarrow> string option \<Rightarrow> auth_account \<Rightarrow> auth_account" where
  "with_workspace result next_ws a =
     (let incoming = clean_account_identity_part (tr_workspace_id result);
          adopted = (clean_account_identity_part (aa_workspace_id a) = None \<and> next_ws \<noteq> None);
          matches = (incoming = None \<or> incoming = next_ws)
      in a\<lparr>aa_workspace_id := (if adopted then next_ws else aa_workspace_id a),
           aa_workspace_label := (if matches then truthy_or (tr_workspace_label result) (aa_workspace_label a) else aa_workspace_label a),
           aa_seat_type := (if matches then truthy_or (tr_seat_type result) (aa_seat_type a) else aa_seat_type a)\<rparr>)"

datatype auth_failure = RefreshFailed refresh_error | DecryptFailed

text \<open>
  The account is the value the caller holds, which may be older than its row. Reads and writes are separate awaits, between
  which others write: \<open>latest\<close> is what \<open>get_by_id\<close> has returned (possibly an object the session has kept), \<open>seen\<close> the table
  when the workspace slot was looked up, and \<open>rows\<close> the table when the status or the tokens are written.
\<close>

definition refresh_account ::
  "token_crypto \<Rightarrow> real \<Rightarrow> refresh_error + token_refresh_result \<Rightarrow> auth_account \<Rightarrow> auth_account option \<Rightarrow> auth_account list
   \<Rightarrow> auth_account list \<Rightarrow> (auth_failure + auth_account) \<times> auth_account list" where
  "refresh_account cr now outcome a latest seen rows =
     (if cr_decrypt cr (aa_refresh_token a) = None then (Inl DecryptFailed, rows)
      else case outcome of
        Inl e \<Rightarrow>
          if re_is_permanent e
          then (let refused =
                  (Inl (RefreshFailed e),
                   auth_update_status (acct_id a) (account_status_for_permanent_failure (re_code e))
                     (Some (default (map_of PERMANENT_FAILURE_CODES (re_code e)) (re_message e))) rows)
                in case latest of
                  Some l \<Rightarrow>
                    if token_fingerprint cr (aa_refresh_token l) \<noteq> token_fingerprint cr (aa_refresh_token a)
                    then (Inr l, rows) else refused
                | None \<Rightarrow> refused)
          else (Inl (RefreshFailed e), rows)
      | Inr result \<Rightarrow>
          (let a = with_result cr now result a;
               next_ws = next_workspace result a seen;
               a = with_workspace result next_ws a
           in (Inr a, update_tokens a next_ws rows)))"

definition ensure_chatgpt_account_id ::
  "token_crypto \<Rightarrow> (string \<Rightarrow> id_token_claims) \<Rightarrow> auth_account \<Rightarrow> auth_account list \<Rightarrow> auth_account \<times> auth_account list" where
  "ensure_chatgpt_account_id cr claims_of a rows =
     (if nonempty_str (aa_chatgpt_account_id a) \<noteq> None then (a, rows)
      else case cr_decrypt cr (aa_id_token a) of
        None \<Rightarrow> (a, rows)
      | Some idt \<Rightarrow>
          (let c = claims_of idt in
           case nonempty_str (truthy_or (cl_account_id (it_auth c)) (cl_account_id (it_claims c))) of
             None \<Rightarrow> (a, rows)
           | Some cid \<Rightarrow>
               (let a = a\<lparr>aa_chatgpt_account_id := Some cid\<rparr> in (a, update_tokens a (aa_workspace_id a) rows))))"

section \<open>What a refusal may do\<close>

lemma list_all2_update_rows: "(\<And>r. r \<in> set rows \<Longrightarrow> R r (if P r then f r else r)) \<Longrightarrow> list_all2 R rows (update_rows P f rows)"
  by (induction rows) (auto simp: update_rows_def)

lemma refused_is_permanent:
  assumes "refresh_access_token claims_of outcome = Inl e" and "re_is_permanent e"
  shows "\<exists>status p. outcome = Answered status p \<and> 400 \<le> status \<and> map_of PERMANENT_FAILURE_CODES (re_code e) \<noteq> None \<and>
    e = refresh_error_from_payload p status"
  using assms
  by (auto simp: refresh_access_token_def refresh_error_from_payload_def classify_refresh_error_def Let_def
      split: http_outcome.splits if_splits option.splits dest: nonempty_strD)

lemma update_tokens_status: "list_all2 (\<lambda>r r'. acct_status r' = acct_status r) rows (update_tokens a ws rows)"
  unfolding update_tokens_def by (rule list_all2_update_rows) simp

text \<open>
  C17: An account is taken out of service only when its token was refused. Whatever others write between the awaits of a
  refresh, its own write changes the status of a row only when the authorization server has answered with an error status
  and a code that is known to be permanent, the row is the account's, and the account it has read back after the refusal
  was gone or still had the refused token; then the status is the one of that code. A transport failure, an unusable
  answer, an unknown code and a token that was found rotated leave every status as it was. (A rotation between that read
  and the write is not noticed, see the lemma \<open>rotation_after_the_check_is_lost\<close>.)
\<close>

theorem deactivated_only_when_refused:
  assumes "refresh_account cr now (refresh_access_token claims_of outcome) a latest seen rows = (res, rows')"
  shows "list_all2 (\<lambda>r r'. acct_status r' = acct_status r \<or>
      (acct_id r = acct_id a \<and>
       (case latest of
          None \<Rightarrow> True
        | Some l \<Rightarrow> token_fingerprint cr (aa_refresh_token l) = token_fingerprint cr (aa_refresh_token a)) \<and>
       (\<exists>status p. outcome = Answered status p \<and> 400 \<le> status \<and>
          map_of PERMANENT_FAILURE_CODES (re_code (refresh_error_from_payload p status)) \<noteq> None \<and>
          acct_status r' = account_status_for_permanent_failure (re_code (refresh_error_from_payload p status)))))
    rows rows'"
    (is "list_all2 ?R rows rows'")
proof (cases "rows' = rows")
  case True
  then show ?thesis by (simp add: list_all2_refl)
next
  case False
  show ?thesis
  proof (cases "refresh_access_token claims_of outcome")
    case (Inr result)
    then obtain a' ws where "rows' = update_tokens a' ws rows"
      using assms False by (auto simp: refresh_account_def Let_def split: if_splits)
    then show ?thesis using update_tokens_status [of rows a' ws] by (auto elim: list_all2_mono)
  next
    case (Inl e)
    then have refused: "re_is_permanent e" and
      same: "case latest of None \<Rightarrow> True | Some l \<Rightarrow> token_fingerprint cr (aa_refresh_token l) = token_fingerprint cr (aa_refresh_token a)" and
      rows': "rows' = auth_update_status (acct_id a) (account_status_for_permanent_failure (re_code e))
        (Some (default (map_of PERMANENT_FAILURE_CODES (re_code e)) (re_message e))) rows"
      using assms False by (auto simp: refresh_account_def Let_def split: if_splits option.splits)
    obtain status p where answer: "outcome = Answered status p" "400 \<le> status"
      "map_of PERMANENT_FAILURE_CODES (re_code e) \<noteq> None" "e = refresh_error_from_payload p status"
      using refused_is_permanent [OF Inl refused] by blast
    show ?thesis
      unfolding rows' auth_update_status_def using same answer by (intro list_all2_update_rows) auto
  qed
qed

section \<open>Workspace slots\<close>

lemma with_result_workspace [simp]:
  "aa_workspace_id (with_result cr now result a) = aa_workspace_id a" "acct_id (with_result cr now result a) = acct_id a"
  by (simp_all add: with_result_def)

lemma with_workspace_fields [simp]:
  "acct_id (with_workspace result ws a) = acct_id a" "aa_email (with_workspace result ws a) = aa_email a"
  "aa_chatgpt_account_id (with_workspace result ws a) = aa_chatgpt_account_id a"
  "aa_refresh_token (with_workspace result ws a) = aa_refresh_token a"
  by (simp_all add: with_workspace_def Let_def)

lemma clean_idem [simp]: "clean_account_identity_part (clean_account_identity_part v) = clean_account_identity_part v"
  by (cases v) (auto simp: clean_account_identity_part_def nonempty_str_def split: option.splits list.splits dest: sym)

lemma clean_Some: "clean_account_identity_part v = Some w \<Longrightarrow> clean_account_identity_part (Some w) = Some w"
  using clean_idem [of v] by simp

text \<open>
  A refresh never moves an account to another workspace slot. A known workspace stays, whatever the token says; an
  account without one adopts the workspace of the token only when no other account owned that slot under the same
  identity when it was looked up; and the rows of other accounts are not touched.
\<close>

theorem refresh_keeps_workspace_slot:
  assumes "refresh_account cr now (Inr result) a latest seen rows = (Inr a', rows')"
  shows "list_all2 (\<lambda>r r'. acct_id r = acct_id a \<or> r' = r) rows rows' \<and>
    (case clean_account_identity_part (aa_workspace_id a) of
       Some w \<Rightarrow> aa_workspace_id a' = aa_workspace_id a
     | None \<Rightarrow>
         (case clean_account_identity_part (aa_workspace_id a') of
            None \<Rightarrow> True
          | Some w \<Rightarrow> clean_account_identity_part (tr_workspace_id result) = Some w \<and>
              list_all (\<lambda>r. if acct_id r = acct_id a then True
                            else \<not> slot_owner (aa_email a') (aa_chatgpt_account_id a') w r) seen))"
proof -
  define b where "b = with_result cr now result a"
  define ws where "ws = next_workspace result b seen"
  have a': "a' = with_workspace result ws b" "rows' = update_tokens a' ws rows"
    using assms by (auto simp: refresh_account_def Let_def b_def ws_def split: if_splits)
  have ids: "acct_id a' = acct_id a" "aa_workspace_id b = aa_workspace_id a" by (simp_all add: a'(1) b_def)
  have others: "list_all2 (\<lambda>r r'. acct_id r = acct_id a \<or> r' = r) rows rows'"
    unfolding a'(2) update_tokens_def ids(1) by (rule list_all2_update_rows) simp
  show ?thesis
  proof (cases "clean_account_identity_part (aa_workspace_id a)")
    case (Some w)
    then show ?thesis using others ids by (simp add: a'(1) with_workspace_def Let_def)
  next
    case None
    then have workspace: "aa_workspace_id a' = (if ws \<noteq> None then ws else aa_workspace_id a)"
      using ids by (simp add: a'(1) with_workspace_def Let_def)
    show ?thesis
    proof (cases ws)
      case None': None
      then show ?thesis using others None workspace by simp
    next
      case (Some w)
      then have incoming: "clean_account_identity_part (tr_workspace_id result) = Some w"
        and free: "\<not> workspace_slot_taken (acct_id a) (aa_email b) (aa_chatgpt_account_id b) w seen"
        using None ids(2) by (auto simp: ws_def next_workspace_def b_def split: option.splits if_splits)
      have "aa_email b = aa_email a'" "aa_chatgpt_account_id b = aa_chatgpt_account_id a'" by (simp_all add: a'(1))
      then have "list_all (\<lambda>r. if acct_id r = acct_id a then True else \<not> slot_owner (aa_email a') (aa_chatgpt_account_id a') w r) seen"
        using free unfolding workspace_slot_taken_def any_row_iff by (auto simp: list_all_iff)
      then show ?thesis using others None workspace Some incoming clean_Some [OF incoming] by simp
    qed
  qed
qed

section \<open>Examples\<close>

definition plain_crypto :: token_crypto where
  "plain_crypto = \<lparr>cr_encrypt = (\<lambda>t. ''enc:'' @ t), cr_decrypt = (\<lambda>c. Some (drop 4 c)), cr_sha256 = (\<lambda>t. t)\<rparr>"

definition refresh_example_account :: "string \<Rightarrow> string \<Rightarrow> string option \<Rightarrow> auth_account" where
  "refresh_example_account aid token ws =
     \<lparr>acct_id = aid, acct_plan_type = ''plus'', acct_routing_policy = ''normal'', acct_status = ACTIVE,
      acct_deactivation_reason = None, acct_reset_at = None, acct_blocked_at = None, acct_security_work_authorized = False,
      aa_chatgpt_account_id = Some ''c1'', aa_email = ''a@x'', aa_workspace_id = ws, aa_workspace_label = None,
      aa_seat_type = None, aa_access_token = [], aa_refresh_token = ''enc:'' @ token, aa_id_token = [], aa_last_refresh = Naive 0\<rparr>"

definition refused_answer :: http_outcome where
  "refused_answer =
     Answered 400 \<lparr>op_access_token = None, op_refresh_token = None, op_id_token = None, op_error = Some (JStr ''invalid_grant''),
       op_error_description = None, op_message = None, op_error_code = None, op_code = None\<rparr>"

definition no_claims :: "string \<Rightarrow> id_token_claims" where
  "no_claims t =
     (let none = \<lparr>cl_account_id = None, cl_plan_type = None, cl_workspace_id = None, cl_workspace_label = None, cl_seat_type = None\<rparr>
      in \<lparr>it_email = None, it_claims = none, it_auth = none\<rparr>)"

text \<open>The same refusal when the account is read back with the refused token, and when its token was replaced meanwhile.\<close>

theorem deactivated_only_when_refused_witness:
  "map acct_status (snd (refresh_account plain_crypto 0 (refresh_access_token no_claims refused_answer)
     (refresh_example_account ''a'' ''t1'' None) (Some (refresh_example_account ''a'' ''t1'' None)) []
     [refresh_example_account ''a'' ''t1'' None])) = [REAUTH_REQUIRED] \<and>
   list_all2 (\<lambda>r r'. acct_status r' = acct_status r) [refresh_example_account ''a'' ''t2'' None]
     (snd (refresh_account plain_crypto 0 (refresh_access_token no_claims refused_answer)
        (refresh_example_account ''a'' ''t1'' None) (Some (refresh_example_account ''a'' ''t2'' None)) []
        [refresh_example_account ''a'' ''t2'' None]))"
proof -
  have "map acct_status (snd (refresh_account plain_crypto 0 (refresh_access_token no_claims refused_answer)
     (refresh_example_account ''a'' ''t1'' None) (Some (refresh_example_account ''a'' ''t1'' None)) []
     [refresh_example_account ''a'' ''t1'' None])) = [REAUTH_REQUIRED]" by code_simp
  moreover have "token_fingerprint plain_crypto (aa_refresh_token (refresh_example_account ''a'' ''t2'' None)) \<noteq>
    token_fingerprint plain_crypto (aa_refresh_token (refresh_example_account ''a'' ''t1'' None))" by code_simp
  ultimately show ?thesis
    using deactivated_only_when_refused [of plain_crypto 0 no_claims refused_answer "refresh_example_account ''a'' ''t1'' None"
        "Some (refresh_example_account ''a'' ''t2'' None)" "[]" "[refresh_example_account ''a'' ''t2'' None]", OF surjective_pairing]
    by (auto simp: list_all2_Cons1)
qed

text \<open>
  The check and the write are not one: when another process stores a new token after the account was read back, the
  unconditional write takes the account with its valid token out of service.
\<close>

lemma rotation_after_the_check_is_lost:
  "let a = refresh_example_account ''a'' ''t1'' None;
       rotated = refresh_example_account ''a'' ''t2'' None
   in map (\<lambda>r. (aa_refresh_token r, acct_status r))
        (snd (refresh_account plain_crypto 0 (refresh_access_token no_claims refused_answer) a (Some a) [] [rotated])) =
      [(''enc:t2'', REAUTH_REQUIRED)]"
  by code_simp

definition workspace_result :: token_refresh_result where
  "workspace_result =
     \<lparr>tr_access_token = ''x'', tr_refresh_token = ''y'', tr_id_token = ''z'', tr_account_id = None, tr_plan_type = None,
      tr_email = None, tr_workspace_id = Some ''w1'', tr_workspace_label = Some ''L'', tr_seat_type = None\<rparr>"

theorem refresh_keeps_workspace_slot_witness:
  "\<exists>a' rows'. refresh_account plain_crypto 0 (Inr workspace_result) (refresh_example_account ''a'' ''t1'' None) None
       [refresh_example_account ''a'' ''t1'' None, refresh_example_account ''b'' ''t'' (Some ''w1'')]
       [refresh_example_account ''a'' ''t1'' None, refresh_example_account ''b'' ''t'' (Some ''w1'')] = (Inr a', rows') \<and>
     clean_account_identity_part (aa_workspace_id a') = None \<and>
     list_all2 (\<lambda>r r'. acct_id r = ''a'' \<or> r' = r)
       [refresh_example_account ''a'' ''t1'' None, refresh_example_account ''b'' ''t'' (Some ''w1'')] rows'"
proof -
  let ?a = "refresh_example_account ''a'' ''t1'' None" and ?rows = "[refresh_example_account ''a'' ''t1'' None, refresh_example_account ''b'' ''t'' (Some ''w1'')]"
  have "case fst (refresh_account plain_crypto 0 (Inr workspace_result) ?a None ?rows ?rows) of
    Inr a' \<Rightarrow> clean_account_identity_part (aa_workspace_id a') = None | Inl _ \<Rightarrow> False" by code_simp
  then obtain a' rows' where refresh: "refresh_account plain_crypto 0 (Inr workspace_result) ?a None ?rows ?rows = (Inr a', rows')"
    and none: "clean_account_identity_part (aa_workspace_id a') = None"
    by (cases "refresh_account plain_crypto 0 (Inr workspace_result) ?a None ?rows ?rows") (auto split: sum.splits)
  moreover have "acct_id ?a = ''a''" by (simp add: refresh_example_account_def)
  ultimately show ?thesis using refresh_keeps_workspace_slot [OF refresh] by auto
qed

end
