(* ===== verification/Upstream_Routes.thy ===== *)
theory Upstream_Routes
  imports Prelude
begin

text \<open>
  Egress through proxies: the resolution of the route for an account (\<open>app/core/upstream_proxy/resolver.py\<close>), the
  endpoints of a route (\<open>types.py\<close>), and the client that sends a request over the endpoints of a route in turn
  (\<open>CodexClient\<close> of \<open>app/core/clients/codex.py\<close>). Decryption of the proxy password and the attempt to send over an
  endpoint are arguments.
\<close>

section \<open>Configuration\<close>

record proxy_endpoint =
  pe_id :: string
  pe_scheme :: string
  pe_host :: string
  pe_port :: int
  pe_username :: "string option"
  pe_password_encrypted :: "string option"
  pe_is_active :: bool

record proxy_pool =
  po_id :: string
  po_is_active :: bool

record proxy_pool_member =
  pm_id :: int
  pm_pool_id :: string
  pm_is_active :: bool
  pm_sort_order :: int
  pm_endpoint :: "proxy_endpoint option"

record proxy_binding =
  pb_account_id :: string
  pb_pool_id :: string
  pb_is_active :: bool

record proxy_settings =
  ps_routing_enabled :: bool
  ps_default_pool_id :: "string option"

text \<open>A lookup fails with an operational error, which may be that the tables or columns of the feature are missing.\<close>

datatype db_error = MissingSchema | OtherDbError

record proxy_db =
  pd_bindings :: "db_error + proxy_binding list"
  pd_settings :: "db_error + proxy_settings option"
  pd_pools :: "proxy_pool list"
  pd_members :: "proxy_pool_member list"

record resolved_endpoint =
  ep_id :: string
  ep_scheme :: string
  ep_host :: string
  ep_port :: int
  ep_username :: "string option"
  ep_password :: "string option"

record upstream_route =
  ro_mode :: string
  ro_pool_id :: string
  ro_endpoint :: resolved_endpoint
  ro_fallbacks :: "resolved_endpoint list"

datatype route_error = UpstreamProxyRouteError string | DbError db_error

section \<open>Resolution\<close>

definition supported_schemes :: "string list" where
  "supported_schemes = [''http'', ''https'', ''socks5'', ''socks5h'']"

definition resolve_endpoint :: "(string \<Rightarrow> string option) \<Rightarrow> proxy_endpoint \<Rightarrow> route_error + resolved_endpoint" where
  "resolve_endpoint decrypt e =
     (let scheme = py_strip (py_lower (pe_scheme e)) in
      if scheme \<notin> set supported_schemes then Inl (UpstreamProxyRouteError ''unsupported_proxy_scheme'')
      else case pe_password_encrypted e of
        None \<Rightarrow> Inr \<lparr>ep_id = pe_id e, ep_scheme = scheme, ep_host = pe_host e, ep_port = pe_port e,
                    ep_username = pe_username e, ep_password = None\<rparr>
      | Some c \<Rightarrow>
          (case decrypt c of
             None \<Rightarrow> Inl (UpstreamProxyRouteError ''proxy_credentials_undecryptable'')
           | Some password \<Rightarrow>
               Inr \<lparr>ep_id = pe_id e, ep_scheme = scheme, ep_host = pe_host e, ep_port = pe_port e,
                    ep_username = pe_username e, ep_password = Some password\<rparr>))"

fun resolve_endpoints :: "(string \<Rightarrow> string option) \<Rightarrow> proxy_endpoint list \<Rightarrow> route_error + resolved_endpoint list" where
  "resolve_endpoints decrypt [] = Inr []"
| "resolve_endpoints decrypt (e # es) =
     (case resolve_endpoint decrypt e of
        Inl err \<Rightarrow> Inl err
      | Inr r \<Rightarrow> (case resolve_endpoints decrypt es of Inl err \<Rightarrow> Inl err | Inr rs \<Rightarrow> Inr (r # rs)))"

text \<open>The active endpoints of a pool, in the order of the members.\<close>

definition pool_endpoints :: "string \<Rightarrow> proxy_db \<Rightarrow> proxy_endpoint list" where
  "pool_endpoints pool_id db =
     filter pe_is_active (List.map_filter pm_endpoint
       (sort_key pm_sort_order (sort_key pm_id (filter (\<lambda>m. pm_pool_id m = pool_id \<and> pm_is_active m) (pd_members db)))))"

definition resolve_pool ::
  "(string \<Rightarrow> string option) \<Rightarrow> string \<Rightarrow> string \<Rightarrow> proxy_db \<Rightarrow> route_error + upstream_route" where
  "resolve_pool decrypt pool_id mode db =
     (case find (\<lambda>p. po_id p = pool_id) (pd_pools db) of
        None \<Rightarrow> Inl (UpstreamProxyRouteError ''pool_unavailable'')
      | Some pool \<Rightarrow>
          if \<not> po_is_active pool then Inl (UpstreamProxyRouteError ''pool_unavailable'')
          else case resolve_endpoints decrypt (pool_endpoints pool_id db) of
            Inl err \<Rightarrow> Inl err
          | Inr [] \<Rightarrow> Inl (UpstreamProxyRouteError ''pool_has_no_active_endpoints'')
          | Inr (e # es) \<Rightarrow> Inr \<lparr>ro_mode = mode, ro_pool_id = pool_id, ro_endpoint = e, ro_fallbacks = es\<rparr>)"

definition lookup_account_binding :: "string option \<Rightarrow> proxy_db \<Rightarrow> db_error + proxy_binding option" where
  "lookup_account_binding account_id db =
     (case account_id of
        None \<Rightarrow> Inr None
      | Some a \<Rightarrow>
          if a = [] then Inr None
          else case pd_bindings db of
            Inl e \<Rightarrow> Inl e | Inr bs \<Rightarrow> Inr (find (\<lambda>b. pb_account_id b = a \<and> pb_is_active b) bs))"

definition resolve_default_pool ::
  "(string \<Rightarrow> string option) \<Rightarrow> bool option \<Rightarrow> string \<Rightarrow> proxy_db \<Rightarrow> route_error + upstream_route option" where
  "resolve_default_pool decrypt strict scope db =
     (case pd_settings db of
        Inl e \<Rightarrow> if strict = Some True \<or> e \<noteq> MissingSchema then Inl (DbError e) else Inr None
      | Inr settings \<Rightarrow>
          (let strict_enabled = (case strict of Some b \<Rightarrow> b | None \<Rightarrow> (case settings of Some s \<Rightarrow> ps_routing_enabled s | None \<Rightarrow> False))
           in if \<not> strict_enabled then Inr None
              else case Option.bind settings ps_default_pool_id of
                None \<Rightarrow> Inl (UpstreamProxyRouteError ''default_pool_unconfigured'')
              | Some pool_id \<Rightarrow>
                  if pool_id = [] then Inl (UpstreamProxyRouteError ''default_pool_unconfigured'')
                  else if scope \<notin> set [''account'', ''service'', ''bootstrap''] then Inl (UpstreamProxyRouteError ''unsupported_route_scope'')
                  else map_sum id Some (resolve_pool decrypt pool_id ''default_pool'' db)))"

definition resolve_upstream_route ::
  "(string \<Rightarrow> string option) \<Rightarrow> bool option \<Rightarrow> string \<Rightarrow> string option \<Rightarrow> proxy_db \<Rightarrow> route_error + upstream_route option" where
  "resolve_upstream_route decrypt strict scope account_id db =
     (case lookup_account_binding account_id db of
        Inl e \<Rightarrow> if strict = Some True \<or> e \<noteq> MissingSchema then Inl (DbError e) else Inr None
      | Inr (Some binding) \<Rightarrow> map_sum id Some (resolve_pool decrypt (pb_pool_id binding) ''account_bound'' db)
      | Inr None \<Rightarrow> resolve_default_pool decrypt strict scope db)"

section \<open>Sending\<close>

definition is_idempotent_method :: "string \<Rightarrow> bool" where
  "is_idempotent_method method = (py_upper method \<in> set [''GET'', ''HEAD'', ''OPTIONS'', ''TRACE''])"

text \<open>The URL of an endpoint; \<open>quote\<close> is the percent-encoding of the standard library.\<close>

definition proxy_url :: "(string \<Rightarrow> string) \<Rightarrow> resolved_endpoint \<Rightarrow> string" where
  "proxy_url quote e =
     (let scheme = (if ep_scheme e = ''socks5'' then ''socks5h'' else ep_scheme e);
          auth = (case ep_username e of
             Some u \<Rightarrow> if u = [] then [] else quote u @ '':'' @ quote (default (ep_password e) []) @ ''@'' | None \<Rightarrow> [])
      in scheme @ ''://'' @ auth @ ep_host e @ '':'' @ show_int (ep_port e))"

text \<open>
  The endpoints in turn: the answer with the number of the endpoint, or the failure of the last attempt, together with the
  endpoints over which an attempt was made.
\<close>

fun try_endpoints ::
  "bool \<Rightarrow> (resolved_endpoint \<Rightarrow> 'e + 'r) \<Rightarrow> nat \<Rightarrow> resolved_endpoint list
   \<Rightarrow> ('e + 'r \<times> nat) option \<times> resolved_endpoint list" where
  "try_endpoints allow_fallback attempt index [] = (None, [])"
| "try_endpoints allow_fallback attempt index (e # es) =
     (case attempt e of
        Inr r \<Rightarrow> (Some (Inr (r, index)), [e])
      | Inl err \<Rightarrow>
          if es = [] \<or> \<not> allow_fallback then (Some (Inl err), [e])
          else let (res, tried) = try_endpoints allow_fallback attempt (index + 1) es in (res, e # tried))"

definition route_endpoints :: "upstream_route \<Rightarrow> resolved_endpoint list" where
  "route_endpoints r = ro_endpoint r # ro_fallbacks r"

definition codex_request ::
  "string \<Rightarrow> (resolved_endpoint \<Rightarrow> 'e + 'r) \<Rightarrow> upstream_route \<Rightarrow> ('e + 'r \<times> nat) option \<times> resolved_endpoint list" where
  "codex_request method attempt route = try_endpoints (is_idempotent_method method) attempt 0 (route_endpoints route)"

definition codex_open_ws ::
  "(resolved_endpoint \<Rightarrow> 'e + 'r) \<Rightarrow> upstream_route \<Rightarrow> ('e + 'r \<times> nat) option \<times> resolved_endpoint list" where
  "codex_open_ws attempt route = try_endpoints True attempt 0 (route_endpoints route)"

definition require_route_or_direct_egress_opt_in :: "upstream_route option \<Rightarrow> bool \<Rightarrow> bool" where
  "require_route_or_direct_egress_opt_in route allow_direct_egress = (route \<noteq> None \<or> allow_direct_egress)"

text \<open>
  The sending of a token refresh: the refusal of a direct call that was not asked for, then one POST, over the endpoints of
  the route or over the shared session. The egress of a call lists its attempts.
\<close>

datatype egress = Direct | Via resolved_endpoint

datatype egress_error = DirectEgressRefused | UpstreamProxyUnavailable string | LookupRaised db_error

definition send_token_refresh ::
  "(resolved_endpoint \<Rightarrow> 'e + 'r) \<Rightarrow> upstream_route option \<Rightarrow> bool \<Rightarrow> egress_error + egress list" where
  "send_token_refresh attempt route allow_direct_egress =
     (if \<not> require_route_or_direct_egress_opt_in route allow_direct_egress then Inl DirectEgressRefused
      else case route of
        Some r \<Rightarrow> Inr (map Via (snd (codex_request ''POST'' attempt r)))
      | None \<Rightarrow> Inr [Direct])"

definition refresh_tokens_egress ::
  "(string \<Rightarrow> string option) \<Rightarrow> (resolved_endpoint \<Rightarrow> 'e + 'r) \<Rightarrow> string \<Rightarrow> proxy_db \<Rightarrow> egress_error + egress list" where
  "refresh_tokens_egress decrypt attempt account_id db =
     (case resolve_upstream_route decrypt None ''account'' (Some account_id) db of
        Inl (UpstreamProxyRouteError reason) \<Rightarrow> Inl (UpstreamProxyUnavailable reason)
      | Inl (DbError e) \<Rightarrow> Inl (LookupRaised e)
      | Inr route \<Rightarrow> send_token_refresh attempt route (route = None))"

section \<open>Routes are fail-closed\<close>

definition bound_pool :: "string \<Rightarrow> proxy_db \<Rightarrow> string option" where
  "bound_pool account_id db =
     (case pd_bindings db of
        Inr bs \<Rightarrow> map_option pb_pool_id (find (\<lambda>b. pb_account_id b = account_id \<and> pb_is_active b) bs)
      | Inl _ \<Rightarrow> None)"

definition routing_enabled :: "proxy_db \<Rightarrow> bool" where
  "routing_enabled db = (case pd_settings db of Inr (Some s) \<Rightarrow> ps_routing_enabled s | _ \<Rightarrow> False)"

definition default_pool :: "proxy_db \<Rightarrow> string option" where
  "default_pool db = (case pd_settings db of Inr (Some s) \<Rightarrow> ps_default_pool_id s | _ \<Rightarrow> None)"

text \<open>One attempt, over the first active endpoint of the pool, whose scheme is supported and whose password is readable.\<close>

definition sent_once_over :: "(string \<Rightarrow> string option) \<Rightarrow> string \<Rightarrow> proxy_db \<Rightarrow> egress list \<Rightarrow> bool" where
  "sent_once_over decrypt pool db path \<longleftrightarrow>
     (\<exists>e es r. pool_endpoints pool db = e # es \<and> resolve_endpoint decrypt e = Inr r \<and> ep_scheme r \<in> set supported_schemes \<and> path = [Via r])"

lemma resolve_endpoint_fields:
  "resolve_endpoint decrypt e = Inr r \<Longrightarrow>
     ep_id r = pe_id e \<and> ep_host r = pe_host e \<and> ep_port r = pe_port e \<and> ep_scheme r \<in> set supported_schemes"
  by (auto simp: resolve_endpoint_def Let_def split: if_splits option.splits)

lemma resolve_endpoints_all2:
  "resolve_endpoints decrypt es = Inr rs \<Longrightarrow> list_all2 (\<lambda>e r. resolve_endpoint decrypt e = Inr r) es rs"
  by (induction es arbitrary: rs) (auto split: sum.splits)

lemma resolve_pool_route:
  assumes "resolve_pool decrypt pool_id mode db = Inr route"
  shows "ro_pool_id route = pool_id"
    and "list_all2 (\<lambda>e r. resolve_endpoint decrypt e = Inr r) (pool_endpoints pool_id db) (route_endpoints route)"
  using assms
  by (auto simp: resolve_pool_def route_endpoints_def split: option.splits if_splits sum.splits list.splits dest: resolve_endpoints_all2)

text \<open>Every endpoint that was tried before the last one has failed; a failure is reported only when no endpoint may follow.\<close>

lemma try_endpoints_result:
  assumes "es \<noteq> []"
  shows "case try_endpoints allow attempt i es of
      (Some (Inr (r, j)), tried) \<Rightarrow> i \<le> j \<and> attempt (es ! (j - i)) = Inr r \<and> length tried = Suc (j - i) \<and>
        list_all (\<lambda>e. \<exists>err. attempt e = Inl err) (take (j - i) es)
    | (Some (Inl err), tried) \<Rightarrow> if allow then tried = es \<and> list_all (\<lambda>e. \<exists>err. attempt e = Inl err) es else length tried = 1
    | (None, tried) \<Rightarrow> False"
  using assms
proof (induction es arbitrary: i)
  case (Cons e es)
  show ?case
  proof (cases "attempt e")
    case (Inr r)
    then show ?thesis by simp
  next
    case (Inl err)
    show ?thesis
    proof (cases "es = [] \<or> \<not> allow")
      case True
      then show ?thesis using Inl by auto
    next
      case False
      obtain res tried where rest: "try_endpoints allow attempt (i + 1) es = (res, tried)" by (cases "try_endpoints allow attempt (i + 1) es")
      have IH: "case (res, tried) of
          (Some (Inr (r, j)), tried) \<Rightarrow> i + 1 \<le> j \<and> attempt (es ! (j - (i + 1))) = Inr r \<and> length tried = Suc (j - (i + 1)) \<and>
            list_all (\<lambda>e. \<exists>err. attempt e = Inl err) (take (j - (i + 1)) es)
        | (Some (Inl err), tried) \<Rightarrow> if allow then tried = es \<and> list_all (\<lambda>e. \<exists>err. attempt e = Inl err) es else length tried = 1
        | (None, tried) \<Rightarrow> False"
        using Cons.IH [of "i + 1"] False rest by simp
      have step: "try_endpoints allow attempt i (e # es) = (res, e # tried)" using Inl False rest by simp
      show ?thesis
      proof (cases res)
        case (Some x)
        show ?thesis
        proof (cases x)
          case (Inr rj)
          then obtain r j where rj: "res = Some (Inr (r, j))" using Some by (cases rj) auto
          then have j: "i + 1 \<le> j" "attempt (es ! (j - (i + 1))) = Inr r" "length tried = Suc (j - (i + 1))"
            "list_all (\<lambda>e. \<exists>err. attempt e = Inl err) (take (j - (i + 1)) es)" using IH by auto
          then obtain k where "j = i + 1 + k" by (metis le_Suc_ex)
          then show ?thesis using step rj j Inl \<open>attempt e = Inl err\<close> by simp
        qed (use IH Some step Inl False in auto)
      qed (use IH in simp)
    qed
  qed
qed simp

lemma not_idempotent_once:
  assumes "resolve_pool decrypt pool mode db = Inr route"
  shows "sent_once_over decrypt pool db (map Via (snd (codex_request ''POST'' attempt route)))"
proof -
  have once: "snd (codex_request ''POST'' attempt route) = [ro_endpoint route]"
  proof -
    have "\<not> is_idempotent_method ''POST''" by code_simp
    then show ?thesis by (simp add: codex_request_def route_endpoints_def split: sum.split)
  qed
  obtain e es where "pool_endpoints pool db = e # es" "resolve_endpoint decrypt e = Inr (ro_endpoint route)"
    using resolve_pool_route(2) [OF assms] by (auto simp: route_endpoints_def list_all2_Cons2)
  then show ?thesis using resolve_endpoint_fields [of decrypt e] once by (auto simp: sent_once_over_def)
qed

lemma default_pool_route:
  assumes "resolve_default_pool decrypt None scope db = Inr res"
  shows "if routing_enabled db
    then (\<exists>pool route. default_pool db = Some pool \<and> res = Some route \<and> resolve_pool decrypt pool ''default_pool'' db = Inr route)
    else res = None"
proof (cases "routing_enabled db")
  case True
  then obtain settings where settings: "pd_settings db = Inr (Some settings)" "ps_routing_enabled settings"
    by (auto simp: routing_enabled_def split: sum.splits option.splits)
  then obtain pool where pool: "ps_default_pool_id settings = Some pool"
    using assms by (auto simp: resolve_default_pool_def split: option.splits)
  obtain route where "resolve_pool decrypt pool ''default_pool'' db = Inr route" "res = Some route"
    using assms settings pool
    by (cases "resolve_pool decrypt pool ''default_pool'' db") (auto simp: resolve_default_pool_def split: if_splits)
  then show ?thesis using True settings pool by (auto simp: default_pool_def)
next
  case False
  then show ?thesis
    using assms by (auto simp: routing_enabled_def resolve_default_pool_def Let_def split: sum.splits option.splits if_splits)
qed

lemma bound_pool_route:
  assumes "resolve_upstream_route decrypt None scope (Some account_id) db = Inr res" and "account_id \<noteq> []"
  shows "case pd_bindings db of
      Inl e \<Rightarrow> e = MissingSchema \<and> res = None
    | Inr _ \<Rightarrow>
        (case bound_pool account_id db of
           Some pool \<Rightarrow> (\<exists>route. res = Some route \<and> resolve_pool decrypt pool ''account_bound'' db = Inr route)
         | None \<Rightarrow> resolve_default_pool decrypt None scope db = Inr res)"
proof (cases "pd_bindings db")
  case (Inl e)
  then show ?thesis using assms by (auto simp: resolve_upstream_route_def lookup_account_binding_def split: if_splits)
next
  case (Inr bs)
  show ?thesis
  proof (cases "find (\<lambda>b. pb_account_id b = account_id \<and> pb_is_active b) bs")
    case (Some b)
    then show ?thesis
      using assms Inr by (cases "resolve_pool decrypt (pb_pool_id b) ''account_bound'' db")
        (auto simp: resolve_upstream_route_def lookup_account_binding_def bound_pool_def)
  qed (use assms Inr in \<open>auto simp: resolve_upstream_route_def lookup_account_binding_def bound_pool_def\<close>)
qed

lemma refresh_sent:
  assumes "refresh_tokens_egress decrypt attempt account_id db = Inr path"
  obtains route where "resolve_upstream_route decrypt None ''account'' (Some account_id) db = Inr route"
    "path = (case route of Some r \<Rightarrow> map Via (snd (codex_request ''POST'' attempt r)) | None \<Rightarrow> [Direct])"
  using assms
  by (cases "resolve_upstream_route decrypt None ''account'' (Some account_id) db")
    (auto simp: refresh_tokens_egress_def send_token_refresh_def require_route_or_direct_egress_opt_in_def split: option.splits route_error.splits)

text \<open>
  C12: A token refresh that must go through a proxy never goes out directly. When the account (whose id is not empty) is bound to a proxy pool it is
  not sent at all or sent once, over the first active endpoint of that pool, with a supported scheme and readable
  credentials; when the account is not bound and proxy routing is switched on, the same holds of the default pool. It goes
  out directly when neither is the case, and when the table of bindings does not exist yet: a database without the tables of
  the feature counts as one without proxies, even if routing is switched on.
\<close>

theorem token_refresh_fails_closed:
  assumes "account_id \<noteq> []" and "refresh_tokens_egress decrypt attempt account_id db = Inr path"
  shows "if pd_bindings db = Inl MissingSchema then path = [Direct]
    else (case bound_pool account_id db of
            Some pool \<Rightarrow> sent_once_over decrypt pool db path
          | None \<Rightarrow>
              if routing_enabled db then (\<exists>pool. default_pool db = Some pool \<and> sent_once_over decrypt pool db path)
              else path = [Direct])"
proof -
  obtain route where route: "resolve_upstream_route decrypt None ''account'' (Some account_id) db = Inr route"
    and path: "path = (case route of Some r \<Rightarrow> map Via (snd (codex_request ''POST'' attempt r)) | None \<Rightarrow> [Direct])"
    using assms(2) by (rule refresh_sent)
  note bound = bound_pool_route [OF route assms(1)]
  show ?thesis
  proof (cases "pd_bindings db")
    case (Inl e)
    then show ?thesis using bound path by simp
  next
    case (Inr bs)
    show ?thesis
    proof (cases "bound_pool account_id db")
      case (Some pool)
      then show ?thesis using bound path Inr not_idempotent_once by fastforce
    next
      case None
      then show ?thesis
        using bound path Inr default_pool_route [of decrypt "''account''" db route] not_idempotent_once
        by (auto split: if_splits)
    qed
  qed
qed

definition example_proxy_db :: proxy_db where
  "example_proxy_db =
     \<lparr>pd_bindings = Inr [\<lparr>pb_account_id = ''a'', pb_pool_id = ''p'', pb_is_active = True\<rparr>], pd_settings = Inr None,
      pd_pools = [\<lparr>po_id = ''p'', po_is_active = True\<rparr>],
      pd_members =
        [\<lparr>pm_id = 1, pm_pool_id = ''p'', pm_is_active = True, pm_sort_order = 0,
          pm_endpoint = Some \<lparr>pe_id = ''e'', pe_scheme = ''HTTP'', pe_host = ''h'', pe_port = 80, pe_username = None,
            pe_password_encrypted = None, pe_is_active = True\<rparr>\<rparr>]\<rparr>"

theorem token_refresh_fails_closed_witness:
  "\<exists>r. refresh_tokens_egress Some (\<lambda>_. Inl () :: unit + unit) ''a'' example_proxy_db = Inr [Via r] \<and> ep_host r = ''h'' \<and>
     sent_once_over Some ''p'' example_proxy_db [Via r]"
proof -
  let ?r = "\<lparr>ep_id = ''e'', ep_scheme = ''http'', ep_host = ''h'', ep_port = 80, ep_username = None, ep_password = None\<rparr>"
  have sent: "refresh_tokens_egress Some (\<lambda>_. Inl () :: unit + unit) ''a'' example_proxy_db = Inr [Via ?r]" by code_simp
  have "pd_bindings example_proxy_db \<noteq> Inl MissingSchema" "bound_pool ''a'' example_proxy_db = Some ''p''"
    by (simp_all add: example_proxy_db_def bound_pool_def)
  then have "sent_once_over Some ''p'' example_proxy_db [Via ?r]" using token_refresh_fails_closed [OF _ sent] by simp
  then show ?thesis using sent by auto
qed

end
