(* ===== verification/Coordination.thy ===== *)
theory Coordination
  imports Json
begin

text \<open>
  Coordination of work: the admission gates of one instance (\<open>app/modules/proxy/work_admission.py\<close>) and the lease by
  which one instance of several runs the background schedulers (\<open>app/core/scheduling/leader_election.py\<close>). A semaphore is
  its counter; a wait ends with the permit or with the timeout. Clock readings are arguments.
\<close>

section \<open>Admission gates\<close>

datatype stage = Token_refresh | Websocket_connect | Response_create | Compact_response_create

fun stage_label :: "stage \<Rightarrow> string" where
  "stage_label Token_refresh = ''token_refresh''"
| "stage_label Websocket_connect = ''upstream_websocket_connect''"
| "stage_label Response_create = ''response_create''"
| "stage_label Compact_response_create = ''compact_response_create''"

text \<open>A lease knows the stage whose semaphore it holds, or none when the gate is disabled.\<close>

record admission_lease =
  al_stage :: stage
  al_semaphore :: bool
  al_released :: bool

record work_admission =
  wa_semaphores :: "stage \<Rightarrow> nat option"
  wa_leases :: "admission_lease list"

definition make_gate :: "int \<Rightarrow> nat option" where
  "make_gate limit = (if limit \<le> 0 then None else Some (nat limit))"

definition new_work_admission :: "(stage \<Rightarrow> int) \<Rightarrow> work_admission" where
  "new_work_admission limits = \<lparr>wa_semaphores = (\<lambda>s. make_gate (limits s)), wa_leases = []\<rparr>"

text \<open>
  The outcome of \<open>_acquire\<close>: a lease, or the refusal with status 429. \<open>wait_times_out\<close> says whether the wait for a permit
  exceeds the timeout; while a permit is free it does not.
\<close>

datatype acquire_outcome = Leased nat | Overloaded string | Waiting

definition acquire :: "stage \<Rightarrow> bool \<Rightarrow> work_admission \<Rightarrow> acquire_outcome \<times> work_admission" where
  "acquire s wait_times_out w =
     (case wa_semaphores w s of
        None \<Rightarrow> (Leased (length (wa_leases w)), w\<lparr>wa_leases := wa_leases w @ [\<lparr>al_stage = s, al_semaphore = False, al_released = False\<rparr>]\<rparr>)
      | Some permits \<Rightarrow>
          if 0 < permits
          then (Leased (length (wa_leases w)),
                w\<lparr>wa_semaphores := (wa_semaphores w)(s \<mapsto> permits - 1),
                  wa_leases := wa_leases w @ [\<lparr>al_stage = s, al_semaphore = True, al_released = False\<rparr>]\<rparr>)
          else if wait_times_out then (Overloaded (''codex-lb is temporarily overloaded during '' @ stage_label s), w)
          else (Waiting, w))"

text \<open>\<open>release()\<close>; the finaliser \<open>__del__\<close> does the same for a lease that was dropped.\<close>

definition release :: "nat \<Rightarrow> work_admission \<Rightarrow> work_admission" where
  "release i w =
     (if length (wa_leases w) \<le> i then w
      else let l = wa_leases w ! i in
        if al_released l \<or> \<not> al_semaphore l then w
        else w\<lparr>wa_leases := (wa_leases w)[i := l\<lparr>al_released := True\<rparr>],
               wa_semaphores := (wa_semaphores w)(al_stage l := map_option Suc (wa_semaphores w (al_stage l)))\<rparr>)"

datatype admission_op = Acquire stage bool | Release nat | Finalize nat

fun admission_exec :: "admission_op \<Rightarrow> work_admission \<Rightarrow> work_admission" where
  "admission_exec (Acquire s t) w = snd (acquire s t w)"
| "admission_exec (Release i) w = release i w"
| "admission_exec (Finalize i) w = release i w"

definition holds :: "stage \<Rightarrow> admission_lease \<Rightarrow> bool" where
  "holds s l \<longleftrightarrow> al_stage l = s \<and> al_semaphore l \<and> \<not> al_released l"

definition outstanding :: "stage \<Rightarrow> work_admission \<Rightarrow> nat" where
  "outstanding s w = length (filter (holds s) (wa_leases w))"

definition admission_invar :: "(stage \<Rightarrow> int) \<Rightarrow> work_admission \<Rightarrow> bool" where
  "admission_invar limits w \<longleftrightarrow>
     (\<forall>s. case wa_semaphores w s of
            None \<Rightarrow> limits s \<le> 0 \<and> outstanding s w = 0
          | Some permits \<Rightarrow> 0 < limits s \<and> int (permits + outstanding s w) = limits s)"

lemma outstanding_append: "filter (holds s) (ls @ [l]) = filter (holds s) ls @ (if holds s l then [l] else [])"
  by simp

lemma acquire_invar: "admission_invar limits w \<Longrightarrow> admission_invar limits (snd (acquire s t w))"
proof -
  assume inv: "admission_invar limits w"
  show ?thesis
  proof (cases "wa_semaphores w s")
    case None
    have "outstanding z (w\<lparr>wa_leases := wa_leases w @ [\<lparr>al_stage = s, al_semaphore = False, al_released = False\<rparr>]\<rparr>) = outstanding z w" for z
      by (simp add: outstanding_def holds_def)
    then show ?thesis using inv None by (simp add: acquire_def admission_invar_def cong: option.case_cong)
  next
    case (Some permits)
    show ?thesis
    proof (cases "0 < permits")
      case True
      let ?w = "w\<lparr>wa_semaphores := (wa_semaphores w)(s \<mapsto> permits - 1),
                  wa_leases := wa_leases w @ [\<lparr>al_stage = s, al_semaphore = True, al_released = False\<rparr>]\<rparr>"
      have more: "outstanding z ?w = outstanding z w + (if z = s then 1 else 0)" for z by (simp add: outstanding_def holds_def)
      have gate: "case wa_semaphores w z of None \<Rightarrow> limits z \<le> 0 \<and> outstanding z w = 0
        | Some permits \<Rightarrow> 0 < limits z \<and> int (permits + outstanding z w) = limits z" for z
        using inv by (simp add: admission_invar_def)
      have "case wa_semaphores ?w z of None \<Rightarrow> limits z \<le> 0 \<and> outstanding z ?w = 0
        | Some permits \<Rightarrow> 0 < limits z \<and> int (permits + outstanding z ?w) = limits z" for z
        unfolding more using gate [of z] Some True by (cases "z = s") (auto cong: option.case_cong)
      then have "admission_invar limits ?w" unfolding admission_invar_def by blast
      then show ?thesis using Some True by (simp add: acquire_def)
    next
      case False
      then show ?thesis using inv Some by (simp add: acquire_def)
    qed
  qed
qed

lemma length_filter_release:
  "i < length ls \<Longrightarrow> P (ls ! i) \<Longrightarrow> \<not> P l \<Longrightarrow> length (filter P ls) = Suc (length (filter P (ls[i := l])))"
proof (induction ls arbitrary: i)
  case (Cons x ls)
  then show ?case by (cases i) auto
qed simp

lemma length_filter_same: "i < length ls \<Longrightarrow> P (ls ! i) = P l \<Longrightarrow> length (filter P (ls[i := l])) = length (filter P ls)"
proof (induction ls arbitrary: i)
  case (Cons x ls)
  then show ?case by (cases i) auto
qed simp

lemma release_invar: "admission_invar limits w \<Longrightarrow> admission_invar limits (release i w)"
proof -
  assume inv: "admission_invar limits w"
  show ?thesis
  proof (cases "i < length (wa_leases w) \<and> \<not> al_released (wa_leases w ! i) \<and> al_semaphore (wa_leases w ! i)")
    case False
    then show ?thesis using inv by (auto simp: release_def Let_def)
  next
    case True
    define l where "l = wa_leases w ! i"
    let ?w = "w\<lparr>wa_leases := (wa_leases w)[i := l\<lparr>al_released := True\<rparr>],
               wa_semaphores := (wa_semaphores w)(al_stage l := map_option Suc (wa_semaphores w (al_stage l)))\<rparr>"
    have eq: "release i w = ?w" using True by (simp add: release_def l_def Let_def)
    have own: "outstanding (al_stage l) w = Suc (outstanding (al_stage l) ?w)"
      using True length_filter_release [of i "wa_leases w" "holds (al_stage l)" "l\<lparr>al_released := True\<rparr>"]
      by (simp add: outstanding_def holds_def l_def)
    have other: "outstanding z ?w = outstanding z w" if "z \<noteq> al_stage l" for z
      using True that length_filter_same [of i "wa_leases w" "holds z" "l\<lparr>al_released := True\<rparr>"]
      by (simp add: outstanding_def holds_def l_def)
    have gate: "case wa_semaphores w z of None \<Rightarrow> limits z \<le> 0 \<and> outstanding z w = 0
      | Some permits \<Rightarrow> 0 < limits z \<and> int (permits + outstanding z w) = limits z" for z
      using inv by (simp add: admission_invar_def)
    obtain permits where permits: "wa_semaphores w (al_stage l) = Some permits"
      using gate [of "al_stage l"] own by (cases "wa_semaphores w (al_stage l)") auto
    have "case wa_semaphores ?w z of None \<Rightarrow> limits z \<le> 0 \<and> outstanding z ?w = 0
      | Some permits \<Rightarrow> 0 < limits z \<and> int (permits + outstanding z ?w) = limits z" for z
    proof (cases "z = al_stage l")
      case True
      then show ?thesis using gate [of z] own permits by simp
    next
      case False
      then show ?thesis unfolding other [OF False] using gate [of z] by simp
    qed
    then show ?thesis unfolding eq admission_invar_def by blast
  qed
qed

interpretation admission_machine: machine admission_exec "admission_invar limits" for limits
proof
  fix w op assume "admission_invar limits w"
  then show "admission_invar limits (admission_exec op w)" by (cases op) (simp_all add: acquire_invar release_invar)
qed

lemma new_admission_invar: "admission_invar limits (new_work_admission limits)"
  by (simp add: admission_invar_def new_work_admission_def make_gate_def outstanding_def)

text \<open>
  The admission gates of an instance never admit more work than configured and never lose a permit. After any sequence
  of acquisitions, releases, repeated releases and finalised leases, the leases that are held for a stage and the free
  permits add up to its limit; so at most the limit is in progress, an acquisition is refused or waits only when all of
  it is, and a stage with no positive limit admits everything without holding a permit.
\<close>

theorem admission_gates_bounded:
  "case wa_semaphores (fold admission_exec ops (new_work_admission limits)) s of
     Some permits \<Rightarrow>
       0 < limits s \<and> int (permits + outstanding s (fold admission_exec ops (new_work_admission limits))) = limits s \<and>
       (case fst (acquire s t (fold admission_exec ops (new_work_admission limits))) of
          Leased i \<Rightarrow> int (outstanding s (fold admission_exec ops (new_work_admission limits))) < limits s
        | _ \<Rightarrow> int (outstanding s (fold admission_exec ops (new_work_admission limits))) = limits s)
   | None \<Rightarrow>
       limits s \<le> 0 \<and> outstanding s (fold admission_exec ops (new_work_admission limits)) = 0 \<and>
       (case fst (acquire s t (fold admission_exec ops (new_work_admission limits))) of Leased i \<Rightarrow> True | _ \<Rightarrow> False)"
proof -
  define w where "w = fold admission_exec ops (new_work_admission limits)"
  have "admission_invar limits w" unfolding w_def using new_admission_invar by (rule admission_machine.invar_run)
  then have "case wa_semaphores w s of None \<Rightarrow> limits s \<le> 0 \<and> outstanding s w = 0
    | Some permits \<Rightarrow> 0 < limits s \<and> int (permits + outstanding s w) = limits s"
    unfolding admission_invar_def by blast
  then show ?thesis unfolding w_def [symmetric] by (auto simp: acquire_def split: option.split)
qed

section \<open>Leader election\<close>

record leader_row =
  lr_leader_id :: string
  lr_acquired_at :: real
  lr_expires_at :: real

record election_config =
  el_enabled :: bool
  el_database_url :: string
  el_ttl :: real

text \<open>The row of the table, and what each instance believes of itself.\<close>

record election =
  el_row :: "leader_row option"
  el_is_leader :: "string \<Rightarrow> bool"

definition unopposed :: "election_config \<Rightarrow> bool" where
  "unopposed cfg \<longleftrightarrow> \<not> el_enabled cfg \<or> contains ''sqlite'' (py_lower (el_database_url cfg))"

text \<open>\<open>INSERT ... ON CONFLICT (id) DO UPDATE ... WHERE\<close>.\<close>

definition upsert_leader :: "real \<Rightarrow> real \<Rightarrow> string \<Rightarrow> leader_row option \<Rightarrow> leader_row option" where
  "upsert_leader ttl now me row =
     (let mine = \<lparr>lr_leader_id = me, lr_acquired_at = now, lr_expires_at = now + ttl\<rparr> in
      case row of
        None \<Rightarrow> Some mine
      | Some r \<Rightarrow> if lr_expires_at r < now \<or> lr_leader_id r = me then Some mine else Some r)"

definition try_acquire_leadership :: "election_config \<Rightarrow> bool \<Rightarrow> real \<Rightarrow> string \<Rightarrow> election \<Rightarrow> bool \<times> election" where
  "try_acquire_leadership cfg db_ok now me e =
     (if unopposed cfg then (True, e\<lparr>el_is_leader := (el_is_leader e)(me := True)\<rparr>)
      else if \<not> db_ok then (False, e\<lparr>el_is_leader := (el_is_leader e)(me := False)\<rparr>)
      else let row = upsert_leader (el_ttl cfg) now me (el_row e);
               won = (case row of Some r \<Rightarrow> lr_leader_id r = me | None \<Rightarrow> False)
           in (won, \<lparr>el_row = row, el_is_leader = (el_is_leader e)(me := won)\<rparr>))"

definition renew :: "election_config \<Rightarrow> bool \<Rightarrow> real \<Rightarrow> string \<Rightarrow> election \<Rightarrow> bool \<times> election" where
  "renew cfg db_ok now me e =
     (if \<not> el_is_leader e me then (False, e)
      else if unopposed cfg then (True, e)
      else if \<not> db_ok then (False, e)
      else (True, e\<lparr>el_row := map_option (\<lambda>r. if lr_leader_id r = me then r\<lparr>lr_expires_at := now + el_ttl cfg\<rparr> else r) (el_row e)\<rparr>))"

datatype election_op = TryAcquire string bool | Renew string bool

fun election_exec :: "election_config \<Rightarrow> real \<times> election_op \<Rightarrow> election \<Rightarrow> election" where
  "election_exec cfg (now, TryAcquire me ok) e = snd (try_acquire_leadership cfg ok now me e)"
| "election_exec cfg (now, Renew me ok) e = snd (renew cfg ok now me e)"

definition held_by :: "string \<Rightarrow> real \<Rightarrow> election \<Rightarrow> bool" where
  "held_by a until e \<longleftrightarrow> (case el_row e of Some r \<Rightarrow> lr_leader_id r = a \<and> until \<le> lr_expires_at r | None \<Rightarrow> False)"

lemma lease_kept:
  assumes "\<not> unopposed cfg" and "held_by a until e" and "until - el_ttl cfg \<le> now" and "now \<le> until"
  shows "held_by a until (election_exec cfg (now, op) e)"
proof (cases op)
  case (TryAcquire me ok)
  then show ?thesis
    using assms by (auto simp: held_by_def try_acquire_leadership_def upsert_leader_def Let_def split: option.splits if_splits)
next
  case (Renew me ok)
  then show ?thesis using assms by (auto simp: held_by_def renew_def split: option.splits if_splits)
qed

lemma lease_kept_run:
  assumes "\<not> unopposed cfg" and "held_by a until e" and "list_all (\<lambda>(now, op). until - el_ttl cfg \<le> now \<and> now \<le> until) ops"
  shows "held_by a until (fold (election_exec cfg) ops e)"
  using assms(2,3)
proof (induction ops arbitrary: e)
  case (Cons op ops)
  obtain now p where op: "op = (now, p)" by (cases op)
  then have "held_by a until (election_exec cfg (now, p) e)" using Cons.prems by (intro lease_kept [OF assms(1)]) auto
  then show ?case using Cons op by simp
qed simp

text \<open>
  C20: Where leader election is in force (it is switched on and the database is not SQLite; otherwise every instance leads),
  the leader lease is exclusive. When an instance has acquired the leadership at some time, then whatever the other instances
  do until the time to live has passed, by a common clock, the instance itself can acquire it again, and every attempt of
  another instance that reaches the database fails.
\<close>

theorem leader_lease_exclusive:
  assumes "\<not> unopposed cfg" and "try_acquire_leadership cfg True t a e = (True, e')"
    and "list_all (\<lambda>(now, op). t \<le> now \<and> now \<le> t + el_ttl cfg) ops" and "t \<le> now" and "now \<le> t + el_ttl cfg"
  shows "fst (try_acquire_leadership cfg True now b (fold (election_exec cfg) ops e')) = (b = a)"
proof -
  have "held_by a (t + el_ttl cfg) e'"
    using assms(1,2) by (cases "el_row e") (auto simp: try_acquire_leadership_def upsert_leader_def held_by_def Let_def split: if_splits)
  then have "held_by a (t + el_ttl cfg) (fold (election_exec cfg) ops e')"
    using lease_kept_run [OF assms(1), of a "t + el_ttl cfg" e' ops] assms(3) by simp
  then show ?thesis
    using assms(1,5) by (auto simp: held_by_def try_acquire_leadership_def upsert_leader_def Let_def split: option.splits)
qed

definition example_election :: election_config where
  "example_election = \<lparr>el_enabled = True, el_database_url = ''postgresql://db'', el_ttl = 30\<rparr>"

definition no_leader :: election where
  "no_leader = \<lparr>el_row = None, el_is_leader = (\<lambda>_. False)\<rparr>"

theorem leader_lease_exclusive_witness:
  "fst (try_acquire_leadership example_election True 0 ''a'' no_leader) \<and>
   \<not> fst (try_acquire_leadership example_election True 20 ''b''
       (fold (election_exec example_election) [(5, TryAcquire ''b'' True), (10, Renew ''b'' True)]
          (snd (try_acquire_leadership example_election True 0 ''a'' no_leader))))"
proof -
  have opposed: "\<not> unopposed example_election" by code_simp
  then have first: "try_acquire_leadership example_election True 0 ''a'' no_leader = (True, snd (try_acquire_leadership example_election True 0 ''a'' no_leader))"
    by (simp add: try_acquire_leadership_def upsert_leader_def no_leader_def Let_def)
  have "list_all (\<lambda>(now, op). 0 \<le> now \<and> now \<le> 0 + el_ttl example_election) [(5, TryAcquire ''b'' True), (10, Renew ''b'' True)]"
    by (simp add: example_election_def)
  then have "fst (try_acquire_leadership example_election True 20 ''b''
       (fold (election_exec example_election) [(5, TryAcquire ''b'' True), (10, Renew ''b'' True)]
          (snd (try_acquire_leadership example_election True 0 ''a'' no_leader)))) = (''b'' = ''a'')"
    by (intro leader_lease_exclusive [OF opposed first]) (simp_all add: example_election_def)
  moreover have "fst (try_acquire_leadership example_election True 0 ''a'' no_leader) = True" by (subst first) simp
  ultimately show ?thesis by simp
qed

text \<open>
  \<open>renew\<close> does not look at the number of updated rows: an instance whose lease has passed to another still believes to be
  the leader and is told that its lease was renewed.
\<close>

lemma renew_after_takeover:
  assumes "\<not> unopposed cfg" and "el_row e = Some r" and "lr_leader_id r \<noteq> a" and "el_is_leader e a"
  shows "fst (renew cfg True now a e)" "el_is_leader (snd (renew cfg True now a e)) a" "el_row (snd (renew cfg True now a e)) = Some r"
  using assms by (simp_all add: renew_def)

end
