(* ===== verification/Bridge_Forward.thy ===== *)
theory Bridge_Forward
  imports Sse
begin

text \<open>
  Forwarding a request to the instance that owns its bridge session (\<open>app/modules/proxy/http_bridge_forwarding.py\<close>):
  the signed headers, their verification by the receiving instance, and the relay of the event stream. HMAC under the
  shared secret and SHA-256 are arguments, and the canonical JSON text of the request is given.
\<close>

section \<open>Contexts and headers\<close>

record reservation_data =
  rv_reservation_id :: string
  rv_key_id :: string
  rv_model :: string

record forward_context =
  fc_origin_instance :: string
  fc_target_instance :: string
  fc_codex_session_affinity :: bool
  fc_downstream_turn_state :: "string option"
  fc_affinity_kind :: "string option"
  fc_affinity_key :: "string option"
  fc_reservation :: "reservation_data option"

record forward_crypto =
  fw_hmac :: "string \<Rightarrow> string"
  fw_sha256 :: "string \<Rightarrow> string"

definition signing_parts :: "forward_crypto \<Rightarrow> string \<Rightarrow> forward_context \<Rightarrow> string list" where
  "signing_parts cr body ctx =
     [fc_origin_instance ctx, fc_target_instance ctx, if fc_codex_session_affinity ctx then ''1'' else ''0'',
      default (fc_downstream_turn_state ctx) [], default (fc_affinity_kind ctx) [], default (fc_affinity_key ctx) [],
      (case fc_reservation ctx of Some r \<Rightarrow> rv_reservation_id r | None \<Rightarrow> []),
      (case fc_reservation ctx of Some r \<Rightarrow> rv_key_id r | None \<Rightarrow> []),
      (case fc_reservation ctx of Some r \<Rightarrow> rv_model r | None \<Rightarrow> []), fw_sha256 cr body]"

definition bridge_forward_signature :: "forward_crypto \<Rightarrow> string \<Rightarrow> forward_context \<Rightarrow> string" where
  "bridge_forward_signature cr body ctx = fw_hmac cr (join_char (CHR ''|'') (signing_parts cr body ctx))"

type_synonym forward_headers = "(string \<times> string) list"

text \<open>The names of the headers.\<close>

definition FORWARDED_HEADER :: string where
  "FORWARDED_HEADER = ''x-codex-bridge-forwarded''"

definition ORIGIN_INSTANCE_HEADER :: string where
  "ORIGIN_INSTANCE_HEADER = ''x-codex-bridge-origin-instance''"

definition TARGET_INSTANCE_HEADER :: string where
  "TARGET_INSTANCE_HEADER = ''x-codex-bridge-target-instance''"

definition CODEX_AFFINITY_HEADER :: string where
  "CODEX_AFFINITY_HEADER = ''x-codex-bridge-codex-session-affinity''"

definition RESERVATION_ID_HEADER :: string where
  "RESERVATION_ID_HEADER = ''x-codex-bridge-reservation-id''"

definition RESERVATION_KEY_ID_HEADER :: string where
  "RESERVATION_KEY_ID_HEADER = ''x-codex-bridge-reservation-key-id''"

definition RESERVATION_MODEL_HEADER :: string where
  "RESERVATION_MODEL_HEADER = ''x-codex-bridge-reservation-model''"

definition AFFINITY_KIND_HEADER :: string where
  "AFFINITY_KIND_HEADER = ''x-codex-bridge-affinity-kind''"

definition AFFINITY_KEY_HEADER :: string where
  "AFFINITY_KEY_HEADER = ''x-codex-bridge-affinity-key''"

definition SIGNATURE_HEADER :: string where
  "SIGNATURE_HEADER = ''x-codex-bridge-signature''"

definition TURN_STATE_HEADER :: string where
  "TURN_STATE_HEADER = ''x-codex-turn-state''"

definition HOST_HEADER :: string where
  "HOST_HEADER = ''host''"

definition CONTENT_LENGTH_HEADER :: string where
  "CONTENT_LENGTH_HEADER = ''content-length''"

lemmas header_name_defs = FORWARDED_HEADER_def ORIGIN_INSTANCE_HEADER_def TARGET_INSTANCE_HEADER_def CODEX_AFFINITY_HEADER_def RESERVATION_ID_HEADER_def RESERVATION_KEY_ID_HEADER_def RESERVATION_MODEL_HEADER_def AFFINITY_KIND_HEADER_def AFFINITY_KEY_HEADER_def SIGNATURE_HEADER_def TURN_STATE_HEADER_def HOST_HEADER_def CONTENT_LENGTH_HEADER_def

lemma header_names_distinct [simplified, simp]:
  "distinct [FORWARDED_HEADER, ORIGIN_INSTANCE_HEADER, TARGET_INSTANCE_HEADER, CODEX_AFFINITY_HEADER, RESERVATION_ID_HEADER, RESERVATION_KEY_ID_HEADER, RESERVATION_MODEL_HEADER, AFFINITY_KIND_HEADER, AFFINITY_KEY_HEADER, SIGNATURE_HEADER, TURN_STATE_HEADER, HOST_HEADER, CONTENT_LENGTH_HEADER]"
  unfolding header_name_defs by code_simp

lemma header_names_distinct_rev [simplified, simp]:
  "distinct [CONTENT_LENGTH_HEADER, HOST_HEADER, TURN_STATE_HEADER, SIGNATURE_HEADER, AFFINITY_KEY_HEADER, AFFINITY_KIND_HEADER, RESERVATION_MODEL_HEADER, RESERVATION_KEY_ID_HEADER, RESERVATION_ID_HEADER, CODEX_AFFINITY_HEADER, TARGET_INSTANCE_HEADER, ORIGIN_INSTANCE_HEADER, FORWARDED_HEADER]"
  unfolding header_name_defs by code_simp

definition set_header :: "string \<Rightarrow> string \<Rightarrow> forward_headers \<Rightarrow> forward_headers" where
  "set_header k v hs = AList.update k v hs"

definition build_owner_forward_headers :: "forward_crypto \<Rightarrow> forward_headers \<Rightarrow> string \<Rightarrow> forward_context \<Rightarrow> forward_headers" where
  "build_owner_forward_headers cr headers body ctx =
     (let h = AList.delete CONTENT_LENGTH_HEADER (AList.delete HOST_HEADER headers);
          h = set_header FORWARDED_HEADER ''1'' h;
          h = set_header ORIGIN_INSTANCE_HEADER (fc_origin_instance ctx) h;
          h = set_header TARGET_INSTANCE_HEADER (fc_target_instance ctx) h;
          h = set_header CODEX_AFFINITY_HEADER (if fc_codex_session_affinity ctx then ''1'' else ''0'') h;
          h = (case (nonempty_str (fc_affinity_kind ctx), nonempty_str (fc_affinity_key ctx)) of
                 (Some kind, Some key) \<Rightarrow> set_header AFFINITY_KEY_HEADER key (set_header AFFINITY_KIND_HEADER kind h)
               | _ \<Rightarrow> h);
          h = (case nonempty_str (fc_downstream_turn_state ctx) of Some t \<Rightarrow> set_header TURN_STATE_HEADER t h | None \<Rightarrow> h);
          h = (case fc_reservation ctx of
                 Some r \<Rightarrow> set_header RESERVATION_MODEL_HEADER (rv_model r)
                          (set_header RESERVATION_KEY_ID_HEADER (rv_key_id r)
                          (set_header RESERVATION_ID_HEADER (rv_reservation_id r) h))
               | None \<Rightarrow> h)
      in set_header SIGNATURE_HEADER (bridge_forward_signature cr body ctx) h)"

definition optional_header :: "string option \<Rightarrow> string option" where
  "optional_header v = (case v of None \<Rightarrow> None | Some s \<Rightarrow> nonempty_str (Some (py_strip s)))"

definition bool_header :: "string option \<Rightarrow> bool" where
  "bool_header v = (case v of None \<Rightarrow> False | Some s \<Rightarrow> py_lower (py_strip s) \<in> set [''1'', ''true'', ''yes'', ''on''])"

definition reservation_from_headers :: "forward_headers \<Rightarrow> reservation_data option" where
  "reservation_from_headers hs =
     (case (optional_header (map_of hs RESERVATION_ID_HEADER),
            optional_header (map_of hs RESERVATION_KEY_ID_HEADER),
            optional_header (map_of hs RESERVATION_MODEL_HEADER)) of
        (Some i, Some k, Some m) \<Rightarrow> Some \<lparr>rv_reservation_id = i, rv_key_id = k, rv_model = m\<rparr>
      | _ \<Rightarrow> None)"

datatype forward_error = ForwardMarkerMissing | ForwardWrongTarget | ForwardSignatureInvalid

definition context_from_headers :: "forward_headers \<Rightarrow> string \<Rightarrow> forward_context" where
  "context_from_headers hs target =
     \<lparr>fc_origin_instance = default (optional_header (map_of hs ORIGIN_INSTANCE_HEADER)) ''unknown'',
      fc_target_instance = target,
      fc_codex_session_affinity = bool_header (map_of hs CODEX_AFFINITY_HEADER),
      fc_downstream_turn_state = optional_header (map_of hs TURN_STATE_HEADER),
      fc_affinity_kind = optional_header (map_of hs AFFINITY_KIND_HEADER),
      fc_affinity_key = optional_header (map_of hs AFFINITY_KEY_HEADER),
      fc_reservation = reservation_from_headers hs\<rparr>"

definition parse_forwarded_request :: "forward_crypto \<Rightarrow> forward_headers \<Rightarrow> string \<Rightarrow> string \<Rightarrow> forward_error + forward_context" where
  "parse_forwarded_request cr hs body current_instance =
     (if map_of hs FORWARDED_HEADER \<noteq> Some ''1'' then Inl ForwardMarkerMissing
      else
        let target = default (optional_header (map_of hs TARGET_INSTANCE_HEADER)) [] in
        if target = [] \<or> target \<noteq> current_instance then Inl ForwardWrongTarget
        else
          let ctx = context_from_headers hs target in
          if optional_header (map_of hs SIGNATURE_HEADER) \<noteq> Some (bridge_forward_signature cr body ctx)
          then Inl ForwardSignatureInvalid else Inr ctx)"

section \<open>The relay\<close>

text \<open>Blocks end with an empty line; bytes are kept until their block is complete.\<close>

fun split_block :: "string \<Rightarrow> (string \<times> string) option" where
  "split_block (a # b # rest) =
     (if a = CHR 0x0A \<and> b = CHR 0x0A then Some ([], rest)
      else map_option (\<lambda>(block, r). (a # block, r)) (split_block (b # rest)))"
| "split_block _ = None"

lemma split_block_length: "split_block s = Some (block, rest) \<Longrightarrow> length rest < length s"
  by (induction s arbitrary: block rest rule: split_block.induct) (auto split: if_splits)

function drain_blocks :: "string \<Rightarrow> string list \<times> string" where
  "drain_blocks buffer =
     (case split_block buffer of
        None \<Rightarrow> ([], buffer)
      | Some (block, rest) \<Rightarrow> (let (blocks, r) = drain_blocks rest in (block # blocks, r)))"
  by pat_completeness auto

termination
  by (relation "measure length") (auto dest: split_block_length)

declare drain_blocks.simps [simp del]

definition frame_blocks :: "string list \<Rightarrow> string list" where
  "frame_blocks blocks = map (\<lambda>b. b @ [CHR 0x0A, CHR 0x0A]) (filter (\<lambda>b. b \<noteq> []) blocks)"

text \<open>Bytes are blank when they are all ASCII white space.\<close>

definition blank_bytes :: "string \<Rightarrow> bool" where
  "blank_bytes b \<longleftrightarrow> list_all (\<lambda>c. c \<in> set [CHR '' '', CHR 0x09, CHR 0x0A, CHR 0x0B, CHR 0x0C, CHR 0x0D]) b"

record receive_timeout =
  rt_timeout_seconds :: real
  rt_error_code :: string
  rt_error_message :: string

definition idle_timeout_after :: "real \<Rightarrow> receive_timeout" where
  "idle_timeout_after t =
     \<lparr>rt_timeout_seconds = t, rt_error_code = ''stream_idle_timeout'', rt_error_message = ''Upstream stream idle timeout''\<rparr>"

definition request_timeout_after :: "real \<Rightarrow> receive_timeout" where
  "request_timeout_after t =
     \<lparr>rt_timeout_seconds = t, rt_error_code = ''upstream_request_timeout'', rt_error_message = ''Proxy request budget exhausted''\<rparr>"

record receive_limits =
  rl_request_started_at :: real
  rl_request_budget :: real
  rl_stream_idle :: real

definition remaining_budget_seconds :: "real \<Rightarrow> real \<Rightarrow> real" where
  "remaining_budget_seconds now deadline = max 0 (deadline - now)"

definition owner_forward_receive_timeout :: "real \<Rightarrow> receive_limits \<Rightarrow> receive_timeout" where
  "owner_forward_receive_timeout now limits =
     (let idle = max (1 / 1000) (rl_stream_idle limits);
          remaining = remaining_budget_seconds now (rl_request_started_at limits + rl_request_budget limits);
          idle_is_budget = (idle = max (1 / 1000) (rl_request_budget limits))
      in if remaining \<le> 0 \<and> idle_is_budget then idle_timeout_after 0
         else if idle_is_budget \<and> idle \<le> remaining then idle_timeout_after remaining
         else if remaining \<le> 0 then request_timeout_after 0
         else if idle \<le> remaining then idle_timeout_after idle
         else request_timeout_after remaining)"

lemma receive_timeout_within_budget:
  "rt_timeout_seconds (owner_forward_receive_timeout now limits) \<le> remaining_budget_seconds now (rl_request_started_at limits + rl_request_budget limits)"
  by (auto simp: owner_forward_receive_timeout_def remaining_budget_seconds_def idle_timeout_after_def request_timeout_after_def Let_def)

text \<open>
  A receive is a time and what it yields: the bytes of a chunk, or \<open>None\<close> when the wait times out. The stream ends with the
  list. The second component of the result is the timeout that has ended the stream.
\<close>

type_synonym receives = "(real \<times> string option) list"

fun iter_sse_event_blocks :: "receive_limits \<Rightarrow> string \<Rightarrow> receives \<Rightarrow> string list \<times> receive_timeout option" where
  "iter_sse_event_blocks limits buffer [] = (if blank_bytes buffer then [] else [buffer], None)"
| "iter_sse_event_blocks limits buffer ((now, None) # rest) = ([], Some (owner_forward_receive_timeout now limits))"
| "iter_sse_event_blocks limits buffer ((now, Some chunk) # rest) =
     (if chunk = [] then iter_sse_event_blocks limits buffer rest
      else let (blocks, buffer') = drain_blocks (buffer @ chunk) in
        map_prod ((@) (frame_blocks blocks)) id (iter_sse_event_blocks limits buffer' rest))"

text \<open>The event of a failed response, and the stream of the owner client: what it yields and how it ends.\<close>

definition response_failed_event :: "string \<Rightarrow> string \<Rightarrow> string \<Rightarrow> string option \<Rightarrow> int \<Rightarrow> string option \<Rightarrow> (string \<times> json) list" where
  "response_failed_event code message error_type response_id created_at error_param =
     [(''type'', JStr ''response.failed''),
      (''response'', JObj ([(''object'', JStr ''response''), (''status'', JStr ''failed''),
         (''error'', JObj ([(''message'', JStr message), (''type'', JStr error_type), (''code'', JStr code)] @
            (case nonempty_str error_param of Some p \<Rightarrow> [(''param'', JStr p)] | None \<Rightarrow> []))),
         (''incomplete_details'', JNull)] @
         (case nonempty_str response_id of Some i \<Rightarrow> [(''id'', JStr i)] | None \<Rightarrow> []) @ [(''created_at'', JInt created_at)]))]"

definition owner_forward_error_payload :: "(string \<Rightarrow> json option) \<Rightarrow> int \<Rightarrow> string \<Rightarrow> (string \<times> json) list" where
  "owner_forward_error_payload loads status payload_text =
     (let fallback = [(''error'', JObj [(''message'', JStr (if payload_text = [] then ''HTTP bridge owner request failed with status '' @ show_int status else payload_text)),
            (''type'', JStr ''server_error''), (''code'', JStr ''bridge_owner_forward_failed'')])]
      in case json_obj (loads payload_text) of
           Some kvs \<Rightarrow> (case json_obj (map_of kvs ''error'') of Some _ \<Rightarrow> kvs | None \<Rightarrow> fallback)
         | None \<Rightarrow> fallback)"

datatype owner_outcome = OwnerError int "(string \<times> json) list" | OwnerRelayed "string list" | OwnerRelayFailure "string list" string

definition owner_stream_responses ::
  "(string \<Rightarrow> json option) \<Rightarrow> ((string \<times> json) list \<Rightarrow> string) \<Rightarrow> receive_limits \<Rightarrow> string option \<Rightarrow> int \<Rightarrow>
   int \<Rightarrow> string \<Rightarrow> receives \<Rightarrow> owner_outcome" where
  "owner_stream_responses loads frame limits request_id now status body_text receives =
     (if status \<noteq> 200 then OwnerError status (owner_forward_error_payload loads status body_text)
      else let (blocks, timeout) = iter_sse_event_blocks limits [] receives in
        case timeout of
          Some t \<Rightarrow> OwnerRelayFailure blocks (frame (response_failed_event (rt_error_code t) (rt_error_message t) ''server_error'' request_id now None))
        | None \<Rightarrow>
            OwnerRelayed (if blocks \<noteq> [] then blocks
              else [frame (response_failed_event ''stream_incomplete'' ''Upstream websocket closed before response.completed'' ''server_error'' request_id now None)]))"

section \<open>The relay is indifferent to chunks\<close>

lemma split_block_append: "split_block s = Some (block, rest) \<Longrightarrow> split_block (s @ t) = Some (block, rest @ t)"
  by (induction s arbitrary: block rest rule: split_block.induct) (auto split: if_splits)

lemma drain_append:
  "drain_blocks s = (blocks, r) \<Longrightarrow> drain_blocks (r @ t) = (blocks', r') \<Longrightarrow> drain_blocks (s @ t) = (blocks @ blocks', r')"
proof (induction s arbitrary: blocks rule: drain_blocks.induct)
  case (1 s)
  show ?case
  proof (cases "split_block s")
    case None
    then show ?thesis using 1 by (simp add: drain_blocks.simps [of s])
  next
    case (Some p)
    obtain block rest where p: "p = (block, rest)" by (cases p)
    obtain bs where rest: "drain_blocks rest = (bs, r)" "blocks = block # bs"
      using 1(2) Some p by (auto simp: drain_blocks.simps [of s] split: prod.splits)
    then have "drain_blocks (rest @ t) = (bs @ blocks', r')" using 1 Some p by simp
    then show ?thesis using split_block_append [of s block rest t] Some p rest by (simp add: drain_blocks.simps [of "s @ t"])
  qed
qed

lemma drain_drained: "drain_blocks s = (blocks, r) \<Longrightarrow> split_block r = None"
proof (induction s arbitrary: blocks rule: drain_blocks.induct)
  case (1 s)
  then show ?case by (cases "split_block s") (auto simp: drain_blocks.simps [of s] split: prod.splits)
qed

text \<open>The chunks of a stream whose receives have all arrived.\<close>

definition received_bytes :: "receives \<Rightarrow> string" where
  "received_bytes rs = concat (map (\<lambda>(_, c). default c []) rs)"

definition all_received :: "receives \<Rightarrow> bool" where
  "all_received rs \<longleftrightarrow> list_all (\<lambda>(_, c). c \<noteq> None) rs"

definition blocks_of_bytes :: "string \<Rightarrow> string list" where
  "blocks_of_bytes bytes = (let (blocks, rest) = drain_blocks bytes in frame_blocks blocks @ (if blank_bytes rest then [] else [rest]))"

lemma frame_blocks_append: "frame_blocks (xs @ ys) = frame_blocks xs @ frame_blocks ys"
  by (simp add: frame_blocks_def)

lemma iter_blocks_general:
  "split_block buffer = None \<Longrightarrow> all_received rs \<Longrightarrow>
     iter_sse_event_blocks limits buffer rs = (blocks_of_bytes (buffer @ received_bytes rs), None)"
proof (induction limits buffer rs rule: iter_sse_event_blocks.induct)
  case (1 limits buffer)
  then show ?case by (simp add: blocks_of_bytes_def received_bytes_def drain_blocks.simps [of buffer] frame_blocks_def)
next
  case (2 limits buffer now rest)
  then show ?case by (simp add: all_received_def)
next
  case (3 limits buffer now chunk rest)
  obtain blocks r where first: "drain_blocks (buffer @ chunk) = (blocks, r)" by (cases "drain_blocks (buffer @ chunk)")
  obtain blocks' r' where second: "drain_blocks (r @ received_bytes rest) = (blocks', r')"
    by (cases "drain_blocks (r @ received_bytes rest)")
  have rest: "all_received rest" using 3(4) by (simp add: all_received_def)
  have bytes: "buffer @ received_bytes ((now, Some chunk) # rest) = (buffer @ chunk) @ received_bytes rest"
    by (simp add: received_bytes_def)
  show ?case
  proof (cases "chunk = []")
    case True
    then show ?thesis using 3 rest bytes by simp
  next
    case False
    have "iter_sse_event_blocks limits r rest = (blocks_of_bytes (r @ received_bytes rest), None)"
      by (rule 3(2) [OF False first [symmetric] refl drain_drained [OF first] rest])
    then show ?thesis
      unfolding bytes using first False second drain_append [OF first second]
      by (simp add: blocks_of_bytes_def frame_blocks_append)
  qed
qed

text \<open>
  The relay of an owner's event stream depends on its bytes and not on when they arrive or how the network has cut
  them into chunks: two streams of the same bytes in which no receive times out yield the same event blocks, in the same
  order. (Blocks are cut at empty lines and the bytes of an incomplete block are kept until it is complete.)
\<close>

theorem relay_ignores_chunking:
  assumes "all_received rs" and "all_received rs'" and "received_bytes rs = received_bytes rs'"
  shows "owner_stream_responses loads frame limits request_id now status body_text rs =
         owner_stream_responses loads frame limits request_id now status body_text rs'"
  using iter_blocks_general [of "[]" rs limits] iter_blocks_general [of "[]" rs' limits] assms
  by (simp add: owner_stream_responses_def)

theorem relay_ignores_chunking_witness:
  "owner_stream_responses (\<lambda>_. None) (\<lambda>_. ''failed'') \<lparr>rl_request_started_at = 0, rl_request_budget = 60, rl_stream_idle = 30\<rparr> None 0 200 []
     [(1, Some [CHR ''a'', CHR 0x0A]), (2, Some [CHR 0x0A, CHR ''b'']), (3, Some [CHR 0x0A]), (4, Some [CHR 0x0A])] =
   owner_stream_responses (\<lambda>_. None) (\<lambda>_. ''failed'') \<lparr>rl_request_started_at = 0, rl_request_budget = 60, rl_stream_idle = 30\<rparr> None 0 200 []
     [(1, Some [CHR ''a'', CHR 0x0A, CHR 0x0A, CHR ''b'', CHR 0x0A, CHR 0x0A])]"
  by (rule relay_ignores_chunking) (simp_all add: all_received_def received_bytes_def)

section \<open>Signed contexts\<close>

definition clean_value :: "string \<Rightarrow> bool" where
  "clean_value s \<longleftrightarrow> py_strip s = s \<and> s \<noteq> []"

definition clean_context :: "forward_context \<Rightarrow> bool" where
  "clean_context ctx \<longleftrightarrow>
     clean_value (fc_origin_instance ctx) \<and> clean_value (fc_target_instance ctx) \<and>
     (case fc_downstream_turn_state ctx of Some t \<Rightarrow> clean_value t | None \<Rightarrow> True) \<and>
     (case (fc_affinity_kind ctx, fc_affinity_key ctx) of
        (Some kind, Some key) \<Rightarrow> clean_value kind \<and> clean_value key | (None, None) \<Rightarrow> True | _ \<Rightarrow> False) \<and>
     (case fc_reservation ctx of
        Some r \<Rightarrow> clean_value (rv_reservation_id r) \<and> clean_value (rv_key_id r) \<and> clean_value (rv_model r) | None \<Rightarrow> True)"

text \<open>The headers of the client carry none of the internal ones, and no turn state where the context has none.\<close>

definition internal_headers :: "string list" where
  "internal_headers =
     [FORWARDED_HEADER, ORIGIN_INSTANCE_HEADER, TARGET_INSTANCE_HEADER,
      CODEX_AFFINITY_HEADER, AFFINITY_KIND_HEADER, AFFINITY_KEY_HEADER,
      RESERVATION_ID_HEADER, RESERVATION_KEY_ID_HEADER, RESERVATION_MODEL_HEADER,
      SIGNATURE_HEADER]"

definition plain_headers :: "forward_headers \<Rightarrow> forward_context \<Rightarrow> bool" where
  "plain_headers hs ctx \<longleftrightarrow>
     list_all (\<lambda>k. map_of hs k = None) internal_headers \<and>
     (fc_downstream_turn_state ctx = None \<longrightarrow> map_of hs TURN_STATE_HEADER = None)"

lemma optional_clean [simp]: "clean_value s \<Longrightarrow> optional_header (Some s) = Some s" "optional_header None = None"
  by (auto simp: optional_header_def clean_value_def)

lemma nonempty_clean [simp]: "clean_value s \<Longrightarrow> nonempty_str (Some s) = Some s"
  by (auto simp: clean_value_def)

lemma map_of_set_header [simp]: "map_of (set_header k v hs) = (map_of hs)(k \<mapsto> v)"
  by (simp add: set_header_def update_conv')

lemma map_of_delete_other [simp]: "k \<noteq> d \<Longrightarrow> map_of (AList.delete d hs) k = map_of hs k"
  by (simp add: delete_conv)

lemma bool_header_digit [simp]: "bool_header (Some (if b then ''1'' else ''0'')) = b"
proof -
  have "bool_header (Some ''1'')" "\<not> bool_header (Some ''0'')" by code_simp+
  then show ?thesis by (cases b) simp_all
qed

text \<open>The values of the internal headers of a forwarded request.\<close>

definition base_map :: "forward_headers \<Rightarrow> forward_context \<Rightarrow> (string \<rightharpoonup> string)" where
  "base_map hs ctx =
     (map_of (AList.delete CONTENT_LENGTH_HEADER (AList.delete HOST_HEADER hs)))
       (FORWARDED_HEADER \<mapsto> ''1'', ORIGIN_INSTANCE_HEADER \<mapsto> fc_origin_instance ctx,
        TARGET_INSTANCE_HEADER \<mapsto> fc_target_instance ctx,
        CODEX_AFFINITY_HEADER \<mapsto> (if fc_codex_session_affinity ctx then ''1'' else ''0''))"

definition affinity_map :: "forward_context \<Rightarrow> (string \<rightharpoonup> string) \<Rightarrow> (string \<rightharpoonup> string)" where
  "affinity_map ctx m =
     (case (fc_affinity_kind ctx, fc_affinity_key ctx) of
        (Some kind, Some key) \<Rightarrow> m(AFFINITY_KIND_HEADER \<mapsto> kind, AFFINITY_KEY_HEADER \<mapsto> key) | _ \<Rightarrow> m)"

definition turn_map :: "forward_context \<Rightarrow> (string \<rightharpoonup> string) \<Rightarrow> (string \<rightharpoonup> string)" where
  "turn_map ctx m = (case fc_downstream_turn_state ctx of Some t \<Rightarrow> m(TURN_STATE_HEADER \<mapsto> t) | None \<Rightarrow> m)"

definition reservation_map :: "forward_context \<Rightarrow> (string \<rightharpoonup> string) \<Rightarrow> (string \<rightharpoonup> string)" where
  "reservation_map ctx m =
     (case fc_reservation ctx of
        Some r \<Rightarrow> m(RESERVATION_ID_HEADER \<mapsto> rv_reservation_id r, RESERVATION_KEY_ID_HEADER \<mapsto> rv_key_id r,
                   RESERVATION_MODEL_HEADER \<mapsto> rv_model r)
      | None \<Rightarrow> m)"

lemma affinity_headers:
  "clean_context ctx \<Longrightarrow>
     map_of (case (nonempty_str (fc_affinity_kind ctx), nonempty_str (fc_affinity_key ctx)) of
        (Some kind, Some key) \<Rightarrow> set_header AFFINITY_KEY_HEADER key (set_header AFFINITY_KIND_HEADER kind h) | _ \<Rightarrow> h) =
     affinity_map ctx (map_of h)"
  by (cases "fc_affinity_kind ctx"; cases "fc_affinity_key ctx") (auto simp: affinity_map_def clean_context_def)

lemma turn_headers:
  "clean_context ctx \<Longrightarrow>
     map_of (case nonempty_str (fc_downstream_turn_state ctx) of Some t \<Rightarrow> set_header TURN_STATE_HEADER t h | None \<Rightarrow> h) =
     turn_map ctx (map_of h)"
  by (cases "fc_downstream_turn_state ctx") (auto simp: turn_map_def clean_context_def)

lemma reservation_headers:
  "map_of (case fc_reservation ctx of
        Some r \<Rightarrow> set_header RESERVATION_MODEL_HEADER (rv_model r) (set_header RESERVATION_KEY_ID_HEADER (rv_key_id r)
                 (set_header RESERVATION_ID_HEADER (rv_reservation_id r) h))
      | None \<Rightarrow> h) = reservation_map ctx (map_of h)"
  by (cases "fc_reservation ctx") (auto simp: reservation_map_def)

lemma forward_header_map:
  assumes "clean_context ctx"
  shows "map_of (build_owner_forward_headers cr hs body ctx) =
    (reservation_map ctx (turn_map ctx (affinity_map ctx (base_map hs ctx))))(SIGNATURE_HEADER \<mapsto> bridge_forward_signature cr body ctx)"
  unfolding build_owner_forward_headers_def Let_def map_of_set_header reservation_headers turn_headers [OF assms]
    affinity_headers [OF assms] base_map_def ..

lemma map_layers [simp]:
  "k \<notin> {AFFINITY_KIND_HEADER, AFFINITY_KEY_HEADER} \<Longrightarrow> affinity_map ctx m k = m k"
  "k \<noteq> TURN_STATE_HEADER \<Longrightarrow> turn_map ctx m k = m k"
  "k \<notin> {RESERVATION_ID_HEADER, RESERVATION_KEY_ID_HEADER, RESERVATION_MODEL_HEADER} \<Longrightarrow> reservation_map ctx m k = m k"
  by (auto simp: affinity_map_def turn_map_def reservation_map_def split: option.split)

lemma plain_headers_None:
  "plain_headers hs ctx \<Longrightarrow> k \<in> set internal_headers \<Longrightarrow> map_of hs k = None"
  by (auto simp: plain_headers_def list_all_iff)

lemma internal_header_members [simp]:
  "AFFINITY_KIND_HEADER \<in> set internal_headers" "AFFINITY_KEY_HEADER \<in> set internal_headers"
  "RESERVATION_ID_HEADER \<in> set internal_headers" "RESERVATION_KEY_ID_HEADER \<in> set internal_headers"
  "RESERVATION_MODEL_HEADER \<in> set internal_headers"
  by (simp_all add: internal_headers_def)

lemma layer_values:
  assumes "clean_context ctx" and "plain_headers hs ctx"
  shows "affinity_map ctx (base_map hs ctx) AFFINITY_KIND_HEADER = fc_affinity_kind ctx"
    and "affinity_map ctx (base_map hs ctx) AFFINITY_KEY_HEADER = fc_affinity_key ctx"
    and "turn_map ctx m TURN_STATE_HEADER = (if fc_downstream_turn_state ctx = None then m TURN_STATE_HEADER else fc_downstream_turn_state ctx)"
    and "m RESERVATION_ID_HEADER = None \<Longrightarrow> reservation_map ctx m RESERVATION_ID_HEADER = map_option rv_reservation_id (fc_reservation ctx)"
    and "m RESERVATION_KEY_ID_HEADER = None \<Longrightarrow> reservation_map ctx m RESERVATION_KEY_ID_HEADER = map_option rv_key_id (fc_reservation ctx)"
    and "m RESERVATION_MODEL_HEADER = None \<Longrightarrow> reservation_map ctx m RESERVATION_MODEL_HEADER = map_option rv_model (fc_reservation ctx)"
proof -
  have none: "base_map hs ctx AFFINITY_KIND_HEADER = None" "base_map hs ctx AFFINITY_KEY_HEADER = None"
    using plain_headers_None [OF assms(2)] by (simp_all add: base_map_def)
  show "affinity_map ctx (base_map hs ctx) AFFINITY_KIND_HEADER = fc_affinity_kind ctx"
    "affinity_map ctx (base_map hs ctx) AFFINITY_KEY_HEADER = fc_affinity_key ctx"
    using assms(1) none
    by (cases "fc_affinity_kind ctx"; cases "fc_affinity_key ctx"; simp add: affinity_map_def clean_context_def)+
  show "turn_map ctx m TURN_STATE_HEADER = (if fc_downstream_turn_state ctx = None then m TURN_STATE_HEADER else fc_downstream_turn_state ctx)"
    by (cases "fc_downstream_turn_state ctx") (simp_all add: turn_map_def)
  show "m RESERVATION_ID_HEADER = None \<Longrightarrow> reservation_map ctx m RESERVATION_ID_HEADER = map_option rv_reservation_id (fc_reservation ctx)"
    "m RESERVATION_KEY_ID_HEADER = None \<Longrightarrow> reservation_map ctx m RESERVATION_KEY_ID_HEADER = map_option rv_key_id (fc_reservation ctx)"
    "m RESERVATION_MODEL_HEADER = None \<Longrightarrow> reservation_map ctx m RESERVATION_MODEL_HEADER = map_option rv_model (fc_reservation ctx)"
    by (cases "fc_reservation ctx"; simp add: reservation_map_def)+
qed

lemma forward_header_values:
  fixes cr body
  assumes "clean_context ctx" and "plain_headers hs ctx"
  defines "m \<equiv> map_of (build_owner_forward_headers cr hs body ctx)"
  shows "m FORWARDED_HEADER = Some ''1''"
    and "m ORIGIN_INSTANCE_HEADER = Some (fc_origin_instance ctx)"
    and "m TARGET_INSTANCE_HEADER = Some (fc_target_instance ctx)"
    and "m CODEX_AFFINITY_HEADER = Some (if fc_codex_session_affinity ctx then ''1'' else ''0'')"
    and "m AFFINITY_KIND_HEADER = fc_affinity_kind ctx"
    and "m AFFINITY_KEY_HEADER = fc_affinity_key ctx"
    and "m TURN_STATE_HEADER = fc_downstream_turn_state ctx"
    and "m RESERVATION_ID_HEADER = map_option rv_reservation_id (fc_reservation ctx)"
    and "m RESERVATION_KEY_ID_HEADER = map_option rv_key_id (fc_reservation ctx)"
    and "m RESERVATION_MODEL_HEADER = map_option rv_model (fc_reservation ctx)"
    and "m SIGNATURE_HEADER = Some (bridge_forward_signature cr body ctx)"
proof -
  let ?b = "base_map hs ctx"
  have none: "?b RESERVATION_ID_HEADER = None" "?b RESERVATION_KEY_ID_HEADER = None" "?b RESERVATION_MODEL_HEADER = None"
    using plain_headers_None [OF assms(2)] by (simp_all add: base_map_def)
  have turn: "fc_downstream_turn_state ctx = None \<Longrightarrow> ?b TURN_STATE_HEADER = None"
    using assms(2) by (simp add: base_map_def plain_headers_def)
  show "m FORWARDED_HEADER = Some ''1''" "m ORIGIN_INSTANCE_HEADER = Some (fc_origin_instance ctx)"
    "m TARGET_INSTANCE_HEADER = Some (fc_target_instance ctx)"
    "m CODEX_AFFINITY_HEADER = Some (if fc_codex_session_affinity ctx then ''1'' else ''0'')"
    "m SIGNATURE_HEADER = Some (bridge_forward_signature cr body ctx)"
    by (simp_all add: m_def forward_header_map [OF assms(1)] base_map_def)
  show "m AFFINITY_KIND_HEADER = fc_affinity_kind ctx" "m AFFINITY_KEY_HEADER = fc_affinity_key ctx"
    by (simp_all add: m_def forward_header_map [OF assms(1)] layer_values [OF assms(1,2)])
  show "m TURN_STATE_HEADER = fc_downstream_turn_state ctx"
    using turn by (simp add: m_def forward_header_map [OF assms(1)] layer_values(3) [OF assms(1,2)])
  show "m RESERVATION_ID_HEADER = map_option rv_reservation_id (fc_reservation ctx)"
    "m RESERVATION_KEY_ID_HEADER = map_option rv_key_id (fc_reservation ctx)"
    "m RESERVATION_MODEL_HEADER = map_option rv_model (fc_reservation ctx)"
    using none by (simp_all add: m_def forward_header_map [OF assms(1)] layer_values(4-6) [OF assms(1,2)])
qed

lemma optional_clean_option: "(\<And>s. v = Some s \<Longrightarrow> clean_value s) \<Longrightarrow> optional_header v = v"
  by (cases v) auto

lemma reservation_roundtrip:
  assumes "clean_context ctx" and "plain_headers hs ctx"
  shows "reservation_from_headers (build_owner_forward_headers cr hs body ctx) = fc_reservation ctx"
  using assms(1) by (cases "fc_reservation ctx") (auto simp: reservation_from_headers_def forward_header_values [OF assms] clean_context_def)

lemma context_roundtrip:
  assumes "clean_context ctx" and "plain_headers hs ctx"
  shows "context_from_headers (build_owner_forward_headers cr hs body ctx) (fc_target_instance ctx) = ctx"
proof -
  have "optional_header (fc_affinity_kind ctx) = fc_affinity_kind ctx" "optional_header (fc_affinity_key ctx) = fc_affinity_key ctx"
    "optional_header (fc_downstream_turn_state ctx) = fc_downstream_turn_state ctx"
    using assms(1) by (auto intro!: optional_clean_option simp: clean_context_def split: option.splits)
  then show ?thesis
    using assms(1) by (simp add: context_from_headers_def forward_header_values [OF assms] reservation_roundtrip [OF assms] clean_context_def)
qed

text \<open>
  A request that is forwarded to the owner of its session arrives as it was sent: when the values of the context have
  no white space around them, when the client's own headers hold no internal header (and no turn state that the context
  leaves out), and when the digest is clean hexadecimal text, the target instance accepts the headers and reads the very
  context of the sender, with its affinity, its turn state and its usage reservation.
\<close>

theorem forward_roundtrip:
  assumes "clean_context ctx" and "plain_headers hs ctx" and "\<And>text. clean_value (fw_hmac cr text)"
  shows "parse_forwarded_request cr (build_owner_forward_headers cr hs body ctx) body (fc_target_instance ctx) = Inr ctx"
proof -
  have sig: "clean_value (bridge_forward_signature cr body ctx)" using assms(3) by (simp add: bridge_forward_signature_def)
  have target: "clean_value (fc_target_instance ctx)" "fc_target_instance ctx \<noteq> []"
    using assms(1) by (auto simp: clean_context_def clean_value_def)
  show ?thesis
    using sig target
    by (simp add: parse_forwarded_request_def forward_header_values [OF assms(1,2)] context_roundtrip [OF assms(1,2)])
qed

definition example_context :: forward_context where
  "example_context =
     \<lparr>fc_origin_instance = ''a'', fc_target_instance = ''b'', fc_codex_session_affinity = True,
      fc_downstream_turn_state = Some ''t1'', fc_affinity_kind = Some ''session'', fc_affinity_key = Some ''s1'',
      fc_reservation = Some \<lparr>rv_reservation_id = ''r1'', rv_key_id = ''k1'', rv_model = ''gpt''\<rparr>\<rparr>"

theorem forward_roundtrip_witness:
  "parse_forwarded_request \<lparr>fw_hmac = (\<lambda>s. ''f00d''), fw_sha256 = (\<lambda>s. s)\<rparr>
     (build_owner_forward_headers \<lparr>fw_hmac = (\<lambda>s. ''f00d''), fw_sha256 = (\<lambda>s. s)\<rparr> [(''host'', ''h''), (''user-agent'', ''codex'')] ''{}'' example_context)
     ''{}'' (fc_target_instance example_context) = Inr example_context"
proof (rule forward_roundtrip)
  show "clean_context example_context" by code_simp
  show "plain_headers [(''host'', ''h''), (''user-agent'', ''codex'')] example_context" by code_simp
  have "clean_value ''f00d''" by code_simp
  then show "clean_value (fw_hmac \<lparr>fw_hmac = (\<lambda>s. ''f00d''), fw_sha256 = (\<lambda>s. s)\<rparr> t)" for t by simp
qed

text \<open>What the signature binds.\<close>

definition no_separator :: "forward_crypto \<Rightarrow> string \<Rightarrow> forward_context \<Rightarrow> bool" where
  "no_separator cr body ctx \<longleftrightarrow> list_all (\<lambda>part. CHR ''|'' \<notin> set part) (signing_parts cr body ctx)"

lemma signing_parts_nonempty: "signing_parts cr body ctx \<noteq> []"
  by (simp add: signing_parts_def)

lemma signed_parts:
  assumes "no_separator cr body ctx" and "no_separator cr body' ctx'"
    and "join_char (CHR ''|'') (signing_parts cr body ctx) = join_char (CHR ''|'') (signing_parts cr body' ctx')"
  shows "signing_parts cr body ctx = signing_parts cr body' ctx'"
proof -
  have split: "split_on (CHR ''|'') (join_char (CHR ''|'') (signing_parts cr b c)) = signing_parts cr b c" if "no_separator cr b c" for b c
    by (rule split_join) (use that in \<open>simp_all add: no_separator_def list_all_iff signing_parts_nonempty\<close>)
  show ?thesis
    by (rule trans [OF split [OF assms(1), symmetric] trans [OF arg_cong [OF assms(3), of "split_on (CHR ''|'')"] split [OF assms(2)]]])
qed

lemma default_clean_inj:
  "(\<And>s. v = Some s \<Longrightarrow> s \<noteq> []) \<Longrightarrow> (\<And>s. w = Some s \<Longrightarrow> s \<noteq> []) \<Longrightarrow> default v [] = default w [] \<Longrightarrow> v = w"
  by (cases v; cases w) auto

lemma digit_inj: "(if b then ''1'' else ''0'') = (if c then ''1'' else ''0'') \<Longrightarrow> b = c"
  by (cases b; cases c) simp_all

lemma reservation_inj:
  fixes v w :: "reservation_data option"
  assumes "\<And>r. v = Some r \<Longrightarrow> rv_reservation_id r \<noteq> []" "\<And>r. w = Some r \<Longrightarrow> rv_reservation_id r \<noteq> []"
    and "(case v of Some r \<Rightarrow> rv_reservation_id r | None \<Rightarrow> []) = (case w of Some r \<Rightarrow> rv_reservation_id r | None \<Rightarrow> [])"
    and "(case v of Some r \<Rightarrow> rv_key_id r | None \<Rightarrow> []) = (case w of Some r \<Rightarrow> rv_key_id r | None \<Rightarrow> [])"
    and "(case v of Some r \<Rightarrow> rv_model r | None \<Rightarrow> []) = (case w of Some r \<Rightarrow> rv_model r | None \<Rightarrow> [])"
  shows "v = w"
  using assms by (cases v; cases w) auto

text \<open>Every value that is there is not the empty text.\<close>

definition present_values :: "forward_context \<Rightarrow> bool" where
  "present_values ctx \<longleftrightarrow>
     fc_downstream_turn_state ctx \<noteq> Some [] \<and> fc_affinity_kind ctx \<noteq> Some [] \<and> fc_affinity_key ctx \<noteq> Some [] \<and>
     (case fc_reservation ctx of Some r \<Rightarrow> rv_reservation_id r \<noteq> [] | None \<Rightarrow> True)"

lemma signing_parts_inj:
  assumes "present_values ctx" and "present_values ctx'" and "signing_parts cr body ctx = signing_parts cr body' ctx'"
  shows "ctx = ctx'" and "fw_sha256 cr body = fw_sha256 cr body'"
proof -
  note parts = assms(3) [unfolded signing_parts_def list.inject]
  have "fc_downstream_turn_state ctx = fc_downstream_turn_state ctx'" "fc_affinity_kind ctx = fc_affinity_kind ctx'"
    "fc_affinity_key ctx = fc_affinity_key ctx'"
    by (rule default_clean_inj; use parts assms(1,2) in \<open>auto simp: present_values_def\<close>)+
  moreover have "fc_reservation ctx = fc_reservation ctx'"
    by (rule reservation_inj; use parts assms(1,2) in \<open>auto simp: present_values_def\<close>)
  moreover have "fc_codex_session_affinity ctx = fc_codex_session_affinity ctx'" using parts digit_inj by blast
  ultimately show "ctx = ctx'" using parts by simp
  show "fw_sha256 cr body = fw_sha256 cr body'" using parts by simp
qed

lemma optional_header_present: "optional_header v \<noteq> Some []"
  by (cases v) (auto simp: optional_header_def nonempty_str_def split: list.splits)

lemma accepted_present:
  assumes "parse_forwarded_request cr hs body current = Inr ctx"
  shows "present_values ctx" and "fc_target_instance ctx = current"
    and "optional_header (map_of hs SIGNATURE_HEADER) = Some (bridge_forward_signature cr body ctx)"
proof -
  have ctx: "ctx = context_from_headers hs current"
    and sig: "optional_header (map_of hs SIGNATURE_HEADER) = Some (bridge_forward_signature cr body ctx)"
    using assms by (auto simp: parse_forwarded_request_def Let_def split: if_splits)
  show "fc_target_instance ctx = current" by (simp add: ctx context_from_headers_def)
  show "optional_header (map_of hs SIGNATURE_HEADER) = Some (bridge_forward_signature cr body ctx)" by (rule sig)
  have "case reservation_from_headers hs of Some r \<Rightarrow> rv_reservation_id r \<noteq> [] | None \<Rightarrow> True"
    using optional_header_present [of "map_of hs RESERVATION_ID_HEADER"]
    by (auto simp: reservation_from_headers_def split: option.splits)
  then show "present_values ctx" by (simp add: ctx present_values_def context_from_headers_def optional_header_present)
qed

text \<open>
  C22: An instance acts on a forwarded request only as its peer has signed it: when the headers carry a signature that was
  made for a context and a body, the optional values of that context are absent rather than empty (which the headers cannot
  tell apart), no value holds the separator, and neither the HMAC nor the SHA-256 collides on the two texts at hand, then a
  request that is accepted has that very context (instance, affinity, turn state and reservation) and a body with the
  signed text, and the signed target is the instance that accepts it.
\<close>

theorem accepted_forward_is_as_signed:
  assumes "parse_forwarded_request cr hs body current = Inr ctx"
    and "optional_header (map_of hs SIGNATURE_HEADER) = Some (bridge_forward_signature cr body' ctx')"
    and "present_values ctx'" and "no_separator cr body ctx" and "no_separator cr body' ctx'"
    and "inj_on (fw_hmac cr) {join_char (CHR ''|'') (signing_parts cr body ctx), join_char (CHR ''|'') (signing_parts cr body' ctx')}"
    and "inj_on (fw_sha256 cr) {body, body'}"
  shows "ctx = ctx' \<and> body = body' \<and> fc_target_instance ctx' = current"
proof -
  have "fw_hmac cr (join_char (CHR ''|'') (signing_parts cr body ctx)) = fw_hmac cr (join_char (CHR ''|'') (signing_parts cr body' ctx'))"
    using accepted_present(3) [OF assms(1)] assms(2) by (simp add: bridge_forward_signature_def)
  then have "join_char (CHR ''|'') (signing_parts cr body ctx) = join_char (CHR ''|'') (signing_parts cr body' ctx')"
    by (rule inj_onD [OF assms(6)]) simp_all
  then have parts: "signing_parts cr body ctx = signing_parts cr body' ctx'" by (rule signed_parts [OF assms(4,5)])
  note same = signing_parts_inj [OF accepted_present(1) [OF assms(1)] assms(3) parts]
  have "body = body'" by (rule inj_onD [OF assms(7) same(2)]) simp_all
  then show ?thesis using same(1) accepted_present(2) [OF assms(1)] by simp
qed

definition example_forward_crypto :: forward_crypto where
  "example_forward_crypto = \<lparr>fw_hmac = (\<lambda>s. s), fw_sha256 = (\<lambda>s. s)\<rparr>"

definition example_forward_headers :: forward_headers where
  "example_forward_headers = build_owner_forward_headers example_forward_crypto [] ''{}'' example_context"

theorem accepted_forward_is_as_signed_witness:
  "\<exists>ctx. parse_forwarded_request example_forward_crypto example_forward_headers ''{}'' ''b'' = Inr ctx \<and>
     ctx = example_context \<and> fc_target_instance example_context = ''b''"
proof -
  have "case parse_forwarded_request example_forward_crypto example_forward_headers ''{}'' ''b'' of Inr _ \<Rightarrow> True | Inl _ \<Rightarrow> False"
    by code_simp
  then obtain ctx where ctx: "parse_forwarded_request example_forward_crypto example_forward_headers ''{}'' ''b'' = Inr ctx"
    by (auto split: sum.splits)
  have signed: "optional_header (map_of example_forward_headers SIGNATURE_HEADER) =
      Some (bridge_forward_signature example_forward_crypto ''{}'' example_context)"
    and signable: "present_values example_context" "no_separator example_forward_crypto ''{}'' example_context"
    by code_simp+
  have parsed: "case parse_forwarded_request example_forward_crypto example_forward_headers ''{}'' ''b'' of
      Inr c \<Rightarrow> no_separator example_forward_crypto ''{}'' c | Inl _ \<Rightarrow> False"
    by code_simp
  have "ctx = example_context \<and> ''{}'' = ''{}'' \<and> fc_target_instance example_context = ''b''"
    by (rule accepted_forward_is_as_signed [OF ctx signed signable(1) _ signable(2)]) (use parsed ctx in \<open>simp_all add: example_forward_crypto_def\<close>)
  then show ?thesis using ctx by blast
qed

text \<open>
  The values are joined without escaping the separator, so the signature does not say where one ends: a turn state that
  holds the separator shares its signature with another context.
\<close>

lemma signing_payload_ambiguous:
  "bridge_forward_signature cr body (example_context\<lparr>fc_downstream_turn_state := Some ''t|x'', fc_affinity_kind := Some ''y''\<rparr>) =
   bridge_forward_signature cr body (example_context\<lparr>fc_downstream_turn_state := Some ''t'', fc_affinity_kind := Some ''x|y''\<rparr>)"
  by (simp add: bridge_forward_signature_def signing_parts_def example_context_def)

end
