(* ===== verification/Addresses.thy ===== *)
theory Addresses
  imports Prelude
begin

text \<open>
  What the firewall and the locality check use of Python's \<open>ipaddress\<close>: parsing and printing of IPv4 and IPv6
  addresses (ASCII text), membership in a network, loopback. Addresses are numbers, as in \<open>IPv4Address._ip\<close> and
  \<open>IPv6Address._ip\<close>; an IPv6 address may carry a scope id. Printing and loopback follow Python 3.13 and later, where an
  IPv4-mapped IPv6 address prints its dotted quad and is loopback when the mapped address is.
\<close>

section \<open>Addresses\<close>

datatype ip_addr = IPv4 nat | IPv6 nat "string option"

definition decimal_digit :: "char \<Rightarrow> bool" where
  "decimal_digit c = (let n = of_char c :: nat in 48 \<le> n \<and> n \<le> 57)"

definition parse_decimal :: "string \<Rightarrow> nat" where
  "parse_decimal s = foldl (\<lambda>n c. n * 10 + (of_char c - 48)) 0 s"

definition parse_octet :: "string \<Rightarrow> nat option" where
  "parse_octet s =
     (if s = [] then None
      else if \<not> list_all decimal_digit s then None
      else if length s > 3 then None
      else if s \<noteq> ''0'' \<and> hd s = CHR ''0'' then None
      else if parse_decimal s > 255 then None else Some (parse_decimal s))"

definition parse_ipv4 :: "string \<Rightarrow> nat option" where
  "parse_ipv4 s =
     (case map parse_octet (split_on CHR ''.'' s) of
        [Some a, Some b, Some c, Some d] \<Rightarrow> Some (((a * 256 + b) * 256 + c) * 256 + d)
      | _ \<Rightarrow> None)"

definition hex_value :: "char \<Rightarrow> nat option" where
  "hex_value c =
     (let n = of_char c :: nat
      in if 48 \<le> n \<and> n \<le> 57 then Some (n - 48)
         else if 97 \<le> n \<and> n \<le> 102 then Some (n - 87)
         else if 65 \<le> n \<and> n \<le> 70 then Some (n - 55) else None)"

definition parse_hextet :: "string \<Rightarrow> nat option" where
  "parse_hextet s =
     (if s = [] \<or> length s > 4 \<or> \<not> list_all (\<lambda>c. hex_value c \<noteq> None) s then None
      else Some (foldl (\<lambda>n c. n * 16 + the (hex_value c)) 0 s))"

fun hex_digits :: "nat \<Rightarrow> string" where
  "hex_digits n =
     (let d = (\<lambda>k. if k < 10 then char_of (48 + k) else char_of (87 + k))
      in if n < 16 then [d n] else hex_digits (n div 16) @ [d (n mod 16)])"

declare hex_digits.simps [simp del]

text \<open>The colon-separated parts, a dotted-quad suffix replaced by two hextets.\<close>

definition ipv6_parts :: "string \<Rightarrow> string list option" where
  "ipv6_parts s =
     (let parts = split_on CHR '':'' s
      in if length parts < 3 then None
         else if CHR ''.'' \<in> set (last parts)
         then case parse_ipv4 (last parts) of
                None \<Rightarrow> None
              | Some n \<Rightarrow> Some (butlast parts @ [hex_digits (n div 65536), hex_digits (n mod 65536)])
         else Some parts)"

text \<open>Number of leading hextets, number of zero hextets that were skipped, number of trailing hextets.\<close>

definition ipv6_layout :: "string list \<Rightarrow> (nat \<times> nat \<times> nat) option" where
  "ipv6_layout parts =
     (if length parts > 9 then None
      else case filter (\<lambda>i. parts ! i = []) [1..<length parts - 1] of
        [] \<Rightarrow> if length parts \<noteq> 8 \<or> hd parts = [] \<or> last parts = [] then None else Some (8, 0, 0)
      | [skip] \<Rightarrow>
          (let hi = (if hd parts = [] then skip - 1 else skip);
               lo = length parts - skip - 1; lo' = (if last parts = [] then lo - 1 else lo)
           in if hd parts = [] \<and> hi \<noteq> 0 then None
              else if last parts = [] \<and> lo' \<noteq> 0 then None
              else if hi + lo' \<ge> 8 then None else Some (hi, 8 - (hi + lo'), lo'))
      | _ \<Rightarrow> None)"

definition hextets_value :: "string list \<Rightarrow> nat option" where
  "hextets_value parts =
     foldl (\<lambda>n p. case (n, parse_hextet p) of (Some n, Some h) \<Rightarrow> Some (n * 65536 + h) | _ \<Rightarrow> None) (Some 0) parts"

definition parse_ipv6_number :: "string \<Rightarrow> nat option" where
  "parse_ipv6_number s =
     (case ipv6_parts s of
        None \<Rightarrow> None
      | Some parts \<Rightarrow>
          (case ipv6_layout parts of
             None \<Rightarrow> None
           | Some (hi, skipped, lo) \<Rightarrow>
               hextets_value (take hi parts @ replicate skipped ''0'' @ drop (length parts - lo) parts)))"

definition parse_ipv6 :: "string \<Rightarrow> ip_addr option" where
  "parse_ipv6 s =
     (if CHR ''/'' \<in> set s then None
      else case split_on CHR ''%'' s of
             [addr] \<Rightarrow> map_option (\<lambda>n. IPv6 n None) (parse_ipv6_number addr)
           | [addr, scope] \<Rightarrow> if scope = [] then None else map_option (\<lambda>n. IPv6 n (Some scope)) (parse_ipv6_number addr)
           | _ \<Rightarrow> None)"

text \<open>\<open>ipaddress.ip_address(s)\<close>; \<open>None\<close> is its \<open>ValueError\<close>.\<close>

definition ip_address :: "string \<Rightarrow> ip_addr option" where
  "ip_address s = (case parse_ipv4 s of Some n \<Rightarrow> Some (IPv4 n) | None \<Rightarrow> parse_ipv6 s)"

section \<open>Printing\<close>

definition ipv4_string :: "nat \<Rightarrow> string" where
  "ipv4_string n =
     join_char CHR ''.'' (map show_nat [n div 16777216 mod 256, n div 65536 mod 256, n div 256 mod 256, n mod 256])"

definition ipv6_hextets :: "nat \<Rightarrow> nat list" where
  "ipv6_hextets n = map (\<lambda>i. n div 65536 ^ (7 - i) mod 65536) [0..<8]"

text \<open>The longest run of zero hextets, the first one of several: its start and its length.\<close>

fun longest_zero_run :: "nat \<Rightarrow> nat list \<Rightarrow> nat \<times> nat \<Rightarrow> nat \<times> nat \<Rightarrow> nat \<times> nat" where
  "longest_zero_run index [] run best = best"
| "longest_zero_run index (h # hs) (start, len) best =
     (if h \<noteq> 0 then longest_zero_run (index + 1) hs (0, 0) best
      else let run = (if len = 0 then index else start, len + 1)
           in longest_zero_run (index + 1) hs run (if snd best < len + 1 then run else best))"

definition compress_hextets :: "nat list \<Rightarrow> string list" where
  "compress_hextets hs =
     (let (start, len) = longest_zero_run 0 hs (0, 0) (0, 0); texts = map hex_digits hs
      in if len \<le> 1 then texts
         else (if start = 0 then [[]] else []) @ take start texts @ [[]] @ drop (start + len) texts @
              (if start + len = length hs then [[]] else []))"

definition ipv6_string :: "nat \<Rightarrow> string" where
  "ipv6_string n = join_char CHR '':'' (compress_hextets (ipv6_hextets n))"

definition ipv4_mapped :: "nat \<Rightarrow> nat option" where
  "ipv4_mapped n = (if n div 2 ^ 32 = 65535 then Some (n mod 2 ^ 32) else None)"

fun str_ip :: "ip_addr \<Rightarrow> string" where
  "str_ip (IPv4 n) = ipv4_string n"
| "str_ip (IPv6 n scope) =
     (case ipv4_mapped n of
        None \<Rightarrow> ipv6_string n
      | Some m \<Rightarrow> ipv6_string (n div 2 ^ 32) @ '':'' @ ipv4_string m) @
     (case scope of None \<Rightarrow> [] | Some s \<Rightarrow> ''%'' @ s)"

section \<open>Networks\<close>

text \<open>A network is its network address (the host bits masked off) and its prefix length.\<close>

datatype ip_net = Net4 nat nat | Net6 nat nat

text \<open>\<open>source_ip in network\<close>: the address masked to the prefix is the network address.\<close>

fun in_network :: "ip_addr \<Rightarrow> ip_net \<Rightarrow> bool" where
  "in_network (IPv4 n) (Net4 base prefix) = (n div 2 ^ (32 - prefix) * 2 ^ (32 - prefix) = base)"
| "in_network (IPv6 n _) (Net6 base prefix) = (n div 2 ^ (128 - prefix) * 2 ^ (128 - prefix) = base)"
| "in_network _ _ = False"

definition loopback4 :: "nat \<Rightarrow> bool" where
  "loopback4 n = (n div 2 ^ 24 = 127)"

fun is_loopback :: "ip_addr \<Rightarrow> bool" where
  "is_loopback (IPv4 n) = loopback4 n"
| "is_loopback (IPv6 n _) = (case ipv4_mapped n of Some m \<Rightarrow> loopback4 m | None \<Rightarrow> n = 1)"

end
