(* ===== verification/Firewall.thy ===== *)
theory Firewall
  imports Addresses
begin

text \<open>
  The API firewall (\<open>app/modules/firewall\<close>, \<open>app/core/middleware/api_firewall.py\<close>, \<open>firewall_cache.py\<close>): the allow
  list and its service, the versioned cache of verdicts, the resolution of the client address behind trusted proxies,
  and the middleware.

  \<^item> The table \<open>api_firewall_allowlist\<close> is the list of its primary keys; the creation times, which only the dashboard
    shows, are left out.
  \<^item> Monotonic clock readings are arguments. Each \<open>await\<close> of the middleware is a point where other requests and
    dashboard changes may run; the step relation \<open>fw_step\<close> interleaves them.
  \<^item> Headers are looked up by lower-case name, as the framework's header mapping does.
\<close>

section \<open>Allow list\<close>

datatype firewall_error = FirewallValidationError string | FirewallIpAlreadyExistsError

type_synonym allowlist = "string list"

definition normalize_ip_address :: "string \<Rightarrow> firewall_error + string" where
  "normalize_ip_address value =
     (let raw = py_strip value
      in if raw = [] then Inl (FirewallValidationError ''IP address is required'')
         else case ip_address raw of
                Some a \<Rightarrow> Inr (str_ip a)
              | None \<Rightarrow> Inl (FirewallValidationError ''Invalid IP address''))"

text \<open>The repository: \<open>add\<close> fails with a conflict when the key exists, \<open>delete\<close> tells whether a row was there.\<close>

definition repo_add :: "string \<Rightarrow> allowlist \<Rightarrow> allowlist option" where
  "repo_add ip t = (if ip \<in> set t then None else Some (t @ [ip]))"

definition repo_delete :: "string \<Rightarrow> allowlist \<Rightarrow> bool \<times> allowlist" where
  "repo_delete ip t = (if ip \<in> set t then (True, removeAll ip t) else (False, t))"

text \<open>\<open>race\<close> is what other sessions do to the table between the existence check and the insert.\<close>

definition add_ip :: "(allowlist \<Rightarrow> allowlist) \<Rightarrow> string \<Rightarrow> allowlist \<Rightarrow> (firewall_error + string) \<times> allowlist" where
  "add_ip race ip_text t =
     (case normalize_ip_address ip_text of
        Inl e \<Rightarrow> (Inl e, t)
      | Inr ip \<Rightarrow>
          if ip \<in> set t then (Inl FirewallIpAlreadyExistsError, t)
          else let t' = race t
               in case repo_add ip t' of
                    None \<Rightarrow> (Inl FirewallIpAlreadyExistsError, t')
                  | Some t'' \<Rightarrow> (Inr ip, t''))"

definition remove_ip :: "string \<Rightarrow> allowlist \<Rightarrow> (firewall_error + bool) \<times> allowlist" where
  "remove_ip ip_text t =
     (case normalize_ip_address ip_text of
        Inl e \<Rightarrow> (Inl e, t)
      | Inr ip \<Rightarrow> (let (deleted, t') = repo_delete ip t in (Inr deleted, t')))"

definition is_ip_allowed :: "allowlist \<Rightarrow> string option \<Rightarrow> bool" where
  "is_ip_allowed t ip_text =
     (if t = [] then True
      else case ip_text of
             None \<Rightarrow> False
           | Some s \<Rightarrow> (case normalize_ip_address s of Inl _ \<Rightarrow> False | Inr ip \<Rightarrow> ip \<in> set t))"

section \<open>Cache of verdicts\<close>

record firewall_cache =
  fc_ttl_seconds :: int
  fc_cache :: "(string \<times> bool \<times> real) list"
  fc_version :: nat

definition FirewallIPCache :: "int \<Rightarrow> firewall_cache option" where
  "FirewallIPCache ttl_seconds =
     (if ttl_seconds \<le> 0 then None else Some \<lparr>fc_ttl_seconds = ttl_seconds, fc_cache = [], fc_version = 0\<rparr>)"

definition fw_cache_is_allowed :: "real \<Rightarrow> string \<Rightarrow> firewall_cache \<Rightarrow> bool option" where
  "fw_cache_is_allowed now ip c =
     (case map_of (fc_cache c) ip of
        None \<Rightarrow> None
      | Some (allowed, expires_at) \<Rightarrow> if now \<ge> expires_at then None else Some allowed)"

definition fw_cache_set :: "real \<Rightarrow> string \<Rightarrow> bool \<Rightarrow> nat option \<Rightarrow> firewall_cache \<Rightarrow> firewall_cache" where
  "fw_cache_set now ip allowed if_version c =
     (if if_version \<noteq> None \<and> if_version \<noteq> Some (fc_version c) then c
      else c\<lparr>fc_cache := (ip, allowed, now + of_int (fc_ttl_seconds c)) # filter (\<lambda>e. fst e \<noteq> ip) (fc_cache c)\<rparr>)"

definition fw_cache_invalidate_all :: "firewall_cache \<Rightarrow> firewall_cache" where
  "fw_cache_invalidate_all c = c\<lparr>fc_cache := [], fc_version := fc_version c + 1\<rparr>"

section \<open>Client address\<close>

type_synonym header_lookup = "string \<Rightarrow> string option"

definition is_valid_ip :: "string \<Rightarrow> bool" where
  "is_valid_ip s = (ip_address s \<noteq> None)"

definition is_trusted_proxy_source :: "ip_net list \<Rightarrow> string \<Rightarrow> bool" where
  "is_trusted_proxy_source nets host =
     (if nets = [] then False else case ip_address host of None \<Rightarrow> False | Some a \<Rightarrow> list_ex (in_network a) nets)"

text \<open>The loop over the chain, from the socket towards the client; the argument is the chain reversed.\<close>

fun walk_chain :: "ip_net list \<Rightarrow> string \<Rightarrow> string list \<Rightarrow> string" where
  "walk_chain nets current [] = current"
| "walk_chain nets current (previous # rest) =
     (if \<not> is_trusted_proxy_source nets current then current else walk_chain nets previous rest)"

definition xff_hops :: "string \<Rightarrow> string list" where
  "xff_hops forwarded_for = map py_strip (split_on CHR '','' forwarded_for)"

definition resolve_client_ip_from_xff_chain :: "string \<Rightarrow> string \<Rightarrow> ip_net list \<Rightarrow> string option" where
  "resolve_client_ip_from_xff_chain socket_ip forwarded_for nets =
     (let hops = xff_hops forwarded_for
      in if hops = [] then None
         else if list_ex (\<lambda>h. \<not> is_valid_ip h) hops then None
         else Some (walk_chain nets socket_ip (rev hops)))"

definition truthy_text :: "string option \<Rightarrow> string option" where
  "truthy_text s = (case s of Some (c # cs) \<Rightarrow> Some (c # cs) | _ \<Rightarrow> None)"

definition resolve_connection_client_ip :: "header_lookup \<Rightarrow> string option \<Rightarrow> bool \<Rightarrow> ip_net list \<Rightarrow> string option" where
  "resolve_connection_client_ip headers socket_ip trust_proxy_headers nets =
     (case truthy_text socket_ip of
        None \<Rightarrow> socket_ip
      | Some socket \<Rightarrow>
          if trust_proxy_headers \<and> is_trusted_proxy_source nets socket
          then case truthy_text (headers ''x-forwarded-for'') of
                 None \<Rightarrow> socket_ip
               | Some forwarded_for \<Rightarrow>
                   (case resolve_client_ip_from_xff_chain socket forwarded_for nets of
                      Some resolved \<Rightarrow> Some resolved
                    | None \<Rightarrow> socket_ip)
          else socket_ip)"

section \<open>Middleware\<close>

definition is_protected_api_path :: "string \<Rightarrow> bool" where
  "is_protected_api_path path =
     (path = ''/backend-api/codex'' \<or> starts_with ''/backend-api/codex/'' path \<or>
      path = ''/v1'' \<or> starts_with ''/v1/'' path)"

datatype verdict = Pass | Forbidden

definition verdict_of :: "bool \<Rightarrow> verdict" where
  "verdict_of is_allowed = (if is_allowed then Pass else Forbidden)"

text \<open>
  One request that no other runs in between: \<open>now\<close> and \<open>later\<close> are the clock at the lookup and at the store.
\<close>

definition api_firewall_middleware ::
  "real \<Rightarrow> real \<Rightarrow> string \<Rightarrow> string option \<Rightarrow> allowlist \<Rightarrow> firewall_cache \<Rightarrow> verdict \<times> firewall_cache" where
  "api_firewall_middleware now later path client_ip t c =
     (if \<not> is_protected_api_path path then (Pass, c)
      else case (case client_ip of None \<Rightarrow> None | Some ip \<Rightarrow> fw_cache_is_allowed now ip c) of
             Some is_allowed \<Rightarrow> (verdict_of is_allowed, c)
           | None \<Rightarrow>
               (let version_before_read = fc_version c; is_allowed = is_ip_allowed t client_ip
                in (verdict_of is_allowed,
                    case client_ip of
                      None \<Rightarrow> c
                    | Some ip \<Rightarrow> fw_cache_set later ip is_allowed (Some version_before_read) c)))"

text \<open>The websocket entry point asks the service and never the cache.\<close>

definition websocket_firewall_verdict :: "string option \<Rightarrow> allowlist \<Rightarrow> verdict" where
  "websocket_firewall_verdict client_ip t = verdict_of (is_ip_allowed t client_ip)"

section \<open>Requests and dashboard changes interleaved\<close>

text \<open>
  A request that missed the cache holds the version it saw and, once it has read the table, its verdict.
  \<open>fw_unflushed\<close> counts committed changes of the table, by this replica's dashboard or by another replica, whose
  invalidation has not reached this replica's cache yet.
\<close>

record fw_request =
  fr_ip :: string
  fr_version :: nat
  fr_decision :: "bool option"

record fw_state =
  fw_table :: allowlist
  fw_cache :: firewall_cache
  fw_requests :: "fw_request list"
  fw_unflushed :: nat

definition fw_begin :: "string \<Rightarrow> fw_state \<Rightarrow> fw_state" where
  "fw_begin ip s =
     s\<lparr>fw_requests := fw_requests s @ [\<lparr>fr_ip = ip, fr_version = fc_version (fw_cache s), fr_decision = None\<rparr>]\<rparr>"

definition fw_read :: "nat \<Rightarrow> fw_state \<Rightarrow> fw_state" where
  "fw_read i s =
     (let r = fw_requests s ! i
      in s\<lparr>fw_requests := (fw_requests s)[i := r\<lparr>fr_decision := Some (is_ip_allowed (fw_table s) (Some (fr_ip r)))\<rparr>]\<rparr>)"

definition fw_store :: "real \<Rightarrow> nat \<Rightarrow> fw_state \<Rightarrow> fw_state" where
  "fw_store now i s =
     (let r = fw_requests s ! i
      in case fr_decision r of
           None \<Rightarrow> s
         | Some d \<Rightarrow>
             s\<lparr>fw_cache := fw_cache_set now (fr_ip r) d (Some (fr_version r)) (fw_cache s),
               fw_requests := take i (fw_requests s) @ drop (i + 1) (fw_requests s)\<rparr>)"

inductive fw_step :: "fw_state \<Rightarrow> fw_state \<Rightarrow> bool" where
  begin_request: "fw_cache_is_allowed now ip (fw_cache s) = None \<Longrightarrow> fw_step s (fw_begin ip s)"
| read_table: "i < length (fw_requests s) \<Longrightarrow> fw_step s (fw_read i s)"
| store_verdict: "i < length (fw_requests s) \<Longrightarrow> fw_step s (fw_store now i s)"
| dashboard_add:
    "add_ip (\<lambda>t. t) ip_text (fw_table s) = (Inr ip, t) \<Longrightarrow>
     fw_step s (s\<lparr>fw_table := t, fw_unflushed := fw_unflushed s + 1\<rparr>)"
| dashboard_remove:
    "remove_ip ip_text (fw_table s) = (Inr True, t) \<Longrightarrow>
     fw_step s (s\<lparr>fw_table := t, fw_unflushed := fw_unflushed s + 1\<rparr>)"
| invalidate: "fw_step s (s\<lparr>fw_cache := fw_cache_invalidate_all (fw_cache s), fw_unflushed := fw_unflushed s - 1\<rparr>)"

definition fw_start :: "allowlist \<Rightarrow> int \<Rightarrow> fw_state option" where
  "fw_start t ttl_seconds =
     map_option (\<lambda>c. \<lparr>fw_table = t, fw_cache = c, fw_requests = [], fw_unflushed = 0\<rparr>) (FirewallIPCache ttl_seconds)"

inductive fw_reachable :: "fw_state \<Rightarrow> bool" where
  start: "distinct t \<Longrightarrow> fw_start t ttl_seconds = Some s \<Longrightarrow> fw_reachable s"
| step: "fw_reachable s \<Longrightarrow> fw_step s s' \<Longrightarrow> fw_reachable s'"

inductive_cases fw_stepE: "fw_step s s'"

section \<open>Verdicts\<close>

lemma repo_add_keeps_distinct: "distinct t \<Longrightarrow> repo_add ip t = Some t' \<Longrightarrow> distinct t'"
  by (auto simp: repo_add_def split: if_splits)

lemma add_ip_table: "add_ip (\<lambda>t. t) ip_text t = (Inr ip, t') \<Longrightarrow> ip \<notin> set t \<and> t' = t @ [ip] \<and> normalize_ip_address ip_text = Inr ip"
  by (auto simp: add_ip_def repo_add_def Let_def split: sum.splits if_splits)

lemma remove_ip_table:
  "remove_ip ip_text t = (Inr True, t') \<Longrightarrow> \<exists>ip. normalize_ip_address ip_text = Inr ip \<and> ip \<in> set t \<and> t' = removeAll ip t"
  by (auto simp: remove_ip_def repo_delete_def split: sum.splits if_splits)

definition cached_right :: "fw_state \<Rightarrow> bool" where
  "cached_right s = (\<forall>e \<in> set (fc_cache (fw_cache s)). fst (snd e) = is_ip_allowed (fw_table s) (Some (fst e)))"

definition fw_inv :: "fw_state \<Rightarrow> bool" where
  "fw_inv s =
     ((\<forall>r \<in> set (fw_requests s). fr_version r \<le> fc_version (fw_cache s)) \<and>
      (fw_unflushed s = 0 \<longrightarrow> cached_right s \<and>
         (\<forall>r \<in> set (fw_requests s). fr_version r = fc_version (fw_cache s) \<longrightarrow>
            fr_decision r \<in> {None, Some (is_ip_allowed (fw_table s) (Some (fr_ip r)))})))"

lemma fw_inv_begin: "fw_inv s \<Longrightarrow> fw_inv (fw_begin ip s)"
  by (auto simp: fw_inv_def fw_begin_def cached_right_def)

lemma fw_inv_read:
  assumes "fw_inv s" "i < length (fw_requests s)"
  shows "fw_inv (fw_read i s)"
proof -
  define rs where "rs = fw_requests s"
  define r where "r = (rs ! i)\<lparr>fr_decision := Some (is_ip_allowed (fw_table s) (Some (fr_ip (rs ! i))))\<rparr>"
  have sub: "set (rs[i := r]) \<subseteq> insert r (set rs)" by (rule set_update_subset_insert)
  have "rs ! i \<in> set rs" using assms(2) by (simp add: rs_def)
  then have version: "fr_version r \<le> fc_version (fw_cache s)" using assms(1) by (auto simp: fw_inv_def rs_def r_def)
  have "fw_read i s = s\<lparr>fw_requests := rs[i := r]\<rparr>" by (simp add: fw_read_def rs_def r_def Let_def)
  moreover have "fw_inv (s\<lparr>fw_requests := rs[i := r]\<rparr>)"
    using assms(1) sub version
    by (simp add: fw_inv_def cached_right_def rs_def [symmetric]) (auto simp: r_def)
  ultimately show ?thesis by simp
qed

lemma fw_inv_store:
  assumes "fw_inv s" "i < length (fw_requests s)"
  shows "fw_inv (fw_store now i s)"
proof (cases "fr_decision (fw_requests s ! i)")
  case None
  then show ?thesis using assms(1) by (simp add: fw_store_def Let_def)
next
  case (Some d)
  define rs where "rs = take i (fw_requests s) @ drop (i + 1) (fw_requests s)"
  define r where "r = fw_requests s ! i"
  have sub: "set rs \<subseteq> set (fw_requests s)" by (auto simp: rs_def dest: in_set_takeD in_set_dropD)
  have r: "r \<in> set (fw_requests s)" using assms(2) by (simp add: r_def)
  then have right: "fw_unflushed s = 0 \<Longrightarrow> fr_version r = fc_version (fw_cache s) \<Longrightarrow>
      d = is_ip_allowed (fw_table s) (Some (fr_ip r))"
    using assms(1) Some by (auto simp: fw_inv_def r_def)
  have "fw_store now i s = s\<lparr>fw_cache := fw_cache_set now (fr_ip r) d (Some (fr_version r)) (fw_cache s), fw_requests := rs\<rparr>"
    by (simp add: fw_store_def Some rs_def r_def Let_def)
  then show ?thesis
    using assms(1) sub right by (auto simp: fw_inv_def cached_right_def fw_cache_set_def)
qed

lemma fw_inv_step: "fw_step s s' \<Longrightarrow> fw_inv s \<Longrightarrow> fw_inv s'"
proof (induction rule: fw_step.induct)
  case (invalidate s)
  then show ?case by (force simp: fw_inv_def cached_right_def fw_cache_invalidate_all_def)
qed (simp_all add: fw_inv_begin fw_inv_read fw_inv_store, simp_all add: fw_inv_def)

lemma fw_inv_start: "fw_start t ttl_seconds = Some s \<Longrightarrow> fw_inv s"
  by (auto simp: fw_start_def FirewallIPCache_def fw_inv_def cached_right_def split: if_splits)

lemma fw_inv_reachable: "fw_reachable s \<Longrightarrow> fw_inv s"
  by (induction rule: fw_reachable.induct) (auto intro: fw_inv_step fw_inv_start)

lemma fw_table_distinct: "fw_reachable s \<Longrightarrow> distinct (fw_table s)"
proof (induction rule: fw_reachable.induct)
  case (start t ttl_seconds s)
  then show ?case by (auto simp: fw_start_def)
next
  case (step s s')
  from step(2,3) show ?case
    by (cases rule: fw_step.cases)
       (auto simp: fw_begin_def fw_read_def fw_store_def Let_def distinct_removeAll split: option.split
         dest!: add_ip_table remove_ip_table)
qed

text \<open>
  C18: Serving verdicts from the cache is unobservable. In every state that requests, dashboard changes and invalidations
  reach by any interleaving, as soon as the invalidations of all committed changes have arrived, the middleware answers a
  request to a protected path exactly as the websocket entry point does, which asks the table every time; a request that
  read the table before a change cannot put its outdated verdict into the cache afterwards.
\<close>

theorem cached_verdict_equals_fresh:
  assumes "fw_reachable s" "fw_unflushed s = 0" "is_protected_api_path path"
  shows "fst (api_firewall_middleware now later path client_ip (fw_table s) (fw_cache s)) =
         websocket_firewall_verdict client_ip (fw_table s)"
proof -
  have right: "cached_right s" using fw_inv_reachable [OF assms(1)] assms(2) by (simp add: fw_inv_def)
  have "fw_cache_is_allowed now ip (fw_cache s) = Some b \<Longrightarrow> b = is_ip_allowed (fw_table s) (Some ip)" for ip b
    using right
    by (fastforce simp: fw_cache_is_allowed_def cached_right_def dest: map_of_SomeD split: option.splits if_splits)
  then show ?thesis using assms(3)
    by (auto simp: api_firewall_middleware_def websocket_firewall_verdict_def Let_def split: option.split)
qed

definition fw_example :: fw_state where
  "fw_example =
     \<lparr>fw_table = [''10.0.0.1''],
      fw_cache = \<lparr>fc_ttl_seconds = 30, fc_cache = [(''10.0.0.2'', False, 35)], fc_version = 0\<rparr>,
      fw_requests = [], fw_unflushed = 0\<rparr>"

lemma not_allowed_example: "is_ip_allowed [''10.0.0.1''] (Some ''10.0.0.2'') = False"
  by (simp add: is_ip_allowed_def normalize_ip_address_def py_strip_def py_isspace_def ip_address_def parse_ipv4_def
      parse_octet_def decimal_digit_def parse_decimal_def ipv4_string_def show_nat.simps char_of_def split: sum.split)

lemma fw_example_reachable: "fw_reachable fw_example"
proof -
  define s where "s = \<lparr>fw_table = [''10.0.0.1''],
      fw_cache = \<lparr>fc_ttl_seconds = 30, fc_cache = [], fc_version = 0\<rparr>, fw_requests = [], fw_unflushed = 0\<rparr>"
  have "fw_reachable s"
    by (rule fw_reachable.start [of "[''10.0.0.1'']" 30]) (simp_all add: s_def fw_start_def FirewallIPCache_def)
  moreover have "fw_step s (fw_begin ''10.0.0.2'' s)"
    by (rule fw_step.begin_request [of 0]) (simp add: s_def fw_cache_is_allowed_def)
  ultimately have a: "fw_reachable (fw_begin ''10.0.0.2'' s)" by (rule fw_reachable.step)
  then have b: "fw_reachable (fw_read 0 (fw_begin ''10.0.0.2'' s))"
    by (rule fw_reachable.step) (rule fw_step.read_table, simp add: fw_begin_def)
  then have "fw_reachable (fw_store 5 0 (fw_read 0 (fw_begin ''10.0.0.2'' s)))"
    by (rule fw_reachable.step) (rule fw_step.store_verdict, simp add: fw_begin_def fw_read_def Let_def)
  moreover have "fw_store 5 0 (fw_read 0 (fw_begin ''10.0.0.2'' s)) = fw_example"
    by (simp add: fw_store_def fw_read_def fw_begin_def fw_cache_set_def fw_example_def s_def not_allowed_example Let_def)
  ultimately show ?thesis by simp
qed

theorem cached_verdict_equals_fresh_witness:
  "fst (api_firewall_middleware 20 20 ''/v1/responses'' (Some ''10.0.0.2'') (fw_table fw_example) (fw_cache fw_example)) =
   websocket_firewall_verdict (Some ''10.0.0.2'') (fw_table fw_example)"
  by (rule cached_verdict_equals_fresh [OF fw_example_reachable])
     (simp_all add: fw_example_def is_protected_api_path_def starts_with_def)

text \<open>An address can be added in any spelling; removing it restores the list.\<close>

lemma allowlist_add_remove:
  assumes "add_ip (\<lambda>t. t) ip_text t = (Inr ip, t')"
  shows "is_ip_allowed t' (Some ip_text)" "remove_ip ip_text t' = (Inr True, t)"
  using add_ip_table [OF assms] by (simp_all add: is_ip_allowed_def remove_ip_def repo_delete_def)

section \<open>Forged forwarding headers\<close>

lemma walk_chain_prefix:
  "list_ex (\<lambda>h. \<not> is_trusted_proxy_source nets h) (current # near) \<Longrightarrow>
   walk_chain nets current (near @ far) = walk_chain nets current near"
proof (induction near arbitrary: current)
  case Nil
  then show ?case by (cases far) simp_all
qed auto

lemma walk_chain_last_untrusted:
  "walk_chain nets current rest =
   (case filter (\<lambda>h. \<not> is_trusted_proxy_source nets h) (current # rest) of
      [] \<Rightarrow> last (current # rest) | h # _ \<Rightarrow> h)"
  by (induction rest arbitrary: current) (auto split: list.split)

lemma xff_hops_append: "xff_hops (a @ CHR '','' # b) = xff_hops a @ xff_hops b"
  by (simp add: xff_hops_def split_on_append)

text \<open>
  A client cannot choose the address the firewall sees by sending a forwarding header of its own. The trusted proxies
  append what they saw, and as soon as one appended entry lies outside the trusted networks, the resolved address depends
  on the appended part alone, whatever well-formed text the client put in front of it.
\<close>

theorem forged_prefix_is_ignored:
  assumes "list_ex (\<lambda>h. \<not> is_trusted_proxy_source nets h) (xff_hops appended)"
      and "list_all is_valid_ip (xff_hops forged)"
      and "headers ''x-forwarded-for'' = Some (forged @ CHR '','' # appended)"
      and "headers' ''x-forwarded-for'' = Some appended" "appended \<noteq> []"
  shows "resolve_connection_client_ip headers socket_ip trust nets = resolve_connection_client_ip headers' socket_ip trust nets"
proof -
  have ne: "xff_hops f \<noteq> []" for f by (simp add: xff_hops_def)
  have t: "truthy_text (Some (forged @ CHR '','' # appended)) = Some (forged @ CHR '','' # appended)"
       "truthy_text (Some appended) = Some appended"
    using assms(5) by (simp_all add: truthy_text_def split: list.split)
  have "walk_chain nets socket (rev (xff_hops appended) @ rev (xff_hops forged)) = walk_chain nets socket (rev (xff_hops appended))"
    for socket
    by (rule walk_chain_prefix) (use assms(1) in \<open>simp add: list_ex_iff\<close>)
  moreover have "list_ex (\<lambda>h. \<not> is_valid_ip h) (xff_hops forged @ xff_hops appended) =
                 list_ex (\<lambda>h. \<not> is_valid_ip h) (xff_hops appended)"
    using assms(2) by (auto simp: list_ex_iff list_all_iff)
  ultimately have "resolve_client_ip_from_xff_chain socket (forged @ CHR '','' # appended) nets =
      resolve_client_ip_from_xff_chain socket appended nets" for socket
    by (simp add: resolve_client_ip_from_xff_chain_def xff_hops_append ne Let_def del: list_ex_append)
  then show ?thesis
    by (simp add: resolve_connection_client_ip_def assms(3,4) t split: option.split)
qed

lemmas address_eval = ip_address_def parse_ipv4_def parse_octet_def decimal_digit_def parse_decimal_def py_strip_def
  py_isspace_def xff_hops_def is_valid_ip_def is_trusted_proxy_source_def

theorem forged_prefix_is_ignored_witness:
  "resolve_connection_client_ip
     (\<lambda>h. if h = ''x-forwarded-for'' then Some ''127.0.0.1,198.51.100.10'' else None) (Some ''10.0.0.1'') True [Net4 167772160 8] =
   resolve_connection_client_ip
     (\<lambda>h. if h = ''x-forwarded-for'' then Some ''198.51.100.10'' else None) (Some ''10.0.0.1'') True [Net4 167772160 8]"
  by (rule forged_prefix_is_ignored [of "[Net4 167772160 8]" "''198.51.100.10''" "''127.0.0.1''"])
     (simp_all add: address_eval)

text \<open>A forged entry that is no address makes the firewall fall back to the address of the proxy itself.\<close>

lemma truthy_textD: "truthy_text s = Some t \<Longrightarrow> s = Some t"
  by (auto simp: truthy_text_def split: option.splits list.splits)

lemma malformed_entry_falls_back_to_socket:
  assumes "list_ex (\<lambda>h. \<not> is_valid_ip h) (xff_hops forwarded_for)" "headers ''x-forwarded-for'' = Some forwarded_for"
  shows "resolve_connection_client_ip headers socket_ip trust nets = socket_ip"
  using assms
  by (auto simp: resolve_connection_client_ip_def resolve_client_ip_from_xff_chain_def Let_def
      dest!: truthy_textD split: option.split)

end
