(* ===== verification/Locality.thy ===== *)
theory Locality
  imports Firewall
begin

text \<open>
  Local requests (\<open>app/core/request_locality.py\<close>): whether a connection comes from the machine itself, which is what
  opens the dashboard without a login. The module has a stricter resolution of the client address than the firewall: a
  malformed forwarding header yields no address at all.

  \<^item> A connection is the part the module reads: its headers, the peer address and the server address of the socket.
  \<^item> Settings are a record; the networks that are found by asking the operating system (default gateway, interface,
    container host names) are one of its fields.
\<close>

section \<open>Connections\<close>

record connection =
  cn_headers :: header_lookup
  cn_client_host :: "string option"
  cn_server_host :: "string option"

record locality_settings =
  ls_trust_proxy_headers :: bool
  ls_trusted_proxy_networks :: "ip_net list"
  ls_configured_host_networks :: "ip_net list"
  ls_detected_host_networks :: "ip_net list"

definition is_local_host :: "string option \<Rightarrow> bool" where
  "is_local_host host =
     (case host of
        None \<Rightarrow> False
      | Some h \<Rightarrow> py_lower (py_strip h) \<in> {'''', ''localhost'', ''127.0.0.1'', ''::1'', ''[::1]''})"

section \<open>Client address\<close>

definition strip_char :: "char \<Rightarrow> string \<Rightarrow> string" where
  "strip_char c s = rev (dropWhile ((=) c) (rev (dropWhile ((=) c) s)))"

definition valid_or_none :: "string \<Rightarrow> string option" where
  "valid_or_none candidate = (if is_valid_ip candidate then Some candidate else None)"

definition resolve_forwarded_header_ip :: "string \<Rightarrow> string option" where
  "resolve_forwarded_header_ip forwarded =
     (let items = map py_strip (concat (map (split_on CHR '';'') (split_on CHR '','' forwarded)))
      in case find (\<lambda>item. starts_with ''for='' (py_lower item)) items of
           None \<Rightarrow> None
         | Some item \<Rightarrow>
             (let quoted = strip_char CHR 0x22 (py_strip (drop 4 item));
                  candidate = (if starts_with ''['' quoted \<and> ends_with '']'' quoted then butlast (tl quoted) else quoted)
              in if starts_with ''_'' candidate then None else valid_or_none candidate))"

fun first_truthy_header :: "header_lookup \<Rightarrow> string list \<Rightarrow> string option" where
  "first_truthy_header headers [] = None"
| "first_truthy_header headers (h # hs) =
     (case truthy_text (headers h) of Some v \<Rightarrow> Some v | None \<Rightarrow> first_truthy_header headers hs)"

definition strict_xff_chain :: "string \<Rightarrow> string \<Rightarrow> ip_net list \<Rightarrow> string option" where
  "strict_xff_chain socket_ip forwarded_for nets =
     (let hops = xff_hops forwarded_for
      in if list_ex (\<lambda>h. \<not> is_valid_ip h) hops then None else Some (walk_chain nets socket_ip (rev hops)))"

definition strict_connection_client_ip :: "header_lookup \<Rightarrow> string option \<Rightarrow> bool \<Rightarrow> ip_net list \<Rightarrow> string option" where
  "strict_connection_client_ip headers socket_ip trust_proxy_headers nets =
     (case truthy_text socket_ip of
        None \<Rightarrow> socket_ip
      | Some socket \<Rightarrow>
          if trust_proxy_headers \<and> is_trusted_proxy_source nets socket
          then case truthy_text (headers ''x-forwarded-for'') of
                 Some forwarded_for \<Rightarrow> strict_xff_chain socket forwarded_for nets
               | None \<Rightarrow>
                   (case first_truthy_header headers [''x-real-ip'', ''true-client-ip'', ''cf-connecting-ip''] of
                      Some forwarded_ip \<Rightarrow> valid_or_none (py_strip forwarded_ip)
                    | None \<Rightarrow>
                        (case truthy_text (headers ''forwarded'') of
                           Some forwarded \<Rightarrow> resolve_forwarded_header_ip forwarded
                         | None \<Rightarrow> None))
          else socket_ip)"

definition resolve_request_client_host :: "locality_settings \<Rightarrow> connection \<Rightarrow> string option" where
  "resolve_request_client_host st rq =
     strict_connection_client_ip (cn_headers rq) (cn_client_host rq) (ls_trust_proxy_headers st) (ls_trusted_proxy_networks st)"

section \<open>Local requests\<close>

definition is_test_server_request :: "connection \<Rightarrow> bool" where
  "is_test_server_request rq =
     (case cn_server_host rq of
        None \<Rightarrow> False
      | Some host \<Rightarrow> py_lower (py_strip host) \<in> {''testserver'', ''testclient''})"

definition has_forwarded_client_ip_hint :: "header_lookup \<Rightarrow> bool" where
  "has_forwarded_client_ip_hint headers =
     list_ex (\<lambda>h. truthy_text (headers h) \<noteq> None)
       [''x-forwarded-for'', ''forwarded'', ''x-real-ip'', ''true-client-ip'', ''cf-connecting-ip'']"

definition parse_host_header_hostname :: "string option \<Rightarrow> string option" where
  "parse_host_header_hostname host_header =
     (case host_header of
        None \<Rightarrow> None
      | Some h \<Rightarrow>
          (let value = py_strip h
           in if value = [] then None
              else if starts_with ''['' value
              then (if CHR '']'' \<in> set value then Some (takeWhile (\<lambda>c. c \<noteq> CHR '']'') value @ '']'') else Some value)
              else if count_list value CHR '':'' = 1 then Some (py_strip (takeWhile (\<lambda>c. c \<noteq> CHR '':'') value))
              else Some value))"

definition is_local_request :: "locality_settings \<Rightarrow> connection \<Rightarrow> bool" where
  "is_local_request st rq =
     (if is_test_server_request rq then True
      else case truthy_text (resolve_request_client_host st rq) of
        None \<Rightarrow> False
      | Some client_host \<Rightarrow>
          (case ip_address client_host of
             None \<Rightarrow> False
           | Some address \<Rightarrow>
               if is_loopback address
               then (let host_name = parse_host_header_hostname (cn_headers rq ''host'')
                     in if ls_trust_proxy_headers st
                        then is_local_host host_name \<and> has_forwarded_client_ip_hint (cn_headers rq)
                        else is_local_host host_name \<and> \<not> has_forwarded_client_ip_hint (cn_headers rq))
               else is_loopback address))"

definition insecure_allow_remote_no_auth_host_networks :: "locality_settings \<Rightarrow> ip_net list" where
  "insecure_allow_remote_no_auth_host_networks st =
     (if ls_configured_host_networks st \<noteq> [] then ls_configured_host_networks st else ls_detected_host_networks st)"

definition is_host_os_request :: "locality_settings \<Rightarrow> connection \<Rightarrow> bool" where
  "is_host_os_request st rq =
     (if is_local_request st rq then True
      else case truthy_text (cn_client_host rq) of
        None \<Rightarrow> False
      | Some socket_host \<Rightarrow>
          (case ip_address socket_host of
             None \<Rightarrow> False
           | Some address \<Rightarrow>
               if is_local_host (parse_host_header_hostname (cn_headers rq ''host'')) \<and>
                  has_forwarded_client_ip_hint (cn_headers rq)
               then False
               else list_ex (in_network address) (insecure_allow_remote_no_auth_host_networks st)))"

section \<open>No remote client is local\<close>

text \<open>Whether a text is a loopback address.\<close>

definition loopback_text :: "string \<Rightarrow> bool" where
  "loopback_text s = (case ip_address s of None \<Rightarrow> False | Some a \<Rightarrow> is_loopback a)"

lemma local_needs_loopback:
  assumes "is_local_request st rq" "\<not> is_test_server_request rq"
  shows "\<exists>h. resolve_request_client_host st rq = Some h \<and> loopback_text h \<and>
             is_local_host (parse_host_header_hostname (cn_headers rq ''host''))"
  using assms
  by (auto simp: is_local_request_def loopback_text_def Let_def split: if_splits option.splits dest!: truthy_textD)

lemma walk_chain_in: "walk_chain nets current rest \<in> set (current # rest)"
  by (induction rest arbitrary: current) auto

lemma strict_chain_prefix:
  assumes "xff_hops text = forged @ appended" and "list_ex (\<lambda>h. \<not> is_trusted_proxy_source nets h) appended"
      and "strict_xff_chain socket text nets = Some r"
  shows "r \<in> set (socket # appended)"
proof -
  have "walk_chain nets socket (rev appended @ rev forged) = walk_chain nets socket (rev appended)"
    by (rule walk_chain_prefix) (use assms(2) in \<open>simp add: list_ex_iff\<close>)
  then have "r = walk_chain nets socket (rev appended)"
    using assms(1,3) by (auto simp: strict_xff_chain_def Let_def split: if_splits)
  then show ?thesis using walk_chain_in [of nets socket "rev appended"] by auto
qed

text \<open>
  C19: Nobody on another machine passes for a local request. When the peer of the socket is not loopback, and, where the
  peer is a trusted proxy, there is a forwarding header and the hops the proxies appended to it (all of them, or all but
  those the client put in front) name an outside hop and no loopback address, the request is not local, whatever the client
  wrote in front of these hops, into the other forwarding headers and into the host header. (The server address of the
  socket must not be the name that the test client gives itself, which makes every request local.)
\<close>

theorem remote_request_is_never_local:
  assumes "\<not> is_test_server_request rq"
      and "cn_client_host rq = Some socket" "\<not> loopback_text socket"
      and "ls_trust_proxy_headers st \<and> is_trusted_proxy_source (ls_trusted_proxy_networks st) socket \<Longrightarrow>
             cn_headers rq ''x-forwarded-for'' = Some text \<and> text \<noteq> [] \<and> xff_hops text = forged @ appended \<and>
             list_ex (\<lambda>h. \<not> is_trusted_proxy_source (ls_trusted_proxy_networks st) h) appended \<and>
             list_all (\<lambda>h. \<not> loopback_text h) appended"
  shows "\<not> is_local_request st rq"
proof
  assume "is_local_request st rq"
  then obtain h where h: "resolve_request_client_host st rq = Some h" "loopback_text h"
    using local_needs_loopback assms(1) by blast
  show False
  proof (cases "truthy_text (Some socket) \<noteq> None \<and> ls_trust_proxy_headers st \<and>
                is_trusted_proxy_source (ls_trusted_proxy_networks st) socket")
    case True
    have truthy: "truthy_text (Some socket) = Some socket" using True by (auto dest: truthy_textD)
    have "truthy_text (Some text) = Some text" using True assms(4) by (simp add: truthy_text_def split: list.split)
    then have "strict_xff_chain socket text (ls_trusted_proxy_networks st) = Some h"
      using h(1) True assms(2,4) truthy
      by (simp add: resolve_request_client_host_def strict_connection_client_ip_def)
    then have "h \<in> set (socket # appended)" using strict_chain_prefix True assms(4) by blast
    then show False using h(2) assms(3,4) True by (auto simp: list_all_iff)
  next
    case False
    then have "h = socket"
      using h(1) assms(2)
      by (auto simp: resolve_request_client_host_def strict_connection_client_ip_def dest: truthy_textD split: option.splits)
    then show False using h(2) assms(3) by simp
  qed
qed

lemmas locality_eval = address_eval loopback_text_def loopback4_def is_test_server_request_def

text \<open>A forged hop in front, and the plain header of one proxy.\<close>

theorem remote_request_is_never_local_witness:
  "\<not> is_local_request
       \<lparr>ls_trust_proxy_headers = True, ls_trusted_proxy_networks = [Net4 167772160 8],
        ls_configured_host_networks = [], ls_detected_host_networks = []\<rparr>
       \<lparr>cn_headers = (\<lambda>h. if h = ''x-forwarded-for'' then Some ''127.0.0.1,198.51.100.10'' else Some ''localhost''),
        cn_client_host = Some ''10.0.0.1'', cn_server_host = None\<rparr> \<and>
   \<not> is_local_request
       \<lparr>ls_trust_proxy_headers = True, ls_trusted_proxy_networks = [Net4 167772160 8],
        ls_configured_host_networks = [], ls_detected_host_networks = []\<rparr>
       \<lparr>cn_headers = (\<lambda>h. if h = ''x-forwarded-for'' then Some ''198.51.100.10'' else Some ''localhost''),
        cn_client_host = Some ''10.0.0.1'', cn_server_host = None\<rparr>"
  by (rule conjI;
      rule remote_request_is_never_local [of _ "''10.0.0.1''" _ "''127.0.0.1,198.51.100.10''" "[''127.0.0.1'']" "[''198.51.100.10'']"]
        remote_request_is_never_local [of _ "''10.0.0.1''" _ "''198.51.100.10''" "[]" "[''198.51.100.10'']"];
      simp add: locality_eval)

text \<open>A local request names the machine in its host header, which a page of another site cannot do.\<close>

lemma local_request_checks_host:
  assumes "is_local_request st rq" "\<not> is_test_server_request rq"
  shows "is_local_host (parse_host_header_hostname (cn_headers rq ''host''))"
  using local_needs_loopback [OF assms] by blast

text \<open>Where the header is well formed, the strict resolution and the firewall's agree.\<close>

lemma strict_resolution_agrees:
  assumes "headers ''x-forwarded-for'' = Some forwarded_for" "forwarded_for \<noteq> []" "list_all is_valid_ip (xff_hops forwarded_for)"
  shows "strict_connection_client_ip headers socket_ip trust nets = resolve_connection_client_ip headers socket_ip trust nets"
proof -
  have "truthy_text (Some forwarded_for) = Some forwarded_for" using assms(2) by (simp add: truthy_text_def split: list.split)
  moreover have "xff_hops forwarded_for \<noteq> []" by (simp add: xff_hops_def)
  moreover have "\<not> list_ex (\<lambda>h. \<not> is_valid_ip h) (xff_hops forwarded_for)" using assms(3) by (simp add: list_ex_iff list_all_iff)
  ultimately show ?thesis
    by (simp add: strict_connection_client_ip_def resolve_connection_client_ip_def strict_xff_chain_def
        resolve_client_ip_from_xff_chain_def assms(1) Let_def split: option.split)
qed

end
