(* ===== verification/Dashboard_Access.thy ===== *)
theory Dashboard_Access
  imports Locality Sse
begin

text \<open>
  Who may use the dashboard (\<open>app/core/auth/dependencies.py\<close>, \<open>dashboard_mode.py\<close>, \<open>dashboard_access.py\<close>, and the session
  store of \<open>app/modules/dashboard_auth/service.py\<close>): a session is an encrypted cookie that states what its holder has
  proved, and every request is turned into a principal by it, by a header of a trusted reverse proxy, or by its origin.

  \<^item> Encryption, the JSON reader and the clock are arguments. The settings are the row of the database.
  \<^item> A request carries what the code reads: the connection, the path and the session cookie. The principal that the code
    keeps on a request for its second check is not part of it.
\<close>

section \<open>Roles, principals and settings\<close>

datatype dashboard_role = ADMIN | GUEST

datatype dashboard_permission = READ | WRITE

datatype dashboard_auth_mode = STANDARD | TRUSTED_HEADER | DISABLED

fun role_value :: "dashboard_role \<Rightarrow> string" where
  "role_value ADMIN = ''admin''"
| "role_value GUEST = ''guest''"

definition role_of_value :: "string \<Rightarrow> dashboard_role option" where
  "role_of_value s = (if s = ''admin'' then Some ADMIN else if s = ''guest'' then Some GUEST else None)"

record dashboard_principal =
  dp_role :: dashboard_role
  dp_permissions :: "dashboard_permission list"
  dp_auth_mode :: dashboard_auth_mode
  dp_actor :: "string option"

definition ADMIN_PERMISSIONS :: "dashboard_permission list" where
  "ADMIN_PERMISSIONS = [READ, WRITE]"

definition GUEST_PERMISSIONS :: "dashboard_permission list" where
  "GUEST_PERMISSIONS = [READ]"

definition principal_can :: "dashboard_principal \<Rightarrow> dashboard_permission \<Rightarrow> bool" where
  "principal_can p permission = (permission \<in> set (dp_permissions p))"

definition admin_principal :: "dashboard_auth_mode \<Rightarrow> string option \<Rightarrow> dashboard_principal" where
  "admin_principal mode actor =
     \<lparr>dp_role = ADMIN, dp_permissions = ADMIN_PERMISSIONS, dp_auth_mode = mode, dp_actor = actor\<rparr>"

definition guest_principal :: dashboard_principal where
  "guest_principal = \<lparr>dp_role = GUEST, dp_permissions = GUEST_PERMISSIONS, dp_auth_mode = STANDARD, dp_actor = None\<rparr>"

record dashboard_row =
  ds_password_hash :: "string option"
  ds_guest_access_enabled :: bool
  ds_guest_password_hash :: "string option"
  ds_totp_required_on_login :: bool
  ds_totp_secret_encrypted :: "string option"
  ds_totp_last_verified_step :: "int option"
  ds_bootstrap_token_encrypted :: "string option"
  ds_bootstrap_token_hash :: "string option"
  ds_session_ttl_seconds :: int

record dashboard_config =
  dc_auth_mode :: dashboard_auth_mode
  dc_locality :: locality_settings
  dc_proxy_header :: string
  dc_insecure_allow_remote_no_auth :: bool
  dc_bootstrap_token :: "string option"

record dashboard_request =
  dr_connection :: connection
  dr_path :: string
  dr_cookie :: "string option"

datatype dash_error =
    AuthError string
  | PermissionError string
  | BadRequestError string
  | ConflictError string
  | ValidationError string
  | RateLimitError string int
  | TotpAlreadyConfiguredError
  | TotpNotConfiguredError
  | TotpInvalidCodeError
  | TotpInvalidSetupError
  | PasswordAlreadyConfiguredError
  | PasswordNotConfiguredError
  | InvalidCredentialsError
  | GuestAccessDisabledError
  | PasswordSessionRequiredError
  | DecryptError
  | SecretValueError
  | CompareTypeError
  | MissingAttributeError

section \<open>Sessions\<close>

record session_state =
  ss_expires_at :: int
  ss_password_verified :: bool
  ss_totp_verified :: bool
  ss_role :: dashboard_role
  ss_guest_verified :: bool

record dashboard_crypto =
  dy_encrypt :: "string \<Rightarrow> string"
  dy_decrypt :: "string \<Rightarrow> string option"
  dy_loads :: "string \<Rightarrow> json option"
  dy_hashpw :: "string \<Rightarrow> string"
  dy_checkpw :: "string \<Rightarrow> string \<Rightarrow> bool"
  dy_b32 :: "string \<Rightarrow> bool"
  dy_totp_at :: "string \<Rightarrow> int \<Rightarrow> string"
  dy_sha256 :: "string \<Rightarrow> string"

definition session_json :: "session_state \<Rightarrow> json" where
  "session_json st =
     JObj [(''exp'', JInt (ss_expires_at st)), (''pw'', JBool (ss_password_verified st)), (''tv'', JBool (ss_totp_verified st)),
           (''role'', JStr (role_value (ss_role st))), (''gv'', JBool (ss_guest_verified st))]"

definition session_create :: "dashboard_crypto \<Rightarrow> int \<Rightarrow> bool \<Rightarrow> bool \<Rightarrow> int \<Rightarrow> dashboard_role \<Rightarrow> bool \<Rightarrow> string" where
  "session_create cr now password_verified totp_verified ttl_seconds role guest_verified =
     dy_encrypt cr (json_dumps (\<lambda>_. []) (session_json
       \<lparr>ss_expires_at = now + ttl_seconds, ss_password_verified = password_verified, ss_totp_verified = totp_verified,
        ss_role = role, ss_guest_verified = guest_verified\<rparr>))"

text \<open>\<open>isinstance(v, int)\<close> holds of booleans too, which are the integers 0 and 1.\<close>

fun as_int :: "json option \<Rightarrow> int option" where
  "as_int (Some (JInt n)) = Some n"
| "as_int (Some (JBool b)) = Some (if b then 1 else 0)"
| "as_int _ = None"

fun as_bool :: "json option \<Rightarrow> bool option" where
  "as_bool (Some (JBool b)) = Some b"
| "as_bool _ = None"

definition session_fields :: "int \<Rightarrow> (string \<times> json) list \<Rightarrow> session_state option" where
  "session_fields now data =
     (let gv = (case map_of data ''gv'' of None \<Rightarrow> Some (JBool False) | v \<Rightarrow> v);
          role_raw = (case map_of data ''role'' of None \<Rightarrow> Some (JStr ''admin'') | v \<Rightarrow> v)
      in case (as_int (map_of data ''exp''), as_bool (map_of data ''pw''), as_bool (map_of data ''tv''), as_bool gv,
               Option.bind (json_str role_raw) role_of_value) of
           (Some expiry, Some pw, Some tv, Some g, Some role) \<Rightarrow>
             if expiry < now then None
             else Some \<lparr>ss_expires_at = expiry, ss_password_verified = pw, ss_totp_verified = tv, ss_role = role, ss_guest_verified = g\<rparr>
         | _ \<Rightarrow> None)"

definition ascii :: "string \<Rightarrow> bool" where
  "ascii s = list_all (\<lambda>c. (of_char c :: nat) < 128) s"

definition session_get :: "dashboard_crypto \<Rightarrow> int \<Rightarrow> string option \<Rightarrow> dash_error + session_state option" where
  "session_get cr now session_id =
     (let token = (case session_id of None \<Rightarrow> [] | Some s \<Rightarrow> py_strip s)
      in if token = [] then Inr None
         else case (if ascii token then dy_decrypt cr token else None) of
           None \<Rightarrow> Inr None
         | Some raw \<Rightarrow>
             (case dy_loads cr raw of
                None \<Rightarrow> Inr None
              | Some (JObj data) \<Rightarrow> Inr (session_fields now data)
              | Some _ \<Rightarrow> Inl MissingAttributeError))"

definition is_password_verified :: "session_state option \<Rightarrow> bool" where
  "is_password_verified state = (case state of None \<Rightarrow> False | Some st \<Rightarrow> ss_role st = ADMIN \<and> ss_password_verified st)"

section \<open>Requests\<close>

record request_auth =
  rq_mode :: dashboard_auth_mode
  rq_actor :: "string option"

definition get_trusted_header_auth :: "dashboard_config \<Rightarrow> connection \<Rightarrow> request_auth option" where
  "get_trusted_header_auth cfg cn =
     (case truthy_text (cn_client_host cn) of
        None \<Rightarrow> None
      | Some client_host \<Rightarrow>
          if \<not> ls_trust_proxy_headers (dc_locality cfg) then None
          else if \<not> is_trusted_proxy_source (ls_trusted_proxy_networks (dc_locality cfg)) client_host then None
          else case cn_headers cn (dc_proxy_header cfg) of
                 None \<Rightarrow> None
               | Some raw_actor \<Rightarrow>
                   (let actor = py_strip raw_actor
                    in if actor = [] then None else Some \<lparr>rq_mode = TRUSTED_HEADER, rq_actor = Some actor\<rparr>))"

definition get_dashboard_request_auth :: "dashboard_config \<Rightarrow> connection \<Rightarrow> request_auth option" where
  "get_dashboard_request_auth cfg cn =
     (case dc_auth_mode cfg of
        DISABLED \<Rightarrow> Some \<lparr>rq_mode = DISABLED, rq_actor = None\<rparr>
      | TRUSTED_HEADER \<Rightarrow> get_trusted_header_auth cfg cn
      | STANDARD \<Rightarrow> None)"

definition insecure_remote_no_auth_allowed :: "dashboard_config \<Rightarrow> connection \<Rightarrow> bool" where
  "insecure_remote_no_auth_allowed cfg cn =
     (dc_insecure_allow_remote_no_auth cfg \<and> is_host_os_request (dc_locality cfg) cn)"

text \<open>The end of the check, for a request that needs a session and has no guest access.\<close>

definition require_admin_session :: "dashboard_row \<Rightarrow> bool \<Rightarrow> session_state option \<Rightarrow> dash_error + dashboard_principal" where
  "require_admin_session row password_required state =
     (case state of
        None \<Rightarrow> Inl (AuthError ''authentication_required'')
      | Some st \<Rightarrow>
          if ss_role st \<noteq> ADMIN then Inl (AuthError ''authentication_required'')
          else if password_required \<and> \<not> ss_password_verified st then Inl (AuthError ''authentication_required'')
          else if ds_totp_required_on_login row \<and> \<not> ss_totp_verified st then Inl (AuthError ''totp_required'')
          else Inr (admin_principal STANDARD None))"

definition session_principal ::
  "dashboard_config \<Rightarrow> dashboard_row \<Rightarrow> dashboard_request \<Rightarrow> session_state option \<Rightarrow> dash_error + dashboard_principal" where
  "session_principal cfg row rq state =
     (let password_required = (truthy_text (ds_password_hash row) \<noteq> None);
          requires_auth = (password_required \<or> ds_totp_required_on_login row);
          guest_access = ds_guest_access_enabled row;
          guest_password_required = (guest_access \<and> ds_guest_password_hash row \<noteq> None);
          passwordless_guest = (\<not> (dc_auth_mode cfg = TRUSTED_HEADER \<and> requires_auth \<and> guest_access \<and> \<not> guest_password_required));
          admin_session = (password_required \<and> is_password_verified state)
      in if insecure_remote_no_auth_allowed cfg (dr_connection rq) \<and> \<not> requires_auth
            \<and> \<not> starts_with ''/api/dashboard-auth'' (dr_path rq)
         then Inr (admin_principal STANDARD None)
         else if dc_auth_mode cfg = TRUSTED_HEADER \<and> \<not> admin_session then Inl (AuthError ''proxy_auth_required'')
         else if (case state of None \<Rightarrow> False | Some st \<Rightarrow> ss_role st = GUEST \<and> guest_access \<and>
                   ((\<not> guest_password_required \<and> passwordless_guest) \<or> ss_guest_verified st))
         then Inr guest_principal
         else if admin_session then
           (if ds_totp_required_on_login row \<and> \<not> (case state of None \<Rightarrow> False | Some st \<Rightarrow> ss_totp_verified st)
            then Inl (AuthError ''totp_required'') else Inr (admin_principal STANDARD None))
         else if \<not> requires_auth then
           (if is_local_request (dc_locality cfg) (dr_connection rq) then Inr (admin_principal STANDARD None)
            else if guest_access
                 then (if guest_password_required then Inl (AuthError ''authentication_required'') else Inr guest_principal)
                 else Inl (AuthError ''bootstrap_required''))
         else if guest_access \<and> \<not> guest_password_required \<and> passwordless_guest then Inr guest_principal
         else require_admin_session row password_required state)"

definition validate_dashboard_session ::
  "dashboard_config \<Rightarrow> dashboard_row \<Rightarrow> dashboard_crypto \<Rightarrow> int \<Rightarrow> dashboard_request \<Rightarrow> dash_error + dashboard_principal" where
  "validate_dashboard_session cfg row cr now rq =
     (case get_dashboard_request_auth cfg (dr_connection rq) of
        Some auth \<Rightarrow> Inr (admin_principal (rq_mode auth) (rq_actor auth))
      | None \<Rightarrow>
          (case session_get cr now (dr_cookie rq) of
             Inl e \<Rightarrow> Inl e
           | Inr state \<Rightarrow> session_principal cfg row rq state))"

definition require_dashboard_write_access ::
  "dashboard_config \<Rightarrow> dashboard_row \<Rightarrow> dashboard_crypto \<Rightarrow> int \<Rightarrow> dashboard_request \<Rightarrow> dash_error + dashboard_principal" where
  "require_dashboard_write_access cfg row cr now rq =
     (case validate_dashboard_session cfg row cr now rq of
        Inl e \<Rightarrow> Inl e
      | Inr p \<Rightarrow> if principal_can p WRITE then Inr p else Inl (PermissionError ''read_only_access''))"

section \<open>Write access\<close>

text \<open>What a session proves of an administrator under the settings.\<close>

definition proves_admin :: "dashboard_row \<Rightarrow> session_state \<Rightarrow> bool" where
  "proves_admin row st \<longleftrightarrow> ss_role st = ADMIN \<and> (truthy_text (ds_password_hash row) \<noteq> None \<longrightarrow> ss_password_verified st)
     \<and> (ds_totp_required_on_login row \<longrightarrow> ss_totp_verified st)"

text \<open>The dashboard is open: it has neither a password nor a second factor.\<close>

definition open_dashboard :: "dashboard_row \<Rightarrow> bool" where
  "open_dashboard row \<longleftrightarrow> truthy_text (ds_password_hash row) = None \<and> \<not> ds_totp_required_on_login row"

definition from_trusted_proxy :: "dashboard_config \<Rightarrow> connection \<Rightarrow> bool" where
  "from_trusted_proxy cfg cn \<longleftrightarrow> dc_auth_mode cfg = TRUSTED_HEADER \<and> ls_trust_proxy_headers (dc_locality cfg) \<and>
     (case cn_client_host cn of None \<Rightarrow> False | Some host \<Rightarrow> is_trusted_proxy_source (ls_trusted_proxy_networks (dc_locality cfg)) host) \<and>
     (case cn_headers cn (dc_proxy_header cfg) of None \<Rightarrow> False | Some actor \<Rightarrow> py_strip actor \<noteq> [])"

text \<open>What entitles a request to change a protected dashboard.\<close>

definition admin_evidence :: "dashboard_config \<Rightarrow> dashboard_row \<Rightarrow> dashboard_crypto \<Rightarrow> int \<Rightarrow> dashboard_request \<Rightarrow> bool" where
  "admin_evidence cfg row cr now rq \<longleftrightarrow>
     dc_auth_mode cfg = DISABLED \<or> from_trusted_proxy cfg (dr_connection rq) \<or>
     (case session_get cr now (dr_cookie rq) of Inr (Some st) \<Rightarrow> proves_admin row st | _ \<Rightarrow> False)"

lemma principal_writes [simp]: "principal_can (admin_principal mode actor) WRITE" "\<not> principal_can guest_principal WRITE"
  by (simp_all add: principal_can_def admin_principal_def guest_principal_def ADMIN_PERMISSIONS_def GUEST_PERMISSIONS_def)

lemma trusted_header_auth:
  "get_trusted_header_auth cfg cn = Some auth \<Longrightarrow> dc_auth_mode cfg = TRUSTED_HEADER \<Longrightarrow> from_trusted_proxy cfg cn"
  by (auto simp: get_trusted_header_auth_def from_trusted_proxy_def truthy_text_def Let_def split: option.splits if_splits list.splits)

lemma request_auth_evidence:
  "get_dashboard_request_auth cfg cn = Some auth \<Longrightarrow> dc_auth_mode cfg = DISABLED \<or> from_trusted_proxy cfg cn"
  by (auto simp: get_dashboard_request_auth_def dest: trusted_header_auth split: dashboard_auth_mode.splits)

lemma trusted_proxy_request: "from_trusted_proxy cfg cn \<Longrightarrow> get_dashboard_request_auth cfg cn \<noteq> None"
proof -
  have "ip_address [] = None" by code_simp
  then have "\<not> is_trusted_proxy_source nets []" for nets by (simp add: is_trusted_proxy_source_def)
  then show "from_trusted_proxy cfg cn \<Longrightarrow> get_dashboard_request_auth cfg cn \<noteq> None"
    by (auto simp: from_trusted_proxy_def get_dashboard_request_auth_def get_trusted_header_auth_def truthy_text_def Let_def
        split: option.splits list.splits)
qed

lemma session_principal_writes:
  assumes "session_principal cfg row rq state = Inr p" and "principal_can p WRITE" and "\<not> open_dashboard row"
  shows "case state of Some st \<Rightarrow> proves_admin row st | None \<Rightarrow> False"
  using assms
  by (cases state)
    (auto simp: session_principal_def open_dashboard_def Let_def is_password_verified_def proves_admin_def require_admin_session_def split: if_splits)

lemma admin_session_writes:
  assumes "proves_admin row st" and "truthy_text (ds_password_hash row) \<noteq> None"
  shows "session_principal cfg row rq (Some st) = Inr (admin_principal STANDARD None)"
  using assms by (auto simp: session_principal_def proves_admin_def is_password_verified_def Let_def)

text \<open>
  C16: A protected dashboard is changed by nobody but an administrator. When the dashboard has a password or requires a
  second factor (as the settings cache has it), a request gets write access only when authentication is switched off, or it comes from a trusted reverse
  proxy that names an actor (in that mode only), or it carries a session cookie that decrypts, has not expired and proves an
  administrator: the password where there is one, the second factor where it is required. When the dashboard has a password,
  each of these is also enough.
\<close>

theorem write_access_needs_evidence:
  assumes "\<not> open_dashboard row"
  shows "((\<exists>p. require_dashboard_write_access cfg row cr now rq = Inr p) \<longrightarrow> admin_evidence cfg row cr now rq) \<and>
    (truthy_text (ds_password_hash row) \<noteq> None \<longrightarrow> admin_evidence cfg row cr now rq \<longrightarrow>
       (\<exists>p. require_dashboard_write_access cfg row cr now rq = Inr p))"
proof (cases "get_dashboard_request_auth cfg (dr_connection rq)")
  case (Some auth)
  then show ?thesis
    using request_auth_evidence [OF Some]
    by (auto simp: admin_evidence_def require_dashboard_write_access_def validate_dashboard_session_def)
next
  case None
  then have mode: "dc_auth_mode cfg \<noteq> DISABLED" "\<not> from_trusted_proxy cfg (dr_connection rq)"
    using trusted_proxy_request [of cfg "dr_connection rq"] by (auto simp: get_dashboard_request_auth_def [of cfg "dr_connection rq"])
  have access: "require_dashboard_write_access cfg row cr now rq =
      (case session_get cr now (dr_cookie rq) of
         Inl e \<Rightarrow> Inl e
       | Inr state \<Rightarrow> (case session_principal cfg row rq state of
           Inl e \<Rightarrow> Inl e
         | Inr p \<Rightarrow> if principal_can p WRITE then Inr p else Inl (PermissionError ''read_only_access'')))"
    by (simp add: require_dashboard_write_access_def validate_dashboard_session_def None split: sum.split)
  have "admin_evidence cfg row cr now rq" if granted: "require_dashboard_write_access cfg row cr now rq = Inr p" for p
  proof -
    obtain state where "session_get cr now (dr_cookie rq) = Inr state" "session_principal cfg row rq state = Inr p" "principal_can p WRITE"
      using granted by (auto simp: access split: sum.splits if_splits)
    then show ?thesis using session_principal_writes [OF _ _ assms] by (cases state) (force simp: admin_evidence_def)+
  qed
  moreover have "\<exists>p. require_dashboard_write_access cfg row cr now rq = Inr p"
    if pw: "truthy_text (ds_password_hash row) \<noteq> None" and evidence: "admin_evidence cfg row cr now rq"
  proof -
    obtain st where "session_get cr now (dr_cookie rq) = Inr (Some st)" "proves_admin row st"
      using evidence mode by (auto simp: admin_evidence_def split: sum.splits option.splits)
    then show ?thesis using admin_session_writes [OF _ pw] by (simp add: access)
  qed
  ultimately show ?thesis by blast
qed

text \<open>
  A dashboard with neither a password nor a second factor is not open to everybody: a request that is neither local nor from
  the host's networks (where that is allowed) is asked for the first setup, or gets guest access.
\<close>

lemma remote_request_needs_bootstrap:
  assumes "open_dashboard row" and "dc_auth_mode cfg = STANDARD" and "\<not> is_local_request (dc_locality cfg) (dr_connection rq)"
    and "\<not> insecure_remote_no_auth_allowed cfg (dr_connection rq)" and "\<not> ds_guest_access_enabled row"
    and "session_get cr now (dr_cookie rq) = Inr state"
  shows "require_dashboard_write_access cfg row cr now rq = Inl (AuthError ''bootstrap_required'')"
  using assms
  by (cases state)
    (simp_all add: require_dashboard_write_access_def validate_dashboard_session_def get_dashboard_request_auth_def
      session_principal_def open_dashboard_def Let_def)

definition example_session :: session_state where
  "example_session =
     \<lparr>ss_expires_at = 100, ss_password_verified = True, ss_totp_verified = True, ss_role = ADMIN, ss_guest_verified = False\<rparr>"

definition example_dashboard_crypto :: dashboard_crypto where
  "example_dashboard_crypto =
     \<lparr>dy_encrypt = (\<lambda>s. ''t'' @ filter (\<lambda>c. \<not> py_isspace c \<and> (of_char c :: nat) < 128) s),
      dy_decrypt = (\<lambda>s. Some (tl s)), dy_loads = (\<lambda>_. Some (session_json example_session)),
      dy_hashpw = (\<lambda>s. ''#'' @ s), dy_checkpw = (\<lambda>pw h. h = ''#'' @ pw), dy_b32 = (\<lambda>_. True),
      dy_totp_at = (\<lambda>_ t. if t = 60 then ''123456'' else ''000000''), dy_sha256 = (\<lambda>s. s)\<rparr>"

definition dashboard_example_row :: dashboard_row where
  "dashboard_example_row =
     \<lparr>ds_password_hash = Some ''#secret pw'', ds_guest_access_enabled = False, ds_guest_password_hash = None,
      ds_totp_required_on_login = True, ds_totp_secret_encrypted = Some ''tABCDEFGH'', ds_totp_last_verified_step = Some 1,
      ds_bootstrap_token_encrypted = None, ds_bootstrap_token_hash = None, ds_session_ttl_seconds = 3600\<rparr>"

definition dashboard_example_config :: dashboard_config where
  "dashboard_example_config =
     \<lparr>dc_auth_mode = STANDARD,
      dc_locality = \<lparr>ls_trust_proxy_headers = False, ls_trusted_proxy_networks = [], ls_configured_host_networks = [], ls_detected_host_networks = []\<rparr>,
      dc_proxy_header = ''remote-user'', dc_insecure_allow_remote_no_auth = False, dc_bootstrap_token = None\<rparr>"

definition example_request :: dashboard_request where
  "example_request =
     \<lparr>dr_connection = \<lparr>cn_headers = (\<lambda>_. None), cn_client_host = Some ''8.8.8.8'', cn_server_host = None\<rparr>,
      dr_path = ''/api/accounts'', dr_cookie = Some ''token''\<rparr>"

lemma example_has_write_access:
  "require_dashboard_write_access dashboard_example_config dashboard_example_row example_dashboard_crypto 50 example_request = Inr (admin_principal STANDARD None)"
  by code_simp

theorem write_access_needs_evidence_witness:
  "admin_evidence dashboard_example_config dashboard_example_row example_dashboard_crypto 50 example_request \<and>
   (\<exists>p. require_dashboard_write_access dashboard_example_config dashboard_example_row example_dashboard_crypto 50 example_request = Inr p)"
proof -
  have "\<not> open_dashboard dashboard_example_row" by code_simp
  from write_access_needs_evidence [OF this] example_has_write_access show ?thesis by blast
qed

section \<open>The session cookie\<close>

definition cookie_clean :: "string \<Rightarrow> bool" where
  "cookie_clean s \<longleftrightarrow> s \<noteq> [] \<and> py_strip s = s \<and> ascii s"

lemma role_roundtrip [simp]: "role_of_value (role_value r) = Some r"
  by (cases r) (simp_all add: role_of_value_def)

lemma session_fields_json:
  "session_json st = JObj data \<Longrightarrow> session_fields now data = (if ss_expires_at st < now then None else Some st)"
  by (cases st) (auto simp: session_json_def session_fields_def)

text \<open>
  The session cookie is a faithful and expiring record of what the login has proved: reading back a cookie that was
  created at some time gives exactly the role and the proofs it was created with until its time to live has passed, and no
  session afterwards. (Decryption inverts encryption and the JSON reader inverts the writer on the text of this session;
  a token is printable ASCII without white space around it.)
\<close>

theorem session_roundtrip:
  assumes "st = \<lparr>ss_expires_at = created + ttl, ss_password_verified = pw, ss_totp_verified = tv, ss_role = role, ss_guest_verified = gv\<rparr>"
    and "session_text = json_dumps (\<lambda>_. []) (session_json st)"
    and "dy_decrypt cr (dy_encrypt cr session_text) = Some session_text" and "cookie_clean (dy_encrypt cr session_text)"
    and "dy_loads cr session_text = Some (session_json st)"
  shows "session_get cr now (Some (session_create cr created pw tv ttl role gv)) = Inr (if created + ttl < now then None else Some st)"
proof -
  let ?token = "session_create cr created pw tv ttl role gv"
  have token: "?token = dy_encrypt cr session_text" by (simp add: session_create_def assms(1,2))
  obtain data where data: "session_json st = JObj data" by (simp add: session_json_def)
  have "session_get cr now (Some ?token) = Inr (session_fields now data)"
    using assms(4) by (simp add: session_get_def cookie_clean_def token assms(3,5) data)
  then show ?thesis by (simp add: session_fields_json [OF data] assms(1))
qed

theorem session_roundtrip_witness:
  "session_get (example_dashboard_crypto\<lparr>dy_encrypt := (\<lambda>s. ''t'' @ s)\<rparr>) 50
     (Some (session_create (example_dashboard_crypto\<lparr>dy_encrypt := (\<lambda>s. ''t'' @ s)\<rparr>) 40 True True 60 ADMIN False)) =
   Inr (if (40::int) + 60 < 50 then None else Some example_session)"
proof (rule session_roundtrip [OF _ refl])
  show "example_session = \<lparr>ss_expires_at = 40 + 60, ss_password_verified = True, ss_totp_verified = True, ss_role = ADMIN, ss_guest_verified = False\<rparr>"
    by (simp add: example_session_def)
  show "dy_decrypt (example_dashboard_crypto\<lparr>dy_encrypt := (\<lambda>s. ''t'' @ s)\<rparr>)
      (dy_encrypt (example_dashboard_crypto\<lparr>dy_encrypt := (\<lambda>s. ''t'' @ s)\<rparr>) (json_dumps (\<lambda>_. []) (session_json example_session))) =
    Some (json_dumps (\<lambda>_. []) (session_json example_session))"
    by (simp add: example_dashboard_crypto_def)
  show "cookie_clean (dy_encrypt (example_dashboard_crypto\<lparr>dy_encrypt := (\<lambda>s. ''t'' @ s)\<rparr>) (json_dumps (\<lambda>_. []) (session_json example_session)))"
    by code_simp
  show "dy_loads (example_dashboard_crypto\<lparr>dy_encrypt := (\<lambda>s. ''t'' @ s)\<rparr>) (json_dumps (\<lambda>_. []) (session_json example_session)) = Some (session_json example_session)"
    by (simp add: example_dashboard_crypto_def)
qed

end
