(* ===== verification/Rate_Limiter.thy ===== *)
theory Rate_Limiter
  imports Resilience
begin

text \<open>
  The database rate limiter of the dashboard (\<open>app/core/rate_limiter/db_rate_limiter.py\<close>): attempts are
  rows of a table shared by all processes; a limiter counts those of its type and of a key within the
  last \<open>window_seconds\<close>.

  Each method runs its count and its insert in one transaction (an advisory lock on PostgreSQL, a
  single statement on SQLite), so each is one step on the table. Times are UTC seconds. A raised
  \<open>DashboardRateLimitError\<close> is \<open>Inl\<close> of its \<open>retry_after\<close>.
\<close>

section \<open>Model\<close>

record rate_limit_attempt =
  ra_key :: string
  ra_type :: string
  ra_attempted_at :: real

type_synonym attempts = "rate_limit_attempt list"

record rate_limiter =
  rl_max_attempts :: int
  rl_window_seconds :: int
  rl_type :: string

definition DatabaseRateLimiter :: "int \<Rightarrow> int \<Rightarrow> string \<Rightarrow> py_error + rate_limiter" where
  "DatabaseRateLimiter max_attempts window_seconds type =
     (if max_attempts \<le> 0 then Inl ValueError
      else if window_seconds \<le> 0 then Inl ValueError
      else Inr \<lparr>rl_max_attempts = max_attempts, rl_window_seconds = window_seconds, rl_type = type\<rparr>)"

text \<open>The rows of the key and type from \<open>window_start\<close> on, and the first of them by time.\<close>

definition times_of :: "rate_limiter \<Rightarrow> string \<Rightarrow> attempts \<Rightarrow> real list" where
  "times_of rl key tbl = map ra_attempted_at (filter (\<lambda>a. ra_key a = key \<and> ra_type a = rl_type rl) tbl)"

definition window_times :: "rate_limiter \<Rightarrow> real \<Rightarrow> string \<Rightarrow> attempts \<Rightarrow> real list" where
  "window_times rl window_start key tbl = filter (\<lambda>t. t \<ge> window_start) (times_of rl key tbl)"

definition oldest_attempt :: "real list \<Rightarrow> real option" where
  "oldest_attempt ts = (case ts of [] \<Rightarrow> None | t # ts \<Rightarrow> Some (fold min ts t))"

definition retry_after :: "rate_limiter \<Rightarrow> real \<Rightarrow> real option \<Rightarrow> int" where
  "retry_after rl now oldest =
     (case oldest of
        None \<Rightarrow> rl_window_seconds rl
      | Some t \<Rightarrow> max 1 (py_int (t + of_int (rl_window_seconds rl) - now)))"

definition window_start :: "rate_limiter \<Rightarrow> real \<Rightarrow> real" where
  "window_start rl now = now - of_int (rl_window_seconds rl)"

definition attempt_at :: "rate_limiter \<Rightarrow> string \<Rightarrow> real \<Rightarrow> rate_limit_attempt" where
  "attempt_at rl key now = \<lparr>ra_key = key, ra_type = rl_type rl, ra_attempted_at = now\<rparr>"

definition check_limit :: "rate_limiter \<Rightarrow> real \<Rightarrow> real \<Rightarrow> string \<Rightarrow> attempts \<Rightarrow> int + unit" where
  "check_limit rl now0 now key tbl =
     (let ts = window_times rl (window_start rl now0) key tbl
      in if int (length ts) \<ge> rl_max_attempts rl then Inl (retry_after rl now (oldest_attempt ts)) else Inr ())"

definition check_and_increment :: "rate_limiter \<Rightarrow> real \<Rightarrow> string \<Rightarrow> attempts \<Rightarrow> attempts \<times> (int + unit)" where
  "check_and_increment rl now key tbl =
     (let ts = window_times rl (window_start rl now) key tbl
      in if int (length ts) < rl_max_attempts rl then (tbl @ [attempt_at rl key now], Inr ())
         else (tbl, Inl (retry_after rl now (oldest_attempt ts))))"

definition record_failed_attempt :: "rate_limiter \<Rightarrow> real \<Rightarrow> string \<Rightarrow> attempts \<Rightarrow> attempts \<times> (int + unit)" where
  "record_failed_attempt rl now key tbl =
     (let tbl = tbl @ [attempt_at rl key now];
          ts = window_times rl (window_start rl now) key tbl
      in (tbl, if int (length ts) > rl_max_attempts rl then Inl (retry_after rl now (oldest_attempt ts)) else Inr ()))"

definition clear_for_key :: "rate_limiter \<Rightarrow> string \<Rightarrow> attempts \<Rightarrow> attempts" where
  "clear_for_key rl key tbl = filter (\<lambda>a. \<not> (ra_key a = key \<and> ra_type a = rl_type rl)) tbl"

definition check_and_record :: "rate_limiter \<Rightarrow> real \<Rightarrow> string \<Rightarrow> attempts \<Rightarrow> attempts \<times> (int + unit)" where
  "check_and_record rl now key tbl =
     (let ts = window_times rl (window_start rl now) key tbl
      in (tbl @ [attempt_at rl key now],
          if int (length ts) \<ge> rl_max_attempts rl then Inl (retry_after rl now (oldest_attempt ts)) else Inr ()))"

definition cleanup :: "real \<Rightarrow> int \<Rightarrow> attempts \<Rightarrow> attempts" where
  "cleanup now older_than_seconds tbl =
     filter (\<lambda>a. \<not> ra_attempted_at a < now - of_int older_than_seconds) tbl"

section \<open>The limit holds in every window\<close>

text \<open>
  Attempts under any keys, cleanups, and resets of a key (after every successful login or code), at given times; the log
  holds the times of the attempts that were accepted for the key \<open>k\<close> since its last reset.
\<close>

datatype limiter_op = Attempt string | Cleanup int | Reset string

fun limiter_step :: "rate_limiter \<Rightarrow> string \<Rightarrow> real \<times> limiter_op \<Rightarrow> attempts \<times> real list \<Rightarrow> attempts \<times> real list" where
  "limiter_step rl k (now, Attempt key) (tbl, accepted) =
     (let (tbl, res) = check_and_increment rl now key tbl
      in (tbl, if key = k \<and> res = Inr () then accepted @ [now] else accepted))"
| "limiter_step rl k (now, Cleanup older) (tbl, accepted) = (cleanup now older tbl, accepted)"
| "limiter_step rl k (now, Reset key) (tbl, accepted) = (clear_for_key rl key tbl, if key = k then [] else accepted)"

definition limiter_inv :: "rate_limiter \<Rightarrow> string \<Rightarrow> real \<Rightarrow> real list \<Rightarrow> attempts \<Rightarrow> bool" where
  "limiter_inv rl k now accepted tbl \<longleftrightarrow>
     sorted accepted \<and> (\<forall>t \<in> set accepted. t \<le> now) \<and>
     windows_ok (of_int (rl_window_seconds rl)) (rl_max_attempts rl) accepted \<and>
     window_times rl (window_start rl now) k tbl = filter (\<lambda>t. t \<ge> window_start rl now) accepted"

lemma filter_ge_ge: "c \<le> d \<Longrightarrow> filter (\<lambda>t. t \<ge> d) (filter (\<lambda>t. t \<ge> c) xs) = filter (\<lambda>t. t \<ge> d) xs" for c d :: real
  by (induction xs) auto

lemma window_later:
  assumes "window_times rl (window_start rl now) k tbl = filter (\<lambda>t. t \<ge> window_start rl now) accepted" and "now \<le> t"
  shows "window_times rl (window_start rl t) k tbl = filter (\<lambda>x. x \<ge> window_start rl t) accepted"
proof -
  have "window_start rl now \<le> window_start rl t" using assms(2) by (simp add: window_start_def)
  then show ?thesis using assms(1) unfolding window_times_def by (metis filter_ge_ge)
qed

lemma times_of_append [simp]:
  "times_of rl k (tbl @ [attempt_at rl key now]) = times_of rl k tbl @ (if key = k then [now] else [])"
  by (simp add: times_of_def attempt_at_def)

lemma limiter_attempt_inv:
  assumes inv: "limiter_inv rl k now accepted tbl" and t: "now \<le> t" and w: "0 \<le> rl_window_seconds rl"
    and run: "check_and_increment rl t key tbl = (tbl', res)"
  shows "limiter_inv rl k t (if key = k \<and> res = Inr () then accepted @ [t] else accepted) tbl'"
proof -
  have W: "window_times rl (window_start rl t) k tbl = filter (\<lambda>x. x \<ge> window_start rl t) accepted"
    using inv t by (auto simp: limiter_inv_def intro: window_later)
  have base: "sorted accepted" "\<forall>x \<in> set accepted. x \<le> t"
      "windows_ok (of_int (rl_window_seconds rl)) (rl_max_attempts rl) accepted"
    using inv t by (auto simp: limiter_inv_def)
  show ?thesis
  proof (cases "int (length (window_times rl (window_start rl t) key tbl)) < rl_max_attempts rl")
    case True
    then have eq: "tbl' = tbl @ [attempt_at rl key t]" "res = Inr ()" using run by (auto simp: check_and_increment_def)
    have W': "window_times rl (window_start rl t) k tbl' =
        filter (\<lambda>x. x \<ge> window_start rl t) (if key = k then accepted @ [t] else accepted)"
      using W w by (auto simp: eq window_times_def window_start_def)
    have "windows_ok (of_int (rl_window_seconds rl)) (rl_max_attempts rl) (accepted @ [t])" if "key = k"
      using True base(3) W w unfolding that by (simp add: windows_ok_snoc window_start_def)
    then show ?thesis using W' base eq(2) by (auto simp: limiter_inv_def sorted_append)
  next
    case False
    then have "tbl' = tbl" "res \<noteq> Inr ()" using run by (auto simp: check_and_increment_def)
    then show ?thesis using W base by (auto simp: limiter_inv_def)
  qed
qed

lemma limiter_cleanup_inv:
  assumes inv: "limiter_inv rl k now accepted tbl" and t: "now \<le> t" and older: "rl_window_seconds rl \<le> older"
  shows "limiter_inv rl k t accepted (cleanup t older tbl)"
proof -
  have W: "window_times rl (window_start rl t) k tbl = filter (\<lambda>x. x \<ge> window_start rl t) accepted"
    using inv t by (auto simp: limiter_inv_def intro: window_later)
  have "t - of_int older \<le> window_start rl t" using older by (simp add: window_start_def)
  then have "window_times rl (window_start rl t) k (cleanup t older tbl) = window_times rl (window_start rl t) k tbl"
    unfolding window_times_def times_of_def cleanup_def
    by (induction tbl) (auto simp: not_less)
  then show ?thesis using W inv t by (auto simp: limiter_inv_def)
qed

lemma limiter_reset_inv:
  assumes inv: "limiter_inv rl k now accepted tbl" and t: "now \<le> t"
  shows "limiter_inv rl k t (if key = k then [] else accepted) (clear_for_key rl key tbl)"
proof -
  have W: "window_times rl (window_start rl t) k tbl = filter (\<lambda>x. x \<ge> window_start rl t) accepted"
    using inv t by (auto simp: limiter_inv_def intro: window_later)
  have "times_of rl k (clear_for_key rl key tbl) = (if key = k then [] else times_of rl k tbl)"
    by (induction tbl) (auto simp: times_of_def clear_for_key_def)
  then show ?thesis using W inv t by (auto simp: limiter_inv_def window_times_def windows_ok_def)
qed

lemma limiter_step_inv:
  assumes "limiter_inv rl k now accepted tbl" and "now \<le> t" and "0 \<le> rl_window_seconds rl"
    and "\<And>older. op = Cleanup older \<Longrightarrow> rl_window_seconds rl \<le> older"
    and "limiter_step rl k (t, op) (tbl, accepted) = (tbl', accepted')"
  shows "limiter_inv rl k t accepted' tbl'"
  using assms limiter_attempt_inv [OF assms(1-3)] limiter_cleanup_inv [OF assms(1,2)] limiter_reset_inv [OF assms(1,2)]
  by (cases op) (auto split: prod.splits)

lemma limiter_run_inv:
  assumes "limiter_inv rl k now accepted tbl" and "sorted (now # map fst ops)" and "0 \<le> rl_window_seconds rl"
    and "\<And>t older. (t, Cleanup older) \<in> set ops \<Longrightarrow> rl_window_seconds rl \<le> older"
    and "fold (limiter_step rl k) ops (tbl, accepted) = (tbl', accepted')"
  shows "\<exists>now'. limiter_inv rl k now' accepted' tbl'"
  using assms
proof (induction ops arbitrary: now accepted tbl)
  case (Cons o' ops)
  obtain t op where o': "o' = (t, op)" by fastforce
  obtain tbl1 accepted1 where step: "limiter_step rl k (t, op) (tbl, accepted) = (tbl1, accepted1)" by fastforce
  have "limiter_inv rl k t accepted1 tbl1"
    using Cons.prems by (intro limiter_step_inv [OF Cons.prems(1) _ _ _ step]) (auto simp: o')
  then show ?case using Cons.prems step by (intro Cons.IH [of t accepted1 tbl1]) (auto simp: o')
qed auto

text \<open>
  C37: Nobody gets more attempts than the limit in any window without a success in between. For a valid limiter and any
  sequence of attempts under any keys, resets of keys, and cleanups that keep at least the window, in time order: of the
  attempts accepted for a key since it was last reset, no window holds more than \<open>max_attempts\<close>. (The endpoints reset a key
  after a successful login or code, which lets its next attempts start from zero.)
\<close>

theorem rate_limit_holds_in_every_window:
  assumes "DatabaseRateLimiter m w ty = Inr rl" and "sorted (map fst ops)"
    and "\<And>t older. (t, Cleanup older) \<in> set ops \<Longrightarrow> w \<le> older"
    and "fold (limiter_step rl k) ops ([], []) = (tbl, accepted)"
  shows "int (in_window (t - of_int w) t accepted) \<le> m"
proof (cases ops)
  case Nil
  with assms show ?thesis by (auto simp: in_window_def DatabaseRateLimiter_def split: if_splits)
next
  case (Cons o' ops')
  have rl: "rl_max_attempts rl = m" "rl_window_seconds rl = w" "0 < m" "0 < w"
    using assms(1) by (auto simp: DatabaseRateLimiter_def split: if_splits)
  have "limiter_inv rl k (fst o') [] []"
    by (simp add: limiter_inv_def windows_ok_def window_times_def times_of_def)
  moreover have "sorted (fst o' # map fst ops)" using assms(2) Cons by simp
  ultimately obtain now' where "limiter_inv rl k now' accepted tbl"
    using limiter_run_inv[of rl k "fst o'" "[]" "[]" ops tbl accepted] assms(3,4) rl by auto
  then show ?thesis
    using windows_ok_bound[of "of_int w" m accepted t] rl by (auto simp: limiter_inv_def)
qed

theorem rate_limit_holds_in_every_window_witness:
  "\<exists>rl tbl. DatabaseRateLimiter 2 60 ''login'' = Inr rl \<and>
     fold (limiter_step rl ''ip'') [(0, Attempt ''ip''), (1, Reset ''ip''), (2, Attempt ''ip''), (3, Attempt ''ip''), (4, Attempt ''ip'')]
       ([], []) = (tbl, [2, 3]) \<and>
     int (in_window (4 - of_int 60) 4 [2, 3]) \<le> 2"
proof -
  let ?rl = "\<lparr>rl_max_attempts = 2, rl_window_seconds = 60, rl_type = ''login''\<rparr>"
  let ?ops = "[(0, Attempt ''ip''), (1, Reset ''ip''), (2, Attempt ''ip''), (3, Attempt ''ip''), (4, Attempt ''ip'')]"
  have rl: "DatabaseRateLimiter 2 60 ''login'' = Inr ?rl" by (simp add: DatabaseRateLimiter_def)
  obtain tbl where run: "fold (limiter_step ?rl ''ip'') ?ops ([], []) = (tbl, [2, 3])"
    by (simp add: check_and_increment_def clear_for_key_def window_times_def times_of_def window_start_def attempt_at_def Let_def)
  have "sorted (map fst (?ops :: (real \<times> limiter_op) list))" by simp
  from rate_limit_holds_in_every_window[OF rl this _ run, of 4] rl run show ?thesis by auto
qed

section \<open>The advice to retry\<close>

lemma fold_min: "fold min ts t \<in> insert t (set ts) \<and> (\<forall>x \<in> insert t (set ts). fold min ts t \<le> x)" for t :: real
  by (induction ts arbitrary: t) (fastforce simp: min_def split: if_splits)+

lemma oldest_attempt_spec:
  "oldest_attempt ts = Some o' \<Longrightarrow> o' \<in> set ts \<and> (\<forall>x \<in> set ts. o' \<le> x)"
  using fold_min by (auto simp: oldest_attempt_def split: list.splits)

lemma rejected_attempt:
  assumes "check_and_increment rl now key tbl = (tbl', Inl r)" and "0 < rl_max_attempts rl"
  obtains o' where "tbl' = tbl" and "oldest_attempt (window_times rl (window_start rl now) key tbl) = Some o'"
    and "r = max 1 (py_int (o' + of_int (rl_window_seconds rl) - now))"
    and "rl_max_attempts rl \<le> int (length (window_times rl (window_start rl now) key tbl))"
proof -
  let ?ts = "window_times rl (window_start rl now) key tbl"
  have full: "rl_max_attempts rl \<le> int (length ?ts)" "tbl' = tbl" "r = retry_after rl now (oldest_attempt ?ts)"
    using assms(1) by (auto simp: check_and_increment_def Let_def split: if_splits)
  then have "?ts \<noteq> []" using assms(2) by auto
  then obtain o' where "oldest_attempt ?ts = Some o'" by (auto simp: oldest_attempt_def neq_Nil_conv)
  with full that show thesis by (simp add: retry_after_def)
qed

text \<open>
  What the limiter advises after a rejection: a wait between one second and the window. The advice
  is rounded down, though: whenever the oldest attempt has at least a second left in the window, an
  attempt made exactly when the advice says is rejected once more.
\<close>

theorem retry_advice_bounds:
  assumes rl: "DatabaseRateLimiter m w ty = Inr rl"
    and past: "\<forall>t \<in> set (times_of rl key tbl). t \<le> now"
    and run: "check_and_increment rl now key tbl = (tbl', Inl r)"
  shows "1 \<le> r \<and> r \<le> w \<and>
     ((\<forall>t \<in> set (window_times rl (window_start rl now) key tbl). 1 \<le> t + of_int w - now) \<longrightarrow>
       (\<exists>r'. check_and_increment rl (now + of_int r) key tbl' = (tbl', Inl r')))"
proof -
  have p: "rl_max_attempts rl = m" "rl_window_seconds rl = w" "0 < m" "0 < w"
    using rl by (auto simp: DatabaseRateLimiter_def split: if_splits)
  let ?ts = "window_times rl (window_start rl now) key tbl"
  have "0 < rl_max_attempts rl" using p by simp
  from rejected_attempt[OF run this] obtain o' where o': "tbl' = tbl" "oldest_attempt ?ts = Some o'"
      "r = max 1 (py_int (o' + of_int w - now))" "m \<le> int (length ?ts)"
    unfolding p by blast
  note old = oldest_attempt_spec[OF o'(2)]
  have ge: "now - of_int w \<le> o'" and le: "o' \<le> now"
    using old past by (auto simp: window_times_def window_start_def p)
  have "py_int (o' + of_int w - now) \<le> py_int (of_int w)" using le by (intro py_int_mono) simp
  then have c1: "1 \<le> r \<and> r \<le> w" using o'(3) p(4) by simp
  have c2: "\<exists>r'. check_and_increment rl (now + of_int r) key tbl' = (tbl', Inl r')"
    if "\<forall>t \<in> set ?ts. 1 \<le> t + of_int w - now"
  proof -
    have left: "1 \<le> o' + of_int w - now" using that old by blast
    then have "r = py_int (o' + of_int w - now)" using o'(3) py_int_mono[OF left] by simp
    then have early: "of_int r \<le> o' + of_int w - now" using left by (simp add: py_int_le)
    have "filter (\<lambda>t. t \<ge> window_start rl (now + of_int r)) ?ts = ?ts"
      using early old by (auto simp: filter_id_conv window_start_def p)
    moreover have "window_start rl now \<le> window_start rl (now + of_int r)"
      using \<open>1 \<le> r \<and> r \<le> w\<close> by (simp add: window_start_def)
    ultimately have "window_times rl (window_start rl (now + of_int r)) key tbl = ?ts"
      unfolding window_times_def by (metis filter_ge_ge)
    then show ?thesis using o'(1,4) p by (simp add: check_and_increment_def Let_def)
  qed
  show ?thesis using c1 c2 by blast
qed

theorem retry_advice_bounds_witness:
  "let rl = \<lparr>rl_max_attempts = 1, rl_window_seconds = 60, rl_type = ''login''\<rparr>;
       tbl = [attempt_at rl ''ip'' (1 / 2)]
   in \<exists>r. check_and_increment rl 10 ''ip'' tbl = (tbl, Inl r) \<and> 1 \<le> r \<and> r \<le> 60 \<and>
        (\<exists>r'. check_and_increment rl (10 + of_int r) ''ip'' tbl = (tbl, Inl r'))"
proof -
  let ?rl = "\<lparr>rl_max_attempts = 1, rl_window_seconds = 60, rl_type = ''login''\<rparr>"
  let ?tbl = "[attempt_at ?rl ''ip'' (1 / 2)]"
  have rl: "DatabaseRateLimiter 1 60 ''login'' = Inr ?rl" by (simp add: DatabaseRateLimiter_def)
  obtain r where run: "check_and_increment ?rl 10 ''ip'' ?tbl = (?tbl, Inl r)"
    by (simp add: check_and_increment_def window_times_def times_of_def window_start_def attempt_at_def)
  have past: "\<forall>t \<in> set (times_of ?rl ''ip'' ?tbl). t \<le> 10" by (simp add: times_of_def attempt_at_def)
  have left: "\<forall>t \<in> set (window_times ?rl (window_start ?rl 10) ''ip'' ?tbl). 1 \<le> t + of_int 60 - (10 :: real)"
    by (simp add: window_times_def times_of_def attempt_at_def)
  from run left retry_advice_bounds[OF rl past run] show ?thesis by auto
qed

end
