(* ===== verification/Dashboard_Auth.thy ===== *)
theory Dashboard_Auth
  imports Dashboard_Access Rate_Limiter
begin

text \<open>
  Logging in to the dashboard (\<open>app/modules/dashboard_auth\<close>, \<open>app/core/auth/totp.py\<close>, \<open>app/core/bootstrap.py\<close>): the password,
  the guest password, the time-based second factor and the token that protects the first setup from afar.

  \<^item> The state is the settings row and the table of the rate limiter. A request reads before it writes, and others write in
    between: \<open>dash_reads\<close> holds the row in the settings cache, the row as the database session of the request has read it
    (once: the session keeps the object), and the row as the check of the bootstrap token has read it. The state is the one
    at the time of the request's own write. A write sets the columns it names.
  \<^item> bcrypt, the base-32 test and the one-time password of a time are fields of \<open>dashboard_crypto\<close>.
  \<^item> Audit events and the body of the replies are left out: a reply is the cookie it sets or clears.
\<close>

section \<open>Settings row\<close>

definition set_totp_secret :: "string option \<Rightarrow> dashboard_row \<Rightarrow> dashboard_row" where
  "set_totp_secret secret row =
     (let row = row\<lparr>ds_totp_secret_encrypted := secret, ds_totp_last_verified_step := None\<rparr>
      in if secret = None then row\<lparr>ds_totp_required_on_login := False\<rparr> else row)"

definition set_password_hash :: "string \<Rightarrow> dashboard_row \<Rightarrow> dashboard_row" where
  "set_password_hash h row =
     row\<lparr>ds_password_hash := Some h, ds_bootstrap_token_encrypted := None, ds_bootstrap_token_hash := None\<rparr>"

definition set_guest_password_hash :: "string option \<Rightarrow> dashboard_row \<Rightarrow> dashboard_row" where
  "set_guest_password_hash h row = row\<lparr>ds_guest_password_hash := h\<rparr>"

definition try_set_password_hash :: "string \<Rightarrow> dashboard_row \<Rightarrow> bool \<times> dashboard_row" where
  "try_set_password_hash h row = (if ds_password_hash row = None then (True, set_password_hash h row) else (False, row))"

definition clear_password_and_totp :: "dashboard_row \<Rightarrow> dashboard_row" where
  "clear_password_and_totp row =
     row\<lparr>ds_password_hash := None, ds_bootstrap_token_encrypted := None, ds_bootstrap_token_hash := None,
         ds_totp_required_on_login := False, ds_totp_secret_encrypted := None, ds_totp_last_verified_step := None\<rparr>"

definition store_bootstrap_token_if_absent :: "string \<Rightarrow> string \<Rightarrow> dashboard_row \<Rightarrow> bool \<times> dashboard_row" where
  "store_bootstrap_token_if_absent enc h row =
     (if ds_password_hash row = None \<and> ds_bootstrap_token_hash row = None
      then (True, row\<lparr>ds_bootstrap_token_encrypted := Some enc, ds_bootstrap_token_hash := Some h\<rparr>) else (False, row))"

definition clear_bootstrap_token :: "dashboard_row \<Rightarrow> bool \<times> dashboard_row" where
  "clear_bootstrap_token row =
     (if ds_bootstrap_token_hash row \<noteq> None
      then (True, row\<lparr>ds_bootstrap_token_encrypted := None, ds_bootstrap_token_hash := None\<rparr>) else (False, row))"

definition try_advance_totp_last_verified_step :: "int \<Rightarrow> dashboard_row \<Rightarrow> bool \<times> dashboard_row" where
  "try_advance_totp_last_verified_step step row =
     (if (case ds_totp_last_verified_step row of None \<Rightarrow> True | Some l \<Rightarrow> l < step)
      then (True, row\<lparr>ds_totp_last_verified_step := Some step\<rparr>) else (False, row))"

section \<open>One-time passwords\<close>

definition normalize_secret :: "dashboard_crypto \<Rightarrow> string \<Rightarrow> string option" where
  "normalize_secret cr secret =
     (let compact = py_upper (filter (\<lambda>c. \<not> py_isspace c) secret)
      in if compact = [] then None
         else if dy_b32 cr (compact @ replicate (nat (- int (length compact) mod 8)) CHR ''='') then Some compact else None)"

text \<open>\<open>str.isdigit\<close>: the decimal digits and, among the other one-byte characters, the superscripts one, two and three.\<close>

definition py_isdigit :: "char \<Rightarrow> bool" where
  "py_isdigit c = (let n = of_char c :: nat in 48 \<le> n \<and> n \<le> 57 \<or> n \<in> {178, 179, 185})"

definition normalize_code :: "string \<Rightarrow> string" where
  "normalize_code code = filter py_isdigit code"

text \<open>\<open>hmac.compare_digest\<close> refuses text that is not ASCII.\<close>

fun match_step :: "dashboard_crypto \<Rightarrow> string \<Rightarrow> string \<Rightarrow> int option \<Rightarrow> int list \<Rightarrow> dash_error + int option" where
  "match_step cr secret code prev [] = Inr None"
| "match_step cr secret code prev (step # steps) =
     (if (case prev of None \<Rightarrow> False | Some l \<Rightarrow> step \<le> l) then match_step cr secret code prev steps
      else if \<not> ascii code then Inl CompareTypeError
      else if dy_totp_at cr secret (step * 30) = code then Inr (Some step)
      else match_step cr secret code prev steps)"

definition verify_totp_code :: "dashboard_crypto \<Rightarrow> string \<Rightarrow> string \<Rightarrow> int \<Rightarrow> int option \<Rightarrow> dash_error + int option" where
  "verify_totp_code cr secret code now prev =
     (case normalize_secret cr secret of
        None \<Rightarrow> Inl SecretValueError
      | Some normalized \<Rightarrow>
          (let digits = normalize_code code; step = now div 30
           in if length digits \<noteq> 6 then Inr None else match_step cr normalized digits prev [step - 1, step, step + 1]))"

section \<open>Service\<close>

definition require_active_password_session :: "dashboard_crypto \<Rightarrow> dashboard_row \<Rightarrow> int \<Rightarrow> string option \<Rightarrow> dash_error + session_state" where
  "require_active_password_session cr row now session_id =
     (if ds_password_hash row = None then Inl PasswordSessionRequiredError
      else case session_get cr now session_id of
        Inl e \<Rightarrow> Inl e
      | Inr None \<Rightarrow> Inl PasswordSessionRequiredError
      | Inr (Some st) \<Rightarrow> if ss_role st \<noteq> ADMIN \<or> \<not> ss_password_verified st then Inl PasswordSessionRequiredError else Inr st)"

definition require_totp_verified_session :: "dashboard_crypto \<Rightarrow> dashboard_row \<Rightarrow> int \<Rightarrow> string option \<Rightarrow> dash_error + session_state" where
  "require_totp_verified_session cr row now session_id =
     (case require_active_password_session cr row now session_id of
        Inl e \<Rightarrow> Inl e
      | Inr st \<Rightarrow> if ss_totp_verified st then Inr st else Inl PasswordSessionRequiredError)"

definition setup_password :: "dashboard_crypto \<Rightarrow> string \<Rightarrow> dashboard_row \<Rightarrow> (dash_error + unit) \<times> dashboard_row" where
  "setup_password cr password row =
     (let (ok, row) = try_set_password_hash (dy_hashpw cr password) row
      in (if ok then Inr () else Inl PasswordAlreadyConfiguredError, row))"

definition verify_password :: "dashboard_crypto \<Rightarrow> string \<Rightarrow> dashboard_row \<Rightarrow> dash_error + unit" where
  "verify_password cr password row =
     (case ds_password_hash row of
        None \<Rightarrow> Inl PasswordNotConfiguredError
      | Some current \<Rightarrow> if dy_checkpw cr password current then Inr () else Inl InvalidCredentialsError)"

definition verify_guest_password :: "dashboard_crypto \<Rightarrow> string option \<Rightarrow> dashboard_row \<Rightarrow> dash_error + bool" where
  "verify_guest_password cr password row =
     (if \<not> ds_guest_access_enabled row then Inl GuestAccessDisabledError
      else case ds_guest_password_hash row of
        None \<Rightarrow> Inr False
      | Some current \<Rightarrow>
          (case password of
             None \<Rightarrow> Inl InvalidCredentialsError
           | Some pw \<Rightarrow> if dy_checkpw cr pw current then Inr True else Inl InvalidCredentialsError))"

definition change_password :: "dashboard_crypto \<Rightarrow> string \<Rightarrow> string \<Rightarrow> dashboard_row \<Rightarrow> dashboard_row \<Rightarrow> (dash_error + unit) \<times> dashboard_row" where
  "change_password cr current new seen row =
     (case verify_password cr current seen of
        Inl e \<Rightarrow> (Inl e, row)
      | Inr _ \<Rightarrow> (Inr (), set_password_hash (dy_hashpw cr new) row))"

definition remove_password :: "dashboard_crypto \<Rightarrow> string \<Rightarrow> dashboard_row \<Rightarrow> dashboard_row \<Rightarrow> (dash_error + unit) \<times> dashboard_row" where
  "remove_password cr password seen row =
     (case verify_password cr password seen of
        Inl e \<Rightarrow> (Inl e, row)
      | Inr _ \<Rightarrow> (Inr (), clear_password_and_totp row))"

definition start_totp_setup :: "dashboard_crypto \<Rightarrow> dashboard_row \<Rightarrow> int \<Rightarrow> string option \<Rightarrow> string \<Rightarrow> dash_error + string" where
  "start_totp_setup cr row now session_id fresh_secret =
     (case require_active_password_session cr row now session_id of
        Inl e \<Rightarrow> Inl e
      | Inr _ \<Rightarrow> if ds_totp_secret_encrypted row \<noteq> None then Inl TotpAlreadyConfiguredError else Inr fresh_secret)"

definition confirm_totp_setup ::
  "dashboard_crypto \<Rightarrow> int \<Rightarrow> string option \<Rightarrow> string \<Rightarrow> string \<Rightarrow> dashboard_row \<Rightarrow> dashboard_row \<Rightarrow> (dash_error + unit) \<times> dashboard_row" where
  "confirm_totp_setup cr now session_id secret code seen row =
     (case require_active_password_session cr seen now session_id of
        Inl e \<Rightarrow> (Inl e, row)
      | Inr _ \<Rightarrow>
          if ds_totp_secret_encrypted seen \<noteq> None then (Inl TotpAlreadyConfiguredError, row)
          else case verify_totp_code cr secret code now None of
                 Inl SecretValueError \<Rightarrow> (Inl TotpInvalidSetupError, row)
               | Inl e \<Rightarrow> (Inl e, row)
               | Inr None \<Rightarrow> (Inl TotpInvalidCodeError, row)
               | Inr (Some _) \<Rightarrow> (Inr (), set_totp_secret (Some (dy_encrypt cr secret)) row))"

text \<open>The reading half of a verification: the session, the secret and the step that the code matches.\<close>

definition read_totp ::
  "dashboard_crypto \<Rightarrow> int \<Rightarrow> dash_error + session_state \<Rightarrow> string \<Rightarrow> dashboard_row \<Rightarrow> dash_error + (session_state \<times> int)" where
  "read_totp cr now session code row =
     (case session of
        Inl e \<Rightarrow> Inl e
      | Inr st \<Rightarrow>
          (case ds_totp_secret_encrypted row of
             None \<Rightarrow> Inl TotpNotConfiguredError
           | Some enc \<Rightarrow>
               (case dy_decrypt cr enc of
                  None \<Rightarrow> Inl DecryptError
                | Some secret \<Rightarrow>
                    (case verify_totp_code cr secret code now (ds_totp_last_verified_step row) of
                       Inl e \<Rightarrow> Inl e
                     | Inr None \<Rightarrow> Inl TotpInvalidCodeError
                     | Inr (Some step) \<Rightarrow> Inr (st, step)))))"

definition finish_totp :: "dashboard_crypto \<Rightarrow> int \<Rightarrow> session_state \<times> int \<Rightarrow> dashboard_row \<Rightarrow> (dash_error + (string \<times> int)) \<times> dashboard_row" where
  "finish_totp cr now attempt row =
     (case attempt of (st, step) \<Rightarrow>
        let (updated, row) = try_advance_totp_last_verified_step step row
        in if \<not> updated then (Inl TotpInvalidCodeError, row)
           else let inherited_ttl = max 1 (ss_expires_at st - now)
                in (Inr (session_create cr now True True inherited_ttl ADMIN False, inherited_ttl), row))"

definition verify_totp ::
  "dashboard_crypto \<Rightarrow> int \<Rightarrow> string option \<Rightarrow> string \<Rightarrow> dashboard_row \<Rightarrow> dashboard_row \<Rightarrow> (dash_error + (string \<times> int)) \<times> dashboard_row" where
  "verify_totp cr now session_id code seen row =
     (case read_totp cr now (require_active_password_session cr seen now session_id) code seen of
        Inl e \<Rightarrow> (Inl e, row)
      | Inr attempt \<Rightarrow> finish_totp cr now attempt row)"

text \<open>The advance of the step and the removal of the secret, two statements of the source, are one write here.\<close>

definition disable_totp ::
  "dashboard_crypto \<Rightarrow> int \<Rightarrow> string option \<Rightarrow> string \<Rightarrow> dashboard_row \<Rightarrow> dashboard_row \<Rightarrow> (dash_error + unit) \<times> dashboard_row" where
  "disable_totp cr now session_id code seen row =
     (case read_totp cr now (require_totp_verified_session cr seen now session_id) code seen of
        Inl e \<Rightarrow> (Inl e, row)
      | Inr (st, step) \<Rightarrow>
          (let (updated, row) = try_advance_totp_last_verified_step step row
           in if \<not> updated then (Inl TotpInvalidCodeError, row) else (Inr (), set_totp_secret None row)))"

section \<open>Bootstrap token\<close>

definition manual_bootstrap_token :: "dashboard_config \<Rightarrow> string option" where
  "manual_bootstrap_token cfg = truthy_text (Some (py_strip (default (dc_bootstrap_token cfg) [])))"

datatype bootstrap_status = BootstrapValid | BootstrapInvalid | BootstrapUnavailable | BootstrapPasswordConfigured

definition get_bootstrap_validation_status :: "dashboard_config \<Rightarrow> dashboard_crypto \<Rightarrow> dashboard_row \<Rightarrow> string \<Rightarrow> bootstrap_status" where
  "get_bootstrap_validation_status cfg cr row submitted =
     (case manual_bootstrap_token cfg of
        Some manual \<Rightarrow> if submitted = manual then BootstrapValid else BootstrapInvalid
      | None \<Rightarrow>
          (case ds_bootstrap_token_hash row of
             None \<Rightarrow> if ds_password_hash row \<noteq> None then BootstrapPasswordConfigured else BootstrapUnavailable
           | Some h \<Rightarrow>
               if dy_sha256 cr submitted = h then BootstrapValid
               else if ds_password_hash row \<noteq> None then BootstrapPasswordConfigured else BootstrapInvalid))"

definition ensure_auto_bootstrap_token ::
  "dashboard_config \<Rightarrow> dashboard_crypto \<Rightarrow> string \<Rightarrow> dashboard_row \<Rightarrow> string option \<times> dashboard_row" where
  "ensure_auto_bootstrap_token cfg cr fresh row =
     (if manual_bootstrap_token cfg \<noteq> None \<or> ds_password_hash row \<noteq> None
      then (None, if ds_bootstrap_token_hash row \<noteq> None then snd (clear_bootstrap_token row) else row)
      else if ds_bootstrap_token_hash row \<noteq> None
      then (Option.bind (ds_bootstrap_token_encrypted row) (dy_decrypt cr), row)
      else let (stored, row) = store_bootstrap_token_if_absent (dy_encrypt cr fresh) (dy_sha256 cr fresh) row
           in (if stored then Some fresh else None, row))"

section \<open>Endpoints\<close>

record dash_reads =
  rd_cached :: dashboard_row
  rd_seen :: dashboard_row
  rd_bootstrap :: dashboard_row

record dash_state =
  da_row :: dashboard_row
  da_attempts :: attempts

datatype dash_reply = SessionCookie string int | ClearedCookie | StatusOk | TotpSecret string

type_synonym 'a dash_result = "(dash_error + 'a) \<times> dash_state"

definition session_client_key :: "string \<Rightarrow> connection \<Rightarrow> string" where
  "session_client_key prefix cn = prefix @ '':'' @ default (cn_client_host cn) ''unknown''"

definition totp_rate_limiter :: rate_limiter where
  "totp_rate_limiter = \<lparr>rl_max_attempts = 8, rl_window_seconds = 60, rl_type = ''totp''\<rparr>"

definition password_rate_limiter :: rate_limiter where
  "password_rate_limiter = \<lparr>rl_max_attempts = 8, rl_window_seconds = 60, rl_type = ''password''\<rparr>"

definition guest_password_rate_limiter :: rate_limiter where
  "guest_password_rate_limiter = \<lparr>rl_max_attempts = 8, rl_window_seconds = 60, rl_type = ''guest_password''\<rparr>"

text \<open>An attempt that the limiter refuses ends the request; otherwise the attempt is recorded and the request goes on.\<close>

definition with_limit ::
  "rate_limiter \<Rightarrow> string \<Rightarrow> real \<Rightarrow> string \<Rightarrow> (dash_state \<Rightarrow> 'a dash_result) \<Rightarrow> dash_state \<Rightarrow> 'a dash_result" where
  "with_limit rl code now key k st =
     (case check_and_increment rl now key (da_attempts st) of
        (tbl, Inl retry) \<Rightarrow> (Inl (RateLimitError code retry), st\<lparr>da_attempts := tbl\<rparr>)
      | (tbl, Inr _) \<Rightarrow> k (st\<lparr>da_attempts := tbl\<rparr>))"

definition clear_attempts :: "rate_limiter \<Rightarrow> string \<Rightarrow> dash_state \<Rightarrow> dash_state" where
  "clear_attempts rl key st = st\<lparr>da_attempts := clear_for_key rl key (da_attempts st)\<rparr>"

definition password_management_enabled :: "dashboard_auth_mode \<Rightarrow> bool" where
  "password_management_enabled mode = (mode \<noteq> DISABLED)"

definition ensure_password_management_enabled :: "dashboard_config \<Rightarrow> connection \<Rightarrow> dash_error option" where
  "ensure_password_management_enabled cfg cn =
     (case get_dashboard_request_auth cfg cn of
        None \<Rightarrow> None
      | Some auth \<Rightarrow> if password_management_enabled (rq_mode auth) then None else Some (BadRequestError ''password_management_disabled''))"

definition validate_password_management_session ::
  "dashboard_config \<Rightarrow> dashboard_crypto \<Rightarrow> dashboard_row \<Rightarrow> int \<Rightarrow> dashboard_request \<Rightarrow> dash_error option" where
  "validate_password_management_session cfg cr cached now rq =
     (case ensure_password_management_enabled cfg (dr_connection rq) of
        Some e \<Rightarrow> Some e
      | None \<Rightarrow>
          (case session_get cr now (dr_cookie rq) of
             Inl e \<Rightarrow> Some e
           | Inr None \<Rightarrow> Some (AuthError ''authentication_required'')
           | Inr (Some st) \<Rightarrow>
               if ss_role st \<noteq> ADMIN \<or> \<not> ss_password_verified st then Some (AuthError ''authentication_required'')
               else if ds_totp_required_on_login cached \<and> \<not> ss_totp_verified st then Some (AuthError ''totp_required'')
               else None))"

definition utf8_length :: "string \<Rightarrow> nat" where
  "utf8_length s = sum_list (map (\<lambda>c. if (of_char c :: nat) < 128 then 1 else 2) s)"

definition validate_password_length :: "string \<Rightarrow> dash_error option" where
  "validate_password_length password =
     (if length password < 8 then Some (ValidationError ''validation_error'')
      else if utf8_length password > 72 then Some (ValidationError ''password_too_long'') else None)"

definition remote_setup_allowed :: "dashboard_config \<Rightarrow> dashboard_crypto \<Rightarrow> dash_reads \<Rightarrow> connection \<Rightarrow> string option \<Rightarrow> dash_error option" where
  "remote_setup_allowed cfg cr rd cn bootstrap_token =
     (if dc_auth_mode cfg = DISABLED then Some (BadRequestError ''password_management_disabled'')
      else if dc_auth_mode cfg = TRUSTED_HEADER \<and> get_dashboard_request_auth cfg cn = None \<and> ds_password_hash (rd_seen rd) = None
      then Some (AuthError ''proxy_auth_required'')
      else if ds_password_hash (rd_seen rd) = None \<and> dc_auth_mode cfg \<noteq> TRUSTED_HEADER \<and> \<not> is_local_request (dc_locality cfg) cn
      then (case get_bootstrap_validation_status cfg cr (rd_bootstrap rd) (py_strip (default bootstrap_token [])) of
              BootstrapUnavailable \<Rightarrow> Some (AuthError ''bootstrap_unavailable'')
            | BootstrapPasswordConfigured \<Rightarrow> Some (ConflictError ''password_already_configured'')
            | BootstrapInvalid \<Rightarrow> Some (AuthError ''invalid_bootstrap_token'')
            | BootstrapValid \<Rightarrow> None)
      else None)"

definition setup_password_endpoint ::
  "dashboard_config \<Rightarrow> dashboard_crypto \<Rightarrow> dash_reads \<Rightarrow> real \<Rightarrow> dashboard_request \<Rightarrow> string \<Rightarrow> string option \<Rightarrow> dash_state \<Rightarrow> dash_reply dash_result" where
  "setup_password_endpoint cfg cr rd now rq password bootstrap_token st =
     (case remote_setup_allowed cfg cr rd (dr_connection rq) bootstrap_token of
        Some e \<Rightarrow> (Inl e, st)
      | None \<Rightarrow>
          (case validate_password_length (py_strip password) of
             Some e \<Rightarrow> (Inl e, st)
           | None \<Rightarrow>
               (case setup_password cr (py_strip password) (da_row st) of
                  (Inl _, row) \<Rightarrow> (Inl (ConflictError ''password_already_configured''), st\<lparr>da_row := row\<rparr>)
                | (Inr _, row) \<Rightarrow>
                    (let ttl = ds_session_ttl_seconds row
                     in (Inr (SessionCookie (session_create cr (py_int now) True False ttl ADMIN False) ttl), st\<lparr>da_row := row\<rparr>)))))"

definition login_guest ::
  "dashboard_config \<Rightarrow> dashboard_crypto \<Rightarrow> dash_reads \<Rightarrow> real \<Rightarrow> dashboard_request \<Rightarrow> string option \<Rightarrow> dash_state \<Rightarrow> dash_reply dash_result" where
  "login_guest cfg cr rd now rq password st =
     (let key = session_client_key ''guest_login'' (dr_connection rq);
          ttl = ds_session_ttl_seconds (rd_cached rd);
          login = (\<lambda>st. case verify_guest_password cr password (rd_seen rd) of
             Inl GuestAccessDisabledError \<Rightarrow> (Inl (BadRequestError ''guest_access_disabled''), st)
           | Inl _ \<Rightarrow> (Inl (AuthError ''invalid_credentials''), st)
           | Inr guest_verified \<Rightarrow>
               (Inr (SessionCookie (session_create cr (py_int now) False False ttl GUEST guest_verified) ttl),
                clear_attempts guest_password_rate_limiter key st))
      in if \<not> ds_guest_access_enabled (rd_cached rd) then (Inl (BadRequestError ''guest_access_disabled''), st)
         else if dc_auth_mode cfg = TRUSTED_HEADER \<and> get_dashboard_request_auth cfg (dr_connection rq) = None
         then (Inl (AuthError ''proxy_auth_required''), st)
         else if ds_guest_password_hash (rd_cached rd) \<noteq> None
         then with_limit guest_password_rate_limiter ''guest_password_rate_limited'' now key login st
         else login st)"

definition login_password ::
  "dashboard_config \<Rightarrow> dashboard_crypto \<Rightarrow> dash_reads \<Rightarrow> real \<Rightarrow> dashboard_request \<Rightarrow> string \<Rightarrow> dash_state \<Rightarrow> dash_reply dash_result" where
  "login_password cfg cr rd now rq password st =
     (if dc_auth_mode cfg = DISABLED then (Inl (BadRequestError ''password_management_disabled''), st)
      else if ds_password_hash (rd_cached rd) = None then (Inl (BadRequestError ''password_not_configured''), st)
      else let key = session_client_key ''password_login'' (dr_connection rq); ttl = ds_session_ttl_seconds (rd_cached rd)
           in with_limit password_rate_limiter ''password_rate_limited'' now key (\<lambda>st.
                case verify_password cr password (rd_seen rd) of
                  Inl InvalidCredentialsError \<Rightarrow> (Inl (AuthError ''invalid_credentials''), st)
                | Inl _ \<Rightarrow> (Inl (BadRequestError ''password_not_configured''), clear_attempts password_rate_limiter key st)
                | Inr _ \<Rightarrow>
                    (Inr (SessionCookie (session_create cr (py_int now) True False ttl ADMIN False) ttl),
                     clear_attempts password_rate_limiter key st)) st)"

fun password_error :: "dash_error \<Rightarrow> dash_error" where
  "password_error PasswordNotConfiguredError = BadRequestError ''password_not_configured''"
| "password_error InvalidCredentialsError = AuthError ''invalid_credentials''"
| "password_error e = e"

definition change_password_endpoint ::
  "dashboard_config \<Rightarrow> dashboard_crypto \<Rightarrow> dash_reads \<Rightarrow> real \<Rightarrow> dashboard_request \<Rightarrow> string \<Rightarrow> string \<Rightarrow> dash_state \<Rightarrow> dash_reply dash_result" where
  "change_password_endpoint cfg cr rd now rq current new st =
     (case validate_password_management_session cfg cr (rd_cached rd) (py_int now) rq of
        Some e \<Rightarrow> (Inl e, st)
      | None \<Rightarrow>
          (case validate_password_length (py_strip new) of
             Some e \<Rightarrow> (Inl e, st)
           | None \<Rightarrow>
               (case change_password cr current (py_strip new) (rd_seen rd) (da_row st) of
                  (Inl e, row) \<Rightarrow> (Inl (password_error e), st\<lparr>da_row := row\<rparr>)
                | (Inr _, row) \<Rightarrow> (Inr StatusOk, st\<lparr>da_row := row\<rparr>))))"

definition remove_password_endpoint ::
  "dashboard_config \<Rightarrow> dashboard_crypto \<Rightarrow> dash_reads \<Rightarrow> string \<Rightarrow> real \<Rightarrow> dashboard_request \<Rightarrow> string \<Rightarrow> dash_state \<Rightarrow> dash_reply dash_result" where
  "remove_password_endpoint cfg cr rd fresh now rq password st =
     (case validate_password_management_session cfg cr (rd_cached rd) (py_int now) rq of
        Some e \<Rightarrow> (Inl e, st)
      | None \<Rightarrow>
          (case remove_password cr password (rd_seen rd) (da_row st) of
             (Inl e, row) \<Rightarrow> (Inl (password_error e), st\<lparr>da_row := row\<rparr>)
           | (Inr _, row) \<Rightarrow> (Inr ClearedCookie, st\<lparr>da_row := snd (ensure_auto_bootstrap_token cfg cr fresh row)\<rparr>)))"

definition guest_password_endpoint ::
  "dashboard_config \<Rightarrow> dashboard_crypto \<Rightarrow> dash_reads \<Rightarrow> real \<Rightarrow> dashboard_request \<Rightarrow> string \<Rightarrow> dash_state \<Rightarrow> dash_reply dash_result" where
  "guest_password_endpoint cfg cr rd now rq password st =
     (case require_dashboard_write_access cfg (rd_cached rd) cr (py_int now) rq of
        Inl e \<Rightarrow> (Inl e, st)
      | Inr _ \<Rightarrow>
          (case validate_password_length (py_strip password) of
             Some e \<Rightarrow> (Inl e, st)
           | None \<Rightarrow> (Inr StatusOk, st\<lparr>da_row := set_guest_password_hash (Some (dy_hashpw cr (py_strip password))) (da_row st)\<rparr>)))"

definition remove_guest_password_endpoint ::
  "dashboard_config \<Rightarrow> dashboard_crypto \<Rightarrow> dash_reads \<Rightarrow> real \<Rightarrow> dashboard_request \<Rightarrow> dash_state \<Rightarrow> dash_reply dash_result" where
  "remove_guest_password_endpoint cfg cr rd now rq st =
     (case require_dashboard_write_access cfg (rd_cached rd) cr (py_int now) rq of
        Inl e \<Rightarrow> (Inl e, st)
      | Inr _ \<Rightarrow> (Inr StatusOk, st\<lparr>da_row := set_guest_password_hash None (da_row st)\<rparr>))"

definition has_active_password_session :: "dashboard_crypto \<Rightarrow> dashboard_row \<Rightarrow> int \<Rightarrow> string option \<Rightarrow> dash_error option" where
  "has_active_password_session cr row now cookie =
     (if ds_password_hash row = None then Some (AuthError ''authentication_required'')
      else case session_get cr now cookie of
        Inl e \<Rightarrow> Some e
      | Inr state \<Rightarrow> if is_password_verified state then None else Some (AuthError ''authentication_required''))"

fun totp_error :: "dash_error \<Rightarrow> dash_error" where
  "totp_error PasswordSessionRequiredError = AuthError ''authentication_required''"
| "totp_error TotpInvalidCodeError = BadRequestError ''invalid_totp_code''"
| "totp_error TotpNotConfiguredError = BadRequestError ''invalid_totp_code''"
| "totp_error TotpInvalidSetupError = BadRequestError ''invalid_totp_setup''"
| "totp_error TotpAlreadyConfiguredError = BadRequestError ''invalid_totp_setup''"
| "totp_error e = e"

definition start_totp_setup_endpoint ::
  "dashboard_config \<Rightarrow> dashboard_crypto \<Rightarrow> dash_reads \<Rightarrow> string \<Rightarrow> real \<Rightarrow> dashboard_request \<Rightarrow> dash_state \<Rightarrow> dash_reply dash_result" where
  "start_totp_setup_endpoint cfg cr rd fresh_secret now rq st =
     (case ensure_password_management_enabled cfg (dr_connection rq) of
        Some e \<Rightarrow> (Inl e, st)
      | None \<Rightarrow>
          (case has_active_password_session cr (rd_seen rd) (py_int now) (dr_cookie rq) of
             Some e \<Rightarrow> (Inl e, st)
           | None \<Rightarrow>
               (case start_totp_setup cr (rd_seen rd) (py_int now) (dr_cookie rq) fresh_secret of
                  Inl e \<Rightarrow> (Inl (totp_error e), st)
                | Inr secret \<Rightarrow> (Inr (TotpSecret secret), st))))"

definition confirm_totp_setup_endpoint ::
  "dashboard_config \<Rightarrow> dashboard_crypto \<Rightarrow> dash_reads \<Rightarrow> real \<Rightarrow> dashboard_request \<Rightarrow> string \<Rightarrow> string \<Rightarrow> dash_state \<Rightarrow> dash_reply dash_result" where
  "confirm_totp_setup_endpoint cfg cr rd now rq secret code st =
     (case ensure_password_management_enabled cfg (dr_connection rq) of
        Some e \<Rightarrow> (Inl e, st)
      | None \<Rightarrow>
          (case has_active_password_session cr (rd_seen rd) (py_int now) (dr_cookie rq) of
             Some e \<Rightarrow> (Inl e, st)
           | None \<Rightarrow>
               (let key = session_client_key ''totp_setup_confirm'' (dr_connection rq)
                in with_limit totp_rate_limiter ''totp_rate_limited'' now key (\<lambda>st.
                     case confirm_totp_setup cr (py_int now) (dr_cookie rq) secret code (rd_seen rd) (da_row st) of
                       (Inl e, row) \<Rightarrow> (Inl (totp_error e), st\<lparr>da_row := row\<rparr>)
                     | (Inr _, row) \<Rightarrow> (Inr StatusOk, clear_attempts totp_rate_limiter key (st\<lparr>da_row := row\<rparr>))) st)))"

definition verify_totp_endpoint ::
  "dashboard_config \<Rightarrow> dashboard_crypto \<Rightarrow> dash_reads \<Rightarrow> real \<Rightarrow> dashboard_request \<Rightarrow> string \<Rightarrow> dash_state \<Rightarrow> dash_reply dash_result" where
  "verify_totp_endpoint cfg cr rd now rq code st =
     (case ensure_password_management_enabled cfg (dr_connection rq) of
        Some e \<Rightarrow> (Inl e, st)
      | None \<Rightarrow>
          (case require_active_password_session cr (rd_seen rd) (py_int now) (dr_cookie rq) of
             Inl e \<Rightarrow> (Inl (totp_error e), st)
           | Inr _ \<Rightarrow>
               (let key = session_client_key ''totp_verify'' (dr_connection rq)
                in with_limit totp_rate_limiter ''totp_rate_limited'' now key (\<lambda>st.
                     case verify_totp cr (py_int now) (dr_cookie rq) code (rd_seen rd) (da_row st) of
                       (Inl e, row) \<Rightarrow> (Inl (totp_error e), st\<lparr>da_row := row\<rparr>)
                     | (Inr (token, ttl), row) \<Rightarrow>
                         (Inr (SessionCookie token ttl), clear_attempts totp_rate_limiter key (st\<lparr>da_row := row\<rparr>))) st)))"

definition disable_totp_endpoint ::
  "dashboard_config \<Rightarrow> dashboard_crypto \<Rightarrow> dash_reads \<Rightarrow> real \<Rightarrow> dashboard_request \<Rightarrow> string \<Rightarrow> dash_state \<Rightarrow> dash_reply dash_result" where
  "disable_totp_endpoint cfg cr rd now rq code st =
     (case ensure_password_management_enabled cfg (dr_connection rq) of
        Some e \<Rightarrow> (Inl e, st)
      | None \<Rightarrow>
          (case require_totp_verified_session cr (rd_seen rd) (py_int now) (dr_cookie rq) of
             Inl e \<Rightarrow> (Inl (totp_error e), st)
           | Inr _ \<Rightarrow>
               (let key = session_client_key ''totp_disable'' (dr_connection rq)
                in with_limit totp_rate_limiter ''totp_rate_limited'' now key (\<lambda>st.
                     case disable_totp cr (py_int now) (dr_cookie rq) code (rd_seen rd) (da_row st) of
                       (Inl e, row) \<Rightarrow> (Inl (totp_error e), st\<lparr>da_row := row\<rparr>)
                     | (Inr _, row) \<Rightarrow> (Inr StatusOk, clear_attempts totp_rate_limiter key (st\<lparr>da_row := row\<rparr>))) st)))"

text \<open>A call of an endpoint; the strings it draws at random and the rows it has read are given.\<close>

datatype dash_call =
    SetupPassword string "string option"
  | LoginGuest "string option"
  | LoginPassword string
  | ChangePassword string string
  | RemovePassword string
  | SetGuestPassword string
  | RemoveGuestPassword
  | StartTotpSetup
  | ConfirmTotpSetup string string
  | VerifyTotp string
  | DisableTotp string

fun dash_exec ::
  "dashboard_config \<Rightarrow> dashboard_crypto \<Rightarrow> dash_reads \<Rightarrow> string \<Rightarrow> real \<Rightarrow> dashboard_request \<Rightarrow> dash_call \<Rightarrow> dash_state \<Rightarrow> dash_reply dash_result" where
  "dash_exec cfg cr rd fresh now rq (SetupPassword pw token) st = setup_password_endpoint cfg cr rd now rq pw token st"
| "dash_exec cfg cr rd fresh now rq (LoginGuest pw) st = login_guest cfg cr rd now rq pw st"
| "dash_exec cfg cr rd fresh now rq (LoginPassword pw) st = login_password cfg cr rd now rq pw st"
| "dash_exec cfg cr rd fresh now rq (ChangePassword current new) st = change_password_endpoint cfg cr rd now rq current new st"
| "dash_exec cfg cr rd fresh now rq (RemovePassword pw) st = remove_password_endpoint cfg cr rd fresh now rq pw st"
| "dash_exec cfg cr rd fresh now rq (SetGuestPassword pw) st = guest_password_endpoint cfg cr rd now rq pw st"
| "dash_exec cfg cr rd fresh now rq RemoveGuestPassword st = remove_guest_password_endpoint cfg cr rd now rq st"
| "dash_exec cfg cr rd fresh now rq StartTotpSetup st = start_totp_setup_endpoint cfg cr rd fresh now rq st"
| "dash_exec cfg cr rd fresh now rq (ConfirmTotpSetup secret code) st = confirm_totp_setup_endpoint cfg cr rd now rq secret code st"
| "dash_exec cfg cr rd fresh now rq (VerifyTotp code) st = verify_totp_endpoint cfg cr rd now rq code st"
| "dash_exec cfg cr rd fresh now rq (DisableTotp code) st = disable_totp_endpoint cfg cr rd now rq code st"

section \<open>Who changes the credentials\<close>

definition password_session :: "dashboard_crypto \<Rightarrow> int \<Rightarrow> dashboard_request \<Rightarrow> bool" where
  "password_session cr now rq \<longleftrightarrow> (case session_get cr now (dr_cookie rq) of Inr state \<Rightarrow> is_password_verified state | Inl _ \<Rightarrow> False)"

definition second_factor :: "dashboard_crypto \<Rightarrow> int \<Rightarrow> dashboard_request \<Rightarrow> bool" where
  "second_factor cr now rq \<longleftrightarrow> (case session_get cr now (dr_cookie rq) of Inr (Some st) \<Rightarrow> ss_totp_verified st | _ \<Rightarrow> False)"

definition knows_password :: "dashboard_crypto \<Rightarrow> dashboard_row \<Rightarrow> string \<Rightarrow> bool" where
  "knows_password cr row password \<longleftrightarrow> (case ds_password_hash row of Some h \<Rightarrow> dy_checkpw cr password h | None \<Rightarrow> False)"

definition bootstrap_token_matches :: "dashboard_config \<Rightarrow> dashboard_crypto \<Rightarrow> dashboard_row \<Rightarrow> string option \<Rightarrow> bool" where
  "bootstrap_token_matches cfg cr row token \<longleftrightarrow>
     (let submitted = py_strip (default token [])
      in case manual_bootstrap_token cfg of
           Some manual \<Rightarrow> submitted = manual
         | None \<Rightarrow> ds_bootstrap_token_hash row = Some (dy_sha256 cr submitted))"

text \<open>
  Who may set the first password: a trusted proxy, a client of the machine or of the host's networks, the holder of the
  token. (The code asks clients of the host's networks for the token, see \<open>host_os_setup_needs_token\<close>.)
\<close>

definition setup_authority :: "dashboard_config \<Rightarrow> dashboard_crypto \<Rightarrow> dashboard_row \<Rightarrow> connection \<Rightarrow> string option \<Rightarrow> bool" where
  "setup_authority cfg cr boot cn token \<longleftrightarrow>
     from_trusted_proxy cfg cn \<or>
     dc_auth_mode cfg = STANDARD \<and> (is_host_os_request (dc_locality cfg) cn \<or> bootstrap_token_matches cfg cr boot token)"

text \<open>A code is right for a secret at a time when it is the one-time password of the step of the time or of a neighbour.\<close>

definition right_code :: "dashboard_crypto \<Rightarrow> string \<Rightarrow> string \<Rightarrow> int \<Rightarrow> int \<Rightarrow> bool" where
  "right_code cr secret code now step \<longleftrightarrow>
     \<bar>step - now div 30\<bar> \<le> 1 \<and>
     (case normalize_secret cr secret of Some s \<Rightarrow> dy_totp_at cr s (step * 30) = normalize_code code | None \<Rightarrow> False)"

definition newer_step :: "int option \<Rightarrow> int \<Rightarrow> bool" where
  "newer_step prev step \<longleftrightarrow> (case prev of None \<Rightarrow> True | Some p \<Rightarrow> p < step)"

text \<open>What a request may do to the credentials, given the rows it has read and the row before and after its write.\<close>

definition manages_password :: "dashboard_crypto \<Rightarrow> dash_reads \<Rightarrow> int \<Rightarrow> dashboard_request \<Rightarrow> string \<Rightarrow> bool" where
  "manages_password cr rd now rq current \<longleftrightarrow>
     knows_password cr (rd_seen rd) current \<and> password_session cr now rq \<and>
     (second_factor cr now rq \<or> \<not> ds_totp_required_on_login (rd_cached rd))"

definition password_change_authorized ::
  "dashboard_config \<Rightarrow> dashboard_crypto \<Rightarrow> dash_reads \<Rightarrow> int \<Rightarrow> dashboard_request \<Rightarrow> dash_call \<Rightarrow> dashboard_row \<Rightarrow> dashboard_row \<Rightarrow> bool" where
  "password_change_authorized cfg cr rd now rq call old new \<longleftrightarrow>
     ds_password_hash new = ds_password_hash old \<or>
     (case call of
        SetupPassword pw token \<Rightarrow>
          ds_password_hash old = None \<and> ds_password_hash new = Some (dy_hashpw cr (py_strip pw)) \<and> 8 \<le> length (py_strip pw) \<and>
          (ds_password_hash (rd_seen rd) \<noteq> None \<or> setup_authority cfg cr (rd_bootstrap rd) (dr_connection rq) token)
      | ChangePassword current pw \<Rightarrow>
          manages_password cr rd now rq current \<and> ds_password_hash new = Some (dy_hashpw cr (py_strip pw))
      | RemovePassword current \<Rightarrow> manages_password cr rd now rq current \<and> ds_password_hash new = None
      | _ \<Rightarrow> False)"

definition totp_change_authorized ::
  "dashboard_crypto \<Rightarrow> dash_reads \<Rightarrow> int \<Rightarrow> dashboard_request \<Rightarrow> dash_call \<Rightarrow> dashboard_row \<Rightarrow> dashboard_row \<Rightarrow> bool" where
  "totp_change_authorized cr rd now rq call old new \<longleftrightarrow>
     ds_totp_secret_encrypted new = ds_totp_secret_encrypted old \<or>
     (case call of
        ConfirmTotpSetup secret code \<Rightarrow>
          ds_totp_secret_encrypted (rd_seen rd) = None \<and> ds_totp_secret_encrypted new = Some (dy_encrypt cr secret) \<and>
          password_session cr now rq \<and> (\<exists>step. right_code cr secret code now step)
      | DisableTotp code \<Rightarrow>
          ds_totp_secret_encrypted new = None \<and> password_session cr now rq \<and> second_factor cr now rq \<and>
          (\<exists>enc secret step. ds_totp_secret_encrypted (rd_seen rd) = Some enc \<and> dy_decrypt cr enc = Some secret \<and>
             right_code cr secret code now step \<and> newer_step (ds_totp_last_verified_step (rd_seen rd)) step \<and>
             newer_step (ds_totp_last_verified_step old) step)
      | RemovePassword current \<Rightarrow> manages_password cr rd now rq current \<and> ds_totp_secret_encrypted new = None
      | _ \<Rightarrow> False)"

lemma with_limit_cases:
  obtains (refused) e tbl where "with_limit rl code now key k st = (Inl e, st\<lparr>da_attempts := tbl\<rparr>)"
  | (passed) tbl where "with_limit rl code now key k st = k (st\<lparr>da_attempts := tbl\<rparr>)"
proof (cases "check_and_increment rl now key (da_attempts st)")
  case (Pair tbl res)
  then show ?thesis by (cases res) (auto simp: with_limit_def intro: that)
qed

lemma with_limit_row:
  assumes "\<And>tbl. da_row (snd (k (st\<lparr>da_attempts := tbl\<rparr>))) = da_row st"
  shows "da_row (snd (with_limit rl code now key k st)) = da_row st"
  by (rule with_limit_cases [of rl code now key k st]) (simp_all add: assms)

text \<open>A limited call of the service changes the row the way the service does, or not at all.\<close>

lemma limited_service_row:
  assumes "\<And>s. da_row (snd (k s)) = snd (f (da_row s))"
  shows "da_row (snd (with_limit rl code now key k st)) = da_row st \<or>
         da_row (snd (with_limit rl code now key k st)) = snd (f (da_row st))"
  by (rule with_limit_cases [of rl code now key k st]) (simp_all add: assms)

lemma clear_attempts_row [simp]: "da_row (clear_attempts rl key st) = da_row st"
  by (simp add: clear_attempts_def)

lemma login_keeps_row:
  "da_row (snd (login_password cfg cr rd now rq pw st)) = da_row st"
  "da_row (snd (login_guest cfg cr rd now rq gpw st)) = da_row st"
  by (auto simp: login_password_def login_guest_def Let_def split: sum.split dash_error.split intro!: with_limit_row)

lemma match_step_Some:
  "match_step cr secret code prev steps = Inr (Some step) \<Longrightarrow>
     step \<in> set steps \<and> dy_totp_at cr secret (step * 30) = code \<and> newer_step prev step"
  by (induction steps) (auto simp: newer_step_def split: if_splits option.splits)

lemma verify_totp_code_right:
  assumes "verify_totp_code cr secret code now prev = Inr (Some step)"
  shows "right_code cr secret code now step \<and> newer_step prev step"
proof -
  obtain s where s: "normalize_secret cr secret = Some s"
    "match_step cr s (normalize_code code) prev [now div 30 - 1, now div 30, now div 30 + 1] = Inr (Some step)"
    using assms by (auto simp: verify_totp_code_def Let_def split: option.splits if_splits)
  show ?thesis using match_step_Some [OF s(2)] s(1) by (auto simp: right_code_def)
qed

lemma active_session:
  "require_active_password_session cr row now (dr_cookie rq) = Inr s \<Longrightarrow>
     session_get cr now (dr_cookie rq) = Inr (Some s) \<and> password_session cr now rq"
  by (auto simp: require_active_password_session_def password_session_def is_password_verified_def split: if_splits sum.splits option.splits)

lemma totp_session:
  "require_totp_verified_session cr row now (dr_cookie rq) = Inr s \<Longrightarrow> password_session cr now rq \<and> second_factor cr now rq"
  by (auto simp: require_totp_verified_session_def second_factor_def dest!: active_session split: sum.splits if_splits)

lemma management_session:
  "validate_password_management_session cfg cr cached now rq = None \<Longrightarrow>
     password_session cr now rq \<and> (second_factor cr now rq \<or> \<not> ds_totp_required_on_login cached)"
  by (auto simp: validate_password_management_session_def password_session_def second_factor_def is_password_verified_def
      split: option.splits sum.splits if_splits)

lemma setup_allowed_authority:
  assumes "remote_setup_allowed cfg cr rd cn token = None" and "ds_password_hash (rd_seen rd) = None"
  shows "setup_authority cfg cr (rd_bootstrap rd) cn token"
proof (cases "dc_auth_mode cfg")
  case TRUSTED_HEADER
  then obtain auth where "get_dashboard_request_auth cfg cn = Some auth"
    using assms by (auto simp: remote_setup_allowed_def split: if_splits)
  then show ?thesis using request_auth_evidence TRUSTED_HEADER by (force simp: setup_authority_def)
next
  case STANDARD
  then show ?thesis
    using assms by (auto simp: remote_setup_allowed_def setup_authority_def get_bootstrap_validation_status_def
        bootstrap_token_matches_def is_host_os_request_def split: if_splits bootstrap_status.splits option.splits)
qed (use assms in \<open>simp add: remote_setup_allowed_def\<close>)

lemma setup_endpoint_row:
  "let new = da_row (snd (setup_password_endpoint cfg cr rd now rq pw token st)) in
     new = da_row st \<or>
     ds_password_hash (da_row st) = None \<and> new = set_password_hash (dy_hashpw cr (py_strip pw)) (da_row st) \<and>
     8 \<le> length (py_strip pw) \<and>
     (ds_password_hash (rd_seen rd) \<noteq> None \<or> setup_authority cfg cr (rd_bootstrap rd) (dr_connection rq) token)"
proof (cases "remote_setup_allowed cfg cr rd (dr_connection rq) token")
  case None
  show ?thesis
  proof (cases "validate_password_length (py_strip pw)")
    case ok: None
    then have "8 \<le> length (py_strip pw)" by (auto simp: validate_password_length_def split: if_splits)
    then show ?thesis
      using None ok setup_allowed_authority [OF None]
      by (auto simp: setup_password_endpoint_def setup_password_def try_set_password_hash_def Let_def)
  qed (use None in \<open>simp add: setup_password_endpoint_def\<close>)
qed (simp add: setup_password_endpoint_def)

lemma change_endpoint_row:
  "let new = da_row (snd (change_password_endpoint cfg cr rd now rq current pw st)) in
     new = da_row st \<or>
     manages_password cr rd (py_int now) rq current \<and> new = set_password_hash (dy_hashpw cr (py_strip pw)) (da_row st)"
  using management_session [of cfg cr "rd_cached rd" "py_int now" rq]
  by (auto simp: change_password_endpoint_def change_password_def verify_password_def knows_password_def manages_password_def
      split: option.split sum.split prod.split)

lemma ensure_token_keeps [simp]:
  "ds_password_hash (snd (ensure_auto_bootstrap_token cfg cr fresh row)) = ds_password_hash row"
  "ds_totp_secret_encrypted (snd (ensure_auto_bootstrap_token cfg cr fresh row)) = ds_totp_secret_encrypted row"
  by (simp_all add: ensure_auto_bootstrap_token_def clear_bootstrap_token_def store_bootstrap_token_if_absent_def Let_def)

lemma remove_endpoint_row:
  "let new = da_row (snd (remove_password_endpoint cfg cr rd fresh now rq current st)) in
     new = da_row st \<or>
     manages_password cr rd (py_int now) rq current \<and> ds_password_hash new = None \<and> ds_totp_secret_encrypted new = None"
proof (cases "validate_password_management_session cfg cr (rd_cached rd) (py_int now) rq")
  case None
  show ?thesis
  proof (cases "knows_password cr (rd_seen rd) current")
    case True
    then have "remove_password cr current (rd_seen rd) (da_row st) = (Inr (), clear_password_and_totp (da_row st))"
      by (auto simp: remove_password_def verify_password_def knows_password_def split: option.splits)
    then show ?thesis
      using None True management_session [OF None] by (simp add: remove_password_endpoint_def clear_password_and_totp_def manages_password_def)
  next
    case False
    then obtain e where "remove_password cr current (rd_seen rd) (da_row st) = (Inl e, da_row st)"
      by (auto simp: remove_password_def verify_password_def knows_password_def split: option.splits)
    then show ?thesis using None by (simp add: remove_password_endpoint_def)
  qed
qed (simp add: remove_password_endpoint_def)

lemma guest_endpoints_row:
  "ds_password_hash (da_row (snd (guest_password_endpoint cfg cr rd now rq pw st))) = ds_password_hash (da_row st)"
  "ds_totp_secret_encrypted (da_row (snd (guest_password_endpoint cfg cr rd now rq pw st))) = ds_totp_secret_encrypted (da_row st)"
  "ds_password_hash (da_row (snd (remove_guest_password_endpoint cfg cr rd now rq st))) = ds_password_hash (da_row st)"
  "ds_totp_secret_encrypted (da_row (snd (remove_guest_password_endpoint cfg cr rd now rq st))) = ds_totp_secret_encrypted (da_row st)"
  by (auto simp: guest_password_endpoint_def remove_guest_password_endpoint_def set_guest_password_hash_def split: sum.split option.split)

lemma start_endpoint_row [simp]: "da_row (snd (start_totp_setup_endpoint cfg cr rd fresh now rq st)) = da_row st"
  by (auto simp: start_totp_setup_endpoint_def split: option.split sum.split)

lemma confirm_row:
  fixes cr now rq secret code seen row
  defines "new \<equiv> snd (confirm_totp_setup cr now (dr_cookie rq) secret code seen row)"
  shows "new = row \<or>
    ds_totp_secret_encrypted seen = None \<and> new = set_totp_secret (Some (dy_encrypt cr secret)) row \<and> password_session cr now rq \<and>
    (\<exists>step. right_code cr secret code now step)"
  unfolding new_def
  by (auto simp: confirm_totp_setup_def dest!: active_session verify_totp_code_right split: sum.splits option.splits if_splits dash_error.splits)

lemma confirm_endpoint_service:
  "da_row (snd (confirm_totp_setup_endpoint cfg cr rd now rq secret code st)) = da_row st \<or>
   da_row (snd (confirm_totp_setup_endpoint cfg cr rd now rq secret code st)) =
     snd (confirm_totp_setup cr (py_int now) (dr_cookie rq) secret code (rd_seen rd) (da_row st))"
proof (cases "ensure_password_management_enabled cfg (dr_connection rq) = None \<and>
    has_active_password_session cr (rd_seen rd) (py_int now) (dr_cookie rq) = None")
  case True
  show ?thesis
    unfolding confirm_totp_setup_endpoint_def True [THEN conjunct1] True [THEN conjunct2] option.case Let_def
    by (rule limited_service_row) (auto split: sum.split prod.split)
qed (auto simp: confirm_totp_setup_endpoint_def split: option.splits)

lemma disable_endpoint_service:
  "da_row (snd (disable_totp_endpoint cfg cr rd now rq code st)) = da_row st \<or>
   da_row (snd (disable_totp_endpoint cfg cr rd now rq code st)) = snd (disable_totp cr (py_int now) (dr_cookie rq) code (rd_seen rd) (da_row st))"
proof (cases "ensure_password_management_enabled cfg (dr_connection rq) = None")
  case True
  show ?thesis
  proof (cases "require_totp_verified_session cr (rd_seen rd) (py_int now) (dr_cookie rq)")
    case (Inr s)
    show ?thesis
      unfolding disable_totp_endpoint_def True Inr option.case sum.case Let_def
      by (rule limited_service_row) (auto split: sum.split prod.split)
  qed (simp add: disable_totp_endpoint_def True)
qed (auto simp: disable_totp_endpoint_def split: option.splits)

lemma verify_endpoint_service:
  "da_row (snd (verify_totp_endpoint cfg cr rd now rq code st)) = da_row st \<or>
   da_row (snd (verify_totp_endpoint cfg cr rd now rq code st)) = snd (verify_totp cr (py_int now) (dr_cookie rq) code (rd_seen rd) (da_row st))"
proof (cases "ensure_password_management_enabled cfg (dr_connection rq) = None")
  case True
  show ?thesis
  proof (cases "require_active_password_session cr (rd_seen rd) (py_int now) (dr_cookie rq)")
    case (Inr s)
    show ?thesis
      unfolding verify_totp_endpoint_def True Inr option.case sum.case Let_def
      by (rule limited_service_row) (auto split: sum.split prod.split)
  qed (simp add: verify_totp_endpoint_def True)
qed (auto simp: verify_totp_endpoint_def split: option.splits)

lemma advance_row [simp]:
  "fst (try_advance_totp_last_verified_step step row) \<longleftrightarrow> newer_step (ds_totp_last_verified_step row) step"
  "snd (try_advance_totp_last_verified_step step row) =
     (if newer_step (ds_totp_last_verified_step row) step then row\<lparr>ds_totp_last_verified_step := Some step\<rparr> else row)"
  by (auto simp: try_advance_totp_last_verified_step_def newer_step_def split: option.splits)

lemma read_totp_right:
  assumes "read_totp cr now session code row = Inr (st, step)"
  obtains enc secret where "session = Inr st" "ds_totp_secret_encrypted row = Some enc" "dy_decrypt cr enc = Some secret"
    "right_code cr secret code now step" "newer_step (ds_totp_last_verified_step row) step"
  using assms that by (auto simp: read_totp_def dest!: verify_totp_code_right split: sum.splits option.splits)

lemma verify_totp_credentials:
  "ds_password_hash (snd (verify_totp cr now sid code seen row)) = ds_password_hash row"
  "ds_totp_secret_encrypted (snd (verify_totp cr now sid code seen row)) = ds_totp_secret_encrypted row"
  by (auto simp: verify_totp_def finish_totp_def case_prod_unfold Let_def split: sum.split)

lemma disable_totp_credentials:
  shows "ds_password_hash (snd (disable_totp cr now (dr_cookie rq) code seen row)) = ds_password_hash row"
    and "totp_change_authorized cr (rd\<lparr>rd_seen := seen\<rparr>) now rq (DisableTotp code) row (snd (disable_totp cr now (dr_cookie rq) code seen row))"
proof -
  let ?read = "read_totp cr now (require_totp_verified_session cr seen now (dr_cookie rq)) code seen"
  show "ds_password_hash (snd (disable_totp cr now (dr_cookie rq) code seen row)) = ds_password_hash row"
    by (auto simp: disable_totp_def set_totp_secret_def case_prod_unfold Let_def split: sum.split)
  show "totp_change_authorized cr (rd\<lparr>rd_seen := seen\<rparr>) now rq (DisableTotp code) row (snd (disable_totp cr now (dr_cookie rq) code seen row))"
  proof (cases ?read)
    case (Inl e)
    then show ?thesis by (simp add: disable_totp_def totp_change_authorized_def)
  next
    case (Inr p)
    then obtain st step where read: "?read = Inr (st, step)" by (cases p) simp
    obtain enc secret where right: "require_totp_verified_session cr seen now (dr_cookie rq) = Inr st"
      "ds_totp_secret_encrypted seen = Some enc" "dy_decrypt cr enc = Some secret"
      "right_code cr secret code now step" "newer_step (ds_totp_last_verified_step seen) step"
      using read by (rule read_totp_right)
    then show ?thesis
      using totp_session [OF right(1)] read
      by (auto simp: disable_totp_def totp_change_authorized_def case_prod_unfold Let_def set_totp_secret_def)
  qed
qed

text \<open>
  C8: The dashboard's credentials change only by someone entitled to it, as far as the request could see. Whatever other
  requests write between the reads of a request and its own write, a request of any endpoint leaves the password as it is, or
  sets the first one (at least eight characters, where there is none, from a trusted proxy, from the machine or the host's
  networks, or with the bootstrap token, unless the request had found a password configured), or replaces or removes it
  given the password it had read, within an administrator's session that has passed the second factor where the cached
  settings require it. The secret of the second factor stays, or is set by a password session with a code that is right for
  it after it had read that there is none, or is removed by a fully verified session with a right code of a step that is
  still unused at the write, or goes with the password.
\<close>

theorem credentials_change_authorized:
  "password_change_authorized cfg cr rd (py_int now) rq call (da_row st) (da_row (snd (dash_exec cfg cr rd fresh now rq call st))) \<and>
   totp_change_authorized cr rd (py_int now) rq call (da_row st) (da_row (snd (dash_exec cfg cr rd fresh now rq call st)))"
proof (cases call)
  case (SetupPassword pw token)
  then show ?thesis
    using setup_endpoint_row [of cfg cr rd now rq pw token st]
    by (auto simp: Let_def password_change_authorized_def totp_change_authorized_def set_password_hash_def)
next
  case (ChangePassword current pw)
  then show ?thesis
    using change_endpoint_row [of cfg cr rd now rq current pw st]
    by (auto simp: Let_def password_change_authorized_def totp_change_authorized_def set_password_hash_def)
next
  case (RemovePassword current)
  then show ?thesis
    using remove_endpoint_row [of cfg cr rd fresh now rq current st]
    by (auto simp: Let_def password_change_authorized_def totp_change_authorized_def)
next
  case (ConfirmTotpSetup secret code)
  then show ?thesis
    using confirm_endpoint_service [of cfg cr rd now rq secret code st] confirm_row [of cr "py_int now" rq secret code "rd_seen rd" "da_row st"]
    by (auto simp: password_change_authorized_def totp_change_authorized_def set_totp_secret_def)
next
  case (VerifyTotp code)
  then show ?thesis
    using verify_endpoint_service [of cfg cr rd now rq code st] verify_totp_credentials [of cr "py_int now" "dr_cookie rq" code "rd_seen rd" "da_row st"]
    by (auto simp: password_change_authorized_def totp_change_authorized_def)
next
  case (DisableTotp code)
  then show ?thesis
    using disable_endpoint_service [of cfg cr rd now rq code st] disable_totp_credentials(1) [of cr "py_int now" rq code "rd_seen rd" "da_row st"]
      disable_totp_credentials(2) [where cr = cr and rd = rd and seen = "rd_seen rd" and now = "py_int now" and rq = rq and code = code and row = "da_row st"]
    by (auto simp: password_change_authorized_def totp_change_authorized_def)
qed (simp_all add: password_change_authorized_def totp_change_authorized_def login_keeps_row guest_endpoints_row)

text \<open>A client of the host's networks that is not local is refused without the token.\<close>

lemma host_os_setup_needs_token:
  assumes "dc_auth_mode cfg = STANDARD" and "ds_password_hash (rd_seen rd) = None" and "\<not> is_local_request (dc_locality cfg) cn"
    and "get_bootstrap_validation_status cfg cr (rd_bootstrap rd) [] = BootstrapInvalid"
  shows "remote_setup_allowed cfg cr rd cn None = Some (AuthError ''invalid_bootstrap_token'')"
proof -
  have "py_strip [] = []" by code_simp
  then show ?thesis using assms by (simp add: remote_setup_allowed_def default_def)
qed

section \<open>A one-time password works once\<close>

text \<open>
  Verifications overlap: each reads the row and matches its code in one step and advances the last step in another. \<open>VReset\<close>
  is the write of a new secret (or of none), which forgets the steps of the old one. The log holds the steps that were
  accepted since then, the newest first.
\<close>

record totp_race =
  tr_row :: dashboard_row
  tr_reading :: "(session_state \<times> int) list"
  tr_accepted :: "int list"

datatype totp_op = VRead int "string option" string | VFinish nat int | VReset "string option"

definition totp_start :: "dashboard_row \<Rightarrow> totp_race" where
  "totp_start row = \<lparr>tr_row = row\<lparr>ds_totp_last_verified_step := None\<rparr>, tr_reading = [], tr_accepted = []\<rparr>"

fun totp_move :: "dashboard_crypto \<Rightarrow> totp_op \<Rightarrow> totp_race \<Rightarrow> totp_race" where
  "totp_move cr (VRead now session_id code) r =
     (case read_totp cr now (require_active_password_session cr (tr_row r) now session_id) code (tr_row r) of
        Inl _ \<Rightarrow> r
      | Inr attempt \<Rightarrow> r\<lparr>tr_reading := tr_reading r @ [attempt]\<rparr>)"
| "totp_move cr (VFinish i now) r =
     (if i < length (tr_reading r)
      then let attempt = tr_reading r ! i
           in case finish_totp cr now attempt (tr_row r) of
                (Inl _, row) \<Rightarrow> r\<lparr>tr_row := row, tr_reading := take i (tr_reading r) @ drop (Suc i) (tr_reading r)\<rparr>
              | (Inr _, row) \<Rightarrow>
                  r\<lparr>tr_row := row, tr_reading := take i (tr_reading r) @ drop (Suc i) (tr_reading r), tr_accepted := snd attempt # tr_accepted r\<rparr>
      else r)"
| "totp_move cr (VReset secret) r = r\<lparr>tr_row := set_totp_secret secret (tr_row r), tr_accepted := []\<rparr>"

definition totp_invar :: "totp_race \<Rightarrow> bool" where
  "totp_invar r \<longleftrightarrow> sorted_wrt (>) (tr_accepted r) \<and>
     ds_totp_last_verified_step (tr_row r) = (case tr_accepted r of [] \<Rightarrow> None | s # _ \<Rightarrow> Some s)"

lemma finish_totp_row:
  assumes "finish_totp cr now (s, step) row = (res, row')"
  shows "(\<exists>v. res = Inr v) \<longleftrightarrow> newer_step (ds_totp_last_verified_step row) step"
    and "row' = (if newer_step (ds_totp_last_verified_step row) step then row\<lparr>ds_totp_last_verified_step := Some step\<rparr> else row)"
  using assms by (auto simp: finish_totp_def case_prod_unfold Let_def split: if_splits)

lemma sorted_push: "sorted_wrt (>) (x # xs) \<Longrightarrow> x < y \<Longrightarrow> sorted_wrt (>) (y # x # xs)" for y :: int
  by auto

lemma totp_invar_move: "totp_invar r \<Longrightarrow> totp_invar (totp_move cr move r)"
proof (cases move)
  case (VRead now sid code)
  assume "totp_invar r"
  then show ?thesis using VRead by (auto simp: totp_invar_def split: sum.split)
next
  case (VFinish i now)
  assume inv: "totp_invar r"
  obtain s step where att: "tr_reading r ! i = (s, step)" by (cases "tr_reading r ! i")
  obtain res row' where fin: "finish_totp cr now (s, step) (tr_row r) = (res, row')" by (cases "finish_totp cr now (s, step) (tr_row r)")
  note row = finish_totp_row [OF fin]
  show ?thesis
  proof (cases res)
    case (Inl e)
    then have "row' = tr_row r" using row by auto
    then show ?thesis using inv VFinish att fin Inl by (simp add: totp_invar_def)
  next
    case (Inr v)
    then have newer: "newer_step (ds_totp_last_verified_step (tr_row r)) step" using row(1) by auto
    then have "sorted_wrt (>) (step # tr_accepted r)"
      using inv by (cases "tr_accepted r") (auto simp: totp_invar_def newer_step_def)
    then show ?thesis using inv VFinish att fin Inr newer row(2) by (auto simp: totp_invar_def)
  qed
next
  case (VReset secret)
  then show ?thesis by (simp add: totp_invar_def set_totp_secret_def Let_def)
qed

interpretation totp_machine: machine "totp_move cr" totp_invar for cr
  by unfold_locales (rule totp_invar_move)

text \<open>
  C21: A one-time password is good for one login. However verifications overlap (every one of them reads the settings and
  matches its code before any has recorded its step, say), the steps that are accepted under one secret only grow, so no step,
  and with it no code, is accepted twice.
\<close>

theorem totp_step_accepted_once:
  "sorted_wrt (>) (tr_accepted (fold (totp_move cr) moves (totp_start row))) \<and>
   distinct (tr_accepted (fold (totp_move cr) moves (totp_start row)))"
proof -
  have "totp_invar (totp_start row)" by (simp add: totp_invar_def totp_start_def)
  then have "totp_invar (fold (totp_move cr) moves (totp_start row))" by (rule totp_machine.invar_run)
  then have "sorted_wrt (>) (tr_accepted (fold (totp_move cr) moves (totp_start row)))" by (simp add: totp_invar_def)
  then show ?thesis using strict_sorted_iff [of "rev (tr_accepted (fold (totp_move cr) moves (totp_start row)))"]
    by (simp add: sorted_wrt_rev)
qed

section \<open>The session after the second factor\<close>

text \<open>
  A verified code gives a session that lasts no longer than the password session it comes from (but at least one second),
  and the code was right for the stored secret at a step that is newer than the last one.
\<close>

lemma totp_session_keeps_expiry:
  assumes "verify_totp cr now session_id code seen row = (Inr (token, ttl), row')"
  obtains st secret enc step where
    "require_active_password_session cr seen now session_id = Inr st" "ttl = max 1 (ss_expires_at st - now)"
    "token = session_create cr now True True ttl ADMIN False"
    "ds_totp_secret_encrypted seen = Some enc" "dy_decrypt cr enc = Some secret" "right_code cr secret code now step"
    "newer_step (ds_totp_last_verified_step seen) step" "ds_totp_last_verified_step row' = Some step"
proof -
  let ?read = "read_totp cr now (require_active_password_session cr seen now session_id) code seen"
  obtain st step where read: "?read = Inr (st, step)"
    using assms by (auto simp: verify_totp_def split: sum.splits)
  obtain enc secret where right: "require_active_password_session cr seen now session_id = Inr st"
    "ds_totp_secret_encrypted seen = Some enc" "dy_decrypt cr enc = Some secret"
    "right_code cr secret code now step" "newer_step (ds_totp_last_verified_step seen) step"
    using read by (rule read_totp_right)
  have "ttl = max 1 (ss_expires_at st - now) \<and> token = session_create cr now True True ttl ADMIN False \<and>
      ds_totp_last_verified_step row' = Some step"
    using assms read by (auto simp: verify_totp_def finish_totp_def case_prod_unfold Let_def split: if_splits)
  then show ?thesis using that right by blast
qed

text \<open>
  A code of six digits that are digits for \<open>str.isdigit\<close> but not ASCII gets past the length check and makes the comparison
  raise.
\<close>

lemma superscript_code_raises:
  "verify_totp example_dashboard_crypto 50 (Some ''token'') (replicate 6 (CHR 0xB2)) dashboard_example_row dashboard_example_row = (Inl CompareTypeError, dashboard_example_row)"
  by code_simp

lemma right_code_logs_in:
  "fst (verify_totp example_dashboard_crypto 50 (Some ''token'') ''123 456'' dashboard_example_row dashboard_example_row) =
     Inr (session_create example_dashboard_crypto 50 True True 50 ADMIN False, 50)"
  by code_simp

text \<open>
  The check that no second factor is set up and the write of its secret are not one: of two set-ups that overlap both
  succeed, and the secret of the first is lost.
\<close>

lemma overlapping_setups_both_succeed:
  "let seen = dashboard_example_row\<lparr>ds_totp_secret_encrypted := None\<rparr>;
       confirm = (\<lambda>secret. confirm_totp_setup example_dashboard_crypto 50 (Some ''token'') secret ''123456'' seen);
       row = snd (confirm ''ABCDEFGH'' seen);
       (res, row') = confirm ''HGFEDCBA'' row
   in fst (confirm ''ABCDEFGH'' seen) = Inr () \<and> res = Inr () \<and>
      ds_totp_secret_encrypted row \<noteq> None \<and> ds_totp_secret_encrypted row' \<noteq> ds_totp_secret_encrypted row"
  by code_simp

end
