(* ===== verification/Dynamics.thy ===== *)
theory Dynamics
  imports Selection
begin

text \<open>
  How the balancer behaves over time: how long a failed account stays out, the health-tier machine, what
  opportunistic traffic may touch, and the retry hint clients see when nothing can be selected.
\<close>

section \<open>The retry hint\<close>

lemma format_retry_hint_eq:
  "format_retry_hint w =
     ''Rate limit exceeded. Try again in '' @ show_nat (nat (round_half_even (min (max 0 w) 300))) @ ''s''"
proof -
  have "0 \<le> round_half_even (min (max 0 w) 300)"
    using round_half_even_bounds [of 0 "min (max 0 w) 300" 300] by simp
  then show ?thesis by (simp add: format_retry_hint_def show_int_def)
qed

lemma hint_prefix_no_match:
  "\<forall>i < length ''Rate limit exceeded. ''.
     match_retry_at (drop i ''Rate limit exceeded. '' @ ''Try again in '' @ r) = None"
proof (intro allI impI)
  fix i
  assume "i < length ''Rate limit exceeded. ''"
  then have "i \<in> set [0..<21]" by simp
  moreover have "\<forall>i \<in> set [0..<21]. \<not> starts_with RETRY_PREFIX (py_lower (take (length RETRY_PREFIX)
      (drop i ''Rate limit exceeded. '' @ ''Try again in '')))"
    by code_simp
  ultimately have "\<not> starts_with RETRY_PREFIX (py_lower (take (length RETRY_PREFIX)
      (drop i ''Rate limit exceeded. '' @ ''Try again in '')))" by blast
  moreover have "take (length RETRY_PREFIX) (drop i ''Rate limit exceeded. '' @ ''Try again in '' @ r) =
      take (length RETRY_PREFIX) (drop i ''Rate limit exceeded. '' @ ''Try again in '')"
    by (simp add: RETRY_PREFIX_def take_Cons' drop_Cons')
  ultimately show "match_retry_at (drop i ''Rate limit exceeded. '' @ ''Try again in '' @ r) = None"
    by (simp add: match_retry_at_def)
qed

text \<open>
  The retry hint is bounded and can be read back: whatever wait time is computed, the message
  \<open>select_account\<close> formats is parsed by \<open>parse_retry_after\<close>, the parser the balancer applies to
  upstream messages, to a whole number of seconds between 0 and 300; for a wait that is a whole
  number in that range it is exactly that number.
\<close>

theorem retry_hint_roundtrip:
  "\<exists>n. parse_retry_after (format_retry_hint w) = Some (real n) \<and> n \<le> 300 \<and>
     int n = round_half_even (min (max 0 w) 300) \<and> (w \<in> {0..300} \<and> w = of_int \<lfloor>w\<rfloor> \<longrightarrow> real n = w)"
proof -
  let ?r = "round_half_even (min (max 0 w) 300)"
  have r: "0 \<le> ?r" "?r \<le> 300"
    using round_half_even_bounds [of 0 "min (max 0 w) 300" 300] by simp_all
  let ?n = "nat ?r"
  have "search_retry (''Rate limit exceeded. '' @ (''Try again in '' @ show_nat ?n @ ''s'')) =
      Some (real ?n, Seconds)"
    by (rule search_retry_skip [OF hint_prefix_no_match match_retry_at_hint])
  then have "parse_retry_after (format_retry_hint w) = Some (real ?n)"
    by (simp add: format_retry_hint_eq parse_retry_after_def)
  moreover have "real ?n = w" if "w \<in> {0..300}" "w = of_int \<lfloor>w\<rfloor>"
  proof -
    have "?r = \<lfloor>w\<rfloor>" using that round_half_even_of_int [of "\<lfloor>w\<rfloor>"] by simp
    then show ?thesis using that r by simp
  qed
  ultimately show ?thesis using r by (intro exI [of _ ?n]) auto
qed

theorem retry_hint_roundtrip_witness:
  "\<exists>n. parse_retry_after (format_retry_hint 42) = Some (real n) \<and> real n = 42"
  using retry_hint_roundtrip [of 42] by auto

section \<open>Opportunistic traffic\<close>

lemma pace_floor_ge: "5 \<le> weekly_pace_floor_pct s c"
  and short_floor_ge: "10 \<le> short_window_floor_pct s c n"
  by (auto simp: weekly_pace_floor_pct_def short_window_floor_pct_def Let_def split: option.splits prod.splits)

lemma preserve_burn_floor:
  assumes "preserve_allows_opportunistic_burn s c n"
  shows "\<exists>p q. remaining_pct False s = Some p \<and> remaining_pct True s = Some q \<and>
    p > short_window_floor_pct s c n \<and> q > weekly_pace_floor_pct s c \<and> p > 10 \<and> q > 5"
proof -
  obtain p q where pq: "remaining_pct False s = Some p" "remaining_pct True s = Some q"
    using assms by (auto simp: preserve_allows_opportunistic_burn_def split: if_splits)
  have "or_else (Some x) 0 = x" for x :: real by simp
  then have "q > weekly_pace_floor_pct s c" "p > short_window_floor_pct s c n"
    using assms pq unfolding preserve_allows_opportunistic_burn_def by metis+
  moreover from this have "q > 5" "p > 10" using pace_floor_ge [of s c] short_floor_ge [of s c n] by linarith+
  ultimately show ?thesis using pq by blast
qed

text \<open>
  Opportunistic requests respect the reserve of preserved accounts: an account marked
  preserve is selected for opportunistic traffic only while more than 10 percent of its short
  window and more than 5 percent of its weekly window remain (and more than the pace-dependent
  floors); any other account only if another account can serve foreground traffic or the account
  itself keeps more than 5 percent in both windows.
\<close>

theorem opportunistic_respects_floor:
  assumes "select_account env opts now states = (states', Inr res)" and "sel_account res = Some s"
    and "so_traffic_class opts = Opportunistic"
  shows "\<exists>available. s \<in> set available \<and> set available \<subseteq> set states' \<and>
    (if routing_policy s = ROUTING_POLICY_PRESERVE
     then \<exists>p q. remaining_pct False s = Some p \<and> remaining_pct True s = Some q \<and> p > 10 \<and> q > 5 \<and>
            p > short_window_floor_pct s (current_time env now) (preserve_count available) \<and>
            q > weekly_pace_floor_pct s (current_time env now)
     else has_other_usable_foreground_capacity s available (current_time env now) \<or>
          above_emergency_floor s)"
proof -
  let ?c = "current_time env now"
  let ?A = "pool_of Available ?c opts states" and ?B = "pool_of InBackoff ?c opts states"
  obtain cands where cands: "selection_candidates opts ?c states' ?A ?B = Inr cands"
    and pick: "pick_by_strategy env opts ?c cands = Inr s" and st': "states' = refreshed_states ?c opts states"
    using select_account_selected [OF assms(1,2)] by metis
  have s: "s \<in> set cands" using strategy.pick_mem [OF pick] .
  obtain av where av: "opportunistic_gate opts ?c av = Inr cands" "av \<noteq> []" "set av \<subseteq> set states'"
  proof (cases "?A = []")
    case False
    then show thesis using that [of ?A] cands pool_of_refreshed st' by (simp add: selection_candidates_def)
  next
    case True
    then have "?B \<noteq> []" using cands by (auto simp: selection_candidates_def split: if_splits)
    then obtain b where b: "py_min_by backoff_expires_at ?B = Inr b" "b \<in> set ?B" using py_min_by_some by blast
    then have "opportunistic_gate opts ?c [b] = Inr cands"
      using True cands by (auto simp: selection_candidates_def split: if_splits)
    then show thesis using that [of "[b]"] subsetD [OF pool_of_refreshed b(2)] st' by simp
  qed
  then have "s \<in> set av" "opportunistic_ok av ?c s"
    using opportunistic_gate_Inr [OF av(1,2)] s assms(3) by auto
  then show ?thesis using av(3) preserve_burn_floor [of s ?c "preserve_count av"]
    by (intro exI [of _ av]) (auto simp: opportunistic_ok_def split: if_splits)
qed

definition preserved_example :: account_state where
  "preserved_example = (AccountState ''p'' ACTIVE)
     \<lparr>st_used_percent := Some 20, st_secondary_used_percent := Some 30, st_reset_at := Some 3000,
      st_secondary_reset_at := Some 9000, st_routing_policy := ROUTING_POLICY_PRESERVE\<rparr>"

lemma preserved_example_selected:
  "select_account example_env (example_opts\<lparr>so_traffic_class := Opportunistic\<rparr>) None [preserved_example] =
     ([preserved_example], Inr (selected_account preserved_example))"
proof -
  have "refresh_state 1000 b preserved_example = (preserved_example, Available)" for b
    by (simp add: refresh_defs preserved_example_def AccountState_def)
  moreover have "opportunistic_ok [preserved_example] 1000 preserved_example"
    by (simp add: opportunistic_ok_def preserve_allows_opportunistic_burn_def preserve_count_def
        weekly_pace_floor_pct_def short_window_floor_pct_def remaining_pct_def used_pct_def
        seconds_until_def recent_foreground_activity_def routing_policy_def preserved_example_def
        AccountState_def policy_defs Let_def)
  then have "filter_opportunistic_candidates [preserved_example] 1000 = ([preserved_example], None)"
    by (simp add: filter_opportunistic_candidates_def routing_policy_def preserved_example_def)
  ultimately show ?thesis
    by (simp add: select_account_def current_time_def selection_candidates_def opportunistic_gate_def
        pick_by_strategy_def example_opts_def default_opts_def example_env_def)
qed

theorem opportunistic_respects_floor_witness:
  "\<exists>available. preserved_example \<in> set available \<and> set available \<subseteq> set [preserved_example]"
  using opportunistic_respects_floor [OF preserved_example_selected, of preserved_example]
  by (auto simp: example_opts_def)

section \<open>Failures and recovery\<close>

text \<open>
  A rate-limited account stays out until it is allowed back: after \<open>handle_rate_limit\<close>, an
  eligibility pass without quota bypass skips the account, unchanged, as long as the cooldown it
  set has not ended, and also as long as no reset time is known or the known one has not passed.
\<close>

theorem rate_limited_stays_out:
  assumes "s' = handle_rate_limit clock jitter error s"
    and "cooling current s' \<or> st_reset_at s' = None \<or> \<not> block_expired current s'"
  shows "st_status s' = RATE_LIMITED \<and> snd (refresh_state current False s') = Skip"
proof -
  have st: "st_status s' = RATE_LIMITED"
    using assms(1) by (simp add: handle_rate_limit_def Let_def split: prod.splits option.splits)
  show ?thesis
  proof (cases "block_expired current s'")
    case False
    then show ?thesis using st by (simp add: refresh_state_eq)
  next
    case True
    then have "cooling current s'" using assms(2) by (auto simp: block_expired_def)
    then have "clear_cooldown current x = x \<and> cooling current x" if "st_cooldown_until x = st_cooldown_until s'" for x
      using that by (auto simp: clear_cooldown_def cooling_def)
    then show ?thesis using st True by (simp add: refresh_state_eq refresh_errors_def)
  qed
qed

theorem rate_limited_stays_out_witness:
  "st_status (handle_rate_limit (10, 10, 10, 10) 1 \<lparr>err_message = None, err_resets_at = Some 70,
      err_resets_in_seconds = None\<rparr> (AccountState ''a'' ACTIVE)) = RATE_LIMITED \<and>
   snd (refresh_state 60 False (handle_rate_limit (10, 10, 10, 10) 1 \<lparr>err_message = None,
      err_resets_at = Some 70, err_resets_in_seconds = None\<rparr> (AccountState ''a'' ACTIVE))) = Skip"
  by (rule rate_limited_stays_out [OF refl])
    (simp add: handle_rate_limit_def extract_reset_at_def block_expired_def)

text \<open>
  A permanent failure takes an account out of rotation for good and says why: the account
  becomes REAUTH_REQUIRED exactly for the codes a new login cures and DEACTIVATED otherwise, a
  reason is recorded, and no eligibility pass, with or without bypass, at whatever time, makes
  the account available or changes it.
\<close>

lemma permanent_failure_is_final:
  "let s' = handle_permanent_failure code s
   in st_status s' = (if code \<in> set REAUTH_REQUIRED_FAILURE_CODES then REAUTH_REQUIRED else DEACTIVATED) \<and>
      st_deactivation_reason s' \<noteq> None \<and> st_blocked_at s' = None \<and>
      refresh_state current bypass s' = (s', Skip)"
  by (simp add: handle_permanent_failure_def account_status_for_permanent_failure_def refresh_state_eq)

section \<open>Health tiers\<close>

text \<open>
  A draining account returns to full health only through probation: one evaluation never
  turns a draining account healthy; it starts probing only without drain pressure and after the
  quiet period since draining began; it leaves probation for health only without drain pressure
  and with the required streak of successes; drain pressure sends an active account of any tier
  to draining; and an account that is blocked or withdrawn keeps its tier.
\<close>

theorem health_tier_transitions:
  assumes "st_health_tier s \<in> {HEALTH_TIER_HEALTHY, HEALTH_TIER_DRAINING, HEALTH_TIER_PROBING}"
  shows "let t = evaluate_health_tier cfg clock now entered streak s; c = or_else now clock
    in t \<in> {HEALTH_TIER_HEALTHY, HEALTH_TIER_DRAINING, HEALTH_TIER_PROBING} \<and>
      (st_status s \<noteq> ACTIVE \<longrightarrow> t = st_health_tier s) \<and>
      (st_status s = ACTIVE \<and> should_drain cfg c s \<longrightarrow> t = HEALTH_TIER_DRAINING) \<and>
      (st_health_tier s = HEALTH_TIER_DRAINING \<longrightarrow> t \<noteq> HEALTH_TIER_HEALTHY) \<and>
      (st_health_tier s = HEALTH_TIER_DRAINING \<and> t = HEALTH_TIER_PROBING \<longrightarrow>
         \<not> should_drain cfg c s \<and> (\<exists>e. entered = Some e \<and> c - e \<ge> ds_probe_quiet_seconds cfg)) \<and>
      (st_health_tier s = HEALTH_TIER_PROBING \<and> t = HEALTH_TIER_HEALTHY \<longrightarrow>
         \<not> should_drain cfg c s \<and> streak \<ge> ds_probe_success_streak_required cfg)"
proof (cases "st_status s = ACTIVE")
  case True
  then show ?thesis using assms
    by (cases "should_drain cfg (or_else now clock) s"; cases entered)
      (auto simp: evaluate_health_tier_def Let_def)
next
  case False
  then have "evaluate_health_tier cfg clock now entered streak s = st_health_tier s"
    by (cases "st_status s") (auto simp: evaluate_health_tier_def)
  then show ?thesis using assms False by auto
qed

theorem health_tier_transitions_witness:
  "evaluate_health_tier default_drain_settings 200 None (Some 100) 0
     ((AccountState ''a'' ACTIVE)\<lparr>st_health_tier := HEALTH_TIER_DRAINING\<rparr>) \<noteq> HEALTH_TIER_HEALTHY"
  using health_tier_transitions [of "(AccountState ''a'' ACTIVE)\<lparr>st_health_tier := HEALTH_TIER_DRAINING\<rparr>"
      default_drain_settings 200 None "Some 100" 0]
  by (simp add: Let_def)

section \<open>Relative availability\<close>

lemma fold_max_bounds:
  fixes x :: "'a::linorder"
  shows "fold max xs x \<in> insert x (set xs) \<and> (\<forall>y \<in> insert x (set xs). y \<le> fold max xs x)"
proof (induction xs arbitrary: x)
  case (Cons a xs)
  from Cons.IH [of "max a x"] show ?case by (auto simp: max_def split: if_splits intro: order_trans)
qed simp

lemma sort_key_eq_Nil: "sort_key f xs = [] \<longleftrightarrow> xs = []"
  by (metis length_0_conv length_sort)

text \<open>The best score of a pool, and the weight of an account relative to it.\<close>

definition best_score :: "account_state list \<Rightarrow> real \<Rightarrow> real" where
  "best_score available c =
     (case map (\<lambda>s. relative_availability_raw_score s c) available of [] \<Rightarrow> 0 | x # xs \<Rightarrow> fold max xs x)"

definition relative_weight :: "account_state list \<Rightarrow> real \<Rightarrow> real \<Rightarrow> account_state \<Rightarrow> real" where
  "relative_weight available c p s =
     (relative_availability_raw_score s c / best_score available c) powr (if p > 0 then p else 2)"

lemma best_score_bounds:
  "y \<in> set available \<Longrightarrow> relative_availability_raw_score y c \<le> best_score available c"
  "available \<noteq> [] \<Longrightarrow> \<exists>y \<in> set available. relative_availability_raw_score y c = best_score available c"
proof -
  show "relative_availability_raw_score y c \<le> best_score available c" if "y \<in> set available"
  proof (cases available)
    case (Cons a as)
    then show ?thesis using that fold_max_bounds [of "map (\<lambda>s. relative_availability_raw_score s c) as"]
      by (auto simp: best_score_def)
  qed (use that in simp)
  show "\<exists>y \<in> set available. relative_availability_raw_score y c = best_score available c"
    if "available \<noteq> []"
  proof (cases available)
    case (Cons a as)
    have "best_score available c \<in> (\<lambda>s. relative_availability_raw_score s c) ` set available"
      using fold_max_bounds [of "map (\<lambda>s. relative_availability_raw_score s c) as"] Cons
      by (simp add: best_score_def)
    then show ?thesis by auto
  qed (use that in simp)
qed

lemma weighted_candidates_eq:
  "relative_availability_weighted_candidates available c p k =
     (if best_score available c \<le> 0 then []
      else take (nat (max 1 k)) (sort_key (\<lambda>(s, weight, raw). (- weight, - raw, usage_sort_key s))
        (filter (\<lambda>(s, weight, raw). \<not> weight < 0.1)
          (map (\<lambda>s. (s, relative_weight available c p s, relative_availability_raw_score s c)) available))))"
  by (simp add: relative_availability_weighted_candidates_def best_score_def relative_weight_def Let_def comp_def)

lemma weighted_candidates_weight:
  assumes "(s, w, r) \<in> set (relative_availability_weighted_candidates available c p k)"
  shows "w = relative_weight available c p s"
  using assms by (auto simp: weighted_candidates_eq split: if_splits dest!: in_set_takeD)

lemma weighted_candidates_nonempty:
  assumes "0 < best_score available c"
  shows "relative_availability_weighted_candidates available c p k \<noteq> []"
proof -
  have "available \<noteq> []" using assms by (auto simp: best_score_def)
  then obtain y where y: "y \<in> set available" "relative_availability_raw_score y c = best_score available c"
    using best_score_bounds(2) by blast
  then have one: "relative_weight available c p y = 1" using assms by (simp add: relative_weight_def)
  define cands where "cands = filter (\<lambda>(s, weight, raw). \<not> weight < 0.1)
      (map (\<lambda>s. (s, relative_weight available c p s, relative_availability_raw_score s c)) available)"
  have "(y, relative_weight available c p y, relative_availability_raw_score y c) \<in> set cands"
    unfolding cands_def using y(1) one by auto
  then have "cands \<noteq> []" by auto
  then have "sort_key (\<lambda>(s, weight, raw). (- weight, - raw, usage_sort_key s)) cands \<noteq> []"
    unfolding sort_key_eq_Nil .
  moreover have "nat (max 1 k) \<noteq> 0" by simp
  ultimately have "take (nat (max 1 k)) (sort_key (\<lambda>(s, weight, raw). (- weight, - raw, usage_sort_key s)) cands) \<noteq> []"
    unfolding take_eq_Nil by blast
  moreover have "\<not> best_score available c \<le> 0" using assms by simp
  ultimately show ?thesis unfolding weighted_candidates_eq cands_def [symmetric] by (simp only: if_False not_False_eq_True)
qed

text \<open>
  Relative availability draws only from the strongest candidates: if some account has a
  positive score, the winner is one of at most top-k heaviest candidates and its weight, the ratio
  of its score to the best score raised to the configured power, is at least 0.1; if every score
  is zero the least used account is taken.
\<close>

theorem relative_availability_winner:
  assumes "select_relative_availability u c p k d available = Inr s"
  shows "s \<in> set available \<and>
    (if \<exists>y \<in> set available. relative_availability_raw_score y c > 0
     then s \<in> fst ` set (relative_availability_weighted_candidates available c p k) \<and>
          0.1 \<le> relative_weight available c p s
     else \<forall>y \<in> set available. usage_sort_key s \<le> usage_sort_key y) \<and>
    length (relative_availability_weighted_candidates available c p k) \<le> nat (max 1 k)"
proof -
  let ?w = "relative_availability_weighted_candidates available c p k"
  let ?ws = "map (fst \<circ> snd) ?w"
  have len: "length ?w \<le> nat (max 1 k)" by (simp add: weighted_candidates_eq)
  have iff: "(\<exists>y \<in> set available. relative_availability_raw_score y c > 0) \<longleftrightarrow> 0 < best_score available c"
    using best_score_bounds(1) [of _ available c] best_score_bounds(2) [of available c]
    by (cases "available = []") (force simp: best_score_def)+
  show ?thesis
  proof (cases "0 < best_score available c")
    case True
    then obtain t ts where w: "?w = t # ts" using weighted_candidates_nonempty by (meson list.exhaust)
    have "\<forall>x \<in> set ?ws. 0.1 \<le> x" using weighted_candidates_mem(2) by fastforce
    then have "0 < hd ?ws" and "\<forall>x \<in> set (tl ?ws). 0 \<le> x" using w by force+
    then have "0 \<le> sum_list (tl ?ws)" by (intro sum_list_nonneg) blast
    then have pos: "0 < sum_list ?ws" using w \<open>0 < hd ?ws\<close> by simp
    have "\<exists>x \<in> set (map fst ?w). py_choices (map fst ?w) ?ws u = Inr x"
      using py_choices_mem [of "map fst ?w" ?ws u] pos by simp
    moreover have "select_relative_availability u c p k d available =
        (if d then Inr (fst t) else py_choices (map fst ?w) ?ws u)"
      using pos w by (cases t) (simp add: select_relative_availability_def Let_def)
    ultimately have s: "s \<in> fst ` set ?w" using assms w
      by (cases d) (simp_all, metis Inr_inject image_eqI list.set_map set_ConsD)
    then obtain weight r where "(s, weight, r) \<in> set ?w" by force
    then have "s \<in> set available" "0.1 \<le> relative_weight available c p s"
      using weighted_candidates_mem [of s weight r available c p k]
        weighted_candidates_weight [of s weight r available c p k] by auto
    then show ?thesis using s True iff len by simp
  next
    case False
    then have min: "py_min_by usage_sort_key available = Inr s"
      using assms by (simp add: select_relative_availability_def weighted_candidates_eq)
    then show ?thesis using py_min_by_mem [OF min] py_min_by_le [OF min] False iff len by simp
  qed
qed

theorem relative_availability_winner_witness:
  "AccountState ''b'' ACTIVE \<in> set [AccountState ''b'' ACTIVE]"
proof -
  let ?b = "AccountState ''b'' ACTIVE"
  have credits: "remaining_secondary_credits ?b = 1134" by code_simp
  have score: "relative_availability_raw_score ?b 0 = 1134 / 604800"
    unfolding relative_availability_raw_score_def credits
    by (simp add: relative_availability_divisor_seconds_def AccountState_def)
  have "select_relative_availability 0 0 2 5 True [?b] = Inr ?b"
    by (simp add: select_relative_availability_def relative_availability_weighted_candidates_def score)
  from relative_availability_winner [OF this] show ?thesis by simp
qed

end
