(* ===== verification/Pricing.thy ===== *)
theory Pricing
  imports Prelude
begin

text \<open>
  Model prices (\<open>app/core/usage/pricing.py\<close>): the price list, the resolution of a model name to an
  entry of it, and the cost of a request. Amounts are reals, in US dollars per million tokens; the
  \<open>round\<close> calls that only shape a report (\<open>precision\<close>, \<open>calculate_costs\<close>) are left out.
\<close>

section \<open>The price list\<close>

record model_price =
  mp_input_per_1m :: real
  mp_output_per_1m :: real
  mp_cached_input_per_1m :: "real option"
  mp_priority_multiplier :: "real option"
  mp_priority_input_per_1m :: "real option"
  mp_priority_output_per_1m :: "real option"
  mp_priority_cached_input_per_1m :: "real option"
  mp_flex_input_per_1m :: "real option"
  mp_flex_output_per_1m :: "real option"
  mp_flex_cached_input_per_1m :: "real option"
  mp_long_context_threshold_tokens :: "real option"
  mp_long_context_input_per_1m :: "real option"
  mp_long_context_output_per_1m :: "real option"
  mp_long_context_cached_input_per_1m :: "real option"

definition ModelPrice :: "real \<Rightarrow> real \<Rightarrow> model_price" where
  "ModelPrice input_per_1m output_per_1m =
     \<lparr>mp_input_per_1m = input_per_1m, mp_output_per_1m = output_per_1m,
      mp_cached_input_per_1m = None, mp_priority_multiplier = None, mp_priority_input_per_1m =
      None, mp_priority_output_per_1m = None, mp_priority_cached_input_per_1m = None,
      mp_flex_input_per_1m = None, mp_flex_output_per_1m = None, mp_flex_cached_input_per_1m =
      None, mp_long_context_threshold_tokens = None, mp_long_context_input_per_1m = None,
      mp_long_context_output_per_1m = None, mp_long_context_cached_input_per_1m = None\<rparr>"

definition DEFAULT_PRICING_MODELS :: "(string \<times> model_price) list" where
  "DEFAULT_PRICING_MODELS =
     [(''gpt-5.5'', (ModelPrice 5 30)\<lparr>mp_cached_input_per_1m := Some (1 / 2), mp_priority_input_per_1m := Some (25 / 2),
         mp_priority_output_per_1m := Some 75,
         mp_priority_cached_input_per_1m := Some (5 / 4),
         mp_flex_input_per_1m := Some (5 / 2), mp_flex_output_per_1m := Some 15,
         mp_flex_cached_input_per_1m := Some (1 / 4)\<rparr>),
      (''gpt-5.5-pro'', (ModelPrice 30 180)\<lparr>mp_flex_input_per_1m := Some 15, mp_flex_output_per_1m := Some 90\<rparr>),
      (''gpt-5.4'', (ModelPrice (5 / 2) 15)\<lparr>mp_cached_input_per_1m := Some (1 / 4), mp_priority_input_per_1m := Some 5,
         mp_priority_output_per_1m := Some 30,
         mp_priority_cached_input_per_1m := Some (1 / 2),
         mp_flex_input_per_1m := Some (5 / 4), mp_flex_output_per_1m := Some (15 / 2),
         mp_flex_cached_input_per_1m := Some (1 / 8),
         mp_long_context_threshold_tokens := Some 272000,
         mp_long_context_input_per_1m := Some 5,
         mp_long_context_output_per_1m := Some (45 / 2),
         mp_long_context_cached_input_per_1m := Some (1 / 2)\<rparr>),
      (''gpt-5.4-mini'', (ModelPrice (3 / 4) (9 / 2))\<lparr>mp_cached_input_per_1m := Some (3 / 40), mp_flex_input_per_1m := Some (3 / 8),
         mp_flex_output_per_1m := Some (9 / 4),
         mp_flex_cached_input_per_1m := Some (3 / 80)\<rparr>),
      (''gpt-5.4-nano'', (ModelPrice (1 / 5) (5 / 4))\<lparr>mp_cached_input_per_1m := Some (1 / 50), mp_flex_input_per_1m := Some (1 / 10),
         mp_flex_output_per_1m := Some (5 / 8),
         mp_flex_cached_input_per_1m := Some (1 / 100)\<rparr>),
      (''gpt-5.4-pro'', (ModelPrice 30 180)\<lparr>mp_flex_input_per_1m := Some 15, mp_flex_output_per_1m := Some 90,
         mp_long_context_threshold_tokens := Some 272000,
         mp_long_context_input_per_1m := Some 60, mp_long_context_output_per_1m := Some 270\<rparr>),
      (''gpt-5.3-codex'', (ModelPrice (7 / 4) 14)\<lparr>mp_cached_input_per_1m := Some (7 / 40), mp_priority_input_per_1m := Some (7 / 2),
         mp_priority_output_per_1m := Some 28,
         mp_priority_cached_input_per_1m := Some (7 / 20)\<rparr>),
      (''gpt-5.3'', (ModelPrice (7 / 4) 14)\<lparr>mp_cached_input_per_1m := Some (7 / 40)\<rparr>),
      (''gpt-5.3-chat-latest'', (ModelPrice (7 / 4) 14)\<lparr>mp_cached_input_per_1m := Some (7 / 40)\<rparr>),
      (''gpt-5.2'', (ModelPrice (7 / 4) 14)\<lparr>mp_cached_input_per_1m := Some (7 / 40), mp_priority_multiplier := Some 2,
         mp_flex_input_per_1m := Some (7 / 8), mp_flex_output_per_1m := Some 7,
         mp_flex_cached_input_per_1m := Some (7 / 80)\<rparr>),
      (''gpt-5.2-chat-latest'', (ModelPrice (7 / 4) 14)\<lparr>mp_cached_input_per_1m := Some (7 / 40)\<rparr>),
      (''gpt-5.1'', (ModelPrice (5 / 4) 10)\<lparr>mp_cached_input_per_1m := Some (1 / 8), mp_priority_multiplier := Some 2,
         mp_flex_input_per_1m := Some (5 / 8), mp_flex_output_per_1m := Some 5,
         mp_flex_cached_input_per_1m := Some (1 / 16)\<rparr>),
      (''gpt-5.1-chat-latest'', (ModelPrice (5 / 4) 10)\<lparr>mp_cached_input_per_1m := Some (1 / 8)\<rparr>),
      (''gpt-5'', (ModelPrice (5 / 4) 10)\<lparr>mp_cached_input_per_1m := Some (1 / 8), mp_priority_multiplier := Some 2,
         mp_flex_input_per_1m := Some (5 / 8), mp_flex_output_per_1m := Some 5,
         mp_flex_cached_input_per_1m := Some (1 / 16)\<rparr>),
      (''gpt-5-chat-latest'', (ModelPrice (5 / 4) 10)\<lparr>mp_cached_input_per_1m := Some (1 / 8)\<rparr>),
      (''gpt-5.2-codex'', (ModelPrice (7 / 4) 14)\<lparr>mp_cached_input_per_1m := Some (7 / 40), mp_priority_input_per_1m := Some (7 / 2),
         mp_priority_output_per_1m := Some 28,
         mp_priority_cached_input_per_1m := Some (7 / 20)\<rparr>),
      (''gpt-5.1-codex-max'', (ModelPrice (5 / 4) 10)\<lparr>mp_cached_input_per_1m := Some (1 / 8), mp_priority_input_per_1m := Some (5 / 2),
         mp_priority_output_per_1m := Some 20,
         mp_priority_cached_input_per_1m := Some (1 / 4)\<rparr>),
      (''gpt-5.1-codex-mini'', (ModelPrice (1 / 4) 2)\<lparr>mp_cached_input_per_1m := Some (1 / 40)\<rparr>),
      (''gpt-5.1-codex'', (ModelPrice (5 / 4) 10)\<lparr>mp_cached_input_per_1m := Some (1 / 8), mp_priority_input_per_1m := Some (5 / 2),
         mp_priority_output_per_1m := Some 20,
         mp_priority_cached_input_per_1m := Some (1 / 4)\<rparr>),
      (''gpt-5-codex'', (ModelPrice (5 / 4) 10)\<lparr>mp_cached_input_per_1m := Some (1 / 8), mp_priority_input_per_1m := Some (5 / 2),
         mp_priority_output_per_1m := Some 20,
         mp_priority_cached_input_per_1m := Some (1 / 4)\<rparr>),
      (''gpt-image-2'', (ModelPrice 5 30)\<lparr>mp_cached_input_per_1m := Some 2\<rparr>),
      (''gpt-image-1.5'', (ModelPrice 5 30)\<lparr>mp_cached_input_per_1m := Some 2\<rparr>),
      (''gpt-image-1'', (ModelPrice 5 30)\<lparr>mp_cached_input_per_1m := Some 2\<rparr>),
      (''gpt-image-1-mini'', (ModelPrice 5 30)\<lparr>mp_cached_input_per_1m := Some 2\<rparr>)]"

definition DEFAULT_MODEL_ALIASES :: "(string \<times> string) list" where
  "DEFAULT_MODEL_ALIASES =
     [(''gpt-5.5-pro*'', ''gpt-5.5-pro''), (''gpt-5.5*'', ''gpt-5.5''),
      (''gpt-5.4-pro*'', ''gpt-5.4-pro''), (''gpt-5.4-mini*'', ''gpt-5.4-mini''),
      (''gpt-5.4-nano*'', ''gpt-5.4-nano''), (''gpt-5.4*'', ''gpt-5.4''),
      (''gpt-5.3-codex*'', ''gpt-5.3-codex''), (''gpt-5.3-chat-latest*'', ''gpt-5.3-chat-latest''),
      (''gpt-5.2-codex*'', ''gpt-5.2-codex''), (''gpt-5.2-chat-latest*'', ''gpt-5.2-chat-latest''),
      (''gpt-5.3*'', ''gpt-5.3''), (''gpt-5.1-chat-latest*'', ''gpt-5.1-chat-latest''),
      (''gpt-5.2*'', ''gpt-5.2''), (''gpt-5-chat-latest*'', ''gpt-5-chat-latest''),
      (''gpt-5.1*'', ''gpt-5.1''), (''gpt-5*'', ''gpt-5''),
      (''gpt-5.1-codex-max*'', ''gpt-5.1-codex-max''), (''gpt-5.1-codex-mini*'', ''gpt-5.1-codex-mini''),
      (''gpt-5.1-codex*'', ''gpt-5.1-codex''), (''gpt-5-codex*'', ''gpt-5-codex''),
      (''gpt-image-2*'', ''gpt-image-2''), (''gpt-image-1.5*'', ''gpt-image-1.5''),
      (''gpt-image-1-mini*'', ''gpt-image-1-mini''), (''gpt-image-1*'', ''gpt-image-1'')]"

section \<open>From a model name to a price\<close>

text \<open>\<open>fnmatch.fnmatchcase\<close> for patterns of literal characters and stars, which is all the list uses.\<close>

fun fnmatch :: "string \<Rightarrow> string \<Rightarrow> bool" where
  "fnmatch [] name = (name = [])"
| "fnmatch (p # ps) [] = (p = CHR ''*'' \<and> fnmatch ps [])"
| "fnmatch (p # ps) (c # cs) =
     (if p = CHR ''*'' then fnmatch ps (c # cs) \<or> fnmatch (p # ps) cs else p = c \<and> fnmatch ps cs)"

definition resolve_model_alias :: "string \<Rightarrow> (string \<times> string) list \<Rightarrow> string option" where
  "resolve_model_alias model aliases =
     (let matched = filter (\<lambda>(pattern, target). fnmatch (py_lower pattern) (py_lower model)) aliases
      in if model = [] then None
         else case matched of
                [] \<Rightarrow> None
              | m # ms \<Rightarrow> Some (snd (max_by (\<lambda>(pattern, target). length pattern) m ms)))"

definition find_price :: "string \<Rightarrow> (string \<times> model_price) list \<Rightarrow> (string \<times> model_price) option" where
  "find_price normalized pricing = find (\<lambda>(key, value). py_lower key = normalized) pricing"

text \<open>An empty price list or alias table given by the caller means the default one, like no table.\<close>

definition get_pricing_for_model ::
  "string \<Rightarrow> (string \<times> model_price) list option \<Rightarrow> (string \<times> string) list option \<Rightarrow> (string \<times> model_price) option" where
  "get_pricing_for_model model pricing aliases =
     (let pricing = (case pricing of Some (p # ps) \<Rightarrow> p # ps | _ \<Rightarrow> DEFAULT_PRICING_MODELS);
          aliases = (case aliases of Some (a # as) \<Rightarrow> a # as | _ \<Rightarrow> DEFAULT_MODEL_ALIASES);
          normalized = py_lower model
      in if model = [] then None
         else case find_price normalized pricing of
                Some found \<Rightarrow> Some found
              | None \<Rightarrow>
                  (case resolve_model_alias normalized aliases of
                     None \<Rightarrow> None
                   | Some alias \<Rightarrow> if alias = [] then None else find_price (py_lower alias) pricing))"

section \<open>The cost of a request\<close>

record usage_tokens =
  ut_input_tokens :: real
  ut_output_tokens :: real
  ut_cached_input_tokens :: real

definition normalize_usage :: "usage_tokens \<Rightarrow> usage_tokens" where
  "normalize_usage u =
     u\<lparr>ut_cached_input_tokens := max 0 (min (ut_cached_input_tokens u) (ut_input_tokens u))\<rparr>"

definition normalize_service_tier :: "string option \<Rightarrow> string option" where
  "normalize_service_tier service_tier =
     (case service_tier of
        None \<Rightarrow> None
      | Some t \<Rightarrow> let stripped = py_lower (py_strip t) in if stripped = [] then None else Some stripped)"

definition uses_priority_tier :: "string option \<Rightarrow> bool" where
  "uses_priority_tier service_tier = (normalize_service_tier service_tier \<in> {Some ''priority'', Some ''fast''})"

definition uses_flex_tier :: "string option \<Rightarrow> bool" where
  "uses_flex_tier service_tier = (normalize_service_tier service_tier = Some ''flex'')"

definition is_long_context :: "usage_tokens \<Rightarrow> model_price \<Rightarrow> bool" where
  "is_long_context usage price =
     (case mp_long_context_threshold_tokens price of
        None \<Rightarrow> False
      | Some threshold \<Rightarrow> ut_input_tokens usage > threshold \<and>
          mp_long_context_input_per_1m price \<noteq> None \<and> mp_long_context_output_per_1m price \<noteq> None)"

text \<open>The four rate tables; the priority table is \<open>None\<close> when the price has none.\<close>

type_synonym rates = "real \<times> real \<times> real"

definition standard_rates :: "model_price \<Rightarrow> rates" where
  "standard_rates price =
     (mp_input_per_1m price, default (mp_cached_input_per_1m price) (mp_input_per_1m price), mp_output_per_1m price)"

definition scale_rates :: "real \<Rightarrow> real \<Rightarrow> rates \<Rightarrow> rates" where
  "scale_rates k_in k_out r = (case r of (i, c, out) \<Rightarrow> (i * k_in, c * k_in, out * k_out))"

definition priority_rates :: "model_price \<Rightarrow> rates option" where
  "priority_rates price =
     (case (mp_priority_input_per_1m price, mp_priority_output_per_1m price) of
        (Some i, Some out) \<Rightarrow> Some (i, default (mp_priority_cached_input_per_1m price) i, out)
      | _ \<Rightarrow> map_option (\<lambda>k. scale_rates k k (standard_rates price)) (mp_priority_multiplier price))"

definition flex_rates :: "bool \<Rightarrow> model_price \<Rightarrow> rates option" where
  "flex_rates long price =
     (case (mp_flex_input_per_1m price, mp_flex_output_per_1m price) of
        (Some i, Some out) \<Rightarrow>
          let r = (i, default (mp_flex_cached_input_per_1m price) i, out)
          in Some (if long then scale_rates 2 (3 / 2) r else r)
      | _ \<Rightarrow> None)"

definition long_context_rates :: "model_price \<Rightarrow> rates" where
  "long_context_rates price =
     (let i = the (mp_long_context_input_per_1m price)
      in (i, default (mp_long_context_cached_input_per_1m price) i, the (mp_long_context_output_per_1m price)))"

definition effective_rates :: "usage_tokens \<Rightarrow> model_price \<Rightarrow> string option \<Rightarrow> rates" where
  "effective_rates usage price service_tier =
     (let long = is_long_context usage price;
          other = (case (if uses_flex_tier service_tier then flex_rates long price else None) of
                     Some r \<Rightarrow> r
                   | None \<Rightarrow> if long then long_context_rates price else standard_rates price)
      in case (if uses_priority_tier service_tier then priority_rates price else None) of
           Some r \<Rightarrow> r | None \<Rightarrow> other)"

record usage_cost_breakdown =
  cost_input_usd :: real
  cost_cached_input_usd :: real
  cost_output_usd :: real
  cost_total_usd :: real

definition calculate_cost_breakdown_from_usage ::
  "usage_tokens \<Rightarrow> model_price \<Rightarrow> string option \<Rightarrow> usage_cost_breakdown" where
  "calculate_cost_breakdown_from_usage usage price service_tier =
     (let u = normalize_usage usage;
          billable_input = max 0 (ut_input_tokens u - ut_cached_input_tokens u);
          (input_rate, cached_rate, output_rate) = effective_rates u price service_tier;
          input_usd = billable_input / 1000000 * input_rate;
          cached_input_usd = ut_cached_input_tokens u / 1000000 * cached_rate;
          output_usd = ut_output_tokens u / 1000000 * output_rate
      in \<lparr>cost_input_usd = input_usd, cost_cached_input_usd = cached_input_usd, cost_output_usd = output_usd,
          cost_total_usd = input_usd + cached_input_usd + output_usd\<rparr>)"

definition calculate_cost_from_usage :: "usage_tokens \<Rightarrow> model_price \<Rightarrow> string option \<Rightarrow> real" where
  "calculate_cost_from_usage usage price service_tier =
     cost_total_usd (calculate_cost_breakdown_from_usage usage price service_tier)"

section \<open>The price list is sane\<close>

text \<open>Rates are not negative, and a cached token is not dearer than a fresh one.\<close>

definition rates_ok :: "rates \<Rightarrow> bool" where
  "rates_ok r = (case r of (i, c, out) \<Rightarrow> 0 \<le> c \<and> c \<le> i \<and> 0 \<le> out)"

definition rates_le :: "rates \<Rightarrow> rates \<Rightarrow> bool" where
  "rates_le r s = (case (r, s) of ((i, c, out), (i', c', out')) \<Rightarrow> i \<le> i' \<and> c \<le> c' \<and> out \<le> out')"

definition price_ok :: "model_price \<Rightarrow> bool" where
  "price_ok price =
     (rates_ok (standard_rates price) \<and>
      (case priority_rates price of None \<Rightarrow> True | Some r \<Rightarrow> rates_ok r) \<and>
      (case (flex_rates False price, flex_rates True price) of
         (Some r, Some s) \<Rightarrow> rates_ok r \<and> rates_ok s \<and> rates_le r s | _ \<Rightarrow> True) \<and>
      (mp_long_context_input_per_1m price \<noteq> None \<and> mp_long_context_output_per_1m price \<noteq> None \<longrightarrow>
         rates_ok (long_context_rates price) \<and> rates_le (standard_rates price) (long_context_rates price)))"

lemmas rate_defs =
  standard_rates_def priority_rates_def flex_rates_def long_context_rates_def scale_rates_def Let_def

lemma default_prices_ok: "list_all (\<lambda>(key, price). price_ok price) DEFAULT_PRICING_MODELS"
  unfolding DEFAULT_PRICING_MODELS_def
  by (simp add: price_ok_def rates_ok_def rates_le_def rate_defs ModelPrice_def)

lemma find_price_mem: "find_price name pricing = Some (key, price) \<Longrightarrow> (key, price) \<in> set pricing"
  unfolding find_price_def find_Some_iff by (metis nth_mem)

lemma default_pricing_ok:
  assumes "get_pricing_for_model model None None = Some (key, price)"
  shows "price_ok price"
proof -
  have "(key, price) \<in> set DEFAULT_PRICING_MODELS"
    using assms find_price_mem by (auto simp: get_pricing_for_model_def Let_def split: if_splits option.splits)
  then show ?thesis using default_prices_ok by (auto simp: list_all_iff)
qed

lemma flex_rates_long: "flex_rates long price = None \<longleftrightarrow> flex_rates False price = None"
  by (simp add: flex_rates_def Let_def split: option.split)

lemma flex_rates_ok:
  assumes "price_ok price"
  shows "flex_rates long price = Some r \<Longrightarrow> rates_ok r"
    and "flex_rates False price = Some r \<Longrightarrow> flex_rates True price = Some s \<Longrightarrow> rates_le r s"
proof -
  have pair: "rates_ok r \<and> rates_ok s \<and> rates_le r s"
    if "flex_rates False price = Some r" "flex_rates True price = Some s" for r s
    using assms that by (simp add: price_ok_def)
  show "rates_le r s" if "flex_rates False price = Some r" "flex_rates True price = Some s"
    using pair[OF that] by blast
  show "rates_ok r" if r: "flex_rates long price = Some r"
  proof -
    obtain r0 s0 where "flex_rates False price = Some r0" "flex_rates True price = Some s0"
      using r flex_rates_long[of long price] flex_rates_long[of True price] by fastforce
    then show ?thesis using pair r by (cases long) auto
  qed
qed

text \<open>The rates when the priority tier does not apply.\<close>

definition base_rates :: "usage_tokens \<Rightarrow> model_price \<Rightarrow> string option \<Rightarrow> rates" where
  "base_rates u price tier =
     (case (if uses_flex_tier tier then flex_rates (is_long_context u price) price else None) of
        Some r \<Rightarrow> r
      | None \<Rightarrow> if is_long_context u price then long_context_rates price else standard_rates price)"

lemma effective_rates_eq:
  "effective_rates u price tier =
     (case (if uses_priority_tier tier then priority_rates price else None) of Some r \<Rightarrow> r | None \<Rightarrow> base_rates u price tier)"
  by (simp only: effective_rates_def base_rates_def Let_def)

lemma effective_rates_cong:
  assumes "ut_input_tokens u = ut_input_tokens v"
  shows "effective_rates u price tier = effective_rates v price tier"
proof -
  have "is_long_context u price = is_long_context v price" unfolding is_long_context_def assms ..
  then show ?thesis by (simp only: effective_rates_def)
qed

lemma long_context_ok:
  assumes "price_ok price" and "is_long_context u price"
  shows "rates_ok (long_context_rates price)" and "rates_le (standard_rates price) (long_context_rates price)"
proof -
  have "mp_long_context_input_per_1m price \<noteq> None \<and> mp_long_context_output_per_1m price \<noteq> None"
    using assms(2) by (simp add: is_long_context_def split: option.splits)
  with assms(1) show "rates_ok (long_context_rates price)" "rates_le (standard_rates price) (long_context_rates price)"
    unfolding price_ok_def by blast+
qed

lemma effective_rates_ok:
  assumes "price_ok price"
  shows "rates_ok (effective_rates u price tier)"
proof -
  have prio: "rates_ok r" if "priority_rates price = Some r" for r
    using assms that by (simp add: price_ok_def)
  have "rates_ok (standard_rates price)" using assms by (simp add: price_ok_def)
  then have base: "rates_ok (base_rates u price tier)"
    using flex_rates_ok(1)[OF assms] long_context_ok(1)[OF assms] by (simp add: base_rates_def split: option.split)
  then show ?thesis using prio by (simp add: effective_rates_eq split: option.split)
qed

lemma effective_rates_mono:
  assumes "price_ok price" and "ut_input_tokens u \<le> ut_input_tokens v"
  shows "rates_le (effective_rates u price tier) (effective_rates v price tier)"
proof -
  have refl: "rates_le r r" for r by (cases r) (simp add: rates_le_def)
  have up: "is_long_context v price" if "is_long_context u price"
    using that assms(2) by (auto simp: is_long_context_def split: option.splits)
  have "rates_le (base_rates u price tier) (base_rates v price tier)"
  proof (cases "is_long_context u price = is_long_context v price")
    case True
    then show ?thesis by (simp add: base_rates_def refl)
  next
    case False
    then have l: "\<not> is_long_context u price" "is_long_context v price" using up by auto
    show ?thesis
      using flex_rates_long[of True price] flex_rates_ok(2)[OF assms(1)] long_context_ok(2)[OF assms(1) l(2)]
      by (auto simp: base_rates_def l split: option.split)
  qed
  then show ?thesis by (simp add: effective_rates_eq refl split: option.split)
qed

lemma cost_eq:
  assumes "effective_rates (normalize_usage u) price tier = (i, c, out)"
  shows "calculate_cost_from_usage u price tier =
    (max 0 (ut_input_tokens u - ut_cached_input_tokens (normalize_usage u)) * i +
     ut_cached_input_tokens (normalize_usage u) * c + ut_output_tokens u * out) / 1000000"
  using assms
  by (simp add: calculate_cost_from_usage_def calculate_cost_breakdown_from_usage_def Let_def normalize_usage_def
      add_divide_distrib)

text \<open>The bill of input tokens, part of them cached.\<close>

lemma bill_mono:
  fixes x y c i i' k k' :: real
  assumes "0 \<le> c" "0 \<le> x" "x \<le> y" "0 \<le> k" "k \<le> i" "i \<le> i'" "k \<le> k'" "k' \<le> i'"
  shows "(x - min c x) * i + min c x * k \<le> (y - min c y) * i' + min c y * k'"
proof (cases "c \<le> x")
  case True
  have "(x - c) * i \<le> (y - c) * i'" using True assms by (intro mult_mono) auto
  moreover have "c * k \<le> c * k'" using assms by (intro mult_left_mono) auto
  ultimately show ?thesis using True assms by simp
next
  case False
  let ?d = "min c y"
  have "x * k \<le> ?d * k'" using False assms by (intro mult_mono) auto
  moreover have "0 \<le> (y - ?d) * i'" using assms by (intro mult_nonneg_nonneg) auto
  ultimately show ?thesis using False by simp
qed

lemma cached_share: "0 \<le> ut_input_tokens u \<Longrightarrow>
  ut_cached_input_tokens (normalize_usage u) = min (max 0 (ut_cached_input_tokens u)) (ut_input_tokens u)"
  by (auto simp: normalize_usage_def)

lemma cost_input_bill:
  assumes "effective_rates (normalize_usage u) price tier = (i, c, out)" and "0 \<le> ut_input_tokens u"
  shows "calculate_cost_from_usage u price tier =
    ((ut_input_tokens u - min (max 0 (ut_cached_input_tokens u)) (ut_input_tokens u)) * i +
      min (max 0 (ut_cached_input_tokens u)) (ut_input_tokens u) * c + ut_output_tokens u * out) / 1000000"
  using cost_eq[OF assms(1)] assms(2) by (simp add: cached_share)

lemma input_bill_nonneg:
  assumes "price_ok price" and "effective_rates (normalize_usage u) price tier = (i, c, out)" and "0 \<le> ut_input_tokens u"
  shows "0 \<le> (ut_input_tokens u - min (max 0 (ut_cached_input_tokens u)) (ut_input_tokens u)) * i +
    min (max 0 (ut_cached_input_tokens u)) (ut_input_tokens u) * c"
  using bill_mono[of "max 0 (ut_cached_input_tokens u)" 0 "ut_input_tokens u" c i i c] assms(3)
    effective_rates_ok[OF assms(1), of "normalize_usage u" tier] assms(2)
  by (simp add: rates_ok_def)

lemma cost_nonneg:
  assumes "price_ok price" and "0 \<le> ut_input_tokens u" and "0 \<le> ut_output_tokens u"
  shows "0 \<le> calculate_cost_from_usage u price tier"
proof -
  obtain i c out where r: "effective_rates (normalize_usage u) price tier = (i, c, out)" by (metis prod_cases3)
  then have "0 \<le> out" using effective_rates_ok[OF assms(1), of "normalize_usage u" tier] by (simp add: rates_ok_def)
  then show ?thesis
    using input_bill_nonneg[OF assms(1) r assms(2)] assms(3) by (simp add: cost_input_bill[OF r assms(2)])
qed

text \<open>
  The price list never charges a negative amount, never charges more for a cached token than for a
  fresh one, and never charges less for more. For every model the default tables know, every service
  tier and every usage, the cost is not negative, it is at most the cost of the same usage with nothing
  cached, and it does not decrease when input or output tokens are added, not even across the
  long-context threshold.
\<close>

theorem cost_is_sane:
  assumes "get_pricing_for_model model None None = Some (key, price)"
    and "0 \<le> ut_input_tokens u" and "0 \<le> ut_output_tokens u"
    and "ut_input_tokens u \<le> more_in" and "ut_output_tokens u \<le> more_out"
  shows "0 \<le> calculate_cost_from_usage u price tier \<and>
    calculate_cost_from_usage u price tier \<le> calculate_cost_from_usage (u\<lparr>ut_cached_input_tokens := 0\<rparr>) price tier \<and>
    calculate_cost_from_usage u price tier \<le>
      calculate_cost_from_usage (u\<lparr>ut_input_tokens := more_in, ut_output_tokens := more_out\<rparr>) price tier"
proof -
  note ok = default_pricing_ok[OF assms(1)]
  let ?v = "u\<lparr>ut_input_tokens := more_in, ut_output_tokens := more_out\<rparr>"
  let ?w = "u\<lparr>ut_cached_input_tokens := 0\<rparr>"
  let ?share = "\<lambda>x. min (max 0 (ut_cached_input_tokens u)) x"
  obtain i c out where r: "effective_rates (normalize_usage u) price tier = (i, c, out)" by (metis prod_cases3)
  obtain i' c' out' where s: "effective_rates (normalize_usage ?v) price tier = (i', c', out')" by (metis prod_cases3)
  have w: "effective_rates (normalize_usage ?w) price tier = (i, c, out)"
    using r effective_rates_cong[of "normalize_usage ?w" "normalize_usage u"] by (simp add: normalize_usage_def)
  have R: "0 \<le> c" "c \<le> i" "0 \<le> out" "c' \<le> i'"
    using effective_rates_ok[OF ok, of "normalize_usage u" tier] effective_rates_ok[OF ok, of "normalize_usage ?v" tier] r s
    by (simp_all add: rates_ok_def)
  have le: "i \<le> i'" "c \<le> c'" "out \<le> out'"
    using effective_rates_mono[OF ok, of "normalize_usage u" "normalize_usage ?v" tier] r s assms(4)
    by (simp_all add: rates_le_def normalize_usage_def)
  have in0: "0 \<le> more_in" using assms(2,4) by simp
  have 1: "0 \<le> calculate_cost_from_usage u price tier" by (rule cost_nonneg[OF ok assms(2,3)])
  have "?share (ut_input_tokens u) * c \<le> ?share (ut_input_tokens u) * i"
    using R assms(2) by (intro mult_left_mono) auto
  then have 2: "calculate_cost_from_usage u price tier \<le> calculate_cost_from_usage ?w price tier"
    using assms(2) by (simp add: cost_input_bill[OF r assms(2)] cost_input_bill[OF w] algebra_simps)
  have "ut_output_tokens u * out \<le> more_out * out'" using le R assms(3,5) by (intro mult_mono) auto
  moreover have "(ut_input_tokens u - ?share (ut_input_tokens u)) * i + ?share (ut_input_tokens u) * c
      \<le> (more_in - ?share more_in) * i' + ?share more_in * c'"
    using R le assms(2,4) by (intro bill_mono) auto
  ultimately have "calculate_cost_from_usage u price tier \<le> calculate_cost_from_usage ?v price tier"
    using in0 by (simp add: cost_input_bill[OF r assms(2)] cost_input_bill[OF s])
  with 1 2 show ?thesis by simp
qed

lemma example_price:
  "get_pricing_for_model ''gpt-5.5-2026'' None None =
     Some (''gpt-5.5'', (ModelPrice 5 30)\<lparr>mp_cached_input_per_1m := Some (1 / 2), mp_priority_input_per_1m := Some (25 / 2),
       mp_priority_output_per_1m := Some 75, mp_priority_cached_input_per_1m := Some (5 / 4),
       mp_flex_input_per_1m := Some (5 / 2), mp_flex_output_per_1m := Some 15,
       mp_flex_cached_input_per_1m := Some (1 / 4)\<rparr>)"
proof -
  have miss: "find_price (py_lower ''gpt-5.5-2026'') DEFAULT_PRICING_MODELS = None"
    unfolding find_price_def DEFAULT_PRICING_MODELS_def by (simp add: py_lower_def py_lower_char_def)
  have found: "resolve_model_alias (py_lower ''gpt-5.5-2026'') DEFAULT_MODEL_ALIASES = Some ''gpt-5.5''" by code_simp
  show ?thesis
    using miss found
    by (simp add: get_pricing_for_model_def find_price_def DEFAULT_PRICING_MODELS_def py_lower_def py_lower_char_def)
qed

theorem cost_is_sane_witness:
  "\<exists>price. get_pricing_for_model ''gpt-5.5-2026'' None None = Some (''gpt-5.5'', price) \<and>
     calculate_cost_from_usage \<lparr>ut_input_tokens = 100, ut_output_tokens = 10, ut_cached_input_tokens = 60\<rparr> price None
       \<le> calculate_cost_from_usage \<lparr>ut_input_tokens = 200, ut_output_tokens = 20, ut_cached_input_tokens = 60\<rparr> price None"
proof -
  obtain price where p: "get_pricing_for_model ''gpt-5.5-2026'' None None = Some (''gpt-5.5'', price)"
    using example_price by blast
  show ?thesis
    using p cost_is_sane[OF p, of "\<lparr>ut_input_tokens = 100, ut_output_tokens = 10, ut_cached_input_tokens = 60\<rparr>" 200 20 None]
    by auto
qed

end
