(* ===== verification/Api_Keys.thy ===== *)
theory Api_Keys
  imports Pricing
begin

text \<open>
  Usage limits of API keys (\<open>app/modules/api_keys/\<close>): the rows of limits and of usage reservations, the
  statements of the repository on them, and the service operations that admit a request, settle or
  release its reservation, and reset the windows.

  \<^item> A table is the list of its rows; \<open>UPDATE ... WHERE ... RETURNING\<close> is \<open>update_rows\<close> and
    \<open>any_row\<close>. A transaction either commits, and the operation returns the new tables, or rolls back,
    and it returns the tables of the last commit.
  \<^item> Timestamps are seconds; \<open>utcnow()\<close>, \<open>func.now()\<close> and \<open>uuid4()\<close> are arguments.
  \<^item> The retries of a busy SQLite database repeat a rolled-back transaction and are left out.
\<close>

section \<open>Rows\<close>

datatype LimitType = TOTAL_TOKENS | INPUT_TOKENS | OUTPUT_TOKENS | COST_USD | CREDITS

datatype LimitWindow = DAILY | WEEKLY | MONTHLY | FIVE_HOURS | SEVEN_DAYS

fun limit_type_value :: "LimitType \<Rightarrow> string" where
  "limit_type_value TOTAL_TOKENS = ''total_tokens''"
| "limit_type_value INPUT_TOKENS = ''input_tokens''"
| "limit_type_value OUTPUT_TOKENS = ''output_tokens''"
| "limit_type_value COST_USD = ''cost_usd''"
| "limit_type_value CREDITS = ''credits''"

fun limit_window_value :: "LimitWindow \<Rightarrow> string" where
  "limit_window_value DAILY = ''daily''"
| "limit_window_value WEEKLY = ''weekly''"
| "limit_window_value MONTHLY = ''monthly''"
| "limit_window_value FIVE_HOURS = ''5h''"
| "limit_window_value SEVEN_DAYS = ''7d''"

record api_key_limit =
  lim_id :: int
  lim_api_key_id :: string
  lim_limit_type :: LimitType
  lim_limit_window :: LimitWindow
  lim_max_value :: int
  lim_current_value :: int
  lim_model_filter :: "string option"
  lim_reset_at :: real

record api_key =
  ak_id :: string
  ak_key_hash :: string
  ak_expires_at :: "real option"
  ak_is_active :: bool
  ak_last_used_at :: "real option"

datatype reservation_status = Reserved | Settling | Released | Finalized | Failed

record reservation_item =
  ri_limit_id :: int
  ri_limit_type :: LimitType
  ri_reserved_delta :: int
  ri_expected_reset_at :: real
  ri_actual_delta :: "int option"

record usage_reservation =
  ur_id :: string
  ur_api_key_id :: string
  ur_model :: string
  ur_status :: reservation_status
  ur_items :: "reservation_item list"
  ur_input_tokens :: "int option"
  ur_output_tokens :: "int option"
  ur_cached_input_tokens :: "int option"
  ur_cost_microdollars :: "int option"
  ur_updated_at :: real

record key_store =
  ks_keys :: "api_key list"
  ks_limits :: "api_key_limit list"
  ks_reservations :: "usage_reservation list"

section \<open>Windows\<close>

text \<open>\<open>limit_windows.py\<close>\<close>

fun limit_window_delta :: "LimitWindow \<Rightarrow> real" where
  "limit_window_delta FIVE_HOURS = 5 * 3600"
| "limit_window_delta SEVEN_DAYS = 7 * 86400"
| "limit_window_delta DAILY = 86400"
| "limit_window_delta WEEKLY = 7 * 86400"
| "limit_window_delta MONTHLY = 30 * 86400"

definition next_limit_reset :: "real \<Rightarrow> LimitWindow \<Rightarrow> real" where
  "next_limit_reset now window = now + limit_window_delta window"

lemma limit_window_delta_ge: "1 \<le> limit_window_delta window"
  by (cases window) simp_all

function advance_limit_reset :: "real \<Rightarrow> real \<Rightarrow> LimitWindow \<Rightarrow> real" where
  "advance_limit_reset next_reset now window =
     (if next_reset \<le> now then advance_limit_reset (next_reset + limit_window_delta window) now window
      else next_reset)"
  by pat_completeness auto

termination
proof (relation "measure (\<lambda>(next_reset, now, window). nat (\<lfloor>now - next_reset\<rfloor> + 1))")
  fix next_reset now :: real and window
  assume le: "next_reset \<le> now"
  have "\<lfloor>now - (next_reset + limit_window_delta window)\<rfloor> \<le> \<lfloor>now - next_reset\<rfloor> - 1"
    using limit_window_delta_ge[of window] by linarith
  moreover have "0 \<le> \<lfloor>now - next_reset\<rfloor>" using le by simp
  ultimately show "((next_reset + limit_window_delta window, now, window), next_reset, now, window)
      \<in> measure (\<lambda>(next_reset, now, window). nat (\<lfloor>now - next_reset\<rfloor> + 1))"
    by simp
qed simp

declare advance_limit_reset.simps [simp del]

section \<open>Statements on limits\<close>

definition limits_of :: "string \<Rightarrow> key_store \<Rightarrow> api_key_limit list" where
  "limits_of key_id ks = filter (\<lambda>l. lim_api_key_id l = key_id) (ks_limits ks)"

definition reset_limit :: "int \<Rightarrow> real \<Rightarrow> real \<Rightarrow> key_store \<Rightarrow> key_store \<times> bool" where
  "reset_limit limit_id expected_reset_at new_reset_at ks =
     (let P = (\<lambda>l. lim_id l = limit_id \<and> lim_reset_at l = expected_reset_at)
      in (ks\<lparr>ks_limits := update_rows P (\<lambda>l. l\<lparr>lim_current_value := 0, lim_reset_at := new_reset_at\<rparr>) (ks_limits ks)\<rparr>,
          any_row P (ks_limits ks)))"

definition add_usage :: "int \<Rightarrow> api_key_limit \<Rightarrow> api_key_limit" where
  "add_usage delta l = l\<lparr>lim_current_value := lim_current_value l + delta\<rparr>"

definition try_reserve_usage :: "int \<Rightarrow> int \<Rightarrow> real \<Rightarrow> key_store \<Rightarrow> key_store \<times> bool" where
  "try_reserve_usage limit_id delta expected_reset_at ks =
     (let P = (\<lambda>l. lim_id l = limit_id \<and> lim_reset_at l = expected_reset_at \<and>
                   lim_current_value l + delta \<le> lim_max_value l)
      in if delta \<le> 0 then (ks, True)
         else (ks\<lparr>ks_limits := update_rows P (add_usage delta) (ks_limits ks)\<rparr>, any_row P (ks_limits ks)))"

definition adjust_reserved_usage :: "int \<Rightarrow> int \<Rightarrow> real \<Rightarrow> key_store \<Rightarrow> key_store \<times> bool" where
  "adjust_reserved_usage limit_id delta expected_reset_at ks =
     (let P = (\<lambda>l. lim_id l = limit_id \<and> lim_reset_at l = expected_reset_at \<and>
                   (delta < 0 \<longrightarrow> lim_current_value l \<ge> - delta))
      in (ks\<lparr>ks_limits := update_rows P (add_usage delta) (ks_limits ks)\<rparr>, any_row P (ks_limits ks)))"

definition compute_increment :: "LimitType \<Rightarrow> int \<Rightarrow> int \<Rightarrow> int \<Rightarrow> int" where
  "compute_increment limit_type input_tokens output_tokens cost_microdollars =
     (case limit_type of
        TOTAL_TOKENS \<Rightarrow> input_tokens + output_tokens
      | INPUT_TOKENS \<Rightarrow> input_tokens
      | OUTPUT_TOKENS \<Rightarrow> output_tokens
      | COST_USD \<Rightarrow> cost_microdollars
      | CREDITS \<Rightarrow> 0)"

definition update_last_used :: "real \<Rightarrow> string \<Rightarrow> key_store \<Rightarrow> key_store" where
  "update_last_used now key_id ks =
     ks\<lparr>ks_keys := update_rows (\<lambda>k. ak_id k = key_id) (\<lambda>k. k\<lparr>ak_last_used_at := Some now\<rparr>) (ks_keys ks)\<rparr>"

definition increment_limit_usage :: "real \<Rightarrow> string \<Rightarrow> string \<Rightarrow> int \<Rightarrow> int \<Rightarrow> int \<Rightarrow> key_store \<Rightarrow> key_store" where
  "increment_limit_usage now key_id model input_tokens output_tokens cost_microdollars ks =
     (let bump = (\<lambda>limit limits.
            let increment = compute_increment (lim_limit_type limit) input_tokens output_tokens cost_microdollars
            in if lim_model_filter limit \<noteq> None \<and> lim_model_filter limit \<noteq> Some model then limits
               else if increment > 0 then update_rows (\<lambda>l. lim_id l = lim_id limit) (add_usage increment) limits
               else limits)
      in update_last_used now key_id (ks\<lparr>ks_limits := fold bump (limits_of key_id ks) (ks_limits ks)\<rparr>))"

section \<open>Statements on reservations\<close>

definition get_usage_reservation :: "string \<Rightarrow> key_store \<Rightarrow> usage_reservation option" where
  "get_usage_reservation reservation_id ks = find (\<lambda>r. ur_id r = reservation_id) (ks_reservations ks)"

text \<open>A second row under the same id violates the primary key, two items of one limit the unique constraint.\<close>

definition create_usage_reservation ::
  "real \<Rightarrow> string \<Rightarrow> string \<Rightarrow> string \<Rightarrow> reservation_item list \<Rightarrow> key_store \<Rightarrow> py_error + key_store" where
  "create_usage_reservation now reservation_id key_id model items ks =
     (if any_row (\<lambda>r. ur_id r = reservation_id) (ks_reservations ks) \<or> \<not> distinct (map ri_limit_id items)
      then Inl IntegrityError
      else Inr (ks\<lparr>ks_reservations := ks_reservations ks @
             [\<lparr>ur_id = reservation_id, ur_api_key_id = key_id, ur_model = model, ur_status = Reserved, ur_items = items,
               ur_input_tokens = None, ur_output_tokens = None, ur_cached_input_tokens = None,
               ur_cost_microdollars = None, ur_updated_at = now\<rparr>]\<rparr>))"

definition transition_usage_reservation_status ::
  "real \<Rightarrow> string \<Rightarrow> reservation_status \<Rightarrow> reservation_status \<Rightarrow> key_store \<Rightarrow> key_store \<times> bool" where
  "transition_usage_reservation_status now reservation_id expected_status new_status ks =
     (let P = (\<lambda>r. ur_id r = reservation_id \<and> ur_status r = expected_status)
      in (ks\<lparr>ks_reservations := update_rows P (\<lambda>r. r\<lparr>ur_status := new_status, ur_updated_at := now\<rparr>) (ks_reservations ks)\<rparr>,
          any_row P (ks_reservations ks)))"

definition upsert_item :: "reservation_item \<Rightarrow> int \<Rightarrow> reservation_item list \<Rightarrow> reservation_item list" where
  "upsert_item item actual_delta items =
     (if any_row (\<lambda>i. ri_limit_id i = ri_limit_id item) items
      then update_rows (\<lambda>i. ri_limit_id i = ri_limit_id item) (\<lambda>i. i\<lparr>ri_actual_delta := Some actual_delta\<rparr>) items
      else items @ [item\<lparr>ri_actual_delta := Some actual_delta\<rparr>])"

definition upsert_reservation_item_actual :: "string \<Rightarrow> reservation_item \<Rightarrow> int \<Rightarrow> key_store \<Rightarrow> key_store" where
  "upsert_reservation_item_actual reservation_id item actual_delta ks =
     ks\<lparr>ks_reservations := update_rows (\<lambda>r. ur_id r = reservation_id)
          (\<lambda>r. r\<lparr>ur_items := upsert_item item actual_delta (ur_items r)\<rparr>) (ks_reservations ks)\<rparr>"

definition settle_reservation_row ::
  "real \<Rightarrow> string \<Rightarrow> reservation_status \<Rightarrow> int option \<Rightarrow> int option \<Rightarrow> int option \<Rightarrow> int option \<Rightarrow> key_store \<Rightarrow> key_store" where
  "settle_reservation_row now reservation_id status input_tokens output_tokens cached_input_tokens cost_microdollars ks =
     ks\<lparr>ks_reservations := update_rows (\<lambda>r. ur_id r = reservation_id)
          (\<lambda>r. r\<lparr>ur_status := status, ur_input_tokens := input_tokens, ur_output_tokens := output_tokens,
                 ur_cached_input_tokens := cached_input_tokens, ur_cost_microdollars := cost_microdollars,
                 ur_updated_at := now\<rparr>) (ks_reservations ks)\<rparr>"

definition touch_usage_reservation :: "real \<Rightarrow> string \<Rightarrow> key_store \<Rightarrow> key_store \<times> bool" where
  "touch_usage_reservation now reservation_id ks =
     transition_usage_reservation_status now reservation_id Reserved Reserved ks"

section \<open>Admission\<close>

datatype api_key_error =
    ApiKeyInvalidError string
  | ApiKeyRateLimitExceededError string real
  | DatabaseError py_error

abbreviation (input) MAX_TOKEN_BUDGET :: int where "MAX_TOKEN_BUDGET \<equiv> 8192"
abbreviation (input) DEFAULT_INPUT_TOKENS :: int where "DEFAULT_INPUT_TOKENS \<equiv> 8192"
abbreviation (input) DEFAULT_OUTPUT_TOKENS :: int where "DEFAULT_OUTPUT_TOKENS \<equiv> 2048"
abbreviation (input) UNKNOWN_MODEL_MICRODOLLARS :: real where "UNKNOWN_MODEL_MICRODOLLARS \<equiv> 2000000"
abbreviation (input) UNKNOWN_MODEL_BASE_TOKENS :: real where "UNKNOWN_MODEL_BASE_TOKENS \<equiv> 16384"

definition ensure_valid_api_key_row :: "api_key option \<Rightarrow> api_key_error + api_key" where
  "ensure_valid_api_key_row row =
     (case row of
        None \<Rightarrow> Inl (ApiKeyInvalidError ''Invalid API key'')
      | Some k \<Rightarrow> if ak_is_active k then Inr k else Inl (ApiKeyInvalidError ''Invalid API key''))"

definition check_unexpired :: "real \<Rightarrow> api_key \<Rightarrow> api_key_error + api_key" where
  "check_unexpired now k =
     (case ak_expires_at k of
        None \<Rightarrow> Inr k
      | Some e \<Rightarrow> if e < now then Inl (ApiKeyInvalidError ''API key has expired'') else Inr k)"

definition lazy_reset_one :: "real \<Rightarrow> api_key_limit \<Rightarrow> key_store \<Rightarrow> key_store" where
  "lazy_reset_one now limit ks =
     (if lim_reset_at limit \<ge> now then ks
      else fst (reset_limit (lim_id limit) (lim_reset_at limit)
                  (advance_limit_reset (lim_reset_at limit) now (lim_limit_window limit)) ks))"

definition lazy_reset_expired_limits :: "real \<Rightarrow> api_key_limit list \<Rightarrow> key_store \<Rightarrow> key_store \<times> bool" where
  "lazy_reset_expired_limits now limits ks =
     (fold (lazy_reset_one now) limits ks, list_ex (\<lambda>l. lim_reset_at l < now) limits)"

definition rate_limit_exceeded_error :: "api_key_limit \<Rightarrow> api_key_error" where
  "rate_limit_exceeded_error limit =
     ApiKeyRateLimitExceededError
       (''API key '' @ limit_type_value (lim_limit_type limit) @ '' '' @ limit_window_value (lim_limit_window limit) @
        '' limit exceeded'' @
        (case lim_model_filter limit of Some (c # cs) \<Rightarrow> '' for model '' @ (c # cs) | _ \<Rightarrow> []))
       (lim_reset_at limit)"

definition limit_applies_for_request :: "api_key_limit \<Rightarrow> string option \<Rightarrow> bool" where
  "limit_applies_for_request limit request_model =
     (case lim_model_filter limit of
        None \<Rightarrow> True
      | Some f \<Rightarrow> (case request_model of None \<Rightarrow> False | Some m \<Rightarrow> f = m))"

definition calculate_cost_microdollars :: "string \<Rightarrow> int \<Rightarrow> int \<Rightarrow> int \<Rightarrow> string option \<Rightarrow> int" where
  "calculate_cost_microdollars model input_tokens output_tokens cached_input_tokens service_tier =
     (case get_pricing_for_model model None None of
        None \<Rightarrow> 0
      | Some (_, price) \<Rightarrow>
          py_int (calculate_cost_from_usage
            \<lparr>ut_input_tokens = of_int input_tokens, ut_output_tokens = of_int output_tokens,
             ut_cached_input_tokens = of_int cached_input_tokens\<rparr> price service_tier * 1000000))"

definition unknown_model_reserve_cost_budget_microdollars :: "int \<Rightarrow> int \<Rightarrow> int" where
  "unknown_model_reserve_cost_budget_microdollars input_tokens output_tokens =
     (let token_budget = max 0 input_tokens + max 0 output_tokens
      in if token_budget \<le> 0 then 0
         else \<lceil>UNKNOWN_MODEL_MICRODOLLARS * of_int token_budget / UNKNOWN_MODEL_BASE_TOKENS\<rceil>)"

definition reserve_cost_budget_microdollars :: "string option \<Rightarrow> string option \<Rightarrow> int \<Rightarrow> int \<Rightarrow> int" where
  "reserve_cost_budget_microdollars model service_tier input_tokens output_tokens =
     (case model of
        Some (c # cs) \<Rightarrow>
          let cost = calculate_cost_microdollars (c # cs) input_tokens output_tokens 0 service_tier
          in if cost > 0 then cost else unknown_model_reserve_cost_budget_microdollars input_tokens output_tokens
      | _ \<Rightarrow> unknown_model_reserve_cost_budget_microdollars input_tokens output_tokens)"

text \<open>A request budget is a pair of optional token counts; after normalisation both are given.\<close>

definition normalize_reservation_token_budget :: "int option \<Rightarrow> int \<Rightarrow> int" where
  "normalize_reservation_token_budget value dflt =
     (case value of None \<Rightarrow> dflt | Some v \<Rightarrow> max 0 (min v MAX_TOKEN_BUDGET))"

definition normalize_request_usage_budget :: "(int option \<times> int option) option \<Rightarrow> int \<times> int" where
  "normalize_request_usage_budget budget =
     (case budget of
        None \<Rightarrow> (DEFAULT_INPUT_TOKENS, DEFAULT_OUTPUT_TOKENS)
      | Some (i, out) \<Rightarrow>
          (normalize_reservation_token_budget i DEFAULT_INPUT_TOKENS,
           normalize_reservation_token_budget out DEFAULT_OUTPUT_TOKENS))"

definition reserve_budget_for_limit_type :: "LimitType \<Rightarrow> string option \<Rightarrow> string option \<Rightarrow> int \<times> int \<Rightarrow> int" where
  "reserve_budget_for_limit_type limit_type request_model request_service_tier budget =
     (case budget of (input_tokens, output_tokens) \<Rightarrow>
        case limit_type of
          TOTAL_TOKENS \<Rightarrow> input_tokens + output_tokens
        | INPUT_TOKENS \<Rightarrow> input_tokens
        | OUTPUT_TOKENS \<Rightarrow> output_tokens
        | COST_USD \<Rightarrow> reserve_cost_budget_microdollars request_model request_service_tier input_tokens output_tokens
        | CREDITS \<Rightarrow> 0)"

definition reserve_delta_for_limit :: "api_key_limit \<Rightarrow> string option \<Rightarrow> string option \<Rightarrow> int \<times> int \<Rightarrow> int" where
  "reserve_delta_for_limit limit request_model request_service_tier budget =
     (let remaining = lim_max_value limit - lim_current_value limit
      in if remaining \<le> 0 then 0
         else min remaining
                (reserve_budget_for_limit_type (lim_limit_type limit) request_model request_service_tier budget))"

text \<open>The loop over the limits as they were read; the state is that of the open transaction.\<close>

fun reserve_limits ::
  "string option \<Rightarrow> string option \<Rightarrow> int \<times> int \<Rightarrow> api_key_limit list \<Rightarrow> key_store
   \<Rightarrow> api_key_error + (key_store \<times> reservation_item list)" where
  "reserve_limits request_model request_service_tier budget [] ks = Inr (ks, [])"
| "reserve_limits request_model request_service_tier budget (limit # limits) ks =
     (if \<not> limit_applies_for_request limit request_model
      then reserve_limits request_model request_service_tier budget limits ks
      else if lim_current_value limit \<ge> lim_max_value limit then Inl (rate_limit_exceeded_error limit)
      else
        let reserve_delta = reserve_delta_for_limit limit request_model request_service_tier budget;
            (ks, success) = (if reserve_delta > 0
                             then try_reserve_usage (lim_id limit) reserve_delta (lim_reset_at limit) ks
                             else (ks, True))
        in if \<not> success then Inl (rate_limit_exceeded_error limit)
           else case reserve_limits request_model request_service_tier budget limits ks of
                  Inl err \<Rightarrow> Inl err
                | Inr (ks, items) \<Rightarrow>
                    Inr (ks, \<lparr>ri_limit_id = lim_id limit, ri_limit_type = lim_limit_type limit,
                              ri_reserved_delta = reserve_delta, ri_expected_reset_at = lim_reset_at limit,
                              ri_actual_delta = None\<rparr> # items))"

definition reserve_and_create ::
  "real \<Rightarrow> string \<Rightarrow> string \<Rightarrow> string option \<Rightarrow> string option \<Rightarrow> (int option \<times> int option) option \<Rightarrow> api_key_limit list
   \<Rightarrow> key_store \<Rightarrow> key_store \<times> (api_key_error + string)" where
  "reserve_and_create now reservation_id key_id request_model request_service_tier usage_budget limits ks =
     (case reserve_limits request_model request_service_tier (normalize_request_usage_budget usage_budget) limits ks of
        Inl err \<Rightarrow> (ks, Inl err)
      | Inr (ks', items) \<Rightarrow>
          (case create_usage_reservation now reservation_id key_id (default request_model []) items ks' of
             Inl err \<Rightarrow> (ks, Inl (DatabaseError err))
           | Inr ks'' \<Rightarrow> (ks'', Inr reservation_id)))"

definition find_key :: "(api_key \<Rightarrow> bool) \<Rightarrow> key_store \<Rightarrow> api_key option" where
  "find_key P ks = find P (ks_keys ks)"

text \<open>The checks both \<open>validate_key\<close> and \<open>enforce_limits_for_request\<close> start with.\<close>

definition open_key :: "real \<Rightarrow> (api_key \<Rightarrow> bool) \<Rightarrow> key_store \<Rightarrow> key_store \<times> (api_key_error + api_key)" where
  "open_key now P ks =
     (case ensure_valid_api_key_row (find_key P ks) of
        Inl err \<Rightarrow> (ks, Inl err)
      | Inr row \<Rightarrow>
          (case check_unexpired now row of
             Inl err \<Rightarrow> (ks, Inl err)
           | Inr row \<Rightarrow>
               let (ks, limits_reset) = lazy_reset_expired_limits now (limits_of (ak_id row) ks) ks
               in (case (if limits_reset then ensure_valid_api_key_row (find_key P ks) else Inr row) of
                     Inl err \<Rightarrow> (ks, Inl err)
                   | Inr refreshed \<Rightarrow> (ks, check_unexpired now refreshed))))"

definition validate_key ::
  "(string \<Rightarrow> string) \<Rightarrow> real \<Rightarrow> string \<Rightarrow> key_store \<Rightarrow> key_store \<times> (api_key_error + api_key)" where
  "validate_key hash_key now plain_key ks =
     (if plain_key = [] then (ks, Inl (ApiKeyInvalidError ''Missing API key in Authorization header''))
      else open_key now (\<lambda>k. ak_key_hash k = hash_key plain_key) ks)"

definition enforce_limits_for_request ::
  "real \<Rightarrow> string \<Rightarrow> string \<Rightarrow> string option \<Rightarrow> string option \<Rightarrow> (int option \<times> int option) option
   \<Rightarrow> key_store \<Rightarrow> key_store \<times> (api_key_error + string)" where
  "enforce_limits_for_request now reservation_id key_id request_model request_service_tier usage_budget ks =
     (case open_key now (\<lambda>k. ak_id k = key_id) ks of
        (ks, Inl err) \<Rightarrow> (ks, Inl err)
      | (ks, Inr row) \<Rightarrow>
          reserve_and_create now reservation_id key_id request_model request_service_tier usage_budget
            (limits_of key_id ks) ks)"

section \<open>Settlement and release\<close>

definition settle_item :: "string \<Rightarrow> (reservation_item \<Rightarrow> int) \<Rightarrow> reservation_item \<Rightarrow> key_store \<Rightarrow> key_store" where
  "settle_item reservation_id actual item ks =
     (let delta = actual item - ri_reserved_delta item;
          ks = (if delta \<noteq> 0 then fst (adjust_reserved_usage (ri_limit_id item) delta (ri_expected_reset_at item) ks)
                else ks)
      in upsert_reservation_item_actual reservation_id item (actual item) ks)"

definition settle_usage_reservation ::
  "real \<Rightarrow> reservation_status \<Rightarrow> string \<Rightarrow> string \<Rightarrow> int option \<Rightarrow> int option \<Rightarrow> int option \<Rightarrow> string option
   \<Rightarrow> key_store \<Rightarrow> key_store" where
  "settle_usage_reservation now status reservation_id model input_tokens output_tokens cached_input_tokens service_tier ks =
     (case get_usage_reservation reservation_id ks of
        None \<Rightarrow> ks
      | Some reservation \<Rightarrow>
          if ur_status reservation \<noteq> Reserved then ks
          else
            let (ks', claimed) = transition_usage_reservation_status now reservation_id Reserved Settling ks;
                i = or_else input_tokens 0; out = or_else output_tokens 0; cached = or_else cached_input_tokens 0;
                cost_microdollars = calculate_cost_microdollars model i out cached service_tier;
                actual = (\<lambda>item. compute_increment (ri_limit_type item) i out cost_microdollars)
            in if \<not> claimed then ks
               else update_last_used now (ur_api_key_id reservation)
                 (settle_reservation_row now reservation_id status input_tokens output_tokens cached_input_tokens
                    (Some cost_microdollars)
                    (fold (settle_item reservation_id actual) (ur_items reservation) ks')))"

definition finalize_usage_reservation ::
  "real \<Rightarrow> string \<Rightarrow> string \<Rightarrow> int \<Rightarrow> int \<Rightarrow> int \<Rightarrow> string option \<Rightarrow> key_store \<Rightarrow> key_store" where
  "finalize_usage_reservation now reservation_id model input_tokens output_tokens cached_input_tokens service_tier =
     settle_usage_reservation now Finalized reservation_id model (Some input_tokens) (Some output_tokens)
       (Some cached_input_tokens) service_tier"

definition fail_usage_reservation ::
  "real \<Rightarrow> string \<Rightarrow> string \<Rightarrow> int option \<Rightarrow> int option \<Rightarrow> int option \<Rightarrow> string option \<Rightarrow> key_store \<Rightarrow> key_store" where
  "fail_usage_reservation now reservation_id model input_tokens output_tokens cached_input_tokens service_tier =
     settle_usage_reservation now Failed reservation_id model input_tokens output_tokens cached_input_tokens service_tier"

definition release_item :: "string \<Rightarrow> reservation_item \<Rightarrow> key_store \<Rightarrow> key_store" where
  "release_item reservation_id item ks =
     upsert_reservation_item_actual reservation_id item 0
       (fst (adjust_reserved_usage (ri_limit_id item) (- ri_reserved_delta item) (ri_expected_reset_at item) ks))"

definition release_usage_reservation :: "real \<Rightarrow> string \<Rightarrow> key_store \<Rightarrow> key_store" where
  "release_usage_reservation now reservation_id ks =
     (case get_usage_reservation reservation_id ks of
        None \<Rightarrow> ks
      | Some reservation \<Rightarrow>
          if ur_status reservation \<noteq> Reserved then ks
          else
            let (ks', claimed) = transition_usage_reservation_status now reservation_id Reserved Released ks
            in if \<not> claimed then ks
               else settle_reservation_row now reservation_id Released None None None None
                      (fold (release_item reservation_id) (ur_items reservation) ks'))"

definition record_usage :: "real \<Rightarrow> string \<Rightarrow> string \<Rightarrow> int \<Rightarrow> int \<Rightarrow> int \<Rightarrow> string option \<Rightarrow> key_store \<Rightarrow> key_store" where
  "record_usage now key_id model input_tokens output_tokens cached_input_tokens service_tier =
     increment_limit_usage now key_id model input_tokens output_tokens
       (calculate_cost_microdollars model input_tokens output_tokens cached_input_tokens service_tier)"

section \<open>The background job\<close>

text \<open>\<open>ApiKeyLimitResetScheduler._reset_once\<close>: on the elected leader, expired windows first, then abandoned reservations, in batches.\<close>

abbreviation (input) EXPIRED_LIMIT_RESET_BATCH_SIZE :: nat where "EXPIRED_LIMIT_RESET_BATCH_SIZE \<equiv> 500"

definition expired_batch :: "real \<Rightarrow> key_store \<Rightarrow> api_key_limit list" where
  "expired_batch now ks =
     take EXPIRED_LIMIT_RESET_BATCH_SIZE
       (sort_key lim_reset_at (sort_key lim_id (filter (\<lambda>l. lim_reset_at l < now) (ks_limits ks))))"

definition reset_expired_one :: "real \<Rightarrow> api_key_limit \<Rightarrow> key_store \<times> nat \<Rightarrow> key_store \<times> nat" where
  "reset_expired_one now limit run =
     (case run of (ks, reset_count) \<Rightarrow>
        let (ks, done) = reset_limit (lim_id limit) (lim_reset_at limit)
              (advance_limit_reset (lim_reset_at limit) now (lim_limit_window limit)) ks
        in (ks, if done then Suc reset_count else reset_count))"

lemma advance_limit_reset_gt: "now < advance_limit_reset r now window"
proof (induction r now window rule: advance_limit_reset.induct)
  case (1 r now window)
  then show ?case by (subst advance_limit_reset.simps) simp
qed

lemma fst_reset_expired_one:
  "fst (reset_expired_one now limit run) =
     fst (reset_limit (lim_id limit) (lim_reset_at limit)
       (advance_limit_reset (lim_reset_at limit) now (lim_limit_window limit)) (fst run))"
  by (simp add: reset_expired_one_def split: prod.splits)

definition expired_count :: "real \<Rightarrow> key_store \<Rightarrow> nat" where
  "expired_count now ks = length (filter (\<lambda>l. lim_reset_at l < now) (ks_limits ks))"

lemma expired_count_reset_one:
  "expired_count now (fst (reset_expired_one now limit run)) \<le> expired_count now (fst run)"
  "limit \<in> set (ks_limits (fst run)) \<Longrightarrow> lim_reset_at limit < now \<Longrightarrow>
     expired_count now (fst (reset_expired_one now limit run)) < expired_count now (fst run)"
proof -
  let ?f = "\<lambda>l. l\<lparr>lim_current_value := 0,
      lim_reset_at := advance_limit_reset (lim_reset_at limit) now (lim_limit_window limit)\<rparr>"
  have no: "\<forall>l. lim_id l = lim_id limit \<and> lim_reset_at l = lim_reset_at limit \<longrightarrow> \<not> lim_reset_at (?f l) < now"
    using advance_limit_reset_gt[of now "lim_reset_at limit" "lim_limit_window limit"] by auto
  note L = length_filter_update[where P = "\<lambda>l. lim_reset_at l < now" and f = ?f
      and Q = "\<lambda>l. lim_id l = lim_id limit \<and> lim_reset_at l = lim_reset_at limit", OF no]
  show "expired_count now (fst (reset_expired_one now limit run)) \<le> expired_count now (fst run)"
    using L(1) by (simp add: fst_reset_expired_one reset_limit_def expired_count_def Let_def)
  show "expired_count now (fst (reset_expired_one now limit run)) < expired_count now (fst run)"
    if "limit \<in> set (ks_limits (fst run))" "lim_reset_at limit < now"
    using L(2)[where rows = "ks_limits (fst run)"] that
    by (auto simp: fst_reset_expired_one reset_limit_def expired_count_def Let_def)
qed

lemma expired_count_fold: "expired_count now (fst (fold (reset_expired_one now) limits run)) \<le> expired_count now (fst run)"
proof (induction limits arbitrary: run)
  case (Cons l limits)
  show ?case using Cons[of "reset_expired_one now l run"] expired_count_reset_one(1)[of now l run] by simp
qed simp

lemma expired_batch_progress:
  assumes "expired_batch now ks \<noteq> []"
  shows "expired_count now (fst (fold (reset_expired_one now) (expired_batch now ks) (ks, n))) < expired_count now ks"
proof -
  obtain l ls where b: "expired_batch now ks = l # ls" using assms by (cases "expired_batch now ks") auto
  have "l \<in> set (expired_batch now ks)" by (simp add: b)
  then have l: "l \<in> set (ks_limits ks)" "lim_reset_at l < now"
    by (auto simp: expired_batch_def dest: in_set_takeD)
  have "expired_count now (fst (reset_expired_one now l (ks, n))) < expired_count now ks"
    using expired_count_reset_one(2)[of l "(ks, n)" now] l by simp
  then show ?thesis
    using expired_count_fold[of now ls "reset_expired_one now l (ks, n)"] by (simp add: b)
qed

function reset_expired_limits :: "real \<Rightarrow> nat \<Rightarrow> key_store \<Rightarrow> key_store \<times> nat" where
  "reset_expired_limits now reset_count ks =
     (let expired = expired_batch now ks
      in if expired = [] then (ks, reset_count)
         else let run = fold (reset_expired_one now) expired (ks, reset_count)
              in reset_expired_limits now (snd run) (fst run))"
  by pat_completeness auto

termination
  by (relation "measure (\<lambda>(now, n, ks). expired_count now ks)") (simp_all add: expired_batch_progress)

declare reset_expired_limits.simps [simp del]

definition stale_reserved :: "real \<Rightarrow> usage_reservation \<Rightarrow> bool" where
  "stale_reserved cutoff r = (ur_status r = Reserved \<and> ur_updated_at r < cutoff)"

definition stale_batch :: "nat \<Rightarrow> real \<Rightarrow> key_store \<Rightarrow> usage_reservation list" where
  "stale_batch batch_size cutoff ks =
     take batch_size (sort_key ur_updated_at (filter (stale_reserved cutoff) (ks_reservations ks)))"

definition release_stale_one :: "real \<Rightarrow> real \<Rightarrow> usage_reservation \<Rightarrow> key_store \<times> nat \<Rightarrow> key_store \<times> nat" where
  "release_stale_one now cutoff reservation run =
     (case run of (ks, released_count) \<Rightarrow>
        let P = (\<lambda>r. ur_id r = ur_id reservation \<and> stale_reserved cutoff r)
        in if \<not> any_row P (ks_reservations ks) then (ks, released_count)
           else (fold (release_item (ur_id reservation)) (ur_items reservation)
                   (ks\<lparr>ks_reservations := update_rows P
                        (\<lambda>r. r\<lparr>ur_status := Released, ur_input_tokens := None, ur_output_tokens := None,
                               ur_cached_input_tokens := None, ur_cost_microdollars := None, ur_updated_at := now\<rparr>)
                        (ks_reservations ks)\<rparr>),
                 Suc released_count))"

definition stale_count :: "real \<Rightarrow> key_store \<Rightarrow> nat" where
  "stale_count cutoff ks = length (filter (stale_reserved cutoff) (ks_reservations ks))"

lemma stale_count_release_item: "stale_count cutoff (release_item rid item ks) = stale_count cutoff ks"
  unfolding stale_count_def release_item_def upsert_reservation_item_actual_def adjust_reserved_usage_def
    update_rows_def Let_def filter_map length_map
  by (auto intro!: arg_cong[where f = length] filter_cong simp: stale_reserved_def split: if_splits)

lemma stale_count_release_items: "stale_count cutoff (fold (release_item rid) items ks) = stale_count cutoff ks"
  by (induction items arbitrary: ks) (simp_all add: stale_count_release_item)

lemma stale_count_release_one:
  "stale_count cutoff (fst (release_stale_one now cutoff r run)) \<le> stale_count cutoff (fst run)"
  "r \<in> set (ks_reservations (fst run)) \<Longrightarrow> stale_reserved cutoff r \<Longrightarrow>
     stale_count cutoff (fst (release_stale_one now cutoff r run)) < stale_count cutoff (fst run)"
proof -
  let ?Q = "\<lambda>q. ur_id q = ur_id r \<and> stale_reserved cutoff q"
  let ?f = "\<lambda>q. q\<lparr>ur_status := Released, ur_input_tokens := None, ur_output_tokens := None,
      ur_cached_input_tokens := None, ur_cost_microdollars := None, ur_updated_at := now\<rparr>"
  have no: "\<forall>q. ?Q q \<longrightarrow> \<not> stale_reserved cutoff (?f q)" by (simp add: stale_reserved_def)
  note L = length_filter_update[where P = "stale_reserved cutoff" and f = ?f and Q = ?Q, OF no]
  have eq: "stale_count cutoff (fst (release_stale_one now cutoff r run)) =
      (if any_row ?Q (ks_reservations (fst run))
       then length (filter (stale_reserved cutoff) (update_rows ?Q ?f (ks_reservations (fst run))))
       else stale_count cutoff (fst run))"
    by (cases run) (simp add: release_stale_one_def stale_count_release_items Let_def, simp add: stale_count_def)
  show "stale_count cutoff (fst (release_stale_one now cutoff r run)) \<le> stale_count cutoff (fst run)"
    unfolding eq using L(1)[where rows = "ks_reservations (fst run)"] by (simp add: stale_count_def)
  show "stale_count cutoff (fst (release_stale_one now cutoff r run)) < stale_count cutoff (fst run)"
    if "r \<in> set (ks_reservations (fst run))" "stale_reserved cutoff r"
  proof -
    have ex: "\<exists>q \<in> set (ks_reservations (fst run)). stale_reserved cutoff q \<and> ?Q q" using that by blast
    then have "any_row ?Q (ks_reservations (fst run))" by (auto simp: any_row_def list_ex_iff)
    then show ?thesis unfolding eq using L(2)[OF ex] by (simp add: stale_count_def)
  qed
qed

lemma stale_count_fold: "stale_count cutoff (fst (fold (release_stale_one now cutoff) rs run)) \<le> stale_count cutoff (fst run)"
proof (induction rs arbitrary: run)
  case (Cons r rs)
  show ?case
    using Cons[of "release_stale_one now cutoff r run"] stale_count_release_one(1)[of cutoff now r run] by simp
qed simp

lemma stale_batch_progress:
  assumes "stale_batch batch_size cutoff ks \<noteq> []"
  shows "stale_count cutoff (fst (fold (release_stale_one now cutoff) (stale_batch batch_size cutoff ks) (ks, n)))
    < stale_count cutoff ks"
proof -
  obtain r rs where b: "stale_batch batch_size cutoff ks = r # rs" using assms by (cases "stale_batch batch_size cutoff ks") auto
  have "r \<in> set (stale_batch batch_size cutoff ks)" by (simp add: b)
  then have r: "r \<in> set (ks_reservations ks)" "stale_reserved cutoff r"
    by (auto simp: stale_batch_def dest: in_set_takeD)
  have "stale_count cutoff (fst (release_stale_one now cutoff r (ks, n))) < stale_count cutoff ks"
    using stale_count_release_one(2)[of r "(ks, n)" cutoff now] r by simp
  then show ?thesis
    using stale_count_fold[of cutoff now rs "release_stale_one now cutoff r (ks, n)"] by (simp add: b)
qed

function release_stale_usage_reservations :: "real \<Rightarrow> nat \<Rightarrow> real \<Rightarrow> nat \<Rightarrow> key_store \<Rightarrow> key_store \<times> nat" where
  "release_stale_usage_reservations now batch_size cutoff released_count ks =
     (let batch = stale_batch batch_size cutoff ks
      in if batch = [] then (ks, released_count)
         else let run = fold (release_stale_one now cutoff) batch (ks, released_count)
              in release_stale_usage_reservations now batch_size cutoff (snd run) (fst run))"
  by pat_completeness auto

termination
  by (relation "measure (\<lambda>(now, batch_size, cutoff, n, ks). stale_count cutoff ks)") (simp_all add: stale_batch_progress)

declare release_stale_usage_reservations.simps [simp del]

abbreviation (input) STALE_USAGE_RESERVATION_AGE :: real where "STALE_USAGE_RESERVATION_AGE \<equiv> 6 * 3600"

definition reset_once :: "bool \<Rightarrow> real \<Rightarrow> key_store \<Rightarrow> key_store" where
  "reset_once leader now ks =
     (if \<not> leader then ks
      else fst (release_stale_usage_reservations now 500 (now - STALE_USAGE_RESERVATION_AGE) 0
                  (fst (reset_expired_limits now 0 ks))))"

end
