(* ===== verification/Ledger.thy ===== *)
theory Ledger
  imports Api_Keys
begin

text \<open>
  The books of the API key limits (\<open>Api_Keys\<close>): the counter of a limit is, at every commit, exactly what
  the reservations of its current window account for. The abstract specification is the ledger, the sum
  over the reservation rows; the counters refine it under every operation.
\<close>

section \<open>The ledger\<close>

text \<open>What an item of a reservation stands for: its estimate while reserved, the real usage afterwards.\<close>

definition contribution :: "usage_reservation \<Rightarrow> reservation_item \<Rightarrow> int" where
  "contribution r i = (if ur_status r = Reserved then ri_reserved_delta i else default (ri_actual_delta i) 0)"

definition item_for :: "int \<Rightarrow> real \<Rightarrow> reservation_item list \<Rightarrow> reservation_item option" where
  "item_for x t items = find (\<lambda>i. ri_limit_id i = x \<and> ri_expected_reset_at i = t) items"

definition charge :: "usage_reservation \<Rightarrow> int \<Rightarrow> real \<Rightarrow> int" where
  "charge r x t = (case item_for x t (ur_items r) of None \<Rightarrow> 0 | Some i \<Rightarrow> contribution r i)"

definition ledger :: "usage_reservation list \<Rightarrow> int \<Rightarrow> real \<Rightarrow> int" where
  "ledger rs x t = sum_list (map (\<lambda>r. charge r x t) rs)"

definition reservation_ok :: "usage_reservation \<Rightarrow> bool" where
  "reservation_ok r \<longleftrightarrow> distinct (map ri_limit_id (ur_items r)) \<and>
     (\<forall>i \<in> set (ur_items r). 0 \<le> ri_reserved_delta i \<and> 0 \<le> default (ri_actual_delta i) 0)"

text \<open>No item belongs to a window later than the current one of its limit.\<close>

definition items_past :: "api_key_limit list \<Rightarrow> reservation_item list \<Rightarrow> bool" where
  "items_past limits items \<longleftrightarrow>
     (\<forall>i \<in> set items. \<forall>l \<in> set limits. lim_id l = ri_limit_id i \<longrightarrow> ri_expected_reset_at i \<le> lim_reset_at l)"

definition books_ok :: "key_store \<Rightarrow> bool" where
  "books_ok ks \<longleftrightarrow>
     distinct (map lim_id (ks_limits ks)) \<and> distinct (map ur_id (ks_reservations ks)) \<and>
     (\<forall>r \<in> set (ks_reservations ks). reservation_ok r \<and> items_past (ks_limits ks) (ur_items r)) \<and>
     (\<forall>l \<in> set (ks_limits ks). lim_current_value l = ledger (ks_reservations ks) (lim_id l) (lim_reset_at l))"

lemma item_for_Some: "item_for x t items = Some i \<Longrightarrow> i \<in> set items \<and> ri_limit_id i = x \<and> ri_expected_reset_at i = t"
  unfolding item_for_def find_Some_iff by (metis nth_mem)

lemma item_for_None: "item_for x t items = None \<longleftrightarrow> (\<forall>i \<in> set items. \<not> (ri_limit_id i = x \<and> ri_expected_reset_at i = t))"
  by (auto simp: item_for_def find_None_iff)

lemma item_for_Cons:
  "item_for x t (i # items) = (if ri_limit_id i = x \<and> ri_expected_reset_at i = t then Some i else item_for x t items)"
  by (simp add: item_for_def)

lemma item_for_map:
  assumes "\<And>i. ri_limit_id (f i) = ri_limit_id i" and "\<And>i. ri_expected_reset_at (f i) = ri_expected_reset_at i"
  shows "item_for x t (map f items) = map_option f (item_for x t items)"
  by (induction items) (simp_all add: item_for_def assms)

lemma charge_nonneg: "reservation_ok r \<Longrightarrow> 0 \<le> charge r x t"
  by (auto simp: charge_def contribution_def reservation_ok_def split: option.split dest: item_for_Some)

lemma ledger_ge_charge:
  assumes "\<forall>r \<in> set rs. reservation_ok r" and "r \<in> set rs"
  shows "charge r x t \<le> ledger rs x t"
  unfolding ledger_def using assms charge_nonneg
  by (intro member_le_sum_list) auto

lemma ledger_nonneg: "\<forall>r \<in> set rs. reservation_ok r \<Longrightarrow> 0 \<le> ledger rs x t"
  unfolding ledger_def using charge_nonneg by (auto intro!: sum_list_nonneg)

lemma ledger_replace:
  assumes "distinct (map ur_id rs)" and "r \<in> set rs" and "ur_id r' = ur_id r"
  shows "ledger (map (\<lambda>q. if ur_id q = ur_id r then r' else q) rs) x t = ledger rs x t - charge r x t + charge r' x t"
  using assms
proof (induction rs)
  case (Cons q rs)
  have same: "map (\<lambda>q. if ur_id q = ur_id r then r' else q) rs = rs" if "ur_id r \<notin> ur_id ` set rs"
    using that by (intro map_idI) (auto simp: image_iff)
  show ?case
  proof (cases "q = r")
    case True
    then have "ur_id r \<notin> ur_id ` set rs" using Cons.prems(1) by simp
    then show ?thesis using True same by (simp add: ledger_def)
  next
    case False
    then have "r \<in> set rs" "ur_id q \<noteq> ur_id r" using Cons.prems by (auto simp: image_iff)
    then show ?thesis using Cons by (simp add: ledger_def)
  qed
qed simp

lemma ledger_append: "ledger (rs @ [r]) x t = ledger rs x t + charge r x t"
  by (simp add: ledger_def)

lemma ledger_future:
  assumes "\<forall>r \<in> set rs. items_past limits (ur_items r)" and "l \<in> set limits" and "lim_reset_at l < t"
  shows "ledger rs (lim_id l) t = 0"
proof -
  have "charge r (lim_id l) t = 0" if "r \<in> set rs" for r
  proof -
    have "item_for (lim_id l) t (ur_items r) = None"
      using assms that by (force simp: item_for_None items_past_def)
    then show ?thesis by (simp add: charge_def)
  qed
  then have "map (\<lambda>r. charge r (lim_id l) t) rs = map (\<lambda>_. 0) rs" by simp
  then show ?thesis unfolding ledger_def by (simp only: sum_list_0)
qed

section \<open>Settling a reservation\<close>

definition adjust_row :: "(reservation_item \<Rightarrow> int) \<Rightarrow> reservation_item \<Rightarrow> api_key_limit \<Rightarrow> api_key_limit" where
  "adjust_row actual i l =
     (let delta = actual i - ri_reserved_delta i
      in if lim_id l = ri_limit_id i \<and> lim_reset_at l = ri_expected_reset_at i \<and> (delta < 0 \<longrightarrow> - delta \<le> lim_current_value l)
         then add_usage delta l else l)"

definition with_actual :: "(reservation_item \<Rightarrow> int) \<Rightarrow> reservation_item \<Rightarrow> reservation_item" where
  "with_actual actual i = i\<lparr>ri_actual_delta := Some (actual i)\<rparr>"

lemma add_usage_simps [simp]:
  "lim_id (add_usage d l) = lim_id l" "lim_reset_at (add_usage d l) = lim_reset_at l"
  "lim_current_value (add_usage d l) = lim_current_value l + d" "lim_max_value (add_usage d l) = lim_max_value l"
  "add_usage 0 l = l"
  by (simp_all add: add_usage_def)

lemma adjust_row_keeps [simp]: "lim_id (adjust_row actual i l) = lim_id l" "lim_reset_at (adjust_row actual i l) = lim_reset_at l"
  by (simp_all add: adjust_row_def Let_def)

lemma settle_item_eq:
  "settle_item rid actual i ks =
     ks\<lparr>ks_limits := map (adjust_row actual i) (ks_limits ks),
        ks_reservations := update_rows (\<lambda>r. ur_id r = rid)
          (\<lambda>r. r\<lparr>ur_items := upsert_item i (actual i) (ur_items r)\<rparr>) (ks_reservations ks)\<rparr>"
proof (cases "actual i = ri_reserved_delta i")
  case True
  then have "adjust_row actual i = id" by (auto simp: adjust_row_def fun_eq_iff)
  with True show ?thesis by (simp add: settle_item_def upsert_reservation_item_actual_def)
next
  case False
  have "update_rows (\<lambda>l. lim_id l = ri_limit_id i \<and> lim_reset_at l = ri_expected_reset_at i \<and>
      (actual i - ri_reserved_delta i < 0 \<longrightarrow> lim_current_value l \<ge> - (actual i - ri_reserved_delta i)))
      (add_usage (actual i - ri_reserved_delta i)) ls = map (adjust_row actual i) ls" for ls
    by (simp add: update_rows_def adjust_row_def Let_def)
  with False show ?thesis
    by (simp add: settle_item_def upsert_reservation_item_actual_def adjust_reserved_usage_def Let_def)
qed

lemma release_item_eq: "release_item rid = settle_item rid (\<lambda>_. 0)"
proof (intro ext)
  fix i :: reservation_item and ks
  have "adjust_reserved_usage (ri_limit_id i) 0 (ri_expected_reset_at i) ks =
      (ks, any_row (\<lambda>l. lim_id l = ri_limit_id i \<and> lim_reset_at l = ri_expected_reset_at i) (ks_limits ks))"
    by (simp add: adjust_reserved_usage_def update_rows_def Let_def map_idI)
  then show "release_item rid i ks = settle_item rid (\<lambda>_. 0) i ks"
    by (simp add: release_item_def settle_item_def Let_def)
qed

lemma fold_settle_item:
  "fold (settle_item rid actual) items ks =
     ks\<lparr>ks_limits := map (\<lambda>l. fold (adjust_row actual) items l) (ks_limits ks),
        ks_reservations := update_rows (\<lambda>r. ur_id r = rid)
          (\<lambda>r. r\<lparr>ur_items := fold (\<lambda>i. upsert_item i (actual i)) items (ur_items r)\<rparr>) (ks_reservations ks)\<rparr>"
proof (induction items arbitrary: ks)
  case Nil
  then show ?case by (simp add: update_rows_def map_idI)
next
  case (Cons i items)
  then show ?case by (simp add: settle_item_eq comp_def) (simp add: update_rows_twice)
qed

lemma fold_upsert_items:
  assumes "distinct (map ri_limit_id (pre @ items))"
  shows "fold (\<lambda>i. upsert_item i (actual i)) items (map (with_actual actual) pre @ items) =
         map (with_actual actual) (pre @ items)"
  using assms
proof (induction items arbitrary: pre)
  case (Cons i items)
  have away: "update_rows (\<lambda>j. ri_limit_id j = ri_limit_id i) f js = js" if "ri_limit_id i \<notin> ri_limit_id ` set js" for f js
    using that by (auto simp: update_rows_def image_iff intro!: map_idI)
  have ids: "ri_limit_id ` set (map (with_actual actual) js) = ri_limit_id ` set js" for js
    by (auto simp: with_actual_def image_iff)
  have "upsert_item i (actual i) (map (with_actual actual) pre @ i # items) = map (with_actual actual) (pre @ [i]) @ items"
    using Cons.prems away[of "map (with_actual actual) pre"] away[of items] ids[of pre]
    by (simp add: upsert_item_def any_row_def update_rows_def with_actual_def)
  with Cons.IH[of "pre @ [i]"] Cons.prems show ?case by simp
qed simp

lemma fold_adjust_skip: "lim_id l \<notin> ri_limit_id ` set items \<Longrightarrow> fold (adjust_row actual) items l = l"
  by (induction items) (auto simp: adjust_row_def Let_def)

lemma fold_adjust:
  assumes "distinct (map ri_limit_id items)"
  shows "fold (adjust_row actual) items l =
    (case item_for (lim_id l) (lim_reset_at l) items of None \<Rightarrow> l | Some i \<Rightarrow> adjust_row actual i l)"
  using assms
proof (induction items)
  case (Cons i items)
  show ?case
  proof (cases "ri_limit_id i = lim_id l")
    case True
    then have "lim_id (adjust_row actual i l) \<notin> ri_limit_id ` set items" using Cons.prems by simp
    then have "fold (adjust_row actual) (i # items) l = adjust_row actual i l" by (simp add: fold_adjust_skip)
    moreover have "adjust_row actual i l = l" "item_for (lim_id l) (lim_reset_at l) items = None"
      if "ri_expected_reset_at i \<noteq> lim_reset_at l"
      using that True Cons.prems by (auto simp: adjust_row_def Let_def item_for_None image_iff)
    ultimately show ?thesis using True by (auto simp: item_for_Cons)
  next
    case False
    then have "adjust_row actual i l = l" by (auto simp: adjust_row_def Let_def)
    with False Cons show ?thesis by (simp add: item_for_Cons)
  qed
qed (simp add: item_for_def)

text \<open>The row a reserved reservation becomes when it is settled.\<close>

definition resettled :: "reservation_status \<Rightarrow> (reservation_item \<Rightarrow> int) \<Rightarrow> usage_reservation \<Rightarrow> usage_reservation \<Rightarrow> bool" where
  "resettled status actual r r' \<longleftrightarrow>
     ur_id r' = ur_id r \<and> ur_status r' = status \<and> status \<noteq> Reserved \<and> ur_items r' = map (with_actual actual) (ur_items r)"

lemma charge_resettled:
  assumes "resettled status actual r r'"
  shows "charge r' x t = (case item_for x t (ur_items r) of None \<Rightarrow> 0 | Some i \<Rightarrow> actual i)"
proof -
  have "item_for x t (ur_items r') = map_option (with_actual actual) (item_for x t (ur_items r))"
    using assms by (simp add: resettled_def item_for_map with_actual_def)
  then show ?thesis
    using assms by (simp add: charge_def contribution_def resettled_def with_actual_def split: option.split)
qed

lemma books_resettle:
  assumes ok: "books_ok ks" and r: "r \<in> set (ks_reservations ks)" "ur_status r = Reserved"
    and new: "resettled status actual r r'" and nonneg: "\<And>i. i \<in> set (ur_items r) \<Longrightarrow> 0 \<le> actual i"
  shows "books_ok (ks\<lparr>ks_limits := map (\<lambda>l. fold (adjust_row actual) (ur_items r) l) (ks_limits ks),
    ks_reservations := map (\<lambda>q. if ur_id q = ur_id r then r' else q) (ks_reservations ks)\<rparr>)"
proof -
  let ?adj = "\<lambda>l. fold (adjust_row actual) (ur_items r) l"
  let ?rs = "ks_reservations ks"
  let ?rs' = "map (\<lambda>q. if ur_id q = ur_id r then r' else q) ?rs"
  have rok: "reservation_ok r" and dist: "distinct (map ur_id ?rs)" and past: "items_past (ks_limits ks) (ur_items r)"
    and allok: "\<forall>q \<in> set ?rs. reservation_ok q"
    using ok r by (auto simp: books_ok_def)
  have d: "distinct (map ri_limit_id (ur_items r))" using rok by (simp add: reservation_ok_def)
  have keep: "lim_id (?adj l) = lim_id l" "lim_reset_at (?adj l) = lim_reset_at l" for l
    by (simp_all add: fold_adjust[OF d] split: option.split)
  have past': "items_past (map ?adj ls) items \<longleftrightarrow> items_past ls items" for ls items
    by (auto simp: items_past_def keep)
  have new_items: "items_past ls (ur_items r') \<longleftrightarrow> items_past ls (ur_items r)" for ls
    using new by (auto simp: items_past_def resettled_def with_actual_def)
  have "ri_limit_id \<circ> with_actual actual = ri_limit_id" by (simp add: fun_eq_iff with_actual_def)
  then have r'ok: "reservation_ok r'"
    using rok new nonneg by (auto simp: reservation_ok_def resettled_def, auto simp: with_actual_def)
  have "lim_current_value (?adj l) = ledger ?rs' (lim_id l) (lim_reset_at l)" if l: "l \<in> set (ks_limits ks)" for l
  proof -
    have cur: "lim_current_value l = ledger ?rs (lim_id l) (lim_reset_at l)" using ok l by (simp add: books_ok_def)
    have ge: "charge r (lim_id l) (lim_reset_at l) \<le> lim_current_value l"
      unfolding cur by (rule ledger_ge_charge[OF allok r(1)])
    have "ledger ?rs' (lim_id l) (lim_reset_at l) =
        lim_current_value l - charge r (lim_id l) (lim_reset_at l) + charge r' (lim_id l) (lim_reset_at l)"
      using ledger_replace[OF dist r(1), of r'] new cur by (simp add: resettled_def)
    also have "\<dots> = lim_current_value (?adj l)"
    proof (cases "item_for (lim_id l) (lim_reset_at l) (ur_items r)")
      case None
      then show ?thesis using charge_resettled[OF new] by (simp add: fold_adjust[OF d] charge_def)
    next
      case (Some i)
      note i = item_for_Some[OF Some]
      have "ri_reserved_delta i \<le> lim_current_value l" using ge Some r(2) by (simp add: charge_def contribution_def)
      then show ?thesis
        using charge_resettled[OF new] Some i nonneg[of i] r(2)
        by (simp add: fold_adjust[OF d] charge_def contribution_def adjust_row_def Let_def)
    qed
    finally show ?thesis by simp
  qed
  moreover have "map ur_id ?rs' = map ur_id ?rs" using new by (auto simp: resettled_def)
  then have "distinct (map ur_id ?rs')" using dist by (simp only:)
  moreover have "map lim_id (map ?adj (ks_limits ks)) = map lim_id (ks_limits ks)" by (simp add: keep)
  ultimately show ?thesis
    using ok r'ok past new_items unfolding books_ok_def
    by (auto simp: past' keep comp_def)
qed

section \<open>Every operation keeps the books\<close>

lemma books_ok_cong:
  "ks_limits ks = ks_limits ks' \<Longrightarrow> ks_reservations ks = ks_reservations ks' \<Longrightarrow> books_ok ks = books_ok ks'"
  by (simp add: books_ok_def)

lemma unique_reservation:
  assumes "distinct (map ur_id rs)" and "r \<in> set rs" and "q \<in> set rs" and "ur_id q = ur_id r"
  shows "q = r"
  using assms by (auto simp: distinct_map dest: inj_onD)

lemma get_usage_reservation_Some:
  assumes "distinct (map ur_id (ks_reservations ks))"
  shows "get_usage_reservation rid ks = Some r \<longleftrightarrow> r \<in> set (ks_reservations ks) \<and> ur_id r = rid"
proof
  show "r \<in> set (ks_reservations ks) \<and> ur_id r = rid" if "get_usage_reservation rid ks = Some r"
    using that by (auto simp: get_usage_reservation_def find_Some_iff)
  assume r: "r \<in> set (ks_reservations ks) \<and> ur_id r = rid"
  then have "get_usage_reservation rid ks \<noteq> None" by (auto simp: get_usage_reservation_def find_None_iff)
  then obtain q where q: "get_usage_reservation rid ks = Some q" by blast
  then have "q \<in> set (ks_reservations ks)" "ur_id q = rid" by (auto simp: get_usage_reservation_def find_Some_iff)
  then show "get_usage_reservation rid ks = Some r" using q r unique_reservation[OF assms] by auto
qed

text \<open>Claiming, adjusting and closing a reserved row, as all settlements do.\<close>

definition settled_row ::
  "(usage_reservation \<Rightarrow> usage_reservation) \<Rightarrow> (usage_reservation \<Rightarrow> usage_reservation) \<Rightarrow> (reservation_item \<Rightarrow> int)
   \<Rightarrow> usage_reservation \<Rightarrow> usage_reservation \<Rightarrow> usage_reservation" where
  "settled_row claim close actual r q =
     close ((claim q)\<lparr>ur_items := fold (\<lambda>i. upsert_item i (actual i)) (ur_items r) (ur_items (claim q))\<rparr>)"

lemma books_settled:
  assumes ok: "books_ok ks" and r: "r \<in> set (ks_reservations ks)" "ur_status r = Reserved"
    and claim: "ur_id (claim r) = ur_id r" "ur_items (claim r) = ur_items r"
    and close: "\<And>q. ur_id (close q) = ur_id q" "\<And>q. ur_items (close q) = ur_items q"
    and status: "\<And>items. ur_status (close ((claim r)\<lparr>ur_items := items\<rparr>)) = status" "status \<noteq> Reserved"
    and nonneg: "\<And>i. i \<in> set (ur_items r) \<Longrightarrow> 0 \<le> actual i"
    and eq: "ks_limits ks' = map (\<lambda>l. fold (adjust_row actual) (ur_items r) l) (ks_limits ks)"
      "ks_reservations ks' = update_rows (\<lambda>q. ur_id q = ur_id r) (settled_row claim close actual r) (ks_reservations ks)"
  shows "books_ok ks'"
proof -
  have dist: "distinct (map ur_id (ks_reservations ks))" and rok: "reservation_ok r" using ok r by (auto simp: books_ok_def)
  have items: "fold (\<lambda>i. upsert_item i (actual i)) (ur_items r) (ur_items r) = map (with_actual actual) (ur_items r)"
    using fold_upsert_items[of "[]" "ur_items r" actual] rok by (simp add: reservation_ok_def)
  have new: "resettled status actual r (settled_row claim close actual r r)"
    using claim close status items by (simp add: resettled_def settled_row_def)
  have "ks_reservations ks' = map (\<lambda>q. if ur_id q = ur_id r then settled_row claim close actual r r else q) (ks_reservations ks)"
    using unique_reservation[OF dist r(1)] by (auto simp: eq update_rows_def)
  with books_resettle[OF ok r new nonneg] show ?thesis using eq(1)
    by (subst books_ok_cong[where ks' = "ks\<lparr>ks_limits := map (\<lambda>l. fold (adjust_row actual) (ur_items r) l) (ks_limits ks),
        ks_reservations := map (\<lambda>q. if ur_id q = ur_id r then settled_row claim close actual r r else q) (ks_reservations ks)\<rparr>"])
      simp_all
qed

lemma claimed_rows:
  assumes dist: "distinct (map ur_id (ks_reservations ks))" and r: "r \<in> set (ks_reservations ks)" "P r"
    and "\<And>q. P q \<Longrightarrow> ur_id q = ur_id r" and "\<And>q. ur_id (claim q) = ur_id q" and "\<And>q. ur_id (close q) = ur_id q"
  shows "update_rows (\<lambda>q. ur_id q = ur_id r) close
           (update_rows (\<lambda>q. ur_id q = ur_id r)
              (\<lambda>q. q\<lparr>ur_items := fold (\<lambda>i. upsert_item i (actual i)) (ur_items r) (ur_items q)\<rparr>)
              (update_rows P claim (ks_reservations ks))) =
         update_rows (\<lambda>q. ur_id q = ur_id r) (settled_row claim close actual r) (ks_reservations ks)"
proof -
  have "P q \<longleftrightarrow> ur_id q = ur_id r" if "q \<in> set (ks_reservations ks)" for q
    using assms(4) unique_reservation[OF dist r(1) that] r(2) by blast
  then have "update_rows P claim (ks_reservations ks) = update_rows (\<lambda>q. ur_id q = ur_id r) claim (ks_reservations ks)"
    by (rule update_rows_cong)
  then show ?thesis
    using assms(5,6) by (simp add: update_rows_twice settled_row_def[abs_def])
qed

lemma books_update_last_used [simp]: "books_ok (update_last_used now key_id ks) = books_ok ks"
  by (rule books_ok_cong) (simp_all add: update_last_used_def)

lemma default_or_else_nonneg: "(\<forall>v. x = Some v \<longrightarrow> 0 \<le> v) \<Longrightarrow> 0 \<le> or_else x (0::int)"
  by (cases x) (auto simp: or_else_def)

lemma cost_microdollars_nonneg:
  assumes "0 \<le> i" and "0 \<le> out"
  shows "0 \<le> calculate_cost_microdollars model i out cached tier"
proof (cases "get_pricing_for_model model None None")
  case (Some kp)
  obtain key price where kp: "kp = (key, price)" by (cases kp)
  show ?thesis
    using default_pricing_ok[OF Some[unfolded kp]] assms
    by (simp add: calculate_cost_microdollars_def Some kp py_int_nonneg cost_nonneg)
qed (simp add: calculate_cost_microdollars_def)

lemma compute_increment_nonneg:
  "0 \<le> i \<Longrightarrow> 0 \<le> out \<Longrightarrow> 0 \<le> cost \<Longrightarrow> 0 \<le> compute_increment t i out cost"
  by (cases t) (simp_all add: compute_increment_def)

lemma books_settle_usage_reservation:
  assumes ok: "books_ok ks" and status: "status \<noteq> Reserved"
    and tokens: "\<forall>v. input_tokens = Some v \<longrightarrow> 0 \<le> v" "\<forall>v. output_tokens = Some v \<longrightarrow> 0 \<le> v"
  shows "books_ok (settle_usage_reservation now status rid model input_tokens output_tokens cached tier ks)"
proof -
  have dist: "distinct (map ur_id (ks_reservations ks))" using ok by (simp add: books_ok_def)
  let ?i = "or_else input_tokens 0" and ?o = "or_else output_tokens 0"
  let ?cost = "calculate_cost_microdollars model ?i ?o (or_else cached 0) tier"
  let ?actual = "\<lambda>item. compute_increment (ri_limit_type item) ?i ?o ?cost"
  show ?thesis
  proof (cases "\<exists>r. get_usage_reservation rid ks = Some r \<and> ur_status r = Reserved")
    case True
    then obtain r where g: "get_usage_reservation rid ks = Some r" and res: "ur_status r = Reserved" by blast
    then have r: "r \<in> set (ks_reservations ks)" "ur_id r = rid" by (simp_all add: get_usage_reservation_Some[OF dist])
    let ?claim = "\<lambda>r. r\<lparr>ur_status := Settling, ur_updated_at := now\<rparr>"
    let ?close = "\<lambda>r. r\<lparr>ur_status := status, ur_input_tokens := input_tokens, ur_output_tokens := output_tokens,
        ur_cached_input_tokens := cached, ur_cost_microdollars := Some ?cost, ur_updated_at := now\<rparr>"
    have claimed: "any_row (\<lambda>r. ur_id r = rid \<and> ur_status r = Reserved) (ks_reservations ks)"
      using r res by (auto simp: any_row_iff)
    let ?ks = "settle_reservation_row now rid status input_tokens output_tokens cached (Some ?cost)
        (fold (settle_item rid ?actual) (ur_items r)
          (fst (transition_usage_reservation_status now rid Reserved Settling ks)))"
    have eq: "settle_usage_reservation now status rid model input_tokens output_tokens cached tier ks =
        update_last_used now (ur_api_key_id r) ?ks"
      using claimed by (simp add: settle_usage_reservation_def g res transition_usage_reservation_status_def Let_def)
    have "books_ok ?ks"
    proof (rule books_settled[OF ok r(1) res, where claim = ?claim and close = ?close and actual = ?actual and status = status])
      show "0 \<le> ?actual i" for i
        using tokens by (intro compute_increment_nonneg cost_microdollars_nonneg default_or_else_nonneg)
      show "ks_reservations ?ks = update_rows (\<lambda>q. ur_id q = ur_id r) (settled_row ?claim ?close ?actual r) (ks_reservations ks)"
        using claimed_rows[OF dist r(1), where P = "\<lambda>r. ur_id r = rid \<and> ur_status r = Reserved"
            and claim = ?claim and close = ?close and actual = ?actual] r res
        by (simp add: fold_settle_item settle_reservation_row_def transition_usage_reservation_status_def Let_def)
    qed (simp_all add: status fold_settle_item settle_reservation_row_def transition_usage_reservation_status_def Let_def)
    then show ?thesis by (simp add: eq)
  next
    case False
    then have "settle_usage_reservation now status rid model input_tokens output_tokens cached tier ks = ks"
      by (cases "get_usage_reservation rid ks") (auto simp: settle_usage_reservation_def)
    then show ?thesis using ok by simp
  qed
qed

lemma books_release_rows:
  assumes ok: "books_ok ks" and r: "r \<in> set (ks_reservations ks)" "ur_status r = Reserved" "P r"
    and P: "\<And>q. P q \<Longrightarrow> ur_id q = ur_id r"
    and claim: "\<And>q. ur_id (claim q) = ur_id q" "\<And>q. ur_items (claim q) = ur_items q"
    and close: "\<And>q. ur_id (close q) = ur_id q" "\<And>q. ur_items (close q) = ur_items q"
      "\<And>items. ur_status (close ((claim r)\<lparr>ur_items := items\<rparr>)) = Released"
    and eq: "ks_limits ks' = ks_limits (fold (release_item (ur_id r)) (ur_items r)
        (ks\<lparr>ks_reservations := update_rows P claim (ks_reservations ks)\<rparr>))"
      "ks_reservations ks' = update_rows (\<lambda>q. ur_id q = ur_id r) close (ks_reservations (fold (release_item (ur_id r)) (ur_items r)
        (ks\<lparr>ks_reservations := update_rows P claim (ks_reservations ks)\<rparr>)))"
  shows "books_ok ks'"
proof (rule books_settled[OF ok r(1,2), where claim = claim and close = close and actual = "\<lambda>_. 0" and status = Released])
  have dist: "distinct (map ur_id (ks_reservations ks))" using ok by (simp add: books_ok_def)
  show "ks_reservations ks' =
      update_rows (\<lambda>q. ur_id q = ur_id r) (settled_row claim close (\<lambda>_. 0) r) (ks_reservations ks)"
    unfolding eq release_item_eq fold_settle_item
    by (simp, rule claimed_rows[OF dist r(1)], rule r(3), erule P, rule claim(1), rule close(1))
qed (simp_all add: claim close eq release_item_eq fold_settle_item)

lemma books_release_usage_reservation:
  assumes ok: "books_ok ks"
  shows "books_ok (release_usage_reservation now rid ks)"
proof (cases "\<exists>r. get_usage_reservation rid ks = Some r \<and> ur_status r = Reserved")
  case True
  then obtain r where g: "get_usage_reservation rid ks = Some r" and res: "ur_status r = Reserved" by blast
  have dist: "distinct (map ur_id (ks_reservations ks))" using ok by (simp add: books_ok_def)
  have r: "r \<in> set (ks_reservations ks)" "ur_id r = rid" using g by (simp_all add: get_usage_reservation_Some[OF dist])
  have claimed: "any_row (\<lambda>r. ur_id r = rid \<and> ur_status r = Reserved) (ks_reservations ks)"
    using r res by (auto simp: any_row_iff)
  show ?thesis
    using claimed r res
    by (intro books_release_rows[OF ok r(1) res, where P = "\<lambda>r. ur_id r = rid \<and> ur_status r = Reserved"
        and claim = "\<lambda>r. r\<lparr>ur_status := Released, ur_updated_at := now\<rparr>"
        and close = "\<lambda>r. r\<lparr>ur_status := Released, ur_input_tokens := None, ur_output_tokens := None,
          ur_cached_input_tokens := None, ur_cost_microdollars := None, ur_updated_at := now\<rparr>"])
      (simp_all add: release_usage_reservation_def g transition_usage_reservation_status_def settle_reservation_row_def Let_def)
next
  case False
  then have "release_usage_reservation now rid ks = ks"
    by (cases "get_usage_reservation rid ks") (auto simp: release_usage_reservation_def)
  then show ?thesis using ok by simp
qed

lemma books_release_stale_one:
  assumes ok: "books_ok (fst run)" and r: "r \<in> set (ks_reservations (fst run))"
  shows "books_ok (fst (release_stale_one now cutoff r run))"
proof -
  obtain ks n where run: "run = (ks, n)" by (cases run)
  let ?P = "\<lambda>q. ur_id q = ur_id r \<and> stale_reserved cutoff q"
  have ok: "books_ok ks" and r: "r \<in> set (ks_reservations ks)" using assms by (simp_all add: run)
  have dist: "distinct (map ur_id (ks_reservations ks))" using ok by (simp add: books_ok_def)
  show ?thesis
  proof (cases "any_row ?P (ks_reservations ks)")
    case True
    then have stale: "stale_reserved cutoff r" using unique_reservation[OF dist r] by (auto simp: any_row_iff)
    then have res: "ur_status r = Reserved" by (simp add: stale_reserved_def)
    show ?thesis
      using stale True
      by (intro books_release_rows[OF ok r res, where P = ?P and close = "\<lambda>q. q"
          and claim = "\<lambda>r. r\<lparr>ur_status := Released, ur_input_tokens := None, ur_output_tokens := None,
            ur_cached_input_tokens := None, ur_cost_microdollars := None, ur_updated_at := now\<rparr>"])
        (simp_all add: run release_stale_one_def)
  qed (use ok in \<open>simp add: run release_stale_one_def\<close>)
qed

lemma release_stale_one_others:
  assumes "q \<in> set (ks_reservations (fst run))" and "ur_id q \<noteq> ur_id r"
  shows "q \<in> set (ks_reservations (fst (release_stale_one now cutoff r run)))"
  using assms
  by (cases run) (auto simp: release_stale_one_def Let_def release_item_eq fold_settle_item update_rows_def image_iff
      intro!: bexI[of _ q])

lemma books_release_stale_batch:
  assumes "books_ok (fst run)" and "distinct (map ur_id rs)" and "set rs \<subseteq> set (ks_reservations (fst run))"
  shows "books_ok (fst (fold (release_stale_one now cutoff) rs run))"
  using assms
proof (induction rs arbitrary: run)
  case (Cons r rs)
  have "set rs \<subseteq> set (ks_reservations (fst (release_stale_one now cutoff r run)))"
    using Cons.prems by (auto intro!: release_stale_one_others simp: image_iff)
  then show ?case using Cons by (simp add: books_release_stale_one)
qed simp

lemma stale_batch_subset: "set (stale_batch n cutoff ks) \<subseteq> set (ks_reservations ks)"
  by (auto simp: stale_batch_def dest: in_set_takeD)

lemma stale_batch_distinct:
  assumes "distinct (map ur_id (ks_reservations ks))"
  shows "distinct (map ur_id (stale_batch n cutoff ks))"
proof -
  have "distinct (stale_batch n cutoff ks)" using assms by (simp add: stale_batch_def distinct_map)
  moreover have "inj_on ur_id (set (stale_batch n cutoff ks))"
    using assms stale_batch_subset[of n cutoff ks] by (meson distinct_map inj_on_subset)
  ultimately show ?thesis by (simp add: distinct_map)
qed

lemma books_release_stale:
  assumes "books_ok ks"
  shows "books_ok (fst (release_stale_usage_reservations now n cutoff k ks))"
  using assms
proof (induction now n cutoff k ks rule: release_stale_usage_reservations.induct)
  case (1 now n cutoff k ks)
  have "books_ok (fst (fold (release_stale_one now cutoff) (stale_batch n cutoff ks) (ks, k)))"
    using "1.prems" stale_batch_subset[of n cutoff ks] stale_batch_distinct[of ks n cutoff] by (intro books_release_stale_batch) (simp_all add: books_ok_def)
  then show ?case
    using 1 by (subst release_stale_usage_reservations.simps) (simp add: Let_def)
qed

lemma books_touch:
  assumes ok: "books_ok ks"
  shows "books_ok (fst (touch_usage_reservation now rid ks))"
proof -
  define f :: "usage_reservation \<Rightarrow> usage_reservation" where "f = (\<lambda>r. if ur_id r = rid \<and> ur_status r = Reserved then r\<lparr>ur_status := Reserved, ur_updated_at := now\<rparr> else r)"
  have same: "ur_id (f r) = ur_id r" "ur_items (f r) = ur_items r" "reservation_ok (f r) = reservation_ok r"
    "charge (f r) x t = charge r x t" for r x t
    by (simp_all add: f_def reservation_ok_def charge_def contribution_def split: option.split)
  have "ks_reservations (fst (touch_usage_reservation now rid ks)) = map f (ks_reservations ks)"
    "ks_limits (fst (touch_usage_reservation now rid ks)) = ks_limits ks"
    by (simp_all add: touch_usage_reservation_def transition_usage_reservation_status_def update_rows_def Let_def f_def)
  then show ?thesis using ok unfolding books_ok_def
    by (simp add: ledger_def comp_def same)
qed

lemma books_reset_limit:
  assumes ok: "books_ok ks" and later: "e < t"
  shows "books_ok (fst (reset_limit x e t ks))"
proof -
  define f :: "api_key_limit \<Rightarrow> api_key_limit" where "f = (\<lambda>l. if lim_id l = x \<and> lim_reset_at l = e then l\<lparr>lim_current_value := 0, lim_reset_at := t\<rparr> else l)"
  have rows: "ks_limits (fst (reset_limit x e t ks)) = map f (ks_limits ks)"
    "ks_reservations (fst (reset_limit x e t ks)) = ks_reservations ks"
    by (simp_all add: reset_limit_def update_rows_def Let_def f_def)
  have id: "lim_id (f l) = lim_id l" and le: "lim_reset_at l \<le> lim_reset_at (f l)" for l using later by (simp_all add: f_def)
  have past: "items_past (ks_limits ks) items \<Longrightarrow> items_past (map f (ks_limits ks)) items" for items
    using le by (auto simp: items_past_def id intro: order_trans)
  have all: "\<forall>r \<in> set (ks_reservations ks). items_past (ks_limits ks) (ur_items r)" using ok by (simp add: books_ok_def)
  have "lim_current_value (f l) = ledger (ks_reservations ks) (lim_id l) (lim_reset_at (f l))"
    if l: "l \<in> set (ks_limits ks)" for l
    using ok l later ledger_future[OF all l, of t] by (auto simp: books_ok_def f_def)
  then show ?thesis using ok past by (simp add: books_ok_def rows comp_def id)
qed

lemma books_lazy_reset_one: "books_ok ks \<Longrightarrow> books_ok (lazy_reset_one now limit ks)"
  using advance_limit_reset_gt[of now "lim_reset_at limit" "lim_limit_window limit"]
  by (simp add: lazy_reset_one_def books_reset_limit)

lemma books_lazy_reset: "books_ok ks \<Longrightarrow> books_ok (fst (lazy_reset_expired_limits now limits ks))"
  unfolding lazy_reset_expired_limits_def
  by (induction limits arbitrary: ks) (simp_all add: books_lazy_reset_one)

lemma books_reset_expired_batch:
  assumes "books_ok (fst run)" and "\<forall>l \<in> set limits. lim_reset_at l < now"
  shows "books_ok (fst (fold (reset_expired_one now) limits run))"
  using assms
proof (induction limits arbitrary: run)
  case (Cons l limits)
  have "lim_reset_at l < advance_limit_reset (lim_reset_at l) now (lim_limit_window l)"
    using Cons.prems advance_limit_reset_gt[of now "lim_reset_at l" "lim_limit_window l"] by simp
  then have "books_ok (fst (reset_expired_one now l run))"
    using Cons.prems by (simp add: fst_reset_expired_one books_reset_limit)
  then show ?case using Cons by simp
qed simp

lemma books_reset_expired:
  assumes "books_ok ks"
  shows "books_ok (fst (reset_expired_limits now n ks))"
  using assms
proof (induction now n ks rule: reset_expired_limits.induct)
  case (1 now n ks)
  have "\<forall>l \<in> set (expired_batch now ks). lim_reset_at l < now" by (auto simp: expired_batch_def dest: in_set_takeD)
  then have "books_ok (fst (fold (reset_expired_one now) (expired_batch now ks) (ks, n)))"
    using "1.prems" by (intro books_reset_expired_batch) simp_all
  then show ?case using 1 by (subst reset_expired_limits.simps) (simp add: Let_def)
qed

lemma books_reset_once: "books_ok ks \<Longrightarrow> books_ok (reset_once leader now ks)"
  by (simp add: reset_once_def books_release_stale books_reset_expired)

lemma books_open_key: "books_ok ks \<Longrightarrow> books_ok (fst (open_key now P ks))"
  using books_lazy_reset[of ks now]
  by (auto simp: open_key_def Let_def split: sum.split prod.split) (metis fst_conv)+

section \<open>Admission against a snapshot\<close>

text \<open>
  The limits are read first and reserved against afterwards, by guarded updates; meanwhile other sessions
  may have changed the counters and moved the windows on, but a window never moves back.
\<close>

definition snapshot_ok :: "api_key_limit list \<Rightarrow> key_store \<Rightarrow> bool" where
  "snapshot_ok limits ks \<longleftrightarrow> distinct (map lim_id limits) \<and>
     (\<forall>s \<in> set limits. \<forall>l \<in> set (ks_limits ks). lim_id l = lim_id s \<longrightarrow> lim_reset_at s \<le> lim_reset_at l)"

definition reserve_row :: "reservation_item list \<Rightarrow> api_key_limit \<Rightarrow> api_key_limit" where
  "reserve_row items l =
     (case item_for (lim_id l) (lim_reset_at l) items of None \<Rightarrow> l | Some i \<Rightarrow> add_usage (ri_reserved_delta i) l)"

definition item_fits :: "api_key_limit list \<Rightarrow> reservation_item \<Rightarrow> bool" where
  "item_fits rows i \<longleftrightarrow> 0 \<le> ri_reserved_delta i \<and> ri_actual_delta i = None \<and>
     (0 < ri_reserved_delta i \<longrightarrow>
        (\<exists>l \<in> set rows. lim_id l = ri_limit_id i \<and> lim_reset_at l = ri_expected_reset_at i \<and>
           lim_current_value l + ri_reserved_delta i \<le> lim_max_value l))"

lemma normalized_budget_nonneg:
  "0 \<le> fst (normalize_request_usage_budget budget)" "0 \<le> snd (normalize_request_usage_budget budget)"
  by (auto simp: normalize_request_usage_budget_def normalize_reservation_token_budget_def split: option.split prod.split)

lemma unknown_cost_nonneg: "0 \<le> unknown_model_reserve_cost_budget_microdollars i out"
proof -
  have "0 \<le> \<lceil>2000000 * of_int n / (16384 :: real)\<rceil>" if "0 \<le> n" for n :: int
    using that ceiling_mono[of 0 "2000000 * of_int n / (16384 :: real)"] by simp
  then show ?thesis by (simp add: unknown_model_reserve_cost_budget_microdollars_def Let_def)
qed

lemma reserve_delta_nonneg:
  assumes "0 \<le> fst budget" and "0 \<le> snd budget"
  shows "0 \<le> reserve_delta_for_limit limit model tier budget"
proof -
  have "0 \<le> reserve_cost_budget_microdollars model tier i out" for i out
    using unknown_cost_nonneg by (simp add: reserve_cost_budget_microdollars_def Let_def split: option.split list.split)
  then have "0 \<le> reserve_budget_for_limit_type (lim_limit_type limit) model tier budget"
    using assms by (cases budget; cases "lim_limit_type limit") (simp_all add: reserve_budget_for_limit_type_def)
  then show ?thesis by (simp add: reserve_delta_for_limit_def Let_def)
qed

lemma try_reserve_usage_success:
  assumes "distinct (map lim_id (ks_limits ks))" and "0 < delta" and "try_reserve_usage x delta t ks = (ks', True)"
  shows "ks' = ks\<lparr>ks_limits := map (\<lambda>l. if lim_id l = x \<and> lim_reset_at l = t then add_usage delta l else l) (ks_limits ks)\<rparr>"
    and "\<exists>l \<in> set (ks_limits ks). lim_id l = x \<and> lim_reset_at l = t \<and> lim_current_value l + delta \<le> lim_max_value l"
proof -
  show ex: "\<exists>l \<in> set (ks_limits ks). lim_id l = x \<and> lim_reset_at l = t \<and> lim_current_value l + delta \<le> lim_max_value l"
    using assms(2,3) by (auto simp: try_reserve_usage_def any_row_iff Let_def)
  then obtain l where l: "l \<in> set (ks_limits ks)" "lim_id l = x" "lim_reset_at l = t" "lim_current_value l + delta \<le> lim_max_value l"
    by blast
  have "q = l" if "q \<in> set (ks_limits ks)" "lim_id q = x" for q
    using assms(1) l that by (auto simp: distinct_map dest: inj_onD)
  then have "update_rows (\<lambda>l. lim_id l = x \<and> lim_reset_at l = t \<and> lim_current_value l + delta \<le> lim_max_value l)
      (add_usage delta) (ks_limits ks) =
      map (\<lambda>l. if lim_id l = x \<and> lim_reset_at l = t then add_usage delta l else l) (ks_limits ks)"
    unfolding update_rows_def using l(4) by (intro map_cong) auto
  then show "ks' = ks\<lparr>ks_limits := map (\<lambda>l. if lim_id l = x \<and> lim_reset_at l = t then add_usage delta l else l) (ks_limits ks)\<rparr>"
    using assms(2,3) by (simp add: try_reserve_usage_def Let_def)
qed

definition reserve_step :: "api_key_limit \<Rightarrow> int \<Rightarrow> api_key_limit \<Rightarrow> api_key_limit" where
  "reserve_step limit delta l =
     (if lim_id l = lim_id limit \<and> lim_reset_at l = lim_reset_at limit then add_usage delta l else l)"

lemma reserve_step_keeps [simp]:
  "lim_id (reserve_step limit d l) = lim_id l" "lim_reset_at (reserve_step limit d l) = lim_reset_at l"
  by (simp_all add: reserve_step_def)

lemma reserve_one:
  assumes "distinct (map lim_id (ks_limits ks))" and "0 \<le> delta"
    and "(if delta > 0 then try_reserve_usage (lim_id limit) delta (lim_reset_at limit) ks else (ks, True)) = (ks', True)"
  shows "ks' = ks\<lparr>ks_limits := map (reserve_step limit delta) (ks_limits ks)\<rparr>"
    and "delta > 0 \<Longrightarrow> \<exists>l \<in> set (ks_limits ks). lim_id l = lim_id limit \<and> lim_reset_at l = lim_reset_at limit \<and>
           lim_current_value l + delta \<le> lim_max_value l"
proof -
  show "\<exists>l \<in> set (ks_limits ks). lim_id l = lim_id limit \<and> lim_reset_at l = lim_reset_at limit \<and>
           lim_current_value l + delta \<le> lim_max_value l" if "delta > 0"
    using try_reserve_usage_success(2)[OF assms(1) that] assms(3) that by simp
  show "ks' = ks\<lparr>ks_limits := map (reserve_step limit delta) (ks_limits ks)\<rparr>"
  proof (cases "delta > 0")
    case True
    then show ?thesis
      using try_reserve_usage_success(1)[OF assms(1) True] assms(3) by (simp add: reserve_step_def[abs_def])
  next
    case False
    then have "reserve_step limit delta = (\<lambda>l. l)" using assms(2) by (auto simp: reserve_step_def fun_eq_iff)
    then show ?thesis using False assms(3) by simp
  qed
qed

definition reserved_as :: "api_key_limit list \<Rightarrow> key_store \<Rightarrow> key_store \<Rightarrow> reservation_item list \<Rightarrow> bool" where
  "reserved_as limits ks ks' items \<longleftrightarrow>
     ks' = ks\<lparr>ks_limits := map (reserve_row items) (ks_limits ks)\<rparr> \<and>
     distinct (map ri_limit_id items) \<and> ri_limit_id ` set items \<subseteq> lim_id ` set limits \<and>
     items_past (ks_limits ks) items \<and> (\<forall>i \<in> set items. item_fits (ks_limits ks) i)"

lemma reserved_as_Cons:
  assumes snap: "snapshot_ok (limit # limits) ks" and "0 \<le> delta"
    and fits: "delta > 0 \<Longrightarrow> \<exists>l \<in> set (ks_limits ks). lim_id l = lim_id limit \<and> lim_reset_at l = lim_reset_at limit \<and>
           lim_current_value l + delta \<le> lim_max_value l"
    and IH: "reserved_as limits (ks\<lparr>ks_limits := map (reserve_step limit delta) (ks_limits ks)\<rparr>) ks' items"
  shows "reserved_as (limit # limits) ks ks' (\<lparr>ri_limit_id = lim_id limit, ri_limit_type = lt, ri_reserved_delta = delta,
    ri_expected_reset_at = lim_reset_at limit, ri_actual_delta = None\<rparr> # items)" (is "reserved_as _ _ _ (?i # items)")
proof -
  have fresh: "lim_id limit \<notin> ri_limit_id ` set items"
    using IH snap by (auto simp: reserved_as_def snapshot_ok_def)
  then have none: "item_for (lim_id limit) t items = None" for t by (auto simp: item_for_None image_iff)
  have step: "reserve_step limit delta l = l" if "lim_id l \<noteq> lim_id limit" for l using that by (simp add: reserve_step_def)
  have row: "reserve_row items (reserve_step limit delta l) = reserve_row (?i # items) l" for l
    using none by (auto simp: reserve_row_def reserve_step_def item_for_Cons split: option.split)
  have keep: "item_fits (ks_limits ks) i" if "i \<in> set items" for i
  proof -
    have fit: "item_fits (map (reserve_step limit delta) (ks_limits ks)) i" using IH that by (simp add: reserved_as_def)
    have "ri_limit_id i \<noteq> lim_id limit" using fresh that by (auto simp: image_iff)
    then have "(\<exists>l \<in> set (ks_limits ks). Q (reserve_step limit delta l) \<and> lim_id l = ri_limit_id i) \<longrightarrow>
        (\<exists>l \<in> set (ks_limits ks). Q l \<and> lim_id l = ri_limit_id i)" for Q
      using step by metis
    from this[of "\<lambda>l. lim_reset_at l = ri_expected_reset_at i \<and> lim_current_value l + ri_reserved_delta i \<le> lim_max_value l"]
    show ?thesis using fit by (auto simp: item_fits_def)
  qed
  show ?thesis unfolding reserved_as_def
  proof (intro conjI)
    show "ks' = ks\<lparr>ks_limits := map (reserve_row (?i # items)) (ks_limits ks)\<rparr>"
      using IH row by (simp add: reserved_as_def comp_def)
    show "distinct (map ri_limit_id (?i # items))" using IH fresh by (simp add: reserved_as_def)
    show "ri_limit_id ` set (?i # items) \<subseteq> lim_id ` set (limit # limits)" using IH by (auto simp: reserved_as_def)
    show "items_past (ks_limits ks) (?i # items)"
      using IH snap by (auto simp: reserved_as_def items_past_def snapshot_ok_def)
    show "\<forall>i \<in> set (?i # items). item_fits (ks_limits ks) i"
      using keep fits assms(2) by (auto simp: item_fits_def)
  qed
qed

lemma reserve_limits_spec:
  assumes "distinct (map lim_id (ks_limits ks))" and "snapshot_ok limits ks" and "0 \<le> fst budget" and "0 \<le> snd budget"
    and "reserve_limits model tier budget limits ks = Inr (ks', items)"
  shows "reserved_as limits ks ks' items"
  using assms
proof (induction limits arbitrary: ks items)
  case Nil
  have "reserve_row [] = (\<lambda>l. l)" by (simp add: fun_eq_iff reserve_row_def item_for_def)
  then show ?case using Nil by (simp add: reserved_as_def items_past_def)
next
  case (Cons limit limits)
  let ?delta = "reserve_delta_for_limit limit model tier budget"
  have nonneg: "0 \<le> ?delta" by (rule reserve_delta_nonneg[OF Cons.prems(3,4)])
  have tail: "snapshot_ok limits ks" using Cons.prems(2) by (simp add: snapshot_ok_def)
  show ?case
  proof (cases "limit_applies_for_request limit model")
    case False
    then have "reserved_as limits ks ks' items" using Cons tail by simp
    then show ?thesis by (auto simp: reserved_as_def)
  next
    case True
    obtain ks1 ok where one: "(if ?delta > 0 then try_reserve_usage (lim_id limit) ?delta (lim_reset_at limit) ks else (ks, True)) = (ks1, ok)"
      by (metis surj_pair)
    then have ok: "ok" and cur: "\<not> lim_current_value limit \<ge> lim_max_value limit" using Cons.prems(5) True
      by (auto simp: Let_def split: if_splits)
    obtain items1 where rest: "reserve_limits model tier budget limits ks1 = Inr (ks', items1)"
      and items: "items = \<lparr>ri_limit_id = lim_id limit, ri_limit_type = lim_limit_type limit, ri_reserved_delta = ?delta,
        ri_expected_reset_at = lim_reset_at limit, ri_actual_delta = None\<rparr> # items1"
      using Cons.prems(5) True one ok cur by (auto simp: Let_def split: if_splits sum.splits prod.splits)
    note R = reserve_one[OF Cons.prems(1) nonneg one[unfolded ok[THEN eqTrueI]]]
    have "reserved_as limits ks1 ks' items1"
      using Cons.IH[OF _ _ Cons.prems(3,4) rest] Cons.prems(1) tail by (simp add: R(1) comp_def snapshot_ok_def)
    then show ?thesis unfolding items using reserved_as_Cons[OF Cons.prems(2) nonneg R(2)] R(1) by simp
  qed
qed

lemma reserve_and_create_cases:
  assumes "reserve_and_create now rid key model tier budget limits ks = (ks', res)"
  obtains (refused) err where "ks' = ks" "res = Inl err"
  | (admitted) mid items where "res = Inr rid"
      "reserve_limits model tier (normalize_request_usage_budget budget) limits ks = Inr (mid, items)"
      "\<not> any_row (\<lambda>r. ur_id r = rid) (ks_reservations mid)"
      "ks' = mid\<lparr>ks_reservations := ks_reservations mid @
         [\<lparr>ur_id = rid, ur_api_key_id = key, ur_model = default model [], ur_status = Reserved, ur_items = items,
           ur_input_tokens = None, ur_output_tokens = None, ur_cached_input_tokens = None,
           ur_cost_microdollars = None, ur_updated_at = now\<rparr>]\<rparr>"
  using assms
  by (auto simp: reserve_and_create_def create_usage_reservation_def split: sum.splits prod.splits if_splits)

lemma admitted_reserved_as:
  assumes "books_ok ks" and "snapshot_ok limits ks"
    and "reserve_limits model tier (normalize_request_usage_budget budget) limits ks = Inr (mid, items)"
  shows "reserved_as limits ks mid items"
  using reserve_limits_spec[OF _ assms(2) normalized_budget_nonneg assms(3)] assms(1) by (simp add: books_ok_def)

lemma reserve_row_keeps [simp]:
  "lim_id (reserve_row items l) = lim_id l" "lim_reset_at (reserve_row items l) = lim_reset_at l"
  "lim_max_value (reserve_row items l) = lim_max_value l"
  by (simp_all add: reserve_row_def split: option.split)

lemma books_admitted:
  assumes ok: "books_ok ks" and as: "reserved_as limits ks mid items"
    and r: "ur_status r = Reserved" "ur_items r = items" "\<not> any_row (\<lambda>q. ur_id q = ur_id r) (ks_reservations mid)"
  shows "books_ok (mid\<lparr>ks_reservations := ks_reservations mid @ [r]\<rparr>)"
proof -
  have mid: "mid = ks\<lparr>ks_limits := map (reserve_row items) (ks_limits ks)\<rparr>" using as by (simp add: reserved_as_def)
  have rok: "reservation_ok r" using as r by (auto simp: reserved_as_def reservation_ok_def item_fits_def)
  have past: "items_past (map (reserve_row items) (ks_limits ks)) q \<longleftrightarrow> items_past (ks_limits ks) q" for q
    by (simp add: items_past_def)
  have cur: "lim_current_value (reserve_row items l) = lim_current_value l + charge r (lim_id l) (lim_reset_at l)" for l
    using r by (simp add: reserve_row_def charge_def contribution_def split: option.split)
  have "ur_id r \<notin> ur_id ` set (ks_reservations ks)" using r(3) by (auto simp: mid any_row_iff)
  then show ?thesis
    using ok rok as r(2) by (simp add: books_ok_def mid comp_def past ledger_append cur reserved_as_def)
qed

lemma books_reserve_and_create:
  assumes ok: "books_ok ks" and snap: "snapshot_ok limits ks"
  shows "books_ok (fst (reserve_and_create now rid key model tier budget limits ks))"
proof -
  obtain ks' res where run: "reserve_and_create now rid key model tier budget limits ks = (ks', res)" by (cases "reserve_and_create now rid key model tier budget limits ks")
  then show ?thesis
  proof (cases rule: reserve_and_create_cases)
    case refused
    then show ?thesis using ok run by simp
  next
    case (admitted mid items)
    then show ?thesis using run books_admitted[OF ok admitted_reserved_as[OF ok snap admitted(2)]] by simp
  qed
qed

section \<open>Windows only move forward\<close>

definition windows_le :: "key_store \<Rightarrow> key_store \<Rightarrow> bool" where
  "windows_le ks ks' \<longleftrightarrow>
     list_all2 (\<lambda>l l'. lim_id l' = lim_id l \<and> lim_max_value l' = lim_max_value l \<and> lim_reset_at l \<le> lim_reset_at l')
       (ks_limits ks) (ks_limits ks')"

lemma windows_refl [simp]: "windows_le ks ks"
  by (simp add: windows_le_def list_all2_refl)

lemma windows_trans: "windows_le ks ks' \<Longrightarrow> windows_le ks' ks'' \<Longrightarrow> windows_le ks ks''"
  unfolding windows_le_def by (erule (1) list_all2_trans[rotated]) auto

lemma windows_map:
  assumes "ks_limits ks' = map f (ks_limits ks)"
    and "\<And>l. lim_id (f l) = lim_id l" and "\<And>l. lim_max_value (f l) = lim_max_value l" and "\<And>l. lim_reset_at l \<le> lim_reset_at (f l)"
  shows "windows_le ks ks'"
  using assms by (simp add: windows_le_def list_all2_conv_all_nth)

lemma snapshot_windows:
  assumes "snapshot_ok limits ks" and "windows_le ks ks'"
  shows "snapshot_ok limits ks'"
proof -
  have "\<exists>l \<in> set (ks_limits ks). lim_id l = lim_id l' \<and> lim_reset_at l \<le> lim_reset_at l'" if "l' \<in> set (ks_limits ks')" for l'
    using assms(2) that unfolding windows_le_def by (induction rule: list_all2_induct) auto
  then show ?thesis using assms(1) unfolding snapshot_ok_def by (metis order_trans)
qed

lemma snapshot_now:
  assumes "distinct (map lim_id (ks_limits ks))"
  shows "snapshot_ok (limits_of key ks) ks"
proof -
  have inj: "inj_on lim_id (set (ks_limits ks))" and "distinct (limits_of key ks)"
    using assms by (simp_all add: distinct_map limits_of_def)
  then have "distinct (map lim_id (limits_of key ks))"
    by (auto simp: distinct_map limits_of_def intro: inj_on_subset)
  moreover have "l = s" if "s \<in> set (limits_of key ks)" "l \<in> set (ks_limits ks)" "lim_id l = lim_id s" for s l
    using inj that by (auto simp: limits_of_def dest: inj_onD)
  ultimately show ?thesis by (auto simp: snapshot_ok_def)
qed

lemma adjust_row_max [simp]: "lim_max_value (adjust_row actual i l) = lim_max_value l"
  by (simp add: adjust_row_def Let_def)

lemma fold_adjust_keeps [simp]:
  "lim_id (fold (adjust_row actual) items l) = lim_id l" "lim_reset_at (fold (adjust_row actual) items l) = lim_reset_at l"
  "lim_max_value (fold (adjust_row actual) items l) = lim_max_value l"
  by (induction items arbitrary: l) simp_all

lemma windows_le_same [simp]:
  "windows_le ks (ks'\<lparr>ks_reservations := rs\<rparr>) = windows_le ks ks'" "windows_le ks (ks'\<lparr>ks_keys := keys\<rparr>) = windows_le ks ks'"
  by (simp_all add: windows_le_def)

lemma windows_settle_items [simp]:
  "windows_le ks (fold (settle_item rid actual) items (ks\<lparr>ks_reservations := rs\<rparr>))"
  by (rule windows_map[where f = "\<lambda>l. fold (adjust_row actual) items l"]) (simp_all add: fold_settle_item)

lemma windows_settle: "windows_le ks (settle_usage_reservation now status rid model i out cached tier ks)"
  by (simp add: settle_usage_reservation_def update_last_used_def settle_reservation_row_def Let_def
      transition_usage_reservation_status_def split: option.split)

lemma windows_release: "windows_le ks (release_usage_reservation now rid ks)"
  by (simp add: release_usage_reservation_def settle_reservation_row_def Let_def release_item_eq
      transition_usage_reservation_status_def split: option.split)

lemma windows_release_stale_one: "windows_le (fst run) (fst (release_stale_one now cutoff r run))"
  by (cases run) (simp add: release_stale_one_def Let_def release_item_eq)

lemma windows_release_stale_batch: "windows_le (fst run) (fst (fold (release_stale_one now cutoff) rs run))"
proof (induction rs arbitrary: run)
  case (Cons r rs)
  show ?case using windows_trans[OF windows_release_stale_one Cons] by simp
qed simp

lemma windows_release_stale: "windows_le ks (fst (release_stale_usage_reservations now n cutoff k ks))"
proof (induction now n cutoff k ks rule: release_stale_usage_reservations.induct)
  case (1 now n cutoff k ks)
  let ?run = "fold (release_stale_one now cutoff) (stale_batch n cutoff ks) (ks, k)"
  have "windows_le ks (fst ?run)" using windows_release_stale_batch[of "(ks, k)"] by simp
  then have "windows_le ks (fst (release_stale_usage_reservations now n cutoff (snd ?run) (fst ?run)))"
    if "stale_batch n cutoff ks \<noteq> []"
    using windows_trans 1[OF refl that refl] by blast
  then show ?case by (subst release_stale_usage_reservations.simps) (simp add: Let_def)
qed

lemma windows_touch: "windows_le ks (fst (touch_usage_reservation now rid ks))"
  by (rule windows_map[where f = "\<lambda>l. l"]) (simp_all add: touch_usage_reservation_def transition_usage_reservation_status_def Let_def)

lemma windows_reset_limit: "e \<le> t \<Longrightarrow> windows_le ks (fst (reset_limit x e t ks))"
  by (rule windows_map[where f = "\<lambda>l. if lim_id l = x \<and> lim_reset_at l = e then l\<lparr>lim_current_value := 0, lim_reset_at := t\<rparr> else l"])
    (simp_all add: reset_limit_def update_rows_def Let_def)

lemma windows_lazy_reset: "windows_le ks (fold (lazy_reset_one now) limits ks)"
proof (induction limits arbitrary: ks)
  case (Cons l limits)
  have "windows_le ks (lazy_reset_one now l ks)"
    using advance_limit_reset_gt[of now "lim_reset_at l" "lim_limit_window l"]
    by (simp add: lazy_reset_one_def windows_reset_limit)
  then show ?case using windows_trans[OF _ Cons] by simp
qed simp

lemma windows_reset_expired_batch:
  "\<forall>l \<in> set limits. lim_reset_at l < now \<Longrightarrow> windows_le (fst run) (fst (fold (reset_expired_one now) limits run))"
proof (induction limits arbitrary: run)
  case (Cons l limits)
  have "windows_le (fst run) (fst (reset_expired_one now l run))"
    using advance_limit_reset_gt[of now "lim_reset_at l" "lim_limit_window l"] Cons.prems
    by (simp add: fst_reset_expired_one windows_reset_limit)
  then show ?case using windows_trans[OF _ Cons.IH] Cons.prems by simp
qed simp

lemma expired_batch_expired: "\<forall>l \<in> set (expired_batch now ks). lim_reset_at l < now"
  by (auto simp: expired_batch_def dest: in_set_takeD)

lemma windows_reset_expired: "windows_le ks (fst (reset_expired_limits now n ks))"
proof (induction now n ks rule: reset_expired_limits.induct)
  case (1 now n ks)
  let ?run = "fold (reset_expired_one now) (expired_batch now ks) (ks, n)"
  have "windows_le ks (fst ?run)"
    using windows_reset_expired_batch[OF expired_batch_expired[of now ks], of "(ks, n)"] by simp
  then have "windows_le ks (fst (reset_expired_limits now (snd ?run) (fst ?run)))" if "expired_batch now ks \<noteq> []"
    using windows_trans 1[OF refl that refl] by blast
  then show ?case by (subst reset_expired_limits.simps) (simp add: Let_def)
qed

lemma windows_reset_once: "windows_le ks (reset_once leader now ks)"
  by (simp add: reset_once_def windows_trans[OF windows_reset_expired windows_release_stale])

lemma windows_open_key: "windows_le ks (fst (open_key now P ks))"
  using windows_lazy_reset[of ks now]
  by (auto simp: open_key_def lazy_reset_expired_limits_def Let_def split: sum.split)

lemma windows_reserve_and_create:
  assumes ok: "books_ok ks" and snap: "snapshot_ok limits ks"
  shows "windows_le ks (fst (reserve_and_create now rid key model tier budget limits ks))"
proof -
  obtain ks' res where run: "reserve_and_create now rid key model tier budget limits ks = (ks', res)"
    by (cases "reserve_and_create now rid key model tier budget limits ks")
  then show ?thesis
  proof (cases rule: reserve_and_create_cases)
    case (admitted mid items)
    then show ?thesis
      using run admitted_reserved_as[OF ok snap admitted(2)]
      by (intro windows_map[where f = "reserve_row items"]) (simp_all add: reserved_as_def)
  qed (simp add: run)
qed

section \<open>Interleaved sessions\<close>

text \<open>
  The stores that sessions running side by side can reach. Each statement group between two commits is one
  step; \<open>read\<close> records the limits a session has loaded, \<open>reserve\<close> uses any of the lists loaded so far.
\<close>

inductive store_reach :: "key_store \<Rightarrow> key_store \<Rightarrow> api_key_limit list list \<Rightarrow> bool" for ks0 where
  start: "store_reach ks0 ks0 []"
| open_key: "store_reach ks0 ks loaded \<Longrightarrow> store_reach ks0 (fst (open_key now P ks)) loaded"
| read: "store_reach ks0 ks loaded \<Longrightarrow> store_reach ks0 ks (limits_of key_id ks # loaded)"
| reserve: "store_reach ks0 ks loaded \<Longrightarrow> limits \<in> set loaded \<Longrightarrow>
    store_reach ks0 (fst (reserve_and_create now rid key_id model tier budget limits ks)) loaded"
| finalize: "store_reach ks0 ks loaded \<Longrightarrow> 0 \<le> i \<Longrightarrow> 0 \<le> out \<Longrightarrow>
    store_reach ks0 (finalize_usage_reservation now rid m i out cached tier ks) loaded"
| fail: "store_reach ks0 ks loaded \<Longrightarrow> \<forall>v. i' = Some v \<longrightarrow> 0 \<le> v \<Longrightarrow> \<forall>v. out' = Some v \<longrightarrow> 0 \<le> v \<Longrightarrow>
    store_reach ks0 (fail_usage_reservation now rid m i' out' cached' tier ks) loaded"
| release: "store_reach ks0 ks loaded \<Longrightarrow> store_reach ks0 (release_usage_reservation now rid ks) loaded"
| touch: "store_reach ks0 ks loaded \<Longrightarrow> store_reach ks0 (fst (touch_usage_reservation now rid ks)) loaded"
| reset: "store_reach ks0 ks loaded \<Longrightarrow> store_reach ks0 (reset_once leader now ks) loaded"

definition fresh_store :: "key_store \<Rightarrow> bool" where
  "fresh_store ks \<longleftrightarrow> distinct (map lim_id (ks_limits ks)) \<and> ks_reservations ks = [] \<and>
     (\<forall>l \<in> set (ks_limits ks). lim_current_value l = 0)"

definition store_inv :: "key_store \<Rightarrow> api_key_limit list list \<Rightarrow> bool" where
  "store_inv ks loaded \<longleftrightarrow> books_ok ks \<and> (\<forall>limits \<in> set loaded. snapshot_ok limits ks)"

lemma store_inv_step:
  "store_inv ks loaded \<Longrightarrow> books_ok ks' \<Longrightarrow> windows_le ks ks' \<Longrightarrow> store_inv ks' loaded"
  by (auto simp: store_inv_def intro: snapshot_windows)

lemma books_finalize:
  "books_ok ks \<Longrightarrow> 0 \<le> i \<Longrightarrow> 0 \<le> out \<Longrightarrow> books_ok (finalize_usage_reservation now rid m i out cached tier ks)"
  by (simp add: finalize_usage_reservation_def books_settle_usage_reservation)

lemma books_fail:
  "books_ok ks \<Longrightarrow> \<forall>v. i = Some v \<longrightarrow> 0 \<le> v \<Longrightarrow> \<forall>v. out = Some v \<longrightarrow> 0 \<le> v \<Longrightarrow>
   books_ok (fail_usage_reservation now rid m i out cached tier ks)"
  by (simp add: fail_usage_reservation_def books_settle_usage_reservation)

lemma windows_finalize_fail:
  "windows_le ks (finalize_usage_reservation now rid m i out cached tier ks)"
  "windows_le ks (fail_usage_reservation now rid m i' out' cached' tier ks)"
  by (simp_all add: finalize_usage_reservation_def fail_usage_reservation_def windows_settle)

lemma store_inv_books: "store_inv ks loaded \<Longrightarrow> books_ok ks"
  by (simp add: store_inv_def)

lemma store_reach_inv:
  assumes "store_reach ks0 ks loaded" and fresh: "fresh_store ks0"
  shows "store_inv ks loaded"
  using assms(1)
proof (induction rule: store_reach.induct)
  case start
  then show ?case using fresh by (simp add: store_inv_def books_ok_def fresh_store_def ledger_def)
next
  case (open_key ks loaded now P)
  show ?case by (intro store_inv_step[OF open_key.IH] books_open_key windows_open_key store_inv_books[OF open_key.IH])
next
  case (read ks loaded key_id)
  then show ?case by (simp add: store_inv_def snapshot_now books_ok_def)
next
  case (reserve ks loaded limits now rid key_id model tier budget)
  then have "books_ok ks" "snapshot_ok limits ks" by (simp_all add: store_inv_def)
  then show ?case
    by (intro store_inv_step[OF reserve.IH] books_reserve_and_create windows_reserve_and_create)
next
  case (finalize ks loaded i out now rid m cached tier)
  then show ?case
    by (intro store_inv_step[OF finalize.IH] books_finalize windows_finalize_fail store_inv_books[OF finalize.IH])
next
  case (fail ks loaded i' out' now rid m cached' tier)
  then show ?case
    by (intro store_inv_step[OF fail.IH] books_fail windows_finalize_fail store_inv_books[OF fail.IH])
next
  case (release ks loaded now rid)
  show ?case
    by (intro store_inv_step[OF release.IH] books_release_usage_reservation windows_release store_inv_books[OF release.IH])
next
  case (touch ks loaded now rid)
  show ?case by (intro store_inv_step[OF touch.IH] books_touch windows_touch store_inv_books[OF touch.IH])
next
  case (reset ks loaded leader now)
  show ?case by (intro store_inv_step[OF reset.IH] books_reset_once windows_reset_once store_inv_books[OF reset.IH])
qed

end
