(* ===== verification/Admission.thy ===== *)
theory Admission
  imports Ledger
begin

text \<open>
  What the limits of API keys guarantee (\<open>Api_Keys\<close>, with the invariants of \<open>Ledger\<close>): exact counters
  under interleaved sessions, admission that never overshoots, its decision, settlement at most once,
  and the effect of the background job.
\<close>

section \<open>Counters\<close>

text \<open>
  C2: The counter of a limit refines the ledger of reservations. Start from a store with no reservation and
  counters at zero and let sessions admit, finalise, fail, release and touch requests and the background
  job run, in any interleaving, reservations being made against limits read at any earlier time. In every
  store reached, the counter of a limit is the sum over the reservations of what they hold in the current
  window of that limit: the estimate of those still open, the real usage of those settled, nothing for
  those released or from earlier windows. So it is never negative and nothing is counted twice or lost.
\<close>

theorem limit_counters_refine_ledger:
  assumes "fresh_store ks0" and "store_reach ks0 ks loaded" and "l \<in> set (ks_limits ks)"
  shows "lim_current_value l = ledger (ks_reservations ks) (lim_id l) (lim_reset_at l) \<and> 0 \<le> lim_current_value l"
proof -
  have "books_ok ks" using store_reach_inv[OF assms(2,1)] by (rule store_inv_books)
  then show ?thesis using assms(3) ledger_nonneg by (simp add: books_ok_def)
qed

text \<open>
  C13: Admission never overshoots a limit. Whatever limits a session has read and whatever other sessions
  have committed since, when a reservation is made every counter either stays as it was or ends at most at
  the maximum of its limit.
\<close>

theorem admission_never_overshoots:
  assumes "fresh_store ks0" and "store_reach ks0 ks loaded" and "limits \<in> set loaded"
    and "reserve_and_create now rid key_id model tier budget limits ks = (ks', Inr rid)" and "l' \<in> set (ks_limits ks')"
  shows "l' \<in> set (ks_limits ks) \<or> lim_current_value l' \<le> lim_max_value l'"
  using assms(4)
proof (cases rule: reserve_and_create_cases)
  case (admitted mid items)
  have inv: "books_ok ks" "snapshot_ok limits ks"
    using store_reach_inv[OF assms(2,1)] assms(3) by (simp_all add: store_inv_def)
  note as = admitted_reserved_as[OF inv admitted(2)]
  obtain l where l: "l \<in> set (ks_limits ks)" "l' = reserve_row items l"
    using assms(5) admitted(4) as by (auto simp: reserved_as_def)
  show ?thesis
  proof (cases "item_for (lim_id l) (lim_reset_at l) items")
    case (Some i)
    note i = item_for_Some[OF Some]
    then have fits: "item_fits (ks_limits ks) i" using as by (auto simp: reserved_as_def)
    have "ri_reserved_delta i = 0 \<or> lim_current_value l + ri_reserved_delta i \<le> lim_max_value l"
      using fits i inv(1) l(1) by (auto simp: item_fits_def books_ok_def distinct_map dest: inj_onD)
    then show ?thesis using l Some by (auto simp: reserve_row_def)
  qed (use l in \<open>simp add: reserve_row_def\<close>)
qed simp

text \<open>
  Releasing undoes admission. When a request is admitted and its reservation released before it is
  settled, every limit row is exactly what it was before the admission.
\<close>

theorem release_undoes_admission:
  assumes "fresh_store ks0" and "store_reach ks0 ks loaded" and "limits \<in> set loaded"
    and "reserve_and_create now rid key_id model tier budget limits ks = (ks', Inr rid)"
  shows "ks_limits (release_usage_reservation later rid ks') = ks_limits ks"
  using assms(4)
proof (cases rule: reserve_and_create_cases)
  case (admitted mid items)
  have inv: "books_ok ks" "snapshot_ok limits ks"
    using store_reach_inv[OF assms(2,1)] assms(3) by (simp_all add: store_inv_def)
  note as = admitted_reserved_as[OF inv admitted(2)]
  define r where "r = \<lparr>ur_id = rid, ur_api_key_id = key_id, ur_model = default model [], ur_status = Reserved,
    ur_items = items, ur_input_tokens = None, ur_output_tokens = None, ur_cached_input_tokens = None,
    ur_cost_microdollars = None, ur_updated_at = now\<rparr>"
  have ks': "ks' = mid\<lparr>ks_reservations := ks_reservations mid @ [r]\<rparr>" using admitted(4) by (simp add: r_def)
  have "books_ok ks'" using books_admitted[OF inv(1) as, of r] admitted(3) by (simp add: ks' r_def)
  then have "get_usage_reservation rid ks' = Some r"
    by (subst get_usage_reservation_Some) (auto simp: books_ok_def ks' r_def)
  moreover have "any_row (\<lambda>r. ur_id r = rid \<and> ur_status r = Reserved) (ks_reservations ks')"
    by (auto simp: any_row_iff ks' r_def)
  ultimately have rel: "ks_limits (release_usage_reservation later rid ks') =
      map (\<lambda>l. fold (adjust_row (\<lambda>_. 0)) items l) (ks_limits ks')"
    by (simp add: release_usage_reservation_def transition_usage_reservation_status_def settle_reservation_row_def
        release_item_eq fold_settle_item Let_def r_def)
  have undone: "fold (adjust_row (\<lambda>_. 0)) items (reserve_row items l) = l" if l: "l \<in> set (ks_limits ks)" for l
  proof -
    have "0 \<le> lim_current_value l" using l inv(1) ledger_nonneg by (simp add: books_ok_def)
    moreover have "distinct (map ri_limit_id items)" using as by (simp add: reserved_as_def)
    ultimately show ?thesis
      by (auto simp: fold_adjust reserve_row_def adjust_row_def add_usage_def Let_def split: option.split dest: item_for_Some)
  qed
  have "ks_limits ks' = map (reserve_row items) (ks_limits ks)" using as by (simp add: ks' reserved_as_def)
  then show ?thesis using undone by (simp add: rel comp_def map_idI)
qed simp

section \<open>Settlement at most once\<close>

definition closed :: "string \<Rightarrow> key_store \<Rightarrow> bool" where
  "closed rid ks = (case get_usage_reservation rid ks of None \<Rightarrow> True | Some r \<Rightarrow> ur_status r \<noteq> Reserved)"

lemma closed_settle: "closed rid ks \<Longrightarrow> settle_usage_reservation now status rid m i out c tier ks = ks"
  by (simp add: closed_def settle_usage_reservation_def split: option.splits)

lemma closed_release: "closed rid ks \<Longrightarrow> release_usage_reservation now rid ks = ks"
  by (simp add: closed_def release_usage_reservation_def split: option.splits)

lemma find_update_rows:
  assumes "\<And>r. P (f r) = P r"
  shows "find P (update_rows P f rows) = map_option f (find P rows)"
  using assms by (induction rows) auto

lemma closed_after:
  assumes "get_usage_reservation rid ks \<noteq> None \<Longrightarrow>
      \<exists>f rows. ks_reservations ks' = update_rows (\<lambda>r. ur_id r = rid) f rows \<and>
        (\<forall>r. ur_id (f r) = ur_id r \<and> ur_status (f r) \<noteq> Reserved)"
    and "get_usage_reservation rid ks = None \<Longrightarrow> ks' = ks"
  shows "closed rid ks'"
proof (cases "get_usage_reservation rid ks = None")
  case False
  then obtain f rows where "ks_reservations ks' = update_rows (\<lambda>r. ur_id r = rid) f rows"
    "\<forall>r. ur_id (f r) = ur_id r \<and> ur_status (f r) \<noteq> Reserved"
    using assms(1) by blast
  then show ?thesis
    by (simp add: closed_def get_usage_reservation_def find_update_rows split: option.split)
qed (use assms(2) in \<open>simp add: closed_def\<close>)

lemma settle_closes:
  assumes "status \<noteq> Reserved"
  shows "closed rid (settle_usage_reservation now status rid m i out c tier ks)"
proof (cases "closed rid ks")
  case True
  then show ?thesis by (simp add: closed_settle)
next
  case False
  then obtain r where g: "get_usage_reservation rid ks = Some r" "ur_status r = Reserved"
    by (auto simp: closed_def split: option.splits)
  then have "any_row (\<lambda>r. ur_id r = rid \<and> ur_status r = Reserved) (ks_reservations ks)"
    by (auto simp: get_usage_reservation_def find_Some_iff any_row_iff)
  with g assms show ?thesis
    by (intro closed_after[where ks = ks])
      (auto simp: settle_usage_reservation_def transition_usage_reservation_status_def settle_reservation_row_def
        update_last_used_def Let_def)
qed

lemma release_closes: "closed rid (release_usage_reservation now rid ks)"
proof (cases "closed rid ks")
  case True
  then show ?thesis by (simp add: closed_release)
next
  case False
  then obtain r where g: "get_usage_reservation rid ks = Some r" "ur_status r = Reserved"
    by (auto simp: closed_def split: option.splits)
  then have "any_row (\<lambda>r. ur_id r = rid \<and> ur_status r = Reserved) (ks_reservations ks)"
    by (auto simp: get_usage_reservation_def find_Some_iff any_row_iff)
  with g show ?thesis
    by (intro closed_after[where ks = ks])
      (auto simp: release_usage_reservation_def transition_usage_reservation_status_def settle_reservation_row_def Let_def)
qed

text \<open>
  A reservation is settled at most once. After a finalisation, a failure or a release, in any store,
  finalising, failing or releasing the same reservation again changes nothing: no counter, no row.
\<close>

theorem settlement_is_final:
  "(let ks' = finalize_usage_reservation t rid m i out c tier ks
    in finalize_usage_reservation t' rid m' i' out' c' tier' ks' = ks' \<and>
       fail_usage_reservation t' rid m' fi fo fc tier' ks' = ks' \<and> release_usage_reservation t' rid ks' = ks') \<and>
   (let ks' = fail_usage_reservation t rid m gi go gc tier ks
    in finalize_usage_reservation t' rid m' i' out' c' tier' ks' = ks' \<and>
       fail_usage_reservation t' rid m' fi fo fc tier' ks' = ks' \<and> release_usage_reservation t' rid ks' = ks') \<and>
   (let ks' = release_usage_reservation t rid ks
    in finalize_usage_reservation t' rid m' i' out' c' tier' ks' = ks' \<and>
       fail_usage_reservation t' rid m' fi fo fc tier' ks' = ks' \<and> release_usage_reservation t' rid ks' = ks')"
  by (simp add: finalize_usage_reservation_def fail_usage_reservation_def Let_def closed_settle closed_release
      settle_closes release_closes)

section \<open>The decision\<close>

text \<open>A limit as it stands after the lazy reset.\<close>

definition current_window :: "real \<Rightarrow> api_key_limit \<Rightarrow> api_key_limit" where
  "current_window now l =
     (if lim_reset_at l < now
      then l\<lparr>lim_current_value := 0, lim_reset_at := advance_limit_reset (lim_reset_at l) now (lim_limit_window l)\<rparr>
      else l)"

definition exhausted :: "string option \<Rightarrow> api_key_limit \<Rightarrow> bool" where
  "exhausted model l \<longleftrightarrow> limit_applies_for_request l model \<and> lim_max_value l \<le> lim_current_value l"

lemma current_window_keeps [simp]:
  "lim_id (current_window now l) = lim_id l" "lim_api_key_id (current_window now l) = lim_api_key_id l"
  by (simp_all add: current_window_def)

lemma lazy_reset_one_rows:
  assumes "distinct (map lim_id (ks_limits ks))" and "l \<in> set (ks_limits ks)"
  shows "lazy_reset_one now l ks =
    ks\<lparr>ks_limits := map (\<lambda>q. if lim_id q = lim_id l then current_window now q else q) (ks_limits ks)\<rparr>"
proof -
  have uniq: "q = l" if "q \<in> set (ks_limits ks)" "lim_id q = lim_id l" for q
    using assms that by (auto simp: distinct_map dest: inj_onD)
  have "map (\<lambda>q. if lim_id q = lim_id l then current_window now q else q) (ks_limits ks) =
      (if lim_reset_at l < now
       then update_rows (\<lambda>q. lim_id q = lim_id l \<and> lim_reset_at q = lim_reset_at l)
         (\<lambda>q. q\<lparr>lim_current_value := 0, lim_reset_at := advance_limit_reset (lim_reset_at l) now (lim_limit_window l)\<rparr>) (ks_limits ks)
       else ks_limits ks)"
    unfolding update_rows_def by (auto simp: current_window_def intro!: map_idI dest: uniq)
  then show ?thesis by (simp add: lazy_reset_one_def reset_limit_def Let_def)
qed

lemma lazy_reset_rows:
  assumes "distinct (map lim_id (ks_limits ks))" and "distinct (map lim_id limits)"
    and "set limits \<subseteq> set (ks_limits ks)"
  shows "fold (lazy_reset_one now) limits ks =
    ks\<lparr>ks_limits := map (\<lambda>q. if lim_id q \<in> lim_id ` set limits then current_window now q else q) (ks_limits ks)\<rparr>"
  using assms
proof (induction limits arbitrary: ks)
  case (Cons l limits)
  let ?ks = "lazy_reset_one now l ks"
  have ks: "?ks = ks\<lparr>ks_limits := map (\<lambda>q. if lim_id q = lim_id l then current_window now q else q) (ks_limits ks)\<rparr>"
    using Cons.prems by (intro lazy_reset_one_rows) simp_all
  have ids: "map lim_id (ks_limits ?ks) = map lim_id (ks_limits ks)" by (simp add: ks)
  have "set limits \<subseteq> set (ks_limits ?ks)"
  proof
    fix q assume q: "q \<in> set limits"
    then have "lim_id q \<noteq> lim_id l" "q \<in> set (ks_limits ks)" using Cons.prems by (auto simp: image_iff)
    then show "q \<in> set (ks_limits ?ks)" by (auto simp: ks image_iff intro!: bexI[of _ q])
  qed
  then have "fold (lazy_reset_one now) limits ?ks =
      ?ks\<lparr>ks_limits := map (\<lambda>q. if lim_id q \<in> lim_id ` set limits then current_window now q else q) (ks_limits ?ks)\<rparr>"
    using Cons.prems ids by (intro Cons.IH) simp_all
  moreover have "lim_id l \<notin> lim_id ` set limits" using Cons.prems by simp
  ultimately show ?case by (auto simp: ks comp_def intro!: arg_cong[where f = "\<lambda>x. ks\<lparr>ks_limits := x\<rparr>"])
qed simp

definition roll_over :: "real \<Rightarrow> string \<Rightarrow> key_store \<Rightarrow> key_store" where
  "roll_over now key_id ks =
     ks\<lparr>ks_limits := map (\<lambda>l. if lim_api_key_id l = key_id then current_window now l else l) (ks_limits ks)\<rparr>"

lemma limits_roll_over: "limits_of key_id (roll_over now key_id ks) = map (current_window now) (limits_of key_id ks)"
proof -
  have "filter (\<lambda>l. lim_api_key_id l = key_id) (map (\<lambda>l. if lim_api_key_id l = key_id then current_window now l else l) ls) =
    map (current_window now) (filter (\<lambda>l. lim_api_key_id l = key_id) ls)" for ls
    by (induction ls) simp_all
  then show ?thesis by (simp add: limits_of_def roll_over_def)
qed

lemma lazy_reset_all:
  assumes "distinct (map lim_id (ks_limits ks))"
  shows "fst (lazy_reset_expired_limits now (limits_of key_id ks) ks) = roll_over now key_id ks"
proof -
  have snap: "distinct (map lim_id (limits_of key_id ks))" using snapshot_now[OF assms, of key_id] by (simp add: snapshot_ok_def)
  have "lim_id q \<in> lim_id ` set (limits_of key_id ks) \<longleftrightarrow> lim_api_key_id q = key_id" if "q \<in> set (ks_limits ks)" for q
    using assms that by (auto simp: limits_of_def distinct_map image_iff dest: inj_onD)
  moreover have "set (limits_of key_id ks) \<subseteq> set (ks_limits ks)" by (simp add: limits_of_def)
  ultimately show ?thesis
    using lazy_reset_rows[OF assms snap] by (simp add: lazy_reset_expired_limits_def roll_over_def cong: map_cong)
qed

lemma reserve_limits_decision:
  assumes "distinct (map lim_id (ks_limits ks))" and "distinct (map lim_id limits)" and "set limits \<subseteq> set (ks_limits ks)"
    and "0 \<le> fst budget" and "0 \<le> snd budget"
  shows "case find (exhausted model) limits of
      Some l \<Rightarrow> reserve_limits model tier budget limits ks = Inl (rate_limit_exceeded_error l)
    | None \<Rightarrow> \<exists>ks' items. reserve_limits model tier budget limits ks = Inr (ks', items)"
  using assms(1-3)
proof (induction limits arbitrary: ks)
  case (Cons limit limits)
  let ?delta = "reserve_delta_for_limit limit model tier budget"
  let ?one = "if ?delta > 0 then try_reserve_usage (lim_id limit) ?delta (lim_reset_at limit) ks else (ks, True)"
  show ?case
  proof (cases "limit_applies_for_request limit model \<and> lim_current_value limit < lim_max_value limit")
    case False
    have ex: "exhausted model limit = limit_applies_for_request limit model" using False by (auto simp: exhausted_def)
    show ?thesis
    proof (cases "limit_applies_for_request limit model")
      case True
      then show ?thesis using False by (simp add: ex)
    next
      case skip: False
      then show ?thesis using Cons.IH[of ks] Cons.prems by (cases "find (exhausted model) limits") (simp_all add: ex)
    qed
  next
    case True
    have nonneg: "0 \<le> ?delta" by (rule reserve_delta_nonneg[OF assms(4,5)])
    have "lim_current_value limit + ?delta \<le> lim_max_value limit" using True by (simp add: reserve_delta_for_limit_def Let_def)
    then have "snd ?one" using Cons.prems(3) by (auto simp: try_reserve_usage_def any_row_iff Let_def)
    then obtain ks1 where one: "?one = (ks1, True)" by (metis prod.collapse)
    have ks1: "ks1 = ks\<lparr>ks_limits := map (reserve_step limit ?delta) (ks_limits ks)\<rparr>"
      by (rule reserve_one(1)[OF Cons.prems(1) nonneg one])
    have "set limits \<subseteq> set (ks_limits ks1)"
    proof
      fix q assume "q \<in> set limits"
      then have "lim_id q \<noteq> lim_id limit" "q \<in> set (ks_limits ks)" using Cons.prems by (auto simp: image_iff)
      then show "q \<in> set (ks_limits ks1)" by (auto simp: ks1 reserve_step_def image_iff intro!: bexI[of _ q])
    qed
    then have "case find (exhausted model) limits of
        Some l \<Rightarrow> reserve_limits model tier budget limits ks1 = Inl (rate_limit_exceeded_error l)
      | None \<Rightarrow> \<exists>ks' items. reserve_limits model tier budget limits ks1 = Inr (ks', items)"
      using Cons.prems by (intro Cons.IH) (simp_all add: ks1 comp_def)
    moreover have "\<not> exhausted model limit" using True by (simp add: exhausted_def)
    ultimately show ?thesis using True one by (auto simp: Let_def split: option.splits)
  qed
qed simp

lemma reserve_limits_reservations:
  "reserve_limits model tier budget limits ks = Inr (ks', items) \<Longrightarrow> ks_reservations ks' = ks_reservations ks"
proof (induction limits arbitrary: ks items)
  case (Cons limit limits)
  then show ?case
    by (auto simp: try_reserve_usage_def Let_def split: if_splits sum.splits)
qed simp

definition key_usable :: "real \<Rightarrow> api_key \<Rightarrow> bool" where
  "key_usable now k \<longleftrightarrow> ak_is_active k \<and> (case ak_expires_at k of None \<Rightarrow> True | Some e \<Rightarrow> now \<le> e)"

lemma open_key_cases:
  assumes "distinct (map lim_id (ks_limits ks))" and "\<And>k. find_key P ks = Some k \<Longrightarrow> ak_id k = key_id"
  shows "open_key now P ks =
    (case find_key P ks of
       None \<Rightarrow> (ks, Inl (ApiKeyInvalidError ''Invalid API key''))
     | Some k \<Rightarrow> if key_usable now k then (roll_over now key_id ks, Inr k)
                else (ks, Inl (ApiKeyInvalidError (if ak_is_active k then ''API key has expired'' else ''Invalid API key''))))"
proof (cases "find_key P ks")
  case (Some k)
  obtain b where lazy: "lazy_reset_expired_limits now (limits_of (ak_id k) ks) ks = (roll_over now key_id ks, b)"
    using lazy_reset_all[OF assms(1), of now key_id] assms(2)[OF Some] by (metis prod.collapse)
  have "find_key P (roll_over now key_id ks) = Some k" using Some by (simp add: find_key_def roll_over_def)
  then show ?thesis
    using Some lazy
    by (simp add: open_key_def ensure_valid_api_key_row_def check_unexpired_def key_usable_def split: option.split)
qed (simp add: open_key_def ensure_valid_api_key_row_def)

lemma enforce_reserve:
  assumes "distinct (map lim_id (ks_limits ks))" and "\<forall>r \<in> set (ks_reservations ks). ur_id r \<noteq> rid"
  shows "case find (exhausted model) (limits_of key_id ks) of
      Some l \<Rightarrow> reserve_and_create now rid key_id model tier budget (limits_of key_id ks) ks = (ks, Inl (rate_limit_exceeded_error l))
    | None \<Rightarrow> snd (reserve_and_create now rid key_id model tier budget (limits_of key_id ks) ks) = Inr rid"
proof -
  let ?budget = "normalize_request_usage_budget budget"
  have snap: "snapshot_ok (limits_of key_id ks) ks" by (rule snapshot_now[OF assms(1)])
  note D = reserve_limits_decision[OF assms(1) _ _ normalized_budget_nonneg[of budget], where limits = "limits_of key_id ks" and model = model and tier = tier]
  show ?thesis
  proof (cases "find (exhausted model) (limits_of key_id ks)")
    case None
    then obtain ks' items where run: "reserve_limits model tier ?budget (limits_of key_id ks) ks = Inr (ks', items)"
      using D snap by (auto simp: snapshot_ok_def limits_of_def)
    have "distinct (map ri_limit_id items)"
      using reserve_limits_spec[OF assms(1) snap normalized_budget_nonneg run] by (simp add: reserved_as_def)
    then show ?thesis
      using None run assms(2) reserve_limits_reservations[OF run]
      by (auto simp: reserve_and_create_def create_usage_reservation_def any_row_iff)
  next
    case (Some l)
    then show ?thesis using D snap by (auto simp: snapshot_ok_def limits_of_def reserve_and_create_def)
  qed
qed

text \<open>
  C35: The decision on a request. A key that is unknown, inactive or expired is refused with nothing
  changed. Otherwise the limits of the key whose window is over start their new window, and the request
  is refused exactly when some limit that applies to its model is used up in its current window; the
  error names the first such limit, and no counter is touched by a refusal. In every other case it is
  admitted.
\<close>

theorem admission_decision:
  assumes "distinct (map lim_id (ks_limits ks))" and "\<forall>r \<in> set (ks_reservations ks). ur_id r \<noteq> rid"
  shows "case find (\<lambda>k. ak_id k = key_id) (ks_keys ks) of
      None \<Rightarrow> enforce_limits_for_request now rid key_id model tier budget ks =
                (ks, Inl (ApiKeyInvalidError ''Invalid API key''))
    | Some k \<Rightarrow>
        if key_usable now k
        then (case find (exhausted model) (map (current_window now) (limits_of key_id ks)) of
                Some l \<Rightarrow> enforce_limits_for_request now rid key_id model tier budget ks =
                  (roll_over now key_id ks, Inl (rate_limit_exceeded_error l))
              | None \<Rightarrow> snd (enforce_limits_for_request now rid key_id model tier budget ks) = Inr rid)
        else (\<exists>msg. enforce_limits_for_request now rid key_id model tier budget ks = (ks, Inl (ApiKeyInvalidError msg)))"
proof -
  have key: "ak_id k = key_id" if "find (\<lambda>k. ak_id k = key_id) (ks_keys ks) = Some k" for k
    using that by (auto simp: find_Some_iff)
  have opened: "open_key now (\<lambda>k. ak_id k = key_id) ks =
    (case find (\<lambda>k. ak_id k = key_id) (ks_keys ks) of
       None \<Rightarrow> (ks, Inl (ApiKeyInvalidError ''Invalid API key''))
     | Some k \<Rightarrow> if key_usable now k then (roll_over now key_id ks, Inr k)
                else (ks, Inl (ApiKeyInvalidError (if ak_is_active k then ''API key has expired'' else ''Invalid API key''))))"
    by (rule open_key_cases[OF assms(1), where P = "\<lambda>k. ak_id k = key_id" and key_id = key_id, unfolded find_key_def], erule key)
  let ?ks = "roll_over now key_id ks"
  have "map lim_id (ks_limits ?ks) = map lim_id (ks_limits ks)" by (simp add: roll_over_def)
  then have "distinct (map lim_id (ks_limits ?ks))" using assms(1) by simp
  moreover have "\<forall>r \<in> set (ks_reservations ?ks). ur_id r \<noteq> rid" using assms(2) by (simp add: roll_over_def)
  ultimately have decide: "case find (exhausted model) (limits_of key_id ?ks) of
      Some l \<Rightarrow> reserve_and_create now rid key_id model tier budget (limits_of key_id ?ks) ?ks = (?ks, Inl (rate_limit_exceeded_error l))
    | None \<Rightarrow> snd (reserve_and_create now rid key_id model tier budget (limits_of key_id ?ks) ?ks) = Inr rid"
    by (rule enforce_reserve)
  show ?thesis
  proof (cases "find (\<lambda>k. ak_id k = key_id) (ks_keys ks)")
    case (Some k)
    then show ?thesis
      using decide
      by (cases "find (exhausted model) (map (current_window now) (limits_of key_id ks))")
        (auto simp: enforce_limits_for_request_def opened limits_roll_over)
  qed (simp add: enforce_limits_for_request_def opened)
qed

section \<open>Windows and the background job\<close>

lemma advance_limit_reset_grid:
  "\<exists>k :: nat. advance_limit_reset r now window = r + of_nat k * limit_window_delta window \<and>
     (k = 0 \<longleftrightarrow> now < r) \<and> (0 < k \<longrightarrow> advance_limit_reset r now window \<le> now + limit_window_delta window)"
proof (induction r now window rule: advance_limit_reset.induct)
  case (1 r now window)
  show ?case
  proof (cases "r \<le> now")
    case True
    have eq: "advance_limit_reset r now window = advance_limit_reset (r + limit_window_delta window) now window"
      using True by (subst advance_limit_reset.simps) simp
    obtain k :: nat where k: "advance_limit_reset r now window = (r + limit_window_delta window) + of_nat k * limit_window_delta window"
      "k = 0 \<longleftrightarrow> now < r + limit_window_delta window"
      "0 < k \<longrightarrow> advance_limit_reset r now window \<le> now + limit_window_delta window"
      using 1[OF True] unfolding eq by blast
    have "advance_limit_reset r now window \<le> now + limit_window_delta window"
      using k True by (cases "k = 0") auto
    then show ?thesis using k(1) True by (intro exI[of _ "Suc k"]) (auto simp: algebra_simps)
  next
    case False
    then show ?thesis by (intro exI[of _ 0]) (simp add: advance_limit_reset.simps[of r])
  qed
qed

text \<open>
  C36: A window that is over is advanced to the first boundary after now, however long the limit has been
  idle: the loop ends, the new boundary is later than now by at most one window, and it differs from the
  old one by a whole number of windows. A boundary in the future stays where it is.
\<close>

theorem window_advances_on_grid:
  "\<exists>k :: nat. advance_limit_reset reset_at now window = reset_at + of_nat k * limit_window_delta window \<and>
     now < advance_limit_reset reset_at now window \<and>
     (if now < reset_at then k = 0 else advance_limit_reset reset_at now window \<le> now + limit_window_delta window)"
proof -
  obtain k :: nat where "advance_limit_reset reset_at now window = reset_at + of_nat k * limit_window_delta window \<and>
     (k = 0 \<longleftrightarrow> now < reset_at) \<and>
     (0 < k \<longrightarrow> advance_limit_reset reset_at now window \<le> now + limit_window_delta window)"
    using advance_limit_reset_grid by blast
  then show ?thesis using advance_limit_reset_gt[of now reset_at window] by (intro exI[of _ k]) auto
qed

lemma reset_expired_done:
  "\<forall>l \<in> set (ks_limits (fst (reset_expired_limits now n ks))). now \<le> lim_reset_at l"
proof (induction now n ks rule: reset_expired_limits.induct)
  case (1 now n ks)
  show ?case
  proof (cases "expired_batch now ks = []")
    case True
    then have "filter (\<lambda>l. lim_reset_at l < now) (ks_limits ks) = []"
      by (simp add: expired_batch_def) (metis length_0_conv length_sort)
    then show ?thesis using True by (subst reset_expired_limits.simps) (auto simp: filter_empty_conv not_less)
  next
    case False
    then show ?thesis using 1[OF refl False refl] by (subst reset_expired_limits.simps) (simp add: Let_def)
  qed
qed

lemma release_stale_done:
  assumes "0 < batch"
  shows "\<forall>r \<in> set (ks_reservations (fst (release_stale_usage_reservations now batch cutoff n ks))). \<not> stale_reserved cutoff r"
  using assms
proof (induction now batch cutoff n ks rule: release_stale_usage_reservations.induct)
  case (1 now batch cutoff n ks)
  show ?case
  proof (cases "stale_batch batch cutoff ks = []")
    case True
    then have "filter (stale_reserved cutoff) (ks_reservations ks) = []"
      using "1.prems" by (simp add: stale_batch_def) (metis length_0_conv length_sort)
    then show ?thesis using True by (subst release_stale_usage_reservations.simps) (auto simp: filter_empty_conv)
  next
    case False
    then show ?thesis
      using "1.IH"[OF refl False refl "1.prems"] by (subst release_stale_usage_reservations.simps) (simp add: Let_def)
  qed
qed

text \<open>
  One run of the background job on the leader catches up completely, whatever the backlog: afterwards no limit has a
  window that is over, and no reservation untouched for six hours is still open.
\<close>

theorem background_job_catches_up:
  "list_all (\<lambda>l. now \<le> lim_reset_at l) (ks_limits (reset_once True now ks)) \<and>
   list_all (\<lambda>r. \<not> stale_reserved (now - 6 * 3600) r) (ks_reservations (reset_once True now ks))"
proof -
  let ?ks = "fst (reset_expired_limits now 0 ks)"
  have "windows_le ?ks (reset_once True now ks)" by (simp add: reset_once_def windows_release_stale)
  then have "\<exists>l \<in> set (ks_limits ?ks). lim_reset_at l \<le> lim_reset_at l'" if "l' \<in> set (ks_limits (reset_once True now ks))" for l'
    using that unfolding windows_le_def by (induction rule: list_all2_induct) auto
  then have "now \<le> lim_reset_at l'" if "l' \<in> set (ks_limits (reset_once True now ks))" for l'
    using that reset_expired_done[of now 0 ks] by (meson order_trans)
  then show ?thesis
    using release_stale_done[of 500] by (simp add: list_all_iff reset_once_def)
qed

section \<open>Witnesses\<close>

definition example_limits :: "api_key_limit list" where
  "example_limits =
     [\<lparr>lim_id = 1, lim_api_key_id = ''k'', lim_limit_type = TOTAL_TOKENS, lim_limit_window = DAILY, lim_max_value = 100,
       lim_current_value = 0, lim_model_filter = None, lim_reset_at = 1000\<rparr>,
      \<lparr>lim_id = 2, lim_api_key_id = ''k'', lim_limit_type = INPUT_TOKENS, lim_limit_window = WEEKLY, lim_max_value = 50,
       lim_current_value = 0, lim_model_filter = Some ''m'', lim_reset_at = 2000\<rparr>]"

definition example_store :: key_store where
  "example_store =
     \<lparr>ks_keys = [\<lparr>ak_id = ''k'', ak_key_hash = ''h'', ak_expires_at = None, ak_is_active = True, ak_last_used_at = None\<rparr>],
      ks_limits = example_limits, ks_reservations = []\<rparr>"

definition example_admission :: "key_store \<times> (api_key_error + string)" where
  "example_admission =
     reserve_and_create 10 ''r'' ''k'' (Some ''m'') None (Some (Some 30, Some 10)) (limits_of ''k'' example_store) example_store"

lemma example_admission_eq:
  "example_admission =
     (example_store\<lparr>ks_limits := map (\<lambda>l. add_usage (if lim_id l = 1 then 40 else 30) l) example_limits,
        ks_reservations := [\<lparr>ur_id = ''r'', ur_api_key_id = ''k'', ur_model = ''m'', ur_status = Reserved,
          ur_items = [\<lparr>ri_limit_id = 1, ri_limit_type = TOTAL_TOKENS, ri_reserved_delta = 40, ri_expected_reset_at = 1000, ri_actual_delta = None\<rparr>,
            \<lparr>ri_limit_id = 2, ri_limit_type = INPUT_TOKENS, ri_reserved_delta = 30, ri_expected_reset_at = 2000, ri_actual_delta = None\<rparr>],
          ur_input_tokens = None, ur_output_tokens = None, ur_cached_input_tokens = None, ur_cost_microdollars = None,
          ur_updated_at = 10\<rparr>]\<rparr>, Inr ''r'')"
  by (simp add: example_admission_def example_store_def example_limits_def limits_of_def reserve_and_create_def
      limit_applies_for_request_def reserve_delta_for_limit_def reserve_budget_for_limit_type_def Let_def
      normalize_request_usage_budget_def normalize_reservation_token_budget_def try_reserve_usage_def any_row_def
      add_usage_def create_usage_reservation_def default_def)

lemma example_fresh: "fresh_store example_store"
  by (simp add: fresh_store_def example_store_def example_limits_def)

lemma example_reach: "store_reach example_store example_store [limits_of ''k'' example_store]"
  by (intro store_reach.read store_reach.start)

theorem limit_counters_refine_ledger_witness:
  "list_all (\<lambda>l. lim_current_value l = ledger (ks_reservations (fst example_admission)) (lim_id l) (lim_reset_at l))
     (ks_limits (fst example_admission)) \<and> map lim_current_value (ks_limits (fst example_admission)) = [40, 30]"
proof -
  have "store_reach example_store (fst example_admission) [limits_of ''k'' example_store]"
    unfolding example_admission_def by (rule store_reach.reserve[OF example_reach]) simp
  from limit_counters_refine_ledger[OF example_fresh this]
  show ?thesis by (auto simp: list_all_iff example_admission_eq example_limits_def example_store_def)
qed

theorem admission_never_overshoots_witness:
  "\<exists>l \<in> set (ks_limits (fst example_admission)). lim_current_value l = 40 \<and> lim_current_value l \<le> lim_max_value l"
proof -
  let ?l = "\<lparr>lim_id = 1, lim_api_key_id = ''k'', lim_limit_type = TOTAL_TOKENS, lim_limit_window = DAILY, lim_max_value = 100,
       lim_current_value = 40, lim_model_filter = None, lim_reset_at = 1000\<rparr>"
  have mem: "?l \<in> set (ks_limits (fst example_admission))"
    by (simp add: example_admission_eq example_store_def example_limits_def add_usage_def)
  have run: "reserve_and_create 10 ''r'' ''k'' (Some ''m'') None (Some (Some 30, Some 10)) (limits_of ''k'' example_store) example_store =
      (fst example_admission, Inr ''r'')"
    using example_admission_eq by (simp add: example_admission_def)
  have "?l \<notin> set (ks_limits example_store)" by (simp add: example_store_def example_limits_def)
  then have "lim_current_value ?l \<le> lim_max_value ?l"
    using admission_never_overshoots[OF example_fresh example_reach _ run mem] by simp
  with mem show ?thesis by force
qed

theorem release_undoes_admission_witness:
  "ks_limits (fst example_admission) \<noteq> example_limits \<and>
   ks_limits (release_usage_reservation 11 ''r'' (fst example_admission)) = example_limits"
proof -
  have run: "reserve_and_create 10 ''r'' ''k'' (Some ''m'') None (Some (Some 30, Some 10)) (limits_of ''k'' example_store) example_store =
      (fst example_admission, Inr ''r'')"
    using example_admission_eq by (simp add: example_admission_def)
  show ?thesis
    using release_undoes_admission[OF example_fresh example_reach _ run, of 11]
    by (simp add: example_store_def, simp add: example_admission_eq example_limits_def add_usage_def example_store_def)
qed

theorem admission_decision_witness:
  "snd (enforce_limits_for_request 10 ''r'' ''k'' (Some ''m'') None None example_store) = Inr ''r'' \<and>
   enforce_limits_for_request 10 ''r'' ''x'' (Some ''m'') None None example_store =
     (example_store, Inl (ApiKeyInvalidError ''Invalid API key''))"
proof -
  have ids: "distinct (map lim_id (ks_limits example_store))" "\<forall>r \<in> set (ks_reservations example_store). ur_id r \<noteq> ''r''"
    by (simp_all add: example_store_def example_limits_def)
  show ?thesis
    using admission_decision[OF ids, where key_id = "''k''" and now = 10 and model = "Some ''m''" and tier = None and budget = None]
      admission_decision[OF ids, where key_id = "''x''" and now = 10 and model = "Some ''m''" and tier = None and budget = None]
    by (simp add: example_store_def example_limits_def limits_of_def key_usable_def current_window_def exhausted_def)
qed

end
