(* ===== verification/Bridge.thy ===== *)
theory Bridge
  imports Prelude
begin

text \<open>
  Durable bridge sessions shared by replicas (\<open>app/modules/proxy/durable_bridge_repository.py\<close> and
  \<open>durable_bridge_coordinator.py\<close>): the session and alias tables, claiming, renewing, releasing and
  draining ownership, the purge of closed sessions, and the lookup of a request's session.

  \<^item> A replica reads a row, decides, and writes later. What other replicas commit in between is the
    argument \<open>race\<close>. A flush writes the columns whose assigned value differs from the loaded one, to the
    row with that primary key, whatever it holds by then; \<open>claim_session\<close> locks the row it has found
    (\<open>SELECT ... FOR UPDATE\<close>), so nothing intervenes there.
  \<^item> The clock, the generated ids and the hash function (\<open>sha256\<close>) are arguments.
  \<^item> The foreign key to the accounts table is not modelled: account ids are taken as they come.
\<close>

section \<open>Rows\<close>

datatype HttpBridgeSessionState = SESSION_ACTIVE | SESSION_DRAINING | SESSION_CLOSED

record bridge_snapshot =
  bs_id :: string
  bs_session_key_kind :: string
  bs_session_key_value :: string
  bs_session_key_hash :: string
  bs_api_key_scope :: string
  bs_owner_instance_id :: "string option"
  bs_owner_epoch :: int
  bs_lease_expires_at :: "real option"
  bs_state :: HttpBridgeSessionState
  bs_account_id :: "string option"
  bs_model :: "string option"
  bs_service_tier :: "string option"
  bs_latest_turn_state :: "string option"
  bs_latest_response_id :: "string option"
  bs_latest_input_item_count :: "int option"
  bs_latest_input_full_fingerprint :: "string option"
  bs_closed_at :: "real option"

record bridge_record = bridge_snapshot +
  bs_last_seen_at :: real
  bs_updated_at :: real

record bridge_alias =
  al_session_id :: string
  al_alias_kind :: string
  al_alias_value :: string
  al_alias_hash :: string
  al_api_key_scope :: string

record bridge_store =
  br_sessions :: "bridge_record list"
  br_aliases :: "bridge_alias list"

datatype bridge_error = BridgeIntegrityError | StaleDataError

definition to_snapshot :: "bridge_record \<Rightarrow> bridge_snapshot" where
  "to_snapshot row = bridge_snapshot.truncate row"

abbreviation (input) ANONYMOUS_API_KEY_SCOPE :: string where "ANONYMOUS_API_KEY_SCOPE \<equiv> ''__anonymous__''"

definition durable_bridge_api_key_scope :: "string option \<Rightarrow> string" where
  "durable_bridge_api_key_scope api_key_id =
     (case api_key_id of
        None \<Rightarrow> ANONYMOUS_API_KEY_SCOPE
      | Some k \<Rightarrow> (let stripped = py_strip k in if stripped = [] then ANONYMOUS_API_KEY_SCOPE else stripped))"

section \<open>Queries\<close>

definition session_key_matches :: "(string \<Rightarrow> string) \<Rightarrow> string \<Rightarrow> string \<Rightarrow> string \<Rightarrow> bridge_record \<Rightarrow> bool" where
  "session_key_matches hash kind key scope row \<longleftrightarrow>
     bs_session_key_kind row = kind \<and> bs_session_key_hash row = hash key \<and> bs_api_key_scope row = scope"

definition find_session :: "(string \<Rightarrow> string) \<Rightarrow> string \<Rightarrow> string \<Rightarrow> string \<Rightarrow> bridge_store \<Rightarrow> bridge_record option" where
  "find_session hash kind key scope st = find (session_key_matches hash kind key scope) (br_sessions st)"

definition get_session :: "(string \<Rightarrow> string) \<Rightarrow> string \<Rightarrow> string \<Rightarrow> string \<Rightarrow> bridge_store \<Rightarrow> bridge_snapshot option" where
  "get_session hash kind key scope st = map_option to_snapshot (find_session hash kind key scope st)"

definition row_by_id :: "string \<Rightarrow> bridge_store \<Rightarrow> bridge_record option" where
  "row_by_id session_id st = find (\<lambda>r. bs_id r = session_id) (br_sessions st)"

definition get_session_by_id :: "string \<Rightarrow> bridge_store \<Rightarrow> bridge_snapshot option" where
  "get_session_by_id session_id st = map_option to_snapshot (row_by_id session_id st)"

definition alias_key_matches :: "(string \<Rightarrow> string) \<Rightarrow> string \<Rightarrow> string \<Rightarrow> string \<Rightarrow> bridge_alias \<Rightarrow> bool" where
  "alias_key_matches hash kind value scope a \<longleftrightarrow>
     al_alias_kind a = kind \<and> al_alias_hash a = hash value \<and> al_api_key_scope a = scope"

text \<open>The join of the alias rows that match with their sessions, first row only.\<close>

definition resolve_alias :: "(string \<Rightarrow> string) \<Rightarrow> string \<Rightarrow> string \<Rightarrow> string \<Rightarrow> bridge_store \<Rightarrow> bridge_snapshot option" where
  "resolve_alias hash kind value scope st =
     map_option to_snapshot
       (find (\<lambda>r. list_ex (\<lambda>a. alias_key_matches hash kind value scope a \<and> al_session_id a = bs_id r) (br_aliases st))
          (br_sessions st))"

definition recency_order :: "bridge_record list \<Rightarrow> bridge_record list" where
  "recency_order rows =
     sort_key (\<lambda>r. if bs_state r = SESSION_ACTIVE then 0 else 1 :: nat)
       (sort_key (\<lambda>r. - bs_last_seen_at r) (sort_key (\<lambda>r. - bs_updated_at r) rows))"

definition find_live :: "(bridge_record \<Rightarrow> bool) \<Rightarrow> bridge_store \<Rightarrow> bridge_snapshot option" where
  "find_live P st =
     (case recency_order (filter (\<lambda>r. P r \<and> bs_state r \<in> {SESSION_ACTIVE, SESSION_DRAINING}) (br_sessions st)) of
        [] \<Rightarrow> None | r # _ \<Rightarrow> Some (to_snapshot r))"

definition find_session_by_latest_turn_state :: "string \<Rightarrow> string \<Rightarrow> bridge_store \<Rightarrow> bridge_snapshot option" where
  "find_session_by_latest_turn_state turn_state scope =
     find_live (\<lambda>r. bs_latest_turn_state r = Some turn_state \<and> bs_api_key_scope r = scope)"

definition find_session_by_latest_response_id :: "string \<Rightarrow> string \<Rightarrow> bridge_store \<Rightarrow> bridge_snapshot option" where
  "find_session_by_latest_response_id response_id scope =
     find_live (\<lambda>r. bs_latest_response_id r = Some response_id \<and> bs_api_key_scope r = scope)"

section \<open>Claiming\<close>

record claim_args =
  ca_session_key_kind :: string
  ca_session_key_value :: string
  ca_api_key_scope :: string
  ca_instance_id :: string
  ca_lease_ttl_seconds :: real
  ca_account_id :: "string option"
  ca_model :: "string option"
  ca_service_tier :: "string option"
  ca_latest_turn_state :: "string option"
  ca_latest_response_id :: "string option"
  ca_allow_takeover :: bool
  ca_force_owner_epoch_advance :: bool

definition new_session :: "(string \<Rightarrow> string) \<Rightarrow> string \<Rightarrow> real \<Rightarrow> claim_args \<Rightarrow> bridge_record" where
  "new_session hash new_id now args =
     \<lparr>bs_id = new_id, bs_session_key_kind = ca_session_key_kind args, bs_session_key_value = ca_session_key_value args,
      bs_session_key_hash = hash (ca_session_key_value args), bs_api_key_scope = ca_api_key_scope args,
      bs_owner_instance_id = Some (ca_instance_id args), bs_owner_epoch = 1,
      bs_lease_expires_at = Some (now + max 1 (ca_lease_ttl_seconds args)), bs_state = SESSION_ACTIVE,
      bs_account_id = ca_account_id args, bs_model = ca_model args, bs_service_tier = ca_service_tier args,
      bs_latest_turn_state = ca_latest_turn_state args, bs_latest_response_id = ca_latest_response_id args,
      bs_latest_input_item_count = None, bs_latest_input_full_fingerprint = None, bs_closed_at = None,
      bs_last_seen_at = now, bs_updated_at = now\<rparr>"

definition owner_changed :: "claim_args \<Rightarrow> bridge_record \<Rightarrow> bool" where
  "owner_changed args row = (bs_owner_instance_id row \<noteq> Some (ca_instance_id args))"

definition account_changed :: "claim_args \<Rightarrow> bridge_record \<Rightarrow> bool" where
  "account_changed args row = (bs_account_id row \<noteq> ca_account_id args)"

definition lease_expired :: "real \<Rightarrow> bridge_record \<Rightarrow> bool" where
  "lease_expired now row = (case bs_lease_expires_at row of None \<Rightarrow> True | Some t \<Rightarrow> t \<le> now)"

definition claim_refused :: "real \<Rightarrow> claim_args \<Rightarrow> bridge_record \<Rightarrow> bool" where
  "claim_refused now args row =
     (owner_changed args row \<and> \<not> ca_allow_takeover args \<and> \<not> lease_expired now row \<and>
      bs_state row \<notin> {SESSION_DRAINING, SESSION_CLOSED})"

definition next_epoch :: "claim_args \<Rightarrow> bridge_record \<Rightarrow> int" where
  "next_epoch args row =
     (if owner_changed args row then bs_owner_epoch row + 1
      else if account_changed args row \<or> ca_force_owner_epoch_advance args then bs_owner_epoch row + 1
      else bs_owner_epoch row)"

definition claimed_latest :: "claim_args \<Rightarrow> bridge_record \<Rightarrow> bridge_record \<Rightarrow> bridge_record" where
  "claimed_latest args row r =
     (if account_changed args row
      then r\<lparr>bs_latest_turn_state := ca_latest_turn_state args, bs_latest_response_id := ca_latest_response_id args,
             bs_latest_input_item_count := None, bs_latest_input_full_fingerprint := None\<rparr>
      else
        let reopen = (owner_changed args row \<and> bs_state row = SESSION_CLOSED);
            r = (if ca_latest_turn_state args \<noteq> None \<or> reopen
                 then r\<lparr>bs_latest_turn_state := ca_latest_turn_state args\<rparr> else r)
        in (if ca_latest_response_id args \<noteq> None \<or> reopen
            then r\<lparr>bs_latest_response_id := ca_latest_response_id args,
                   bs_latest_input_item_count := None, bs_latest_input_full_fingerprint := None\<rparr>
            else r))"

definition claimed_row :: "real \<Rightarrow> claim_args \<Rightarrow> bridge_record \<Rightarrow> bridge_record" where
  "claimed_row now args row =
     claimed_latest args row
       (row\<lparr>bs_owner_instance_id := Some (ca_instance_id args), bs_owner_epoch := next_epoch args row,
            bs_lease_expires_at := Some (now + max 1 (ca_lease_ttl_seconds args)), bs_state := SESSION_ACTIVE,
            bs_account_id := ca_account_id args, bs_model := ca_model args, bs_service_tier := ca_service_tier args,
            bs_closed_at := None, bs_last_seen_at := now, bs_updated_at := now\<rparr>)"

definition clear_aliases_for_session :: "string \<Rightarrow> bridge_store \<Rightarrow> bridge_store" where
  "clear_aliases_for_session session_id st =
     st\<lparr>br_aliases := filter (\<lambda>a. al_session_id a \<noteq> session_id) (br_aliases st)\<rparr>"

definition put_row :: "bridge_record \<Rightarrow> bridge_store \<Rightarrow> bridge_store" where
  "put_row row st = st\<lparr>br_sessions := update_rows (\<lambda>r. bs_id r = bs_id row) (\<lambda>_. row) (br_sessions st)\<rparr>"

definition claim_existing :: "real \<Rightarrow> claim_args \<Rightarrow> bridge_record \<Rightarrow> bridge_store \<Rightarrow> bridge_store \<times> bridge_snapshot" where
  "claim_existing now args row st =
     (if claim_refused now args row then (st, to_snapshot row)
      else (put_row (claimed_row now args row)
              (if account_changed args row then clear_aliases_for_session (bs_id row) st else st),
            to_snapshot (claimed_row now args row)))"

definition insert_session :: "bridge_record \<Rightarrow> bridge_store \<Rightarrow> bridge_error + bridge_store" where
  "insert_session row st =
     (if any_row (\<lambda>r. bs_id r = bs_id row \<or>
          (bs_session_key_kind r = bs_session_key_kind row \<and> bs_session_key_hash r = bs_session_key_hash row \<and>
           bs_api_key_scope r = bs_api_key_scope row)) (br_sessions st)
      then Inl BridgeIntegrityError
      else Inr (st\<lparr>br_sessions := br_sessions st @ [row]\<rparr>))"

text \<open>One round of the loop: the generated id, the clock, and what is committed before the insert.\<close>

type_synonym claim_round = "string \<times> real \<times> (bridge_store \<Rightarrow> bridge_store)"

definition claim_attempt ::
  "(string \<Rightarrow> string) \<Rightarrow> claim_round \<Rightarrow> claim_args \<Rightarrow> bridge_store \<Rightarrow> bridge_store \<times> (bridge_error + bridge_snapshot)" where
  "claim_attempt hash rnd args st =
     (case rnd of (new_id, now, race) \<Rightarrow>
        case find_session hash (ca_session_key_kind args) (ca_session_key_value args) (ca_api_key_scope args) st of
          Some row \<Rightarrow> (case claim_existing now args row st of (st, snapshot) \<Rightarrow> (st, Inr snapshot))
        | None \<Rightarrow>
            let row = new_session hash new_id now args; st = race st
            in (case insert_session row st of
                  Inl err \<Rightarrow> (st, Inl err)
                | Inr st \<Rightarrow> (st, Inr (to_snapshot row))))"

definition claim_session ::
  "(string \<Rightarrow> string) \<Rightarrow> claim_round \<Rightarrow> claim_round \<Rightarrow> claim_args \<Rightarrow> bridge_store
   \<Rightarrow> bridge_store \<times> (bridge_error + bridge_snapshot)" where
  "claim_session hash round1 round2 args st =
     (case claim_attempt hash round1 args st of
        (st, Inr snapshot) \<Rightarrow> (st, Inr snapshot)
      | (st, Inl _) \<Rightarrow> claim_attempt hash round2 args st)"

section \<open>Renewing, releasing, draining\<close>

definition flushed :: "'c \<Rightarrow> 'c \<Rightarrow> 'c \<Rightarrow> 'c" where
  "flushed loaded assigned stored = (if assigned = loaded then stored else assigned)"

definition flush_row :: "bridge_record \<Rightarrow> bridge_record \<Rightarrow> bridge_record \<Rightarrow> bridge_record" where
  "flush_row old new row =
     row\<lparr>bs_owner_instance_id := flushed (bs_owner_instance_id old) (bs_owner_instance_id new) (bs_owner_instance_id row),
         bs_lease_expires_at := flushed (bs_lease_expires_at old) (bs_lease_expires_at new) (bs_lease_expires_at row),
         bs_state := flushed (bs_state old) (bs_state new) (bs_state row),
         bs_latest_turn_state := flushed (bs_latest_turn_state old) (bs_latest_turn_state new) (bs_latest_turn_state row),
         bs_latest_response_id := flushed (bs_latest_response_id old) (bs_latest_response_id new) (bs_latest_response_id row),
         bs_latest_input_item_count :=
           flushed (bs_latest_input_item_count old) (bs_latest_input_item_count new) (bs_latest_input_item_count row),
         bs_latest_input_full_fingerprint :=
           flushed (bs_latest_input_full_fingerprint old) (bs_latest_input_full_fingerprint new) (bs_latest_input_full_fingerprint row),
         bs_closed_at := flushed (bs_closed_at old) (bs_closed_at new) (bs_closed_at row),
         bs_last_seen_at := flushed (bs_last_seen_at old) (bs_last_seen_at new) (bs_last_seen_at row),
         bs_updated_at := bs_updated_at new\<rparr>"

definition commit_row :: "bridge_record \<Rightarrow> bridge_record \<Rightarrow> bridge_store \<Rightarrow> bridge_store \<times> (bridge_error + bridge_snapshot option)" where
  "commit_row old new st =
     (case row_by_id (bs_id old) st of
        None \<Rightarrow> (st, Inl StaleDataError)
      | Some row \<Rightarrow> (put_row (flush_row old new row) st, Inr (Some (to_snapshot (flush_row old new row)))))"

record renew_args =
  rn_session_id :: string
  rn_instance_id :: string
  rn_owner_epoch :: int
  rn_lease_ttl_seconds :: real
  rn_latest_turn_state :: "string option"
  rn_latest_response_id :: "string option"
  rn_latest_input_item_count :: "int option"
  rn_latest_input_full_fingerprint :: "string option"
  rn_state :: "HttpBridgeSessionState option"

definition owned_by :: "string \<Rightarrow> int \<Rightarrow> bridge_record \<Rightarrow> bool" where
  "owned_by instance_id owner_epoch row = (bs_owner_instance_id row = Some instance_id \<and> bs_owner_epoch row = owner_epoch)"

definition renewed_row :: "real \<Rightarrow> renew_args \<Rightarrow> bridge_record \<Rightarrow> bridge_record" where
  "renewed_row now args row =
     (let counted = (rn_latest_input_item_count args \<noteq> None \<and> rn_latest_input_full_fingerprint args \<noteq> None);
          r = row\<lparr>bs_lease_expires_at := Some (now + max 1 (rn_lease_ttl_seconds args)), bs_last_seen_at := now, bs_updated_at := now\<rparr>;
          r = (if rn_latest_turn_state args \<noteq> None then r\<lparr>bs_latest_turn_state := rn_latest_turn_state args\<rparr> else r);
          r = (if rn_latest_response_id args \<noteq> None
               then let r = r\<lparr>bs_latest_response_id := rn_latest_response_id args\<rparr>
                    in if counted then r
                       else r\<lparr>bs_latest_input_item_count := None, bs_latest_input_full_fingerprint := None\<rparr>
               else r);
          r = (if counted
               then r\<lparr>bs_latest_input_item_count := rn_latest_input_item_count args,
                      bs_latest_input_full_fingerprint := rn_latest_input_full_fingerprint args\<rparr>
               else r)
      in (case rn_state args of None \<Rightarrow> r | Some s \<Rightarrow> r\<lparr>bs_state := s\<rparr>))"

definition renew_session ::
  "real \<Rightarrow> (bridge_store \<Rightarrow> bridge_store) \<Rightarrow> renew_args \<Rightarrow> bridge_store \<Rightarrow> bridge_store \<times> (bridge_error + bridge_snapshot option)" where
  "renew_session now race args st =
     (case row_by_id (rn_session_id args) st of
        None \<Rightarrow> (st, Inr None)
      | Some row \<Rightarrow>
          if \<not> owned_by (rn_instance_id args) (rn_owner_epoch args) row then (st, Inr (Some (to_snapshot row)))
          else commit_row row (renewed_row now args row) (race st))"

definition released_row :: "real \<Rightarrow> bool \<Rightarrow> bridge_record \<Rightarrow> bridge_record" where
  "released_row now draining row =
     row\<lparr>bs_owner_instance_id := None, bs_lease_expires_at := Some now, bs_last_seen_at := now, bs_updated_at := now,
         bs_state := (if draining then SESSION_DRAINING else SESSION_CLOSED),
         bs_closed_at := (if draining then None else Some now)\<rparr>"

definition release_session ::
  "real \<Rightarrow> (bridge_store \<Rightarrow> bridge_store) \<Rightarrow> string \<Rightarrow> string \<Rightarrow> int \<Rightarrow> bool \<Rightarrow> bridge_store
   \<Rightarrow> bridge_store \<times> (bridge_error + bridge_snapshot option)" where
  "release_session now race session_id instance_id owner_epoch draining st =
     (case row_by_id session_id st of
        None \<Rightarrow> (st, Inr None)
      | Some row \<Rightarrow>
          if \<not> owned_by instance_id owner_epoch row then (st, Inr (Some (to_snapshot row)))
          else commit_row row (released_row now draining row) (race st))"

fun commit_rows :: "(bridge_record \<Rightarrow> bridge_record) \<Rightarrow> bridge_record list \<Rightarrow> bridge_store \<Rightarrow> bridge_error + bridge_store" where
  "commit_rows f [] st = Inr st"
| "commit_rows f (row # rows) st =
     (case commit_row row (f row) st of
        (_, Inl err) \<Rightarrow> Inl err
      | (st, Inr _) \<Rightarrow> commit_rows f rows st)"

definition mark_owner_draining ::
  "real \<Rightarrow> (bridge_store \<Rightarrow> bridge_store) \<Rightarrow> string \<Rightarrow> bridge_store \<Rightarrow> bridge_store \<times> (bridge_error + nat)" where
  "mark_owner_draining now race instance_id st =
     (let rows = filter (\<lambda>r. bs_owner_instance_id r = Some instance_id \<and> bs_state r = SESSION_ACTIVE) (br_sessions st);
          st = race st
      in (case commit_rows (\<lambda>r. r\<lparr>bs_state := SESSION_DRAINING, bs_last_seen_at := now, bs_updated_at := now\<rparr>) rows st of
            Inl err \<Rightarrow> (st, Inl err)
          | Inr st \<Rightarrow> (st, Inr (length rows))))"

section \<open>Purge and aliases\<close>

abbreviation (input) PURGE_CLOSED_BATCH_SIZE :: nat where "PURGE_CLOSED_BATCH_SIZE \<equiv> 500"

definition purgeable :: "real \<Rightarrow> bridge_record \<Rightarrow> bool" where
  "purgeable cutoff row = (bs_state row = SESSION_CLOSED \<and> bs_last_seen_at row < cutoff)"

definition purge_batch :: "nat \<Rightarrow> real \<Rightarrow> bridge_store \<Rightarrow> string list" where
  "purge_batch batch_size cutoff st =
     map bs_id (take batch_size (sort_key bs_last_seen_at (filter (purgeable cutoff) (br_sessions st))))"

definition delete_batch :: "real \<Rightarrow> string list \<Rightarrow> bridge_store \<Rightarrow> bridge_store \<times> nat" where
  "delete_batch cutoff session_ids st =
     (let doomed = filter (\<lambda>r. bs_id r \<in> set session_ids \<and> purgeable cutoff r) (br_sessions st);
          dead = set (map bs_id doomed)
      in (st\<lparr>br_aliases := filter (\<lambda>a. al_session_id a \<notin> dead) (br_aliases st),
             br_sessions := filter (\<lambda>r. \<not> (bs_id r \<in> set session_ids \<and> purgeable cutoff r)) (br_sessions st)\<rparr>,
          length doomed))"

lemma delete_batch_progress:
  assumes "purge_batch n cutoff st = x # xs"
  shows "length (filter (purgeable cutoff) (br_sessions (fst (delete_batch cutoff (x # xs) st))))
    < length (filter (purgeable cutoff) (br_sessions st))"
proof -
  have "x \<in> set (purge_batch n cutoff st)" by (simp add: assms)
  then obtain r where r: "r \<in> set (br_sessions st)" "purgeable cutoff r" "bs_id r = x"
    by (auto simp: purge_batch_def dest!: in_set_takeD)
  let ?keep = "\<lambda>r. \<not> (bs_id r \<in> set (x # xs) \<and> purgeable cutoff r)"
  have "filter (purgeable cutoff) (filter ?keep (br_sessions st)) = filter ?keep (filter (purgeable cutoff) (br_sessions st))"
    by (simp only: filter_filter conj_commute)
  also have "length \<dots> < length (filter (purgeable cutoff) (br_sessions st))"
    using r by (intro length_filter_less[where x = r]) auto
  finally show ?thesis by (simp add: delete_batch_def Let_def)
qed

function purge_closed_before :: "nat \<Rightarrow> real \<Rightarrow> nat \<Rightarrow> bridge_store \<Rightarrow> bridge_store \<times> nat" where
  "purge_closed_before batch_size cutoff deleted_count st =
     (case purge_batch batch_size cutoff st of
        [] \<Rightarrow> (st, deleted_count)
      | x # xs \<Rightarrow>
          let run = delete_batch cutoff (x # xs) st
          in purge_closed_before batch_size cutoff (deleted_count + snd run) (fst run))"
  by pat_completeness auto

termination
  by (relation "measure (\<lambda>(n, cutoff, k, st). length (filter (purgeable cutoff) (br_sessions st)))")
    (simp_all add: delete_batch_progress)

declare purge_closed_before.simps [simp del]

definition upsert_alias ::
  "(string \<Rightarrow> string) \<Rightarrow> string \<Rightarrow> string \<Rightarrow> string \<Rightarrow> string \<Rightarrow> bridge_store \<Rightarrow> bridge_error + bridge_store" where
  "upsert_alias hash session_id kind value scope st =
     (if \<not> any_row (\<lambda>r. bs_id r = session_id) (br_sessions st) then Inl BridgeIntegrityError
      else if any_row (alias_key_matches hash kind value scope) (br_aliases st)
      then Inr (st\<lparr>br_aliases := update_rows (alias_key_matches hash kind value scope)
                     (\<lambda>a. a\<lparr>al_session_id := session_id, al_alias_value := value\<rparr>) (br_aliases st)\<rparr>)
      else Inr (st\<lparr>br_aliases := br_aliases st @
                     [\<lparr>al_session_id = session_id, al_alias_kind = kind, al_alias_value = value, al_alias_hash = hash value,
                       al_api_key_scope = scope\<rparr>]\<rparr>))"

section \<open>Coordinator\<close>

record bridge_lookup =
  lk_session_id :: string
  lk_canonical_kind :: string
  lk_canonical_key :: string
  lk_api_key_scope :: string
  lk_account_id :: "string option"
  lk_owner_instance_id :: "string option"
  lk_owner_epoch :: int
  lk_lease_expires_at :: "real option"
  lk_state :: HttpBridgeSessionState
  lk_latest_turn_state :: "string option"
  lk_latest_response_id :: "string option"
  lk_latest_input_item_count :: "int option"
  lk_latest_input_full_fingerprint :: "string option"

definition lease_is_active :: "real \<Rightarrow> bridge_lookup \<Rightarrow> bool" where
  "lease_is_active now lk =
     (if lk_owner_instance_id lk = None then False
      else case lk_lease_expires_at lk of None \<Rightarrow> False | Some t \<Rightarrow> t > now)"

definition to_lookup :: "bridge_snapshot \<Rightarrow> bridge_lookup" where
  "to_lookup s =
     \<lparr>lk_session_id = bs_id s, lk_canonical_kind = bs_session_key_kind s, lk_canonical_key = bs_session_key_value s,
      lk_api_key_scope = bs_api_key_scope s, lk_account_id = bs_account_id s, lk_owner_instance_id = bs_owner_instance_id s,
      lk_owner_epoch = bs_owner_epoch s, lk_lease_expires_at = bs_lease_expires_at s, lk_state = bs_state s,
      lk_latest_turn_state = bs_latest_turn_state s, lk_latest_response_id = bs_latest_response_id s,
      lk_latest_input_item_count = bs_latest_input_item_count s,
      lk_latest_input_full_fingerprint = bs_latest_input_full_fingerprint s\<rparr>"

definition snapshot_matches_owner :: "bridge_snapshot option \<Rightarrow> string \<Rightarrow> int \<Rightarrow> bool" where
  "snapshot_matches_owner snapshot instance_id owner_epoch =
     (case snapshot of
        None \<Rightarrow> False
      | Some s \<Rightarrow> bs_owner_instance_id s = Some instance_id \<and> bs_owner_epoch s = owner_epoch)"

abbreviation (input) TURN_STATE_ALIAS :: string where "TURN_STATE_ALIAS \<equiv> ''turn_state''"
abbreviation (input) PREVIOUS_RESPONSE_ALIAS :: string where "PREVIOUS_RESPONSE_ALIAS \<equiv> ''previous_response_id''"
abbreviation (input) SESSION_HEADER_ALIAS :: string where "SESSION_HEADER_ALIAS \<equiv> ''session_header''"

fun first_alias :: "(string \<Rightarrow> string) \<Rightarrow> string \<Rightarrow> bridge_store \<Rightarrow> (string \<times> string option) list \<Rightarrow> bridge_snapshot option" where
  "first_alias hash scope st [] = None"
| "first_alias hash scope st ((kind, value) # rest) =
     (case value of
        None \<Rightarrow> first_alias hash scope st rest
      | Some v \<Rightarrow> (case resolve_alias hash kind v scope st of
                     None \<Rightarrow> first_alias hash scope st rest
                   | Some snapshot \<Rightarrow> Some snapshot))"

definition lookup_request_targets ::
  "(string \<Rightarrow> string) \<Rightarrow> string \<Rightarrow> string \<Rightarrow> string option \<Rightarrow> string option \<Rightarrow> string option \<Rightarrow> string option
   \<Rightarrow> bridge_store \<Rightarrow> bridge_lookup option" where
  "lookup_request_targets hash kind key api_key_id turn_state session_header previous_response_id st =
     (let scope = durable_bridge_api_key_scope api_key_id
      in case first_alias hash scope st
                [(TURN_STATE_ALIAS, turn_state), (PREVIOUS_RESPONSE_ALIAS, previous_response_id),
                 (SESSION_HEADER_ALIAS, session_header)] of
           Some snapshot \<Rightarrow> Some (to_lookup snapshot)
         | None \<Rightarrow>
             let snapshot = get_session hash kind key scope st;
                 snapshot = (case (snapshot, turn_state) of
                     (None, Some t) \<Rightarrow> find_session_by_latest_turn_state t scope st | _ \<Rightarrow> snapshot);
                 snapshot = (case (snapshot, previous_response_id) of
                     (None, Some p) \<Rightarrow> find_session_by_latest_response_id p scope st | _ \<Rightarrow> snapshot)
             in map_option to_lookup snapshot)"

definition claim_live_session ::
  "(string \<Rightarrow> string) \<Rightarrow> claim_round \<Rightarrow> claim_round \<Rightarrow> string option \<Rightarrow> claim_args \<Rightarrow> bridge_store
   \<Rightarrow> bridge_store \<times> (bridge_error + bridge_lookup)" where
  "claim_live_session hash round1 round2 api_key_id args st =
     apsnd (map_sum id to_lookup)
       (claim_session hash round1 round2 (args\<lparr>ca_api_key_scope := durable_bridge_api_key_scope api_key_id\<rparr>) st)"

definition renew_live_session ::
  "real \<Rightarrow> (bridge_store \<Rightarrow> bridge_store) \<Rightarrow> renew_args \<Rightarrow> bridge_store \<Rightarrow> bridge_store \<times> (bridge_error + bridge_lookup option)" where
  "renew_live_session now race args st = apsnd (map_sum id (map_option to_lookup)) (renew_session now race args st)"

definition release_live_session ::
  "real \<Rightarrow> (bridge_store \<Rightarrow> bridge_store) \<Rightarrow> string \<Rightarrow> string \<Rightarrow> int \<Rightarrow> bool \<Rightarrow> bridge_store
   \<Rightarrow> bridge_store \<times> (bridge_error + bridge_lookup option)" where
  "release_live_session now race session_id instance_id owner_epoch draining st =
     apsnd (map_sum id (map_option to_lookup)) (release_session now race session_id instance_id owner_epoch draining st)"

text \<open>
  A registration renews the lease and then binds the alias, in two transactions: \<open>race\<close> runs inside the
  first, \<open>race'\<close> between them.
\<close>

definition register_alias ::
  "(string \<Rightarrow> string) \<Rightarrow> real \<Rightarrow> (bridge_store \<Rightarrow> bridge_store) \<Rightarrow> (bridge_store \<Rightarrow> bridge_store) \<Rightarrow> string option \<Rightarrow> renew_args
   \<Rightarrow> string \<Rightarrow> string \<Rightarrow> bridge_store \<Rightarrow> bridge_store \<times> (bridge_error + unit)" where
  "register_alias hash now race race' api_key_id args kind value st =
     (case renew_session now race args st of
        (st, Inl err) \<Rightarrow> (st, Inl err)
      | (st, Inr snapshot) \<Rightarrow>
          if \<not> snapshot_matches_owner snapshot (rn_instance_id args) (rn_owner_epoch args) then (st, Inr ())
          else let st = race' st
               in case upsert_alias hash (rn_session_id args) kind value (durable_bridge_api_key_scope api_key_id) st of
                    Inl err \<Rightarrow> (st, Inl err)
                  | Inr st \<Rightarrow> (st, Inr ()))"

definition renew_request :: "string \<Rightarrow> string \<Rightarrow> int \<Rightarrow> real \<Rightarrow> renew_args" where
  "renew_request session_id instance_id owner_epoch lease_ttl_seconds =
     \<lparr>rn_session_id = session_id, rn_instance_id = instance_id, rn_owner_epoch = owner_epoch,
      rn_lease_ttl_seconds = lease_ttl_seconds, rn_latest_turn_state = None, rn_latest_response_id = None,
      rn_latest_input_item_count = None, rn_latest_input_full_fingerprint = None, rn_state = None\<rparr>"

definition register_turn_state ::
  "(string \<Rightarrow> string) \<Rightarrow> real \<Rightarrow> (bridge_store \<Rightarrow> bridge_store) \<Rightarrow> (bridge_store \<Rightarrow> bridge_store) \<Rightarrow> string \<Rightarrow> string option
   \<Rightarrow> string \<Rightarrow> int \<Rightarrow> string \<Rightarrow> real \<Rightarrow> bridge_store \<Rightarrow> bridge_store \<times> (bridge_error + unit)" where
  "register_turn_state hash now race race' session_id api_key_id instance_id owner_epoch turn_state lease_ttl_seconds =
     register_alias hash now race race' api_key_id
       ((renew_request session_id instance_id owner_epoch lease_ttl_seconds)\<lparr>rn_latest_turn_state := Some turn_state\<rparr>)
       TURN_STATE_ALIAS turn_state"

definition register_previous_response_id ::
  "(string \<Rightarrow> string) \<Rightarrow> real \<Rightarrow> (bridge_store \<Rightarrow> bridge_store) \<Rightarrow> (bridge_store \<Rightarrow> bridge_store) \<Rightarrow> string \<Rightarrow> string option
   \<Rightarrow> string \<Rightarrow> int \<Rightarrow> string \<Rightarrow> real \<Rightarrow> int option \<Rightarrow> string option \<Rightarrow> bridge_store \<Rightarrow> bridge_store \<times> (bridge_error + unit)" where
  "register_previous_response_id hash now race race' session_id api_key_id instance_id owner_epoch response_id
     lease_ttl_seconds input_item_count input_full_fingerprint =
     register_alias hash now race race' api_key_id
       ((renew_request session_id instance_id owner_epoch lease_ttl_seconds)\<lparr>rn_latest_response_id := Some response_id,
          rn_latest_input_item_count := input_item_count, rn_latest_input_full_fingerprint := input_full_fingerprint\<rparr>)
       PREVIOUS_RESPONSE_ALIAS response_id"

definition register_session_header ::
  "(string \<Rightarrow> string) \<Rightarrow> string \<Rightarrow> string option \<Rightarrow> string \<Rightarrow> bridge_store \<Rightarrow> bridge_error + bridge_store" where
  "register_session_header hash session_id api_key_id session_header =
     upsert_alias hash session_id SESSION_HEADER_ALIAS session_header (durable_bridge_api_key_scope api_key_id)"

end
