(* ===== verification/Ownership.thy ===== *)
theory Ownership
  imports Bridge
begin

text \<open>
  What the durable bridge guarantees: owner epochs are fencing tokens under any interleaving of replicas,
  a live lease is respected, a former owner is shut out, aliases follow the account, and the purge is exact.
\<close>

section \<open>Rows and their ids\<close>

definition ids_distinct :: "bridge_store \<Rightarrow> bool" where
  "ids_distinct st \<longleftrightarrow> distinct (map bs_id (br_sessions st))"

lemma unique_session:
  assumes "ids_distinct st" and "r \<in> set (br_sessions st)" and "q \<in> set (br_sessions st)" and "bs_id q = bs_id r"
  shows "q = r"
  using assms by (auto simp: ids_distinct_def distinct_map dest: inj_onD)

lemma row_by_id_Some:
  assumes "ids_distinct st"
  shows "row_by_id x st = Some r \<longleftrightarrow> r \<in> set (br_sessions st) \<and> bs_id r = x"
proof
  show "r \<in> set (br_sessions st) \<and> bs_id r = x" if "row_by_id x st = Some r"
    using that by (auto simp: row_by_id_def find_Some_iff)
  assume r: "r \<in> set (br_sessions st) \<and> bs_id r = x"
  then have "row_by_id x st \<noteq> None" by (auto simp: row_by_id_def find_None_iff)
  then obtain q where q: "row_by_id x st = Some q" by blast
  then have "q \<in> set (br_sessions st)" "bs_id q = x" by (auto simp: row_by_id_def find_Some_iff)
  then show "row_by_id x st = Some r" using q r unique_session[OF assms] by auto
qed

lemma row_by_id_None: "row_by_id x st = None \<longleftrightarrow> x \<notin> bs_id ` set (br_sessions st)"
  by (auto simp: row_by_id_def find_None_iff)

lemma put_row_ids: "map bs_id (br_sessions (put_row row st)) = map bs_id (br_sessions st)"
  by (simp add: put_row_def update_rows_def)

lemma put_row_mem:
  "r \<in> set (br_sessions (put_row row st)) \<Longrightarrow>
     r = row \<or> r \<in> set (br_sessions st) \<and> bs_id r \<noteq> bs_id row"
  by (auto simp: put_row_def update_rows_def split: if_splits)

lemma claimed_row_simps [simp]:
  "bs_id (claimed_row now args row) = bs_id row"
  "bs_owner_instance_id (claimed_row now args row) = Some (ca_instance_id args)"
  "bs_owner_epoch (claimed_row now args row) = next_epoch args row"
  "bs_state (claimed_row now args row) = SESSION_ACTIVE"
  "bs_lease_expires_at (claimed_row now args row) = Some (now + max 1 (ca_lease_ttl_seconds args))"
  "bs_account_id (claimed_row now args row) = ca_account_id args"
  "bs_session_key_kind (claimed_row now args row) = bs_session_key_kind row"
  "bs_session_key_hash (claimed_row now args row) = bs_session_key_hash row"
  "bs_api_key_scope (claimed_row now args row) = bs_api_key_scope row"
  by (simp_all add: claimed_row_def claimed_latest_def Let_def)

lemma flush_row_simps [simp]:
  "bs_id (flush_row old new row) = bs_id row" "bs_owner_epoch (flush_row old new row) = bs_owner_epoch row"
  "bs_owner_instance_id (flush_row old new row) =
     flushed (bs_owner_instance_id old) (bs_owner_instance_id new) (bs_owner_instance_id row)"
  "bs_session_key_kind (flush_row old new row) = bs_session_key_kind row"
  "bs_session_key_hash (flush_row old new row) = bs_session_key_hash row"
  "bs_api_key_scope (flush_row old new row) = bs_api_key_scope row"
  by (simp_all add: flush_row_def)

lemma to_snapshot_simps [simp]:
  "bs_id (to_snapshot r) = bs_id r" "bs_owner_instance_id (to_snapshot r) = bs_owner_instance_id r"
  "bs_owner_epoch (to_snapshot r) = bs_owner_epoch r" "bs_state (to_snapshot r) = bs_state r"
  "bs_account_id (to_snapshot r) = bs_account_id r" "bs_lease_expires_at (to_snapshot r) = bs_lease_expires_at r"
  by (simp_all add: to_snapshot_def bridge_snapshot.defs)

section \<open>Fencing tokens\<close>

text \<open>
  The runs of all replicas. A replica that renews, releases or drains first loads rows and assigns columns
  (\<open>load\<close>), and commits them at any later time (\<open>flush\<close>); the pool holds what is loaded and not yet
  committed. \<open>granted\<close> records every claim a replica was told it holds: session, epoch, instance.
  Generated ids are not reused.
\<close>

inductive bridge_run ::
  "(string \<Rightarrow> string) \<Rightarrow> bridge_store \<Rightarrow> (bridge_record \<times> bridge_record) set \<Rightarrow> (string \<times> int \<times> string) set \<Rightarrow> bool" for hash where
  empty: "bridge_run hash \<lparr>br_sessions = [], br_aliases = []\<rparr> {} {}"
| insert: "bridge_run hash st pool granted \<Longrightarrow> new_id \<notin> fst ` granted \<Longrightarrow>
    insert_session (new_session hash new_id now args) st = Inr st' \<Longrightarrow>
    bridge_run hash st' pool (insert (new_id, 1, ca_instance_id args) granted)"
| claim: "bridge_run hash st pool granted \<Longrightarrow>
    find_session hash (ca_session_key_kind args) (ca_session_key_value args) (ca_api_key_scope args) st = Some row \<Longrightarrow>
    claim_existing now args row st = (st', snapshot) \<Longrightarrow>
    granted' = (if claim_refused now args row then granted
                else insert (bs_id row, bs_owner_epoch snapshot, ca_instance_id args) granted) \<Longrightarrow>
    bridge_run hash st' pool granted'"
| load: "bridge_run hash st pool granted \<Longrightarrow> row \<in> set (br_sessions st) \<Longrightarrow>
    new \<in> {renewed_row now args row, released_row now draining row,
           row\<lparr>bs_state := SESSION_DRAINING, bs_last_seen_at := now, bs_updated_at := now\<rparr>} \<Longrightarrow>
    bridge_run hash st (insert (row, new) pool) granted"
| flush: "bridge_run hash st pool granted \<Longrightarrow> (old, new) \<in> pool \<Longrightarrow>
    bridge_run hash (fst (commit_row old new st)) pool granted"
| purge: "bridge_run hash st pool granted \<Longrightarrow> bridge_run hash (fst (purge_closed_before n cutoff k st)) pool granted"
| link: "bridge_run hash st pool granted \<Longrightarrow> upsert_alias hash x kind v scope st = Inr st' \<Longrightarrow>
    bridge_run hash st' pool granted"

definition token_ok :: "(string \<times> int \<times> string) set \<Rightarrow> bridge_record \<Rightarrow> bool" where
  "token_ok granted row \<longleftrightarrow>
     (\<forall>e i. (bs_id row, e, i) \<in> granted \<longrightarrow>
        e \<le> bs_owner_epoch row \<and> (e = bs_owner_epoch row \<longrightarrow> bs_owner_instance_id row \<in> {None, Some i})) \<and>
     (\<forall>i. bs_owner_instance_id row = Some i \<longrightarrow> (bs_id row, bs_owner_epoch row, i) \<in> granted) \<and>
     bs_id row \<in> fst ` granted"

definition run_inv :: "bridge_store \<Rightarrow> (bridge_record \<times> bridge_record) set \<Rightarrow> (string \<times> int \<times> string) set \<Rightarrow> bool" where
  "run_inv st pool granted \<longleftrightarrow>
     ids_distinct st \<and> (\<forall>row \<in> set (br_sessions st). token_ok granted row) \<and>
     (\<forall>x e i j. (x, e, i) \<in> granted \<longrightarrow> (x, e, j) \<in> granted \<longrightarrow> i = j) \<and>
     (\<forall>(old, new) \<in> pool. bs_owner_instance_id new \<in> {bs_owner_instance_id old, None})"

lemma run_invI:
  assumes "ids_distinct st" and "\<And>row. row \<in> set (br_sessions st) \<Longrightarrow> token_ok granted row"
    and "\<And>x e i j. (x, e, i) \<in> granted \<Longrightarrow> (x, e, j) \<in> granted \<Longrightarrow> i = j"
    and "\<And>old new. (old, new) \<in> pool \<Longrightarrow> bs_owner_instance_id new \<in> {bs_owner_instance_id old, None}"
  shows "run_inv st pool granted"
  unfolding run_inv_def using assms by blast

lemma run_invD:
  assumes "run_inv st pool granted"
  shows "ids_distinct st" and "row \<in> set (br_sessions st) \<Longrightarrow> token_ok granted row"
    and "(x, e, i) \<in> granted \<Longrightarrow> (x, e, j) \<in> granted \<Longrightarrow> i = j"
    and "(old, new) \<in> pool \<Longrightarrow> bs_owner_instance_id new \<in> {bs_owner_instance_id old, None}"
  using assms unfolding run_inv_def by blast+

lemma token_ok_weaken:
  assumes "token_ok granted row" and "bs_id row' = bs_id row" and "bs_owner_epoch row' = bs_owner_epoch row"
    and "bs_owner_instance_id row' = bs_owner_instance_id row \<or> bs_owner_instance_id row' = None"
  shows "token_ok granted row'"
  using assms(4)
proof
  assume "bs_owner_instance_id row' = bs_owner_instance_id row"
  then show ?thesis using assms(1) unfolding token_ok_def assms(2,3) by simp
next
  assume "bs_owner_instance_id row' = None"
  then show ?thesis using assms(1) unfolding token_ok_def assms(2,3) by simp
qed

lemma token_ok_grow:
  assumes "token_ok granted row" and "granted \<subseteq> granted'" and "\<forall>g \<in> granted' - granted. fst g \<noteq> bs_id row"
  shows "token_ok granted' row"
proof -
  have "(bs_id row, e, i) \<in> granted' \<longleftrightarrow> (bs_id row, e, i) \<in> granted" for e i using assms(2,3) by force
  moreover have "bs_id row \<in> fst ` granted'" using assms(1,2) by (auto simp: token_ok_def)
  ultimately show ?thesis using assms(1) by (simp add: token_ok_def)
qed

lemma run_inv_insert:
  assumes inv: "run_inv st pool granted" and fresh: "new_id \<notin> fst ` granted"
    and ins: "insert_session (new_session hash new_id now args) st = Inr st'"
  shows "run_inv st' pool (insert (new_id, 1, ca_instance_id args) granted)"
proof -
  let ?row = "new_session hash new_id now args" and ?g = "insert (new_id, 1, ca_instance_id args) granted"
  note D = run_invD[OF inv]
  have st': "br_sessions st' = br_sessions st @ [?row]" and new: "new_id \<notin> bs_id ` set (br_sessions st)"
    using ins by (auto simp: insert_session_def any_row_iff new_session_def split: if_splits)
  have row: "bs_id ?row = new_id" "bs_owner_epoch ?row = 1" "bs_owner_instance_id ?row = Some (ca_instance_id args)"
    by (simp_all add: new_session_def)
  have only: "(new_id, e, i) \<in> ?g \<longleftrightarrow> e = 1 \<and> i = ca_instance_id args" for e i using fresh by force
  have old: "token_ok ?g r" if r: "r \<in> set (br_sessions st)" for r
  proof (rule token_ok_grow[OF D(2)[OF r]])
    show "\<forall>g \<in> ?g - granted. fst g \<noteq> bs_id r" using new r by auto
  qed blast
  have this_row: "token_ok ?g ?row" unfolding token_ok_def row only by simp
  show ?thesis
  proof (rule run_invI)
    show "ids_distinct st'" using D(1) new by (simp add: st' row(1) ids_distinct_def)
    show "token_ok ?g r" if "r \<in> set (br_sessions st')" for r using that old this_row by (auto simp: st')
    show "i = j" if "(x, e, i) \<in> ?g" "(x, e, j) \<in> ?g" for x e i j
      using that D(3)[of x e i j] only[of e i] only[of e j] by (cases "x = new_id") auto
  qed (rule D(4))
qed

lemma run_inv_put:
  assumes inv: "run_inv st pool granted" and row: "row \<in> set (br_sessions st)"
    and st': "br_sessions st' = br_sessions (put_row row' st)" and id: "bs_id row' = bs_id row"
    and tok: "token_ok granted' row'"
    and sub: "granted \<subseteq> granted'" "\<forall>g \<in> granted' - granted. fst g = bs_id row"
    and uniq: "\<forall>x e i j. (x, e, i) \<in> granted' \<longrightarrow> (x, e, j) \<in> granted' \<longrightarrow> i = j"
  shows "run_inv st' pool granted'"
proof -
  have "token_ok granted' r" if r: "r \<in> set (br_sessions st')" for r
  proof -
    consider "r = row'" | "r \<in> set (br_sessions st)" "bs_id r \<noteq> bs_id row"
      using put_row_mem[of r row' st] r st' id by auto
    then show ?thesis
    proof cases
      case 2
      show ?thesis by (rule token_ok_grow[OF run_invD(2)[OF inv 2(1)] sub(1)]) (use sub(2) 2(2) in auto)
    qed (simp add: tok)
  qed
  moreover have "ids_distinct st'" using run_invD(1)[OF inv] put_row_ids[of row' st] st' by (simp add: ids_distinct_def)
  ultimately show ?thesis using uniq run_invD(4)[OF inv] by (intro run_invI) blast+
qed

lemma run_inv_claim:
  assumes inv: "run_inv st pool granted" and row: "row \<in> set (br_sessions st)"
    and claim: "claim_existing now args row st = (st', snapshot)" and ok: "\<not> claim_refused now args row"
  shows "run_inv st' pool (insert (bs_id row, bs_owner_epoch snapshot, ca_instance_id args) granted)"
proof -
  let ?e = "next_epoch args row" and ?i = "ca_instance_id args"
  let ?g = "insert (bs_id row, ?e, ?i) granted"
  have tok: "token_ok granted row" by (rule run_invD(2)[OF inv row])
  have snap: "bs_owner_epoch snapshot = ?e" using claim ok by (auto simp: claim_existing_def)
  have st': "br_sessions st' = br_sessions (put_row (claimed_row now args row) st)"
    using claim ok by (auto simp: claim_existing_def put_row_def clear_aliases_for_session_def)
  have past: "e \<le> bs_owner_epoch row \<and> (e = bs_owner_epoch row \<longrightarrow> bs_owner_instance_id row \<in> {None, Some i})"
    if "(bs_id row, e, i) \<in> granted" for e i
    using tok that unfolding token_ok_def by blast
  have mono: "bs_owner_epoch row \<le> ?e" "bs_owner_instance_id row \<noteq> Some ?i \<Longrightarrow> bs_owner_epoch row < ?e"
    by (simp_all add: next_epoch_def owner_changed_def)
  have old: "i = ?i" if "(bs_id row, ?e, i) \<in> granted" for i
    using past[OF that] mono by (cases "bs_owner_instance_id row = Some ?i") auto
  have le: "e \<le> ?e" if "(bs_id row, e, i) \<in> granted" for e i
    using past[OF that] mono(1) by simp
  have "token_ok ?g (claimed_row now args row)"
    unfolding token_ok_def claimed_row_simps using le old by auto
  moreover have "\<forall>x e i j. (x, e, i) \<in> ?g \<longrightarrow> (x, e, j) \<in> ?g \<longrightarrow> i = j"
    using old run_invD(3)[OF inv] by blast
  ultimately show ?thesis
    unfolding snap by (intro run_inv_put[OF inv row st']) auto
qed

lemma commit_row_Some: "row_by_id (bs_id old) st = Some row \<Longrightarrow> fst (commit_row old new st) = put_row (flush_row old new row) st"
  by (simp add: commit_row_def)

lemma flushed_cases: "new \<in> {old, None} \<Longrightarrow> flushed old new row = row \<or> flushed old new row = None"
  by (auto simp: flushed_def)

lemma run_inv_commit:
  assumes inv: "run_inv st pool granted" and pool: "(old, new) \<in> pool"
  shows "run_inv (fst (commit_row old new st)) pool granted"
proof (cases "row_by_id (bs_id old) st")
  case None
  then have "fst (commit_row old new st) = st" by (simp add: commit_row_def)
  then show ?thesis using inv by (simp only:)
next
  case (Some row)
  have row: "row \<in> set (br_sessions st)" using Some unfolding row_by_id_Some[OF run_invD(1)[OF inv]] by (rule conjunct1)
  have tok: "token_ok granted (flush_row old new row)"
    by (rule token_ok_weaken[OF run_invD(2)[OF inv row] flush_row_simps(1,2)])
      (unfold flush_row_simps, rule flushed_cases[OF run_invD(4)[OF inv pool]])
  show ?thesis
    unfolding commit_row_Some[OF Some]
    by (rule run_inv_put[OF inv row refl flush_row_simps(1) tok]) (use run_invD(3)[OF inv] in blast)+
qed

lemma renewed_row_simps [simp]:
  "bs_owner_instance_id (renewed_row now args row) = bs_owner_instance_id row"
  "bs_id (renewed_row now args row) = bs_id row" "bs_owner_epoch (renewed_row now args row) = bs_owner_epoch row"
  by (simp_all add: renewed_row_def Let_def split: option.split)

lemma run_inv_sub:
  assumes "run_inv st pool granted" and "br_sessions st' = filter P (br_sessions st)"
  shows "run_inv st' pool granted"
  using assms by (auto simp: run_inv_def ids_distinct_def distinct_map inj_on_def)

lemma purge_sessions: "\<exists>P. br_sessions (fst (purge_closed_before n cutoff k st)) = filter P (br_sessions st)"
proof (induction n cutoff k st rule: purge_closed_before.induct)
  case (1 n cutoff k st)
  show ?case
  proof (cases "purge_batch n cutoff st")
    case Nil
    then show ?thesis by (subst purge_closed_before.simps) (auto intro: exI[of _ "\<lambda>_. True"])
  next
    case (Cons x xs)
    obtain P where "br_sessions (fst (purge_closed_before n cutoff (k + snd (delete_batch cutoff (x # xs) st))
        (fst (delete_batch cutoff (x # xs) st)))) = filter P (br_sessions (fst (delete_batch cutoff (x # xs) st)))"
      using 1[OF Cons refl] by blast
    then show ?thesis
      using Cons by (subst purge_closed_before.simps) (auto simp: Let_def delete_batch_def intro!: exI)
  qed
qed

lemma bridge_run_inv:
  assumes "bridge_run hash st pool granted"
  shows "run_inv st pool granted"
  using assms
proof (induction rule: bridge_run.induct)
  case empty
  show ?case by (simp add: run_inv_def ids_distinct_def)
next
  case (insert st pool granted new_id now args st')
  show ?case by (rule run_inv_insert[OF insert.IH insert.hyps(2,3)])
next
  case (claim st pool granted args row now st' snapshot granted')
  have row: "row \<in> set (br_sessions st)" using claim.hyps(2) by (auto simp: find_session_def find_Some_iff)
  show ?case
  proof (cases "claim_refused now args row")
    case True
    then have "st' = st" using claim.hyps(3) by (simp add: claim_existing_def)
    with True show ?thesis using claim.IH claim.hyps(4) by simp
  next
    case False
    then show ?thesis using run_inv_claim[OF claim.IH row claim.hyps(3) False] claim.hyps(4) by simp
  qed
next
  case (load st pool granted row new now args draining)
  have "bs_owner_instance_id new \<in> {bs_owner_instance_id row, None}"
    using load.hyps(3) by (auto simp: released_row_def)
  then show ?case using load.IH by (simp add: run_inv_def)
next
  case (flush st pool granted old new)
  show ?case by (rule run_inv_commit[OF flush.IH flush.hyps(2)])
next
  case (purge st pool granted n cutoff k)
  obtain P where "br_sessions (fst (purge_closed_before n cutoff k st)) = filter P (br_sessions st)"
    using purge_sessions by blast
  then show ?case by (rule run_inv_sub[OF purge.IH])
next
  case (link st pool granted x kind v scope st')
  then have "br_sessions st' = br_sessions st" by (auto simp: upsert_alias_def split: if_splits)
  then show ?case using link.IH by (simp add: run_inv_def ids_distinct_def)
qed

text \<open>
  C3: Owner epochs are fencing tokens. Let any number of replicas claim, renew, release, drain, purge and
  link sessions, each reading rows at one time and writing them at any later one. No two instances are
  ever granted the same epoch of the same session, and a session that has an owner has an epoch that was
  granted to that owner and is the latest one granted for the session.
\<close>

theorem epochs_are_fencing_tokens:
  assumes "bridge_run hash st pool granted"
  shows "(\<forall>x e i j. (x, e, i) \<in> granted \<and> (x, e, j) \<in> granted \<longrightarrow> i = j) \<and>
    (\<forall>row \<in> set (br_sessions st). \<forall>i. bs_owner_instance_id row = Some i \<longrightarrow>
       (bs_id row, bs_owner_epoch row, i) \<in> granted \<and> (\<forall>e j. (bs_id row, e, j) \<in> granted \<longrightarrow> e \<le> bs_owner_epoch row))"
  using bridge_run_inv[OF assms] by (auto simp: run_inv_def token_ok_def)

section \<open>Leases and former owners\<close>

lemma claim_session_found:
  assumes "find_session hash (ca_session_key_kind args) (ca_session_key_value args) (ca_api_key_scope args) st = Some row"
  shows "claim_session hash (new_id, now, race) retry args st = apsnd Inr (claim_existing now args row st)"
  using assms by (simp add: claim_session_def claim_attempt_def split: prod.split)

text \<open>
  A claim respects a live lease and succeeds otherwise. When the session exists, a claim by another
  instance without permission to take over, made while the owner's lease runs and the session is active,
  changes nothing and returns the row as it is. In every other case the claimant becomes the owner: the
  lease runs from now for at least a second, and the epoch advances by one exactly when the owner or the
  account changes or the caller asks for it.
\<close>

theorem claim_respects_live_lease:
  assumes "find_session hash (ca_session_key_kind args) (ca_session_key_value args) (ca_api_key_scope args) st = Some row"
  shows "if bs_owner_instance_id row \<noteq> Some (ca_instance_id args) \<and> \<not> ca_allow_takeover args \<and>
            bs_state row = SESSION_ACTIVE \<and> (case bs_lease_expires_at row of None \<Rightarrow> False | Some t \<Rightarrow> now < t)
    then claim_session hash (new_id, now, race) retry args st = (st, Inr (to_snapshot row))
    else \<exists>st' s. claim_session hash (new_id, now, race) retry args st = (st', Inr s) \<and>
           bs_id s = bs_id row \<and> bs_owner_instance_id s = Some (ca_instance_id args) \<and> bs_state s = SESSION_ACTIVE \<and>
           bs_lease_expires_at s = Some (now + max 1 (ca_lease_ttl_seconds args)) \<and>
           bs_owner_epoch s = bs_owner_epoch row +
             (if bs_owner_instance_id row \<noteq> Some (ca_instance_id args) \<or> bs_account_id row \<noteq> ca_account_id args \<or>
                 ca_force_owner_epoch_advance args then 1 else 0)"
proof -
  have refused: "claim_refused now args row \<longleftrightarrow> bs_owner_instance_id row \<noteq> Some (ca_instance_id args) \<and>
      \<not> ca_allow_takeover args \<and> bs_state row = SESSION_ACTIVE \<and>
      (case bs_lease_expires_at row of None \<Rightarrow> False | Some t \<Rightarrow> now < t)"
    by (cases "bs_state row"; cases "bs_lease_expires_at row")
      (auto simp: claim_refused_def owner_changed_def lease_expired_def)
  show ?thesis
    unfolding refused[symmetric] claim_session_found[OF assms]
    by (simp add: claim_existing_def next_epoch_def owner_changed_def account_changed_def)
qed

lemma row_after_put:
  assumes "ids_distinct st" and "row \<in> set (br_sessions st)" and "bs_id row' = bs_id row"
  shows "row_by_id (bs_id row) (put_row row' st) = Some row'"
proof -
  have "ids_distinct (put_row row' st)" using assms(1) put_row_ids[of row' st] by (simp add: ids_distinct_def)
  moreover have "row' \<in> set (br_sessions (put_row row' st))"
    using assms(2,3) by (auto simp: put_row_def update_rows_def image_iff intro!: bexI[of _ row])
  ultimately show ?thesis using assms(3) by (simp add: row_by_id_Some)
qed

lemma row_by_id_clear: "row_by_id x (put_row r (clear_aliases_for_session y st)) = row_by_id x (put_row r st)"
  by (simp add: row_by_id_def put_row_def clear_aliases_for_session_def)

text \<open>
  A former owner is shut out. Once another instance has successfully claimed the session, renewing,
  releasing and registering with the old instance and epoch change nothing in the store, whatever the
  request carries.
\<close>

theorem former_owner_is_fenced:
  assumes "ids_distinct st" and "owned_by old_instance epoch row"
    and "find_session hash (ca_session_key_kind args) (ca_session_key_value args) (ca_api_key_scope args) st = Some row"
    and "claim_session hash (new_id, now, race) retry args st = (st', Inr s)"
    and "bs_owner_instance_id s = Some new_instance" and "new_instance \<noteq> old_instance"
    and "rn_session_id req = bs_id row" and "rn_instance_id req = old_instance" and "rn_owner_epoch req = epoch"
  shows "fst (renew_session t race1 req st') = st' \<and>
    fst (release_session t race1 (bs_id row) old_instance epoch draining st') = st' \<and>
    fst (register_alias hash t race1 race2 api_key_id req kind v st') = st'"
proof -
  have claim: "claim_existing now args row st = (st', s)"
    using assms(4) by (cases "claim_existing now args row st") (simp add: claim_session_found[OF assms(3)])
  have "\<not> claim_refused now args row"
    using claim assms(2,5,6) by (auto simp: claim_existing_def owned_by_def)
  then have st': "st' = put_row (claimed_row now args row) (if account_changed args row then clear_aliases_for_session (bs_id row) st else st)"
    and new: "ca_instance_id args = new_instance"
    using claim assms(5) by (auto simp: claim_existing_def)
  have row: "row \<in> set (br_sessions st)" using assms(3) by (auto simp: find_session_def find_Some_iff)
  have "row_by_id (bs_id row) st' = Some (claimed_row now args row)"
    unfolding st' using row_after_put[OF assms(1) row, of "claimed_row now args row"] by (simp add: row_by_id_clear)
  moreover have "\<not> owned_by old_instance epoch (claimed_row now args row)" using new assms(6) by (simp add: owned_by_def)
  ultimately show ?thesis
    using assms(7-9) new assms(6)
    by (simp add: renew_session_def release_session_def register_alias_def snapshot_matches_owner_def)
qed

section \<open>Aliases\<close>

lemma resolve_alias_linked:
  assumes "resolve_alias hash kind v scope st = Some s"
  shows "\<exists>a \<in> set (br_aliases st). alias_key_matches hash kind v scope a \<and> al_session_id a = bs_id s"
  using assms by (auto simp: resolve_alias_def find_Some_iff list_ex_iff)

text \<open>
  A conversation does not follow a session to another account. When a claim moves a session to a
  different account, no alias resolves to it any more, and its latest turn and response are those of the
  claim alone.
\<close>

theorem account_change_clears_aliases:
  assumes "find_session hash (ca_session_key_kind args) (ca_session_key_value args) (ca_api_key_scope args) st = Some row"
    and "ca_account_id args \<noteq> bs_account_id row" and "ca_allow_takeover args"
    and "claim_session hash (new_id, now, race) retry args st = (st', Inr s)"
  shows "(case resolve_alias hash kind v scope st' of None \<Rightarrow> True | Some x \<Rightarrow> bs_id x \<noteq> bs_id row) \<and>
    bs_latest_turn_state s = ca_latest_turn_state args \<and> bs_latest_response_id s = ca_latest_response_id args"
proof -
  have changed: "account_changed args row" and go: "\<not> claim_refused now args row"
    using assms(2,3) by (auto simp: account_changed_def claim_refused_def)
  have claim: "claim_existing now args row st = (st', s)"
    using assms(4) by (cases "claim_existing now args row st") (simp add: claim_session_found[OF assms(1)])
  have st': "st' = put_row (claimed_row now args row) (clear_aliases_for_session (bs_id row) st)"
    and s: "s = to_snapshot (claimed_row now args row)"
    using claim changed go by (auto simp: claim_existing_def)
  have "al_session_id a \<noteq> bs_id row" if "a \<in> set (br_aliases st')" for a
    using that by (simp add: st' put_row_def clear_aliases_for_session_def)
  then have "case resolve_alias hash kind v scope st' of None \<Rightarrow> True | Some x \<Rightarrow> bs_id x \<noteq> bs_id row"
    using resolve_alias_linked[of hash kind v scope st'] by (auto split: option.split)
  moreover have "bs_latest_turn_state s = ca_latest_turn_state args \<and> bs_latest_response_id s = ca_latest_response_id args"
    using changed by (simp add: s to_snapshot_def bridge_snapshot.defs claimed_row_def claimed_latest_def)
  ultimately show ?thesis by blast
qed

lemma upsert_alias_links:
  assumes "upsert_alias hash x kind v scope st = Inr st'"
  shows "br_sessions st' = br_sessions st"
    and "\<exists>a \<in> set (br_aliases st'). alias_key_matches hash kind v scope a"
    and "a \<in> set (br_aliases st') \<Longrightarrow> alias_key_matches hash kind v scope a \<Longrightarrow> al_session_id a = x"
proof -
  let ?m = "alias_key_matches hash kind v scope"
  let ?f = "\<lambda>a. a\<lparr>al_session_id := x, al_alias_value := v\<rparr>"
  have keep: "?m (?f b) = ?m b" for b by (simp add: alias_key_matches_def)
  show "br_sessions st' = br_sessions st" using assms by (auto simp: upsert_alias_def split: if_splits)
  have "(\<exists>a \<in> set (br_aliases st'). ?m a) \<and> (\<forall>a \<in> set (br_aliases st'). ?m a \<longrightarrow> al_session_id a = x)"
  proof (cases "any_row ?m (br_aliases st)")
    case True
    then have "br_aliases st' = update_rows ?m ?f (br_aliases st)" using assms by (auto simp: upsert_alias_def split: if_splits)
    then show ?thesis using True keep by (auto simp: any_row_iff update_rows_def image_iff)
  next
    case False
    then have "br_aliases st' = br_aliases st @ [\<lparr>al_session_id = x, al_alias_kind = kind, al_alias_value = v, al_alias_hash = hash v,
        al_api_key_scope = scope\<rparr>]"
      using assms by (auto simp: upsert_alias_def split: if_splits)
    then show ?thesis using False by (auto simp: any_row_iff alias_key_matches_def)
  qed
  then show "\<exists>a \<in> set (br_aliases st'). ?m a"
    and "a \<in> set (br_aliases st') \<Longrightarrow> ?m a \<Longrightarrow> al_session_id a = x" by blast+
qed

lemma upsert_alias_total: "any_row (\<lambda>r. bs_id r = x) (br_sessions st) \<Longrightarrow> \<exists>st'. upsert_alias hash x kind v scope st = Inr st'"
  by (simp add: upsert_alias_def)

lemma resolve_after_upsert:
  assumes "upsert_alias hash x kind v scope st = Inr st'" and "row_by_id x st' = Some r" and "ids_distinct st'"
  shows "resolve_alias hash kind v scope st' = Some (to_snapshot r)"
proof -
  note U = upsert_alias_links[OF assms(1)]
  have "list_ex (\<lambda>a. alias_key_matches hash kind v scope a \<and> al_session_id a = bs_id q) (br_aliases st') \<longleftrightarrow> bs_id q = x" for q :: bridge_record
    using U(2,3) by (auto simp: list_ex_iff)
  then show ?thesis using assms(2) by (simp add: resolve_alias_def row_by_id_def)
qed

text \<open>
  A turn state leads back to its session. After the owner has registered a turn state, every later
  request of the same API key that carries it is directed to that session, whatever its other keys say.
\<close>

theorem turn_state_roundtrip:
  assumes "ids_distinct st" and "row_by_id session_id st = Some row" and "owned_by instance_id epoch row"
    and "register_turn_state hash now id id session_id api_key_id instance_id epoch turn_state ttl st = (st', outcome)"
  shows "map_option lk_session_id
      (lookup_request_targets hash kind key api_key_id (Some turn_state) session_header previous_response_id st') = Some session_id"
proof -
  let ?req = "(renew_request session_id instance_id epoch ttl)\<lparr>rn_latest_turn_state := Some turn_state\<rparr>"
  let ?row = "flush_row row (renewed_row now ?req row) row"
  let ?st = "put_row ?row st"
  have mem: "row \<in> set (br_sessions st)" "bs_id row = session_id" using assms(2) by (simp_all add: row_by_id_Some[OF assms(1)])
  have found: "row_by_id session_id ?st = Some ?row" using row_after_put[OF assms(1) mem(1), of ?row] mem(2) by simp
  have ids: "ids_distinct ?st" using assms(1) put_row_ids[of ?row st] by (simp add: ids_distinct_def)
  have renewed: "renew_session now id ?req st = (?st, Inr (Some (to_snapshot ?row)))"
    using assms(2,3) mem by (simp add: renew_session_def renew_request_def commit_row_def)
  have owner: "snapshot_matches_owner (Some (to_snapshot ?row)) (rn_instance_id ?req) (rn_owner_epoch ?req)"
    using assms(3) by (simp add: snapshot_matches_owner_def renew_request_def owned_by_def flushed_def)
  have "any_row (\<lambda>r. bs_id r = session_id) (br_sessions ?st)"
    using found unfolding row_by_id_Some[OF ids] any_row_iff by blast
  then obtain st'' where up: "upsert_alias hash session_id ''turn_state'' turn_state (durable_bridge_api_key_scope api_key_id) ?st = Inr st''"
    using upsert_alias_total by blast
  then have "st' = st''"
    using assms(4) renewed owner by (simp add: register_turn_state_def register_alias_def Let_def renew_request_def)
  moreover have "br_sessions st'' = br_sessions ?st" by (rule upsert_alias_links(1)[OF up])
  then have "row_by_id session_id st'' = Some ?row" "ids_distinct st''" using found ids by (simp_all add: row_by_id_def ids_distinct_def)
  then have "resolve_alias hash ''turn_state'' turn_state (durable_bridge_api_key_scope api_key_id) st'' = Some (to_snapshot ?row)"
    by (rule resolve_after_upsert[OF up])
  ultimately show ?thesis using mem(2) by (simp add: lookup_request_targets_def to_lookup_def)
qed

section \<open>Purge and retry\<close>

lemma purge_batch_empty:
  assumes "0 < n" and "purge_batch n cutoff st = []"
  shows "filter (purgeable cutoff) (br_sessions st) = []"
proof -
  have "sort_key bs_last_seen_at (filter (purgeable cutoff) (br_sessions st)) = []" using assms by (simp add: purge_batch_def)
  then show ?thesis by (metis length_0_conv length_sort)
qed

definition purged :: "real \<Rightarrow> bridge_store \<Rightarrow> bridge_store" where
  "purged cutoff st =
     st\<lparr>br_sessions := filter (\<lambda>r. \<not> purgeable cutoff r) (br_sessions st),
        br_aliases := filter (\<lambda>a. \<not> list_ex (\<lambda>r. bs_id r = al_session_id a \<and> purgeable cutoff r) (br_sessions st)) (br_aliases st)\<rparr>"

lemma delete_batch_effect:
  "purged cutoff (fst (delete_batch cutoff xs st)) = purged cutoff st"
  "snd (delete_batch cutoff xs st) + length (filter (purgeable cutoff) (br_sessions (fst (delete_batch cutoff xs st)))) =
     length (filter (purgeable cutoff) (br_sessions st))"
proof -
  let ?kill = "\<lambda>r. bs_id r \<in> set xs \<and> purgeable cutoff r"
  have split: "filter (\<lambda>r. \<not> purgeable cutoff r) (filter (\<lambda>r. \<not> ?kill r) rs) = filter (\<lambda>r. \<not> purgeable cutoff r) rs"
    "length (filter ?kill rs) + length (filter (purgeable cutoff) (filter (\<lambda>r. \<not> ?kill r) rs)) = length (filter (purgeable cutoff) rs)" for rs
    by (induction rs) auto
  have linked: "al_session_id a \<notin> set (map bs_id (filter ?kill rs)) \<and>
      \<not> list_ex (\<lambda>r. bs_id r = al_session_id a \<and> purgeable cutoff r) (filter (\<lambda>r. \<not> ?kill r) rs) \<longleftrightarrow>
      \<not> list_ex (\<lambda>r. bs_id r = al_session_id a \<and> purgeable cutoff r) rs" for a and rs :: "bridge_record list"
    by (auto simp: list_ex_iff image_iff)
  have "filter (\<lambda>a. \<not> list_ex (\<lambda>r. bs_id r = al_session_id a \<and> purgeable cutoff r) (filter (\<lambda>r. \<not> ?kill r) (br_sessions st)))
      (filter (\<lambda>a. al_session_id a \<notin> set (map bs_id (filter ?kill (br_sessions st)))) (br_aliases st)) =
    filter (\<lambda>a. \<not> list_ex (\<lambda>r. bs_id r = al_session_id a \<and> purgeable cutoff r) (br_sessions st)) (br_aliases st)"
    unfolding filter_filter linked ..
  then show "purged cutoff (fst (delete_batch cutoff xs st)) = purged cutoff st"
    using split(1)[of "br_sessions st"] by (simp add: purged_def delete_batch_def Let_def del: filter_filter set_map)
  show "snd (delete_batch cutoff xs st) + length (filter (purgeable cutoff) (br_sessions (fst (delete_batch cutoff xs st)))) =
      length (filter (purgeable cutoff) (br_sessions st))"
    using split(2)[of "br_sessions st"] by (simp add: delete_batch_def Let_def)
qed

lemma purge_closed_before_eq:
  assumes "0 < n"
  shows "purge_closed_before n cutoff k st = (purged cutoff st, k + length (filter (purgeable cutoff) (br_sessions st)))"
  using assms
proof (induction n cutoff k st rule: purge_closed_before.induct)
  case (1 n cutoff k st)
  show ?case
  proof (cases "purge_batch n cutoff st")
    case Nil
    then have none: "filter (purgeable cutoff) (br_sessions st) = []" by (rule purge_batch_empty[OF "1.prems"])
    then have "\<not> list_ex (\<lambda>r. bs_id r = al_session_id a \<and> purgeable cutoff r) (br_sessions st)" for a :: bridge_alias
      by (auto simp: filter_empty_conv list_ex_iff)
    then have "purged cutoff st = st" using none by (simp add: purged_def filter_empty_conv)
    then show ?thesis using Nil none by (subst purge_closed_before.simps) simp
  next
    case (Cons x xs)
    have "k + snd (delete_batch cutoff (x # xs) st) + length (filter (purgeable cutoff) (br_sessions (fst (delete_batch cutoff (x # xs) st)))) =
        k + length (filter (purgeable cutoff) (br_sessions st))"
      using delete_batch_effect(2)[of cutoff "x # xs" st] by simp
    then show ?thesis
      using "1.IH"[OF Cons refl "1.prems"] delete_batch_effect(1)[of cutoff "x # xs" st] Cons
      by (subst purge_closed_before.simps) (simp add: Let_def)
  qed
qed

text \<open>
  The purge of closed sessions ends and is exact, however many batches it takes: it deletes the rows
  that are closed and were last seen before the cutoff, and the aliases of those rows, and nothing else,
  and it returns how many rows it has deleted.
\<close>

theorem purge_is_exact:
  "purge_closed_before 500 cutoff 0 st =
     (st\<lparr>br_sessions := filter (\<lambda>r. \<not> (bs_state r = SESSION_CLOSED \<and> bs_last_seen_at r < cutoff)) (br_sessions st),
         br_aliases := filter (\<lambda>a. \<not> list_ex (\<lambda>r. bs_id r = al_session_id a \<and> bs_state r = SESSION_CLOSED \<and>
           bs_last_seen_at r < cutoff) (br_sessions st)) (br_aliases st)\<rparr>,
      length (filter (\<lambda>r. bs_state r = SESSION_CLOSED \<and> bs_last_seen_at r < cutoff) (br_sessions st)))"
  using purge_closed_before_eq[of 500 cutoff 0 st] by (simp add: purged_def purgeable_def[abs_def])

text \<open>
  Losing the race to create a session is harmless. When another replica inserts the same key between
  the lookup and the insert, the claim is retried on the row that is there now and returns a snapshot
  instead of an error.
\<close>

theorem lost_insert_race_is_retried:
  assumes "claim_attempt hash (id1, now1, race1) args st = (st1, Inl err)"
    and "list_all (\<lambda>r. bs_id r \<noteq> id1) (br_sessions st1)"
  shows "\<exists>st2 s. claim_session hash (id1, now1, race1) (id2, now2, race2) args st = (st2, Inr s)"
proof -
  have "insert_session (new_session hash id1 now1 args) st1 = Inl err"
    using assms(1)
    by (auto simp: claim_attempt_def Let_def split: option.splits sum.splits prod.splits)
  then obtain r where "r \<in> set (br_sessions st1)"
    "session_key_matches hash (ca_session_key_kind args) (ca_session_key_value args) (ca_api_key_scope args) r"
    using assms(2) by (auto simp: insert_session_def any_row_iff new_session_def session_key_matches_def list_all_iff split: if_splits)
  then obtain row where "find_session hash (ca_session_key_kind args) (ca_session_key_value args) (ca_api_key_scope args) st1 = Some row"
    by (cases "find_session hash (ca_session_key_kind args) (ca_session_key_value args) (ca_api_key_scope args) st1")
      (auto simp: find_session_def find_None_iff)
  then have "\<exists>st2 s. claim_attempt hash (id2, now2, race2) args st1 = (st2, Inr s)"
    by (simp add: claim_attempt_def split: prod.split)
  then show ?thesis using assms(1) by (simp add: claim_session_def)
qed

section \<open>Witnesses\<close>

definition example_hash :: "string \<Rightarrow> string" where
  "example_hash s = s"

definition example_args :: "string \<Rightarrow> string \<Rightarrow> bool \<Rightarrow> claim_args" where
  "example_args inst account takeover =
     \<lparr>ca_session_key_kind = ''k'', ca_session_key_value = ''v'', ca_api_key_scope = ''s'', ca_instance_id = inst,
      ca_lease_ttl_seconds = 60, ca_account_id = Some account, ca_model = None, ca_service_tier = None,
      ca_latest_turn_state = None, ca_latest_response_id = None, ca_allow_takeover = takeover,
      ca_force_owner_epoch_advance = False\<rparr>"

definition example_row :: bridge_record where
  "example_row = new_session example_hash ''id1'' 0 (example_args ''A'' ''acc'' False)"

definition example_bridge :: bridge_store where
  "example_bridge = \<lparr>br_sessions = [example_row], br_aliases = []\<rparr>"

lemmas example_simps =
  example_bridge_def example_row_def example_args_def example_hash_def new_session_def

lemma example_find:
  "find_session example_hash (ca_session_key_kind (example_args i acc t)) (ca_session_key_value (example_args i acc t))
     (ca_api_key_scope (example_args i acc t)) example_bridge = Some example_row"
  by (simp add: find_session_def session_key_matches_def example_simps)

lemma example_run: "bridge_run example_hash example_bridge {} {(''id1'', 1, ''A'')}"
proof -
  have ins: "insert_session (new_session example_hash ''id1'' 0 (example_args ''A'' ''acc'' False)) \<lparr>br_sessions = [], br_aliases = []\<rparr> = Inr example_bridge"
    by (simp add: insert_session_def any_row_def example_simps)
  show ?thesis
    using bridge_run.insert[OF bridge_run.empty _ ins] by (simp add: example_args_def)
qed

theorem epochs_are_fencing_tokens_witness:
  "list_all (\<lambda>row. bs_owner_instance_id row = Some ''A'' \<and> bs_owner_epoch row \<le> 1) (br_sessions example_bridge)"
  using epochs_are_fencing_tokens[OF example_run] by (simp add: example_simps)

theorem claim_respects_live_lease_witness:
  "claim_session example_hash (''id2'', 30, id) (''id3'', 31, id) (example_args ''B'' ''acc'' False) example_bridge =
     (example_bridge, Inr (to_snapshot example_row)) \<and>
   (\<exists>st' s. claim_session example_hash (''id2'', 60, id) (''id3'', 61, id) (example_args ''B'' ''acc'' False) example_bridge = (st', Inr s) \<and>
      bs_owner_instance_id s = Some ''B'' \<and> bs_owner_epoch s = 2)"
  using claim_respects_live_lease[OF example_find[of "''B''" "''acc''" False], where now = 30 and new_id = "''id2''" and race = id
      and retry = "(''id3'', 31, id)"]
    claim_respects_live_lease[OF example_find[of "''B''" "''acc''" False], where now = 60 and new_id = "''id2''" and race = id
      and retry = "(''id3'', 61, id)"]
  by (auto simp: example_simps)

lemma example_ids: "ids_distinct example_bridge"
  by (simp add: ids_distinct_def example_bridge_def)

theorem former_owner_is_fenced_witness:
  "\<exists>st' s. claim_session example_hash (''id2'', 60, id) (''id3'', 61, id) (example_args ''B'' ''acc'' False) example_bridge = (st', Inr s) \<and>
     fst (release_session 70 id ''id1'' ''A'' 1 True st') = st'"
proof -
  let ?req = "renew_request ''id1'' ''A'' 1 60"
  have row: "owned_by ''A'' 1 example_row" "bs_id example_row = ''id1''" by (simp_all add: owned_by_def example_simps)
  obtain st' s where run: "claim_session example_hash (''id2'', 60, id) (''id3'', 61, id) (example_args ''B'' ''acc'' False) example_bridge = (st', Inr s)"
    and s: "bs_owner_instance_id s = Some ''B''"
    unfolding claim_session_found[OF example_find]
    by (simp add: claim_existing_def claim_refused_def lease_expired_def) (simp add: example_simps)
  show ?thesis
    using run former_owner_is_fenced[OF example_ids row(1) example_find run s, of ?req 70 id True id None "''x''" "''y''"] row(2)
    by (auto simp: renew_request_def)
qed

definition linked_bridge :: bridge_store where
  "linked_bridge = example_bridge\<lparr>br_aliases :=
     [\<lparr>al_session_id = ''id1'', al_alias_kind = ''turn_state'', al_alias_value = ''t'', al_alias_hash = ''t'', al_api_key_scope = ''s''\<rparr>]\<rparr>"

theorem account_change_clears_aliases_witness:
  "resolve_alias example_hash ''turn_state'' ''t'' ''s'' linked_bridge = Some (to_snapshot example_row) \<and>
   (\<exists>st' s. claim_session example_hash (''id2'', 60, id) (''id3'', 61, id) (example_args ''A'' ''other'' True) linked_bridge = (st', Inr s) \<and>
     (case resolve_alias example_hash ''turn_state'' ''t'' ''s'' st' of None \<Rightarrow> True | Some x \<Rightarrow> bs_id x \<noteq> ''id1''))"
proof -
  have find: "find_session example_hash (ca_session_key_kind (example_args ''A'' ''other'' True))
      (ca_session_key_value (example_args ''A'' ''other'' True)) (ca_api_key_scope (example_args ''A'' ''other'' True)) linked_bridge = Some example_row"
    using example_find[of "''A''" "''other''" True] by (simp add: find_session_def linked_bridge_def)
  obtain st' s where run: "claim_session example_hash (''id2'', 60, id) (''id3'', 61, id) (example_args ''A'' ''other'' True) linked_bridge = (st', Inr s)"
    unfolding claim_session_found[OF find]
    by (cases "claim_existing 60 (example_args ''A'' ''other'' True) example_row linked_bridge") auto
  have "ca_account_id (example_args ''A'' ''other'' True) \<noteq> bs_account_id example_row" "ca_allow_takeover (example_args ''A'' ''other'' True)"
    by (simp_all add: example_simps)
  from account_change_clears_aliases[OF find this run, of "''turn_state''" "''t''" "''s''"]
  have "case resolve_alias example_hash ''turn_state'' ''t'' ''s'' st' of None \<Rightarrow> True | Some x \<Rightarrow> bs_id x \<noteq> ''id1''"
    by (cases "resolve_alias example_hash ''turn_state'' ''t'' ''s'' st'") (simp_all add: example_row_def new_session_def)
  moreover have "resolve_alias example_hash ''turn_state'' ''t'' ''s'' linked_bridge = Some (to_snapshot example_row)"
    by (simp add: resolve_alias_def linked_bridge_def alias_key_matches_def example_simps)
  ultimately show ?thesis using run by blast
qed

theorem turn_state_roundtrip_witness:
  "\<exists>st' outcome. register_turn_state example_hash 5 id id ''id1'' (Some ''s'') ''A'' 1 ''t'' 60 example_bridge = (st', outcome) \<and>
     map_option lk_session_id (lookup_request_targets example_hash ''x'' ''y'' (Some ''s'') (Some ''t'') None None st') = Some ''id1''"
proof -
  have row: "row_by_id ''id1'' example_bridge = Some example_row" "owned_by ''A'' 1 example_row"
    by (simp_all add: row_by_id_def owned_by_def example_simps)
  obtain st' outcome where run: "register_turn_state example_hash 5 id id ''id1'' (Some ''s'') ''A'' 1 ''t'' 60 example_bridge = (st', outcome)"
    by (metis surj_pair)
  show ?thesis using run turn_state_roundtrip[OF example_ids row run] by blast
qed

theorem lost_insert_race_is_retried_witness:
  "\<exists>st2 s. claim_session example_hash (''id7'', 0, \<lambda>_. example_bridge) (''id8'', 1, id) (example_args ''B'' ''acc'' False)
     \<lparr>br_sessions = [], br_aliases = []\<rparr> = (st2, Inr s)"
proof (rule lost_insert_race_is_retried)
  show "claim_attempt example_hash (''id7'', 0, \<lambda>_. example_bridge) (example_args ''B'' ''acc'' False) \<lparr>br_sessions = [], br_aliases = []\<rparr>
      = (example_bridge, Inl BridgeIntegrityError)"
    by (simp add: claim_attempt_def find_session_def insert_session_def any_row_def example_simps)
  show "list_all (\<lambda>r. bs_id r \<noteq> ''id7'') (br_sessions example_bridge)" by (simp add: example_simps)
qed

text \<open>
  The check of the owner and the write of a release are separate: a release that was read before a
  takeover and written after it takes the session away from the new owner, although it carries the old
  epoch.
\<close>

lemma late_release_evicts_new_owner:
  "row_by_id ''id1'' (fst (release_session 61
      (\<lambda>st. fst (claim_session example_hash (''id2'', 60, id) (''id3'', 60, id) (example_args ''B'' ''acc'' False) st))
      ''id1'' ''A'' 1 False example_bridge)) =
    Some ((claimed_row 60 (example_args ''B'' ''acc'' False) example_row)
      \<lparr>bs_owner_instance_id := None, bs_lease_expires_at := Some 61, bs_last_seen_at := 61, bs_updated_at := 61,
       bs_state := SESSION_CLOSED, bs_closed_at := Some 61\<rparr>)"
proof -
  have claim: "fst (claim_session example_hash (''id2'', 60, id) (''id3'', 60, id) (example_args ''B'' ''acc'' False) example_bridge) =
      \<lparr>br_sessions = [claimed_row 60 (example_args ''B'' ''acc'' False) example_row], br_aliases = []\<rparr>"
    unfolding claim_session_found[OF example_find]
    by (simp add: claim_existing_def claim_refused_def lease_expired_def account_changed_def put_row_def)
      (simp add: example_simps)
  show ?thesis
    unfolding release_session_def claim
    by (simp add: row_by_id_def commit_row_def owned_by_def put_row_def claim released_row_def flush_row_def flushed_def
        claimed_row_def claimed_latest_def account_changed_def owner_changed_def next_epoch_def example_simps)
qed

end
