(* ===== verification/Ring.thy ===== *)
theory Ring
  imports Ownership "HOL-Library.Multiset"
begin

text \<open>
  The ring of replicas and who serves a bridge session: membership
  (\<open>app/modules/proxy/ring_membership.py\<close>), rendezvous hashing (\<open>app/core/balancer/rendezvous_hash.py\<close>),
  and the ownership decisions of \<open>app/modules/proxy/_service/http_bridge/helpers.py\<close>.

  \<^item> The metadata column holds JSON text; it is represented by what the text parses to.
  \<^item> Clock, generated ids and the digest function (\<open>sha256\<close>) are arguments.
\<close>

section \<open>Membership\<close>

datatype json_field = JsonString string | JsonOther

datatype json_text = MalformedJson | NonObjectJson | ObjectJson "(string \<times> json_field) list"

record ring_member =
  rm_id :: string
  rm_instance_id :: string
  rm_registered_at :: real
  rm_last_heartbeat_at :: real
  rm_metadata_json :: "json_text option"

datatype sql_dialect = Postgresql | Sqlite | OtherDialect

abbreviation (input) RING_HEARTBEAT_INTERVAL_SECONDS :: real where "RING_HEARTBEAT_INTERVAL_SECONDS \<equiv> 10"
abbreviation (input) RING_STALE_THRESHOLD_SECONDS :: real where "RING_STALE_THRESHOLD_SECONDS \<equiv> 30"
abbreviation (input) RING_STALE_GRACE_SECONDS :: real where "RING_STALE_GRACE_SECONDS \<equiv> 15"

definition bridge_ring_metadata_json :: "string option \<Rightarrow> json_text option" where
  "bridge_ring_metadata_json endpoint_base_url =
     map_option (\<lambda>url. ObjectJson [(''endpoint_base_url'', JsonString url)]) endpoint_base_url"

definition rstrip_slash :: "string \<Rightarrow> string" where
  "rstrip_slash s = rev (dropWhile (\<lambda>c. c = CHR ''/'') (rev s))"

definition bridge_ring_endpoint_from_metadata :: "json_text option \<Rightarrow> string option" where
  "bridge_ring_endpoint_from_metadata metadata_json =
     (case metadata_json of
        Some (ObjectJson payload) \<Rightarrow>
          (case map_of payload ''endpoint_base_url'' of
             Some (JsonString endpoint) \<Rightarrow>
               let stripped = rstrip_slash (py_strip endpoint) in if stripped = [] then None else Some stripped
           | _ \<Rightarrow> None)
      | _ \<Rightarrow> None)"

definition upsert_member :: "(ring_member \<Rightarrow> ring_member) \<Rightarrow> ring_member \<Rightarrow> ring_member list \<Rightarrow> ring_member list" where
  "upsert_member f row rows =
     (if any_row (\<lambda>r. rm_instance_id r = rm_instance_id row) rows
      then update_rows (\<lambda>r. rm_instance_id r = rm_instance_id row) f rows else rows @ [row])"

definition new_member :: "string \<Rightarrow> real \<Rightarrow> string \<Rightarrow> string option \<Rightarrow> ring_member" where
  "new_member new_id now instance_id endpoint_base_url =
     \<lparr>rm_id = new_id, rm_instance_id = instance_id, rm_registered_at = now, rm_last_heartbeat_at = now,
      rm_metadata_json = bridge_ring_metadata_json endpoint_base_url\<rparr>"

definition ring_register ::
  "sql_dialect \<Rightarrow> string \<Rightarrow> real \<Rightarrow> string \<Rightarrow> string option \<Rightarrow> ring_member list \<Rightarrow> py_error + ring_member list" where
  "ring_register dialect new_id now instance_id endpoint_base_url rows =
     (if dialect = OtherDialect then Inl RuntimeError
      else Inr (upsert_member
        (\<lambda>r. r\<lparr>rm_last_heartbeat_at := now, rm_registered_at := now,
               rm_metadata_json := bridge_ring_metadata_json endpoint_base_url\<rparr>)
        (new_member new_id now instance_id endpoint_base_url) rows))"

definition ring_heartbeat ::
  "sql_dialect \<Rightarrow> string \<Rightarrow> real \<Rightarrow> string \<Rightarrow> string option \<Rightarrow> ring_member list \<Rightarrow> ring_member list" where
  "ring_heartbeat dialect new_id now instance_id endpoint_base_url rows =
     (let beat = (\<lambda>r. r\<lparr>rm_last_heartbeat_at := now, rm_metadata_json := bridge_ring_metadata_json endpoint_base_url\<rparr>)
      in if dialect = OtherDialect then update_rows (\<lambda>r. rm_instance_id r = instance_id) beat rows
         else upsert_member beat (new_member new_id now instance_id endpoint_base_url) rows)"

definition ring_unregister :: "string \<Rightarrow> ring_member list \<Rightarrow> ring_member list" where
  "ring_unregister instance_id rows = filter (\<lambda>r. rm_instance_id r \<noteq> instance_id) rows"

definition ring_mark_stale :: "real \<Rightarrow> string \<Rightarrow> real \<Rightarrow> real \<Rightarrow> ring_member list \<Rightarrow> ring_member list" where
  "ring_mark_stale now instance_id stale_threshold_seconds grace_seconds rows =
     (let active_for_seconds = max grace_seconds 0;
          age_seconds = max (stale_threshold_seconds - active_for_seconds) 0
      in update_rows (\<lambda>r. rm_instance_id r = instance_id) (\<lambda>r. r\<lparr>rm_last_heartbeat_at := now - age_seconds\<rparr>) rows)"

definition ring_list_active :: "real \<Rightarrow> real \<Rightarrow> bool \<Rightarrow> ring_member list \<Rightarrow> string list" where
  "ring_list_active now stale_threshold_seconds require_endpoint rows =
     (let cutoff = now - stale_threshold_seconds
      in sort (map rm_instance_id
           (filter (\<lambda>r. rm_last_heartbeat_at r \<ge> cutoff \<and> (require_endpoint \<longrightarrow> rm_metadata_json r \<noteq> None)) rows)))"

definition ring_resolve_endpoint :: "real \<Rightarrow> string \<Rightarrow> real \<Rightarrow> ring_member list \<Rightarrow> string option" where
  "ring_resolve_endpoint now instance_id stale_threshold_seconds rows =
     (let cutoff = now - stale_threshold_seconds
      in bridge_ring_endpoint_from_metadata
           (case find (\<lambda>r. rm_instance_id r = instance_id \<and> rm_last_heartbeat_at r \<ge> cutoff) rows of
              None \<Rightarrow> None | Some r \<Rightarrow> rm_metadata_json r))"

fun join_with :: "string \<Rightarrow> string list \<Rightarrow> string" where
  "join_with sep [] = []"
| "join_with sep [x] = x"
| "join_with sep (x # y # ys) = x @ sep @ join_with sep (y # ys)"

definition ring_fingerprint :: "(string \<Rightarrow> string) \<Rightarrow> real \<Rightarrow> real \<Rightarrow> ring_member list \<Rightarrow> string" where
  "ring_fingerprint digest now stale_threshold_seconds rows =
     digest (join_with '','' (sort (ring_list_active now stale_threshold_seconds False rows)))"

section \<open>The owner of a key\<close>

definition select_node :: "(string \<Rightarrow> string) \<Rightarrow> string \<Rightarrow> string list \<Rightarrow> string option" where
  "select_node digest key nodes =
     (case nodes of
        [] \<Rightarrow> None
      | [n] \<Rightarrow> Some n
      | n # ns \<Rightarrow> Some (max_by (\<lambda>node. digest (key @ '':'' @ node)) n ns))"

record bridge_settings =
  st_instance_id :: string
  st_instance_ring :: "string list"
  st_advertise_base_url :: "string option"

record bridge_session_key =
  bk_affinity_kind :: string
  bk_affinity_key :: string
  bk_api_key_id :: "string option"
  bk_strength :: string

definition normalized_http_bridge_instance_ring :: "bridge_settings \<Rightarrow> string \<times> string list" where
  "normalized_http_bridge_instance_ring settings =
     (let instance_id = py_strip (st_instance_id settings);
          instance_id = (if instance_id = [] then ''codex-lb'' else instance_id);
          ring_entries = filter (\<lambda>e. e \<noteq> []) (map py_strip (st_instance_ring settings));
          ring_entries = (if ring_entries = [] then [instance_id] else ring_entries)
      in (instance_id, sort (remdups ring_entries)))"

text \<open>The membership service may be absent; its rows are read at time \<open>now\<close>.\<close>

definition active_http_bridge_instance_ring ::
  "bridge_settings \<Rightarrow> (real \<times> ring_member list) option \<Rightarrow> string \<times> string list" where
  "active_http_bridge_instance_ring settings ring_membership =
     (let (instance_id, static_ring) = normalized_http_bridge_instance_ring settings
      in case ring_membership of
           None \<Rightarrow> (instance_id, static_ring)
         | Some (now, rows) \<Rightarrow>
             let active_members = ring_list_active now RING_STALE_THRESHOLD_SECONDS True rows;
                 normalized_members = sort (remdups (filter (\<lambda>m. m \<noteq> []) (map py_strip active_members)))
             in if active_members = [] then (instance_id, [instance_id])
                else if normalized_members = [] then (instance_id, static_ring)
                else (instance_id, normalized_members))"

definition http_bridge_owner_instance ::
  "(string \<Rightarrow> string) \<Rightarrow> bridge_session_key \<Rightarrow> bridge_settings \<Rightarrow> (real \<times> ring_member list) option \<Rightarrow> string option" where
  "http_bridge_owner_instance digest key settings ring_membership =
     (let (instance_id, ring) = active_http_bridge_instance_ring settings ring_membership
      in if length ring \<le> 1 then Some instance_id
         else select_node digest
                (bk_affinity_kind key @ '':'' @ bk_affinity_key key @ '':'' @ default (bk_api_key_id key) []) ring)"

definition http_bridge_owner_check_required :: "bridge_session_key \<Rightarrow> bool \<Rightarrow> bool" where
  "http_bridge_owner_check_required key gateway_safe_mode =
     (if bk_strength key = ''hard'' then True else gateway_safe_mode \<and> bk_affinity_kind key = ''sticky_thread'')"

definition http_bridge_can_single_instance_owner_takeover_without_anchor ::
  "bridge_session_key \<Rightarrow> string option \<Rightarrow> string \<Rightarrow> string list \<Rightarrow> bool" where
  "http_bridge_can_single_instance_owner_takeover_without_anchor key owner_instance current_instance ring =
     (if bk_strength key \<noteq> ''hard'' then False
      else case owner_instance of
             None \<Rightarrow> False
           | Some owner \<Rightarrow>
               if owner = current_instance then False
               else (case ring of [node] \<Rightarrow> if node \<noteq> current_instance then False else owner \<notin> set ring | _ \<Rightarrow> False))"

definition http_bridge_can_single_instance_prompt_cache_takeover_without_anchor ::
  "bridge_session_key \<Rightarrow> string option \<Rightarrow> string \<Rightarrow> string list \<Rightarrow> bool" where
  "http_bridge_can_single_instance_prompt_cache_takeover_without_anchor key owner_instance current_instance ring =
     (if bk_affinity_kind key \<noteq> ''prompt_cache'' then False
      else case owner_instance of
             None \<Rightarrow> False
           | Some owner \<Rightarrow>
               if owner = current_instance then False
               else (case ring of [node] \<Rightarrow> if node \<noteq> current_instance then False else owner \<notin> set ring | _ \<Rightarrow> False))"

definition http_bridge_endpoint_matches_current_instance :: "string \<Rightarrow> bridge_settings \<Rightarrow> bool" where
  "http_bridge_endpoint_matches_current_instance owner_endpoint settings =
     (case st_advertise_base_url settings of
        None \<Rightarrow> False
      | Some url \<Rightarrow> rstrip_slash (py_strip owner_endpoint) = rstrip_slash (py_strip url))"

section \<open>Decisions on a durable lookup\<close>

definition durable_bridge_lookup_active_owner :: "real \<Rightarrow> bridge_lookup option \<Rightarrow> string option" where
  "durable_bridge_lookup_active_owner now lookup =
     (case lookup of
        None \<Rightarrow> None
      | Some lk \<Rightarrow>
          if lk_state lk = SESSION_CLOSED then None
          else (case (lk_owner_instance_id lk, lk_lease_expires_at lk) of
                  (Some owner, Some t) \<Rightarrow> if t \<le> now then None else Some owner
                | _ \<Rightarrow> None))"

definition durable_bridge_lookup_allows_local_reuse :: "real \<Rightarrow> string \<Rightarrow> bridge_lookup option \<Rightarrow> bool" where
  "durable_bridge_lookup_allows_local_reuse now current_instance lookup =
     (if lookup = None then True
      else case durable_bridge_lookup_active_owner now lookup of
             None \<Rightarrow> True
           | Some owner \<Rightarrow> owner = current_instance)"

definition http_bridge_allow_durable_takeover :: "real \<Rightarrow> bridge_lookup option \<Rightarrow> bool" where
  "http_bridge_allow_durable_takeover now lookup =
     (case durable_bridge_lookup_active_owner now lookup of
        None \<Rightarrow> True
      | Some _ \<Rightarrow> (case lookup of None \<Rightarrow> False | Some lk \<Rightarrow> lk_state lk \<in> {SESSION_DRAINING, SESSION_CLOSED}))"

definition http_bridge_has_durable_recovery_anchor :: "string option \<Rightarrow> bridge_lookup option \<Rightarrow> bool" where
  "http_bridge_has_durable_recovery_anchor previous_response_id durable_lookup =
     (if previous_response_id \<noteq> None then True
      else case durable_lookup of
             None \<Rightarrow> False
           | Some lk \<Rightarrow> if lk_latest_response_id lk = None then False
                       else lk_canonical_kind lk \<in> {''turn_state_header'', ''session_header''})"

definition http_bridge_can_recover_during_drain :: "string option \<Rightarrow> bridge_lookup option \<Rightarrow> bool" where
  "http_bridge_can_recover_during_drain previous_response_id durable_lookup =
     http_bridge_has_durable_recovery_anchor previous_response_id durable_lookup"

section \<open>Rendezvous hashing\<close>

lemma max_by_first: "max_by f b xs = b \<or> f b < f (max_by f b xs)"
proof (induction xs arbitrary: b)
  case (Cons x xs)
  show ?case using Cons[of b] Cons[of x] by (auto intro: less_trans)
qed simp

lemma max_by_below:
  "f c \<le> f b \<Longrightarrow> f b < f (max_by f c cs) \<Longrightarrow> max_by f b cs = max_by f c cs"
proof (induction cs arbitrary: b c)
  case (Cons d ds)
  show ?case using Cons.prems Cons.IH[of d b] Cons.IH[of c b] by (auto split: if_splits)
qed simp

lemma max_by_skip: "f b < f (max_by f c cs) \<Longrightarrow> max_by f b (c # cs) = max_by f c cs"
  using max_by_below[of f c b cs] by auto

lemma max_by_filter:
  assumes "P (max_by f b xs)" and "filter P (b # xs) = c # cs"
  shows "max_by f c cs = max_by f b xs"
  using assms
proof (induction xs arbitrary: b c cs)
  case (Cons x xs)
  let ?b = "if f b < f x then x else b"
  let ?r = "max_by f ?b xs"
  have r: "max_by f b (x # xs) = ?r" by simp
  have Pr: "P ?r" using Cons.prems(1) by simp
  have nonempty: "\<exists>d ds. filter P (?b # xs) = d # ds \<and> max_by f d ds = ?r"
  proof -
    have "?r \<in> set (filter P (?b # xs))" using Pr max_by_mem[of f ?b xs] by auto
    then obtain d ds where "filter P (?b # xs) = d # ds" by (cases "filter P (?b # xs)") auto
    then show ?thesis using Cons.IH[OF Pr] by blast
  qed
  show ?case
  proof (cases "P ?b")
    case True
    then have same: "max_by f ?b (filter P xs) = ?r" using nonempty by auto
    show ?thesis
    proof (cases "f b < f x")
      case lt: True
      then show ?thesis using True same Cons.prems(2) r by (auto split: if_splits)
    next
      case ge: False
      then show ?thesis using True same Cons.prems(2) r by (auto split: if_splits)
    qed
  next
    case False
    then obtain d ds where d: "filter P xs = d # ds" "max_by f d ds = ?r" using nonempty by auto
    have "f ?b < f ?r" using max_by_first[of f ?b xs] False Pr by auto
    then have low: "max_by f a (filter P xs) = ?r" if "f a \<le> f ?b" for a
      using that unfolding d(1) by (intro max_by_skip[of f a d ds, unfolded d(2)]) simp
    then show ?thesis using low[of b] low[of x] False d Cons.prems(2) r by (auto simp del: max_by.simps split: if_splits)
  qed
qed auto

lemma select_node_Cons: "select_node digest key (n # ns) = Some (max_by (\<lambda>node. digest (key @ '':'' @ node)) n ns)"
  by (cases ns) (simp_all add: select_node_def)

text \<open>
  C27: Rendezvous hashing disturbs only what it must. When a replica leaves the ring, every key it did not
  own keeps its owner; read the other way, a replica that joins takes over keys, and moves none between
  the others.
\<close>

theorem rendezvous_minimal_disruption:
  assumes "select_node digest key nodes = Some owner" and "leaving \<noteq> owner"
  shows "select_node digest key (filter (\<lambda>n. n \<noteq> leaving) nodes) = Some owner"
proof (cases nodes)
  case (Cons n ns)
  let ?f = "\<lambda>node. digest (key @ '':'' @ node)"
  have owner: "owner = max_by ?f n ns" using assms(1) by (simp add: Cons select_node_Cons)
  then have "owner \<in> set (filter (\<lambda>n. n \<noteq> leaving) (n # ns))" using assms(2) max_by_mem[of ?f n ns] by auto
  then obtain c cs where c: "filter (\<lambda>n. n \<noteq> leaving) (n # ns) = c # cs" by (cases "filter (\<lambda>n. n \<noteq> leaving) (n # ns)") auto
  then have "max_by ?f c cs = max_by ?f n ns" using assms(2) owner by (intro max_by_filter[where P = "\<lambda>n. n \<noteq> leaving"]) auto
  then show ?thesis unfolding Cons c select_node_Cons owner by simp
qed (use assms in \<open>simp add: select_node_def\<close>)

theorem rendezvous_minimal_disruption_witness:
  "select_node id ''k'' [''a'', ''c'', ''b''] = Some ''c'' \<and> select_node id ''k'' [''c'', ''b''] = Some ''c''"
proof -
  have first: "select_node id ''k'' [''a'', ''c'', ''b''] = Some ''c''" by code_simp
  show ?thesis using first rendezvous_minimal_disruption[OF first, of "''a''"] by simp
qed

section \<open>Membership over time\<close>

lemma listed_iff:
  "i \<in> set (ring_list_active now threshold False rows) \<longleftrightarrow>
     (\<exists>r \<in> set rows. rm_instance_id r = i \<and> now - threshold \<le> rm_last_heartbeat_at r)"
  by (auto simp: ring_list_active_def Let_def)

lemma ex_update_rows: "(\<exists>r \<in> set (update_rows P f rows). Q r) \<longleftrightarrow> (\<exists>r \<in> set rows. if P r then Q (f r) else Q r)"
  by (induction rows) simp_all

lemma upsert_member_rows:
  assumes "\<And>r. rm_instance_id (f r) = rm_instance_id r" and "\<And>r. rm_last_heartbeat_at (f r) = t"
    and "rm_last_heartbeat_at row = t"
  shows "(\<exists>r \<in> set (upsert_member f row rows). rm_instance_id r = i \<and> P (rm_last_heartbeat_at r)) \<longleftrightarrow>
    (if i = rm_instance_id row then P t else \<exists>r \<in> set rows. rm_instance_id r = i \<and> P (rm_last_heartbeat_at r))"
proof (cases "any_row (\<lambda>r. rm_instance_id r = rm_instance_id row) rows")
  case True
  then show ?thesis using assms by (auto simp: upsert_member_def ex_update_rows any_row_iff)
next
  case False
  then show ?thesis using assms(3) by (auto simp: upsert_member_def any_row_iff)
qed

text \<open>
  Membership is exactly as long as its last heartbeat says. After a heartbeat at time \<open>t\<close> the instance
  is listed until \<open>t + 30\<close> and not later, even when its row had been deleted; after it is marked stale at
  \<open>t\<close> it is listed until \<open>t + 15\<close>, so that a sibling's next heartbeat, at most ten seconds away, still
  finds it; the other instances are listed as before in both cases.
\<close>

theorem membership_follows_heartbeat:
  assumes "dialect \<noteq> OtherDialect" and "list_ex (\<lambda>r. rm_instance_id r = j) rows"
  shows "(i \<in> set (ring_list_active now 30 False (ring_heartbeat dialect new_id t j url rows)) \<longleftrightarrow>
      (if i = j then now \<le> t + 30 else i \<in> set (ring_list_active now 30 False rows))) \<and>
    (i \<in> set (ring_list_active now 30 False (ring_mark_stale t j 30 15 rows)) \<longleftrightarrow>
      (if i = j then now \<le> t + 15 else i \<in> set (ring_list_active now 30 False rows)))"
proof
  let ?beat = "\<lambda>r. r\<lparr>rm_last_heartbeat_at := t, rm_metadata_json := bridge_ring_metadata_json url\<rparr>"
  have "i \<in> set (ring_list_active now 30 False (ring_heartbeat dialect new_id t j url rows)) \<longleftrightarrow>
      (\<exists>r \<in> set (upsert_member ?beat (new_member new_id t j url) rows). rm_instance_id r = i \<and> now - 30 \<le> rm_last_heartbeat_at r)"
    using assms(1) by (simp add: listed_iff ring_heartbeat_def)
  also have "\<dots> \<longleftrightarrow> (if i = j then now - 30 \<le> t else i \<in> set (ring_list_active now 30 False rows))"
    by (subst upsert_member_rows[where t = t]) (simp_all add: new_member_def listed_iff)
  finally show "i \<in> set (ring_list_active now 30 False (ring_heartbeat dialect new_id t j url rows)) \<longleftrightarrow>
      (if i = j then now \<le> t + 30 else i \<in> set (ring_list_active now 30 False rows))"
    by (simp add: diff_le_eq)
  show "i \<in> set (ring_list_active now 30 False (ring_mark_stale t j 30 15 rows)) \<longleftrightarrow>
      (if i = j then now \<le> t + 15 else i \<in> set (ring_list_active now 30 False rows))"
    using assms(2) by (auto simp: listed_iff ring_mark_stale_def ex_update_rows list_ex_iff Let_def)
qed

theorem membership_follows_heartbeat_witness:
  "\<not> list_ex (\<lambda>x. x = ''a'') (ring_list_active 46 30 False (ring_mark_stale 30 ''a'' 30 15 [new_member ''1'' 20 ''a'' None])) \<and>
   list_ex (\<lambda>x. x = ''a'') (ring_list_active 45 30 False (ring_mark_stale 30 ''a'' 30 15 [new_member ''1'' 20 ''a'' None]))"
proof -
  have row: "list_ex (\<lambda>r. rm_instance_id r = ''a'') [new_member ''1'' 20 ''a'' None]" by (simp add: new_member_def)
  show ?thesis
    using membership_follows_heartbeat[OF _ row, of Sqlite "''a''" 46 "''2''" 30 None]
      membership_follows_heartbeat[OF _ row, of Sqlite "''a''" 45 "''2''" 30 None]
    by (auto simp: list_ex_iff)
qed

section \<open>Agreement\<close>

lemma active_ring_eq:
  assumes "\<exists>m \<in> set (ring_list_active now 30 True rows). py_strip m \<noteq> []"
  shows "snd (active_http_bridge_instance_ring settings (Some (now, rows))) =
    sort (remdups (filter (\<lambda>m. m \<noteq> []) (map py_strip (ring_list_active now 30 True rows))))"
proof -
  have "ring_list_active now 30 True rows \<noteq> []" using assms by auto
  moreover have "sort (remdups (filter (\<lambda>m. m \<noteq> []) (map py_strip (ring_list_active now 30 True rows)))) \<noteq> []"
  proof
    assume "sort (remdups (filter (\<lambda>m. m \<noteq> []) (map py_strip (ring_list_active now 30 True rows)))) = []"
    then have "set (sort (remdups (filter (\<lambda>m. m \<noteq> []) (map py_strip (ring_list_active now 30 True rows))))) = {}" by (simp only: set_empty)
    then show False using assms by auto
  qed
  ultimately show ?thesis
    by (simp add: active_http_bridge_instance_ring_def Let_def split: prod.split)
qed

lemma select_node_mem:
  assumes "select_node digest key nodes = Some x"
  shows "x \<in> set nodes"
proof (cases nodes)
  case (Cons n ns)
  then show ?thesis
    using assms max_by_mem[of "\<lambda>node. digest (key @ '':'' @ node)" n ns] unfolding Cons select_node_Cons by auto
qed (use assms in \<open>simp add: select_node_def\<close>)

lemma select_node_total: "nodes \<noteq> [] \<Longrightarrow> \<exists>x. select_node digest key nodes = Some x"
  by (cases nodes) (simp_all add: select_node_Cons)

text \<open>
  Replicas agree on the owner of a key. Whatever their own settings are, two replicas that read the
  same membership, in whatever order the rows come, with at least two members that advertise an endpoint,
  name the same owner, and it is one of those members.
\<close>

theorem replicas_agree_on_owner:
  assumes "mset rows = mset rows'"
    and "2 \<le> length (remdups (filter (\<lambda>m. m \<noteq> []) (map py_strip (ring_list_active now 30 True rows))))"
  shows "http_bridge_owner_instance digest key settings (Some (now, rows)) =
      http_bridge_owner_instance digest key settings' (Some (now, rows')) \<and>
    (\<exists>m \<in> set (ring_list_active now 30 True rows).
      http_bridge_owner_instance digest key settings (Some (now, rows)) = Some (py_strip m))"
proof -
  define ms where "ms = ring_list_active now 30 True rows"
  define ring where "ring = sort (remdups (filter (\<lambda>m. m \<noteq> []) (map py_strip ms)))"
  define hash_input where "hash_input = bk_affinity_kind key @ '':'' @ bk_affinity_key key @ '':'' @ default (bk_api_key_id key) []"
  have same: "ring_list_active now 30 True rows' = ms"
    unfolding ring_list_active_def Let_def ms_def
    by (rule properties_for_sort) (simp_all only: mset_sort mset_map mset_filter assms(1) sorted_sort)
  have long: "2 \<le> length ring" using assms(2) by (simp add: ring_def ms_def)
  have ring_set: "set ring = {m \<in> py_strip ` set ms. m \<noteq> []}" by (auto simp: ring_def)
  have "ring \<noteq> []" using long by auto
  then have "hd ring \<in> set ring" by simp
  then obtain m where m: "m \<in> set ms" "py_strip m \<noteq> []" unfolding ring_set by auto
  have ring: "snd (active_http_bridge_instance_ring s (Some (now, rows))) = ring"
    "snd (active_http_bridge_instance_ring s (Some (now, rows'))) = ring" for s
    using active_ring_eq[of now rows s] active_ring_eq[of now rows' s] same m unfolding ms_def ring_def by auto
  have owner: "http_bridge_owner_instance digest key s (Some (now, q)) = select_node digest hash_input ring"
    if "snd (active_http_bridge_instance_ring s (Some (now, q))) = ring" for s q
    using that long
    by (cases "active_http_bridge_instance_ring s (Some (now, q))") (simp add: http_bridge_owner_instance_def hash_input_def)
  obtain x where x: "select_node digest hash_input ring = Some x" using select_node_total[OF \<open>ring \<noteq> []\<close>] by blast
  then have "x \<in> set ring" by (rule select_node_mem)
  then obtain m' where "m' \<in> set ms" "x = py_strip m'" unfolding ring_set by blast
  then show ?thesis unfolding owner[OF ring(1)] owner[OF ring(2)] x ms_def[symmetric] by blast
qed

section \<open>Takeover\<close>

text \<open>
  The decision to take a session over and the claim agree. For a session that another instance owns,
  the lookup of its row permits a takeover exactly when a claim made at that moment without the takeover
  flag would be granted; so the flag the replica passes never overrides a live lease of an active session.
\<close>

theorem takeover_decision_matches_claim:
  assumes "bs_owner_instance_id row = Some owner" and "owner \<noteq> ca_instance_id args"
  shows "http_bridge_allow_durable_takeover now (Some (to_lookup (to_snapshot row))) \<longleftrightarrow>
    \<not> claim_refused now (args\<lparr>ca_allow_takeover := False\<rparr>) row"
  using assms
  by (cases "bs_state row"; cases "bs_lease_expires_at row")
    (simp_all add: http_bridge_allow_durable_takeover_def durable_bridge_lookup_active_owner_def to_lookup_def
      claim_refused_def owner_changed_def lease_expired_def)

theorem replicas_agree_on_owner_witness:
  "http_bridge_owner_instance id \<lparr>bk_affinity_kind = ''t'', bk_affinity_key = ''k'', bk_api_key_id = None, bk_strength = ''hard''\<rparr>
     \<lparr>st_instance_id = ''a'', st_instance_ring = [], st_advertise_base_url = None\<rparr>
     (Some (10, [new_member ''1'' 0 ''a'' (Some ''u''), new_member ''2'' 0 ''b'' (Some ''v'')])) =
   http_bridge_owner_instance id \<lparr>bk_affinity_kind = ''t'', bk_affinity_key = ''k'', bk_api_key_id = None, bk_strength = ''hard''\<rparr>
     \<lparr>st_instance_id = ''b'', st_instance_ring = [''x'', ''y''], st_advertise_base_url = None\<rparr>
     (Some (10, [new_member ''2'' 0 ''b'' (Some ''v''), new_member ''1'' 0 ''a'' (Some ''u'')]))"
proof -
  let ?rows = "[new_member ''1'' 0 ''a'' (Some ''u''), new_member ''2'' 0 ''b'' (Some ''v'')]"
  have active: "ring_list_active 10 30 True ?rows = [''a'', ''b'']"
    by (simp add: ring_list_active_def new_member_def bridge_ring_metadata_json_def)
  have "2 \<le> length (remdups (filter (\<lambda>m. m \<noteq> []) (map py_strip (ring_list_active 10 30 True ?rows))))"
    unfolding active by code_simp
  moreover have "mset ?rows = mset [new_member ''2'' 0 ''b'' (Some ''v''), new_member ''1'' 0 ''a'' (Some ''u'')]" by simp
  ultimately show ?thesis using replicas_agree_on_owner by blast
qed

theorem takeover_decision_matches_claim_witness:
  "\<not> http_bridge_allow_durable_takeover 30 (Some (to_lookup (to_snapshot example_row))) \<and>
   http_bridge_allow_durable_takeover 60 (Some (to_lookup (to_snapshot example_row)))"
proof -
  have row: "bs_owner_instance_id example_row = Some ''A''" "''A'' \<noteq> ca_instance_id (example_args ''B'' ''acc'' False)"
    by (simp_all add: example_simps)
  show ?thesis
    unfolding takeover_decision_matches_claim[OF row]
    by (simp add: claim_refused_def owner_changed_def lease_expired_def example_simps)
qed

end
