(* ===== verification/Planner.thy ===== *)
theory Planner
  imports Balancer
begin

text \<open>
  The quota planner (\<open>app/modules/quota_planner/logic.py\<close>): routing costs for the balancer, the demand
  forecast, the choice of warm-up times, and the simulation of the account pool.

  \<^item> A \<open>datetime\<close> is the instant it denotes, in seconds since the epoch; naive values mean UTC, as
    \<open>_to_planner_tz\<close> and \<open>_floor_datetime\<close> read them. \<open>now\<close> is given by the caller.
  \<^item> The time zone database (\<open>zoneinfo\<close>) is the argument \<open>zones\<close>: for a known name, the UTC offset at an
    instant and the UTC offset of a wall-clock time.
  \<^item> JSON text is represented by what it parses to. The human-readable reason of a planned action is left
    out, and the warm-up cycle key is the pair of local day and cycle its text is made of.
\<close>

section \<open>Settings and clock\<close>

record planner_settings =
  ps_mode :: string
  ps_timezone :: string
  ps_working_days :: "int list"
  ps_working_hours_start :: string
  ps_working_hours_end :: string
  ps_prewarm_enabled :: bool
  ps_prewarm_lead_minutes :: int
  ps_max_warmups_per_day :: int
  ps_max_warmup_credits_per_day :: real
  ps_min_expected_gain :: real
  ps_forecast_quantile :: string
  ps_allow_synthetic_traffic :: bool
  ps_warmup_model_preference :: "string option"
  ps_dry_run :: bool

definition PlannerSettings :: planner_settings where
  "PlannerSettings =
     \<lparr>ps_mode = ''shadow'', ps_timezone = ''UTC'', ps_working_days = [0, 1, 2, 3, 4], ps_working_hours_start = ''09:00'',
      ps_working_hours_end = ''18:00'', ps_prewarm_enabled = True, ps_prewarm_lead_minutes = 300,
      ps_max_warmups_per_day = 3, ps_max_warmup_credits_per_day = 0, ps_min_expected_gain = 1,
      ps_forecast_quantile = ''p75'', ps_allow_synthetic_traffic = False, ps_warmup_model_preference = None,
      ps_dry_run = True\<rparr>"

abbreviation (input) FIVE_HOUR_WINDOW_SECONDS :: real where "FIVE_HOUR_WINDOW_SECONDS \<equiv> 18000"
abbreviation (input) EXPIRING_WINDOW_SECONDS :: real where "EXPIRING_WINDOW_SECONDS \<equiv> 3600"
abbreviation (input) DEFAULT_SLOT_SECONDS :: int where "DEFAULT_SLOT_SECONDS \<equiv> 900"
abbreviation (input) DEFAULT_ACCOUNT_WINDOW_CAPACITY :: real where "DEFAULT_ACCOUNT_WINDOW_CAPACITY \<equiv> 100"
abbreviation (input) MIN_PEAK_EXCESS_UNITS :: real where "MIN_PEAK_EXCESS_UNITS \<equiv> 1"

text \<open>A decoded JSON list of days; \<open>None\<close> stands for an element that is not an integer.\<close>

datatype days_json = DaysMalformed | DaysNotList | DaysList "int option list"

definition valid_days :: "int option list \<Rightarrow> int list" where
  "valid_days values =
     fold (\<lambda>value days. case value of
         Some d \<Rightarrow> if 0 \<le> d \<and> d \<le> 6 \<and> d \<notin> set days then days @ [d] else days
       | None \<Rightarrow> days) values []"

definition parse_working_days :: "days_json option \<Rightarrow> int list" where
  "parse_working_days raw =
     (case raw of
        Some (DaysList values) \<Rightarrow> (let days = valid_days values in if days = [] then [0, 1, 2, 3, 4] else days)
      | _ \<Rightarrow> [0, 1, 2, 3, 4])"

definition encode_working_days :: "int list \<Rightarrow> days_json" where
  "encode_working_days days =
     (let normalized = sort (remdups (filter (\<lambda>d. 0 \<le> d \<and> d \<le> 6) days))
      in DaysList (map Some (if normalized = [] then [0, 1, 2, 3, 4] else normalized)))"

type_synonym zone = "(real \<Rightarrow> real) \<times> (real \<Rightarrow> real)"

definition to_planner_tz :: "(string \<Rightarrow> zone option) \<Rightarrow> real \<Rightarrow> string \<Rightarrow> real" where
  "to_planner_tz zones value timezone_name =
     value + (case zones timezone_name of None \<Rightarrow> 0 | Some (at_instant, _) \<Rightarrow> at_instant value)"

definition from_planner_tz :: "(string \<Rightarrow> zone option) \<Rightarrow> real \<Rightarrow> string \<Rightarrow> real" where
  "from_planner_tz zones wall timezone_name =
     wall - (case zones timezone_name of None \<Rightarrow> 0 | Some (_, at_wall) \<Rightarrow> at_wall wall)"

definition local_day :: "real \<Rightarrow> int" where
  "local_day wall = \<lfloor>wall / 86400\<rfloor>"

definition local_weekday :: "real \<Rightarrow> int" where
  "local_weekday wall = (local_day wall + 3) mod 7"

definition local_time :: "real \<Rightarrow> real" where
  "local_time wall = wall - 86400 * of_int (local_day wall)"

definition local_hour :: "real \<Rightarrow> int" where
  "local_hour wall = \<lfloor>local_time wall / 3600\<rfloor>"

definition local_minute :: "real \<Rightarrow> int" where
  "local_minute wall = \<lfloor>local_time wall / 60\<rfloor> mod 60"

fun int_digits :: "bool \<Rightarrow> int \<Rightarrow> string \<Rightarrow> int option" where
  "int_digits seen acc [] = (if seen then Some acc else None)"
| "int_digits seen acc (c # cs) =
     (if CHR ''0'' \<le> c \<and> c \<le> CHR ''9'' then int_digits True (acc * 10 + (of_char c - 48)) cs
      else if c = CHR ''_'' \<and> seen then int_digits False acc cs
      else None)"

definition parse_int :: "string \<Rightarrow> int option" where
  "parse_int s =
     (case py_strip s of
        [] \<Rightarrow> None
      | c # cs \<Rightarrow> if c = CHR ''-'' then map_option uminus (int_digits False 0 cs)
                  else if c = CHR ''+'' then int_digits False 0 cs
                  else int_digits False 0 (c # cs))"

text \<open>A time of day is its number of seconds since midnight.\<close>

definition parse_hhmm :: "string \<Rightarrow> real \<Rightarrow> real" where
  "parse_hhmm raw fallback =
     (if CHR '':'' \<notin> set raw then fallback
      else case (parse_int (takeWhile (\<lambda>c. c \<noteq> CHR '':'') raw), parse_int (tl (dropWhile (\<lambda>c. c \<noteq> CHR '':'') raw))) of
             (Some hours, Some minutes) \<Rightarrow>
               if 0 \<le> hours \<and> hours \<le> 23 \<and> 0 \<le> minutes \<and> minutes \<le> 59
               then 3600 * of_int hours + 60 * of_int minutes else fallback
           | _ \<Rightarrow> fallback)"

definition inside_work_block :: "(string \<Rightarrow> zone option) \<Rightarrow> real \<Rightarrow> planner_settings \<Rightarrow> bool" where
  "inside_work_block zones value settings =
     (let wall = to_planner_tz zones value (ps_timezone settings)
      in if local_weekday wall \<notin> set (ps_working_days settings) then False
         else let start = parse_hhmm (ps_working_hours_start settings) (9 * 3600);
                  stop = parse_hhmm (ps_working_hours_end settings) (18 * 3600);
                  current = local_time wall
              in if start \<le> stop then start \<le> current \<and> current < stop
                 else current \<ge> start \<or> current < stop)"

definition inside_prewarm_band :: "(string \<Rightarrow> zone option) \<Rightarrow> real \<Rightarrow> planner_settings \<Rightarrow> bool" where
  "inside_prewarm_band zones value settings =
     (if inside_work_block zones value settings then True
      else inside_work_block zones (value + 60 * of_int (max 0 (ps_prewarm_lead_minutes settings))) settings)"

definition is_active_window :: "account_state \<Rightarrow> real \<Rightarrow> bool" where
  "is_active_window state current_ts = (case st_reset_at state of None \<Rightarrow> False | Some t \<Rightarrow> t > current_ts)"

definition is_cold_window :: "account_state \<Rightarrow> real \<Rightarrow> bool" where
  "is_cold_window state current_ts = (case st_reset_at state of None \<Rightarrow> True | Some t \<Rightarrow> t \<le> current_ts)"

definition is_warmup_candidate :: "account_state \<Rightarrow> real \<Rightarrow> bool" where
  "is_warmup_candidate state current_ts = (if st_status state \<noteq> ACTIVE then False else is_cold_window state current_ts)"

definition floor_datetime :: "real \<Rightarrow> int \<Rightarrow> real" where
  "floor_datetime value slot_seconds = (let epoch = py_int value in of_int (epoch - epoch mod slot_seconds))"

section \<open>Routing costs\<close>

fun join_reasons :: "string list \<Rightarrow> string" where
  "join_reasons [] = []"
| "join_reasons [r] = r"
| "join_reasons (r # s # rs) = r @ '','' @ join_reasons (s # rs)"

definition window_cost :: "(string \<Rightarrow> zone option) \<Rightarrow> planner_settings \<Rightarrow> real \<Rightarrow> account_state \<Rightarrow> real \<times> string list" where
  "window_cost zones settings current state =
     (if is_active_window state current
      then let seconds_left = or_else (st_reset_at state) 0 - current
           in if seconds_left \<le> EXPIRING_WINDOW_SECONDS
              then (- (20 * (1 - max 0 seconds_left / EXPIRING_WINDOW_SECONDS)), [''expiring_active_window''])
              else (0, [])
      else if is_cold_window state current
      then if inside_work_block zones current settings then (2, [''soft_cold_start_during_work''])
           else if inside_prewarm_band zones current settings then (12, [''cold_start_in_prewarm_band''])
           else (40, [''cold_start_outside_work''])
      else (0, []))"

definition state_cost :: "(string \<Rightarrow> zone option) \<Rightarrow> planner_settings \<Rightarrow> real \<Rightarrow> account_state \<Rightarrow> real \<times> string list" where
  "state_cost zones settings current state =
     (let (cost, reasons) = window_cost zones settings current state
      in if st_used_percent state = None \<and> st_secondary_used_percent state = None
         then (cost + 3, reasons @ [''unknown_usage'']) else (cost, reasons))"

definition build_routing_costs ::
  "(string \<Rightarrow> zone option) \<Rightarrow> planner_settings \<Rightarrow> account_state list \<Rightarrow> real \<Rightarrow> (string \<times> routing_cost) list" where
  "build_routing_costs zones settings states current =
     (if ps_mode settings = ''off'' then []
      else fold (\<lambda>state costs.
               let (cost, reasons) = state_cost zones settings current state
               in if cost \<noteq> 0
                  then AList.update (st_account_id state) \<lparr>rc_total = cost, rc_reason = Some (join_reasons reasons)\<rparr> costs
                  else costs) states [])"

section \<open>Demand forecast\<close>

record demand_bin =
  db_slot_epoch :: int
  db_request_kind :: "string option"
  db_input_tokens :: int
  db_cached_input_tokens :: int
  db_output_tokens :: int
  db_cost_usd :: real
  db_request_count :: int

record forecast_slot =
  fs_slot_start :: real
  fs_demand_units :: real
  fs_request_count :: real

record planner_forecast =
  pf_generated_at :: real
  pf_horizon_hours :: int
  pf_slot_seconds :: int
  pf_total_demand_units :: real
  pf_peak_slot_start :: "real option"
  pf_peak_demand_units :: real
  pf_slots :: "forecast_slot list"

definition is_forecast_demand_request :: "string option \<Rightarrow> bool" where
  "is_forecast_demand_request request_kind =
     (py_lower (case request_kind of None \<Rightarrow> ''real'' | Some k \<Rightarrow> if k = [] then ''real'' else k) \<in> {''normal'', ''real''})"

definition bin_demand_units :: "demand_bin \<Rightarrow> real" where
  "bin_demand_units row =
     (let token_units = (of_int (max 0 (db_input_tokens row)) + 1 / 4 * of_int (max 0 (db_cached_input_tokens row))
                          + 4 * of_int (max 0 (db_output_tokens row))) / 1000;
          cost_units = max 0 (db_cost_usd row) * 100;
          request_units = of_int (max 0 (db_request_count row)) * 5
      in max token_units (max cost_units request_units))"

definition quantile_level :: "string \<Rightarrow> real" where
  "quantile_level q = (if q = ''p50'' then 1 / 2 else if q = ''p75'' then 3 / 4 else if q = ''p90'' then 9 / 10 else 3 / 4)"

definition quantile :: "real list \<Rightarrow> string \<Rightarrow> real" where
  "quantile values q =
     (if values = [] then 0
      else let ordered = sort values; last = int (length ordered) - 1;
               index = min last (max 0 (round_half_even (of_int last * quantile_level q)))
           in ordered ! nat index)"

definition calendar_prior_units :: "(string \<Rightarrow> zone option) \<Rightarrow> real \<Rightarrow> planner_settings \<Rightarrow> real" where
  "calendar_prior_units zones value settings =
     (if inside_work_block zones value settings then 6
      else if inside_prewarm_band zones value settings then 2 else 1 / 5)"

definition units_by_slot_epoch :: "demand_bin list \<Rightarrow> (int \<times> real) list" where
  "units_by_slot_epoch bins =
     fold (\<lambda>row units. AList.update (db_slot_epoch row)
             (default (map_of units (db_slot_epoch row)) 0 + bin_demand_units row) units)
       (filter (\<lambda>row. is_forecast_demand_request (db_request_kind row)) bins) []"

definition slot_index :: "real \<Rightarrow> int \<Rightarrow> int" where
  "slot_index wall slot_seconds =
     local_hour wall * 3600 div slot_seconds + local_minute wall * 60 div slot_seconds"

text \<open>The dictionaries of past demand, by weekday and slot and by working hour, as lookups.\<close>

definition history_by_weekday_slot ::
  "(string \<Rightarrow> zone option) \<Rightarrow> planner_settings \<Rightarrow> int \<Rightarrow> (int \<times> real) list \<Rightarrow> int \<times> int \<Rightarrow> real list" where
  "history_by_weekday_slot zones settings slot_seconds units key =
     map snd (filter (\<lambda>(epoch, _). let wall = to_planner_tz zones (of_int epoch) (ps_timezone settings)
                                    in (local_weekday wall, slot_index wall slot_seconds) = key) units)"

definition history_by_work_hour ::
  "(string \<Rightarrow> zone option) \<Rightarrow> planner_settings \<Rightarrow> (int \<times> real) list \<Rightarrow> int \<Rightarrow> real list" where
  "history_by_work_hour zones settings units hour =
     map snd (filter (\<lambda>(epoch, _). let wall = to_planner_tz zones (of_int epoch) (ps_timezone settings)
                                    in local_weekday wall \<in> set (ps_working_days settings) \<and> local_hour wall = hour) units)"

definition slot_demand ::
  "(string \<Rightarrow> zone option) \<Rightarrow> planner_settings \<Rightarrow> int \<Rightarrow> (int \<times> real) list \<Rightarrow> real \<Rightarrow> real \<Rightarrow> real" where
  "slot_demand zones settings slot_seconds units recent_per_slot slot_start =
     (let wall = to_planner_tz zones slot_start (ps_timezone settings);
          same_weekday = quantile (history_by_weekday_slot zones settings slot_seconds units
                            (local_weekday wall, slot_index wall slot_seconds)) (ps_forecast_quantile settings);
          same_work_hour = quantile (history_by_work_hour zones settings units (local_hour wall)) (ps_forecast_quantile settings);
          calendar = calendar_prior_units zones slot_start settings
      in 1 / 2 * same_weekday + 1 / 4 * same_work_hour + 15 / 100 * recent_per_slot + 1 / 10 * calendar)"

definition build_demand_forecast ::
  "(string \<Rightarrow> zone option) \<Rightarrow> planner_settings \<Rightarrow> demand_bin list \<Rightarrow> real \<Rightarrow> int \<Rightarrow> int \<Rightarrow> py_error + planner_forecast" where
  "build_demand_forecast zones settings bins now horizon_hours slot_seconds =
     (if slot_seconds = 0 then Inl ZeroDivisionError
      else
        let current = floor_datetime now slot_seconds;
            units = units_by_slot_epoch bins;
            recent_units = sum_list (map snd (filter (\<lambda>(epoch, _). of_int epoch \<ge> current - 86400) units));
            recent_per_slot = recent_units / of_int (max 1 (py_int (86400 / of_int slot_seconds)));
            slot_count = nat (py_int (of_int (horizon_hours * 3600) / of_int slot_seconds));
            slots = map (\<lambda>offset.
                let slot_start = current + of_int (int offset * slot_seconds);
                    demand_units = slot_demand zones settings slot_seconds units recent_per_slot slot_start
                in \<lparr>fs_slot_start = slot_start, fs_demand_units = max 0 demand_units, fs_request_count = max 0 (demand_units / 10)\<rparr>)
              [0..<slot_count];
            peak = (case slots of [] \<Rightarrow> None | s # ss \<Rightarrow> Some (max_by fs_demand_units s ss))
        in Inr \<lparr>pf_generated_at = current, pf_horizon_hours = horizon_hours, pf_slot_seconds = slot_seconds,
                pf_total_demand_units = sum_list (map fs_demand_units slots),
                pf_peak_slot_start = (case peak of None \<Rightarrow> None
                  | Some p \<Rightarrow> if fs_demand_units p > 0 then Some (fs_slot_start p) else None),
                pf_peak_demand_units = (case peak of None \<Rightarrow> 0 | Some p \<Rightarrow> fs_demand_units p),
                pf_slots = slots\<rparr>)"

section \<open>Candidates and their score\<close>

fun penalty_of_sorted :: "real list \<Rightarrow> real" where
  "penalty_of_sorted (left # right # rest) =
     (let delta = \<bar>right - left\<bar>
      in (if delta < 1800 then 4 else if delta < 3600 then 1 else 0)) + penalty_of_sorted (right # rest)"
| "penalty_of_sorted _ = 0"

definition synchronization_penalty :: "real list \<Rightarrow> real" where
  "synchronization_penalty reset_epochs = penalty_of_sorted (sort reset_epochs)"

definition candidate_cost :: "real \<Rightarrow> planner_settings \<Rightarrow> real list \<Rightarrow> real" where
  "candidate_cost scheduled_at settings existing_reset_epochs =
     synchronization_penalty (existing_reset_epochs @ [scheduled_at + FIVE_HOUR_WINDOW_SECONDS]) +
     (if ps_allow_synthetic_traffic settings \<and> \<not> ps_dry_run settings then 1 / 2 else 0)"

definition peak_aligned_gain :: "(string \<Rightarrow> zone option) \<Rightarrow> real \<Rightarrow> planner_settings \<Rightarrow> planner_forecast \<Rightarrow> real" where
  "peak_aligned_gain zones scheduled_at settings forecast =
     (let work_slots = filter (\<lambda>slot. inside_work_block zones (fs_slot_start slot) settings) (pf_slots forecast)
      in case pf_peak_slot_start forecast of
           None \<Rightarrow> 0
         | Some peak_start \<Rightarrow>
             if work_slots = [] then 0
             else
               let baseline = quantile (map fs_demand_units work_slots) ''p50'';
                   peak_excess = max 0 (pf_peak_demand_units forecast - baseline);
                   window_end = scheduled_at + FIVE_HOUR_WINDOW_SECONDS;
                   window_slots = filter (\<lambda>slot. scheduled_at \<le> fs_slot_start slot \<and> fs_slot_start slot < window_end) work_slots;
                   reset_aligns_peak = (\<bar>window_end - peak_start\<bar> \<le> of_int (pf_slot_seconds forecast));
                   window_units = sum_list (map fs_demand_units window_slots);
                   baseline_units = baseline * of_nat (length window_slots);
                   window_excess = max 0 (window_units - baseline_units);
                   peak_covered = (scheduled_at \<le> peak_start \<and> peak_start < window_end);
                   reset_bonus = (if reset_aligns_peak then peak_excess else 0)
               in if peak_excess < MIN_PEAK_EXCESS_UNITS then 0
                  else if window_slots = [] \<and> \<not> reset_aligns_peak then 0
                  else if \<not> peak_covered then max 0 (window_excess - peak_excess) + reset_bonus
                  else window_excess + peak_excess + reset_bonus)"

definition score_candidate_start ::
  "(string \<Rightarrow> zone option) \<Rightarrow> real \<Rightarrow> planner_settings \<Rightarrow> planner_forecast option \<Rightarrow> real list \<Rightarrow> real" where
  "score_candidate_start zones scheduled_at settings demand_forecast existing_reset_epochs =
     (case demand_forecast of
        None \<Rightarrow> 0
      | Some forecast \<Rightarrow>
          max 0 (peak_aligned_gain zones scheduled_at settings forecast - candidate_cost scheduled_at settings existing_reset_epochs))"

fun capacity_crossings :: "real \<Rightarrow> real \<Rightarrow> forecast_slot list \<Rightarrow> real list" where
  "capacity_crossings cumulative next_bucket [] = []"
| "capacity_crossings cumulative next_bucket (slot # slots) =
     (let cumulative = cumulative + fs_demand_units slot
      in if cumulative < next_bucket then capacity_crossings cumulative next_bucket slots
         else (fs_slot_start slot - FIVE_HOUR_WINDOW_SECONDS) #
              capacity_crossings cumulative (next_bucket + DEFAULT_ACCOUNT_WINDOW_CAPACITY) slots)"

definition demand_capacity_crossing_starts :: "planner_forecast \<Rightarrow> real list" where
  "demand_capacity_crossing_starts forecast =
     take 4 (capacity_crossings 0 DEFAULT_ACCOUNT_WINDOW_CAPACITY (pf_slots forecast))"

text \<open>The loop over the next days; it stops once \<open>count\<close> working days have been found.\<close>

fun work_starts_from ::
  "(string \<Rightarrow> zone option) \<Rightarrow> planner_settings \<Rightarrow> real \<Rightarrow> real \<Rightarrow> nat \<Rightarrow> real list \<Rightarrow> real list \<Rightarrow> int list \<Rightarrow> real list" where
  "work_starts_from zones settings local_now start count offsets results [] = results"
| "work_starts_from zones settings local_now start count offsets results (day_offset # days) =
     (let local_start = 86400 * of_int (local_day local_now + day_offset) + start
      in if local_weekday local_start \<notin> set (ps_working_days settings) \<or> local_start < local_now
         then work_starts_from zones settings local_now start count offsets results days
         else let results = results @ map (\<lambda>hours. from_planner_tz zones (local_start + 3600 * hours) (ps_timezone settings)) offsets
              in if length results \<ge> count * length offsets then results
                 else work_starts_from zones settings local_now start count offsets results days)"

definition next_work_starts :: "(string \<Rightarrow> zone option) \<Rightarrow> real \<Rightarrow> planner_settings \<Rightarrow> nat \<Rightarrow> real list \<Rightarrow> real list" where
  "next_work_starts zones now settings count offsets =
     work_starts_from zones settings (to_planner_tz zones now (ps_timezone settings))
       (parse_hhmm (ps_working_hours_start settings) (9 * 3600)) count offsets [] (map int [0..<14])"

definition normalize_candidate :: "real \<Rightarrow> real \<Rightarrow> real" where
  "normalize_candidate now candidate =
     (let candidate = (if candidate < now then now else candidate);
          candidate = floor_datetime candidate DEFAULT_SLOT_SECONDS
      in if candidate < now then now else candidate)"

fun unseen_candidates :: "int set \<Rightarrow> real list \<Rightarrow> real list" where
  "unseen_candidates seen [] = []"
| "unseen_candidates seen (c # cs) =
     (if py_int c \<in> seen then unseen_candidates seen cs else c # unseen_candidates (insert (py_int c) seen) cs)"

definition candidate_start_times ::
  "(string \<Rightarrow> zone option) \<Rightarrow> real \<Rightarrow> planner_settings \<Rightarrow> planner_forecast option \<Rightarrow> real list \<Rightarrow> real list" where
  "candidate_start_times zones now settings demand_forecast existing_reset_epochs =
     (let candidates =
            (if inside_work_block zones now settings then [now] else []) @
            next_work_starts zones now settings 2 [-4, -3, -2] @
            (case demand_forecast of
               None \<Rightarrow> []
             | Some forecast \<Rightarrow>
                 (case pf_peak_slot_start forecast of
                    None \<Rightarrow> []
                  | Some peak \<Rightarrow> map (\<lambda>offset. peak - FIVE_HOUR_WINDOW_SECONDS + 60 * offset) [-60, -30, 0, 30, 60] @
                                 demand_capacity_crossing_starts forecast)) @
            concat (map (\<lambda>reset_at. [reset_at + 1800 - FIVE_HOUR_WINDOW_SECONDS, reset_at - 1800 - FIVE_HOUR_WINDOW_SECONDS])
                      existing_reset_epochs)
      in take 10 (sort (filter (\<lambda>c. inside_prewarm_band zones c settings)
                          (unseen_candidates {} (map (normalize_candidate now) candidates)))))"

section \<open>Planning\<close>

record planner_action =
  pa_account_id :: string
  pa_action :: string
  pa_scheduled_at :: "real option"
  pa_score :: real
  pa_target_peak_at :: "real option"
  pa_expected_gain :: real
  pa_expected_cost :: real
  pa_warmup_cycle_key :: "(int \<times> int) option"

definition warmup_cycle_key :: "(string \<Rightarrow> zone option) \<Rightarrow> real \<Rightarrow> planner_settings \<Rightarrow> int \<times> int" where
  "warmup_cycle_key zones scheduled_at settings =
     (let wall = to_planner_tz zones scheduled_at (ps_timezone settings);
          lead = max 1 (ps_prewarm_lead_minutes settings)
      in (local_day wall, (local_hour wall * 60 + local_minute wall) div lead))"

definition best_candidate ::
  "(string \<Rightarrow> zone option) \<Rightarrow> planner_settings \<Rightarrow> planner_forecast option \<Rightarrow> real list \<Rightarrow> real \<Rightarrow> real list \<Rightarrow> real \<times> real" where
  "best_candidate zones settings demand_forecast resets c cs =
     (let scored = (\<lambda>candidate. (candidate, score_candidate_start zones candidate settings demand_forecast resets))
      in max_by (\<lambda>item. (snd item, - fst item)) (scored c) (map scored cs))"

definition plan_state ::
  "(string \<Rightarrow> zone option) \<Rightarrow> planner_settings \<Rightarrow> planner_forecast option \<Rightarrow> real \<Rightarrow> real list \<Rightarrow> account_state
   \<Rightarrow> planner_action list \<times> nat \<Rightarrow> planner_action list \<times> nat" where
  "plan_state zones settings demand_forecast current active_resets state run =
     (case run of (actions, skipped) \<Rightarrow>
        if \<not> is_warmup_candidate state current then (actions, skipped)
        else case candidate_start_times zones current settings demand_forecast active_resets of
               [] \<Rightarrow> (actions, skipped)
             | c # cs \<Rightarrow>
                 let selected = concat (map (\<lambda>a. case pa_scheduled_at a of None \<Rightarrow> [] | Some t \<Rightarrow> [t + FIVE_HOUR_WINDOW_SECONDS]) actions);
                     resets = active_resets @ selected;
                     (scheduled_at, score) = best_candidate zones settings demand_forecast resets c cs;
                     expected_cost = candidate_cost scheduled_at settings resets
                 in if score < ps_min_expected_gain settings then (actions, Suc skipped)
                    else (actions @
                       [\<lparr>pa_account_id = st_account_id state,
                         pa_action = (if ps_allow_synthetic_traffic settings \<and> \<not> ps_dry_run settings then ''warmup'' else ''reserve''),
                         pa_scheduled_at = Some scheduled_at, pa_score = score,
                         pa_target_peak_at = (case demand_forecast of None \<Rightarrow> None | Some f \<Rightarrow> pf_peak_slot_start f),
                         pa_expected_gain = score + expected_cost, pa_expected_cost = expected_cost,
                         pa_warmup_cycle_key = Some (warmup_cycle_key zones scheduled_at settings)\<rparr>], skipped))"

definition plan_shadow_actions ::
  "(string \<Rightarrow> zone option) \<Rightarrow> planner_settings \<Rightarrow> account_state list \<Rightarrow> planner_forecast option \<Rightarrow> real \<Rightarrow> planner_action list" where
  "plan_shadow_actions zones settings states demand_forecast current =
     (if ps_mode settings = ''off'' then []
      else if \<not> ps_prewarm_enabled settings then []
      else if \<not> inside_prewarm_band zones current settings then []
      else
        let active_resets = concat (map (\<lambda>state. case st_reset_at state of
                None \<Rightarrow> [] | Some t \<Rightarrow> if is_active_window state current then [t] else []) states);
            (actions, skipped) = fold (plan_state zones settings demand_forecast current active_resets) states ([], 0)
        in if skipped \<noteq> 0 \<and> actions = [] then []
           else take (nat (max 0 (ps_max_warmups_per_day settings)))
                  (sort_key (\<lambda>a. (- pa_score a, default (pa_scheduled_at a) current, pa_account_id a)) actions))"

section \<open>Simulation\<close>

record simulation_result =
  sr_loss :: real
  sr_unmet_demand :: real
  sr_wasted_capacity :: real
  sr_cold_start_penalty :: real
  sr_synchronization_penalty :: real
  sr_forecast_units :: real
  sr_served_units :: real

definition remaining_percent :: "account_state \<Rightarrow> real" where
  "remaining_percent state = (case st_used_percent state of None \<Rightarrow> 100 | Some u \<Rightarrow> max 0 (100 - min 100 u))"

definition account_windows :: "real \<Rightarrow> account_state \<Rightarrow> (real \<times> real \<times> real) list" where
  "account_windows current state =
     (if st_status state \<notin> {ACTIVE, RATE_LIMITED, QUOTA_EXCEEDED} then []
      else if is_active_window state current
      then [(current, or_else (st_reset_at state) 0, DEFAULT_ACCOUNT_WINDOW_CAPACITY * remaining_percent state / 100)]
      else [])"

definition warmup_windows :: "planner_action \<Rightarrow> (real \<times> real \<times> real) list" where
  "warmup_windows action =
     (case pa_scheduled_at action of
        None \<Rightarrow> []
      | Some start \<Rightarrow> [(start, start + FIVE_HOUR_WINDOW_SECONDS, DEFAULT_ACCOUNT_WINDOW_CAPACITY)])"

type_synonym window_capacity = "((real \<times> real) \<times> real) list"

definition window_capacities :: "(real \<times> real \<times> real) list \<Rightarrow> window_capacity" where
  "window_capacities windows =
     fold (\<lambda>(start_at, reset_at, capacity) remaining.
         if start_at \<ge> reset_at then remaining
         else AList.update (start_at, reset_at) (default (map_of remaining (start_at, reset_at)) 0 + capacity) remaining)
       windows []"

text \<open>The inner loop over the usable windows: demand left, capacities, units served.\<close>

fun serve_slot :: "(real \<times> real) list \<Rightarrow> real \<times> window_capacity \<times> real \<Rightarrow> real \<times> window_capacity \<times> real" where
  "serve_slot [] run = run"
| "serve_slot (key # keys) (demand, remaining, served) =
     (if demand \<le> 0 then (demand, remaining, served)
      else let left = default (map_of remaining key) 0; amount = min demand left
           in serve_slot keys (demand - amount, AList.update key (left - amount) remaining, served + amount))"

definition simulate_slot :: "forecast_slot \<Rightarrow> window_capacity \<times> real \<times> real \<Rightarrow> window_capacity \<times> real \<times> real" where
  "simulate_slot slot run =
     (case run of (remaining, served, unmet) \<Rightarrow>
        let usable = sort (filter (\<lambda>(start, reset). start \<le> fs_slot_start slot \<and> fs_slot_start slot < reset) (map fst remaining));
            (demand, remaining, served) = serve_slot usable (fs_demand_units slot, remaining, served)
        in (remaining, served, unmet + max 0 demand))"

definition simulate_pool ::
  "account_state list \<Rightarrow> planner_forecast \<Rightarrow> planner_action list \<Rightarrow> real \<Rightarrow> simulation_result" where
  "simulate_pool states forecast warmups current =
     (let windows = concat (map (account_windows current) states) @ concat (map warmup_windows warmups);
          (remaining, served, unmet) = fold simulate_slot (pf_slots forecast) (window_capacities windows, 0, 0);
          horizon_end = current + 3600 * of_int (pf_horizon_hours forecast);
          wasted_capacity = sum_list (map (\<lambda>(key, left). if snd key \<le> horizon_end then max 0 left * (5 / 100) else 0) remaining);
          sync_penalty = synchronization_penalty (map (\<lambda>(_, reset, _). reset) windows);
          cold_penalty = sum_list (map (\<lambda>a. if pa_action a = ''warmup'' \<and>
              (case pa_scheduled_at a of None \<Rightarrow> False | Some t \<Rightarrow> t \<le> current) then 2 else 0) warmups)
      in \<lparr>sr_loss = unmet + wasted_capacity + sync_penalty + cold_penalty, sr_unmet_demand = unmet,
          sr_wasted_capacity = wasted_capacity, sr_cold_start_penalty = cold_penalty,
          sr_synchronization_penalty = sync_penalty, sr_forecast_units = pf_total_demand_units forecast,
          sr_served_units = served\<rparr>)"

end
