(* ===== verification/Planning.thy ===== *)
theory Planning
  imports Planner
begin

text \<open>
  What the quota planner promises: the simulation neither creates nor loses demand, planned warm-ups
  respect every setting, and routing costs prefer windows that are already running.
\<close>

section \<open>Conservation in the simulation\<close>

definition total_capacity :: "window_capacity \<Rightarrow> real" where
  "total_capacity remaining = sum_list (map snd remaining)"

definition capacities_ok :: "window_capacity \<Rightarrow> bool" where
  "capacities_ok remaining \<longleftrightarrow> distinct (map fst remaining) \<and> (\<forall>(k, v) \<in> set remaining. 0 \<le> v)"

lemma total_nonneg: "capacities_ok remaining \<Longrightarrow> 0 \<le> total_capacity remaining"
  unfolding total_capacity_def capacities_ok_def by (intro sum_list_nonneg) fastforce

lemma update_known_keys: "k \<in> fst ` set al \<Longrightarrow> map fst (AList.update k v al) = map fst al"
  by (simp add: update_keys)

lemma update_new_key: "map_of al k = None \<Longrightarrow> AList.update k v al = al @ [(k, v)]"
  by (induction al) (auto split: if_splits)

lemma total_update:
  assumes "distinct (map fst al)" and "map_of al k = Some w"
  shows "total_capacity (AList.update k v al) = total_capacity al - w + v"
  using assms
proof (induction al)
  case (Cons kv al)
  obtain k' v' where kv: "kv = (k', v')" by (cases kv)
  show ?case
  proof (cases "k' = k")
    case True
    then show ?thesis using Cons.prems by (simp add: kv total_capacity_def)
  next
    case False
    then show ?thesis using Cons by (simp add: kv total_capacity_def)
  qed
qed simp

lemma capacities_update:
  assumes "capacities_ok al" and "0 \<le> v"
  shows "capacities_ok (AList.update k v al)"
  using assms by (auto simp: capacities_ok_def distinct_update dest!: set_update_cases)

lemma serve_slot_conserves:
  assumes "capacities_ok remaining" and "set keys \<subseteq> fst ` set remaining" and "0 \<le> demand"
    and "serve_slot keys (demand, remaining, served) = (demand', remaining', served')"
  shows "capacities_ok remaining' \<and> 0 \<le> demand' \<and> demand' + served' = demand + served \<and> served \<le> served' \<and>
    served' + total_capacity remaining' = served + total_capacity remaining \<and> map fst remaining' = map fst remaining"
  using assms
proof (induction keys arbitrary: demand remaining served)
  case (Cons key keys)
  show ?case
  proof (cases "demand \<le> 0")
    case False
    obtain left where left: "map_of remaining key = Some left"
      using Cons.prems(1,2) by (metis (no_types, lifting) in_mono list.set_intros(1) map_of_eq_None_iff not_Some_eq)
    then have "0 \<le> left" using Cons.prems(1) by (auto simp: capacities_ok_def dest!: map_of_SomeD)
    let ?amount = "min demand left" and ?rem = "AList.update key (left - min demand left) remaining"
    have keys: "map fst ?rem = map fst remaining" using Cons.prems(2) by (intro update_known_keys) auto
    have dist: "distinct (map fst remaining)" using Cons.prems(1) by (simp add: capacities_ok_def)
    have ok: "capacities_ok ?rem" using Cons.prems(1) by (intro capacities_update) auto
    have sub: "set keys \<subseteq> fst ` set ?rem" using Cons.prems(2) keys by (metis image_set in_mono list.set_intros(2) subsetI)
    have run: "serve_slot keys (demand - ?amount, ?rem, served + ?amount) = (demand', remaining', served')"
      using Cons.prems(4) False left by (simp add: Let_def)
    from Cons.IH[OF ok sub _ run] show ?thesis
      using total_update[OF dist left, of "left - ?amount"] keys False \<open>0 \<le> left\<close> by auto
  qed (use Cons.prems in simp)
qed simp

lemma simulate_slot_conserves:
  assumes "capacities_ok remaining" and "0 \<le> fs_demand_units slot"
    and "simulate_slot slot (remaining, served, unmet) = (remaining', served', unmet')"
  shows "capacities_ok remaining' \<and> served' + unmet' = served + unmet + fs_demand_units slot \<and> served \<le> served' \<and> unmet \<le> unmet' \<and>
    served' + total_capacity remaining' = served + total_capacity remaining"
proof -
  let ?usable = "sort (filter (\<lambda>(start, reset). start \<le> fs_slot_start slot \<and> fs_slot_start slot < reset) (map fst remaining))"
  obtain d r s where run: "serve_slot ?usable (fs_demand_units slot, remaining, served) = (d, r, s)" by (metis prod_cases3)
  have "set ?usable \<subseteq> fst ` set remaining" by auto
  note S = serve_slot_conserves[OF assms(1) this assms(2) run]
  show ?thesis using S assms(3) run by (simp add: simulate_slot_def)
qed

lemma simulate_slots_conserve:
  assumes "capacities_ok remaining" and "list_all (\<lambda>slot. 0 \<le> fs_demand_units slot) slots"
    and "fold simulate_slot slots (remaining, served, unmet) = (remaining', served', unmet')"
  shows "capacities_ok remaining' \<and> served' + unmet' = served + unmet + sum_list (map fs_demand_units slots) \<and>
    served \<le> served' \<and> unmet \<le> unmet' \<and> served' + total_capacity remaining' = served + total_capacity remaining"
  using assms
proof (induction slots arbitrary: remaining served unmet)
  case (Cons slot slots)
  obtain r s u where one: "simulate_slot slot (remaining, served, unmet) = (r, s, u)" by (metis prod_cases3)
  note S = simulate_slot_conserves[OF Cons.prems(1) _ one]
  show ?case using Cons.IH[of r s u] S Cons.prems one by auto
qed simp

lemma window_capacities_ok:
  assumes "\<forall>(s, r, c) \<in> set windows. 0 \<le> c"
  shows "capacities_ok (window_capacities windows) \<and> total_capacity (window_capacities windows) \<le> sum_list (map (\<lambda>(s, r, c). c) windows)"
proof -
  let ?f = "\<lambda>(start_at, reset_at, capacity) remaining.
         if start_at \<ge> reset_at then remaining
         else AList.update (start_at, reset_at) (default (map_of remaining (start_at, reset_at)) 0 + capacity) remaining"
  have "capacities_ok (fold ?f windows al) \<and> total_capacity (fold ?f windows al) \<le> total_capacity al + sum_list (map (\<lambda>(s, r, c). c) windows)"
    if "capacities_ok al" for al :: window_capacity
    using assms that
  proof (induction windows arbitrary: al)
    case (Cons w windows)
    obtain s r c where w: "w = (s, r, c)" by (cases w)
    then have c: "0 \<le> c" using Cons.prems by auto
    let ?al = "?f w al"
    have "0 \<le> default (map_of al (s, r)) 0"
      using Cons.prems(2) by (cases "map_of al (s, r)") (auto simp: capacities_ok_def dest!: map_of_SomeD)
    then have ok: "capacities_ok ?al" using Cons.prems(2) c by (auto simp: w intro: capacities_update)
    have "total_capacity ?al \<le> total_capacity al + c"
    proof (cases "map_of al (s, r)")
      case None
      then have "AList.update (s, r) c al = al @ [((s, r), c)]" by (rule update_new_key)
      then show ?thesis using None c by (simp add: w total_capacity_def)
    next
      case (Some v)
      then show ?thesis using c Cons.prems(2) by (simp add: w capacities_ok_def total_update)
    qed
    then show ?case using Cons.IH[OF _ ok] Cons.prems(1) by (auto simp: w)
  qed (simp add: total_capacity_def)
  from this[of "[]"] show ?thesis by (simp add: capacities_ok_def total_capacity_def window_capacities_def)
qed

lemma pool_windows_nonneg:
  "\<forall>(s, r, c) \<in> set (concat (map (account_windows current) states) @ concat (map warmup_windows warmups)). 0 \<le> c"
  by (auto simp: account_windows_def warmup_windows_def remaining_percent_def split: if_splits option.splits)

lemma penalty_nonneg: "0 \<le> penalty_of_sorted xs"
  by (induction xs rule: penalty_of_sorted.induct) (simp_all add: Let_def)

text \<open>
  The simulation neither creates nor loses demand. For a forecast without negative demand, the units
  served and the units left unmet add up to the demand of the slots; no more is served than the windows
  of the accounts and of the planned warm-ups can hold together; and no part of the loss is negative.
\<close>

theorem simulation_conserves_demand:
  assumes "list_all (\<lambda>slot. 0 \<le> fs_demand_units slot) (pf_slots forecast)"
  shows "sr_served_units (simulate_pool states forecast warmups current) + sr_unmet_demand (simulate_pool states forecast warmups current) =
      sum_list (map fs_demand_units (pf_slots forecast)) \<and>
    0 \<le> sr_served_units (simulate_pool states forecast warmups current) \<and>
    sr_served_units (simulate_pool states forecast warmups current) \<le>
      sum_list (map (\<lambda>(start, reset, capacity). capacity)
        (concat (map (account_windows current) states) @ concat (map warmup_windows warmups))) \<and>
    0 \<le> sr_unmet_demand (simulate_pool states forecast warmups current) \<and>
    sr_unmet_demand (simulate_pool states forecast warmups current) \<le> sr_loss (simulate_pool states forecast warmups current)"
proof -
  define windows where "windows = concat (map (account_windows current) states) @ concat (map warmup_windows warmups)"
  obtain remaining served unmet where run:
    "fold simulate_slot (pf_slots forecast) (window_capacities windows, 0, 0) = (remaining, served, unmet)" by (metis prod_cases3)
  have W: "capacities_ok (window_capacities windows)" "total_capacity (window_capacities windows) \<le> sum_list (map (\<lambda>(s, r, c). c) windows)"
    using window_capacities_ok[OF pool_windows_nonneg[of current states warmups]] by (simp_all add: windows_def)
  note S = simulate_slots_conserve[OF W(1) assms run]
  have "0 \<le> total_capacity remaining"
    using S by (intro total_nonneg) simp
  then have bound: "served \<le> sum_list (map (\<lambda>(s, r, c). c) windows)" using S W(2) by linarith
  define res where "res = simulate_pool states forecast warmups current"
  have res: "sr_served_units res = served" "sr_unmet_demand res = unmet"
    "sr_loss res = unmet + sr_wasted_capacity res + sr_synchronization_penalty res + sr_cold_start_penalty res"
    "0 \<le> sr_wasted_capacity res" "0 \<le> sr_synchronization_penalty res" "0 \<le> sr_cold_start_penalty res"
    using run
    by (auto simp: res_def simulate_pool_def windows_def Let_def synchronization_penalty_def penalty_nonneg
        intro!: sum_list_nonneg split: option.split)
  show ?thesis
    unfolding res_def[symmetric] windows_def[symmetric] using S bound res by simp
qed

section \<open>Planned actions\<close>

lemma normalize_candidate_ge: "now \<le> normalize_candidate now c"
  by (simp add: normalize_candidate_def Let_def)

lemma unseen_candidates_subset: "set (unseen_candidates seen cs) \<subseteq> set cs"
  by (induction cs arbitrary: seen) auto

lemma candidate_start_times_ok:
  assumes "c \<in> set (candidate_start_times zones now settings demand_forecast resets)"
  shows "now \<le> c \<and> inside_prewarm_band zones c settings"
proof -
  obtain cs where "c \<in> set (unseen_candidates {} (map (normalize_candidate now) cs))" "inside_prewarm_band zones c settings"
    using assms by (auto simp: candidate_start_times_def Let_def simp del: map_append dest!: in_set_takeD)
  then show ?thesis using unseen_candidates_subset[of "{}" "map (normalize_candidate now) cs"] normalize_candidate_ge by fastforce
qed

lemma best_candidate_mem:
  assumes "best_candidate zones settings f resets c cs = (t, score)"
  shows "t \<in> set (c # cs) \<and> score = score_candidate_start zones t settings f resets"
proof -
  let ?sc = "\<lambda>x. (x, score_candidate_start zones x settings f resets)"
  have "(t, score) \<in> insert (?sc c) (set (map ?sc cs))"
    using max_by_mem[of "\<lambda>item. (snd item, - fst item)" "?sc c" "map ?sc cs"] assms by (simp add: best_candidate_def Let_def)
  then show ?thesis by auto
qed

definition action_ok :: "(string \<Rightarrow> zone option) \<Rightarrow> planner_settings \<Rightarrow> account_state list \<Rightarrow> real \<Rightarrow> planner_action \<Rightarrow> bool" where
  "action_ok zones settings states now a \<longleftrightarrow>
     (\<exists>state \<in> set states. st_account_id state = pa_account_id a \<and> st_status state = ACTIVE \<and> is_cold_window state now) \<and>
     (case pa_scheduled_at a of None \<Rightarrow> False | Some t \<Rightarrow> now \<le> t \<and> inside_prewarm_band zones t settings) \<and>
     ps_min_expected_gain settings \<le> pa_score a \<and>
     (pa_action a = ''warmup'' \<longrightarrow> ps_allow_synthetic_traffic settings \<and> \<not> ps_dry_run settings)"

lemma plan_state_ok:
  assumes "state \<in> set states" and "\<forall>a \<in> set (fst run). action_ok zones settings states now a"
  shows "\<forall>a \<in> set (fst (plan_state zones settings f now resets state run)). action_ok zones settings states now a"
proof -
  obtain actions skipped where run: "run = (actions, skipped)" by (cases run)
  show ?thesis
  proof (cases "is_warmup_candidate state now \<and> candidate_start_times zones now settings f resets \<noteq> []")
    case True
    then obtain c cs where cs: "candidate_start_times zones now settings f resets = c # cs" by (cases "candidate_start_times zones now settings f resets") auto
    define rs where "rs = resets @ concat (map (\<lambda>a. case pa_scheduled_at a of None \<Rightarrow> [] | Some t \<Rightarrow> [t + 18000]) actions)"
    obtain t score where best: "best_candidate zones settings f rs c cs = (t, score)" by (metis surj_pair)
    have "now \<le> t \<and> inside_prewarm_band zones t settings"
      using best_candidate_mem[OF best] candidate_start_times_ok[of t zones now settings f resets] cs by simp
    moreover have "st_status state = ACTIVE" "is_cold_window state now"
      using True by (simp_all add: is_warmup_candidate_def split: if_splits)
    ultimately show ?thesis
      using assms True best by (auto simp: run plan_state_def cs Let_def rs_def[symmetric] action_ok_def)
  next
    case False
    then show ?thesis using assms(2) by (auto simp: run plan_state_def split: list.splits)
  qed
qed

lemma plan_states_ok:
  assumes "set todo \<subseteq> set states" and "\<forall>a \<in> set (fst run). action_ok zones settings states now a"
  shows "\<forall>a \<in> set (fst (fold (plan_state zones settings f now resets) todo run)). action_ok zones settings states now a"
  using assms
proof (induction todo arbitrary: run)
  case (Cons s todo)
  show ?case using Cons.IH[OF _ plan_state_ok[of s states run]] Cons.prems by simp
qed simp

text \<open>
  Planned warm-ups respect every setting. There are never more than the daily maximum; each is for an
  active account whose window is not running, at a time that is not in the past and inside the pre-warm
  band, with at least the demanded gain; and it sends synthetic traffic only when that is allowed and the
  planner does not run dry. Outside the band, when the planner is off or pre-warming is disabled, nothing
  is planned.
\<close>

theorem planned_warmups_respect_settings:
  "int (length (plan_shadow_actions zones settings states demand_forecast now)) \<le> max 0 (ps_max_warmups_per_day settings) \<and>
   list_all (action_ok zones settings states now) (plan_shadow_actions zones settings states demand_forecast now) \<and>
   (if ps_mode settings \<noteq> ''off'' \<and> ps_prewarm_enabled settings \<and> inside_prewarm_band zones now settings
    then True else plan_shadow_actions zones settings states demand_forecast now = [])"
proof -
  define resets where "resets = concat (map (\<lambda>state. case st_reset_at state of
      None \<Rightarrow> [] | Some t \<Rightarrow> if is_active_window state now then [t] else []) states)"
  obtain actions skipped where run: "fold (plan_state zones settings demand_forecast now resets) states ([], 0) = (actions, skipped)"
    by (metis surj_pair)
  have "\<forall>a \<in> set actions. action_ok zones settings states now a"
    using plan_states_ok[of states states "([], 0)" zones settings now demand_forecast resets] run by simp
  moreover have "set (plan_shadow_actions zones settings states demand_forecast now) \<subseteq> set actions"
    using run by (auto simp: plan_shadow_actions_def resets_def[symmetric] dest: in_set_takeD)
  ultimately have "list_all (action_ok zones settings states now) (plan_shadow_actions zones settings states demand_forecast now)"
    by (auto simp: list_all_iff)
  moreover have "int (length (plan_shadow_actions zones settings states demand_forecast now)) \<le> max 0 (ps_max_warmups_per_day settings)"
    using run by (auto simp: plan_shadow_actions_def resets_def[symmetric])
  ultimately show ?thesis by (auto simp: plan_shadow_actions_def)
qed

section \<open>Routing costs\<close>

lemma planner_cost_lookup:
  "planner_cost s (Some costs) = (case map_of costs (st_account_id s) of None \<Rightarrow> 0 | Some c \<Rightarrow> rc_total c)"
  by (cases costs) (simp_all add: planner_cost_def)

lemma routing_costs_lookup:
  assumes "distinct (map st_account_id states)" and "state \<in> set states" and "ps_mode settings \<noteq> ''off''"
  shows "planner_cost state (Some (build_routing_costs zones settings states now)) = fst (state_cost zones settings now state)"
proof -
  let ?put = "\<lambda>state costs. let (cost, reasons) = state_cost zones settings now state
      in if cost \<noteq> 0 then AList.update (st_account_id state) \<lparr>rc_total = cost, rc_reason = Some (join_reasons reasons)\<rparr> costs else costs"
  have other: "map_of (fold ?put states al) i = map_of al i" if "i \<notin> st_account_id ` set states" for states al i
    using that
  proof (induction states arbitrary: al)
    case (Cons s states)
    then show ?case by (simp add: Let_def update_conv' split: prod.split)
  qed simp
  have "(case map_of (fold ?put states al) (st_account_id state) of None \<Rightarrow> 0 | Some c \<Rightarrow> rc_total c) = fst (state_cost zones settings now state)"
    if "st_account_id state \<notin> fst ` set al" for al
    using assms(1,2) that
  proof (induction states arbitrary: al)
    case (Cons s states)
    obtain cost reasons where sc: "state_cost zones settings now s = (cost, reasons)" by (cases "state_cost zones settings now s")
    show ?case
    proof (cases "s = state")
      case True
      then have out: "st_account_id state \<notin> st_account_id ` set states" using Cons.prems(1) by simp
      have "map_of al (st_account_id state) = None" using Cons.prems(3) by (simp add: map_of_eq_None_iff)
      then show ?thesis using True sc other[OF out] by (simp add: update_conv')
    next
      case False
      then have "state \<in> set states" "st_account_id s \<noteq> st_account_id state" using Cons.prems(1,2) by (auto simp: image_iff)
      then show ?thesis using Cons.IH[of "?put s al"] Cons.prems(1,3) sc by (simp add: dom_update)
    qed
  qed simp
  from this[of "[]"] show ?thesis
    using assms(3) by (simp add: planner_cost_lookup build_routing_costs_def)
qed

text \<open>
  Routing costs prefer windows that are already running and never outweigh a fixed bound. While the
  planner is on, the cost of every account lies between -20 and 43, an account whose window is running and
  whose usage is known costs at most nothing, and one whose window would have to be started costs at
  least two.
\<close>

theorem routing_costs_prefer_running_windows:
  assumes "distinct (map st_account_id states)" and "state \<in> set states" and "ps_mode settings \<noteq> ''off''"
  shows "-20 \<le> planner_cost state (Some (build_routing_costs zones settings states now)) \<and>
    planner_cost state (Some (build_routing_costs zones settings states now)) \<le> 43 \<and>
    (if is_active_window state now
     then st_used_percent state = None \<or> planner_cost state (Some (build_routing_costs zones settings states now)) \<le> 0
     else 2 \<le> planner_cost state (Some (build_routing_costs zones settings states now)))"
proof -
  have cold: "is_cold_window state now = (\<not> is_active_window state now)"
    by (simp add: is_cold_window_def is_active_window_def not_less split: option.split)
  have bonus: "0 \<le> 20 * (1 - max 0 x / 3600) \<and> 20 * (1 - max 0 x / 3600) \<le> 20" if "x \<le> 3600" for x :: real
    using that by (simp add: field_simps)
  show ?thesis
    unfolding routing_costs_lookup[OF assms]
    using bonus[of "or_else (st_reset_at state) 0 - now"]
    by (auto simp: state_cost_def window_cost_def cold Let_def)
qed

section \<open>Witnesses\<close>

theorem simulation_conserves_demand_witness:
  "sr_served_units (simulate_pool [(AccountState ''a'' ACTIVE)\<lparr>st_reset_at := Some 5000\<rparr>]
      \<lparr>pf_generated_at = 0, pf_horizon_hours = 1, pf_slot_seconds = 900, pf_total_demand_units = 150, pf_peak_slot_start = Some 0,
       pf_peak_demand_units = 150, pf_slots = [\<lparr>fs_slot_start = 0, fs_demand_units = 150, fs_request_count = 15\<rparr>]\<rparr> [] 0) +
   sr_unmet_demand (simulate_pool [(AccountState ''a'' ACTIVE)\<lparr>st_reset_at := Some 5000\<rparr>]
      \<lparr>pf_generated_at = 0, pf_horizon_hours = 1, pf_slot_seconds = 900, pf_total_demand_units = 150, pf_peak_slot_start = Some 0,
       pf_peak_demand_units = 150, pf_slots = [\<lparr>fs_slot_start = 0, fs_demand_units = 150, fs_request_count = 15\<rparr>]\<rparr> [] 0) = 150"
  by (subst simulation_conserves_demand[THEN conjunct1]) simp_all

theorem routing_costs_prefer_running_windows_witness:
  "2 \<le> planner_cost (AccountState ''a'' ACTIVE) (Some (build_routing_costs (\<lambda>_. None) PlannerSettings [AccountState ''a'' ACTIVE] 0))"
proof -
  let ?s = "AccountState ''a'' ACTIVE"
  have "distinct (map st_account_id [?s])" "?s \<in> set [?s]" "ps_mode PlannerSettings \<noteq> ''off''"
    by (simp_all add: PlannerSettings_def)
  from routing_costs_prefer_running_windows[OF this, of "\<lambda>_. None" 0]
  show ?thesis by (simp add: is_active_window_def AccountState_def)
qed

text \<open>Encoding working days and parsing them again gives the valid days in order.\<close>

lemma valid_days_sorted:
  "sorted days \<Longrightarrow> distinct days \<Longrightarrow> \<forall>d \<in> set days. 0 \<le> d \<and> d \<le> 6 \<Longrightarrow> valid_days (map Some days) = days"
proof -
  let ?add = "\<lambda>value days. case value of Some d \<Rightarrow> if 0 \<le> d \<and> d \<le> 6 \<and> d \<notin> set days then days @ [d] else days | None \<Rightarrow> days"
  have "fold ?add (map Some days) acc = acc @ days" if "distinct (acc @ days)" "\<forall>d \<in> set days. 0 \<le> d \<and> d \<le> 6" for acc :: "int list"
    using that by (induction days arbitrary: acc) simp_all
  then show "valid_days (map Some days) = days" if "distinct days" "\<forall>d \<in> set days. 0 \<le> d \<and> d \<le> 6"
    using that by (simp add: valid_days_def)
qed

lemma working_days_roundtrip:
  assumes "\<exists>d \<in> set days. 0 \<le> d \<and> d \<le> 6"
  shows "parse_working_days (Some (encode_working_days days)) = sort (remdups (filter (\<lambda>d. 0 \<le> d \<and> d \<le> 6) days))"
proof -
  let ?n = "sort (remdups (filter (\<lambda>d. 0 \<le> d \<and> d \<le> 6) days))"
  have "set ?n \<noteq> {}" using assms by auto
  then have ne: "?n \<noteq> []" by (metis empty_set)
  have "valid_days (map Some ?n) = ?n" by (rule valid_days_sorted) auto
  then show ?thesis unfolding parse_working_days_def encode_working_days_def using ne by (simp add: Let_def)
qed

end
