(* ===== verification/Dedupe.thy ===== *)
theory Dedupe
  imports Affinity "HOL-Library.Sublist"
begin

text \<open>
  Suppression of repeated tool calls with side effects (\<open>app/modules/proxy/tool_call_dedupe.py\<close>): of calls that an
  upstream stream repeats, of repeated uses nested in one parallel call, and of calls that a client replays in its input.

  \<^item> \<open>json.dumps\<close> with sorted keys and \<open>json.loads\<close> are the arguments \<open>dumps\<close> and \<open>loads\<close> (\<open>None\<close> is a
    \<open>JSONDecodeError\<close>); a JSON object is an association list without duplicate keys.
  \<^item> The dictionary of keys that were seen, whose values are all \<open>None\<close>, is the list of its keys in insertion order.
  \<^item> An operation that rewrites its event in place returns the new event. Log lines, and the wrappers that only parse
    and print the event stream, are left out.
  \<^item> A \<open>role\<close> or \<open>type\<close> that is an array or an object, on which a set membership test raises \<open>TypeError\<close>, counts as
    not matching.
\<close>

section \<open>Names\<close>

type_synonym seen_key = "string \<times> string \<times> string option \<times> string option \<times> string"

definition DIRECT_SIDE_EFFECT_TOOL_CALL_NAMES :: "string list" where
  "DIRECT_SIDE_EFFECT_TOOL_CALL_NAMES =
     [''apply_patch'', ''close_agent'', ''create_goal'', ''exec_command'', ''request_user_input'', ''resume_agent'',
      ''send_input'', ''spawn_agent'', ''update_goal'', ''update_plan'', ''wait_agent'', ''write_stdin'']"

definition PARALLEL_TOOL_CALL_NAME :: string where
  "PARALLEL_TOOL_CALL_NAME = ''multi_tool_use.parallel''"

definition PARALLEL_TOOL_USE_DEDUPE_RECIPIENT_NAMES :: "string list" where
  "PARALLEL_TOOL_USE_DEDUPE_RECIPIENT_NAMES =
     map (\<lambda>name. ''functions.'' @ name) DIRECT_SIDE_EFFECT_TOOL_CALL_NAMES @ [''multi_tool_use.parallel'']"

definition SIDE_EFFECT_TOOL_CALL_NAMES :: "string list" where
  "SIDE_EFFECT_TOOL_CALL_NAMES =
     PARALLEL_TOOL_CALL_NAME # DIRECT_SIDE_EFFECT_TOOL_CALL_NAMES @
     map (\<lambda>name. ''functions.'' @ name) DIRECT_SIDE_EFFECT_TOOL_CALL_NAMES"

definition SIDE_EFFECT_VOLATILE_ARG_KEYS :: "string list" where
  "SIDE_EFFECT_VOLATILE_ARG_KEYS = [''max_output_tokens'', ''timeout_ms'', ''yield_time_ms'']"

definition normalize_tool_call_name :: "string option \<Rightarrow> string option" where
  "normalize_tool_call_name name =
     map_option (\<lambda>s. if starts_with ''functions.'' s then drop 10 s else s) name"

definition is_side_effect_name :: "string option \<Rightarrow> bool" where
  "is_side_effect_name name = (case name of None \<Rightarrow> False | Some s \<Rightarrow> s \<in> set SIDE_EFFECT_TOOL_CALL_NAMES)"

section \<open>Canonical keys\<close>

text \<open>\<open>d.get(key)\<close> where the absent value is passed on as \<open>None\<close>, and a string or \<open>None\<close> as a JSON value.\<close>

definition get_or_null :: "(string \<times> json) list \<Rightarrow> string \<Rightarrow> json" where
  "get_or_null kvs key = (case map_of kvs key of None \<Rightarrow> JNull | Some v \<Rightarrow> v)"

definition json_of_str :: "string option \<Rightarrow> json" where
  "json_of_str s = (case s of None \<Rightarrow> JNull | Some v \<Rightarrow> JStr v)"

definition json_object_from_argument :: "(string \<Rightarrow> json option) \<Rightarrow> string \<Rightarrow> (string \<times> json) list option" where
  "json_object_from_argument loads argument_value =
     (case loads argument_value of Some (JObj kvs) \<Rightarrow> Some kvs | _ \<Rightarrow> None)"

definition canonical_parameters_key :: "(json \<Rightarrow> string) \<Rightarrow> string \<Rightarrow> (string \<times> json) list \<Rightarrow> string" where
  "canonical_parameters_key dumps recipient_name parameters =
     dumps (JObj [(''recipient_name'', JStr recipient_name),
                  (''parameters'', JObj (filter (\<lambda>kv. fst kv \<notin> set SIDE_EFFECT_VOLATILE_ARG_KEYS) parameters))])"

fun class_name :: "json \<Rightarrow> string" where
  "class_name JNull = ''NoneType''"
| "class_name (JBool _) = ''bool''"
| "class_name (JInt _) = ''int''"
| "class_name (JFloat _) = ''float''"
| "class_name (JStr _) = ''str''"
| "class_name (JArr _) = ''list''"
| "class_name (JObj _) = ''dict''"

definition canonical_wait_agent_targets :: "(json \<Rightarrow> string) \<Rightarrow> json \<Rightarrow> json" where
  "canonical_wait_agent_targets dumps targets =
     (case targets of
        JArr ts \<Rightarrow> JArr (sort_key (\<lambda>target. (class_name target, dumps target)) ts)
      | _ \<Rightarrow> targets)"

definition write_stdin_parameters :: "(string \<times> json) list \<Rightarrow> (string \<times> json) list" where
  "write_stdin_parameters kvs =
     map (\<lambda>k. (k, get_or_null kvs k)) [''session_id'', ''chars'', ''yield_time_ms'', ''max_output_tokens'']"

definition canonical_parallel_tool_use_key :: "(json \<Rightarrow> string) \<Rightarrow> (string \<times> json) list \<Rightarrow> string" where
  "canonical_parallel_tool_use_key dumps tool_use =
     (case json_str (map_of tool_use ''recipient_name'') of
        None \<Rightarrow> dumps (JObj tool_use)
      | Some recipient_name \<Rightarrow>
          (let normalized = the (normalize_tool_call_name (Some recipient_name))
           in case map_of tool_use ''parameters'' of
                Some (JObj parameters) \<Rightarrow>
                  if normalized = ''write_stdin''
                  then canonical_parameters_key dumps normalized (write_stdin_parameters parameters)
                  else if normalized = ''wait_agent''
                  then dumps (JObj [(''recipient_name'', JStr normalized),
                                    (''targets'', canonical_wait_agent_targets dumps (get_or_null parameters ''targets''))])
                  else if normalized = ''exec_command'' then canonical_parameters_key dumps normalized parameters
                  else dumps (JObj tool_use)
              | _ \<Rightarrow> dumps (JObj tool_use)))"

definition canonical_tool_use :: "(json \<Rightarrow> string) \<Rightarrow> (string \<Rightarrow> json option) \<Rightarrow> json \<Rightarrow> json" where
  "canonical_tool_use dumps loads tool_use =
     (case tool_use of
        JObj kvs \<Rightarrow>
          (case json_object_from_argument loads (canonical_parallel_tool_use_key dumps kvs) of
             Some (kv # rest) \<Rightarrow> JObj (kv # rest)
           | _ \<Rightarrow> tool_use)
      | _ \<Rightarrow> tool_use)"

definition canonical_side_effect_argument_key ::
  "(json \<Rightarrow> string) \<Rightarrow> (string \<Rightarrow> json option) \<Rightarrow> string option \<Rightarrow> string \<Rightarrow> string" where
  "canonical_side_effect_argument_key dumps loads item_name argument_value =
     (case json_object_from_argument loads argument_value of
        None \<Rightarrow> argument_value
      | Some argument \<Rightarrow>
          (let normalized = normalize_tool_call_name item_name
           in if normalized = Some ''write_stdin''
              then dumps (JObj ((''name'', json_of_str normalized) #
                     map (\<lambda>k. (k, get_or_null argument k)) [''session_id'', ''chars'', ''yield_time_ms'']))
              else if normalized = Some ''wait_agent''
              then dumps (JObj [(''name'', json_of_str normalized),
                                (''targets'', canonical_wait_agent_targets dumps (get_or_null argument ''targets''))])
              else if normalized = Some ''exec_command'' then canonical_parameters_key dumps ''exec_command'' argument
              else if item_name \<noteq> Some PARALLEL_TOOL_CALL_NAME
              then dumps (JObj [(''name'', json_of_str (case nonempty_str normalized of Some n \<Rightarrow> Some n | None \<Rightarrow> item_name)),
                                (''parameters'', JObj argument)])
              else case map_of argument ''tool_uses'' of
                     Some (JArr tool_uses) \<Rightarrow>
                       dumps (JObj (AList.update ''tool_uses'' (JArr (map (canonical_tool_use dumps loads) tool_uses)) argument))
                   | _ \<Rightarrow> dumps (JObj argument)))"

definition canonical_downstream_side_effect_argument_key ::
  "(json \<Rightarrow> string) \<Rightarrow> (string \<Rightarrow> json option) \<Rightarrow> string option \<Rightarrow> string \<Rightarrow> string" where
  "canonical_downstream_side_effect_argument_key dumps loads item_name argument_value =
     (case json_object_from_argument loads argument_value of
        None \<Rightarrow> argument_value
      | Some argument \<Rightarrow>
          (let normalized = normalize_tool_call_name item_name
           in if normalized = Some ''write_stdin''
              then canonical_parameters_key dumps ''write_stdin'' (write_stdin_parameters argument)
              else if normalized = Some ''exec_command'' then canonical_parameters_key dumps ''exec_command'' argument
              else canonical_side_effect_argument_key dumps loads item_name argument_value))"

definition deduped_recipient :: "json \<Rightarrow> string option" where
  "deduped_recipient tool_use =
     (case json_str (json_get tool_use ''recipient_name'') of
        Some r \<Rightarrow> if r \<in> set PARALLEL_TOOL_USE_DEDUPE_RECIPIENT_NAMES then Some r else None
      | None \<Rightarrow> None)"

definition tool_call_has_side_effect_arguments :: "(string \<Rightarrow> json option) \<Rightarrow> string option \<Rightarrow> string \<Rightarrow> bool" where
  "tool_call_has_side_effect_arguments loads item_name argument_value =
     (if item_name \<noteq> Some PARALLEL_TOOL_CALL_NAME then is_side_effect_name item_name
      else case json_object_from_argument loads argument_value of
             None \<Rightarrow> False
           | Some argument \<Rightarrow>
               (case map_of argument ''tool_uses'' of
                  Some (JArr tool_uses) \<Rightarrow> list_ex (\<lambda>u. deduped_recipient u \<noteq> None) tool_uses
                | _ \<Rightarrow> False))"

section \<open>Calls repeated by the upstream stream\<close>

definition seen_add :: "'k \<Rightarrow> 'k list \<Rightarrow> 'k list" where
  "seen_add key seen = (if key \<in> set seen then seen else seen @ [key])"

text \<open>\<open>while len(seen) > 1024: seen.pop(next(iter(seen)))\<close>\<close>

fun trim_seen :: "'k list \<Rightarrow> 'k list" where
  "trim_seen [] = []"
| "trim_seen (key # seen) = (if length (key # seen) > 1024 then trim_seen seen else key # seen)"

definition parallel_use_key :: "(json \<Rightarrow> string) \<Rightarrow> string option \<Rightarrow> bool \<Rightarrow> string \<Rightarrow> json \<Rightarrow> seen_key" where
  "parallel_use_key dumps response_id scoped recipient tool_use =
     (case (if scoped then response_id else None) of None \<Rightarrow> [] | Some r \<Rightarrow> r,
      ''parallel_tool_use'', Some recipient, None,
      canonical_parallel_tool_use_key dumps (case tool_use of JObj kvs \<Rightarrow> kvs | _ \<Rightarrow> []))"

text \<open>The loop over the nested uses: the uses that are kept, the number of removed ones, the keys seen.\<close>

fun keep_tool_uses ::
  "(json \<Rightarrow> string) \<Rightarrow> string option \<Rightarrow> bool \<Rightarrow> json list \<Rightarrow> seen_key list \<Rightarrow> json list \<times> nat \<times> seen_key list" where
  "keep_tool_uses dumps response_id scoped [] seen = ([], 0, seen)"
| "keep_tool_uses dumps response_id scoped (u # us) seen =
     (case deduped_recipient u of
        None \<Rightarrow> (let (kept, n, seen') = keep_tool_uses dumps response_id scoped us seen in (u # kept, n, seen'))
      | Some r \<Rightarrow>
          (let key = parallel_use_key dumps response_id scoped r u
           in if key \<in> set seen
              then (let (kept, n, seen') = keep_tool_uses dumps response_id scoped us seen in (kept, n + 1, seen'))
              else (let (kept, n, seen') = keep_tool_uses dumps response_id scoped us (seen_add key seen)
                    in (u # kept, n, seen'))))"

text \<open>Whether the event is suppressed, the item, the keys seen.\<close>

definition mark_duplicate_parallel ::
  "(json \<Rightarrow> string) \<Rightarrow> (string \<Rightarrow> json option) \<Rightarrow> string option \<Rightarrow> bool \<Rightarrow> (string \<times> json) list \<Rightarrow> string \<Rightarrow> seen_key list
   \<Rightarrow> bool \<times> (string \<times> json) list \<times> seen_key list" where
  "mark_duplicate_parallel dumps loads response_id scoped item argument_value seen =
     (case json_object_from_argument loads argument_value of
        None \<Rightarrow> (False, item, seen)
      | Some argument \<Rightarrow>
          (case map_of argument ''tool_uses'' of
             Some (JArr tool_uses) \<Rightarrow>
               (let (kept, removed, seen') = keep_tool_uses dumps response_id scoped tool_uses seen; seen'' = trim_seen seen'
                in if removed = 0 then (False, item, seen'')
                   else if kept = [] then (True, item, seen'')
                   else (False,
                         AList.update ''arguments'' (JStr (dumps (JObj (AList.update ''tool_uses'' (JArr kept) argument)))) item,
                         seen''))
           | _ \<Rightarrow> (False, item, seen)))"

text \<open>The argument of a tool call item; \<open>None\<close> for an item of another type.\<close>

definition item_argument :: "(json \<Rightarrow> string) \<Rightarrow> (string \<times> json) list \<Rightarrow> json option option" where
  "item_argument dumps item =
     (case json_str (map_of item ''type'') of
        None \<Rightarrow> None
      | Some t \<Rightarrow>
          if t = ''function_call'' then Some (map_of item ''arguments'')
          else if t = ''custom_tool_call'' then Some (map_of item ''input'')
          else if t = ''apply_patch_call''
          then Some (case map_of item ''operation'' of
                       Some (JObj op) \<Rightarrow> Some (JStr (dumps (JObj op)))
                     | v \<Rightarrow> v)
          else None)"

definition mark_duplicate_tool_call ::
  "(json \<Rightarrow> string) \<Rightarrow> (string \<Rightarrow> json option) \<Rightarrow> string option \<Rightarrow> bool \<Rightarrow> (string \<times> json) list \<Rightarrow> seen_key list
   \<Rightarrow> bool \<times> (string \<times> json) list \<times> seen_key list" where
  "mark_duplicate_tool_call dumps loads response_id scoped item seen =
     (case item_argument dumps item of
        None \<Rightarrow> (False, item, [])
      | Some argument \<Rightarrow>
          (case json_str argument of
             None \<Rightarrow> (False, item, seen)
           | Some argument_value \<Rightarrow>
               (let item_type = the (json_str (map_of item ''type''));
                    item_name = json_str (map_of item ''name'');
                    call_id = json_str (map_of item ''call_id'');
                    side_effect = (item_type = ''apply_patch_call'' \<or>
                      (is_side_effect_name item_name \<and> tool_call_has_side_effect_arguments loads item_name argument_value))
                in if \<not> side_effect then (False, item, [])
                   else if item_name = Some PARALLEL_TOOL_CALL_NAME
                   then mark_duplicate_parallel dumps loads response_id scoped item argument_value seen
                   else
                     (let name = normalize_tool_call_name item_name;
                          argument_key = canonical_downstream_side_effect_argument_key dumps loads name argument_value;
                          rid = (case response_id of None \<Rightarrow> [] | Some r \<Rightarrow> r);
                          key = (rid, item_type, name, call_id, argument_key);
                          same = (rid, item_type, name, None, argument_key);
                          cross = ([], item_type, name, None, argument_key)
                      in if key \<in> set seen then (True, item, seen)
                         else if \<not> scoped \<and> cross \<in> set seen \<and> same \<notin> set seen then (True, item, seen)
                         else let seen' = seen_add same (seen_add key seen);
                                  seen'' = (if scoped then seen' else seen_add cross seen')
                              in (False, item, trim_seen seen'')))))"

text \<open>The event: only a completed output item is looked at; a rewritten item takes the place of the old one.\<close>

definition mark_duplicate_tool_call_downstream_event ::
  "(json \<Rightarrow> string) \<Rightarrow> (string \<Rightarrow> json option) \<Rightarrow> string option \<Rightarrow> bool \<Rightarrow> json \<Rightarrow> seen_key list \<Rightarrow> bool \<times> json \<times> seen_key list" where
  "mark_duplicate_tool_call_downstream_event dumps loads response_id scoped payload seen =
     (case payload of
        JObj kvs \<Rightarrow>
          if json_str (map_of kvs ''type'') \<noteq> Some ''response.output_item.done'' then (False, payload, seen)
          else (case map_of kvs ''item'' of
                  Some (JObj item) \<Rightarrow>
                    (let (dup, item', seen') = mark_duplicate_tool_call dumps loads response_id scoped item seen
                     in (dup, JObj (AList.update ''item'' (JObj item') kvs), seen'))
                | _ \<Rightarrow> (False, payload, seen))
      | _ \<Rightarrow> (False, payload, seen))"

section \<open>Repeated uses inside one parallel call\<close>

fun dedupe_tool_uses :: "(json \<Rightarrow> string) \<Rightarrow> string list \<Rightarrow> json list \<Rightarrow> json list \<times> nat" where
  "dedupe_tool_uses dumps seen [] = ([], 0)"
| "dedupe_tool_uses dumps seen (u # us) =
     (case deduped_recipient u of
        None \<Rightarrow> (let (kept, n) = dedupe_tool_uses dumps seen us in (u # kept, n))
      | Some _ \<Rightarrow>
          (let key = canonical_parallel_tool_use_key dumps (case u of JObj kvs \<Rightarrow> kvs | _ \<Rightarrow> [])
           in if key \<in> set seen
              then (let (kept, n) = dedupe_tool_uses dumps seen us in (kept, n + 1))
              else (let (kept, n) = dedupe_tool_uses dumps (key # seen) us in (u # kept, n))))"

definition dedupe_parallel_tool_uses_argument ::
  "(json \<Rightarrow> string) \<Rightarrow> (string \<Rightarrow> json option) \<Rightarrow> string \<Rightarrow> string \<times> bool \<times> nat" where
  "dedupe_parallel_tool_uses_argument dumps loads argument_value =
     (case json_object_from_argument loads argument_value of
        None \<Rightarrow> (argument_value, False, 0)
      | Some decoded \<Rightarrow>
          (case map_of decoded ''tool_uses'' of
             Some (JArr tool_uses) \<Rightarrow>
               (let (kept, removed) = dedupe_tool_uses dumps [] tool_uses
                in if removed = 0 then (argument_value, False, 0)
                   else (dumps (JObj (AList.update ''tool_uses'' (JArr kept) decoded)), True, removed))
           | _ \<Rightarrow> (argument_value, False, 0)))"

definition rewrite_parallel_tool_call_payload ::
  "(json \<Rightarrow> string) \<Rightarrow> (string \<Rightarrow> json option) \<Rightarrow> json \<Rightarrow> json \<times> bool \<times> nat" where
  "rewrite_parallel_tool_call_payload dumps loads payload =
     (case payload of
        JObj kvs \<Rightarrow>
          (case (json_str (map_of kvs ''type''), map_of kvs ''item'') of
             (Some t, Some (JObj item)) \<Rightarrow>
               if t = ''response.output_item.done'' \<and> json_str (map_of item ''type'') = Some ''function_call'' \<and>
                  json_str (map_of item ''name'') = Some PARALLEL_TOOL_CALL_NAME
               then (case json_str (map_of item ''arguments'') of
                       None \<Rightarrow> (payload, False, 0)
                     | Some argument_value \<Rightarrow>
                         (let (arguments, changed, removed) = dedupe_parallel_tool_uses_argument dumps loads argument_value
                          in if \<not> changed then (payload, False, 0)
                             else (JObj (AList.update ''item'' (JObj (AList.update ''arguments'' (JStr arguments) item)) kvs),
                                   True, removed)))
               else (payload, False, 0)
           | _ \<Rightarrow> (payload, False, 0))
      | _ \<Rightarrow> (payload, False, 0))"

section \<open>Calls replayed by the client\<close>

type_synonym call_key = "string \<times> string option \<times> string"

definition replayed_side_effect_tool_call_key ::
  "(json \<Rightarrow> string) \<Rightarrow> (string \<Rightarrow> json option) \<Rightarrow> json \<Rightarrow> call_key option" where
  "replayed_side_effect_tool_call_key dumps loads item =
     (case json_str (json_get item ''type'') of
        None \<Rightarrow> None
      | Some item_type \<Rightarrow>
          (let item_name = json_str (json_get item ''name'')
           in if item_type = ''function_call''
              then (case json_str (json_get item ''arguments'') of
                      None \<Rightarrow> None
                    | Some argument_value \<Rightarrow>
                        if is_side_effect_name item_name \<and> tool_call_has_side_effect_arguments loads item_name argument_value
                        then Some (item_type, item_name, canonical_side_effect_argument_key dumps loads item_name argument_value)
                        else None)
              else if item_type = ''custom_tool_call''
              then (if \<not> is_side_effect_name item_name then None
                    else case json_str (json_get item ''input'') of
                           None \<Rightarrow> None
                         | Some argument_value \<Rightarrow>
                             Some (item_type, item_name, canonical_side_effect_argument_key dumps loads item_name argument_value))
              else if item_type = ''apply_patch_call''
              then Some (item_type, Some item_type,
                         dumps (case json_get item ''operation'' of None \<Rightarrow> JNull | Some v \<Rightarrow> v))
              else None))"

definition replayed_input_segment_boundary :: "json \<Rightarrow> bool" where
  "replayed_input_segment_boundary item =
     (json_str (json_get item ''role'') \<in> {Some ''developer'', Some ''system'', Some ''user''} \<and>
      json_get item ''type'' \<in> {None, Some JNull, Some (JStr ''message'')})"

definition replayed_tool_call_segment_boundary :: "json \<Rightarrow> bool" where
  "replayed_tool_call_segment_boundary item =
     (json_str (json_get item ''type'') \<in> {Some ''function_call'', Some ''custom_tool_call'', Some ''apply_patch_call''})"

definition replayed_tool_output_call_id :: "json \<Rightarrow> string option" where
  "replayed_tool_output_call_id item =
     (if json_str (json_get item ''type'') \<in>
           {Some ''function_call_output'', Some ''custom_tool_call_output'', Some ''apply_patch_call_output''}
      then nonempty_str (json_str (json_get item ''call_id'')) else None)"

definition assistant_message :: "string \<Rightarrow> json" where
  "assistant_message text =
     JObj [(''type'', JStr ''message''), (''role'', JStr ''assistant''),
           (''content'', JArr [JObj [(''type'', JStr ''output_text''), (''text'', JStr text)]])]"

definition replayed_tool_output_as_assistant_message :: "(json \<Rightarrow> string) \<Rightarrow> json \<Rightarrow> json" where
  "replayed_tool_output_as_assistant_message dumps item =
     assistant_message (case json_get item ''output'' of Some (JStr s) \<Rightarrow> s | Some v \<Rightarrow> dumps v | None \<Rightarrow> dumps JNull)"

definition replayed_tool_call_without_output_as_assistant_message :: "json \<Rightarrow> json" where
  "replayed_tool_call_without_output_as_assistant_message item =
     assistant_message (''Omitted replayed side-effect tool call without matching output: '' @
       (case nonempty_str (json_str (json_get item ''name'')) of Some n \<Rightarrow> n | None \<Rightarrow> ''tool'') @ ''.'')"

text \<open>The positions of the outputs of a call, in order.\<close>

definition output_indices :: "(json \<Rightarrow> string) \<Rightarrow> (string \<Rightarrow> json option) \<Rightarrow> json list \<Rightarrow> string \<Rightarrow> nat list" where
  "output_indices dumps loads items call_id =
     filter (\<lambda>i. replayed_side_effect_tool_call_key dumps loads (items ! i) = None \<and>
                 replayed_tool_output_call_id (items ! i) = Some call_id) [0..<length items]"

text \<open>The first output after the call that no earlier call has taken, and the cursors.\<close>

definition replayed_tool_output_index_for_call ::
  "(string \<Rightarrow> nat list) \<Rightarrow> (string \<Rightarrow> nat) \<Rightarrow> nat \<Rightarrow> string \<Rightarrow> nat option \<times> (string \<Rightarrow> nat)" where
  "replayed_tool_output_index_for_call indices cursors call_index call_id =
     (let outs = indices call_id
      in if outs = [] then (None, cursors)
         else let cursor = cursors call_id + length (takeWhile (\<lambda>i. i < call_index) (drop (cursors call_id) outs))
              in if cursor \<ge> length outs then (None, cursors(call_id := cursor))
                 else (Some (outs ! cursor), cursors(call_id := cursor + 1)))"

record replay_state =
  rs_kept :: "bool list"
  rs_rewritten :: "nat \<rightharpoonup> json"
  rs_first_call_id :: "call_key \<rightharpoonup> string option"
  rs_first_call_index :: "call_key \<rightharpoonup> nat"
  rs_output_index :: "nat \<rightharpoonup> nat option"
  rs_cursors :: "string \<Rightarrow> nat"
  rs_last_key :: "call_key option"
  rs_removed :: nat

definition replay_start :: "nat \<Rightarrow> replay_state" where
  "replay_start n =
     \<lparr>rs_kept = replicate n True, rs_rewritten = Map.empty, rs_first_call_id = Map.empty, rs_first_call_index = Map.empty,
      rs_output_index = Map.empty, rs_cursors = (\<lambda>_. 0), rs_last_key = None, rs_removed = 0\<rparr>"

definition clear_segment :: "replay_state \<Rightarrow> replay_state" where
  "clear_segment st = st\<lparr>rs_first_call_id := Map.empty, rs_first_call_index := Map.empty, rs_last_key := None\<rparr>"

text \<open>An item that is no side-effect call.\<close>

definition replay_other_item :: "json \<Rightarrow> replay_state \<Rightarrow> replay_state" where
  "replay_other_item item st =
     (let output_call_id = replayed_tool_output_call_id item
      in if (case (rs_last_key st, output_call_id) of
               (Some key, Some cid) \<Rightarrow> rs_first_call_id st key = Some (Some cid)
             | _ \<Rightarrow> False) then st
         else if output_call_id \<noteq> None \<or> replayed_tool_call_segment_boundary item then clear_segment st
         else st)"

text \<open>A side-effect call: the first of its key is remembered, a repeated one is removed.\<close>

definition replay_duplicate :: "(json \<Rightarrow> string) \<Rightarrow> json list \<Rightarrow> nat \<Rightarrow> call_key \<Rightarrow> nat option \<Rightarrow> replay_state \<Rightarrow> replay_state" where
  "replay_duplicate dumps items index key output_index st =
     (let rewritten_first =
            (case rs_first_call_index st key of
               None \<Rightarrow> rs_rewritten st
             | Some first \<Rightarrow>
                 if rs_output_index st first \<in> {None, Some None}
                 then (rs_rewritten st)(first \<mapsto> replayed_tool_call_without_output_as_assistant_message (items ! first))
                 else rs_rewritten st);
          rewritten_output =
            (case output_index of
               None \<Rightarrow> rewritten_first
             | Some o_i \<Rightarrow> rewritten_first(o_i \<mapsto> replayed_tool_output_as_assistant_message dumps (items ! o_i)))
      in st\<lparr>rs_rewritten := rewritten_output, rs_removed := rs_removed st + 1, rs_kept := (rs_kept st)[index := False]\<rparr>)"

definition replay_call ::
  "(json \<Rightarrow> string) \<Rightarrow> (string \<Rightarrow> json option) \<Rightarrow> json list \<Rightarrow> nat \<Rightarrow> call_key \<Rightarrow> replay_state \<Rightarrow> replay_state" where
  "replay_call dumps loads items index key st =
     (let st = (if rs_last_key st \<noteq> None \<and> rs_last_key st \<noteq> Some key then st\<lparr>rs_first_call_id := Map.empty\<rparr> else st);
          call_id = nonempty_str (json_str (json_get (items ! index) ''call_id''));
          (output_index, cursors) =
            (case call_id of
               None \<Rightarrow> (None, rs_cursors st)
             | Some cid \<Rightarrow> replayed_tool_output_index_for_call (output_indices dumps loads items) (rs_cursors st) index cid);
          st = st\<lparr>rs_last_key := Some key, rs_cursors := cursors, rs_output_index := (rs_output_index st)(index \<mapsto> output_index)\<rparr>
      in if rs_first_call_id st key = None
         then st\<lparr>rs_first_call_id := (rs_first_call_id st)(key \<mapsto> call_id),
                 rs_first_call_index := (rs_first_call_index st)(key \<mapsto> index)\<rparr>
         else replay_duplicate dumps items index key output_index st)"

definition replay_item ::
  "(json \<Rightarrow> string) \<Rightarrow> (string \<Rightarrow> json option) \<Rightarrow> json list \<Rightarrow> nat \<Rightarrow> replay_state \<Rightarrow> replay_state" where
  "replay_item dumps loads items index st =
     (let item = items ! index; st = (if replayed_input_segment_boundary item then clear_segment st else st)
      in case replayed_side_effect_tool_call_key dumps loads item of
           None \<Rightarrow> replay_other_item item st
         | Some key \<Rightarrow> replay_call dumps loads items index key st)"

text \<open>The pass that replaces remaining calls without an output; it counts what it replaces.\<close>

definition sanitize_call :: "json list \<Rightarrow> replay_state \<Rightarrow> nat \<Rightarrow> (nat \<rightharpoonup> json) \<times> nat \<Rightarrow> (nat \<rightharpoonup> json) \<times> nat" where
  "sanitize_call items st index acc =
     (let (rewritten, n) = acc
      in if \<not> rs_kept st ! index \<or> rewritten index \<noteq> None then acc
         else if rs_output_index st index \<notin> {None, Some None} then acc
         else (rewritten(index \<mapsto> replayed_tool_call_without_output_as_assistant_message (items ! index)), n + 1))"

definition call_indices :: "(json \<Rightarrow> string) \<Rightarrow> (string \<Rightarrow> json option) \<Rightarrow> json list \<Rightarrow> nat list" where
  "call_indices dumps loads items =
     filter (\<lambda>i. replayed_side_effect_tool_call_key dumps loads (items ! i) \<noteq> None) [0..<length items]"

definition replay_result :: "json list \<Rightarrow> bool list \<Rightarrow> (nat \<rightharpoonup> json) \<Rightarrow> json list" where
  "replay_result items kept rewritten =
     map (\<lambda>i. case rewritten i of Some item \<Rightarrow> item | None \<Rightarrow> items ! i) (filter (\<lambda>i. kept ! i) [0..<length items])"

definition dedupe_replayed_side_effect_input_items ::
  "(json \<Rightarrow> string) \<Rightarrow> (string \<Rightarrow> json option) \<Rightarrow> bool \<Rightarrow> json list \<Rightarrow> json list \<times> nat" where
  "dedupe_replayed_side_effect_input_items dumps loads sanitize_missing_outputs items =
     (if call_indices dumps loads items = [] then (items, 0)
      else
        (let st = fold (replay_item dumps loads items) [0..<length items] (replay_start (length items));
             (rewritten, missing) =
               (if sanitize_missing_outputs
                then fold (sanitize_call items st) (call_indices dumps loads items) (rs_rewritten st, 0)
                else (rs_rewritten st, 0))
         in if rs_removed st = 0 \<and> missing = 0 then (items, 0)
            else (replay_result items (rs_kept st) rewritten, rs_removed st + missing)))"

section \<open>The keys that are remembered\<close>

lemma trim_seen_drop: "trim_seen seen = drop (length seen - 1024) seen"
proof (induction seen)
  case (Cons key seen)
  show ?case
  proof (cases "length seen < 1024")
    case False
    then have "length (key # seen) - 1024 = Suc (length seen - 1024)" by simp
    then show ?thesis using Cons False by (simp only: trim_seen.simps drop_Suc_Cons) simp
  qed simp
qed simp

definition seen_ok :: "seen_key list \<Rightarrow> bool" where
  "seen_ok seen \<longleftrightarrow> distinct seen \<and> length seen \<le> 1024"

lemma seen_ok_trim: "distinct seen \<Longrightarrow> seen_ok (trim_seen seen)"
  by (simp add: seen_ok_def trim_seen_drop)

lemma distinct_seen_add: "distinct seen \<Longrightarrow> distinct (seen_add key seen)"
  by (simp add: seen_add_def)

lemma distinct_keep_tool_uses:
  "distinct seen \<Longrightarrow> distinct (snd (snd (keep_tool_uses dumps rid scoped us seen)))"
  by (induction us arbitrary: seen) (simp_all add: distinct_seen_add Let_def split_beta split: option.split)

lemma seen_ok_parallel:
  "seen_ok seen \<Longrightarrow> seen_ok (snd (snd (mark_duplicate_parallel dumps loads rid scoped item v seen)))"
proof -
  assume ok: "seen_ok seen"
  then have "seen_ok (trim_seen (snd (snd (keep_tool_uses dumps rid scoped us seen))))" for us
    by (intro seen_ok_trim distinct_keep_tool_uses) (simp add: seen_ok_def)
  with ok show ?thesis
    by (auto simp: mark_duplicate_parallel_def Let_def split_beta split: option.split json.split)
qed

lemma seen_ok_call:
  assumes "seen_ok seen"
  shows "seen_ok (snd (snd (mark_duplicate_tool_call dumps loads rid scoped item seen)))"
proof -
  have "seen_ok (trim_seen (seen_add a (seen_add b seen)))"
       "seen_ok (trim_seen (seen_add c (seen_add a (seen_add b seen))))" for a b c
    using assms by (simp_all add: seen_ok_trim distinct_seen_add seen_ok_def [of seen])
  moreover have "seen_ok []" by (simp add: seen_ok_def)
  ultimately show ?thesis
    using assms by (simp add: mark_duplicate_tool_call_def Let_def seen_ok_parallel split: option.split)
qed

definition observe_event ::
  "(json \<Rightarrow> string) \<Rightarrow> (string \<Rightarrow> json option) \<Rightarrow> string option \<times> bool \<times> json \<Rightarrow> seen_key list \<Rightarrow> seen_key list" where
  "observe_event dumps loads ev seen =
     (case ev of (rid, scoped, payload) \<Rightarrow>
        snd (snd (mark_duplicate_tool_call_downstream_event dumps loads rid scoped payload seen)))"

interpretation seen_machine: machine "observe_event dumps loads" seen_ok for dumps loads
proof
  fix seen and ev :: "string option \<times> bool \<times> json"
  assume "seen_ok seen"
  then show "seen_ok (observe_event dumps loads ev seen)"
    using seen_ok_call [of seen]
    by (auto simp: observe_event_def mark_duplicate_tool_call_downstream_event_def Let_def split_beta
        split: prod.split json.split option.split)
qed

text \<open>
  The memory of a stream is bounded: after any sequence of events, of any responses, at most 1024 keys are
  remembered.
\<close>

theorem remembered_calls_bounded: "length (fold (observe_event dumps loads) events []) \<le> 1024"
  using seen_machine.invar_run [of "[]" dumps loads events] by (simp add: seen_ok_def)

section \<open>A repeated call is suppressed\<close>














definition patch_call :: "(string \<times> json) list" where
  "patch_call = [(''type'', JStr ''custom_tool_call''), (''name'', JStr ''apply_patch''), (''call_id'', JStr ''c1''), (''input'', JStr ''p'')]"




section \<open>Nested uses\<close>

text \<open>The keys of the nested uses that are subject to suppression.\<close>

definition use_keys :: "(json \<Rightarrow> string) \<Rightarrow> json list \<Rightarrow> string list" where
  "use_keys dumps us =
     map (\<lambda>u. canonical_parallel_tool_use_key dumps (case u of JObj kvs \<Rightarrow> kvs | _ \<Rightarrow> []))
         (filter (\<lambda>u. deduped_recipient u \<noteq> None) us)"

lemma dedupe_tool_uses_spec:
  "dedupe_tool_uses dumps seen us = (kept, n) \<Longrightarrow>
     distinct (use_keys dumps kept) \<and> set (use_keys dumps kept) = set (use_keys dumps us) - set seen \<and>
     length kept + n = length us \<and> subseq kept us"
proof (induction us arbitrary: seen kept n)
  case Nil
  then show ?case by (simp add: use_keys_def)
next
  case (Cons u us)
  define key where "key = canonical_parallel_tool_use_key dumps (case u of JObj kvs \<Rightarrow> kvs | _ \<Rightarrow> [])"
  have keys: "use_keys dumps (u # xs) = (if deduped_recipient u = None then [] else [key]) @ use_keys dumps xs" for xs
    by (simp add: use_keys_def key_def)
  consider (free) "deduped_recipient u = None" | (dup) r where "deduped_recipient u = Some r" "key \<in> set seen"
    | (new) r where "deduped_recipient u = Some r" "key \<notin> set seen" by blast
  then show ?case
  proof cases
    case free
    obtain kept' m where rec: "dedupe_tool_uses dumps seen us = (kept', m)" by fastforce
    then have "kept = u # kept'" "n = m" using Cons.prems free by simp_all
    then show ?thesis using Cons.IH [OF rec] free by (simp add: keys)
  next
    case dup
    obtain kept' m where rec: "dedupe_tool_uses dumps seen us = (kept', m)" by fastforce
    then have "kept = kept'" "n = Suc m" using Cons.prems dup by (simp_all add: key_def [symmetric] Let_def)
    then show ?thesis using Cons.IH [OF rec] dup by (auto simp: keys)
  next
    case new
    obtain kept' m where rec: "dedupe_tool_uses dumps (key # seen) us = (kept', m)" by fastforce
    then have "kept = u # kept'" "n = m" using Cons.prems new by (simp_all add: key_def [symmetric] Let_def)
    then show ?thesis using Cons.IH [OF rec] new by (auto simp: keys)
  qed
qed

text \<open>
  Suppression inside one parallel call keeps exactly one use of every canonical key and every use it does not judge,
  in their order, and counts what it drops.
\<close>

theorem parallel_uses_run_once:
  "case dedupe_tool_uses dumps [] us of (kept, removed) \<Rightarrow>
     distinct (use_keys dumps kept) \<and> set (use_keys dumps kept) = set (use_keys dumps us) \<and>
     length kept + removed = length us \<and> subseq kept us"
  using dedupe_tool_uses_spec [of dumps "[]" us] by (auto split: prod.split)

section \<open>Replayed input\<close>

lemma boundary_no_call: "replayed_input_segment_boundary item \<Longrightarrow> replayed_side_effect_tool_call_key dumps loads item = None"
  by (auto simp: replayed_input_segment_boundary_def replayed_side_effect_tool_call_key_def)

lemma boundary_no_output: "replayed_input_segment_boundary item \<Longrightarrow> replayed_tool_output_call_id item = None"
  by (auto simp: replayed_input_segment_boundary_def replayed_tool_output_call_id_def)

lemma assistant_message_no_boundary [simp]: "\<not> replayed_input_segment_boundary (assistant_message text)"
  by (simp add: replayed_input_segment_boundary_def assistant_message_def)

lemma rewritten_messages_no_boundary [simp]:
  "\<not> replayed_input_segment_boundary (replayed_tool_output_as_assistant_message dumps item)"
  "\<not> replayed_input_segment_boundary (replayed_tool_call_without_output_as_assistant_message item)"
  by (simp_all add: replayed_tool_output_as_assistant_message_def replayed_tool_call_without_output_as_assistant_message_def)

text \<open>Only calls are removed, only calls and outputs are rewritten, and never into the start of a segment.\<close>

definition rewrites_ok :: "json list \<Rightarrow> (nat \<rightharpoonup> json) \<Rightarrow> bool" where
  "rewrites_ok items m =
     (\<forall>i v. m i = Some v \<longrightarrow> \<not> replayed_input_segment_boundary v \<and> \<not> replayed_input_segment_boundary (items ! i))"

definition replay_ok :: "json list \<Rightarrow> replay_state \<Rightarrow> bool" where
  "replay_ok items st =
     (length (rs_kept st) = length items \<and>
      (\<forall>i < length items. replayed_input_segment_boundary (items ! i) \<longrightarrow> rs_kept st ! i) \<and>
      rewrites_ok items (rs_rewritten st) \<and>
      (\<forall>k i. rs_first_call_index st k = Some i \<longrightarrow> \<not> replayed_input_segment_boundary (items ! i)))"

lemma rewrites_ok_upd:
  "rewrites_ok items m \<Longrightarrow> \<not> replayed_input_segment_boundary v \<Longrightarrow> \<not> replayed_input_segment_boundary (items ! i) \<Longrightarrow>
   rewrites_ok items (m(i \<mapsto> v))"
  by (simp add: rewrites_ok_def)

lemma output_index_no_boundary:
  assumes "replayed_tool_output_index_for_call (output_indices dumps loads items) cursors index cid = (Some i, c)"
  shows "\<not> replayed_input_segment_boundary (items ! i)"
proof -
  have "i \<in> set (output_indices dumps loads items cid)"
    using assms by (auto simp: replayed_tool_output_index_for_call_def Let_def not_le split: if_splits)
  then have "replayed_tool_output_call_id (items ! i) = Some cid" by (simp add: output_indices_def)
  then show ?thesis using boundary_no_output by fastforce
qed

lemma replay_ok_duplicate:
  assumes ok: "replay_ok items st" and call: "\<not> replayed_input_segment_boundary (items ! index)"
      and out: "\<And>i. output_index = Some i \<Longrightarrow> \<not> replayed_input_segment_boundary (items ! i)"
  shows "replay_ok items (replay_duplicate dumps items index key output_index st)"
proof -
  define m where "m = (case rs_first_call_index st key of
               None \<Rightarrow> rs_rewritten st
             | Some first \<Rightarrow>
                 if rs_output_index st first \<in> {None, Some None}
                 then (rs_rewritten st)(first \<mapsto> replayed_tool_call_without_output_as_assistant_message (items ! first))
                 else rs_rewritten st)"
  define m' where "m' = (case output_index of
               None \<Rightarrow> m | Some i \<Rightarrow> m(i \<mapsto> replayed_tool_output_as_assistant_message dumps (items ! i)))"
  have "\<not> replayed_input_segment_boundary (items ! i)" if "rs_first_call_index st key = Some i" for i
    using ok that unfolding replay_ok_def by blast
  then have "rewrites_ok items m"
    using ok by (auto simp: m_def replay_ok_def intro!: rewrites_ok_upd split: option.split)
  then have "rewrites_ok items m'" using out by (auto simp: m'_def intro!: rewrites_ok_upd split: option.split)
  moreover have "replay_duplicate dumps items index key output_index st =
      st\<lparr>rs_rewritten := m', rs_removed := rs_removed st + 1, rs_kept := (rs_kept st)[index := False]\<rparr>"
    by (simp only: replay_duplicate_def m_def m'_def Let_def)
  moreover have "\<forall>i < length items. replayed_input_segment_boundary (items ! i) \<longrightarrow> (rs_kept st)[index := False] ! i"
    using ok call unfolding replay_ok_def by (metis nth_list_update_neq)
  ultimately show ?thesis using ok by (simp add: replay_ok_def)
qed

lemma replay_ok_call:
  assumes ok: "replay_ok items st" and key: "replayed_side_effect_tool_call_key dumps loads (items ! index) = Some key"
  shows "replay_ok items (replay_call dumps loads items index key st)"
proof -
  have call: "\<not> replayed_input_segment_boundary (items ! index)" using key boundary_no_call by fastforce
  define cid where "cid = nonempty_str (json_str (json_get (items ! index) ''call_id''))"
  define found where "found = (case cid of
        None \<Rightarrow> (None, rs_cursors st)
      | Some c \<Rightarrow> replayed_tool_output_index_for_call (output_indices dumps loads items) (rs_cursors st) index c)"
  define other where "other = (rs_last_key st \<noteq> None \<and> rs_last_key st \<noteq> Some key)"
  define first where "first = (if other then Map.empty else rs_first_call_id st)"
  define st' where "st' = st\<lparr>rs_first_call_id := first, rs_last_key := Some key, rs_cursors := snd found,
      rs_output_index := (rs_output_index st)(index \<mapsto> fst found)\<rparr>"
  have out: "fst found = Some i \<Longrightarrow> \<not> replayed_input_segment_boundary (items ! i)" for i
    using output_index_no_boundary [of dumps loads items "rs_cursors st" index "the cid" i "snd found"]
    by (cases found) (simp add: found_def split: option.splits)
  have st': "replay_ok items st'" using ok by (simp add: replay_ok_def st'_def)
  have "replay_call dumps loads items index key st =
      (if first key = None
       then st'\<lparr>rs_first_call_id := first(key \<mapsto> cid), rs_first_call_index := (rs_first_call_index st)(key \<mapsto> index)\<rparr>
       else replay_duplicate dumps items index key (fst found) st')"
    unfolding replay_call_def cid_def [symmetric] other_def [symmetric]
    by (cases cid; cases other) (simp_all add: found_def st'_def first_def Let_def split_beta)
  moreover have "replay_ok items (replay_duplicate dumps items index key (fst found) st')"
    by (rule replay_ok_duplicate [OF st' call out])
  moreover have "replay_ok items (st'\<lparr>rs_first_call_id := first(key \<mapsto> cid),
      rs_first_call_index := (rs_first_call_index st)(key \<mapsto> index)\<rparr>)"
    using ok call by (auto simp: replay_ok_def st'_def)
  ultimately show ?thesis by simp
qed

lemma replay_ok_clear: "replay_ok items st \<Longrightarrow> replay_ok items (clear_segment st)"
  by (simp add: replay_ok_def clear_segment_def)

lemma replay_ok_item: "replay_ok items st \<Longrightarrow> replay_ok items (replay_item dumps loads items index st)"
proof -
  assume "replay_ok items st"
  then have "replay_ok items (if replayed_input_segment_boundary (items ! index) then clear_segment st else st)" (is "replay_ok items ?st")
    by (simp add: replay_ok_clear)
  then show ?thesis
    by (cases "replayed_side_effect_tool_call_key dumps loads (items ! index)")
       (simp_all add: replay_item_def replay_ok_call replay_other_item_def replay_ok_clear Let_def)
qed

interpretation replay_machine: machine "replay_item dumps loads items" "replay_ok items" for dumps loads items
  by unfold_locales (rule replay_ok_item)

lemma replay_ok_start: "replay_ok items (replay_start (length items))"
  by (simp add: replay_ok_def replay_start_def rewrites_ok_def)

lemma rewrites_ok_sanitize:
  "\<forall>i\<in>set is. \<not> replayed_input_segment_boundary (items ! i) \<Longrightarrow> rewrites_ok items (fst acc) \<Longrightarrow>
   rewrites_ok items (fst (fold (sanitize_call items st) is acc))"
proof (induction "is" arbitrary: acc)
  case (Cons i "is")
  have "rewrites_ok items (fst (sanitize_call items st i acc))"
    using Cons.prems by (auto simp: sanitize_call_def Let_def intro: rewrites_ok_upd split: prod.split)
  then show ?case using Cons by simp
qed simp

lemma filter_replay_result:
  assumes "\<forall>i\<in>set is. replayed_input_segment_boundary (items ! i) \<longrightarrow> kept ! i" "rewrites_ok items m"
  shows "filter replayed_input_segment_boundary
           (map (\<lambda>i. case m i of Some item \<Rightarrow> item | None \<Rightarrow> items ! i) (filter (\<lambda>i. kept ! i) is)) =
         filter replayed_input_segment_boundary (map ((!) items) is)"
  using assms(1)
proof (induction "is")
  case (Cons i "is")
  then show ?case using assms(2) by (cases "m i") (auto simp: rewrites_ok_def)
qed simp

text \<open>
  Removing replayed calls never touches what was said: the user, system and developer messages of the input come out
  unchanged and in their order, with or without the replacement of calls that have no output.
\<close>

theorem replay_keeps_conversation:
  "filter replayed_input_segment_boundary (fst (dedupe_replayed_side_effect_input_items dumps loads sanitize items)) =
   filter replayed_input_segment_boundary items"
proof -
  define st where "st = fold (replay_item dumps loads items) [0..<length items] (replay_start (length items))"
  have ok: "replay_ok items st" unfolding st_def by (rule replay_machine.invar_run) (rule replay_ok_start)
  define acc where "acc = (if sanitize then fold (sanitize_call items st) (call_indices dumps loads items) (rs_rewritten st, 0)
                           else (rs_rewritten st, 0))"
  have "\<forall>i\<in>set (call_indices dumps loads items). \<not> replayed_input_segment_boundary (items ! i)"
    using boundary_no_call by (fastforce simp: call_indices_def)
  then have "rewrites_ok items (fst acc)" using ok by (simp add: acc_def replay_ok_def rewrites_ok_sanitize)
  then have "filter replayed_input_segment_boundary (replay_result items (rs_kept st) (fst acc)) =
             filter replayed_input_segment_boundary (map ((!) items) [0..<length items])"
    using ok unfolding replay_result_def by (intro filter_replay_result) (auto simp: replay_ok_def)
  then show ?thesis
    by (simp add: dedupe_replayed_side_effect_input_items_def st_def [symmetric] acc_def [symmetric] map_nth Let_def split_beta)
qed

text \<open>What the later items do not undo: a removed item stays removed, and the count only grows.\<close>

definition dropped :: "nat \<Rightarrow> replay_state \<Rightarrow> bool" where
  "dropped j st = (\<not> rs_kept st ! j \<and> 0 < rs_removed st)"

lemma replay_call_cases:
  obtains (first_of_key) "rs_kept (replay_call dumps loads items index key st) = rs_kept st"
      "rs_removed (replay_call dumps loads items index key st) = rs_removed st"
      "rs_first_call_id (replay_call dumps loads items index key st) key \<noteq> None"
      "rs_last_key st = Some key \<Longrightarrow> rs_first_call_id st key = None"
  | (repeated) "rs_kept (replay_call dumps loads items index key st) = (rs_kept st)[index := False]"
      "rs_removed (replay_call dumps loads items index key st) = rs_removed st + 1"
      "rs_first_call_id (replay_call dumps loads items index key st) key \<noteq> None"
  by (cases "rs_last_key st \<noteq> None \<and> rs_last_key st \<noteq> Some key"; cases "rs_first_call_id st key")
     (auto simp: replay_call_def replay_duplicate_def Let_def split_beta split: if_splits)

lemma replay_call_last: "rs_last_key (replay_call dumps loads items index key st) = Some key"
  by (simp add: replay_call_def replay_duplicate_def Let_def split_beta)

lemma cleared_stays: "\<not> xs ! j \<Longrightarrow> \<not> xs[i := False] ! j"
  by (cases "i = j"; cases "i < length xs") (simp_all add: list_update_beyond)

lemma dropped_call: "dropped j st \<Longrightarrow> dropped j (replay_call dumps loads items index key st)"
  by (rule replay_call_cases [of dumps loads items index key st]) (simp_all add: dropped_def cleared_stays)

lemma dropped_item: "dropped j st \<Longrightarrow> dropped j (replay_item dumps loads items index st)"
proof -
  assume d: "dropped j st"
  then have "dropped j (clear_segment st)" by (simp add: dropped_def clear_segment_def)
  moreover have "clear_segment (clear_segment st) = clear_segment st" by (simp add: clear_segment_def)
  ultimately show ?thesis using d
    by (cases "replayed_side_effect_tool_call_key dumps loads (items ! index)")
       (simp_all add: replay_item_def replay_other_item_def dropped_call Let_def)
qed

interpretation dropped_machine: machine "replay_item dumps loads items" "dropped j" for dumps loads items j
  by unfold_locales (rule dropped_item)

lemma repeat_is_dropped:
  assumes "replayed_side_effect_tool_call_key dumps loads (items ! i) = Some key"
      and "replayed_side_effect_tool_call_key dumps loads (items ! j) = Some key" "j < length (rs_kept st)"
  shows "dropped j (replay_item dumps loads items j (replay_item dumps loads items i st))"
proof -
  have step: "replay_item dumps loads items x st = replay_call dumps loads items x key st"
    if "replayed_side_effect_tool_call_key dumps loads (items ! x) = Some key" for x st
    using that boundary_no_call [of "items ! x" dumps loads] by (auto simp: replay_item_def Let_def)
  define st' where "st' = replay_call dumps loads items i key st"
  have first: "rs_first_call_id st' key \<noteq> None" and len: "length (rs_kept st') = length (rs_kept st)"
    unfolding st'_def by (rule replay_call_cases [of dumps loads items i key st]; simp)+
  have "dropped j (replay_call dumps loads items j key st')"
  proof (cases rule: replay_call_cases [of dumps loads items j key st'])
    case first_of_key
    then show ?thesis using first by (simp add: st'_def replay_call_last)
  next
    case repeated
    then show ?thesis using assms(3) len by (simp add: dropped_def)
  qed
  then show ?thesis by (simp add: step assms(1,2) st'_def)
qed

lemma length_kept_fold: "length (rs_kept (fold (replay_item dumps loads items) is (replay_start (length items)))) = length items"
  using replay_machine.invar_run [OF replay_ok_start] by (simp add: replay_ok_def)

text \<open>
  A side-effect call that the client replays right after an identical one is removed: the input that goes upstream is
  strictly shorter.
\<close>

theorem replayed_call_is_removed:
  assumes "replayed_side_effect_tool_call_key dumps loads (items ! i) = Some key"
      and "replayed_side_effect_tool_call_key dumps loads (items ! (i + 1)) = Some key" "i + 1 < length items"
  shows "length (fst (dedupe_replayed_side_effect_input_items dumps loads sanitize items)) < length items"
proof -
  define n where "n = length items"
  define run where "run is st = fold (replay_item dumps loads items) is st" for "is" st
  define st where "st = run [0..<n] (replay_start n)"
  have "[0..<n] = [0..<i] @ [i, i + 1] @ [i + 2..<n]"
    using assms(3) upt_add_eq_append [of 0 i "n - i"] by (simp add: n_def upt_conv_Cons)
  then have "st = run [i + 2..<n] (replay_item dumps loads items (i + 1) (replay_item dumps loads items i (run [0..<i] (replay_start n))))"
    by (simp add: st_def run_def)
  moreover have "dropped (i + 1) (replay_item dumps loads items (i + 1) (replay_item dumps loads items i (run [0..<i] (replay_start n))))"
    using assms by (intro repeat_is_dropped) (simp_all add: run_def n_def length_kept_fold)
  ultimately have d: "dropped (i + 1) st" unfolding run_def using dropped_machine.invar_run by metis
  have "i \<in> set (call_indices dumps loads items)" using assms(1,3) by (cases key) (simp add: call_indices_def)
  then have "call_indices dumps loads items \<noteq> []" by auto
  then have "fst (dedupe_replayed_side_effect_input_items dumps loads sanitize items) =
      replay_result items (rs_kept st) (fst (if sanitize
        then fold (sanitize_call items st) (call_indices dumps loads items) (rs_rewritten st, 0) else (rs_rewritten st, 0)))"
    using d by (simp add: dedupe_replayed_side_effect_input_items_def st_def run_def n_def dropped_def Let_def split_beta)
  moreover have "length (filter (\<lambda>x. rs_kept st ! x) [0..<length items]) < length items"
    using d assms(3) length_filter_less [of "i + 1" "[0..<length items]" "\<lambda>x. rs_kept st ! x"] by (simp add: dropped_def)
  ultimately show ?thesis by (simp add: replay_result_def)
qed

theorem replayed_call_is_removed_witness:
  "length (fst (dedupe_replayed_side_effect_input_items (\<lambda>_. []) (\<lambda>_. None) True [JObj patch_call, JObj patch_call])) < 2"
  using replayed_call_is_removed [of "\<lambda>_. []" "\<lambda>_. None" "[JObj patch_call, JObj patch_call]" 0
      "(''custom_tool_call'', Some ''apply_patch'', ''p'')" True]
  by (simp add: replayed_side_effect_tool_call_key_def patch_call_def is_side_effect_name_def SIDE_EFFECT_TOOL_CALL_NAMES_def
      DIRECT_SIDE_EFFECT_TOOL_CALL_NAMES_def PARALLEL_TOOL_CALL_NAME_def canonical_side_effect_argument_key_def
      json_object_from_argument_def Let_def)

end
