(* ===== verification/Spec2Isabelle.thy ===== *)
theory Spec2Isabelle
  imports Files_Routing Chat_Request File_Pins Key_Policy Chat_Stream Token_Refresh Upstream_Routes Coordination Proxy_Helpers Bridge_Forward Dashboard_Auth
    Dynamics Routing Rate_Limiter Admission Ring Planning Dedupe Locality
begin

text \<open>
  A verification of codex-lb, a proxy that spreads the traffic of OpenAI-compatible clients over a pool of ChatGPT
  accounts. The paths below are relative to \<open>src/\<close>.

  \<^bold>\<open>The program\<close>

  A request passes the firewall (\<open>app/core/middleware/api_firewall.py\<close>), the gates of the process
  (\<open>app/modules/proxy/work_admission.py\<close>) and the admission of its API key (\<open>app/modules/api_keys\<close>); the policy of the key
  and the strictness of its schemas are enforced on its payload (\<open>app/modules/proxy/request_policy.py\<close>,
  \<open>app/core/openai/strict_schema.py\<close>); its headers and its prompt cache key put it into an affinity family
  (\<open>app/modules/proxy/affinity.py\<close>); the load balancer (\<open>app/modules/proxy/load_balancer.py\<close> over
  \<open>app/core/balancer/logic.py\<close>) builds the states of the accounts from rows, usage samples and what it remembers at run
  time, keeps a session on its account or picks one by the configured strategy, and hands out a lease; the access
  token of the account is refreshed when it is old (\<open>app/modules/accounts/auth_manager.py\<close>) and the route to the upstream is
  resolved (\<open>app/core/upstream_proxy\<close>); the event stream comes back as it is or as chat completions
  (\<open>app/core/openai/chat_responses.py\<close>), repeated tool calls suppressed on the way
  (\<open>app/modules/proxy/tool_call_dedupe.py\<close>); failures and successes flow back into the states.
  Long conversations live in bridge sessions that one replica owns at a time
  (\<open>app/modules/proxy/durable_bridge_repository.py\<close>), the owner being found by rendezvous hashing over the live
  replicas, and other replicas forward to it (\<open>app/modules/proxy/http_bridge_forwarding.py\<close>). A planner
  (\<open>app/modules/quota_planner\<close>) prices accounts for routing and plans warm-ups; one elected replica runs the background jobs
  (\<open>app/core/scheduling/leader_election.py\<close>). A dashboard with its own login (\<open>app/modules/dashboard_auth\<close>) manages it all.

  \<^bold>\<open>Theories\<close>

  \<^item> \<open>Prelude\<close>: Python's \<open>min\<close>, \<open>max\<close>, \<open>choices\<close>, text operations, tables, and the locales \<open>picker\<close> (the contract
    of a strategy) and \<open>machine\<close> (invariants of operation sequences). \<open>Addresses\<close>: Python's \<open>ipaddress\<close>.
  \<^item> \<open>Models\<close> (\<open>app/db/models.py\<close>, \<open>app/core/plan_types.py\<close>), \<open>Usage\<close> (\<open>app/core/usage\<close>: windows, quota rule,
    depletion forecast), \<open>Retry\<close> (\<open>app/core/utils/retry.py\<close>), \<open>Pricing\<close> (\<open>app/core/usage/pricing.py\<close>).
  \<^item> \<open>Balancer\<close>, \<open>Selection\<close>, \<open>Dynamics\<close>: the selection logic and its strategies; a selected account is one that may
    serve (soundness), a servable account is always found (completeness), a failed one stays out as long as it must.
  \<^item> \<open>Leases\<close>, \<open>Account_State\<close>, \<open>Persistence\<close>, \<open>Stickiness\<close>, \<open>Routing\<close>: the load balancer. Leases are balanced and
    swept exactly; blocks are lifted on evidence only; conditional status writes never overwrite a newer row; sessions stay
    on their account; the whole selection, other tasks running at every \<open>await\<close>, leaks no lease.
  \<^item> \<open>Quota_Keys\<close> (\<open>app/modules/usage/additional_quota_keys.py\<close>), \<open>Model_Registry\<close> (\<open>app/core/openai/model_registry.py\<close>),
    \<open>Selection_Inputs\<close>, \<open>Scoped_Selection\<close>: what the balancer chooses from. Every name of an additional quota leads to its definition; a
    refresh of the models replaces exactly what the refreshed plans list; the inputs are exactly the eligible accounts, cached or
    not; the balancer answers with an account of its inputs.
  \<^item> \<open>Unary_Failover\<close>, \<open>Files_Routing\<close>, \<open>File_Pins\<close> (\<open>app/modules/proxy/service.py\<close>, \<open>app/modules/proxy/_service/file_ops.py\<close>):
    requests answered in one piece. Selection within a budget, refresh, failover and reports keep to the accounts of the
    API key and to the owner of a file; files follow the account they were uploaded through. The locale \<open>unary_accounts\<close> states
    what a request relies on, and is interpreted on the balancer of \<open>Routing\<close> with the inputs of \<open>Selection_Inputs\<close>.
  \<^item> \<open>Resilience\<close> (\<open>app/core/resilience\<close>), \<open>Rate_Limiter\<close> (\<open>app/core/rate_limiter\<close>): circuit breaker with the
    callers of \<open>app/core/clients/proxy.py\<close> that check and record on it, retry budget, bulkhead, login limiter. A half-open
    breaker lets one probe out; the budget and the limiter hold in every window.
  \<^item> \<open>Api_Keys\<close>, \<open>Ledger\<close>, \<open>Admission\<close> (\<open>app/modules/api_keys\<close>): limits and reservations. \<open>Ledger\<close> states the abstract
    books (what every reservation holds in the current window); the counters of the code refine it in every store that
    any interleaving of sessions and the background job reaches.
  \<^item> \<open>Bridge\<close>, \<open>Ownership\<close>, \<open>Ring\<close> (durable bridge, ring membership, \<open>app/core/balancer/rendezvous_hash.py\<close>): owner
    epochs are fencing tokens; claims respect live leases; replicas agree on the owner and a leaving replica moves only
    its own sessions.
  \<^item> \<open>Planner\<close>, \<open>Planning\<close> (\<open>app/modules/quota_planner/logic.py\<close>): forecast, simulation, plan, routing costs.
  \<^item> \<open>Affinity\<close>, \<open>Dedupe\<close>: affinity policies and derived cache keys; suppression of repeated side effects in streams,
    in parallel calls and in replayed input.
  \<^item> \<open>Firewall\<close>, \<open>Locality\<close> (\<open>app/modules/firewall\<close>, \<open>app/core/middleware\<close>, \<open>app/core/request_locality.py\<close>): cached
    verdicts equal fresh ones once invalidations have arrived, forged forwarding headers change nothing, no remote client
    passes for a local one.
  \<^item> \<open>Json\<close>, \<open>Strict_Schema\<close>, \<open>Request_Policy\<close>, \<open>Key_Policy\<close>: the payload. The iterative validator of strict schemas decides
    exactly the recursive specification; an authorized request runs the model, effort and tier its key prescribes; a
    compaction trigger is taken off only at the end of the input; a key that enforces a model admits it, and its stored
    policy is read back as it was written.
  \<^item> \<open>Request_Input\<close>, \<open>Message_Coercion\<close>, \<open>Chat_Request\<close> (\<open>app/core/openai/requests.py\<close>, \<open>message_coercion.py\<close>,
    \<open>chat_requests.py\<close>, \<open>v1_requests.py\<close>): what is sent upstream. The text of privileged messages goes to the instructions, refused
    parameters and foreign spellings are gone, a chat request keeps its tool calls.
  \<^item> \<open>Sse\<close>, \<open>Tool_Calls\<close>, \<open>Chat_Stream\<close>: server-sent events and the chat adapter. A stream of events survives framing and
    keep-alives; every tool call has one slot however its parts are named; streamed and collected answers agree; a stream of
    chunks follows the protocol of the clients.
  \<^item> \<open>Singleflight\<close>, \<open>Token_Refresh\<close>: at most one refresh per key is in flight, a refused one cools down, an account is
    deactivated only on the refusal of the token that was read, and a refresh never moves an account into a workspace that another one holds.
  \<^item> \<open>Upstream_Routes\<close>, \<open>Proxy_Helpers\<close>, \<open>Coordination\<close>, \<open>Bridge_Forward\<close>: a token refresh goes out over the pool of its account
    or not at all where one is bound;
    reported limits are averages within bounds; gates hold their capacity; two replicas never lead at once; a forwarded
    request arrives as it was signed, and its relay does not depend on how the bytes are cut.
  \<^item> \<open>Dashboard_Access\<close>, \<open>Dashboard_Auth\<close>: write access to a protected dashboard needs evidence, credentials change only by someone
    entitled to it (what a request reads and what it finds when it writes are separate arguments), a
    one-time password works once.
  \<^item> This theory: affinity and routing together.

  \<^bold>\<open>Conventions\<close>

  \<^item> State is passed explicitly; tables are lists of rows or association lists on their primary key; exceptions are the
    left summand of a sum or \<open>None\<close>; every early return of the code is a branch.
  \<^item> Python's floats are reals, its integers \<open>int\<close> or \<open>nat\<close>: rounding errors are not modelled. Times are seconds.
  \<^item> What the code takes from outside is an argument: clock readings (one per reading), random draws, generated
    identifiers, digests, JSON printing and parsing.
  \<^item> One transaction of the database is one step. Where the code reads and writes in separate steps, a function argument
    or a step relation stands for what other tasks or replicas do in between: the arguments \<open>race\<close>, and the relations
    \<open>store_reach\<close>, \<open>bridge_run\<close>, \<open>breaker_step\<close>, \<open>sf_step\<close> and \<open>fw_step\<close>.
  \<^item> No definition uses fuel. The selection loop makes the four attempts of the code; batch loops (500 rows) and window
    advances are recursions with a termination proof; everything else is structural.

  \<^bold>\<open>Not modelled\<close>

  The orchestration of streams, HTTP bridge and websocket sessions (the rest of \<open>app/modules/proxy/service.py\<close> and of
  \<open>app/modules/proxy/_service\<close>), routes and payload schemas (\<open>app/modules/proxy/api.py\<close>), the HTTP and websocket transport of
  the upstream clients and the browser part of the OAuth login are asynchronous input and output around the modelled
  decisions. Reports, settings pages, request logs, migrations, middleware wiring and the front end carry no logic of the
  balancer. Metrics, audit events and log lines are left out everywhere. Of the modelled components, listings for the
  dashboard, the names and counters of API keys when they are edited, the aggregation of costs over request logs, the
  planner's repository and scheduler, the detection of host networks by the operating system, the bodies of the replies of the
  login endpoints, the transcription endpoint (which shares the failover) and the typing of payloads by pydantic are left out.
\<close>

section \<open>Affinity and routing together\<close>

text \<open>
  How the streaming path hands the affinity policy of a request to the balancer
  (\<open>app/modules/proxy/_service/streaming/retry.py\<close>): key, kind, reallocation and maximum age come from the policy, the
  rest of the selection arguments from the settings.
\<close>

definition sticky_request_of :: "affinity_policy \<Rightarrow> sticky_request \<Rightarrow> sticky_request" where
  "sticky_request_of policy req =
     req\<lparr>sr_key := ap_key policy, sr_kind := ap_kind policy, sr_reallocate := ap_reallocate_sticky policy,
         sr_max_age_seconds := ap_max_age_seconds policy\<rparr>"

text \<open>
  C9: A conversation of foreground traffic stays on its account. The client of a request that was given a turn state echoes
  it on the next request; if that request is foreground (API keys for opportunistic traffic are not covered), the balancer
  has its store of bindings, and the state is bound to an account that is in the pool and ready, not under budget pressure
  and not rate limited for long, then the next request, classified by its headers and routed by the balancer, is answered by
  exactly that account and the binding stays, whatever the payload, the affinity settings, the strategy and the other
  accounts.
\<close>

theorem echoed_turn_state_keeps_account:
  fixes clk :: sticky_clock
  assumes policy: "policy = fst (sticky_key_for_responses_request digest dumps uuid derive payload
             (build_downstream_turn_state_response_headers t) affinity api_key_id)"
      and req: "req = sticky_request_of policy base"
      and given: "t = ensure_http_downstream_turn_state uuid' hs" "length uuid' = 32" "list_all lower_hex uuid'"
      and repo: "sr_repo base"
      and bound: "existing_binding clk req t CODEX_SESSION tbl = (tbl', Some a)" "a \<noteq> []"
      and pinned: "index_of_account a states = Some n" "so_traffic_class opts = Foreground"
        "ready (current_time (stc_envs clk 1) None) (bypass_standard_quota (pinned_opts opts) (states ! n)) (states ! n)"
      and calm: "\<not> budget_pressured req opts (states ! n)"
  shows "\<exists>states' s. select_with_stickiness clk req opts account_map tbl states = (tbl', states', Inr (selected_account s)) \<and>
                    st_account_id s = a"
proof -
  have t: "py_strip t = t \<and> t \<noteq> []" using given by (simp add: turn_state_stripped)
  have head: "sticky_key_from_turn_state_header (build_downstream_turn_state_response_headers t) = Some t"
    using t by (simp add: stripped_nonempty_fixed)
  have key: "sr_key req = Some t" "sr_kind req = Some CODEX_SESSION" "sr_max_age_seconds req = None" "sr_repo req"
    using head repo
    by (simp_all add: req policy sticky_request_of_def turn_state_policy)
  have "\<not> rate_limit_far_away req (stc_now clk) (states ! n)" using key(2) by (simp add: rate_limit_far_away_def)
  from stays_on_ready_account [OF key(1) _ key(4) key(2) bound pinned calm this, of account_map] t key(3)
  show ?thesis by auto
qed

text \<open>A request without a body, and affinity settings, for the example.\<close>

definition example_payload :: responses_payload where
  "example_payload =
     \<lparr>rp_model = None, rp_instructions = None, rp_input = JNull, rp_prompt_cache_key = None, rp_model_extra = []\<rparr>"

definition example_affinity :: affinity_options where
  "example_affinity =
     \<lparr>ao_codex_session_affinity = False, ao_openai_cache_affinity = True, ao_openai_cache_affinity_max_age_seconds = 60,
      ao_sticky_threads_enabled = False, ao_codex_session_budget_reallocation_enabled = True\<rparr>"

theorem echoed_turn_state_keeps_account_witness:
  "\<exists>states' s. select_with_stickiness example_sticky_clock
       (sticky_request_of (fst (sticky_key_for_responses_request rev (\<lambda>_. ''{}'') ''u'' False example_payload
          (build_downstream_turn_state_response_headers
             (ensure_http_downstream_turn_state (replicate 32 (CHR ''a'')) [(''X-Codex-Turn-State'', ''session'')]))
          example_affinity None)) example_sticky_req)
       example_opts example_account_map example_sticky_table example_states =
     (example_sticky_table, states', Inr (selected_account s)) \<and> st_account_id s = ''b''"
proof -
  let ?t = "ensure_http_downstream_turn_state (replicate 32 (CHR ''a'')) [(''X-Codex-Turn-State'', ''session'')]"
  let ?policy = "fst (sticky_key_for_responses_request rev (\<lambda>_. ''{}'') ''u'' False example_payload
       (build_downstream_turn_state_response_headers ?t) example_affinity None)"
  let ?req = "sticky_request_of ?policy example_sticky_req"
  have hex: "length (replicate 32 (CHR ''a'')) = 32" "list_all lower_hex (replicate 32 (CHR ''a''))"
    by (simp_all add: lower_hex_def list_all_iff)
  have t: "?t = ''session''" by code_simp
  have header: "sticky_key_from_turn_state_header (build_downstream_turn_state_response_headers ?t) = Some ''session''"
    unfolding t by code_simp
  have req: "?req = example_sticky_req"
    using turn_state_policy [OF header] by (simp add: sticky_request_of_def example_sticky_req_def)
  have n: "index_of_account ''b'' example_states = Some 1" by (simp add: example_states_def AccountState_def)
  have nth: "example_states ! 1 = AccountState ''b'' ACTIVE" by (simp add: example_states_def)
  have ready: "ready c b (example_states ! 1)" for c b unfolding nth by (simp add: ready_defs AccountState_def)
  have calm: "\<not> budget_pressured ?req example_opts (example_states ! 1)"
    unfolding req nth by (simp add: budget_pressured_def drain_strategy_def example_opts_def example_sticky_req_def)
  have "so_traffic_class example_opts = Foreground" "sr_repo example_sticky_req"
    by (simp_all add: example_opts_def default_opts_def example_sticky_req_def)
  moreover have "existing_binding example_sticky_clock ?req ?t CODEX_SESSION example_sticky_table =
      (example_sticky_table, Some ''b'')"
    unfolding req unfolding t by (rule example_binding(2))
  ultimately have "\<exists>states' s. select_with_stickiness example_sticky_clock ?req example_opts example_account_map
      example_sticky_table example_states = (example_sticky_table, states', Inr (selected_account s)) \<and> st_account_id s = ''b''"
    using n ready calm hex
    by (intro echoed_turn_state_keeps_account [where t = ?t, OF refl refl refl]) simp_all
  then show ?thesis .
qed

end
